(* ===== verification/JsPrelude.thy ===== *)
theory JsPrelude
  imports Main "HOL-Library.AList" "HOL-Library.Sublist"
begin

text \<open>
  The shared vocabulary of the development: JavaScript values, the list, string and
  object operations of the language that the modelled code calls, the parameters of an address,
  and the collections of rewrite rules the component proofs use.

  Conventions.  A number of the program is an \<open>int\<close> (the modelled code counts, indexes
  and measures milliseconds; no modelled operation divides).  A string is a HOL
  \<open>string\<close>: its characters are the code points below 256.  A plain object, a \<open>Map\<close> and
  a \<open>Record\<close> keep their keys in insertion order, so they are association lists, written
  with \<open>AList.update\<close> (an existing key keeps its place, a new key goes last) and
  \<open>AList.delete\<close>; properties inherited from \<open>Object.prototype\<close> are not modelled.  The clock is an argument (\<open>now\<close>) of the operations that read it.
\<close>

named_theorems js_simps "evaluation rules for the JavaScript operations of the prelude"
named_theorems state_simps "unfolding rules for the state transformers of a component"

section \<open>Values\<close>

datatype jsv =
    JUndef
  | JNull
  | JBool bool
  | JNum int
  | JStr string
  | JArr "jsv list"
  | JObj "(string \<times> jsv) list"

type_synonym jsobj = "(string \<times> jsv) list"

text \<open>The value as a condition: \<open>undefined\<close>, \<open>null\<close>, \<open>false\<close>, 0 and the empty string are falsy.\<close>

fun truthy :: "jsv \<Rightarrow> bool" where
  "truthy JUndef = False"
| "truthy JNull = False"
| "truthy (JBool b) = b"
| "truthy (JNum n) = (n \<noteq> 0)"
| "truthy (JStr s) = (s \<noteq> [])"
| "truthy (JArr xs) = True"
| "truthy (JObj kvs) = True"

text \<open>\<open>a ?? b\<close> and \<open>a || b\<close>.\<close>

fun nullish_or :: "jsv \<Rightarrow> jsv \<Rightarrow> jsv" where
  "nullish_or JUndef b = b"
| "nullish_or JNull b = b"
| "nullish_or a b = a"

definition js_or :: "jsv \<Rightarrow> jsv \<Rightarrow> jsv" where
  "js_or a b = (if truthy a then a else b)"

text \<open>Property access on an object, \<open>undefined\<close> when the property is missing.\<close>

definition prop_of :: "jsobj \<Rightarrow> string \<Rightarrow> jsv" where
  "prop_of kvs k = (case map_of kvs k of None \<Rightarrow> JUndef | Some v \<Rightarrow> v)"

text \<open>\<open>{...base, ...updates}\<close>: the updates are written one after the other.\<close>

definition spread :: "('k \<times> 'v) list \<Rightarrow> ('k \<times> 'v) list \<Rightarrow> ('k \<times> 'v) list" where
  "spread base updates = fold (\<lambda>(k, v) acc. AList.update k v acc) updates base"

lemma keys_delete [simp]: "fst ` set (AList.delete k kvs) = fst ` set kvs - {k}"
  by (force simp: AList.delete_eq)

lemma AList_update_cases:
  assumes "(j, w) \<in> set (AList.update k v kvs)"
    and "(j, w) \<in> set kvs \<Longrightarrow> P" "j = k \<Longrightarrow> w = v \<Longrightarrow> P"
  shows P
proof -
  have "(j, w) \<in> set kvs \<or> (j = k \<and> w = v)"
    using assms(1) by (induction kvs) (auto split: if_splits)
  then show P using assms(2,3) by blast
qed

lemma map_of_spread:
  "map_of (spread base ups) k = (case map_of (rev ups) k of None \<Rightarrow> map_of base k | Some v \<Rightarrow> Some v)"
proof (induction ups arbitrary: base)
  case (Cons u ups)
  then show ?case
    by (cases u) (auto simp: spread_def update_conv' map_add_def split: option.split)
qed (simp add: spread_def)

lemma spread_distinct: "distinct (map fst base) \<Longrightarrow> distinct (map fst (spread base ups))"
  by (induction ups arbitrary: base) (auto simp: spread_def distinct_update)

lemma map_of_rev_distinct: "distinct (map fst xs) \<Longrightarrow> map_of (rev xs) = map_of xs"
proof (induction xs)
  case (Cons x xs)
  moreover have "map_of xs (fst x) = None" using Cons.prems by (simp add: map_of_eq_None_iff)
  ultimately show ?case by (auto simp: fun_eq_iff map_add_def split: option.split)
qed simp

lemma spread_keys: "fst ` set (spread base ups) = fst ` set base \<union> fst ` set ups"
proof (induction ups arbitrary: base)
  case (Cons u ups)
  then show ?case by (cases u) (simp add: spread_def dom_update)
qed (simp add: spread_def)

text \<open>Writing all fields of an object over one with fewer fields gives the object.\<close>

lemma spread_over:
  assumes "fst ` set base \<subseteq> fst ` set ups" "distinct (map fst ups)"
  shows "map_of (spread base ups) = map_of ups"
proof
  fix k
  have "map_of ups k = None \<Longrightarrow> map_of base k = None"
    using assms(1) by (auto simp: map_of_eq_None_iff)
  then show "map_of (spread base ups) k = map_of ups k"
    by (simp add: map_of_spread map_of_rev_distinct [OF assms(2)] split: option.split)
qed

section \<open>Arrays\<close>

text \<open>\<open>xs.slice(k)\<close>: a negative start counts from the end, and \<open>slice(-0)\<close> is \<open>slice(0)\<close>,
  the whole array.\<close>

definition slice_from :: "int \<Rightarrow> 'a list \<Rightarrow> 'a list" where
  "slice_from k xs = (if 0 \<le> k then drop (nat k) xs else drop (length xs - nat (- k)) xs)"

text \<open>\<open>xs.slice(0, k)\<close> for \<open>k\<close> of either sign.\<close>

definition slice_to :: "int \<Rightarrow> 'a list \<Rightarrow> 'a list" where
  "slice_to k xs = (if 0 \<le> k then take (nat k) xs else take (length xs - nat (- k)) xs)"

lemma slice_from_neg_length [simp]:
  "0 < m \<Longrightarrow> length (slice_from (- m) xs) = min (length xs) (nat m)"
  by (auto simp: slice_from_def)

lemma slice_from_neg_twice:
  "0 < m \<Longrightarrow> slice_from (- m) (slice_from (- m) xs @ [x]) = slice_from (- m) (xs @ [x])"
  by (cases "nat m \<le> length xs") (auto simp: slice_from_def Suc_diff_le)

lemma slice_from_neg_id:
  "int (length xs) \<le> m \<Longrightarrow> slice_from (- m) xs = xs"
  by (auto simp: slice_from_def)

lemma slice_from_zero [simp]: "slice_from 0 xs = xs"
  by (simp add: slice_from_def)

definition find_first :: "('a \<Rightarrow> bool) \<Rightarrow> 'a list \<Rightarrow> 'a option" where
  "find_first p xs = List.find p xs"

fun index_where :: "('a \<Rightarrow> bool) \<Rightarrow> 'a list \<Rightarrow> nat option" where
  "index_where p [] = None"
| "index_where p (x # xs) = (if p x then Some 0 else map_option Suc (index_where p xs))"

section \<open>Strings\<close>

definition code :: "char \<Rightarrow> nat" where
  "code c = (of_char c :: nat)"

definition is_space :: "char \<Rightarrow> bool" where
  "is_space c = ((9 \<le> code c \<and> code c \<le> 13) \<or> code c = 32 \<or> code c = 160)"

definition trim_start :: "string \<Rightarrow> string" where
  "trim_start s = dropWhile is_space s"

definition trim :: "string \<Rightarrow> string" where
  "trim s = rev (dropWhile is_space (rev (dropWhile is_space s)))"

text \<open>\<open>toLowerCase\<close> on the characters below 256: A to Z and the accented capitals, except
  the multiplication sign (215), move up by 32.\<close>

definition lower_char :: "char \<Rightarrow> char" where
  "lower_char c =
     (if (65 \<le> code c \<and> code c \<le> 90) \<or> (192 \<le> code c \<and> code c \<le> 222 \<and> code c \<noteq> 215)
      then char_of (code c + 32) else c)"

definition lower :: "string \<Rightarrow> string" where
  "lower s = map lower_char s"

definition starts_with :: "string \<Rightarrow> string \<Rightarrow> bool" where
  "starts_with p s = (take (length p) s = p)"

fun str_includes :: "string \<Rightarrow> string \<Rightarrow> bool" where
  "str_includes p [] = (p = [])"
| "str_includes p (c # s) = (starts_with p (c # s) \<or> str_includes p s)"

text \<open>\<open>s.split(c)\<close> for a one-character separator: never empty.\<close>

fun split_on :: "char \<Rightarrow> string \<Rightarrow> string list" where
  "split_on c [] = [[]]"
| "split_on c (x # s) =
     (if x = c then [] # split_on c s
      else (case split_on c s of [] \<Rightarrow> [[x]] | w # ws \<Rightarrow> (x # w) # ws))"

fun join_with :: "string \<Rightarrow> string list \<Rightarrow> string" where
  "join_with sep [] = []"
| "join_with sep [w] = w"
| "join_with sep (w # v # ws) = w @ sep @ join_with sep (v # ws)"

lemma split_on_plain:
  assumes "list_all (\<lambda>x. x \<noteq> c) w"
  shows "split_on c (w @ c # s) = w # split_on c s" "split_on c w = [w]"
  using assms by (induction w) auto

lemma split_on_parts: "\<forall>w \<in> set (split_on c s). c \<notin> set w"
  by (induction c s rule: split_on.induct) (auto split: list.splits)

lemma split_on_nonempty [simp]: "split_on c s \<noteq> []"
  by (induction c s rule: split_on.induct) (auto split: list.splits)

lemma join_with_Cons: "join_with sep (w # ws) = w @ (if ws = [] then [] else sep @ join_with sep ws)"
  by (cases ws) simp_all

lemma join_split [simp]: "join_with [c] (split_on c s) = s"
  by (induction c s rule: split_on.induct) (auto simp: join_with_Cons split: list.split)

lemma starts_with_iff: "starts_with p s \<longleftrightarrow> (\<exists>t. s = p @ t)"
  by (auto simp: starts_with_def) (metis append_take_drop_id)

lemma starts_with_append [simp]: "starts_with p (p @ t)"
  by (simp add: starts_with_def)

text \<open>The joined beginning of a list is a beginning of the joined list.\<close>

lemma starts_with_join_take: "starts_with (join_with sep (take n ws)) (join_with sep ws)"
proof (induction ws arbitrary: n)
  case (Cons w ws)
  show ?case
  proof (cases n)
    case (Suc k)
    then show ?thesis
      using Cons.IH [of k] by (cases "k = 0") (auto simp: join_with_Cons starts_with_iff)
  qed (simp add: starts_with_def)
qed (simp add: starts_with_def)

text \<open>\<open>s.replace(p, r)\<close> for a text: the first occurrence.\<close>

fun replace_first :: "string \<Rightarrow> string \<Rightarrow> string \<Rightarrow> string" where
  "replace_first p r [] = (if p = [] then r else [])"
| "replace_first p r (c # s) =
     (if starts_with p (c # s) then r @ drop (length p) (c # s) else c # replace_first p r s)"

text \<open>The double quote.\<close>

definition DQ :: char where "DQ = char_of (34 :: nat)"

lemma DQ_is: "DQ = CHR 0x22"
  by code_simp

text \<open>The decimal text of a natural number, and of an integer.\<close>

function nat_text :: "nat \<Rightarrow> string" where
  "nat_text n = (if n < 10 then [char_of (48 + n)] else nat_text (n div 10) @ [char_of (48 + n mod 10)])"
  by pat_completeness auto
termination by (relation "measure id") auto

declare nat_text.simps [simp del]

definition int_text :: "int \<Rightarrow> string" where
  "int_text i = (if i < 0 then CHR ''-'' # nat_text (nat (- i)) else nat_text (nat i))"

text \<open>\<open>String(value)\<close>\<close>

fun js_string :: "jsv \<Rightarrow> string"
  and js_elements :: "jsv list \<Rightarrow> string list"
where
  "js_string JUndef = ''undefined''"
| "js_string JNull = ''null''"
| "js_string (JBool b) = (if b then ''true'' else ''false'')"
| "js_string (JNum n) = int_text n"
| "js_string (JStr s) = s"
| "js_string (JArr xs) = join_with '','' (js_elements xs)"
| "js_string (JObj kvs) = ''[object Object]''"
| "js_elements [] = []"
| "js_elements (x # xs) = (if x = JUndef \<or> x = JNull then [] else js_string x) # js_elements xs"

text \<open>\<open>m.get(k) ?? d\<close>.\<close>

definition get_or :: "'v \<Rightarrow> ('k \<times> 'v) list \<Rightarrow> 'k \<Rightarrow> 'v" where
  "get_or d m k = (case map_of m k of None \<Rightarrow> d | Some v \<Rightarrow> v)"

lemma get_or_update [simp]: "get_or d (AList.update k v m) j = (if j = k then v else get_or d m j)"
  by (simp add: get_or_def update_conv')

section \<open>The parameters of an address\<close>

text \<open>
  \<open>URLSearchParams\<close>: the decoded pairs of a query string in their order.  \<open>set\<close> writes the first pair
  of its key and removes the others, \<open>get\<close> is \<open>map_of\<close>.
\<close>

type_synonym params = "(string \<times> string) list"

definition params_delete :: "string \<Rightarrow> params \<Rightarrow> params" where
  "params_delete k ps = filter (\<lambda>(j, _). j \<noteq> k) ps"

fun params_set :: "string \<Rightarrow> string \<Rightarrow> params \<Rightarrow> params" where
  "params_set k v [] = [(k, v)]"
| "params_set k v ((j, w) # ps) =
     (if j = k then (k, v) # params_delete k ps else (j, w) # params_set k v ps)"

lemma params_delete_Nil [simp]: "params_delete k [] = []"
  by (simp add: params_delete_def)

lemma params_delete_get [simp]:
  "map_of (params_delete k ps) j = (if j = k then None else map_of ps j)"
  by (induction ps) (auto simp: params_delete_def)

lemma params_set_get [simp]:
  "map_of (params_set k v ps) j = (if j = k then Some v else map_of ps j)"
  by (induction k v ps rule: params_set.induct) auto

text \<open>Writing what is there changes nothing, and the last write counts.\<close>

lemma params_delete_id: "map_of ps k = None \<Longrightarrow> params_delete k ps = ps"
  by (induction ps) (auto simp: params_delete_def split: if_splits)

lemma params_delete_idem [simp]: "params_delete k (params_delete k ps) = params_delete k ps"
  by (rule params_delete_id) simp

lemma params_set_idem [simp]: "params_set k v (params_set k v ps) = params_set k v ps"
  by (induction k v ps rule: params_set.induct) auto

end
