(* ===== verification/Machines.thy ===== *)
theory Machines
  imports JsPrelude
begin

text \<open>
  Interfaces the components share.  A component is a state with an event type and a step
  function; \<open>run\<close> folds the events in the order in which the browser delivers them.
  \<open>machine\<close> lifts an invariant proved operation by operation to every run;
  \<open>guarded_machine\<close> does it for the runs whose events satisfy a side condition.
\<close>

definition run :: "('s \<Rightarrow> 'e \<Rightarrow> 's) \<Rightarrow> 'e list \<Rightarrow> 's \<Rightarrow> 's" where
  "run step es s = fold (\<lambda>e t. step t e) es s"

lemma run_Nil [simp]: "run step [] s = s"
  by (simp add: run_def)

lemma run_Cons [simp]: "run step (e # es) s = run step es (step s e)"
  by (simp add: run_def)

lemma run_append [simp]: "run step (es @ fs) s = run step fs (run step es s)"
  by (simp add: run_def)

locale guarded_machine =
  fixes step :: "'s \<Rightarrow> 'e \<Rightarrow> 's"
    and ok :: "'e \<Rightarrow> bool"
    and inv :: "'s \<Rightarrow> bool"
  assumes step_inv: "inv s \<Longrightarrow> ok e \<Longrightarrow> inv (step s e)"
begin

lemma run_inv: "inv s \<Longrightarrow> list_all ok es \<Longrightarrow> inv (run step es s)"
  by (induction es arbitrary: s) (auto intro: step_inv)

lemma prefix_inv: "inv s \<Longrightarrow> list_all ok (es @ fs) \<Longrightarrow> inv (run step es s)"
  by (auto intro: run_inv)

end

locale machine =
  fixes step :: "'s \<Rightarrow> 'e \<Rightarrow> 's"
    and inv :: "'s \<Rightarrow> bool"
  assumes every_step_inv: "inv s \<Longrightarrow> inv (step s e)"

sublocale machine \<subseteq> guarded: guarded_machine step "\<lambda>e. True" inv
  by unfold_locales (rule every_step_inv)

context machine
begin

lemma every_run_inv: "inv s \<Longrightarrow> inv (run step es s)"
  by (rule guarded.run_inv) (simp_all add: list_all_iff)

end

text \<open>
  \<open>keyed_store\<close>: a store whose operations are addressed to a key, change nothing another key
  reads, and compute the new entry from the old entry of the same key.  Then what a key reads
  after a run depends on the operations addressed to it alone.
\<close>

locale keyed_store =
  fixes entry :: "'s \<Rightarrow> 'k \<Rightarrow> 'v"
    and act :: "'k \<Rightarrow> 'o \<Rightarrow> 's \<Rightarrow> 's"
  assumes act_other: "j \<noteq> k \<Longrightarrow> entry (act k e s) j = entry s j"
    and act_local: "entry s k = entry t k \<Longrightarrow> entry (act k e s) k = entry (act k e t) k"
begin

lemma run_local:
  "entry s j = entry t j \<Longrightarrow>
   entry (run (\<lambda>s (k, e). act k e s) es s) j
     = entry (run (\<lambda>s (k, e). act k e s) (filter (\<lambda>ke. fst ke = j) es) t) j"
proof (induction es arbitrary: s t)
  case (Cons ke es)
  obtain k e where ke: "ke = (k, e)" by fastforce
  show ?case
  proof (cases "k = j")
    case True
    then show ?thesis using Cons.IH [OF act_local [OF Cons.prems]] by (simp add: ke)
  next
    case False
    then have "entry (act k e s) j = entry t j" using Cons.prems by (simp add: act_other)
    then show ?thesis using Cons.IH False by (simp add: ke)
  qed
qed simp

lemma run_projects:
  "entry (run (\<lambda>s (k, e). act k e s) es s) j
     = entry (run (\<lambda>s (k, e). act k e s) (filter (\<lambda>ke. fst ke = j) es) s) j"
  by (rule run_local) (rule refl)

end

end
