(* ===== verification/Undo.thy ===== *)
theory Undo
  imports Machines
begin

text \<open>
  The undo/redo hook of \<open>frontend/src/hooks/use-undo.ts\<close>.  The React state \<open>history\<close> and
  the two refs (the live debounce timer and the pending value) are one record; the options
  are a second one.  A React state updater runs on the state left by the updaters queued
  before it, so each \<open>setHistory\<close> call is a state transformer applied in program order.
  The ref \<open>pendingValueRef\<close> uses \<open>null\<close> for "nothing pending", so a pending value that
  is itself \<open>null\<close> is not pending.
\<close>

record undo_options =
  maxHistory :: int
  debounceMs :: int
  isEqual :: "jsv \<Rightarrow> jsv \<Rightarrow> bool"

record history_state =
  past :: "jsv list"
  present :: jsv
  future :: "jsv list"

record undo_state = history_state +
  debounceTimeout :: bool
  pendingValue :: jsv
  initialValueRef :: jsv

datatype action = Value jsv | Updater "jsv \<Rightarrow> jsv"

fun resolve :: "action \<Rightarrow> jsv \<Rightarrow> jsv" where
  "resolve (Value v) prev = v"
| "resolve (Updater f) prev = f prev"

definition undo_init :: "jsv \<Rightarrow> undo_state" where
  "undo_init v = \<lparr> past = [], present = v, future = [], debounceTimeout = False,
     pendingValue = JNull, initialValueRef = v \<rparr>"

text \<open>The history entry written by a change: the old present goes to the past, cut to the
  last \<open>maxHistory\<close> entries, and the future is dropped.\<close>

definition push_past :: "undo_options \<Rightarrow> jsv \<Rightarrow> undo_state \<Rightarrow> undo_state" where
  "push_past opt v s = s\<lparr> past := slice_from (- maxHistory opt) (past s @ [present s]),
     present := v, future := [] \<rparr>"

definition flushDebounce :: "undo_options \<Rightarrow> undo_state \<Rightarrow> undo_state" where
  "flushDebounce opt s =
     (let s = s\<lparr> debounceTimeout := False \<rparr> in
      if pendingValue s \<noteq> JNull then
        let v = pendingValue s; s = s\<lparr> pendingValue := JNull \<rparr> in
        if isEqual opt (present s) v then s else push_past opt v s
      else s)"

definition setValue :: "undo_options \<Rightarrow> action \<Rightarrow> undo_state \<Rightarrow> undo_state" where
  "setValue opt act s =
     (let s = s\<lparr> debounceTimeout := False \<rparr>; v = resolve act (present s) in
      if isEqual opt (present s) v then s
      else if debounceMs opt > 0 then
        s\<lparr> pendingValue := v, debounceTimeout := True, present := v \<rparr>
      else push_past opt v s)"

definition updateValue :: "undo_options \<Rightarrow> action \<Rightarrow> undo_state \<Rightarrow> undo_state" where
  "updateValue opt act s =
     (let v = resolve act (present s) in
      if isEqual opt (present s) v then s else s\<lparr> present := v \<rparr>)"

definition undo :: "undo_options \<Rightarrow> undo_state \<Rightarrow> undo_state" where
  "undo opt s0 =
     (let s = flushDebounce opt s0 in
      if past s = [] then s
      else s\<lparr> past := butlast (past s), present := last (past s),
              future := present s # future s \<rparr>)"

definition redo :: "undo_options \<Rightarrow> undo_state \<Rightarrow> undo_state" where
  "redo opt s0 =
     (let s = flushDebounce opt s0 in
      case future s of
        [] \<Rightarrow> s
      | v # vs \<Rightarrow> s\<lparr> past := past s @ [present s], present := v, future := vs \<rparr>)"

text \<open>\<open>reset(value?)\<close>: an omitted argument is \<open>undefined\<close>.\<close>

definition reset :: "jsv \<Rightarrow> undo_state \<Rightarrow> undo_state" where
  "reset value s = s\<lparr> debounceTimeout := False, pendingValue := JNull, past := [],
     present := (if value \<noteq> JUndef then value else initialValueRef s), future := [] \<rparr>"

definition clearHistory :: "undo_state \<Rightarrow> undo_state" where
  "clearHistory s = s\<lparr> debounceTimeout := False, pendingValue := JNull, past := [], future := [] \<rparr>"

definition canUndo :: "undo_state \<Rightarrow> bool" where
  "canUndo s = (length (past s) > 0)"

definition canRedo :: "undo_state \<Rightarrow> bool" where
  "canRedo s = (length (future s) > 0)"

text \<open>The debounce timer calls \<open>flushDebounce\<close>; a cleared timer never fires.\<close>

definition timerFires :: "undo_options \<Rightarrow> undo_state \<Rightarrow> undo_state" where
  "timerFires opt s = (if debounceTimeout s then flushDebounce opt s else s)"

text \<open>\<open>useFormUndo\<close>: field updates of a form record through \<open>setValue\<close>.\<close>

fun fields_of :: "jsv \<Rightarrow> jsobj" where
  "fields_of (JObj kvs) = kvs"
| "fields_of v = []"

definition setFields :: "undo_options \<Rightarrow> jsobj \<Rightarrow> undo_state \<Rightarrow> undo_state" where
  "setFields opt updates = setValue opt (Updater (\<lambda>prev. JObj (spread (fields_of prev) updates)))"

definition setField :: "undo_options \<Rightarrow> string \<Rightarrow> jsv \<Rightarrow> undo_state \<Rightarrow> undo_state" where
  "setField opt f v = setValue opt (Updater (\<lambda>prev. JObj (AList.update f v (fields_of prev))))"

datatype undo_event =
    ESetValue action
  | EUpdateValue action
  | EUndo
  | ERedo
  | EReset jsv
  | EClearHistory
  | ETimer
  | ESetFields jsobj
  | ESetField string jsv

fun undo_step :: "undo_options \<Rightarrow> undo_state \<Rightarrow> undo_event \<Rightarrow> undo_state" where
  "undo_step opt s (ESetValue a) = setValue opt a s"
| "undo_step opt s (EUpdateValue a) = updateValue opt a s"
| "undo_step opt s EUndo = undo opt s"
| "undo_step opt s ERedo = redo opt s"
| "undo_step opt s (EReset v) = reset v s"
| "undo_step opt s EClearHistory = clearHistory s"
| "undo_step opt s ETimer = timerFires opt s"
| "undo_step opt s (ESetFields u) = setFields opt u s"
| "undo_step opt s (ESetField f v) = setField opt f v s"

section \<open>The bound on the history\<close>

definition undo_bounded :: "undo_options \<Rightarrow> undo_state \<Rightarrow> bool" where
  "undo_bounded opt s = (int (length (past s) + length (future s)) \<le> maxHistory opt)"

lemmas undo_ops = flushDebounce_def setValue_def updateValue_def undo_def redo_def reset_def
  clearHistory_def timerFires_def setFields_def setField_def push_past_def

lemma flush_bounded:
  "0 < maxHistory opt \<Longrightarrow> undo_bounded opt s \<Longrightarrow> undo_bounded opt (flushDebounce opt s)"
  by (auto simp: undo_bounded_def flushDebounce_def push_past_def Let_def)

lemma setValue_bounded:
  "0 < maxHistory opt \<Longrightarrow> undo_bounded opt s \<Longrightarrow> undo_bounded opt (setValue opt a s)"
  by (auto simp: undo_bounded_def setValue_def push_past_def Let_def)

lemma undo_keeps_bound:
  "0 < maxHistory opt \<Longrightarrow> undo_bounded opt s \<Longrightarrow> undo_bounded opt (undo opt s)"
  using flush_bounded [of opt s]
  by (cases "past (flushDebounce opt s)" rule: rev_cases)
     (auto simp: undo_bounded_def undo_def Let_def)

lemma redo_keeps_bound:
  "0 < maxHistory opt \<Longrightarrow> undo_bounded opt s \<Longrightarrow> undo_bounded opt (redo opt s)"
  using flush_bounded [of opt s]
  by (auto simp: undo_bounded_def redo_def Let_def split: list.splits)

lemma undo_step_bounded:
  "0 < maxHistory opt \<Longrightarrow> undo_bounded opt s \<Longrightarrow> undo_bounded opt (undo_step opt s e)"
proof (induction opt s e rule: undo_step.induct)
  case (2 opt s a)
  then show ?case by (auto simp: undo_bounded_def updateValue_def Let_def)
qed (auto simp: setFields_def setField_def timerFires_def
      intro: flush_bounded setValue_bounded undo_keeps_bound redo_keeps_bound,
     auto simp: undo_bounded_def reset_def clearHistory_def)

interpretation undo_bound: machine "undo_step opt" "\<lambda>s. 0 < maxHistory opt \<longrightarrow> undo_bounded opt s"
  for opt
  by unfold_locales (auto intro: undo_step_bounded)

text \<open>Undo history is bounded: after any sequence of edits, undos, redos, resets and timer
  firings the entries that can be undone or redone number at most \<open>maxHistory\<close>.\<close>

theorem undo_history_bounded:
  assumes "0 < maxHistory opt"
  shows "int (length (past (run (undo_step opt) es (undo_init v)))
           + length (future (run (undo_step opt) es (undo_init v)))) \<le> maxHistory opt"
  using undo_bound.every_run_inv [of opt "undo_init v" es] assms
  by (simp add: undo_bounded_def undo_init_def)

section \<open>Undo and redo are inverse\<close>

definition settled :: "undo_state \<Rightarrow> bool" where
  "settled s = (pendingValue s = JNull \<and> \<not> debounceTimeout s)"

lemma flush_settled [simp]: "settled s \<Longrightarrow> flushDebounce opt s = s"
  by (simp add: settled_def flushDebounce_def Let_def)

lemma undo_settled [simp]: "settled s \<Longrightarrow> settled (undo opt s)"
  by (simp add: undo_def Let_def) (simp add: settled_def)

lemma undo_lengths:
  "settled s \<Longrightarrow> past s \<noteq> [] \<Longrightarrow> length (past (undo opt s)) = length (past s) - 1"
  by (simp add: undo_def)

lemma redo_undo: "settled s \<Longrightarrow> past s \<noteq> [] \<Longrightarrow> redo opt (undo opt s) = s"
  using undo_settled [of s opt] by (simp add: redo_def Let_def) (simp add: undo_def)

lemma redo_undo_n:
  "settled s \<Longrightarrow> n \<le> length (past s) \<Longrightarrow> (redo opt ^^ n) ((undo opt ^^ n) s) = s"
proof (induction n arbitrary: s)
  case (Suc n)
  have ne: "past s \<noteq> []" using Suc.prems by auto
  have "(redo opt ^^ n) ((undo opt ^^ n) (undo opt s)) = undo opt s"
    using Suc.prems ne by (intro Suc.IH) (auto simp: undo_lengths)
  then show ?case
    using redo_undo [OF Suc.prems(1) ne] by (simp add: funpow_swap1)
qed simp

text \<open>Round trip of undo and redo: with no debounced value pending, \<open>n\<close> undos followed by
  \<open>n\<close> redos, for any \<open>n\<close> up to the number of entries of the past, give back the whole hook state.\<close>

theorem redo_after_undo:
  assumes "pendingValue s = JNull" "\<not> debounceTimeout s" "n \<le> length (past s)"
  shows "(redo opt ^^ n) ((undo opt ^^ n) s) = s"
  using assms by (intro redo_undo_n) (auto simp: settled_def)

section \<open>Undo after immediate edits\<close>

text \<open>Every value of the sequence differs from the one before it.\<close>

fun changing :: "(jsv \<Rightarrow> jsv \<Rightarrow> bool) \<Rightarrow> jsv \<Rightarrow> jsv list \<Rightarrow> bool" where
  "changing eq u [] = True"
| "changing eq u (v # vs) = (\<not> eq u v \<and> changing eq v vs)"

definition set_all :: "undo_options \<Rightarrow> jsv list \<Rightarrow> undo_state \<Rightarrow> undo_state" where
  "set_all opt vs s = run (undo_step opt) (map (\<lambda>v. ESetValue (Value v)) vs) s"

lemma set_all_simps [simp]:
  "set_all opt [] s = s"
  "set_all opt (v # vs) s = set_all opt vs (setValue opt (Value v) s)"
  by (simp_all add: set_all_def)

lemma set_all_result:
  assumes "debounceMs opt \<le> 0" "0 < maxHistory opt" "changing (isEqual opt) (present s) vs"
    and "settled s" "int (length (past s)) \<le> maxHistory opt"
  shows "settled (set_all opt vs s)
    \<and> past (set_all opt vs s) = slice_from (- maxHistory opt) (past s @ butlast (present s # vs))
    \<and> present (set_all opt vs s) = last (present s # vs)"
  using assms(3-5)
proof (induction vs arbitrary: s rule: rev_induct)
  case Nil
  then show ?case by (simp add: slice_from_neg_id)
next
  case (snoc v vs)
  have ch: "changing (isEqual opt) u (ws @ [v]) \<Longrightarrow>
      changing (isEqual opt) u ws \<and> \<not> isEqual opt (last (u # ws)) v" for u ws
    by (induction ws arbitrary: u) auto
  let ?t = "set_all opt vs s"
  have IH: "settled ?t" "present ?t = last (present s # vs)"
    "past ?t = slice_from (- maxHistory opt) (past s @ butlast (present s # vs))"
    using snoc.IH [OF _ snoc.prems(2,3)] ch [OF snoc.prems(1)] by blast+
  have ne: "\<not> isEqual opt (present ?t) v"
    using ch [OF snoc.prems(1)] IH(2) by simp
  have step: "set_all opt (vs @ [v]) s = setValue opt (Value v) ?t"
    by (simp add: set_all_def)
  have new: "past (setValue opt (Value v) ?t) = slice_from (- maxHistory opt) (past ?t @ [present ?t])"
    "present (setValue opt (Value v) ?t) = v" "settled (setValue opt (Value v) ?t)"
    using ne assms(1) IH(1) by (simp_all add: setValue_def push_past_def settled_def Let_def)
  have "past s @ butlast (present s # vs @ [v])
      = (past s @ butlast (present s # vs)) @ [last (present s # vs)]"
    using append_butlast_last_id [of "present s # vs"] by (simp add: butlast_append)
  then have "slice_from (- maxHistory opt) (past ?t @ [present ?t])
      = slice_from (- maxHistory opt) (past s @ butlast (present s # vs @ [v]))"
    unfolding IH(2,3) by (simp only: slice_from_neg_twice [OF assms(2)])
  then show ?case
    using new by (simp add: step)
qed

lemma undo_pop:
  assumes "settled s" "past s \<noteq> []"
  shows "past (undo opt s) = butlast (past s)" "present (undo opt s) = last (past s)"
  using assms by (simp_all add: undo_def)

lemma undo_n:
  assumes "settled s" "n \<le> length (past s)"
  shows "past ((undo opt ^^ n) s) = take (length (past s) - n) (past s)
    \<and> present ((undo opt ^^ n) s) = (past s @ [present s]) ! (length (past s) - n)
    \<and> settled ((undo opt ^^ n) s)"
  using assms
proof (induction n)
  case (Suc n)
  let ?t = "(undo opt ^^ n) s"
  have IH: "past ?t = take (length (past s) - n) (past s)" "settled ?t"
    using Suc by auto
  have "past ?t \<noteq> []" using IH Suc.prems by auto
  then show ?case
    using IH Suc.prems undo_settled [OF IH(2), of opt] undo_pop [OF IH(2), of opt]
    by (simp add: butlast_take last_conv_nth nth_append)
qed (simp add: nth_append)

text \<open>Undo restores earlier values: without debouncing, after setting a sequence of values,
  each different from its predecessor and at most \<open>maxHistory\<close> of them, \<open>k\<close> undos bring back
  the value that was present \<open>k\<close> changes ago, for every \<open>k\<close> up to the number of changes.\<close>

theorem undo_restores:
  assumes "debounceMs opt \<le> 0" "changing (isEqual opt) v vs"
    and "int (length vs) \<le> maxHistory opt" "k \<le> length vs"
  shows "present ((undo opt ^^ k) (set_all opt vs (undo_init v))) = (v # vs) ! (length vs - k)"
proof (cases "vs = []")
  case True
  then show ?thesis using assms by (simp add: undo_init_def)
next
  case False
  then have m: "0 < maxHistory opt" using assms(3) by (cases vs) auto
  let ?s = "set_all opt vs (undo_init v)"
  have r: "settled ?s" "past ?s = butlast (v # vs)" "present ?s = last (v # vs)"
    using set_all_result [of opt "undo_init v" vs] assms m
    by (auto simp: undo_init_def settled_def slice_from_neg_id)
  have "past ?s @ [present ?s] = v # vs"
    unfolding r by (rule append_butlast_last_id) simp
  then show ?thesis
    using undo_n [OF r(1), of k opt] assms(4) False unfolding r(2) by simp
qed

section \<open>The debounced hook\<close>

definition never_pushed :: "undo_options \<Rightarrow> undo_state \<Rightarrow> bool" where
  "never_pushed opt s = (past s = [] \<and> future s = [] \<and>
     (pendingValue s = JNull \<or> isEqual opt (present s) (pendingValue s)))"

fun no_update :: "undo_event \<Rightarrow> bool" where
  "no_update (EUpdateValue a) = False"
| "no_update e = True"

lemma setValue_never_pushed:
  assumes "0 < debounceMs opt" "\<And>x. isEqual opt x x" "never_pushed opt s"
  shows "never_pushed opt (setValue opt a s)"
  using assms by (auto simp: never_pushed_def setValue_def Let_def)

lemma flush_never_pushed:
  "never_pushed opt s \<Longrightarrow> never_pushed opt (flushDebounce opt s)"
  by (auto simp: never_pushed_def flushDebounce_def Let_def)

lemma undo_redo_never_pushed:
  assumes "never_pushed opt s"
  shows "never_pushed opt (undo opt s)" "never_pushed opt (redo opt s)"
  using flush_never_pushed [OF assms]
  by (auto simp: undo_def redo_def Let_def never_pushed_def split: list.splits)

lemma step_never_pushed:
  assumes "0 < debounceMs opt" "\<And>x. isEqual opt x x" "never_pushed opt s" "no_update e"
  shows "never_pushed opt (undo_step opt s e)"
  using assms setValue_never_pushed [OF assms(1-3)] flush_never_pushed [OF assms(3)]
    undo_redo_never_pushed [OF assms(3)]
  by (cases e) (auto simp: setFields_def setField_def timerFires_def reset_def clearHistory_def
      never_pushed_def)

interpretation debounced: guarded_machine "undo_step opt" no_update
  "\<lambda>s. 0 < debounceMs opt \<longrightarrow> (\<forall>x. isEqual opt x x) \<longrightarrow> never_pushed opt s" for opt
  by unfold_locales (auto intro: step_never_pushed)

text \<open>The debounced hook never offers undo.  With a positive \<open>debounceMs\<close> (the default is
  300) \<open>setValue\<close> writes the new value into \<open>present\<close> at once, so the flush finds it equal to the
  pending value and records nothing: in every run that makes no \<open>updateValue\<close> call both
  \<open>canUndo\<close> and \<open>canRedo\<close> stay false.\<close>

theorem debounced_never_undoable:
  assumes "0 < debounceMs opt" "\<And>x. isEqual opt x x" "list_all no_update es"
  shows "\<not> canUndo (run (undo_step opt) es (undo_init v))
       \<and> \<not> canRedo (run (undo_step opt) es (undo_init v))"
  using debounced.run_inv [of opt "undo_init v" es] assms
  by (simp add: never_pushed_def undo_init_def canUndo_def canRedo_def)

text \<open>With an \<open>updateValue\<close> in between, the flush puts the updated value into the past and the
  stale pending value back into \<open>present\<close>.\<close>

lemma flush_reverts_update:
  assumes "0 < debounceMs opt" "\<not> isEqual opt u v" "\<not> isEqual opt v w" "\<not> isEqual opt w v"
    and "v \<noteq> JNull" "0 < maxHistory opt"
  shows "present (run (undo_step opt) [ESetValue (Value v), EUpdateValue (Value w), ETimer]
           (undo_init u)) = v"
  using assms by (simp add: undo_ops undo_init_def Let_def)

section \<open>Instances\<close>

definition plain_options :: "int \<Rightarrow> int \<Rightarrow> undo_options" where
  "plain_options n ms = \<lparr> maxHistory = n, debounceMs = ms, isEqual = (=) \<rparr>"

lemma plain_options_sel [simp]:
  "maxHistory (plain_options n ms) = n" "debounceMs (plain_options n ms) = ms"
  "isEqual (plain_options n ms) = (=)"
  by (simp_all add: plain_options_def)

lemma undo_history_bounded_witness:
  "int (length (past (run (undo_step (plain_options 2 0))
      [ESetValue (Value (JNum 1)), ESetValue (Value (JNum 2)), ESetValue (Value (JNum 3)), EUndo]
      (undo_init (JNum 0))))
    + length (future (run (undo_step (plain_options 2 0))
      [ESetValue (Value (JNum 1)), ESetValue (Value (JNum 2)), ESetValue (Value (JNum 3)), EUndo]
      (undo_init (JNum 0))))) \<le> 2"
  using undo_history_bounded [of "plain_options 2 0"
      "[ESetValue (Value (JNum 1)), ESetValue (Value (JNum 2)), ESetValue (Value (JNum 3)), EUndo]"
      "JNum 0"] by simp

lemma redo_after_undo_witness:
  "(redo (plain_options 5 0) ^^ 2) ((undo (plain_options 5 0) ^^ 2)
     (set_all (plain_options 5 0) [JNum 1, JNum 2, JNum 3] (undo_init (JNum 0))))
   = set_all (plain_options 5 0) [JNum 1, JNum 2, JNum 3] (undo_init (JNum 0))"
  by (rule redo_after_undo)
     (simp_all add: undo_init_def setValue_def push_past_def Let_def slice_from_def)

lemma undo_restores_witness:
  "present ((undo (plain_options 5 0) ^^ 2)
     (set_all (plain_options 5 0) [JNum 1, JNum 2, JNum 3] (undo_init (JNum 0)))) = JNum 1"
  using undo_restores [of "plain_options 5 0" "JNum 0" "[JNum 1, JNum 2, JNum 3]" 2] by simp

lemma debounced_never_undoable_witness:
  "\<not> canUndo (run (undo_step (plain_options 50 300))
       [ESetValue (Value (JNum 1)), ETimer, ESetValue (Value (JNum 2)), ETimer, EUndo]
       (undo_init (JNum 0)))
   \<and> \<not> canRedo (run (undo_step (plain_options 50 300))
       [ESetValue (Value (JNum 1)), ETimer, ESetValue (Value (JNum 2)), ETimer, EUndo]
       (undo_init (JNum 0)))"
  by (rule debounced_never_undoable) simp_all

end
