(* ===== verification/Storage.thy ===== *)
theory Storage
  imports JsPrelude
begin

text \<open>
  Text storage (\<open>AsyncStorage\<close>, \<open>localStorage\<close>) and the JSON it holds.  A cell is either the
  text \<open>JSON.stringify\<close> produced for a value, kept as the value \<open>JSON.parse\<close> would give back
  (\<open>json_norm\<close>), or some other text (a token, a number's digits, damaged JSON), which
  \<open>JSON.parse\<close> refuses.  Which storage calls reject is a parameter
  of the operations (\<open>fails\<close>).
\<close>

section \<open>JSON\<close>

text \<open>\<open>JSON.parse(JSON.stringify(v))\<close>: undefined fields of an object disappear, undefined
  entries of an array become \<open>null\<close>.\<close>

fun json_norm :: "jsv \<Rightarrow> jsv"
  and norm_items :: "jsv list \<Rightarrow> jsv list"
  and norm_fields :: "(string \<times> jsv) list \<Rightarrow> (string \<times> jsv) list"
where
  "json_norm (JArr xs) = JArr (norm_items xs)"
| "json_norm (JObj kvs) = JObj (norm_fields kvs)"
| "json_norm v = v"
| "norm_items [] = []"
| "norm_items (x # xs) = (if x = JUndef then JNull else json_norm x) # norm_items xs"
| "norm_fields [] = []"
| "norm_fields ((k, v) # kvs) =
     (if v = JUndef then norm_fields kvs else (k, json_norm v) # norm_fields kvs)"

definition hex_digit :: "nat \<Rightarrow> char" where
  "hex_digit n = (if n < 10 then char_of (48 + n) else char_of (87 + n))"

definition escape_char :: "char \<Rightarrow> string" where
  "escape_char c =
     (if code c = 34 \<or> code c = 92 then [char_of (92 :: nat), c]
      else if code c = 8 then [char_of (92 :: nat), CHR ''b'']
      else if code c = 12 then [char_of (92 :: nat), CHR ''f'']
      else if code c = 10 then [char_of (92 :: nat), CHR ''n'']
      else if code c = 13 then [char_of (92 :: nat), CHR ''r'']
      else if code c = 9 then [char_of (92 :: nat), CHR ''t'']
      else if code c < 32 then
        [char_of (92 :: nat), CHR ''u'', CHR ''0'', CHR ''0'',
         hex_digit (code c div 16), hex_digit (code c mod 16)]
      else [c])"

definition quote_text :: "string \<Rightarrow> string" where
  "quote_text s = [char_of (34 :: nat)] @ concat (map escape_char s) @ [char_of (34 :: nat)]"

text \<open>\<open>JSON.stringify\<close> of a normalised value (its length is what the cache records).\<close>

fun stringify :: "jsv \<Rightarrow> string"
  and stringify_items :: "jsv list \<Rightarrow> string list"
  and stringify_fields :: "(string \<times> jsv) list \<Rightarrow> string list"
where
  "stringify JUndef = ''null''"
| "stringify JNull = ''null''"
| "stringify (JBool b) = (if b then ''true'' else ''false'')"
| "stringify (JNum n) = int_text n"
| "stringify (JStr s) = quote_text s"
| "stringify (JArr xs) = ''['' @ join_with '','' (stringify_items xs) @ '']''"
| "stringify (JObj kvs) = ''{'' @ join_with '','' (stringify_fields kvs) @ ''}''"
| "stringify_items [] = []"
| "stringify_items (x # xs) = stringify x # stringify_items xs"
| "stringify_fields [] = []"
| "stringify_fields ((k, v) # kvs) =
     (if v = JUndef then stringify_fields kvs
      else (quote_text k @ '':'' @ stringify v) # stringify_fields kvs)"

lemma json_norm_defined [simp]: "json_norm v = JUndef \<longleftrightarrow> v = JUndef"
  by (cases v) auto

lemma json_norm_idem [simp]:
  "json_norm (json_norm v) = json_norm v"
  "norm_items (norm_items xs) = norm_items xs"
  "norm_fields (norm_fields kvs) = norm_fields kvs"
  by (induction v and xs and kvs rule: json_norm_norm_items_norm_fields.induct) auto

text \<open>A value that the round trip through text leaves as it is.\<close>

definition json_ok :: "jsv \<Rightarrow> bool" where
  "json_ok v = (v \<noteq> JUndef \<and> json_norm v = v)"

lemma json_ok_norm: "v \<noteq> JUndef \<Longrightarrow> json_ok (json_norm v)"
  by (simp add: json_ok_def)

lemma norm_items_ok [simp]: "list_all json_ok xs \<Longrightarrow> norm_items xs = xs"
  by (induction xs) (auto simp: json_ok_def)

lemma norm_items_append [simp]: "norm_items (xs @ ys) = norm_items xs @ norm_items ys"
  by (induction xs) auto

text \<open>\<open>norm_fields\<close> and the ordered update of a field commute.\<close>

lemma norm_fields_update:
  "v \<noteq> JUndef \<Longrightarrow> (\<forall>(k, w) \<in> set kvs. w \<noteq> JUndef)
   \<Longrightarrow> norm_fields (AList.update k v kvs) = AList.update k (json_norm v) (norm_fields kvs)"
  by (induction kvs) auto

lemma norm_fields_id:
  "(\<forall>(k, w) \<in> set kvs. json_ok w) \<Longrightarrow> norm_fields kvs = kvs"
  by (induction kvs) (auto simp: json_ok_def)

section \<open>Property access\<close>

text \<open>\<open>v.k\<close>: a TypeError (None) on \<open>null\<close> and \<open>undefined\<close>, \<open>undefined\<close> on the other values
  without the property.\<close>

fun member :: "jsv \<Rightarrow> string \<Rightarrow> jsv option" where
  "member JUndef k = None"
| "member JNull k = None"
| "member (JObj kvs) k = Some (prop_of kvs k)"
| "member v k = Some JUndef"

text \<open>A comparison of a number with a stored time.  \<open>undefined\<close>, strings and objects compare
  false (the stored times are numbers), \<open>null\<close> counts as 0.\<close>

fun num_gt :: "int \<Rightarrow> jsv \<Rightarrow> bool" where
  "num_gt a (JNum b) = (a > b)"
| "num_gt a JNull = (a > 0)"
| "num_gt a v = False"

fun num_le :: "int \<Rightarrow> jsv \<Rightarrow> bool" where
  "num_le a (JNum b) = (a \<le> b)"
| "num_le a JNull = (a \<le> 0)"
| "num_le a v = False"

fun num_of :: "jsv \<Rightarrow> int" where
  "num_of (JNum n) = n"
| "num_of v = 0"

lemma prop_of_Nil [simp]: "prop_of [] k = JUndef"
  by (simp add: prop_of_def)

lemma prop_of_Cons [simp]: "prop_of ((j, v) # kvs) k = (if j = k then v else prop_of kvs k)"
  by (simp add: prop_of_def)

lemma prop_of_update [simp]:
  "prop_of (AList.update j v kvs) k = (if j = k then v else prop_of kvs k)"
  by (simp add: prop_of_def update_conv')

lemma prop_of_delete [simp]:
  "prop_of (AList.delete j kvs) k = (if j = k then JUndef else prop_of kvs k)"
  by (simp add: prop_of_def delete_conv')

section \<open>Storage\<close>

datatype cell = Json jsv | Raw string

type_synonym storage = "(string \<times> cell) list"

datatype storage_call = GetItem string | SetItem string | RemoveItem string | AllKeys

text \<open>\<open>if (!serialized)\<close>: a missing item and the empty text.\<close>

fun cell_truthy :: "cell option \<Rightarrow> bool" where
  "cell_truthy None = False"
| "cell_truthy (Some (Json v)) = True"
| "cell_truthy (Some (Raw s)) = (s \<noteq> [])"

fun parse_cell :: "cell \<Rightarrow> jsv option" where
  "parse_cell (Json v) = Some v"
| "parse_cell (Raw s) = None"

definition get_item :: "storage \<Rightarrow> string \<Rightarrow> cell option" where
  "get_item st k = map_of st k"

definition set_item :: "string \<Rightarrow> jsv \<Rightarrow> storage \<Rightarrow> storage" where
  "set_item k v st = AList.update k (Json (json_norm v)) st"

definition remove_item :: "string \<Rightarrow> storage \<Rightarrow> storage" where
  "remove_item k st = AList.delete k st"

definition remove_items :: "string list \<Rightarrow> storage \<Rightarrow> storage" where
  "remove_items ks st = fold remove_item ks st"

lemma get_item_set [simp]:
  "get_item (set_item k v st) j = (if j = k then Some (Json (json_norm v)) else get_item st j)"
  by (simp add: get_item_def set_item_def update_conv')

lemma get_item_remove [simp]:
  "get_item (remove_item k st) j = (if j = k then None else get_item st j)"
  by (simp add: get_item_def remove_item_def delete_conv')

lemma get_item_removes [simp]:
  "get_item (remove_items ks st) j = (if j \<in> set ks then None else get_item st j)"
  by (induction ks arbitrary: st) (auto simp: remove_items_def)

lemma get_item_Nil [simp]: "get_item [] k = None"
  by (simp add: get_item_def)

lemma get_item_keys: "get_item st k = None \<longleftrightarrow> k \<notin> fst ` set st"
  by (simp add: get_item_def map_of_eq_None_iff)

section \<open>Exceptions and the secure store\<close>

text \<open>The outcome of an asynchronous operation: the state it leaves, returned or thrown.\<close>

datatype 's exec = Done (outcome: 's) | Thrown (outcome: 's)

fun and_then :: "'s exec \<Rightarrow> ('s \<Rightarrow> 's exec) \<Rightarrow> 's exec" where
  "and_then (Done s) f = f s"
| "and_then (Thrown s) f = Thrown s"

lemma and_then_Done: "and_then m f = Done s' \<longleftrightarrow> (\<exists>s. m = Done s \<and> f s = Done s')"
  by (cases m) auto

fun cell_text :: "cell \<Rightarrow> string" where
  "cell_text (Raw s) = s"
| "cell_text (Json v) = stringify v"

text \<open>The wrapper of \<open>mobile/lib/secure-storage.ts\<close>: on a device a rejected call of the keychain
  module throws; on the web it is swallowed (a read gives \<open>null\<close>).\<close>

definition getItemAsync ::
    "bool \<Rightarrow> (storage_call \<Rightarrow> bool) \<Rightarrow> string \<Rightarrow> storage \<Rightarrow> cell option exec" where
  "getItemAsync native fails k st =
     (if fails (GetItem k) then (if native then Thrown None else Done None) else Done (get_item st k))"

definition setItemAsync ::
    "bool \<Rightarrow> (storage_call \<Rightarrow> bool) \<Rightarrow> string \<Rightarrow> cell \<Rightarrow> storage \<Rightarrow> storage exec" where
  "setItemAsync native fails k c st =
     (if fails (SetItem k) then (if native then Thrown st else Done st)
      else Done (AList.update k c st))"

definition deleteItemAsync ::
    "bool \<Rightarrow> (storage_call \<Rightarrow> bool) \<Rightarrow> string \<Rightarrow> storage \<Rightarrow> storage exec" where
  "deleteItemAsync native fails k st =
     (if fails (RemoveItem k) then (if native then Thrown st else Done st)
      else Done (remove_item k st))"

lemma get_item_update [simp]:
  "get_item (AList.update k c st) j = (if j = k then Some c else get_item st j)"
  by (simp add: get_item_def update_conv')

section \<open>Numbers as text\<close>

definition digit_val :: "char \<Rightarrow> nat option" where
  "digit_val c = (if 48 \<le> code c \<and> code c \<le> 57 then Some (code c - 48) else None)"

fun digits_prefix :: "nat \<Rightarrow> string \<Rightarrow> nat" where
  "digits_prefix acc [] = acc"
| "digits_prefix acc (c # s) =
     (case digit_val c of None \<Rightarrow> acc | Some d \<Rightarrow> digits_prefix (acc * 10 + d) s)"

definition starts_digit :: "string \<Rightarrow> bool" where
  "starts_digit s = (case s of [] \<Rightarrow> False | c # t \<Rightarrow> digit_val c \<noteq> None)"

text \<open>\<open>parseInt(s, 10)\<close>; None is \<open>NaN\<close>.\<close>

definition parse_int :: "string \<Rightarrow> int option" where
  "parse_int s0 =
     (let s = dropWhile is_space s0;
          neg = (take 1 s = ''-'');
          t = (if neg \<or> take 1 s = ''+'' then drop 1 s else s) in
      if starts_digit t then
        Some (if neg then - int (digits_prefix 0 t) else int (digits_prefix 0 t))
      else None)"

lemma digit_char [simp]: "d < 10 \<Longrightarrow> digit_val (char_of (48 + d :: nat)) = Some d"
  by (simp add: digit_val_def code_def)

lemma digits_prefix_append:
  "list_all (\<lambda>c. digit_val c \<noteq> None) s \<Longrightarrow> digits_prefix acc (s @ t) = digits_prefix (digits_prefix acc s) t"
  by (induction s arbitrary: acc) auto

lemma nat_text_digits: "list_all (\<lambda>c. digit_val c \<noteq> None) (nat_text n) \<and> nat_text n \<noteq> []"
proof (induction n rule: nat_text.induct)
  case (1 n)
  then show ?case by (subst (1 2) nat_text.simps) auto
qed

lemma digits_nat_text: "digits_prefix 0 (nat_text n) = n"
proof (induction n rule: nat_text.induct)
  case (1 n)
  show ?case
    using 1 nat_text_digits [of "n div 10"]
    by (subst nat_text.simps) (simp add: digits_prefix_append)
qed

lemma digit_not_sign:
  "digit_val c \<noteq> None \<Longrightarrow> \<not> is_space c \<and> c \<noteq> CHR ''-'' \<and> c \<noteq> CHR ''+''"
  by (auto simp: digit_val_def is_space_def code_def split: if_splits)

lemma minus_not_space [simp]: "\<not> is_space CHR ''-''"
  by (simp add: is_space_def code_def)

lemma parse_int_text [simp]: "parse_int (int_text i) = Some i"
proof -
  have "parse_int (nat_text n) = Some (int n) \<and> parse_int (CHR ''-'' # nat_text n) = Some (- int n)" for n
  proof -
    obtain c s where cs: "nat_text n = c # s" "digit_val c \<noteq> None"
      using nat_text_digits [of n] by (cases "nat_text n") auto
    have "digits_prefix 0 (c # s) = n" using digits_nat_text [of n] by (simp add: cs(1))
    then show ?thesis
      using digit_not_sign [OF cs(2)] cs(2)
      unfolding cs(1) parse_int_def by (simp add: starts_digit_def Let_def)
  qed
  then show ?thesis by (cases "i < 0") (auto simp: int_text_def)
qed

end
