(* ===== verification/DataCache.thy ===== *)
theory DataCache
  imports Machines Storage
begin

text \<open>
  The persistent cache of \<open>mobile/services/DataCache.ts\<close>: the service's in-memory metadata
  object and the AsyncStorage it writes to, one definition per method.  A rejected storage
  call (\<open>fails\<close>) takes the method's \<open>catch\<close> branch.
\<close>

definition CACHE_PREFIX :: "string" where
  "CACHE_PREFIX = ''@amg_cache_''"

definition CACHE_METADATA_KEY :: "string" where
  "CACHE_METADATA_KEY = ''@amg_cache_metadata''"

datatype ttl_kind = PROGRAMS | PROGRAM_DETAIL | CLIENTS | CLIENT_DETAIL | DOCUMENTS | MESSAGES
  | DASHBOARD | DEFAULT

fun CACHE_TTL :: "ttl_kind \<Rightarrow> int" where
  "CACHE_TTL PROGRAMS = 30 * 60 * 1000"
| "CACHE_TTL PROGRAM_DETAIL = 30 * 60 * 1000"
| "CACHE_TTL CLIENTS = 60 * 60 * 1000"
| "CACHE_TTL CLIENT_DETAIL = 60 * 60 * 1000"
| "CACHE_TTL DOCUMENTS = 60 * 60 * 1000"
| "CACHE_TTL MESSAGES = 5 * 60 * 1000"
| "CACHE_TTL DASHBOARD = 15 * 60 * 1000"
| "CACHE_TTL DEFAULT = 30 * 60 * 1000"

record cache_state =
  store :: storage
  metadata :: jsobj

definition getKey :: "string \<Rightarrow> string" where
  "getKey key = CACHE_PREFIX @ key"

text \<open>\<open>CacheEntry\<close> and one entry of \<open>CacheMetadata\<close> as the objects the code builds.\<close>

definition cache_entry :: "jsv \<Rightarrow> int \<Rightarrow> int \<Rightarrow> jsv" where
  "cache_entry data now expires =
     JObj [(''data'', data), (''timestamp'', JNum now), (''expiresAt'', JNum expires)]"

definition meta_entry :: "int \<Rightarrow> int \<Rightarrow> int \<Rightarrow> jsv" where
  "meta_entry cachedAt expires n =
     JObj [(''cachedAt'', JNum cachedAt), (''expiresAt'', JNum expires), (''size'', JNum n)]"

text \<open>\<open>initialize\<close>.  Text that is not JSON resets the metadata.  JSON that is not an object
  (no method writes it to that cell) is read as empty metadata.\<close>

definition initialize :: "(storage_call \<Rightarrow> bool) \<Rightarrow> cache_state \<Rightarrow> cache_state" where
  "initialize fails s =
     (if fails (GetItem CACHE_METADATA_KEY) then s\<lparr> metadata := [] \<rparr>
      else case get_item (store s) CACHE_METADATA_KEY of
        None \<Rightarrow> s
      | Some (Raw t) \<Rightarrow> if t = [] then s else s\<lparr> metadata := [] \<rparr>
      | Some (Json v) \<Rightarrow> (case v of JObj kvs \<Rightarrow> s\<lparr> metadata := kvs \<rparr> | _ \<Rightarrow> s\<lparr> metadata := [] \<rparr>))"

definition saveMetadata :: "(storage_call \<Rightarrow> bool) \<Rightarrow> cache_state \<Rightarrow> cache_state" where
  "saveMetadata fails s =
     (if fails (SetItem CACHE_METADATA_KEY) then s
      else s\<lparr> store := set_item CACHE_METADATA_KEY (JObj (metadata s)) (store s) \<rparr>)"

definition cache_set ::
    "(storage_call \<Rightarrow> bool) \<Rightarrow> int \<Rightarrow> string \<Rightarrow> jsv \<Rightarrow> int \<Rightarrow> cache_state \<Rightarrow> cache_state" where
  "cache_set fails now key data ttl s =
     (let entry = cache_entry data now (now + ttl);
          serialized = stringify (json_norm entry) in
      if fails (SetItem (getKey key)) then s
      else saveMetadata fails
        (s\<lparr> store := set_item (getKey key) entry (store s),
            metadata := AList.update key (meta_entry now (now + ttl) (int (length serialized)))
              (metadata s) \<rparr>))"

definition cache_remove :: "(storage_call \<Rightarrow> bool) \<Rightarrow> string \<Rightarrow> cache_state \<Rightarrow> cache_state" where
  "cache_remove fails key s =
     (if fails (RemoveItem (getKey key)) then s
      else saveMetadata fails
        (s\<lparr> store := remove_item (getKey key) (store s), metadata := AList.delete key (metadata s) \<rparr>))"

text \<open>Reading an entry: \<open>None\<close> for a rejected read, a missing item or text that is not JSON.\<close>

definition read_entry :: "(storage_call \<Rightarrow> bool) \<Rightarrow> string \<Rightarrow> cache_state \<Rightarrow> jsv option" where
  "read_entry fails key s =
     (if fails (GetItem (getKey key)) then None
      else case get_item (store s) (getKey key) of
        None \<Rightarrow> None
      | Some c \<Rightarrow> if cell_truthy (Some c) then parse_cell c else None)"

definition cache_get ::
    "(storage_call \<Rightarrow> bool) \<Rightarrow> int \<Rightarrow> string \<Rightarrow> cache_state \<Rightarrow> jsv \<times> cache_state" where
  "cache_get fails now key s =
     (case read_entry fails key s of
        None \<Rightarrow> (JNull, s)
      | Some entry \<Rightarrow>
          (case member entry ''expiresAt'' of
             None \<Rightarrow> (JNull, s)
           | Some e \<Rightarrow>
               if num_gt now e then (JNull, cache_remove fails key s)
               else (case member entry ''data'' of None \<Rightarrow> (JNull, s) | Some d \<Rightarrow> (d, s))))"

definition getStale :: "(storage_call \<Rightarrow> bool) \<Rightarrow> string \<Rightarrow> cache_state \<Rightarrow> jsv" where
  "getStale fails key s =
     (case read_entry fails key s of
        None \<Rightarrow> JNull
      | Some entry \<Rightarrow> (case member entry ''data'' of None \<Rightarrow> JNull | Some d \<Rightarrow> d))"

definition cache_has :: "(storage_call \<Rightarrow> bool) \<Rightarrow> int \<Rightarrow> string \<Rightarrow> cache_state \<Rightarrow> bool" where
  "cache_has fails now key s =
     (case read_entry fails key s of
        None \<Rightarrow> False
      | Some entry \<Rightarrow> (case member entry ''expiresAt'' of None \<Rightarrow> False | Some e \<Rightarrow> num_le now e))"

definition hasStale :: "(storage_call \<Rightarrow> bool) \<Rightarrow> string \<Rightarrow> cache_state \<Rightarrow> bool" where
  "hasStale fails key s = (\<not> fails (GetItem (getKey key)) \<and> get_item (store s) (getKey key) \<noteq> None)"

definition getCacheKeys :: "cache_state \<Rightarrow> string list" where
  "getCacheKeys s = filter (starts_with CACHE_PREFIX) (remdups (map fst (store s)))"

text \<open>\<open>Promise.all\<close> starts every removal; one rejection skips what follows it.\<close>

definition remove_all :: "(storage_call \<Rightarrow> bool) \<Rightarrow> string list \<Rightarrow> cache_state \<Rightarrow> cache_state" where
  "remove_all fails ks s =
     s\<lparr> store := remove_items (filter (\<lambda>k. \<not> fails (RemoveItem k)) ks) (store s) \<rparr>"

definition cache_clear :: "(storage_call \<Rightarrow> bool) \<Rightarrow> cache_state \<Rightarrow> cache_state" where
  "cache_clear fails s =
     (if fails AllKeys then s
      else let ks = getCacheKeys s; s = remove_all fails ks s in
        if list_ex (\<lambda>k. fails (RemoveItem k)) ks then s
        else saveMetadata fails (s\<lparr> metadata := [] \<rparr>))"

definition expired_meta :: "int \<Rightarrow> string \<times> jsv \<Rightarrow> bool" where
  "expired_meta now km =
     (case member (snd km) ''expiresAt'' of None \<Rightarrow> False | Some e \<Rightarrow> num_gt now e)"

definition clearExpired :: "(storage_call \<Rightarrow> bool) \<Rightarrow> int \<Rightarrow> cache_state \<Rightarrow> cache_state" where
  "clearExpired fails now s =
     (let gone = filter (expired_meta now) (metadata s);
          ks = map (getKey \<circ> fst) gone;
          s = s\<lparr> metadata := filter (\<lambda>km. \<not> expired_meta now km) (metadata s) \<rparr> in
      if ks = [] then s
      else let s = remove_all fails ks s in
        if list_ex (\<lambda>k. fails (RemoveItem k)) ks then s else saveMetadata fails s)"

record cache_stats =
  entryCount :: nat
  totalSize :: int
  oldestEntry :: "int option"
  newestEntry :: "int option"

definition meta_num :: "string \<Rightarrow> jsv \<Rightarrow> int" where
  "meta_num f m = (case member m f of Some v \<Rightarrow> num_of v | None \<Rightarrow> 0)"

definition getStats :: "cache_state \<Rightarrow> cache_stats" where
  "getStats s =
     (let entries = map snd (metadata s);
          timestamps = map (meta_num ''cachedAt'') entries in
      \<lparr> entryCount = length entries,
        totalSize = fold (\<lambda>e sum. sum + meta_num ''size'' e) entries 0,
        oldestEntry = (case timestamps of [] \<Rightarrow> None | t # ts \<Rightarrow> Some (fold min ts t)),
        newestEntry = (case timestamps of [] \<Rightarrow> None | t # ts \<Rightarrow> Some (fold max ts t)) \<rparr>)"

definition getCacheInfo :: "int \<Rightarrow> string \<Rightarrow> cache_state \<Rightarrow> (jsv \<times> jsv \<times> bool) option" where
  "getCacheInfo now key s =
     (let meta = prop_of (metadata s) key in
      if \<not> truthy meta then None
      else case (member meta ''cachedAt'', member meta ''expiresAt'') of
        (Some c, Some e) \<Rightarrow> Some (c, e, num_gt now e)
      | _ \<Rightarrow> None)"

section \<open>Contract: an expiring map\<close>

text \<open>What the cache promises its clients: a finite map from keys to data with an expiry time.\<close>

type_synonym cache_spec = "string \<Rightarrow> (jsv \<times> int) option"

datatype cache_event =
    CSet int string jsv int
  | CGet int string
  | CRemove string
  | CClear
  | CClearExpired int
  | CRestart

abbreviation no_fault :: "storage_call \<Rightarrow> bool" where
  "no_fault \<equiv> (\<lambda>c. False)"

fun cache_step :: "cache_state \<Rightarrow> cache_event \<Rightarrow> cache_state" where
  "cache_step s (CSet now k d ttl) = cache_set no_fault now k d ttl s"
| "cache_step s (CGet now k) = snd (cache_get no_fault now k s)"
| "cache_step s (CRemove k) = cache_remove no_fault k s"
| "cache_step s CClear = cache_clear no_fault s"
| "cache_step s (CClearExpired now) = clearExpired no_fault now s"
| "cache_step s CRestart = initialize no_fault (s\<lparr> metadata := [] \<rparr>)"

fun spec_step :: "cache_spec \<Rightarrow> cache_event \<Rightarrow> cache_spec" where
  "spec_step m (CSet now k d ttl) = m(k \<mapsto> (json_norm d, now + ttl))"
| "spec_step m (CGet now k) =
     (case m k of None \<Rightarrow> m | Some (d, e) \<Rightarrow> if now > e then m(k := None) else m)"
| "spec_step m (CRemove k) = m(k := None)"
| "spec_step m CClear = Map.empty"
| "spec_step m (CClearExpired now) =
     (\<lambda>k. case m k of None \<Rightarrow> None | Some (d, e) \<Rightarrow> if now > e then None else Some (d, e))"
| "spec_step m CRestart = m"

text \<open>The key \<open>metadata\<close> is the one whose item collides with the metadata cell.\<close>

fun safe_event :: "cache_event \<Rightarrow> bool" where
  "safe_event (CSet now k d ttl) = (k \<noteq> ''metadata'')"
| "safe_event (CGet now k) = (k \<noteq> ''metadata'')"
| "safe_event (CRemove k) = (k \<noteq> ''metadata'')"
| "safe_event e = True"

definition cache_init :: "cache_state" where
  "cache_init = \<lparr> store = [], metadata = [] \<rparr>"

fun decode_entry :: "cell option \<Rightarrow> (jsv \<times> int) option" where
  "decode_entry (Some (Json (JObj kvs))) =
     (case prop_of kvs ''expiresAt'' of JNum e \<Rightarrow> Some (prop_of kvs ''data'', e) | _ \<Rightarrow> None)"
| "decode_entry c = None"

definition cache_abs :: "cache_state \<Rightarrow> cache_spec" where
  "cache_abs s k = (if k = ''metadata'' then None else decode_entry (get_item (store s) (getKey k)))"

section \<open>The cache invariant\<close>

lemma getKey_eq [simp]: "getKey j = getKey k \<longleftrightarrow> j = k"
  by (simp add: getKey_def)

lemma getKey_metadata [simp]:
  "getKey k = CACHE_METADATA_KEY \<longleftrightarrow> k = ''metadata''"
  "CACHE_METADATA_KEY = getKey k \<longleftrightarrow> k = ''metadata''"
  by (auto simp: getKey_def CACHE_PREFIX_def CACHE_METADATA_KEY_def)

lemma member_meta [simp]:
  "member (meta_entry c e n) ''expiresAt'' = Some (JNum e)"
  "member (meta_entry c e n) ''cachedAt'' = Some (JNum c)"
  "member (meta_entry c e n) ''size'' = Some (JNum n)"
  by (simp_all add: meta_entry_def)

lemma json_norm_meta [simp]: "json_norm (meta_entry c e n) = meta_entry c e n"
  by (simp add: meta_entry_def)

lemma meta_defined [simp]: "meta_entry c e n \<noteq> JUndef"
  by (simp add: meta_entry_def)

lemma member_cache_entry [simp]:
  "member (json_norm (cache_entry d c e)) ''expiresAt'' = Some (JNum e)"
  "member (json_norm (cache_entry d c e)) ''data'' = Some (json_norm d)"
  by (auto simp: cache_entry_def)

lemma decode_cache_entry [simp]:
  "decode_entry (Some (Json (json_norm (cache_entry d c e)))) = Some (json_norm d, e)"
  by (auto simp: cache_entry_def)

text \<open>An item and its metadata come together: both absent, or both written by one \<open>set\<close>.\<close>

definition item_meta :: "cell option \<Rightarrow> jsv option \<Rightarrow> bool" where
  "item_meta c m = (case m of
      None \<Rightarrow> c = None
    | Some v \<Rightarrow> \<exists>d t e n. v = meta_entry t e n \<and> c = Some (Json (json_norm (cache_entry d t e))))"

definition cache_core :: "cache_state \<Rightarrow> bool" where
  "cache_core s = (distinct (map fst (metadata s)) \<and> ''metadata'' \<notin> fst ` set (metadata s)
     \<and> (\<forall>k. k \<noteq> ''metadata'' \<longrightarrow> item_meta (get_item (store s) (getKey k)) (map_of (metadata s) k)))"

definition cache_inv :: "cache_state \<Rightarrow> bool" where
  "cache_inv s = (cache_core s \<and>
     (case get_item (store s) CACHE_METADATA_KEY of
        None \<Rightarrow> metadata s = []
      | Some c \<Rightarrow> c = Json (JObj (metadata s))))"

lemma item_meta_simps [simp]:
  "item_meta c None \<longleftrightarrow> c = None"
  "item_meta (Some (Json (json_norm (cache_entry d t e)))) (Some (meta_entry t e n))"
  by (auto simp: item_meta_def)

lemma cache_coreD:
  "cache_core s \<Longrightarrow> k \<noteq> ''metadata'' \<Longrightarrow>
   item_meta (get_item (store s) (getKey k)) (map_of (metadata s) k)"
  by (simp add: cache_core_def)

lemma cache_core_values:
  assumes "cache_core s" "(k, v) \<in> set (metadata s)"
  shows "\<exists>t e n. v = meta_entry t e n"
proof -
  have m: "map_of (metadata s) k = Some v" "k \<noteq> ''metadata''"
    using assms by (auto simp: cache_core_def rev_image_eqI)
  show ?thesis using cache_coreD [OF assms(1) m(2)] unfolding m(1) by (auto simp: item_meta_def)
qed

lemma cache_core_norm:
  assumes "cache_core s"
  shows "norm_fields (metadata s) = metadata s"
proof (rule norm_fields_id, safe)
  fix k v assume "(k, v) \<in> set (metadata s)"
  then obtain t e n where "v = meta_entry t e n" using cache_core_values [OF assms] by blast
  then show "json_ok v" by (simp add: json_ok_def)
qed

lemma saveMetadata_keeps [simp]:
  "metadata (saveMetadata f s) = metadata s"
  "k \<noteq> ''metadata'' \<Longrightarrow> get_item (store (saveMetadata f s)) (getKey k) = get_item (store s) (getKey k)"
  by (simp_all add: saveMetadata_def)

lemma saveMetadata_abs [simp]: "cache_abs (saveMetadata f s) = cache_abs s"
  by (rule ext) (simp add: cache_abs_def)

lemma saveMetadata_core [simp]: "cache_core (saveMetadata f s) = cache_core s"
  by (simp add: cache_core_def)

lemma saveMetadata_inv: "cache_core s \<Longrightarrow> cache_inv (saveMetadata no_fault s)"
  by (simp add: cache_inv_def) (simp add: saveMetadata_def cache_core_norm)

lemma cache_inv_core: "cache_inv s \<Longrightarrow> cache_core s"
  by (simp add: cache_inv_def)

lemma cache_init_inv: "cache_inv cache_init"
  by (simp add: cache_inv_def cache_core_def cache_init_def)

section \<open>Each method keeps the invariant and implements the contract\<close>

lemma set_core:
  assumes "cache_inv s" "k \<noteq> ''metadata''"
  shows "cache_inv (cache_set no_fault now k d ttl s)"
  unfolding cache_set_def Let_def if_False
  using cache_inv_core [OF assms(1)] assms(2)
  by (intro saveMetadata_inv) (auto simp: cache_core_def distinct_update update_conv' dom_update)

lemma set_abs:
  "k \<noteq> ''metadata'' \<Longrightarrow>
   cache_abs (cache_set no_fault now k d ttl s) = (cache_abs s)(k \<mapsto> (json_norm d, now + ttl))"
  by (rule ext) (simp add: cache_set_def Let_def, simp add: cache_abs_def)

lemma remove_core:
  assumes "cache_inv s" "k \<noteq> ''metadata''"
  shows "cache_inv (cache_remove no_fault k s)"
  unfolding cache_remove_def if_False
  using cache_inv_core [OF assms(1)] assms(2)
  by (intro saveMetadata_inv) (auto simp: cache_core_def distinct_delete delete_conv')

lemma remove_abs:
  "k \<noteq> ''metadata'' \<Longrightarrow> cache_abs (cache_remove no_fault k s) = (cache_abs s)(k := None)"
  by (rule ext) (simp add: cache_remove_def, simp add: cache_abs_def)

text \<open>What a read sees, in terms of the contract.\<close>

lemma read_entry_inv:
  assumes "cache_inv s" "k \<noteq> ''metadata''"
  shows "(cache_abs s k = None \<and> read_entry no_fault k s = None \<and> get_item (store s) (getKey k) = None)
    \<or> (\<exists>d t e. cache_abs s k = Some (json_norm d, e)
          \<and> read_entry no_fault k s = Some (json_norm (cache_entry d t e)))"
proof -
  have "item_meta (get_item (store s) (getKey k)) (map_of (metadata s) k)"
    using assms by (simp add: cache_inv_def cache_core_def)
  then consider "get_item (store s) (getKey k) = None"
    | d t e where "get_item (store s) (getKey k) = Some (Json (json_norm (cache_entry d t e)))"
    by (auto simp: item_meta_def split: option.splits)
  then show ?thesis
    using assms(2) by cases (auto simp: cache_abs_def read_entry_def)
qed

lemma get_result:
  assumes "cache_inv s" "k \<noteq> ''metadata''"
  shows "fst (cache_get no_fault now k s)
    = (case cache_abs s k of None \<Rightarrow> JNull | Some (d, e) \<Rightarrow> if now > e then JNull else d)"
  using read_entry_inv [OF assms] by (auto simp: cache_get_def)

lemma get_state:
  assumes "cache_inv s" "k \<noteq> ''metadata''"
  shows "snd (cache_get no_fault now k s)
    = (case cache_abs s k of None \<Rightarrow> s | Some (d, e) \<Rightarrow> if now > e then cache_remove no_fault k s else s)"
  using read_entry_inv [OF assms] by (auto simp: cache_get_def)

lemma stale_result:
  assumes "cache_inv s" "k \<noteq> ''metadata''"
  shows "getStale no_fault k s = (case cache_abs s k of None \<Rightarrow> JNull | Some (d, e) \<Rightarrow> d)"
    "cache_has no_fault now k s = (case cache_abs s k of None \<Rightarrow> False | Some (d, e) \<Rightarrow> now \<le> e)"
    "hasStale no_fault k s = (cache_abs s k \<noteq> None)"
  using read_entry_inv [OF assms] by (auto simp: getStale_def cache_has_def hasStale_def, auto simp: read_entry_def split: option.splits)

lemma get_core:
  "cache_inv s \<Longrightarrow> k \<noteq> ''metadata'' \<Longrightarrow> cache_inv (snd (cache_get no_fault now k s))"
  by (auto simp: get_state remove_core split: option.splits)

lemma get_abs:
  "cache_inv s \<Longrightarrow> k \<noteq> ''metadata'' \<Longrightarrow>
   cache_abs (snd (cache_get no_fault now k s)) = spec_step (cache_abs s) (CGet now k)"
  by (auto simp: get_state remove_abs split: option.splits)

lemma clear_core:
  assumes "cache_inv s"
  shows "cache_inv (cache_clear no_fault s)" "cache_abs (cache_clear no_fault s) = Map.empty"
proof -
  let ?t = "remove_all no_fault (getCacheKeys s) s\<lparr>metadata := []\<rparr>"
  have gone: "get_item (store (remove_all no_fault (getCacheKeys s) s)) (getKey k) = None" for k
    using get_item_keys [of "store s" "getKey k"]
    by (auto simp: remove_all_def getCacheKeys_def getKey_def starts_with_def)
  have clear: "cache_clear no_fault s = saveMetadata no_fault ?t"
    by (simp add: cache_clear_def Let_def list_ex_iff)
  show "cache_inv (cache_clear no_fault s)"
    unfolding clear using gone by (intro saveMetadata_inv) (simp add: cache_core_def)
  show "cache_abs (cache_clear no_fault s) = Map.empty"
    unfolding clear saveMetadata_abs by (rule ext) (simp add: cache_abs_def gone)
qed

text \<open>The keys \<open>clearExpired\<close> drops are those whose entry has expired.\<close>

lemma expired_abs:
  assumes "cache_inv s" "k \<noteq> ''metadata''"
  shows "(\<exists>v. map_of (metadata s) k = Some v \<and> expired_meta now (k, v))
    \<longleftrightarrow> (\<exists>d e. cache_abs s k = Some (d, e) \<and> now > e)"
  using cache_coreD [OF cache_inv_core [OF assms(1)] assms(2)] assms(2)
  by (cases "map_of (metadata s) k") (auto simp: item_meta_def expired_meta_def cache_abs_def)

lemma filter_map_of:
  "distinct (map fst xs) \<Longrightarrow>
   map_of (filter p xs) k = (case map_of xs k of Some v \<Rightarrow> if p (k, v) then Some v else None | None \<Rightarrow> None)"
  by (induction xs) (auto simp: map_of_eq_None_iff rev_image_eqI split: option.splits)

lemma clearExpired_core:
  assumes "cache_inv s"
  shows "cache_inv (clearExpired no_fault now s)"
    and "cache_abs (clearExpired no_fault now s) = spec_step (cache_abs s) (CClearExpired now)"
proof -
  let ?gone = "filter (expired_meta now) (metadata s)"
  let ?ks = "map (getKey \<circ> fst) ?gone"
  let ?t = "remove_all no_fault ?ks (s\<lparr>metadata := filter (\<lambda>km. \<not> expired_meta now km) (metadata s)\<rparr>)"
  have core: "cache_core s" by (rule cache_inv_core [OF assms])
  then have dist: "distinct (map fst (metadata s))" by (simp add: cache_core_def)
  have key: "getKey k \<in> set ?ks \<longleftrightarrow> (\<exists>v. map_of (metadata s) k = Some v \<and> expired_meta now (k, v))" for k
    using dist by force
  have item: "get_item (store ?t) (getKey k)
      = (if \<exists>v. map_of (metadata s) k = Some v \<and> expired_meta now (k, v) then None
         else get_item (store s) (getKey k))" for k
    unfolding key [symmetric] by (simp add: remove_all_def)
  have core_t: "cache_core ?t"
  proof -
    have "item_meta (get_item (store ?t) (getKey k))
        (map_of (filter (\<lambda>km. \<not> expired_meta now km) (metadata s)) k)" if "k \<noteq> ''metadata''" for k
      using cache_coreD [OF core that]
      by (cases "map_of (metadata s) k") (simp_all add: item filter_map_of [OF dist])
    then show ?thesis
      using core by (auto simp: cache_core_def distinct_map_filter remove_all_def)
  qed
  have abs_t: "cache_abs ?t = spec_step (cache_abs s) (CClearExpired now)"
  proof
    fix k
    show "cache_abs ?t k = spec_step (cache_abs s) (CClearExpired now) k"
      using expired_abs [OF assms, of k now]
      by (cases "k = ''metadata''")
         (auto simp: item cache_abs_def split: option.splits)
  qed
  have run: "clearExpired no_fault now s = (if ?ks = [] then ?t else saveMetadata no_fault ?t)"
    by (simp add: clearExpired_def Let_def list_ex_iff remove_all_def remove_items_def)
  show "cache_abs (clearExpired no_fault now s) = spec_step (cache_abs s) (CClearExpired now)"
    unfolding run if_distrib [of cache_abs] saveMetadata_abs if_cancel by (rule abs_t)
  show "cache_inv (clearExpired no_fault now s)"
  proof (cases "?ks = []")
    case True
    then have "filter (\<lambda>km. \<not> expired_meta now km) (metadata s) = metadata s"
      by (auto simp: filter_id_conv filter_empty_conv)
    then have "?t = s" using True by (simp add: remove_all_def remove_items_def)
    then show ?thesis using assms True unfolding run by simp
  next
    case False
    then show ?thesis unfolding run using saveMetadata_inv [OF core_t] by simp
  qed
qed

lemma restart_core:
  assumes "cache_inv s"
  shows "initialize no_fault (s\<lparr>metadata := []\<rparr>) = s"
  using assms by (auto simp: cache_inv_def initialize_def split: option.splits)

lemma cache_step_refines:
  assumes "cache_inv s" "safe_event e"
  shows "cache_inv (cache_step s e)" "cache_abs (cache_step s e) = spec_step (cache_abs s) e"
  using assms
  by (cases e; simp add: set_core set_abs get_core get_abs remove_core remove_abs clear_core
        clearExpired_core restart_core del: spec_step.simps(2))+

interpretation cache: guarded_machine cache_step safe_event cache_inv
  by unfold_locales (rule cache_step_refines)

lemma cache_run_refines:
  "cache_inv s \<Longrightarrow> list_all safe_event es \<Longrightarrow>
   cache_abs (run cache_step es s) = run spec_step es (cache_abs s)"
proof (induction es arbitrary: s)
  case (Cons e es)
  then show ?case using cache_step_refines [of s e] by simp
qed simp

lemma cache_init_abs: "cache_abs cache_init = Map.empty"
  by (rule ext) (simp add: cache_abs_def cache_init_def)

text \<open>C2.  On a storage none of whose calls is rejected, and for keys other than \<open>metadata\<close>
  (whose item is the metadata cell itself, see \<open>metadata_key_collides\<close>), the cache refines a map
  with expiry times.  After any sequence of writes, reads and removals of such keys, clears,
  expiry sweeps and restarts, the stored items are the contract's map after the same operations,
  and \<open>get\<close> answers the unexpired data, \<open>getStale\<close> the data whatever its age, \<open>has\<close> whether it is
  fresh and \<open>hasStale\<close> whether it exists.\<close>

theorem cache_refines_expiring_map:
  assumes "list_all safe_event es" "k \<noteq> ''metadata''"
  defines "s \<equiv> run cache_step es cache_init"
    and "m \<equiv> run spec_step es Map.empty"
  shows "cache_abs s = m
    \<and> fst (cache_get no_fault now k s)
        = (case m k of None \<Rightarrow> JNull | Some (d, e) \<Rightarrow> if now > e then JNull else d)
    \<and> getStale no_fault k s = (case m k of None \<Rightarrow> JNull | Some (d, e) \<Rightarrow> d)
    \<and> cache_has no_fault now k s = (case m k of None \<Rightarrow> False | Some (d, e) \<Rightarrow> now \<le> e)
    \<and> hasStale no_fault k s = (m k \<noteq> None)"
proof -
  have i: "cache_inv s"
    unfolding s_def using cache_init_inv assms(1) by (rule cache.run_inv)
  have a: "cache_abs s = m"
    unfolding s_def m_def using cache_run_refines [OF cache_init_inv assms(1)]
    by (simp add: cache_init_abs)
  show ?thesis
    using get_result [OF i assms(2)] stale_result [OF i assms(2)] unfolding a by simp
qed

text \<open>A faulty device: whichever storage calls reject, a write to one key leaves the items of
  the other keys alone.\<close>

lemma faulty_set_frame:
  assumes "j \<noteq> k" "j \<noteq> ''metadata''"
  shows "cache_abs (cache_set fails now k d ttl s) j = cache_abs s j"
  using assms by (simp add: cache_set_def Let_def) (simp add: cache_abs_def)

text \<open>The key \<open>metadata\<close> cannot be cached: its item has the storage key of the metadata
  object, which \<open>set\<close> itself writes over it, so no \<open>get\<close> returns the data (unless the
  cache also has a key \<open>data\<close>, whose bookkeeping is then returned instead).\<close>

theorem metadata_key_collides:
  assumes "cache_inv s" "''data'' \<notin> fst ` set (metadata s)" "''expiresAt'' \<notin> fst ` set (metadata s)"
  shows "fst (cache_get no_fault now' ''metadata'' (cache_set no_fault now ''metadata'' d ttl s)) = JUndef"
proof -
  define m where "m = AList.update ''metadata''
    (meta_entry now (now + ttl) (int (length (stringify (json_norm (cache_entry d now (now + ttl)))))))
    (metadata s)"
  have "json_ok v" if "(k, v) \<in> set m" for k v
  proof -
    have "(k, v) \<in> set (metadata s) \<or> (\<exists>t e n. v = meta_entry t e n)"
      using that unfolding m_def by (rule AList_update_cases) auto
    then obtain t e n where "v = meta_entry t e n"
      using cache_core_values [OF cache_inv_core [OF assms(1)]] by blast
    then show ?thesis by (simp add: json_ok_def)
  qed
  then have norm: "norm_fields m = m" by (intro norm_fields_id) auto
  have "prop_of m ''data'' = JUndef" "prop_of m ''expiresAt'' = JUndef"
    using assms(2,3) by (auto simp: m_def) (auto simp: prop_of_def map_of_eq_None_iff [THEN iffD2])
  then show ?thesis
    by (simp add: cache_get_def cache_set_def Let_def saveMetadata_def read_entry_def norm
        flip: m_def)
qed

section \<open>The interface the offline clients use\<close>

text \<open>An expiring store: \<open>put\<close> with a time to live, a read with its answer and its effect, and a
  removal, on the keys of a class \<open>ok_key\<close>.\<close>

locale expiring_store =
  fixes put :: "int \<Rightarrow> string \<Rightarrow> jsv \<Rightarrow> int \<Rightarrow> 's \<Rightarrow> 's"
    and look :: "int \<Rightarrow> string \<Rightarrow> 's \<Rightarrow> jsv"
    and looked :: "int \<Rightarrow> string \<Rightarrow> 's \<Rightarrow> 's"
    and drop_key :: "string \<Rightarrow> 's \<Rightarrow> 's"
    and ok_key :: "string \<Rightarrow> bool"
    and inv :: "'s \<Rightarrow> bool"
  assumes put_inv: "inv s \<Longrightarrow> ok_key k \<Longrightarrow> inv (put now k v ttl s)"
    and looked_inv: "inv s \<Longrightarrow> ok_key k \<Longrightarrow> inv (looked now k s)"
    and drop_inv: "inv s \<Longrightarrow> ok_key k \<Longrightarrow> inv (drop_key k s)"
    and look_put: "inv s \<Longrightarrow> ok_key k \<Longrightarrow> ok_key j \<Longrightarrow>
      look t j (put now k v ttl s)
        = (if j = k then (if t > now + ttl then JNull else json_norm v) else look t j s)"
    and look_looked: "inv s \<Longrightarrow> ok_key k \<Longrightarrow> ok_key j \<Longrightarrow> now \<le> t \<Longrightarrow>
      look t j (looked now k s) = look t j s"
    and look_drop: "inv s \<Longrightarrow> ok_key k \<Longrightarrow> ok_key j \<Longrightarrow>
      look t j (drop_key k s) = (if j = k then JNull else look t j s)"
begin

text \<open>A list kept under one key: reading it after appending a value that JSON preserves.\<close>

lemma look_append:
  assumes "inv s" "ok_key k" "look now k s = JArr xs" "list_all json_ok (xs @ [x])"
    and "now \<le> t" "t \<le> now + ttl"
  shows "look t k (put now k (JArr (xs @ [x])) ttl (looked now k s)) = JArr (xs @ [x])"
  using assms looked_inv [OF assms(1,2)] by (simp add: look_put del: norm_items_append)

lemma look_append_other:
  assumes "inv s" "ok_key k" "ok_key j" "j \<noteq> k" "now \<le> t"
  shows "look t j (put now k v ttl (looked now k s)) = look t j s"
  using assms looked_inv [OF assms(1,2)] by (simp add: look_put look_looked)

end

lemma spec_get_later:
  assumes "now \<le> t"
  shows "(case spec_step m (CGet now k) j of None \<Rightarrow> JNull | Some (d, e) \<Rightarrow> if t > e then JNull else d)
    = (case m j of None \<Rightarrow> JNull | Some (d, e) \<Rightarrow> if t > e then JNull else d)"
  using assms by (auto split: option.splits)

interpretation data_cache: expiring_store "cache_set no_fault"
  "\<lambda>t k s. fst (cache_get no_fault t k s)" "\<lambda>t k s. snd (cache_get no_fault t k s)"
  "cache_remove no_fault" "\<lambda>k. k \<noteq> ''metadata''" cache_inv
proof (unfold_locales, goal_cases)
  case (5 s k j now t)
  then show ?case
    using spec_get_later [of now t "cache_abs s" k j]
    by (simp add: get_core get_result get_abs del: spec_step.simps)
qed (simp_all add: set_core get_core remove_core get_result set_abs remove_abs)

section \<open>Instances\<close>

definition cache_trace :: "cache_event list" where
  "cache_trace = [CSet 0 ''programs_all'' (JArr [JNum 7]) 100, CSet 10 ''client_1'' (JStr ''Ada'') 5,
     CRestart, CGet 20 ''client_1'', CClearExpired 50]"

lemma cache_refines_witness:
  "fst (cache_get no_fault 60 ''programs_all'' (run cache_step cache_trace cache_init)) = JArr [JNum 7]
   \<and> cache_abs (run cache_step cache_trace cache_init) ''client_1'' = None"
  using cache_refines_expiring_map [of cache_trace "''programs_all''" 60]
    cache_refines_expiring_map [of cache_trace "''client_1''" 60]
  by (simp add: cache_trace_def)

lemma metadata_key_collides_witness:
  "fst (cache_get no_fault 1 ''metadata'' (cache_set no_fault 0 ''metadata'' (JNum 5) 100 cache_init)) = JUndef"
  by (rule metadata_key_collides) (simp_all add: cache_init_inv, simp_all add: cache_init_def)

end
