(* ===== verification/MobileAuth.thy ===== *)
theory MobileAuth
  imports Machines Storage
begin

text \<open>
  Sign-in state of the mobile app: the zustand store \<open>mobile/lib/auth-store.ts\<close>, the session
  hook \<open>mobile/hooks/use-session.ts\<close> and the biometric hook \<open>mobile/hooks/use-biometrics.ts\<close>.
  One record holds the store, the secure storage it mirrors, the session hook's refs, the
  biometric status and the cached queries of the query client.  What lies outside (the keychain,
  the biometric prompt, the API) is a parameter of each operation.
\<close>

section \<open>The auth store\<close>

definition TOKEN_KEY :: "string" where "TOKEN_KEY = ''amg_auth_token''"
definition REFRESH_TOKEN_KEY :: "string" where "REFRESH_TOKEN_KEY = ''amg_refresh_token''"
definition USER_KEY :: "string" where "USER_KEY = ''amg_auth_user''"
definition LAST_ACTIVITY_KEY :: "string" where "LAST_ACTIVITY_KEY = ''amg_last_activity''"
definition NEEDS_REAUTH_KEY :: "string" where "NEEDS_REAUTH_KEY = ''amg_needs_reauth''"
definition BIOMETRIC_ENABLED_KEY :: "string" where "BIOMETRIC_ENABLED_KEY = ''amg_biometric_enabled''"
definition BIOMETRIC_CREDS_KEY :: "string" where "BIOMETRIC_CREDS_KEY = ''amg_biometric_creds''"
definition BIOMETRIC_LAST_AUTH_KEY :: "string" where "BIOMETRIC_LAST_AUTH_KEY = ''amg_biometric_last_auth''"
definition BIOMETRIC_PROMPT_SHOWN_KEY :: "string" where
  "BIOMETRIC_PROMPT_SHOWN_KEY = ''amg_biometric_prompt_shown''"

lemmas key_defs = TOKEN_KEY_def REFRESH_TOKEN_KEY_def USER_KEY_def LAST_ACTIVITY_KEY_def
  NEEDS_REAUTH_KEY_def BIOMETRIC_ENABLED_KEY_def BIOMETRIC_CREDS_KEY_def
  BIOMETRIC_LAST_AUTH_KEY_def BIOMETRIC_PROMPT_SHOWN_KEY_def

definition INTERNAL_ROLES :: "string list" where
  "INTERNAL_ROLES = [''managing_director'', ''relationship_manager'', ''coordinator'', ''finance_compliance'']"

datatype biometric_type = FaceID | TouchID | Fingerprint | FaceRecognition | Iris | Biometric | NoBiometric

record biometric_status =
  isAvailable :: bool
  isEnrolled :: bool
  isEnabled :: bool
  authType :: biometric_type
  hasStoredCredentials :: bool
  promptShown :: bool

record auth_state =
  token :: "string option"
  refreshToken :: "string option"
  user :: jsv
  isHydrated :: bool
  mfaPending :: "(string \<times> string) option"
  pendingCredentials :: "(string \<times> string) option"
  secure :: storage
  cachedQueries :: "(string \<times> jsv) list"
  backgroundTimestamp :: "int option"
  lastActivityRef :: int
  bioStatus :: biometric_status
  atLogin :: bool

text \<open>The environment of a call: whether the keychain module is there and which of its calls
  reject.\<close>

record device =
  native :: bool
  fails :: "storage_call \<Rightarrow> bool"

definition put_secure :: "device \<Rightarrow> string \<Rightarrow> cell \<Rightarrow> auth_state \<Rightarrow> auth_state exec" where
  "put_secure dev k c s =
     (case setItemAsync (native dev) (fails dev) k c (secure s) of
        Done st \<Rightarrow> Done (s\<lparr> secure := st \<rparr>) | Thrown st \<Rightarrow> Thrown (s\<lparr> secure := st \<rparr>))"

definition drop_secure :: "device \<Rightarrow> string \<Rightarrow> auth_state \<Rightarrow> auth_state exec" where
  "drop_secure dev k s =
     (case deleteItemAsync (native dev) (fails dev) k (secure s) of
        Done st \<Rightarrow> Done (s\<lparr> secure := st \<rparr>) | Thrown st \<Rightarrow> Thrown (s\<lparr> secure := st \<rparr>))"

definition read_secure :: "device \<Rightarrow> string \<Rightarrow> auth_state \<Rightarrow> string option exec" where
  "read_secure dev k s =
     (case getItemAsync (native dev) (fails dev) k (secure s) of
        Done c \<Rightarrow> Done (map_option cell_text c) | Thrown c \<Rightarrow> Thrown None)"

definition setAuth :: "device \<Rightarrow> string \<Rightarrow> string \<Rightarrow> jsv \<Rightarrow> auth_state \<Rightarrow> auth_state exec" where
  "setAuth dev tok rtok usr s =
     and_then (put_secure dev TOKEN_KEY (Raw tok) s) (\<lambda>s.
     and_then (put_secure dev REFRESH_TOKEN_KEY (Raw rtok) s) (\<lambda>s.
     and_then (put_secure dev USER_KEY (Json (json_norm usr)) s) (\<lambda>s.
       Done (s\<lparr> token := Some tok, refreshToken := Some rtok, user := usr \<rparr>))))"

definition setTokens :: "device \<Rightarrow> string \<Rightarrow> string \<Rightarrow> auth_state \<Rightarrow> auth_state exec" where
  "setTokens dev tok rtok s =
     and_then (put_secure dev TOKEN_KEY (Raw tok) s) (\<lambda>s.
     and_then (put_secure dev REFRESH_TOKEN_KEY (Raw rtok) s) (\<lambda>s.
       Done (s\<lparr> token := Some tok, refreshToken := Some rtok \<rparr>)))"

definition clearAuth :: "device \<Rightarrow> auth_state \<Rightarrow> auth_state exec" where
  "clearAuth dev s =
     and_then (drop_secure dev TOKEN_KEY s) (\<lambda>s.
     and_then (drop_secure dev REFRESH_TOKEN_KEY s) (\<lambda>s.
     and_then (drop_secure dev USER_KEY s) (\<lambda>s.
       Done (s\<lparr> token := None, refreshToken := None, user := JNull, mfaPending := None,
               pendingCredentials := None, cachedQueries := [] \<rparr>))))"

text \<open>\<open>hydrate\<close>: any failing read, or user text that is not JSON, gives the signed-out state.\<close>

definition hydrate :: "device \<Rightarrow> auth_state \<Rightarrow> auth_state" where
  "hydrate dev s =
     (let out = s\<lparr> token := None, refreshToken := None, user := JNull, isHydrated := True \<rparr> in
      case (read_secure dev TOKEN_KEY s, read_secure dev REFRESH_TOKEN_KEY s,
            getItemAsync (native dev) (fails dev) USER_KEY (secure s)) of
        (Done t, Done r, Done c) \<Rightarrow>
          (if \<not> cell_truthy c then
             s\<lparr> token := t, refreshToken := r, user := JNull, isHydrated := True \<rparr>
           else case parse_cell (the c) of
             None \<Rightarrow> out
           | Some u \<Rightarrow> s\<lparr> token := t, refreshToken := r, user := u, isHydrated := True \<rparr>)
      | _ \<Rightarrow> out)"

definition isAuthenticated :: "auth_state \<Rightarrow> bool" where
  "isAuthenticated s = (token s \<noteq> None)"

text \<open>\<open>get().user?.role\<close>\<close>

definition user_role :: "auth_state \<Rightarrow> jsv" where
  "user_role s = (case member (user s) ''role'' of None \<Rightarrow> JUndef | Some r \<Rightarrow> r)"

definition isClient :: "auth_state \<Rightarrow> bool" where
  "isClient s = (user_role s = JStr ''client'')"

definition isPartner :: "auth_state \<Rightarrow> bool" where
  "isPartner s = (user_role s = JStr ''partner'')"

definition isInternal :: "auth_state \<Rightarrow> bool" where
  "isInternal s = (user_role s \<noteq> JUndef \<and> user_role s \<in> JStr ` set INTERNAL_ROLES)"

definition setMfaPending :: "string \<times> string \<Rightarrow> auth_state \<Rightarrow> auth_state" where
  "setMfaPending p s = s\<lparr> mfaPending := Some p \<rparr>"

definition clearMfaPending :: "auth_state \<Rightarrow> auth_state" where
  "clearMfaPending s = s\<lparr> mfaPending := None \<rparr>"

definition setPendingCredentials :: "(string \<times> string) option \<Rightarrow> auth_state \<Rightarrow> auth_state" where
  "setPendingCredentials c s = s\<lparr> pendingCredentials := c \<rparr>"

text \<open>\<open>parseJwtExp\<close> of \<open>mobile/lib/utils.ts\<close>.  \<open>decode\<close> stands for \<open>JSON.parse(atob(payload))\<close>,
  None when it throws.\<close>

definition parseJwtExp :: "(string \<Rightarrow> jsv option) \<Rightarrow> string option \<Rightarrow> int option" where
  "parseJwtExp decode tok =
     (case tok of None \<Rightarrow> None
      | Some t \<Rightarrow>
          if t = [] then None
          else case split_on (CHR ''.'') t of
            h # payload # rest \<Rightarrow>
              if payload = [] then None
              else (case decode payload of None \<Rightarrow> None
                    | Some v \<Rightarrow> (case member v ''exp'' of Some (JNum e) \<Rightarrow> Some (e * 1000) | _ \<Rightarrow> None))
          | _ \<Rightarrow> None)"

section \<open>The session hook\<close>

definition REFRESH_THRESHOLD_MS :: "int" where "REFRESH_THRESHOLD_MS = 5 * 60 * 1000"
definition BACKGROUND_TIMEOUT_MS :: "int" where "BACKGROUND_TIMEOUT_MS = 30 * 60 * 1000"
definition REAUTH_TIMEOUT_MS :: "int" where "REAUTH_TIMEOUT_MS = 5 * 60 * 1000"
definition SESSION_TIMEOUT_MS :: "int" where "SESSION_TIMEOUT_MS = 30 * 60 * 1000"

definition updateActivity :: "device \<Rightarrow> int \<Rightarrow> auth_state \<Rightarrow> auth_state exec" where
  "updateActivity dev now s =
     put_secure dev LAST_ACTIVITY_KEY (Raw (int_text now)) (s\<lparr> lastActivityRef := now \<rparr>)"

text \<open>\<open>Date.now() - parseInt(..) > limit\<close>, false for \<open>NaN\<close>.\<close>

definition older_than :: "int \<Rightarrow> int \<Rightarrow> string \<Rightarrow> bool" where
  "older_than limit now txt = (case parse_int txt of None \<Rightarrow> False | Some t \<Rightarrow> now - t > limit)"

text \<open>None: a storage read threw.\<close>

definition checkBiometricReauthRequired :: "device \<Rightarrow> int \<Rightarrow> auth_state \<Rightarrow> bool option" where
  "checkBiometricReauthRequired dev now s =
     (case read_secure dev BIOMETRIC_ENABLED_KEY s of
        Thrown e \<Rightarrow> None
      | Done en \<Rightarrow>
          if en \<noteq> Some ''true'' then Some False
          else (case read_secure dev LAST_ACTIVITY_KEY s of
              Thrown e \<Rightarrow> None
            | Done None \<Rightarrow> Some True
            | Done (Some t) \<Rightarrow> if t = [] then Some True else Some (older_than REAUTH_TIMEOUT_MS now t)))"

text \<open>\<open>tryRefresh\<close>.  \<open>api\<close> is the answer of the refresh call, None when it rejects.\<close>

definition tryRefresh ::
    "device \<Rightarrow> (string \<Rightarrow> jsv option) \<Rightarrow> int \<Rightarrow> (string \<times> string) option \<Rightarrow> auth_state \<Rightarrow> auth_state exec" where
  "tryRefresh dev decode now api s =
     (if token s = None \<or> token s = Some [] then Done s
      else case parseJwtExp decode (token s) of
        None \<Rightarrow> Done s
      | Some e \<Rightarrow>
          if e = 0 then Done s
          else if e - now < REFRESH_THRESHOLD_MS \<and> refreshToken s \<noteq> None \<and> refreshToken s \<noteq> Some [] then
            (case api of
               None \<Rightarrow> clearAuth dev s
             | Some (a, r) \<Rightarrow>
                 if truthy (user s) then
                   (case setAuth dev a r (user s) s of
                      Done s' \<Rightarrow> Done s' | Thrown s' \<Rightarrow> clearAuth dev s')
                 else Done s)
          else Done s)"

datatype app_state = Active | Background | Inactive

text \<open>\<open>handleAppState\<close>, for a change to the given state.\<close>

definition handleAppState :: "device \<Rightarrow> int \<Rightarrow> app_state \<Rightarrow> auth_state \<Rightarrow> auth_state exec" where
  "handleAppState dev now next s =
     (case next of
        Active \<Rightarrow>
          (let bg = backgroundTimestamp s; s = s\<lparr> backgroundTimestamp := None \<rparr> in
           case bg of
             Some t \<Rightarrow>
               if t = 0 then updateActivity dev now s
               else if now - t > BACKGROUND_TIMEOUT_MS then clearAuth dev s
               else (case checkBiometricReauthRequired dev now s of
                   None \<Rightarrow> Thrown s
                 | Some True \<Rightarrow>
                     and_then (put_secure dev NEEDS_REAUTH_KEY (Raw ''true'') s) (\<lambda>s.
                     and_then (clearAuth dev s) (\<lambda>s. Done (s\<lparr> atLogin := True \<rparr>)))
                 | Some False \<Rightarrow> updateActivity dev now s)
           | None \<Rightarrow> updateActivity dev now s)
      | _ \<Rightarrow> updateActivity dev now (s\<lparr> backgroundTimestamp := Some now \<rparr>))"

definition checkReauthRequired :: "device \<Rightarrow> auth_state \<Rightarrow> (bool \<times> auth_state) exec" where
  "checkReauthRequired dev s =
     (case read_secure dev NEEDS_REAUTH_KEY s of
        Thrown e \<Rightarrow> Thrown (False, s)
      | Done v \<Rightarrow>
          if v = Some ''true'' then
            (case drop_secure dev NEEDS_REAUTH_KEY s of
               Done s' \<Rightarrow> Done (True, s') | Thrown s' \<Rightarrow> Thrown (False, s'))
          else Done (False, s))"

definition markReauthComplete :: "device \<Rightarrow> int \<Rightarrow> auth_state \<Rightarrow> auth_state exec" where
  "markReauthComplete dev now s = put_secure dev LAST_ACTIVITY_KEY (Raw (int_text now)) s"

section \<open>Biometrics\<close>

datatype sensor_kind = FACIAL_RECOGNITION | FINGERPRINT | IRIS

record sensor =
  hasHardware :: bool
  enrolled :: bool
  supported :: "sensor_kind list"

definition no_biometrics :: "biometric_status" where
  "no_biometrics = \<lparr> isAvailable = False, isEnrolled = False, isEnabled = False,
     authType = NoBiometric, hasStoredCredentials = False, promptShown = False \<rparr>"

definition auth_type_of :: "bool \<Rightarrow> sensor_kind list \<Rightarrow> biometric_type" where
  "auth_type_of ios kinds =
     (if FACIAL_RECOGNITION \<in> set kinds then (if ios then FaceID else FaceRecognition)
      else if FINGERPRINT \<in> set kinds then (if ios then TouchID else Fingerprint)
      else if IRIS \<in> set kinds then Iris else Biometric)"

text \<open>\<open>checkStatus\<close>; the sensor is None when the authentication module throws.\<close>

definition checkStatus :: "device \<Rightarrow> bool \<Rightarrow> sensor option \<Rightarrow> auth_state \<Rightarrow> auth_state" where
  "checkStatus dev ios sens s =
     (case (sens, read_secure dev BIOMETRIC_ENABLED_KEY s, read_secure dev BIOMETRIC_CREDS_KEY s,
            read_secure dev BIOMETRIC_PROMPT_SHOWN_KEY s) of
        (Some m, Done en, Done creds, Done shown) \<Rightarrow>
          s\<lparr> bioStatus := \<lparr> isAvailable = hasHardware m, isEnrolled = enrolled m,
              isEnabled = (en = Some ''true'' \<and> enrolled m \<and> hasHardware m),
              authType = (if hasHardware m \<and> enrolled m then auth_type_of ios (supported m) else NoBiometric),
              hasStoredCredentials = (creds \<noteq> None),
              promptShown = (shown = Some ''true'') \<rparr> \<rparr>
      | _ \<Rightarrow> s\<lparr> bioStatus := no_biometrics \<rparr>)"

text \<open>The answer of a biometric prompt: success, refusal, or an exception.\<close>

datatype prompt = Accepted | Refused | PromptThrew

definition enableBiometrics :: "device \<Rightarrow> prompt \<Rightarrow> auth_state \<Rightarrow> bool \<times> auth_state" where
  "enableBiometrics dev ans s =
     (if \<not> isAvailable (bioStatus s) \<or> \<not> isEnrolled (bioStatus s) then (False, s)
      else if ans = Accepted then
        (case put_secure dev BIOMETRIC_ENABLED_KEY (Raw ''true'') s of
           Done s' \<Rightarrow> (True, s'\<lparr> bioStatus := (bioStatus s')\<lparr> isEnabled := True \<rparr> \<rparr>)
         | Thrown s' \<Rightarrow> (False, s'))
      else (False, s))"

definition disableBiometrics :: "device \<Rightarrow> auth_state \<Rightarrow> auth_state exec" where
  "disableBiometrics dev s =
     and_then (put_secure dev BIOMETRIC_ENABLED_KEY (Raw ''false'') s) (\<lambda>s.
     and_then (drop_secure dev BIOMETRIC_CREDS_KEY s) (\<lambda>s.
       Done (s\<lparr> bioStatus := (bioStatus s)\<lparr> isEnabled := False, hasStoredCredentials := False \<rparr> \<rparr>)))"

definition storeCredentials :: "device \<Rightarrow> string \<Rightarrow> string \<Rightarrow> auth_state \<Rightarrow> auth_state exec" where
  "storeCredentials dev email password s =
     and_then (put_secure dev BIOMETRIC_CREDS_KEY
        (Json (JObj [(''email'', JStr email), (''password'', JStr password)])) s) (\<lambda>s.
       Done (s\<lparr> bioStatus := (bioStatus s)\<lparr> hasStoredCredentials := True \<rparr> \<rparr>))"

definition getCredentials :: "device \<Rightarrow> auth_state \<Rightarrow> jsv" where
  "getCredentials dev s =
     (if \<not> isEnabled (bioStatus s) then JNull
      else case getItemAsync (native dev) (fails dev) BIOMETRIC_CREDS_KEY (secure s) of
        Thrown c \<Rightarrow> JNull
      | Done c \<Rightarrow>
          if \<not> cell_truthy c then JNull
          else (case parse_cell (the c) of None \<Rightarrow> JNull | Some v \<Rightarrow> v))"

definition clearCredentials :: "device \<Rightarrow> auth_state \<Rightarrow> auth_state exec" where
  "clearCredentials dev s =
     and_then (drop_secure dev BIOMETRIC_CREDS_KEY s) (\<lambda>s.
       Done (s\<lparr> bioStatus := (bioStatus s)\<lparr> hasStoredCredentials := False \<rparr> \<rparr>))"

text \<open>The answer of the \<open>/auth/me\<close> probe.\<close>

datatype probe = ProbeOk | Probe401 | ProbeFailed

text \<open>\<open>authenticate\<close>: the credentials it hands out (\<open>null\<close> when it refuses) and the state.\<close>

definition authenticate ::
    "device \<Rightarrow> int \<Rightarrow> prompt \<Rightarrow> probe \<Rightarrow> auth_state \<Rightarrow> jsv \<times> auth_state" where
  "authenticate dev now ans me s =
     (if \<not> isAvailable (bioStatus s) \<or> \<not> isEnrolled (bioStatus s) \<or> \<not> isEnabled (bioStatus s)
      then (JNull, s)
      else if ans \<noteq> Accepted then (JNull, s)
      else case me of
        Probe401 \<Rightarrow>
          (JNull, outcome
            (and_then (drop_secure dev BIOMETRIC_CREDS_KEY s) (\<lambda>s.
             and_then (clearAuth dev s) (\<lambda>s.
               Done (s\<lparr> bioStatus := (bioStatus s)\<lparr> hasStoredCredentials := False \<rparr> \<rparr>)))))
      | ProbeFailed \<Rightarrow> (JNull, s)
      | ProbeOk \<Rightarrow>
          (case put_secure dev BIOMETRIC_LAST_AUTH_KEY (Raw (int_text now)) s of
             Done s' \<Rightarrow> (getCredentials dev s', s')
           | Thrown s' \<Rightarrow> (JNull, s')))"

text \<open>\<open>Date.now() - lastAuth < REAUTH_TIMEOUT_MS\<close>, false for \<open>NaN\<close>.\<close>

definition younger_than :: "int \<Rightarrow> int \<Rightarrow> string \<Rightarrow> bool" where
  "younger_than limit now txt = (case parse_int txt of None \<Rightarrow> False | Some t \<Rightarrow> now - t < limit)"

definition reauthenticate :: "device \<Rightarrow> int \<Rightarrow> prompt \<Rightarrow> auth_state \<Rightarrow> bool \<times> auth_state" where
  "reauthenticate dev now ans s =
     (if \<not> isAvailable (bioStatus s) \<or> \<not> isEnrolled (bioStatus s) then (False, s)
      else if (case read_secure dev BIOMETRIC_LAST_AUTH_KEY s of
                 Done (Some t) \<Rightarrow> t \<noteq> [] \<and> younger_than REAUTH_TIMEOUT_MS now t | _ \<Rightarrow> False)
      then (True, s)
      else if ans = Accepted then
        (case put_secure dev BIOMETRIC_LAST_AUTH_KEY (Raw (int_text now)) s of
           Done s' \<Rightarrow> (True, s') | Thrown s' \<Rightarrow> (False, s'))
      else (False, s))"

definition checkSessionTimeout :: "device \<Rightarrow> int \<Rightarrow> auth_state \<Rightarrow> bool" where
  "checkSessionTimeout dev now s =
     (case read_secure dev BIOMETRIC_LAST_AUTH_KEY s of
        Thrown e \<Rightarrow> True
      | Done None \<Rightarrow> True
      | Done (Some t) \<Rightarrow> if t = [] then True else older_than SESSION_TIMEOUT_MS now t)"

definition markPromptShown :: "device \<Rightarrow> auth_state \<Rightarrow> auth_state exec" where
  "markPromptShown dev s =
     and_then (put_secure dev BIOMETRIC_PROMPT_SHOWN_KEY (Raw ''true'') s) (\<lambda>s.
       Done (s\<lparr> bioStatus := (bioStatus s)\<lparr> promptShown := True \<rparr> \<rparr>))"

definition resetPromptState :: "device \<Rightarrow> auth_state \<Rightarrow> auth_state exec" where
  "resetPromptState dev s =
     and_then (drop_secure dev BIOMETRIC_PROMPT_SHOWN_KEY s) (\<lambda>s.
       Done (s\<lparr> bioStatus := (bioStatus s)\<lparr> promptShown := False \<rparr> \<rparr>))"

section \<open>Runs\<close>

datatype auth_event =
    ASetAuth string string jsv
  | ASetTokens string string
  | AClear
  | AHydrate
  | ASetMfa string string
  | AClearMfa
  | ASetPending "(string \<times> string) option"
  | ATryRefresh int "(string \<times> string) option"
  | AAppState int app_state
  | AActivity int
  | ACheckReauth
  | AReauthDone int
  | ACheckStatus bool "sensor option"
  | AEnable prompt
  | ADisable
  | AStore string string
  | AClearCreds
  | AAuthenticate int prompt probe
  | AReauthenticate int prompt
  | AMarkPrompt
  | AResetPrompt

fun auth_step :: "device \<Rightarrow> (string \<Rightarrow> jsv option) \<Rightarrow> auth_state \<Rightarrow> auth_event \<Rightarrow> auth_state" where
  "auth_step dev dec s (ASetAuth a r u) = outcome (setAuth dev a r u s)"
| "auth_step dev dec s (ASetTokens a r) = outcome (setTokens dev a r s)"
| "auth_step dev dec s AClear = outcome (clearAuth dev s)"
| "auth_step dev dec s AHydrate = hydrate dev s"
| "auth_step dev dec s (ASetMfa a r) = setMfaPending (a, r) s"
| "auth_step dev dec s AClearMfa = clearMfaPending s"
| "auth_step dev dec s (ASetPending c) = setPendingCredentials c s"
| "auth_step dev dec s (ATryRefresh now api) = outcome (tryRefresh dev dec now api s)"
| "auth_step dev dec s (AAppState now st) = outcome (handleAppState dev now st s)"
| "auth_step dev dec s (AActivity now) = outcome (updateActivity dev now s)"
| "auth_step dev dec s ACheckReauth = snd (outcome (checkReauthRequired dev s))"
| "auth_step dev dec s (AReauthDone now) = outcome (markReauthComplete dev now s)"
| "auth_step dev dec s (ACheckStatus ios sens) = checkStatus dev ios sens s"
| "auth_step dev dec s (AEnable ans) = snd (enableBiometrics dev ans s)"
| "auth_step dev dec s ADisable = outcome (disableBiometrics dev s)"
| "auth_step dev dec s (AStore e p) = outcome (storeCredentials dev e p s)"
| "auth_step dev dec s AClearCreds = outcome (clearCredentials dev s)"
| "auth_step dev dec s (AAuthenticate now ans me) = snd (authenticate dev now ans me s)"
| "auth_step dev dec s (AReauthenticate now ans) = snd (reauthenticate dev now ans s)"
| "auth_step dev dec s AMarkPrompt = outcome (markPromptShown dev s)"
| "auth_step dev dec s AResetPrompt = outcome (resetPromptState dev s)"

definition auth_init :: "auth_state" where
  "auth_init = \<lparr> token = None, refreshToken = None, user = JNull, isHydrated = False,
     mfaPending = None, pendingCredentials = None, secure = [], cachedQueries = [],
     backgroundTimestamp = None, lastActivityRef = 0, bioStatus = no_biometrics, atLogin = False \<rparr>"

definition reliable :: "device \<Rightarrow> bool" where
  "reliable dev = (\<forall>c. \<not> fails dev c)"

lemma reliable_ops [simp]:
  assumes "reliable dev"
  shows "put_secure dev k c s = Done (s\<lparr> secure := AList.update k c (secure s) \<rparr>)"
    "drop_secure dev k s = Done (s\<lparr> secure := remove_item k (secure s) \<rparr>)"
    "read_secure dev k s = Done (map_option cell_text (get_item (secure s) k))"
    "getItemAsync (native dev) (fails dev) k st = Done (get_item st k)"
  using assms
  by (simp_all add: reliable_def put_secure_def drop_secure_def read_secure_def setItemAsync_def
      deleteItemAsync_def getItemAsync_def)

lemmas auth_ops = setAuth_def setTokens_def clearAuth_def setMfaPending_def clearMfaPending_def
  setPendingCredentials_def updateActivity_def checkReauthRequired_def markReauthComplete_def
  checkStatus_def enableBiometrics_def disableBiometrics_def storeCredentials_def
  clearCredentials_def reauthenticate_def markPromptShown_def resetPromptState_def

section \<open>The store mirrors the secure storage\<close>

text \<open>A user as the API sends it: an object without undefined fields.\<close>

fun user_object :: "jsv \<Rightarrow> bool" where
  "user_object (JObj kvs) = json_ok (JObj kvs)"
| "user_object v = False"

definition mirrored :: "auth_state \<Rightarrow> bool" where
  "mirrored s = (get_item (secure s) TOKEN_KEY = map_option Raw (token s)
     \<and> get_item (secure s) REFRESH_TOKEN_KEY = map_option Raw (refreshToken s)
     \<and> (user s = JNull \<or> user_object (user s))
     \<and> get_item (secure s) USER_KEY = (if user s = JNull then None else Some (Json (user s))))"

fun real_user :: "auth_event \<Rightarrow> bool" where
  "real_user (ASetAuth a r u) = user_object u"
| "real_user e = True"

lemma user_object_facts [simp]:
  "user_object u \<Longrightarrow> json_norm u = u" "\<not> user_object JNull"
  "user_object u \<Longrightarrow> truthy u" "user_object u \<Longrightarrow> u \<noteq> JNull"
  by (cases u; simp add: json_ok_def)+

lemma setAuth_mirrored:
  "reliable dev \<Longrightarrow> user_object u \<Longrightarrow> mirrored (outcome (setAuth dev a r u s))"
  by (simp add: setAuth_def mirrored_def key_defs)

lemma clearAuth_mirrored: "reliable dev \<Longrightarrow> mirrored (outcome (clearAuth dev s))"
  by (simp add: clearAuth_def mirrored_def key_defs)

lemma hydrate_mirrored:
  "reliable dev \<Longrightarrow> mirrored s \<Longrightarrow> hydrate dev s = s\<lparr> isHydrated := True \<rparr>"
  by (cases "token s"; cases "refreshToken s")
     (auto simp: hydrate_def mirrored_def Let_def)

lemma mirrored_user: "mirrored s \<Longrightarrow> truthy (user s) \<Longrightarrow> user_object (user s)"
  by (auto simp: mirrored_def)

text \<open>A refresh leaves the state, installs new tokens for the same user, or signs out.\<close>

lemma tryRefresh_cases:
  assumes "reliable dev"
  shows "outcome (tryRefresh dev dec now api s) = s
    \<or> (truthy (user s) \<and> (\<exists>a r. outcome (tryRefresh dev dec now api s) = outcome (setAuth dev a r (user s) s)))
    \<or> outcome (tryRefresh dev dec now api s) = outcome (clearAuth dev s)"
proof -
  obtain f where "\<And>a r u. setAuth dev a r u s = Done (f a r u)"
    by (rule that [of "\<lambda>a r u. outcome (setAuth dev a r u s)"]) (simp add: assms setAuth_def)
  then show ?thesis
    by (auto simp: tryRefresh_def split: option.split)
qed

lemma tryRefresh_mirrored:
  assumes "reliable dev" "mirrored s"
  shows "mirrored (outcome (tryRefresh dev dec now api s))"
  using tryRefresh_cases [OF assms(1), of dec now api s] mirrored_user [OF assms(2)] assms(2)
    setAuth_mirrored [OF assms(1)] clearAuth_mirrored [OF assms(1)]
  by (elim disjE conjE exE) simp_all

text \<open>Writes to the other secure keys leave the mirror alone.\<close>

definition mirror_key :: "string \<Rightarrow> bool" where
  "mirror_key k = (k = TOKEN_KEY \<or> k = REFRESH_TOKEN_KEY \<or> k = USER_KEY)"

lemma other_keys [simp]:
  assumes "mirror_key k"
  shows "k \<noteq> LAST_ACTIVITY_KEY" "k \<noteq> NEEDS_REAUTH_KEY" "k \<noteq> BIOMETRIC_ENABLED_KEY"
    "k \<noteq> BIOMETRIC_CREDS_KEY" "k \<noteq> BIOMETRIC_LAST_AUTH_KEY" "k \<noteq> BIOMETRIC_PROMPT_SHOWN_KEY"
  using assms by (auto simp: mirror_key_def key_defs)

lemma mirrored_frame:
  assumes "mirrored s" "token t = token s" "refreshToken t = refreshToken s" "user t = user s"
    and "\<And>k. mirror_key k \<Longrightarrow> get_item (secure t) k = get_item (secure s) k"
  shows "mirrored t"
  using assms by (simp add: mirrored_def mirror_key_def)

lemma updateActivity_mirrored:
  "reliable dev \<Longrightarrow> mirrored s \<Longrightarrow> mirrored (outcome (updateActivity dev now s))"
  by (erule mirrored_frame [of s]) (simp_all add: updateActivity_def)

lemma updateActivity_mirrored_bg:
  "reliable dev \<Longrightarrow> mirrored s \<Longrightarrow> mirrored (outcome (updateActivity dev now (s\<lparr>backgroundTimestamp := b\<rparr>)))"
  by (erule mirrored_frame [of s]) (simp_all add: updateActivity_def)

lemma handleAppState_mirrored:
  assumes "reliable dev" "mirrored s"
  shows "mirrored (outcome (handleAppState dev now st s))"
proof -
  have login: "mirrored (t\<lparr>atLogin := b\<rparr>)" if "mirrored t" for t b
    using that by (simp add: mirrored_def)
  have clear: "mirrored (outcome (and_then (clearAuth dev t) (\<lambda>s. Done (s\<lparr>atLogin := True\<rparr>))))" for t
    using clearAuth_mirrored [OF assms(1), of t] login [of "outcome (clearAuth dev t)" True]
    by (cases "clearAuth dev t") auto
  have "mirrored (s\<lparr>backgroundTimestamp := None\<rparr>)" using assms(2) by (simp add: mirrored_def)
  then show ?thesis
    using assms(1) updateActivity_mirrored_bg [OF assms] clear clearAuth_mirrored [OF assms(1)]
    by (auto simp: handleAppState_def Let_def split: app_state.split option.split bool.split)
qed

lemma authenticate_mirrored:
  assumes "reliable dev" "mirrored s"
  shows "mirrored (snd (authenticate dev now ans me s))"
proof -
  have clear: "mirrored (outcome (and_then (clearAuth dev t) (\<lambda>s. Done (f s))))"
    if "\<And>u. mirrored (f u) = mirrored u" for t f
    using clearAuth_mirrored [OF assms(1), of t] that by (cases "clearAuth dev t") auto
  have bio: "mirrored (u\<lparr>bioStatus := b\<rparr>) = mirrored u" for u b by (simp add: mirrored_def)
  have "mirrored (s\<lparr>secure := AList.update BIOMETRIC_LAST_AUTH_KEY c (secure s)\<rparr>)" for c
    by (rule mirrored_frame [OF assms(2)]) simp_all
  then show ?thesis
    using assms clear [of "\<lambda>s. s\<lparr>bioStatus := bioStatus s\<lparr>hasStoredCredentials := False\<rparr>\<rparr>"] bio
    by (auto simp: authenticate_def split: probe.split)
qed

lemma auth_step_mirrored:
  assumes "reliable dev" "mirrored s" "real_user e"
  shows "mirrored (auth_step dev dec s e)"
proof (cases e)
  case (ASetTokens a r)
  then show ?thesis using assms by (simp add: setTokens_def mirrored_def key_defs)
next
  case (ACheckReauth)
  then show ?thesis using assms(1)
    by (auto simp: checkReauthRequired_def intro: mirrored_frame [OF assms(2)])
next
  case (AReauthenticate now ans)
  then show ?thesis using assms(1)
    by (auto simp: reauthenticate_def intro: mirrored_frame [OF assms(2)])
qed (use assms setAuth_mirrored clearAuth_mirrored hydrate_mirrored tryRefresh_mirrored
      handleAppState_mirrored updateActivity_mirrored authenticate_mirrored in
     \<open>auto simp: auth_ops intro: mirrored_frame [OF assms(2)] split: option.split\<close>)

lemma auth_init_mirrored: "mirrored auth_init"
  by (simp add: mirrored_def auth_init_def)

interpretation mirror: guarded_machine "auth_step dev dec" real_user
  "\<lambda>s. reliable dev \<longrightarrow> mirrored s" for dev dec
  by unfold_locales (auto intro: auth_step_mirrored)

text \<open>The process is killed: only the secure storage survives.\<close>

definition killed :: "auth_state \<Rightarrow> auth_state" where
  "killed s = auth_init\<lparr> secure := secure s \<rparr>"

text \<open>C8.  The sign-in survives a restart of the app.  After any run of the operations of the auth store, the
  session hook and the biometric hook, on a keychain none of whose calls is rejected
  (\<open>reliable\<close>) and with users that are JSON objects (\<open>real_user\<close>), hydrating a fresh process gives
  the token, the refresh token and the user the killed process had in memory.  The HTTP client is
  not one of these operations: it writes the same keys behind the store's back
  (\<open>mobile_refresh_desyncs_store\<close> in ApiClient).\<close>

theorem hydrate_restores_session:
  fixes dec :: "string \<Rightarrow> jsv option"
  assumes "reliable dev" "list_all real_user es"
  defines "s \<equiv> run (auth_step dev dec) es auth_init"
  shows "token (hydrate dev (killed s)) = token s
    \<and> refreshToken (hydrate dev (killed s)) = refreshToken s
    \<and> user (hydrate dev (killed s)) = user s"
proof -
  have "mirrored s"
    unfolding s_def using mirror.run_inv [of dev auth_init es dec] auth_init_mirrored assms(1,2) by simp
  then show ?thesis
    using assms(1)
    by (cases "token s"; cases "refreshToken s")
       (auto simp: hydrate_def mirrored_def killed_def Let_def)
qed

section \<open>Revoked credentials\<close>

definition no_creds :: "auth_state \<Rightarrow> bool" where
  "no_creds s = (get_item (secure s) BIOMETRIC_CREDS_KEY = None)"

fun not_store :: "auth_event \<Rightarrow> bool" where
  "not_store (AStore e p) = False"
| "not_store e = True"

lemma creds_key [simp]:
  "TOKEN_KEY \<noteq> BIOMETRIC_CREDS_KEY" "REFRESH_TOKEN_KEY \<noteq> BIOMETRIC_CREDS_KEY"
  "USER_KEY \<noteq> BIOMETRIC_CREDS_KEY" "LAST_ACTIVITY_KEY \<noteq> BIOMETRIC_CREDS_KEY"
  "NEEDS_REAUTH_KEY \<noteq> BIOMETRIC_CREDS_KEY" "BIOMETRIC_ENABLED_KEY \<noteq> BIOMETRIC_CREDS_KEY"
  "BIOMETRIC_LAST_AUTH_KEY \<noteq> BIOMETRIC_CREDS_KEY" "BIOMETRIC_PROMPT_SHOWN_KEY \<noteq> BIOMETRIC_CREDS_KEY"
  "BIOMETRIC_CREDS_KEY \<noteq> TOKEN_KEY" "BIOMETRIC_CREDS_KEY \<noteq> REFRESH_TOKEN_KEY"
  "BIOMETRIC_CREDS_KEY \<noteq> USER_KEY" "BIOMETRIC_CREDS_KEY \<noteq> LAST_ACTIVITY_KEY"
  "BIOMETRIC_CREDS_KEY \<noteq> NEEDS_REAUTH_KEY" "BIOMETRIC_CREDS_KEY \<noteq> BIOMETRIC_ENABLED_KEY"
  "BIOMETRIC_CREDS_KEY \<noteq> BIOMETRIC_LAST_AUTH_KEY" "BIOMETRIC_CREDS_KEY \<noteq> BIOMETRIC_PROMPT_SHOWN_KEY"
  "LAST_ACTIVITY_KEY \<noteq> BIOMETRIC_ENABLED_KEY" "BIOMETRIC_ENABLED_KEY \<noteq> LAST_ACTIVITY_KEY"
  by (simp_all add: key_defs)

lemma clearAuth_no_creds:
  "reliable dev \<Longrightarrow> no_creds (outcome (clearAuth dev s)) = no_creds s"
  by (auto simp: clearAuth_def no_creds_def)

lemma setAuth_no_creds:
  "reliable dev \<Longrightarrow> no_creds (outcome (setAuth dev a r u s)) = no_creds s"
  by (auto simp: setAuth_def no_creds_def)

lemma handleAppState_no_creds:
  assumes "reliable dev" "no_creds s"
  shows "no_creds (outcome (handleAppState dev now st s))"
proof -
  have act: "no_creds (outcome (updateActivity dev now (s\<lparr>backgroundTimestamp := b\<rparr>)))" for b
    using assms by (simp add: updateActivity_def no_creds_def)
  have clear: "no_creds (outcome (clearAuth dev (s\<lparr>backgroundTimestamp := None\<rparr>)))"
    using assms by (simp add: clearAuth_no_creds) (simp add: no_creds_def)
  have login: "no_creds (outcome (and_then (clearAuth dev t) (\<lambda>s. Done (s\<lparr>atLogin := True\<rparr>))))"
    if "no_creds t" for t
    using that clearAuth_no_creds [OF assms(1), of t]
    by (cases "clearAuth dev t") (auto simp: no_creds_def)
  have "no_creds (s\<lparr>backgroundTimestamp := None\<rparr>)"
    "no_creds (s\<lparr>backgroundTimestamp := None, secure := AList.update NEEDS_REAUTH_KEY (Raw ''true'') (secure s)\<rparr>)"
    using assms(2) by (simp_all add: no_creds_def)
  then show ?thesis
    using assms(1) act clear login
    by (auto simp: handleAppState_def Let_def split: app_state.split option.split bool.split)
qed

lemma authenticate_no_creds:
  assumes "reliable dev" "no_creds s"
  shows "no_creds (snd (authenticate dev now ans me s))"
  using assms by (auto simp: authenticate_def clearAuth_def no_creds_def split: probe.split)

lemma auth_step_no_creds:
  assumes "reliable dev" "no_creds s" "not_store e"
  shows "no_creds (auth_step dev dec s e)"
proof (cases e)
  case (ATryRefresh now api)
  then show ?thesis
    using tryRefresh_cases [OF assms(1), of dec now api s] assms
      setAuth_no_creds [OF assms(1)] clearAuth_no_creds [OF assms(1)]
    by (elim disjE conjE exE) simp_all
qed (use assms setAuth_no_creds clearAuth_no_creds handleAppState_no_creds authenticate_no_creds in
     \<open>auto simp: auth_ops no_creds_def hydrate_def Let_def split: option.split\<close>)

interpretation revoked: guarded_machine "auth_step dev dec" not_store
  "\<lambda>s. reliable dev \<longrightarrow> no_creds s" for dev dec
  by unfold_locales (auto intro: auth_step_no_creds)

text \<open>C5.  A session revoked on the server cannot be unlocked with a fingerprint: once a biometric
  sign-in meets a 401 from the probe, the sign-in is cleared and no later biometric sign-in, after
  whatever the user does short of a new password login, hands out credentials.\<close>

theorem revoked_session_stays_locked:
  fixes now :: int
  assumes "reliable dev" "list_all not_store es"
    and "isAvailable (bioStatus s)" "isEnrolled (bioStatus s)" "isEnabled (bioStatus s)"
  defines "locked \<equiv> snd (authenticate dev now Accepted Probe401 s)"
  shows "\<not> isAuthenticated locked
    \<and> fst (authenticate dev now' ans me (run (auth_step dev dec) es locked)) = JNull"
proof -
  have l: "no_creds locked" "\<not> isAuthenticated locked"
    using assms(1,3-5) unfolding locked_def
    by (auto simp: authenticate_def clearAuth_def no_creds_def isAuthenticated_def)
  have "no_creds (run (auth_step dev dec) es locked)"
    using revoked.run_inv [of dev locked es dec] l(1) assms(1,2) by simp
  then show ?thesis
    using l(2) assms(1)
    by (auto simp: authenticate_def getCredentials_def no_creds_def split: probe.split)
qed

section \<open>Coming back from the background\<close>

text \<open>C6.  A session left in the background from \<open>t0\<close> to \<open>t1\<close> is still signed in on return
  exactly when at most 30 minutes passed, and at most 5 if biometrics are enabled.\<close>

theorem background_timeout:
  fixes t1 :: int
  assumes "reliable dev" "t0 \<noteq> 0" "isAuthenticated s"
  defines "back \<equiv> outcome (handleAppState dev t1 Active (outcome (handleAppState dev t0 Background s)))"
  shows "isAuthenticated back \<longleftrightarrow>
    (t1 - t0 \<le> BACKGROUND_TIMEOUT_MS \<and>
     (map_option cell_text (get_item (secure s) BIOMETRIC_ENABLED_KEY) = Some ''true''
        \<longrightarrow> t1 - t0 \<le> REAUTH_TIMEOUT_MS))"
proof -
  have k: "LAST_ACTIVITY_KEY \<noteq> BIOMETRIC_ENABLED_KEY" by (simp add: key_defs)
  have ne: "int_text t0 \<noteq> []"
    using nat_text_digits by (simp add: int_text_def)
  show ?thesis
    unfolding back_def using assms(1-3) k ne
    by (simp add: handleAppState_def updateActivity_def Let_def checkBiometricReauthRequired_def
        older_than_def clearAuth_def isAuthenticated_def)
       (auto simp: updateActivity_def clearAuth_def split: bool.split)
qed

section \<open>Instances\<close>

definition phone :: "device" where
  "phone = \<lparr> native = True, fails = (\<lambda>c. False) \<rparr>"

lemma phone_reliable [simp]: "reliable phone"
  by (simp add: phone_def reliable_def)

definition ada :: "jsv" where
  "ada = JObj [(''id'', JStr ''u1''), (''role'', JStr ''client'')]"

definition sign_in_trace :: "auth_event list" where
  "sign_in_trace = [AHydrate, ASetAuth ''t1'' ''r1'' ada, AActivity 5, ASetTokens ''t2'' ''r2'']"

lemma hydrate_restores_session_witness:
  "token (hydrate phone (killed (run (auth_step phone (\<lambda>p. None)) sign_in_trace auth_init))) = Some ''t2''
   \<and> user (hydrate phone (killed (run (auth_step phone (\<lambda>p. None)) sign_in_trace auth_init))) = ada"
proof -
  have "list_all real_user sign_in_trace"
    by (simp add: sign_in_trace_def ada_def json_ok_def)
  note * = hydrate_restores_session [OF phone_reliable this, of "\<lambda>p. None"]
  have "token (run (auth_step phone (\<lambda>p. None)) sign_in_trace auth_init) = Some ''t2''
    \<and> user (run (auth_step phone (\<lambda>p. None)) sign_in_trace auth_init) = ada"
    by (simp add: sign_in_trace_def setAuth_def setTokens_def updateActivity_def)
  then show ?thesis using * by simp
qed

definition enrolled_status :: "biometric_status" where
  "enrolled_status = \<lparr> isAvailable = True, isEnrolled = True, isEnabled = True, authType = FaceID,
     hasStoredCredentials = True, promptShown = True \<rparr>"

definition signed_in :: "auth_state" where
  "signed_in = outcome (storeCredentials phone ''a'' ''b''
     (auth_init\<lparr> token := Some ''t1'', bioStatus := enrolled_status,
        secure := [(BIOMETRIC_ENABLED_KEY, Raw ''true'')] \<rparr>))"

lemma signed_in_simps [simp]:
  "token signed_in = Some ''t1''" "bioStatus signed_in = enrolled_status"
  "get_item (secure signed_in) BIOMETRIC_ENABLED_KEY = Some (Raw ''true'')"
  "get_item (secure signed_in) BIOMETRIC_CREDS_KEY
     = Some (Json (JObj [(''email'', JStr ''a''), (''password'', JStr ''b'')]))"
  by (simp_all add: signed_in_def storeCredentials_def enrolled_status_def)
     (simp_all add: get_item_def)

lemma revoked_session_witness:
  "fst (authenticate phone 1 Accepted ProbeOk signed_in) \<noteq> JNull
   \<and> fst (authenticate phone 9 Accepted ProbeOk
        (run (auth_step phone (\<lambda>p. None)) [AActivity 3, AReauthenticate 4 Accepted]
          (snd (authenticate phone 2 Accepted Probe401 signed_in)))) = JNull"
proof
  show "fst (authenticate phone 1 Accepted ProbeOk signed_in) \<noteq> JNull"
    by (simp add: authenticate_def enrolled_status_def getCredentials_def)
  show "fst (authenticate phone 9 Accepted ProbeOk
        (run (auth_step phone (\<lambda>p. None)) [AActivity 3, AReauthenticate 4 Accepted]
          (snd (authenticate phone 2 Accepted Probe401 signed_in)))) = JNull"
    by (rule revoked_session_stays_locked [THEN conjunct2]) (simp_all add: enrolled_status_def)
qed

lemma background_timeout_witness:
  "\<not> isAuthenticated (outcome (handleAppState phone 400001 Active
       (outcome (handleAppState phone 100000 Background signed_in))))
   \<and> isAuthenticated (outcome (handleAppState phone 400000 Active
       (outcome (handleAppState phone 100000 Background signed_in))))"
  using background_timeout [of phone 100000 signed_in 400001] background_timeout [of phone 100000 signed_in 400000]
  by (simp add: isAuthenticated_def BACKGROUND_TIMEOUT_MS_def REAUTH_TIMEOUT_MS_def)

end
