(* ===== verification/Offline.thy ===== *)
theory Offline
  imports DataCache MobileAuth
begin

text \<open>
  Offline operation of the mobile app, on top of the persistent cache: network tracking and the
  generic queue of \<open>mobile/hooks/use-offline.ts\<close>, the message queue and drafts of
  \<open>use-offline-messages.ts\<close>, and the offline-first queries of \<open>use-cached-data.ts\<close>.
  An operation that awaits the network is split where other operations can run in between.
\<close>

section \<open>Network state\<close>

record net_state =
  isOnline :: bool
  isOffline :: bool
  isConnected :: "bool option"
  isInternetReachable :: "bool option"
  connectionType :: string
  lastOnlineTime :: int
  wasOffline :: bool
  previousState :: "bool option"

record net_info =
  connected :: "bool option"
  reachable :: "bool option"
  net_type :: string

definition OFFLINE_TIMESTAMP_KEY :: "string" where
  "OFFLINE_TIMESTAMP_KEY = ''last_offline_timestamp''"

definition net_init :: "int \<Rightarrow> net_state" where
  "net_init now = \<lparr> isOnline = True, isOffline = False, isConnected = None,
     isInternetReachable = None, connectionType = ''unknown'', lastOnlineTime = now,
     wasOffline = False, previousState = None \<rparr>"

definition online_info :: "net_info \<Rightarrow> bool" where
  "online_info i = (connected i = Some True \<and> (reachable i = Some True \<or> reachable i = None))"

definition handleNetworkChange ::
    "(storage_call \<Rightarrow> bool) \<Rightarrow> int \<Rightarrow> net_info \<Rightarrow> net_state \<times> cache_state \<Rightarrow> net_state \<times> cache_state" where
  "handleNetworkChange fl now i sc =
     (let (s, c) = sc;
          online = online_info i;
          offline = (connected i = Some False \<or> reachable i = Some False);
          back = (previousState s = Some False \<and> online);
          c' = (if back then cache_set fl now OFFLINE_TIMESTAMP_KEY (JNum now) (CACHE_TTL DEFAULT) c else c) in
      (s\<lparr> isOnline := online, isOffline := offline, isConnected := connected i,
          isInternetReachable := reachable i, connectionType := net_type i,
          lastOnlineTime := (if online then now else lastOnlineTime s),
          wasOffline := (back \<or> wasOffline s), previousState := Some online \<rparr>, c'))"

text \<open>\<open>checkConnection\<close>; None when the network module throws.\<close>

definition checkConnection ::
    "(storage_call \<Rightarrow> bool) \<Rightarrow> int \<Rightarrow> net_info option \<Rightarrow> net_state \<times> cache_state
     \<Rightarrow> bool \<times> (net_state \<times> cache_state)" where
  "checkConnection fl now info sc =
     (case info of None \<Rightarrow> (False, sc)
      | Some i \<Rightarrow> (online_info i, handleNetworkChange fl now i sc))"

definition clearOfflineFlag :: "net_state \<Rightarrow> net_state" where
  "clearOfflineFlag s = s\<lparr> wasOffline := False \<rparr>"

datatype action_type = Read | Write | Sync

fun useCanPerformOffline :: "net_state \<Rightarrow> action_type \<Rightarrow> bool" where
  "useCanPerformOffline s Read = True"
| "useCanPerformOffline s Write = isOnline s"
| "useCanPerformOffline s Sync = isOnline s"

lemma online_not_offline:
  "isOnline (fst (handleNetworkChange fl now i sc)) \<Longrightarrow> \<not> isOffline (fst (handleNetworkChange fl now i sc))"
  by (auto simp: handleNetworkChange_def online_info_def Let_def split: prod.splits)

lemma reconnect_flag:
  "wasOffline (fst (handleNetworkChange fl now i (s, c)))
   \<longleftrightarrow> wasOffline s \<or> (previousState s = Some False \<and> online_info i)"
  by (auto simp: handleNetworkChange_def Let_def)

section \<open>The generic offline queue\<close>

definition DAY_MS :: "int" where
  "DAY_MS = 24 * 60 * 60 * 1000"

text \<open>\<open>(await dataCache.get(key)) || []\<close>.  The queue cells are written only by the queue
  operations, so anything but a list reads as the empty queue.\<close>

fun queue_items :: "jsv \<Rightarrow> jsv list" where
  "queue_items (JArr xs) = xs"
| "queue_items v = []"

record queue_state =
  cache :: cache_state
  queueRef :: "jsv list"
  auth :: auth_state

definition getQueue ::
    "(storage_call \<Rightarrow> bool) \<Rightarrow> int \<Rightarrow> string \<Rightarrow> cache_state \<Rightarrow> jsv list \<times> cache_state" where
  "getQueue fl now key c = (let (v, c') = cache_get fl now key c in (queue_items v, c'))"

text \<open>Append to the list under a key, with the 24 hours of the queues.\<close>

definition append_queue ::
    "(storage_call \<Rightarrow> bool) \<Rightarrow> int \<Rightarrow> string \<Rightarrow> jsv \<Rightarrow> cache_state \<Rightarrow> cache_state" where
  "append_queue fl now key item c =
     (let (xs, c') = getQueue fl now key c in
      cache_set fl now key (JArr (xs @ [item])) DAY_MS c')"

definition addToQueue ::
    "(storage_call \<Rightarrow> bool) \<Rightarrow> int \<Rightarrow> bool \<Rightarrow> string \<Rightarrow> jsv \<Rightarrow> queue_state \<Rightarrow> bool \<times> queue_state" where
  "addToQueue fl now online key item s =
     (if online then (False, s)
      else (True, s\<lparr> queueRef := queueRef s @ [item], cache := append_queue fl now key item (cache s) \<rparr>))"

definition clearQueue :: "(storage_call \<Rightarrow> bool) \<Rightarrow> string \<Rightarrow> queue_state \<Rightarrow> queue_state" where
  "clearQueue fl key s = s\<lparr> cache := cache_remove fl key (cache s), queueRef := [] \<rparr>"

definition TOKEN_EXPIRY_SKEW_MS :: "int" where
  "TOKEN_EXPIRY_SKEW_MS = 30 * 1000"

text \<open>\<open>ensureFreshToken\<close>: whether a usable token is there, and the auth store after it.\<close>

definition ensureFreshToken ::
    "device \<Rightarrow> (string \<Rightarrow> jsv option) \<Rightarrow> int \<Rightarrow> (string \<times> string) option \<Rightarrow> auth_state \<Rightarrow> bool \<times> auth_state" where
  "ensureFreshToken dev dec now api s =
     (if (case parseJwtExp dec (token s) of None \<Rightarrow> False
          | Some e \<Rightarrow> e \<noteq> 0 \<and> e - now > TOKEN_EXPIRY_SKEW_MS)
      then (True, s)
      else if refreshToken s = None \<or> refreshToken s = Some [] then (False, s)
      else case api of
        None \<Rightarrow> (False, s)
      | Some (a, r) \<Rightarrow> (case setTokens dev a r s of Done s' \<Rightarrow> (True, s') | Thrown s' \<Rightarrow> (False, s')))"

datatype proc_answer = ProcTrue | ProcFalse | ProcThrew

text \<open>What the \<open>i\<close>-th round of the loop meets: the clock, the refresh call's answer, the
  processor's answer.\<close>

record round_env =
  at :: int
  refresh :: "(string \<times> string) option"
  answer :: proc_answer

datatype loop_result =
    Finished nat nat auth_state
  | Reauth nat nat auth_state
  | Rejected auth_state

fun process_loop ::
    "device \<Rightarrow> (string \<Rightarrow> jsv option) \<Rightarrow> nat \<Rightarrow> nat \<Rightarrow> nat \<Rightarrow> round_env list \<Rightarrow> auth_state \<Rightarrow> loop_result" where
  "process_loop dev dec n processed failed [] s = Finished processed failed s"
| "process_loop dev dec n processed failed (r # rs) s =
     (let (fresh, s) = ensureFreshToken dev dec (at r) (refresh r) s in
      if \<not> fresh then
        (case and_then (put_secure dev NEEDS_REAUTH_KEY (Raw ''true'') s) (clearAuth dev) of
           Done s' \<Rightarrow> Reauth processed (n - processed) (s'\<lparr> atLogin := True \<rparr>)
         | Thrown s' \<Rightarrow> Rejected s')
      else if answer r = ProcTrue then process_loop dev dec n (Suc processed) failed rs s
      else process_loop dev dec n processed (Suc failed) rs s)"

text \<open>\<open>processQueue\<close>.  \<open>envs\<close> gives the rounds of the queue's items in order.  It starts with
  the read of the queue and ends with the removal.\<close>

definition process_finish ::
    "(storage_call \<Rightarrow> bool) \<Rightarrow> string \<Rightarrow> loop_result \<Rightarrow> queue_state \<Rightarrow> (nat \<times> nat) option \<times> queue_state" where
  "process_finish fl key res s =
     (case res of
        Finished p f a \<Rightarrow> (Some (p, f), let s = s\<lparr> auth := a \<rparr> in if p > 0 then clearQueue fl key s else s)
      | Reauth p f a \<Rightarrow> (Some (p, f), s\<lparr> auth := a \<rparr>)
      | Rejected a \<Rightarrow> (None, s\<lparr> auth := a \<rparr>))"

definition processQueue ::
    "device \<Rightarrow> (string \<Rightarrow> jsv option) \<Rightarrow> (storage_call \<Rightarrow> bool) \<Rightarrow> int \<Rightarrow> string
     \<Rightarrow> (nat \<Rightarrow> round_env) \<Rightarrow> queue_state \<Rightarrow> (nat \<times> nat) option \<times> queue_state" where
  "processQueue dev dec fl now key envs s =
     (let (xs, c) = getQueue fl now key (cache s) in
      process_finish fl key
        (process_loop dev dec (length xs) 0 0 (map envs [0..<length xs]) (auth s)) (s\<lparr> cache := c \<rparr>))"

section \<open>The message queue\<close>

definition MESSAGE_QUEUE_KEY :: "string" where
  "MESSAGE_QUEUE_KEY = ''offline_message_queue''"

record message_state =
  mcache :: cache_state
  queuedCount :: nat

text \<open>\<open>{...message, id, queuedAt, retryCount: 0}\<close>\<close>

definition queued_message :: "int \<Rightarrow> string \<Rightarrow> jsobj \<Rightarrow> jsobj" where
  "queued_message now rnd msg =
     spread msg [(''id'', JStr (''msg_'' @ int_text now @ ''_'' @ rnd)),
       (''queuedAt'', JNum now), (''retryCount'', JNum 0)]"

definition queueMessage ::
    "(storage_call \<Rightarrow> bool) \<Rightarrow> int \<Rightarrow> bool \<Rightarrow> string \<Rightarrow> jsobj \<Rightarrow> message_state \<Rightarrow> bool \<times> message_state" where
  "queueMessage fl now online rnd msg s =
     (if online then (False, s)
      else (True, s\<lparr> mcache := append_queue fl now MESSAGE_QUEUE_KEY (JObj (queued_message now rnd msg)) (mcache s),
              queuedCount := Suc (queuedCount s) \<rparr>))"

text \<open>\<open>message.retryCount < 3\<close> and the incremented copy.\<close>

fun retry_count :: "jsv \<Rightarrow> int option" where
  "retry_count (JObj kvs) = (case prop_of kvs ''retryCount'' of JNum n \<Rightarrow> Some n | _ \<Rightarrow> None)"
| "retry_count v = None"

definition may_retry :: "jsv \<Rightarrow> bool" where
  "may_retry m = (case retry_count m of Some n \<Rightarrow> n < 3 | None \<Rightarrow> False)"

fun bump_retry :: "jsv \<Rightarrow> jsv" where
  "bump_retry (JObj kvs) =
     JObj (AList.update ''retryCount'' (JNum (num_of (prop_of kvs ''retryCount'') + 1)) kvs)"
| "bump_retry v = v"

record send_job =
  sent :: nat
  failed :: nat
  remaining :: "jsv list"

text \<open>One round of the send loop: \<open>ok\<close> tells whether \<open>sendMessage\<close> resolved.\<close>

definition send_round :: "(jsv \<Rightarrow> bool) \<Rightarrow> jsv \<Rightarrow> send_job \<Rightarrow> send_job" where
  "send_round ok m j =
     (if ok m then j\<lparr> sent := Suc (sent j) \<rparr>
      else j\<lparr> remaining := (if may_retry m then remaining j @ [bump_retry m] else remaining j),
              failed := Suc (failed j) \<rparr>)"

definition send_all :: "(jsv \<Rightarrow> bool) \<Rightarrow> jsv list \<Rightarrow> send_job" where
  "send_all ok queue = fold (send_round ok) queue \<lparr> sent = 0, failed = 0, remaining = [] \<rparr>"

text \<open>\<open>processQueue\<close> of the message hook: the snapshot it takes, and what it writes when the last
  send has settled.\<close>

definition messages_start ::
    "(storage_call \<Rightarrow> bool) \<Rightarrow> int \<Rightarrow> message_state \<Rightarrow> jsv list \<times> message_state" where
  "messages_start fl now s =
     (let (xs, c) = getQueue fl now MESSAGE_QUEUE_KEY (mcache s) in (xs, s\<lparr> mcache := c \<rparr>))"

definition messages_finish ::
    "(storage_call \<Rightarrow> bool) \<Rightarrow> int \<Rightarrow> send_job \<Rightarrow> message_state \<Rightarrow> (nat \<times> nat) \<times> message_state" where
  "messages_finish fl now j s =
     ((sent j, failed j),
      s\<lparr> mcache := (if remaining j \<noteq> []
           then cache_set fl now MESSAGE_QUEUE_KEY (JArr (remaining j)) DAY_MS (mcache s)
           else cache_remove fl MESSAGE_QUEUE_KEY (mcache s)),
         queuedCount := length (remaining j) \<rparr>)"

definition process_messages ::
    "(storage_call \<Rightarrow> bool) \<Rightarrow> int \<Rightarrow> bool \<Rightarrow> (jsv \<Rightarrow> bool) \<Rightarrow> message_state \<Rightarrow> (nat \<times> nat) \<times> message_state" where
  "process_messages fl now online ok s =
     (if \<not> online then ((0, 0), s)
      else let (queue, s) = messages_start fl now s in
        if queue = [] then ((0, 0), s)
        else messages_finish fl now (send_all ok queue) s)"

section \<open>Drafts\<close>

text \<open>An absent or empty conversation id shares the draft \<open>new\<close>.\<close>

definition draft_key :: "string option \<Rightarrow> string" where
  "draft_key conv =
     ''message_draft_'' @ (case conv of None \<Rightarrow> ''new'' | Some i \<Rightarrow> if i = [] then ''new'' else i)"

definition opt_text :: "string option \<Rightarrow> jsv" where
  "opt_text o' = (case o' of None \<Rightarrow> JUndef | Some s \<Rightarrow> JStr s)"

definition saveDraft ::
    "(storage_call \<Rightarrow> bool) \<Rightarrow> int \<Rightarrow> string option \<Rightarrow> string \<Rightarrow> cache_state \<Rightarrow> cache_state" where
  "saveDraft fl now conv body c =
     (if trim body = [] then cache_remove fl (draft_key conv) c
      else cache_set fl now (draft_key conv)
        (JObj [(''conversationId'', opt_text conv), (''body'', JStr body), (''savedAt'', JNum now)]) DAY_MS c)"

definition loadDraft ::
    "(storage_call \<Rightarrow> bool) \<Rightarrow> int \<Rightarrow> string option \<Rightarrow> cache_state \<Rightarrow> jsv \<times> cache_state" where
  "loadDraft fl now conv c =
     (let (d, c') = cache_get fl now (draft_key conv) c in
      (case member d ''body'' of None \<Rightarrow> JStr [] | Some b \<Rightarrow> js_or b (JStr []), c'))"

definition clearDraft :: "(storage_call \<Rightarrow> bool) \<Rightarrow> string option \<Rightarrow> cache_state \<Rightarrow> cache_state" where
  "clearDraft fl conv c = cache_remove fl (draft_key conv) c"

definition checkNetwork :: "net_state \<Rightarrow> bool" where
  "checkNetwork s = (\<not> isOffline s)"

section \<open>Offline-first queries\<close>

text \<open>The query function of \<open>useCachedQuery\<close>: \<open>fetched\<close> is the network's answer, None when it
  rejects; the result None is the rethrown error.\<close>

definition query_fn ::
    "(storage_call \<Rightarrow> bool) \<Rightarrow> int \<Rightarrow> bool \<Rightarrow> bool \<Rightarrow> string \<Rightarrow> int \<Rightarrow> jsv option \<Rightarrow> cache_state
     \<Rightarrow> jsv option \<times> cache_state" where
  "query_fn fl now offline enabled key ttl fetched c =
     (case fetched of
        Some d \<Rightarrow> (Some d, if enabled then cache_set fl now key d ttl c else c)
      | None \<Rightarrow>
          if offline \<and> enabled \<and> truthy (getStale fl key c) then (Some (getStale fl key c), c)
          else (None, c))"

text \<open>The mount effect: the cached data, whatever its age, is shown at once.\<close>

definition initial_data :: "(storage_call \<Rightarrow> bool) \<Rightarrow> bool \<Rightarrow> string \<Rightarrow> cache_state \<Rightarrow> jsv option" where
  "initial_data fl enabled key c =
     (if enabled \<and> truthy (getStale fl key c) then Some (getStale fl key c) else None)"

text \<open>The mutation function of \<open>useCachedMutation\<close>: an offline mutation is queued and rejects
  with \<open>QUEUED_FOR_SYNC\<close> (None).\<close>

definition mutation_fn ::
    "(storage_call \<Rightarrow> bool) \<Rightarrow> int \<Rightarrow> bool \<Rightarrow> string option \<Rightarrow> (jsv \<Rightarrow> jsv option) \<Rightarrow> jsv \<Rightarrow> cache_state
     \<Rightarrow> jsv option \<times> cache_state" where
  "mutation_fn fl now offline key call vars c =
     (if offline \<and> key \<noteq> None \<and> key \<noteq> Some [] then (None, append_queue fl now (the key) vars c)
      else (call vars, c))"

definition syncOnReconnect ::
    "(storage_call \<Rightarrow> bool) \<Rightarrow> int \<Rightarrow> net_state \<times> cache_state \<Rightarrow> net_state \<times> cache_state" where
  "syncOnReconnect fl now sc =
     (let (s, c) = sc in
      if isOnline s \<and> wasOffline s then (clearOfflineFlag s, clearExpired fl now c) else (s, c))"

definition or_text :: "string option \<Rightarrow> string \<Rightarrow> string" where
  "or_text o' d = (case o' of None \<Rightarrow> d | Some s \<Rightarrow> if s = [] then d else s)"

definition programs_key :: "string option \<Rightarrow> string option \<Rightarrow> string" where
  "programs_key status search = ''programs_'' @ or_text status ''all'' @ ''_'' @ or_text search []"

definition program_key :: "string \<Rightarrow> string" where
  "program_key i = ''program_'' @ i"

definition documents_key :: "string option \<Rightarrow> string option \<Rightarrow> string" where
  "documents_key ty i = ''documents_'' @ or_text ty ''all'' @ ''_'' @ or_text i ''all''"

definition client_key :: "string \<Rightarrow> string" where
  "client_key i = ''client_'' @ i"

definition conversations_key :: "string option \<Rightarrow> string" where
  "conversations_key ty = ''conversations_'' @ or_text ty ''all''"

text \<open>\<open>prefetchPrograms\<close> and \<open>prefetchProgramDetails\<close>: \<open>getProgram\<close> may reject (None), which
  stops the loop.\<close>

definition prefetchPrograms ::
    "(storage_call \<Rightarrow> bool) \<Rightarrow> int \<Rightarrow> jsv option \<Rightarrow> cache_state \<Rightarrow> cache_state" where
  "prefetchPrograms fl now d c =
     (case d of None \<Rightarrow> c | Some v \<Rightarrow> cache_set fl now ''programs_all'' v (CACHE_TTL PROGRAMS) c)"

fun prefetchProgramDetails ::
    "(storage_call \<Rightarrow> bool) \<Rightarrow> int \<Rightarrow> (string \<Rightarrow> jsv option) \<Rightarrow> string list \<Rightarrow> cache_state \<Rightarrow> cache_state" where
  "prefetchProgramDetails fl now getProgram [] c = c"
| "prefetchProgramDetails fl now getProgram (i # ids) c =
     (case getProgram i of None \<Rightarrow> c
      | Some v \<Rightarrow> prefetchProgramDetails fl now getProgram ids
          (cache_set fl now (program_key i) v (CACHE_TTL PROGRAM_DETAIL) c))"

section \<open>One delivery round\<close>

lemma keys_not_metadata [simp]:
  "MESSAGE_QUEUE_KEY \<noteq> ''metadata''" "draft_key conv \<noteq> ''metadata''"
  "programs_key st se \<noteq> ''metadata''"
  by (simp_all add: MESSAGE_QUEUE_KEY_def draft_key_def programs_key_def)

lemma norm_fields_length: "length (norm_fields kvs) \<le> length kvs"
  by (induction kvs) (auto simp: le_Suc_eq)

lemma norm_fields_fixed_update:
  "norm_fields kvs = kvs \<Longrightarrow> json_ok v \<Longrightarrow> norm_fields (AList.update k v kvs) = AList.update k v kvs"
proof (induction kvs)
  case (Cons jw kvs)
  obtain j w where jw: "jw = (j, w)" by fastforce
  have "w \<noteq> JUndef"
    using Cons.prems(1) norm_fields_length [of kvs] by (auto simp: jw dest: arg_cong [of _ _ length])
  then show ?case using Cons by (auto simp: jw json_ok_def)
qed (simp add: json_ok_def)

lemma json_ok_bump: "json_ok m \<Longrightarrow> json_ok (bump_retry m)"
  using norm_fields_fixed_update [of _ "JNum _"]
  by (cases m) (auto simp: json_ok_def)

lemma send_all_result:
  "fold (send_round ok) queue j = \<lparr> sent = sent j + length (filter ok queue),
     failed = failed j + length (filter (\<lambda>m. \<not> ok m) queue),
     remaining = remaining j @ map bump_retry (filter (\<lambda>m. \<not> ok m \<and> may_retry m) queue) \<rparr>"
  by (induction queue arbitrary: j) (auto simp: send_round_def)

definition queue_at :: "int \<Rightarrow> message_state \<Rightarrow> jsv list" where
  "queue_at t s = queue_items (fst (cache_get no_fault t MESSAGE_QUEUE_KEY (mcache s)))"

definition after_round :: "(jsv \<Rightarrow> bool) \<Rightarrow> jsv list \<Rightarrow> jsv list" where
  "after_round ok xs = map bump_retry (filter (\<lambda>m. \<not> ok m \<and> may_retry m) xs)"

lemma after_round_ok: "list_all json_ok xs \<Longrightarrow> list_all json_ok (after_round ok xs)"
  by (auto simp: after_round_def list_all_iff json_ok_bump)

lemma queue_at_stored:
  "cache_inv c \<Longrightarrow> norm_items xs = xs \<Longrightarrow> t \<le> now + DAY_MS \<Longrightarrow>
   queue_at t (s\<lparr>mcache := cache_set no_fault now MESSAGE_QUEUE_KEY (JArr xs) DAY_MS c, queuedCount := n\<rparr>) = xs"
  "cache_inv c \<Longrightarrow>
   queue_at t (s\<lparr>mcache := cache_remove no_fault MESSAGE_QUEUE_KEY c, queuedCount := n\<rparr>) = []"
  by (simp_all add: queue_at_def data_cache.look_put data_cache.look_drop)

lemma process_messages_round:
  assumes "cache_inv (mcache s)" "list_all json_ok (queue_at now s)" "now \<le> t" "t \<le> now + DAY_MS"
  shows "queue_at t (snd (process_messages no_fault now True ok s)) = after_round ok (queue_at now s)"
    and "cache_inv (mcache (snd (process_messages no_fault now True ok s)))"
    and "queue_at now s \<noteq> [] \<Longrightarrow> fst (process_messages no_fault now True ok s)
      = (length (filter ok (queue_at now s)), length (filter (\<lambda>m. \<not> ok m) (queue_at now s)))"
proof -
  let ?q = "queue_at now s"
  let ?c = "snd (cache_get no_fault now MESSAGE_QUEUE_KEY (mcache s))"
  have inv: "cache_inv ?c" using assms(1) by (simp add: get_core)
  have same: "queue_at t (s\<lparr>mcache := ?c\<rparr>) = queue_at t s"
    using data_cache.look_looked [OF assms(1) _ _ assms(3), of MESSAGE_QUEUE_KEY MESSAGE_QUEUE_KEY]
    by (simp add: queue_at_def)
  have empty: "queue_at t s = []" if "?q = []"
    using that assms(1,3) by (auto simp: queue_at_def get_result split: option.splits if_splits)
  have run: "process_messages no_fault now True ok s
    = (if ?q = [] then ((0, 0), s\<lparr>mcache := ?c\<rparr>)
       else messages_finish no_fault now (send_all ok ?q) (s\<lparr>mcache := ?c\<rparr>))"
    by (simp add: process_messages_def messages_start_def getQueue_def queue_at_def case_prod_beta Let_def)
  have job: "send_all ok ?q = \<lparr> sent = length (filter ok ?q), failed = length (filter (\<lambda>m. \<not> ok m) ?q),
      remaining = after_round ok ?q \<rparr>"
    by (simp add: send_all_def send_all_result after_round_def)
  have norm: "norm_items (after_round ok ?q) = after_round ok ?q"
    using after_round_ok [OF assms(2)] by simp
  show "queue_at t (snd (process_messages no_fault now True ok s)) = after_round ok ?q"
    using queue_at_stored [OF inv, where s = "s\<lparr>mcache := ?c\<rparr>"] norm assms(4) same empty
    by (simp add: run job messages_finish_def after_round_def)
  show "cache_inv (mcache (snd (process_messages no_fault now True ok s)))"
    using inv by (simp add: run job messages_finish_def set_core remove_core)
  show "?q \<noteq> [] \<Longrightarrow> fst (process_messages no_fault now True ok s)
      = (length (filter ok ?q), length (filter (\<lambda>m. \<not> ok m) ?q))"
    by (simp add: run job messages_finish_def)
qed

text \<open>C9.  A delivery round of the message queue: every queued message is sent, or stays queued
  with its retry count one higher, or is dropped because it had already failed three times; order
  is kept, and the answer counts the sent and the failed ones.\<close>

theorem message_round:
  assumes "cache_inv (mcache s)" "list_all json_ok (queue_at now s)" "queue_at now s \<noteq> []"
    and "now \<le> t" "t \<le> now + DAY_MS"
  shows "queue_at t (snd (process_messages no_fault now True ok s))
      = map bump_retry (filter (\<lambda>m. \<not> ok m \<and> may_retry m) (queue_at now s))
    \<and> fst (process_messages no_fault now True ok s)
      = (length (filter ok (queue_at now s)), length (filter (\<lambda>m. \<not> ok m) (queue_at now s)))"
  using process_messages_round [OF assms(1,2,4,5), of ok] assms(3) by (simp add: after_round_def)

section \<open>Retries are bounded\<close>

text \<open>Rounds in which every send fails, at the given times.\<close>

definition failing_rounds :: "int list \<Rightarrow> message_state \<Rightarrow> message_state" where
  "failing_rounds ts s = fold (\<lambda>t s. snd (process_messages no_fault t True (\<lambda>m. False) s)) ts s"

fun daily :: "int \<Rightarrow> int list \<Rightarrow> bool" where
  "daily t0 [] = True"
| "daily t0 (t # ts) = (t0 \<le> t \<and> t \<le> t0 + DAY_MS \<and> daily t ts)"

lemma failing_rounds_queue:
  assumes "cache_inv (mcache s)" "list_all json_ok (queue_at t s)" "daily t (ts @ [u])"
  shows "queue_at u (failing_rounds (t # ts) s) = (after_round (\<lambda>m. False) ^^ Suc (length ts)) (queue_at t s)"
  using assms
proof (induction ts arbitrary: t s)
  case Nil
  then show ?case
    using process_messages_round(1) [of s t u "\<lambda>m. False"] by (simp add: failing_rounds_def)
next
  case (Cons v ts)
  let ?s = "snd (process_messages no_fault t True (\<lambda>m. False) s)"
  have q: "queue_at v ?s = after_round (\<lambda>m. False) (queue_at t s)" and i: "cache_inv (mcache ?s)"
    using process_messages_round [of s t v "\<lambda>m. False"] Cons.prems by auto
  have "queue_at u (failing_rounds (v # ts) ?s)
      = (after_round (\<lambda>m. False) ^^ Suc (length ts)) (queue_at v ?s)"
    using Cons.prems i after_round_ok [OF Cons.prems(2)] by (intro Cons.IH) (auto simp: q)
  then show ?case by (simp add: failing_rounds_def q funpow_swap1)
qed

lemma retry_bump: "retry_count m = Some n \<Longrightarrow> retry_count (bump_retry m) = Some (n + 1)"
  by (cases m) (auto split: jsv.splits)

lemma after_rounds_retry:
  "\<forall>m \<in> set ((after_round (\<lambda>m. False) ^^ n) xs). 0 < n \<longrightarrow> (\<exists>r. retry_count m = Some r \<and> r \<le> 3)"
  by (cases n) (auto simp: after_round_def may_retry_def retry_bump split: option.splits)

lemma after_rounds_count:
  assumes "list_all (\<lambda>m. \<exists>r. retry_count m = Some r \<and> 0 \<le> r) xs"
  shows "\<forall>m \<in> set ((after_round (\<lambda>m. False) ^^ n) xs). \<exists>r. retry_count m = Some r \<and> int n \<le> r"
proof (induction n)
  case 0
  then show ?case using assms by (simp add: list_all_iff)
next
  case (Suc n)
  then show ?case
    by (force simp: after_round_def retry_bump)
qed

text \<open>Retries are bounded: a message that keeps failing is attempted at most four times.
  After four failing rounds, each within a day of the one before it, the queue is empty.\<close>

theorem message_retries_bounded:
  assumes "cache_inv (mcache s)" "list_all json_ok (queue_at t1 s)"
    and "list_all (\<lambda>m. \<exists>r. retry_count m = Some r \<and> 0 \<le> r) (queue_at t1 s)"
    and "daily t1 [t2, t3, t4, t5]"
  shows "queue_at t5 (failing_rounds [t1, t2, t3, t4] s) = []"
proof -
  let ?q = "(after_round (\<lambda>m. False) ^^ 4) (queue_at t1 s)"
  have "queue_at t5 (failing_rounds [t1, t2, t3, t4] s) = ?q"
    using failing_rounds_queue [OF assms(1,2), of "[t2, t3, t4]" t5] assms(4)
    by (simp add: numeral_eq_Suc)
  moreover have False if "m \<in> set ?q" for m
    using after_rounds_retry [of 4 "queue_at t1 s"] after_rounds_count [OF assms(3), of 4] that by fastforce
  ultimately show ?thesis by (cases ?q) auto
qed

section \<open>A message queued during a round\<close>

text \<open>A message queued while a round is sending is lost: the round ends by writing back what
  is left of the snapshot it took at its start.\<close>

theorem message_queued_during_round_lost:
  fixes t1 :: int and rnd :: string and msg :: jsobj
  assumes "cache_inv (mcache s)" "list_all json_ok (queue_at t0 s)" "t \<le> t2 + DAY_MS"
  defines "snap \<equiv> fst (messages_start no_fault t0 s)"
    and "s1 \<equiv> snd (messages_start no_fault t0 s)"
  defines "q \<equiv> queueMessage no_fault t1 False rnd msg s1"
  shows "fst q \<and> queue_at t (snd (messages_finish no_fault t2 (send_all ok snap) (snd q)))
    = map bump_retry (filter (\<lambda>m. \<not> ok m \<and> may_retry m) (queue_at t0 s))"
proof -
  have snap: "snap = queue_at t0 s"
    by (simp add: snap_def messages_start_def getQueue_def queue_at_def case_prod_beta Let_def)
  have job: "remaining (send_all ok snap) = after_round ok (queue_at t0 s)"
    by (simp add: send_all_def send_all_result after_round_def snap)
  have "cache_inv (mcache s1)"
    using assms(1) by (simp add: s1_def messages_start_def getQueue_def case_prod_beta Let_def get_core)
  then have "cache_inv (mcache (snd q))"
    by (simp add: q_def queueMessage_def append_queue_def getQueue_def case_prod_beta Let_def
        get_core set_core)
  note stored = queue_at_stored [OF this, where s = "snd q"]
  have "norm_items (after_round ok (queue_at t0 s)) = after_round ok (queue_at t0 s)"
    using after_round_ok [OF assms(2)] by simp
  then have "queue_at t (snd (messages_finish no_fault t2 (send_all ok snap) (snd q)))
      = after_round ok (queue_at t0 s)"
    using stored assms(3) by (simp add: messages_finish_def job)
  then show ?thesis by (simp add: after_round_def q_def queueMessage_def)
qed

section \<open>The generic queue\<close>

text \<open>While the token stays fresh, the loop only counts.\<close>

lemma process_loop_fresh:
  assumes "parseJwtExp dec (token a) = Some e" "e \<noteq> 0"
    and "list_all (\<lambda>r. e - at r > TOKEN_EXPIRY_SKEW_MS) rs"
  shows "process_loop dev dec n p f rs a =
    Finished (p + length (filter (\<lambda>r. answer r = ProcTrue) rs))
      (f + length (filter (\<lambda>r. answer r \<noteq> ProcTrue) rs)) a"
  using assms(3)
  by (induction rs arbitrary: p f) (auto simp: ensureFreshToken_def assms(1,2))

text \<open>The generic queue drops failed items: with a fresh token, one successful item is
  enough for \<open>processQueue\<close> to empty the whole queue, the items it reports as failed included;
  if every item fails, the queue is kept.\<close>

theorem generic_queue_outcome:
  assumes "cache_inv (cache s)" "key \<noteq> ''metadata''"
    and "parseJwtExp dec (token (auth s)) = Some e" "e \<noteq> 0"
    and "fst (getQueue no_fault now key (cache s)) = xs"
    and "\<And>i. i < length xs \<Longrightarrow> e - at (envs i) > TOKEN_EXPIRY_SKEW_MS"
    and "now \<le> t"
  defines "good \<equiv> length (filter (\<lambda>i. answer (envs i) = ProcTrue) [0..<length xs])"
  shows "fst (processQueue dev dec no_fault now key envs s) = Some (good, length xs - good)
    \<and> fst (getQueue no_fault t key (cache (snd (processQueue dev dec no_fault now key envs s))))
        = (if good > 0 then [] else fst (getQueue no_fault t key (cache s)))"
proof -
  let ?c = "snd (getQueue no_fault now key (cache s))"
  have c: "?c = snd (cache_get no_fault now key (cache s))" and inv: "cache_inv ?c"
    using get_core [OF assms(1,2)] by (simp_all add: getQueue_def case_prod_beta Let_def)
  have bad: "length (filter (\<lambda>i. answer (envs i) \<noteq> ProcTrue) [0..<length xs]) = length xs - good"
    using sum_length_filter_compl [of "\<lambda>i. answer (envs i) = ProcTrue" "[0..<length xs]"]
    by (simp add: good_def)
  have loop: "process_loop dev dec (length xs) 0 0 (map envs [0..<length xs]) (auth s)
      = Finished good (length xs - good) (auth s)"
    using process_loop_fresh [OF assms(3,4), of "map envs [0..<length xs]" dev "length xs" 0 0] assms(6)
    by (simp add: good_def bad [unfolded good_def] filter_map comp_def list_all_iff)
  have run: "processQueue dev dec no_fault now key envs s
      = process_finish no_fault key (Finished good (length xs - good) (auth s)) (s\<lparr>cache := ?c\<rparr>)"
    using assms(5) by (simp add: processQueue_def case_prod_beta loop)
  have "fst (cache_get no_fault t key ?c) = fst (cache_get no_fault t key (cache s))"
    unfolding c using data_cache.look_looked [OF assms(1,2,2,7)] .
  then show ?thesis
    using data_cache.look_drop [OF inv assms(2,2), of t] 
    by (simp add: run process_finish_def clearQueue_def Let_def getQueue_def case_prod_beta)
qed

section \<open>Queries answer from the cache while offline\<close>

text \<open>Cache traffic that neither rewrites nor drops the entry of \<open>key\<close>.\<close>

fun leaves :: "string \<Rightarrow> cache_event \<Rightarrow> bool" where
  "leaves key (CSet now k d ttl) = (k \<noteq> key \<and> k \<noteq> ''metadata'')"
| "leaves key (CGet now k) = (k \<noteq> key \<and> k \<noteq> ''metadata'')"
| "leaves key (CRemove k) = (k \<noteq> key \<and> k \<noteq> ''metadata'')"
| "leaves key CRestart = True"
| "leaves key e = False"

lemma leaves_spec: "leaves key e \<Longrightarrow> spec_step m e key = m key"
  by (cases e) (auto split: option.splits)

lemma leaves_run:
  assumes "cache_inv c" "list_all (leaves key) es"
  shows "cache_inv (run cache_step es c) \<and> cache_abs (run cache_step es c) key = cache_abs c key"
  using assms
proof (induction es arbitrary: c)
  case (Cons e es)
  have safe: "safe_event e" using Cons.prems(2) by (cases e) auto
  have "cache_abs (cache_step c e) key = cache_abs c key"
    using Cons.prems cache_step_refines(2) [OF Cons.prems(1) safe] by (simp add: leaves_spec)
  then show ?case
    using Cons.IH [of "cache_step c e"] Cons.prems cache_step_refines(1) [OF Cons.prems(1) safe] by simp
qed simp

text \<open>C12.  Offline-first queries: once a fetch has succeeded, the query answers with the fetched
  data when the network is gone, at any later time (also past the time to live and across a
  restart) as long as its own entry is not touched.\<close>

theorem offline_query_serves_last_fetch:
  fixes t0 ttl :: int and off :: bool
  assumes "cache_inv c" "key \<noteq> ''metadata''" "json_ok d" "truthy d" "list_all (leaves key) es"
  defines "c1 \<equiv> snd (query_fn no_fault t0 off True key ttl (Some d) c)"
  shows "fst (query_fn no_fault t1 True True key ttl None (run cache_step es c1)) = Some d"
proof -
  have c1: "cache_inv c1" "cache_abs c1 key = Some (d, t0 + ttl)"
    using assms(1-3) by (simp_all add: c1_def query_fn_def set_core set_abs json_ok_def)
  have "getStale no_fault key (run cache_step es c1) = d"
    using leaves_run [OF c1(1) assms(5)] c1(2) assms(2) by (simp add: stale_result(1))
  then show ?thesis using assms(4) by (simp add: query_fn_def)
qed

text \<open>The prefetched program list is never found: it is cached under \<open>programs_all\<close>, while
  the unfiltered list query reads \<open>programs_all_\<close>, so offline the query still fails.\<close>

theorem prefetched_programs_missed:
  shows "fst (query_fn no_fault t True True (programs_key None None) (CACHE_TTL PROGRAMS) None
           (prefetchPrograms no_fault t0 (Some d) cache_init)) = None"
proof -
  have "cache_inv (prefetchPrograms no_fault t0 (Some d) cache_init)"
    by (simp add: prefetchPrograms_def set_core cache_init_inv)
  moreover have "cache_abs (prefetchPrograms no_fault t0 (Some d) cache_init) (programs_key None None) = None"
    by (simp add: prefetchPrograms_def set_abs cache_init_abs programs_key_def or_text_def)
  ultimately show ?thesis by (simp add: query_fn_def stale_result(1))
qed

text \<open>Detail prefetching, in contrast, uses the key of the detail query.\<close>

lemma prefetched_detail_found:
  assumes "cache_inv c" "getProgram i = Some d" "json_ok d" "truthy d"
  shows "fst (query_fn no_fault t True True (program_key i) ttl None
           (prefetchProgramDetails no_fault t0 getProgram [i] c)) = Some d"
proof -
  have k: "program_key i \<noteq> ''metadata''" by (simp add: program_key_def)
  show ?thesis
    using assms k set_core [OF assms(1) k] set_abs [OF k]
    by (simp add: query_fn_def stale_result(1) json_ok_def)
qed

section \<open>Drafts\<close>

text \<open>Draft round trip: the text saved for a conversation is what loading gives for a day
  (a blank text removes the draft), and drafts of other conversations are untouched.\<close>

theorem draft_roundtrip:
  assumes "cache_inv c" "now \<le> t" "t \<le> now + DAY_MS"
  shows "fst (loadDraft no_fault t conv (saveDraft no_fault now conv body c))
      = JStr (if trim body = [] then [] else body)
    \<and> (draft_key other \<noteq> draft_key conv \<longrightarrow>
        fst (loadDraft no_fault t other (saveDraft no_fault now conv body c))
          = fst (loadDraft no_fault t other c))"
proof -
  have body: "body \<noteq> []" if "trim body \<noteq> []" using that by (auto simp: trim_def)
  show ?thesis
    using assms(1,3) body
    by (auto simp: loadDraft_def saveDraft_def case_prod_beta data_cache.look_put data_cache.look_drop
        js_or_def opt_text_def split: option.splits)
qed

section \<open>Instances\<close>

definition waiting :: "message_state" where
  "waiting = snd (queueMessage no_fault 0 False ''x1'' [(''body'', JStr ''hello'')]
     \<lparr> mcache = cache_init, queuedCount = 0 \<rparr>)"

definition hello :: "jsv" where
  "hello = JObj (queued_message 0 ''x1'' [(''body'', JStr ''hello'')])"

lemma hello_simps [simp]: "json_ok hello" "retry_count hello = Some 0" "may_retry hello"
  by (simp_all add: hello_def queued_message_def spread_def json_ok_def may_retry_def)

lemma waiting_queue:
  shows waiting_inv: "cache_inv (mcache waiting)"
    and waiting_at: "t \<le> DAY_MS \<Longrightarrow> queue_at t waiting = [hello]"
proof -
  have q: "queue_at 0 \<lparr> mcache = cache_init, queuedCount = 0 \<rparr> = []"
    by (simp add: queue_at_def get_result cache_init_inv cache_init_abs)
  then have w: "mcache waiting = cache_set no_fault 0 MESSAGE_QUEUE_KEY (JArr [hello]) DAY_MS
      (snd (cache_get no_fault 0 MESSAGE_QUEUE_KEY cache_init))"
    by (simp add: waiting_def queueMessage_def append_queue_def getQueue_def case_prod_beta Let_def
        queue_at_def hello_def)
  have i: "cache_inv (snd (cache_get no_fault 0 MESSAGE_QUEUE_KEY cache_init))"
    by (simp add: get_core cache_init_inv)
  show "cache_inv (mcache waiting)" unfolding w using i by (simp add: set_core)
  show "queue_at t waiting = [hello]" if "t \<le> DAY_MS"
    unfolding queue_at_def w using i that by (simp add: data_cache.look_put norm_items_ok [of "[hello]"] del: norm_items.simps)
qed

lemma message_round_witness:
  "queue_at 5 (snd (process_messages no_fault 1 True (\<lambda>m. False) waiting)) = [bump_retry hello]
   \<and> fst (process_messages no_fault 1 True (\<lambda>m. False) waiting) = (0, 1)"
  using message_round [of waiting 1 5 "\<lambda>m. False"] waiting_inv waiting_at
  by (simp add: DAY_MS_def)

lemma message_retries_witness:
  "queue_at 5 (failing_rounds [1, 2, 3, 4] waiting) = []"
  by (rule message_retries_bounded) (simp_all add: waiting_inv waiting_at DAY_MS_def)

lemma message_lost_witness:
  "queue_at 5 (snd (messages_finish no_fault 4
     (send_all (\<lambda>m. True) (fst (messages_start no_fault 2 waiting)))
     (snd (queueMessage no_fault 3 False ''x2'' [(''body'', JStr ''lost'')]
        (snd (messages_start no_fault 2 waiting)))))) = []"
  using message_queued_during_round_lost [of waiting 2 5 4 3 "''x2''" "[(''body'', JStr ''lost'')]" "\<lambda>m. True"]
    waiting_inv waiting_at [of 2]
  by (simp add: DAY_MS_def)

definition two_jobs :: "queue_state" where
  "two_jobs = \<lparr> cache = append_queue no_fault 0 ''jobs'' (JNum 2) (append_queue no_fault 0 ''jobs'' (JNum 1) cache_init),
     queueRef = [], auth = auth_init\<lparr> token := Some ''a.b'' \<rparr> \<rparr>"

definition claims_of :: "string \<Rightarrow> jsv option" where
  "claims_of p = Some (JObj [(''exp'', JNum 1000)])"

definition first_only :: "nat \<Rightarrow> round_env" where
  "first_only i = \<lparr> at = 10, refresh = None, answer = (if i = 0 then ProcTrue else ProcFalse) \<rparr>"

lemma generic_queue_witness:
  "fst (processQueue phone claims_of no_fault 10 ''jobs'' first_only two_jobs) = Some (1, 1)
   \<and> fst (getQueue no_fault 10 ''jobs'' (cache (snd (processQueue phone claims_of no_fault 10 ''jobs'' first_only two_jobs)))) = []"
proof -
  have inv: "cache_inv (cache two_jobs)"
    by (simp add: two_jobs_def append_queue_def getQueue_def case_prod_beta Let_def get_core set_core cache_init_inv)
  have jobs: "fst (getQueue no_fault 10 ''jobs'' (cache two_jobs)) = [JNum 1, JNum 2]"
    by (simp add: two_jobs_def append_queue_def getQueue_def case_prod_beta Let_def get_result
        get_core get_abs set_core set_abs cache_init_inv cache_init_abs DAY_MS_def)
  have tok: "parseJwtExp claims_of (token (auth two_jobs)) = Some 1000000"
    by (simp add: two_jobs_def parseJwtExp_def claims_of_def)
  have two: "[0..<length [JNum 1, JNum 2]] = [0, 1]" by (simp add: upt_rec)
  show ?thesis
    using generic_queue_outcome [OF inv _ tok _ jobs, where envs = first_only and t = 10 and dev = phone, unfolded two]
    by (simp add: first_only_def TOKEN_EXPIRY_SKEW_MS_def)
qed

lemma offline_query_witness:
  "fst (query_fn no_fault 9000000 True True (programs_key None None) 1 None
     (run cache_step [CSet 5 ''client_1'' (JStr ''x'') 9, CRestart]
       (snd (query_fn no_fault 0 False True (programs_key None None) 1 (Some (JArr [JNum 1])) cache_init))))
   = Some (JArr [JNum 1])"
  by (rule offline_query_serves_last_fetch)
     (simp_all add: cache_init_inv json_ok_def programs_key_def or_text_def)

lemma draft_roundtrip_witness:
  "fst (loadDraft no_fault 5 (Some ''c1'') (saveDraft no_fault 1 (Some ''c1'') ''hi'' cache_init)) = JStr ''hi''"
  using draft_roundtrip [of cache_init 1 5 "Some ''c1''" "''hi''"]
  by (simp add: cache_init_inv DAY_MS_def trim_def is_space_def code_def)

end
