(* ===== verification/Preferences.thy ===== *)
theory Preferences
  imports Machines Storage
begin

text \<open>
  User preferences with multi-device sync: the persisted zustand store
  \<open>frontend/src/stores/preferences-store.ts\<close> and the hook
  \<open>frontend/src/hooks/use-preferences-sync.ts\<close>.  The hook's callbacks close over the store
  values of the render that created them, so the state keeps that snapshot (\<open>rendered\<close>) and the
  snapshot captured by the debounce timer; \<open>render\<close> is an event.  A sync is split at its
  network call: a start, and a finish with the server's answer.
\<close>

section \<open>The store\<close>

record sync_change =
  entity_type :: string
  action :: string
  payload :: jsobj
  client_timestamp :: int
  device_id :: string

record queued_change =
  change_id :: string
  change :: sync_change
  queuedAt :: int

record conflict_resolution =
  server_version :: int
  client_version :: int
  conflict_fields :: "string list"
  resolution_strategy :: string

datatype sync_date = ClientDate int | ServerDate string

record sync_state =
  isSyncing :: bool
  lastSyncedAt :: "sync_date option"
  pendingChanges :: int
  conflictDetected :: bool
  conflict :: "conflict_resolution option"
  isOnline :: bool

record prefs_response =
  ui_preferences :: jsobj
  version :: int
  sync_enabled :: bool
  updated_at :: string

record sync_response =
  resp_preferences :: prefs_response
  resp_server_version :: int
  synced_at :: string

record prefs_store =
  preferences :: jsobj
  syncState :: sync_state
  offlineQueue :: "queued_change list"
  serverVersion :: int
  deviceId :: string
  syncEnabled :: bool

definition defaultUIPreferences :: "jsobj" where
  "defaultUIPreferences = [(''theme'', JStr ''system''), (''sidebar_collapsed'', JBool False),
     (''density'', JStr ''comfortable''), (''language'', JStr ''en''),
     (''date_format'', JStr ''MM/DD/YYYY''), (''time_format'', JStr ''12h''),
     (''page_sizes'', JObj []), (''column_visibility'', JObj [])]"

definition initialSyncState :: "bool \<Rightarrow> sync_state" where
  "initialSyncState onLine = \<lparr> isSyncing = False, lastSyncedAt = None, pendingChanges = 0,
     conflictDetected = False, conflict = None, isOnline = onLine \<rparr>"

definition prefs_init :: "bool \<Rightarrow> string \<Rightarrow> prefs_store" where
  "prefs_init onLine dev = \<lparr> preferences = defaultUIPreferences, syncState = initialSyncState onLine,
     offlineQueue = [], serverVersion = 1, deviceId = dev, syncEnabled = True \<rparr>"

text \<open>\<open>generateDeviceId\<close>: the stored id, or a new one, which is stored.\<close>

definition generateDeviceId :: "int \<Rightarrow> string \<Rightarrow> storage \<Rightarrow> string \<times> storage" where
  "generateDeviceId now rnd st =
     (let fresh = ''web-'' @ int_text now @ ''-'' @ rnd in
      case get_item st ''amg-device-id'' of
        Some c \<Rightarrow> if cell_text c \<noteq> [] then (cell_text c, st)
                  else (fresh, AList.update ''amg-device-id'' (Raw fresh) st)
      | None \<Rightarrow> (fresh, AList.update ''amg-device-id'' (Raw fresh) st))"

definition generateChangeId :: "int \<Rightarrow> string \<Rightarrow> string" where
  "generateChangeId now rnd = ''change-'' @ int_text now @ ''-'' @ rnd"

definition store_updatePreference :: "string \<Rightarrow> jsv \<Rightarrow> prefs_store \<Rightarrow> prefs_store" where
  "store_updatePreference key value s = s\<lparr> preferences := AList.update key value (preferences s) \<rparr>"

definition updatePreferences :: "jsobj \<Rightarrow> prefs_store \<Rightarrow> prefs_store" where
  "updatePreferences updates s = s\<lparr> preferences := spread (preferences s) updates \<rparr>"

definition setPreferencesFromServer :: "prefs_response \<Rightarrow> prefs_store \<Rightarrow> prefs_store" where
  "setPreferencesFromServer r s = s\<lparr> preferences := ui_preferences r, serverVersion := version r,
     syncEnabled := sync_enabled r,
     syncState := (syncState s)\<lparr> lastSyncedAt := Some (ServerDate (updated_at r)) \<rparr> \<rparr>"

definition queueChange :: "int \<Rightarrow> string \<Rightarrow> sync_change \<Rightarrow> prefs_store \<Rightarrow> prefs_store" where
  "queueChange now rnd c s = s\<lparr>
     offlineQueue := offlineQueue s @ [\<lparr> change_id = generateChangeId now rnd, change = c, queuedAt = now \<rparr>],
     syncState := (syncState s)\<lparr> pendingChanges := int (length (offlineQueue s)) + 1 \<rparr> \<rparr>"

definition removeQueuedChange :: "string \<Rightarrow> prefs_store \<Rightarrow> prefs_store" where
  "removeQueuedChange i s = s\<lparr>
     offlineQueue := filter (\<lambda>c. change_id c \<noteq> i) (offlineQueue s),
     syncState := (syncState s)\<lparr> pendingChanges := max 0 (int (length (offlineQueue s)) - 1) \<rparr> \<rparr>"

definition clearOfflineQueue :: "prefs_store \<Rightarrow> prefs_store" where
  "clearOfflineQueue s = s\<lparr> offlineQueue := [], syncState := (syncState s)\<lparr> pendingChanges := 0 \<rparr> \<rparr>"

text \<open>\<open>setSyncState\<close> with the updates the hook passes.\<close>

definition setSyncState :: "(sync_state \<Rightarrow> sync_state) \<Rightarrow> prefs_store \<Rightarrow> prefs_store" where
  "setSyncState upd s = s\<lparr> syncState := upd (syncState s) \<rparr>"

definition setConflict :: "conflict_resolution option \<Rightarrow> prefs_store \<Rightarrow> prefs_store" where
  "setConflict c s = s\<lparr> syncState := (syncState s)\<lparr> conflictDetected := (c \<noteq> None), conflict := c \<rparr> \<rparr>"

definition setServerVersion :: "int \<Rightarrow> prefs_store \<Rightarrow> prefs_store" where
  "setServerVersion v s = s\<lparr> serverVersion := v \<rparr>"

definition prefs_reset :: "bool \<Rightarrow> prefs_store \<Rightarrow> prefs_store" where
  "prefs_reset onLine s = s\<lparr> preferences := defaultUIPreferences, syncState := initialSyncState onLine,
     offlineQueue := [], serverVersion := 1, syncEnabled := True \<rparr>"

text \<open>A page load: the persisted part (\<open>partialize\<close>) is merged over the initial state.\<close>

record persisted =
  p_preferences :: jsobj
  p_serverVersion :: int
  p_deviceId :: string
  p_syncEnabled :: bool
  p_offlineQueue :: "queued_change list"

definition partialize :: "prefs_store \<Rightarrow> persisted" where
  "partialize s = \<lparr> p_preferences = preferences s, p_serverVersion = serverVersion s,
     p_deviceId = deviceId s, p_syncEnabled = syncEnabled s, p_offlineQueue = offlineQueue s \<rparr>"

definition rehydrate :: "bool \<Rightarrow> persisted \<Rightarrow> prefs_store" where
  "rehydrate onLine p = (prefs_init onLine (p_deviceId p))\<lparr> preferences := p_preferences p,
     serverVersion := p_serverVersion p, syncEnabled := p_syncEnabled p,
     offlineQueue := p_offlineQueue p \<rparr>"

definition useTheme :: "prefs_store \<Rightarrow> jsv" where
  "useTheme s = prop_of (preferences s) ''theme''"

definition useSidebarCollapsed :: "prefs_store \<Rightarrow> jsv" where
  "useSidebarCollapsed s = prop_of (preferences s) ''sidebar_collapsed''"

definition useDensity :: "prefs_store \<Rightarrow> jsv" where
  "useDensity s = prop_of (preferences s) ''density''"

definition usePendingChanges :: "prefs_store \<Rightarrow> int" where
  "usePendingChanges s = pendingChanges (syncState s)"

section \<open>The sync hook\<close>

text \<open>What a render's callbacks close over.\<close>

record snapshot =
  snap_queue :: "queued_change list"
  snap_version :: int
  snap_preferences :: jsobj
  snap_conflict :: "conflict_resolution option"

record push_request =
  req_device :: string
  req_changes :: "sync_change list"
  req_version :: int

datatype request = Pull | Push push_request

record hook_state = prefs_store +
  rendered :: snapshot
  syncTimeout :: "snapshot option"

definition snap_of :: "prefs_store \<Rightarrow> snapshot" where
  "snap_of s = \<lparr> snap_queue = offlineQueue s, snap_version = serverVersion s,
     snap_preferences = preferences s, snap_conflict = conflict (syncState s) \<rparr>"

text \<open>The store's actions on the hook's state.\<close>

definition on_store :: "(prefs_store \<Rightarrow> prefs_store) \<Rightarrow> hook_state \<Rightarrow> hook_state" where
  "on_store f h = (let s = f (prefs_store.truncate h) in
     h\<lparr> preferences := preferences s, syncState := syncState s, offlineQueue := offlineQueue s,
        serverVersion := serverVersion s, deviceId := deviceId s, syncEnabled := syncEnabled s \<rparr>)"

definition render :: "hook_state \<Rightarrow> hook_state" where
  "render h = h\<lparr> rendered := snap_of (prefs_store.truncate h) \<rparr>"

definition syncing :: "sync_state \<Rightarrow> sync_state" where
  "syncing st = st\<lparr> isSyncing := True \<rparr>"

definition sync_failed :: "sync_state \<Rightarrow> sync_state" where
  "sync_failed st = st\<lparr> isSyncing := False, isOnline := False \<rparr>"

text \<open>\<open>syncNow\<close> of the render whose snapshot is \<open>c\<close>: the request it sends.\<close>

definition syncNow_start :: "snapshot \<Rightarrow> hook_state \<Rightarrow> request \<times> hook_state" where
  "syncNow_start c h =
     (let h' = on_store (setSyncState syncing) h in
      if snap_queue c \<noteq> [] then
        (Push \<lparr> req_device = deviceId h, req_changes = map change (snap_queue c),
           req_version = snap_version c \<rparr>, h')
      else (Pull, h'))"

definition pull_finish :: "int \<Rightarrow> prefs_response option \<Rightarrow> hook_state \<Rightarrow> hook_state" where
  "pull_finish now resp h =
     (case resp of
        None \<Rightarrow> on_store (setSyncState sync_failed) h
      | Some r \<Rightarrow> on_store (\<lambda>s. setSyncState (\<lambda>st. st\<lparr> isSyncing := False,
             lastSyncedAt := Some (ClientDate now), isOnline := True \<rparr>)
           (setPreferencesFromServer r s)) h)"

definition push_finish :: "sync_response option \<Rightarrow> hook_state \<Rightarrow> hook_state" where
  "push_finish resp h =
     (case resp of
        None \<Rightarrow> on_store (setSyncState sync_failed) h
      | Some r \<Rightarrow> on_store (\<lambda>s. setSyncState (\<lambda>st. st\<lparr> isSyncing := False,
             lastSyncedAt := Some (ServerDate (synced_at r)), isOnline := True, pendingChanges := 0 \<rparr>)
           (clearOfflineQueue (setServerVersion (resp_server_version r)
             (setPreferencesFromServer (resp_preferences r) s)))) h)"

definition ui_change :: "int \<Rightarrow> string \<Rightarrow> jsobj \<Rightarrow> sync_change" where
  "ui_change now dev updates = \<lparr> entity_type = ''preference'', action = ''update_ui_preference'',
     payload = updates, client_timestamp = now, device_id = dev \<rparr>"

text \<open>\<open>updateMultiplePreferences\<close> of the last render; with \<open>immediate\<close> the sync starts at once
  (the request is the second component), otherwise the debounce timer keeps the closure.\<close>

definition updateMultiplePreferences ::
    "int \<Rightarrow> string \<Rightarrow> jsobj \<Rightarrow> bool \<Rightarrow> hook_state \<Rightarrow> request option \<times> hook_state" where
  "updateMultiplePreferences now rnd updates immediate h =
     (let h = on_store (\<lambda>s. queueChange now rnd (ui_change now (deviceId s) updates)
                (updatePreferences updates s)) h;
          h = h\<lparr> syncTimeout := None \<rparr> in
      if immediate then (let (r, h) = syncNow_start (rendered h) h in (Some r, h))
      else (None, h\<lparr> syncTimeout := Some (rendered h) \<rparr>))"

definition updatePreference ::
    "int \<Rightarrow> string \<Rightarrow> string \<Rightarrow> jsv \<Rightarrow> bool \<Rightarrow> hook_state \<Rightarrow> request option \<times> hook_state" where
  "updatePreference now rnd key value immediate =
     updateMultiplePreferences now rnd [(key, value)] immediate"

definition timer_fires :: "hook_state \<Rightarrow> request option \<times> hook_state" where
  "timer_fires h =
     (case syncTimeout h of None \<Rightarrow> (None, h)
      | Some c \<Rightarrow> (let (r, h) = syncNow_start c (h\<lparr> syncTimeout := None \<rparr>) in (Some r, h)))"

definition acceptServerVersion :: "prefs_response option \<Rightarrow> hook_state \<Rightarrow> hook_state" where
  "acceptServerVersion resp h =
     (case resp of None \<Rightarrow> h
      | Some r \<Rightarrow> on_store (\<lambda>s. clearOfflineQueue (setConflict None (setPreferencesFromServer r s))) h)"

definition forceLocal_start :: "int \<Rightarrow> hook_state \<Rightarrow> push_request option" where
  "forceLocal_start now h =
     (case snap_conflict (rendered h) of None \<Rightarrow> None
      | Some c \<Rightarrow> Some \<lparr> req_device = deviceId h,
          req_changes = [ui_change now (deviceId h) (snap_preferences (rendered h))],
          req_version = server_version c \<rparr>)"

definition forceLocal_finish :: "sync_response option \<Rightarrow> hook_state \<Rightarrow> hook_state" where
  "forceLocal_finish resp h =
     (case resp of None \<Rightarrow> h
      | Some r \<Rightarrow> on_store (\<lambda>s. clearOfflineQueue (setConflict None
           (setPreferencesFromServer (resp_preferences r) s))) h)"

text \<open>The \<open>online\<close> handler reads the queue through a ref, but syncs with its render's closure.\<close>

definition handleOnline :: "hook_state \<Rightarrow> request option \<times> hook_state" where
  "handleOnline h =
     (let h = on_store (setSyncState (\<lambda>st. st\<lparr> isOnline := True \<rparr>)) h in
      if offlineQueue h \<noteq> [] then (let (r, h) = syncNow_start (rendered h) h in (Some r, h))
      else (None, h))"

definition handleOffline :: "hook_state \<Rightarrow> hook_state" where
  "handleOffline h = on_store (setSyncState (\<lambda>st. st\<lparr> isOnline := False \<rparr>)) h"

definition periodic_sync :: "hook_state \<Rightarrow> request option \<times> hook_state" where
  "periodic_sync h =
     (if isOnline (syncState h) \<and> snap_queue (rendered h) \<noteq> [] then
        (let (r, h) = syncNow_start (rendered h) h in (Some r, h))
      else (None, h))"

definition getBrowserName :: "string \<Rightarrow> string" where
  "getBrowserName ua =
     (if str_includes ''Firefox'' ua then ''Firefox''
      else if str_includes ''Edg'' ua then ''Edge''
      else if str_includes ''Chrome'' ua then ''Chrome''
      else if str_includes ''Safari'' ua then ''Safari''
      else if str_includes ''Opera'' ua \<or> str_includes ''OPR'' ua then ''Opera''
      else ''Unknown Browser'')"

section \<open>Edits wait for a successful push\<close>

datatype sync_event =
    HUpdate int string jsobj
  | HRender
  | HTimer
  | HOnline
  | HOffline
  | HPeriodic
  | HPull int "prefs_response option"
  | HPushFails
  | HPushOk sync_response
  | HAccept "prefs_response option"
  | HForce "sync_response option"


definition hook_init :: "bool \<Rightarrow> string \<Rightarrow> hook_state" where
  "hook_init onLine dev = prefs_store.extend (prefs_init onLine dev)
     \<lparr> rendered = snap_of (prefs_init onLine dev), syncTimeout = None \<rparr>"

lemmas store_ops = setSyncState_def setConflict_def setServerVersion_def clearOfflineQueue_def
  setPreferencesFromServer_def queueChange_def updatePreferences_def

lemmas hook_ops = updateMultiplePreferences_def timer_fires_def handleOnline_def handleOffline_def
  periodic_sync_def pull_finish_def push_finish_def acceptServerVersion_def forceLocal_finish_def
  syncNow_start_def render_def syncing_def sync_failed_def

lemma on_store_sel [simp]:
  "offlineQueue (on_store f h) = offlineQueue (f (prefs_store.truncate h))"
  "preferences (on_store f h) = preferences (f (prefs_store.truncate h))"
  "syncState (on_store f h) = syncState (f (prefs_store.truncate h))"
  "rendered (on_store f h) = rendered h"
  "syncTimeout (on_store f h) = syncTimeout h"
  "deviceId (on_store f h) = deviceId (f (prefs_store.truncate h))"
  by (simp_all add: on_store_def Let_def)

lemma truncate_sel [simp]:
  "offlineQueue (prefs_store.truncate h) = offlineQueue h"
  "preferences (prefs_store.truncate h) = preferences h"
  "syncState (prefs_store.truncate h) = syncState h"
  "deviceId (prefs_store.truncate h) = deviceId h"
  by (simp_all add: prefs_store.truncate_def)





fun edits :: "sync_event list \<Rightarrow> jsobj list" where
  "edits [] = []"
| "edits (HUpdate now rnd u # es) = u # edits es"
| "edits (e # es) = edits es"

definition queued_payloads :: "hook_state \<Rightarrow> jsobj list" where
  "queued_payloads h = map (payload \<circ> change) (offlineQueue h)"


lemma edits_append [simp]: "edits (es @ fs) = edits es @ edits fs"
  by (induction es rule: edits.induct) auto




section \<open>Where edits are lost\<close>

text \<open>The debounced sync uses a stale closure: with an empty queue at the last render, the
  timer set by an edit pulls instead of pushing, and the answer overwrites the edit on screen,
  while the edit itself stays in the queue.\<close>

theorem debounced_edit_reverted:
  fixes now now' :: int and rnd key :: string and v :: jsv and r :: prefs_response
  assumes "offlineQueue h = []"
  defines "edited \<equiv> render (snd (updatePreference now rnd key v False (render h)))"
  defines "after \<equiv> pull_finish now' (Some r) (snd (timer_fires edited))"
  shows "prop_of (preferences edited) key = v
    \<and> fst (timer_fires edited) = Some Pull
    \<and> preferences after = ui_preferences r
    \<and> queued_payloads after = [[(key, v)]]"
  using assms(1)
  by (simp add: after_def edited_def updatePreference_def updateMultiplePreferences_def hook_ops
      store_ops snap_of_def Let_def spread_def queued_payloads_def ui_change_def)

text \<open>A push drops edits made while it was in flight: they are not in the request, yet the
  answer empties the whole queue and replaces the preferences.\<close>

theorem edit_during_push_lost:
  fixes now :: int and rnd :: string and u :: jsobj and r :: sync_response
  assumes "offlineQueue h \<noteq> []"
  defines "h0 \<equiv> render h"
  defines "start \<equiv> syncNow_start (rendered h0) h0"
  defines "after \<equiv> push_finish (Some r) (snd (updateMultiplePreferences now rnd u False (snd start)))"
  shows "fst start = Push \<lparr> req_device = deviceId h, req_changes = map change (offlineQueue h),
      req_version = serverVersion h \<rparr>
    \<and> offlineQueue after = [] \<and> preferences after = ui_preferences (resp_preferences r)
    \<and> pendingChanges (syncState after) = 0"
proof -
  have "serverVersion (prefs_store.truncate h) = serverVersion h"
    by (simp add: prefs_store.truncate_def)
  then show ?thesis
    using assms(1) by (simp add: after_def start_def h0_def hook_ops store_ops snap_of_def Let_def)
qed

text \<open>A page reload keeps the preferences, the version, the device and the queue, but forgets
  the pending count: the store then reports no pending change whatever the queue holds.\<close>

theorem reload_forgets_pending_count:
  shows "preferences (rehydrate onLine (partialize s)) = preferences s
    \<and> serverVersion (rehydrate onLine (partialize s)) = serverVersion s
    \<and> deviceId (rehydrate onLine (partialize s)) = deviceId s
    \<and> syncEnabled (rehydrate onLine (partialize s)) = syncEnabled s
    \<and> offlineQueue (rehydrate onLine (partialize s)) = offlineQueue s
    \<and> usePendingChanges (rehydrate onLine (partialize s)) = 0"
  by (simp add: rehydrate_def partialize_def prefs_init_def usePendingChanges_def initialSyncState_def)

text \<open>Removing an id that is not queued lowers the count without removing anything.\<close>

lemma remove_unknown_miscounts:
  assumes "\<forall>c \<in> set (offlineQueue s). change_id c \<noteq> i" "offlineQueue s \<noteq> []"
  shows "offlineQueue (removeQueuedChange i s) = offlineQueue s
    \<and> usePendingChanges (removeQueuedChange i s) = int (length (offlineQueue s)) - 1"
  using assms by (cases "offlineQueue s") (auto simp: removeQueuedChange_def usePendingChanges_def filter_id_conv)

text \<open>The Opera branch is reached only by agents that name neither Chrome nor Safari.\<close>

lemma opera_needs_no_chrome:
  "getBrowserName ua = ''Opera'' \<Longrightarrow> \<not> str_includes ''Chrome'' ua \<and> \<not> str_includes ''Safari'' ua"
  by (auto simp: getBrowserName_def split: if_splits)

section \<open>Instances\<close>

definition server_prefs :: "prefs_response" where
  "server_prefs = \<lparr> ui_preferences = [(''theme'', JStr ''light'')], version = 4, sync_enabled = True,
     updated_at = ''2026-01-01'' \<rparr>"

lemma debounced_edit_reverted_witness:
  "preferences (pull_finish 5 (Some server_prefs) (snd (timer_fires
     (render (snd (updatePreference 1 ''a'' ''theme'' (JStr ''dark'') False (render (hook_init True ''web-1''))))))))
   = [(''theme'', JStr ''light'')]"
proof -
  have "offlineQueue (hook_init True ''web-1'') = []"
    by (simp add: hook_init_def prefs_init_def prefs_store.extend_def)
  from debounced_edit_reverted [OF this, of 1 "''a''" "''theme''" "JStr ''dark''" 5 server_prefs]
  show ?thesis by (simp add: server_prefs_def)
qed

definition one_queued :: "hook_state" where
  "one_queued = snd (updateMultiplePreferences 1 ''a'' [(''theme'', JStr ''dark'')] False (hook_init True ''web-1''))"

lemma edit_during_push_witness:
  "offlineQueue (push_finish (Some \<lparr> resp_preferences = server_prefs, resp_server_version = 5, synced_at = [] \<rparr>)
     (snd (updateMultiplePreferences 2 ''b'' [(''density'', JStr ''compact'')] False
        (snd (syncNow_start (rendered (render one_queued)) (render one_queued)))))) = []"
proof -
  have "offlineQueue one_queued \<noteq> []"
    by (simp add: one_queued_def updateMultiplePreferences_def store_ops Let_def)
  from edit_during_push_lost [OF this, of
      "\<lparr> resp_preferences = server_prefs, resp_server_version = 5, synced_at = [] \<rparr>" 2 "''b''" "[(''density'', JStr ''compact'')]"]
  show ?thesis by simp
qed

end
