(* ===== verification/StepUp.thy ===== *)
theory StepUp
  imports Machines Storage
begin

text \<open>
  The step-up store \<open>frontend/src/stores/step-up.ts\<close>, the CSRF helpers \<open>frontend/src/lib/csrf.ts\<close>
  and the session flag \<open>frontend/src/lib/token-storage.ts\<close>: what the API client attaches to a
  request.  Times are in milliseconds; the store's epoch seconds are those divided by 1000, so
  \<open>expires_at\<close> is kept multiplied by 1000.  A pending promise is named by a number; the store
  holds the resolver of at most one, and \<open>resolved\<close> records the promises that were settled.
\<close>

section \<open>Step-up tokens\<close>

definition SKEW_SECONDS :: "int" where "SKEW_SECONDS = 10"

record cached_token =
  tok :: string
  expires_at :: int

record step_store =
  tokens :: "(string \<times> cached_token) list"
  pendingAction :: "string option"
  resolvePrompt :: "nat option"
  resolved :: "(nat \<times> string option) list"

definition step_init :: "step_store" where
  "step_init = \<lparr> tokens = [], pendingAction = None, resolvePrompt = None, resolved = [] \<rparr>"

definition getValidToken :: "int \<Rightarrow> string \<Rightarrow> step_store \<Rightarrow> string option" where
  "getValidToken now act s =
     (case map_of (tokens s) act of
        None \<Rightarrow> None
      | Some e \<Rightarrow> if now > expires_at e - SKEW_SECONDS * 1000 then None else Some (tok e))"

definition cacheToken :: "int \<Rightarrow> string list \<Rightarrow> string \<Rightarrow> int \<Rightarrow> step_store \<Rightarrow> step_store" where
  "cacheToken now acts t ttlSeconds s =
     s\<lparr> tokens := fold (\<lambda>a m. AList.update a \<lparr> tok = t, expires_at = now + ttlSeconds * 1000 \<rparr> m) acts (tokens s) \<rparr>"

text \<open>\<open>requestToken\<close>, for the promise \<open>p\<close>.  The empty token is falsy.\<close>

definition requestToken :: "int \<Rightarrow> string \<Rightarrow> nat \<Rightarrow> step_store \<Rightarrow> step_store" where
  "requestToken now act p s =
     (case getValidToken now act s of
        Some t \<Rightarrow> if t \<noteq> [] then s\<lparr> resolved := resolved s @ [(p, Some t)] \<rparr>
                  else s\<lparr> pendingAction := Some act, resolvePrompt := Some p \<rparr>
      | None \<Rightarrow> s\<lparr> pendingAction := Some act, resolvePrompt := Some p \<rparr>)"

definition fulfillPrompt :: "string option \<Rightarrow> step_store \<Rightarrow> step_store" where
  "fulfillPrompt t s =
     (let r = resolvePrompt s; s = s\<lparr> pendingAction := None, resolvePrompt := None \<rparr> in
      case r of None \<Rightarrow> s | Some p \<Rightarrow> s\<lparr> resolved := resolved s @ [(p, t)] \<rparr>)"

definition step_clear :: "step_store \<Rightarrow> step_store" where
  "step_clear s = s\<lparr> tokens := [], pendingAction := None, resolvePrompt := None \<rparr>"

datatype step_event =
    SRequest int string nat
  | SFulfill "string option"
  | SCache int "string list" string int
  | SClear

fun step_step :: "step_store \<Rightarrow> step_event \<Rightarrow> step_store" where
  "step_step s (SRequest now a p) = requestToken now a p s"
| "step_step s (SFulfill t) = fulfillPrompt t s"
| "step_step s (SCache now acts t ttl) = cacheToken now acts t ttl s"
| "step_step s SClear = step_clear s"

lemma cacheToken_lookup:
  "map_of (tokens (cacheToken now acts t ttl s)) a
    = (if a \<in> set acts then Some \<lparr> tok = t, expires_at = now + ttl * 1000 \<rparr> else map_of (tokens s) a)"
proof -
  have "map_of (fold (\<lambda>a m. AList.update a v m) acts m) a
    = (if a \<in> set acts then Some v else map_of m a)" for v :: cached_token and m
    by (induction acts arbitrary: m) (auto simp: update_conv')
  then show ?thesis by (simp add: cacheToken_def)
qed

text \<open>A cached step-up token is handed out for each of its scopes until ten seconds before it
  expires and never after that; the other scopes are unaffected.\<close>

theorem step_up_token_validity:
  shows "getValidToken now' a (cacheToken now acts t ttl s)
    = (if a \<in> set acts then (if now' \<le> now + ttl * 1000 - 10000 then Some t else None)
       else getValidToken now' a s)"
  by (simp add: getValidToken_def cacheToken_lookup SKEW_SECONDS_def)

text \<open>The promise \<open>p\<close> can no longer be settled: no resolver of it is left.\<close>

definition orphaned :: "nat \<Rightarrow> step_store \<Rightarrow> bool" where
  "orphaned p s = (resolvePrompt s \<noteq> Some p \<and> p \<notin> fst ` set (resolved s))"

fun other_promise :: "nat \<Rightarrow> step_event \<Rightarrow> bool" where
  "other_promise p (SRequest now a q) = (p \<noteq> q)"
| "other_promise p e = True"

lemma orphaned_step: "orphaned p s \<Longrightarrow> other_promise p e \<Longrightarrow> orphaned p (step_step s e)"
  by (cases e) (auto simp: orphaned_def requestToken_def fulfillPrompt_def cacheToken_def
      step_clear_def Let_def split: option.splits)

interpretation orphan: guarded_machine step_step "other_promise p" "orphaned p" for p
  by unfold_locales (rule orphaned_step)

text \<open>Only one step-up prompt can be open: a second scope requested before the first prompt
  is answered takes its place, and the first request's promise is never settled, whatever happens
  afterwards.\<close>

theorem overwritten_prompt_never_settles:
  assumes "getValidToken t1 a (run step_step es step_init) = None"
    and "getValidToken t2 b (run step_step es step_init) = None"
    and "p \<noteq> q" "list_all (other_promise p) es" "list_all (other_promise p) fs"
  shows "p \<notin> fst ` set (resolved (run step_step (es @ [SRequest t1 a p, SRequest t2 b q] @ fs) step_init))"
proof -
  let ?s = "run step_step es step_init"
  have "orphaned p ?s"
    by (rule orphan.run_inv) (simp_all add: assms(4) orphaned_def step_init_def)
  then have "orphaned p (step_step (step_step ?s (SRequest t1 a p)) (SRequest t2 b q))"
    using assms(1-3) by (simp add: orphaned_def requestToken_def) (simp add: getValidToken_def)
  then have "orphaned p (run step_step fs (step_step (step_step ?s (SRequest t1 a p)) (SRequest t2 b q)))"
    using assms(5) by (rule orphan.run_inv)
  then show ?thesis by (simp add: orphaned_def)
qed

section \<open>CSRF double submit\<close>

definition CSRF_COOKIE_NAME :: "string" where "CSRF_COOKIE_NAME = ''__Host-csrf''"
definition CSRF_HEADER_NAME :: "string" where "CSRF_HEADER_NAME = ''X-CSRF-Token''"

definition MUTATING_METHODS :: "string list" where
  "MUTATING_METHODS = [''POST'', ''PUT'', ''PATCH'', ''DELETE'']"

definition upper_ascii :: "char \<Rightarrow> char" where
  "upper_ascii c = (if 97 \<le> code c \<and> code c \<le> 122 then char_of (code c - 32) else c)"

definition isMutatingMethod :: "string option \<Rightarrow> bool" where
  "isMutatingMethod m =
     (case m of None \<Rightarrow> False
      | Some s \<Rightarrow> s \<noteq> [] \<and> map upper_ascii s \<in> set MUTATING_METHODS)"

text \<open>The regular expression \<open>(?:^|;\s*)name=([^;]*)\<close>: the cookie text is cut at the semicolons,
  the first piece is matched as it is, the later ones after their leading white space.\<close>

definition cookie_pieces :: "string \<Rightarrow> string list" where
  "cookie_pieces txt =
     (case split_on (CHR '';'') txt of [] \<Rightarrow> [] | p # ps \<Rightarrow> p # map trim_start ps)"

definition cookie_match :: "string \<Rightarrow> string \<Rightarrow> string option" where
  "cookie_match name txt =
     map_option (drop (Suc (length name)))
       (List.find (starts_with (name @ ''='')) (cookie_pieces txt))"

definition strip_quotes :: "string \<Rightarrow> string" where
  "strip_quotes v =
     (if 2 \<le> length v \<and> code (hd v) = 34 \<and> code (last v) = 34 then butlast (tl v) else v)"

text \<open>\<open>decodeURIComponent\<close> is a parameter, None when it throws.\<close>

definition getCookie :: "(string \<Rightarrow> string option) \<Rightarrow> string \<Rightarrow> string \<Rightarrow> string option" where
  "getCookie decodeURI name txt =
     (case cookie_match name txt of None \<Rightarrow> None
      | Some v \<Rightarrow> (case decodeURI (strip_quotes v) of
            Some d \<Rightarrow> Some d | None \<Rightarrow> Some (strip_quotes v)))"

definition getCsrfToken :: "(string \<Rightarrow> string option) \<Rightarrow> string \<Rightarrow> string option" where
  "getCsrfToken decodeURI txt = getCookie decodeURI CSRF_COOKIE_NAME txt"

text \<open>The cookie text a browser builds from its jar.\<close>

definition cookie_text :: "(string \<times> string) list \<Rightarrow> string" where
  "cookie_text jar = join_with ''; '' (map (\<lambda>(n, v). n @ ''='' @ v) jar)"

definition plain_cookie :: "string \<times> string \<Rightarrow> bool" where
  "plain_cookie c = (list_all (\<lambda>x. x \<noteq> CHR '';'' \<and> \<not> is_space x \<and> x \<noteq> CHR ''='') (fst c)
     \<and> fst c \<noteq> [] \<and> list_all (\<lambda>x. x \<noteq> CHR '';'') (snd c))"

lemma cookie_text_pieces:
  assumes "list_all plain_cookie jar" "jar \<noteq> []"
  shows "cookie_pieces (cookie_text jar) = map (\<lambda>(n, v). n @ ''='' @ v) jar"
proof -
  have part: "list_all (\<lambda>x. x \<noteq> CHR '';'') (n @ ''='' @ v)" if "plain_cookie (n, v)" for n v
    using that by (auto simp: plain_cookie_def list_all_iff)
  have first: "trim_start (CHR '' '' # n @ ''='' @ v) = n @ ''='' @ v" if "plain_cookie (n, v)" for n v
    using that by (cases n) (auto simp: plain_cookie_def trim_start_def is_space_def code_def)
  have "split_on (CHR '';'') (cookie_text (c # cs))
      = (fst c @ ''='' @ snd c) # map (\<lambda>(n, v). CHR '' '' # n @ ''='' @ v) cs"
    if "list_all plain_cookie (c # cs)" for c cs
    using that
  proof (induction cs arbitrary: c)
    case Nil
    then show ?case
      using part [of "fst c" "snd c"] split_on_plain(2) by (cases c) (simp add: cookie_text_def)
  next
    case (Cons d ds)
    obtain n v where c: "c = (n, v)" by fastforce
    have "cookie_text (c # d # ds) = (n @ ''='' @ v) @ CHR '';'' # CHR '' '' # cookie_text (d # ds)"
      by (simp add: cookie_text_def c)
    moreover have "split_on (CHR '';'') (CHR '' '' # cookie_text (d # ds))
        = map (\<lambda>(n, v). CHR '' '' # n @ ''='' @ v) (d # ds)"
      using Cons.IH [of d] Cons.prems by (simp add: case_prod_beta)
    ultimately show ?case
      using split_on_plain(1) [OF part] Cons.prems by (simp add: c)
  qed
  then show ?thesis
    using assms first by (cases jar) (auto simp: cookie_pieces_def list_all_iff case_prod_beta)
qed

lemma starts_with_cookie:
  assumes "plain_cookie (n, v)" "plain_cookie (m, w)"
  shows "starts_with (m @ ''='') (n @ ''='' @ v) \<longleftrightarrow> m = n"
proof
  assume "starts_with (m @ ''='') (n @ ''='' @ v)"
  then obtain r where r: "n @ CHR ''='' # v = m @ CHR ''='' # r"
    unfolding starts_with_def by (metis append.assoc append_Cons append_Nil append_take_drop_id)
  have "takeWhile (\<lambda>x. x \<noteq> CHR ''='') (k @ CHR ''='' # r) = k" if "plain_cookie (k, u)" for k u r
    using that by (auto simp: plain_cookie_def takeWhile_append list_all_iff)
  from this [OF assms(1), of v] this [OF assms(2), of r] show "m = n" by (simp add: r)
qed (simp add: starts_with_def)

text \<open>Reading a cookie inverts the browser's cookie text: the CSRF token found is the value
  of the first cookie of that name, whatever other cookies (with names containing it or contained
  in it) stand around it.\<close>

theorem getCookie_finds:
  assumes "list_all plain_cookie jar" "plain_cookie (name, [])" "jar \<noteq> []"
  shows "getCookie (\<lambda>v. Some v) name (cookie_text jar) = map_option strip_quotes (map_of jar name)"
proof -
  have "List.find (starts_with (name @ ''='')) (map (\<lambda>(n, v). n @ ''='' @ v) jar)
      = map_option (\<lambda>v. name @ ''='' @ v) (map_of jar name)"
    using assms(1)
  proof (induction jar)
    case (Cons c cs)
    then show ?case
      using starts_with_cookie [of "fst c" "snd c" name "[]"] assms(2)
      by (cases c) (auto simp: starts_with_def)
  qed simp
  then show ?thesis
    using cookie_text_pieces [OF assms(1,3)]
    by (cases "map_of jar name") (simp_all add: getCookie_def cookie_match_def)
qed

section \<open>The session flag\<close>

definition AUTH_FLAG_KEY :: "string" where "AUTH_FLAG_KEY = ''has_session''"

definition getAccessToken :: "string \<Rightarrow> string option" where
  "getAccessToken cookies =
     (if str_includes (AUTH_FLAG_KEY @ ''=1'') cookies then Some ''__cookie__'' else None)"

text \<open>Any cookie whose name ends in the flag's name counts as a session.\<close>

lemma session_flag_substring: "getAccessToken ''old_has_session=1'' = Some ''__cookie__''"
  by (simp add: getAccessToken_def AUTH_FLAG_KEY_def starts_with_def)

text \<open>The cookie assignments: name, value and attributes as the browser receives them.\<close>

definition setTokens_cookie :: "bool \<Rightarrow> string" where
  "setTokens_cookie https = AUTH_FLAG_KEY @ ''=1; path=/; max-age='' @ int_text (60 * 60 * 24 * 7)
     @ ''; samesite=lax'' @ (if https then ''; secure'' else [])"

definition removeTokens_cookie :: "bool \<Rightarrow> string" where
  "removeTokens_cookie https = AUTH_FLAG_KEY @ ''=; path=/; max-age=0; samesite=lax''
     @ (if https then ''; secure'' else [])"

section \<open>Instances\<close>

lemma overwritten_prompt_witness:
  "7 \<notin> fst ` set (resolved (run step_step ([] @ [SRequest 0 ''export'' 7, SRequest 1 ''delete'' 8]
     @ [SFulfill (Some ''t''), SFulfill None]) step_init))"
  by (rule overwritten_prompt_never_settles) (simp_all add: step_init_def getValidToken_def)

lemma getCookie_finds_witness:
  "getCookie (\<lambda>v. Some v) CSRF_COOKIE_NAME
     (cookie_text [(''x__Host-csrf'', ''no''), (''__Host-csrf'', ''a1=''), (''has_session'', ''1'')]) = Some ''a1=''"
  using getCookie_finds [of "[(''x__Host-csrf'', ''no''), (''__Host-csrf'', ''a1=''), (''has_session'', ''1'')]"
      CSRF_COOKIE_NAME]
  by (simp add: plain_cookie_def CSRF_COOKIE_NAME_def is_space_def code_def strip_quotes_def)

end
