(* ===== verification/ApiClient.thy ===== *)
theory ApiClient
  imports StepUp MobileAuth "HOL-Library.Multiset"
begin

text \<open>
  The two HTTP clients: \<open>frontend/src/lib/api.ts\<close> (cookies, CSRF, step-up, refresh on 401) and
  \<open>mobile/lib/api.ts\<close> (bearer tokens, refresh on 401).  Their response interceptors are
  state machines: an error response arrives for a request and is rejected, queued behind a
  running refresh, or starts one; the refresh call then succeeds or fails.  \<open>outbox\<close> lists the
  requests handed back to the network, \<open>rejections\<close> those whose caller gets an error.
\<close>

section \<open>A gate for concurrent refreshes\<close>

text \<open>The contract of a refresh queue: a request is parked only while a refresh is under way, and
  the end of a refresh releases every parked request.\<close>

locale refresh_gate =
  fixes handle :: "'s \<Rightarrow> 'e \<Rightarrow> 's"
    and settle :: "'s \<Rightarrow> 'o \<Rightarrow> 's"
    and parked :: "'s \<Rightarrow> 'r list"
    and under_way :: "'s \<Rightarrow> bool"
    and inv :: "'s \<Rightarrow> bool"
  assumes handle_inv: "inv s \<Longrightarrow> inv (handle s e)"
    and settle_inv: "inv s \<Longrightarrow> inv (settle s x)"
    and inv_parked: "inv s \<Longrightarrow> parked s \<noteq> [] \<Longrightarrow> under_way s"
    and settle_releases: "inv s \<Longrightarrow> parked (settle s x) = []"
begin

lemma gate_inv:
  "inv s \<Longrightarrow> inv (run (\<lambda>s e. case e of Inl r \<Rightarrow> handle s r | Inr x \<Rightarrow> settle s x) es s)"
proof (induction es arbitrary: s)
  case (Cons e es)
  then show ?case by (cases e) (auto intro: handle_inv settle_inv)
qed simp

lemma parked_only_under_way:
  assumes "inv s"
    and "parked (run (\<lambda>s e. case e of Inl r \<Rightarrow> handle s r | Inr x \<Rightarrow> settle s x) es s) \<noteq> []"
  shows "under_way (run (\<lambda>s e. case e of Inl r \<Rightarrow> handle s r | Inr x \<Rightarrow> settle s x) es s)"
  using inv_parked [OF gate_inv [OF assms(1)] assms(2)] .

lemma settled_run:
  "inv s \<Longrightarrow>
   parked (run (\<lambda>s e. case e of Inl r \<Rightarrow> handle s r | Inr x \<Rightarrow> settle s x) (es @ [Inr x]) s) = []"
  by (simp add: settle_releases gate_inv)

end

section \<open>The browser client\<close>

record request_config =
  rid :: nat
  url :: "string option"
  http_method :: "string option"
  headers :: "(string \<times> string) list"
  retry_flag :: bool
  stepUpRetry :: bool
  skipStepUp :: bool

definition STEP_UP_HEADER :: "string" where "STEP_UP_HEADER = ''X-Step-Up-Token''"

text \<open>The request interceptor: \<open>csrf\<close> is what \<open>getCsrfToken\<close> returns; an empty token is not
  sent.\<close>

definition add_csrf :: "string option \<Rightarrow> request_config \<Rightarrow> request_config" where
  "add_csrf csrf r =
     (if isMutatingMethod (http_method r) \<and> csrf \<noteq> None \<and> csrf \<noteq> Some []
      then r\<lparr> headers := AList.update CSRF_HEADER_NAME (the csrf) (headers r) \<rparr> else r)"

fun text_of :: "jsv \<Rightarrow> string option" where
  "text_of (JStr s) = Some s"
| "text_of v = None"

text \<open>\<open>{ error: "step_up_required", action }\<close> in one object.\<close>

definition step_up_marker :: "jsv \<Rightarrow> string option" where
  "step_up_marker v =
     (case v of JObj kvs \<Rightarrow>
        if prop_of kvs ''error'' = JStr ''step_up_required'' then text_of (prop_of kvs ''action'') else None
      | _ \<Rightarrow> None)"

definition extractStepUpAction :: "jsv \<Rightarrow> string option" where
  "extractStepUpAction data =
     (case step_up_marker data of
        Some a \<Rightarrow> Some a
      | None \<Rightarrow> (case data of JObj kvs \<Rightarrow> step_up_marker (prop_of kvs ''detail'') | _ \<Rightarrow> None))"

record api_error =
  config :: request_config
  status :: "int option"
  data :: jsv
  message :: jsv

definition opt_prop :: "jsv \<Rightarrow> string \<Rightarrow> jsv" where
  "opt_prop v k = (case member v k of None \<Rightarrow> JUndef | Some w \<Rightarrow> w)"

text \<open>The unified error message.\<close>

definition error_message :: "api_error \<Rightarrow> jsv" where
  "error_message e =
     (if truthy (opt_prop (data e) ''message'') then opt_prop (data e) ''message''
      else case opt_prop (data e) ''detail'' of
        JStr s \<Rightarrow> JStr s
      | d \<Rightarrow> if truthy (opt_prop d ''message'') then opt_prop d ''message'' else message e)"

definition unauthenticated_endpoint :: "string \<Rightarrow> bool" where
  "unauthenticated_endpoint u =
     (str_includes ''/auth/login'' u \<or> str_includes ''/auth/refresh'' u \<or> str_includes ''/auth/register'' u
      \<or> str_includes ''/auth/forgot-password'' u \<or> str_includes ''/auth/reset-password'' u)"

record api_state =
  isRefreshing :: bool
  failedQueue :: "request_config list"
  refresher :: "(request_config \<times> jsv) option"
  outbox :: "request_config list"
  rejections :: "(nat \<times> jsv) list"
  sessionFlag :: bool
  logouts :: nat
  stepUp :: step_store
  stepUpWaiting :: "(nat \<times> request_config \<times> jsv) list"
  prompts :: nat

definition reject :: "request_config \<Rightarrow> jsv \<Rightarrow> api_state \<Rightarrow> api_state" where
  "reject r msg s = s\<lparr> rejections := rejections s @ [(rid r, msg)] \<rparr>"

definition resend :: "request_config \<Rightarrow> api_state \<Rightarrow> api_state" where
  "resend r s = s\<lparr> outbox := outbox s @ [r] \<rparr>"

definition with_step_up :: "string \<Rightarrow> request_config \<Rightarrow> request_config" where
  "with_step_up t r = r\<lparr> stepUpRetry := True, headers := AList.update STEP_UP_HEADER t (headers r) \<rparr>"

text \<open>\<open>logout\<close>: the server call is fire and forget; the session flag goes and the provider is told.\<close>

definition logout_request :: "request_config" where
  "logout_request = \<lparr> rid = 0, url = Some ''/api/v1/auth/logout'', http_method = Some ''post'', headers = [],
     retry_flag = False, stepUpRetry = False, skipStepUp = False \<rparr>"

definition logout :: "api_state \<Rightarrow> api_state" where
  "logout s = s\<lparr> outbox := outbox s @ [logout_request], sessionFlag := False, logouts := Suc (logouts s) \<rparr>"

text \<open>\<open>processQueue\<close>: a parked request is resent, or rejected with the error.\<close>

definition processQueue :: "jsv option \<Rightarrow> api_state \<Rightarrow> api_state" where
  "processQueue err s =
     (case err of
        None \<Rightarrow> s\<lparr> outbox := outbox s @ failedQueue s, failedQueue := [] \<rparr>
      | Some e \<Rightarrow> s\<lparr> rejections := rejections s @ map (\<lambda>r. (rid r, e)) (failedQueue s), failedQueue := [] \<rparr>)"

text \<open>The scope a step-up is asked for: a 401 that names one, not on a request retried with a token
  or opted out.\<close>

definition step_up_scope :: "api_error \<Rightarrow> string option" where
  "step_up_scope e =
     (if status e = Some 401 \<and> \<not> stepUpRetry (config e) \<and> \<not> skipStepUp (config e)
         \<and> extractStepUpAction (data e) \<noteq> Some [] then extractStepUpAction (data e) else None)"

definition wants_refresh :: "api_error \<Rightarrow> bool" where
  "wants_refresh e = (status e = Some 401 \<and> \<not> retry_flag (config e)
     \<and> \<not> unauthenticated_endpoint (case url (config e) of None \<Rightarrow> [] | Some u \<Rightarrow> u))"

text \<open>The response interceptor up to its first await.  The promises of step-up prompts are numbered
  in the order in which they are made.\<close>

definition on_error :: "int \<Rightarrow> api_error \<Rightarrow> api_state \<Rightarrow> api_state" where
  "on_error now e s =
     (let r = config e; msg = error_message e in
      case step_up_scope e of
        Some a \<Rightarrow>
          (case getValidToken now a (stepUp s) of
             Some t \<Rightarrow> if t = [] then reject r msg s else resend (with_step_up t r) s
           | None \<Rightarrow> s\<lparr> stepUp := requestToken now a (prompts s) (stepUp s),
                        stepUpWaiting := stepUpWaiting s @ [(prompts s, r, msg)],
                        prompts := Suc (prompts s) \<rparr>)
      | None \<Rightarrow>
          if wants_refresh e then
            if isRefreshing s then s\<lparr> failedQueue := failedQueue s @ [r] \<rparr>
            else s\<lparr> isRefreshing := True, refresher := Some (r\<lparr> retry_flag := True \<rparr>, msg) \<rparr>
          else reject r msg s)"

text \<open>The refresh call settles: \<open>None\<close> is success, \<open>Some e\<close> the refresh error.  The handler's own
  resend comes before those of the parked requests, which run as promise continuations.\<close>

definition refresh_settles :: "api_state \<Rightarrow> jsv option \<Rightarrow> api_state" where
  "refresh_settles s res =
     (case refresher s of
        None \<Rightarrow> s
      | Some (r, msg) \<Rightarrow>
          (case res of
             None \<Rightarrow> (processQueue None (resend r (s\<lparr> sessionFlag := True \<rparr>)))
                       \<lparr> isRefreshing := False, refresher := None \<rparr>
           | Some e \<Rightarrow> reject r e (logout
               ((processQueue (Some msg) s)\<lparr> isRefreshing := False, refresher := None \<rparr>))))"

text \<open>The prompt is answered: the request whose promise it settles is resent with the token, or
  rejected without one.\<close>

fun resume :: "string option \<Rightarrow> nat \<times> request_config \<times> jsv \<Rightarrow> api_state \<Rightarrow> api_state" where
  "resume t (p, r, msg) s =
     (if t = None \<or> t = Some [] then reject r msg s else resend (with_step_up (the t) r) s)"

definition prompt_answered :: "string option \<Rightarrow> api_state \<Rightarrow> api_state" where
  "prompt_answered t s =
     (let ws = filter (\<lambda>w. resolvePrompt (stepUp s) = Some (fst w)) (stepUpWaiting s) in
      fold (resume t) ws
        (s\<lparr> stepUp := fulfillPrompt t (stepUp s),
            stepUpWaiting := filter (\<lambda>w. resolvePrompt (stepUp s) \<noteq> Some (fst w)) (stepUpWaiting s) \<rparr>))"

definition api_init :: "api_state" where
  "api_init = \<lparr> isRefreshing = False, failedQueue = [], refresher = None, outbox = [], rejections = [],
     sessionFlag = False, logouts = 0, stepUp = step_init, stepUpWaiting = [], prompts = 0 \<rparr>"

datatype api_event = AError int api_error | APrompt "string option"

fun api_step :: "api_state \<Rightarrow> api_event \<Rightarrow> api_state" where
  "api_step s (AError now e) = on_error now e s"
| "api_step s (APrompt t) = prompt_answered t s"

abbreviation api_run :: "(api_event + jsv option) list \<Rightarrow> api_state \<Rightarrow> api_state" where
  "api_run \<equiv> run (\<lambda>s e. case e of Inl r \<Rightarrow> api_step s r | Inr x \<Rightarrow> refresh_settles s x)"

section \<open>No request waits for a refresh that is not running\<close>

definition gate_ok :: "api_state \<Rightarrow> bool" where
  "gate_ok s = ((refresher s = None) = (\<not> isRefreshing s) \<and> (isRefreshing s \<or> failedQueue s = []))"

lemma queue_frame [simp]:
  "isRefreshing (reject r m s) = isRefreshing s" "refresher (reject r m s) = refresher s"
  "failedQueue (reject r m s) = failedQueue s" "isRefreshing (resend r s) = isRefreshing s"
  "refresher (resend r s) = refresher s" "failedQueue (resend r s) = failedQueue s"
  "stepUpWaiting (reject r m s) = stepUpWaiting s" "stepUpWaiting (resend r s) = stepUpWaiting s"
  "logouts (reject r m s) = logouts s" "logouts (resend r s) = logouts s"
  by (simp_all add: reject_def resend_def)

lemma resumes_frame [simp]:
  "isRefreshing (fold (resume t) ws s) = isRefreshing s"
  "refresher (fold (resume t) ws s) = refresher s"
  "failedQueue (fold (resume t) ws s) = failedQueue s"
  "stepUpWaiting (fold (resume t) ws s) = stepUpWaiting s"
  "logouts (fold (resume t) ws s) = logouts s"
  by (induction ws arbitrary: s) (auto split: if_splits)

lemma on_error_cases:
  obtains (rejected) "on_error now e s = reject (config e) (error_message e) s"
  | (resent) t where "on_error now e s = resend (with_step_up t (config e)) s"
  | (prompted) st where "on_error now e s = s\<lparr> stepUp := st,
        stepUpWaiting := stepUpWaiting s @ [(prompts s, config e, error_message e)], prompts := Suc (prompts s) \<rparr>"
  | (parked) "isRefreshing s" "on_error now e s = s\<lparr> failedQueue := failedQueue s @ [config e] \<rparr>"
  | (started) "\<not> isRefreshing s" "on_error now e s = s\<lparr> isRefreshing := True,
        refresher := Some (config e\<lparr> retry_flag := True \<rparr>, error_message e) \<rparr>"
proof (cases "step_up_scope e")
  case None
  show ?thesis
  proof (cases "wants_refresh e")
    case True
    then show ?thesis
      using None parked started by (cases "isRefreshing s") (simp_all add: on_error_def Let_def)
  next
    case False
    show ?thesis by (rule rejected) (simp add: on_error_def Let_def None False)
  qed
next
  case (Some a)
  show ?thesis
  proof (cases "getValidToken now a (stepUp s)")
    case None
    show ?thesis by (rule prompted) (simp add: on_error_def Let_def Some None)
  next
    case (Some t)
    have e: "on_error now e s = (if t = [] then reject (config e) (error_message e) s
        else resend (with_step_up t (config e)) s)"
      by (simp add: on_error_def Let_def \<open>step_up_scope e = Some a\<close> Some)
    show ?thesis
      by (cases "t = []") (rule rejected, simp add: e, rule resent, simp add: e)
  qed
qed

lemma on_error_gate: "gate_ok s \<Longrightarrow> gate_ok (on_error now e s)"
  by (rule on_error_cases [of now e s]) (auto simp: gate_ok_def)

lemma prompt_gate: "gate_ok s \<Longrightarrow> gate_ok (prompt_answered t s)"
  by (simp add: prompt_answered_def Let_def gate_ok_def)

lemma settle_gate:
  assumes "gate_ok s"
  shows "gate_ok (refresh_settles s x) \<and> failedQueue (refresh_settles s x) = []"
proof (cases "refresher s")
  case None
  then show ?thesis using assms by (auto simp: refresh_settles_def gate_ok_def)
next
  case (Some rm)
  then show ?thesis
    by (cases rm; cases x) (simp_all add: refresh_settles_def processQueue_def logout_def gate_ok_def)
qed

interpretation browser_gate: refresh_gate api_step refresh_settles failedQueue
  "\<lambda>s. refresher s \<noteq> None" gate_ok
proof (unfold_locales, goal_cases)
  case (1 s e)
  then show ?case by (cases e) (simp_all add: on_error_gate prompt_gate)
next
  case (3 s)
  then show ?case by (cases "refresher s") (simp_all add: gate_ok_def)
qed (simp_all add: settle_gate)

section \<open>Every request is answered once\<close>

text \<open>The requests the client is responsible for: answered (resent or rejected), parked, driving
  the refresh, or waiting for a step-up prompt.\<close>

definition settled_or_parked :: "api_state \<Rightarrow> nat multiset" where
  "settled_or_parked s = mset (map rid (outbox s)) + mset (map fst (rejections s)) + mset (map rid (failedQueue s))
     + (case refresher s of None \<Rightarrow> {#} | Some (r, m) \<Rightarrow> {# rid r #})"

definition prompting :: "api_state \<Rightarrow> nat multiset" where
  "prompting s = mset (map (rid \<circ> fst \<circ> snd) (stepUpWaiting s))"

definition in_custody :: "api_state \<Rightarrow> nat multiset" where
  "in_custody s = settled_or_parked s + prompting s"

lemmas custody_defs = in_custody_def settled_or_parked_def prompting_def

fun errors_of :: "(api_event + jsv option) list \<Rightarrow> nat list" where
  "errors_of [] = []"
| "errors_of (Inl (AError now e) # es) = rid (config e) # errors_of es"
| "errors_of (x # es) = errors_of es"

lemma custody_reject: "in_custody (reject r m s) = add_mset (rid r) (in_custody s)"
  by (simp add: custody_defs reject_def)

lemma custody_resend: "in_custody (resend r s) = add_mset (rid r) (in_custody s)"
  by (simp add: custody_defs resend_def)

lemma rid_step_up [simp]: "rid (with_step_up t r) = rid r"
  by (simp add: with_step_up_def)

lemma custody_error:
  assumes "gate_ok s"
  shows "in_custody (on_error now e s) = add_mset (rid (config e)) (in_custody s)"
proof (rule on_error_cases [of now e s], goal_cases)
  case (4)
  then show ?case by (simp add: custody_defs)
next
  case (5)
  then have "refresher s = None" using assms by (simp add: gate_ok_def)
  then show ?case using 5 by (simp add: custody_defs)
qed (simp_all add: custody_reject custody_resend, simp_all add: custody_defs)

lemma custody_resumes:
  "in_custody (fold (resume t) ws s) = in_custody s + mset (map (rid \<circ> fst \<circ> snd) ws)"
proof (induction ws arbitrary: s)
  case (Cons w ws)
  then show ?case by (cases w) (auto simp: custody_reject custody_resend)
qed simp

lemma mset_partition:
  "mset (map f (filter p xs)) + mset (map f (filter (\<lambda>x. \<not> p x) xs)) = mset (map f xs)"
  by (induction xs) auto

lemma custody_waiting:
  assumes "mset (map (rid \<circ> fst \<circ> snd) vs) + mset (map (rid \<circ> fst \<circ> snd) ws) = prompting s"
  shows "in_custody (s\<lparr> stepUp := x, stepUpWaiting := ws \<rparr>) + mset (map (rid \<circ> fst \<circ> snd) vs) = in_custody s"
proof -
  have "settled_or_parked (s\<lparr> stepUp := x, stepUpWaiting := ws \<rparr>) = settled_or_parked s"
    by (simp add: settled_or_parked_def)
  moreover have "prompting (s\<lparr> stepUp := x, stepUpWaiting := ws \<rparr>) = mset (map (rid \<circ> fst \<circ> snd) ws)"
    by (simp add: prompting_def)
  ultimately show ?thesis
    by (simp only: in_custody_def assms [symmetric] ac_simps)
qed

lemma custody_prompt: "in_custody (prompt_answered t s) = in_custody s"
proof -
  let ?p = "\<lambda>w. resolvePrompt (stepUp s) = Some (fst w)"
  let ?f = "rid \<circ> fst \<circ> snd"
  have "in_custody (prompt_answered t s)
      = in_custody (s\<lparr> stepUp := fulfillPrompt t (stepUp s), stepUpWaiting := filter (\<lambda>w. \<not> ?p w) (stepUpWaiting s) \<rparr>)
        + mset (map ?f (filter ?p (stepUpWaiting s)))"
    by (simp only: prompt_answered_def Let_def custody_resumes)
  also have "\<dots> = in_custody s"
    by (rule custody_waiting) (simp only: prompting_def mset_partition)
  finally show ?thesis .
qed

lemma custody_settle:
  assumes "gate_ok s"
  shows "\<exists>n. in_custody (refresh_settles s x) = in_custody s + replicate_mset n 0
    \<and> logouts (refresh_settles s x) = logouts s + n"
proof (cases "refresher s")
  case None
  then show ?thesis by (intro exI [of _ 0]) (simp add: refresh_settles_def)
next
  case (Some rm)
  then show ?thesis
    by (cases rm; cases x)
       (rule exI [of _ 0],
        simp add: refresh_settles_def custody_defs processQueue_def resend_def,
        rule exI [of _ 1],
        simp add: refresh_settles_def custody_defs processQueue_def reject_def logout_def
          logout_request_def comp_def)
qed

lemma replicate_mset_plus: "replicate_mset (k + n) x = replicate_mset k x + replicate_mset n x"
  by (induction k) auto

lemma on_error_logouts: "logouts (on_error now e s) = logouts s"
  by (rule on_error_cases [of now e s]) simp_all

lemma api_init_gate: "gate_ok api_init"
  by (simp add: gate_ok_def api_init_def)

lemma custody_run:
  assumes "gate_ok s"
  shows "\<exists>n. in_custody (api_run es s) = in_custody s + mset (errors_of es) + replicate_mset n 0
    \<and> logouts (api_run es s) = logouts s + n"
  using assms
proof (induction es arbitrary: s)
  case Nil
  then show ?case by (intro exI [of _ 0]) simp
next
  case (Cons x es)
  let ?t = "case x of Inl r \<Rightarrow> api_step s r | Inr y \<Rightarrow> refresh_settles s y"
  have g: "gate_ok ?t"
    using Cons.prems browser_gate.handle_inv browser_gate.settle_inv by (cases x) auto
  obtain k where k: "in_custody ?t = in_custody s + mset (errors_of [x]) + replicate_mset k 0"
    "logouts ?t = logouts s + k"
  proof (cases x)
    case (Inl e)
    then have "in_custody ?t = in_custody s + mset (errors_of [x])"
      using Cons.prems by (cases e) (simp_all add: custody_error custody_prompt)
    moreover have "logouts ?t = logouts s"
      using Inl by (cases e) (simp_all add: prompt_answered_def Let_def on_error_logouts)
    ultimately show ?thesis using that [of 0] by simp
  next
    case (Inr y)
    then show ?thesis using that custody_settle [OF Cons.prems, of y] by auto
  qed
  obtain n where n: "in_custody (api_run es ?t) = in_custody ?t + mset (errors_of es) + replicate_mset n 0"
    "logouts (api_run es ?t) = logouts ?t + n"
    using Cons.IH [OF g] by blast
  have "errors_of (x # es) = errors_of [x] @ errors_of es"
    by (cases "(x # es)" rule: errors_of.cases) auto
  then show ?case
    using n k by (intro exI [of _ "k + n"]) (simp add: replicate_mset_plus ac_simps)
qed

text \<open>C1.  Every failed request is answered exactly once: whatever errors, refresh results and
  step-up prompts arrive in whatever order, the requests that were resent, rejected, are parked,
  drive the refresh or wait for a prompt are together the requests whose errors arrived (and one
  logout call for each logout), each as often as it failed.\<close>

theorem requests_conserved:
  shows "in_custody (api_run es api_init)
    = mset (errors_of es) + replicate_mset (logouts (api_run es api_init)) 0"
proof -
  have "in_custody api_init = {#}" "logouts api_init = 0"
    by (simp_all add: custody_defs api_init_def)
  then show ?thesis using custody_run [OF api_init_gate, of es] by auto
qed

lemma settled_answers:
  assumes "gate_ok s"
  shows "case refresher s of
      None \<Rightarrow> refresh_settles s x = s
    | Some (r, msg) \<Rightarrow>
        (case x of
           None \<Rightarrow> outbox (refresh_settles s x) = outbox s @ r # failedQueue s
             \<and> rejections (refresh_settles s x) = rejections s
         | Some e \<Rightarrow> outbox (refresh_settles s x) = outbox s @ [logout_request]
             \<and> rejections (refresh_settles s x)
               = rejections s @ map (\<lambda>q. (rid q, msg)) (failedQueue s) @ [(rid r, e)])"
  by (auto simp: refresh_settles_def processQueue_def logout_def resend_def reject_def
      split: option.splits)

text \<open>C4.  No request is stranded behind a refresh: requests are parked only while a refresh call is
  under way, and the end of that call answers every one of them.  A success resends the request
  that started the refresh and then all parked ones, in the order they were parked, and rejects
  none; a failure sends only the logout call and rejects all parked requests, in order and with
  the message of the request that started the refresh, and then that request itself.  After either
  the queue is empty, and without a call under way there is nothing to end.\<close>

theorem parked_requests_released:
  shows "let s = api_run es api_init; t = api_run (es @ [Inr x]) api_init in
    (failedQueue s \<noteq> [] \<longrightarrow> refresher s \<noteq> None) \<and> failedQueue t = []
    \<and> (case refresher s of
         None \<Rightarrow> t = s
       | Some (r, msg) \<Rightarrow>
           (case x of
              None \<Rightarrow> outbox t = outbox s @ r # failedQueue s \<and> rejections t = rejections s
            | Some e \<Rightarrow> outbox t = outbox s @ [logout_request]
                \<and> rejections t = rejections s @ map (\<lambda>q. (rid q, msg)) (failedQueue s) @ [(rid r, e)]))"
  using browser_gate.parked_only_under_way [OF api_init_gate, of es]
    browser_gate.settled_run [OF api_init_gate, of es x]
    settled_answers [OF browser_gate.gate_inv [OF api_init_gate, of es], of x]
  by (auto simp: Let_def)

section \<open>The mobile client\<close>

record mobile_state =
  mRefreshing :: bool
  mQueue :: "request_config list"
  mRefresher :: "(request_config \<times> jsv) option"
  mOutbox :: "request_config list"
  mRejections :: "(nat \<times> jsv) list"
  isLoggingOut :: bool
  session :: auth_state

text \<open>The request interceptor attaches the stored token.\<close>

definition bearer :: "device \<Rightarrow> string \<Rightarrow> auth_state \<Rightarrow> request_config \<Rightarrow> request_config exec" where
  "bearer dev integrity s r =
     (case read_secure dev TOKEN_KEY s of
        Thrown e \<Rightarrow> Thrown r
      | Done t \<Rightarrow>
          (let r = (case t of None \<Rightarrow> r | Some k \<Rightarrow>
                      if k = [] then r
                      else r\<lparr> headers := AList.update ''Authorization'' (''Bearer '' @ k) (headers r) \<rparr>) in
           Done (r\<lparr> headers := AList.update ''X-Device-Integrity'' integrity (headers r) \<rparr>)))"

text \<open>One entry of a FastAPI \<open>detail\<close> array, and the message it gives.\<close>

definition detail_text :: "jsv \<Rightarrow> string" where
  "detail_text d =
     (case d of JStr t \<Rightarrow> t
      | _ \<Rightarrow> (case nullish_or (opt_prop d ''msg'') JUndef of
               JStr t \<Rightarrow> t | JUndef \<Rightarrow> stringify (json_norm d) | v \<Rightarrow> stringify v))"

definition mobile_message :: "api_error \<Rightarrow> jsv" where
  "mobile_message e =
     (case opt_prop (data e) ''detail'' of
        JStr t \<Rightarrow> JStr t
      | JArr ds \<Rightarrow> JStr (join_with ''; '' (map detail_text ds))
      | _ \<Rightarrow> message e)"

definition m_reject :: "request_config \<Rightarrow> jsv \<Rightarrow> mobile_state \<Rightarrow> mobile_state" where
  "m_reject r msg s = s\<lparr> mRejections := mRejections s @ [(rid r, msg)] \<rparr>"

text \<open>\<open>logout\<close>: guarded by \<open>isLoggingOut\<close>, which a timer resets; a failing removal skips the rest.\<close>

definition mobile_logout :: "device \<Rightarrow> mobile_state \<Rightarrow> mobile_state" where
  "mobile_logout dev s =
     (if isLoggingOut s then s
      else s\<lparr> isLoggingOut := True,
        session := outcome (
          and_then (drop_secure dev TOKEN_KEY (session s)) (\<lambda>a.
          and_then (drop_secure dev REFRESH_TOKEN_KEY a) (\<lambda>a.
          and_then (drop_secure dev USER_KEY a) (\<lambda>a. Done (a\<lparr> atLogin := True \<rparr>))))) \<rparr>)"

definition logout_timer :: "mobile_state \<Rightarrow> mobile_state" where
  "logout_timer s = s\<lparr> isLoggingOut := False \<rparr>"

definition is_refresh_request :: "request_config \<Rightarrow> bool" where
  "is_refresh_request r = (case url r of None \<Rightarrow> False | Some u \<Rightarrow> str_includes ''/auth/refresh'' u)"

text \<open>The response interceptor, for an error that carries a request.\<close>

definition mobile_error :: "device \<Rightarrow> api_error \<Rightarrow> mobile_state \<Rightarrow> mobile_state" where
  "mobile_error dev e s =
     (let r = config e; msg = mobile_message e in
      if status e = Some 401 \<and> \<not> retry_flag r \<and> \<not> is_refresh_request r then
        if mRefreshing s then s\<lparr> mQueue := mQueue s @ [r] \<rparr>
        else
          (let s = s\<lparr> mRefreshing := True \<rparr>; r = r\<lparr> retry_flag := True \<rparr> in
           case read_secure dev REFRESH_TOKEN_KEY (session s) of
             Thrown x \<Rightarrow> m_reject r msg s
           | Done t \<Rightarrow>
               if t = None \<or> t = Some [] then m_reject r msg (mobile_logout dev s)
               else s\<lparr> mRefresher := Some (r, msg) \<rparr>)
      else m_reject r msg s)"

text \<open>The refresh call answers with new tokens, or rejects; storing the tokens may throw as well.\<close>

definition mobile_refreshed :: "device \<Rightarrow> (string \<times> string) option \<Rightarrow> jsv \<Rightarrow> mobile_state \<Rightarrow> mobile_state" where
  "mobile_refreshed dev res err s =
     (case mRefresher s of
        None \<Rightarrow> s
      | Some (r, msg) \<Rightarrow>
          (case (case res of None \<Rightarrow> Thrown (session s)
                 | Some (a, b) \<Rightarrow> and_then (put_secure dev TOKEN_KEY (Raw a) (session s))
                                    (put_secure dev REFRESH_TOKEN_KEY (Raw b))) of
             Done sess \<Rightarrow>
               s\<lparr> session := sess, mOutbox := mOutbox s
                    @ [r\<lparr> headers := AList.update ''Authorization'' (''Bearer '' @ fst (the res)) (headers r) \<rparr>]
                    @ mQueue s,
                  mQueue := [], mRefreshing := False, mRefresher := None \<rparr>
           | Thrown sess \<Rightarrow>
               m_reject r err (mobile_logout dev
                 (s\<lparr> session := sess, mRejections := mRejections s @ map (\<lambda>q. (rid q, msg)) (mQueue s),
                     mQueue := [], mRefreshing := False, mRefresher := None \<rparr>))))"

datatype mobile_event =
    MError api_error
  | MRefreshed "(string \<times> string) option" jsv
  | MLogoutTimer

fun mobile_step :: "device \<Rightarrow> mobile_state \<Rightarrow> mobile_event \<Rightarrow> mobile_state" where
  "mobile_step dev s (MError e) = mobile_error dev e s"
| "mobile_step dev s (MRefreshed res err) = mobile_refreshed dev res err s"
| "mobile_step dev s MLogoutTimer = logout_timer s"

definition stuck :: "nat list \<Rightarrow> mobile_state \<Rightarrow> bool" where
  "stuck out s = (mRefreshing s \<and> mRefresher s = None \<and> map rid (mOutbox s) = out)"

lemma stuck_step: "stuck out s \<Longrightarrow> stuck out (mobile_step dev s e)"
  by (cases e) (auto simp: stuck_def mobile_error_def mobile_refreshed_def logout_timer_def m_reject_def Let_def)

interpretation stuck_client: machine "mobile_step dev" "stuck out" for dev out
  by unfold_locales (rule stuck_step)

lemma stuck_parks:
  assumes "stuck out s" "status e = Some 401" "\<not> retry_flag (config e)" "\<not> is_refresh_request (config e)"
  shows "config e \<in> set (mQueue (mobile_step dev s (MError e)))"
  using assms by (simp add: stuck_def mobile_error_def Let_def)

lemma stuck_keeps:
  "stuck out s \<Longrightarrow> r \<in> set (mQueue s) \<Longrightarrow> r \<in> set (mQueue (mobile_step dev s e))"
  by (cases e) (auto simp: stuck_def mobile_error_def mobile_refreshed_def logout_timer_def m_reject_def Let_def)

lemma stuck_keeps_run:
  "stuck out s \<Longrightarrow> r \<in> set (mQueue s) \<Longrightarrow> r \<in> set (mQueue (run (mobile_step dev) es s))"
  by (induction es arbitrary: s) (auto intro: stuck_keeps stuck_step)

text \<open>C24.  A mobile client without a refresh token gets stuck: its first 401 leaves
  \<open>isRefreshing\<close> set with no refresh under way, and from then on (also after the user signs in
  again) every request that meets a 401 is parked for ever and nothing is resent.\<close>

theorem mobile_client_stuck:
  fixes first later :: api_error and dev :: device and es fs :: "mobile_event list"
  assumes "reliable dev" "\<not> mRefreshing s" "mRefresher s = None"
    and "get_item (secure (session s)) REFRESH_TOKEN_KEY = None"
    and "status first = Some 401" "\<not> retry_flag (config first)" "\<not> is_refresh_request (config first)"
    and "status later = Some 401" "\<not> retry_flag (config later)" "\<not> is_refresh_request (config later)"
  defines "end' \<equiv> run (mobile_step dev) ([MError first] @ es @ [MError later] @ fs) s"
  shows "config later \<in> set (mQueue end') \<and> map rid (mOutbox end') = map rid (mOutbox s)"
proof -
  let ?out = "map rid (mOutbox s)"
  have st: "stuck ?out (mobile_step dev s (MError first))"
    using assms(1-7) by (simp add: stuck_def mobile_error_def Let_def m_reject_def mobile_logout_def)
  let ?t = "run (mobile_step dev) es (mobile_step dev s (MError first))"
  have t: "stuck ?out ?t" using st by (rule stuck_client.every_run_inv)
  then have u: "stuck ?out (mobile_step dev ?t (MError later))" by (rule stuck_step)
  have "config later \<in> set (mQueue (mobile_step dev ?t (MError later)))"
    using t assms(8-10) by (rule stuck_parks)
  then have "config later \<in> set (mQueue end')"
    using stuck_keeps_run [OF u] by (simp add: end'_def)
  moreover have "stuck ?out end'"
    using stuck_client.every_run_inv [OF u] by (simp add: end'_def)
  ultimately show ?thesis by (simp add: stuck_def)
qed

text \<open>A refresh by the mobile HTTP client does not reach the auth store: the new tokens go to
  the secure storage only, so the store keeps the old refresh token and the session hook later
  refreshes with a token the server has already rotated.\<close>

theorem mobile_refresh_desyncs_store:
  fixes dev :: device and s :: mobile_state and a b :: string and err :: jsv
  assumes "reliable dev" "mRefresher s = Some (r, msg)" "refreshToken (session s) = Some old" "old \<noteq> b"
  defines "after \<equiv> session (mobile_refreshed dev (Some (a, b)) err s)"
  shows "get_item (secure after) REFRESH_TOKEN_KEY = Some (Raw b)
    \<and> refreshToken after = Some old \<and> \<not> mirrored after"
  using assms(1-4) by (simp add: after_def mobile_refreshed_def mirrored_def)

section \<open>Instances\<close>

definition get_programs :: "request_config" where
  "get_programs = \<lparr> rid = 1, url = Some ''/programs'', http_method = Some ''get'', headers = [],
     retry_flag = False, stepUpRetry = False, skipStepUp = False \<rparr>"

definition expired_401 :: "request_config \<Rightarrow> api_error" where
  "expired_401 r = \<lparr> config = r, status = Some 401, data = JUndef, message = JStr ''expired'' \<rparr>"

definition two_expired :: "(api_event + jsv option) list" where
  "two_expired = [Inl (AError 0 (expired_401 get_programs)),
     Inl (AError 1 (expired_401 (get_programs\<lparr> rid := 2 \<rparr>)))]"

lemma two_expired_run:
  "refresher (api_run two_expired api_init) = Some (get_programs\<lparr> retry_flag := True \<rparr>, JStr ''expired'')
   \<and> failedQueue (api_run two_expired api_init) = [get_programs\<lparr> rid := 2 \<rparr>]
   \<and> rejections (api_run two_expired api_init) = []"
  by (simp add: two_expired_def expired_401_def get_programs_def api_init_def on_error_def step_up_scope_def
      wants_refresh_def extractStepUpAction_def step_up_marker_def unauthenticated_endpoint_def
      starts_with_def error_message_def opt_prop_def Let_def)

lemma parked_released_witness:
  "rejections (api_run (two_expired @ [Inr (Some (JStr ''no cookie''))]) api_init)
     = [(2, JStr ''expired''), (1, JStr ''no cookie'')]"
  using parked_requests_released [of two_expired "Some (JStr ''no cookie'')"] two_expired_run
  by (simp add: Let_def get_programs_def del: run_append)

definition guest :: "mobile_state" where
  "guest = \<lparr> mRefreshing = False, mQueue = [], mRefresher = None, mOutbox = [], mRejections = [],
     isLoggingOut = False, session = auth_init \<rparr>"

lemma mobile_stuck_witness:
  "get_programs\<lparr> rid := 2 \<rparr> \<in> set (mQueue (run (mobile_step phone)
     ([MError (expired_401 get_programs)] @ [MLogoutTimer, MRefreshed (Some (''a'', ''b'')) JNull]
       @ [MError (expired_401 (get_programs\<lparr> rid := 2 \<rparr>))] @ [MLogoutTimer]) guest))"
  using mobile_client_stuck [of phone guest "expired_401 get_programs" "expired_401 (get_programs\<lparr> rid := 2 \<rparr>)"
      "[MLogoutTimer, MRefreshed (Some (''a'', ''b'')) JNull]" "[MLogoutTimer]"]
  by (simp add: guest_def auth_init_def expired_401_def get_programs_def is_refresh_request_def starts_with_def)

lemma mobile_desync_witness:
  "refreshToken (session (mobile_refreshed phone (Some (''a2'', ''r2'')) JNull
     (guest\<lparr> mRefresher := Some (get_programs, JNull), session := auth_init\<lparr> refreshToken := Some ''r1'' \<rparr> \<rparr>))) = Some ''r1''"
  using mobile_refresh_desyncs_store [of phone
      "guest\<lparr> mRefresher := Some (get_programs, JNull), session := auth_init\<lparr> refreshToken := Some ''r1'' \<rparr> \<rparr>"
      get_programs JNull "''r1''" "''r2''" "''a2''" JNull]
  by simp

end
