(* ===== verification/Tours.thy ===== *)
theory Tours
  imports Machines
begin

text \<open>
  Guided tours: the registry \<open>frontend/src/lib/tours/config.ts\<close>, the persisted store
  \<open>frontend/src/stores/tours-store.ts\<close> and the hooks \<open>frontend/src/hooks/use-tours.ts\<close>.
  The registry and the store's record of tours are association lists in insertion order.
\<close>

section \<open>The registry\<close>

datatype tour_category = Onboarding | Features | Pages | Workflows | Admin

record tour_definition =
  tour_id :: string
  category :: tour_category
  route :: "string option"
  startRoutes :: "string list"
  autoStart :: bool
  hasCondition :: bool
  featured :: bool
  order :: "int option"
  steps :: nat

type_synonym registry = "(string \<times> tour_definition) list"

definition registerTour :: "tour_definition \<Rightarrow> registry \<Rightarrow> registry" where
  "registerTour t reg = AList.update (tour_id t) t reg"

definition getTour :: "registry \<Rightarrow> string \<Rightarrow> tour_definition option" where
  "getTour reg i = map_of reg i"

definition order_of :: "tour_definition \<Rightarrow> int" where
  "order_of t = (case order t of None \<Rightarrow> 100 | Some n \<Rightarrow> n)"

definition getAllTours :: "registry \<Rightarrow> tour_definition list" where
  "getAllTours reg = sort_key order_of (map snd reg)"

definition getToursByCategory :: "registry \<Rightarrow> tour_category \<Rightarrow> tour_definition list" where
  "getToursByCategory reg c = filter (\<lambda>t. category t = c) (getAllTours reg)"

text \<open>\<open>tour.route && path.startsWith(tour.route)\<close>\<close>

definition on_route :: "string \<Rightarrow> tour_definition \<Rightarrow> bool" where
  "on_route path t = (case route t of None \<Rightarrow> False | Some r \<Rightarrow> r \<noteq> [] \<and> starts_with r path)"

definition getToursForRoute :: "registry \<Rightarrow> string \<Rightarrow> tour_definition list" where
  "getToursForRoute reg path =
     filter (\<lambda>t. on_route path t \<or> list_ex (\<lambda>r. starts_with r path) (startRoutes t)) (getAllTours reg)"

definition getAutoStartTours :: "registry \<Rightarrow> tour_definition list" where
  "getAutoStartTours reg = filter autoStart (getAllTours reg)"

section \<open>The store\<close>

record tour_state =
  completed :: bool
  skipped :: bool
  startCount :: nat
  completedAt :: "int option"
  skippedAt :: "int option"
  lastStep :: "int option"

record tours_store =
  tours :: "(string \<times> tour_state) list"
  activeTourId :: "string option"
  initialized :: bool
  showPrompt :: bool
  completedCategories :: "tour_category list"

definition defaultTourState :: "tour_state" where
  "defaultTourState = \<lparr> completed = False, skipped = False, startCount = 0, completedAt = None,
     skippedAt = None, lastStep = None \<rparr>"

definition tours_init :: "tours_store" where
  "tours_init = \<lparr> tours = [], activeTourId = None, initialized = False, showPrompt = False,
     completedCategories = [] \<rparr>"

definition existing :: "string \<Rightarrow> tours_store \<Rightarrow> tour_state" where
  "existing i s = (case map_of (tours s) i of None \<Rightarrow> defaultTourState | Some t \<Rightarrow> t)"

definition completeTour :: "int \<Rightarrow> string \<Rightarrow> tour_category option \<Rightarrow> tours_store \<Rightarrow> tours_store" where
  "completeTour now i cat s = s\<lparr>
     tours := AList.update i ((existing i s)\<lparr> completed := True, completedAt := Some now, lastStep := None \<rparr>) (tours s),
     activeTourId := None,
     completedCategories := (case cat of
        None \<Rightarrow> completedCategories s
      | Some c \<Rightarrow> if c \<in> set (completedCategories s) then completedCategories s
                  else completedCategories s @ [c]) \<rparr>"

definition skipTour :: "int \<Rightarrow> string \<Rightarrow> tours_store \<Rightarrow> tours_store" where
  "skipTour now i s = s\<lparr>
     tours := AList.update i ((existing i s)\<lparr> skipped := True, skippedAt := Some now \<rparr>) (tours s),
     activeTourId := None \<rparr>"

definition updateProgress :: "string \<Rightarrow> int \<Rightarrow> tours_store \<Rightarrow> tours_store" where
  "updateProgress i n s =
     (if completed (existing i s) then s
      else s\<lparr> tours := AList.update i ((existing i s)\<lparr> lastStep := Some n \<rparr>) (tours s) \<rparr>)"

definition startTour :: "string \<Rightarrow> tours_store \<Rightarrow> tours_store" where
  "startTour i s = s\<lparr>
     tours := AList.update i ((existing i s)\<lparr> startCount := startCount (existing i s) + 1,
        skipped := False, skippedAt := None \<rparr>) (tours s),
     activeTourId := Some i \<rparr>"

definition endTour :: "tours_store \<Rightarrow> tours_store" where
  "endTour s = s\<lparr> activeTourId := None \<rparr>"

definition resetTour :: "string \<Rightarrow> tours_store \<Rightarrow> tours_store" where
  "resetTour i s = s\<lparr> tours := AList.delete i (tours s) \<rparr>"

definition resetAllTours :: "tours_store \<Rightarrow> tours_store" where
  "resetAllTours s = s\<lparr> tours := [], activeTourId := None, completedCategories := [], showPrompt := True \<rparr>"

definition isTourCompleted :: "tours_store \<Rightarrow> string \<Rightarrow> bool" where
  "isTourCompleted s i = (case map_of (tours s) i of None \<Rightarrow> False | Some t \<Rightarrow> completed t)"

definition isTourSkipped :: "tours_store \<Rightarrow> string \<Rightarrow> bool" where
  "isTourSkipped s i = (case map_of (tours s) i of None \<Rightarrow> False | Some t \<Rightarrow> skipped t)"

definition getTourState :: "tours_store \<Rightarrow> string \<Rightarrow> tour_state option" where
  "getTourState s i = map_of (tours s) i"

definition getCompletedTourIds :: "tours_store \<Rightarrow> string list" where
  "getCompletedTourIds s = map fst (filter (\<lambda>(i, t). completed t) (tours s))"

definition setShowPrompt :: "bool \<Rightarrow> tours_store \<Rightarrow> tours_store" where
  "setShowPrompt b s = s\<lparr> showPrompt := b \<rparr>"

definition setInitialized :: "bool \<Rightarrow> tours_store \<Rightarrow> tours_store" where
  "setInitialized b s = s\<lparr> initialized := b \<rparr>"

definition isNewUser :: "tours_store \<Rightarrow> bool" where
  "isNewUser s = (length (filter (completed \<circ> snd) (tours s)) = 0 \<and> \<not> initialized s)"

text \<open>A page load keeps the persisted part only.\<close>

definition tours_reload :: "tours_store \<Rightarrow> tours_store" where
  "tours_reload s = tours_init\<lparr> tours := tours s, initialized := initialized s,
     completedCategories := completedCategories s \<rparr>"

section \<open>The hooks\<close>

definition beginTour :: "registry \<Rightarrow> string \<Rightarrow> tours_store \<Rightarrow> bool \<times> tours_store" where
  "beginTour reg i s =
     (case getTour reg i of
        None \<Rightarrow> (False, s)
      | Some t \<Rightarrow> if isTourCompleted s i then (False, s) else (True, startTour i s))"

definition restartTour :: "registry \<Rightarrow> string \<Rightarrow> tours_store \<Rightarrow> bool \<times> tours_store" where
  "restartTour reg i s =
     (case getTour reg i of
        None \<Rightarrow> (False, s)
      | Some t \<Rightarrow> (True, startTour i (resetTour i s)))"

definition groupByCategory :: "registry \<Rightarrow> tour_category \<Rightarrow> tour_definition list" where
  "groupByCategory reg = fold (\<lambda>t g. g(category t := g (category t) @ [t])) (getAllTours reg) (\<lambda>c. [])"

definition getRecommendedTours :: "registry \<Rightarrow> string \<Rightarrow> tours_store \<Rightarrow> tour_definition list" where
  "getRecommendedTours reg path s =
     filter (\<lambda>t. \<not> isTourCompleted s (tour_id t) \<and> \<not> isTourSkipped s (tour_id t)
        \<and> \<not> (route t \<noteq> None \<and> route t \<noteq> Some [] \<and> \<not> on_route path t) \<and> featured t)
       (getAllTours reg)"

definition hasPendingTours :: "registry \<Rightarrow> string \<Rightarrow> tours_store \<Rightarrow> bool" where
  "hasPendingTours reg path s =
     list_ex (\<lambda>t. \<not> isTourCompleted s (tour_id t) \<and> \<not> isTourSkipped s (tour_id t)) (getToursForRoute reg path)"

text \<open>The auto-start check: the tour whose start is scheduled, and the store.  \<open>holds\<close> is what the
  tour's own condition answers.\<close>

definition checkAutoStart ::
    "registry \<Rightarrow> string \<Rightarrow> (string \<Rightarrow> bool) \<Rightarrow> tours_store \<Rightarrow> string option \<times> tours_store" where
  "checkAutoStart reg path holds s =
     (case List.find (\<lambda>t. \<not> isTourCompleted s (tour_id t) \<and> on_route path t) (getAutoStartTours reg) of
        Some t \<Rightarrow>
          if hasCondition t \<and> \<not> holds (tour_id t) then (None, s)
          else (Some (tour_id t), setInitialized True s)
      | None \<Rightarrow> (None, setInitialized True (if isNewUser s then setShowPrompt True s else s)))"

text \<open>\<open>useTourProgress\<close>: total steps, current step, first and last flags (the displayed percentage
  is their quotient and is left out).\<close>

definition tour_progress :: "registry \<Rightarrow> string \<Rightarrow> tours_store \<Rightarrow> int \<times> int \<times> bool \<times> bool" where
  "tour_progress reg i s =
     (let total = (case getTour reg i of None \<Rightarrow> 0 | Some t \<Rightarrow> int (steps t));
          current = (case getTourState s i of None \<Rightarrow> 0
             | Some t \<Rightarrow> (case lastStep t of None \<Rightarrow> 0 | Some n \<Rightarrow> n)) in
      (total, current, current = 0, current = total - 1))"

section \<open>Runs\<close>

datatype tour_event =
    TComplete int string "tour_category option"
  | TSkip int string
  | TProgress string int
  | TStart string
  | TEnd
  | TReset string
  | TResetAll
  | TPrompt bool
  | TInit bool
  | TBegin string
  | TRestart string
  | TReload

fun tour_step :: "registry \<Rightarrow> tours_store \<Rightarrow> tour_event \<Rightarrow> tours_store" where
  "tour_step reg s (TComplete now i c) = completeTour now i c s"
| "tour_step reg s (TSkip now i) = skipTour now i s"
| "tour_step reg s (TProgress i n) = updateProgress i n s"
| "tour_step reg s (TStart i) = startTour i s"
| "tour_step reg s TEnd = endTour s"
| "tour_step reg s (TReset i) = resetTour i s"
| "tour_step reg s TResetAll = resetAllTours s"
| "tour_step reg s (TPrompt b) = setShowPrompt b s"
| "tour_step reg s (TInit b) = setInitialized b s"
| "tour_step reg s (TBegin i) = snd (beginTour reg i s)"
| "tour_step reg s (TRestart i) = snd (restartTour reg i s)"
| "tour_step reg s TReload = tours_reload s"

lemmas tour_ops = completeTour_def skipTour_def updateProgress_def startTour_def endTour_def
  resetTour_def resetAllTours_def setShowPrompt_def setInitialized_def beginTour_def restartTour_def
  tours_reload_def

text \<open>A completed tour has no step to resume at, and a category is recorded once.\<close>

definition tour_ok :: "tour_state \<Rightarrow> bool" where
  "tour_ok t = (completed t \<longrightarrow> lastStep t = None)"

definition tours_inv :: "tours_store \<Rightarrow> bool" where
  "tours_inv s = ((\<forall>i t. map_of (tours s) i = Some t \<longrightarrow> tour_ok t) \<and> distinct (completedCategories s))"

lemma tours_inv_update:
  "tours_inv s \<Longrightarrow> tour_ok t \<Longrightarrow> tours_inv (s\<lparr> tours := AList.update i t (tours s) \<rparr>)"
  by (auto simp: tours_inv_def update_conv')

lemma existing_ok: "tours_inv s \<Longrightarrow> tour_ok (existing i s)"
  by (auto simp: tours_inv_def existing_def tour_ok_def defaultTourState_def split: option.splits)

lemma tours_inv_delete:
  "tours_inv s \<Longrightarrow> tours_inv (s\<lparr> tours := AList.delete i (tours s) \<rparr>)"
  by (auto simp: tours_inv_def delete_conv')

lemma tours_inv_other:
  "tours_inv s \<Longrightarrow> tours_inv (s\<lparr> activeTourId := a \<rparr>)" "tours_inv s \<Longrightarrow> tours_inv (s\<lparr> showPrompt := b \<rparr>)"
  "tours_inv s \<Longrightarrow> tours_inv (s\<lparr> initialized := b \<rparr>)"
  by (simp_all add: tours_inv_def)

lemma startTour_inv: "tours_inv s \<Longrightarrow> tours_inv (startTour i s)"
  using existing_ok [of s i]
  by (auto simp: startTour_def tours_inv_def update_conv' tour_ok_def)

lemma completeTour_inv: "tours_inv s \<Longrightarrow> tours_inv (completeTour now i c s)"
  by (auto simp: completeTour_def tours_inv_def update_conv' tour_ok_def split: option.splits)

lemma tour_step_inv: "tours_inv s \<Longrightarrow> tours_inv (tour_step reg s e)"
proof (cases e)
  case (TSkip now i)
  then show "tours_inv s \<Longrightarrow> ?thesis"
    using existing_ok [of s i] by (auto simp: skipTour_def tours_inv_def update_conv' tour_ok_def)
next
  case (TProgress i n)
  then show "tours_inv s \<Longrightarrow> ?thesis"
    by (auto simp: updateProgress_def tour_ok_def intro: tours_inv_update)
qed (auto simp: beginTour_def restartTour_def resetTour_def endTour_def setShowPrompt_def
      setInitialized_def resetAllTours_def tours_reload_def
      intro: completeTour_inv startTour_inv tours_inv_delete tours_inv_other split: option.splits,
     auto simp: tours_inv_def tours_init_def)

interpretation tours_machine: machine "tour_step reg" tours_inv for reg
  by unfold_locales (rule tour_step_inv)

section \<open>Completion lasts\<close>

fun no_reset_of :: "string \<Rightarrow> tour_event \<Rightarrow> bool" where
  "no_reset_of i (TReset j) = (i \<noteq> j)"
| "no_reset_of i TResetAll = False"
| "no_reset_of i (TRestart j) = (i \<noteq> j)"
| "no_reset_of i e = True"

lemma completed_step:
  "isTourCompleted s i \<Longrightarrow> no_reset_of i e \<Longrightarrow> isTourCompleted (tour_step reg s e) i"
  by (cases e) (auto simp: tour_ops isTourCompleted_def existing_def update_conv' delete_conv' tours_init_def
      split: option.splits if_splits)

interpretation completion: guarded_machine "tour_step reg" "no_reset_of i" "\<lambda>s. isTourCompleted s i" for reg i
  by unfold_locales (rule completed_step)

text \<open>A finished tour stays finished: from its completion on, until it is reset or restarted
  (or all tours are), it counts as completed, in every run of the store and the hooks including
  page reloads; beginning it again is refused and it has no step to resume at.\<close>

theorem completed_tour_stays_completed:
  fixes reg :: registry and es :: "tour_event list" and now :: int and c :: "tour_category option"
  assumes "list_all (no_reset_of i) fs"
  defines "s \<equiv> run (tour_step reg) (es @ [TComplete now i c] @ fs) tours_init"
  shows "isTourCompleted s i \<and> beginTour reg i s = (False, s) \<and> i \<in> set (getCompletedTourIds s)
    \<and> (case getTourState s i of None \<Rightarrow> False | Some t \<Rightarrow> lastStep t = None)"
proof -
  let ?m = "completeTour now i c (run (tour_step reg) es tours_init)"
  have "isTourCompleted ?m i" by (simp add: isTourCompleted_def completeTour_def update_conv')
  then have c: "isTourCompleted (run (tour_step reg) fs ?m) i"
    using assms(1) by (rule completion.run_inv)
  have "tours_inv tours_init" by (simp add: tours_inv_def tours_init_def)
  then have inv: "tours_inv s" unfolding s_def by (rule tours_machine.every_run_inv)
  have s: "isTourCompleted s i" using c by (simp add: s_def)
  then obtain t where t: "map_of (tours s) i = Some t" "completed t"
    by (auto simp: isTourCompleted_def split: option.splits)
  have "(i, t) \<in> set (tours s)" using t(1) by (rule map_of_SomeD)
  then have "i \<in> set (getCompletedTourIds s)"
    using t(2) by (force simp: getCompletedTourIds_def)
  then show ?thesis
    using s t inv by (auto simp: beginTour_def tours_inv_def tour_ok_def getTourState_def split: option.split)
qed

text \<open>The route and category queries select from the same ordered list, which holds exactly the
  registered tours.\<close>

lemma getAllTours_sorted: "sorted (map order_of (getAllTours reg)) \<and> set (getAllTours reg) = snd ` set reg"
  by (simp add: getAllTours_def)

lemma groupByCategory_eq: "groupByCategory reg c = getToursByCategory reg c"
proof -
  have "fold (\<lambda>t g. g(category t := g (category t) @ [t])) ts g c = g c @ filter (\<lambda>t. category t = c) ts"
    for ts and g :: "tour_category \<Rightarrow> tour_definition list"
    by (induction ts arbitrary: g) auto
  then show ?thesis by (simp add: groupByCategory_def getToursByCategory_def)
qed

text \<open>A condition that fails leaves the store untouched: it is not marked as initialised.\<close>

lemma autostart_condition_false:
  assumes "List.find (\<lambda>t. \<not> isTourCompleted s (tour_id t) \<and> on_route path t) (getAutoStartTours reg) = Some t"
    and "hasCondition t" "\<not> holds (tour_id t)"
  shows "checkAutoStart reg path holds s = (None, s)"
  using assms by (simp add: checkAutoStart_def)

lemma completed_tour_witness:
  "isTourCompleted (run (tour_step []) ([TStart ''welcome'', TProgress ''welcome'' 2] @ [TComplete 5 ''welcome'' (Some Onboarding)]
      @ [TReload, TProgress ''welcome'' 1, TReset ''other'']) tours_init) ''welcome''"
  using completed_tour_stays_completed [of "''welcome''" "[TReload, TProgress ''welcome'' 1, TReset ''other'']"
      "[]" "[TStart ''welcome'', TProgress ''welcome'' 2]" 5 "Some Onboarding"]
  by simp

end
