(* ===== verification/FieldValidation.thy ===== *)
theory FieldValidation
  imports Machines Storage
begin

text \<open>
  Field validation: the rule chain and the hook of \<open>frontend/src/hooks/use-field-validation.ts\<close>,
  and the inline cell editor's \<open>components/ui/editable-cell/validate-value.ts\<close> and
  \<open>use-cell-save.ts\<close>.  Rules that call out of the module are functions in the rule record: the
  regular expression, the Zod schema and the custom validator; \<open>new URL\<close> and \<open>Number\<close> are
  parameters (\<open>lib\<close>).  An awaited function may throw, which is None.
\<close>

section \<open>Rules\<close>

text \<open>\<open>boolean | string\<close>\<close>

datatype flag = Off | On | Msg string

fun flag_on :: "flag \<Rightarrow> bool" where
  "flag_on Off = False"
| "flag_on On = True"
| "flag_on (Msg s) = (s \<noteq> [])"

fun flag_message :: "flag \<Rightarrow> string \<Rightarrow> string" where
  "flag_message (Msg s) d = s"
| "flag_message f d = d"

text \<open>\<open>number | { value, message }\<close>\<close>

datatype limit = Bare int | Worded int string

fun limit_value :: "limit \<Rightarrow> int" where
  "limit_value (Bare n) = n"
| "limit_value (Worded n m) = n"

fun limit_message :: "limit \<Rightarrow> string \<Rightarrow> string" where
  "limit_message (Bare n) d = d"
| "limit_message (Worded n m) d = m"

datatype custom_result = Accept | Refuse | RefuseWith string

record validation_rule =
  required :: flag
  minLength :: "limit option"
  maxLength :: "limit option"
  min_value :: "limit option"
  max_value :: "limit option"
  pattern :: "((string \<Rightarrow> bool) \<times> string option) option"
  email :: flag
  url :: flag
  phone :: flag
  custom :: "(jsv \<Rightarrow> custom_result option) option"
  schema :: "(jsv \<Rightarrow> string list option) option"

record validation_lib =
  is_url :: "string \<Rightarrow> bool"
  to_number :: "jsv \<Rightarrow> int option"

text \<open>\<open>/^[^\s@]+@[^\s@]+\.[^\s@]+$/\<close>: text without spaces, one at sign with something before it,
  and behind it a dot with something on both sides.\<close>

fun inner_dot :: "string \<Rightarrow> bool" where
  "inner_dot [] = False"
| "inner_dot [c] = False"
| "inner_dot (c # d # s) = ((d = CHR ''.'' \<and> s \<noteq> []) \<or> inner_dot (d # s))"

definition email_shape :: "string \<Rightarrow> bool" where
  "email_shape s =
     (case split_on (CHR ''@'') s of
        [a, b] \<Rightarrow> a \<noteq> [] \<and> list_all (\<lambda>c. \<not> is_space c) (a @ b) \<and> inner_dot b
      | _ \<Rightarrow> False)"

definition is_digit :: "char \<Rightarrow> bool" where
  "is_digit c = (48 \<le> code c \<and> code c \<le> 57)"

definition phone_tail :: "char \<Rightarrow> bool" where
  "phone_tail c = (is_digit c \<or> is_space c \<or> c = CHR ''-'' \<or> c = CHR ''.'' \<or> c = CHR ''/'')"

definition skip_char :: "char \<Rightarrow> string \<Rightarrow> string" where
  "skip_char c s = (if take 1 s = [c] then drop 1 s else s)"

text \<open>\<open>/^[+]?[(]?[0-9]{1,4}[)]?[-\s./0-9]*$/\<close>, trying each number of leading digits.\<close>

definition phone_shape :: "string \<Rightarrow> bool" where
  "phone_shape s =
     (let t = skip_char (CHR ''('') (skip_char (CHR ''+'') s) in
      list_ex (\<lambda>k. k \<le> length t \<and> list_all is_digit (take k t)
          \<and> list_all phone_tail (skip_char (CHR '')'') (drop k t))) [1, 2, 3, 4])"

definition phone_ok :: "string \<Rightarrow> bool" where
  "phone_ok s = (phone_shape s \<and> 7 \<le> length (filter is_digit s))"

section \<open>The rule chain\<close>

definition below :: "validation_lib \<Rightarrow> jsv \<Rightarrow> limit option \<Rightarrow> bool" where
  "below lib v l = (case (l, to_number lib v) of (Some m, Some n) \<Rightarrow> n < limit_value m | _ \<Rightarrow> False)"

definition above :: "validation_lib \<Rightarrow> jsv \<Rightarrow> limit option \<Rightarrow> bool" where
  "above lib v l = (case (l, to_number lib v) of (Some m, Some n) \<Rightarrow> n > limit_value m | _ \<Rightarrow> False)"

definition too_short :: "string \<Rightarrow> limit option \<Rightarrow> bool" where
  "too_short s l = (case l of Some m \<Rightarrow> int (length s) < limit_value m | None \<Rightarrow> False)"

definition too_long :: "string \<Rightarrow> limit option \<Rightarrow> bool" where
  "too_long s l = (case l of Some m \<Rightarrow> int (length s) > limit_value m | None \<Rightarrow> False)"

definition mismatch :: "string \<Rightarrow> ((string \<Rightarrow> bool) \<times> string option) option \<Rightarrow> bool" where
  "mismatch s p = (case p of Some (re, m) \<Rightarrow> \<not> re s | None \<Rightarrow> False)"

definition string_value :: "jsv \<Rightarrow> string" where
  "string_value v = (if v = JNull \<or> v = JUndef then [] else js_string v)"

text \<open>The custom validator, accepting when there is none, and the error its answer means.\<close>

definition run_custom :: "jsv \<Rightarrow> validation_rule \<Rightarrow> custom_result option" where
  "run_custom v r = (case custom r of None \<Rightarrow> Some Accept | Some f \<Rightarrow> f v)"

fun custom_error :: "custom_result \<Rightarrow> string option" where
  "custom_error Accept = None"
| "custom_error Refuse = Some ''Invalid value''"
| "custom_error (RefuseWith m) = Some m"

text \<open>\<open>validateValue\<close>: None if a validator threw, otherwise the error or \<open>null\<close>.\<close>

definition validateValue :: "validation_lib \<Rightarrow> jsv \<Rightarrow> validation_rule \<Rightarrow> string option option" where
  "validateValue lib v r =
     (let s = string_value v in
      if flag_on (required r) \<and> s = [] then Some (Some (flag_message (required r) ''This field is required''))
      else if s = [] then Some None
      else case schema r of
        Some sch \<Rightarrow>
          (case sch v of None \<Rightarrow> Some None
           | Some issues \<Rightarrow> Some (Some (case issues of [] \<Rightarrow> ''Invalid value'' | m # ms \<Rightarrow> m)))
      | None \<Rightarrow>
        if too_short s (minLength r) then
          Some (Some (limit_message (the (minLength r))
            (''Must be at least '' @ int_text (limit_value (the (minLength r))) @ '' characters'')))
        else if too_long s (maxLength r) then
          Some (Some (limit_message (the (maxLength r))
            (''Must be at most '' @ int_text (limit_value (the (maxLength r))) @ '' characters'')))
        else if below lib v (min_value r) then
          Some (Some (limit_message (the (min_value r))
            (''Must be at least '' @ int_text (limit_value (the (min_value r))))))
        else if above lib v (max_value r) then
          Some (Some (limit_message (the (max_value r))
            (''Must be at most '' @ int_text (limit_value (the (max_value r))))))
        else if mismatch s (pattern r) then
          Some (Some (case snd (the (pattern r)) of None \<Rightarrow> ''Invalid format'' | Some m \<Rightarrow> m))
        else if flag_on (email r) \<and> \<not> email_shape s then
          Some (Some (flag_message (email r) ''Please enter a valid email address''))
        else if flag_on (url r) \<and> \<not> is_url lib s then
          Some (Some (flag_message (url r) ''Please enter a valid URL''))
        else if flag_on (phone r) \<and> \<not> phone_ok s then
          Some (Some (flag_message (phone r) ''Please enter a valid phone number''))
        else map_option custom_error (run_custom v r))"

section \<open>The cell editor's chain\<close>

record validation_result =
  valid :: bool
  result_error :: "string option"

definition bad :: "string \<Rightarrow> validation_result" where
  "bad m = \<lparr> valid = False, result_error = Some m \<rparr>"

definition good :: "validation_result" where
  "good = \<lparr> valid = True, result_error = None \<rparr>"

text \<open>\<open>validateValue\<close> of the cell editor, for a rule set that is given (\<open>rules?.\<close> tests are all
  false without one) and after the cell's own validator.\<close>

definition cell_rules :: "validation_lib \<Rightarrow> jsv \<Rightarrow> validation_rule \<Rightarrow> validation_result option" where
  "cell_rules lib v r =
     (let s = js_string v; filled = truthy v in
      if flag_on (required r) \<and> (v = JNull \<or> v = JUndef \<or> v = JStr []) then
        Some (bad (flag_message (required r) ''This field is required''))
      else if flag_on (email r) \<and> filled \<and> \<not> email_shape s then
        Some (bad (flag_message (email r) ''Please enter a valid email''))
      else if flag_on (url r) \<and> filled \<and> \<not> is_url lib s then
        Some (bad (flag_message (url r) ''Please enter a valid URL''))
      else if filled \<and> too_short s (minLength r) then
        Some (bad (limit_message (the (minLength r))
          (''Minimum '' @ int_text (limit_value (the (minLength r))) @ '' characters required'')))
      else if filled \<and> too_long s (maxLength r) then
        Some (bad (limit_message (the (maxLength r))
          (''Maximum '' @ int_text (limit_value (the (maxLength r))) @ '' characters allowed'')))
      else if v \<noteq> JStr [] \<and> v \<noteq> JNull \<and> below lib v (min_value r) then
        Some (bad (limit_message (the (min_value r))
          (''Minimum value is '' @ int_text (limit_value (the (min_value r))))))
      else if v \<noteq> JStr [] \<and> v \<noteq> JNull \<and> above lib v (max_value r) then
        Some (bad (limit_message (the (max_value r))
          (''Maximum value is '' @ int_text (limit_value (the (max_value r))))))
      else if filled \<and> mismatch s (pattern r) then
        Some (bad (case snd (the (pattern r)) of None \<Rightarrow> ''Invalid format'' | Some m \<Rightarrow> m))
      else map_option (\<lambda>c. case custom_error c of None \<Rightarrow> good | Some m \<Rightarrow> bad m) (run_custom v r))"

definition cell_validateValue ::
    "validation_lib \<Rightarrow> jsv \<Rightarrow> validation_rule option \<Rightarrow> (jsv \<Rightarrow> validation_result option) option
     \<Rightarrow> validation_result option" where
  "cell_validateValue lib v rules own =
     (let rest = (case rules of None \<Rightarrow> Some good | Some r \<Rightarrow> cell_rules lib v r) in
      case own of
        None \<Rightarrow> rest
      | Some f \<Rightarrow> (case f v of None \<Rightarrow> None | Some res \<Rightarrow> if \<not> valid res then Some res else rest))"

text \<open>\<open>saveValue\<close>: the verdict and the cell's error text; None when a call threw.  \<open>onSave\<close> may be
  missing and may answer nothing.\<close>

definition saveValue ::
    "validation_lib \<Rightarrow> validation_rule option \<Rightarrow> (jsv \<Rightarrow> validation_result option) option
     \<Rightarrow> (jsv \<Rightarrow> validation_result option option) option \<Rightarrow> jsv
     \<Rightarrow> (bool \<times> string option) option" where
  "saveValue lib rules own onSave v =
     (case cell_validateValue lib v rules own of
        None \<Rightarrow> None
      | Some res \<Rightarrow>
          if \<not> valid res then
            Some (False, Some (case result_error res of None \<Rightarrow> ''Invalid value'' | Some m \<Rightarrow> m))
          else (case onSave of
              None \<Rightarrow> Some (True, None)
            | Some save \<Rightarrow> (case save v of
                  None \<Rightarrow> None
                | Some None \<Rightarrow> Some (True, None)
                | Some (Some r) \<Rightarrow>
                    if \<not> valid r then
                      Some (False, Some (case result_error r of None \<Rightarrow> ''Save failed'' | Some m \<Rightarrow> m))
                    else Some (True, None))))"

section \<open>What the chains accept\<close>

lemma first_error:
  "((if p then Some (Some m) else x) = Some None) \<longleftrightarrow> \<not> p \<and> x = Some None"
  "((if p then Some (bad m) else y) = Some good) \<longleftrightarrow> \<not> p \<and> y = Some good"
  by (auto simp: good_def bad_def)

lemma custom_error_None [simp]: "custom_error c = None \<longleftrightarrow> c = Accept"
  by (cases c) auto

text \<open>The constraints of a rule set without a schema on a non-empty text.\<close>

definition satisfies :: "validation_lib \<Rightarrow> jsv \<Rightarrow> validation_rule \<Rightarrow> bool" where
  "satisfies lib v r =
     (\<not> too_short (js_string v) (minLength r) \<and> \<not> too_long (js_string v) (maxLength r)
      \<and> \<not> below lib v (min_value r) \<and> \<not> above lib v (max_value r) \<and> \<not> mismatch (js_string v) (pattern r)
      \<and> (flag_on (email r) \<longrightarrow> email_shape (js_string v)) \<and> (flag_on (url r) \<longrightarrow> is_url lib (js_string v))
      \<and> run_custom v r = Some Accept)"

lemma validateValue_filled:
  assumes "string_value v \<noteq> []" "schema r = None"
  shows "validateValue lib v r = Some None
    \<longleftrightarrow> satisfies lib v r \<and> (flag_on (phone r) \<longrightarrow> phone_ok (js_string v))"
proof -
  have s: "string_value v = js_string v" using assms(1) by (auto simp: string_value_def)
  show ?thesis
    using assms unfolding validateValue_def Let_def satisfies_def s
    by (simp add: first_error) blast
qed

lemma cell_rules_filled:
  assumes "truthy v"
  shows "cell_rules lib v r = Some good \<longleftrightarrow> satisfies lib v r"
proof -
  have ne: "v \<noteq> JNull" "v \<noteq> JUndef" "v \<noteq> JStr []" using assms by auto
  have c: "(case custom_error x of None \<Rightarrow> good | Some m \<Rightarrow> bad m) = good \<longleftrightarrow> x = Accept" for x
    by (cases x) (simp_all add: good_def bad_def)
  show ?thesis
    unfolding cell_rules_def Let_def satisfies_def
    by (simp add: first_error ne assms c) blast
qed

text \<open>C29.  The form field and the inline cell editor agree: on a truthy value with a non-empty text,
  and a rule set without a schema and a phone rule, both chains accept exactly the values that
  satisfy every constraint, in whatever order they test them.\<close>

theorem validators_agree:
  assumes "truthy v" "js_string v \<noteq> []" "schema r = None" "\<not> flag_on (phone r)"
  shows "(validateValue lib v r = Some None) = (cell_validateValue lib v (Some r) None = Some good)
    \<and> (validateValue lib v r = Some None) = satisfies lib v r"
proof -
  have "string_value v \<noteq> []" using assms(1,2) by (cases v) (auto simp: string_value_def)
  then show ?thesis
    using validateValue_filled assms(3,4) cell_rules_filled [OF assms(1)]
    by (simp add: cell_validateValue_def)
qed

text \<open>The cell editor ignores phone and schema rules: its verdict is the same with and without
  them, so a value the form field rejects for its phone number or its schema is saved from a cell.\<close>

theorem cell_ignores_phone_and_schema:
  shows "cell_validateValue lib v (Some r) own
    = cell_validateValue lib v (Some (r\<lparr> phone := p, schema := s \<rparr>)) own"
proof -
  let ?r = "r\<lparr> phone := p, schema := s \<rparr>"
  have sel: "required ?r = required r" "minLength ?r = minLength r" "maxLength ?r = maxLength r"
    "min_value ?r = min_value r" "max_value ?r = max_value r" "pattern ?r = pattern r"
    "email ?r = email r" "url ?r = url r" "custom ?r = custom r"
    by simp_all
  have "cell_rules lib v ?r = cell_rules lib v r"
    by (simp only: cell_rules_def run_custom_def sel)
  then show ?thesis by (simp add: cell_validateValue_def)
qed

text \<open>An empty field passes unless it is required, whatever the other rules say.\<close>

lemma empty_value:
  "string_value v = [] \<Longrightarrow> validateValue lib v r
    = Some (if flag_on (required r) then Some (flag_message (required r) ''This field is required'') else None)"
  by (simp add: validateValue_def Let_def)

text \<open>A cell is saved only if its value passed the chain.\<close>

lemma saveValue_ok:
  assumes "saveValue lib rules own onSave v = Some (True, e)"
  shows "e = None \<and> (\<exists>res. cell_validateValue lib v rules own = Some res \<and> valid res)"
proof (cases "cell_validateValue lib v rules own")
  case None
  then show ?thesis using assms by (simp add: saveValue_def)
next
  case (Some res)
  note res = this
  have ok: "valid res" using assms by (cases "valid res") (simp_all add: saveValue_def res)
  show ?thesis
  proof (cases onSave)
    case None
    then show ?thesis using assms res ok by (simp add: saveValue_def)
  next
    case (Some save)
    then show ?thesis
      using assms res ok
      by (cases "save v"; cases "the (save v)"; cases "valid (the (the (save v)))") (simp_all add: saveValue_def)
  qed
qed

section \<open>The hook\<close>

datatype validation_mode = OnChange | OnBlur | OnSubmit | AllModes

record field_options =
  rules :: validation_rule
  mode :: validation_mode
  initialValue :: jsv
  validateOnMount :: bool

text \<open>The value, the validation state, the value held by the debounce timer, whether the current
  controller was aborted (None: there is none), and the values whose validation is running.\<close>

record field_state =
  field_value :: jsv
  isTouched :: bool
  isDirty :: bool
  error :: "string option"
  isValidating :: bool
  isValid :: bool
  debounce :: "jsv option"
  aborted :: "bool option"
  running :: "jsv list"

definition start_value :: "field_options \<Rightarrow> jsv" where
  "start_value opt = nullish_or (initialValue opt) (JStr [])"

text \<open>\<open>runValidation\<close> up to its await: the old controller is aborted and replaced.\<close>

definition run_start :: "jsv \<Rightarrow> field_state \<Rightarrow> field_state" where
  "run_start v s = s\<lparr> aborted := Some False, isValidating := True, running := running s @ [v] \<rparr>"

text \<open>The rest of \<open>runValidation\<close>, for the \<open>i\<close>-th running validation and its outcome (None:
  thrown).  It asks the controller current at that time.\<close>

definition run_finish :: "nat \<Rightarrow> string option option \<Rightarrow> field_state \<Rightarrow> bool \<times> field_state" where
  "run_finish i res s =
     (let s = s\<lparr> running := take i (running s) @ drop (Suc i) (running s) \<rparr> in
      case res of
        None \<Rightarrow> (False, s\<lparr> isValidating := False \<rparr>)
      | Some e \<Rightarrow>
          if aborted s = Some False then
            (e = None, s\<lparr> error := e, isValidating := False, isValid := (e = None) \<rparr>)
          else (False, s))"

definition field_init :: "field_options \<Rightarrow> field_state" where
  "field_init opt =
     (let s = \<lparr> field_value = start_value opt, isTouched = False, isDirty = False, error = None,
        isValidating = False, isValid = (\<not> validateOnMount opt), debounce = None, aborted = None, running = [] \<rparr> in
      if validateOnMount opt then run_start (start_value opt) s else s)"

definition handleChange :: "field_options \<Rightarrow> jsv \<Rightarrow> field_state \<Rightarrow> field_state" where
  "handleChange opt v s = s\<lparr> field_value := v, isDirty := True,
     debounce := (if mode opt = OnChange \<or> mode opt = AllModes then Some v else None) \<rparr>"

definition debounce_fires :: "field_state \<Rightarrow> field_state" where
  "debounce_fires s = (case debounce s of None \<Rightarrow> s | Some v \<Rightarrow> run_start v (s\<lparr> debounce := None \<rparr>))"

definition handleBlur :: "field_options \<Rightarrow> field_state \<Rightarrow> field_state" where
  "handleBlur opt s =
     (let s = s\<lparr> isTouched := True, debounce := None \<rparr> in
      if mode opt = OnBlur \<or> mode opt = AllModes then run_start (field_value s) s else s)"

definition validate_now :: "field_state \<Rightarrow> field_state" where
  "validate_now s = run_start (field_value s) s"

definition reset_field :: "field_options \<Rightarrow> field_state \<Rightarrow> field_state" where
  "reset_field opt s = s\<lparr> field_value := start_value opt, isTouched := False, isDirty := False, error := None,
     isValidating := False, isValid := (\<not> validateOnMount opt), debounce := None,
     aborted := map_option (\<lambda>b. True) (aborted s) \<rparr>"

definition clearError :: "field_state \<Rightarrow> field_state" where
  "clearError s = s\<lparr> error := None \<rparr>"

definition setError :: "string option \<Rightarrow> field_state \<Rightarrow> field_state" where
  "setError e s = s\<lparr> error := e, isValid := (e = None), isTouched := True \<rparr>"

definition setFieldValue :: "jsv \<Rightarrow> field_state \<Rightarrow> field_state" where
  "setFieldValue v s = s\<lparr> field_value := v \<rparr>"

text \<open>\<open>useFieldsValidation\<close>, on the states and answers of its fields.\<close>

definition all_valid :: "bool list \<Rightarrow> bool" where
  "all_valid results = list_all (\<lambda>b. b) results"

definition fields_valid :: "field_state list \<Rightarrow> bool" where
  "fields_valid fs = list_all isValid fs"

definition has_errors :: "field_state list \<Rightarrow> bool" where
  "has_errors fs = list_ex (\<lambda>f. error f \<noteq> None) fs"

datatype field_event =
    FChange jsv
  | FDebounce
  | FBlur
  | FValidate
  | FFinish nat "string option option"
  | FReset
  | FClearError
  | FSetError "string option"
  | FSetValue jsv

fun field_step :: "field_options \<Rightarrow> field_state \<Rightarrow> field_event \<Rightarrow> field_state" where
  "field_step opt s (FChange v) = handleChange opt v s"
| "field_step opt s FDebounce = debounce_fires s"
| "field_step opt s FBlur = handleBlur opt s"
| "field_step opt s FValidate = validate_now s"
| "field_step opt s (FFinish i res) = snd (run_finish i res s)"
| "field_step opt s FReset = reset_field opt s"
| "field_step opt s FClearError = clearError s"
| "field_step opt s (FSetError e) = setError e s"
| "field_step opt s (FSetValue v) = setFieldValue v s"

lemmas field_ops = handleChange_def debounce_fires_def handleBlur_def validate_now_def run_start_def
  run_finish_def reset_field_def clearError_def setError_def setFieldValue_def

text \<open>An error that is shown goes with an invalid field.\<close>

definition error_invalid :: "field_state \<Rightarrow> bool" where
  "error_invalid s = (error s \<noteq> None \<longrightarrow> \<not> isValid s)"

lemma field_step_inv: "error_invalid s \<Longrightarrow> error_invalid (field_step opt s e)"
  by (cases e) (auto simp: field_ops error_invalid_def Let_def split: option.splits)

interpretation field_machine: machine "field_step opt" error_invalid for opt
  by unfold_locales (rule field_step_inv)

lemma shown_error_invalid:
  "error_invalid (run (field_step opt) es (field_init opt))"
  by (rule field_machine.every_run_inv) (simp add: error_invalid_def field_init_def run_start_def Let_def)

text \<open>A superseded validation still takes effect: if an earlier value's validation settles
  after the later value's, its verdict replaces the later one, so the field shows the error of a
  value it no longer has.  The abort of the earlier controller is never seen, because the
  continuation asks the controller of the later validation.\<close>

theorem superseded_validation_wins:
  fixes opt :: field_options and s :: field_state and v w :: jsv
  assumes "mode opt = OnChange" "running s = []"
    and "validateValue lib v (rules opt) = Some e1" "validateValue lib w (rules opt) = Some e2"
  defines "t \<equiv> run (field_step opt)
    [FChange v, FDebounce, FChange w, FDebounce, FFinish 1 (Some e2), FFinish 0 (Some e1)] s"
  shows "field_value t = w \<and> error t = e1 \<and> isValid t = (e1 = None) \<and> running t = []"
  using assms(1,2) by (simp add: t_def field_ops Let_def)

section \<open>Instances\<close>

definition no_rules :: "validation_rule" where
  "no_rules = \<lparr> required = Off, minLength = None, maxLength = None, min_value = None, max_value = None,
     pattern = None, email = Off, url = Off, phone = Off, custom = None, schema = None \<rparr>"

definition plain_lib :: "validation_lib" where
  "plain_lib = \<lparr> is_url = (\<lambda>s. starts_with ''https://'' s), to_number = (\<lambda>v. case v of JNum n \<Rightarrow> Some n | _ \<Rightarrow> None) \<rparr>"

lemma validators_agree_witness:
  "(validateValue plain_lib (JStr ''ada@amg.example'') (no_rules\<lparr> email := On, minLength := Some (Bare 3) \<rparr>) = Some None)
   = (cell_validateValue plain_lib (JStr ''ada@amg.example'') (Some (no_rules\<lparr> email := On, minLength := Some (Bare 3) \<rparr>)) None = Some good)
   \<and> validateValue plain_lib (JStr ''ada@amg.example'') (no_rules\<lparr> email := On, minLength := Some (Bare 3) \<rparr>) = Some None"
proof -
  let ?r = "no_rules\<lparr> email := On, minLength := Some (Bare 3) \<rparr>"
  have sat: "satisfies plain_lib (JStr ''ada@amg.example'') ?r"
    by (simp add: satisfies_def no_rules_def too_short_def too_long_def below_def above_def mismatch_def
        run_custom_def email_shape_def is_space_def code_def)
  have r: "schema ?r = None" "\<not> flag_on (phone ?r)"
    by (simp_all add: no_rules_def)
  have v: "truthy (JStr ''ada@amg.example'')" "js_string (JStr ''ada@amg.example'') \<noteq> []"
    by simp_all
  from validators_agree [OF v r, of plain_lib] sat show ?thesis by blast
qed

lemma superseded_witness:
  "error (run (field_step \<lparr> rules = no_rules\<lparr> minLength := Some (Worded 2 ''Too short'') \<rparr>, mode = OnChange, initialValue = JUndef, validateOnMount = False \<rparr>)
     [FChange (JStr ''a''), FDebounce, FChange (JStr ''abc''), FDebounce, FFinish 1 (Some None),
      FFinish 0 (Some (Some ''Too short''))]
     (field_init \<lparr> rules = no_rules\<lparr> minLength := Some (Worded 2 ''Too short'') \<rparr>, mode = OnChange, initialValue = JUndef, validateOnMount = False \<rparr>))
   = Some ''Too short''"
proof -
  let ?opt = "\<lparr> rules = no_rules\<lparr> minLength := Some (Worded 2 ''Too short'') \<rparr>, mode = OnChange, initialValue = JUndef, validateOnMount = False \<rparr>"
  have "validateValue plain_lib (JStr ''a'') (rules ?opt) = Some (Some ''Too short'')"
    "validateValue plain_lib (JStr ''abc'') (rules ?opt) = Some None"
    by (simp_all add: validateValue_def string_value_def no_rules_def too_short_def too_long_def below_def
        above_def mismatch_def run_custom_def Let_def)
  from superseded_validation_wins [of ?opt "field_init ?opt", OF _ _ this]
  show ?thesis by (simp add: field_init_def Let_def)
qed

end
