(* ===== verification/TableColumns.thy ===== *)
theory TableColumns
  imports Machines
begin

text \<open>
  Per-table column customisation: the store and the hook of
  \<open>frontend/src/hooks/use-table-columns.ts\<close>.  A configuration's parts are optional because the
  store writes them one at a time.  Widths are whole pixels.
\<close>

section \<open>The store\<close>

record column_meta =
  col_id :: string
  canHide :: "bool option"
  col_required :: "bool option"
  defaultWidth :: "int option"
  minWidth :: "int option"
  maxWidth :: "int option"

record table_config =
  visibility :: "(string \<times> bool) list option"
  col_order :: "string list option"
  sizing :: "(string \<times> int) list option"

type_synonym column_store = "(string \<times> table_config) list"

definition empty_config :: "table_config" where
  "empty_config = \<lparr> visibility = None, col_order = None, sizing = None \<rparr>"

definition getConfig :: "column_store \<Rightarrow> string \<Rightarrow> table_config option" where
  "getConfig s tid = map_of s tid"

text \<open>\<open>...prev.configs[tableId]\<close>\<close>

definition config_of :: "column_store \<Rightarrow> string \<Rightarrow> table_config" where
  "config_of s tid = (case getConfig s tid of None \<Rightarrow> empty_config | Some c \<Rightarrow> c)"

definition setVisibility :: "string \<Rightarrow> (string \<times> bool) list \<Rightarrow> column_store \<Rightarrow> column_store" where
  "setVisibility tid v s = AList.update tid ((config_of s tid)\<lparr> visibility := Some v \<rparr>) s"

definition setOrder :: "string \<Rightarrow> string list \<Rightarrow> column_store \<Rightarrow> column_store" where
  "setOrder tid ord s = AList.update tid ((config_of s tid)\<lparr> col_order := Some ord \<rparr>) s"

definition setSizing :: "string \<Rightarrow> (string \<times> int) list \<Rightarrow> column_store \<Rightarrow> column_store" where
  "setSizing tid w s = AList.update tid ((config_of s tid)\<lparr> sizing := Some w \<rparr>) s"

definition resetConfig :: "string \<Rightarrow> column_store \<Rightarrow> column_store" where
  "resetConfig tid s = AList.delete tid s"

definition resetAll :: "column_store \<Rightarrow> column_store" where
  "resetAll s = []"

section \<open>The hook\<close>

record columns_options =
  tableId :: string
  columns :: "column_meta list"
  defaultOrder :: "string list option"

definition columnVisibility :: "columns_options \<Rightarrow> column_store \<Rightarrow> (string \<times> bool) list" where
  "columnVisibility opt s = (case visibility (config_of s (tableId opt)) of None \<Rightarrow> [] | Some v \<Rightarrow> v)"

definition columnOrder :: "columns_options \<Rightarrow> column_store \<Rightarrow> string list" where
  "columnOrder opt s =
     (case col_order (config_of s (tableId opt)) of
        Some ord \<Rightarrow> ord
      | None \<Rightarrow> (case defaultOrder opt of Some ord \<Rightarrow> ord | None \<Rightarrow> map col_id (columns opt)))"

definition columnSizing :: "columns_options \<Rightarrow> column_store \<Rightarrow> (string \<times> int) list" where
  "columnSizing opt s = (case sizing (config_of s (tableId opt)) of None \<Rightarrow> [] | Some w \<Rightarrow> w)"

definition find_column :: "columns_options \<Rightarrow> string \<Rightarrow> column_meta option" where
  "find_column opt c = List.find (\<lambda>m. col_id m = c) (columns opt)"

text \<open>The mount effect: default widths, while no width is stored.\<close>

definition default_sizes :: "column_meta list \<Rightarrow> (string \<times> int) list" where
  "default_sizes cols =
     fold (\<lambda>c m. case defaultWidth c of None \<Rightarrow> m | Some w \<Rightarrow> AList.update (col_id c) w m) cols []"

definition init_sizes :: "columns_options \<Rightarrow> column_store \<Rightarrow> column_store" where
  "init_sizes opt s =
     (if list_ex (\<lambda>c. defaultWidth c \<noteq> None) (columns opt) \<and> columnSizing opt s = []
         \<and> default_sizes (columns opt) \<noteq> []
      then setSizing (tableId opt) (default_sizes (columns opt)) s else s)"

definition showColumn :: "columns_options \<Rightarrow> string \<Rightarrow> column_store \<Rightarrow> column_store" where
  "showColumn opt c s = setVisibility (tableId opt) (AList.update c True (columnVisibility opt s)) s"

definition hideColumn :: "columns_options \<Rightarrow> string \<Rightarrow> column_store \<Rightarrow> column_store" where
  "hideColumn opt c s = setVisibility (tableId opt) (AList.update c False (columnVisibility opt s)) s"

definition is_visible :: "columns_options \<Rightarrow> column_store \<Rightarrow> string \<Rightarrow> bool" where
  "is_visible opt s c = (map_of (columnVisibility opt s) c \<noteq> Some False)"

definition toggleColumn :: "columns_options \<Rightarrow> string \<Rightarrow> column_store \<Rightarrow> column_store" where
  "toggleColumn opt c s = (if is_visible opt s c then hideColumn opt c s else showColumn opt c s)"

text \<open>\<open>getConstrainedSize\<close>, and the same clamping in \<open>setColumnWidth\<close>, which tests the requested
  width both times.\<close>

definition getConstrainedSize :: "int \<Rightarrow> column_meta option \<Rightarrow> int" where
  "getConstrainedSize w meta =
     (case meta of None \<Rightarrow> w
      | Some m \<Rightarrow>
          (let r = (case minWidth m of Some lo \<Rightarrow> if w < lo then lo else w | None \<Rightarrow> w) in
           case maxWidth m of Some hi \<Rightarrow> if r > hi then hi else r | None \<Rightarrow> r))"

definition constrained_width :: "int \<Rightarrow> column_meta option \<Rightarrow> int" where
  "constrained_width w meta =
     (case meta of None \<Rightarrow> w
      | Some m \<Rightarrow>
          (let r = (case minWidth m of Some lo \<Rightarrow> if w < lo then lo else w | None \<Rightarrow> w) in
           case maxWidth m of Some hi \<Rightarrow> if w > hi then hi else r | None \<Rightarrow> r))"

definition setColumnWidth :: "columns_options \<Rightarrow> string \<Rightarrow> int \<Rightarrow> column_store \<Rightarrow> column_store" where
  "setColumnWidth opt c w s = setSizing (tableId opt)
     (AList.update c (constrained_width w (find_column opt c)) (columnSizing opt s)) s"

definition resetColumnWidth :: "columns_options \<Rightarrow> string \<Rightarrow> column_store \<Rightarrow> column_store" where
  "resetColumnWidth opt c s =
     (let w = AList.delete c (columnSizing opt s) in
      setSizing (tableId opt)
        (case find_column opt c of None \<Rightarrow> w
         | Some m \<Rightarrow> (case defaultWidth m of None \<Rightarrow> w | Some d \<Rightarrow> AList.update c d w)) s)"

datatype column_op =
    CVisibility "(string \<times> bool) list"
  | COrder "string list"
  | CSizing "(string \<times> int) list"
  | CReset
  | CInit
  | CShow string
  | CHide string
  | CToggle string
  | CWidth string int
  | CResetWidth string

text \<open>An operation of the hook mounted for a table, given each table's columns and default order.\<close>

fun column_act ::
    "(string \<Rightarrow> column_meta list \<times> string list option) \<Rightarrow> string \<Rightarrow> column_op \<Rightarrow> column_store \<Rightarrow> column_store" where
  "column_act env tid e s =
     (let opt = \<lparr> tableId = tid, columns = fst (env tid), defaultOrder = snd (env tid) \<rparr> in
      case e of
        CVisibility v \<Rightarrow> setVisibility tid v s
      | COrder ord \<Rightarrow> setOrder tid ord s
      | CSizing w \<Rightarrow> setSizing tid w s
      | CReset \<Rightarrow> resetConfig tid s
      | CInit \<Rightarrow> init_sizes opt s
      | CShow c \<Rightarrow> showColumn opt c s
      | CHide c \<Rightarrow> hideColumn opt c s
      | CToggle c \<Rightarrow> toggleColumn opt c s
      | CWidth c w \<Rightarrow> setColumnWidth opt c w s
      | CResetWidth c \<Rightarrow> resetColumnWidth opt c s)"

lemmas column_ops = setVisibility_def setOrder_def setSizing_def resetConfig_def init_sizes_def
  showColumn_def hideColumn_def toggleColumn_def setColumnWidth_def resetColumnWidth_def

lemma getConfig_simps [simp]:
  "getConfig (AList.update k c s) j = (if j = k then Some c else getConfig s j)"
  "getConfig (AList.delete k s) j = (if j = k then None else getConfig s j)"
  by (simp_all add: getConfig_def update_conv' delete_conv')

interpretation table_store: keyed_store getConfig "column_act env" for env
proof (unfold_locales, goal_cases)
  case (1 j k e s)
  then show ?case by (cases e) (simp_all add: column_ops Let_def)
next
  case (2 s k t e)
  then show ?case
    by (cases e) (simp_all add: column_ops config_of_def columnVisibility_def columnSizing_def is_visible_def Let_def
        cong: option.case_cong)
qed

text \<open>Tables do not interfere: after any interleaving of operations on any tables, the
  configuration of a table is what its own operations alone, in their order, would have left.\<close>

theorem tables_independent:
  shows "getConfig (run (\<lambda>s (tid, e). column_act env tid e s) es s) tid
    = getConfig (run (\<lambda>s (tid, e). column_act env tid e s) (filter (\<lambda>te. fst te = tid) es) s) tid"
  by (rule table_store.run_projects)

text \<open>Widths respect the column's limits: for a column with a minimum not above its maximum,
  the stored width is between them, it is the requested width when that is allowed, and it equals
  \<open>getConstrainedSize\<close>; the other columns keep their widths.\<close>

theorem column_width_clamped:
  fixes w :: int and s :: column_store
  assumes "find_column opt c = Some m" "minWidth m = Some lo" "maxWidth m = Some hi" "lo \<le> hi"
  defines "w' \<equiv> map_of (columnSizing opt (setColumnWidth opt c w s))"
  shows "w' c = Some (getConstrainedSize w (Some m))
    \<and> lo \<le> getConstrainedSize w (Some m) \<and> getConstrainedSize w (Some m) \<le> hi
    \<and> (lo \<le> w \<and> w \<le> hi \<longrightarrow> w' c = Some w)
    \<and> (\<forall>d. d \<noteq> c \<longrightarrow> w' d = map_of (columnSizing opt s) d)"
proof -
  have cfg: "sizing (config_of (setColumnWidth opt c w s) (tableId opt))
      = Some (AList.update c (constrained_width w (Some m)) (columnSizing opt s))"
    by (simp add: setColumnWidth_def setSizing_def config_of_def assms(1))
  have "constrained_width w (Some m) = getConstrainedSize w (Some m)"
    using assms(2-4) by (auto simp: constrained_width_def getConstrainedSize_def)
  then show ?thesis
    using assms(2-4) unfolding w'_def columnSizing_def [of opt "setColumnWidth opt c w s"] cfg
    by (auto simp: update_conv' getConstrainedSize_def)
qed

lemma toggle_flips: "is_visible opt (toggleColumn opt c s) c \<longleftrightarrow> \<not> is_visible opt s c"
  by (auto simp: toggleColumn_def is_visible_def columnVisibility_def hideColumn_def showColumn_def
      setVisibility_def config_of_def update_conv')

text \<open>Hiding does not look at \<open>required\<close> or \<open>canHide\<close>.\<close>

lemma required_column_hidden:
  "find_column opt c = Some m \<Longrightarrow> col_required m = Some True \<Longrightarrow> \<not> is_visible opt (hideColumn opt c s) c"
  by (simp add: hideColumn_def is_visible_def columnVisibility_def setVisibility_def config_of_def update_conv')

definition name_column :: "column_meta" where
  "name_column = \<lparr> col_id = ''name'', canHide = None, col_required = Some True, defaultWidth = Some 200,
     minWidth = Some 80, maxWidth = Some 400 \<rparr>"

lemma column_width_witness:
  "map_of (columnSizing \<lparr> tableId = ''clients'', columns = [name_column], defaultOrder = None \<rparr>
     (setColumnWidth \<lparr> tableId = ''clients'', columns = [name_column], defaultOrder = None \<rparr> ''name'' 20 [])) ''name'' = Some 80"
  using column_width_clamped [of "\<lparr> tableId = ''clients'', columns = [name_column], defaultOrder = None \<rparr>" "''name''"
      name_column 80 400 20 "[]"]
  by (simp add: find_column_def name_column_def getConstrainedSize_def)

end
