(* ===== verification/DeepLinks.thy ===== *)
theory DeepLinks
  imports JsPrelude
begin

text \<open>
  Deep links of the mobile app, \<open>mobile/utils/deepLinks.ts\<close>: parsing, generation, conversion of
  web paths and of entity references.
\<close>

datatype link_type = Programs | Messages | Decisions | Unknown

record parsed_link =
  link_type :: link_type
  link_id :: string
  isValid :: bool
  link_route :: "string option"

definition DEEP_LINK_SCHEME :: "string" where
  "DEEP_LINK_SCHEME = ''amgportal://''"

fun type_text :: "link_type \<Rightarrow> string" where
  "type_text Programs = ''programs''"
| "type_text Messages = ''messages''"
| "type_text Decisions = ''decisions''"
| "type_text Unknown = ''unknown''"

definition parse_type :: "string \<Rightarrow> link_type" where
  "parse_type t = (if t = ''programs'' then Programs else if t = ''messages'' then Messages
     else if t = ''decisions'' then Decisions else Unknown)"

fun DEEP_LINK_ROUTES :: "link_type \<Rightarrow> string \<Rightarrow> string option" where
  "DEEP_LINK_ROUTES Programs i = Some (''/(client)/programs/'' @ i)"
| "DEEP_LINK_ROUTES Messages i = Some (''/(client)/messages?conversationId='' @ i)"
| "DEEP_LINK_ROUTES Decisions i = Some (''/(client)/decisions/'' @ i)"
| "DEEP_LINK_ROUTES Unknown i = None"

definition invalid_link :: "parsed_link" where
  "invalid_link = \<lparr> link_type = Unknown, link_id = [], isValid = False, link_route = None \<rparr>"

definition strip_prefix :: "string \<Rightarrow> string" where
  "strip_prefix u =
     (if starts_with DEEP_LINK_SCHEME u then drop (length DEEP_LINK_SCHEME) u
      else if starts_with ''/'' u then drop 1 u else u)"

definition parseDeepLink :: "string \<Rightarrow> parsed_link" where
  "parseDeepLink u =
     (if u = [] then invalid_link
      else case filter (\<lambda>w. w \<noteq> []) (split_on (CHR ''/'') (strip_prefix u)) of
        t # i # rest \<Rightarrow>
          if parse_type t = Unknown then invalid_link
          else if i = [] then \<lparr> link_type = parse_type t, link_id = [], isValid = False, link_route = None \<rparr>
          else \<lparr> link_type = parse_type t, link_id = i, isValid = True,
                 link_route = DEEP_LINK_ROUTES (parse_type t) i \<rparr>
      | _ \<Rightarrow> invalid_link)"

definition generateDeepLink :: "link_type \<Rightarrow> string \<Rightarrow> string" where
  "generateDeepLink t i =
     (if t = Unknown \<or> i = [] then [] else DEEP_LINK_SCHEME @ type_text t @ ''/'' @ i)"

definition webUrlToDeepLink :: "string option \<Rightarrow> string" where
  "webUrlToDeepLink a =
     (case a of None \<Rightarrow> []
      | Some u \<Rightarrow>
          if u = [] then []
          else if starts_with DEEP_LINK_SCHEME u then u
          else if isValid (parseDeepLink u)
            then generateDeepLink (link_type (parseDeepLink u)) (link_id (parseDeepLink u))
          else [])"

definition getRouteFromDeepLink :: "string \<Rightarrow> string option" where
  "getRouteFromDeepLink u =
     (case link_route (parseDeepLink u) of Some r \<Rightarrow> if r = [] then None else Some r | None \<Rightarrow> None)"

definition ENTITY_TYPE_MAP :: "(string \<times> link_type) list" where
  "ENTITY_TYPE_MAP = [(''program'', Programs), (''programs'', Programs), (''message'', Messages),
     (''messages'', Messages), (''conversation'', Messages), (''conversations'', Messages),
     (''decision'', Decisions), (''decisions'', Decisions)]"

definition getDeepLinkTypeFromEntity :: "string option \<Rightarrow> link_type" where
  "getDeepLinkTypeFromEntity e =
     (case e of None \<Rightarrow> Unknown
      | Some t \<Rightarrow> if t = [] then Unknown
          else (case map_of ENTITY_TYPE_MAP (lower t) of None \<Rightarrow> Unknown | Some l \<Rightarrow> l))"

definition createDeepLinkFromEntity :: "string option \<Rightarrow> string option \<Rightarrow> string" where
  "createDeepLinkFromEntity e i =
     (if e = None \<or> e = Some [] \<or> i = None \<or> i = Some [] then []
      else if getDeepLinkTypeFromEntity e = Unknown then []
      else generateDeepLink (getDeepLinkTypeFromEntity e) (the i))"

section \<open>Round trips\<close>

lemma parse_type_text [simp]: "t \<noteq> Unknown \<Longrightarrow> parse_type (type_text t) = t"
  by (cases t) (auto simp: parse_type_def)

lemma type_text_plain: "list_all (\<lambda>c. c \<noteq> CHR ''/'') (type_text t) \<and> type_text t \<noteq> []"
  by (cases t) auto

lemma strip_generated: "strip_prefix (DEEP_LINK_SCHEME @ s) = s"
  by (simp add: strip_prefix_def starts_with_def)

lemma split_type_id:
  assumes "CHR ''/'' \<notin> set i" "i \<noteq> []"
  shows "filter (\<lambda>w. w \<noteq> []) (split_on (CHR ''/'') (type_text t @ ''/'' @ i)) = [type_text t, i]"
proof -
  have "list_all (\<lambda>x. x \<noteq> CHR ''/'') i" using assms(1) by (auto simp: list_all_iff)
  then show ?thesis
    using split_on_plain(1) [of "CHR ''/''" "type_text t" i] split_on_plain(2) [of "CHR ''/''" i]
      type_text_plain [of t] assms(2) by simp
qed

lemma parse_generated:
  assumes "t \<noteq> Unknown" "i \<noteq> []" "CHR ''/'' \<notin> set i"
  shows "parseDeepLink (generateDeepLink t i)
    = \<lparr> link_type = t, link_id = i, isValid = True, link_route = DEEP_LINK_ROUTES t i \<rparr>"
proof -
  have gen: "generateDeepLink t i = DEEP_LINK_SCHEME @ type_text t @ ''/'' @ i"
    using assms(1,2) by (simp add: generateDeepLink_def)
  have sch: "DEEP_LINK_SCHEME \<noteq> []" by (simp add: DEEP_LINK_SCHEME_def)
  show ?thesis
    unfolding parseDeepLink_def gen strip_generated split_type_id [OF assms(3,2)]
    using assms(1,2) sch by simp
qed

lemma parse_web_path:
  assumes "t \<noteq> Unknown" "i \<noteq> []" "CHR ''/'' \<notin> set i"
  shows "parseDeepLink (''/'' @ type_text t @ ''/'' @ i)
    = \<lparr> link_type = t, link_id = i, isValid = True, link_route = DEEP_LINK_ROUTES t i \<rparr>"
proof -
  have web: "strip_prefix (''/'' @ type_text t @ ''/'' @ i) = type_text t @ ''/'' @ i"
    by (simp add: strip_prefix_def starts_with_def DEEP_LINK_SCHEME_def)
  show ?thesis
    unfolding parseDeepLink_def web split_type_id [OF assms(3,2)] using assms(1,2) by simp
qed

lemma web_path_route:
  assumes "t \<noteq> Unknown" "i \<noteq> []" "CHR ''/'' \<notin> set i"
  shows "getRouteFromDeepLink (''/'' @ type_text t @ ''/'' @ i) = DEEP_LINK_ROUTES t i"
  unfolding getRouteFromDeepLink_def parse_web_path [OF assms] using assms(1) by (cases t) simp_all

text \<open>Deep link round trip: parsing the link generated for a known type and an id without a
  slash gives the type, the id and the type's screen; so do the web path of the same object and
  the path converted to a deep link.\<close>

theorem deep_link_roundtrip:
  assumes "t \<noteq> Unknown" "i \<noteq> []" "CHR ''/'' \<notin> set i"
  shows "parseDeepLink (generateDeepLink t i)
      = \<lparr> link_type = t, link_id = i, isValid = True, link_route = DEEP_LINK_ROUTES t i \<rparr>
    \<and> parseDeepLink (''/'' @ type_text t @ ''/'' @ i) = parseDeepLink (generateDeepLink t i)
    \<and> webUrlToDeepLink (Some (''/'' @ type_text t @ ''/'' @ i)) = generateDeepLink t i"
proof -
  let ?p = "\<lparr> link_type = t, link_id = i, isValid = True, link_route = DEEP_LINK_ROUTES t i \<rparr>"
  have 1: "parseDeepLink (generateDeepLink t i) = ?p" by (rule parse_generated [OF assms])
  have 2: "parseDeepLink (''/'' @ type_text t @ ''/'' @ i) = ?p" by (rule parse_web_path [OF assms])
  have "\<not> starts_with DEEP_LINK_SCHEME (''/'' @ type_text t @ ''/'' @ i)"
    by (simp add: starts_with_def DEEP_LINK_SCHEME_def)
  then have "webUrlToDeepLink (Some (''/'' @ type_text t @ ''/'' @ i)) = generateDeepLink t i"
    using 2 by (simp add: webUrlToDeepLink_def)
  then show ?thesis using 1 2 by simp
qed

text \<open>A link that parses as valid names a known type and a non-empty id without a slash, and has a
  screen, so regenerating and parsing it again changes nothing.\<close>

lemma parse_valid:
  assumes "isValid (parseDeepLink u)"
  shows "link_type (parseDeepLink u) \<noteq> Unknown \<and> link_id (parseDeepLink u) \<noteq> []
    \<and> CHR ''/'' \<notin> set (link_id (parseDeepLink u))
    \<and> link_route (parseDeepLink u) = DEEP_LINK_ROUTES (link_type (parseDeepLink u)) (link_id (parseDeepLink u))"
proof -
  let ?ws = "filter (\<lambda>w. w \<noteq> []) (split_on (CHR ''/'') (strip_prefix u))"
  obtain t i rest where ws: "?ws = t # i # rest"
    using assms by (cases ?ws; cases "tl ?ws") (auto simp: parseDeepLink_def invalid_link_def split: if_splits)
  have "i \<in> set ?ws" unfolding ws by simp
  then have "CHR ''/'' \<notin> set i" using split_on_parts by auto
  then show ?thesis
    using assms unfolding parseDeepLink_def ws by (auto simp: invalid_link_def split: if_splits)
qed

text \<open>Parsing is stable: a link that parses as valid, regenerated from what was parsed, parses
  to the same result; links built from an entity reference are empty or valid.\<close>

theorem parse_regenerate_stable:
  shows "(isValid (parseDeepLink u) \<longrightarrow>
      parseDeepLink (generateDeepLink (link_type (parseDeepLink u)) (link_id (parseDeepLink u))) = parseDeepLink u)
    \<and> (CHR ''/'' \<notin> set i \<longrightarrow>
      createDeepLinkFromEntity (Some e) (Some i) = []
        \<or> isValid (parseDeepLink (createDeepLinkFromEntity (Some e) (Some i))))"
proof (intro conjI impI)
  assume v: "isValid (parseDeepLink u)"
  note p = parse_valid [OF v]
  show "parseDeepLink (generateDeepLink (link_type (parseDeepLink u)) (link_id (parseDeepLink u))) = parseDeepLink u"
    using deep_link_roundtrip [of "link_type (parseDeepLink u)" "link_id (parseDeepLink u)"] p v
    by simp
next
  assume i: "CHR ''/'' \<notin> set i"
  show "createDeepLinkFromEntity (Some e) (Some i) = []
      \<or> isValid (parseDeepLink (createDeepLinkFromEntity (Some e) (Some i)))"
    using deep_link_roundtrip [of "getDeepLinkTypeFromEntity (Some e)" i] i
    by (auto simp: createDeepLinkFromEntity_def)
qed

lemma deep_link_roundtrip_witness:
  "webUrlToDeepLink (Some (''/'' @ type_text Programs @ ''/'' @ ''42'')) = ''amgportal://programs/42''"
  using deep_link_roundtrip [of Programs "''42''"] by (simp add: generateDeepLink_def DEEP_LINK_SCHEME_def)

lemma parse_regenerate_witness:
  "isValid (parseDeepLink ''/decisions/9/edit'')
   \<and> parseDeepLink (generateDeepLink (link_type (parseDeepLink ''/decisions/9/edit'')) (link_id (parseDeepLink ''/decisions/9/edit'')))
     = parseDeepLink ''/decisions/9/edit''"
proof -
  have "isValid (parseDeepLink ''/decisions/9/edit'')"
    by (simp add: parseDeepLink_def strip_prefix_def DEEP_LINK_SCHEME_def starts_with_def parse_type_def)
  then show ?thesis using parse_regenerate_stable [of "''/decisions/9/edit''" "[]" "[]"] by simp
qed

end
