(* ===== verification/AutoSave.thy ===== *)
theory AutoSave
  imports Machines Storage
begin

text \<open>
  Form auto-save with draft recovery: \<open>frontend/src/hooks/use-auto-save.ts\<close> and its debounce
  hook \<open>use-auto-save-debounce.ts\<close>.  Timers, the promise of \<open>onSave\<close>, the form library's
  subscription and the window's blur are events; what \<open>onSave\<close> answers is part of the event
  that settles it.  The drafts live in \<open>localStorage\<close>, whose failing calls are a parameter.
\<close>

section \<open>useAutoSave\<close>

datatype autosave_status = Idle | Saving | Saved | SaveError | Unsaved

record autosave_options =
  formId :: string
  initialData :: "jsv option"
  hasOnSave :: bool
  enablePeriodicSave :: bool
  persistToLocalStorage :: bool
  saveOnBlur :: bool

text \<open>\<open>inFlight\<close> are the saves whose \<open>onSave\<close> has not settled, \<open>ticking\<close> whether the periodic
  interval is installed, \<open>notified\<close> the calls of \<open>onStatusChange\<close>.\<close>

record autosave =
  save_status :: autosave_status
  lastSaved :: "int option"
  hasUnsavedChanges :: bool
  currentData :: "jsv option"
  isSubmitted :: bool
  idleTimer :: bool
  debounced :: "jsv option"
  inFlight :: "jsv list"
  ticking :: bool
  notified :: "autosave_status list"
  drafts :: storage

definition draft_storage_key :: "autosave_options \<Rightarrow> string" where
  "draft_storage_key opt = ''amg-draft-'' @ formId opt"

definition has_data :: "jsv option \<Rightarrow> bool" where
  "has_data d = (case d of None \<Rightarrow> False | Some v \<Rightarrow> truthy v)"

definition autosave_init :: "autosave_options \<Rightarrow> storage \<Rightarrow> autosave" where
  "autosave_init opt st = \<lparr> save_status = Idle, lastSaved = None, hasUnsavedChanges = False,
     currentData = initialData opt, isSubmitted = False, idleTimer = False, debounced = None,
     inFlight = [], ticking = (enablePeriodicSave opt \<and> has_data (initialData opt)),
     notified = [], drafts = st \<rparr>"

definition updateStatus :: "autosave_status \<Rightarrow> autosave \<Rightarrow> autosave" where
  "updateStatus st s = s\<lparr> save_status := st, notified := notified s @ [st] \<rparr>"

text \<open>The draft, or \<open>null\<close>.\<close>

definition getDraft :: "(storage_call \<Rightarrow> bool) \<Rightarrow> autosave_options \<Rightarrow> autosave \<Rightarrow> jsv" where
  "getDraft fails opt s =
     (if fails (GetItem (draft_storage_key opt)) then JNull
      else case get_item (drafts s) (draft_storage_key opt) of
        None \<Rightarrow> JNull
      | Some raw \<Rightarrow>
          if \<not> cell_truthy (Some raw) then JNull
          else (case parse_cell raw of None \<Rightarrow> JNull | Some draft \<Rightarrow> draft))"

definition hasDraft :: "(storage_call \<Rightarrow> bool) \<Rightarrow> autosave_options \<Rightarrow> autosave \<Rightarrow> bool" where
  "hasDraft fails opt s = (getDraft fails opt s \<noteq> JNull)"

definition restoreDraft :: "(storage_call \<Rightarrow> bool) \<Rightarrow> autosave_options \<Rightarrow> autosave \<Rightarrow> jsv" where
  "restoreDraft fails opt s =
     (case member (getDraft fails opt s) ''data'' of None \<Rightarrow> JNull | Some d \<Rightarrow> nullish_or d JNull)"

definition clearDraft :: "(storage_call \<Rightarrow> bool) \<Rightarrow> autosave_options \<Rightarrow> autosave \<Rightarrow> autosave" where
  "clearDraft fails opt s =
     (if fails (RemoveItem (draft_storage_key opt)) then s
      else s\<lparr> drafts := remove_item (draft_storage_key opt) (drafts s) \<rparr>)"

definition draft_data :: "autosave_options \<Rightarrow> int \<Rightarrow> jsv \<Rightarrow> jsv" where
  "draft_data opt now d = JObj [(''data'', d), (''timestamp'', JNum now), (''formId'', JStr (formId opt))]"

definition saveToLocalStorage ::
    "(storage_call \<Rightarrow> bool) \<Rightarrow> autosave_options \<Rightarrow> int \<Rightarrow> jsv \<Rightarrow> autosave \<Rightarrow> autosave" where
  "saveToLocalStorage fails opt now d s =
     (if \<not> persistToLocalStorage opt \<or> fails (SetItem (draft_storage_key opt)) then s
      else s\<lparr> drafts := set_item (draft_storage_key opt) (draft_data opt now d) (drafts s) \<rparr>)"

text \<open>\<open>save\<close> up to the \<open>await\<close>, its successful end, and the end after \<open>onSave\<close> settled.\<close>

definition save_succeeds :: "int \<Rightarrow> autosave \<Rightarrow> autosave" where
  "save_succeeds now s =
     (updateStatus Saved (s\<lparr> lastSaved := Some now \<rparr>))\<lparr> hasUnsavedChanges := False, idleTimer := True \<rparr>"

definition save ::
    "(storage_call \<Rightarrow> bool) \<Rightarrow> autosave_options \<Rightarrow> int \<Rightarrow> jsv \<Rightarrow> autosave \<Rightarrow> autosave" where
  "save fails opt now d s =
     (if isSubmitted s then s
      else
        (let s = saveToLocalStorage fails opt now d (updateStatus Saving (s\<lparr> currentData := Some d \<rparr>)) in
         if hasOnSave opt then s\<lparr> inFlight := inFlight s @ [d] \<rparr> else save_succeeds now s))"

datatype save_result = SaveTrue | SaveFalse | SaveThrew

definition save_settles :: "nat \<Rightarrow> save_result \<Rightarrow> int \<Rightarrow> autosave \<Rightarrow> autosave" where
  "save_settles i res now s =
     (if i < length (inFlight s) then
        (let s = s\<lparr> inFlight := take i (inFlight s) @ drop (Suc i) (inFlight s) \<rparr> in
         case res of
           SaveTrue \<Rightarrow> save_succeeds now s
         | SaveFalse \<Rightarrow> updateStatus SaveError s
         | SaveThrew \<Rightarrow> updateStatus SaveError s)
      else s)"

definition idle_fires :: "autosave \<Rightarrow> autosave" where
  "idle_fires s = (if idleTimer s then updateStatus Idle (s\<lparr> idleTimer := False \<rparr>) else s)"

definition markSubmitted :: "(storage_call \<Rightarrow> bool) \<Rightarrow> autosave_options \<Rightarrow> autosave \<Rightarrow> autosave" where
  "markSubmitted fails opt s =
     updateStatus Idle ((clearDraft fails opt (s\<lparr> isSubmitted := True \<rparr>))\<lparr> hasUnsavedChanges := False \<rparr>)"

definition resetChanges :: "autosave \<Rightarrow> autosave" where
  "resetChanges s = updateStatus Idle (s\<lparr> hasUnsavedChanges := False \<rparr>)"

text \<open>The debounce hook: a new value replaces the pending one, the timer hands it to \<open>save\<close>.\<close>

definition debouncedSave :: "jsv \<Rightarrow> autosave \<Rightarrow> autosave" where
  "debouncedSave d s = s\<lparr> debounced := Some d \<rparr>"

definition cancelDebounce :: "autosave \<Rightarrow> autosave" where
  "cancelDebounce s = s\<lparr> debounced := None \<rparr>"

definition debounce_fires ::
    "(storage_call \<Rightarrow> bool) \<Rightarrow> autosave_options \<Rightarrow> int \<Rightarrow> autosave \<Rightarrow> autosave" where
  "debounce_fires fails opt now s =
     (case debounced s of None \<Rightarrow> s | Some d \<Rightarrow> save fails opt now d (cancelDebounce s))"

text \<open>The periodic effect: installed on mount and whenever \<open>hasUnsavedChanges\<close> changes, for a
  form that has data at that moment.\<close>

definition reinstall :: "autosave_options \<Rightarrow> autosave \<Rightarrow> autosave \<Rightarrow> autosave" where
  "reinstall opt before s =
     (if hasUnsavedChanges s = hasUnsavedChanges before then s
      else s\<lparr> ticking := (enablePeriodicSave opt \<and> has_data (currentData s)) \<rparr>)"

definition interval_fires ::
    "(storage_call \<Rightarrow> bool) \<Rightarrow> autosave_options \<Rightarrow> int \<Rightarrow> autosave \<Rightarrow> autosave" where
  "interval_fires fails opt now s =
     (if ticking s \<and> has_data (currentData s) \<and> hasUnsavedChanges s
      then save fails opt now (the (currentData s)) s else s)"

section \<open>useAutoSaveWithForm\<close>

definition window_blur ::
    "(storage_call \<Rightarrow> bool) \<Rightarrow> autosave_options \<Rightarrow> int \<Rightarrow> jsv \<Rightarrow> autosave \<Rightarrow> autosave" where
  "window_blur fails opt now values s = (if saveOnBlur opt then save fails opt now values s else s)"

definition handleSubmit :: "(storage_call \<Rightarrow> bool) \<Rightarrow> autosave_options \<Rightarrow> autosave \<Rightarrow> autosave" where
  "handleSubmit fails opt s = markSubmitted fails opt s"

text \<open>\<open>useUnsavedChangesWarning\<close>: whether leaving the page asks for confirmation.\<close>

definition before_unload :: "bool \<Rightarrow> string \<Rightarrow> string option" where
  "before_unload unsaved message = (if unsaved then Some message else None)"

datatype autosave_event =
    AChange jsv
  | ADebounce int
  | ABlur int jsv
  | ATick int
  | ASave int jsv
  | ASettle nat save_result int
  | AIdle
  | ASubmit
  | AClear
  | AReset

fun autosave_handle ::
    "(storage_call \<Rightarrow> bool) \<Rightarrow> autosave_options \<Rightarrow> autosave \<Rightarrow> autosave_event \<Rightarrow> autosave" where
  "autosave_handle fails opt s (AChange d) = debouncedSave d s"
| "autosave_handle fails opt s (ADebounce now) = debounce_fires fails opt now s"
| "autosave_handle fails opt s (ABlur now d) = window_blur fails opt now d s"
| "autosave_handle fails opt s (ATick now) = interval_fires fails opt now s"
| "autosave_handle fails opt s (ASave now d) = save fails opt now d s"
| "autosave_handle fails opt s (ASettle i res now) = save_settles i res now s"
| "autosave_handle fails opt s AIdle = idle_fires s"
| "autosave_handle fails opt s ASubmit = handleSubmit fails opt s"
| "autosave_handle fails opt s AClear = clearDraft fails opt s"
| "autosave_handle fails opt s AReset = resetChanges s"

definition autosave_step ::
    "(storage_call \<Rightarrow> bool) \<Rightarrow> autosave_options \<Rightarrow> autosave \<Rightarrow> autosave_event \<Rightarrow> autosave" where
  "autosave_step fails opt s e = reinstall opt s (autosave_handle fails opt s e)"

lemmas autosave_ops = debounce_fires_def debouncedSave_def cancelDebounce_def window_blur_def
  interval_fires_def save_def save_succeeds_def saveToLocalStorage_def save_settles_def
  idle_fires_def handleSubmit_def markSubmitted_def resetChanges_def clearDraft_def updateStatus_def

section \<open>useAutoSaveOnBlur\<close>

text \<open>The tracking hook: \<open>lastSavedData\<close> is the text of the data whose save ended last; a save
  handed over by the debounce timer is tracked when it ends, whatever its end was.\<close>

record blur_tracker =
  trackedData :: "jsv option"
  lastSavedData :: string
  trackDebounce :: "jsv option"
  tracking :: "jsv list"

definition tracker_init :: "jsv option \<Rightarrow> blur_tracker" where
  "tracker_init d = \<lparr> trackedData = d,
     lastSavedData = stringify (json_norm (case d of None \<Rightarrow> JObj [] | Some v \<Rightarrow> nullish_or v (JObj []))),
     trackDebounce = None, tracking = [] \<rparr>"

text \<open>The form changed: the answer is the argument of \<open>onUnsavedChangesChange\<close>.\<close>

definition watched :: "jsv \<Rightarrow> blur_tracker \<Rightarrow> bool \<times> blur_tracker" where
  "watched d t = (stringify (json_norm d) \<noteq> lastSavedData t, t\<lparr> trackedData := Some d \<rparr>)"

definition handleBlur :: "blur_tracker \<Rightarrow> blur_tracker" where
  "handleBlur t = (if has_data (trackedData t) then t\<lparr> trackDebounce := trackedData t \<rparr> else t)"

text \<open>\<open>saveAndTrack\<close> calls \<open>save\<close>, whose promise resolves (it never rejects), then records.\<close>

definition saveAndTrack_starts ::
    "(storage_call \<Rightarrow> bool) \<Rightarrow> autosave_options \<Rightarrow> int \<Rightarrow> blur_tracker \<times> autosave \<Rightarrow> blur_tracker \<times> autosave" where
  "saveAndTrack_starts fails opt now ts =
     (case trackDebounce (fst ts) of
        None \<Rightarrow> ts
      | Some d \<Rightarrow> ((fst ts)\<lparr> trackDebounce := None, tracking := tracking (fst ts) @ [d] \<rparr>,
                   save fails opt now d (snd ts)))"

definition saveAndTrack_ends :: "nat \<Rightarrow> blur_tracker \<Rightarrow> blur_tracker" where
  "saveAndTrack_ends i t =
     (if i < length (tracking t) then t\<lparr> lastSavedData := stringify (json_norm (tracking t ! i)),
        tracking := take i (tracking t) @ drop (Suc i) (tracking t) \<rparr> else t)"

section \<open>Periodic saving\<close>

definition no_changes_seen :: "autosave \<Rightarrow> bool" where
  "no_changes_seen s = (\<not> hasUnsavedChanges s)"

interpretation autosave_flag: machine "autosave_step fails opt" no_changes_seen for fails opt
proof (unfold_locales, goal_cases)
  case (1 s e)
  then show ?case
    by (cases e) (auto simp: no_changes_seen_def autosave_step_def reinstall_def autosave_ops Let_def
        split: option.split save_result.split)
qed

text \<open>Periodic auto-save never runs: nothing sets \<open>hasUnsavedChanges\<close>, so in every run it is
  false, the interval's callback does nothing, and the warning before leaving the page never asks,
  also while edits wait in the debounce timer or the last save failed.\<close>

theorem periodic_save_never_runs:
  fixes es :: "autosave_event list"
  shows "(let s = run (autosave_step fails opt) es (autosave_init opt st) in
     autosave_step fails opt s (ATick now) = s \<and> before_unload (hasUnsavedChanges s) msg = None)"
proof -
  have "no_changes_seen (run (autosave_step fails opt) es (autosave_init opt st))"
    by (rule autosave_flag.every_run_inv) (simp add: no_changes_seen_def autosave_init_def)
  then show ?thesis
    by (simp add: Let_def no_changes_seen_def autosave_step_def interval_fires_def reinstall_def before_unload_def)
qed

section \<open>Drafts\<close>

text \<open>The draft a form should have: the data of the last save, until it is cleared or the form is
  submitted, and never one after a submission.\<close>

record draft_spec =
  spec_draft :: jsv
  spec_submitted :: bool
  spec_pending :: "jsv option"

definition spec_save :: "autosave_options \<Rightarrow> int \<Rightarrow> jsv \<Rightarrow> draft_spec \<Rightarrow> draft_spec" where
  "spec_save opt now d p =
     (if spec_submitted p then p else p\<lparr> spec_draft := json_norm (draft_data opt now d) \<rparr>)"

fun draft_spec_step :: "autosave_options \<Rightarrow> draft_spec \<Rightarrow> autosave_event \<Rightarrow> draft_spec" where
  "draft_spec_step opt p (AChange d) = p\<lparr> spec_pending := Some d \<rparr>"
| "draft_spec_step opt p (ADebounce now) =
     (case spec_pending p of None \<Rightarrow> p | Some d \<Rightarrow> (spec_save opt now d p)\<lparr> spec_pending := None \<rparr>)"
| "draft_spec_step opt p (ABlur now d) = (if saveOnBlur opt then spec_save opt now d p else p)"
| "draft_spec_step opt p (ASave now d) = spec_save opt now d p"
| "draft_spec_step opt p ASubmit = p\<lparr> spec_draft := JNull, spec_submitted := True \<rparr>"
| "draft_spec_step opt p AClear = p\<lparr> spec_draft := JNull \<rparr>"
| "draft_spec_step opt p e = p"

interpretation submitted_spec: machine "draft_spec_step opt"
    "\<lambda>p. spec_draft p = JNull \<and> spec_submitted p" for opt
proof (unfold_locales, goal_cases)
  case (1 p e)
  then show ?case by (cases e) (simp_all add: spec_save_def split: option.split)
qed

definition storage_works :: "storage_call \<Rightarrow> bool" where
  "storage_works c = False"

definition draft_abs :: "autosave_options \<Rightarrow> autosave \<Rightarrow> draft_spec" where
  "draft_abs opt s = \<lparr> spec_draft = getDraft storage_works opt s, spec_submitted = isSubmitted s,
     spec_pending = debounced s \<rparr>"

lemma abs_reinstall [simp]: "draft_abs opt (reinstall opt b s) = draft_abs opt s"
  by (simp add: draft_abs_def reinstall_def getDraft_def)

lemma abs_save:
  "persistToLocalStorage opt \<Longrightarrow> draft_abs opt (save storage_works opt now d s) = spec_save opt now d (draft_abs opt s)"
  by (auto simp: draft_abs_def getDraft_def save_def spec_save_def saveToLocalStorage_def save_succeeds_def
      updateStatus_def storage_works_def Let_def)

lemma abs_status:
  "draft_abs opt (updateStatus st s) = draft_abs opt s"
  "draft_abs opt (save_succeeds now s) = draft_abs opt s"
  "draft_abs opt (s\<lparr> inFlight := xs \<rparr>) = draft_abs opt s"
  "draft_abs opt (s\<lparr> idleTimer := b \<rparr>) = draft_abs opt s"
  "draft_abs opt (s\<lparr> hasUnsavedChanges := b \<rparr>) = draft_abs opt s"
  by (simp_all add: draft_abs_def getDraft_def save_succeeds_def updateStatus_def)

lemma abs_pending [simp]: "draft_abs opt (s\<lparr> debounced := d \<rparr>) = (draft_abs opt s)\<lparr> spec_pending := d \<rparr>"
  by (simp add: draft_abs_def getDraft_def)

lemma abs_clear [simp]:
  "draft_abs opt (clearDraft storage_works opt s) = (draft_abs opt s)\<lparr> spec_draft := JNull \<rparr>"
  "draft_abs opt (s\<lparr> isSubmitted := b \<rparr>) = (draft_abs opt s)\<lparr> spec_submitted := b \<rparr>"
  by (simp_all add: draft_abs_def getDraft_def clearDraft_def storage_works_def)

lemma abs_fields [simp]: "spec_pending (draft_abs opt s) = debounced s"
  by (simp add: draft_abs_def)

lemma spec_save_pending [simp]:
  "spec_save opt now d (p\<lparr> spec_pending := x \<rparr>) = (spec_save opt now d p)\<lparr> spec_pending := x \<rparr>"
  by (simp add: spec_save_def)

lemma abs_settles [simp]: "draft_abs opt (save_settles i res now s) = draft_abs opt s"
  by (cases res) (auto simp: save_settles_def Let_def abs_status)

lemma abs_step:
  assumes "persistToLocalStorage opt" "no_changes_seen s"
  shows "draft_abs opt (autosave_step storage_works opt s e) = draft_spec_step opt (draft_abs opt s) e"
  using assms(2)
  by (cases e)
     (simp_all add: autosave_step_def debounce_fires_def cancelDebounce_def debouncedSave_def window_blur_def
        abs_save [OF assms(1)] interval_fires_def no_changes_seen_def idle_fires_def handleSubmit_def
        markSubmitted_def resetChanges_def abs_status split: option.split)

lemma abs_run:
  assumes "persistToLocalStorage opt" "no_changes_seen s"
  shows "draft_abs opt (run (autosave_step storage_works opt) es s)
    = run (draft_spec_step opt) es (draft_abs opt s)"
  using assms(2)
  by (induction es arbitrary: s) (simp_all add: abs_step [OF assms(1)] autosave_flag.every_step_inv)

lemma autosave_init_clean [simp]: "no_changes_seen (autosave_init opt st)"
  by (simp add: no_changes_seen_def autosave_init_def)

text \<open>C11.  The draft offered for recovery is the data of the last save: with a working storage, after
  any interleaving of edits, debounced, manual and blur saves, submissions and clears, whatever the
  saves' outcomes, \<open>getDraft\<close> gives the last saved data with its time, and nothing after a clear; and
  once the form was submitted no pending timer, running save or later event brings a draft back.\<close>

theorem draft_is_last_save:
  fixes st :: storage
  assumes "persistToLocalStorage opt"
  defines "mounted \<equiv> autosave_init opt st"
  shows "getDraft storage_works opt (run (autosave_step storage_works opt) es mounted)
      = spec_draft (run (draft_spec_step opt) es
          \<lparr> spec_draft = getDraft storage_works opt mounted, spec_submitted = False, spec_pending = None \<rparr>)
    \<and> \<not> hasDraft storage_works opt (run (autosave_step storage_works opt) (es @ [ASubmit] @ fs) mounted)"
proof -
  let ?p = "draft_abs opt mounted"
  have g: "getDraft storage_works opt s = spec_draft (draft_abs opt s)" for s
    by (simp add: draft_abs_def)
  have m: "?p = \<lparr> spec_draft = getDraft storage_works opt mounted, spec_submitted = False, spec_pending = None \<rparr>"
    by (simp add: draft_abs_def mounted_def autosave_init_def)
  have sub: "spec_draft p = JNull \<and> spec_submitted p \<Longrightarrow>
      spec_draft (run (draft_spec_step opt) xs p) = JNull \<and> spec_submitted (run (draft_spec_step opt) xs p)" for p xs
    by (rule submitted_spec.every_run_inv)
  have r: "draft_abs opt (run (autosave_step storage_works opt) xs mounted) = run (draft_spec_step opt) xs ?p" for xs
    unfolding mounted_def by (rule abs_run [OF assms(1) autosave_init_clean])
  have d: "getDraft storage_works opt (run (autosave_step storage_works opt) xs mounted)
      = spec_draft (run (draft_spec_step opt) xs ?p)" for xs
    by (simp only: g r)
  show ?thesis
    unfolding hasDraft_def d m [symmetric] using sub by simp
qed

definition intake_options :: "bool \<Rightarrow> autosave_options" where
  "intake_options persist = \<lparr> formId = ''intake'', initialData = None, hasOnSave = True,
     enablePeriodicSave = True, persistToLocalStorage = persist, saveOnBlur = True \<rparr>"

definition named :: "string \<Rightarrow> jsv" where
  "named n = JObj [(''name'', JStr n)]"

lemma draft_is_last_save_witness:
  "restoreDraft storage_works (intake_options True) (run (autosave_step storage_works (intake_options True))
     [AChange (named ''A''), ADebounce 10, AChange (named ''Ab''), ASettle 0 SaveThrew 20, ADebounce 30]
     (autosave_init (intake_options True) [])) = named ''Ab''
   \<and> \<not> hasDraft storage_works (intake_options True) (run (autosave_step storage_works (intake_options True))
     ([AChange (named ''A'')] @ [ASubmit] @ [ADebounce 40]) (autosave_init (intake_options True) []))"
proof -
  have p: "persistToLocalStorage (intake_options True)" by (simp add: intake_options_def)
  show ?thesis
    using draft_is_last_save [OF p, of "[AChange (named ''A''), ADebounce 10, AChange (named ''Ab''),
        ASettle 0 SaveThrew 20, ADebounce 30]" "[]"]
      draft_is_last_save [OF p, of "[AChange (named ''A'')]" "[]" "[ADebounce 40]"]
    by (simp add: restoreDraft_def spec_save_def draft_data_def named_def)
qed

section \<open>Tracking\<close>

text \<open>A save that failed counts as saved in the blur tracker: when the tracked save ends, for
  any outcome (and after a submission, when nothing was saved at all), the form reports no unsaved
  changes for the same data.\<close>

theorem failed_save_tracked_as_saved:
  fixes t :: blur_tracker and s :: autosave and now :: int and opt :: autosave_options
    and fails :: "storage_call \<Rightarrow> bool"
  assumes "truthy d"
  defines "ts \<equiv> saveAndTrack_starts fails opt now (handleBlur (snd (watched d t)), s)"
  shows "\<not> fst (watched d (saveAndTrack_ends (length (tracking t)) (fst ts)))
    \<and> snd ts = save fails opt now d s"
  using assms(1)
  by (simp add: ts_def watched_def handleBlur_def has_data_def saveAndTrack_starts_def saveAndTrack_ends_def)

lemma failed_save_tracked_witness:
  "let ts = saveAndTrack_starts storage_works (intake_options False) 5
       (handleBlur (snd (watched (named ''A'') (tracker_init None))), autosave_init (intake_options False) []) in
   fst (watched (named ''A'') (tracker_init None))
   \<and> save_status (save_settles 0 SaveFalse 9 (snd ts)) = SaveError
   \<and> \<not> fst (watched (named ''A'') (saveAndTrack_ends 0 (fst ts)))"
proof -
  have d: "truthy (named ''A'')" by (simp add: named_def)
  have f: "fst (watched (named ''A'') (tracker_init None))"
    by (simp add: watched_def tracker_init_def named_def quote_text_def)
  have e: "save_status (save_settles 0 SaveFalse 9 (save storage_works (intake_options False) 5 (named ''A'')
      (autosave_init (intake_options False) []))) = SaveError"
    by (simp add: save_def saveToLocalStorage_def updateStatus_def save_settles_def autosave_init_def
        intake_options_def)
  have t: "length (tracking (tracker_init None)) = 0" by (simp add: tracker_init_def)
  show ?thesis
    using failed_save_tracked_as_saved [OF d, of "tracker_init None" storage_works "intake_options False" 5
        "autosave_init (intake_options False) []"] f e
    unfolding t Let_def by metis
qed

end
