(* ===== verification/WebSockets.thy ===== *)
theory WebSockets
  imports Machines Storage
begin

text \<open>
  The browser's live connection: \<open>frontend/src/hooks/use-websocket.ts\<close>.  The sockets the hook
  ever opened are a list; a socket's index is its identity.  The network, the timers and the
  unmounting of the hook are events.  Toasts, query invalidations, callbacks of the options and
  sent frames are logged in order.
\<close>

section \<open>Sockets\<close>

datatype ready_state = Connecting | Open | Closing | Closed

record socket =
  authToken :: string
  ready :: ready_state
  authed :: bool

datatype toast_kind = ToastError | ToastWarning | ToastInfo

datatype ws_effect =
    Send nat jsv
  | Callback string jsv
  | Invalidate "jsv list"
  | Toast toast_kind jsv "jsv option"

record ws_options =
  onNotification :: bool
  onNewMessage :: bool
  onTyping :: bool
  onMessageRead :: bool

record ws_state =
  sockets :: "socket list"
  wsRef :: "nat option"
  timers :: "nat list"
  timerRef :: "nat option"
  nextTimer :: nat
  storedToken :: "string option"
  effects :: "ws_effect list"

definition perform :: "ws_effect list \<Rightarrow> ws_state \<Rightarrow> ws_state" where
  "perform xs s = s\<lparr> effects := effects s @ xs \<rparr>"

definition on_socket :: "nat \<Rightarrow> (socket \<Rightarrow> socket) \<Rightarrow> ws_state \<Rightarrow> ws_state" where
  "on_socket i f s = s\<lparr> sockets := (sockets s)[i := f (sockets s ! i)] \<rparr>"

text \<open>Socket \<open>i\<close> exists and is in a state of the given kind.\<close>

definition socket_is :: "(ready_state \<Rightarrow> bool) \<Rightarrow> nat \<Rightarrow> ws_state \<Rightarrow> bool" where
  "socket_is P i s = (i < length (sockets s) \<and> P (ready (sockets s ! i)))"

text \<open>\<open>ws.close()\<close>: a socket that is not closing yet starts to close.\<close>

definition close_socket :: "nat \<Rightarrow> ws_state \<Rightarrow> ws_state" where
  "close_socket i s =
     (if socket_is (\<lambda>r. r = Connecting \<or> r = Open) i s then on_socket i (\<lambda>w. w\<lparr> ready := Closing \<rparr>) s else s)"

definition connect :: "ws_state \<Rightarrow> ws_state" where
  "connect s =
     (case storedToken s of
        None \<Rightarrow> s
      | Some t \<Rightarrow>
          if t = [] then s
          else s\<lparr> sockets := sockets s @ [\<lparr> authToken = t, ready = Connecting, authed = False \<rparr>],
                  wsRef := Some (length (sockets s)) \<rparr>)"

definition socket_opens :: "nat \<Rightarrow> ws_state \<Rightarrow> ws_state" where
  "socket_opens i s =
     (if socket_is (\<lambda>r. r = Connecting) i s
      then perform [Send i (JObj [(''type'', JStr ''auth''), (''token'', JStr (authToken (sockets s ! i)))])]
             (on_socket i (\<lambda>w. w\<lparr> ready := Open \<rparr>) s)
      else s)"

definition socket_closes :: "nat \<Rightarrow> ws_state \<Rightarrow> ws_state" where
  "socket_closes i s =
     (if socket_is (\<lambda>r. r \<noteq> Closed) i s
      then (on_socket i (\<lambda>w. w\<lparr> ready := Closed \<rparr>) s)
             \<lparr> timers := timers s @ [nextTimer s], timerRef := Some (nextTimer s), nextTimer := Suc (nextTimer s) \<rparr>
      else s)"

definition reconnect_fires :: "nat \<Rightarrow> ws_state \<Rightarrow> ws_state" where
  "reconnect_fires t s =
     (if t \<in> set (timers s) then connect (s\<lparr> timers := removeAll t (timers s) \<rparr>) else s)"

definition disconnect :: "ws_state \<Rightarrow> ws_state" where
  "disconnect s =
     (let s = (case timerRef s of None \<Rightarrow> s | Some t \<Rightarrow> s\<lparr> timers := removeAll t (timers s) \<rparr>) in
      case wsRef s of None \<Rightarrow> s | Some i \<Rightarrow> (close_socket i s)\<lparr> wsRef := None \<rparr>)"

definition ws_mount :: "string option \<Rightarrow> ws_state" where
  "ws_mount tok = connect \<lparr> sockets = [], wsRef = None, timers = [], timerRef = None, nextTimer = 0,
     storedToken = tok, effects = [] \<rparr>"

section \<open>Messages\<close>

text \<open>What the dispatch chain does for an authenticated message: its effects in order, and whether it
  ended in an exception (a property of \<open>null\<close> or \<open>undefined\<close>).\<close>

definition notification_toast :: "jsv \<Rightarrow> toast_kind" where
  "notification_toast priority =
     (if priority = JStr ''urgent'' then ToastError
      else if priority = JStr ''high'' then ToastWarning else ToastInfo)"

definition call_if :: "bool \<Rightarrow> string \<Rightarrow> jsv \<Rightarrow> ws_effect list" where
  "call_if present name arg = (if present then [Callback name arg] else [])"

fun get_prop :: "jsv \<Rightarrow> string \<Rightarrow> jsv" where
  "get_prop v k = (case member v k of None \<Rightarrow> JUndef | Some x \<Rightarrow> x)"

definition nullish :: "jsv \<Rightarrow> bool" where
  "nullish v = (v = JUndef \<or> v = JNull)"

definition on_notification :: "ws_options \<Rightarrow> jsv \<Rightarrow> ws_effect list \<times> bool" where
  "on_notification opt d =
     (let es = call_if (onNotification opt) ''onNotification'' d
        @ [Invalidate [JStr ''notifications''], Invalidate [JStr ''notifications'', JStr ''unread-count'']] in
      if nullish d then (es, True)
      else (es @ [Toast (notification_toast (get_prop d ''priority'')) (get_prop d ''title'')
              (Some (get_prop d ''body''))], False))"

definition on_new_message :: "ws_options \<Rightarrow> jsv \<Rightarrow> ws_effect list \<times> bool" where
  "on_new_message opt d =
     (call_if (onNewMessage opt) ''onNewMessage'' d @ [Invalidate [JStr ''conversations'']], False)"

definition on_typing :: "ws_options \<Rightarrow> jsv \<Rightarrow> ws_effect list \<times> bool" where
  "on_typing opt m =
     (call_if (onTyping opt) ''onTyping'' (JObj [(''conversation_id'', get_prop m ''conversation_id''),
        (''user_id'', get_prop m ''user_id''), (''is_typing'', get_prop m ''is_typing'')]), False)"

definition on_message_read :: "ws_options \<Rightarrow> jsv \<Rightarrow> ws_effect list \<times> bool" where
  "on_message_read opt d =
     (let es = call_if (onMessageRead opt) ''onMessageRead'' d in
      if nullish d then (es, True)
      else (es @ [Invalidate [JStr ''conversations'', JStr ''messages'', get_prop d ''conversation_id'']], False))"

definition on_escalation :: "jsv \<Rightarrow> jsv \<Rightarrow> ws_effect list \<times> bool" where
  "on_escalation action d =
     (let label = (if action = JStr ''created'' then ''New escalation'' else ''Escalation updated'') in
      if nullish d then ([Invalidate [JStr ''escalations'']], True)
      else ([Invalidate [JStr ''escalations''],
             Toast ToastWarning (JStr (label @ '': '' @ js_string (get_prop d ''title'')))
               (Some (JStr (''Level: '' @ js_string (get_prop d ''level'') @ '' '' @ [char_of (183 :: nat)]
                  @ '' Status: '' @ js_string (get_prop d ''status''))))], False))"

definition on_program_update :: "jsv \<Rightarrow> ws_effect list \<times> bool" where
  "on_program_update d =
     (let es = [Invalidate [JStr ''programs''], Invalidate [JStr ''portal'', JStr ''programs'']] in
      if nullish d then (es, True)
      else (es @ [Toast ToastInfo (JStr (''Program updated: '' @ js_string (get_prop d ''title'')))
              (Some (JStr (''Status changed from '' @ js_string (get_prop d ''previous_status'')
                 @ '' to '' @ js_string (get_prop d ''status''))))], False))"

definition dispatch :: "ws_options \<Rightarrow> jsv \<Rightarrow> jsv \<Rightarrow> ws_effect list \<times> bool" where
  "dispatch opt t m =
     (let d = get_prop m ''data'' in
      if t = JStr ''notification'' then on_notification opt d
      else if t = JStr ''new_message'' then on_new_message opt d
      else if t = JStr ''typing'' then on_typing opt m
      else if t = JStr ''message_read'' then on_message_read opt d
      else if t = JStr ''escalation'' then on_escalation (get_prop m ''action'') d
      else if t = JStr ''program_update'' then on_program_update d
      else ([], False))"

definition parse_failed :: "ws_effect" where
  "parse_failed = Toast ToastError (JStr ''Failed to parse WebSocket message'') None"

definition message_type :: "cell \<Rightarrow> jsv option" where
  "message_type raw = (case parse_cell raw of None \<Rightarrow> None | Some m \<Rightarrow> member m ''type'')"

definition socket_receives :: "ws_options \<Rightarrow> nat \<Rightarrow> cell \<Rightarrow> ws_state \<Rightarrow> ws_state" where
  "socket_receives opt i raw s =
     (if \<not> socket_is (\<lambda>r. r = Open) i s then s
      else case message_type raw of
        None \<Rightarrow> perform [parse_failed] s
      | Some t \<Rightarrow>
          if t = JStr ''auth_success'' then
            perform [Send i (JObj [(''type'', JStr ''subscribe''),
                (''channels'', JArr [JStr ''messages'', JStr ''notifications''])])]
              (on_socket i (\<lambda>w. w\<lparr> authed := True \<rparr>) s)
          else if t = JStr ''auth_error'' then close_socket i s
          else if \<not> authed (sockets s ! i) then s
          else (let (es, threw) = dispatch opt t (the (parse_cell raw)) in
            perform (es @ (if threw then [parse_failed] else [])) s))"

definition sendMessage :: "jsv \<Rightarrow> ws_state \<Rightarrow> ws_state" where
  "sendMessage m s =
     (case wsRef s of
        Some i \<Rightarrow> if socket_is (\<lambda>r. r = Open) i s then perform [Send i m] s
                  else perform [Toast ToastError (JStr ''WebSocket is not connected'') None] s
      | None \<Rightarrow> perform [Toast ToastError (JStr ''WebSocket is not connected'') None] s)"

definition sendTypingIndicator :: "string \<Rightarrow> bool \<Rightarrow> ws_state \<Rightarrow> ws_state" where
  "sendTypingIndicator conv typing s = sendMessage
     (JObj [(''type'', JStr ''typing''), (''conversation_id'', JStr conv), (''is_typing'', JBool typing)]) s"

datatype ws_event =
    WOpens nat
  | WReceives nat cell
  | WCloses nat
  | WTimer nat
  | WUnmount
  | WTyping string bool

fun ws_step :: "ws_options \<Rightarrow> ws_state \<Rightarrow> ws_event \<Rightarrow> ws_state" where
  "ws_step opt s (WOpens i) = socket_opens i s"
| "ws_step opt s (WReceives i raw) = socket_receives opt i raw s"
| "ws_step opt s (WCloses i) = socket_closes i s"
| "ws_step opt s (WTimer t) = reconnect_fires t s"
| "ws_step opt s WUnmount = disconnect s"
| "ws_step opt s (WTyping conv b) = sendTypingIndicator conv b s"

lemmas ws_ops = perform_def on_socket_def socket_is_def close_socket_def connect_def socket_opens_def
  socket_closes_def reconnect_fires_def disconnect_def sendMessage_def sendTypingIndicator_def

section \<open>Nothing before the authentication\<close>

text \<open>Reactions are the effects the application sees: callbacks, invalidated queries and the toasts of
  messages.\<close>

fun is_reaction :: "ws_effect \<Rightarrow> bool" where
  "is_reaction (Send i m) = False"
| "is_reaction (Callback n d) = True"
| "is_reaction (Invalidate k) = True"
| "is_reaction (Toast k t d) = (t \<noteq> JStr ''WebSocket is not connected''
     \<and> t \<noteq> JStr ''Failed to parse WebSocket message'')"

fun no_auth_success :: "ws_event \<Rightarrow> bool" where
  "no_auth_success (WReceives i raw) = (message_type raw \<noteq> Some (JStr ''auth_success''))"
| "no_auth_success e = True"

definition silent :: "ws_state \<Rightarrow> bool" where
  "silent s = (list_all (\<lambda>w. \<not> authed w) (sockets s) \<and> filter is_reaction (effects s) = [])"

lemma all_update [intro]: "list_all P xs \<Longrightarrow> P x \<Longrightarrow> list_all P (xs[i := x])"
  by (auto simp: list_all_iff dest!: set_update_subset_insert [THEN subsetD])

lemma authed_at: "list_all (\<lambda>w. \<not> authed w) xs \<Longrightarrow> i < length xs \<Longrightarrow> \<not> authed (xs ! i)"
  by (simp add: list_all_length)

interpretation unauthenticated: guarded_machine "ws_step opt" no_auth_success silent for opt
proof (unfold_locales, goal_cases)
  case (1 s e)
  then show ?case
    by (cases e)
       (auto simp: silent_def ws_ops socket_receives_def parse_failed_def Let_def authed_at
          split: option.splits)
qed

lemma ws_mount_silent: "silent (ws_mount tok)"
  by (auto simp: silent_def ws_mount_def connect_def split: option.split)

text \<open>C39.  The server is not believed before it authenticated the connection: whatever frames arrive,
  on however many reconnected sockets, as long as none of them is an \<open>auth_success\<close> no callback
  runs, no query is invalidated and no message toast is shown.\<close>

theorem unauthenticated_silent:
  assumes "list_all no_auth_success es"
  shows "filter is_reaction (effects (run (ws_step opt) es (ws_mount tok))) = []"
  using unauthenticated.run_inv [OF ws_mount_silent assms] by (simp add: silent_def)

section \<open>Reconnection\<close>

text \<open>Timer numbers are fresh.\<close>

definition timers_fresh :: "ws_state \<Rightarrow> bool" where
  "timers_fresh s = list_all (\<lambda>t. t < nextTimer s) (timers s)"

interpretation fresh: machine "ws_step opt" timers_fresh for opt
proof (unfold_locales, goal_cases)
  case (1 s e)
  then show ?case
    by (cases e)
       (auto simp: timers_fresh_def ws_ops socket_receives_def Let_def list_all_iff
          split: option.splits prod.splits)
qed

text \<open>A hook without a token never opens a socket.\<close>

definition never_connects :: "ws_state \<Rightarrow> bool" where
  "never_connects s = (storedToken s = None \<and> sockets s = [])"

interpretation tokenless: machine "ws_step opt" never_connects for opt
proof (unfold_locales, goal_cases)
  case (1 s e)
  then show ?case
    by (cases e)
       (auto simp: never_connects_def ws_ops socket_receives_def split: option.splits)
qed

lemma no_token_no_socket: "sockets (run (ws_step opt) es (ws_mount None)) = []"
proof -
  have "never_connects (ws_mount None)" by (simp add: never_connects_def ws_mount_def connect_def)
  then show ?thesis using tokenless.every_run_inv [of "ws_mount None" opt es] by (simp add: never_connects_def)
qed

lemma token_step: "storedToken (ws_step opt s e) = storedToken s"
  by (cases e) (auto simp: ws_ops socket_receives_def Let_def split: option.split prod.split)

lemma token_kept: "storedToken (run (ws_step opt) es (ws_mount tok)) = tok"
proof -
  have "storedToken (run (ws_step opt) es s) = storedToken s" for s
    by (induction es arbitrary: s) (simp_all add: token_step)
  then show ?thesis by (simp add: ws_mount_def connect_def split: option.split)
qed

lemma close_then_reconnect:
  assumes "socket_is (\<lambda>r. r = Closing) i s" "storedToken s = Some tok" "tok \<noteq> []"
  shows "(let s' = reconnect_fires (nextTimer s) (socket_closes i s) in
     length (sockets s') = Suc (length (sockets s))
     \<and> socket_is (\<lambda>r. r = Connecting) (length (sockets s)) s'
     \<and> wsRef s' = Some (length (sockets s)))"
proof -
  have "socket_closes i s = (on_socket i (\<lambda>w. w\<lparr> ready := Closed \<rparr>) s)
      \<lparr> timers := timers s @ [nextTimer s], timerRef := Some (nextTimer s), nextTimer := Suc (nextTimer s) \<rparr>"
    using assms(1) by (simp add: socket_closes_def socket_is_def)
  then show ?thesis
    using assms(2,3) by (simp add: Let_def reconnect_fires_def connect_def on_socket_def socket_is_def nth_append)
qed

definition same_hook :: "ws_state \<Rightarrow> ws_state \<Rightarrow> bool" where
  "same_hook s t = (nextTimer t = nextTimer s \<and> storedToken t = storedToken s
     \<and> length (sockets t) = length (sockets s))"

lemma close_open:
  assumes "socket_is (\<lambda>r. r = Open) i s"
  shows "socket_is (\<lambda>r. r = Closing) i (close_socket i s) \<and> same_hook s (close_socket i s)"
  using assms by (simp add: close_socket_def socket_is_def on_socket_def same_hook_def)

lemma refused_or_unmounted:
  assumes "wsRef s = Some i" "socket_is (\<lambda>r. r = Open) i s"
    and "message_type raw = Some (JStr ''auth_error'')" "e = WReceives i raw \<or> e = WUnmount"
  shows "socket_is (\<lambda>r. r = Closing) i (ws_step opt s e) \<and> same_hook s (ws_step opt s e)"
proof (cases "e = WUnmount")
  case True
  define t where "t = (case timerRef s of None \<Rightarrow> s | Some t \<Rightarrow> s\<lparr> timers := removeAll t (timers s) \<rparr>)"
  have t: "socket_is (\<lambda>r. r = Open) i t" "same_hook s t" "wsRef t = Some i"
    using assms(1,2) by (auto simp: t_def same_hook_def socket_is_def split: option.split)
  then show ?thesis
    using True close_open [OF t(1)]
    by (simp add: disconnect_def t_def [symmetric] Let_def same_hook_def socket_is_def)
next
  case False
  then show ?thesis
    using assms close_open [OF assms(2)] by (simp add: socket_receives_def)
qed

text \<open>C36.  Every closed connection is reopened: also after the server refused the token, where the
  source says not to reconnect, and also after the hook was unmounted, because \<open>disconnect\<close> clears
  the timers before the socket it closes reports its end.\<close>

theorem closed_socket_reconnects:
  fixes es :: "ws_event list" and opt :: ws_options
  assumes "tok \<noteq> []"
  defines "s \<equiv> run (ws_step opt) es (ws_mount (Some tok))"
  assumes "wsRef s = Some i" "socket_is (\<lambda>r. r = Open) i s"
    and "message_type raw = Some (JStr ''auth_error'')"
    and "e = WReceives i raw \<or> e = WUnmount"
  shows "(let s' = run (ws_step opt) [e, WCloses i, WTimer (nextTimer s)] s in
     length (sockets s') = Suc (length (sockets s))
     \<and> socket_is (\<lambda>r. r = Connecting) (length (sockets s)) s'
     \<and> wsRef s' = Some (length (sockets s)))"
proof -
  have tok: "storedToken s = Some tok"
    unfolding s_def by (rule token_kept)
  show ?thesis
    using close_then_reconnect [of i "ws_step opt s e" tok] refused_or_unmounted [OF assms(3-6), of opt]
      assms(1) tok
    by (simp add: Let_def same_hook_def)
qed

definition listening :: "ws_options" where
  "listening = \<lparr> onNotification = True, onNewMessage = True, onTyping = True, onMessageRead = True \<rparr>"

definition frame :: "string \<Rightarrow> (string \<times> jsv) list \<Rightarrow> cell" where
  "frame t kvs = Json (JObj ((''type'', JStr t) # kvs))"

lemma closed_socket_witness:
  "(let s' = run (ws_step listening) [WOpens 0, WReceives 0 (frame ''auth_error'' []), WCloses 0, WTimer 0]
       (ws_mount (Some ''tok'')) in
     length (sockets s') = 2 \<and> socket_is (\<lambda>r. r = Connecting) 1 s')"
proof -
  let ?s = "run (ws_step listening) [WOpens 0] (ws_mount (Some ''tok''))"
  have "wsRef ?s = Some 0" "socket_is (\<lambda>r. r = Open) 0 ?s" "length (sockets ?s) = 1" "nextTimer ?s = 0"
    by (simp_all add: ws_mount_def ws_ops)
  moreover have "message_type (frame ''auth_error'' []) = Some (JStr ''auth_error'')"
    by (simp add: frame_def message_type_def)
  ultimately show ?thesis
    using closed_socket_reconnects [of "''tok''" listening "[WOpens 0]" 0 "frame ''auth_error'' []"
        "WReceives 0 (frame ''auth_error'' [])"]
    by (simp add: Let_def)
qed

lemma unauthenticated_silent_witness:
  "filter is_reaction (effects (run (ws_step listening)
     [WOpens 0, WReceives 0 (frame ''notification'' [(''data'', JObj [(''title'', JStr ''Hi'')])]), WCloses 0, WTimer 0]
     (ws_mount (Some ''tok'')))) = []
   \<and> filter is_reaction (effects (run (ws_step listening)
     [WOpens 0, WReceives 0 (frame ''auth_success'' []),
      WReceives 0 (frame ''notification'' [(''data'', JObj [(''title'', JStr ''Hi'')])])]
     (ws_mount (Some ''tok'')))) \<noteq> []"
proof -
  have s: "list_all no_auth_success [WOpens 0,
      WReceives 0 (frame ''notification'' [(''data'', JObj [(''title'', JStr ''Hi'')])]), WCloses 0, WTimer 0]"
    by (simp add: frame_def message_type_def)
  show ?thesis
    using unauthenticated_silent [OF s, of listening "Some ''tok''"]
    by (simp add: frame_def message_type_def ws_mount_def ws_ops socket_receives_def dispatch_def
        on_notification_def Let_def call_if_def listening_def nullish_def)
qed

end
