(* ===== verification/MobileNotifications.thy ===== *)
theory MobileNotifications
  imports Machines Storage DeepLinks
begin

text \<open>
  Notifications of the mobile app: the live connection (\<open>mobile/hooks/use-websocket.ts\<close>), the
  notification store (\<open>mobile/lib/notification-store.ts\<close>), the read and badge operations
  (\<open>mobile/hooks/use-notifications.ts\<close>) and the opening of a tapped notification
  (\<open>mobile/hooks/use-push-notifications.ts\<close>).  The authentication store's token is part of the
  state, because the connection hook follows it; the badge is the number last handed to the system.
\<close>

section \<open>The state\<close>

datatype socket_state = Connecting | Open | Closing | Closed

record mobile_conn =
  sentToken :: string
  phase :: socket_state

record mobile_ws =
  conns :: "mobile_conn list"
  wsRef :: "nat option"
  timers :: "nat list"
  timerRef :: "nat option"
  nextTimer :: nat
  reconnectDelay :: int
  authenticated :: bool
  authToken :: "string option"
  frames :: "(nat \<times> jsv) list"
  unreadCount :: int
  isWebSocketConnected :: bool
  preferences :: jsv
  storePushToken :: "string option"
  badge :: int

definition WS_RECONNECT_DELAY_BASE :: int where
  "WS_RECONNECT_DELAY_BASE = 1000"

definition WS_MAX_RECONNECT_DELAY :: int where
  "WS_MAX_RECONNECT_DELAY = 30000"

section \<open>The notification store\<close>

definition setUnreadCount :: "int \<Rightarrow> mobile_ws \<Rightarrow> mobile_ws" where
  "setUnreadCount n s = s\<lparr> unreadCount := n \<rparr>"

definition incrementUnread :: "mobile_ws \<Rightarrow> mobile_ws" where
  "incrementUnread s = s\<lparr> unreadCount := unreadCount s + 1 \<rparr>"

definition decrementUnread :: "mobile_ws \<Rightarrow> mobile_ws" where
  "decrementUnread s = s\<lparr> unreadCount := max 0 (unreadCount s - 1) \<rparr>"

definition setWebSocketConnected :: "bool \<Rightarrow> mobile_ws \<Rightarrow> mobile_ws" where
  "setWebSocketConnected b s = s\<lparr> isWebSocketConnected := b \<rparr>"

definition setPreferences :: "jsv \<Rightarrow> mobile_ws \<Rightarrow> mobile_ws" where
  "setPreferences p s = s\<lparr> preferences := p \<rparr>"

definition setPushToken :: "string option \<Rightarrow> mobile_ws \<Rightarrow> mobile_ws" where
  "setPushToken t s = s\<lparr> storePushToken := t \<rparr>"

definition setBadgeCount :: "int \<Rightarrow> mobile_ws \<Rightarrow> mobile_ws" where
  "setBadgeCount n s = s\<lparr> badge := n \<rparr>"

section \<open>The connection\<close>

definition signed_in :: "mobile_ws \<Rightarrow> bool" where
  "signed_in s = (authToken s \<noteq> None \<and> authToken s \<noteq> Some [])"

definition conn_is :: "(socket_state \<Rightarrow> bool) \<Rightarrow> nat \<Rightarrow> mobile_ws \<Rightarrow> bool" where
  "conn_is P i s = (i < length (conns s) \<and> P (phase (conns s ! i)))"

definition set_phase :: "nat \<Rightarrow> socket_state \<Rightarrow> mobile_ws \<Rightarrow> mobile_ws" where
  "set_phase i p s = s\<lparr> conns := (conns s)[i := (conns s ! i)\<lparr> phase := p \<rparr>] \<rparr>"

definition close_conn :: "nat \<Rightarrow> mobile_ws \<Rightarrow> mobile_ws" where
  "close_conn i s =
     (if conn_is (\<lambda>r. r = Connecting \<or> r = Open) i s then set_phase i Closing s else s)"

definition disconnect :: "mobile_ws \<Rightarrow> mobile_ws" where
  "disconnect s =
     (let s = (case wsRef s of None \<Rightarrow> s | Some i \<Rightarrow> (close_conn i s)\<lparr> wsRef := None \<rparr>);
          s = (case timerRef s of None \<Rightarrow> s
               | Some t \<Rightarrow> s\<lparr> timers := removeAll t (timers s), timerRef := None \<rparr>) in
      setWebSocketConnected False (s\<lparr> authenticated := False \<rparr>))"

definition connect :: "mobile_ws \<Rightarrow> mobile_ws" where
  "connect s =
     (if \<not> signed_in s then s
      else s\<lparr> conns := conns s @ [\<lparr> sentToken = the (authToken s), phase = Connecting \<rparr>],
               wsRef := Some (length (conns s)), authenticated := False \<rparr>)"

definition conn_opens :: "nat \<Rightarrow> mobile_ws \<Rightarrow> mobile_ws" where
  "conn_opens i s =
     (if conn_is (\<lambda>r. r = Connecting) i s
      then (set_phase i Open s)\<lparr> frames := frames s
        @ [(i, JObj [(''type'', JStr ''auth''), (''token'', JStr (sentToken (conns s ! i)))])] \<rparr>
      else s)"

definition frame_type :: "cell \<Rightarrow> jsv option" where
  "frame_type raw = (case parse_cell raw of None \<Rightarrow> None | Some m \<Rightarrow> member m ''type'')"

definition channel_frame :: "string \<Rightarrow> string \<Rightarrow> jsv" where
  "channel_frame ty ch = JObj [(''type'', JStr ty), (''channels'', JArr [JStr ch])]"

definition conn_receives :: "nat \<Rightarrow> cell \<Rightarrow> mobile_ws \<Rightarrow> mobile_ws" where
  "conn_receives i raw s =
     (if \<not> conn_is (\<lambda>r. r = Open) i s then s
      else case frame_type raw of
        None \<Rightarrow> s
      | Some t \<Rightarrow>
          if t = JStr ''auth_success'' then
            (setWebSocketConnected True (s\<lparr> authenticated := True \<rparr>))
              \<lparr> reconnectDelay := WS_RECONNECT_DELAY_BASE,
                frames := frames s @ [(i, channel_frame ''subscribe'' ''notifications'')] \<rparr>
          else if t = JStr ''auth_error'' then close_conn i s
          else if \<not> authenticated s then s
          else if t = JStr ''notification'' then incrementUnread s
          else s)"

definition conn_closes :: "nat \<Rightarrow> mobile_ws \<Rightarrow> mobile_ws" where
  "conn_closes i s =
     (if conn_is (\<lambda>r. r \<noteq> Closed) i s then
        (let s = setWebSocketConnected False ((set_phase i Closed s)\<lparr> authenticated := False \<rparr>) in
         if signed_in s
         then s\<lparr> timers := timers s @ [nextTimer s], timerRef := Some (nextTimer s), nextTimer := Suc (nextTimer s) \<rparr>
         else s)
      else s)"

definition conn_error :: "nat \<Rightarrow> mobile_ws \<Rightarrow> mobile_ws" where
  "conn_error i s = (if conn_is (\<lambda>r. r \<noteq> Closed) i s then setWebSocketConnected False s else s)"

definition reconnect_fires :: "nat \<Rightarrow> mobile_ws \<Rightarrow> mobile_ws" where
  "reconnect_fires t s =
     (if t \<in> set (timers s)
      then connect (s\<lparr> timers := removeAll t (timers s),
        reconnectDelay := min (reconnectDelay s * 2) WS_MAX_RECONNECT_DELAY \<rparr>)
      else s)"

text \<open>The effect on the token: the clean-up disconnects, a token connects.\<close>

definition token_changes :: "string option \<Rightarrow> mobile_ws \<Rightarrow> mobile_ws" where
  "token_changes tok s =
     (if tok = authToken s then s else connect (disconnect (s\<lparr> authToken := tok \<rparr>)))"

definition channel_request :: "string \<Rightarrow> string \<Rightarrow> mobile_ws \<Rightarrow> mobile_ws" where
  "channel_request ty ch s =
     (case wsRef s of
        Some i \<Rightarrow> if conn_is (\<lambda>r. r = Open) i s \<and> authenticated s
                  then s\<lparr> frames := frames s @ [(i, channel_frame ty ch)] \<rparr> else s
      | None \<Rightarrow> s)"

definition subscribe :: "string \<Rightarrow> mobile_ws \<Rightarrow> mobile_ws" where
  "subscribe ch s = channel_request ''subscribe'' ch s"

definition unsubscribe :: "string \<Rightarrow> mobile_ws \<Rightarrow> mobile_ws" where
  "unsubscribe ch s = channel_request ''unsubscribe'' ch s"

section \<open>Read state and badge\<close>

text \<open>The request's answer is an argument; the operations do nothing without a token.\<close>

definition fetchUnreadCount :: "int option \<Rightarrow> mobile_ws \<Rightarrow> mobile_ws" where
  "fetchUnreadCount count s =
     (if \<not> signed_in s then s
      else case count of None \<Rightarrow> s | Some n \<Rightarrow> setBadgeCount n (setUnreadCount n s))"

definition markAsRead :: "bool \<Rightarrow> mobile_ws \<Rightarrow> bool \<times> mobile_ws" where
  "markAsRead accepted s =
     (if \<not> signed_in s \<or> \<not> accepted then (False, s)
      else (let s = decrementUnread s; newCount = max 0 (unreadCount s - 1) in
        (True, setBadgeCount newCount s)))"

definition markAllAsRead :: "bool \<Rightarrow> mobile_ws \<Rightarrow> bool \<times> mobile_ws" where
  "markAllAsRead accepted s =
     (if \<not> signed_in s \<or> \<not> accepted then (False, s) else (True, setBadgeCount 0 (setUnreadCount 0 s)))"

definition updatePreferences :: "jsv option \<Rightarrow> mobile_ws \<Rightarrow> bool \<times> mobile_ws" where
  "updatePreferences answer s =
     (if \<not> signed_in s then (False, s)
      else case answer of None \<Rightarrow> (False, s) | Some p \<Rightarrow> (True, setPreferences p s))"

text \<open>A push notification arrives in the foreground.\<close>

definition push_count :: "mobile_ws \<Rightarrow> mobile_ws" where
  "push_count s = (let n = unreadCount s + 1 in setBadgeCount n (setUnreadCount n s))"

definition registerToken :: "string \<Rightarrow> bool \<Rightarrow> mobile_ws \<Rightarrow> bool \<times> mobile_ws" where
  "registerToken t accepted s =
     (if \<not> signed_in s \<or> \<not> accepted then (False, s) else (True, setPushToken (Some t) s))"

definition unregisterToken :: "string \<Rightarrow> bool \<Rightarrow> mobile_ws \<Rightarrow> bool \<times> mobile_ws" where
  "unregisterToken t accepted s =
     (if \<not> signed_in s \<or> \<not> accepted then (False, s) else (True, setPushToken None s))"

datatype mobile_ws_event =
    NToken "string option"
  | NOpens nat
  | NReceives nat cell
  | NCloses nat
  | NErrors nat
  | NTimer nat
  | NDisconnect
  | NSubscribe string
  | NUnsubscribe string
  | NFetched "int option"
  | NRead bool
  | NReadAll bool
  | NPreferences "jsv option"
  | NPush
  | NRegister string bool
  | NUnregister string bool

fun ws_step :: "mobile_ws \<Rightarrow> mobile_ws_event \<Rightarrow> mobile_ws" where
  "ws_step s (NToken t) = token_changes t s"
| "ws_step s (NOpens i) = conn_opens i s"
| "ws_step s (NReceives i raw) = conn_receives i raw s"
| "ws_step s (NCloses i) = conn_closes i s"
| "ws_step s (NErrors i) = conn_error i s"
| "ws_step s (NTimer t) = reconnect_fires t s"
| "ws_step s NDisconnect = disconnect s"
| "ws_step s (NSubscribe ch) = subscribe ch s"
| "ws_step s (NUnsubscribe ch) = unsubscribe ch s"
| "ws_step s (NFetched n) = fetchUnreadCount n s"
| "ws_step s (NRead ok) = snd (markAsRead ok s)"
| "ws_step s (NReadAll ok) = snd (markAllAsRead ok s)"
| "ws_step s (NPreferences p) = snd (updatePreferences p s)"
| "ws_step s NPush = push_count s"
| "ws_step s (NRegister t ok) = snd (registerToken t ok s)"
| "ws_step s (NUnregister t ok) = snd (unregisterToken t ok s)"

definition ws_init :: "mobile_ws" where
  "ws_init = \<lparr> conns = [], wsRef = None, timers = [], timerRef = None, nextTimer = 0,
     reconnectDelay = WS_RECONNECT_DELAY_BASE, authenticated = False, authToken = None, frames = [],
     unreadCount = 0, isWebSocketConnected = False, preferences = JNull, storePushToken = None, badge = 0 \<rparr>"

lemmas store_ops = setUnreadCount_def incrementUnread_def decrementUnread_def setWebSocketConnected_def
  setPreferences_def setPushToken_def setBadgeCount_def

lemmas conn_ops = conn_is_def set_phase_def signed_in_def close_conn_def disconnect_def connect_def conn_opens_def conn_receives_def
  conn_closes_def conn_error_def reconnect_fires_def token_changes_def channel_request_def subscribe_def
  unsubscribe_def

lemmas count_ops = fetchUnreadCount_def markAsRead_def markAllAsRead_def updatePreferences_def
  push_count_def registerToken_def unregisterToken_def

section \<open>Opening a tapped notification\<close>

record notification_data =
  deep_link :: "string option"
  entity_type :: "string option"
  entity_id :: "string option"
  action_url :: "string option"

record push_nav =
  navigationHandled :: bool
  pushedRoutes :: "string list"

definition present :: "string option \<Rightarrow> bool" where
  "present x = (x \<noteq> None \<and> x \<noteq> Some [])"

definition notification_route :: "notification_data \<Rightarrow> string option" where
  "notification_route d =
     (let r1 = (if present (deep_link d) then getRouteFromDeepLink (the (deep_link d)) else None);
          r2 = (if \<not> present r1 \<and> present (entity_type d) \<and> present (entity_id d)
                then getRouteFromDeepLink (createDeepLinkFromEntity (entity_type d) (entity_id d)) else r1) in
      if \<not> present r2 \<and> present (action_url d) then getRouteFromDeepLink (the (action_url d)) else r2)"

definition handleNotificationNavigation :: "notification_data option \<Rightarrow> push_nav \<Rightarrow> push_nav" where
  "handleNotificationNavigation data s =
     (case data of
        None \<Rightarrow> s
      | Some d \<Rightarrow>
          if navigationHandled s then s
          else if present (notification_route d)
            then s\<lparr> navigationHandled := True, pushedRoutes := pushedRoutes s @ [the (notification_route d)] \<rparr>
          else s)"

definition push_received :: "push_nav \<Rightarrow> push_nav" where
  "push_received s = s\<lparr> navigationHandled := False \<rparr>"

section \<open>The badge\<close>

text \<open>The badge falls behind the unread count: with \<open>n\<close> unread notifications (two or more),
  marking one as read leaves \<open>n - 1\<close> unread but shows \<open>n - 2\<close> on the app icon, because the count
  is read back after it was already decremented.\<close>

theorem badge_falls_behind:
  fixes n :: int
  assumes "signed_in s" "2 \<le> n"
  defines "s' \<equiv> run ws_step [NFetched (Some n), NRead True] s"
  shows "badge (ws_step s (NFetched (Some n))) = n \<and> unreadCount s' = n - 1 \<and> badge s' = n - 2"
  using assms by (simp add: count_ops store_ops signed_in_def)

section \<open>Backing off\<close>

definition backing_off :: "mobile_ws \<Rightarrow> bool" where
  "backing_off s = (\<exists>k. reconnectDelay s = min (1000 * 2 ^ k) 30000)"

lemma delay_doubles:
  assumes "d = min (1000 * 2 ^ k) (30000 :: int)"
  shows "\<exists>j. min (d * 2) 30000 = min (1000 * 2 ^ j) (30000 :: int)"
proof (cases "1000 * 2 ^ k \<le> (30000 :: int)")
  case True
  then have "min (d * 2) 30000 = min (1000 * 2 ^ Suc k) (30000 :: int)"
    using assms by (simp add: min_def)
  then show ?thesis by blast
next
  case False
  then have "min (d * 2) 30000 = min (1000 * 2 ^ k) (30000 :: int)"
    using assms by (simp add: min_def)
  then show ?thesis by blast
qed

lemma delay_connect [simp]:
  "reconnectDelay (connect s) = reconnectDelay s"
  "reconnectDelay (disconnect s) = reconnectDelay s"
  "reconnectDelay (close_conn i s) = reconnectDelay s"
  by (simp_all add: conn_ops store_ops Let_def split: option.split)

interpretation backoff: machine ws_step backing_off
proof (unfold_locales, goal_cases)
  case (1 s e)
  have base: "\<exists>k. WS_RECONNECT_DELAY_BASE = min (1000 * 2 ^ k) 30000"
    by (rule exI [of _ 0]) (simp add: WS_RECONNECT_DELAY_BASE_def)
  from 1 obtain k where k: "reconnectDelay s = min (1000 * 2 ^ k) 30000"
    by (auto simp: backing_off_def)
  show ?case
  proof (cases e)
    case (NReceives i raw)
    then show ?thesis
      using 1 base by (auto simp: backing_off_def conn_receives_def store_ops split: option.split)
  next
    case (NTimer t)
    then show ?thesis
      using 1 delay_doubles [OF k] by (auto simp: backing_off_def reconnect_fires_def WS_MAX_RECONNECT_DELAY_def)
  qed (use 1 in \<open>auto simp: backing_off_def conn_opens_def conn_closes_def conn_error_def set_phase_def
      token_changes_def channel_request_def subscribe_def unsubscribe_def count_ops store_ops Let_def
      split: option.split\<close>)
qed

text \<open>Reconnection backs off exponentially and stays bounded: after any run the delay is 1 s
  doubled some number of times, capped at 30 s; a timer that fires doubles it, and an authenticated
  connection resets it to 1 s.\<close>

theorem reconnect_delay_bounded:
  fixes es :: "mobile_ws_event list"
  shows "(let s = run ws_step es ws_init in
     1000 \<le> reconnectDelay s \<and> reconnectDelay s \<le> 30000
     \<and> (\<exists>k. reconnectDelay s = min (1000 * 2 ^ k) 30000)
     \<and> reconnectDelay (ws_step s (NTimer t))
         = (if t \<in> set (timers s) then min (2 * reconnectDelay s) 30000 else reconnectDelay s)
     \<and> reconnectDelay (ws_step s (NReceives i (Json (JObj [(''type'', JStr ''auth_success'')]))))
         = (if conn_is (\<lambda>r. r = Open) i s then 1000 else reconnectDelay s))"
proof -
  let ?s = "run ws_step es ws_init"
  have "backing_off ws_init"
    unfolding backing_off_def by (rule exI [of _ 0]) (simp add: ws_init_def WS_RECONNECT_DELAY_BASE_def)
  then have b: "backing_off ?s" by (rule backoff.every_run_inv)
  then obtain k where k: "reconnectDelay ?s = min (1000 * 2 ^ k) 30000" by (auto simp: backing_off_def)
  have "(1000 :: int) * 1 \<le> 1000 * 2 ^ k" by (intro mult_left_mono one_le_power) simp_all
  then have "1000 \<le> reconnectDelay ?s" "reconnectDelay ?s \<le> 30000" unfolding k by simp_all
  then show ?thesis
    using b unfolding Let_def backing_off_def
    by (simp add: reconnect_fires_def WS_MAX_RECONNECT_DELAY_def mult.commute conn_receives_def frame_type_def
        store_ops WS_RECONNECT_DELAY_BASE_def)
qed

section \<open>Connections that outlive their token\<close>

definition auth_success :: cell where
  "auth_success = Json (JObj [(''type'', JStr ''auth_success'')])"

definition notification :: cell where
  "notification = Json (JObj [(''type'', JStr ''notification'')])"

lemma frame_types [simp]:
  "frame_type auth_success = Some (JStr ''auth_success'')"
  "frame_type notification = Some (JStr ''notification'')"
  by (simp_all add: auth_success_def notification_def frame_type_def)

text \<open>A token refresh: the old connection is closed and a new one opened; the old one then reports
  its end, and its handler, finding a token, schedules one more.\<close>

definition refresh_events :: "string \<Rightarrow> nat \<Rightarrow> nat \<Rightarrow> mobile_ws_event list" where
  "refresh_events tok i t = [NToken (Some tok), NCloses i, NTimer t]"

definition both_live :: "nat \<Rightarrow> mobile_ws \<Rightarrow> bool" where
  "both_live a s = (map phase (drop a (conns s)) = [Connecting, Connecting] \<and> a \<le> length (conns s)
     \<and> wsRef s = Some (Suc a))"

lemma refresh_leaves_two:
  assumes "wsRef s = Some i" "conn_is (\<lambda>r. r = Open) i s" "authToken s \<noteq> Some tok" "tok \<noteq> []"
  shows "both_live (length (conns s)) (run ws_step (refresh_events tok i (nextTimer s)) s)
    \<and> unreadCount (run ws_step (refresh_events tok i (nextTimer s)) s) = unreadCount s"
proof -
  let ?n = "length (conns s)"
  define c where "c = (conns s)[i := (conns s ! i)\<lparr> phase := Closing \<rparr>] @ [\<lparr> sentToken = tok, phase = Connecting \<rparr>]"
  have i: "i < ?n" "phase (conns s ! i) = Open" using assms(2) by (simp_all add: conn_is_def)
  obtain T where T: "ws_step s (NToken (Some tok))
      = s\<lparr> conns := c, wsRef := Some ?n, authenticated := False, timers := T, timerRef := None,
           isWebSocketConnected := False, authToken := Some tok \<rparr>"
  proof (cases "timerRef s")
    case None
    then show ?thesis
      using assms i by (intro that [of "timers s"])
        (simp add: token_changes_def disconnect_def close_conn_def conn_is_def connect_def signed_in_def
          set_phase_def setWebSocketConnected_def Let_def c_def)
  next
    case (Some t)
    then show ?thesis
      using assms i by (intro that [of "removeAll t (timers s)"])
        (simp add: token_changes_def disconnect_def close_conn_def conn_is_def connect_def signed_in_def
          set_phase_def setWebSocketConnected_def Let_def c_def)
  qed
  have c: "length c = Suc ?n" "phase (c ! i) = Closing" "c ! ?n = \<lparr> sentToken = tok, phase = Connecting \<rparr>"
    using i by (simp_all add: c_def nth_append)
  have "drop ?n (c[i := x]) = [\<lparr> sentToken = tok, phase = Connecting \<rparr>]" for x
    using i by (simp add: c_def list_update_append)
  then show ?thesis
    using i c assms(4) unfolding refresh_events_def run_Cons run_Nil T
    by (simp add: conn_closes_def conn_is_def set_phase_def setWebSocketConnected_def signed_in_def Let_def
        reconnect_fires_def connect_def both_live_def)
qed

definition both_answer :: "nat \<Rightarrow> mobile_ws_event list" where
  "both_answer a = [NOpens a, NOpens (Suc a), NReceives a auth_success, NReceives (Suc a) auth_success,
     NReceives a notification, NReceives (Suc a) notification]"

lemma two_live_shape:
  assumes "both_live a s"
  obtains xs t1 t2 where "conns s = xs @ [\<lparr> sentToken = t1, phase = Connecting \<rparr>, \<lparr> sentToken = t2, phase = Connecting \<rparr>]"
    and "length xs = a" "wsRef s = Some (Suc a)"
proof -
  obtain u v where uv: "drop a (conns s) = [u, v]" "phase u = Connecting" "phase v = Connecting"
    using assms by (auto simp: both_live_def map_eq_Cons_conv)
  have "conns s = take a (conns s) @ [u, v]" using append_take_drop_id [of a "conns s"] uv(1) by simp
  moreover have "u = \<lparr> sentToken = sentToken u, phase = Connecting \<rparr>" "v = \<lparr> sentToken = sentToken v, phase = Connecting \<rparr>"
    using uv(2,3) by simp_all
  ultimately have "conns s = take a (conns s) @ [\<lparr> sentToken = sentToken u, phase = Connecting \<rparr>, \<lparr> sentToken = sentToken v, phase = Connecting \<rparr>]"
    by simp
  moreover have "length (take a (conns s)) = a" "wsRef s = Some (Suc a)"
    using assms by (simp_all add: both_live_def)
  ultimately show thesis by (rule that)
qed

lemma receive_effects:
  "conn_is (\<lambda>r. r = Open) i s \<Longrightarrow> authenticated (conn_receives i auth_success s)"
  "raw = auth_success \<or> raw = notification \<Longrightarrow> conns (conn_receives i raw s) = conns s"
  "unreadCount (conn_receives i auth_success s) = unreadCount s"
  "wsRef (conn_receives i raw s) = wsRef s"
  "conn_is (\<lambda>r. r = Open) i s \<Longrightarrow> authenticated s
    \<Longrightarrow> unreadCount (conn_receives i notification s) = unreadCount s + 1 \<and> authenticated (conn_receives i notification s)"
  by (auto simp: conn_receives_def store_ops close_conn_def set_phase_def split: option.split)

lemma open_effects:
  "conn_is (\<lambda>r. r = Connecting) i s \<Longrightarrow> conns (conn_opens i s) = (conns s)[i := (conns s ! i)\<lparr> phase := Open \<rparr>]"
  "unreadCount (conn_opens i s) = unreadCount s"
  "wsRef (conn_opens i s) = wsRef s"
  by (simp_all add: conn_opens_def set_phase_def)

lemma both_answered:
  assumes "conns s = xs @ [\<lparr> sentToken = t1, phase = Connecting \<rparr>, \<lparr> sentToken = t2, phase = Connecting \<rparr>]"
    and "length xs = a" "wsRef s = Some (Suc a)"
  defines "t \<equiv> run ws_step (both_answer a) s"
  shows "unreadCount t = unreadCount s + 2" "wsRef t = Some (Suc a)"
    and "conns t = xs @ [\<lparr> sentToken = t1, phase = Open \<rparr>, \<lparr> sentToken = t2, phase = Open \<rparr>]"
proof -
  let ?o = "xs @ [\<lparr> sentToken = t1, phase = Open \<rparr>, \<lparr> sentToken = t2, phase = Open \<rparr>]"
  define u where "u = conn_opens (Suc a) (conn_opens a s)"
  have "conns (conn_opens a s) = xs @ [\<lparr> sentToken = t1, phase = Open \<rparr>, \<lparr> sentToken = t2, phase = Connecting \<rparr>]"
    using assms(1,2) by (simp add: open_effects conn_is_def nth_append list_update_append)
  then have u: "conns u = ?o" "unreadCount u = unreadCount s" "wsRef u = wsRef s"
    using assms(2) by (simp_all add: u_def open_effects conn_is_def nth_append list_update_append)
  define v where "v = conn_receives (Suc a) auth_success (conn_receives a auth_success u)"
  have v: "conns v = ?o" "unreadCount v = unreadCount s" "wsRef v = wsRef s"
    using u receive_effects(2) [of auth_success] by (simp_all add: v_def receive_effects)
  have open_at: "conn_is (\<lambda>r. r = Open) a x \<and> conn_is (\<lambda>r. r = Open) (Suc a) x" if "conns x = ?o" for x
    using that assms(2) by (simp add: conn_is_def nth_append)
  have av: "authenticated v"
    unfolding v_def using receive_effects(1) open_at u(1) receive_effects(2) [of auth_success a u] by simp
  define w where "w = conn_receives a notification v"
  have w: "conns w = ?o" "unreadCount w = unreadCount s + 1" "wsRef w = wsRef s" "authenticated w"
    using v receive_effects(2) [of notification a v] receive_effects(5) [of a v] av open_at
    by (simp_all add: w_def receive_effects(4))
  have t: "t = conn_receives (Suc a) notification w"
    by (simp add: t_def both_answer_def w_def v_def u_def)
  show "unreadCount t = unreadCount s + 2" "wsRef t = Some (Suc a)" "conns t = ?o"
    using w receive_effects(2) [of notification "Suc a" w] receive_effects(5) [of "Suc a" w] open_at assms(3)
    by (simp_all add: t receive_effects(4))
qed

lemma two_live_count_twice:
  assumes "both_live a s"
  shows "unreadCount (run ws_step (both_answer a) s) = unreadCount s + 2
    \<and> conn_is (\<lambda>r. r = Open) a (run ws_step (both_answer a @ [NToken None]) s)"
proof -
  obtain xs t1 t2 where xs: "conns s = xs @ [\<lparr> sentToken = t1, phase = Connecting \<rparr>, \<lparr> sentToken = t2, phase = Connecting \<rparr>]"
    and a: "length xs = a" "wsRef s = Some (Suc a)" using assms by (rule two_live_shape)
  define t where "t = run ws_step (both_answer a) s"
  have t: "unreadCount t = unreadCount s + 2" "wsRef t = Some (Suc a)"
      "conns t = xs @ [\<lparr> sentToken = t1, phase = Open \<rparr>, \<lparr> sentToken = t2, phase = Open \<rparr>]"
    unfolding t_def by (rule both_answered [OF xs a])+
  have "conn_is (\<lambda>r. r = Open) a (ws_step t (NToken None))"
    using t(2,3) a(1)
    by (simp add: token_changes_def disconnect_def close_conn_def conn_is_def connect_def signed_in_def
        set_phase_def setWebSocketConnected_def Let_def nth_append list_update_append split: option.split)
  then show ?thesis using t(1) by (simp add: t_def)
qed

text \<open>A token refresh leaves two live connections: the closed one is reopened although its
  successor exists, so one notification sent to both is counted twice, and signing out closes only
  the younger one.\<close>

theorem token_refresh_counts_twice:
  fixes s :: mobile_ws
  assumes "wsRef s = Some i" "conn_is (\<lambda>r. r = Open) i s" "authToken s \<noteq> Some tok" "tok \<noteq> []"
  defines "es \<equiv> refresh_events tok i (nextTimer s) @ both_answer (length (conns s))"
  shows "unreadCount (run ws_step es s) = unreadCount s + 2
    \<and> conn_is (\<lambda>r. r = Open) (length (conns s)) (run ws_step (es @ [NToken None]) s)"
  using two_live_count_twice [OF conjunct1 [OF refresh_leaves_two [OF assms(1-4)]]]
    refresh_leaves_two [OF assms(1-4)]
  by (simp add: es_def)

section \<open>Signed out\<close>

fun no_sign_in :: "mobile_ws_event \<Rightarrow> bool" where
  "no_sign_in (NToken t) = (t = None)"
| "no_sign_in e = True"

definition offline_with :: "nat \<Rightarrow> mobile_ws \<Rightarrow> bool" where
  "offline_with n s = (authToken s = None \<and> length (conns s) = n)"

lemma offline_ops:
  "offline_with n s \<Longrightarrow> offline_with n (connect s)"
  "offline_with n s \<Longrightarrow> offline_with n (close_conn i s)"
  "offline_with n s \<Longrightarrow> offline_with n (disconnect s)"
  by (simp_all add: offline_with_def connect_def signed_in_def close_conn_def set_phase_def disconnect_def
      setWebSocketConnected_def Let_def split: option.split)

interpretation signed_out: guarded_machine ws_step no_sign_in "offline_with n" for n
proof (unfold_locales, goal_cases)
  case (1 s e)
  show ?case
  proof (cases e)
    case (NToken t)
    then show ?thesis using 1 by (simp add: token_changes_def offline_with_def)
  next
    case (NReceives i raw)
    then show ?thesis
      using 1 offline_ops(2)
      by (simp add: conn_receives_def store_ops offline_with_def close_conn_def set_phase_def split: option.split)
  qed (use 1 in \<open>auto simp: offline_with_def conn_opens_def conn_closes_def conn_error_def set_phase_def
      reconnect_fires_def connect_def signed_in_def disconnect_def close_conn_def channel_request_def
      subscribe_def unsubscribe_def count_ops store_ops Let_def split: option.split\<close>)
qed

text \<open>A signed-out app opens no connection: from sign-out to the next sign-in, whatever closes,
  errors, pending reconnection timers and late frames arrive, the number of sockets ever opened stays
  the same and every operation that needs the server is refused.\<close>

theorem signed_out_opens_nothing:
  fixes s :: mobile_ws
  assumes "list_all no_sign_in es"
  defines "s' \<equiv> run ws_step es (ws_step s (NToken None))"
  shows "length (conns s') = length (conns s)
    \<and> markAsRead ok s' = (False, s') \<and> markAllAsRead ok s' = (False, s') \<and> registerToken t ok s' = (False, s')"
proof -
  have "offline_with (length (conns s)) (ws_step s (NToken None))"
  proof (cases "authToken s")
    case (Some u)
    have "offline_with (length (conns s)) (s\<lparr> authToken := None \<rparr>)" by (simp add: offline_with_def)
    then show ?thesis using Some by (simp add: token_changes_def offline_ops)
  qed (simp add: token_changes_def offline_with_def)
  from signed_out.run_inv [OF this assms(1)]
  have "authToken s' = None" "length (conns s') = length (conns s)"
    by (simp_all add: s'_def offline_with_def)
  then show ?thesis by (simp add: markAsRead_def markAllAsRead_def registerToken_def signed_in_def)
qed

section \<open>Taps\<close>

text \<open>A fold of taps.\<close>

definition taps :: "notification_data option list \<Rightarrow> push_nav \<Rightarrow> push_nav" where
  "taps ds s = fold handleNotificationNavigation ds s"

lemma handled_stays:
  "navigationHandled s \<Longrightarrow> taps ds s = s"
  by (induction ds) (simp_all add: taps_def handleNotificationNavigation_def split: option.split)

lemma first_tap:
  assumes "\<not> navigationHandled s" "present (notification_route d)"
  shows "taps (Some d # ds) s = s\<lparr> navigationHandled := True,
    pushedRoutes := pushedRoutes s @ [the (notification_route d)] \<rparr>"
  using assms handled_stays by (simp add: taps_def handleNotificationNavigation_def)

text \<open>Only the first tap opens something: a tap whose notification has a route opens it (the
  route of its deep link, its entity or its action link), and after that every tap is ignored until a
  push arrives while the app is in the foreground.\<close>

theorem later_taps_ignored:
  assumes "\<not> navigationHandled s" "present (notification_route d)"
  shows "pushedRoutes (taps (Some d # ds) s) = pushedRoutes s @ [the (notification_route d)]
    \<and> pushedRoutes (taps (Some d # ds) (push_received (taps (Some d # ds) s)))
        = pushedRoutes s @ [the (notification_route d), the (notification_route d)]"
proof -
  show ?thesis using assms by (simp add: first_tap push_received_def)
qed

text \<open>A notification about a supported entity opens its route.\<close>

lemma entity_notification_route:
  assumes "\<not> present (deep_link d)" "getDeepLinkTypeFromEntity (entity_type d) = t" "t \<noteq> Unknown"
    and "entity_id d = Some i" "i \<noteq> []" "CHR ''/'' \<notin> set i"
  shows "notification_route d = DEEP_LINK_ROUTES t i"
proof -
  have "present (entity_type d)"
    using assms(2,3) by (cases "entity_type d") (auto simp: present_def getDeepLinkTypeFromEntity_def)
  moreover have "getRouteFromDeepLink (generateDeepLink t i) = DEEP_LINK_ROUTES t i"
    using parse_generated [OF assms(3,5,6)] assms(3) by (cases t) (auto simp: getRouteFromDeepLink_def)
  moreover have "present (DEEP_LINK_ROUTES t i)" using assms(3) by (cases t) (auto simp: present_def)
  moreover have "\<not> present None" "present (entity_id d)"
    using assms(4,5) by (simp_all add: present_def)
  moreover have "createDeepLinkFromEntity (entity_type d) (entity_id d) = generateDeepLink t i"
    using assms(2-5) \<open>present (entity_type d)\<close> by (auto simp: createDeepLinkFromEntity_def present_def)
  ultimately show ?thesis
    using assms(1) by (simp add: notification_route_def Let_def)
qed

section \<open>Witnesses\<close>

definition online :: "mobile_ws" where
  "online = run ws_step [NToken (Some ''t1''), NOpens 0, NReceives 0 auth_success] ws_init"

lemma online_state [simp]:
  "conns online = [\<lparr> sentToken = ''t1'', phase = Open \<rparr>]" "wsRef online = Some 0" "nextTimer online = 0"
  "authToken online = Some ''t1''" "unreadCount online = 0" "signed_in online"
  by (simp_all add: online_def ws_init_def conn_ops store_ops auth_success_def frame_type_def Let_def)

lemma signed_out_witness:
  "length (conns (run ws_step [NCloses 0, NTimer 0, NReceives 0 notification] (ws_step online (NToken None)))) = 1"
  using signed_out_opens_nothing [of "[NCloses 0, NTimer 0, NReceives 0 notification]" online] by simp

lemma badge_witness: "badge (run ws_step [NFetched (Some 5), NRead True] online) = 3"
  using badge_falls_behind [of online 5] by simp

lemma token_refresh_witness:
  "unreadCount (run ws_step (refresh_events ''t2'' 0 0 @ both_answer 1) online) = 2"
  using token_refresh_counts_twice [of online 0 "''t2''"] by (simp add: conn_is_def)

lemma later_taps_witness:
  "let d = \<lparr> deep_link = Some ''amgportal://programs/p1'', entity_type = None, entity_id = None, action_url = None \<rparr>;
     e = d\<lparr> deep_link := Some ''amgportal://messages/m2'' \<rparr> in
   pushedRoutes (taps [Some d, Some e] \<lparr> navigationHandled = False, pushedRoutes = [] \<rparr>) = [''/(client)/programs/p1'']"
proof -
  define d where "d = \<lparr> deep_link = Some ''amgportal://programs/p1'', entity_type = None, entity_id = None, action_url = None \<rparr>"
  have r: "notification_route d = Some ''/(client)/programs/p1''"
    by (simp add: d_def notification_route_def present_def getRouteFromDeepLink_def parseDeepLink_def
        strip_prefix_def starts_with_def DEEP_LINK_SCHEME_def parse_type_def Let_def)
  then show ?thesis
    using later_taps_ignored [of "\<lparr> navigationHandled = False, pushedRoutes = [] \<rparr>" d "[Some (d\<lparr> deep_link := Some ''amgportal://messages/m2'' \<rparr>)]"]
    unfolding d_def [symmetric] Let_def by (simp add: present_def)
qed

end
