(* ===== verification/Navigation.thy ===== *)
theory Navigation
  imports Machines Storage
begin

text \<open>
  Navigation state per route: the store of \<open>frontend/src/stores/navigation-store.ts\<close> and the
  hooks of \<open>use-navigation-state.ts\<close> (filters, pagination and scroll position to restore on
  return).  A mounted page is the store together with the local state of its hooks; each event is
  followed by the render it causes and by the effects of that render, in the order of the hooks.
\<close>

section \<open>The store\<close>

record route_state =
  st_scrollY :: int
  st_filters :: jsobj
  st_sort :: "(string \<times> string) option"
  st_pagination :: jsobj
  st_timestamp :: int

record nav_store =
  routeStates :: "(string \<times> route_state) list"
  pendingRestores :: "(string \<times> bool) list"

definition nav_store_init :: "nav_store" where
  "nav_store_init = \<lparr> routeStates = [], pendingRestores = [] \<rparr>"

definition createDefaultState :: "int \<Rightarrow> route_state" where
  "createDefaultState now = \<lparr> st_scrollY = 0, st_filters = [], st_sort = None, st_pagination = [],
     st_timestamp = now \<rparr>"

text \<open>One trailing slash goes, then everything from the first question mark; the empty path is the
  root.\<close>

definition strip_slash :: "string \<Rightarrow> string" where
  "strip_slash r = (if r \<noteq> [] \<and> last r = CHR ''/'' then butlast r else r)"

definition normalizeRoute :: "string \<Rightarrow> string" where
  "normalizeRoute r =
     (let p = hd (split_on (CHR ''?'') (strip_slash r)) in if p = [] then ''/'' else p)"

text \<open>\<open>saveState(route, partial)\<close>; the partial state is an update of the existing one.\<close>

definition saveState :: "int \<Rightarrow> string \<Rightarrow> (route_state \<Rightarrow> route_state) \<Rightarrow> nav_store \<Rightarrow> nav_store" where
  "saveState now route upd s =
     (let k = normalizeRoute route;
          existing = (case map_of (routeStates s) k of None \<Rightarrow> createDefaultState now | Some st \<Rightarrow> st) in
      s\<lparr> routeStates := AList.update k ((upd existing)\<lparr> st_timestamp := now \<rparr>) (routeStates s) \<rparr>)"

definition getState :: "nav_store \<Rightarrow> string \<Rightarrow> route_state option" where
  "getState s route = map_of (routeStates s) (normalizeRoute route)"

definition clearState :: "string \<Rightarrow> nav_store \<Rightarrow> nav_store" where
  "clearState route s = s\<lparr> routeStates := AList.delete (normalizeRoute route) (routeStates s) \<rparr>"

definition setPendingRestore :: "string \<Rightarrow> bool \<Rightarrow> nav_store \<Rightarrow> nav_store" where
  "setPendingRestore route p s =
     s\<lparr> pendingRestores := AList.update (normalizeRoute route) p (pendingRestores s) \<rparr>"

definition hasPendingRestore :: "nav_store \<Rightarrow> string \<Rightarrow> bool" where
  "hasPendingRestore s route = (map_of (pendingRestores s) (normalizeRoute route) = Some True)"

definition clearPendingRestore :: "string \<Rightarrow> nav_store \<Rightarrow> nav_store" where
  "clearPendingRestore route s =
     s\<lparr> pendingRestores := AList.delete (normalizeRoute route) (pendingRestores s) \<rparr>"

definition resetAll :: "nav_store \<Rightarrow> nav_store" where
  "resetAll s = \<lparr> routeStates = [], pendingRestores = [] \<rparr>"

text \<open>The reload of the page: the store comes back from its JSON text.\<close>

definition reload_state :: "route_state \<Rightarrow> route_state" where
  "reload_state st = st\<lparr> st_filters := norm_fields (st_filters st), st_pagination := norm_fields (st_pagination st) \<rparr>"

definition nav_rehydrate :: "nav_store \<Rightarrow> nav_store" where
  "nav_rehydrate s = s\<lparr> routeStates := map (\<lambda>(k, st). (k, reload_state st)) (routeStates s) \<rparr>"

lemmas nav_store_ops = saveState_def clearState_def setPendingRestore_def clearPendingRestore_def

lemma getState_ops [simp]:
  "getState (setPendingRestore r p s) q = getState s q"
  "getState (clearPendingRestore r s) q = getState s q"
  "getState (clearState r s) q = (if normalizeRoute q = normalizeRoute r then None else getState s q)"
  "getState (saveState now r upd s) q =
     (if normalizeRoute q = normalizeRoute r
      then Some ((upd (case getState s r of None \<Rightarrow> createDefaultState now | Some st \<Rightarrow> st))\<lparr> st_timestamp := now \<rparr>)
      else getState s q)"
  by (simp_all add: getState_def nav_store_ops delete_conv' update_conv' Let_def)

lemma pending_ops [simp]:
  "hasPendingRestore (setPendingRestore r p s) q
     = (if normalizeRoute q = normalizeRoute r then p else hasPendingRestore s q)"
  "hasPendingRestore (clearPendingRestore r s) q
     = (normalizeRoute q \<noteq> normalizeRoute r \<and> hasPendingRestore s q)"
  "hasPendingRestore (clearState r s) q = hasPendingRestore s q"
  "hasPendingRestore (saveState now r upd s) q = hasPendingRestore s q"
  by (simp_all add: hasPendingRestore_def nav_store_ops delete_conv' update_conv' Let_def)

datatype route_op =
    RSave int "route_state \<Rightarrow> route_state"
  | RClear
  | RPending bool
  | RClearPending

fun route_act :: "string \<Rightarrow> route_op \<Rightarrow> nav_store \<Rightarrow> nav_store" where
  "route_act k (RSave now upd) s = saveState now k upd s"
| "route_act k RClear s = clearState k s"
| "route_act k (RPending p) s = setPendingRestore k p s"
| "route_act k RClearPending s = clearPendingRestore k s"

text \<open>A route by its normalised path.\<close>

definition plain_route :: "string \<Rightarrow> bool" where
  "plain_route r = (normalizeRoute r = r)"

definition route_entry :: "nav_store \<Rightarrow> string \<Rightarrow> route_state option \<times> bool" where
  "route_entry s k = (map_of (routeStates s) k, map_of (pendingRestores s) k = Some True)"

definition act_at :: "string \<Rightarrow> route_op \<Rightarrow> nav_store \<Rightarrow> nav_store" where
  "act_at k e s = (if plain_route k then route_act k e s else s)"

interpretation route_store: keyed_store route_entry act_at
proof (unfold_locales, goal_cases)
  case (1 j k e s)
  then show ?case
    by (cases e) (simp_all add: act_at_def route_entry_def plain_route_def nav_store_ops Let_def update_conv' delete_conv')
next
  case (2 s k t e)
  then show ?case
    by (cases e) (simp_all add: act_at_def route_entry_def plain_route_def nav_store_ops Let_def update_conv' delete_conv'
        cong: option.case_cong)
qed

lemma routes_independent:
  "route_entry (run (\<lambda>s (k, e). act_at k e s) es s) j
     = route_entry (run (\<lambda>s (k, e). act_at k e s) (filter (\<lambda>ke. fst ke = j) es) s) j"
  by (rule route_store.run_projects)

text \<open>A trailing slash before a query is kept, so such a route has a key of its own.\<close>

lemma slash_before_query_kept:
  "normalizeRoute ''/programs/?status=active'' = ''/programs/''"
  "normalizeRoute ''/programs/'' = ''/programs''"
  by (simp_all add: normalizeRoute_def strip_slash_def)

section \<open>The hooks of a page\<close>

record nav_options =
  routeKey :: string
  initialFilters :: jsobj
  initialPagination :: jsobj
  restoreScroll :: bool
  restoreFilters :: bool
  restorePagination :: bool
  restoreOnce :: bool

record nav_page =
  nav :: nav_store
  filters :: jsobj
  pagination :: jsobj
  hasRestored :: bool
  lastScrollY :: int
  scrollTimer :: "int option"
  scrollRestored :: bool
  scrollEnabled :: "bool option"
  frame :: "int option"
  scrolledTo :: "int list"

definition canRestore :: "nav_options \<Rightarrow> nav_page \<Rightarrow> bool" where
  "canRestore opt p =
     (if restoreOnce opt then \<not> hasRestored p \<and> hasPendingRestore (nav p) (routeKey opt)
      else hasPendingRestore (nav p) (routeKey opt))"

definition isRestored :: "nav_options \<Rightarrow> nav_page \<Rightarrow> bool" where
  "isRestored opt p = (canRestore opt p \<and> getState (nav p) (routeKey opt) \<noteq> None)"

definition scrollY :: "nav_options \<Rightarrow> nav_page \<Rightarrow> int" where
  "scrollY opt p =
     (case getState (nav p) (routeKey opt) of
        None \<Rightarrow> 0
      | Some st \<Rightarrow> if restoreScroll opt \<and> canRestore opt p \<and> st_scrollY st \<noteq> 0 then st_scrollY st else 0)"

text \<open>The restoring effect of \<open>useNavigationState\<close>.\<close>

definition restore_effect :: "nav_options \<Rightarrow> nav_page \<Rightarrow> nav_page" where
  "restore_effect opt p =
     (case getState (nav p) (routeKey opt) of
        None \<Rightarrow> p
      | Some st \<Rightarrow>
          if canRestore opt p then p\<lparr> hasRestored := True,
            filters := (if restoreFilters opt then spread (filters p) (st_filters st) else filters p),
            pagination := (if restorePagination opt then spread (pagination p) (st_pagination st) else pagination p),
            nav := clearPendingRestore (routeKey opt) (nav p) \<rparr>
          else p)"

text \<open>The effect of \<open>useScrollRestore\<close>, whose \<open>enabled\<close> was computed by the render before the
  effects; it runs after the restoring effect, reads the store as it is then, and runs on mount and
  when \<open>enabled\<close> changed (\<open>scrollEnabled\<close> is the value it last ran with).\<close>

definition scroll_restore_effect :: "nav_options \<Rightarrow> bool \<Rightarrow> nav_page \<Rightarrow> nav_page" where
  "scroll_restore_effect opt enabled p =
     (if \<not> enabled \<or> scrollRestored p then p
      else if \<not> hasPendingRestore (nav p) (routeKey opt) then p
      else case getState (nav p) (routeKey opt) of
        None \<Rightarrow> p
      | Some st \<Rightarrow> if st_scrollY st > 0 then p\<lparr> frame := Some (st_scrollY st) \<rparr> else p)"

definition commit_page :: "nav_options \<Rightarrow> nav_page \<Rightarrow> nav_page" where
  "commit_page opt p =
     (let enabled = hasPendingRestore (nav p) (routeKey opt); p = restore_effect opt p in
      if scrollEnabled p = Some enabled then p
      else scroll_restore_effect opt enabled (p\<lparr> scrollEnabled := Some enabled \<rparr>))"

text \<open>The animation frame.\<close>

definition frame_fires :: "nav_options \<Rightarrow> nav_page \<Rightarrow> nav_page" where
  "frame_fires opt p =
     (case frame p of
        None \<Rightarrow> p
      | Some y \<Rightarrow> p\<lparr> frame := None, scrolledTo := scrolledTo p @ [y], scrollRestored := True,
                     nav := clearPendingRestore (routeKey opt) (nav p) \<rparr>)"

definition setFilters :: "nav_options \<Rightarrow> int \<Rightarrow> jsobj \<Rightarrow> nav_page \<Rightarrow> nav_page" where
  "setFilters opt now new p =
     (let updated = spread (filters p) new in
      p\<lparr> filters := updated, nav := saveState now (routeKey opt) (\<lambda>st. st\<lparr> st_filters := updated \<rparr>) (nav p) \<rparr>)"

definition resetFilters :: "nav_options \<Rightarrow> nav_page \<Rightarrow> nav_page" where
  "resetFilters opt p = p\<lparr> filters := initialFilters opt, nav := clearState (routeKey opt) (nav p) \<rparr>"

definition setPagination :: "nav_options \<Rightarrow> int \<Rightarrow> jsobj \<Rightarrow> nav_page \<Rightarrow> nav_page" where
  "setPagination opt now new p =
     (let updated = spread (pagination p) new in
      p\<lparr> pagination := updated, nav := saveState now (routeKey opt) (\<lambda>st. st\<lparr> st_pagination := updated \<rparr>) (nav p) \<rparr>)"

definition saveScrollPosition :: "nav_options \<Rightarrow> int \<Rightarrow> int \<Rightarrow> nav_page \<Rightarrow> nav_page" where
  "saveScrollPosition opt now y p =
     p\<lparr> nav := saveState now (routeKey opt) (\<lambda>st. st\<lparr> st_scrollY := y \<rparr>) (nav p) \<rparr>"

definition restoreScrollPosition :: "nav_options \<Rightarrow> nav_page \<Rightarrow> nav_page" where
  "restoreScrollPosition opt p =
     (if scrollY opt p > 0 then p\<lparr> scrolledTo := scrolledTo p @ [scrollY opt p] \<rparr> else p)"

definition markForRestore :: "nav_options \<Rightarrow> int \<Rightarrow> int \<Rightarrow> nav_page \<Rightarrow> nav_page" where
  "markForRestore opt now windowY p =
     saveScrollPosition opt now windowY (p\<lparr> nav := setPendingRestore (routeKey opt) True (nav p) \<rparr>)"

definition clearRestoreMarker :: "nav_options \<Rightarrow> nav_page \<Rightarrow> nav_page" where
  "clearRestoreMarker opt p = p\<lparr> nav := clearPendingRestore (routeKey opt) (nav p) \<rparr>"

text \<open>\<open>useScrollTracker\<close>: a scroll of ten pixels or more restarts the timer that saves it.\<close>

definition handleScroll :: "int \<Rightarrow> nav_page \<Rightarrow> nav_page" where
  "handleScroll y p = (if \<bar>y - lastScrollY p\<bar> < 10 then p else p\<lparr> lastScrollY := y, scrollTimer := Some y \<rparr>)"

definition scroll_timer_fires :: "nav_options \<Rightarrow> int \<Rightarrow> nav_page \<Rightarrow> nav_page" where
  "scroll_timer_fires opt now p =
     (case scrollTimer p of None \<Rightarrow> p | Some y \<Rightarrow> saveScrollPosition opt now y (p\<lparr> scrollTimer := None \<rparr>))"

datatype nav_event =
    VFilters int jsobj
  | VReset
  | VPagination int jsobj
  | VSaveScroll int int
  | VRestoreScroll
  | VMark int int
  | VUnmark
  | VScroll int
  | VScrollTimer int
  | VFrame

fun nav_handle :: "nav_options \<Rightarrow> nav_page \<Rightarrow> nav_event \<Rightarrow> nav_page" where
  "nav_handle opt p (VFilters now f) = setFilters opt now f p"
| "nav_handle opt p VReset = resetFilters opt p"
| "nav_handle opt p (VPagination now f) = setPagination opt now f p"
| "nav_handle opt p (VSaveScroll now y) = saveScrollPosition opt now y p"
| "nav_handle opt p VRestoreScroll = restoreScrollPosition opt p"
| "nav_handle opt p (VMark now y) = markForRestore opt now y p"
| "nav_handle opt p VUnmark = clearRestoreMarker opt p"
| "nav_handle opt p (VScroll y) = handleScroll y p"
| "nav_handle opt p (VScrollTimer now) = scroll_timer_fires opt now p"
| "nav_handle opt p VFrame = frame_fires opt p"

definition nav_step :: "nav_options \<Rightarrow> nav_page \<Rightarrow> nav_event \<Rightarrow> nav_page" where
  "nav_step opt p e = commit_page opt (nav_handle opt p e)"

text \<open>A page mounted on the store another page left.\<close>

definition fresh_page :: "nav_options \<Rightarrow> nav_store \<Rightarrow> nav_page" where
  "fresh_page opt s = \<lparr> nav = s, filters = initialFilters opt, pagination = initialPagination opt,
     hasRestored = False, lastScrollY = 0, scrollTimer = None, scrollRestored = False, scrollEnabled = None, frame = None,
     scrolledTo = [] \<rparr>"

definition mount_page :: "nav_options \<Rightarrow> nav_store \<Rightarrow> nav_page" where
  "mount_page opt s = commit_page opt (fresh_page opt s)"

section \<open>Restored query parameters\<close>

definition form_byte :: "nat \<Rightarrow> string" where
  "form_byte b =
     (if (48 \<le> b \<and> b \<le> 57) \<or> (65 \<le> b \<and> b \<le> 90) \<or> (97 \<le> b \<and> b \<le> 122) \<or> b = 42 \<or> b = 45 \<or> b = 46 \<or> b = 95
      then [char_of b]
      else if b = 32 then ''+''
      else CHR ''%'' # [if b div 16 < 10 then char_of (48 + b div 16) else char_of (55 + b div 16),
                        if b mod 16 < 10 then char_of (48 + b mod 16) else char_of (55 + b mod 16)])"

text \<open>The form encoding of the UTF-8 bytes of a character below 256.\<close>

definition form_char :: "char \<Rightarrow> string" where
  "form_char c =
     (if code c < 128 then form_byte (code c)
      else form_byte (192 + code c div 64) @ form_byte (128 + code c mod 64))"

definition form_text :: "string \<Rightarrow> string" where
  "form_text s = concat (map form_char s)"

definition shown_filter :: "jsv \<Rightarrow> bool" where
  "shown_filter v = (v \<noteq> JUndef \<and> v \<noteq> JStr [] \<and> v \<noteq> JStr ''all'')"

definition getRestoredUrlParams :: "nav_options \<Rightarrow> nav_page \<Rightarrow> string" where
  "getRestoredUrlParams opt p =
     (case getState (nav p) (routeKey opt) of
        None \<Rightarrow> []
      | Some st \<Rightarrow>
          (let params = join_with ''&'' (map (\<lambda>(k, v). form_text k @ ''='' @ form_text (js_string v))
                 (filter (\<lambda>(k, v). shown_filter v) (st_filters st))) in
           if params = [] then [] else CHR ''?'' # params))"

lemmas page_ops = setFilters_def resetFilters_def setPagination_def saveScrollPosition_def
  restoreScrollPosition_def markForRestore_def clearRestoreMarker_def handleScroll_def
  scroll_timer_fires_def frame_fires_def

section \<open>Nothing is scrolled back\<close>

text \<open>After every commit there is nothing left to restore.\<close>

lemma scroll_effect_keeps [simp]:
  "nav (scroll_restore_effect opt en p) = nav p"
  "hasRestored (scroll_restore_effect opt en p) = hasRestored p"
  "filters (scroll_restore_effect opt en p) = filters p"
  "pagination (scroll_restore_effect opt en p) = pagination p"
  by (auto simp: scroll_restore_effect_def split: option.split)

lemma commit_keeps:
  "nav (commit_page opt p) = nav (restore_effect opt p)"
  "hasRestored (commit_page opt p) = hasRestored (restore_effect opt p)"
  "filters (commit_page opt p) = filters (restore_effect opt p)"
  "pagination (commit_page opt p) = pagination (restore_effect opt p)"
  by (simp_all add: commit_page_def Let_def)

lemma commit_consumes: "\<not> isRestored opt (commit_page opt p)"
  by (auto simp: isRestored_def canRestore_def commit_keeps restore_effect_def split: option.split)

lemma scrollY_unrestored: "\<not> isRestored opt p \<Longrightarrow> scrollY opt p = 0"
  by (auto simp: scrollY_def isRestored_def split: option.split)

interpretation nav_run: machine "nav_step opt" "\<lambda>p. \<not> isRestored opt p" for opt
  by unfold_locales (simp add: nav_step_def commit_consumes)

text \<open>The scroll position is never restored on return: whatever store the previous page left,
  mounting a page schedules no scroll (the filter hook's effect takes the marker before the scroll
  hook's effect looks), and in every state after the mount \<open>scrollY\<close> is 0, so
  \<open>restoreScrollPosition\<close> does nothing, however late the data arrives.\<close>

theorem mount_never_scrolls:
  fixes es :: "nav_event list"
  shows "frame (mount_page opt s) = None \<and> scrolledTo (mount_page opt s) = []
    \<and> (let p = run (nav_step opt) es (mount_page opt s) in
        scrollY opt p = 0 \<and> restoreScrollPosition opt p = p)"
proof -
  have "\<not> isRestored opt (mount_page opt s)" by (simp add: mount_page_def commit_consumes)
  then have "\<not> isRestored opt (run (nav_step opt) es (mount_page opt s))" by (rule nav_run.every_run_inv)
  then have "scrollY opt (run (nav_step opt) es (mount_page opt s)) = 0" by (rule scrollY_unrestored)
  moreover have "frame (mount_page opt s) = None \<and> scrolledTo (mount_page opt s) = []"
    by (auto simp: mount_page_def commit_page_def fresh_page_def restore_effect_def scroll_restore_effect_def
        canRestore_def Let_def split: option.split)
  ultimately show ?thesis by (simp add: Let_def restoreScrollPosition_def)
qed

text \<open>The first marker of a page is consumed before the page is left: marking re-renders the
  page, its effect restores it onto itself and clears the marker, so the next visit starts with the
  initial filters.\<close>

theorem first_marker_consumed:
  fixes p :: nav_page and y now :: int and opt :: nav_options
  assumes "\<not> hasRestored p"
  defines "left \<equiv> nav_step opt p (VMark now y)"
  shows "\<not> hasPendingRestore (nav left) (routeKey opt)
    \<and> filters (mount_page opt (nav left)) = initialFilters opt
    \<and> pagination (mount_page opt (nav left)) = initialPagination opt"
proof -
  have l: "\<not> hasPendingRestore (nav left) (routeKey opt)"
    using assms(1)
    by (simp add: left_def nav_step_def commit_keeps markForRestore_def saveScrollPosition_def
        restore_effect_def canRestore_def)
  then show ?thesis
    by (simp add: mount_page_def commit_keeps fresh_page_def restore_effect_def canRestore_def
        split: option.split)
qed

section \<open>What is restored\<close>

lemma mount_restores:
  assumes "hasPendingRestore s (routeKey opt)" "getState s (routeKey opt) = Some st" "restoreFilters opt"
  shows "filters (mount_page opt s) = spread (initialFilters opt) (st_filters st)
    \<and> \<not> hasPendingRestore (nav (mount_page opt s)) (routeKey opt)"
  using assms
  by (simp add: mount_page_def commit_keeps fresh_page_def restore_effect_def canRestore_def)

lemma commit_unmarked:
  "\<not> hasPendingRestore (nav p) (routeKey opt) \<Longrightarrow> hasRestored (commit_page opt p) = hasRestored p"
  "\<not> hasPendingRestore (nav p) (routeKey opt) \<Longrightarrow> nav (commit_page opt p) = nav p"
  by (simp_all add: commit_keeps restore_effect_def canRestore_def split: option.split)

lemma commit_idle:
  assumes "restoreOnce opt" "hasRestored p"
  shows "nav (commit_page opt p) = nav p" "hasRestored (commit_page opt p)" "filters (commit_page opt p) = filters p"
  using assms by (auto simp: commit_keeps restore_effect_def canRestore_def split: option.split)

text \<open>Filters survive a round trip once the page has restored before: filters set, the page marked
  and left, and the next visit shows the same filters (field by field) and takes the marker.\<close>

theorem marked_filters_roundtrip:
  fixes now now' y :: int and f :: jsobj
  assumes "restoreOnce opt" "restoreFilters opt" "hasRestored p"
    and "fst ` set (initialFilters opt) \<subseteq> fst ` set (filters p)" "distinct (map fst (filters p))"
  defines "left \<equiv> run (nav_step opt) [VFilters now f, VMark now' y] p"
  shows "map_of (filters (mount_page opt (nav left))) = map_of (filters left)
    \<and> filters left = spread (filters p) f
    \<and> \<not> hasPendingRestore (nav (mount_page opt (nav left))) (routeKey opt)"
proof -
  let ?f = "spread (filters p) f"
  define st where "st = (case getState (nav p) (routeKey opt) of None \<Rightarrow> createDefaultState now | Some st \<Rightarrow> st)
      \<lparr> st_filters := ?f, st_scrollY := y, st_timestamp := now' \<rparr>"
  have left: "getState (nav left) (routeKey opt) = Some st" "st_filters st = ?f"
      "hasPendingRestore (nav left) (routeKey opt)" "filters left = ?f"
    using assms(1,3)
    by (simp_all add: left_def nav_step_def commit_idle setFilters_def markForRestore_def
        saveScrollPosition_def Let_def st_def)
  show ?thesis
    using mount_restores [OF left(3,1) assms(2)] left(2,4) spread_over [of "initialFilters opt" ?f]
      assms(4,5) spread_keys [of "filters p" f] spread_distinct [OF assms(5), of f]
    by auto
qed

section \<open>Witnesses\<close>

definition clients_page :: "nav_options" where
  "clients_page = \<lparr> routeKey = ''/clients'', initialFilters = [(''status'', JStr ''all''), (''search'', JStr [])],
     initialPagination = [], restoreScroll = True, restoreFilters = True, restorePagination = True, restoreOnce = True \<rparr>"

lemma first_marker_witness:
  "filters (mount_page clients_page (nav (nav_step clients_page
     (nav_step clients_page (mount_page clients_page nav_store_init) (VFilters 5 [(''status'', JStr ''active'')])) (VMark 9 400))))
   = [(''status'', JStr ''all''), (''search'', JStr [])]"
proof -
  let ?p = "nav_step clients_page (mount_page clients_page nav_store_init) (VFilters 5 [(''status'', JStr ''active'')])"
  have "\<not> hasRestored ?p"
    by (simp add: nav_step_def setFilters_def mount_page_def commit_unmarked fresh_page_def Let_def
        nav_store_init_def hasPendingRestore_def saveState_def)
  from first_marker_consumed [OF this, of clients_page 9 400] show ?thesis
    by (simp add: clients_page_def)
qed

lemma marked_filters_witness:
  "let p = (fresh_page clients_page nav_store_init)\<lparr> hasRestored := True \<rparr>;
     left = run (nav_step clients_page) [VFilters 5 [(''status'', JStr ''active'')], VMark 9 400] p in
   map_of (filters (mount_page clients_page (nav left))) ''status'' = Some (JStr ''active'')"
  using marked_filters_roundtrip [where opt = clients_page
      and p = "(fresh_page clients_page nav_store_init)\<lparr> hasRestored := True \<rparr>"
      and now = 5 and f = "[(''status'', JStr ''active'')]" and now' = 9 and y = 400]
  by (simp add: Let_def clients_page_def fresh_page_def spread_def)

end
