(* ===== verification/TaskBoard.thy ===== *)
theory TaskBoard
  imports Machines "HOL-Library.Multiset"
begin

text \<open>
  The task board: \<open>frontend/src/hooks/use-task-board.ts\<close> with the task types of
  \<open>frontend/src/types/task.ts\<close>.  The state is the hook's local state and the data its task query
  shows; the requests it sends and the toasts it shows are logged in order, and the server's
  answers are events.  An invalidation marks the query for a refetch (\<open>refetch\<close>); the refetched
  list arrives as an event.  A task carries the fields the hook reads.
\<close>

section \<open>Data\<close>

record milestone =
  m_id :: string
  m_title :: string
  m_program :: string

record task =
  t_id :: string
  t_title :: string
  t_status :: string
  t_milestone :: "milestone option"

definition TASK_STATUSES :: "string list" where
  "TASK_STATUSES = [''todo'', ''in_progress'', ''blocked'', ''done'', ''cancelled'']"

record task_filters =
  f_program :: "string option"
  f_assignee :: "string option"
  f_status :: "string option"
  f_overdue :: bool

text \<open>The form data of the dialog.\<close>

record task_form =
  d_title :: string
  d_description :: "string option"
  d_milestone :: string
  d_status :: string
  d_priority :: string
  d_due :: "string option"
  d_assigned :: "string option"
  d_depends :: "string list option"

datatype bulk_action = BReassign string | BClearAssignee | BStatus string | BDue string | BClearDue | BDelete

datatype request =
    RCreate string "string option" string "string option" "string option" string
  | RUpdate string string "string option" string string "string option" "string option"
  | RDepend string "string list"
  | RDelete string
  | RReorder string string "string option"
  | RBulk "string list" bulk_action

datatype bulk_dialog = DReassign | DStatus | DDueDate | DDelete

record bulk_result =
  n_updated :: int
  n_deleted :: int
  n_failed :: nat

record board =
  taskFilters :: task_filters
  tasks :: "task list option"
  refetch :: bool
  dialogOpen :: bool
  editingTask :: "task option"
  defaultStatus :: string
  pendingDelete :: "string option"
  activeTask :: "task option"
  selectionMode :: bool
  selectedIds :: "string list"
  activeBulkAction :: "bulk_dialog option"
  graphView :: bool
  graphFocus :: "task option"
  requests :: "request list"
  toasts :: "(bool \<times> string) list"

definition no_filters :: task_filters where
  "no_filters = \<lparr> f_program = None, f_assignee = None, f_status = None, f_overdue = False \<rparr>"

definition board_init :: board where
  "board_init = \<lparr> taskFilters = no_filters, tasks = None, refetch = False, dialogOpen = False,
     editingTask = None, defaultStatus = ''todo'', pendingDelete = None, activeTask = None,
     selectionMode = False, selectedIds = [], activeBulkAction = None, graphView = False,
     graphFocus = None, requests = [], toasts = [] \<rparr>"

definition shown :: "board \<Rightarrow> task list" where
  "shown b = (case tasks b of None \<Rightarrow> [] | Some ts \<Rightarrow> ts)"

definition send :: "request \<Rightarrow> board \<Rightarrow> board" where
  "send r b = b\<lparr> requests := requests b @ [r] \<rparr>"

definition toast_success :: "string \<Rightarrow> board \<Rightarrow> board" where
  "toast_success m b = b\<lparr> toasts := toasts b @ [(True, m)] \<rparr>"

definition toast_error :: "string \<Rightarrow> board \<Rightarrow> board" where
  "toast_error m b = b\<lparr> toasts := toasts b @ [(False, m)] \<rparr>"

definition invalidate_tasks :: "board \<Rightarrow> board" where
  "invalidate_tasks b = b\<lparr> refetch := True \<rparr>"

section \<open>Derived data\<close>

text \<open>The columns: every task pushed to its status's list, other statuses ignored.\<close>

definition push_task :: "task \<Rightarrow> (string \<times> task list) list \<Rightarrow> (string \<times> task list) list" where
  "push_task t g =
     (case map_of g (t_status t) of None \<Rightarrow> g | Some ts \<Rightarrow> AList.update (t_status t) (ts @ [t]) g)"

definition tasksByStatus :: "board \<Rightarrow> (string \<times> task list) list" where
  "tasksByStatus b = fold push_task (shown b) (map (\<lambda>s. (s, [])) TASK_STATUSES)"

definition column :: "board \<Rightarrow> string \<Rightarrow> task list" where
  "column b s = (case map_of (tasksByStatus b) s of None \<Rightarrow> [] | Some ts \<Rightarrow> ts)"

definition milestones :: "board \<Rightarrow> milestone list" where
  "milestones b = map snd (fold (\<lambda>t acc. case t_milestone t of None \<Rightarrow> acc | Some m \<Rightarrow> AList.update (m_id m) m acc)
     (shown b) [])"

section \<open>Drag and drop\<close>

definition find_task :: "board \<Rightarrow> string \<Rightarrow> task option" where
  "find_task b i = List.find (\<lambda>t. t_id t = i) (shown b)"

definition handleDragStart :: "string \<Rightarrow> board \<Rightarrow> board" where
  "handleDragStart i b = (case find_task b i of None \<Rightarrow> b | Some t \<Rightarrow> b\<lparr> activeTask := Some t \<rparr>)"

definition handleDragEnd :: "string \<Rightarrow> string option \<Rightarrow> board \<Rightarrow> board" where
  "handleDragEnd activeId over b0 =
     (let b = b0\<lparr> activeTask := None \<rparr> in
      case over of
        None \<Rightarrow> b
      | Some overId \<Rightarrow>
          (case find_task b activeId of
             None \<Rightarrow> b
           | Some t \<Rightarrow>
               if overId \<in> set TASK_STATUSES then
                 (if t_status t \<noteq> overId then send (RReorder activeId overId None) b else b)
               else (case find_task b overId of
                   None \<Rightarrow> b
                 | Some o' \<Rightarrow>
                     if t_status t \<noteq> t_status o' then send (RReorder activeId (t_status o') (Some overId)) b
                     else b)))"

definition reorder_settles :: "bool \<Rightarrow> board \<Rightarrow> board" where
  "reorder_settles ok b = (if ok then b else toast_error ''Failed to reorder task'' (invalidate_tasks b))"

section \<open>Creating, editing, deleting\<close>

definition handleAddTask :: "string \<Rightarrow> board \<Rightarrow> board" where
  "handleAddTask s b = b\<lparr> editingTask := None, defaultStatus := s, dialogOpen := True \<rparr>"

definition handleEditTask :: "task \<Rightarrow> board \<Rightarrow> board" where
  "handleEditTask t b = b\<lparr> editingTask := Some t, defaultStatus := t_status t, dialogOpen := True \<rparr>"

definition handleDeleteTask :: "string \<Rightarrow> board \<Rightarrow> board" where
  "handleDeleteTask i b = b\<lparr> pendingDelete := Some i \<rparr>"

definition handleConfirmDeleteTask :: "board \<Rightarrow> board" where
  "handleConfirmDeleteTask b =
     (case pendingDelete b of
        None \<Rightarrow> b
      | Some i \<Rightarrow> if i = [] then b else (send (RDelete i) b)\<lparr> pendingDelete := None \<rparr>)"

definition delete_settles :: "bool \<Rightarrow> board \<Rightarrow> board" where
  "delete_settles ok b =
     (if ok then toast_success ''Task deleted successfully'' (invalidate_tasks b)
      else toast_error ''Failed to delete task'' b)"

text \<open>\<open>handleSubmit\<close> up to the first \<open>await\<close>; the ends of its two awaited calls, the dependencies
  following an accepted update (None: the call's error message is an argument).\<close>

definition handleSubmit :: "task_form \<Rightarrow> board \<Rightarrow> board" where
  "handleSubmit d b =
     (case editingTask b of
        Some t \<Rightarrow> send (RUpdate (t_id t) (d_title d) (d_description d) (d_status d) (d_priority d) (d_due d)
                     (d_assigned d)) b
      | None \<Rightarrow> send (RCreate (d_title d) (d_description d) (d_milestone d) (d_due d) (d_assigned d)
                     (d_priority d)) b)"

definition create_settles :: "bool \<Rightarrow> board \<Rightarrow> board" where
  "create_settles ok b =
     (if ok then toast_success ''Task created successfully'' (invalidate_tasks b)
      else toast_error ''Failed to create task'' b)"

definition update_settles :: "bool \<Rightarrow> string \<Rightarrow> task_form \<Rightarrow> board \<Rightarrow> board" where
  "update_settles ok i d b =
     (if ok then
        (let b = toast_success ''Task updated successfully'' (invalidate_tasks b) in
         case d_depends d of None \<Rightarrow> b | Some ds \<Rightarrow> send (RDepend i ds) b)
      else toast_error ''Failed to update task'' b)"

definition depend_settles :: "string option \<Rightarrow> board \<Rightarrow> board" where
  "depend_settles err b = (case err of None \<Rightarrow> invalidate_tasks b | Some msg \<Rightarrow> toast_error msg b)"

definition handleViewDependencies :: "task \<Rightarrow> board \<Rightarrow> board" where
  "handleViewDependencies t b = b\<lparr> graphFocus := Some t, graphView := True \<rparr>"

section \<open>Filters and selection\<close>

text \<open>A filter change switches to another query, whose cached data (or none) is shown.\<close>

definition set_filters :: "task_filters \<Rightarrow> task list option \<Rightarrow> board \<Rightarrow> board" where
  "set_filters f cached b = b\<lparr> taskFilters := f, tasks := cached \<rparr>"

definition handleClearFilters :: "task list option \<Rightarrow> board \<Rightarrow> board" where
  "handleClearFilters cached b = set_filters no_filters cached b"

definition loaded :: "task list \<Rightarrow> board \<Rightarrow> board" where
  "loaded ts b = b\<lparr> tasks := Some ts, refetch := False \<rparr>"

definition handleToggleSelect :: "string \<Rightarrow> board \<Rightarrow> board" where
  "handleToggleSelect i b = b\<lparr> selectedIds :=
     (if i \<in> set (selectedIds b) then removeAll i (selectedIds b) else selectedIds b @ [i]) \<rparr>"

text \<open>\<open>new Set(xs)\<close> keeps the first occurrence of each element.\<close>

definition set_of :: "string list \<Rightarrow> string list" where
  "set_of xs = rev (remdups (rev xs))"

definition handleSelectAll :: "board \<Rightarrow> board" where
  "handleSelectAll b =
     (let allIds = map t_id (shown b) in
      b\<lparr> selectedIds := (if length (selectedIds b) = length allIds then [] else set_of allIds) \<rparr>)"

definition handleClearSelection :: "board \<Rightarrow> board" where
  "handleClearSelection b = b\<lparr> selectedIds := [], selectionMode := False \<rparr>"

definition handleToggleSelectionMode :: "board \<Rightarrow> board" where
  "handleToggleSelectionMode b =
     (if selectionMode b then handleClearSelection b else b\<lparr> selectionMode := True \<rparr>)"

definition handleBulkReassign :: "string option \<Rightarrow> board \<Rightarrow> board" where
  "handleBulkReassign a b = send (RBulk (selectedIds b)
     (case a of None \<Rightarrow> BClearAssignee | Some i \<Rightarrow> if i = [] then BClearAssignee else BReassign i)) b"

definition handleBulkStatus :: "string \<Rightarrow> board \<Rightarrow> board" where
  "handleBulkStatus s b = send (RBulk (selectedIds b) (BStatus s)) b"

text \<open>The date is formatted by the date library; None clears it.\<close>

definition handleBulkDueDate :: "string option \<Rightarrow> board \<Rightarrow> board" where
  "handleBulkDueDate d b = send (RBulk (selectedIds b) (case d of None \<Rightarrow> BClearDue | Some s \<Rightarrow> BDue s)) b"

definition handleBulkDelete :: "board \<Rightarrow> board" where
  "handleBulkDelete b = send (RBulk (selectedIds b) BDelete) b"

definition plural :: "int \<Rightarrow> string" where
  "plural n = (if n \<noteq> 1 then ''s'' else [])"

definition bulk_settles :: "bulk_result option \<Rightarrow> board \<Rightarrow> board" where
  "bulk_settles res b =
     (case res of
        None \<Rightarrow> toast_error ''Bulk operation failed'' b
      | Some r \<Rightarrow>
          (let op = (if n_deleted r > 0 then ''Deleted'' else ''Updated'');
               n = (if n_deleted r > 0 then n_deleted r else n_updated r);
               b = toast_success (op @ '' '' @ int_text n @ '' task'' @ plural n) (invalidate_tasks b);
               b = (if n_failed r > 0
                    then toast_error (nat_text (n_failed r) @ '' task'' @ plural (int (n_failed r)) @ '' failed to update'') b
                    else b) in
           b\<lparr> selectedIds := [], selectionMode := False, activeBulkAction := None \<rparr>))"

datatype board_event =
    TDragStart string
  | TDragEnd string "string option"
  | TReordered bool
  | TAdd string
  | TEdit task
  | TDialog bool
  | TSubmit task_form
  | TCreated bool
  | TUpdated bool string task_form
  | TDepended "string option"
  | TDelete string
  | TCancelDelete
  | TConfirmDelete
  | TDeleted bool
  | TGraph task
  | TFilters task_filters "task list option"
  | TClearFilters "task list option"
  | TLoaded "task list"
  | TToggle string
  | TSelectAll
  | TClearSelection
  | TToggleMode
  | TBulkDialog "bulk_dialog option"
  | TBulkReassign "string option"
  | TBulkStatus string
  | TBulkDue "string option"
  | TBulkDelete
  | TBulked "bulk_result option"

fun board_step :: "board \<Rightarrow> board_event \<Rightarrow> board" where
  "board_step b (TDragStart i) = handleDragStart i b"
| "board_step b (TDragEnd i over) = handleDragEnd i over b"
| "board_step b (TReordered ok) = reorder_settles ok b"
| "board_step b (TAdd s) = handleAddTask s b"
| "board_step b (TEdit t) = handleEditTask t b"
| "board_step b (TDialog o') = b\<lparr> dialogOpen := o' \<rparr>"
| "board_step b (TSubmit d) = handleSubmit d b"
| "board_step b (TCreated ok) = create_settles ok b"
| "board_step b (TUpdated ok i d) = update_settles ok i d b"
| "board_step b (TDepended err) = depend_settles err b"
| "board_step b (TDelete i) = handleDeleteTask i b"
| "board_step b TCancelDelete = b\<lparr> pendingDelete := None \<rparr>"
| "board_step b TConfirmDelete = handleConfirmDeleteTask b"
| "board_step b (TDeleted ok) = delete_settles ok b"
| "board_step b (TGraph t) = handleViewDependencies t b"
| "board_step b (TFilters f c) = set_filters f c b"
| "board_step b (TClearFilters c) = handleClearFilters c b"
| "board_step b (TLoaded ts) = loaded ts b"
| "board_step b (TToggle i) = handleToggleSelect i b"
| "board_step b TSelectAll = handleSelectAll b"
| "board_step b TClearSelection = handleClearSelection b"
| "board_step b TToggleMode = handleToggleSelectionMode b"
| "board_step b (TBulkDialog d) = b\<lparr> activeBulkAction := d \<rparr>"
| "board_step b (TBulkReassign a) = handleBulkReassign a b"
| "board_step b (TBulkStatus s) = handleBulkStatus s b"
| "board_step b (TBulkDue d) = handleBulkDueDate d b"
| "board_step b TBulkDelete = handleBulkDelete b"
| "board_step b (TBulked r) = bulk_settles r b"

lemmas log_ops = send_def toast_success_def toast_error_def invalidate_tasks_def

lemmas board_ops = handleDragStart_def handleDragEnd_def reorder_settles_def handleAddTask_def
  handleEditTask_def handleDeleteTask_def handleConfirmDeleteTask_def delete_settles_def handleSubmit_def
  create_settles_def update_settles_def depend_settles_def handleViewDependencies_def set_filters_def
  handleClearFilters_def loaded_def handleToggleSelect_def handleSelectAll_def handleClearSelection_def
  handleToggleSelectionMode_def handleBulkReassign_def handleBulkStatus_def handleBulkDueDate_def
  handleBulkDelete_def bulk_settles_def

section \<open>Columns\<close>

lemma push_keys: "map fst (push_task t g) = map fst g"
proof (cases "map_of g (t_status t)")
  case (Some ts)
  then have "t_status t \<in> fst ` set g" by (metis map_of_eq_None_iff option.distinct(1))
  then show ?thesis by (simp add: push_task_def Some update_keys)
qed (simp add: push_task_def)

lemma push_column:
  "map_of (push_task t g) s = map_option (\<lambda>ts. if t_status t = s then ts @ [t] else ts) (map_of g s)"
  by (cases "map_of g s"; cases "map_of g (t_status t)"; cases "t_status t = s")
     (simp_all add: push_task_def update_conv')

lemma push_all_column:
  "map_of (fold push_task ts g) s = map_option (\<lambda>xs. xs @ filter (\<lambda>t. t_status t = s) ts) (map_of g s)"
proof (induction ts arbitrary: g)
  case (Cons t ts)
  then show ?case by (cases "map_of g s") (simp_all add: push_column)
qed (simp add: option.map_ident)

lemma column_filter:
  "column b s = (if s \<in> set TASK_STATUSES then filter (\<lambda>t. t_status t = s) (shown b) else [])"
proof -
  have "map_of (map (\<lambda>s. (s, [] :: task list)) ss) s = (if s \<in> set ss then Some [] else None)" for ss :: "string list"
    by (induction ss) auto
  from this [of TASK_STATUSES] show ?thesis by (simp add: column_def tasksByStatus_def push_all_column)
qed

lemma mset_columns:
  "distinct ss \<Longrightarrow> mset (concat (map (\<lambda>s. filter (\<lambda>t. t_status t = s) ts) ss))
     = mset (filter (\<lambda>t. t_status t \<in> set ss) ts)"
proof (induction ss)
  case (Cons s ss)
  have "filter_mset (\<lambda>t. t_status t = s \<or> t_status t \<in> set ss) M
      = filter_mset (\<lambda>t. t_status t = s) M + filter_mset (\<lambda>t. t_status t \<in> set ss) M" for M
    using Cons.prems by (induction M) auto
  from this [of "mset ts"] show ?case using Cons by simp
qed simp

text \<open>The columns are a partition of the board: a column holds exactly the tasks of its status in
  the order of the list, the columns together hold every task with a known status once, and tasks
  with another status are on no column.\<close>

theorem columns_partition:
  shows "column b s = (if s \<in> set TASK_STATUSES then filter (\<lambda>t. t_status t = s) (shown b) else [])
    \<and> mset (concat (map (column b) TASK_STATUSES)) = mset (filter (\<lambda>t. t_status t \<in> set TASK_STATUSES) (shown b))"
proof -
  have "distinct TASK_STATUSES" by (simp add: TASK_STATUSES_def)
  from mset_columns [OF this, of "shown b"]
  have "mset (concat (map (column b) TASK_STATUSES)) = mset (filter (\<lambda>t. t_status t \<in> set TASK_STATUSES) (shown b))"
    by (simp add: column_filter cong: map_cong)
  then show ?thesis by (simp add: column_filter)
qed

section \<open>Moving\<close>

text \<open>A drop sends one request exactly when it changes the task's status, and an accepted move is
  not shown: neither the drop nor the server's acceptance touches the task list or asks for a
  refetch, so every column is as before (only a refused move refetches).\<close>

theorem accepted_move_not_shown:
  fixes over :: string and b :: board
  assumes "find_task b i = Some t"
    and "target = (if over \<in> set TASK_STATUSES then Some over else map_option t_status (find_task b over))"
  defines "b' \<equiv> run board_step [TDragEnd i (Some over), TReordered True] b"
  shows "requests b' = requests b @ (if target = None \<or> target = Some (t_status t) then []
      else [RReorder i (the target) (if over \<in> set TASK_STATUSES then None else Some over)])
    \<and> column b' s = column b s \<and> refetch b' = refetch b
    \<and> refetch (run board_step [TDragEnd i (Some over), TReordered False] b)"
proof -
  have f: "find_task (b\<lparr> activeTask := None \<rparr>) = find_task b"
    by (simp add: fun_eq_iff find_task_def shown_def)
  have s: "shown b' = shown b"
    by (auto simp: b'_def handleDragEnd_def reorder_settles_def log_ops shown_def Let_def split: option.split)
  have "requests b' = requests b @ (if target = None \<or> target = Some (t_status t) then []
      else [RReorder i (the target) (if over \<in> set TASK_STATUSES then None else Some over)])"
    using assms(1,2)
    by (auto simp: b'_def handleDragEnd_def reorder_settles_def log_ops Let_def f split: option.split)
  moreover have "refetch b' = refetch b"
    by (auto simp: b'_def handleDragEnd_def reorder_settles_def log_ops Let_def split: option.split)
  ultimately show ?thesis
    by (simp add: column_filter s reorder_settles_def log_ops)
qed

text \<open>A new task ignores the column it was added from: the request of a submitted dialog is the
  same for every column, every chosen status and every chosen dependency.\<close>

theorem create_ignores_status:
  fixes d :: task_form and b :: board
  shows "requests (run board_step [TAdd s, TSubmit d] b)
    = requests (run board_step [TAdd s', TSubmit (d\<lparr> d_status := st, d_depends := ds \<rparr>)] b)"
  by (simp add: handleAddTask_def handleSubmit_def send_def)

section \<open>Bulk operations\<close>

text \<open>The events that leave the selection alone.\<close>

fun not_selecting :: "board_event \<Rightarrow> bool" where
  "not_selecting (TToggle i) = False"
| "not_selecting TSelectAll = False"
| "not_selecting TClearSelection = False"
| "not_selecting TToggleMode = False"
| "not_selecting (TBulked (Some r)) = False"
| "not_selecting e = True"

interpretation selection: guarded_machine board_step not_selecting "\<lambda>b. selectedIds b = ids" for ids
proof (unfold_locales, goal_cases)
  case (1 b e)
  then show ?case
    by (cases e rule: not_selecting.cases) (auto simp: board_ops log_ops Let_def split: option.split)
qed

text \<open>Bulk actions reach tasks the board no longer shows: the selection survives filter changes,
  reloads and deletions of single tasks, and a bulk delete carries all of it, whatever is shown.\<close>

theorem bulk_reaches_hidden_tasks:
  assumes "list_all not_selecting es" "selectedIds b = ids"
  shows "let b' = run board_step (es @ [TFilters f (Some []), TBulkDelete]) b in
     shown b' = [] \<and> last (requests b') = RBulk ids BDelete"
proof -
  have "list_all not_selecting (es @ [TFilters f (Some [])])" using assms(1) by simp
  from selection.run_inv [OF assms(2) this]
  have "selectedIds (run board_step (es @ [TFilters f (Some [])]) b) = ids" .
  then show ?thesis
    by (simp add: handleBulkDelete_def send_def shown_def set_filters_def)
qed

lemma bulk_witness:
  "let b' = run board_step ([TDelete ''t1'', TConfirmDelete, TDeleted True] @ [TFilters no_filters (Some []), TBulkDelete])
       (board_init\<lparr> selectedIds := [''t1'', ''t2''] \<rparr>) in
   last (requests b') = RBulk [''t1'', ''t2''] BDelete"
  using bulk_reaches_hidden_tasks [of "[TDelete ''t1'', TConfirmDelete, TDeleted True]"
      "board_init\<lparr> selectedIds := [''t1'', ''t2''] \<rparr>" "[''t1'', ''t2'']" no_filters]
  by (simp add: Let_def)

lemma accepted_move_witness:
  "let t = \<lparr> t_id = ''t1'', t_title = ''Call'', t_status = ''todo'', t_milestone = None \<rparr>;
     b = board_init\<lparr> tasks := Some [t] \<rparr>;
     b' = run board_step [TDragEnd ''t1'' (Some ''done''), TReordered True] b in
   requests b' = [RReorder ''t1'' ''done'' None] \<and> column b' ''todo'' = [t]"
  using accepted_move_not_shown [of "board_init\<lparr> tasks := Some [\<lparr> t_id = ''t1'', t_title = ''Call'', t_status = ''todo'', t_milestone = None \<rparr>] \<rparr>"
      "''t1''" "\<lparr> t_id = ''t1'', t_title = ''Call'', t_status = ''todo'', t_milestone = None \<rparr>" "Some ''done''" "''done''" "''todo''"]
  by (simp add: find_task_def shown_def TASK_STATUSES_def column_filter board_init_def Let_def)

end
