(* ===== verification/Keyboard.thy ===== *)
theory Keyboard
  imports Machines
begin

text \<open>
  Keyboard shortcuts: the registry and the matching of
  \<open>frontend/src/lib/keyboard-shortcuts.ts\<close> and the global handler of
  \<open>frontend/src/hooks/use-keyboard-shortcuts.ts\<close>, with its two-key sequences and their timer.
  Labels, icons and the display of keys are not modelled.
\<close>

section \<open>Shortcuts\<close>

record shortcut =
  sc_id :: string
  sc_keys :: "string list option"
  metaKey :: bool
  shiftKey :: bool
  altKey :: bool
  sequence :: "(string \<times> string) option"
  disableInInput :: bool
  sc_action :: bool

definition plain_shortcut :: "string \<Rightarrow> shortcut" where
  "plain_shortcut i = \<lparr> sc_id = i, sc_keys = None, metaKey = False, shiftKey = False, altKey = False,
     sequence = None, disableInInput = False, sc_action = False \<rparr>"

definition key_shortcut :: "string \<Rightarrow> string \<Rightarrow> shortcut" where
  "key_shortcut i k = (plain_shortcut i)\<lparr> sc_keys := Some [k] \<rparr>"

definition sequence_shortcut :: "string \<Rightarrow> string \<Rightarrow> string \<Rightarrow> shortcut" where
  "sequence_shortcut i a b = (plain_shortcut i)\<lparr> sequence := Some (a, b), disableInInput := True \<rparr>"

definition DEFAULT_SHORTCUTS :: "shortcut list" where
  "DEFAULT_SHORTCUTS =
    [sequence_shortcut ''go-to-programs'' ''g'' ''p'',
     sequence_shortcut ''go-to-clients'' ''g'' ''c'',
     sequence_shortcut ''go-to-partners'' ''g'' ''t'',
     sequence_shortcut ''go-to-dashboard'' ''g'' ''d'',
     (key_shortcut ''new-item'' ''n'')\<lparr> disableInInput := True \<rparr>,
     (key_shortcut ''command-palette'' ''k'')\<lparr> metaKey := True \<rparr>,
     (key_shortcut ''focus-search'' ''/'')\<lparr> disableInInput := True \<rparr>,
     (key_shortcut ''toggle-sidebar'' ''b'')\<lparr> metaKey := True \<rparr>,
     (key_shortcut ''show-shortcuts'' ''?'')\<lparr> shiftKey := True, disableInInput := True \<rparr>,
     (key_shortcut ''toggle-focus-mode'' ''f'')\<lparr> metaKey := True, shiftKey := True \<rparr>,
     key_shortcut ''close-modal'' ''Escape'',
     (key_shortcut ''list-up'' ''ArrowUp'')\<lparr> disableInInput := True \<rparr>,
     (key_shortcut ''list-down'' ''ArrowDown'')\<lparr> disableInInput := True \<rparr>,
     (key_shortcut ''list-select'' ''Enter'')\<lparr> disableInInput := True \<rparr>]"

text \<open>The target of an event: the tag of the focused element and whether it is editable.\<close>

record key_event =
  ev_key :: string
  ev_meta :: bool
  ev_ctrl :: bool
  ev_shift :: bool
  ev_alt :: bool
  ev_target :: "(string \<times> bool) option"

definition matchesShortcut :: "key_event \<Rightarrow> shortcut \<Rightarrow> bool" where
  "matchesShortcut e s =
     (if sequence s \<noteq> None then False
      else case sc_keys s of
        None \<Rightarrow> False
      | Some ks \<Rightarrow>
          if ev_key e = [] then False
          else if \<not> list_ex (\<lambda>k. lower k = lower (ev_key e)) ks then False
          else if metaKey s \<and> \<not> (ev_meta e \<or> ev_ctrl e) then False
          else if \<not> metaKey s \<and> (ev_meta e \<or> ev_ctrl e) then False
          else if shiftKey s \<and> \<not> ev_shift e then False
          else if \<not> shiftKey s \<and> ev_shift e then False
          else if altKey s \<and> \<not> ev_alt e then False
          else if \<not> altKey s \<and> ev_alt e then False
          else True)"

definition isInputElement :: "(string \<times> bool) option \<Rightarrow> bool" where
  "isInputElement el =
     (case el of None \<Rightarrow> False
      | Some (tag, editable) \<Rightarrow>
          lower tag = ''input'' \<or> lower tag = ''textarea'' \<or> lower tag = ''select'' \<or> editable)"

text \<open>The action registry: handlers by shortcut id (a handler is a number).\<close>

type_synonym registry = "(string \<times> nat) list"

definition registerShortcutAction :: "string \<Rightarrow> nat \<Rightarrow> registry \<Rightarrow> registry" where
  "registerShortcutAction i h r = AList.update i h r"

definition unregisterShortcutAction :: "string \<Rightarrow> registry \<Rightarrow> registry" where
  "unregisterShortcutAction i r = AList.delete i r"

definition getShortcutAction :: "string \<Rightarrow> registry \<Rightarrow> nat option" where
  "getShortcutAction i r = map_of r i"

lemma registry_lookup:
  "getShortcutAction j (registerShortcutAction i h r) = (if j = i then Some h else getShortcutAction j r)"
  "getShortcutAction j (unregisterShortcutAction i r) = (if j = i then None else getShortcutAction j r)"
  by (simp_all add: getShortcutAction_def registerShortcutAction_def unregisterShortcutAction_def
      update_conv' delete_conv')

section \<open>The handler\<close>

datatype key_effect = Callback string | Push string | OwnAction string

record key_options =
  shortcuts :: "shortcut list"
  provided :: "string list"

text \<open>\<open>provided\<close> names the callbacks the caller passed.  The second component of a step is whether
  the browser's default was prevented.\<close>

record key_state =
  firstKey :: "string option"
  keyTimer :: bool
  keyLog :: "key_effect list"

definition key_init :: key_state where
  "key_init = \<lparr> firstKey = None, keyTimer = False, keyLog = [] \<rparr>"

definition callback :: "key_options \<Rightarrow> string \<Rightarrow> key_effect list" where
  "callback opt n = (if n \<in> set (provided opt) then [Callback n] else [])"

definition action_effects :: "key_options \<Rightarrow> shortcut \<Rightarrow> key_effect list" where
  "action_effects opt s =
     (if sc_id s = ''show-shortcuts'' then callback opt ''onShowShortcuts''
      else if sc_id s = ''command-palette'' then callback opt ''onOpenCommandPalette''
      else if sc_id s = ''toggle-sidebar'' then callback opt ''onToggleSidebar''
      else if sc_id s = ''focus-search'' then callback opt ''onFocusSearch''
      else if sc_id s = ''new-item'' then callback opt ''onNewItem''
      else if sc_id s = ''toggle-focus-mode'' then callback opt ''onToggleFocusMode''
      else if sc_id s = ''go-to-programs'' then [Push ''/programs'']
      else if sc_id s = ''go-to-clients'' then [Push ''/clients'']
      else if sc_id s = ''go-to-partners'' then [Push ''/partners'']
      else if sc_id s = ''go-to-dashboard'' then [Push ''/'']
      else if sc_action s then [OwnAction (sc_id s)] else [])"

definition executeShortcutAction :: "key_options \<Rightarrow> shortcut \<Rightarrow> key_state \<Rightarrow> key_state" where
  "executeShortcutAction opt s st = st\<lparr> keyLog := keyLog st @ action_effects opt s \<rparr>"

definition starts_sequence :: "string \<Rightarrow> shortcut \<Rightarrow> bool" where
  "starts_sequence k s = (case sequence s of None \<Rightarrow> False | Some (a, b) \<Rightarrow> lower a = lower k)"

definition completes_sequence :: "string \<Rightarrow> string \<Rightarrow> shortcut \<Rightarrow> bool" where
  "completes_sequence k1 k2 s =
     (case sequence s of None \<Rightarrow> False | Some (a, b) \<Rightarrow> lower a = lower k1 \<and> lower b = lower k2)"

definition start_sequence :: "key_options \<Rightarrow> string \<Rightarrow> key_state \<Rightarrow> bool \<times> key_state" where
  "start_sequence opt k st =
     (if list_ex (starts_sequence k) (shortcuts opt) then (True, st\<lparr> firstKey := Some k, keyTimer := True \<rparr>)
      else (False, st))"

definition handleSequentialShortcut :: "key_options \<Rightarrow> string \<Rightarrow> key_state \<Rightarrow> bool \<times> key_state" where
  "handleSequentialShortcut opt k st0 =
     (if k = [] then (False, st0)
      else
        (let st = st0\<lparr> keyTimer := False \<rparr> in
         case firstKey st of
           None \<Rightarrow> start_sequence opt k st
         | Some a \<Rightarrow>
             (let st = st\<lparr> firstKey := None \<rparr> in
              case List.find (completes_sequence a k) (shortcuts opt) of
                Some s \<Rightarrow> (True, executeShortcutAction opt s st)
              | None \<Rightarrow> start_sequence opt k st)))"

text \<open>The sequence's timer runs out.\<close>

definition sequence_timeout :: "key_state \<Rightarrow> key_state" where
  "sequence_timeout st = (if keyTimer st then st\<lparr> firstKey := None, keyTimer := False \<rparr> else st)"

definition handleKeyDown :: "key_options \<Rightarrow> key_event \<Rightarrow> key_state \<Rightarrow> bool \<times> key_state" where
  "handleKeyDown opt e st =
     (if ev_key e = [] then (False, st)
      else if ev_key e = ''Escape'' then (False, st)
      else
        (let inInput = isInputElement (ev_target e);
             (used, st) = (if inInput then (False, st) else handleSequentialShortcut opt (ev_key e) st) in
         if used then (False, st)
         else case List.find (\<lambda>s. \<not> (disableInInput s \<and> inInput) \<and> matchesShortcut e s) (shortcuts opt) of
           None \<Rightarrow> (False, st)
         | Some s \<Rightarrow> (True, executeShortcutAction opt s st)))"

definition triggerShortcut :: "key_options \<Rightarrow> string \<Rightarrow> key_state \<Rightarrow> key_state" where
  "triggerShortcut opt i st =
     (case List.find (\<lambda>s. sc_id s = i) (shortcuts opt) of
        None \<Rightarrow> st | Some s \<Rightarrow> executeShortcutAction opt s st)"

text \<open>\<open>useFocusSearch\<close>: whether the search field gets the focus.\<close>

definition focus_search_key :: "key_event \<Rightarrow> bool" where
  "focus_search_key e = (ev_key e = ''/'' \<and> \<not> isInputElement (ev_target e))"

datatype key_input = KeyDown key_event | KeyTimeout

fun key_step :: "key_options \<Rightarrow> key_state \<Rightarrow> key_input \<Rightarrow> key_state" where
  "key_step opt st (KeyDown e) = snd (handleKeyDown opt e st)"
| "key_step opt st KeyTimeout = sequence_timeout st"

section \<open>Typing\<close>

lemmas default_defs = DEFAULT_SHORTCUTS_def sequence_shortcut_def key_shortcut_def plain_shortcut_def

definition defaults :: "string list \<Rightarrow> key_options" where
  "defaults cbs = \<lparr> shortcuts = DEFAULT_SHORTCUTS, provided = cbs \<rparr>"

lemma find_none: "list_all (\<lambda>x. \<not> P x) xs \<Longrightarrow> List.find P xs = None"
  by (induction xs) auto

text \<open>Two rules for matching: by the key alone, and without modifiers.\<close>

definition has_key :: "string \<Rightarrow> shortcut \<Rightarrow> bool" where
  "has_key k s = (case sc_keys s of None \<Rightarrow> False | Some ks \<Rightarrow> list_ex (\<lambda>j. lower j = lower k) ks)"

lemma matches_has_key: "matchesShortcut e s \<Longrightarrow> has_key (ev_key e) s"
  by (auto simp: matchesShortcut_def has_key_def split: if_splits option.splits)

lemma find_no_key:
  "list_all (\<lambda>s. \<not> has_key (ev_key e) s) xs \<Longrightarrow> List.find (matchesShortcut e) xs = None"
  by (rule find_none) (auto simp: list_all_iff dest: matches_has_key)

lemma matches_unmodified:
  "\<not> ev_meta e \<Longrightarrow> \<not> ev_ctrl e \<Longrightarrow> \<not> ev_shift e \<Longrightarrow> \<not> ev_alt e \<Longrightarrow> ev_key e \<noteq> [] \<Longrightarrow>
   matchesShortcut e s = (sequence s = None \<and> has_key (ev_key e) s \<and> \<not> metaKey s \<and> \<not> shiftKey s \<and> \<not> altKey s)"
  by (cases "sequence s"; cases "sc_keys s") (simp_all add: matchesShortcut_def has_key_def)

lemma outside_sequence:
  assumes "\<not> isInputElement (ev_target e)" "ev_key e \<noteq> []" "ev_key e \<noteq> ''Escape''"
  shows "handleSequentialShortcut opt (ev_key e) st = (True, u) \<Longrightarrow> handleKeyDown opt e st = (False, u)"
    and "handleSequentialShortcut opt (ev_key e) st = (False, u) \<Longrightarrow>
      List.find (matchesShortcut e) (shortcuts opt) = None \<Longrightarrow> handleKeyDown opt e st = (False, u)"
    and "handleSequentialShortcut opt (ev_key e) st = (False, u) \<Longrightarrow>
      List.find (matchesShortcut e) (shortcuts opt) = Some s \<Longrightarrow>
      handleKeyDown opt e st = (True, executeShortcutAction opt s u)"
  using assms by (simp_all add: handleKeyDown_def Let_def)

lemma default_key_names [simp]:
  "lower ''n'' = ''n''" "lower ''k'' = ''k''" "lower ''/'' = ''/''" "lower ''b'' = ''b''" "lower ''?'' = ''?''"
  "lower ''f'' = ''f''" "lower ''Escape'' = ''escape''" "lower ''ArrowUp'' = ''arrowup''"
  "lower ''ArrowDown'' = ''arrowdown''" "lower ''Enter'' = ''enter''" "lower ''g'' = ''g''" "lower ''p'' = ''p''"
  "lower ''c'' = ''c''" "lower ''t'' = ''t''" "lower ''d'' = ''d''"
  by code_simp+

text \<open>With the default shortcuts, what matches inside an input needs the command key or is Escape.\<close>

lemma in_input_needs_meta:
  assumes "\<not> ev_meta e" "\<not> ev_ctrl e" "lower (ev_key e) \<noteq> ''escape''"
  shows "List.find (\<lambda>s. \<not> disableInInput s \<and> matchesShortcut e s) DEFAULT_SHORTCUTS = None"
proof (rule find_none)
  show "list_all (\<lambda>s. \<not> (\<not> disableInInput s \<and> matchesShortcut e s)) DEFAULT_SHORTCUTS"
    using assms by (auto simp: default_defs matchesShortcut_def)
qed

text \<open>A key typed in an input field: no command or control key; Escape has its usual name.\<close>

fun typed :: "key_input \<Rightarrow> bool" where
  "typed (KeyDown e) = (isInputElement (ev_target e) \<and> \<not> ev_meta e \<and> \<not> ev_ctrl e
     \<and> (ev_key e = ''Escape'' \<or> lower (ev_key e) \<noteq> ''escape''))"
| "typed KeyTimeout = True"

lemma typed_key: "typed (KeyDown e) \<Longrightarrow> handleKeyDown (defaults cbs) e st = (False, st)"
  using in_input_needs_meta [of e] by (auto simp: handleKeyDown_def defaults_def Let_def)

text \<open>Typing is safe: whatever is typed into input fields without the command or control key, no
  shortcut runs, no key's default is prevented and no sequence is started.\<close>

theorem typing_runs_no_shortcut:
  fixes st :: key_state and cbs :: "string list"
  assumes "list_all typed es" "typed (KeyDown e)"
  defines "st' \<equiv> run (key_step (defaults cbs)) es st"
  shows "keyLog st' = keyLog st \<and> (firstKey st' = firstKey st \<or> firstKey st' = None)
    \<and> handleKeyDown (defaults cbs) e st' = (False, st')"
proof -
  have "keyLog (run (key_step (defaults cbs)) xs u) = keyLog u
      \<and> (firstKey (run (key_step (defaults cbs)) xs u) = firstKey u \<or> firstKey (run (key_step (defaults cbs)) xs u) = None)"
    if "list_all typed xs" for xs u
    using that
  proof (induction xs arbitrary: u)
    case (Cons x xs)
    then show ?case
    proof (cases x)
      case KeyTimeout
      then show ?thesis
        using Cons.IH [of u] Cons.IH [of "u\<lparr> firstKey := None, keyTimer := False \<rparr>"] Cons.prems
        by (auto simp: sequence_timeout_def)
    qed (simp add: typed_key)
  qed simp
  then show ?thesis using assms(1) typed_key [OF assms(2)] by (simp add: st'_def)
qed

section \<open>Keys taken from the page\<close>

lemma sequence_not_found:
  assumes "lower k \<notin> {''g'', ''p'', ''c'', ''t'', ''d''}"
  shows "\<not> list_ex (starts_sequence k) DEFAULT_SHORTCUTS"
    and "List.find (completes_sequence a k) DEFAULT_SHORTCUTS = None"
  using assms by (auto simp: default_defs starts_sequence_def completes_sequence_def)

text \<open>Enter and the arrow keys are taken from the page: outside an input field each of them,
  pressed alone, has its default prevented and runs nothing, so a focused button or link does not
  react to Enter and the page does not scroll.\<close>

theorem plain_enter_swallowed:
  assumes "ev_key e \<in> {''Enter'', ''ArrowUp'', ''ArrowDown''}" "\<not> isInputElement (ev_target e)"
    and "\<not> ev_meta e" "\<not> ev_ctrl e" "\<not> ev_shift e" "\<not> ev_alt e"
  shows "fst (handleKeyDown (defaults cbs) e st) \<and> keyLog (snd (handleKeyDown (defaults cbs) e st)) = keyLog st"
proof -
  have k: "lower (ev_key e) \<in> {''enter'', ''arrowup'', ''arrowdown''}" "ev_key e \<noteq> []" "ev_key e \<noteq> ''Escape''"
    using assms(1) by auto
  then have "lower (ev_key e) \<notin> {''g'', ''p'', ''c'', ''t'', ''d''}" by auto
  from sequence_not_found [OF this]
  obtain u where u: "handleSequentialShortcut (defaults cbs) (ev_key e) st = (False, u)" "keyLog u = keyLog st"
    using k(2) by (cases "firstKey st")
      (simp_all add: handleSequentialShortcut_def start_sequence_def defaults_def Let_def)
  have m: "matchesShortcut e = (\<lambda>s. sequence s = None \<and> has_key (ev_key e) s \<and> \<not> metaKey s \<and> \<not> shiftKey s \<and> \<not> altKey s)"
    using assms(3-6) k(2) by (simp add: fun_eq_iff matches_unmodified)
  have "\<exists>s. List.find (matchesShortcut e) DEFAULT_SHORTCUTS = Some s \<and> action_effects (defaults cbs) s = []"
    using k(1) unfolding m by (elim insertE) (simp_all add: default_defs has_key_def action_effects_def)
  then show ?thesis
    using outside_sequence(3) [OF assms(2) k(2,3) u(1)] u(2)
    by (auto simp: executeShortcutAction_def defaults_def)
qed

section \<open>Sequences\<close>

definition go_routes :: "(string \<times> string) list" where
  "go_routes = [(''p'', ''/programs''), (''c'', ''/clients''), (''t'', ''/partners''), (''d'', ''/'')]"

text \<open>A sequence navigates once: outside input fields, g followed by p, c, t or d pushes exactly that
  key's route and leaves no half-open sequence, with any modifiers held; when the timer runs out in
  between, the second key pushes nothing.\<close>

theorem sequence_navigates:
  fixes e1 e2 :: key_event and st :: key_state and cbs :: "string list"
  assumes "ev_key e1 = ''g''" "map_of go_routes (ev_key e2) = Some r"
    and "\<not> isInputElement (ev_target e1)" "\<not> isInputElement (ev_target e2)" "firstKey st = None"
  defines "opt \<equiv> defaults cbs"
  shows "run (key_step opt) [KeyDown e1, KeyDown e2] st
      = st\<lparr> firstKey := None, keyTimer := False, keyLog := keyLog st @ [Push r] \<rparr>
    \<and> keyLog (run (key_step opt) [KeyDown e1, KeyTimeout, KeyDown e2] st) = keyLog st"
proof -
  have e2: "(ev_key e2 = ''p'' \<and> r = ''/programs'') \<or> (ev_key e2 = ''c'' \<and> r = ''/clients'')
      \<or> (ev_key e2 = ''t'' \<and> r = ''/partners'') \<or> (ev_key e2 = ''d'' \<and> r = ''/'')"
    using assms(2) by (auto simp: go_routes_def split: if_splits)
  have first: "key_step opt st (KeyDown e1) = st\<lparr> firstKey := Some ''g'', keyTimer := True \<rparr>"
    using assms(1,3,5)
    by (simp add: opt_def handleKeyDown_def handleSequentialShortcut_def start_sequence_def defaults_def
        default_defs starts_sequence_def Let_def)
  have second: "handleSequentialShortcut opt (ev_key e2) (st\<lparr> firstKey := Some ''g'', keyTimer := True \<rparr>)
      = (True, st\<lparr> firstKey := None, keyTimer := False, keyLog := keyLog st @ [Push r] \<rparr>)"
    using e2 by (elim disjE)
      (simp_all add: opt_def handleSequentialShortcut_def defaults_def default_defs completes_sequence_def
        executeShortcutAction_def action_effects_def Let_def)
  have late: "handleSequentialShortcut opt (ev_key e2) (st\<lparr> firstKey := None, keyTimer := False \<rparr>)
      = (False, st\<lparr> firstKey := None, keyTimer := False \<rparr>)"
    using e2 by (elim disjE)
      (simp_all add: opt_def handleSequentialShortcut_def start_sequence_def defaults_def default_defs
        starts_sequence_def Let_def)
  have none: "List.find (matchesShortcut e2) DEFAULT_SHORTCUTS = None"
    by (rule find_no_key) (use e2 in \<open>elim disjE; simp add: default_defs has_key_def\<close>)
  have ne: "ev_key e2 \<noteq> []" "ev_key e2 \<noteq> ''Escape''" using e2 by auto
  have none': "List.find (matchesShortcut e2) (shortcuts opt) = None"
    using none by (simp add: opt_def defaults_def)
  have late': "key_step opt (st\<lparr> firstKey := None, keyTimer := False \<rparr>) (KeyDown e2)
      = st\<lparr> firstKey := None, keyTimer := False \<rparr>"
    using outside_sequence(2) [OF assms(4) ne late none'] by simp
  show ?thesis
    using outside_sequence(1) [OF assms(4) ne second] late' first
    by (simp add: sequence_timeout_def)
qed

definition keypress :: "string \<Rightarrow> (string \<times> bool) option \<Rightarrow> key_event" where
  "keypress k t = \<lparr> ev_key = k, ev_meta = False, ev_ctrl = False, ev_shift = False, ev_alt = False, ev_target = t \<rparr>"

lemma typing_witness:
  "keyLog (run (key_step (defaults [])) [KeyDown (keypress ''g'' (Some (''input'', False))),
     KeyDown (keypress ''p'' (Some (''input'', False)))] key_init) = []"
proof -
  have l: "lower ''input'' = ''input''" by code_simp
  show ?thesis
    using typing_runs_no_shortcut [of "[KeyDown (keypress ''g'' (Some (''input'', False))),
        KeyDown (keypress ''p'' (Some (''input'', False)))]" "keypress ''p'' (Some (''input'', False))" "[]" key_init]
    by (simp add: keypress_def isInputElement_def l key_init_def)
qed

lemma enter_witness:
  "fst (handleKeyDown (defaults [''onNewItem'']) (keypress ''Enter'' (Some (''button'', False))) key_init)"
proof -
  have l: "lower ''button'' = ''button''" by code_simp
  show ?thesis
    using plain_enter_swallowed [of "keypress ''Enter'' (Some (''button'', False))" "[''onNewItem'']" key_init]
    by (simp add: keypress_def isInputElement_def l)
qed

lemma sequence_witness:
  "keyLog (run (key_step (defaults [])) [KeyDown (keypress ''g'' None), KeyDown (keypress ''c'' None)] key_init)
   = [Push ''/clients'']"
  using sequence_navigates [of "keypress ''g'' None" "keypress ''c'' None" "''/clients''" key_init "[]"]
  by (simp add: keypress_def go_routes_def isInputElement_def key_init_def)

end
