(* ===== verification/History.thy ===== *)
theory History
  imports Machines
begin

text \<open>
  Two bounded histories: the recent searches (\<open>frontend/src/hooks/use-recent-searches.ts\<close>) and the
  trail of user actions attached to error reports (\<open>frontend/src/lib/action-context.ts\<close>).  Random
  ids and the text of dates are arguments; the DOM element of a click is a record of what the code
  reads from it.
\<close>

section \<open>Recent searches\<close>

datatype search_type = SGlobal | SClient | SProgram | SPartner | SDocument

record recent_search =
  search_id :: string
  query :: string
  search_type :: search_type
  searchedAt :: string

definition MAX_RECENT_SEARCHES :: nat where
  "MAX_RECENT_SEARCHES = 10"

definition normalizeQuery :: "string \<Rightarrow> string" where
  "normalizeQuery q = trim (lower q)"

definition addSearch ::
    "string \<Rightarrow> string \<Rightarrow> string \<Rightarrow> search_type \<Rightarrow> recent_search list \<Rightarrow> recent_search list" where
  "addSearch newId now q ty searches =
     (let trimmed = trim q in
      if trimmed = [] then searches
      else take MAX_RECENT_SEARCHES
        (\<lparr> search_id = newId, query = trimmed, search_type = ty, searchedAt = now \<rparr>
         # filter (\<lambda>s. normalizeQuery (query s) \<noteq> normalizeQuery trimmed) searches))"

definition removeSearch :: "string \<Rightarrow> recent_search list \<Rightarrow> recent_search list" where
  "removeSearch i searches = filter (\<lambda>s. search_id s \<noteq> i) searches"

definition clearSearches :: "recent_search list \<Rightarrow> recent_search list" where
  "clearSearches searches = []"

definition clearSearchesByType :: "search_type \<Rightarrow> recent_search list \<Rightarrow> recent_search list" where
  "clearSearchesByType ty searches = filter (\<lambda>s. search_type s \<noteq> ty) searches"

definition getSearchesByType :: "search_type \<Rightarrow> recent_search list \<Rightarrow> recent_search list" where
  "getSearchesByType ty searches = filter (\<lambda>s. search_type s = ty) searches"

text \<open>\<open>formatSearchTime\<close>: the age in the coarsest unit, or the date as the platform prints it.\<close>

definition formatSearchTime :: "int \<Rightarrow> int \<Rightarrow> string \<Rightarrow> string" where
  "formatSearchTime now searched localeDate =
     (let diffMs = now - searched;
          diffMins = diffMs div 60000; diffHours = diffMs div 3600000; diffDays = diffMs div 86400000 in
      if diffMins < 1 then ''Just now''
      else if diffMins < 60 then int_text diffMins @ ''m ago''
      else if diffHours < 24 then int_text diffHours @ ''h ago''
      else if diffDays < 7 then int_text diffDays @ ''d ago''
      else localeDate)"

datatype search_event = SAdd string string string search_type | SRemove string | SClear | SClearType search_type

fun search_step :: "recent_search list \<Rightarrow> search_event \<Rightarrow> recent_search list" where
  "search_step s (SAdd i now q ty) = addSearch i now q ty s"
| "search_step s (SRemove i) = removeSearch i s"
| "search_step s SClear = clearSearches s"
| "search_step s (SClearType ty) = clearSearchesByType ty s"

section \<open>The action trail\<close>

record crumb =
  crumb_label :: string
  crumb_ts :: int

definition MAX_CRUMBS :: nat where
  "MAX_CRUMBS = 5"

definition CRUMB_TTL_MS :: int where
  "CRUMB_TTL_MS = 30000"

text \<open>What \<open>extractLabel\<close> and \<open>inferGoal\<close> read of the nearest interactive element (or of the element
  itself); the goal attribute is None when no interactive ancestor carries one.\<close>

record element =
  data_action :: "string option"
  data_goal :: "string option"
  aria_label :: "string option"
  text_content :: "string option"
  placeholder :: "string option"
  tag_name :: string

definition filled :: "string option \<Rightarrow> bool" where
  "filled x = (x \<noteq> None \<and> x \<noteq> Some [])"

text \<open>\<open>replace(/\s+/g, " ")\<close>.\<close>

fun collapse_spaces :: "string \<Rightarrow> string" where
  "collapse_spaces [] = []"
| "collapse_spaces (c # s) =
     (if is_space c
      then (case collapse_spaces s of
              [] \<Rightarrow> '' ''
            | d # t \<Rightarrow> if d = CHR '' '' \<and> s \<noteq> [] \<and> is_space (hd s) then d # t else CHR '' '' # d # t)
      else c # collapse_spaces s)"

definition extractLabel :: "element \<Rightarrow> string" where
  "extractLabel el =
     (let txt = (case text_content el of None \<Rightarrow> [] | Some t \<Rightarrow> collapse_spaces (trim t)) in
      if filled (data_action el) then take 60 (trim (the (data_action el)))
      else if filled (aria_label el) then take 60 (trim (the (aria_label el)))
      else if txt \<noteq> [] then take 60 txt
      else if filled (placeholder el) then take 60 (trim (the (placeholder el)))
      else lower (tag_name el))"

definition mentions :: "string list \<Rightarrow> string \<Rightarrow> bool" where
  "mentions ws s = list_ex (\<lambda>w. str_includes w s) ws"

definition quoted :: "string \<Rightarrow> string" where
  "quoted s = [char_of (34 :: nat)] @ s @ [char_of (34 :: nat)]"

definition inferGoal :: "element \<Rightarrow> string \<Rightarrow> string" where
  "inferGoal el label =
     (let l = lower label in
      if filled (data_goal el) then trim (the (data_goal el))
      else if mentions [''save'', ''create'', ''add'', ''submit'', ''new''] l then ''Create or save: '' @ quoted label
      else if mentions [''delete'', ''remove'', ''archive''] l then ''Delete or remove: '' @ quoted label
      else if mentions [''approve'', ''confirm''] l then ''Approve/confirm: '' @ quoted label
      else if mentions [''edit'', ''update''] l then ''Update: '' @ quoted label
      else if mentions [''send'', ''email'', ''notify''] l then ''Send communication: '' @ quoted label
      else if mentions [''upload'', ''import''] l then ''Upload/import: '' @ quoted label
      else if mentions [''download'', ''export''] l then ''Download/export: '' @ quoted label
      else ''Complete action: '' @ quoted label)"

record action_trail =
  lastTrigger :: "string option"
  lastGoal :: "string option"
  crumbs :: "crumb list"

definition trail_init :: action_trail where
  "trail_init = \<lparr> lastTrigger = None, lastGoal = None, crumbs = [] \<rparr>"

definition pushCrumb :: "int \<Rightarrow> string \<Rightarrow> action_trail \<Rightarrow> action_trail" where
  "pushCrumb now label s =
     (let kept = dropWhile (\<lambda>c. now - crumb_ts c > CRUMB_TTL_MS) (crumbs s)
            @ [\<lparr> crumb_label = label, crumb_ts = now \<rparr>] in
      s\<lparr> crumbs := (if length kept > MAX_CRUMBS then drop 1 kept else kept) \<rparr>)"

definition activeCrumbs :: "int \<Rightarrow> action_trail \<Rightarrow> string list" where
  "activeCrumbs now s = map crumb_label (filter (\<lambda>c. now - crumb_ts c \<le> CRUMB_TTL_MS) (crumbs s))"

definition recordClick :: "int \<Rightarrow> element \<Rightarrow> action_trail \<Rightarrow> action_trail" where
  "recordClick now el s =
     (let label = extractLabel el in
      pushCrumb now (''Clicked '' @ quoted label)
        (s\<lparr> lastTrigger := Some label, lastGoal := Some (inferGoal el label) \<rparr>))"

text \<open>The path of the URL is the platform's (\<open>new URL\<close>); None when it throws.\<close>

definition recordNavigation :: "int \<Rightarrow> (string \<Rightarrow> string option) \<Rightarrow> string \<Rightarrow> action_trail \<Rightarrow> action_trail" where
  "recordNavigation now url_path u s =
     pushCrumb now (''Navigated to '' @ (case url_path u of None \<Rightarrow> u | Some p \<Rightarrow> p)) s"

definition getActionContext :: "int \<Rightarrow> action_trail \<Rightarrow> string option \<times> string option \<times> string list" where
  "getActionContext now s = (lastTrigger s, lastGoal s, activeCrumbs now s)"

section \<open>Searches stay few, distinct and trimmed\<close>

lemma dropWhile_idem_rev: "dropWhile P (rev (dropWhile P (rev (dropWhile P s)))) = rev (dropWhile P (rev (dropWhile P s)))"
proof (cases "dropWhile P s")
  case (Cons c t)
  then have "\<not> P c" by (metis hd_dropWhile list.distinct(1) list.sel(1))
  then have "rev (dropWhile P (rev (c # t))) = c # rev (dropWhile P (rev t))"
    by (simp add: dropWhile_append)
  then show ?thesis using Cons \<open>\<not> P c\<close> by simp
next
  case Nil
  then show ?thesis by (simp only: rev.simps dropWhile.simps)
qed

lemma trim_idem [simp]: "trim (trim s) = trim s"
  by (simp add: trim_def dropWhile_idem_rev)

definition searches_ok :: "recent_search list \<Rightarrow> bool" where
  "searches_ok ss = (length ss \<le> MAX_RECENT_SEARCHES
     \<and> distinct (map (\<lambda>s. normalizeQuery (query s)) ss)
     \<and> list_all (\<lambda>s. query s \<noteq> [] \<and> trim (query s) = query s) ss)"

lemma searches_ok_filter: "searches_ok ss \<Longrightarrow> searches_ok (filter P ss)"
  by (auto simp: searches_ok_def distinct_map inj_on_def list_all_iff intro: order_trans [OF length_filter_le])

lemma searches_ok_take: "length ss \<le> Suc MAX_RECENT_SEARCHES \<Longrightarrow>
    distinct (map (\<lambda>s. normalizeQuery (query s)) ss) \<Longrightarrow>
    list_all (\<lambda>s. query s \<noteq> [] \<and> trim (query s) = query s) ss \<Longrightarrow> searches_ok (take MAX_RECENT_SEARCHES ss)"
  by (auto simp: searches_ok_def take_map [symmetric] distinct_take list_all_iff dest: in_set_takeD)

interpretation searches: machine search_step searches_ok
proof (unfold_locales, goal_cases)
  case (1 s e)
  show ?case
  proof (cases e)
    case (SAdd i now q ty)
    have f: "searches_ok (filter (\<lambda>s. normalizeQuery (query s) \<noteq> normalizeQuery (trim q)) s)"
      using 1 by (rule searches_ok_filter)
    show ?thesis
    proof (cases "trim q = []")
      case False
      have "searches_ok (take MAX_RECENT_SEARCHES
          (\<lparr> search_id = i, query = trim q, search_type = ty, searchedAt = now \<rparr>
           # filter (\<lambda>s. normalizeQuery (query s) \<noteq> normalizeQuery (trim q)) s))"
        by (rule searches_ok_take) (use f False in \<open>auto simp: searches_ok_def\<close>)
      then show ?thesis using False by (simp add: SAdd addSearch_def Let_def)
    qed (use 1 SAdd in \<open>simp add: addSearch_def\<close>)
  qed (use 1 in \<open>auto simp: removeSearch_def clearSearches_def clearSearchesByType_def searches_ok_filter\<close>,
       auto simp: searches_ok_def)
qed

text \<open>The search history is short, free of duplicates and trimmed: after any operations it holds
  at most ten searches, no two equal up to case and surrounding spaces, none empty; and the search
  added last is first in it.\<close>

theorem search_history_bounded:
  fixes es :: "search_event list"
  shows "searches_ok (run search_step es [])
    \<and> (let ss = run search_step (es @ [SAdd i now q ty]) [] in
        if trim q = [] then ss = run search_step es [] else query (hd ss) = trim q \<and> search_type (hd ss) = ty)"
proof -
  have "searches_ok []" by (simp add: searches_ok_def)
  then show ?thesis
    using searches.every_run_inv [of "[]" es]
    by (auto simp: Let_def addSearch_def MAX_RECENT_SEARCHES_def)
qed

section \<open>The trail is short and recent\<close>

definition trail_ok :: "action_trail \<Rightarrow> bool" where
  "trail_ok s = (length (crumbs s) \<le> MAX_CRUMBS)"

datatype trail_event = TClick int element | TNavigate int string

fun trail_step :: "(string \<Rightarrow> string option) \<Rightarrow> action_trail \<Rightarrow> trail_event \<Rightarrow> action_trail" where
  "trail_step url_path s (TClick now el) = recordClick now el s"
| "trail_step url_path s (TNavigate now u) = recordNavigation now url_path u s"

lemma push_ok: "trail_ok s \<Longrightarrow> trail_ok (pushCrumb now l s)"
  using length_dropWhile_le [of "\<lambda>c. now - crumb_ts c > CRUMB_TTL_MS" "crumbs s"]
  by (auto simp: trail_ok_def pushCrumb_def Let_def)

interpretation trail: machine "trail_step url_path" trail_ok for url_path
proof (unfold_locales, goal_cases)
  case (1 s e)
  then show ?case
    by (cases e) (auto simp: recordClick_def recordNavigation_def Let_def trail_ok_def [of "s\<lparr>lastTrigger := _, lastGoal := _\<rparr>"]
        trail_ok_def [of s] intro!: push_ok)
qed

text \<open>A crumb is reported for 30 s and never later.\<close>

theorem trail_short_and_recent:
  shows "length (snd (snd (getActionContext now (run (trail_step url_path) es trail_init)))) \<le> 5
    \<and> set (activeCrumbs now s) = crumb_label ` {c \<in> set (crumbs s). now - crumb_ts c \<le> 30000}"
proof -
  have "trail_ok (run (trail_step url_path) es trail_init)"
    by (rule trail.every_run_inv) (simp add: trail_ok_def trail_init_def)
  then have "length (activeCrumbs now (run (trail_step url_path) es trail_init)) \<le> 5"
    unfolding trail_ok_def activeCrumbs_def MAX_CRUMBS_def length_map by (rule order_trans [OF length_filter_le])
  then show ?thesis
    by (auto simp: getActionContext_def activeCrumbs_def CRUMB_TTL_MS_def)
qed

end
