(* ===== verification/ReadStatus.thy ===== *)
theory ReadStatus
  imports Machines
begin

text \<open>
  Read markers: \<open>frontend/src/hooks/use-read-status.ts\<close>, the optimistic marker of one entity, the
  batch updates and the tracker of a list.  What the server answers and what the query cache holds
  arrive as events; the requests sent are logged.  An entity type is fixed per hook.
\<close>

section \<open>One entity\<close>

record read_update =
  entity_type :: string
  entity_id :: string
  is_read :: bool
  device_id :: "string option"

record read_hook =
  rs_type :: string
  rs_entity :: string
  rs_device :: "string option"
  rs_data :: "(bool \<times> string option) option"
  optimisticIsRead :: "bool option"
  updates :: "(bool \<times> bool option) list"
  sentUpdates :: "read_update list"
  rs_stale :: bool

definition isRead :: "read_hook \<Rightarrow> bool" where
  "isRead h = (case optimisticIsRead h of Some b \<Rightarrow> b
     | None \<Rightarrow> (case rs_data h of None \<Rightarrow> False | Some (r, at) \<Rightarrow> r))"

definition readAt :: "read_hook \<Rightarrow> string option" where
  "readAt h = (case rs_data h of None \<Rightarrow> None | Some (r, at) \<Rightarrow> at)"

text \<open>\<open>mutate(v)\<close>: the optimistic value is shown, the previous server value kept for a rollback, the
  request sent.\<close>

definition mutate_read :: "bool \<Rightarrow> read_hook \<Rightarrow> read_hook" where
  "mutate_read v h = h\<lparr> optimisticIsRead := Some v, updates := updates h @ [(v, map_option fst (rs_data h))],
     sentUpdates := sentUpdates h @ [\<lparr> entity_type = rs_type h, entity_id = rs_entity h, is_read = v,
       device_id = rs_device h \<rparr>] \<rparr>"

text \<open>A request settles: an error first rolls back, and the end of both invalidates the query and
  drops the optimistic value.\<close>

definition update_settled :: "nat \<Rightarrow> bool \<Rightarrow> read_hook \<Rightarrow> read_hook" where
  "update_settled i ok h =
     (if i < length (updates h) then
        (let h = (if ok then h else h\<lparr> optimisticIsRead := snd (updates h ! i) \<rparr>);
             h = h\<lparr> updates := take i (updates h) @ drop (Suc i) (updates h) \<rparr> in
         h\<lparr> rs_stale := True, optimisticIsRead := None \<rparr>)
      else h)"

definition read_refetched :: "bool \<Rightarrow> string option \<Rightarrow> read_hook \<Rightarrow> read_hook" where
  "read_refetched r at h = h\<lparr> rs_data := Some (r, at), rs_stale := False \<rparr>"

definition markAsRead :: "read_hook \<Rightarrow> read_hook" where
  "markAsRead h = (if isRead h then h else mutate_read True h)"

definition markAsUnread :: "read_hook \<Rightarrow> read_hook" where
  "markAsUnread h = (if isRead h then mutate_read False h else h)"

definition toggleRead :: "read_hook \<Rightarrow> read_hook" where
  "toggleRead h = mutate_read (\<not> isRead h) h"

section \<open>Batches\<close>

definition with_device :: "string option \<Rightarrow> read_update list \<Rightarrow> read_update list" where
  "with_device d us = map (\<lambda>u. u\<lparr> device_id := (case device_id u of Some x \<Rightarrow> Some x | None \<Rightarrow> d) \<rparr>) us"

text \<open>The requests of \<open>markAllAsRead\<close> and \<open>markAllAsUnread\<close>, and the queries a success invalidates.\<close>

definition batch_request :: "bool \<Rightarrow> string option \<Rightarrow> (string \<times> string) list \<Rightarrow> read_update list" where
  "batch_request v d entities = with_device d
     (map (\<lambda>(t, i). \<lparr> entity_type = t, entity_id = i, is_read = v, device_id = d \<rparr>) entities)"

definition batch_invalidates :: "read_update list \<Rightarrow> (string \<times> string) list" where
  "batch_invalidates us = map (\<lambda>u. (entity_type u, entity_id u)) us"

lemma batch_roundtrip: "batch_invalidates (batch_request v d es) = es"
  by (induction es) (auto simp: batch_invalidates_def batch_request_def with_device_def)

section \<open>The tracker of a list\<close>

record tracker =
  tr_items :: "string list"
  readStatuses :: "(string \<times> bool) list"
  entityCache :: "(string \<times> bool) list"
  tr_sent :: "string list list"
  tr_invalid :: "string list"

definition known_read :: "tracker \<Rightarrow> string \<Rightarrow> bool" where
  "known_read t i = (map_of (readStatuses t) i = Some True)"

definition unread_ids :: "tracker \<Rightarrow> string list" where
  "unread_ids t = filter (\<lambda>i. \<not> known_read t i) (tr_items t)"

definition unreadCount :: "tracker \<Rightarrow> nat" where
  "unreadCount t = length (unread_ids t)"

text \<open>The effect on the items: statuses come from the cached entity queries alone.\<close>

definition cached_results :: "tracker \<Rightarrow> (string \<times> bool) list" where
  "cached_results t =
     fold (\<lambda>i acc. case map_of (entityCache t) i of None \<Rightarrow> acc | Some b \<Rightarrow> AList.update i b acc) (tr_items t) []"

definition load_statuses :: "tracker \<Rightarrow> tracker" where
  "load_statuses t = (if cached_results t = [] then t else t\<lparr> readStatuses := cached_results t \<rparr>)"

definition markItemRead_starts :: "string \<Rightarrow> tracker \<Rightarrow> tracker" where
  "markItemRead_starts i t =
     t\<lparr> readStatuses := AList.update i True (readStatuses t), tr_sent := tr_sent t @ [[i]] \<rparr>"

definition markItemRead_ends :: "string \<Rightarrow> bool \<Rightarrow> tracker \<Rightarrow> tracker" where
  "markItemRead_ends i ok t =
     (if ok then t\<lparr> tr_invalid := tr_invalid t @ [i] \<rparr>
      else t\<lparr> readStatuses := AList.update i False (readStatuses t) \<rparr>)"

definition mark_all :: "bool \<Rightarrow> string list \<Rightarrow> (string \<times> bool) list" where
  "mark_all b ids = fold (\<lambda>i acc. AList.update i b acc) ids []"

definition markAllRead_starts :: "tracker \<Rightarrow> tracker" where
  "markAllRead_starts t =
     (let ids = unread_ids t in
      if ids = [] then t
      else t\<lparr> readStatuses := spread (readStatuses t) (mark_all True ids), tr_sent := tr_sent t @ [ids] \<rparr>)"

text \<open>The end of the batch request the start sent for \<open>ids\<close>.\<close>

definition markAllRead_ends :: "string list \<Rightarrow> bool \<Rightarrow> tracker \<Rightarrow> tracker" where
  "markAllRead_ends ids ok t =
     (if ids = [] then t
      else if ok then t\<lparr> tr_invalid := tr_invalid t @ ids \<rparr>
      else t\<lparr> readStatuses := spread (readStatuses t) (mark_all False ids) \<rparr>)"

lemma mark_all_lookup: "map_of (mark_all b ids) i = (if i \<in> set ids then Some b else None)"
proof -
  have "map_of (fold (\<lambda>i acc. AList.update i b acc) ids acc) i = (if i \<in> set ids then Some b else map_of acc i)" for acc
    by (induction ids arbitrary: acc) (auto simp: update_conv')
  then show ?thesis by (simp add: mark_all_def)
qed

lemma mark_all_distinct: "distinct (map fst (mark_all b ids))"
proof -
  have "distinct (map fst acc) \<Longrightarrow> distinct (map fst (fold (\<lambda>i acc. AList.update i b acc) ids acc))" for acc
    by (induction ids arbitrary: acc) (simp_all add: distinct_update)
  then show ?thesis by (simp add: mark_all_def)
qed

lemma spread_mark_all:
  "map_of (spread s (mark_all b ids)) i = (if i \<in> set ids then Some b else map_of s i)"
  by (simp add: map_of_spread map_of_rev_distinct [OF mark_all_distinct] mark_all_lookup)

lemma set_unread: "set (unread_ids t) = {i \<in> set (tr_items t). \<not> known_read t i}"
  by (simp add: unread_ids_def)

lemma known_after_start: "known_read (markAllRead_starts t) i = (known_read t i \<or> i \<in> set (unread_ids t))"
  by (cases "unread_ids t = []")
     (simp_all add: markAllRead_starts_def Let_def known_read_def spread_mark_all)

lemma known_after_refusal:
  "known_read (markAllRead_ends ids False t) i = (known_read t i \<and> i \<notin> set ids)"
  by (cases "ids = []") (simp_all add: markAllRead_ends_def known_read_def spread_mark_all)

lemma items_kept:
  "tr_items (markAllRead_starts t) = tr_items t" "tr_items (markAllRead_ends ids ok t) = tr_items t"
  by (simp_all add: markAllRead_starts_def markAllRead_ends_def Let_def)

text \<open>Marking all as read shows none unread at once, asks the server for exactly the unread items in
  order, and a refusal gives back exactly the unread items there were.\<close>

theorem mark_all_rolls_back:
  shows "unreadCount (markAllRead_starts t) = 0
    \<and> tr_sent (markAllRead_starts t) = tr_sent t @ (if unread_ids t = [] then [] else [unread_ids t])
    \<and> unreadCount (markAllRead_ends (unread_ids t) True (markAllRead_starts t)) = 0
    \<and> unread_ids (markAllRead_ends (unread_ids t) False (markAllRead_starts t)) = unread_ids t"
proof -
  have s: "unread_ids (markAllRead_starts t) = []"
    unfolding unread_ids_def [of "markAllRead_starts t"] items_kept known_after_start set_unread
    by (auto simp: filter_empty_conv)
  have f: "unread_ids (markAllRead_ends (unread_ids t) False (markAllRead_starts t)) = unread_ids t"
    unfolding unread_ids_def [of "markAllRead_ends _ _ _"] items_kept known_after_start known_after_refusal set_unread
    by (auto simp: unread_ids_def intro!: filter_cong)
  have "unread_ids (markAllRead_ends (unread_ids t) True (markAllRead_starts t)) = unread_ids (markAllRead_starts t)"
    by (simp add: markAllRead_ends_def unread_ids_def known_read_def)
  then show ?thesis
    using s f by (simp add: unreadCount_def markAllRead_starts_def Let_def)
qed

text \<open>A refused request rolls the marker of one entity back to what the server last said.\<close>

theorem refused_update_rolls_back:
  fixes h :: read_hook
  assumes "optimisticIsRead h = None" "updates h = []"
  shows "isRead (toggleRead h) = (\<not> isRead h)
    \<and> isRead (update_settled 0 False (toggleRead h)) = isRead h
    \<and> isRead (read_refetched r at (update_settled 0 True (toggleRead h))) = r"
  using assms by (simp add: toggleRead_def mutate_read_def update_settled_def read_refetched_def isRead_def Let_def)

text \<open>An item already read becomes unread when marking it once more fails.\<close>

lemma failed_remark_unreads:
  "known_read t i \<Longrightarrow> \<not> known_read (markItemRead_ends i False (markItemRead_starts i t)) i"
  by (simp add: known_read_def markItemRead_starts_def markItemRead_ends_def update_conv')

text \<open>An accepted update is not shown until the refetch: in between the old value is back.\<close>

lemma accepted_update_flickers:
  "rs_data h = Some (False, a) \<Longrightarrow> updates h = [] \<Longrightarrow> \<not> isRead (update_settled 0 True (mutate_read True h))"
  by (simp add: update_settled_def mutate_read_def isRead_def Let_def)

end
