(* ===== verification/ImportWizard.thy ===== *)
theory ImportWizard
  imports Machines
begin

text \<open>
  The import wizard: \<open>frontend/src/components/import/import-wizard/hooks/use-import-wizard.ts\<close>.
  An awaited call is a request in flight (\<open>calls\<close>) whose answer is an event; the requests sent
  are logged.  A file is its name.  Templates, validation and import results are opaque.
\<close>

datatype wizard_step = Select | Upload | Mapping | Validation | Preview | Complete

record column_mapping =
  source_column :: string
  target_field :: string

text \<open>What is in flight, with the values its continuation uses.\<close>

datatype call =
    CTemplate string
  | CUpload
  | CMap string
  | CValidate string
  | CConfirm string

datatype wizard_request =
    RTemplate string
  | RUpload string string
  | RMap string "column_mapping list"
  | RValidate string
  | RConfirm string

record wizard =
  currentStep :: wizard_step
  entityType :: "string option"
  template :: "jsv option"
  isLoadingTemplate :: bool
  importFile :: "string option"
  isUploading :: bool
  importId :: "string option"
  columns :: "string list"
  mappings :: "column_mapping list"
  isMapping :: bool
  validationResult :: "jsv option"
  importResult :: "jsv option"
  isImporting :: bool
  wizardError :: "string option"
  calls :: "call list"
  requests :: "wizard_request list"
  completed :: "jsv list"

definition begin_call :: "call \<Rightarrow> wizard_request \<Rightarrow> wizard \<Rightarrow> wizard" where
  "begin_call c r w = w\<lparr> calls := calls w @ [c], requests := requests w @ [r] \<rparr>"

text \<open>The effect on the entity type.\<close>

definition load_template :: "wizard \<Rightarrow> wizard" where
  "load_template w =
     (case entityType w of
        None \<Rightarrow> w
      | Some ty \<Rightarrow> if ty = [] then w
          else begin_call (CTemplate ty) (RTemplate ty) (w\<lparr> isLoadingTemplate := True \<rparr>))"

definition wizard_init :: "string option \<Rightarrow> wizard" where
  "wizard_init ty = load_template \<lparr> currentStep = Select, entityType = ty, template = None,
     isLoadingTemplate = False, importFile = None, isUploading = False, importId = None, columns = [],
     mappings = [], isMapping = False, validationResult = None, importResult = None,
     isImporting = False, wizardError = None, calls = [], requests = [], completed = [] \<rparr>"

definition handleEntityTypeSelect :: "string \<Rightarrow> wizard \<Rightarrow> wizard" where
  "handleEntityTypeSelect ty w =
     (let w' = w\<lparr> entityType := Some ty, wizardError := None \<rparr> in
      if entityType w = Some ty then w' else load_template w')"

definition handleFileChange :: "string option \<Rightarrow> wizard \<Rightarrow> wizard" where
  "handleFileChange f w = (case f of None \<Rightarrow> w | Some n \<Rightarrow> w\<lparr> importFile := Some n, wizardError := None \<rparr>)"

definition handleUpload :: "wizard \<Rightarrow> wizard" where
  "handleUpload w =
     (case (importFile w, entityType w) of
        (Some f, Some ty) \<Rightarrow> if ty = [] then w
          else begin_call CUpload (RUpload f ty) (w\<lparr> isUploading := True, wizardError := None \<rparr>)
      | _ \<Rightarrow> w)"

text \<open>The columns of an uploaded file with the detected target, or none.\<close>

definition initial_mappings :: "string list \<Rightarrow> (string \<times> string) list \<Rightarrow> column_mapping list" where
  "initial_mappings cols detected =
     map (\<lambda>c. \<lparr> source_column = c, target_field = (case map_of detected c of None \<Rightarrow> [] | Some t \<Rightarrow> t) \<rparr>) cols"

definition handleMappingChange :: "string \<Rightarrow> string \<Rightarrow> wizard \<Rightarrow> wizard" where
  "handleMappingChange c t w =
     w\<lparr> mappings := map (\<lambda>m. if source_column m = c then m\<lparr> target_field := t \<rparr> else m) (mappings w) \<rparr>"

definition has_id :: "wizard \<Rightarrow> string option" where
  "has_id w = (case importId w of None \<Rightarrow> None | Some i \<Rightarrow> if i = [] then None else Some i)"

definition handleConfirmMappings :: "wizard \<Rightarrow> wizard" where
  "handleConfirmMappings w =
     (case has_id w of
        None \<Rightarrow> w
      | Some i \<Rightarrow> begin_call (CMap i) (RMap i (filter (\<lambda>m. target_field m \<noteq> []) (mappings w)))
          (w\<lparr> isMapping := True, wizardError := None \<rparr>))"

definition handleConfirmImport :: "wizard \<Rightarrow> wizard" where
  "handleConfirmImport w =
     (case has_id w of
        None \<Rightarrow> w
      | Some i \<Rightarrow> begin_call (CConfirm i) (RConfirm i) (w\<lparr> isImporting := True, wizardError := None \<rparr>))"

definition handleReset :: "wizard \<Rightarrow> wizard" where
  "handleReset w = w\<lparr> currentStep := Select, entityType := None, template := None, importFile := None,
     importId := None, columns := [], mappings := [], validationResult := None, importResult := None,
     wizardError := None \<rparr>"

section \<open>Answers\<close>

text \<open>The answer of the call at position \<open>i\<close>: an error message, or what the call returned.\<close>

datatype answer =
    Failed string
  | GotTemplate jsv
  | Uploaded string "string list" "(string \<times> string) list"
  | Mapped
  | Validated jsv
  | Confirmed jsv

definition take_call :: "nat \<Rightarrow> wizard \<Rightarrow> wizard" where
  "take_call i w = w\<lparr> calls := take i (calls w) @ drop (Suc i) (calls w) \<rparr>"

definition upload_done :: "string \<Rightarrow> string list \<Rightarrow> (string \<times> string) list \<Rightarrow> wizard \<Rightarrow> wizard" where
  "upload_done i cols detected w = w\<lparr> importId := Some i, columns := cols,
     mappings := initial_mappings cols detected, currentStep := Mapping, isUploading := False \<rparr>"

definition answer_call :: "nat \<Rightarrow> answer \<Rightarrow> wizard \<Rightarrow> wizard" where
  "answer_call n a w0 =
     (if n \<ge> length (calls w0) then w0
      else (let w = take_call n w0 in
        case (calls w0 ! n, a) of
          (CTemplate ty, GotTemplate t) \<Rightarrow> w\<lparr> template := Some t, isLoadingTemplate := False \<rparr>
        | (CTemplate ty, Failed e) \<Rightarrow> w\<lparr> wizardError := Some e, isLoadingTemplate := False \<rparr>
        | (CUpload, Uploaded i cols detected) \<Rightarrow> upload_done i cols detected w
        | (CUpload, Failed e) \<Rightarrow> w\<lparr> wizardError := Some e, isUploading := False \<rparr>
        | (CMap i, Mapped) \<Rightarrow> begin_call (CValidate i) (RValidate i) (w\<lparr> currentStep := Validation \<rparr>)
        | (CMap i, Failed e) \<Rightarrow> w\<lparr> wizardError := Some e, isMapping := False \<rparr>
        | (CValidate i, Validated r) \<Rightarrow>
            w\<lparr> validationResult := Some r, currentStep := Preview, isMapping := False \<rparr>
        | (CValidate i, Failed e) \<Rightarrow> w\<lparr> wizardError := Some e, isMapping := False \<rparr>
        | (CConfirm i, Confirmed r) \<Rightarrow>
            w\<lparr> importResult := Some r, currentStep := Complete, isImporting := False,
               completed := completed w @ [r] \<rparr>
        | (CConfirm i, Failed e) \<Rightarrow> w\<lparr> wizardError := Some e, isImporting := False \<rparr>
        | _ \<Rightarrow> w0))"

datatype wizard_event =
    WSelect string
  | WFile "string option"
  | WUpload
  | WMapping string string
  | WConfirmMappings
  | WConfirmImport
  | WReset
  | WStep wizard_step
  | WAnswer nat answer

fun wizard_run_step :: "wizard \<Rightarrow> wizard_event \<Rightarrow> wizard" where
  "wizard_run_step w (WSelect ty) = handleEntityTypeSelect ty w"
| "wizard_run_step w (WFile f) = handleFileChange f w"
| "wizard_run_step w WUpload = handleUpload w"
| "wizard_run_step w (WMapping c t) = handleMappingChange c t w"
| "wizard_run_step w WConfirmMappings = handleConfirmMappings w"
| "wizard_run_step w WConfirmImport = handleConfirmImport w"
| "wizard_run_step w WReset = handleReset w"
| "wizard_run_step w (WStep s) = w\<lparr> currentStep := s \<rparr>"
| "wizard_run_step w (WAnswer n a) = answer_call n a w"

lemmas wizard_ops = begin_call_def load_template_def handleEntityTypeSelect_def handleFileChange_def
  handleUpload_def handleMappingChange_def handleConfirmMappings_def handleConfirmImport_def
  handleReset_def take_call_def upload_done_def

section \<open>Only uploaded data is imported\<close>

text \<open>The import ids the server has given out in a run.\<close>

fun given_id :: "wizard_event \<Rightarrow> string list" where
  "given_id (WAnswer n (Uploaded i cols d)) = [i]"
| "given_id e = []"

text \<open>The mappings cover the columns of the uploaded file, one each and in order; the ids in use, in
  flight and in the requests were given out; a mapping request names only mapped columns.\<close>

fun call_id :: "call \<Rightarrow> string list" where
  "call_id (CMap i) = [i]"
| "call_id (CValidate i) = [i]"
| "call_id (CConfirm i) = [i]"
| "call_id c = []"

fun request_ok :: "string set \<Rightarrow> wizard_request \<Rightarrow> bool" where
  "request_ok ids (RMap i ms) = (i \<in> ids \<and> list_all (\<lambda>m. target_field m \<noteq> []) ms)"
| "request_ok ids (RValidate i) = (i \<in> ids)"
| "request_ok ids (RConfirm i) = (i \<in> ids)"
| "request_ok ids r = True"

definition wizard_ok :: "string set \<Rightarrow> wizard \<Rightarrow> bool" where
  "wizard_ok ids w = (map source_column (mappings w) = columns w
     \<and> (\<forall>i. importId w = Some i \<longrightarrow> i \<in> ids)
     \<and> list_all (\<lambda>c. set (call_id c) \<subseteq> ids) (calls w)
     \<and> list_all (request_ok ids) (requests w))"

lemma request_ok_mono: "ids \<subseteq> ids' \<Longrightarrow> request_ok ids r \<Longrightarrow> request_ok ids' r"
  by (cases r) auto

lemma wizard_ok_mono: "ids \<subseteq> ids' \<Longrightarrow> wizard_ok ids w \<Longrightarrow> wizard_ok ids' w"
  by (auto simp: wizard_ok_def list_all_iff intro: request_ok_mono)

lemma ok_begin: "wizard_ok ids w \<Longrightarrow> set (call_id c) \<subseteq> ids \<Longrightarrow> request_ok ids r \<Longrightarrow> wizard_ok ids (begin_call c r w)"
  by (simp add: wizard_ok_def begin_call_def)

lemma ok_take: "wizard_ok ids w \<Longrightarrow> wizard_ok ids (take_call n w)"
  by (auto simp: wizard_ok_def take_call_def list_all_iff dest: in_set_takeD in_set_dropD)

lemma ok_id: "wizard_ok ids w \<Longrightarrow> has_id w = Some i \<Longrightarrow> i \<in> ids"
  by (auto simp: wizard_ok_def has_id_def split: option.splits if_splits)

lemma ok_call: "wizard_ok ids w \<Longrightarrow> n < length (calls w) \<Longrightarrow> set (call_id (calls w ! n)) \<subseteq> ids"
  by (simp add: wizard_ok_def list_all_length)

lemma ok_fields [simp]:
  "wizard_ok ids (w\<lparr> isMapping := b, wizardError := e \<rparr>) = wizard_ok ids w"
  "wizard_ok ids (w\<lparr> isImporting := b, wizardError := e \<rparr>) = wizard_ok ids w"
  "wizard_ok ids (w\<lparr> currentStep := s \<rparr>) = wizard_ok ids w"
  by (simp_all add: wizard_ok_def)

lemma ok_answer:
  assumes "wizard_ok ids w"
  shows "wizard_ok (ids \<union> set (given_id (WAnswer n a))) (answer_call n a w)"
proof (cases "n < length (calls w)")
  case True
  have t: "wizard_ok ids (take_call n w)" using assms by (rule ok_take)
  have c: "set (call_id (calls w ! n)) \<subseteq> ids" using assms True by (rule ok_call)
  show ?thesis
  proof (cases "calls w ! n"; cases a)
    fix i assume k: "calls w ! n = CMap i" "a = Mapped"
    then show ?thesis
      using t c True by (simp add: answer_call_def Let_def ok_begin)
  next
    fix i cols d assume k: "calls w ! n = CUpload" "a = Uploaded i cols d"
    have "wizard_ok (insert i ids) (take_call n w)" using wizard_ok_mono [OF _ t] by blast
    then show ?thesis
      using True by (simp add: answer_call_def Let_def k upload_done_def wizard_ok_def initial_mappings_def comp_def)
  qed (use t True assms wizard_ok_mono [of ids _ w] in \<open>auto simp: answer_call_def Let_def wizard_ok_def\<close>)
qed (use assms wizard_ok_mono [of ids _ w] in \<open>auto simp: answer_call_def\<close>)

lemma retarget_source [simp]: "source_column (if b then m\<lparr> target_field := t \<rparr> else m) = source_column m"
  by simp

lemma ok_step:
  assumes "wizard_ok ids w"
  shows "wizard_ok (ids \<union> set (given_id e)) (wizard_run_step w e)"
proof (cases e)
  case (WAnswer n a)
  then show ?thesis using ok_answer [OF assms, of n a] by simp
next
  case WConfirmMappings
  then show ?thesis
    using assms ok_id [OF assms]
    by (auto simp: handleConfirmMappings_def list_all_iff intro!: ok_begin split: option.split)
next
  case WConfirmImport
  then show ?thesis
    using assms ok_id [OF assms] by (auto simp: handleConfirmImport_def intro!: ok_begin split: option.split)
qed (use assms in \<open>auto simp: wizard_ok_def wizard_ops comp_def Let_def split: option.split\<close>)

lemma ok_run: "wizard_ok ids w \<Longrightarrow> wizard_ok (ids \<union> set (concat (map given_id es))) (run wizard_run_step es w)"
proof (induction es arbitrary: ids w)
  case (Cons e es)
  from Cons.IH [OF ok_step [OF Cons.prems, of e]] show ?case by (simp add: Un_assoc)
qed simp

lemma ok_init: "wizard_ok {} (wizard_init ty)"
  by (simp add: wizard_ok_def wizard_init_def load_template_def begin_call_def split: option.split)

text \<open>The wizard imports only what was uploaded: in every run, with answers in any order and
  steps changed at will, every mapping, validation and confirmation request names an import id the
  server gave out for an upload of this run, a mapping request names only columns with a target,
  and the mapping table lists exactly the columns of the last upload, in their order.\<close>

theorem only_uploads_are_imported:
  fixes es :: "wizard_event list" and ty :: "string option"
  defines "w \<equiv> run wizard_run_step es (wizard_init ty)"
  shows "list_all (request_ok (set (concat (map given_id es)))) (requests w)
    \<and> map source_column (mappings w) = columns w"
  using ok_run [OF ok_init, of es ty] by (simp add: w_def wizard_ok_def)

text \<open>A reset does not cancel an upload: its answer puts the reset wizard on the mapping step, with an
  import id and no file.\<close>

lemma upload_survives_reset:
  "calls w = [CUpload] \<Longrightarrow> importFile (run wizard_run_step [WReset, WAnswer 0 (Uploaded i cols d)] w) = None
     \<and> currentStep (run wizard_run_step [WReset, WAnswer 0 (Uploaded i cols d)] w) = Mapping
     \<and> importId (run wizard_run_step [WReset, WAnswer 0 (Uploaded i cols d)] w) = Some i"
  by (simp add: handleReset_def answer_call_def Let_def upload_done_def take_call_def)

text \<open>A template that arrives late replaces the one of the type selected after it.\<close>

lemma late_template_wins:
  "calls w = [] \<Longrightarrow> entityType w = None \<Longrightarrow> a \<noteq> [] \<Longrightarrow> b \<noteq> [] \<Longrightarrow> a \<noteq> b \<Longrightarrow>
   (let w' = run wizard_run_step [WSelect a, WSelect b, WAnswer 1 (GotTemplate tb), WAnswer 0 (GotTemplate ta)] w in
    entityType w' = Some b \<and> template w' = Some ta)"
  by (simp add: handleEntityTypeSelect_def load_template_def begin_call_def answer_call_def take_call_def Let_def)

end
