(* ===== verification/BulkEdit.thy ===== *)
theory BulkEdit
  imports Machines
begin

text \<open>
  Row selection for bulk editing: \<open>frontend/src/hooks/use-bulk-edit.ts\<close>.  The selection is the
  table library's object from row ids to booleans; the records are those the caller passes at each
  render, given by their ids.
\<close>

record bulk_edit =
  selection :: "(string \<times> bool) list"
  isDialogOpen :: bool
  records :: "string list"
  reported :: "jsv list"

definition selected :: "bulk_edit \<Rightarrow> string \<Rightarrow> bool" where
  "selected b i = (map_of (selection b) i = Some True)"

definition selectedIds :: "bulk_edit \<Rightarrow> string list" where
  "selectedIds b = filter (selected b) (records b)"

definition selectedCount :: "bulk_edit \<Rightarrow> nat" where
  "selectedCount b = length (selectedIds b)"

definition isAllSelected :: "bulk_edit \<Rightarrow> bool" where
  "isAllSelected b = (length (records b) > 0 \<and> selectedCount b = length (records b))"

definition clearSelection :: "bulk_edit \<Rightarrow> bulk_edit" where
  "clearSelection b = b\<lparr> selection := [] \<rparr>"

definition selectAll :: "bulk_edit \<Rightarrow> bulk_edit" where
  "selectAll b = b\<lparr> selection := fold (\<lambda>i acc. AList.update i True acc) (records b) [] \<rparr>"

definition toggleRow :: "string \<Rightarrow> bulk_edit \<Rightarrow> bulk_edit" where
  "toggleRow i b = b\<lparr> selection :=
     (if selected b i then AList.delete i (selection b) else AList.update i True (selection b)) \<rparr>"

definition openDialog :: "bulk_edit \<Rightarrow> bulk_edit" where
  "openDialog b = (if selectedCount b > 0 then b\<lparr> isDialogOpen := True \<rparr> else b)"

definition closeDialog :: "bulk_edit \<Rightarrow> bulk_edit" where
  "closeDialog b = b\<lparr> isDialogOpen := False \<rparr>"

definition handleComplete :: "jsv \<Rightarrow> bulk_edit \<Rightarrow> bulk_edit" where
  "handleComplete result b =
     (closeDialog (clearSelection b))\<lparr> reported := reported b @ [result] \<rparr>"

definition with_records :: "string list \<Rightarrow> bulk_edit \<Rightarrow> bulk_edit" where
  "with_records rs b = b\<lparr> records := rs \<rparr>"

lemma toggle_selected: "selected (toggleRow i b) j = (if j = i then \<not> selected b i else selected b j)"
  by (simp add: toggleRow_def selected_def update_conv' delete_conv')

lemma select_all_lookup: "selected (selectAll b) i = (i \<in> set (records b))"
proof -
  have "map_of (fold (\<lambda>i acc. AList.update i True acc) xs acc) i
      = (if i \<in> set xs then Some True else map_of acc i)" for xs acc
    by (induction xs arbitrary: acc) (auto simp: update_conv')
  then show ?thesis by (simp add: selectAll_def selected_def)
qed

text \<open>A bulk edit reaches only the rows shown: whatever was selected before, after the records change
  the edited ids are the selected ones among the records, in their order; selecting all selects
  exactly the records; toggling twice changes nothing; completing empties the selection.\<close>

theorem bulk_edit_selection:
  shows "selectedIds (with_records rs b) = filter (selected b) rs
    \<and> selectedIds (selectAll b) = records b
    \<and> isAllSelected (selectAll b) = (records b \<noteq> [])
    \<and> selectedIds (toggleRow i (toggleRow i b)) = selectedIds b
    \<and> selectedIds (handleComplete r b) = []"
proof -
  have r: "records (selectAll b) = records b" "records (toggleRow i c) = records c" for c
    by (simp_all add: selectAll_def toggleRow_def)
  have "selectedIds (selectAll b) = records b"
    by (simp add: selectedIds_def select_all_lookup r)
  moreover have "selectedIds (toggleRow i (toggleRow i b)) = selectedIds b"
    unfolding selectedIds_def r by (rule filter_cong) (simp_all add: toggle_selected)
  moreover have "selected (b\<lparr> records := rs \<rparr>) = selected b" by (simp add: fun_eq_iff selected_def)
  ultimately show ?thesis
    by (simp add: isAllSelected_def selectedCount_def r selectedIds_def with_records_def selected_def
        handleComplete_def closeDialog_def clearSelection_def)
qed

end
