(* ===== verification/DependencyGraph.thy ===== *)
theory DependencyGraph
  imports JsPrelude
begin

text \<open>
  The task dependency graph (\<open>frontend/src/components/tasks/task-dependency-graph.tsx\<close>):
  the level assignment of \<open>layoutGraph\<close> with its work queue, the placement of the nodes,
  the edges with their paths, the view box, and the marks of a node.

  A column is a path length and a coordinate a multiple of 2, so both are integers.  The
  queue loop is a \<open>partial_function\<close>: \<open>None\<close> says that it never empties its queue.  The
  theorems say for which graphs it does (exactly when no cycle can be reached from a task
  without dependencies), that the columns are then the longest paths, and that on an
  acyclic board every task is placed and every edge points to the right.
\<close>

section \<open>Tasks and the two tables\<close>

record graph_task =
  g_id :: string
  g_title :: string
  g_status :: string
  depends_on :: "string list"
  blocked_by :: "string list"

definition NODE_W :: int where "NODE_W = 180"
definition NODE_H :: int where "NODE_H = 56"
definition H_GAP :: int where "H_GAP = 60"
definition V_GAP :: int where "V_GAP = 24"

text \<open>\<open>new Map(tasks.map((t) => [t.id, t]))\<close>: a later task with the same id replaces the
  earlier one.\<close>

definition taskMap :: "graph_task list \<Rightarrow> (string \<times> graph_task) list" where
  "taskMap tasks = spread [] (map (\<lambda>t. (g_id t, t)) tasks)"

type_synonym degree_tables = "(string \<times> int) list \<times> (string \<times> string list) list"

text \<open>The inner loop over \<open>t.depends_on\<close>: unknown ids are skipped.\<close>

definition count_dep ::
  "(string \<times> graph_task) list \<Rightarrow> string \<Rightarrow> string \<Rightarrow> degree_tables \<Rightarrow> degree_tables" where
  "count_dep tm tid depId = (\<lambda>(inDegree, children).
     if map_of tm depId = None then (inDegree, children)
     else (AList.update tid (get_or 0 inDegree tid + 1) inDegree,
           AList.update depId (get_or [] children depId @ [tid]) children))"

definition count_task ::
  "(string \<times> graph_task) list \<Rightarrow> graph_task \<Rightarrow> degree_tables \<Rightarrow> degree_tables" where
  "count_task tm t = (\<lambda>(inDegree, children).
     fold (count_dep tm (g_id t)) (depends_on t)
       (if map_of inDegree (g_id t) = None then AList.update (g_id t) 0 inDegree else inDegree, children))"

definition degrees :: "graph_task list \<Rightarrow> degree_tables" where
  "degrees tasks = fold (count_task (taskMap tasks)) tasks ([], [])"

section \<open>Columns\<close>

type_synonym cols = "(string \<times> int) list"

text \<open>The tasks without dependencies start the queue, in column 0.\<close>

definition seed_task :: "(string \<times> int) list \<Rightarrow> graph_task \<Rightarrow> cols \<times> string list \<Rightarrow> cols \<times> string list" where
  "seed_task inDegree t = (\<lambda>(col, queue).
     if get_or 0 inDegree (g_id t) = 0 then (AList.update (g_id t) 0 col, queue @ [g_id t])
     else (col, queue))"

definition seeds :: "graph_task list \<Rightarrow> cols \<times> string list" where
  "seeds tasks = fold (seed_task (fst (degrees tasks))) tasks ([], [])"

text \<open>One child of the task taken from the queue.  The column of the task is read anew for
  every child.\<close>

definition relax :: "string \<Rightarrow> string \<Rightarrow> cols \<times> string list \<Rightarrow> cols \<times> string list" where
  "relax tid childId = (\<lambda>(col, queue).
     let newCol = get_or 0 col tid + 1 in
     if get_or (- 1) col childId < newCol
     then (AList.update childId newCol col, queue @ [childId])
     else (col, queue))"

partial_function (option) assign_cols ::
  "(string \<times> string list) list \<Rightarrow> string list \<Rightarrow> cols \<Rightarrow> cols option" where
  "assign_cols children queue col =
     (case queue of
        [] \<Rightarrow> Some col
      | tid # rest \<Rightarrow>
          (let (col', queue') = fold (relax tid) (get_or [] children tid) (col, rest) in
           assign_cols children queue' col'))"

definition columns :: "graph_task list \<Rightarrow> cols option" where
  "columns tasks = assign_cols (snd (degrees tasks)) (snd (seeds tasks)) (fst (seeds tasks))"

section \<open>Placement\<close>

text \<open>\<open>colGroups\<close>: the ids of each column, in the order of the column table.\<close>

definition colGroups :: "cols \<Rightarrow> (int \<times> string list) list" where
  "colGroups col = fold (\<lambda>(i, c) groups. AList.update c (get_or [] groups c @ [i]) groups) col []"

record graph_node =
  n_task :: graph_task
  n_x :: int
  n_y :: int
  n_col :: int
  n_row :: nat

definition group_nodes :: "(string \<times> graph_task) list \<Rightarrow> int \<times> string list \<Rightarrow> graph_node list" where
  "group_nodes tm = (\<lambda>(c, ids).
     map (\<lambda>(row, i). \<lparr> n_task = the (map_of tm i), n_x = c * (NODE_W + H_GAP),
                        n_y = int row * (NODE_H + V_GAP), n_col = c, n_row = row \<rparr>)
       (enumerate 0 ids))"

text \<open>The height of a column of \<open>k\<close> rows, and the shift that centres a column against the
  tallest.  Without nodes the maximum is not used.\<close>

definition col_height :: "nat \<Rightarrow> int" where
  "col_height k = int k * (NODE_H + V_GAP) - V_GAP"

definition maxRows :: "(int \<times> string list) list \<Rightarrow> nat" where
  "maxRows groups = fold max (map (length \<circ> snd) groups) 0"

definition centre :: "(int \<times> string list) list \<Rightarrow> graph_node \<Rightarrow> graph_node" where
  "centre groups n =
     n\<lparr> n_y := n_y n + (col_height (maxRows groups)
          - col_height (case map_of groups (n_col n) of None \<Rightarrow> 1 | Some ids \<Rightarrow> length ids)) div 2 \<rparr>"

definition place :: "graph_task list \<Rightarrow> cols \<Rightarrow> graph_node list" where
  "place tasks col =
     (let groups = colGroups col in
      map (centre groups) (concat (map (group_nodes (taskMap tasks)) groups)))"

definition layoutGraph :: "graph_task list \<Rightarrow> graph_node list option" where
  "layoutGraph tasks = (if tasks = [] then Some [] else map_option (place tasks) (columns tasks))"

section \<open>Edges, view box and marks\<close>

definition nodeMap :: "graph_node list \<Rightarrow> (string \<times> graph_node) list" where
  "nodeMap nodes = spread [] (map (\<lambda>n. (g_id (n_task n), n)) nodes)"

record graph_edge =
  src :: graph_node
  tgt :: graph_node
  isCritical :: bool

definition edges_of :: "string option \<Rightarrow> graph_node list \<Rightarrow> graph_edge list" where
  "edges_of focusTaskId nodes =
     concat (map (\<lambda>node. concat (map (\<lambda>depId.
       (case map_of (nodeMap nodes) depId of
          None \<Rightarrow> []
        | Some srcNode \<Rightarrow>
            [\<lparr> src = srcNode, tgt = node,
               isCritical = (case focusTaskId of None \<Rightarrow> False
                             | Some f \<Rightarrow> g_id (n_task node) = f \<or> g_id (n_task srcNode) = f) \<rparr>]))
       (depends_on (n_task node)))) nodes)"

text \<open>The four corner points of \<open>edgePath\<close>: from the right side of the source to the left
  side of the target, with both control points halfway.\<close>

definition edgePath :: "graph_node \<Rightarrow> graph_node \<Rightarrow> (int \<times> int) list" where
  "edgePath s t =
     (let x1 = n_x s + NODE_W; y1 = n_y s + NODE_H div 2;
          x2 = n_x t; y2 = n_y t + NODE_H div 2;
          cx = (x1 + x2) div 2
      in [(x1, y1), (cx, y1), (cx, y2), (x2, y2)])"

definition viewport :: "graph_node list \<Rightarrow> int \<times> int" where
  "viewport nodes =
     (if nodes = [] then (400, 200)
      else (Max (set (map (\<lambda>n. n_x n + NODE_W) nodes)) + H_GAP,
            Max (set (map (\<lambda>n. n_y n + NODE_H) nodes)) + V_GAP))"

definition isFocused :: "string option \<Rightarrow> graph_node \<Rightarrow> bool" where
  "isFocused focusTaskId node = (focusTaskId = Some (g_id (n_task node)))"

definition isRelated :: "string option \<Rightarrow> graph_node \<Rightarrow> bool" where
  "isRelated focusTaskId node =
     (case focusTaskId of None \<Rightarrow> False
      | Some f \<Rightarrow> \<not> isFocused focusTaskId node \<and>
                  (f \<in> set (depends_on (n_task node)) \<or> f \<in> set (blocked_by (n_task node))))"

definition isBlocked :: "graph_task list \<Rightarrow> graph_node \<Rightarrow> bool" where
  "isBlocked tasks node =
     (depends_on (n_task node) \<noteq> [] \<and>
      list_ex (\<lambda>depId.
        (case find_first (\<lambda>t. g_id t = depId) tasks of
           None \<Rightarrow> False
         | Some d \<Rightarrow> g_status d \<noteq> ''done'' \<and> g_status d \<noteq> ''cancelled''))
        (depends_on (n_task node)))"

definition shows_warning :: "graph_task list \<Rightarrow> graph_node \<Rightarrow> bool" where
  "shows_warning tasks node = (isBlocked tasks node \<and> g_status (n_task node) \<noteq> ''done'')"

section \<open>The tables\<close>


lemma get_or_Nil [simp]: "get_or d [] x = d"
  by (simp add: get_or_def)

lemma taskMap_unknown: "map_of (taskMap tasks) i = None \<longleftrightarrow> i \<notin> g_id ` set tasks"
  by (simp add: map_of_eq_None_iff taskMap_def spread_keys image_image)

text \<open>The dependency relation among the tasks of the board: \<open>(d, c)\<close> when \<open>c\<close> depends on \<open>d\<close>.\<close>

definition dep_edges :: "graph_task list \<Rightarrow> (string \<times> string) set" where
  "dep_edges tasks =
     {(d, c). d \<in> g_id ` set tasks \<and> (\<exists>t \<in> set tasks. g_id t = c \<and> d \<in> set (depends_on t))}"

lemma dep_edges_nodes: "(d, c) \<in> dep_edges tasks \<Longrightarrow> d \<in> g_id ` set tasks \<and> c \<in> g_id ` set tasks"
  by (auto simp: dep_edges_def)

lemma finite_dep_edges: "finite (dep_edges tasks)"
  by (rule finite_subset [of _ "(g_id ` set tasks) \<times> (g_id ` set tasks)"])
     (auto dest: dep_edges_nodes)

lemma count_deps_indegree:
  "get_or 0 (fst (fold (count_dep tm c) ds (i, k))) x
     = get_or 0 i x + (if x = c then int (length (filter (\<lambda>d. map_of tm d \<noteq> None) ds)) else 0)"
  by (induction ds arbitrary: i k) (auto simp: count_dep_def)

lemma count_deps_children:
  "set (get_or [] (snd (fold (count_dep tm c) ds (i, k))) x)
     = set (get_or [] k x) \<union> (if x \<in> set ds \<and> map_of tm x \<noteq> None then {c} else {})"
  by (induction ds arbitrary: i k) (auto simp: count_dep_def split: if_splits)

lemma count_task_indegree:
  "get_or 0 (fst (count_task tm t ik)) x
     = get_or 0 (fst ik) x
       + (if x = g_id t then int (length (filter (\<lambda>d. map_of tm d \<noteq> None) (depends_on t))) else 0)"
proof (cases ik)
  case (Pair i k)
  have "get_or 0 (if map_of i c = None then AList.update c 0 i else i) x = get_or 0 i x" for c
    by (simp add: get_or_def update_conv')
  with Pair show ?thesis by (simp add: count_task_def count_deps_indegree del: not_None_eq)
qed

lemma count_task_children:
  "set (get_or [] (snd (count_task tm t ik)) x)
     = set (get_or [] (snd ik) x) \<union> (if x \<in> set (depends_on t) \<and> map_of tm x \<noteq> None then {g_id t} else {})"
  by (cases ik) (simp add: count_task_def count_deps_children)

lemma count_tasks_indegree:
  "get_or 0 (fst (fold (count_task tm) ts ik)) x
     = get_or 0 (fst ik) x
       + (\<Sum>t\<leftarrow>ts. if x = g_id t then int (length (filter (\<lambda>d. map_of tm d \<noteq> None) (depends_on t))) else 0)"
  by (induction ts arbitrary: ik) (simp_all add: count_task_indegree)

lemma count_tasks_children:
  "set (get_or [] (snd (fold (count_task tm) ts ik)) x)
     = set (get_or [] (snd ik) x)
       \<union> {g_id t | t. t \<in> set ts \<and> x \<in> set (depends_on t) \<and> map_of tm x \<noteq> None}"
  by (induction ts arbitrary: ik) (auto simp: count_task_children split: if_splits)

lemma degrees_children:
  "set (get_or [] (snd (degrees tasks)) x) = {c. (x, c) \<in> dep_edges tasks}"
  by (auto simp: degrees_def count_tasks_children dep_edges_def taskMap_unknown simp del: not_None_eq)

lemma sum_list_zero_iff:
  fixes f :: "'a \<Rightarrow> int"
  assumes "\<And>x. 0 \<le> f x"
  shows "(\<Sum>x\<leftarrow>xs. f x) = 0 \<longleftrightarrow> (\<forall>x \<in> set xs. f x = 0)"
  using assms by (subst sum_list_nonneg_eq_0_iff) auto

lemma degrees_indegree:
  "get_or 0 (fst (degrees tasks)) x = 0 \<longleftrightarrow> (\<forall>d. (d, x) \<notin> dep_edges tasks)"
  by (auto simp: degrees_def count_tasks_indegree sum_list_zero_iff filter_empty_conv
      taskMap_unknown dep_edges_def simp del: not_None_eq split: if_splits)

text \<open>The roots of the graph are exactly what the queue starts with.\<close>

definition graph_roots :: "graph_task list \<Rightarrow> string set" where
  "graph_roots tasks = {x \<in> g_id ` set tasks. \<forall>d. (d, x) \<notin> dep_edges tasks}"

lemma seed_fold:
  "map_of (fst (fold (seed_task i) ts cq)) x
     = (if x \<in> g_id ` {t \<in> set ts. get_or 0 i (g_id t) = 0} then Some 0 else map_of (fst cq) x) \<and>
   set (snd (fold (seed_task i) ts cq)) = set (snd cq) \<union> g_id ` {t \<in> set ts. get_or 0 i (g_id t) = 0}"
  by (induction ts arbitrary: cq) (auto simp: seed_task_def update_conv' split: prod.splits)

lemma seeds_roots:
  "map_of (fst (seeds tasks)) x = (if x \<in> graph_roots tasks then Some 0 else None)"
  "set (snd (seeds tasks)) = graph_roots tasks"
proof -
  have "g_id ` {t \<in> set tasks. get_or 0 (fst (degrees tasks)) (g_id t) = 0} = graph_roots tasks"
    by (auto simp: graph_roots_def degrees_indegree)
  then show "map_of (fst (seeds tasks)) x = (if x \<in> graph_roots tasks then Some 0 else None)"
    "set (snd (seeds tasks)) = graph_roots tasks"
    using seed_fold [of "fst (degrees tasks)" tasks "([], [])" x]
    by (simp_all add: seeds_def)
qed

section \<open>The queue loop\<close>

text \<open>One relaxation: it either changes nothing or raises the column of the child, by one
  above the column of the task, and queues the child.\<close>

lemma relax_cases:
  obtains (same) "relax x c (col, q) = (col, q)" "get_or 0 col x + 1 \<le> get_or (- 1) col c"
  | (up) "relax x c (col, q) = (AList.update c (get_or 0 col x + 1) col, q @ [c])"
      "get_or (- 1) col c < get_or 0 col x + 1"
  by (cases "get_or (- 1) col c < get_or 0 col x + 1") (auto simp: relax_def Let_def)

lemma get_or_mono_relax: "get_or (- 1) col y \<le> get_or (- 1) (fst (relax x c (col, q))) y"
  by (rule relax_cases [of x c col q]) auto

lemma get_or_mono_fold:
  "get_or (- 1) (fst cq) y \<le> get_or (- 1) (fst (fold (relax x) cs cq)) y"
proof (induction cs arbitrary: cq)
  case (Cons c cs)
  show ?case
    using get_or_mono_relax [of "fst cq" y x c "snd cq"] Cons.IH [of "relax x c cq"] by simp
qed simp

text \<open>What is not queued afterwards has not changed, and the queue only grows.\<close>

lemma relax_fold_frame:
  "set (snd cq) \<subseteq> set (snd (fold (relax x) cs cq)) \<and>
   (y \<notin> set (snd (fold (relax x) cs cq)) \<longrightarrow> map_of (fst (fold (relax x) cs cq)) y = map_of (fst cq) y)"
proof (induction cs arbitrary: cq)
  case (Cons c cs)
  obtain col q where cq: "cq = (col, q)" by (cases cq)
  show ?case
    by (rule relax_cases [of x c col q]; use Cons.IH [of "relax x c cq"] cq in \<open>auto simp: update_conv'\<close>)
qed simp

text \<open>Queued tasks have a column.\<close>

definition queued_known :: "cols \<times> string list \<Rightarrow> bool" where
  "queued_known cq = (\<forall>y \<in> set (snd cq). map_of (fst cq) y \<noteq> None)"

lemma relax_known: "queued_known cq \<Longrightarrow> queued_known (fold (relax x) cs cq)"
proof (induction cs arbitrary: cq)
  case (Cons c cs)
  obtain col q where cq: "cq = (col, q)" by (cases cq)
  have "queued_known (relax x c cq)"
    using Cons.prems by (rule_tac relax_cases [of x c col q]) (auto simp: cq queued_known_def update_conv')
  then show ?case using Cons.IH by simp
qed simp

lemma relax_keeps_known:
  "map_of (fst cq) y \<noteq> None \<Longrightarrow> map_of (fst (fold (relax x) cs cq)) y \<noteq> None"
proof (induction cs arbitrary: cq)
  case (Cons c cs)
  obtain col q where cq: "cq = (col, q)" by (cases cq)
  have "map_of (fst (relax x c cq)) y \<noteq> None"
    using Cons.prems by (rule_tac relax_cases [of x c col q]) (auto simp: cq update_conv')
  then show ?case using Cons.IH by simp
qed simp

text \<open>Afterwards every child lies right of the column the task had.\<close>

lemma relax_fold_children:
  assumes "map_of (fst cq) x = Some n" "0 \<le> n" "c \<in> set cs"
  shows "n < get_or (- 1) (fst (fold (relax x) cs cq)) c"
  using assms
proof (induction cs arbitrary: cq n)
  case (Cons b cs)
  obtain col q where cq: "cq = (col, q)" by (cases cq)
  have "\<exists>m. map_of (fst (relax x b cq)) x = Some m \<and> n \<le> m"
    using Cons.prems(1) by (rule_tac relax_cases [of x b col q]) (simp_all add: cq update_conv' get_or_def)
  then obtain m where m: "map_of (fst (relax x b cq)) x = Some m" "n \<le> m" by blast
  show ?case
  proof (cases "c \<in> set cs")
    case True
    with Cons.IH [OF m(1)] m(2) Cons.prems(2) show ?thesis by fastforce
  next
    case False
    with Cons.prems have [simp]: "b = c" by simp
    have "get_or 0 col x = n" using Cons.prems(1) by (simp add: cq get_or_def)
    then have "n < get_or (- 1) (fst (relax x c cq)) c"
      by (rule_tac relax_cases [of x c col q]) (simp_all add: cq)
    with get_or_mono_fold [of "relax x c cq" c x cs] show ?thesis by simp
  qed
qed simp

text \<open>What holds whenever the loop head is reached: the table has one entry per task, columns
  are not negative, queued tasks have one, and a task that is not queued has all its children to its right.\<close>

definition loop_inv :: "(string \<Rightarrow> string list) \<Rightarrow> string list \<Rightarrow> cols \<Rightarrow> bool" where
  "loop_inv kids q col =
     (distinct (map fst col) \<and> queued_known (col, q) \<and> (\<forall>y n. map_of col y = Some n \<longrightarrow> 0 \<le> n) \<and>
      (\<forall>y n c. map_of col y = Some n \<longrightarrow> y \<notin> set q \<longrightarrow> c \<in> set (kids y) \<longrightarrow> n < get_or (- 1) col c))"

lemma relax_nonneg:
  "(\<forall>y n. map_of (fst cq) y = Some n \<longrightarrow> 0 \<le> n) \<Longrightarrow>
   \<forall>y n. map_of (fst (fold (relax x) cs cq)) y = Some n \<longrightarrow> 0 \<le> n"
proof (induction cs arbitrary: cq)
  case (Cons c cs)
  obtain col q where cq: "cq = (col, q)" by (cases cq)
  have "0 \<le> get_or 0 col x" using Cons.prems by (auto simp: cq get_or_def split: option.split)
  then have "\<forall>y n. map_of (fst (relax x c cq)) y = Some n \<longrightarrow> 0 \<le> n"
    using Cons.prems by (rule_tac relax_cases [of x c col q]) (auto simp: cq update_conv')
  then show ?case using Cons.IH by simp
qed simp

lemma relax_distinct: "distinct (map fst (fst cq)) \<Longrightarrow> distinct (map fst (fst (fold (relax x) cs cq)))"
proof (induction cs arbitrary: cq)
  case (Cons c cs)
  obtain col q where cq: "cq = (col, q)" by (cases cq)
  have "distinct (map fst (fst (relax x c cq)))"
    using Cons.prems by (rule_tac relax_cases [of x c col q]) (simp_all add: cq distinct_update)
  then show ?case using Cons.IH by simp
qed simp

lemma loop_inv_step:
  assumes inv: "loop_inv kids (x # q) col" and step: "fold (relax x) (kids x) (col, q) = (col', q')"
  shows "loop_inv kids q' col'"
proof -
  have col': "col' = fst (fold (relax x) (kids x) (col, q))" and q': "q' = snd (fold (relax x) (kids x) (col, q))"
    using step by simp_all
  have known: "queued_known (col', q')"
    using relax_known [of "(col, q)" x "kids x"] inv step
    by (simp add: loop_inv_def queued_known_def del: not_None_eq)
  have nonneg: "\<forall>y n. map_of col' y = Some n \<longrightarrow> 0 \<le> n"
    using relax_nonneg [of "(col, q)" x "kids x"] inv step by (simp add: loop_inv_def)
  have "n < get_or (- 1) col' c"
    if y: "map_of col' y = Some n" "y \<notin> set q'" "c \<in> set (kids y)" for y n c
  proof -
    have old: "map_of col y = Some n" "y \<notin> set q"
      using relax_fold_frame [of "(col, q)" x "kids x" y] y(1,2) unfolding col' q' by auto
    show ?thesis
    proof (cases "y = x")
      case True
      with old y(3) inv show ?thesis
        using relax_fold_children [of "(col, q)" x n c "kids x"] by (auto simp: col' loop_inv_def)
    next
      case False
      with old y(3) inv have "n < get_or (- 1) col c" by (auto simp: loop_inv_def)
      then show ?thesis using get_or_mono_fold [of "(col, q)" c x "kids x"] by (simp add: col')
    qed
  qed
  moreover have "distinct (map fst col')"
    using relax_distinct [of "(col, q)" x "kids x"] inv step by (simp add: loop_inv_def)
  ultimately show ?thesis using known nonneg by (simp add: loop_inv_def)
qed

lemma assign_cols_result:
  assumes "assign_cols ch q col = Some res" "loop_inv (get_or [] ch) q col"
  shows "loop_inv (get_or [] ch) [] res \<and> (\<forall>y. map_of col y \<noteq> None \<longrightarrow> map_of res y \<noteq> None)"
proof (rule assign_cols.raw_induct [where P = "\<lambda>ch q col res. loop_inv (get_or [] ch) q col \<longrightarrow>
    loop_inv (get_or [] ch) [] res \<and> (\<forall>y. map_of col y \<noteq> None \<longrightarrow> map_of res y \<noteq> None)",
    OF _ assms(1), rule_format, OF _ assms(2)])
  fix f ch q col res
  assume IH: "\<And>ch q col res. f ch q col = Some res \<Longrightarrow> loop_inv (get_or [] ch) q col \<Longrightarrow>
      loop_inv (get_or [] ch) [] res \<and> (\<forall>y. map_of col y \<noteq> None \<longrightarrow> map_of res y \<noteq> None)"
    and ret: "(case q of [] \<Rightarrow> Some col | x # rest \<Rightarrow>
       (let (col', queue') = fold (relax x) (get_or [] ch x) (col, rest) in f ch queue' col')) = Some res"
    and inv: "loop_inv (get_or [] ch) q col"
  show "loop_inv (get_or [] ch) [] res \<and> (\<forall>y. map_of col y \<noteq> None \<longrightarrow> map_of res y \<noteq> None)"
  proof (cases q)
    case Nil
    with ret inv show ?thesis by simp
  next
    case (Cons x rest)
    obtain col' q' where step: "fold (relax x) (get_or [] ch x) (col, rest) = (col', q')" by fastforce
    have "f ch q' col' = Some res" using ret Cons step by simp
    moreover have "loop_inv (get_or [] ch) q' col'" using loop_inv_step inv Cons step by blast
    moreover have "map_of col y \<noteq> None \<Longrightarrow> map_of col' y \<noteq> None" for y
      using relax_keeps_known [of "(col, rest)" y x "get_or [] ch x"] step by simp
    ultimately show ?thesis using IH by blast
  qed
qed

subsection \<open>The loop stops below a rank\<close>

text \<open>A rank bounds every column; the distance to it is what a relaxation uses up.\<close>

definition below :: "string set \<Rightarrow> (string \<Rightarrow> int) \<Rightarrow> cols \<Rightarrow> bool" where
  "below V r col = (\<forall>y n. map_of col y = Some n \<longrightarrow> y \<in> V \<and> n \<le> r y)"

definition slack :: "string set \<Rightarrow> (string \<Rightarrow> int) \<Rightarrow> cols \<Rightarrow> nat" where
  "slack V r col = (\<Sum>y \<in> V. nat (r y - get_or (- 1) col y))"

lemma slack_update:
  assumes "finite V" "c \<in> V" "get_or (- 1) col c < m" "m \<le> r c"
  shows "slack V r (AList.update c m col) < slack V r col"
  unfolding slack_def using assms by (intro sum_strict_mono_ex1) auto

lemma relax_below:
  assumes "finite V" "c \<in> V" "r x < r c" "0 \<le> r x" "below V r (fst cq)"
  shows "below V r (fst (relax x c cq)) \<and>
    (relax x c cq = cq \<or> slack V r (fst (relax x c cq)) < slack V r (fst cq))"
proof -
  obtain col q where cq: "cq = (col, q)" by (cases cq)
  have x: "get_or 0 col x + 1 \<le> r c"
    using assms(3-5) by (fastforce simp: cq below_def get_or_def split: option.split)
  show ?thesis
  proof (rule relax_cases [of x c col q])
    assume up: "relax x c (col, q) = (AList.update c (get_or 0 col x + 1) col, q @ [c])"
      "get_or (- 1) col c < get_or 0 col x + 1"
    with slack_update [of V c col "get_or 0 col x + 1" r] assms x show ?thesis
      by (auto simp: cq below_def update_conv')
  qed (use assms cq in auto)
qed

lemma relax_fold_below:
  assumes "finite V" "set cs \<subseteq> V" "\<forall>c \<in> set cs. r x < r c" "0 \<le> r x" "below V r (fst cq)"
  shows "below V r (fst (fold (relax x) cs cq)) \<and>
    (fold (relax x) cs cq = cq \<or> slack V r (fst (fold (relax x) cs cq)) < slack V r (fst cq))"
  using assms(2,3,5)
proof (induction cs arbitrary: cq)
  case (Cons c cs)
  have one: "below V r (fst (relax x c cq)) \<and>
      (relax x c cq = cq \<or> slack V r (fst (relax x c cq)) < slack V r (fst cq))"
    using Cons.prems assms(1,4) by (intro relax_below) auto
  with Cons.IH [of "relax x c cq"] Cons.prems show ?case by auto
qed simp

lemma assign_cols_returns:
  assumes V: "finite V" and r: "\<forall>x \<in> V. 0 \<le> r x \<and> (\<forall>c \<in> set (get_or [] ch x). c \<in> V \<and> r x < r c)"
    and start: "set q \<subseteq> V" "below V r col" "queued_known (col, q)"
  shows "\<exists>res. assign_cols ch q col = Some res \<and> below V r res"
  using start
proof (induction "(slack V r col, length q)" arbitrary: q col rule: wf_induct_rule [OF wf_lex_prod [OF wf_less wf_less]])
  case (1 q col)
  show ?case
  proof (cases q)
    case Nil
    with "1.prems" show ?thesis by (simp add: assign_cols.simps)
  next
    case (Cons x rest)
    obtain col' q' where step: "fold (relax x) (get_or [] ch x) (col, rest) = (col', q')" by fastforce
    have x: "x \<in> V" using "1.prems"(1) Cons by simp
    have b: "below V r col' \<and> ((col', q') = (col, rest) \<or> slack V r col' < slack V r col)"
      using relax_fold_below [of V "get_or [] ch x" r x "(col, rest)"] V r x "1.prems"(2) step by auto
    have k: "queued_known (col', q')"
      using relax_known [of "(col, rest)" x "get_or [] ch x"] "1.prems"(3) Cons step
      by (simp add: queued_known_def)
    have "set q' \<subseteq> V" using k b by (auto simp: queued_known_def below_def)
    then have "\<exists>res. assign_cols ch q' col' = Some res \<and> below V r res"
      using "1.hyps" [of col' q'] b k Cons by auto
    then show ?thesis using Cons step by (subst assign_cols.simps) simp
  qed
qed

subsection \<open>When the layout returns\<close>

text \<open>The nodes the queue can ever hold, and the length of the longest chain below each when
  there is no cycle among them: the rank of a node is the number of nodes before it.\<close>

definition graph_reach :: "graph_task list \<Rightarrow> string set" where
  "graph_reach tasks = (dep_edges tasks)\<^sup>* `` graph_roots tasks"

definition before :: "graph_task list \<Rightarrow> string \<Rightarrow> string set" where
  "before tasks x = {y \<in> graph_reach tasks. (y, x) \<in> (dep_edges tasks)\<^sup>+}"

lemma graph_reach_step: "x \<in> graph_reach tasks \<Longrightarrow> (x, c) \<in> dep_edges tasks \<Longrightarrow> c \<in> graph_reach tasks"
  unfolding graph_reach_def by (blast intro: rtrancl_into_rtrancl)

lemma graph_reach_tasks: "graph_reach tasks \<subseteq> g_id ` set tasks"
proof
  fix x assume "x \<in> graph_reach tasks"
  then obtain y where y: "y \<in> graph_roots tasks" "(y, x) \<in> (dep_edges tasks)\<^sup>*" by (auto simp: graph_reach_def)
  from y(2,1) show "x \<in> g_id ` set tasks"
    by (cases rule: rtranclE) (auto simp: graph_roots_def dest: dep_edges_nodes)
qed

lemma finite_graph_reach: "finite (graph_reach tasks)"
  by (rule finite_subset [OF graph_reach_tasks]) simp

lemma before_less:
  assumes "x \<in> graph_reach tasks" "(x, c) \<in> dep_edges tasks" "(x, x) \<notin> (dep_edges tasks)\<^sup>+"
  shows "card (before tasks x) < card (before tasks c)"
proof (rule psubset_card_mono)
  show "finite (before tasks c)"
    by (rule finite_subset [OF _ finite_graph_reach [of tasks]]) (auto simp: before_def)
  have "x \<in> before tasks c" "x \<notin> before tasks x" using assms by (auto simp: before_def)
  moreover have "before tasks x \<subseteq> before tasks c"
    using assms(2) by (auto simp: before_def intro: trancl_into_trancl)
  ultimately show "before tasks x \<subset> before tasks c" by blast
qed

lemma seed_distinct:
  "distinct (map fst (fst cq)) \<Longrightarrow> distinct (map fst (fst (fold (seed_task i) ts cq)))"
  by (induction ts arbitrary: cq) (auto simp: seed_task_def distinct_update split: prod.splits)

lemma loop_inv_start: "loop_inv kids (snd (seeds tasks)) (fst (seeds tasks))"
  using seed_distinct [of "([], [])"] by (simp add: loop_inv_def queued_known_def seeds_roots) (simp add: seeds_def)

text \<open>Below any function that grows along the reachable edges, the columns are found.\<close>

lemma columns_return:
  assumes "\<forall>x \<in> graph_reach tasks. 0 \<le> r x \<and> (\<forall>c. (x, c) \<in> dep_edges tasks \<longrightarrow> r x < r c)"
  shows "\<exists>res. columns tasks = Some res \<and> below (graph_reach tasks) r res"
  unfolding columns_def
proof (rule assign_cols_returns [OF finite_graph_reach])
  show "\<forall>x \<in> graph_reach tasks. 0 \<le> r x \<and>
      (\<forall>c \<in> set (get_or [] (snd (degrees tasks)) x). c \<in> graph_reach tasks \<and> r x < r c)"
    using assms by (auto simp: degrees_children intro: graph_reach_step)
  have roots: "graph_roots tasks \<subseteq> graph_reach tasks" by (auto simp: graph_reach_def)
  then show "set (snd (seeds tasks)) \<subseteq> graph_reach tasks" by (simp add: seeds_roots)
  show "below (graph_reach tasks) r (fst (seeds tasks))"
    using roots assms by (auto simp: below_def seeds_roots)
  show "queued_known (fst (seeds tasks), snd (seeds tasks))"
    by (simp add: queued_known_def seeds_roots)
qed

text \<open>And the columns that are found grow along the edges.\<close>

lemma columns_grow:
  assumes "columns tasks = Some res"
  shows "x \<in> graph_reach tasks \<Longrightarrow> \<exists>n. map_of res x = Some n \<and> 0 \<le> n"
    and "map_of res x = Some n \<Longrightarrow> (x, c) \<in> dep_edges tasks \<Longrightarrow> \<exists>m. map_of res c = Some m \<and> n < m"
proof -
  have inv: "loop_inv (get_or [] (snd (degrees tasks))) [] res"
    and known: "y \<in> graph_roots tasks \<Longrightarrow> map_of res y \<noteq> None" for y
    using assign_cols_result [OF assms [unfolded columns_def] loop_inv_start]
    by (auto simp: seeds_roots)
  have up: "n < get_or (- 1) res c" "0 \<le> n" if "map_of res x = Some n" "(x, c) \<in> dep_edges tasks" for x n c
    using inv that by (auto simp: loop_inv_def degrees_children)
  show grow: "\<exists>m. map_of res c = Some m \<and> n < m"
    if "map_of res x = Some n" "(x, c) \<in> dep_edges tasks" for x n c
    using up [OF that] by (cases "map_of res c") (auto simp: get_or_def)
  assume "x \<in> graph_reach tasks"
  then obtain y where y: "y \<in> graph_roots tasks" "(y, x) \<in> (dep_edges tasks)\<^sup>*" by (auto simp: graph_reach_def)
  from y(2,1) have "map_of res x \<noteq> None"
    by (induction rule: rtrancl_induct) (use known grow in \<open>blast, fastforce\<close>)
  then show "\<exists>n. map_of res x = Some n \<and> 0 \<le> n" using inv by (auto simp: loop_inv_def)
qed

lemma columns_grow_trancl:
  assumes "columns tasks = Some res" "(x, c) \<in> (dep_edges tasks)\<^sup>+"
  shows "map_of res x = Some n \<Longrightarrow> \<exists>m. map_of res c = Some m \<and> n < m"
  using assms(2)
proof (induction rule: trancl_induct)
  case (base y)
  then show ?case using columns_grow(2) [OF assms(1)] by blast
next
  case (step y z)
  then show ?case using columns_grow(2) [OF assms(1)] by (meson less_trans)
qed

lemma columns_distinct: "columns tasks = Some res \<Longrightarrow> distinct (map fst res)"
  using assign_cols_result [OF _ loop_inv_start] by (simp add: columns_def loop_inv_def)

lemma layout_terminates_cycles:
  "(\<exists>nodes. layoutGraph tasks = Some nodes)
     = (\<forall>x \<in> graph_reach tasks. (x, x) \<notin> (dep_edges tasks)\<^sup>+)" (is "?L = ?R")
proof
  assume ?L
  show ?R
  proof
    fix x assume x: "x \<in> graph_reach tasks"
    then have "tasks \<noteq> []" by (auto simp: graph_reach_def graph_roots_def)
    with \<open>?L\<close> obtain res where res: "columns tasks = Some res" by (auto simp: layoutGraph_def)
    then obtain n where "map_of res x = Some n" using columns_grow(1) x by blast
    then show "(x, x) \<notin> (dep_edges tasks)\<^sup>+" using columns_grow_trancl [OF res] by fastforce
  qed
next
  assume R: ?R
  have "\<exists>res. columns tasks = Some res \<and> below (graph_reach tasks) (\<lambda>x. int (card (before tasks x))) res"
    by (rule columns_return) (use before_less R in auto)
  then show ?L by (auto simp: layoutGraph_def)
qed

text \<open>C3.  The layout of a board returns exactly when no cycle of dependencies can be reached from
  a task that has no dependency on the board.  A cycle that nothing leads to does no harm
  to the loop; one below a root keeps the queue filled for ever.\<close>

theorem layout_terminates_iff:
  "(\<exists>nodes. layoutGraph tasks = Some nodes)
     = (\<forall>x \<in> graph_reach tasks. (x, x) \<notin> (dep_edges tasks)\<^sup>+)"
  by (rule layout_terminates_cycles)

theorem layout_terminates_witness:
  "\<exists>nodes. layoutGraph
     [\<lparr> g_id = ''a'', g_title = ''A'', g_status = ''todo'', depends_on = [], blocked_by = [''b''] \<rparr>,
      \<lparr> g_id = ''b'', g_title = ''B'', g_status = ''todo'', depends_on = [''a''], blocked_by = [] \<rparr>] = Some nodes"
proof -
  let ?ts = "[\<lparr> g_id = ''a'', g_title = ''A'', g_status = ''todo'', depends_on = [], blocked_by = [''b''] \<rparr>,
      \<lparr> g_id = ''b'', g_title = ''B'', g_status = ''todo'', depends_on = [''a''], blocked_by = [] \<rparr>]"
  have e: "dep_edges ?ts = {(''a'', ''b'')}" by (auto simp: dep_edges_def)
  have "(x, y) \<in> (dep_edges ?ts)\<^sup>+ \<Longrightarrow> x = ''a'' \<and> y = ''b''" for x y
    unfolding e by (induction rule: trancl_induct) auto
  then show ?thesis using layout_terminates_iff [of ?ts] by fastforce
qed

text \<open>The smallest board that hangs: a task that depends on a finished root and on a task that
  depends on it.\<close>

lemma cycle_below_root_hangs:
  "layoutGraph
     [\<lparr> g_id = ''r'', g_title = ''R'', g_status = ''done'', depends_on = [], blocked_by = [''a''] \<rparr>,
      \<lparr> g_id = ''a'', g_title = ''A'', g_status = ''todo'', depends_on = [''r'', ''b''], blocked_by = [''b''] \<rparr>,
      \<lparr> g_id = ''b'', g_title = ''B'', g_status = ''todo'', depends_on = [''a''], blocked_by = [''a''] \<rparr>] = None"
    (is "layoutGraph ?ts = None")
proof -
  have e: "dep_edges ?ts = {(''r'', ''a''), (''b'', ''a''), (''a'', ''b'')}" by (auto simp: dep_edges_def)
  have "''r'' \<in> graph_roots ?ts" by (simp add: graph_roots_def e)
  moreover have "(''r'', ''a'') \<in> (dep_edges ?ts)\<^sup>*" by (rule r_into_rtrancl) (simp add: e)
  ultimately have "''a'' \<in> graph_reach ?ts" by (auto simp: graph_reach_def)
  moreover have "(''a'', ''a'') \<in> (dep_edges ?ts)\<^sup>+"
    unfolding e by (rule trancl_into_trancl [of _ "''b''"]) auto
  ultimately have "\<not> (\<exists>nodes. layoutGraph ?ts = Some nodes)"
    using layout_terminates_cycles [of ?ts] by blast
  then show ?thesis by simp
qed

text \<open>A cycle nothing leads to is not drawn at all.\<close>

lemma lone_cycle_vanishes:
  "layoutGraph
     [\<lparr> g_id = ''a'', g_title = ''A'', g_status = ''todo'', depends_on = [''b''], blocked_by = [''b''] \<rparr>,
      \<lparr> g_id = ''b'', g_title = ''B'', g_status = ''todo'', depends_on = [''a''], blocked_by = [''a''] \<rparr>] = Some []"
  by (simp add: layoutGraph_def columns_def assign_cols.simps seeds_def seed_task_def degrees_def
      count_task_def count_dep_def taskMap_def spread_def get_or_def place_def colGroups_def)

section \<open>Columns are the longest chains\<close>

text \<open>A level function puts every task strictly right of what it depends on.\<close>

definition is_levels :: "graph_task list \<Rightarrow> (string \<Rightarrow> int) \<Rightarrow> bool" where
  "is_levels tasks r =
     (\<forall>t \<in> set tasks. 0 \<le> r (g_id t) \<and>
        (\<forall>d \<in> set (depends_on t). d \<in> g_id ` set tasks \<longrightarrow> r d < r (g_id t)))"

lemma is_levels_edges:
  "is_levels tasks r =
     ((\<forall>x \<in> g_id ` set tasks. 0 \<le> r x) \<and> (\<forall>d c. (d, c) \<in> dep_edges tasks \<longrightarrow> r d < r c))"
  by (auto simp: is_levels_def dep_edges_def)

text \<open>On an acyclic board every task hangs below a root.\<close>

lemma acyclic_reach:
  assumes "acyclic (dep_edges tasks)"
  shows "graph_reach tasks = g_id ` set tasks"
proof
  show "graph_reach tasks \<subseteq> g_id ` set tasks" by (rule graph_reach_tasks)
  show "g_id ` set tasks \<subseteq> graph_reach tasks"
  proof
    have wf: "wf (dep_edges tasks)" using finite_acyclic_wf [OF finite_dep_edges assms] .
    fix x show "x \<in> g_id ` set tasks \<Longrightarrow> x \<in> graph_reach tasks"
    proof (induction x rule: wf_induct_rule [OF wf])
      case (1 x)
      show ?case
      proof (cases "x \<in> graph_roots tasks")
        case True
        then show ?thesis by (auto simp: graph_reach_def)
      next
        case False
        with "1.prems" obtain d where d: "(d, x) \<in> dep_edges tasks" by (auto simp: graph_roots_def)
        then show ?thesis using "1.IH" [OF d] graph_reach_step dep_edges_nodes by blast
      qed
    qed
  qed
qed

text \<open>C13.  On an acyclic board the loop ends, every task gets a column, the columns are a level
  function, and no level function is smaller anywhere: the column of a task is the length
  of the longest chain of dependencies that ends in it.\<close>

theorem columns_are_least_levels:
  assumes "acyclic (dep_edges tasks)"
  shows "\<exists>col. columns tasks = Some col \<and> fst ` set col = g_id ` set tasks \<and> is_levels tasks (get_or 0 col) \<and>
    (\<forall>r. is_levels tasks r \<longrightarrow> (\<forall>t \<in> set tasks. get_or 0 col (g_id t) \<le> r (g_id t)))"
proof -
  have reach: "graph_reach tasks = g_id ` set tasks" by (rule acyclic_reach [OF assms])
  have least: "\<exists>col. columns tasks = Some col \<and> below (g_id ` set tasks) r col" if "is_levels tasks r" for r
    using columns_return [of tasks r] that unfolding reach is_levels_edges by blast
  have "is_levels tasks (\<lambda>x. int (card (before tasks x)))"
    using before_less [of _ tasks] assms unfolding is_levels_edges reach acyclic_def
    by (simp add: dep_edges_nodes)
  with least obtain col where col: "columns tasks = Some col" "below (g_id ` set tasks) (\<lambda>x. int (card (before tasks x))) col"
    by blast
  have known: "\<exists>n. map_of col x = Some n \<and> 0 \<le> n" if "x \<in> g_id ` set tasks" for x
    using columns_grow(1) [OF col(1)] that reach by simp
  have "map_of col x \<noteq> None \<longleftrightarrow> x \<in> g_id ` set tasks" for x
    using known col(2) unfolding below_def by (metis not_None_eq)
  then have "fst ` set col = g_id ` set tasks" by (auto simp: map_of_eq_None_iff)
  moreover have "is_levels tasks (get_or 0 col)"
    unfolding is_levels_edges
  proof (intro conjI ballI allI impI)
    fix x assume "x \<in> g_id ` set tasks" then show "0 \<le> get_or 0 col x" using known by (fastforce simp: get_or_def)
  next
    fix d c assume e: "(d, c) \<in> dep_edges tasks"
    then obtain n where "map_of col d = Some n" using known [of d] dep_edges_nodes [OF e] by blast
    with columns_grow(2) [OF col(1) this e] show "get_or 0 col d < get_or 0 col c" by (auto simp: get_or_def)
  qed
  moreover have "get_or 0 col x \<le> r x" if "is_levels tasks r" "x \<in> g_id ` set tasks" for r x
    using least [OF that(1)] known [OF that(2)] col(1) by (auto simp: below_def get_or_def)
  ultimately show ?thesis using col(1) by blast
qed

lemma columns_are_least_levels_witness:
  "\<exists>col. columns [\<lparr> g_id = ''a'', g_title = ''A'', g_status = ''todo'', depends_on = [], blocked_by = [] \<rparr>,
      \<lparr> g_id = ''b'', g_title = ''B'', g_status = ''todo'', depends_on = [''a''], blocked_by = [] \<rparr>] = Some col
     \<and> fst ` set col = {''a'', ''b''}"
proof -
  let ?ts = "[\<lparr> g_id = ''a'', g_title = ''A'', g_status = ''todo'', depends_on = [], blocked_by = [] \<rparr>,
      \<lparr> g_id = ''b'', g_title = ''B'', g_status = ''todo'', depends_on = [''a''], blocked_by = [] \<rparr>]"
  have e: "dep_edges ?ts = {(''a'', ''b'')}" by (auto simp: dep_edges_def)
  have "acyclic (dep_edges ?ts)" unfolding e by (rule acyclicI) (auto elim!: trancl.cases)
  from columns_are_least_levels [OF this] show ?thesis by auto
qed

section \<open>The drawing\<close>

lemma colGroups_fold:
  "get_or [] (fold (\<lambda>(i, c) groups. AList.update c (get_or [] groups c @ [i]) groups) col groups) c
     = get_or [] groups c @ map fst (filter (\<lambda>ic. snd ic = c) col)"
  by (induction col arbitrary: groups) auto

lemma colGroups_distinct_fold:
  "distinct (map fst groups) \<Longrightarrow>
   distinct (map fst (fold (\<lambda>(i, c) groups. AList.update c (get_or [] groups c @ [i]) groups) col groups))"
  by (induction col arbitrary: groups) (auto simp: distinct_update)

lemma colGroups_entries:
  assumes "(c, ids) \<in> set (colGroups col)"
  shows "ids = map fst (filter (\<lambda>ic. snd ic = c) col)"
proof -
  have "distinct (map fst (colGroups col))" by (simp add: colGroups_def colGroups_distinct_fold)
  with assms have "get_or [] (colGroups col) c = ids" by (simp add: get_or_def)
  then show ?thesis using colGroups_fold [of col "[]" c] by (simp add: colGroups_def)
qed

text \<open>A node of the drawing: its task, its column, its row among the tasks of the column.\<close>

lemma place_nodes:
  assumes "n \<in> set (place tasks col)"
  defines "ids \<equiv> map fst (filter (\<lambda>ic. snd ic = n_col n) col)"
  shows "n_row n < length ids \<and> n_task n = the (map_of (taskMap tasks) (ids ! n_row n)) \<and>
    n_x n = n_col n * 240 \<and>
    n_y n = int (n_row n) * 80 + (col_height (maxRows (colGroups col))
      - col_height (case map_of (colGroups col) (n_col n) of None \<Rightarrow> 1 | Some is \<Rightarrow> length is)) div 2"
proof -
  from assms(1) obtain c xs where g: "(c, xs) \<in> set (colGroups col)"
    and m: "n \<in> centre (colGroups col) ` set (group_nodes (taskMap tasks) (c, xs))"
    by (auto simp: place_def Let_def)
  from m obtain row i where "(row, i) \<in> set (enumerate 0 xs)"
    "n = centre (colGroups col) \<lparr> n_task = the (map_of (taskMap tasks) i), n_x = c * (NODE_W + H_GAP),
       n_y = int row * (NODE_H + V_GAP), n_col = c, n_row = row \<rparr>"
    by (auto simp: group_nodes_def)
  with colGroups_entries [OF g] show ?thesis
    by (auto simp: ids_def centre_def NODE_W_def H_GAP_def NODE_H_def V_GAP_def in_set_enumerate_eq)
qed

lemma taskMap_entry:
  assumes "i \<in> g_id ` set tasks"
  shows "the (map_of (taskMap tasks) i) \<in> set tasks \<and> g_id (the (map_of (taskMap tasks) i)) = i"
proof -
  from assms obtain t where t: "map_of (taskMap tasks) i = Some t" using taskMap_unknown [of tasks i] by auto
  then have "(i, t) \<in> set (map (\<lambda>t. (g_id t, t)) tasks)"
    by (auto simp: taskMap_def map_of_spread split: option.splits dest: map_of_SomeD)
  then show ?thesis using t by auto
qed

text \<open>Every node of a finished layout stands in the column of its task.\<close>

lemma layout_nodes:
  assumes "layoutGraph tasks = Some nodes" "n \<in> set nodes"
  obtains col where "columns tasks = Some col" "nodes = place tasks col"
    "map_of col (g_id (n_task n)) = Some (n_col n)" "n_task n \<in> set tasks"
proof -
  from assms obtain col where col: "columns tasks = Some col" "nodes = place tasks col"
    by (auto simp: layoutGraph_def split: if_splits)
  have "\<forall>x \<in> graph_reach tasks. (x, x) \<notin> (dep_edges tasks)\<^sup>+"
    using layout_terminates_cycles assms(1) by blast
  then have below: "below (graph_reach tasks) (\<lambda>x. int (card (before tasks x))) col"
    using columns_return [of tasks "\<lambda>x. int (card (before tasks x))"] before_less col(1) by auto
  define ids where "ids = map fst (filter (\<lambda>ic. snd ic = n_col n) col)"
  have n: "n_row n < length ids" "n_task n = the (map_of (taskMap tasks) (ids ! n_row n))"
    using place_nodes [of n tasks col] assms(2) col(2) by (simp_all add: ids_def)
  have "ids ! n_row n \<in> set ids" using n(1) by (rule nth_mem)
  then have "map_of col (ids ! n_row n) = Some (n_col n)"
    using columns_distinct [OF col(1)] by (auto simp: ids_def)
  moreover from this below have "ids ! n_row n \<in> g_id ` set tasks"
    using graph_reach_tasks [of tasks] by (auto simp: below_def)
  ultimately show thesis using that [OF col] taskMap_entry n(2) by metis
qed

lemma nodeMap_entry: "map_of (nodeMap nodes) i = Some n \<Longrightarrow> n \<in> set nodes \<and> g_id (n_task n) = i"
  by (auto simp: nodeMap_def map_of_spread split: option.splits dest: map_of_SomeD)

text \<open>Every edge that is drawn comes from a dependency and runs to the right: its source ends
  at least the gap before its target begins.\<close>

theorem edges_point_right:
  assumes "layoutGraph tasks = Some nodes" "e \<in> set (edges_of focus nodes)"
  shows "g_id (n_task (src e)) \<in> set (depends_on (n_task (tgt e))) \<and> n_x (src e) + NODE_W + H_GAP \<le> n_x (tgt e)"
proof -
  from assms(2) have t: "tgt e \<in> set nodes" "src e \<in> set nodes"
    and dep: "g_id (n_task (src e)) \<in> set (depends_on (n_task (tgt e)))"
    by (auto simp: edges_of_def split: option.splits dest: nodeMap_entry [OF sym])
  obtain col where c: "columns tasks = Some col" "nodes = place tasks col"
    "map_of col (g_id (n_task (tgt e))) = Some (n_col (tgt e))" "n_task (tgt e) \<in> set tasks"
    using layout_nodes [OF assms(1) t(1)] by blast
  obtain col' where c': "columns tasks = Some col'" "map_of col' (g_id (n_task (src e))) = Some (n_col (src e))"
    "n_task (src e) \<in> set tasks"
    using layout_nodes [OF assms(1) t(2)] by blast
  have "(g_id (n_task (src e)), g_id (n_task (tgt e))) \<in> dep_edges tasks"
    using dep c(4) c'(3) by (auto simp: dep_edges_def)
  then have "n_col (src e) < n_col (tgt e)"
    using columns_grow(2) [OF c(1), of "g_id (n_task (src e))"] c c' by fastforce
  moreover have "n_x (src e) = n_col (src e) * 240" "n_x (tgt e) = n_col (tgt e) * 240"
    using place_nodes t c(2) by blast+
  ultimately show ?thesis using dep by (simp add: NODE_W_def H_GAP_def)
qed

text \<open>Two nodes overlap when their rectangles do.\<close>

definition overlap :: "graph_node \<Rightarrow> graph_node \<Rightarrow> bool" where
  "overlap n m = (\<bar>n_x n - n_x m\<bar> < NODE_W \<and> \<bar>n_y n - n_y m\<bar> < NODE_H)"

text \<open>No two nodes of a layout overlap.\<close>

theorem nodes_do_not_overlap:
  assumes "layoutGraph tasks = Some nodes" "n \<in> set nodes" "m \<in> set nodes" "n \<noteq> m"
  shows "\<not> overlap n m"
proof
  assume o: "overlap n m"
  obtain col where col: "nodes = place tasks col" using layout_nodes [OF assms(1,2)] by blast
  note pn = place_nodes [of n tasks col, folded col, OF assms(2)]
  note pm = place_nodes [of m tasks col, folded col, OF assms(3)]
  have "\<bar>n_col n * 240 - n_col m * 240\<bar> < 180" using o pn pm by (simp add: overlap_def NODE_W_def)
  then have c: "n_col n = n_col m" by arith
  have "\<bar>int (n_row n) * 80 - int (n_row m) * 80\<bar> < 56" using o pn pm c by (simp add: overlap_def NODE_H_def)
  then have r: "n_row n = n_row m" by arith
  have "n = m" using pn pm c r by (intro graph_node.equality) simp_all
  with assms(4) show False by simp
qed

lemma sample_layout:
  "layoutGraph [\<lparr> g_id = ''a'', g_title = ''A'', g_status = ''todo'', depends_on = [], blocked_by = [] \<rparr>, \<lparr> g_id = ''b'', g_title = ''B'', g_status = ''todo'', depends_on = [''a''], blocked_by = [] \<rparr>]
   = Some [\<lparr> n_task = \<lparr> g_id = ''a'', g_title = ''A'', g_status = ''todo'', depends_on = [], blocked_by = [] \<rparr>, n_x = 0, n_y = 0, n_col = 0, n_row = 0 \<rparr>,
           \<lparr> n_task = \<lparr> g_id = ''b'', g_title = ''B'', g_status = ''todo'', depends_on = [''a''], blocked_by = [] \<rparr>, n_x = 240, n_y = 0, n_col = 1, n_row = 0 \<rparr>]"
  by (simp add: layoutGraph_def columns_def assign_cols.simps seeds_def seed_task_def degrees_def
      count_task_def count_dep_def taskMap_def spread_def get_or_def place_def colGroups_def relax_def
      group_nodes_def centre_def maxRows_def NODE_W_def H_GAP_def NODE_H_def V_GAP_def Let_def)

lemma edges_point_right_witness:
  "n_x (src (hd (edges_of None (the (layoutGraph [\<lparr> g_id = ''a'', g_title = ''A'', g_status = ''todo'', depends_on = [], blocked_by = [] \<rparr>, \<lparr> g_id = ''b'', g_title = ''B'', g_status = ''todo'', depends_on = [''a''], blocked_by = [] \<rparr>]))))) + NODE_W + H_GAP
     \<le> n_x (tgt (hd (edges_of None (the (layoutGraph [\<lparr> g_id = ''a'', g_title = ''A'', g_status = ''todo'', depends_on = [], blocked_by = [] \<rparr>, \<lparr> g_id = ''b'', g_title = ''B'', g_status = ''todo'', depends_on = [''a''], blocked_by = [] \<rparr>])))))"
proof -
  let ?nodes = "the (layoutGraph [\<lparr> g_id = ''a'', g_title = ''A'', g_status = ''todo'', depends_on = [], blocked_by = [] \<rparr>, \<lparr> g_id = ''b'', g_title = ''B'', g_status = ''todo'', depends_on = [''a''], blocked_by = [] \<rparr>])"
  have "edges_of None ?nodes \<noteq> []"
    by (simp add: sample_layout edges_of_def nodeMap_def spread_def)
  then have "hd (edges_of None ?nodes) \<in> set (edges_of None ?nodes)" by simp
  with edges_point_right [of "[\<lparr> g_id = ''a'', g_title = ''A'', g_status = ''todo'', depends_on = [], blocked_by = [] \<rparr>, \<lparr> g_id = ''b'', g_title = ''B'', g_status = ''todo'', depends_on = [''a''], blocked_by = [] \<rparr>]" ?nodes "hd (edges_of None ?nodes)" None]
  show ?thesis by (simp add: sample_layout)
qed

lemma nodes_do_not_overlap_witness:
  "\<not> overlap (hd (the (layoutGraph [\<lparr> g_id = ''a'', g_title = ''A'', g_status = ''todo'', depends_on = [], blocked_by = [] \<rparr>, \<lparr> g_id = ''b'', g_title = ''B'', g_status = ''todo'', depends_on = [''a''], blocked_by = [] \<rparr>]))) (last (the (layoutGraph [\<lparr> g_id = ''a'', g_title = ''A'', g_status = ''todo'', depends_on = [], blocked_by = [] \<rparr>, \<lparr> g_id = ''b'', g_title = ''B'', g_status = ''todo'', depends_on = [''a''], blocked_by = [] \<rparr>])))"
  using nodes_do_not_overlap [of "[\<lparr> g_id = ''a'', g_title = ''A'', g_status = ''todo'', depends_on = [], blocked_by = [] \<rparr>, \<lparr> g_id = ''b'', g_title = ''B'', g_status = ''todo'', depends_on = [''a''], blocked_by = [] \<rparr>]" "the (layoutGraph [\<lparr> g_id = ''a'', g_title = ''A'', g_status = ''todo'', depends_on = [], blocked_by = [] \<rparr>, \<lparr> g_id = ''b'', g_title = ''B'', g_status = ''todo'', depends_on = [''a''], blocked_by = [] \<rparr>])" "hd (the (layoutGraph [\<lparr> g_id = ''a'', g_title = ''A'', g_status = ''todo'', depends_on = [], blocked_by = [] \<rparr>, \<lparr> g_id = ''b'', g_title = ''B'', g_status = ''todo'', depends_on = [''a''], blocked_by = [] \<rparr>]))"
      "last (the (layoutGraph [\<lparr> g_id = ''a'', g_title = ''A'', g_status = ''todo'', depends_on = [], blocked_by = [] \<rparr>, \<lparr> g_id = ''b'', g_title = ''B'', g_status = ''todo'', depends_on = [''a''], blocked_by = [] \<rparr>]))"]
  by (simp add: sample_layout)

text \<open>A task waits exactly when some task it depends on, found on the board, is neither done nor
  cancelled.\<close>

lemma warning_iff_waiting:
  assumes "distinct (map g_id tasks)" "t \<in> set tasks" "n_task n = t"
  shows "shows_warning tasks n =
    (g_status t \<noteq> ''done'' \<and>
     (\<exists>d \<in> set tasks. g_id d \<in> set (depends_on t) \<and> g_status d \<noteq> ''done'' \<and> g_status d \<noteq> ''cancelled''))"
proof -
  have ex: "(case find_first (\<lambda>t. g_id t = i) ts of None \<Rightarrow> False | Some d \<Rightarrow> P d)
      = (\<exists>d \<in> set ts. g_id d = i \<and> P d)" if "distinct (map g_id ts)" for i P ts
    using that
  proof (induction ts)
    case (Cons t ts)
    have "g_id t \<notin> g_id ` set ts" using Cons.prems by simp
    then have "\<forall>d \<in> set ts. g_id d \<noteq> g_id t" by (metis image_eqI)
    with Cons show ?case by (cases "g_id t = i") (auto simp: find_first_def)
  qed (simp add: find_first_def)
  show ?thesis
    unfolding shows_warning_def isBlocked_def assms(3) ex [OF assms(1)] list_ex_iff by auto
qed

end
