(* ===== verification/NavMenus.thy ===== *)
theory NavMenus
  imports JsPrelude
begin

text \<open>
  The navigation menus: the three menu configurations (\<open>frontend/src/config/dashboard-nav.ts\<close>,
  \<open>portal-nav.ts\<close>, \<open>partner-nav.ts\<close>), the flattening and grouping of \<open>lib/nav-utils.ts\<close> that
  the command palette and the quick actions use, the side bar of
  \<open>components/navigation/sidebar-nav.tsx\<close> with its active marks, and the onboarding filter of
  the partner layout.

  Icons are component values without behaviour and are left out.  The theorems say what the
  grouping returns, that the side bar and the palette offer a user the same pages, and
  that the configurations are well-formed.
\<close>

section \<open>The configurations\<close>

record nav_item =
  i_title :: string
  i_href :: string
  i_tooltip :: "string option"
  i_roles :: "string list option"
  i_subItems :: "(string \<times> string) list option"

record nav_group =
  ng_label :: string
  ng_items :: "nav_item list"

record nav_config =
  brandTitle :: string
  collapsible :: string
  nav_groups :: "nav_group list"

definition MD :: string where "MD = ''managing_director''"
definition RM :: string where "RM = ''relationship_manager''"
definition COORD :: string where "COORD = ''coordinator''"
definition FIN :: string where "FIN = ''finance_compliance''"

definition INTERNAL_ROLES :: "string list" where
  "INTERNAL_ROLES = [''managing_director'', ''relationship_manager'', ''coordinator'', ''finance_compliance'']"

definition ALL_ROLES :: "string list" where
  "ALL_ROLES = [''managing_director'', ''relationship_manager'', ''coordinator'', ''finance_compliance'',
     ''client'', ''partner'']"

definition dashboardNavConfig :: nav_config where
  "dashboardNavConfig = nav_config.make ''AMG Portal'' ''icon'' [
  nav_group.make ''Main'' [
   nav_item.make ''Dashboard'' ''/'' (Some ''Dashboard'') None None,
   nav_item.make ''My Portfolio'' ''/portfolio'' (Some ''RM Portfolio View'') (Some [MD, RM, COORD, FIN]) None],
  nav_group.make ''CRM'' [
   nav_item.make ''CRM Overview'' ''/crm'' (Some ''Pipeline & leads overview'') (Some [MD, RM, COORD]) None,
   nav_item.make ''Leads'' ''/crm/leads'' (Some ''Prospect leads'') (Some [MD, RM, COORD]) None,
   nav_item.make ''Pipeline'' ''/crm/pipeline'' (Some ''Sales pipeline board'') (Some [MD, RM, COORD]) None],
  nav_group.make ''People'' [
   nav_item.make ''Clients'' ''/clients'' (Some ''Clients'') (Some [MD, RM, COORD]) None,
   nav_item.make ''Partners'' ''/partners'' (Some ''Partners'') (Some [MD, RM, COORD]) None,
   nav_item.make ''Workload'' ''/workload'' (Some ''Staff Workload'') (Some [MD, RM, COORD]) None,
   nav_item.make ''Users'' ''/users'' (Some ''Users'') (Some [MD]) None],
  nav_group.make ''Operations'' [
   nav_item.make ''Programs'' ''/programs'' (Some ''Programs'') None None,
   nav_item.make ''Task Board'' ''/tasks'' (Some ''Task Board'') (Some [MD, RM, COORD]) None,
   nav_item.make ''Deliverables'' ''/deliverables'' (Some ''Deliverables'') (Some [MD, RM, COORD]) None,
   nav_item.make ''Assignments'' ''/assignments'' (Some ''Assignments'') (Some [MD, RM, COORD]) None,
   nav_item.make ''Scheduling'' ''/scheduling'' (Some ''Scheduling'') (Some [MD, RM, COORD]) None,
   nav_item.make ''Capability Reviews'' ''/capability-reviews'' (Some ''Capability Reviews'') (Some [MD, RM, COORD, FIN]) None,
   nav_item.make ''Import'' ''/import'' (Some ''Bulk Data Import'') (Some [MD, RM, COORD]) None],
  nav_group.make ''Documents'' [
   nav_item.make ''Expiring Documents'' ''/documents/expiring'' (Some ''Expiring Documents'') (Some [MD, RM, COORD, FIN]) None,
   nav_item.make ''Evidence Vault'' ''/documents/vault'' (Some ''Evidence Vault'') (Some [MD, RM, COORD, FIN]) None],
  nav_group.make ''Oversight'' [
   nav_item.make ''KYC'' ''/kyc'' (Some ''KYC Verification'') (Some [MD, FIN, RM]) (Some [(''Verifications'', ''/kyc/verifications''), (''Alerts'', ''/kyc/alerts''), (''Reports'', ''/kyc/reports'')]),
   nav_item.make ''Approvals'' ''/approvals'' (Some ''Approvals'') (Some [MD, FIN]) None,
   nav_item.make ''Budget Approvals'' ''/budget-approvals'' (Some ''Budget Approvals'') (Some [MD, RM, FIN]) None,
   nav_item.make ''Finance'' ''/finance'' (Some ''Invoices'') (Some [MD, FIN]) None,
   nav_item.make ''Compliance'' ''/compliance'' (Some ''Compliance'') (Some [MD, FIN]) None,
   nav_item.make ''Certificates'' ''/certificates'' (Some ''Clearance Certificates'') (Some [MD, FIN, RM, COORD]) None,
   nav_item.make ''SLA Tracking'' ''/sla'' (Some ''SLA Tracking'') (Some [MD, RM, COORD]) None,
   nav_item.make ''Escalations'' ''/escalations'' (Some ''Escalations'') None None,
   nav_item.make ''Audit Logs'' ''/audit-logs'' (Some ''Audit Logs'') (Some [MD, FIN]) None,
   nav_item.make ''Decisions'' ''/decisions'' (Some ''Decisions'') (Some [MD, RM]) None,
   nav_item.make ''Deletion Requests'' ''/deletion-requests'' (Some ''Deletion Requests'') (Some [MD, FIN]) None,
   nav_item.make ''Access Audits'' ''/access-audits'' (Some ''Access Audits'') (Some [MD, FIN]) None,
   nav_item.make ''Cert Templates'' ''/certificates/templates'' (Some ''Certificate Templates'') (Some [MD, FIN]) None],
  nav_group.make ''Insights'' [
   nav_item.make ''Analytics'' ''/analytics'' (Some ''Analytics'') (Some [MD, RM]) None,
   nav_item.make ''Partner Performance'' ''/analytics/partner-performance'' (Some ''Partner Performance'') (Some [MD, RM]) None,
   nav_item.make ''Reports'' ''/reports'' (Some ''Report Builder'') (Some [MD, RM, COORD, FIN]) None,
   nav_item.make ''Report Schedules'' ''/reports/schedules'' (Some ''Report Schedules'') (Some [MD, RM]) None,
   nav_item.make ''RM Portfolio'' ''/reports/rm-portfolio'' (Some ''RM Portfolio Report'') (Some [MD, RM]) None,
   nav_item.make ''Escalation Log'' ''/reports/escalation-log'' (Some ''Escalation Log Report'') (Some [MD, RM, COORD, FIN]) None,
   nav_item.make ''Compliance Audit'' ''/reports/compliance'' (Some ''Compliance Audit Report'') (Some [MD, FIN]) None,
   nav_item.make ''NPS Surveys'' ''/analytics/nps'' (Some ''NPS Surveys'') (Some [MD, RM]) None,
   nav_item.make ''Pulse Surveys'' ''/surveys/pulse'' (Some ''Pulse Surveys'') (Some [MD, RM]) None],
  nav_group.make ''Communication'' [
   nav_item.make ''Messages'' ''/communications'' (Some ''Messages'') None None,
   nav_item.make ''Notifications'' ''/notifications'' (Some ''Notifications'') None None,
   nav_item.make ''Comm Templates'' ''/communications/templates'' (Some ''Communication Templates'') (Some [MD, RM, COORD]) None,
   nav_item.make ''Comm Log'' ''/communications/log'' (Some ''Communication Audit Log'') (Some [MD, RM, COORD, FIN]) None],
  nav_group.make ''Settings'' [
   nav_item.make ''Settings'' ''/settings'' (Some ''Settings'') None None,
   nav_item.make ''Security'' ''/settings/security'' (Some ''Security Settings'') None None,
   nav_item.make ''Budget Thresholds'' ''/settings/budget-thresholds'' (Some ''Budget Approval Thresholds'') (Some [MD]) None,
   nav_item.make ''Integrations'' ''/settings/integrations'' (Some ''Webhooks & Integrations'') (Some [MD]) None]]"

definition portalNavConfig :: nav_config where
  "portalNavConfig = nav_config.make ''AMG Portal'' ''offcanvas'' [
  nav_group.make ''Navigation'' [
   nav_item.make ''Dashboard'' ''/portal/dashboard'' (Some ''Dashboard'') None None,
   nav_item.make ''Programs'' ''/portal/programs'' (Some ''Programs'') None None,
   nav_item.make ''Calendar'' ''/portal/calendar'' (Some ''Milestone Calendar'') None None,
   nav_item.make ''Schedule Meeting'' ''/portal/schedule'' (Some ''Book a Meeting'') None None,
   nav_item.make ''Messages'' ''/portal/messages'' (Some ''Messages'') None None,
   nav_item.make ''Documents'' ''/portal/documents'' (Some ''Documents'') None None,
   nav_item.make ''Decisions'' ''/portal/decisions'' (Some ''Decisions'') None None,
   nav_item.make (''What'' @ [CHR 0x27] @ ''s New'') ''/portal/updates'' (Some (''What'' @ [CHR 0x27] @ ''s New'')) None None,
   nav_item.make ''Survey'' ''/portal/survey'' (Some ''Satisfaction Survey'') None None,
   nav_item.make ''Reports'' ''/portal/reports'' (Some ''Reports'') None (Some [(''Portfolio'', ''/portal/reports/portfolio''), (''Program Status'', ''/portal/reports/program-status''), (''Completion'', ''/portal/reports/completion''), (''Annual Review'', ''/portal/reports/annual'')]),
   nav_item.make ''Settings'' ''/portal/settings'' (Some ''Settings'') None (Some [(''Profile'', ''/portal/settings/profile''), (''Notifications'', ''/portal/settings/notifications''), (''Security'', ''/portal/settings/security'')])]]"

definition partnerNavConfig :: nav_config where
  "partnerNavConfig = nav_config.make ''AMG Partner Portal'' ''offcanvas'' [
  nav_group.make ''Navigation'' [
   nav_item.make ''Home'' ''/partner'' (Some ''Home'') None None,
   nav_item.make ''Onboarding'' ''/partner/onboarding'' (Some ''Partner Onboarding'') None None,
   nav_item.make ''Assignments'' ''/partner/assignments'' (Some ''My Assignments'') None None,
   nav_item.make ''Inbox'' ''/partner/inbox'' (Some ''Assignment Inbox'') None None,
   nav_item.make ''Calendar'' ''/partner/calendar'' (Some ''Assignment Calendar'') None None,
   nav_item.make ''Deliverables'' ''/partner/deliverables'' (Some ''Deliverables'') None None,
   nav_item.make ''Templates'' ''/partner/templates'' (Some ''Template Library'') None None,
   nav_item.make ''Messages'' ''/partner/messages'' (Some ''Messages with Coordinators'') None None,
   nav_item.make ''Documents'' ''/partner/documents'' (Some ''Brief Documents'') None None,
   nav_item.make ''Notices'' ''/partner/notices'' (Some ''Performance Notices'') None None,
   nav_item.make ''Scorecard'' ''/partner/scorecard'' (Some ''Performance Scorecard'') None None,
   nav_item.make ''Capability Refresh'' ''/partner/capability-refresh'' (Some ''Update Your Capabilities'') None None,
   nav_item.make ''Payments'' ''/partner/payments'' (Some ''Payment History'') None None,
   nav_item.make ''Reports'' ''/partner/reports'' (Some ''Partner Reports'') None (Some [(''Active Brief Summary'', ''/partner/reports/brief-summary''), (''Deliverable Feedback'', ''/partner/reports/feedback''), (''Engagement History'', ''/partner/reports/history'')]),
   nav_item.make ''Settings'' ''/partner/settings'' (Some ''Account Settings'') None (Some [(''Profile'', ''/partner/settings/profile''), (''Notifications'', ''/partner/settings/notifications''), (''Security'', ''/partner/settings/security''), (''Webhooks'', ''/partner/settings/webhooks'')])]]"

definition getNavConfigForRole :: "string \<Rightarrow> nav_config" where
  "getNavConfigForRole role =
     (if role = ''client'' then portalNavConfig
      else if role = ''partner'' then partnerNavConfig
      else dashboardNavConfig)"

section \<open>Flat and grouped items\<close>

record flat_item =
  fl_title :: string
  fl_href :: string
  fl_group :: string
  fl_tooltip :: "string option"
  fl_searchValue :: string
  fl_isSubItem :: bool

text \<open>\<open>[group.label, title, item.tooltip].filter(Boolean).join(" ")\<close>: an empty text is dropped
  like a missing one.\<close>

definition search_value :: "string \<Rightarrow> string \<Rightarrow> string option \<Rightarrow> string" where
  "search_value label title tooltip =
     join_with '' '' (filter (\<lambda>s. s \<noteq> []) [label, title, (case tooltip of None \<Rightarrow> [] | Some t \<Rightarrow> t)])"

definition item_allowed :: "string \<Rightarrow> nav_item \<Rightarrow> bool" where
  "item_allowed role item = (case i_roles item of None \<Rightarrow> True | Some rs \<Rightarrow> role \<in> set rs)"

definition flat_of_item :: "string \<Rightarrow> nav_item \<Rightarrow> flat_item list" where
  "flat_of_item label item =
     \<lparr> fl_title = i_title item, fl_href = i_href item, fl_group = label, fl_tooltip = i_tooltip item,
       fl_searchValue = search_value label (i_title item) (i_tooltip item), fl_isSubItem = False \<rparr>
     # (case i_subItems item of
          None \<Rightarrow> []
        | Some subs \<Rightarrow> map (\<lambda>(st, sh).
            let title = i_title item @ '' > '' @ st in
            \<lparr> fl_title = title, fl_href = sh, fl_group = label, fl_tooltip = i_tooltip item,
              fl_searchValue = search_value label title (i_tooltip item), fl_isSubItem = True \<rparr>) subs)"

definition getFlatNavItems :: "nav_config \<Rightarrow> string \<Rightarrow> flat_item list" where
  "getFlatNavItems cfg role =
     concat (map (\<lambda>g. concat (map (\<lambda>item. if item_allowed role item then flat_of_item (ng_label g) item else [])
       (ng_items g))) (nav_groups cfg))"

definition group_item :: "flat_item \<Rightarrow> (string \<times> flat_item list) list \<Rightarrow> (string \<times> flat_item list) list" where
  "group_item item grouped =
     (case map_of grouped (fl_group item) of
        None \<Rightarrow> grouped @ [(fl_group item, [item])]
      | Some xs \<Rightarrow> AList.update (fl_group item) (xs @ [item]) grouped)"

definition getGroupedNavItems :: "nav_config \<Rightarrow> string \<Rightarrow> (string \<times> flat_item list) list" where
  "getGroupedNavItems cfg role = fold group_item (getFlatNavItems cfg role) []"

section \<open>The side bar\<close>

text \<open>\<open>userRole\<close> is missing while no user is known.\<close>

definition visibleItems :: "string option \<Rightarrow> nav_group \<Rightarrow> nav_item list" where
  "visibleItems userRole g =
     filter (\<lambda>item. case i_roles item of None \<Rightarrow> True
               | Some rs \<Rightarrow> (case userRole of None \<Rightarrow> False | Some r \<Rightarrow> r \<noteq> [] \<and> r \<in> set rs)) (ng_items g)"

definition sidebar_groups :: "string option \<Rightarrow> nav_config \<Rightarrow> (string \<times> nav_item list) list" where
  "sidebar_groups userRole cfg =
     filter (\<lambda>(l, items). items \<noteq> []) (map (\<lambda>g. (ng_label g, visibleItems userRole g)) (nav_groups cfg))"

text \<open>The links of an item: an item with sub-items only opens its list, the sub-items are the
  links.\<close>

definition sidebar_links :: "nav_item \<Rightarrow> string list" where
  "sidebar_links item =
     (case i_subItems item of
        None \<Rightarrow> [i_href item]
      | Some subs \<Rightarrow> if subs = [] then [i_href item] else map snd subs)"

definition isActive :: "string \<Rightarrow> string \<Rightarrow> bool" where
  "isActive pathname href =
     (if href = ''/'' \<or> href = ''/partner'' then pathname = href else starts_with href pathname)"

definition subActive :: "string \<Rightarrow> nav_item \<Rightarrow> bool" where
  "subActive pathname item =
     (case i_subItems item of None \<Rightarrow> False | Some subs \<Rightarrow> list_ex (\<lambda>s. isActive pathname (snd s)) subs)"

definition entry_active :: "string \<Rightarrow> nav_item \<Rightarrow> bool" where
  "entry_active pathname item =
     (case i_subItems item of
        None \<Rightarrow> isActive pathname (i_href item)
      | Some subs \<Rightarrow> if subs = [] then isActive pathname (i_href item)
                     else isActive pathname (i_href item) \<or> subActive pathname item)"

definition isMessagesItem :: "nav_item \<Rightarrow> bool" where
  "isMessagesItem item = (i_title item = ''Messages'' \<or> str_includes ''/messages'' (i_href item))"

definition isSurveyItem :: "nav_item \<Rightarrow> bool" where
  "isSurveyItem item = (i_title item = ''Survey'' \<or> str_includes ''/survey'' (i_href item))"

text \<open>What a plain link shows beside its title: the unread count (capped), a survey dot, or
  nothing.\<close>

datatype nav_mark = NoMark | CountBadge string | SurveyDot

definition nav_mark_of :: "int \<Rightarrow> bool \<Rightarrow> nav_item \<Rightarrow> nav_mark" where
  "nav_mark_of unreadCount activeSurvey item =
     (let showMessagesBadge = isMessagesItem item \<and> unreadCount > 0;
          showSurveyDot = isSurveyItem item \<and> activeSurvey
      in if showMessagesBadge then CountBadge (if unreadCount > 9 then ''9+'' else int_text unreadCount)
         else if showSurveyDot then SurveyDot
         else NoMark)"

section \<open>The partner menu after onboarding\<close>

definition filteredPartnerNav :: "string option \<Rightarrow> nav_config" where
  "filteredPartnerNav current_stage =
     (if current_stage \<noteq> Some ''completed'' then partnerNavConfig
      else partnerNavConfig\<lparr> nav_groups :=
        map (\<lambda>g. g\<lparr> ng_items := filter (\<lambda>item. i_href item \<noteq> ''/partner/onboarding'') (ng_items g) \<rparr>)
          (nav_groups partnerNavConfig) \<rparr>)"

section \<open>Grouping\<close>

lemma group_item_lookup:
  "map_of (group_item item grouped) g
     = (if g = fl_group item then Some ((case map_of grouped g of None \<Rightarrow> [] | Some xs \<Rightarrow> xs) @ [item])
        else map_of grouped g)"
  by (auto simp: group_item_def update_conv' map_add_def split: option.splits)

lemma group_items_lookup:
  "map_of (fold group_item items grouped) g
     = (let mine = filter (\<lambda>i. fl_group i = g) items in
        if mine = [] then map_of grouped g
        else Some ((case map_of grouped g of None \<Rightarrow> [] | Some xs \<Rightarrow> xs) @ mine))"
proof (induction items arbitrary: grouped)
  case (Cons i rest)
  show ?case
    by (cases "map_of grouped g") (auto simp: Cons.IH group_item_lookup Let_def filter_empty_conv)
qed (simp add: Let_def)

text \<open>The palette's groups: under each label exactly the items of that label, in menu order, and
  no entry for a label without items.\<close>

theorem grouped_items:
  "map_of (getGroupedNavItems cfg role) label
     = (let mine = filter (\<lambda>i. fl_group i = label) (getFlatNavItems cfg role) in
        if mine = [] then None else Some mine)"
  by (simp add: getGroupedNavItems_def group_items_lookup Let_def)

section \<open>The configurations are well-formed\<close>

definition item_hrefs :: "nav_item \<Rightarrow> string list" where
  "item_hrefs item = i_href item # (case i_subItems item of None \<Rightarrow> [] | Some subs \<Rightarrow> map snd subs)"

definition nav_item_wf :: "nav_item \<Rightarrow> bool" where
  "nav_item_wf item =
     (i_title item \<noteq> [] \<and> starts_with ''/'' (i_href item) \<and>
      (case i_roles item of None \<Rightarrow> True
       | Some rs \<Rightarrow> rs \<noteq> [] \<and> distinct rs \<and> list_all (\<lambda>r. r \<in> set INTERNAL_ROLES) rs) \<and>
      (case i_subItems item of None \<Rightarrow> True
       | Some subs \<Rightarrow> subs \<noteq> [] \<and> list_all (\<lambda>s. starts_with (i_href item @ ''/'') (snd s)) subs))"

definition nav_config_wf :: "nav_config \<Rightarrow> bool" where
  "nav_config_wf cfg =
     (distinct (map ng_label (nav_groups cfg)) \<and>
      distinct (concat (map (\<lambda>g. concat (map item_hrefs (ng_items g))) (nav_groups cfg))) \<and>
      list_all (\<lambda>g. ng_items g \<noteq> [] \<and> list_all nav_item_wf (ng_items g)) (nav_groups cfg))"

lemma dashboard_wf: "nav_config_wf dashboardNavConfig"
  by code_simp

lemma portal_wf: "nav_config_wf portalNavConfig"
  by code_simp

lemma partner_wf: "nav_config_wf partnerNavConfig"
  by code_simp

lemma flat_of_item_hrefs: "map fl_href (flat_of_item l item) = item_hrefs item"
  by (auto simp: flat_of_item_def item_hrefs_def Let_def comp_def case_prod_unfold split: option.splits)

lemma distinct_concat_subset:
  assumes "distinct (concat (map f xs))" "\<And>x. set (g x) \<subseteq> set (f x)" "\<And>x. distinct (f x) \<Longrightarrow> distinct (g x)"
  shows "distinct (concat (map g xs))"
  using assms(1)
proof (induction xs)
  case (Cons x xs)
  have "set (concat (map g xs)) \<subseteq> set (concat (map f xs))" using assms(2) by fastforce
  then have "set (g x) \<inter> set (concat (map g xs)) = {}"
    using Cons.prems assms(2) [of x] by fastforce
  with Cons show ?case using assms(3) by simp
qed simp

lemma flat_hrefs_distinct:
  assumes "nav_config_wf cfg"
  shows "distinct (map fl_href (getFlatNavItems cfg role))"
proof -
  define g :: "nav_group \<Rightarrow> string list"
    where "g = (\<lambda>gr. concat (map (\<lambda>item. if item_allowed role item then item_hrefs item else []) (ng_items gr)))"
  have "map fl_href (getFlatNavItems cfg role) = concat (map g (nav_groups cfg))"
    by (simp add: getFlatNavItems_def map_concat comp_def g_def if_distrib flat_of_item_hrefs cong: if_cong)
  moreover have "distinct (concat (map g (nav_groups cfg)))"
  proof (rule distinct_concat_subset [where f = "\<lambda>g. concat (map item_hrefs (ng_items g))"])
    show "distinct (concat (map (\<lambda>g. concat (map item_hrefs (ng_items g))) (nav_groups cfg)))"
      using assms by (simp add: nav_config_wf_def)
    show "set (g x) \<subseteq> set (concat (map item_hrefs (ng_items x)))" for x by (auto simp: g_def split: if_splits)
    show "distinct (concat (map item_hrefs (ng_items x))) \<Longrightarrow> distinct (g x)" for x
      unfolding g_def by (erule distinct_concat_subset) auto
  qed
  ultimately show ?thesis by simp
qed

lemma role_config_wf: "nav_config_wf (getNavConfigForRole role)"
  by (simp add: getNavConfigForRole_def dashboard_wf portal_wf partner_wf)

text \<open>The values of the menus are well typed beyond what the source's \<open>string\<close> types say: role
  lists name internal roles only, sub-menus extend their parent's path, and no user gets
  the same page twice.\<close>

theorem menus_well_typed:
  "nav_config_wf (getNavConfigForRole role) \<and>
   distinct (map fl_href (getFlatNavItems (getNavConfigForRole role) role))"
  by (simp add: role_config_wf flat_hrefs_distinct)

section \<open>Side bar and palette\<close>

text \<open>The parents of sub-menus, which the side bar unfolds instead of linking.\<close>

definition menu_items :: "nav_config \<Rightarrow> nav_item list" where
  "menu_items cfg = concat (map ng_items (nav_groups cfg))"

definition parent_hrefs :: "nav_config \<Rightarrow> string list" where
  "parent_hrefs cfg =
     map i_href (filter (\<lambda>item. i_subItems item \<noteq> None \<and> i_subItems item \<noteq> Some []) (menu_items cfg))"

lemma concat_filter_nonempty: "concat (map f (filter (\<lambda>x. g x \<noteq> []) xs)) = concat (map f xs)"
  if "\<And>x. g x = [] \<Longrightarrow> f x = []"
  using that by (induction xs) auto

lemma concat_map_filter: "concat (map (\<lambda>x. if p x then f x else []) xs) = concat (map f (filter p xs))"
  by (induction xs) auto

lemma visible_allowed: "role \<noteq> [] \<Longrightarrow> visibleItems (Some role) g = filter (item_allowed role) (ng_items g)"
  by (auto simp: visibleItems_def item_allowed_def split: option.splits intro!: filter_cong)

lemma concat_map_concat: "concat (map f (concat (map h gs))) = concat (map (\<lambda>g. concat (map f (h g))) gs)"
  by (induction gs) simp_all

lemma distinct_concat_unique:
  assumes "distinct (concat (map f xs))" "x \<in> set xs" "y \<in> set xs" "z \<in> set (f x)" "z \<in> set (f y)"
  shows "x = y"
  using assms by (induction xs) auto

lemma wf_item_unique:
  assumes "nav_config_wf cfg" "a \<in> set (menu_items cfg)" "b \<in> set (menu_items cfg)"
    "z \<in> set (item_hrefs a)" "z \<in> set (item_hrefs b)"
  shows "a = b"
proof -
  have "concat (map item_hrefs (menu_items cfg))
      = concat (map (\<lambda>g. concat (map item_hrefs (ng_items g))) (nav_groups cfg))"
    unfolding menu_items_def by (rule concat_map_concat)
  then have "distinct (concat (map item_hrefs (menu_items cfg)))"
    using assms(1) by (simp add: nav_config_wf_def)
  then show ?thesis using distinct_concat_unique assms(2-5) by metis
qed

lemma wf_item_distinct:
  assumes "nav_config_wf cfg" "a \<in> set (menu_items cfg)"
  shows "distinct (item_hrefs a)"
proof -
  from assms(2) obtain g where "g \<in> set (nav_groups cfg)" "a \<in> set (ng_items g)" by (auto simp: menu_items_def)
  with assms(1) show ?thesis by (auto simp: nav_config_wf_def distinct_concat_iff)
qed

text \<open>Of an item of the menu, the palette entries that are no parents are its side bar links.\<close>

lemma item_links:
  assumes "nav_config_wf cfg" "item \<in> set (menu_items cfg)"
  shows "map fl_href (filter (\<lambda>f. fl_href f \<notin> set (parent_hrefs cfg)) (flat_of_item l item)) = sidebar_links item"
proof -
  let ?p = "i_subItems item \<noteq> None \<and> i_subItems item \<noteq> Some []"
  have self: "i_href x \<in> set (item_hrefs x)" for x by (simp add: item_hrefs_def)
  have parent: "z \<in> set (parent_hrefs cfg) \<longleftrightarrow> ?p \<and> z = i_href item" if "z \<in> set (item_hrefs item)" for z
    using wf_item_unique [OF assms(1) _ assms(2) self] that assms(2) by (auto simp: parent_hrefs_def)
  have "map fl_href (filter (\<lambda>f. fl_href f \<notin> set (parent_hrefs cfg)) (flat_of_item l item))
      = filter (\<lambda>z. z \<notin> set (parent_hrefs cfg)) (item_hrefs item)"
    by (subst flat_of_item_hrefs [of l, symmetric]) (simp add: filter_map comp_def)
  also have "\<dots> = filter (\<lambda>z. \<not> (?p \<and> z = i_href item)) (item_hrefs item)"
    using parent by (intro filter_cong) auto
  also have "\<dots> = sidebar_links item"
    using wf_item_distinct [OF assms]
    by (auto simp: item_hrefs_def sidebar_links_def filter_id_conv split: option.splits) (metis image_eqI snd_conv)
  finally show ?thesis .
qed

text \<open>Whatever the role, the links of the side bar are, in the same order, the pages the palette
  offers without the parents of sub-menus: the two filters of the source agree.\<close>

theorem sidebar_matches_palette:
  assumes "role \<noteq> []"
  shows "concat (map (\<lambda>(l, items). concat (map sidebar_links items))
      (sidebar_groups (Some role) (getNavConfigForRole role)))
    = map fl_href (filter (\<lambda>f. fl_href f \<notin> set (parent_hrefs (getNavConfigForRole role)))
        (getFlatNavItems (getNavConfigForRole role) role))"
proof -
  define cfg where "cfg = getNavConfigForRole role"
  have wf: "nav_config_wf cfg" by (simp add: cfg_def role_config_wf)
  let ?f = "\<lambda>(l, items). concat (map sidebar_links items)"
  let ?keep = "\<lambda>f. fl_href f \<notin> set (parent_hrefs cfg)"
  have links: "map fl_href (filter ?keep (flat_of_item l item)) = sidebar_links item"
    if "g \<in> set (nav_groups cfg)" "item \<in> set (ng_items g)" for g item l
    using item_links [OF wf, of item l] that by (auto simp: menu_items_def)
  have "concat (map ?f (sidebar_groups (Some role) cfg))
      = concat (map ?f (map (\<lambda>g. (ng_label g, visibleItems (Some role) g)) (nav_groups cfg)))"
    unfolding sidebar_groups_def case_prod_unfold by (rule concat_filter_nonempty) simp
  also have "\<dots> = concat (map (\<lambda>g. concat (map (\<lambda>item. if item_allowed role item then
      map fl_href (filter ?keep (flat_of_item (ng_label g) item)) else []) (ng_items g))) (nav_groups cfg))"
    using links
    by (intro arg_cong [where f = concat])
       (auto simp: comp_def visible_allowed [OF assms] concat_map_filter intro!: arg_cong [where f = concat])
  also have "\<dots> = map fl_href (filter ?keep (getFlatNavItems cfg role))"
    by (simp add: getFlatNavItems_def filter_concat map_concat comp_def if_distrib cong: if_cong)
  finally show ?thesis by (simp add: cfg_def)
qed

lemma sidebar_matches_palette_witness:
  "concat (map (\<lambda>(l, items). concat (map sidebar_links items))
      (sidebar_groups (Some ''client'') (getNavConfigForRole ''client'')))
    = map fl_href (filter (\<lambda>f. fl_href f \<notin> set (parent_hrefs (getNavConfigForRole ''client'')))
        (getFlatNavItems (getNavConfigForRole ''client'') ''client''))"
  using sidebar_matches_palette [of "''client''"] by simp

text \<open>A page below another menu page lights both entries.\<close>

lemma two_entries_active:
  "map i_href (filter (entry_active ''/settings/security'')
     (concat (map ng_items (nav_groups dashboardNavConfig)))) = [''/settings'', ''/settings/security'']"
  by code_simp

end
