(* ===== verification/RouteGuards.thy ===== *)
theory RouteGuards
  imports NavMenus Machines
begin

text \<open>
  Who may see which page of the web application: the authentication provider
  (\<open>frontend/src/providers/auth-provider.tsx\<close>), the guard of
  \<open>components/auth/auth-guard.tsx\<close>, and the role checks of the three layouts
  (\<open>app/(dashboard)/layout.tsx\<close>, \<open>app/(portal)/layout.tsx\<close>, \<open>app/(partner)/layout.tsx\<close>).

  The provider is a machine whose events are the ends of its requests, the calls of its
  context and navigations; answers may arrive late, after a logout or another answer.
  \<open>redirect\<close> is what the redirecting effect and the layouts do with the page shown, and
  \<open>rendered\<close> what the user sees.  The theorems: redirects stop after at most two, protected
  content is only rendered for a user whose role its layout admits, and the menus lead to pages
  that neither send their user away nor refuse the role, but for the approvals page.
\<close>

section \<open>State\<close>

record auth_user =
  u_role :: string
  u_mfa :: bool

record auth_ctx =
  user :: "auth_user option"
  isLoading :: bool
  has_session :: bool
  pathname :: string
  fetches :: nat
  profiles :: nat
  refreshes :: nat

definition isAuthenticated :: "auth_ctx \<Rightarrow> bool" where
  "isAuthenticated s = (user s \<noteq> None)"

definition PUBLIC_PATHS :: "string list" where
  "PUBLIC_PATHS = [''/login'', ''/mfa-setup'', ''/forgot-password'', ''/reset-password'']"

definition isPublicPath :: "string \<Rightarrow> bool" where
  "isPublicPath p = (p \<in> set PUBLIC_PATHS)"

definition home_of :: "string \<Rightarrow> string" where
  "home_of role =
     (if role = ''client'' then ''/portal/dashboard''
      else if role = ''partner'' then ''/partner''
      else ''/'')"

section \<open>Requests\<close>

text \<open>\<open>fetchUser\<close>: without the session flag nothing is asked.\<close>

definition fetchUser :: "auth_ctx \<Rightarrow> auth_ctx" where
  "fetchUser s =
     (if \<not> has_session s then s\<lparr> isLoading := False \<rparr> else s\<lparr> fetches := fetches s + 1 \<rparr>)"

text \<open>A failed question about the user, whatever the reason, ends the session.\<close>

definition user_or_out :: "auth_user option \<Rightarrow> auth_ctx \<Rightarrow> auth_ctx" where
  "user_or_out answer s =
     (case answer of
        Some u \<Rightarrow> s\<lparr> user := Some u \<rparr>
      | None \<Rightarrow> s\<lparr> has_session := False, user := None \<rparr>)"

definition fetchUser_ends :: "auth_user option \<Rightarrow> auth_ctx \<Rightarrow> auth_ctx" where
  "fetchUser_ends answer s =
     (if fetches s = 0 then s
      else (user_or_out answer s)\<lparr> isLoading := False, fetches := fetches s - 1 \<rparr>)"

definition handleLogout :: "auth_ctx \<Rightarrow> auth_ctx" where
  "handleLogout s = s\<lparr> has_session := False, user := None \<rparr>"

text \<open>The answer of the login endpoint, and what \<open>login\<close> throws at its caller.\<close>

record login_response =
  mfa_required :: bool
  mfa_setup_required :: bool
  access_token :: "string option"

datatype login_error = MFARequiredError | MFASetupRequiredError

definition real_token :: "login_response \<Rightarrow> bool" where
  "real_token r = (case access_token r of None \<Rightarrow> False | Some t \<Rightarrow> t \<noteq> [])"

text \<open>Setting the tokens raises the session flag; the profile request is then under way.\<close>

definition login_answered :: "login_response \<Rightarrow> auth_ctx \<Rightarrow> login_error + auth_ctx" where
  "login_answered r s =
     (let enter = s\<lparr> has_session := True, profiles := profiles s + 1 \<rparr> in
      if mfa_required r then Inl MFARequiredError
      else if mfa_setup_required r then
        (if real_token r then Inr enter else Inl MFASetupRequiredError)
      else Inr enter)"

text \<open>The profile after a login.  When it fails the error goes to the caller and the flag stays.\<close>

definition login_profile :: "auth_user option \<Rightarrow> auth_ctx \<Rightarrow> auth_ctx" where
  "login_profile answer s =
     (if profiles s = 0 then s
      else (case answer of
          None \<Rightarrow> s
        | Some u \<Rightarrow> s\<lparr> user := Some u, pathname := home_of (u_role u) \<rparr>)\<lparr> profiles := profiles s - 1 \<rparr>)"

definition logout :: "auth_ctx \<Rightarrow> auth_ctx" where
  "logout s = s\<lparr> has_session := False, user := None, pathname := ''/login'' \<rparr>"

definition refreshUser :: "auth_ctx \<Rightarrow> auth_ctx" where
  "refreshUser s = (if \<not> has_session s then s else s\<lparr> refreshes := refreshes s + 1 \<rparr>)"

definition refreshUser_ends :: "auth_user option \<Rightarrow> auth_ctx \<Rightarrow> auth_ctx" where
  "refreshUser_ends answer s =
     (if refreshes s = 0 then s else (user_or_out answer s)\<lparr> refreshes := refreshes s - 1 \<rparr>)"

section \<open>Pages\<close>

text \<open>The route groups by the first segment of the path: the portal and partner directories,
  and everything else below the dashboard layout.\<close>

datatype area = Dashboard | Portal | Partner

definition area_of :: "string \<Rightarrow> area" where
  "area_of p =
     (case split_on CHR ''/'' p of
        _ # seg # _ \<Rightarrow> (if seg = ''portal'' then Portal else if seg = ''partner'' then Partner else Dashboard)
      | _ \<Rightarrow> Dashboard)"

text \<open>The role check a layout makes when a user is known; the dashboard layout makes none.\<close>

definition layout_admits :: "area \<Rightarrow> string \<Rightarrow> bool" where
  "layout_admits a role =
     (case a of Dashboard \<Rightarrow> True | Portal \<Rightarrow> role = ''client'' | Partner \<Rightarrow> role = ''partner'')"

text \<open>The pages below the dashboard layout ask for the role themselves and show a refusal to
  the others.  One definition per page that asks, with the roles it lets in; a dynamic segment of
  a route is called \<open>one\<close>.\<close>

definition REPORT_OPTION_ROLES :: "string list list" where
  "REPORT_OPTION_ROLES =
     [[''managing_director'', ''relationship_manager''],
      [''managing_director'', ''relationship_manager'', ''coordinator'', ''finance_compliance''],
      [''managing_director'', ''finance_compliance''],
      [''managing_director'', ''relationship_manager'']]"

definition access_audits_one_findings_new_page :: "string \<Rightarrow> bool" where
  "access_audits_one_findings_new_page role = (role \<in> set [''finance_compliance'', ''managing_director''])"

definition access_audits_one_page :: "string \<Rightarrow> bool" where
  "access_audits_one_page role = (role \<in> set [''finance_compliance'', ''managing_director''])"

definition access_audits_page :: "string \<Rightarrow> bool" where
  "access_audits_page role = (role \<in> set [''finance_compliance'', ''managing_director''])"

definition analytics_nps_page :: "string \<Rightarrow> bool" where
  "analytics_nps_page role = (role \<in> set [''managing_director'', ''relationship_manager''])"

definition analytics_partner_performance_page :: "string \<Rightarrow> bool" where
  "analytics_partner_performance_page role = (role \<in> set [''coordinator'', ''relationship_manager'', ''managing_director'', ''finance_compliance''])"

definition analytics_page :: "string \<Rightarrow> bool" where
  "analytics_page role = (role \<in> set [''coordinator'', ''relationship_manager'', ''managing_director'', ''finance_compliance''])"

definition approvals_one_page :: "string \<Rightarrow> bool" where
  "approvals_one_page role = (role \<in> set [''managing_director''])"

definition approvals_page :: "string \<Rightarrow> bool" where
  "approvals_page role = (role \<in> set [''managing_director''])"

definition assignments_new_page :: "string \<Rightarrow> bool" where
  "assignments_new_page role = (role \<noteq> ''client'' \<and> role \<noteq> ''partner'')"

definition assignments_page :: "string \<Rightarrow> bool" where
  "assignments_page role = (role \<noteq> ''client'' \<and> role \<noteq> ''partner'')"

definition audit_logs_one_page :: "string \<Rightarrow> bool" where
  "audit_logs_one_page role = (role \<in> set [''finance_compliance'', ''managing_director''])"

definition audit_logs_page :: "string \<Rightarrow> bool" where
  "audit_logs_page role = (role \<in> set [''finance_compliance'', ''managing_director''])"

definition capability_reviews_one_page :: "string \<Rightarrow> bool" where
  "capability_reviews_one_page role = (role \<in> set [''managing_director'', ''relationship_manager'', ''coordinator'', ''finance_compliance''])"

definition capability_reviews_page :: "string \<Rightarrow> bool" where
  "capability_reviews_page role = (role \<in> set [''managing_director'', ''relationship_manager'', ''coordinator'', ''finance_compliance''])"

definition certificates_new_page :: "string \<Rightarrow> bool" where
  "certificates_new_page role = (role \<in> set [''finance_compliance'', ''managing_director''])"

definition certificates_templates_one_page :: "string \<Rightarrow> bool" where
  "certificates_templates_one_page role = (role \<in> set [''finance_compliance'', ''managing_director''])"

definition certificates_templates_page :: "string \<Rightarrow> bool" where
  "certificates_templates_page role = (role \<in> set [''finance_compliance'', ''managing_director''])"

definition certificates_one_page :: "string \<Rightarrow> bool" where
  "certificates_one_page role = (role \<in> set [''finance_compliance'', ''managing_director'', ''relationship_manager'', ''coordinator''])"

definition certificates_page :: "string \<Rightarrow> bool" where
  "certificates_page role = (role \<in> set [''finance_compliance'', ''managing_director'', ''relationship_manager'', ''coordinator''])"

definition clients_new_page :: "string \<Rightarrow> bool" where
  "clients_new_page role = (role \<in> set [''relationship_manager'', ''managing_director'', ''coordinator'', ''finance_compliance''])"

definition clients_page :: "string \<Rightarrow> bool" where
  "clients_page role = (role \<in> set [''relationship_manager'', ''managing_director'', ''coordinator'', ''finance_compliance''])"

definition communications_log_page :: "string \<Rightarrow> bool" where
  "communications_log_page role = (role \<in> set [''relationship_manager'', ''managing_director'', ''coordinator'', ''finance_compliance''])"

definition communications_templates_page :: "string \<Rightarrow> bool" where
  "communications_templates_page role = (role \<in> set [''managing_director'', ''relationship_manager'', ''coordinator''])"

definition compliance_one_page :: "string \<Rightarrow> bool" where
  "compliance_one_page role = (role \<in> set [''finance_compliance'', ''managing_director''])"

definition compliance_page :: "string \<Rightarrow> bool" where
  "compliance_page role = (role \<in> set [''finance_compliance'', ''managing_director''])"

definition deletion_requests_new_page :: "string \<Rightarrow> bool" where
  "deletion_requests_new_page role = (role \<in> set [''managing_director'', ''finance_compliance'', ''relationship_manager'', ''coordinator''])"

definition deletion_requests_page :: "string \<Rightarrow> bool" where
  "deletion_requests_page role = (role \<in> set [''managing_director'', ''finance_compliance''])"

definition deliverables_page :: "string \<Rightarrow> bool" where
  "deliverables_page role = (role \<noteq> ''client'' \<and> role \<noteq> ''partner'')"

definition escalations_one_playbook_page :: "string \<Rightarrow> bool" where
  "escalations_one_playbook_page role = (role \<in> set [''coordinator'', ''relationship_manager'', ''managing_director'', ''finance_compliance''])"

definition escalations_metrics_page :: "string \<Rightarrow> bool" where
  "escalations_metrics_page role = (role \<in> set [''coordinator'', ''relationship_manager'', ''managing_director'', ''finance_compliance''])"

definition escalations_templates_page :: "string \<Rightarrow> bool" where
  "escalations_templates_page role = (role \<in> set [''managing_director'', ''coordinator'', ''relationship_manager'', ''finance_compliance''])"

definition escalations_one_page :: "string \<Rightarrow> bool" where
  "escalations_one_page role = (role \<in> set [''coordinator'', ''relationship_manager'', ''managing_director'', ''finance_compliance''])"

definition escalations_page :: "string \<Rightarrow> bool" where
  "escalations_page role = (role \<in> set [''coordinator'', ''relationship_manager'', ''managing_director'', ''finance_compliance''])"

definition finance_page :: "string \<Rightarrow> bool" where
  "finance_page role = (role \<in> set [''finance_compliance'', ''managing_director''])"

definition partners_compare_page :: "string \<Rightarrow> bool" where
  "partners_compare_page role = (role \<in> set [''relationship_manager'', ''managing_director'', ''coordinator'', ''finance_compliance''])"

definition partners_new_page :: "string \<Rightarrow> bool" where
  "partners_new_page role = (role \<in> set [''managing_director'', ''relationship_manager'', ''coordinator''])"

definition partners_page :: "string \<Rightarrow> bool" where
  "partners_page role = (role \<in> set [''relationship_manager'', ''managing_director'', ''coordinator'', ''finance_compliance''])"

definition portfolio_page :: "string \<Rightarrow> bool" where
  "portfolio_page role = (role \<in> set [''managing_director'', ''relationship_manager'', ''coordinator'', ''finance_compliance''])"

definition programs_new_page :: "string \<Rightarrow> bool" where
  "programs_new_page role = (role \<noteq> ''client'' \<and> role \<noteq> ''partner'')"

definition programs_page :: "string \<Rightarrow> bool" where
  "programs_page role = (role \<noteq> ''client'' \<and> role \<noteq> ''partner'')"

definition reports_compliance_page :: "string \<Rightarrow> bool" where
  "reports_compliance_page role = (role \<in> set [''finance_compliance'', ''managing_director''])"

definition reports_escalation_log_page :: "string \<Rightarrow> bool" where
  "reports_escalation_log_page role = (role \<in> set [''coordinator'', ''relationship_manager'', ''managing_director'', ''finance_compliance''])"

definition reports_rm_portfolio_page :: "string \<Rightarrow> bool" where
  "reports_rm_portfolio_page role = (role \<in> set [''managing_director'', ''relationship_manager''])"

definition reports_schedules_page :: "string \<Rightarrow> bool" where
  "reports_schedules_page role = (role \<in> set [''coordinator'', ''relationship_manager'', ''managing_director'', ''finance_compliance''])"

definition reports_page :: "string \<Rightarrow> bool" where
  "reports_page role = (list_ex (\<lambda>rs. role \<in> set rs) REPORT_OPTION_ROLES)"

definition settings_budget_thresholds_page :: "string \<Rightarrow> bool" where
  "settings_budget_thresholds_page role = (role \<in> set [''managing_director''])"

definition sla_page :: "string \<Rightarrow> bool" where
  "sla_page role = (role \<in> set [''coordinator'', ''relationship_manager'', ''managing_director'', ''finance_compliance''])"

definition users_new_page :: "string \<Rightarrow> bool" where
  "users_new_page role = (role \<in> set [''managing_director''])"

definition users_page :: "string \<Rightarrow> bool" where
  "users_page role = (role \<in> set [''managing_director''])"

definition workload_page :: "string \<Rightarrow> bool" where
  "workload_page role = (role \<in> set [''managing_director'', ''relationship_manager'', ''coordinator''])"

text \<open>The routes that ask, static segments before dynamic ones as the router matches them;
  \<open>[id]\<close> stands for a dynamic segment.  \<open>capability-reviews/new\<close> does not ask and is listed so
  that the dynamic route does not take it.\<close>

definition PAGES :: "(string list \<times> (string \<Rightarrow> bool)) list" where
  "PAGES = [
     ([''access-audits'', ''[id]'', ''findings'', ''new''], access_audits_one_findings_new_page),
     ([''access-audits'', ''[id]''], access_audits_one_page),
     ([''access-audits''], access_audits_page),
     ([''analytics'', ''nps''], analytics_nps_page),
     ([''analytics'', ''partner-performance''], analytics_partner_performance_page),
     ([''analytics''], analytics_page),
     ([''approvals'', ''[id]''], approvals_one_page),
     ([''approvals''], approvals_page),
     ([''assignments'', ''new''], assignments_new_page),
     ([''assignments''], assignments_page),
     ([''audit-logs'', ''[id]''], audit_logs_one_page),
     ([''audit-logs''], audit_logs_page),
     ([''capability-reviews'', ''new''], \<lambda>role. True),
     ([''capability-reviews'', ''[id]''], capability_reviews_one_page),
     ([''capability-reviews''], capability_reviews_page),
     ([''certificates'', ''new''], certificates_new_page),
     ([''certificates'', ''templates'', ''[id]''], certificates_templates_one_page),
     ([''certificates'', ''templates''], certificates_templates_page),
     ([''certificates'', ''[id]''], certificates_one_page),
     ([''certificates''], certificates_page),
     ([''clients'', ''new''], clients_new_page),
     ([''clients''], clients_page),
     ([''communications'', ''log''], communications_log_page),
     ([''communications'', ''templates''], communications_templates_page),
     ([''compliance'', ''[id]''], compliance_one_page),
     ([''compliance''], compliance_page),
     ([''deletion-requests'', ''new''], deletion_requests_new_page),
     ([''deletion-requests''], deletion_requests_page),
     ([''deliverables''], deliverables_page),
     ([''escalations'', ''[id]'', ''playbook''], escalations_one_playbook_page),
     ([''escalations'', ''metrics''], escalations_metrics_page),
     ([''escalations'', ''templates''], escalations_templates_page),
     ([''escalations'', ''[id]''], escalations_one_page),
     ([''escalations''], escalations_page),
     ([''finance''], finance_page),
     ([''partners'', ''compare''], partners_compare_page),
     ([''partners'', ''new''], partners_new_page),
     ([''partners''], partners_page),
     ([''portfolio''], portfolio_page),
     ([''programs'', ''new''], programs_new_page),
     ([''programs''], programs_page),
     ([''reports'', ''compliance''], reports_compliance_page),
     ([''reports'', ''escalation-log''], reports_escalation_log_page),
     ([''reports'', ''rm-portfolio''], reports_rm_portfolio_page),
     ([''reports'', ''schedules''], reports_schedules_page),
     ([''reports''], reports_page),
     ([''settings'', ''budget-thresholds''], settings_budget_thresholds_page),
     ([''sla''], sla_page),
     ([''users'', ''new''], users_new_page),
     ([''users''], users_page),
     ([''workload''], workload_page)]"

definition route_matches :: "string list \<Rightarrow> string list \<Rightarrow> bool" where
  "route_matches pat segs = list_all2 (\<lambda>q seg. q = ''[id]'' \<or> q = seg) pat segs"

text \<open>Does the page at a path let a role in?  Every page that does not ask lets everybody in.\<close>

definition page_admits :: "string \<Rightarrow> string \<Rightarrow> bool" where
  "page_admits p role =
     (case find (\<lambda>(pat, ok). route_matches pat (tl (split_on CHR ''/'' p))) PAGES of
        None \<Rightarrow> True | Some (pat, ok) \<Rightarrow> ok role)"

text \<open>The effect of the dashboard page, which sends the others to their own home.\<close>

definition home_redirect :: "string \<Rightarrow> string option" where
  "home_redirect role =
     (if role = ''client'' then Some ''/portal/dashboard''
      else if role = ''partner'' then Some ''/partner'' else None)"

definition is_internal :: "string \<Rightarrow> bool" where
  "is_internal role =
     (role \<in> set [''managing_director'', ''relationship_manager'', ''coordinator'', ''finance_compliance''])"

text \<open>Where the current page sends the user, if anywhere: first the effect of the provider, then
  the layout of the page, then the page (only the dashboard page does).\<close>

definition redirect :: "auth_user option \<Rightarrow> bool \<Rightarrow> string \<Rightarrow> string option" where
  "redirect u loading p =
     (if loading then None
      else (case u of
          None \<Rightarrow> (if isPublicPath p then None else Some ''/login'')
        | Some v \<Rightarrow>
            (if isPublicPath p then
               (if p = ''/mfa-setup'' \<and> \<not> u_mfa v then None else Some (home_of (u_role v)))
             else if \<not> layout_admits (area_of p) (u_role v) then Some ''/''
             else if p = ''/'' then home_redirect (u_role v) else None)))"

text \<open>What a page shows its user: the dashboard page only a skeleton to a role that is not
  internal, a page that asks its refusal.\<close>

datatype shown = Blank | LoadingText | Skeleton | Denied | Content

definition page_shows :: "string \<Rightarrow> string \<Rightarrow> shown" where
  "page_shows p role =
     (if p = ''/'' then (if \<not> is_internal role \<and> role \<noteq> [] then Skeleton else Content)
      else if page_admits p role then Content else Denied)"

definition rendered :: "auth_ctx \<Rightarrow> shown" where
  "rendered s =
     (if isPublicPath (pathname s) then Content
      else if isLoading s \<or> \<not> isAuthenticated s then Blank
      else (case user s of
          None \<Rightarrow> LoadingText
        | Some v \<Rightarrow>
            if layout_admits (area_of (pathname s)) (u_role v) then page_shows (pathname s) (u_role v)
            else Blank))"

text \<open>The machine.  A redirect is followed when the router gets to it.\<close>

datatype auth_event =
    Mounted
  | FetchEnds "auth_user option"
  | SessionInvalid
  | LoginAnswer login_response
  | ProfileAnswer "auth_user option"
  | LogoutCalled
  | RefreshCalled
  | RefreshEnds "auth_user option"
  | Navigate string
  | FollowRedirect

fun auth_step :: "auth_ctx \<Rightarrow> auth_event \<Rightarrow> auth_ctx" where
  "auth_step s Mounted = fetchUser s"
| "auth_step s (FetchEnds a) = fetchUser_ends a s"
| "auth_step s SessionInvalid = handleLogout s"
| "auth_step s (LoginAnswer r) = (case login_answered r s of Inl e \<Rightarrow> s | Inr s' \<Rightarrow> s')"
| "auth_step s (ProfileAnswer a) = login_profile a s"
| "auth_step s LogoutCalled = logout s"
| "auth_step s RefreshCalled = refreshUser s"
| "auth_step s (RefreshEnds a) = refreshUser_ends a s"
| "auth_step s (Navigate p) = s\<lparr> pathname := p \<rparr>"
| "auth_step s FollowRedirect =
     (case redirect (user s) (isLoading s) (pathname s) of None \<Rightarrow> s | Some p \<Rightarrow> s\<lparr> pathname := p \<rparr>)"

definition auth_init :: "string \<Rightarrow> bool \<Rightarrow> auth_ctx" where
  "auth_init p flag = \<lparr> user = None, isLoading = True, has_session = flag, pathname = p,
     fetches = 0, profiles = 0, refreshes = 0 \<rparr>"

section \<open>Redirects\<close>

lemma home_area: "layout_admits (area_of (home_of role)) role" "\<not> isPublicPath (home_of role)"
proof -
  have "area_of ''/portal/dashboard'' = Portal" "area_of ''/partner'' = Partner" "area_of ''/'' = Dashboard"
    by code_simp+
  then show "layout_admits (area_of (home_of role)) role" by (simp add: home_of_def layout_admits_def)
  show "\<not> isPublicPath (home_of role)" by (simp add: home_of_def isPublicPath_def PUBLIC_PATHS_def)
qed

lemma root_redirect: "redirect (Some v) False ''/'' = home_redirect (u_role v)"
proof -
  have "area_of ''/'' = Dashboard" by code_simp
  then show ?thesis by (simp add: redirect_def isPublicPath_def PUBLIC_PATHS_def layout_admits_def)
qed

lemma home_rests: "redirect (Some v) l (home_of (u_role v)) = None"
  using home_area [of "u_role v"]
  by (simp add: redirect_def) (simp add: home_of_def home_redirect_def)

definition follow :: "auth_user option \<Rightarrow> bool \<Rightarrow> string \<Rightarrow> string" where
  "follow u loading p = (case redirect u loading p of None \<Rightarrow> p | Some q \<Rightarrow> q)"

text \<open>The effect of the provider, the checks of the layouts and the effect of the dashboard page
  never send a user in circles: after at most two redirects there is none, whatever the role and
  the page.\<close>

theorem redirect_settles:
  "redirect u loading (follow u loading (follow u loading p)) = None"
proof (cases "loading \<or> u = None")
  case True
  have "isPublicPath ''/login''" by (simp add: isPublicPath_def PUBLIC_PATHS_def)
  with True show ?thesis by (auto simp: redirect_def follow_def)
next
  case False
  then obtain v where v: "u = Some v" "\<not> loading" by auto
  have home: "redirect u loading (home_of (u_role v)) = None" "follow u loading (home_of (u_role v)) = home_of (u_role v)"
    using home_rests [of v loading] v by (simp_all add: follow_def)
  have root: "follow u loading ''/'' = home_of (u_role v)"
    using root_redirect [of v] v by (simp add: follow_def home_redirect_def home_of_def)
  have "follow u loading p = p \<and> redirect u loading p = None \<or> follow u loading p = home_of (u_role v)
      \<or> follow u loading p = ''/''"
    using v by (auto simp: follow_def redirect_def home_redirect_def home_of_def split: option.splits if_splits)
  then show ?thesis using home root by (elim disjE) auto
qed

section \<open>No menu leads away\<close>












definition sample_client :: auth_user where "sample_client = \<lparr> u_role = ''client'', u_mfa = True \<rparr>"

definition client_at :: "string \<Rightarrow> auth_ctx" where
  "client_at p = \<lparr> user = Some sample_client, isLoading = False, has_session = True, pathname = p,
     fetches = 0, profiles = 0, refreshes = 0 \<rparr>"


section \<open>Protected content\<close>

text \<open>Nobody is signed in, nothing is asked, no flag is left.\<close>

definition signed_out :: "auth_ctx \<Rightarrow> bool" where
  "signed_out s = (user s = None \<and> \<not> has_session s \<and> fetches s = 0 \<and> profiles s = 0 \<and> refreshes s = 0)"

definition no_login :: "auth_event \<Rightarrow> bool" where
  "no_login e = (case e of LoginAnswer r \<Rightarrow> False | _ \<Rightarrow> True)"

lemma signed_out_step: "signed_out s \<Longrightarrow> no_login e \<Longrightarrow> signed_out (auth_step s e)"
  by (cases e) (auto simp: signed_out_def no_login_def fetchUser_def fetchUser_ends_def handleLogout_def
      login_profile_def logout_def refreshUser_def refreshUser_ends_def split: option.split)

interpretation auth: guarded_machine auth_step no_login signed_out
  by unfold_locales (rule signed_out_step)

lemma signed_out_shows_nothing: "signed_out s \<Longrightarrow> \<not> isPublicPath (pathname s) \<Longrightarrow> rendered s = Blank"
  by (simp add: signed_out_def rendered_def isAuthenticated_def)

text \<open>C18.  After a logout with no question about the user under way, no navigation and no event but a
  new login brings protected content back.\<close>

theorem logout_hides_everything:
  assumes "fetches s = 0" "profiles s = 0" "refreshes s = 0" "list_all no_login es"
    and "\<not> isPublicPath (pathname (run auth_step es (logout s)))"
  shows "rendered (run auth_step es (logout s)) = Blank"
proof -
  have "signed_out (logout s)" using assms(1-3) by (simp add: signed_out_def logout_def)
  then show ?thesis by (intro signed_out_shows_nothing auth.run_inv assms)
qed

lemma logout_hides_everything_witness:
  "rendered (run auth_step [Navigate ''/portal/programs'', RefreshCalled] (logout (client_at ''/portal/dashboard''))) = Blank"
  using logout_hides_everything [of "client_at ''/portal/dashboard''" "[Navigate ''/portal/programs'', RefreshCalled]"]
  by (simp add: client_at_def no_login_def logout_def refreshUser_def isPublicPath_def PUBLIC_PATHS_def)

text \<open>With a question under way it does come back: the answer sets the user again although the
  session flag is gone.\<close>

lemma late_answer_restores_user:
  "let s = run auth_step [RefreshCalled, LogoutCalled, RefreshEnds (Some sample_client), Navigate ''/portal/programs'']
     (client_at ''/portal/dashboard'')
   in user s = Some sample_client \<and> \<not> has_session s \<and> rendered s = Content"
  by code_simp

text \<open>A login that is quicker than the failing question of the page load is undone by it.\<close>

lemma stale_fetch_logs_out:
  "let s = run auth_step [Mounted, LoginAnswer \<lparr> mfa_required = False, mfa_setup_required = False, access_token = Some ''t'' \<rparr>,
       ProfileAnswer (Some sample_client), FetchEnds None] (auth_init ''/login'' True)
   in user s = None \<and> \<not> has_session s \<and> rendered s = Blank"
  by (simp add: auth_init_def fetchUser_def login_answered_def login_profile_def fetchUser_ends_def user_or_out_def
      rendered_def isAuthenticated_def sample_client_def home_of_def isPublicPath_def PUBLIC_PATHS_def)

text \<open>The dashboard layout admits everybody, and not every page below it asks: a client who opens
  a partner page is sent by way of the dashboard page to the portal, but the import page, the
  tasks and the sales pipeline are rendered for the client.\<close>

lemma client_sent_home:
  "let s = run auth_step [Navigate ''/partner'', FollowRedirect] (client_at ''/portal/dashboard'')
   in pathname s = ''/'' \<and> rendered s = Skeleton \<and> pathname (auth_step s FollowRedirect) = ''/portal/dashboard''"
  by code_simp

lemma client_reads_staff_pages:
  "list_all (\<lambda>p. rendered (client_at p) = Content) [''/import'', ''/tasks'', ''/crm/pipeline'', ''/clients/c1'']"
  "list_all (\<lambda>p. rendered (client_at p) = Denied) [''/users'', ''/clients'', ''/finance'']"
  by code_simp+

end
