(* ===== verification/Breadcrumbs.thy ===== *)
theory Breadcrumbs
  imports JsPrelude
begin

text \<open>
  The breadcrumbs: the segment maps of \<open>frontend/src/components/navigation/breadcrumb-config.ts\<close>
  and the building of the entries from the path in \<open>components/navigation/breadcrumbs.tsx\<close>.

  Whether an entry has a resolver is part of its configuration; the name the resolver
  fetches is an argument of the label.  The theorems: every crumb links to a beginning of the
  path and the last one to the whole path, no two crumbs share their key, and the year and
  completion reports, whose keys use other placeholders than the lookup, never get one.
\<close>

section \<open>Segment maps\<close>

record segment_config =
  s_label :: string
  s_isDynamic :: bool
  s_resolves :: bool

type_synonym segment_map = "(string \<times> segment_config) list"

definition dashboardSegments :: segment_map where
  "dashboardSegments = [
    (''programs'', segment_config.make ''Programs'' False False),
    (''programs/[id]'', segment_config.make ''Program'' True True),
    (''programs/[id]/board'', segment_config.make ''Board'' False False),
    (''programs/[id]/closure'', segment_config.make ''Closure'' False False),
    (''programs/[id]/summary'', segment_config.make ''Summary'' False False),
    (''programs/new'', segment_config.make ''New Program'' False False),
    (''clients'', segment_config.make ''Clients'' False False),
    (''clients/[id]'', segment_config.make ''Client'' True True),
    (''clients/new'', segment_config.make ''New Client'' False False),
    (''partners'', segment_config.make ''Partners'' False False),
    (''partners/[id]'', segment_config.make ''Partner'' True True),
    (''partners/[id]/scorecard'', segment_config.make ''Scorecard'' False False),
    (''partners/new'', segment_config.make ''New Partner'' False False),
    (''partners/governance'', segment_config.make ''Governance'' False False),
    (''assignments'', segment_config.make ''Assignments'' False False),
    (''assignments/[id]'', segment_config.make ''Assignment'' True True),
    (''assignments/new'', segment_config.make ''New Assignment'' False False),
    (''deliverables'', segment_config.make ''Deliverables'' False False),
    (''deliverables/[id]'', segment_config.make ''Deliverable'' True True),
    (''escalations'', segment_config.make ''Escalations'' False False),
    (''escalations/[id]'', segment_config.make ''Escalation'' True True),
    (''approvals'', segment_config.make ''Approvals'' False False),
    (''approvals/[id]'', segment_config.make ''Approval'' True False),
    (''budget-approvals'', segment_config.make ''Budget Approvals'' False False),
    (''budget-approvals/[id]'', segment_config.make ''Budget Approval'' True True),
    (''certificates'', segment_config.make ''Certificates'' False False),
    (''certificates/[id]'', segment_config.make ''Certificate'' True True),
    (''certificates/new'', segment_config.make ''New Certificate'' False False),
    (''certificates/templates'', segment_config.make ''Templates'' False False),
    (''kyc'', segment_config.make ''KYC'' False False),
    (''kyc/verifications'', segment_config.make ''Verifications'' False False),
    (''kyc/verifications/[id]'', segment_config.make ''Verification'' True False),
    (''kyc/verifications/new'', segment_config.make ''New Verification'' False False),
    (''kyc/alerts'', segment_config.make ''Alerts'' False False),
    (''kyc/reports'', segment_config.make ''Reports'' False False),
    (''access-audits'', segment_config.make ''Access Audits'' False False),
    (''access-audits/[id]'', segment_config.make ''Audit'' True False),
    (''access-audits/[id]/findings/new'', segment_config.make ''New Finding'' False False),
    (''audit-logs'', segment_config.make ''Audit Logs'' False False),
    (''audit-logs/[id]'', segment_config.make ''Log Entry'' True False),
    (''capability-reviews'', segment_config.make ''Capability Reviews'' False False),
    (''capability-reviews/[id]'', segment_config.make ''Review'' True True),
    (''capability-reviews/new'', segment_config.make ''New Review'' False False),
    (''deletion-requests'', segment_config.make ''Deletion Requests'' False False),
    (''deletion-requests/[id]'', segment_config.make ''Request'' True False),
    (''deletion-requests/new'', segment_config.make ''New Request'' False False),
    (''compliance'', segment_config.make ''Compliance'' False False),
    (''compliance/[id]'', segment_config.make ''Record'' True False),
    (''portfolio'', segment_config.make ''Portfolio'' False False),
    (''tasks'', segment_config.make ''Tasks'' False False),
    (''scheduling'', segment_config.make ''Scheduling'' False False),
    (''workload'', segment_config.make ''Workload'' False False),
    (''finance'', segment_config.make ''Finance'' False False),
    (''sla'', segment_config.make ''SLA Tracking'' False False),
    (''decisions'', segment_config.make ''Decisions'' False False),
    (''documents/vault'', segment_config.make ''Document Vault'' False False),
    (''analytics'', segment_config.make ''Analytics'' False False),
    (''analytics/partner-performance'', segment_config.make ''Partner Performance'' False False),
    (''analytics/nps'', segment_config.make ''NPS Surveys'' False False),
    (''reports'', segment_config.make ''Reports'' False False),
    (''reports/schedules'', segment_config.make ''Schedules'' False False),
    (''reports/rm-portfolio'', segment_config.make ''RM Portfolio'' False False),
    (''reports/escalation-log'', segment_config.make ''Escalation Log'' False False),
    (''reports/compliance'', segment_config.make ''Compliance'' False False),
    (''communications'', segment_config.make ''Messages'' False False),
    (''communications/templates'', segment_config.make ''Templates'' False False),
    (''communications/log'', segment_config.make ''Audit Log'' False False),
    (''notifications'', segment_config.make ''Notifications'' False False),
    (''settings'', segment_config.make ''Settings'' False False),
    (''settings/security'', segment_config.make ''Security'' False False),
    (''settings/budget-thresholds'', segment_config.make ''Budget Thresholds'' False False),
    (''users'', segment_config.make ''Users'' False False),
    (''users/new'', segment_config.make ''New User'' False False)]"

definition portalSegments :: segment_map where
  "portalSegments = [
    (''dashboard'', segment_config.make ''Dashboard'' False False),
    (''programs'', segment_config.make ''Programs'' False False),
    (''programs/[id]'', segment_config.make ''Program'' True True),
    (''messages'', segment_config.make ''Messages'' False False),
    (''documents'', segment_config.make ''Documents'' False False),
    (''documents/signing/[id]'', segment_config.make ''Sign Document'' True False),
    (''decisions'', segment_config.make ''Decisions'' False False),
    (''survey'', segment_config.make ''Survey'' False False),
    (''reports'', segment_config.make ''Reports'' False False),
    (''reports/portfolio'', segment_config.make ''Portfolio'' False False),
    (''reports/program-status'', segment_config.make ''Program Status'' False False),
    (''reports/completion'', segment_config.make ''Completion'' False False),
    (''reports/completion/[programId]'', segment_config.make ''Report'' True False),
    (''reports/annual'', segment_config.make ''Annual Review'' False False),
    (''reports/annual/[year]'', segment_config.make ''Year'' True False),
    (''settings'', segment_config.make ''Settings'' False False),
    (''settings/profile'', segment_config.make ''Profile'' False False),
    (''settings/notifications'', segment_config.make ''Notifications'' False False),
    (''settings/security'', segment_config.make ''Security'' False False)]"

definition partnerSegments :: segment_map where
  "partnerSegments = [
    (''onboarding'', segment_config.make ''Onboarding'' False False),
    (''assignments'', segment_config.make ''Assignments'' False False),
    (''assignments/[id]'', segment_config.make ''Assignment'' True True),
    (''inbox'', segment_config.make ''Inbox'' False False),
    (''inbox/[id]'', segment_config.make ''Assignment'' True False),
    (''deliverables'', segment_config.make ''Deliverables'' False False),
    (''deliverables/[id]'', segment_config.make ''Deliverable'' True True),
    (''messages'', segment_config.make ''Messages'' False False),
    (''messages/[id]'', segment_config.make ''Thread'' True False),
    (''documents'', segment_config.make ''Documents'' False False),
    (''notices'', segment_config.make ''Notices'' False False),
    (''capability-refresh'', segment_config.make ''Capability Refresh'' False False),
    (''reports'', segment_config.make ''Reports'' False False),
    (''reports/brief-summary'', segment_config.make ''Brief Summary'' False False),
    (''reports/feedback'', segment_config.make ''Feedback'' False False),
    (''reports/history'', segment_config.make ''History'' False False),
    (''settings'', segment_config.make ''Settings'' False False),
    (''settings/profile'', segment_config.make ''Profile'' False False),
    (''settings/notifications'', segment_config.make ''Notifications'' False False),
    (''settings/security'', segment_config.make ''Security'' False False)]"

section \<open>From the path to the entries\<close>

datatype portal_type = DashboardCrumbs | PortalCrumbs | PartnerCrumbs

definition strip_prefix :: "string \<Rightarrow> string \<Rightarrow> string" where
  "strip_prefix p s = (if starts_with p s then drop (length p) s else s)"

text \<open>\<open>pathname.replace(/^\/portal\/?/, "")\<close>: the prefix and a slash after it.\<close>

definition strip_portal :: "string \<Rightarrow> string \<Rightarrow> string" where
  "strip_portal p s = (if starts_with p s then strip_prefix ''/'' (drop (length p) s) else s)"

definition getSegments :: "string \<Rightarrow> portal_type \<Rightarrow> string list" where
  "getSegments pathname portal =
     (let stripped = (case portal of
          PortalCrumbs \<Rightarrow> strip_portal ''/portal'' pathname
        | PartnerCrumbs \<Rightarrow> strip_portal ''/partner'' pathname
        | DashboardCrumbs \<Rightarrow> strip_prefix ''/'' pathname)
      in if stripped = [] then [] else split_on CHR ''/'' stripped)"

definition getSegmentMap :: "portal_type \<Rightarrow> segment_map" where
  "getSegmentMap portal =
     (case portal of PortalCrumbs \<Rightarrow> portalSegments | PartnerCrumbs \<Rightarrow> partnerSegments
      | DashboardCrumbs \<Rightarrow> dashboardSegments)"

definition getHomeHref :: "portal_type \<Rightarrow> string" where
  "getHomeHref portal =
     (case portal of PortalCrumbs \<Rightarrow> ''/portal/dashboard'' | PartnerCrumbs \<Rightarrow> ''/partner''
      | DashboardCrumbs \<Rightarrow> ''/'')"

definition is_digit :: "char \<Rightarrow> bool" where
  "is_digit c = (48 \<le> code c \<and> code c \<le> 57)"

definition is_hex :: "char \<Rightarrow> bool" where
  "is_hex c = (is_digit c \<or> (97 \<le> code c \<and> code c \<le> 102) \<or> (65 \<le> code c \<and> code c \<le> 70))"

text \<open>The UUID expression: five groups of hexadecimal digits of fixed lengths.\<close>

definition is_uuid :: "string \<Rightarrow> bool" where
  "is_uuid s =
     (let gs = split_on CHR ''-'' s in
      map length gs = [8, 4, 4, 4, 12] \<and> list_all (list_all is_hex) gs)"

definition looksLikeDynamicId :: "string \<Rightarrow> bool" where
  "looksLikeDynamicId segment = (is_uuid segment \<or> (segment \<noteq> [] \<and> list_all is_digit segment))"

definition pattern_part :: "string \<Rightarrow> string" where
  "pattern_part segment = (if looksLikeDynamicId segment then ''[id]'' else segment)"

record crumb =
  c_label :: string
  c_href :: string
  c_key :: string
  c_dynamicId :: "string option"
  c_isLast :: bool

definition crumb_prefix :: "portal_type \<Rightarrow> string" where
  "crumb_prefix portal =
     (case portal of PortalCrumbs \<Rightarrow> ''/portal'' | PartnerCrumbs \<Rightarrow> ''/partner'' | DashboardCrumbs \<Rightarrow> [])"

text \<open>Round \<open>i\<close> of the loop: the key of the first \<open>i + 1\<close> parts, and an entry if the map has it.\<close>

definition config_key :: "string list \<Rightarrow> nat \<Rightarrow> string" where
  "config_key segs i = join_with ''/'' (map pattern_part (take (Suc i) segs))"

definition crumb_at :: "string list \<Rightarrow> segment_map \<Rightarrow> portal_type \<Rightarrow> nat \<Rightarrow> crumb list" where
  "crumb_at segs m portal i =
     (case map_of m (config_key segs i) of
        None \<Rightarrow> []
      | Some cfg \<Rightarrow>
          [\<lparr> c_label = s_label cfg,
             c_href = crumb_prefix portal @ ''/'' @ join_with ''/'' (take (Suc i) segs),
             c_key = config_key segs i,
             c_dynamicId = (if looksLikeDynamicId (segs ! i) then Some (segs ! i) else None),
             c_isLast = (i = length segs - 1) \<rparr>])"

definition buildEntries :: "string list \<Rightarrow> segment_map \<Rightarrow> portal_type \<Rightarrow> crumb list" where
  "buildEntries segs m portal = concat (map (crumb_at segs m portal) [0..<length segs])"

section \<open>What is shown\<close>

text \<open>The query for a name runs for an entry with a resolver and an id; its answer is the argument.\<close>

definition label_enabled :: "segment_map \<Rightarrow> crumb \<Rightarrow> bool" where
  "label_enabled m e =
     ((case map_of m (c_key e) of None \<Rightarrow> False | Some cfg \<Rightarrow> s_resolves cfg) \<and>
      (case c_dynamicId e of None \<Rightarrow> False | Some i \<Rightarrow> i \<noteq> []))"

definition crumb_label :: "segment_map \<Rightarrow> (string \<Rightarrow> string \<Rightarrow> string option) \<Rightarrow> crumb \<Rightarrow> string" where
  "crumb_label m resolved e =
     (case (if label_enabled m e then resolved (c_key e) (the (c_dynamicId e)) else None) of
        None \<Rightarrow> c_label e
      | Some l \<Rightarrow> l)"

text \<open>A long label is cut after 30 characters; the ellipsis that follows is the flag.\<close>

definition displayLabel :: "string \<Rightarrow> string \<times> bool" where
  "displayLabel label = (if length label > 32 then (slice_to 30 label, True) else (label, False))"

text \<open>Nothing is shown for no entry or a single one without an id.\<close>

definition crumbs_shown :: "string \<Rightarrow> portal_type \<Rightarrow> crumb list" where
  "crumbs_shown pathname portal =
     (let entries = buildEntries (getSegments pathname portal) (getSegmentMap portal) portal in
      (case entries of
         [] \<Rightarrow> []
       | [e] \<Rightarrow> if c_dynamicId e = None then [] else entries
       | _ \<Rightarrow> entries))"

section \<open>Links\<close>

lemma segments_of_rest:
  "getSegments (crumb_prefix portal @ ''/'' @ rest) portal = (if rest = [] then [] else split_on CHR ''/'' rest)"
  by (cases portal) (simp_all add: getSegments_def crumb_prefix_def strip_portal_def strip_prefix_def starts_with_def)

lemma buildEntries_entry:
  assumes "e \<in> set (buildEntries segs m portal)"
  obtains i where "i < length segs" "c_href e = crumb_prefix portal @ ''/'' @ join_with ''/'' (take (Suc i) segs)"
    "c_key e = config_key segs i" "c_isLast e = (i = length segs - 1)"
  using assms by (auto simp: buildEntries_def crumb_at_def split: option.splits)

text \<open>Every crumb links to a beginning of the current path, and the crumb of the current page, if
  there is one, to the whole path.\<close>

theorem crumb_links:
  assumes "starts_with (crumb_prefix portal @ ''/'') pathname"
    and "e \<in> set (buildEntries (getSegments pathname portal) m portal)"
  shows "starts_with (c_href e) pathname \<and> (if c_isLast e then c_href e = pathname else True)"
proof -
  obtain rest where p: "pathname = crumb_prefix portal @ ''/'' @ rest"
    using assms(1) by (auto simp: starts_with_iff)
  define segs where "segs = getSegments pathname portal"
  obtain i where i: "i < length segs" "c_href e = crumb_prefix portal @ ''/'' @ join_with ''/'' (take (Suc i) segs)"
    "c_isLast e = (i = length segs - 1)"
    using buildEntries_entry assms(2) unfolding segs_def by blast
  have segs: "segs = split_on CHR ''/'' rest"
    using i(1) segments_of_rest [of portal rest] by (auto simp: segs_def p split: if_splits)
  have "starts_with (join_with ''/'' (take (Suc i) segs)) rest"
    using starts_with_join_take [of "''/''" "Suc i" segs] by (simp add: segs)
  moreover have "take (Suc i) segs = segs" if "c_isLast e" using that i by simp
  ultimately show ?thesis using i(2) by (auto simp: p segs starts_with_iff)
qed

lemma crumb_links_witness:
  "starts_with (c_href (hd (buildEntries (getSegments ''/programs/17/board'' DashboardCrumbs) dashboardSegments DashboardCrumbs)))
     ''/programs/17/board''"
proof -
  let ?es = "buildEntries (getSegments ''/programs/17/board'' DashboardCrumbs) dashboardSegments DashboardCrumbs"
  have "?es \<noteq> []" by code_simp
  then have "hd ?es \<in> set ?es" by simp
  moreover have "starts_with (crumb_prefix DashboardCrumbs @ ''/'') ''/programs/17/board''" by code_simp
  ultimately show ?thesis using crumb_links by blast
qed

section \<open>Keys\<close>

lemma count_separators:
  assumes "\<forall>w \<in> set ws. c \<notin> set w" "ws \<noteq> []"
  shows "length (filter (\<lambda>x. x = c) (join_with [c] ws)) = length ws - 1"
  using assms
proof (induction ws)
  case (Cons w ws)
  have "filter (\<lambda>x. x = c) w = []" using Cons.prems by (auto simp: filter_empty_conv)
  with Cons show ?case by (cases ws) (auto simp: join_with_Cons)
qed simp

lemma config_key_separators:
  assumes "\<forall>w \<in> set segs. CHR ''/'' \<notin> set w" "i < length segs"
  shows "length (filter (\<lambda>x. x = CHR ''/'') (config_key segs i)) = i"
proof -
  have "\<forall>w \<in> set (map pattern_part (take (Suc i) segs)). CHR ''/'' \<notin> set w"
    using assms(1) by (auto simp: pattern_part_def dest: in_set_takeD)
  then show ?thesis using count_separators [of "map pattern_part (take (Suc i) segs)"] assms(2)
    by (fastforce simp: config_key_def)
qed

lemma getSegments_plain: "\<forall>w \<in> set (getSegments pathname portal). CHR ''/'' \<notin> set w"
  using split_on_parts by (auto simp: getSegments_def Let_def)

lemma distinct_concat_options:
  assumes "inj_on k (set is)" "\<And>i. f i = [] \<or> f i = [g i]" "\<And>i. key (g i) = k i" "distinct is"
  shows "distinct (map key (concat (map f is)))"
  using assms(1,4)
proof (induction "is")
  case (Cons i js)
  have "set (map key (concat (map f js))) \<subseteq> k ` set js"
  proof
    fix x assume "x \<in> set (map key (concat (map f js)))"
    then obtain j y where "j \<in> set js" "y \<in> set (f j)" "x = key y" by auto
    then show "x \<in> k ` set js" using assms(2) [of j] assms(3) by auto
  qed
  moreover have "k i \<notin> k ` set js" using Cons.prems by (auto simp: inj_on_def)
  ultimately have new: "k i \<notin> set (map key (concat (map f js)))" by blast
  from assms(2) [of i] show ?case
  proof
    assume "f i = [g i]"
    with Cons new show ?thesis by (simp add: assms(3))
  qed (use Cons in simp)
qed simp

text \<open>The keys that React lists the crumbs by are distinct on every path.\<close>

lemma crumb_keys_distinct: "distinct (map c_key (buildEntries (getSegments pathname portal) m portal))"
proof -
  define segs where "segs = getSegments pathname portal"
  have "inj_on (config_key segs) (set [0..<length segs])"
    by (rule inj_onI) (metis config_key_separators [OF getSegments_plain] segs_def atLeastLessThan_iff set_upt)
  then show ?thesis
    unfolding buildEntries_def segs_def [symmetric]
    by (rule distinct_concat_options [where g = "\<lambda>i. hd (crumb_at segs m portal i @
          [\<lparr> c_label = [], c_href = [], c_key = config_key segs i, c_dynamicId = None, c_isLast = False \<rparr>])"])
       (auto simp: crumb_at_def split: option.split)
qed

section \<open>Pages without a crumb\<close>

text \<open>A number in the path always becomes \<open>[id]\<close>, so the key \<open>reports/annual/[year]\<close> is never
  looked up: the page of a year shows its two parents and no crumb for itself.\<close>

lemma annual_year_has_no_crumb:
  assumes "y \<noteq> []" "list_all is_digit y"
  shows "map c_key (crumbs_shown (''/portal/reports/annual/'' @ y) PortalCrumbs) = [''reports'', ''reports/annual'']"
    and "list_all (\<lambda>e. \<not> c_isLast e) (crumbs_shown (''/portal/reports/annual/'' @ y) PortalCrumbs)"
proof -
  have plain: "list_all (\<lambda>x. x \<noteq> CHR ''/'') y"
    using assms(2) by (auto simp: list_all_iff is_digit_def code_def)
  have split: "split_on CHR ''/'' (''reports/annual/'' @ y) = [''reports'', ''annual'', y]"
    using split_on_plain(2) [OF plain] by simp
  define p where "p = ''/portal/reports/annual/'' @ y"
  have segs: "getSegments p PortalCrumbs = [''reports'', ''annual'', y]"
    using segments_of_rest [of PortalCrumbs "''reports/annual/'' @ y"] split by (simp add: p_def crumb_prefix_def)
  have pat: "pattern_part y = ''[id]''" "pattern_part ''reports'' = ''reports''" "pattern_part ''annual'' = ''annual''"
    using assms by (simp add: pattern_part_def looksLikeDynamicId_def) code_simp+
  have keys: "map_of portalSegments ''reports'' = Some (segment_config.make ''Reports'' False False)"
    "map_of portalSegments ''reports/annual'' = Some (segment_config.make ''Annual Review'' False False)"
    "map_of portalSegments ''reports/annual/[id]'' = None"
    by code_simp+
  have three: "[0..<length (getSegments p PortalCrumbs)] = [0, 1, 2]" by (simp add: segs upt_rec)
  have key: "config_key (getSegments p PortalCrumbs) 0 = ''reports''"
    "config_key (getSegments p PortalCrumbs) 1 = ''reports/annual''"
    "config_key (getSegments p PortalCrumbs) 2 = ''reports/annual/[id]''"
    by (simp_all add: config_key_def segs pat numeral_2_eq_2)
  define at where "at = crumb_at (getSegments p PortalCrumbs) portalSegments PortalCrumbs"
  have at0: "map c_key (at 0) = [''reports'']" "list_all (\<lambda>e. \<not> c_isLast e) (at 0)"
    unfolding at_def crumb_at_def key(1) keys(1) by (simp_all add: segs)
  have at1: "map c_key (at 1) = [''reports/annual'']" "list_all (\<lambda>e. \<not> c_isLast e) (at 1)"
    unfolding at_def crumb_at_def key(2) keys(2) by (simp_all add: segs)
  have at2: "at 2 = []"
    unfolding at_def crumb_at_def key(3) keys(3) by simp
  have "map c_key (buildEntries (getSegments p PortalCrumbs) portalSegments PortalCrumbs) = [''reports'', ''reports/annual'']"
    "list_all (\<lambda>e. \<not> c_isLast e) (buildEntries (getSegments p PortalCrumbs) portalSegments PortalCrumbs)"
    unfolding buildEntries_def three at_def [symmetric] using at0 at1 at2 by simp_all
  then have "map c_key (crumbs_shown p PortalCrumbs) = [''reports'', ''reports/annual'']"
    "list_all (\<lambda>e. \<not> c_isLast e) (crumbs_shown p PortalCrumbs)"
    by (auto simp: crumbs_shown_def getSegmentMap_def Let_def split: list.split)
  then show "map c_key (crumbs_shown (''/portal/reports/annual/'' @ y) PortalCrumbs) = [''reports'', ''reports/annual'']"
    "list_all (\<lambda>e. \<not> c_isLast e) (crumbs_shown (''/portal/reports/annual/'' @ y) PortalCrumbs)"
    by (simp_all add: p_def)
qed

lemma displayLabel_bounded: "length (fst (displayLabel l)) \<le> 32"
  by (simp add: displayLabel_def slice_to_def)

end
