(* ===== verification/QuickActions.thy ===== *)
theory QuickActions
  imports NavMenus Keyboard Machines "HOL-Library.Multiset"
begin

text \<open>
  The quick actions: page detection, the default actions and the pinning provider
  (\<open>frontend/src/providers/quick-actions-provider.tsx\<close>), the stand-alone registry with the same
  storage key (\<open>hooks/use-quick-action-registry.ts\<close>), the search
  (\<open>hooks/use-quick-action-search.ts\<close>), the shortcuts
  (\<open>hooks/use-quick-action-keyboard.ts\<close>), the grouping of the menu
  (\<open>components/common/quick-actions-menu.tsx\<close>) and the selection the bar shows
  (\<open>components/layout/quick-actions-bar.tsx\<close>).

  A handler is the navigation or window event it causes.  The storage cell holds what
  was saved, or nothing usable (\<open>None\<close>: absent or damaged).  Icons are left out, and no default
  action sets \<open>disabled\<close> or \<open>visible\<close>, so \<open>disabled\<close> is the value it has in the context.
\<close>

section \<open>Actions\<close>

datatype qa_effect = Push string | Dispatch string

record quick_action =
  qa_id :: string
  qa_label :: string
  qa_description :: "string option"
  qa_category :: string
  qa_shortcut :: "string option"
  qa_metaKey :: bool
  qa_effect :: qa_effect
  qa_disabled :: bool
  qa_order :: "int option"

definition HARDCODED_ACTION_HREFS :: "string list" where
  "HARDCODED_ACTION_HREFS =
     [''/programs/new'', ''/clients/new'', ''/partners/new'', ''/communications'', ''/escalations'', ''/approvals'']"

text \<open>\<open>/^\/programs\/[^/]+$/\<close>: the prefix and one segment.\<close>

definition one_segment_below :: "string \<Rightarrow> string \<Rightarrow> bool" where
  "one_segment_below p s =
     (starts_with p s \<and> drop (length p) s \<noteq> [] \<and> CHR ''/'' \<notin> set (drop (length p) s))"

datatype page_type =
    P_dashboard
  | P_programs
  | P_program_detail
  | P_program_new
  | P_clients
  | P_client_detail
  | P_partners
  | P_partner_detail
  | P_approvals
  | P_escalations
  | P_communications
  | P_documents
  | P_tasks
  | P_reports
  | P_settings
  | P_portal_dashboard
  | P_portal_programs
  | P_portal_documents
  | P_partner_dashboard
  | P_partner_programs
  | P_partner_assignments
  | P_unknown

definition detectPageType :: "string \<Rightarrow> page_type" where
  "detectPageType pathname =
     (if starts_with ''/portal'' pathname then
        (if pathname = ''/portal/dashboard'' then P_portal_dashboard
         else if str_includes ''/portal/programs'' pathname then P_portal_programs
         else if str_includes ''/portal/documents'' pathname then P_portal_documents
         else P_unknown)
      else if starts_with ''/partner'' pathname then
        (if pathname = ''/partner'' \<or> pathname = ''/partner/'' then P_partner_dashboard
         else if str_includes ''/partner/programs'' pathname then P_partner_programs
         else if str_includes ''/partner/assignments'' pathname then P_partner_assignments
         else P_unknown)
      else if pathname = ''/'' \<or> pathname = ''/dashboard'' then P_dashboard
      else if pathname = ''/programs'' \<or> starts_with ''/programs'' pathname then
        (if pathname = ''/programs/new'' then P_program_new
         else if one_segment_below ''/programs/'' pathname then P_program_detail
         else P_programs)
      else if pathname = ''/clients'' \<or> starts_with ''/clients'' pathname then
        (if one_segment_below ''/clients/'' pathname then P_client_detail else P_clients)
      else if pathname = ''/partners'' \<or> starts_with ''/partners'' pathname then
        (if one_segment_below ''/partners/'' pathname then P_partner_detail else P_partners)
      else if str_includes ''/approvals'' pathname then P_approvals
      else if str_includes ''/escalations'' pathname then P_escalations
      else if str_includes ''/communications'' pathname then P_communications
      else if str_includes ''/documents'' pathname then P_documents
      else if str_includes ''/tasks'' pathname then P_tasks
      else if str_includes ''/reports'' pathname then P_reports
      else if str_includes ''/settings'' pathname then P_settings
      else P_unknown)"

definition action ::
  "string \<Rightarrow> string \<Rightarrow> string \<Rightarrow> string \<Rightarrow> string option \<Rightarrow> qa_effect \<Rightarrow> int \<Rightarrow> quick_action" where
  "action i l d c sc eff n =
     \<lparr> qa_id = i, qa_label = l, qa_description = Some d, qa_category = c, qa_shortcut = sc,
       qa_metaKey = False, qa_effect = eff, qa_disabled = False, qa_order = Some n \<rparr>"

definition nav_action :: "int \<times> flat_item \<Rightarrow> quick_action" where
  "nav_action = (\<lambda>(index, item).
     action (''nav-'' @ fl_href item) (fl_title item)
       (case fl_tooltip item of None \<Rightarrow> ''Go to '' @ fl_title item
        | Some t \<Rightarrow> if t = [] then ''Go to '' @ fl_title item else t)
       ''navigation'' None (Push (fl_href item)) (50 + index))"

definition nav_quick_items :: "string \<Rightarrow> flat_item list" where
  "nav_quick_items role =
     filter (\<lambda>item. \<not> fl_isSubItem item \<and> fl_href item \<notin> set HARDCODED_ACTION_HREFS)
       (getFlatNavItems (getNavConfigForRole role) role)"

text \<open>The five blocks of \<open>getDefaultActionsForContext\<close>.\<close>

definition create_actions :: "page_type \<Rightarrow> string \<Rightarrow> quick_action list" where
  "create_actions pageType role =
     (if role \<in> set INTERNAL_ROLES then
        (if pageType \<in> {P_dashboard, P_programs} \<and> (role = ''managing_director'' \<or> role = ''relationship_manager'')
         then [action ''new-program'' ''New Program'' ''Create a new program'' ''create'' (Some ''n'') (Push ''/programs/new'') 1] else []) @
        (if pageType \<in> {P_dashboard, P_clients}
         then [action ''new-client'' ''New Client'' ''Add a new client'' ''create'' None (Push ''/clients/new'') 2] else []) @
        (if pageType \<in> {P_dashboard, P_partners}
         then [action ''new-partner'' ''New Partner'' ''Add a new partner'' ''create'' None (Push ''/partners/new'') 3] else []) @
        [action ''new-task'' ''New Task'' ''Create a quick task'' ''create'' (Some ''t'') (Dispatch ''quick-actions:new-task'') 10]
      else [])"

definition communication_actions :: "string \<Rightarrow> quick_action list" where
  "communication_actions role =
     (if role \<in> set INTERNAL_ROLES \<and>
         (role = ''managing_director'' \<or> role = ''relationship_manager'' \<or> role = ''coordinator'') then
        [action ''new-communication'' ''New Communication'' ''Log a communication'' ''communication'' None (Push ''/communications'') 20,
         action ''new-escalation'' ''New Escalation'' ''Create an escalation'' ''communication'' None (Push ''/escalations'') 21]
      else [])"

definition export_actions :: "page_type \<Rightarrow> quick_action list" where
  "export_actions pageType =
     (if pageType \<in> {P_programs, P_clients, P_partners, P_reports} then
        [action ''export-csv'' ''Export CSV'' ''Export current view as CSV'' ''export'' (Some ''e'') (Dispatch ''quick-actions:export-csv'') 30,
         action ''export-pdf'' ''Export PDF'' ''Export current view as PDF'' ''export'' None (Dispatch ''quick-actions:export-pdf'') 31]
      else [])"

definition common_actions :: "string \<Rightarrow> quick_action list" where
  "common_actions role =
     (if role \<in> set INTERNAL_ROLES then
        [action ''review-pending'' ''Review Pending'' ''View pending approvals'' ''common'' None (Push ''/approvals'') 40]
      else [])"

definition nav_actions :: "string \<Rightarrow> quick_action list" where
  "nav_actions role =
     map nav_action (zip (map int [0..<length (nav_quick_items role)]) (nav_quick_items role))"

definition getDefaultActionsForContext :: "page_type \<Rightarrow> string \<Rightarrow> quick_action list" where
  "getDefaultActionsForContext pageType role =
     create_actions pageType role @ communication_actions role @ export_actions pageType @
     common_actions role @ nav_actions role"

text \<open>The display order of the categories; an unknown category would sort last.\<close>

definition category_order :: "string \<Rightarrow> int" where
  "category_order c =
     (if c = ''create'' then 1 else if c = ''communication'' then 2 else if c = ''export'' then 3
      else if c = ''navigation'' then 4 else if c = ''common'' then 5 else 100)"

section \<open>The provider\<close>

record qa_state =
  pinned :: "string list"
  customOrder :: "(string \<times> int) list"
  isOpen :: bool

type_synonym qa_saved = "(string list \<times> (string \<times> int) list) option"

definition loadState :: "qa_saved \<Rightarrow> qa_state" where
  "loadState cell =
     (case cell of
        None \<Rightarrow> \<lparr> pinned = [], customOrder = [], isOpen = False \<rparr>
      | Some (p, co) \<Rightarrow> \<lparr> pinned = p, customOrder = co, isOpen = False \<rparr>)"

text \<open>A provider over the storage cell; a refused write is ignored.\<close>

record qa_world =
  st :: qa_state
  cell :: qa_saved
  effects :: "qa_effect list"

definition save :: "bool \<Rightarrow> qa_state \<Rightarrow> qa_world \<Rightarrow> qa_world" where
  "save full s w = (if full then w\<lparr> st := s \<rparr> else w\<lparr> st := s, cell := Some (pinned s, customOrder s) \<rparr>)"

definition pinAction :: "bool \<Rightarrow> string \<Rightarrow> qa_world \<Rightarrow> qa_world" where
  "pinAction full actionId w =
     (if actionId \<in> set (pinned (st w)) then w
      else save full ((st w)\<lparr> pinned := pinned (st w) @ [actionId] \<rparr>) w)"

definition unpinAction :: "bool \<Rightarrow> string \<Rightarrow> qa_world \<Rightarrow> qa_world" where
  "unpinAction full actionId w =
     save full ((st w)\<lparr> pinned := filter (\<lambda>i. i \<noteq> actionId) (pinned (st w)) \<rparr>) w"

definition togglePin :: "bool \<Rightarrow> string \<Rightarrow> qa_world \<Rightarrow> qa_world" where
  "togglePin full actionId w =
     save full ((st w)\<lparr> pinned :=
       (if actionId \<in> set (pinned (st w)) then filter (\<lambda>i. i \<noteq> actionId) (pinned (st w))
        else pinned (st w) @ [actionId]) \<rparr>) w"

definition reorderAction :: "bool \<Rightarrow> string \<Rightarrow> int \<Rightarrow> qa_world \<Rightarrow> qa_world" where
  "reorderAction full actionId newOrder w =
     save full ((st w)\<lparr> customOrder := AList.update actionId newOrder (customOrder (st w)) \<rparr>) w"

definition executeAction :: "quick_action \<Rightarrow> qa_world \<Rightarrow> qa_world" where
  "executeAction a w =
     (if qa_disabled a then w
      else w\<lparr> effects := effects w @ [qa_effect a], st := (st w)\<lparr> isOpen := False \<rparr> \<rparr>)"

definition openMenu :: "qa_world \<Rightarrow> qa_world" where
  "openMenu w = w\<lparr> st := (st w)\<lparr> isOpen := True \<rparr> \<rparr>"

definition closeMenu :: "qa_world \<Rightarrow> qa_world" where
  "closeMenu w = w\<lparr> st := (st w)\<lparr> isOpen := False \<rparr> \<rparr>"

definition toggleMenu :: "qa_world \<Rightarrow> qa_world" where
  "toggleMenu w = w\<lparr> st := (st w)\<lparr> isOpen := \<not> isOpen (st w) \<rparr> \<rparr>"

definition isPinned :: "qa_world \<Rightarrow> string \<Rightarrow> bool" where
  "isPinned w actionId = (actionId \<in> set (pinned (st w)))"

definition order_of :: "(string \<times> int) list \<Rightarrow> quick_action \<Rightarrow> int" where
  "order_of co a =
     (case map_of co (qa_id a) of
        Some n \<Rightarrow> n
      | None \<Rightarrow> (case qa_order a of Some n \<Rightarrow> n | None \<Rightarrow> 100))"

definition sortActions :: "(string \<times> int) list \<Rightarrow> quick_action list \<Rightarrow> quick_action list" where
  "sortActions co as = sort_key (order_of co) as"

definition provider_actions :: "string \<Rightarrow> string option \<Rightarrow> qa_state \<Rightarrow> quick_action list" where
  "provider_actions pathname role s =
     sortActions (customOrder s)
       (getDefaultActionsForContext (detectPageType pathname)
          (case role of None \<Rightarrow> ''client'' | Some r \<Rightarrow> if r = [] then ''client'' else r))"

definition pinnedActions :: "qa_state \<Rightarrow> quick_action list \<Rightarrow> quick_action list" where
  "pinnedActions s as = filter (\<lambda>a. qa_id a \<in> set (pinned s)) as"

section \<open>Search\<close>

definition action_score :: "string \<Rightarrow> quick_action \<Rightarrow> int" where
  "action_score trimmed a =
     (let label = lower (qa_label a);
          description = (case qa_description a of None \<Rightarrow> [] | Some d \<Rightarrow> lower d)
      in if starts_with trimmed label then 3
         else if str_includes trimmed label then 2
         else if str_includes trimmed description then 1
         else 0)"

definition search_actions :: "quick_action list \<Rightarrow> string \<Rightarrow> quick_action list" where
  "search_actions as query =
     (let trimmed = lower (trim query) in
      if trimmed = [] then as
      else map fst (sort_key (\<lambda>p. - snd p)
             (filter (\<lambda>p. snd p > 0) (map (\<lambda>a. (a, action_score trimmed a)) as))))"

section \<open>Keyboard\<close>

definition menu_key :: "key_event \<Rightarrow> qa_world \<Rightarrow> qa_world" where
  "menu_key e w =
     (if ev_key e \<noteq> ''a'' \<and> ev_key e \<noteq> ''A'' then w
      else if ev_meta e \<or> ev_ctrl e \<or> ev_alt e \<or> ev_shift e then w
      else if isInputElement (ev_target e) then w
      else toggleMenu w)"

definition shortcut_matches :: "key_event \<Rightarrow> quick_action \<Rightarrow> bool" where
  "shortcut_matches e a =
     (case qa_shortcut a of
        None \<Rightarrow> False
      | Some sc \<Rightarrow> sc \<noteq> [] \<and> lower (ev_key e) = lower sc \<and>
          (if qa_metaKey a then ev_meta e \<or> ev_ctrl e else \<not> ev_meta e \<and> \<not> ev_ctrl e) \<and>
          \<not> isInputElement (ev_target e))"

definition action_key :: "quick_action list \<Rightarrow> key_event \<Rightarrow> qa_world \<Rightarrow> qa_world" where
  "action_key as e w =
     (case List.find (shortcut_matches e) as of None \<Rightarrow> w | Some a \<Rightarrow> executeAction a w)"

section \<open>Menu and bar\<close>

definition add_to_group ::
  "quick_action \<Rightarrow> (string \<times> quick_action list) list \<Rightarrow> (string \<times> quick_action list) list" where
  "add_to_group a groups =
     AList.update (qa_category a)
       ((case map_of groups (qa_category a) of None \<Rightarrow> [] | Some xs \<Rightarrow> xs) @ [a]) groups"

definition groupActionsByCategory :: "quick_action list \<Rightarrow> (string \<times> quick_action list) list" where
  "groupActionsByCategory as = sort_key (\<lambda>g. category_order (fst g)) (fold add_to_group as [])"

text \<open>The unpinned actions under each category; a category without any is not shown.\<close>

definition menu_sections :: "quick_action list \<Rightarrow> quick_action list \<Rightarrow> (string \<times> quick_action list) list" where
  "menu_sections as pins =
     filter (\<lambda>(c, xs). xs \<noteq> [])
       (map (\<lambda>(c, xs). (c, filter (\<lambda>a. \<not> list_ex (\<lambda>p. qa_id p = qa_id a) pins) xs))
         (groupActionsByCategory as))"

definition bar_actions :: "quick_action list \<Rightarrow> quick_action list \<Rightarrow> quick_action list" where
  "bar_actions contextActions pins =
     (let shown = slice_to 3 pins in
      shown @ filter (\<lambda>a. \<not> list_ex (\<lambda>p. qa_id p = qa_id a) shown) contextActions)"

definition showMore :: "int \<Rightarrow> quick_action list \<Rightarrow> int \<Rightarrow> int" where
  "showMore maxActions all visibleCount = min (visibleCount + maxActions) (int (length all))"

section \<open>The default actions\<close>

lemma starts_with_trans: "starts_with p q \<Longrightarrow> starts_with q s \<Longrightarrow> starts_with p s"
  by (auto simp: starts_with_iff)

lemma partners_is_partner: "starts_with ''/partners'' p \<Longrightarrow> starts_with ''/partner'' p"
  by (rule starts_with_trans [of _ "''/partners''"]) (simp_all add: starts_with_def)

lemma if_neq: "(b \<Longrightarrow> x \<noteq> z) \<Longrightarrow> (\<not> b \<Longrightarrow> y \<noteq> z) \<Longrightarrow> (if b then x else y) \<noteq> z"
  by simp

lemma detect_never_partners: "detectPageType p \<noteq> P_partners" "detectPageType p \<noteq> P_partner_detail"
proof -
  have "p = ''/partners'' \<Longrightarrow> starts_with ''/partner'' p" by (simp add: starts_with_def)
  then show "detectPageType p \<noteq> P_partners" "detectPageType p \<noteq> P_partner_detail"
    unfolding detectPageType_def
    by (intro if_neq; (rule page_type.distinct | blast dest: partners_is_partner))+
qed

lemma nav_action_ids: "map qa_id (nav_actions role) = map (\<lambda>i. ''nav-'' @ fl_href i) (nav_quick_items role)"
  by (rule nth_equalityI) (simp_all add: nav_actions_def nav_action_def action_def)

lemma nav_ids: "x \<in> qa_id ` set (nav_actions role) \<Longrightarrow> starts_with ''nav-'' x"
  using nav_action_ids [of role] by (metis (no_types, lifting) imageE list.set_map starts_with_append)

lemma block_ids:
  "map qa_id (create_actions pt role) =
     (if role \<in> set INTERNAL_ROLES then
        (if pt \<in> {P_dashboard, P_programs} \<and> (role = ''managing_director'' \<or> role = ''relationship_manager'')
         then [''new-program''] else []) @
        (if pt \<in> {P_dashboard, P_clients} then [''new-client''] else []) @
        (if pt \<in> {P_dashboard, P_partners} then [''new-partner''] else []) @ [''new-task'']
      else [])"
  "map qa_id (communication_actions role) =
     (if communication_actions role = [] then [] else [''new-communication'', ''new-escalation''])"
  "map qa_id (export_actions pt) = (if export_actions pt = [] then [] else [''export-csv'', ''export-pdf''])"
  "map qa_id (common_actions role) = (if common_actions role = [] then [] else [''review-pending''])"
  by (simp_all add: create_actions_def communication_actions_def export_actions_def common_actions_def action_def)

text \<open>The partner pages are never recognised (their path begins like the partner portal's), so
  New Partner is offered to internal users on the dashboard and nowhere else.\<close>

theorem new_partner_only_on_dashboard:
  "''new-partner'' \<in> qa_id ` set (getDefaultActionsForContext (detectPageType p) role)
   \<longleftrightarrow> detectPageType p = P_dashboard \<and> role \<in> set INTERNAL_ROLES"
proof -
  let ?pt = "detectPageType p"
  have nav: "''new-partner'' \<notin> set (map qa_id (nav_actions role))"
    using nav_ids [of "''new-partner''" role] by (auto simp: starts_with_def)
  have rest: "''new-partner'' \<notin> set (map qa_id (communication_actions role))"
    "''new-partner'' \<notin> set (map qa_id (export_actions ?pt))" "''new-partner'' \<notin> set (map qa_id (common_actions role))"
    unfolding block_ids by simp_all
  have "''new-partner'' \<in> set (map qa_id (create_actions ?pt role)) \<longleftrightarrow>
      ?pt \<in> {P_dashboard, P_partners} \<and> role \<in> set INTERNAL_ROLES"
    unfolding block_ids by auto
  then have "''new-partner'' \<in> set (map qa_id (getDefaultActionsForContext ?pt role))
      \<longleftrightarrow> ?pt = P_dashboard \<and> role \<in> set INTERNAL_ROLES"
    using nav rest detect_never_partners [of p] by (auto simp: getDefaultActionsForContext_def)
  then show ?thesis by simp
qed

section \<open>Order and identity of the actions\<close>

lemma sort_key_sorted: "sorted (map f xs) \<Longrightarrow> sort_key f xs = xs"
  by (induction xs) (simp_all add: insort_is_Cons)

lemma nav_orders: "map (order_of []) (nav_actions role) = map (\<lambda>i. 50 + int i) [0..<length (nav_quick_items role)]"
  by (rule nth_equalityI) (simp_all add: nav_actions_def nav_action_def action_def order_of_def)

definition orders_within :: "int \<Rightarrow> int \<Rightarrow> quick_action list \<Rightarrow> bool" where
  "orders_within lo hi as = (sorted (map (order_of []) as) \<and> list_all (\<lambda>a. lo \<le> order_of [] a \<and> order_of [] a \<le> hi) as)"

lemma block_orders:
  "orders_within 1 10 (create_actions pt role)" "orders_within 20 21 (communication_actions role)"
  "orders_within 30 31 (export_actions pt)" "orders_within 40 40 (common_actions role)"
  by (simp_all add: orders_within_def create_actions_def communication_actions_def export_actions_def
      common_actions_def action_def order_of_def)

lemma nav_block_orders: "orders_within 50 (50 + int (length (nav_quick_items role))) (nav_actions role)"
proof -
  have "sorted (map (order_of []) (nav_actions role))" by (simp add: nav_orders sorted_map)
  moreover have "list_all (\<lambda>n. 50 \<le> n \<and> n \<le> 50 + int (length (nav_quick_items role))) (map (order_of []) (nav_actions role))"
    unfolding nav_orders by (simp add: list_all_iff)
  ultimately show ?thesis by (simp add: orders_within_def list_all_iff)
qed

lemma orders_append:
  "orders_within a b xs \<Longrightarrow> orders_within c d ys \<Longrightarrow> b \<le> c \<Longrightarrow> a \<le> c \<Longrightarrow> b \<le> d \<Longrightarrow> orders_within a d (xs @ ys)"
  by (fastforce simp: orders_within_def sorted_append list_all_iff)

text \<open>Without a custom order the sorted list is the list as it was built.\<close>

lemma default_order_kept: "sortActions [] (getDefaultActionsForContext pt role) = getDefaultActionsForContext pt role"
proof -
  have "orders_within 40 (50 + int (length (nav_quick_items role))) (common_actions role @ nav_actions role)"
    by (rule orders_append [OF block_orders(4) nav_block_orders]) simp_all
  from orders_append [OF block_orders(3) this, of pt]
  have "orders_within 30 (50 + int (length (nav_quick_items role))) (export_actions pt @ common_actions role @ nav_actions role)"
    by simp
  from orders_append [OF block_orders(2) this, of role]
  have "orders_within 20 (50 + int (length (nav_quick_items role)))
      (communication_actions role @ export_actions pt @ common_actions role @ nav_actions role)" by simp
  from orders_append [OF block_orders(1) this, of pt role]
  have "sorted (map (order_of []) (getDefaultActionsForContext pt role))"
    by (simp add: orders_within_def getDefaultActionsForContext_def)
  then show ?thesis unfolding sortActions_def by (rule sort_key_sorted)
qed

text \<open>And no two actions share an id, so pinning by id is unambiguous.\<close>

lemma nav_quick_distinct: "distinct (map fl_href (nav_quick_items role))"
  using flat_hrefs_distinct [OF role_config_wf, of role role] unfolding nav_quick_items_def
  by (rule distinct_map_filter)

definition fixed_action_ids :: "string list" where
  "fixed_action_ids = [''new-program'', ''new-client'', ''new-partner'', ''new-task''] @
     [''new-communication'', ''new-escalation''] @ [''export-csv'', ''export-pdf''] @ [''review-pending'']"

lemma fixed_action_ids: "distinct fixed_action_ids" "list_all (\<lambda>x. \<not> starts_with ''nav-'' x) fixed_action_ids"
  by (simp_all add: fixed_action_ids_def starts_with_def)

lemma fixed_ids:
  "subseq (map qa_id (create_actions pt role @ communication_actions role @ export_actions pt @ common_actions role))
     fixed_action_ids"
  unfolding map_append block_ids fixed_action_ids_def by (intro list_emb_append_mono) simp_all

lemma default_ids_distinct: "distinct (map qa_id (getDefaultActionsForContext pt role))"
proof -
  let ?fixed = "map qa_id (create_actions pt role @ communication_actions role @ export_actions pt @ common_actions role)"
  have nav: "distinct (map qa_id (nav_actions role))"
    unfolding nav_action_ids using nav_quick_distinct [of role] by (simp add: distinct_map inj_on_def)
  have fixed: "distinct ?fixed"
    using fixed_ids [of pt role] fixed_action_ids(1) unfolding subseq_conv_nths by (metis distinct_nthsI)
  have "set ?fixed \<inter> set (map qa_id (nav_actions role)) = {}"
  proof (rule ccontr)
    assume "set ?fixed \<inter> set (map qa_id (nav_actions role)) \<noteq> {}"
    then obtain x where x: "x \<in> set ?fixed" "x \<in> set (map qa_id (nav_actions role))" by blast
    from list_emb_set [OF fixed_ids x(1)] have "x \<in> set fixed_action_ids" by blast
    with fixed_action_ids(2) nav_ids [of x role] x(2) show False by (simp add: list_all_iff)
  qed
  with nav fixed have "distinct (?fixed @ map qa_id (nav_actions role))" by (simp only: distinct_append)
  moreover have "map qa_id (getDefaultActionsForContext pt role) = ?fixed @ map qa_id (nav_actions role)"
    by (simp only: getDefaultActionsForContext_def map_append append_assoc)
  ultimately show ?thesis by simp
qed

section \<open>Search results\<close>

lemma sorted_same_values: "sorted (map (\<lambda>x. - f x) (filter (\<lambda>x. f x = (k::int)) xs))"
  by (induction xs) auto

lemma sort_by_rank:
  assumes "list_all (\<lambda>x. f x = 3 \<or> f x = 2 \<or> f x = (1::int)) xs"
  shows "sort_key (\<lambda>x. - f x) xs = filter (\<lambda>x. f x = 3) xs @ filter (\<lambda>x. f x = 2) xs @ filter (\<lambda>x. f x = 1) xs"
proof (rule properties_for_sort_key)
  show "mset (filter (\<lambda>x. f x = 3) xs @ filter (\<lambda>x. f x = 2) xs @ filter (\<lambda>x. f x = 1) xs) = mset xs"
    using assms by (induction xs) auto
  show "filter (\<lambda>x. - f k = - f x) (filter (\<lambda>x. f x = 3) xs @ filter (\<lambda>x. f x = 2) xs @ filter (\<lambda>x. f x = 1) xs)
      = filter (\<lambda>x. - f k = - f x) xs"
    if "k \<in> set (filter (\<lambda>x. f x = 3) xs @ filter (\<lambda>x. f x = 2) xs @ filter (\<lambda>x. f x = 1) xs)" for k
    using that by (auto simp: conj_commute cong: conj_cong)
  show "sorted (map (\<lambda>x. - f x) (filter (\<lambda>x. f x = 3) xs @ filter (\<lambda>x. f x = 2) xs @ filter (\<lambda>x. f x = 1) xs))"
    by (auto simp: sorted_append sorted_same_values)
qed

lemma action_score_range: "action_score q a \<in> {0, 1, 2, 3}"
  by (simp add: action_score_def Let_def)

text \<open>C40.  The search lists first the actions whose label begins with the trimmed, lower-case query,
  then those that contain it, then those that only mention it, each in the given order.\<close>

theorem search_ranks:
  "search_actions as query =
     (let q = lower (trim query) in
      if q = [] then as
      else filter (\<lambda>a. starts_with q (lower (qa_label a))) as @
           filter (\<lambda>a. \<not> starts_with q (lower (qa_label a)) \<and> str_includes q (lower (qa_label a))) as @
           filter (\<lambda>a. \<not> starts_with q (lower (qa_label a)) \<and> \<not> str_includes q (lower (qa_label a)) \<and>
             (case qa_description a of None \<Rightarrow> False | Some d \<Rightarrow> str_includes q (lower d))) as)"
proof (cases "lower (trim query) = []")
  case False
  define q where "q = lower (trim query)"
  have "str_includes q [] = False" using False by (simp add: q_def)
  then have bands: "action_score q a = 3 \<longleftrightarrow> starts_with q (lower (qa_label a))"
    "action_score q a = 2 \<longleftrightarrow> \<not> starts_with q (lower (qa_label a)) \<and> str_includes q (lower (qa_label a))"
    "action_score q a = 1 \<longleftrightarrow> \<not> starts_with q (lower (qa_label a)) \<and> \<not> str_includes q (lower (qa_label a)) \<and>
       (case qa_description a of None \<Rightarrow> False | Some d \<Rightarrow> str_includes q (lower d))" for a
    by (simp_all add: action_score_def Let_def split: option.split)
  let ?ps = "filter (\<lambda>p. snd p > 0) (map (\<lambda>a. (a, action_score q a)) as)"
  have range: "list_all (\<lambda>p. snd p = 3 \<or> snd p = 2 \<or> snd p = 1) ?ps"
  proof (induction as)
    case (Cons a as)
    then show ?case using action_score_range [of q a] by auto
  qed simp
  have band: "map fst (filter (\<lambda>p. snd p = k) ?ps) = filter (\<lambda>a. action_score q a = k) as" if "0 < k" for k
    using that by (induction as) auto
  have "search_actions as query = map fst (filter (\<lambda>p. snd p = 3) ?ps @ filter (\<lambda>p. snd p = 2) ?ps @ filter (\<lambda>p. snd p = 1) ?ps)"
    using False sort_by_rank [OF range] by (simp add: search_actions_def q_def Let_def)
  also have "\<dots> = filter (\<lambda>a. action_score q a = 3) as @ filter (\<lambda>a. action_score q a = 2) as @
      filter (\<lambda>a. action_score q a = 1) as"
    by (simp only: map_append band zero_less_numeral zero_less_one)
  finally have "search_actions as query = \<dots>" .
  with False show ?thesis unfolding q_def [symmetric] Let_def by (simp add: bands)
qed (simp add: search_actions_def)

section \<open>Menu and bar\<close>

lemma add_to_group_mset:
  "mset (concat (map snd (add_to_group a groups))) = mset (concat (map snd groups)) + {#a#}"
proof -
  have "mset (concat (map snd (AList.update k ((case map_of gs k of None \<Rightarrow> [] | Some xs \<Rightarrow> xs) @ [a]) gs)))
      = mset (concat (map snd gs)) + {#a#}" for k gs
    by (induction gs) auto
  then show ?thesis by (simp add: add_to_group_def)
qed

lemma groups_mset: "mset (concat (map snd (groupActionsByCategory as))) = mset as"
proof -
  have "mset (concat (map snd (fold add_to_group as gs))) = mset (concat (map snd gs)) + mset as" for gs
    by (induction as arbitrary: gs) (simp_all add: add_to_group_mset)
  moreover have "mset (concat (map snd (sort_key f gs))) = mset (concat (map snd gs))"
    for f :: "string \<times> quick_action list \<Rightarrow> int" and gs
    unfolding mset_concat by (simp add: sum_mset_sum_list [symmetric] del: sum_mset_sum_list flip: mset_map) (simp add: image_mset.compositionality)
  ultimately show ?thesis by (simp add: groupActionsByCategory_def)
qed

lemma pins_filter:
  assumes "distinct (map qa_id as)" "set pins \<subseteq> set as"
  shows "filter (\<lambda>a. \<not> list_ex (\<lambda>p. qa_id p = qa_id a) pins) as = filter (\<lambda>a. a \<notin> set pins) as"
  using assms by (intro filter_cong) (auto simp: list_ex_iff distinct_map inj_on_def)

lemma split_mset:
  assumes "distinct as" "distinct pins" "set pins \<subseteq> set as"
  shows "mset (pins @ filter (\<lambda>a. a \<notin> set pins) as) = mset as"
  using assms by (intro set_eq_iff_mset_eq_distinct [THEN iffD1]) auto

text \<open>The bar shows at most three pinned actions first, then the others, and in all every action
  once.\<close>

theorem bar_shows_each_action_once:
  assumes "distinct (map qa_id as)"
  shows "mset (bar_actions as (pinnedActions s as)) = mset as \<and>
    take 3 (bar_actions as (pinnedActions s as))
      = take 3 (pinnedActions s as @ filter (\<lambda>a. qa_id a \<notin> set (pinned s)) as)"
proof -
  let ?pins = "slice_to 3 (pinnedActions s as)"
  have sub: "set ?pins \<subseteq> set as" by (auto simp: slice_to_def pinnedActions_def dest: in_set_takeD)
  have d: "distinct as" "distinct ?pins"
    using assms by (auto simp: distinct_map slice_to_def pinnedActions_def)
  have bar: "bar_actions as (pinnedActions s as) = ?pins @ filter (\<lambda>a. a \<notin> set ?pins) as"
    by (simp add: bar_actions_def Let_def pins_filter [OF assms sub])
  show ?thesis
  proof
    show "mset (bar_actions as (pinnedActions s as)) = mset as"
      unfolding bar by (rule split_mset [OF d sub])
    show "take 3 (bar_actions as (pinnedActions s as))
        = take 3 (pinnedActions s as @ filter (\<lambda>a. qa_id a \<notin> set (pinned s)) as)"
    proof (cases "3 \<le> length (pinnedActions s as)")
      case True
      then show ?thesis unfolding bar by (simp add: slice_to_def)
    next
      case False
      then have "?pins = pinnedActions s as" by (simp add: slice_to_def)
      moreover have "filter (\<lambda>a. a \<notin> set (pinnedActions s as)) as = filter (\<lambda>a. qa_id a \<notin> set (pinned s)) as"
        by (intro filter_cong) (auto simp: pinnedActions_def)
      ultimately show ?thesis unfolding bar by simp
    qed
  qed
qed

lemma bar_shows_each_action_once_witness:
  "mset (bar_actions (getDefaultActionsForContext P_programs ''coordinator'')
      (pinnedActions (loadState (Some ([''export-csv''], []))) (getDefaultActionsForContext P_programs ''coordinator'')))
    = mset (getDefaultActionsForContext P_programs ''coordinator'')"
  using bar_shows_each_action_once [OF default_ids_distinct [of P_programs "''coordinator''"],
      of "loadState (Some ([''export-csv''], []))"] by blast

text \<open>The menu shows every action once: the pinned ones on top, the others under their category.\<close>

lemma menu_shows_each_action_once:
  assumes "distinct (map qa_id as)"
  shows "mset (pinnedActions s as @ concat (map snd (menu_sections as (pinnedActions s as)))) = mset as"
proof -
  let ?pins = "pinnedActions s as"
  let ?keep = "filter (\<lambda>a. \<not> list_ex (\<lambda>p. qa_id p = qa_id a) ?pins)"
  have "concat (map snd (filter (\<lambda>(c, xs). xs \<noteq> []) gs)) = concat (map snd gs)" for gs :: "(string \<times> quick_action list) list"
    by (induction gs) auto
  then have "concat (map snd (menu_sections as ?pins)) = ?keep (concat (map snd (groupActionsByCategory as)))"
    by (simp add: menu_sections_def filter_concat comp_def case_prod_unfold)
  then have "mset (concat (map snd (menu_sections as ?pins))) = mset (?keep as)"
    by (simp only: mset_filter groups_mset)
  moreover have "set ?pins \<subseteq> set as" by (auto simp: pinnedActions_def)
  moreover have "distinct as" "distinct ?pins" using assms by (auto simp: distinct_map pinnedActions_def)
  ultimately show ?thesis
    using split_mset [of as ?pins] by (simp add: pins_filter [OF assms])
qed

section \<open>What a reload gives back\<close>

datatype qa_op =
    OPin string
  | OUnpin string
  | OToggle string
  | OReorder string int
  | OExecute quick_action
  | OOpen
  | OClose
  | OToggleMenu
  | OMenuKey key_event
  | OActionKey "quick_action list" key_event

text \<open>Each operation comes with whether the storage refuses a write at that time.\<close>

fun qa_step :: "qa_world \<Rightarrow> bool \<times> qa_op \<Rightarrow> qa_world" where
  "qa_step w (full, OPin i) = pinAction full i w"
| "qa_step w (full, OUnpin i) = unpinAction full i w"
| "qa_step w (full, OToggle i) = togglePin full i w"
| "qa_step w (full, OReorder i n) = reorderAction full i n w"
| "qa_step w (full, OExecute a) = executeAction a w"
| "qa_step w (full, OOpen) = openMenu w"
| "qa_step w (full, OClose) = closeMenu w"
| "qa_step w (full, OToggleMenu) = toggleMenu w"
| "qa_step w (full, OMenuKey e) = menu_key e w"
| "qa_step w (full, OActionKey as e) = action_key as e w"

definition qa_start :: "qa_saved \<Rightarrow> qa_world" where
  "qa_start c = \<lparr> st = loadState c, cell = c, effects = [] \<rparr>"

definition saved_state :: "qa_world \<Rightarrow> bool" where
  "saved_state w = (loadState (cell w) = (st w)\<lparr> isOpen := False \<rparr>)"

lemma saved_state_step: "saved_state w \<Longrightarrow> \<not> fst e \<Longrightarrow> saved_state (qa_step w e)"
proof -
  have full: "saved_state (save False s w)" for s w
    by (simp add: saved_state_def save_def loadState_def)
  have menu: "saved_state w \<Longrightarrow> saved_state (w\<lparr> effects := x, st := (st w)\<lparr> isOpen := b \<rparr> \<rparr>)"
    "saved_state w \<Longrightarrow> saved_state (w\<lparr> st := (st w)\<lparr> isOpen := b \<rparr> \<rparr>)" for w b x
    by (simp_all add: saved_state_def)
  show "saved_state w \<Longrightarrow> \<not> fst e \<Longrightarrow> saved_state (qa_step w e)"
    by (cases "(w, e)" rule: qa_step.cases)
       (auto simp: pinAction_def unpinAction_def togglePin_def reorderAction_def executeAction_def openMenu_def
         closeMenu_def toggleMenu_def menu_key_def action_key_def split: option.split intro: full menu)
qed

interpretation saving: guarded_machine qa_step "\<lambda>e. \<not> fst e" saved_state
  by unfold_locales (rule saved_state_step)

text \<open>As long as no write is refused, a reload at any moment gives back the pins and the custom
  order, with the menu closed.\<close>

theorem pins_survive_reload:
  assumes "list_all (\<lambda>e. \<not> fst e) es"
  shows "loadState (cell (run qa_step es (qa_start c))) = (st (run qa_step es (qa_start c)))\<lparr> isOpen := False \<rparr>"
proof -
  have "saved_state (qa_start c)"
    by (auto simp: saved_state_def qa_start_def loadState_def split: option.split)
  from saving.run_inv [OF this assms] show ?thesis by (simp add: saved_state_def)
qed

lemma pins_survive_reload_witness:
  "loadState (cell (run qa_step [(False, OPin ''a''), (False, OOpen), (False, OReorder ''a'' 7)] (qa_start None)))
     = \<lparr> pinned = [''a''], customOrder = [(''a'', 7)], isOpen = False \<rparr>"
  using pins_survive_reload [of "[(False, OPin ''a''), (False, OOpen), (False, OReorder ''a'' 7)]" None]
  by (simp add: qa_start_def loadState_def pinAction_def save_def openMenu_def reorderAction_def)

lemma pins_distinct_step: "distinct (pinned (st w)) \<Longrightarrow> distinct (pinned (st (qa_step w e)))"
  by (cases "(w, e)" rule: qa_step.cases)
     (auto simp: pinAction_def unpinAction_def togglePin_def reorderAction_def executeAction_def openMenu_def
       closeMenu_def toggleMenu_def menu_key_def action_key_def save_def split: option.split)

interpretation pins: machine qa_step "\<lambda>w. distinct (pinned (st w))"
  by unfold_locales (rule pins_distinct_step)

lemma pins_stay_distinct: "distinct (pinned (st (run qa_step es (qa_start None))))"
  by (rule pins.every_run_inv) (simp add: qa_start_def loadState_def)

text \<open>Two users of the same key, the provider and the stand-alone registry (or two tabs), overwrite
  each other: both load an empty cell, and the second pin loses the first.\<close>

lemma second_instance_overwrites:
  "let a = pinAction False ''x'' (qa_start None);
       b = pinAction False ''y'' ((qa_start None)\<lparr> cell := cell a \<rparr>)
   in pinned (loadState (cell b)) = [''y'']"
  by (simp add: pinAction_def save_def qa_start_def loadState_def)

end
