(* ===== verification/QuickActionsBar.thy ===== *)
theory QuickActionsBar
  imports Keyboard Machines
begin

text \<open>
  The state of the quick actions bar (\<open>frontend/src/hooks/use-quick-actions-bar.ts\<close>): its
  configuration, visibility with the hiding timer, focus, customisation and dragging, the
  keys of the bar and the global key that focuses it.

  The number of actions and the merged configuration are parameters of a hook call
  (\<open>bar_env\<close>); activated actions are recorded.  Focus and blur of the element arrive as events.
\<close>

section \<open>Configuration\<close>

text \<open>The own enumerable properties that \<open>{...v}\<close> copies.\<close>

fun own_props :: "jsv \<Rightarrow> jsobj" where
  "own_props (JObj kvs) = kvs"
| "own_props (JArr xs) = map (\<lambda>(i, x). (nat_text i, x)) (enumerate 0 xs)"
| "own_props (JStr s) = map (\<lambda>(i, c). (nat_text i, JStr [c])) (enumerate 0 s)"
| "own_props v = []"

definition DEFAULT_CONFIG :: jsobj where
  "DEFAULT_CONFIG =
     [(''position'', JStr ''bottom-center''), (''mode'', JStr ''auto''),
      (''focusShortcut'', JStr [CHR 0x27]), (''focusShortcutMetaKey'', JBool False),
      (''autoHideTimeout'', JNum 3000), (''maxActions'', JNum 8), (''showLabels'', JBool True),
      (''showShortcuts'', JBool True), (''allowCustomization'', JBool True)]"

text \<open>\<open>stored\<close>: what \<open>JSON.parse\<close> makes of the saved text, \<open>None\<close> when there is none or it is damaged.\<close>

definition loadConfig :: "jsv option \<Rightarrow> jsobj" where
  "loadConfig stored =
     (case stored of None \<Rightarrow> DEFAULT_CONFIG | Some v \<Rightarrow> spread DEFAULT_CONFIG (own_props v))"

definition mergedConfig :: "jsv option \<Rightarrow> jsobj option \<Rightarrow> jsobj" where
  "mergedConfig stored config =
     spread (loadConfig stored) (case config of None \<Rightarrow> [] | Some c \<Rightarrow> c)"

record bar_env =
  actionCount :: int
  config :: jsobj

definition bar_mode :: "bar_env \<Rightarrow> jsv" where
  "bar_mode env = prop_of (config env) ''mode''"

section \<open>State and operations\<close>

record bar =
  isVisible :: bool
  isFocused :: bool
  focusedIndex :: int
  customizeMode :: bool
  draggingActionId :: "string option"
  hideTimer :: bool
  activated :: "int list"

definition bar_init :: "bar_env \<Rightarrow> bar" where
  "bar_init env =
     \<lparr> isVisible = (bar_mode env = JStr ''always''), isFocused = False, focusedIndex = - 1,
       customizeMode = False, draggingActionId = None, hideTimer = False, activated = [] \<rparr>"

definition clearHideTimeout :: "bar \<Rightarrow> bar" where
  "clearHideTimeout b = b\<lparr> hideTimer := False \<rparr>"

definition startAutoHide :: "bar_env \<Rightarrow> bar \<Rightarrow> bar" where
  "startAutoHide env b =
     (if bar_mode env \<noteq> JStr ''auto'' then b else (clearHideTimeout b)\<lparr> hideTimer := True \<rparr>)"

definition hide_timer_fires :: "bar \<Rightarrow> bar" where
  "hide_timer_fires b =
     (if \<not> hideTimer b then b
      else (if isFocused b then b else b\<lparr> isVisible := False \<rparr>)\<lparr> hideTimer := False \<rparr>)"

definition showBar :: "bar_env \<Rightarrow> bar \<Rightarrow> bar" where
  "showBar env b =
     (let b' = (clearHideTimeout b)\<lparr> isVisible := True \<rparr> in
      if bar_mode env = JStr ''auto'' then startAutoHide env b' else b')"

definition hideBar :: "bar \<Rightarrow> bar" where
  "hideBar b = (clearHideTimeout b)\<lparr> isVisible := False, isFocused := False, focusedIndex := - 1,
     customizeMode := False \<rparr>"

definition toggleBar :: "bar \<Rightarrow> bar" where
  "toggleBar b =
     (if isVisible b
      then (clearHideTimeout b)\<lparr> isVisible := False, isFocused := False, focusedIndex := - 1 \<rparr>
      else b\<lparr> isVisible := True \<rparr>)"

definition focusBar :: "bar \<Rightarrow> bar" where
  "focusBar b = (clearHideTimeout b)\<lparr> isVisible := True, isFocused := True, focusedIndex := - 1 \<rparr>"

definition focusNext :: "bar_env \<Rightarrow> bar \<Rightarrow> bar" where
  "focusNext env b =
     b\<lparr> focusedIndex := (if focusedIndex b \<ge> actionCount env - 1 then 0 else focusedIndex b + 1),
        isVisible := True \<rparr>"

definition focusPrevious :: "bar_env \<Rightarrow> bar \<Rightarrow> bar" where
  "focusPrevious env b =
     b\<lparr> focusedIndex := (if focusedIndex b \<le> 0 then actionCount env - 1 else focusedIndex b - 1),
        isVisible := True \<rparr>"

definition focusAction :: "bar_env \<Rightarrow> int \<Rightarrow> bar \<Rightarrow> bar" where
  "focusAction env index b =
     (if index < 0 \<or> index \<ge> actionCount env then b else b\<lparr> focusedIndex := index, isVisible := True \<rparr>)"

definition activateFocused :: "bar_env \<Rightarrow> bar \<Rightarrow> bar" where
  "activateFocused env b =
     (if focusedIndex b \<ge> 0 \<and> focusedIndex b < actionCount env
      then b\<lparr> activated := activated b @ [focusedIndex b] \<rparr> else b)"

definition enterCustomizeMode :: "bar \<Rightarrow> bar" where "enterCustomizeMode b = b\<lparr> customizeMode := True \<rparr>"
definition exitCustomizeMode :: "bar \<Rightarrow> bar" where "exitCustomizeMode b = b\<lparr> customizeMode := False \<rparr>"
definition startDrag :: "string \<Rightarrow> bar \<Rightarrow> bar" where "startDrag i b = b\<lparr> draggingActionId := Some i \<rparr>"
definition endDrag :: "bar \<Rightarrow> bar" where "endDrag b = b\<lparr> draggingActionId := None \<rparr>"

definition escape :: "bar \<Rightarrow> bar" where
  "escape b =
     (if customizeMode b then exitCustomizeMode b
      else if focusedIndex b \<ge> 0 then b\<lparr> focusedIndex := - 1 \<rparr>
      else hideBar b)"

text \<open>A key pressed in the bar; the result says whether the browser's default was prevented.\<close>

definition bar_key :: "bar_env \<Rightarrow> string \<Rightarrow> bar \<Rightarrow> bool \<times> bar" where
  "bar_key env k b =
     (if k = ''ArrowRight'' \<or> k = ''ArrowDown'' then (True, focusNext env b)
      else if k = ''ArrowLeft'' \<or> k = ''ArrowUp'' then (True, focusPrevious env b)
      else if k = ''Enter'' \<or> k = '' '' then (True, activateFocused env b)
      else if k = ''Escape'' then (True, escape b)
      else if k = ''Home'' then (True, focusAction env 0 b)
      else if k = ''End'' then (True, focusAction env (actionCount env - 1) b)
      else (False, b))"

text \<open>The global key.  The configured shortcut is a text, the meta flag any value.\<close>

definition global_key :: "bar_env \<Rightarrow> key_event \<Rightarrow> bar \<Rightarrow> bool \<times> bar" where
  "global_key env e b =
     (if ev_key e = [] then (False, b)
      else
        (let shortcut = (case prop_of (config env) ''focusShortcut'' of JStr s \<Rightarrow> s | _ \<Rightarrow> []);
             matchesKey = (lower shortcut = lower (ev_key e));
             matchesMeta = (if truthy (prop_of (config env) ''focusShortcutMetaKey'') then ev_meta e \<or> ev_ctrl e
                            else \<not> ev_meta e \<and> \<not> ev_ctrl e)
         in if matchesKey \<and> matchesMeta \<and> \<not> isInputElement (ev_target e) then (True, focusBar b) else (False, b)))"

definition bar_focus :: "bar \<Rightarrow> bar" where
  "bar_focus b = (clearHideTimeout b)\<lparr> isFocused := True, isVisible := True \<rparr>"

definition bar_blur :: "bar_env \<Rightarrow> bar \<Rightarrow> bar" where
  "bar_blur env b = startAutoHide env (b\<lparr> isFocused := False, focusedIndex := - 1 \<rparr>)"

definition getBarPositionClasses :: "string \<Rightarrow> string option" where
  "getBarPositionClasses position =
     map_of [(''bottom-center'', ''bottom-6 left-1/2 -translate-x-1/2''), (''bottom-left'', ''bottom-6 left-6''),
       (''bottom-right'', ''bottom-6 right-6''), (''top-center'', ''top-20 left-1/2 -translate-x-1/2''),
       (''top-left'', ''top-20 left-6''), (''top-right'', ''top-20 right-6'')] position"

datatype bar_event =
    BShow | BHide | BToggle | BFocusBar | BNext | BPrevious | BFocusAction int | BActivate
  | BEnter | BExit | BStartDrag string | BEndDrag | BKey string | BGlobalKey key_event
  | BFocus | BBlur | BTimer

fun bar_step :: "bar_env \<Rightarrow> bar \<Rightarrow> bar_event \<Rightarrow> bar" where
  "bar_step env b BShow = showBar env b"
| "bar_step env b BHide = hideBar b"
| "bar_step env b BToggle = toggleBar b"
| "bar_step env b BFocusBar = focusBar b"
| "bar_step env b BNext = focusNext env b"
| "bar_step env b BPrevious = focusPrevious env b"
| "bar_step env b (BFocusAction i) = focusAction env i b"
| "bar_step env b BActivate = activateFocused env b"
| "bar_step env b BEnter = enterCustomizeMode b"
| "bar_step env b BExit = exitCustomizeMode b"
| "bar_step env b (BStartDrag i) = startDrag i b"
| "bar_step env b BEndDrag = endDrag b"
| "bar_step env b (BKey k) = snd (bar_key env k b)"
| "bar_step env b (BGlobalKey e) = snd (global_key env e b)"
| "bar_step env b BFocus = bar_focus b"
| "bar_step env b BBlur = bar_blur env b"
| "bar_step env b BTimer = hide_timer_fires b"

lemmas bar_simps = clearHideTimeout_def startAutoHide_def hide_timer_fires_def showBar_def hideBar_def toggleBar_def
  focusBar_def focusNext_def focusPrevious_def focusAction_def activateFocused_def enterCustomizeMode_def
  exitCustomizeMode_def startDrag_def endDrag_def escape_def bar_focus_def bar_blur_def Let_def

section \<open>What every run keeps\<close>

text \<open>A focused bar is visible, the focused index names an action or nothing, and only such
  actions have been activated.\<close>

definition bar_ok :: "bar_env \<Rightarrow> bar \<Rightarrow> bool" where
  "bar_ok env b =
     ((isFocused b \<longrightarrow> isVisible b) \<and> - 1 \<le> focusedIndex b \<and> focusedIndex b < actionCount env \<and>
      list_all (\<lambda>i. 0 \<le> i \<and> i < actionCount env) (activated b))"

lemma bar_ok_key: "0 < actionCount env \<Longrightarrow> bar_ok env b \<Longrightarrow> bar_ok env (snd (bar_key env k b))"
  by (simp add: bar_key_def) (auto simp: bar_ok_def bar_simps)

lemma bar_ok_global: "bar_ok env b \<Longrightarrow> 0 < actionCount env \<Longrightarrow> bar_ok env (snd (global_key env e b))"
  by (simp add: global_key_def Let_def) (auto simp: bar_ok_def bar_simps)

lemma bar_ok_step: "0 < actionCount env \<Longrightarrow> bar_ok env b \<Longrightarrow> bar_ok env (bar_step env b e)"
proof (cases e)
  case (BKey k)
  then show "0 < actionCount env \<Longrightarrow> bar_ok env b \<Longrightarrow> ?thesis" by (simp add: bar_ok_key)
next
  case (BGlobalKey k)
  then show "0 < actionCount env \<Longrightarrow> bar_ok env b \<Longrightarrow> ?thesis" by (simp add: bar_ok_global)
qed (auto simp: bar_ok_def bar_simps)

interpretation bar: guarded_machine "\<lambda>(env, b) e. (env, bar_step env b e)" "\<lambda>e. True"
  "\<lambda>(env, b). 0 < actionCount env \<and> bar_ok env b"
  by unfold_locales (auto simp: bar_ok_step)

lemma run_pair: "run (\<lambda>(env, b) e. (env, bar_step env b e)) es (env, b) = (env, run (bar_step env) es b)"
  by (induction es arbitrary: b) simp_all

text \<open>With at least one action, whatever is clicked, pressed or fires: the bar is visible while it
  is focused, its focused index is in range or \<open>-1\<close>, and only existing actions are activated.\<close>

theorem bar_invariant:
  assumes "0 < actionCount env"
  shows "bar_ok env (run (bar_step env) es (bar_init env))"
proof -
  have "bar_ok env (bar_init env)" using assms by (simp add: bar_ok_def bar_init_def)
  then show ?thesis
    using bar.run_inv [of "(env, bar_init env)" es] assms by (simp add: run_pair list_all_iff)
qed

definition sample_env :: bar_env where
  "sample_env = \<lparr> actionCount = 3, config = DEFAULT_CONFIG \<rparr>"

lemma bar_invariant_witness:
  "bar_ok sample_env (run (bar_step sample_env) [BFocusBar, BKey ''ArrowLeft'', BActivate, BTimer] (bar_init sample_env))"
  by (rule bar_invariant) (simp add: sample_env_def)

text \<open>Without actions an arrow puts the focus on an action that does not exist; it cannot be
  activated.\<close>

lemma arrow_without_actions:
  "actionCount env = 0 \<Longrightarrow> focusedIndex b = - 1 \<Longrightarrow> focusedIndex (focusNext env b) = 0"
  "actionCount env = 0 \<Longrightarrow> activateFocused env b = b"
  by (simp_all add: focusNext_def activateFocused_def)

section \<open>Arrows and Escape\<close>

lemma focusNext_index:
  assumes "0 < actionCount env" "- 1 \<le> focusedIndex b" "focusedIndex b < actionCount env"
  shows "focusedIndex (focusNext env b) = (focusedIndex b + 1) mod actionCount env"
proof (cases "focusedIndex b = actionCount env - 1")
  case False
  then have "(focusedIndex b + 1) mod actionCount env = focusedIndex b + 1"
    using assms by (intro mod_pos_pos_trivial) auto
  with False assms show ?thesis by (simp add: focusNext_def)
qed (use assms in \<open>simp add: focusNext_def\<close>)

text \<open>From a freshly focused bar, pressing the right arrow \<open>k\<close> times lands on action \<open>k - 1\<close>, and
  round again after the last one.\<close>

theorem arrows_cycle:
  assumes "0 < actionCount env"
  shows "focusedIndex (run (bar_step env) (replicate (Suc k) (BKey ''ArrowRight'')) (focusBar b)) = int k mod actionCount env"
proof (induction k)
  case 0
  show ?case using assms by (simp add: bar_key_def focusNext_index focusBar_def)
next
  case (Suc k)
  let ?b = "run (bar_step env) (replicate (Suc k) (BKey ''ArrowRight'')) (focusBar b)"
  have "focusedIndex (focusNext env ?b) = (focusedIndex ?b + 1) mod actionCount env"
  proof (rule focusNext_index [OF assms])
    show "- 1 \<le> focusedIndex ?b" unfolding Suc using pos_mod_sign [OF assms, of "int k"] by linarith
    show "focusedIndex ?b < actionCount env" unfolding Suc using assms by simp
  qed
  then have "focusedIndex (focusNext env ?b) = int (Suc k) mod actionCount env"
    unfolding Suc by (simp add: mod_simps algebra_simps del: replicate.simps run_Cons)
  moreover have "run (bar_step env) (replicate (Suc (Suc k)) (BKey ''ArrowRight'')) (focusBar b) = focusNext env ?b"
    by (subst replicate_Suc, subst replicate_append_same [symmetric]) (simp add: bar_key_def del: replicate.simps)
  ultimately show ?case by simp
qed

lemma arrows_cycle_witness:
  "focusedIndex (run (bar_step sample_env) (replicate (Suc 3) (BKey ''ArrowRight'')) (focusBar (bar_init sample_env))) = 0"
  using arrows_cycle [of sample_env 3 "bar_init sample_env"] by (simp add: sample_env_def del: replicate.simps)

text \<open>Escape always gets out: after three presses the bar is hidden, whatever mode it was in.\<close>

theorem escape_gets_out:
  "let b' = run (bar_step env) (replicate 3 (BKey ''Escape'')) b
   in \<not> isVisible b' \<and> \<not> isFocused b' \<and> focusedIndex b' < 0 \<and> \<not> customizeMode b'"
proof -
  have esc: "bar_step env c (BKey ''Escape'') = escape c" for c by (simp add: bar_key_def)
  have "run (bar_step env) (replicate 3 (BKey ''Escape'')) b = escape (escape (escape b))"
    by (simp add: numeral_3_eq_3 esc del: bar_step.simps)
  then show ?thesis by (auto simp: bar_simps)
qed

end
