(* ===== verification/Exports.thy ===== *)
theory Exports
  imports JsPrelude Complex_Main
begin

text \<open>
  The exports (\<open>frontend/src/lib/export-utils.ts\<close>): CSV and SpreadsheetML text of a table, the
  downloads, the server-side export; and the paging of the dashboard PDF
  (\<open>lib/dashboard-export.ts\<close>).

  A row is an object and a cell any value.  The reader \<open>csv_read\<close> is the specification of the
  format the writer aims at (RFC 4180 with line feeds), and refuses a text that is not CSV: reading
  gives back the header and the cells when no cell holds a bare carriage return.  The byte order mark before a CSV file is a flag of the download.
  The PDF arithmetic, doubles in the program, is done in rational numbers.
\<close>

section \<open>CSV\<close>

datatype accessor = Key string | Fn "jsobj \<Rightarrow> jsv"

record export_column =
  col_header :: string
  col_accessor :: accessor

definition LF :: char where "LF = char_of (10 :: nat)"

text \<open>\<open>s.replace(/c/g, r)\<close> for a character.\<close>

definition replace_all :: "char \<Rightarrow> string \<Rightarrow> string \<Rightarrow> string" where
  "replace_all c r s = concat (map (\<lambda>x. if x = c then r else [x]) s)"

definition escapeCsvValue :: "jsv \<Rightarrow> string" where
  "escapeCsvValue v =
     (if v = JNull \<or> v = JUndef then []
      else
        (let str = js_string v in
         if CHR '','' \<in> set str \<or> LF \<in> set str \<or> DQ \<in> set str
         then [DQ] @ replace_all DQ [DQ, DQ] str @ [DQ]
         else str))"

definition cell_value :: "jsobj \<Rightarrow> export_column \<Rightarrow> jsv" where
  "cell_value row col = (case col_accessor col of Fn f \<Rightarrow> f row | Key k \<Rightarrow> prop_of row k)"

definition getCellValue :: "jsobj \<Rightarrow> export_column \<Rightarrow> string" where
  "getCellValue row col = escapeCsvValue (cell_value row col)"

definition generateCsv :: "jsobj list \<Rightarrow> export_column list \<Rightarrow> string" where
  "generateCsv rows columns =
     (let header = join_with '','' (map (\<lambda>c. escapeCsvValue (JStr (col_header c))) columns);
          body = join_with [LF] (map (\<lambda>row. join_with '','' (map (getCellValue row) columns)) rows)
      in header @ [LF] @ body)"

section \<open>SpreadsheetML\<close>

definition xmlEscape :: "jsv \<Rightarrow> string" where
  "xmlEscape v =
     (if v = JNull \<or> v = JUndef then []
      else replace_all DQ ''&quot;'' (replace_all CHR ''>'' ''&gt;'' (replace_all CHR ''<'' ''&lt;''
             (replace_all CHR ''&'' ''&amp;'' (js_string v)))))"

definition quoted :: "string \<Rightarrow> string" where
  "quoted s = [DQ] @ s @ [DQ]"

definition xml_cell :: "jsv \<Rightarrow> string" where
  "xml_cell v = ''<Cell><Data ss:Type='' @ quoted ''String'' @ ''>'' @ xmlEscape v @ ''</Data></Cell>''"

definition xml_row :: "string list \<Rightarrow> string" where
  "xml_row cells = ''<Row>'' @ concat cells @ ''</Row>''"

definition header_row :: "export_column list \<Rightarrow> string" where
  "header_row columns =
     replace_first ''<Row>'' (''<Row ss:StyleID='' @ quoted ''header'' @ ''>'')
       (xml_row (map (\<lambda>c. xml_cell (JStr (col_header c))) columns))"

definition data_row :: "export_column list \<Rightarrow> jsobj \<Rightarrow> string" where
  "data_row columns row = xml_row (map (\<lambda>col. xml_cell (cell_value row col)) columns)"

definition ns :: "string \<Rightarrow> string" where
  "ns s = quoted (''urn:schemas-microsoft-com:office:'' @ s)"

definition generateXlsx :: "jsobj list \<Rightarrow> export_column list \<Rightarrow> string \<Rightarrow> string" where
  "generateXlsx rows columns sheetName =
     ''<?xml version='' @ quoted ''1.0'' @ '' encoding='' @ quoted ''UTF-8'' @ ''?>'' @ [LF] @
     ''<?mso-application progid='' @ quoted ''Excel.Sheet'' @ ''?>'' @ [LF] @
     ''<Workbook xmlns='' @ ns ''spreadsheet'' @ [LF] @
     ''  xmlns:ss='' @ ns ''spreadsheet'' @ [LF] @
     ''  xmlns:x='' @ ns ''excel'' @ ''>'' @ [LF] @
     ''  <Styles>'' @ [LF] @
     ''    <Style ss:ID='' @ quoted ''header'' @ ''>'' @ [LF] @
     ''      <Font ss:Bold='' @ quoted ''1'' @ ''/>'' @ [LF] @
     ''    </Style>'' @ [LF] @
     ''  </Styles>'' @ [LF] @
     ''  <Worksheet ss:Name='' @ quoted (xmlEscape (JStr sheetName)) @ ''>'' @ [LF] @
     ''    <Table>'' @ [LF] @
     ''      '' @ header_row columns @ [LF] @
     ''      '' @ join_with ([LF] @ ''      '') (map (data_row columns) rows) @ [LF] @
     ''    </Table>'' @ [LF] @
     ''  </Worksheet>'' @ [LF] @
     ''</Workbook>''"

section \<open>Downloads\<close>

record download =
  d_bom :: bool
  d_content :: string
  d_name :: string
  d_mime :: string

definition exportToCsv :: "jsobj list \<Rightarrow> export_column list \<Rightarrow> string \<Rightarrow> download" where
  "exportToCsv rows columns fileName =
     \<lparr> d_bom = True, d_content = generateCsv rows columns, d_name = fileName @ ''.csv'',
       d_mime = ''text/csv;charset=utf-8'' \<rparr>"

definition exportToXlsx :: "jsobj list \<Rightarrow> export_column list \<Rightarrow> string \<Rightarrow> string option \<Rightarrow> download" where
  "exportToXlsx rows columns fileName sheetName =
     \<lparr> d_bom = False,
       d_content = generateXlsx rows columns (case sheetName of None \<Rightarrow> fileName | Some s \<Rightarrow> s),
       d_name = fileName @ ''.xls'', d_mime = ''application/vnd.ms-excel'' \<rparr>"

definition exportData :: "jsobj list \<Rightarrow> export_column list \<Rightarrow> string \<Rightarrow> string \<Rightarrow> download" where
  "exportData rows columns fileName format =
     (if format = ''csv'' then exportToCsv rows columns fileName
      else exportToXlsx rows columns fileName None)"

definition server_export_url :: "string \<Rightarrow> string \<Rightarrow> string" where
  "server_export_url url format =
     url @ (if CHR ''?'' \<in> set url then ''&'' else ''?'') @ ''format='' @ format"

text \<open>The response: its status text when it is not ok, or its body.\<close>

definition downloadServerExport :: "string + string \<Rightarrow> string \<Rightarrow> string \<Rightarrow> string + string \<times> string" where
  "downloadServerExport response format fileName =
     (case response of
        Inl statusText \<Rightarrow> Inl (''Export failed: '' @ statusText)
      | Inr blob \<Rightarrow> Inr (fileName @ ''.'' @ (if format = ''csv'' then ''csv'' else ''xls''), blob))"

text \<open>The menu of a table (\<open>components/ui/data-table-export.tsx\<close>).\<close>

definition handleExport :: "export_column list \<Rightarrow> string \<Rightarrow> jsobj list \<Rightarrow> string \<Rightarrow> string \<Rightarrow> download" where
  "handleExport columns fileName rows format label =
     exportData rows columns (fileName @ ''-'' @ label) format"

definition handleGoogleSheets :: "export_column list \<Rightarrow> string \<Rightarrow> jsobj list \<Rightarrow> download \<times> string" where
  "handleGoogleSheets columns fileName rows =
     (exportData rows columns (fileName @ ''-google-sheets'') ''csv'', ''https://sheets.new'')"

text \<open>The files a menu offers without the server: the visible rows, the selected and all of them.\<close>

definition menu_files :: "export_column list \<Rightarrow> string \<Rightarrow> jsobj list \<Rightarrow> jsobj list option \<Rightarrow> jsobj list option \<Rightarrow>
    download list" where
  "menu_files columns fileName visibleRows selectedRows allRows =
     (let both = (\<lambda>rows label. [handleExport columns fileName rows ''csv'' label,
                                handleExport columns fileName rows ''xlsx'' label]);
          part = (\<lambda>rows label. case rows of Some (r # rs) \<Rightarrow> both (r # rs) label | _ \<Rightarrow> [])
      in both visibleRows ''view'' @ [fst (handleGoogleSheets columns fileName visibleRows)] @
         part selectedRows ''selected'' @ part allRows ''all'')"

section \<open>The PDF of the dashboard\<close>

definition EXPORT_SCALE :: rat where "EXPORT_SCALE = 2"
definition PDF_MARGIN :: rat where "PDF_MARGIN = 20"

definition imgWidth :: rat where "imgWidth = 210 - 2 * PDF_MARGIN"
definition pageHeight :: rat where "pageHeight = 297 - 2 * PDF_MARGIN"

definition headerHeight :: rat where "headerHeight = 100 * EXPORT_SCALE"

record canvas =
  cv_width :: rat
  cv_height :: rat

definition buildHeaderCanvas :: "rat \<Rightarrow> canvas" where
  "buildHeaderCanvas width = \<lparr> cv_width = width, cv_height = headerHeight \<rparr>"

definition mergeCanvases :: "canvas \<Rightarrow> canvas \<Rightarrow> canvas" where
  "mergeCanvases header content =
     \<lparr> cv_width = cv_width content, cv_height = cv_height header + cv_height content \<rparr>"

definition scale_ratio :: "canvas \<Rightarrow> rat" where
  "scale_ratio canvas = imgWidth / (cv_width canvas / EXPORT_SCALE)"

definition imgHeight :: "canvas \<Rightarrow> rat" where
  "imgHeight canvas = cv_height canvas / EXPORT_SCALE * scale_ratio canvas"

text \<open>
  A page: the slice of the canvas it shows, the height of the canvas it is drawn on (an
  integer: the assignment to \<open>canvas.height\<close> drops the fraction), the height of the picture on
  paper and the number in the footer.
\<close>

record page =
  sourceY :: rat
  sourceHeight :: rat
  drawn_height :: int
  sliceHeight :: rat
  page_no :: nat

definition page_at :: "canvas \<Rightarrow> rat \<Rightarrow> nat \<Rightarrow> page" where
  "page_at canvas position pageNum =
     (let ratio = scale_ratio canvas;
          y = position / ratio * EXPORT_SCALE;
          h = min (pageHeight / ratio * EXPORT_SCALE) (cv_height canvas - y)
      in \<lparr> sourceY = y, sourceHeight = h, drawn_height = \<lfloor>h\<rfloor>, sliceHeight = h / EXPORT_SCALE * ratio,
           page_no = pageNum + 1 \<rparr>)"

function pdf_pages :: "canvas \<Rightarrow> rat \<Rightarrow> nat \<Rightarrow> page list" where
  "pdf_pages canvas position pageNum =
     (if position < imgHeight canvas
      then page_at canvas position pageNum # pdf_pages canvas (position + pageHeight) (pageNum + 1)
      else [])"
  by pat_completeness auto
termination
  apply (relation "measure (\<lambda>(canvas, position, pageNum). nat \<lceil>imgHeight canvas - position\<rceil>)")
   apply simp
  apply (simp add: pageHeight_def PDF_MARGIN_def zless_nat_eq_int_zless)
  apply linarith
  done

declare pdf_pages.simps [simp del]

definition exportPDF :: "canvas \<Rightarrow> page list" where
  "exportPDF canvas = pdf_pages canvas 0 0"

text \<open>The container is the size of its capture; \<open>None\<close> when the selector matches nothing.\<close>

definition exportDashboard :: "string \<Rightarrow> canvas option \<Rightarrow> bool \<Rightarrow> string \<Rightarrow> string \<Rightarrow>
    string + string \<times> canvas \<times> page list" where
  "exportDashboard containerSelector container includeHeader format timestamp =
     (case container of
        None \<Rightarrow> Inl (''Dashboard container not found: '' @ containerSelector)
      | Some contentCanvas \<Rightarrow>
          (let finalCanvas =
                 (if includeHeader then mergeCanvases (buildHeaderCanvas (cv_width contentCanvas)) contentCanvas
                  else contentCanvas);
               baseName = ''amg-dashboard-'' @ timestamp
           in Inr (if format = ''pdf'' then (baseName @ ''.pdf'', finalCanvas, exportPDF finalCanvas)
                   else (baseName @ ''.png'', finalCanvas, []))))"

section \<open>Reading a CSV text\<close>

text \<open>The grammar of RFC 4180 with the line feed as line break: an unquoted field holds no quote, comma,
  carriage return or line feed; a quoted one anything, with its quotes doubled, and ends before a comma,
  a line break or the end; the last line may end with a line break.  \<open>None\<close>: the text is not CSV.\<close>

fun read_quoted :: "string \<Rightarrow> (string \<times> string) option" where
  "read_quoted [] = None"
| "read_quoted (c # s) =
     (if c = DQ then
        (case s of
           d # t \<Rightarrow> if d = DQ then map_option (apfst (Cons DQ)) (read_quoted t) else Some ([], s)
         | [] \<Rightarrow> Some ([], []))
      else map_option (apfst (Cons c)) (read_quoted s))"

definition CR :: char where "CR = char_of (13 :: nat)"

definition bare :: "char \<Rightarrow> bool" where
  "bare c \<longleftrightarrow> c \<noteq> CHR '','' \<and> c \<noteq> LF \<and> c \<noteq> CR \<and> c \<noteq> DQ"

definition read_field :: "string \<Rightarrow> (string \<times> string) option" where
  "read_field s =
     (case s of
        c # t \<Rightarrow> if c = DQ then read_quoted t else Some (takeWhile bare s, dropWhile bare s)
      | [] \<Rightarrow> Some ([], []))"

lemma read_quoted_length: "read_quoted s = Some (f, r) \<Longrightarrow> length r \<le> length s"
proof (induction s arbitrary: f r rule: read_quoted.induct)
  case (2 c s)
  then show ?case by (cases s) (fastforce split: if_splits)+
qed simp

lemma read_field_length: "read_field s = Some (f, r) \<Longrightarrow> length r \<le> length s"
proof (cases s)
  case (Cons c t)
  assume "read_field s = Some (f, r)"
  then show ?thesis
    using read_quoted_length [of t f r] length_dropWhile_le [of bare "c # t"]
    by (auto simp: read_field_def Cons simp del: dropWhile.simps takeWhile.simps split: if_splits)
qed (simp add: read_field_def)

function csv_records :: "string list \<Rightarrow> string \<Rightarrow> string list list option" where
  "csv_records row s =
     (case read_field s of
        None \<Rightarrow> None
      | Some (f, []) \<Rightarrow> Some [row @ [f]]
      | Some (f, c # t) \<Rightarrow>
          if c = LF then (if t = [] then Some [row @ [f]] else map_option (Cons (row @ [f])) (csv_records [] t))
          else if c = CHR '','' then csv_records (row @ [f]) t
          else None)"
  by pat_completeness auto
termination
  apply (relation "measure (\<lambda>(row, s). length s)")
    apply simp
  subgoal for row s by (auto dest: read_field_length)
  subgoal for row s by (auto dest: read_field_length)
  done

declare csv_records.simps [simp del]

definition csv_read :: "string \<Rightarrow> string list list option" where
  "csv_read s = csv_records [] s"

text \<open>What a cell holds, and how a line of no cells reads.\<close>

definition cell_text :: "jsv \<Rightarrow> string" where
  "cell_text v = (if v = JNull \<or> v = JUndef then [] else js_string v)"

definition csv_line :: "jsv list \<Rightarrow> string list" where
  "csv_line vs = (if vs = [] then [[]] else map cell_text vs)"

text \<open>The writer quotes a text with one of these.\<close>

definition special :: "string \<Rightarrow> bool" where
  "special s \<longleftrightarrow> CHR '','' \<in> set s \<or> LF \<in> set s \<or> DQ \<in> set s"

text \<open>A cell the writer writes as CSV: it quotes on a comma, a line feed or a quote, not on a carriage
  return.\<close>

definition writable :: "jsv \<Rightarrow> bool" where
  "writable v \<longleftrightarrow> CR \<notin> set (cell_text v) \<or> special (cell_text v)"

text \<open>A last line that is one empty cell looks like the line break after the line before.\<close>

definition trimmed :: "string list list \<Rightarrow> string list list" where
  "trimmed ls = (if ls \<noteq> [] \<and> last ls = [[]] then butlast ls else ls)"

lemma CR_code: "CR = CHR 0x0D"
  by code_simp

lemma LF_is: "LF = CHR 0x0A"
  by code_simp

lemma LF_neq_DQ [simp]: "LF \<noteq> DQ" "DQ \<noteq> LF" "CHR '','' \<noteq> DQ" "DQ \<noteq> CHR '',''" "CHR '','' \<noteq> LF" "LF \<noteq> CHR '',''"
  by (simp_all add: LF_is DQ_is)

lemma CR_neq [simp]: "CR \<noteq> LF" "LF \<noteq> CR" "CR \<noteq> DQ" "DQ \<noteq> CR" "CR \<noteq> CHR '',''" "CHR '','' \<noteq> CR"
  by (simp_all add: CR_code LF_is DQ_is)

lemma replace_all_Nil [simp]: "replace_all c r [] = []"
  by (simp add: replace_all_def)

lemma replace_all_Cons [simp]: "replace_all c r (x # s) = (if x = c then r else [x]) @ replace_all c r s"
  by (simp add: replace_all_def)

lemma replace_all_plain: "c \<notin> set s \<Longrightarrow> replace_all c r s = s"
  by (induction s) auto

lemma replace_all_append: "replace_all c r (s @ t) = replace_all c r s @ replace_all c r t"
  by (simp add: replace_all_def)

lemma replace_all_concat: "replace_all c r (concat xs) = concat (map (replace_all c r) xs)"
  by (induction xs) (simp_all add: replace_all_def)

lemma read_quoted_doubled:
  "r = [] \<or> hd r \<noteq> DQ \<Longrightarrow> read_quoted (replace_all DQ [DQ, DQ] s @ DQ # r) = Some (s, r)"
  by (induction s) (auto split: list.splits)

lemma takeWhile_bare:
  "\<forall>c \<in> set s. bare c \<Longrightarrow> r = [] \<or> \<not> bare (hd r) \<Longrightarrow>
     takeWhile bare (s @ r) = s \<and> dropWhile bare (s @ r) = r"
  by (cases r) auto

lemma escaped: "escapeCsvValue v =
    (if special (cell_text v) then [DQ] @ replace_all DQ [DQ, DQ] (cell_text v) @ [DQ] else cell_text v)"
  by (cases "v = JNull \<or> v = JUndef") (auto simp: escapeCsvValue_def cell_text_def Let_def special_def)

lemma escaped_plain: "\<not> special (cell_text v) \<Longrightarrow> escapeCsvValue v = cell_text v"
  by (simp add: escaped)

lemma escaped_quoted:
  "special (cell_text v) \<Longrightarrow> escapeCsvValue v = [DQ] @ replace_all DQ [DQ, DQ] (cell_text v) @ [DQ]"
  by (simp add: escaped)

lemma read_field_escaped:
  assumes "r = [] \<or> hd r = LF \<or> hd r = CHR '',''" "writable v"
  shows "read_field (escapeCsvValue v @ r) = Some (cell_text v, r)"
proof (cases "special (cell_text v)")
  case True
  have "r = [] \<or> hd r \<noteq> DQ" using assms(1) by auto
  then show ?thesis
    by (simp add: escaped_quoted [OF True] read_field_def read_quoted_doubled)
next
  case False
  then have "\<forall>c \<in> set (cell_text v). bare c" using assms(2) by (auto simp: bare_def writable_def special_def)
  moreover have "r = [] \<or> \<not> bare (hd r)" using assms(1) by (auto simp: bare_def)
  ultimately have t: "takeWhile bare (cell_text v @ r) = cell_text v \<and> dropWhile bare (cell_text v @ r) = r"
    by (rule takeWhile_bare)
  have "cell_text v @ r = [] \<or> hd (cell_text v @ r) \<noteq> DQ"
    using False assms(1) by (cases "cell_text v") (auto simp: special_def)
  then show ?thesis using t by (cases "cell_text v @ r") (auto simp: escaped_plain [OF False] read_field_def)
qed

lemma csv_unwritable:
  assumes "\<not> writable v"
  shows "csv_records row (escapeCsvValue v @ r) = None"
proof -
  let ?s = "cell_text v @ r"
  have n: "\<not> special (cell_text v)" "CR \<in> set (cell_text v)"
    using assms by (auto simp: writable_def)
  obtain xs ys where xs: "cell_text v = xs @ CR # ys" "CR \<notin> set xs" using split_list_first [OF n(2)] by blast
  then have "\<forall>c \<in> set xs. bare c" using n(1) by (auto simp: bare_def special_def)
  then have "takeWhile bare (xs @ CR # ys @ r) = xs \<and> dropWhile bare (xs @ CR # ys @ r) = CR # ys @ r"
    by (intro takeWhile_bare) (auto simp: bare_def)
  moreover have "hd ?s \<noteq> DQ" using n(1) xs(1) by (cases xs) (auto simp: special_def)
  ultimately have "read_field ?s = Some (xs, CR # ys @ r)"
    using xs(1) by (cases ?s) (auto simp: read_field_def)
  then show ?thesis by (simp add: escaped_plain [OF n(1)] csv_records.simps [of row ?s])
qed

lemma csv_records_line:
  assumes "r = [] \<or> hd r = LF"
  shows "vs \<noteq> [] \<Longrightarrow> csv_records row (join_with '','' (map escapeCsvValue vs) @ r) =
     (if list_all writable vs then
        (if tl r = [] then Some [row @ map cell_text vs]
         else map_option (Cons (row @ map cell_text vs)) (csv_records [] (tl r)))
      else None)"
proof (induction vs arbitrary: row)
  case (Cons v vs)
  show ?case
  proof (cases "writable v")
    case False
    show ?thesis
      using csv_unwritable [OF False] False by (cases vs) (simp_all add: join_with_Cons)
  next
    case w: True
    show ?thesis
    proof (cases vs)
      case Nil
      have "read_field (escapeCsvValue v @ r) = Some (cell_text v, r)"
        using assms w by (intro read_field_escaped) auto
      then show ?thesis using assms Nil w by (subst csv_records.simps, cases r) auto
    next
      case (Cons w' ws)
      have "read_field (escapeCsvValue v @ CHR '','' # join_with '','' (map escapeCsvValue vs) @ r) =
          Some (cell_text v, CHR '','' # join_with '','' (map escapeCsvValue vs) @ r)"
        using w by (intro read_field_escaped) simp_all
      then show ?thesis using Cons.IH [of "row @ [cell_text v]"] Cons w
        by (subst csv_records.simps) (simp add: join_with_Cons)
    qed
  qed
qed simp

lemma csv_records_line':
  assumes "r = [] \<or> hd r = LF"
  shows "csv_records [] (join_with '','' (map escapeCsvValue vs) @ r) =
     (if list_all writable vs then
        (if tl r = [] then Some [csv_line vs] else map_option (Cons (csv_line vs)) (csv_records [] (tl r)))
      else None)"
proof (cases "vs = []")
  case True
  have "writable JNull" by (simp add: writable_def cell_text_def)
  then have "read_field r = Some ([], r)"
    using assms read_field_escaped [of r JNull] by (auto simp: escapeCsvValue_def cell_text_def)
  then show ?thesis using True assms by (subst csv_records.simps, cases r) (auto simp: csv_line_def)
qed (use csv_records_line [OF assms] in \<open>simp add: csv_line_def\<close>)

abbreviation written :: "jsv list \<Rightarrow> string" where
  "written vs \<equiv> join_with '','' (map escapeCsvValue vs)"

lemma written_empty: "written vs = [] \<longleftrightarrow> csv_line vs = [[]]"
proof (cases vs)
  case (Cons v ws)
  have "escapeCsvValue v = [] \<longleftrightarrow> cell_text v = []"
    by (cases "special (cell_text v)") (auto simp: escaped_quoted escaped_plain special_def)
  then show ?thesis using Cons by (cases ws) (auto simp: csv_line_def join_with_Cons)
qed (simp add: csv_line_def)

lemma empty_line_writable: "csv_line vs = [[]] \<Longrightarrow> list_all writable vs"
  by (cases vs) (auto simp: csv_line_def writable_def)

lemma csv_records_body:
  "csv_records [] (written h @ LF # join_with [LF] (map written vss)) =
     (if list_all (list_all writable) (h # vss) then Some (csv_line h # trimmed (map csv_line vss)) else None)"
proof (induction vss arbitrary: h)
  case Nil
  then show ?case using csv_records_line' [of "[LF]" h] by (simp add: trimmed_def)
next
  case (Cons w vss)
  note line = csv_records_line' [of "LF # join_with [LF] (map written (w # vss))" h]
  show ?case
  proof (cases vss)
    case Nil
    have "csv_records [] (written w) = (if list_all writable w then Some [csv_line w] else None)"
      using csv_records_line' [of "[]" w] by simp
    then show ?thesis using line Nil written_empty [of w] empty_line_writable [of w] by (auto simp: trimmed_def)
  next
    case (Cons x xs)
    have rest: "join_with [LF] (map written (w # vss)) = written w @ LF # join_with [LF] (map written vss)"
      using Cons by (simp add: join_with_Cons)
    have "trimmed (csv_line w # map csv_line vss) = csv_line w # trimmed (map csv_line vss)"
      using Cons by (simp add: trimmed_def)
    then show ?thesis using line Cons.IH [of w] unfolding rest by auto
  qed
qed

text \<open>C27.  A generated CSV text is read back by the strict reader of RFC 4180 (with line feeds): it gives
  the header and the text of every cell, whatever commas, quotes and line feeds they hold.  It does so
  exactly when no cell holds a carriage return without one of these; otherwise the text is not CSV.
  A last line that is a single empty cell (also the one after the header of a table without rows) is
  not told from the line break before it, and without columns every line reads as one empty cell.\<close>

theorem csv_reads_back:
  "csv_read (generateCsv rows columns) =
     (let header = map (\<lambda>c. JStr (col_header c)) columns;
          cells = map (\<lambda>row. map (cell_value row) columns) rows
      in if list_all (list_all writable) (header # cells)
         then Some (csv_line header # trimmed (map csv_line cells)) else None)"
proof -
  define lines where "lines = map (\<lambda>row. map (cell_value row) columns) rows"
  have g: "generateCsv rows columns =
      written (map (\<lambda>c. JStr (col_header c)) columns) @ LF # join_with [LF] (map written lines)"
    by (simp add: generateCsv_def Let_def lines_def getCellValue_def [abs_def] comp_def)
  show ?thesis
    unfolding csv_read_def g csv_records_body by (simp add: Let_def lines_def)
qed

text \<open>A bare carriage return is not quoted, though readers that take it for a line break exist.\<close>

lemma carriage_return_not_quoted:
  "escapeCsvValue (JStr [CHR ''a'', CHR 0x0D, CHR ''b'']) = [CHR ''a'', CHR 0x0D, CHR ''b'']"
  by (simp add: escapeCsvValue_def LF_is DQ_is)

lemma no_rows_like_one_empty_row:
  "generateCsv [] [\<lparr> col_header = h, col_accessor = Key k \<rparr>] =
   generateCsv [[(k, JNull)]] [\<lparr> col_header = h, col_accessor = Key k \<rparr>]"
  by (simp add: generateCsv_def getCellValue_def cell_value_def escapeCsvValue_def prop_of_def Let_def)

section \<open>Markup in cells\<close>

definition xml_char :: "char \<Rightarrow> string" where
  "xml_char c =
     (if c = CHR ''&'' then ''&amp;'' else if c = CHR ''<'' then ''&lt;'' else if c = CHR ''>'' then ''&gt;''
      else if c = DQ then ''&quot;'' else [c])"

lemma xmlEscape_chars: "xmlEscape v = concat (map xml_char (cell_text v))"
proof -
  have one: "replace_all DQ ''&quot;'' (replace_all CHR ''>'' ''&gt;'' (replace_all CHR ''<'' ''&lt;''
      (if c = CHR ''&'' then ''&amp;'' else [c]))) = xml_char c" for c
    by (simp add: xml_char_def DQ_is)
  have "replace_all CHR ''&'' ''&amp;'' s = concat (map (\<lambda>c. if c = CHR ''&'' then ''&amp;'' else [c]) s)" for s
    by (simp add: replace_all_def)
  then show ?thesis
    by (simp add: xmlEscape_def cell_text_def replace_all_concat comp_def one)
qed

fun xml_unescape :: "string \<Rightarrow> string" where
  "xml_unescape [] = []"
| "xml_unescape (c # s) =
     (if c \<noteq> CHR ''&'' then c # xml_unescape s
      else if starts_with ''amp;'' s then CHR ''&'' # xml_unescape (drop 4 s)
      else if starts_with ''lt;'' s then CHR ''<'' # xml_unescape (drop 3 s)
      else if starts_with ''gt;'' s then CHR ''>'' # xml_unescape (drop 3 s)
      else if starts_with ''quot;'' s then DQ # xml_unescape (drop 5 s)
      else c # xml_unescape s)"

lemma xml_unescape_char: "xml_unescape (xml_char c @ s) = c # xml_unescape s"
  by (simp add: xml_char_def starts_with_def DQ_is)

text \<open>An escaped cell reads back as its text and holds no markup character.\<close>

theorem xml_cells_read_back:
  "xml_unescape (xmlEscape v) = cell_text v \<and> set (xmlEscape v) \<inter> {CHR ''<'', CHR ''>'', DQ} = {}"
proof -
  have "xml_unescape (concat (map xml_char s)) = s" for s
    by (induction s) (simp_all add: xml_unescape_char)
  moreover have "set (xml_char c) \<inter> {CHR ''<'', CHR ''>'', DQ} = {}" for c
    by (simp add: xml_char_def DQ_is)
  ultimately show ?thesis by (auto simp: xmlEscape_chars)
qed

lemma header_row_styled:
  "header_row columns = ''<Row ss:StyleID='' @ quoted ''header'' @ ''>'' @
     concat (map (\<lambda>c. xml_cell (JStr (col_header c))) columns) @ ''</Row>''"
  by (simp add: header_row_def xml_row_def starts_with_def)

text \<open>The header text is in the same cell markup as the data.\<close>

lemma exportData_csv: "exportData rows columns fileName format =
   (if format = ''csv'' then \<lparr> d_bom = True, d_content = generateCsv rows columns, d_name = fileName @ ''.csv'',
       d_mime = ''text/csv;charset=utf-8'' \<rparr>
    else \<lparr> d_bom = False, d_content = generateXlsx rows columns fileName, d_name = fileName @ ''.xls'',
       d_mime = ''application/vnd.ms-excel'' \<rparr>)"
  by (simp add: exportData_def exportToCsv_def exportToXlsx_def)

section \<open>Pages\<close>

definition page_pixels :: "canvas \<Rightarrow> rat" where
  "page_pixels canvas = pageHeight / scale_ratio canvas * EXPORT_SCALE"

lemma pageHeight_pos [simp]: "0 < pageHeight"
  by (simp add: pageHeight_def PDF_MARGIN_def)

lemma pdf_pages_closed:
  "pdf_pages canvas position pageNum =
     map (\<lambda>k. page_at canvas (position + of_nat k * pageHeight) (pageNum + k))
       [0..<nat \<lceil>(imgHeight canvas - position) / pageHeight\<rceil>]"
proof (induction canvas position pageNum rule: pdf_pages.induct)
  case (1 canvas position pageNum)
  let ?n = "nat \<lceil>(imgHeight canvas - (position + pageHeight)) / pageHeight\<rceil>"
  show ?case
  proof (cases "position < imgHeight canvas")
    case True
    have eq: "(imgHeight canvas - position) / pageHeight = (imgHeight canvas - (position + pageHeight)) / pageHeight + 1"
      using pageHeight_pos by (simp add: diff_divide_distrib add_divide_distrib del: pageHeight_pos)
    have "-1 < (imgHeight canvas - (position + pageHeight)) / pageHeight"
      using True by (simp add: field_simps)
    then have n: "nat \<lceil>(imgHeight canvas - position) / pageHeight\<rceil> = Suc ?n"
      unfolding eq by (simp add: nat_add_distrib)
    show ?thesis unfolding n
      using 1 [OF True] True
      by (subst pdf_pages.simps)
        (simp add: upt_conv_Cons map_Suc_upt [symmetric] comp_def algebra_simps del: upt_Suc)
  next
    case False
    then have "(imgHeight canvas - position) / pageHeight \<le> 0"
      by (simp add: divide_nonpos_pos)
    then have "nat \<lceil>(imgHeight canvas - position) / pageHeight\<rceil> = 0" by simp
    then show ?thesis using False by (simp add: pdf_pages.simps)
  qed
qed

lemma ratio_pos: "0 < cv_width canvas \<Longrightarrow> 0 < scale_ratio canvas"
  by (simp add: scale_ratio_def imgWidth_def PDF_MARGIN_def EXPORT_SCALE_def)

lemma pixels_pos: "0 < cv_width canvas \<Longrightarrow> 0 < page_pixels canvas"
  using ratio_pos [of canvas] by (simp add: page_pixels_def EXPORT_SCALE_def)

lemma pages_left:
  assumes "0 < cv_width canvas"
  shows "(k :: nat) < nat \<lceil>imgHeight canvas / pageHeight\<rceil> \<longleftrightarrow> of_nat k * page_pixels canvas < cv_height canvas"
proof -
  have "imgHeight canvas / pageHeight = cv_height canvas / page_pixels canvas"
    using ratio_pos [OF assms] by (simp add: imgHeight_def page_pixels_def EXPORT_SCALE_def)
  then have "k < nat \<lceil>imgHeight canvas / pageHeight\<rceil> \<longleftrightarrow> of_nat k < cv_height canvas / page_pixels canvas"
    by (simp add: zless_nat_eq_int_zless less_ceiling_iff)
  then show ?thesis using pixels_pos [OF assms] by (simp add: pos_less_divide_eq)
qed

lemma page_at_pixels:
  "sourceY (page_at canvas (of_nat k * pageHeight) k) = of_nat k * page_pixels canvas"
  "sourceHeight (page_at canvas (of_nat k * pageHeight) k) =
     min (page_pixels canvas) (cv_height canvas - of_nat k * page_pixels canvas)"
  by (simp_all add: page_at_def Let_def page_pixels_def)

lemma slice_fits:
  assumes "0 < cv_width canvas"
  shows "sliceHeight (page_at canvas p k) \<le> pageHeight"
proof -
  have "sliceHeight (page_at canvas p k) \<le> page_pixels canvas / EXPORT_SCALE * scale_ratio canvas"
    using ratio_pos [OF assms] unfolding page_at_def Let_def page_pixels_def page.simps
    by (intro mult_right_mono divide_right_mono) (simp_all add: EXPORT_SCALE_def)
  also have "\<dots> = pageHeight" using ratio_pos [OF assms] by (simp add: page_pixels_def EXPORT_SCALE_def)
  finally show ?thesis .
qed

lemma slices_add_up:
  assumes "0 < cv_width canvas" and tall: "0 \<le> cv_height canvas"
  shows "k \<le> nat \<lceil>imgHeight canvas / pageHeight\<rceil> \<Longrightarrow>
     (\<Sum>i<k. min (page_pixels canvas) (cv_height canvas - of_nat i * page_pixels canvas)) =
       min (of_nat k * page_pixels canvas) (cv_height canvas)"
proof (induction k)
  case 0
  then show ?case using tall by simp
next
  case (Suc k)
  then have "of_nat k * page_pixels canvas < cv_height canvas" using pages_left [OF assms(1), of k] by simp
  with Suc show ?case by (simp add: algebra_simps min_def)
qed

text \<open>
  The pages of the PDF: as many as needed, each starting where the slices before it end,
  none empty or higher than the paper, numbered from 1, together the whole canvas.
\<close>

theorem pdf_shows_everything_once:
  assumes "0 < cv_width canvas" and "0 \<le> cv_height canvas"
  shows "length (exportPDF canvas) = nat \<lceil>imgHeight canvas / pageHeight\<rceil> \<and>
    (\<forall>k < length (exportPDF canvas).
       sourceY (exportPDF canvas ! k) = (\<Sum>i<k. sourceHeight (exportPDF canvas ! i)) \<and>
       0 < sourceHeight (exportPDF canvas ! k) \<and>
       sliceHeight (exportPDF canvas ! k) \<le> pageHeight \<and>
       page_no (exportPDF canvas ! k) = k + 1) \<and>
    (\<Sum>i < length (exportPDF canvas). sourceHeight (exportPDF canvas ! i)) = cv_height canvas"
proof -
  define n where "n = nat \<lceil>imgHeight canvas / pageHeight\<rceil>"
  have pages: "exportPDF canvas = map (\<lambda>k. page_at canvas (of_nat k * pageHeight) k) [0..<n]"
    by (simp add: exportPDF_def pdf_pages_closed n_def)
  note left = pages_left [OF assms(1), folded n_def]
  have sum: "(\<Sum>i<k. sourceHeight (exportPDF canvas ! i)) = min (of_nat k * page_pixels canvas) (cv_height canvas)"
    if "k \<le> n" for k
  proof -
    have "(\<Sum>i<k. sourceHeight (exportPDF canvas ! i)) =
        (\<Sum>i<k. min (page_pixels canvas) (cv_height canvas - of_nat i * page_pixels canvas))"
      using that by (intro sum.cong) (auto simp: pages page_at_pixels)
    then show ?thesis using slices_add_up [OF assms] that by (simp add: n_def)
  qed
  have "cv_height canvas \<le> of_nat n * page_pixels canvas" using left [of n] by simp
  with sum [of n] have whole: "(\<Sum>i<n. sourceHeight (exportPDF canvas ! i)) = cv_height canvas" by simp
  have "sourceY (exportPDF canvas ! k) = (\<Sum>i<k. sourceHeight (exportPDF canvas ! i)) \<and>
      0 < sourceHeight (exportPDF canvas ! k) \<and> sliceHeight (exportPDF canvas ! k) \<le> pageHeight \<and>
      page_no (exportPDF canvas ! k) = k + 1" if "k < n" for k
    using that left [of k] pixels_pos [OF assms(1)] sum [of k] slice_fits [OF assms(1)]
    by (auto simp: pages page_at_pixels) (simp add: page_at_def Let_def)
  with whole show ?thesis by (simp add: pages n_def)
qed

lemma pdf_shows_everything_once_witness:
  "(\<Sum>i < length (exportPDF \<lparr> cv_width = 340, cv_height = 600 \<rparr>).
      sourceHeight (exportPDF \<lparr> cv_width = 340, cv_height = 600 \<rparr> ! i)) = 600"
  using pdf_shows_everything_once [of "\<lparr> cv_width = 340, cv_height = 600 \<rparr>"]
  unfolding canvas.simps by (meson zero_less_numeral zero_le_numeral)

text \<open>
  The canvas of a page has an integer height: a remainder of less than a pixel gives a last
  page drawn on a canvas of height 0.
\<close>

lemma sub_pixel_page:
  "map drawn_height (exportPDF \<lparr> cv_width = 171, cv_height = 259 \<rparr>) = [258, 0]"
  by (simp add: exportPDF_def pdf_pages.simps page_at_def Let_def imgHeight_def scale_ratio_def imgWidth_def
      pageHeight_def PDF_MARGIN_def EXPORT_SCALE_def floor_eq_iff)

lemma cv_upd: "c\<lparr> cv_height := h \<rparr> = \<lparr> cv_width = cv_width c, cv_height = h \<rparr>" for c :: canvas
  by (cases c) simp

text \<open>The header adds its height to the capture and keeps its width.\<close>

lemma exportDashboard_pages:
  "exportDashboard sel (Some c) header ''pdf'' ts =
     Inr (''amg-dashboard-'' @ ts @ ''.pdf'',
          if header then c\<lparr> cv_height := 200 + cv_height c \<rparr> else c,
          exportPDF (if header then c\<lparr> cv_height := 200 + cv_height c \<rparr> else c))"
  by (simp add: exportDashboard_def Let_def mergeCanvases_def buildHeaderCanvas_def headerHeight_def EXPORT_SCALE_def
      cv_upd)

end
