(* ===== verification/JsNumbers.thy ===== *)
theory JsNumbers
  imports Storage Complex_Main
begin

text \<open>
  Numbers with fractions and their texts: \<open>parseFloat\<close>, \<open>toFixed\<close>, \<open>Math.round\<close> and clamping.
  A number of the program that is measured or divided is a \<open>rat\<close>: every finite double is a
  rational number, and the rounding of a result to the nearest double is not modelled.  The civil
  calendar is at the end.
\<close>

definition math_round :: "rat \<Rightarrow> int" where
  "math_round x = \<lfloor>x + 1/2\<rfloor>"

text \<open>\<open>Math.max(lo, Math.min(hi, x))\<close>.\<close>

definition clamp :: "'a::linorder \<Rightarrow> 'a \<Rightarrow> 'a \<Rightarrow> 'a" where
  "clamp lo hi x = max lo (min hi x)"

lemma clamp_bounds: "lo \<le> hi \<Longrightarrow> lo \<le> clamp lo hi x \<and> clamp lo hi x \<le> hi"
  by (auto simp: clamp_def)

lemma clamp_id: "lo \<le> x \<Longrightarrow> x \<le> hi \<Longrightarrow> clamp lo hi x = x"
  by (simp add: clamp_def)

section \<open>Reading\<close>

definition is_digit :: "char \<Rightarrow> bool" where
  "is_digit c \<longleftrightarrow> digit_val c \<noteq> None"

text \<open>The part of a number after its \<open>e\<close>; a broken exponent is not read.\<close>

definition exponent_of :: "string \<Rightarrow> int" where
  "exponent_of s =
     (if take 1 s = ''e'' \<or> take 1 s = ''E''
      then (case parse_int (drop 1 s) of Some e \<Rightarrow> if is_space (hd (drop 1 s)) then 0 else e | None \<Rightarrow> 0)
      else 0)"

definition scale10 :: "rat \<Rightarrow> int \<Rightarrow> rat" where
  "scale10 m e = (if 0 \<le> e then m * 10 ^ nat e else m / 10 ^ nat (- e))"

text \<open>\<open>parseFloat(s)\<close>; None is \<open>NaN\<close> (and the infinite values, which no caller here accepts).\<close>

definition parse_float :: "string \<Rightarrow> rat option" where
  "parse_float s0 =
     (let s = dropWhile is_space s0;
          neg = (take 1 s = ''-'');
          t = (if neg \<or> take 1 s = ''+'' then drop 1 s else s);
          whole = takeWhile is_digit t;
          r = dropWhile is_digit t;
          frac = (if take 1 r = ''.'' then takeWhile is_digit (drop 1 r) else []);
          rest = (if take 1 r = ''.'' then dropWhile is_digit (drop 1 r) else r);
          m = of_nat (digits_prefix 0 (whole @ frac)) / 10 ^ length frac
      in if whole = [] \<and> frac = [] then None
         else Some (scale10 (if neg then - m else m) (exponent_of rest)))"

section \<open>Writing\<close>

text \<open>The last \<open>k\<close> decimal digits of a number.\<close>

fun pad_digits :: "nat \<Rightarrow> nat \<Rightarrow> string" where
  "pad_digits 0 n = []"
| "pad_digits (Suc k) n = pad_digits k (n div 10) @ [char_of (48 + n mod 10)]"

text \<open>\<open>x.toFixed(f)\<close> below \<open>10\<^sup>2\<^sup>1\<close>: the nearest multiple, the larger of two.\<close>

definition to_fixed :: "nat \<Rightarrow> rat \<Rightarrow> string" where
  "to_fixed f x =
     (let n = nat \<lfloor>\<bar>x\<bar> * 10 ^ f + 1/2\<rfloor> in
      (if x < 0 then ''-'' else []) @ nat_text (n div 10 ^ f)
        @ (if f = 0 then [] else ''.'' @ pad_digits f (n mod 10 ^ f)))"

lemma digit_is_digit [simp]: "d < 10 \<Longrightarrow> is_digit (char_of (48 + d :: nat))"
  by (simp add: is_digit_def)

lemma nat_text_all_digits: "list_all is_digit (nat_text n)"
  using nat_text_digits [of n] by (simp add: is_digit_def [abs_def])

lemma nat_text_nonempty [simp]: "nat_text n \<noteq> []"
  by (subst nat_text.simps) simp

lemma pad_digits_all: "list_all is_digit (pad_digits k n)"
  by (induction k n rule: pad_digits.induct) simp_all

lemma length_pad_digits [simp]: "length (pad_digits k n) = k"
  by (induction k n rule: pad_digits.induct) simp_all

lemma digits_all: "list_all is_digit s \<Longrightarrow> list_all (\<lambda>c. digit_val c \<noteq> None) s"
  by (simp add: is_digit_def [abs_def])

lemma digits_pad: "digits_prefix acc (pad_digits k n) = acc * 10 ^ k + n mod 10 ^ k"
proof (induction k n arbitrary: acc rule: pad_digits.induct)
  case (2 k n)
  have "(n div 10) mod 10 ^ k * 10 + n mod 10 = n mod 10 ^ Suc k"
    by (metis mod_mult2_eq mult.commute power_Suc add.commute)
  then show ?case
    using 2 [of acc] by (simp add: digits_prefix_append [OF digits_all [OF pad_digits_all]] algebra_simps)
qed simp

lemma digits_take_drop:
  assumes "list_all is_digit s" "t = [] \<or> \<not> is_digit (hd t)"
  shows "takeWhile is_digit (s @ t) = s" "dropWhile is_digit (s @ t) = t"
  using assms by (induction s) (cases t; auto)+

lemma digit_no_space: "is_digit c \<Longrightarrow> \<not> is_space c \<and> c \<noteq> CHR ''-'' \<and> c \<noteq> CHR ''+''"
  using digit_not_sign by (auto simp: is_digit_def digit_val_def is_space_def split: if_splits)

lemma digits_start:
  assumes "list_all is_digit w" "w \<noteq> []"
  shows "dropWhile is_space (w @ r) = w @ r" "take 1 (w @ r) \<noteq> ''-''" "take 1 (w @ r) \<noteq> ''+''"
  using assms digit_no_space by (cases w; auto)+

text \<open>Reading a whole part and a fraction.\<close>

lemma parse_float_digits:
  assumes "list_all is_digit w" "w \<noteq> []" "list_all is_digit p"
  shows "parse_float w = Some (of_nat (digits_prefix 0 w))"
    and "parse_float (w @ CHR ''.'' # p) = Some (of_nat (digits_prefix 0 (w @ p)) / 10 ^ length p)"
proof -
  have dot: "\<not> is_digit (CHR ''.'')" by (simp add: is_digit_def digit_val_def code_def)
  have w: "takeWhile is_digit w = w" "dropWhile is_digit w = []"
    using digits_take_drop [OF assms(1), of "[]"] by simp_all
  have p: "takeWhile is_digit p = p" "dropWhile is_digit p = []"
    using digits_take_drop [OF assms(3), of "[]"] by simp_all
  have wp: "takeWhile is_digit (w @ CHR ''.'' # p) = w" "dropWhile is_digit (w @ CHR ''.'' # p) = CHR ''.'' # p"
    using digits_take_drop [OF assms(1), of "CHR ''.'' # p"] dot by auto
  show "parse_float w = Some (of_nat (digits_prefix 0 w))"
    unfolding parse_float_def Let_def
    using digits_start [OF assms(1,2), of "[]"] assms(2)
    by (simp add: w scale10_def exponent_of_def)
  show "parse_float (w @ CHR ''.'' # p) = Some (of_nat (digits_prefix 0 (w @ p)) / 10 ^ length p)"
    unfolding parse_float_def Let_def
    using digits_start [OF assms(1,2), of "CHR ''.'' # p"] assms(2)
    by (simp add: p wp scale10_def exponent_of_def)
qed

text \<open>The text of a number reads back as the number rounded.\<close>

lemma parse_to_fixed:
  assumes "0 \<le> x"
  shows "parse_float (to_fixed f x) = Some (of_int \<lfloor>x * 10 ^ f + 1/2\<rfloor> / 10 ^ f)"
proof -
  define n where "n = nat \<lfloor>x * 10 ^ f + 1/2\<rfloor>"
  have n: "of_nat n = (of_int \<lfloor>x * 10 ^ f + 1/2\<rfloor> :: rat)"
    using assms by (simp add: n_def of_nat_nat)
  let ?w = "nat_text (n div 10 ^ f)" and ?p = "pad_digits f (n mod 10 ^ f)"
  have val: "digits_prefix 0 (?w @ ?p) = n"
    by (simp add: digits_prefix_append [OF digits_all [OF nat_text_all_digits]] digits_nat_text digits_pad
        div_mult_mod_eq)
  have tx: "to_fixed f x = ?w @ (if f = 0 then [] else CHR ''.'' # ?p)"
    using assms by (simp add: to_fixed_def n_def Let_def)
  show ?thesis
    using parse_float_digits(1) [OF nat_text_all_digits nat_text_nonempty pad_digits_all, of "n div 10 ^ f"]
      parse_float_digits(2) [OF nat_text_all_digits nat_text_nonempty pad_digits_all,
        of "n div 10 ^ f" f "n mod 10 ^ f"] val n
    unfolding tx by (cases "f = 0") (simp_all add: digits_nat_text)
qed

section \<open>The calendar\<close>

text \<open>
  The civil calendar behind \<open>Date\<close>: year, month and day of the month of a day number, counted from
  the first of January 1970 (ECMAScript's proleptic Gregorian calendar), and the weekday as
  \<open>getDay\<close> returns it, Sunday being 0.
\<close>

record civil_date =
  cv_year :: int
  cv_month :: int
  cv_day :: int

text \<open>Eras of 400 years begin with the first of March, so the leap day is the last of its year.\<close>

definition civil :: "int \<Rightarrow> civil_date" where
  "civil days =
     (let z = days + 719468;
          era = z div 146097;
          doe = z mod 146097;
          yoe = (doe - doe div 1460 + doe div 36524 - doe div 146096) div 365;
          doy = doe - (365 * yoe + yoe div 4 - yoe div 100);
          mp = (5 * doy + 2) div 153;
          m = (if mp < 10 then mp + 3 else mp - 9)
      in \<lparr> cv_year = yoe + era * 400 + (if m \<le> 2 then 1 else 0), cv_month = m,
           cv_day = doy - (153 * mp + 2) div 5 + 1 \<rparr>)"

definition get_day :: "int \<Rightarrow> int" where
  "get_day days = (days + 4) mod 7"

lemma civil_examples:
  "civil 0 = \<lparr> cv_year = 1970, cv_month = 1, cv_day = 1 \<rparr>"
  "civil 19782 = \<lparr> cv_year = 2024, cv_month = 2, cv_day = 29 \<rparr>"
  "civil (- 1) = \<lparr> cv_year = 1969, cv_month = 12, cv_day = 31 \<rparr>"
  "civil 20454 = \<lparr> cv_year = 2026, cv_month = 1, cv_day = 1 \<rparr>"
  by code_simp+

text \<open>The local time of the browser: a pair of functions between UTC and local milliseconds.  \<open>getDate\<close>
  reads the local time, \<open>setDate\<close> and \<open>setHours\<close> set it; a local time that the clock skips or
  repeats has the moment \<open>to_utc\<close> gives it.\<close>

record zone =
  to_local :: "int \<Rightarrow> int"
  to_utc :: "int \<Rightarrow> int"

definition fixed_zone :: "int \<Rightarrow> zone" where
  "fixed_zone k = \<lparr> to_local = (\<lambda>ms. ms + k), to_utc = (\<lambda>ms. ms - k) \<rparr>"

text \<open>The offset to UTC always lies in one interval of length \<open>w\<close>: an hour in a zone with summer time.\<close>

definition clock_within :: "int \<Rightarrow> zone \<Rightarrow> bool" where
  "clock_within w z \<longleftrightarrow>
     (\<exists>k. \<forall>t. k \<le> to_local z t - t \<and> to_local z t - t \<le> k + w \<and> k \<le> t - to_utc z t \<and> t - to_utc z t \<le> k + w)"

lemma clock_within_shift:
  assumes "clock_within w z"
  shows "t + n - w \<le> to_utc z (to_local z t + n)" "to_utc z (to_local z t + n) \<le> t + n + w"
proof -
  obtain k where "\<forall>t. k \<le> to_local z t - t \<and> to_local z t - t \<le> k + w \<and> k \<le> t - to_utc z t \<and> t - to_utc z t \<le> k + w"
    using assms by (auto simp: clock_within_def)
  then have "k \<le> to_local z t - t" "to_local z t - t \<le> k + w"
    "k \<le> to_local z t + n - to_utc z (to_local z t + n)" "to_local z t + n - to_utc z (to_local z t + n) \<le> k + w"
    by blast+
  then show "t + n - w \<le> to_utc z (to_local z t + n)" "to_utc z (to_local z t + n) \<le> t + n + w" by linarith+
qed

lemma fixed_clock: "clock_within 0 (fixed_zone k)"
  by (auto simp: clock_within_def fixed_zone_def)

definition DAY :: int where "DAY = 24 * 60 * 60 * 1000"

definition HOUR :: int where "HOUR = 60 * 60 * 1000"

text \<open>The clocks of Berlin in 2026: forward on the 29th of March, back on the 25th of October, both at one
  o'clock UTC.\<close>

definition forward_2026 :: int where "forward_2026 = 20541 * DAY + HOUR"

definition back_2026 :: int where "back_2026 = 20751 * DAY + HOUR"

definition berlin :: zone where
  "berlin = \<lparr> to_local = (\<lambda>ms. if forward_2026 \<le> ms \<and> ms < back_2026 then ms + 2 * HOUR else ms + HOUR),
     to_utc = (\<lambda>l. if forward_2026 + 2 * HOUR \<le> l \<and> l < back_2026 + 2 * HOUR then l - 2 * HOUR else l - HOUR) \<rparr>"

lemma berlin_clock: "clock_within HOUR berlin"
  unfolding clock_within_def by (rule exI [of _ HOUR]) (simp add: berlin_def HOUR_def)

end
