(* ===== verification/ProgramGantt.thy ===== *)
theory ProgramGantt
  imports JsNumbers "HOL-Library.Multiset"
begin

text \<open>
  The Gantt chart of a program (\<open>frontend/src/hooks/use-program-gantt.ts\<close>): the items and
  dependencies made of milestones and tasks, the topological order, the two passes of the
  critical path, and the range shown.

  A date is a number of milliseconds.  \<open>setDate\<close> and \<open>setHours\<close> work in the local time of the
  browser, a parameter \<open>z\<close> (the zones of JsNumbers): a day on which the clock changes need not
  have 24 hours.  A due date that is absent or does not parse is \<open>None\<close>.
\<close>

section \<open>Items and dependencies\<close>

datatype GanttItemType = Milestone | Task

record gantt_item =
  i_id :: string
  parentId :: "string option"
  i_type :: GanttItemType
  i_title :: string
  i_start :: int
  i_end :: int
  i_status :: string
  i_position :: int
  dependsOn :: "string list"
  i_depth :: nat

record gantt_dep =
  fromId :: string
  toId :: string

definition DAY_MS :: int where "DAY_MS = 86400000"

definition parseDate :: "int option \<Rightarrow> int \<Rightarrow> int" where
  "parseDate s fallback = (case s of None \<Rightarrow> fallback | Some t \<Rightarrow> t)"

text \<open>\<open>d.setDate(d.getDate() + days)\<close>: the same local time on another day.\<close>

definition addDays :: "zone \<Rightarrow> int \<Rightarrow> int \<Rightarrow> int" where
  "addDays z date days = to_utc z (to_local z date + days * DAY_MS)"

text \<open>\<open>setHours(0, 0, 0, 0)\<close> and \<open>setHours(23, 59, 59, 999)\<close>.\<close>

definition midnight :: "zone \<Rightarrow> int \<Rightarrow> int" where
  "midnight z t = (let l = to_local z t in to_utc z (l - l mod DAY_MS))"

definition end_of_day :: "zone \<Rightarrow> int \<Rightarrow> int" where
  "end_of_day z t = (let l = to_local z t in to_utc z (l - l mod DAY_MS + (DAY_MS - 1)))"

section \<open>The critical path\<close>

type_synonym adjacency = "(string \<times> string list) list"

text \<open>\<open>map.get(k)?.push(v)\<close>.\<close>

definition push_at :: "string \<Rightarrow> string \<Rightarrow> adjacency \<Rightarrow> adjacency" where
  "push_at k v m = (case map_of m k of None \<Rightarrow> m | Some vs \<Rightarrow> AList.update k (vs @ [v]) m)"

definition empty_table :: "gantt_item list \<Rightarrow> adjacency" where
  "empty_table items = fold (\<lambda>item. AList.update (i_id item) []) items []"

definition successors :: "gantt_item list \<Rightarrow> gantt_dep list \<Rightarrow> adjacency" where
  "successors items deps = fold (\<lambda>dep. push_at (fromId dep) (toId dep)) deps (empty_table items)"

definition predecessors :: "gantt_item list \<Rightarrow> gantt_dep list \<Rightarrow> adjacency" where
  "predecessors items deps = fold (\<lambda>dep. push_at (toId dep) (fromId dep)) deps (empty_table items)"

definition byId :: "gantt_item list \<Rightarrow> (string \<times> gantt_item) list" where
  "byId items = spread [] (map (\<lambda>i. (i_id i, i)) items)"

text \<open>\<open>Math.ceil(a / b)\<close> is minus the floor of \<open>-a / b\<close>.\<close>

definition duration :: "gantt_item list \<Rightarrow> string \<Rightarrow> int" where
  "duration items i =
     (case map_of (byId items) i of None \<Rightarrow> 0
      | Some item \<Rightarrow> max 1 (- ((i_start item - i_end item) div DAY_MS)))"

definition inDegrees :: "gantt_item list \<Rightarrow> adjacency \<Rightarrow> (string \<times> int) list" where
  "inDegrees items preds =
     fold (\<lambda>item. AList.update (i_id item) (int (length (get_or [] preds (i_id item))))) items []"

text \<open>The loop body for one successor: its degree falls, at zero it joins the queue.\<close>

definition lower_degree :: "string \<Rightarrow> (string \<times> int) list \<times> string list \<Rightarrow> (string \<times> int) list \<times> string list" where
  "lower_degree succ = (\<lambda>(inDegree, queue).
     let newDeg = get_or 1 inDegree succ - 1 in
     (AList.update succ newDeg inDegree, if newDeg = 0 then queue @ [succ] else queue))"

text \<open>What is left of the degrees of the successors that can still join the queue.\<close>

definition degree_left :: "adjacency \<Rightarrow> (string \<times> int) list \<Rightarrow> nat" where
  "degree_left succs inDegree = (\<Sum>v \<in> set (concat (map snd succs)). nat (get_or 1 inDegree v))"

lemma degree_left_drop:
  assumes "v \<in> set (concat (map snd succs))"
  shows "degree_left succs (AList.update v (get_or 1 inDegree v - 1) inDegree) + (if get_or 1 inDegree v = 1 then 1 else 0)
    \<le> degree_left succs inDegree"
proof -
  let ?U = "set (concat (map snd succs))" and ?new = "AList.update v (get_or 1 inDegree v - 1) inDegree"
  have split_sum: "(\<Sum>u \<in> ?U. f u) = f v + (\<Sum>u \<in> ?U - {v}. f u)" for f :: "string \<Rightarrow> nat"
    using assms by (meson List.finite_set sum.remove)
  have "(\<Sum>u \<in> ?U - {v}. nat (get_or 1 ?new u)) = (\<Sum>u \<in> ?U - {v}. nat (get_or 1 inDegree u))"
    by (rule sum.cong) auto
  then show ?thesis unfolding degree_left_def
    by (subst (1 2) split_sum) (auto intro: nat_mono)
qed

lemma lower_degree_step:
  "lower_degree v (inDegree, queue) =
     (AList.update v (get_or 1 inDegree v - 1) inDegree,
      if get_or 1 inDegree v - 1 = 0 then queue @ [v] else queue)"
  by (simp add: lower_degree_def Let_def)

lemma lower_all_left:
  "set vs \<subseteq> set (concat (map snd succs)) \<Longrightarrow>
     (case fold lower_degree vs (inDegree, queue) of (d, q) \<Rightarrow> degree_left succs d + length q)
       \<le> degree_left succs inDegree + length queue"
proof (induction vs arbitrary: inDegree queue)
  case (Cons v vs)
  let ?d = "AList.update v (get_or 1 inDegree v - 1) inDegree"
  let ?q = "if get_or 1 inDegree v - 1 = 0 then queue @ [v] else queue"
  have "(case fold lower_degree vs (?d, ?q) of (d, q) \<Rightarrow> degree_left succs d + length q)
      \<le> degree_left succs ?d + length ?q"
    using Cons by simp
  also have "\<dots> \<le> degree_left succs inDegree + length queue"
    using degree_left_drop [of v succs inDegree] Cons.prems by (auto split: if_splits)
  finally show ?case by (simp add: lower_degree_step)
qed simp

lemma get_or_successors: "set (get_or [] m k) \<subseteq> set (concat (map snd m))"
proof (cases "map_of m k")
  case (Some vs)
  then have "(k, vs) \<in> set m" by (rule map_of_SomeD)
  then show ?thesis using Some by (force simp: get_or_def)
qed (simp add: get_or_def)

text \<open>Kahn's loop.  Every turn takes one id from the queue, and an id joins the queue only
  when its degree falls from one to zero.\<close>

function kahn :: "adjacency \<Rightarrow> (string \<times> int) list \<Rightarrow> string list \<Rightarrow> string list \<Rightarrow> string list" where
  "kahn succs inDegree [] topo = topo"
| "kahn succs inDegree (i # queue) topo =
     (let (inDegree', queue') = fold lower_degree (get_or [] succs i) (inDegree, queue) in
      kahn succs inDegree' queue' (topo @ [i]))"
  by pat_completeness auto
termination
  apply (relation "measure (\<lambda>(succs, inDegree, queue, topo). degree_left succs inDegree + length queue)")
   apply simp
  subgoal for succs inDegree i queue topo x d q
    using lower_all_left [OF get_or_successors, of succs i inDegree queue] by (auto split: prod.splits)
  done

definition topological :: "gantt_item list \<Rightarrow> gantt_dep list \<Rightarrow> string list" where
  "topological items deps =
     (let inDegree = inDegrees items (predecessors items deps);
          queue = map fst (filter (\<lambda>(i, deg). deg = 0) inDegree)
      in kahn (successors items deps) inDegree queue [])"

definition finish_early :: "gantt_item list \<Rightarrow> adjacency \<Rightarrow> string \<Rightarrow> (string \<times> int) list \<Rightarrow> (string \<times> int) list" where
  "finish_early items preds i earliest =
     (let ps = get_or [] preds i;
          maxPredFinish = (if ps = [] then 0 else Max (set (map (get_or 0 earliest) ps)))
      in AList.update i (maxPredFinish + duration items i) earliest)"

definition earliest :: "gantt_item list \<Rightarrow> gantt_dep list \<Rightarrow> (string \<times> int) list" where
  "earliest items deps = fold (finish_early items (predecessors items deps)) (topological items deps) []"

text \<open>Without an ordered item the maximum is minus infinity, and not used.\<close>

definition projectEndTime :: "gantt_item list \<Rightarrow> gantt_dep list \<Rightarrow> int" where
  "projectEndTime items deps =
     (if earliest items deps = [] then 0 else Max (set (map snd (earliest items deps))))"

definition finish_late ::
  "gantt_item list \<Rightarrow> adjacency \<Rightarrow> int \<Rightarrow> string \<Rightarrow> (string \<times> int) list \<Rightarrow> (string \<times> int) list" where
  "finish_late items succs projectEnd i latest =
     (let ss = get_or [] succs i in
      AList.update i
        (if ss = [] then projectEnd
         else Min (set (map (\<lambda>s. get_or projectEnd latest s - duration items s) ss))) latest)"

definition latest :: "gantt_item list \<Rightarrow> gantt_dep list \<Rightarrow> (string \<times> int) list" where
  "latest items deps =
     fold (finish_late items (successors items deps) (projectEndTime items deps)) (rev (topological items deps)) []"

definition is_critical :: "gantt_item list \<Rightarrow> gantt_dep list \<Rightarrow> string \<Rightarrow> bool" where
  "is_critical items deps i \<longleftrightarrow> get_or 0 (latest items deps) i - get_or 0 (earliest items deps) i = 0"

definition computeCriticalPath :: "gantt_item list \<Rightarrow> gantt_dep list \<Rightarrow> string set" where
  "computeCriticalPath items deps =
     (if items = [] then {} else set (filter (is_critical items deps) (map i_id items)))"

section \<open>The program\<close>

record gantt_task =
  t_id :: string
  t_title :: string
  t_status :: string
  t_due :: "int option"

record gantt_milestone =
  m_id :: string
  m_title :: string
  m_status :: string
  m_position :: int
  m_due :: "int option"
  m_tasks :: "gantt_task list"

record gantt_program =
  p_start :: "int option"
  p_end :: "int option"
  p_milestones :: "gantt_milestone list"

text \<open>\<open>sort\<close> is stable, so the comparison by position and then by due date is a sort by
  due date followed by a sort by position.\<close>

definition sortedMilestones :: "int \<Rightarrow> gantt_milestone list \<Rightarrow> gantt_milestone list" where
  "sortedMilestones projectEnd ms = sort_key m_position (sort_key (\<lambda>m. parseDate (m_due m) projectEnd) ms)"

definition sortedTasks :: "int \<Rightarrow> gantt_task list \<Rightarrow> gantt_task list" where
  "sortedTasks mEnd ts = sort_key (\<lambda>t. parseDate (t_due t) mEnd) ts"

type_synonym gantt_rows = "gantt_item list \<times> gantt_dep list"

text \<open>The tasks of a milestone, each after the one before it, the first after the milestone.
  An empty id is falsy.\<close>

fun task_rows :: "zone \<Rightarrow> string \<Rightarrow> int \<Rightarrow> int \<Rightarrow> string option \<Rightarrow> gantt_task list \<Rightarrow> gantt_rows" where
  "task_rows z mid mStart mEnd prevTaskId [] = ([], [])"
| "task_rows z mid mStart mEnd prevTaskId (task # tasks) =
     (let before = (case prevTaskId of None \<Rightarrow> mid | Some p \<Rightarrow> if p = [] then mid else p);
          (items, deps) = task_rows z mid mStart mEnd (Some (t_id task)) tasks
      in (\<lparr> i_id = t_id task, parentId = Some mid, i_type = Task, i_title = t_title task,
            i_start = mStart, i_end = end_of_day z (parseDate (t_due task) mEnd),
            i_status = t_status task, i_position = 0, dependsOn = [before], i_depth = 1 \<rparr> # items,
          \<lparr> fromId = before, toId = t_id task \<rparr> # deps))"

text \<open>The milestones: \<open>prev\<close> is the one before, \<open>mIdx\<close> the index.\<close>

fun milestone_rows :: "zone \<Rightarrow> int \<Rightarrow> gantt_milestone option \<Rightarrow> int \<Rightarrow> gantt_milestone list \<Rightarrow> gantt_rows" where
  "milestone_rows z projectStart prev mIdx [] = ([], [])"
| "milestone_rows z projectStart prev mIdx (m # ms) =
     (let mEnd = end_of_day z (parseDate (m_due m) (addDays z projectStart ((mIdx + 1) * 14)));
          mStart = midnight z
            (case prev of None \<Rightarrow> projectStart
             | Some pm \<Rightarrow> parseDate (m_due pm) (addDays z projectStart (mIdx * 14)));
          before = (case prev of None \<Rightarrow> [] | Some pm \<Rightarrow> if m_id pm = [] then [] else [m_id pm]);
          (titems, tdeps) = task_rows z (m_id m) mStart mEnd None (sortedTasks mEnd (m_tasks m));
          (items, deps) = milestone_rows z projectStart (Some m) (mIdx + 1) ms
      in (\<lparr> i_id = m_id m, parentId = None, i_type = Milestone, i_title = m_title m,
            i_start = mStart, i_end = mEnd, i_status = m_status m, i_position = m_position m,
            dependsOn = before, i_depth = 0 \<rparr> # titems @ items,
          map (\<lambda>p. \<lparr> fromId = p, toId = m_id m \<rparr>) before @ tdeps @ deps))"

record gantt_data =
  gd_items :: "(gantt_item \<times> bool) list"
  gd_deps :: "gantt_dep list"
  gd_start :: int
  gd_end :: int
  gd_critical :: "string set"

definition program_start :: "zone \<Rightarrow> int \<Rightarrow> gantt_program \<Rightarrow> int" where
  "program_start z today p = midnight z (parseDate (p_start p) (addDays z today (-7)))"

definition program_end :: "zone \<Rightarrow> int \<Rightarrow> gantt_program \<Rightarrow> int" where
  "program_end z today p = end_of_day z (parseDate (p_end p) (addDays z today 30))"

definition program_rows :: "zone \<Rightarrow> int \<Rightarrow> gantt_program \<Rightarrow> gantt_rows" where
  "program_rows z today p =
     milestone_rows z (program_start z today p) None 0
       (sortedMilestones (program_end z today p) (p_milestones p))"

definition useProgramGantt :: "zone \<Rightarrow> int \<Rightarrow> gantt_program option \<Rightarrow> gantt_data" where
  "useProgramGantt z now program =
     (let today = midnight z now in
      case program of
        None \<Rightarrow> \<lparr> gd_items = [], gd_deps = [], gd_start = today, gd_end = addDays z today 30, gd_critical = {} \<rparr>
      | Some p \<Rightarrow>
          (let (itemsRaw, dependencies) = program_rows z today p;
               critical = computeCriticalPath itemsRaw dependencies;
               allDates = concat (map (\<lambda>i. [i_start i, i_end i]) itemsRaw);
               minDate = (if allDates = [] then program_start z today p else Min (set allDates));
               maxDate = (if allDates = [] then program_end z today p else Max (set allDates))
           in \<lparr> gd_items = map (\<lambda>i. (i, i_id i \<in> critical)) itemsRaw, gd_deps = dependencies,
                gd_start = addDays z minDate (-3), gd_end = addDays z maxDate 5, gd_critical = critical \<rparr>))"

section \<open>The tables\<close>

abbreviation succs_of :: "gantt_item list \<Rightarrow> gantt_dep list \<Rightarrow> string \<Rightarrow> string list" where
  "succs_of items deps \<equiv> get_or [] (successors items deps)"

abbreviation preds_of :: "gantt_item list \<Rightarrow> gantt_dep list \<Rightarrow> string \<Rightarrow> string list" where
  "preds_of items deps \<equiv> get_or [] (predecessors items deps)"

definition ids :: "gantt_item list \<Rightarrow> string list" where
  "ids items = map i_id items"

lemma ids_simps [simp]:
  "ids [] = []" "ids (item # items) = i_id item # ids items" "ids (xs @ ys) = ids xs @ ids ys"
  by (simp_all add: ids_def)

text \<open>Distinct ids, and dependencies between items.\<close>

definition well_linked :: "gantt_item list \<Rightarrow> gantt_dep list \<Rightarrow> bool" where
  "well_linked items deps \<longleftrightarrow> distinct (ids items) \<and>
     (\<forall>d \<in> set deps. fromId d \<in> set (ids items) \<and> toId d \<in> set (ids items))"

lemma map_of_push_at:
  "map_of (push_at k v m) j = (if j = k then map_option (\<lambda>vs. vs @ [v]) (map_of m k) else map_of m j)"
  by (auto simp: push_at_def update_conv' split: option.splits)

lemma map_of_empty_table: "map_of (empty_table items) k = (if k \<in> set (ids items) then Some [] else None)"
  unfolding empty_table_def by (induction items rule: rev_induct) (auto simp: update_conv')

lemma map_of_push_all:
  "map_of (fold (\<lambda>d. push_at (f d) (g d)) deps m) k =
     map_option (\<lambda>vs. vs @ map g (filter (\<lambda>d. f d = k) deps)) (map_of m k)"
  by (induction deps arbitrary: m) (auto simp: map_of_push_at option.map_comp option.map_ident comp_def cong: option.map_cong)

lemma succs_of_eq:
  "succs_of items deps k =
     (if k \<in> set (ids items) then map toId (filter (\<lambda>d. fromId d = k) deps) else [])"
  by (simp add: get_or_def successors_def map_of_push_all map_of_empty_table)

lemma preds_of_eq:
  "preds_of items deps k =
     (if k \<in> set (ids items) then map fromId (filter (\<lambda>d. toId d = k) deps) else [])"
  by (simp add: get_or_def predecessors_def map_of_push_all map_of_empty_table)

lemma count_list_filter: "count_list (map f (filter Q ds)) x = length (filter (\<lambda>d. Q d \<and> f d = x) ds)"
  by (induction ds) auto

lemma edge_counts:
  assumes "i \<in> set (ids items)" "v \<in> set (ids items)"
  shows "count_list (succs_of items deps i) v = count_list (preds_of items deps v) i"
  using assms by (simp add: succs_of_eq preds_of_eq count_list_filter conj_commute)

lemma update_fresh: "k \<notin> fst ` set m \<Longrightarrow> AList.update k v m = m @ [(k, v)]"
  by (induction m) auto

lemma inDegrees_eq:
  assumes "distinct (ids items)"
  shows "inDegrees items preds = map (\<lambda>i. (i, int (length (get_or [] preds i)))) (ids items)"
  using assms unfolding inDegrees_def
proof (induction items rule: rev_induct)
  case (snoc item items)
  then show ?case by (simp add: update_fresh image_image)
qed simp

lemma inDegrees_lookup:
  assumes "distinct (ids items)" "v \<in> set (ids items)"
  shows "get_or 1 (inDegrees items preds) v = int (length (get_or [] preds v))"
proof -
  have "map_of (inDegrees items preds) v = Some (int (length (get_or [] preds v)))"
    using assms by (intro map_of_is_SomeI) (auto simp: inDegrees_eq comp_def)
  then show ?thesis by (simp add: get_or_def)
qed

section \<open>The order\<close>

lemma lower_all:
  assumes "fold lower_degree vs (d, q) = (d', q')"
    and "\<And>v. v \<in> set vs \<Longrightarrow> int (count_list vs v) \<le> get_or 1 d v"
  shows "get_or 1 d' u = get_or 1 d u - int (count_list vs u) \<and>
    (\<exists>new. q' = q @ new \<and> distinct new \<and> set new = {v \<in> set vs. get_or 1 d v = int (count_list vs v)})"
  using assms
proof (induction vs arbitrary: d q)
  case (Cons v vs)
  define d1 where "d1 = AList.update v (get_or 1 d v - 1) d"
  have step: "fold lower_degree vs (d1, if get_or 1 d v = 1 then q @ [v] else q) = (d', q')"
    using Cons.prems(1) by (simp add: lower_degree_step d1_def split: if_splits)
  have "int (count_list vs u) \<le> get_or 1 d1 u" if "u \<in> set vs" for u
    using Cons.prems(2) [of u] that by (simp add: d1_def split: if_splits)
  note IH = Cons.IH [OF step this]
  obtain new where new: "q' = (if get_or 1 d v = 1 then q @ [v] else q) @ new" "distinct new"
      "set new = {u \<in> set vs. get_or 1 d1 u = int (count_list vs u)}"
    using IH by blast
  have deg: "get_or 1 d' u = get_or 1 d u - int (count_list (v # vs) u)"
    using IH by (simp add: d1_def split: if_splits)
  have le: "int (count_list vs v) + 1 \<le> get_or 1 d v" using Cons.prems(2) [of v] by simp
  show ?case
  proof (cases "get_or 1 d v = 1")
    case True
    then have "count_list vs v = 0" using le by simp
    then have "v \<notin> set vs" by (simp add: count_list_0_iff)
    have "u \<in> set (v # new) \<longleftrightarrow> u \<in> set (v # vs) \<and> get_or 1 d u = int (count_list (v # vs) u)" for u
      using True \<open>count_list vs v = 0\<close> unfolding new(3) set_simps by (cases "u = v") (simp_all add: d1_def)
    then have "set (v # new) = {u \<in> set (v # vs). get_or 1 d u = int (count_list (v # vs) u)}" by blast
    moreover have "q' = q @ (v # new)" using new(1) True by simp
    moreover have "distinct (v # new)" using new(2,3) \<open>v \<notin> set vs\<close> by simp
    ultimately have "q' = q @ (v # new) \<and> distinct (v # new) \<and>
        set (v # new) = {u \<in> set (v # vs). get_or 1 d u = int (count_list (v # vs) u)}" by blast
    then show ?thesis using deg by blast
  next
    case False
    have "u \<in> set new \<longleftrightarrow> u \<in> set (v # vs) \<and> get_or 1 d u = int (count_list (v # vs) u)" for u
    proof (cases "u = v")
      case True
      have "v \<in> set vs" if "get_or 1 d v = int (count_list vs v) + 1"
        using that False count_list_0_iff [of vs v] by linarith
      then show ?thesis using True unfolding new(3) by (simp add: d1_def) linarith
    next
      case u: False
      then show ?thesis unfolding new(3) by (simp add: d1_def)
    qed
    then have "set new = {u \<in> set (v # vs). get_or 1 d u = int (count_list (v # vs) u)}" by blast
    then have "q' = q @ new \<and> distinct new \<and>
        set new = {u \<in> set (v # vs). get_or 1 d u = int (count_list (v # vs) u)}"
      using new(1,2) False by simp
    then show ?thesis using deg by blast
  qed
qed simp

text \<open>Everything an id depends on comes before it.\<close>

definition in_order :: "(string \<Rightarrow> string list) \<Rightarrow> string list \<Rightarrow> bool" where
  "in_order before topo \<longleftrightarrow> (\<forall>xs v ys. topo = xs @ v # ys \<longrightarrow> set (before v) \<subseteq> set xs)"

lemma in_order_Nil [simp]: "in_order before []"
  by (simp add: in_order_def)

lemma in_order_snoc: "in_order before (topo @ [i]) \<longleftrightarrow> in_order before topo \<and> set (before i) \<subseteq> set topo"
proof
  assume order: "in_order before (topo @ [i])"
  have "set (before v) \<subseteq> set xs" if "topo = xs @ v # ys" for xs v ys
  proof -
    have "topo @ [i] = xs @ v # (ys @ [i])" using that by simp
    then show ?thesis using order unfolding in_order_def by blast
  qed
  moreover have "set (before i) \<subseteq> set topo" using order unfolding in_order_def by blast
  ultimately show "in_order before topo \<and> set (before i) \<subseteq> set topo" unfolding in_order_def by blast
next
  assume both: "in_order before topo \<and> set (before i) \<subseteq> set topo"
  have "set (before v) \<subseteq> set xs" if "topo @ [i] = xs @ v # ys" for xs v ys
  proof (cases ys rule: rev_cases)
    case Nil
    then show ?thesis using both that by simp
  next
    case (snoc zs z)
    then have "topo = xs @ v # zs" using that by simp
    then show ?thesis using both unfolding in_order_def by blast
  qed
  then show "in_order before (topo @ [i])" by (simp add: in_order_def)
qed

lemma in_order_subset: "in_order before topo \<Longrightarrow> v \<in> set topo \<Longrightarrow> set (before v) \<subseteq> set topo"
  by (induction topo rule: rev_induct) (auto simp: in_order_snoc)

definition kahn_inv ::
  "gantt_item list \<Rightarrow> gantt_dep list \<Rightarrow> (string \<times> int) list \<Rightarrow> string list \<Rightarrow> string list \<Rightarrow> bool" where
  "kahn_inv items deps d q topo \<longleftrightarrow>
     distinct (topo @ q) \<and> set (topo @ q) \<subseteq> set (ids items) \<and>
     (\<forall>v \<in> set (ids items). get_or 1 d v = int (length (filter (\<lambda>p. p \<notin> set topo) (preds_of items deps v)))) \<and>
     (\<forall>v \<in> set (ids items). v \<in> set (topo @ q) \<longleftrightarrow> get_or 1 d v = 0) \<and>
     in_order (preds_of items deps) topo"

lemma filter_not_in_insert:
  "i \<notin> set topo \<Longrightarrow>
     length (filter (\<lambda>p. p \<notin> set (topo @ [i])) ps) + count_list ps i = length (filter (\<lambda>p. p \<notin> set topo) ps)"
  by (induction ps) auto

lemma filter_none_left: "length (filter (\<lambda>p. p \<notin> set topo) ps) = 0 \<longleftrightarrow> set ps \<subseteq> set topo"
  by (auto simp: filter_empty_conv)

lemma kahn_inv_step:
  assumes ok: "well_linked items deps" and inv: "kahn_inv items deps d (i # q) topo"
    and step: "fold lower_degree (succs_of items deps i) (d, q) = (d', q')"
  shows "kahn_inv items deps d' q' (topo @ [i])"
proof -
  let ?P = "preds_of items deps" and ?S = "succs_of items deps" and ?I = "set (ids items)"
  have i: "i \<in> ?I" "i \<notin> set topo" "i \<notin> set q" using inv by (auto simp: kahn_inv_def)
  have S_ids: "set (?S i) \<subseteq> ?I" using ok by (auto simp: succs_of_eq well_linked_def)
  have was: "get_or 1 d v = int (length (filter (\<lambda>p. p \<notin> set topo) (?P v)))"
      "v \<in> set (topo @ i # q) \<longleftrightarrow> get_or 1 d v = 0" if "v \<in> ?I" for v
    using inv that unfolding kahn_inv_def by blast+
  have left: "int (length (filter (\<lambda>p. p \<notin> set (topo @ [i])) (?P v))) =
      get_or 1 d v - int (count_list (?S i) v)" if "v \<in> ?I" for v
    using filter_not_in_insert [OF i(2), of "?P v"] edge_counts [OF i(1) that, of deps] was(1) [OF that]
    by linarith
  have "int (count_list (?S i) v) \<le> get_or 1 d v" if "v \<in> set (?S i)" for v
    using left [of v] that S_ids by auto
  note low = lower_all [OF step this]
  obtain new where new: "q' = q @ new" "distinct new" "set new = {v \<in> set (?S i). get_or 1 d v = int (count_list (?S i) v)}"
    using low by blast
  have deg: "get_or 1 d' v = get_or 1 d v - int (count_list (?S i) v)" for v using low by blast
  have fresh: "v \<notin> set (topo @ i # q)" if "v \<in> set new" for v
  proof -
    have v: "v \<in> set (?S i)" "get_or 1 d v = int (count_list (?S i) v)" using that new(3) by auto
    then have "get_or 1 d v \<noteq> 0" by (simp add: count_list_0_iff)
    moreover have "v \<in> ?I" using S_ids v by blast
    ultimately show ?thesis using was(2) by blast
  qed
  have "set (?P i) \<subseteq> set topo"
    using was [OF i(1)] filter_none_left [of topo "?P i"] by simp
  then have order: "in_order ?P (topo @ [i])" using inv by (simp add: in_order_snoc kahn_inv_def)
  have member: "v \<in> set ((topo @ [i]) @ q') \<longleftrightarrow> get_or 1 d' v = 0" if v: "v \<in> ?I" for v
  proof (cases "v \<in> set (topo @ i # q)")
    case True
    then have "get_or 1 d v = 0" using was(2) [OF v] by blast
    then have "get_or 1 d' v = 0" using left [OF v] deg [of v] by linarith
    moreover have "v \<in> set ((topo @ [i]) @ q')" using True unfolding new(1) by auto
    ultimately show ?thesis by blast
  next
    case False
    then have pos: "get_or 1 d v \<noteq> 0" using was(2) [OF v] by blast
    have "v \<in> set new \<longleftrightarrow> get_or 1 d v = int (count_list (?S i) v)"
      using pos unfolding new(3) by (simp add: count_list_0_iff) (metis count_list_0_iff of_nat_0)
    moreover have "v \<in> set ((topo @ [i]) @ q') \<longleftrightarrow> v \<in> set new" using False new(1) by simp
    ultimately show ?thesis using deg [of v] by simp
  qed
  have old: "distinct (topo @ i # q)" "set (topo @ i # q) \<subseteq> ?I" using inv by (simp_all add: kahn_inv_def)
  have "distinct ((topo @ [i]) @ q')" using old(1) new(1,2) fresh by auto
  moreover have "set ((topo @ [i]) @ q') \<subseteq> ?I" using old(2) new(1,3) S_ids by auto
  moreover have "\<forall>v \<in> ?I. get_or 1 d' v = int (length (filter (\<lambda>p. p \<notin> set (topo @ [i])) (?P v)))"
    using left deg by simp
  ultimately show ?thesis unfolding kahn_inv_def using member order by (intro conjI ballI) simp_all
qed

lemma kahn_order:
  assumes "well_linked items deps"
  shows "kahn_inv items deps d q topo \<Longrightarrow>
    distinct (kahn (successors items deps) d q topo) \<and>
    in_order (preds_of items deps) (kahn (successors items deps) d q topo) \<and>
    (\<forall>v. v \<in> set (kahn (successors items deps) d q topo) \<longleftrightarrow>
       v \<in> set (ids items) \<and> set (preds_of items deps v) \<subseteq> set (kahn (successors items deps) d q topo))"
proof (induction "successors items deps" d q topo rule: kahn.induct)
  case (1 d topo)
  have "v \<in> set topo \<longleftrightarrow> set (preds_of items deps v) \<subseteq> set topo" if "v \<in> set (ids items)" for v
    using 1 that filter_none_left [of topo "preds_of items deps v"] by (simp add: kahn_inv_def)
  moreover have "set topo \<subseteq> set (ids items)" "distinct topo" "in_order (preds_of items deps) topo"
    using 1 by (auto simp: kahn_inv_def)
  ultimately show ?case by auto
next
  case (2 d i q topo)
  obtain d' q' where step: "fold lower_degree (succs_of items deps i) (d, q) = (d', q')" by fastforce
  show ?case
    using 2 kahn_inv_step [OF assms 2(2) step] step by simp
qed

lemma kahn_start:
  assumes "well_linked items deps"
  shows "kahn_inv items deps (inDegrees items (predecessors items deps))
     (map fst (filter (\<lambda>(i, deg). deg = 0) (inDegrees items (predecessors items deps)))) []"
proof -
  have ids: "distinct (ids items)" using assms by (simp add: well_linked_def)
  have queue: "map fst (filter (\<lambda>(i, deg). deg = 0) (inDegrees items (predecessors items deps))) =
      filter (\<lambda>i. preds_of items deps i = []) (ids items)"
    by (simp add: inDegrees_eq [OF ids] filter_map comp_def)
  show ?thesis unfolding kahn_inv_def queue
    using ids by (auto simp: inDegrees_lookup)
qed

text \<open>
  The order of the critical path computation: no item twice, none before one it depends on,
  and an item is in it exactly when all it depends on is.  Items on or behind a cycle are
  left out.
\<close>

theorem topological_order:
  assumes "well_linked items deps"
  shows "distinct (topological items deps) \<and> in_order (preds_of items deps) (topological items deps) \<and>
    (\<forall>v. v \<in> set (topological items deps) \<longleftrightarrow>
       v \<in> set (ids items) \<and> set (preds_of items deps v) \<subseteq> set (topological items deps))"
  using kahn_order [OF assms kahn_start [OF assms]] by (simp add: topological_def Let_def)

lemma topological_complete:
  assumes ok: "well_linked items deps" and order: "in_order (preds_of items deps) (ids items)"
  shows "set (topological items deps) = set (ids items)"
proof -
  have "set xs \<subseteq> set (topological items deps)" if "ids items = xs @ ys" for xs ys
    using that
  proof (induction xs arbitrary: ys rule: rev_induct)
    case (snoc v xs)
    have "set (preds_of items deps v) \<subseteq> set xs"
      using order snoc.prems unfolding in_order_def by (metis append.assoc append_Cons append_Nil)
    then have "v \<in> set (topological items deps)"
      using topological_order [OF ok] snoc.IH [of "v # ys"] snoc.prems
      by (metis (no_types, lifting) append.assoc append_Cons append_Nil in_set_conv_decomp subset_trans)
    then show ?case using snoc by simp
  qed simp
  from this [of "ids items" "[]"] show ?thesis using topological_order [OF ok] by blast
qed

section \<open>The passes\<close>

text \<open>A pass fills a table along the order; an entry only looks at the ones it depends on.\<close>

lemma pass_fixpoint:
  fixes F :: "string \<Rightarrow> (string \<times> int) list \<Rightarrow> int"
  assumes local: "\<And>v m m'. (\<And>u. u \<in> set (before v) \<Longrightarrow> map_of m u = map_of m' u) \<Longrightarrow> F v m = F v m'"
  shows "distinct topo \<Longrightarrow> in_order before topo \<Longrightarrow>
     (\<forall>v. map_of (fold (\<lambda>v m. AList.update v (F v m) m) topo []) v =
        (if v \<in> set topo then Some (F v (fold (\<lambda>v m. AList.update v (F v m) m) topo [])) else None)) \<and>
     distinct (map fst (fold (\<lambda>v m. AList.update v (F v m) m) topo []))"
proof (induction topo rule: rev_induct)
  case (snoc i topo)
  let ?m = "fold (\<lambda>v m. AList.update v (F v m) m) topo []"
  let ?m' = "AList.update i (F i ?m) ?m"
  have order: "in_order before topo" "set (before i) \<subseteq> set topo" and i: "i \<notin> set topo"
    using snoc.prems by (auto simp: in_order_snoc)
  have same: "F v ?m' = F v ?m" if "v \<in> insert i (set topo)" for v
  proof (rule local)
    fix u assume "u \<in> set (before v)"
    then have "u \<noteq> i" using that order i in_order_subset by (metis insertE subsetD)
    then show "map_of ?m' u = map_of ?m u" by (simp add: update_conv')
  qed
  show ?case using snoc.IH [OF _ order(1)] snoc.prems same
    by (auto simp: update_conv' distinct_update)
qed simp

lemma in_order_induct [consumes 2, case_names step]:
  assumes "in_order before topo" "v \<in> set topo"
    and step: "\<And>v. v \<in> set topo \<Longrightarrow> (\<And>p. p \<in> set (before v) \<Longrightarrow> Q p) \<Longrightarrow> Q v"
  shows "Q v"
proof -
  have "\<forall>v \<in> set xs. Q v" if "topo = xs @ ys" for xs ys
    using that
  proof (induction xs arbitrary: ys rule: rev_induct)
    case (snoc u xs)
    then have "topo = xs @ u # ys" by simp
    then have "set (before u) \<subseteq> set xs" using assms(1) unfolding in_order_def by blast
    then show ?case using snoc step [of u] by auto
  qed simp
  from this [of topo "[]"] show ?thesis using assms(2) by simp
qed

lemma get_or_cong: "(\<And>u. u \<in> set us \<Longrightarrow> map_of m u = map_of m' u) \<Longrightarrow> map (\<lambda>u. f u (get_or d m u)) us = map (\<lambda>u. f u (get_or d m' u)) us"
  by (simp add: get_or_def)

definition early :: "gantt_item list \<Rightarrow> gantt_dep list \<Rightarrow> string \<Rightarrow> int" where
  "early items deps = get_or 0 (earliest items deps)"

definition late :: "gantt_item list \<Rightarrow> gantt_dep list \<Rightarrow> string \<Rightarrow> int" where
  "late items deps = get_or 0 (latest items deps)"

text \<open>Every item can be ordered: there are no cycles.\<close>

definition schedulable :: "gantt_item list \<Rightarrow> gantt_dep list \<Rightarrow> bool" where
  "schedulable items deps \<longleftrightarrow> well_linked items deps \<and> set (topological items deps) = set (ids items)"

lemma schedulable_order:
  assumes "schedulable items deps"
  shows "distinct (topological items deps)" "in_order (preds_of items deps) (topological items deps)"
    "set (topological items deps) = set (ids items)"
  using assms topological_order by (auto simp: schedulable_def)

lemma edge_both_ways:
  assumes "well_linked items deps"
  shows "s \<in> set (succs_of items deps v) \<longleftrightarrow> v \<in> set (preds_of items deps s)"
  using assms by (auto simp: succs_of_eq preds_of_eq well_linked_def)

lemma succs_ids: "well_linked items deps \<Longrightarrow> set (succs_of items deps v) \<subseteq> set (ids items)"
  by (auto simp: succs_of_eq well_linked_def)

lemma distinct_split:
  assumes "distinct (a @ s # b)" "a @ s # b = c @ s # e"
  shows "c = a"
proof -
  have cut: "takeWhile (\<lambda>x. x \<noteq> s) (xs @ s # ys) = xs" if "distinct (xs @ s # ys)" for xs ys
    using that by (subst takeWhile_append2) auto
  have "distinct (c @ s # e)" using assms by simp
  with cut [OF assms(1)] cut [of c e] show ?thesis using assms(2) by simp
qed

lemma in_order_rev:
  assumes ok: "schedulable items deps"
  shows "in_order (succs_of items deps) (rev (topological items deps))"
  unfolding in_order_def
proof (intro allI impI subsetI)
  fix xs v ys s
  assume split: "rev (topological items deps) = xs @ v # ys" and s: "s \<in> set (succs_of items deps v)"
  have wl: "well_linked items deps" using ok by (simp add: schedulable_def)
  have topo: "topological items deps = rev ys @ v # rev xs"
    using split by (metis append.assoc append_Cons append_Nil rev_append rev_rev_ident rev.simps(2))
  have v: "v \<in> set (preds_of items deps s)" using s edge_both_ways [OF wl] by simp
  have "s \<in> set (topological items deps)" using succs_ids [OF wl] s schedulable_order(3) [OF ok] by blast
  then obtain a b where ab: "topological items deps = a @ s # b" by (meson split_list)
  then have va: "v \<in> set a" using v schedulable_order(2) [OF ok] unfolding in_order_def by blast
  have dist: "distinct (topological items deps)" by (rule schedulable_order(1) [OF ok])
  show "s \<in> set xs"
  proof (rule ccontr)
    assume "s \<notin> set xs"
    then have "s \<in> set (rev ys @ [v])" using \<open>s \<in> set (topological items deps)\<close> topo by auto
    then obtain c e where ce: "rev ys @ [v] = c @ s # e" by (meson split_list)
    then have "topological items deps = c @ s # (e @ rev xs)" using topo by (metis append.assoc append_Cons append_Nil)
    then have "c = a" using distinct_split [of a s b c] dist ab by simp
    then show False using va ce dist topo by (cases e rule: rev_cases) auto
  qed
qed

lemma early_eq:
  assumes ok: "schedulable items deps" and v: "v \<in> set (ids items)"
  shows "early items deps v = (let ps = preds_of items deps v in
     (if ps = [] then 0 else Max (early items deps ` set ps)) + duration items v)"
proof -
  define F where "F = (\<lambda>v m. let ps = preds_of items deps v in
     (if ps = [] then 0 else Max (set (map (get_or 0 m) ps))) + duration items v)"
  have table: "earliest items deps = fold (\<lambda>v m. AList.update v (F v m) m) (topological items deps) []"
    by (simp add: earliest_def finish_early_def [abs_def] F_def Let_def)
  have loc: "F v m = F v m'" if "\<And>u. u \<in> set (preds_of items deps v) \<Longrightarrow> map_of m u = map_of m' u" for v m m'
    using get_or_cong [of "preds_of items deps v" m m' "\<lambda>u x. x" 0, OF that] by (simp add: F_def Let_def)
  have "map_of (earliest items deps) v = Some (F v (earliest items deps))"
    using pass_fixpoint [of "preds_of items deps" F, OF loc] schedulable_order [OF ok] v
    unfolding table by presburger
  then show ?thesis by (simp add: early_def get_or_def F_def Let_def image_image)
qed

lemma early_keys:
  assumes ok: "schedulable items deps"
  shows "fst ` set (earliest items deps) = set (ids items)" "distinct (map fst (earliest items deps))"
    and "set (map snd (earliest items deps)) = early items deps ` set (ids items)"
proof -
  define F where "F = (\<lambda>v m. let ps = preds_of items deps v in
     (if ps = [] then 0 else Max (set (map (get_or 0 m) ps))) + duration items v)"
  have table: "earliest items deps = fold (\<lambda>v m. AList.update v (F v m) m) (topological items deps) []"
    by (simp add: earliest_def finish_early_def [abs_def] F_def Let_def)
  have loc: "F v m = F v m'" if "\<And>u. u \<in> set (preds_of items deps v) \<Longrightarrow> map_of m u = map_of m' u" for v m m'
    using get_or_cong [of "preds_of items deps v" m m' "\<lambda>u x. x" 0, OF that] by (simp add: F_def Let_def)
  note fixp = pass_fixpoint [of "preds_of items deps" F, OF loc, OF _ schedulable_order(1,2) [OF ok], folded table,
      unfolded schedulable_order(3) [OF ok]]
  have dom: "dom (map_of (earliest items deps)) = set (ids items)"
    using fixp by (auto simp: dom_def)
  then show keys: "fst ` set (earliest items deps) = set (ids items)" by (simp add: dom_map_of_conv_image_fst)
  show dist: "distinct (map fst (earliest items deps))" using fixp by blast
  have "snd e = early items deps (fst e)" if "e \<in> set (earliest items deps)" for e
    using map_of_is_SomeI [OF dist, of "fst e" "snd e"] that by (simp add: early_def get_or_def)
  then have "snd ` set (earliest items deps) = (\<lambda>e. early items deps (fst e)) ` set (earliest items deps)"
    by (rule image_cong [OF refl])
  then show "set (map snd (earliest items deps)) = early items deps ` set (ids items)"
    by (simp add: keys [symmetric] image_image)
qed

lemma late_eq:
  assumes ok: "schedulable items deps" and v: "v \<in> set (ids items)"
  shows "late items deps v = (let ss = succs_of items deps v in
     if ss = [] then projectEndTime items deps
     else Min ((\<lambda>s. late items deps s - duration items s) ` set ss))"
proof -
  let ?E = "projectEndTime items deps"
  define F where "F = (\<lambda>v m. let ss = succs_of items deps v in
     if ss = [] then ?E else Min (set (map (\<lambda>s. get_or ?E m s - duration items s) ss)))"
  have table: "latest items deps = fold (\<lambda>v m. AList.update v (F v m) m) (rev (topological items deps)) []"
    by (simp add: latest_def finish_late_def [abs_def] F_def Let_def)
  have loc: "F v m = F v m'" if "\<And>u. u \<in> set (succs_of items deps v) \<Longrightarrow> map_of m u = map_of m' u" for v m m'
    using get_or_cong [of "succs_of items deps v" m m' "\<lambda>u x. x - duration items u" ?E, OF that]
    by (simp add: F_def Let_def)
  note fixp = pass_fixpoint [of "succs_of items deps" F, OF loc, OF _ _ in_order_rev [OF ok], folded table]
  have all: "map_of (latest items deps) u = Some (F u (latest items deps))" if "u \<in> set (ids items)" for u
    using fixp that schedulable_order [OF ok] by simp
  have "get_or ?E (latest items deps) s = late items deps s" if "s \<in> set (succs_of items deps v)" for s
  proof -
    have "s \<in> set (ids items)" using that ok succs_ids by (auto simp: schedulable_def)
    then show ?thesis using all by (simp add: late_def get_or_def)
  qed
  then have "(\<lambda>s. get_or ?E (latest items deps) s - duration items s) ` set (succs_of items deps v) =
      (\<lambda>s. late items deps s - duration items s) ` set (succs_of items deps v)"
    by (intro image_cong) simp_all
  then show ?thesis using all [OF v] by (simp add: late_def get_or_def F_def Let_def)
qed

lemma duration_pos: "v \<in> set (ids items) \<Longrightarrow> 1 \<le> duration items v"
proof -
  assume "v \<in> set (ids items)"
  then have "v \<in> fst ` set (byId items)" by (force simp: byId_def spread_keys ids_def)
  then have "map_of (byId items) v \<noteq> None" by (simp add: map_of_eq_None_iff)
  then show ?thesis by (auto simp: duration_def)
qed

section \<open>Critical items\<close>

definition linked :: "gantt_dep list \<Rightarrow> string list \<Rightarrow> bool" where
  "linked deps path \<longleftrightarrow> successively (\<lambda>a b. \<exists>d \<in> set deps. fromId d = a \<and> toId d = b) path"

definition path_days :: "gantt_item list \<Rightarrow> string list \<Rightarrow> int" where
  "path_days items path = sum_list (map (duration items) path)"

lemma preds_dep:
  "well_linked items deps \<Longrightarrow> p \<in> set (preds_of items deps v) \<longleftrightarrow> (\<exists>d \<in> set deps. fromId d = p \<and> toId d = v)"
  by (auto simp: preds_of_eq well_linked_def)

lemma preds_ids: "well_linked items deps \<Longrightarrow> set (preds_of items deps v) \<subseteq> set (ids items)"
  by (auto simp: preds_of_eq well_linked_def)

lemma schedulable_linked: "schedulable items deps \<Longrightarrow> well_linked items deps"
  by (simp add: schedulable_def)

lemma early_after:
  assumes ok: "schedulable items deps" and p: "p \<in> set (preds_of items deps v)"
  shows "early items deps p + duration items v \<le> early items deps v"
proof -
  have "v \<in> set (ids items)" using p by (auto simp: preds_of_eq split: if_splits)
  then have "early items deps v = Max (early items deps ` set (preds_of items deps v)) + duration items v"
    using early_eq [OF ok] p by (auto simp: Let_def)
  moreover have "early items deps p \<le> Max (early items deps ` set (preds_of items deps v))"
    using p by (intro Max_ge) auto
  ultimately show ?thesis by simp
qed

lemma early_first: "schedulable items deps \<Longrightarrow> v \<in> set (ids items) \<Longrightarrow> duration items v \<le> early items deps v"
proof -
  assume ok: "schedulable items deps" and "v \<in> set (ids items)"
  then have "v \<in> set (topological items deps)" by (simp add: schedulable_order)
  with schedulable_order(2) [OF ok] show ?thesis
  proof (induction rule: in_order_induct)
    case (step v)
    show ?case
    proof (cases "preds_of items deps v = []")
      case True
      then show ?thesis using early_eq [OF ok] step(1) by (simp add: schedulable_order [OF ok])
    next
      case False
      then obtain p where p: "p \<in> set (preds_of items deps v)" by (meson last_in_set)
      have "p \<in> set (ids items)" using p preds_ids ok schedulable_linked by blast
      then show ?thesis using early_after [OF ok p] step(2) [OF p] duration_pos [of p items] by linarith
    qed
  qed
qed

lemma early_attained:
  assumes ok: "schedulable items deps" and v: "v \<in> set (ids items)" and ps: "preds_of items deps v \<noteq> []"
  obtains p where "p \<in> set (preds_of items deps v)" "early items deps v = early items deps p + duration items v"
proof -
  have "Max (early items deps ` set (preds_of items deps v)) \<in> early items deps ` set (preds_of items deps v)"
    using ps by (intro Max_in) auto
  then obtain p where "p \<in> set (preds_of items deps v)"
      "Max (early items deps ` set (preds_of items deps v)) = early items deps p" by blast
  then show ?thesis using early_eq [OF ok v] ps that by (simp add: Let_def)
qed

lemma late_before:
  assumes ok: "schedulable items deps" and s: "s \<in> set (succs_of items deps v)"
  shows "late items deps v \<le> late items deps s - duration items s"
proof -
  have "v \<in> set (ids items)" using s by (auto simp: succs_of_eq split: if_splits)
  then have "late items deps v = Min ((\<lambda>s. late items deps s - duration items s) ` set (succs_of items deps v))"
    using late_eq [OF ok] s by (auto simp: Let_def)
  also have "\<dots> \<le> late items deps s - duration items s" using s by (intro Min_le) auto
  finally show ?thesis .
qed

lemma end_is_max:
  assumes ok: "schedulable items deps" and "items \<noteq> []"
  shows "projectEndTime items deps = Max (early items deps ` set (ids items))"
proof -
  have "earliest items deps \<noteq> []" using early_keys(1) [OF ok] assms(2) by (cases items) auto
  then show ?thesis using early_keys(3) [OF ok] by (simp add: projectEndTime_def)
qed

lemma early_le_end: "schedulable items deps \<Longrightarrow> v \<in> set (ids items) \<Longrightarrow> early items deps v \<le> projectEndTime items deps"
  by (subst end_is_max) (auto intro!: Max_ge)

text \<open>No item can finish after the moment it has to.\<close>

lemma slack_nonneg:
  assumes ok: "schedulable items deps" and "v \<in> set (ids items)"
  shows "early items deps v \<le> late items deps v"
proof -
  have "v \<in> set (rev (topological items deps))" using assms by (simp add: schedulable_order)
  with in_order_rev [OF ok] show ?thesis
  proof (induction rule: in_order_induct)
    case (step v)
    then have v: "v \<in> set (ids items)" by (simp add: schedulable_order [OF ok])
    show ?case
    proof (cases "succs_of items deps v = []")
      case True
      then show ?thesis using late_eq [OF ok v] early_le_end [OF ok v] by simp
    next
      case False
      have "early items deps v \<le> late items deps s - duration items s" if s: "s \<in> set (succs_of items deps v)" for s
        using step(2) [OF s] early_after [OF ok, of v s] s edge_both_ways [OF schedulable_linked [OF ok]] by force
      then show ?thesis using late_eq [OF ok v] False by (simp add: Let_def)
    qed
  qed
qed

lemma is_critical_iff: "is_critical items deps v \<longleftrightarrow> late items deps v = early items deps v"
  by (simp add: is_critical_def late_def early_def)

lemma linked_snoc: "linked deps (path @ [v]) \<longleftrightarrow>
    linked deps path \<and> (path \<noteq> [] \<longrightarrow> (\<exists>d \<in> set deps. fromId d = last path \<and> toId d = v))"
  by (auto simp: linked_def successively_append_iff)

lemma path_days_snoc [simp]: "path_days items (path @ [v]) = path_days items path + duration items v"
  by (simp add: path_days_def)

lemma linked_days:
  assumes ok: "schedulable items deps"
  shows "path \<noteq> [] \<Longrightarrow> linked deps path \<Longrightarrow> set path \<subseteq> set (ids items) \<Longrightarrow>
    path_days items path \<le> early items deps (last path)"
proof (induction path rule: rev_induct)
  case (snoc v path)
  show ?case
  proof (cases "path = []")
    case True
    then show ?thesis using early_first [OF ok, of v] snoc.prems by (simp add: path_days_def)
  next
    case False
    then have "last path \<in> set (preds_of items deps v)"
      using snoc.prems(2) preds_dep [OF schedulable_linked [OF ok]] by (auto simp: linked_snoc)
    then have "early items deps (last path) + duration items v \<le> early items deps v" by (rule early_after [OF ok])
    then show ?thesis using snoc.IH [OF False] snoc.prems by (simp add: linked_snoc)
  qed
qed simp

lemma critical_chain:
  assumes ok: "schedulable items deps" and "v \<in> set (ids items)"
  shows "is_critical items deps v \<Longrightarrow>
    \<exists>path. path \<noteq> [] \<and> last path = v \<and> linked deps path \<and> set path \<subseteq> set (ids items) \<and>
      (\<forall>u \<in> set path. is_critical items deps u) \<and> preds_of items deps (hd path) = [] \<and>
      path_days items path = early items deps v"
proof -
  have "v \<in> set (topological items deps)" using assms by (simp add: schedulable_order)
  with schedulable_order(2) [OF ok]
  show "is_critical items deps v \<Longrightarrow> ?thesis"
  proof (induction rule: in_order_induct)
    case (step v)
    have v: "v \<in> set (ids items)" using step(1) by (simp add: schedulable_order [OF ok])
    show ?case
    proof (cases "preds_of items deps v = []")
      case True
      then show ?thesis using early_eq [OF ok v] v step.prems
        by (intro exI [of _ "[v]"]) (simp add: linked_def path_days_def)
    next
      case False
      obtain p where p: "p \<in> set (preds_of items deps v)" "early items deps v = early items deps p + duration items v"
        by (rule early_attained [OF ok v False])
      have pid: "p \<in> set (ids items)" using p(1) preds_ids schedulable_linked [OF ok] by blast
      have "v \<in> set (succs_of items deps p)" using p(1) edge_both_ways [OF schedulable_linked [OF ok]] by blast
      then have "late items deps p \<le> early items deps p"
        using late_before [OF ok] p(2) step.prems is_critical_iff by fastforce
      then have "is_critical items deps p"
        using slack_nonneg [OF ok pid] by (simp add: is_critical_iff)
      then obtain path where path: "path \<noteq> []" "last path = p" "linked deps path" "set path \<subseteq> set (ids items)"
          "\<forall>u \<in> set path. is_critical items deps u" "preds_of items deps (hd path) = []"
          "path_days items path = early items deps p"
        using step(2) [OF p(1)] by blast
      have "linked deps (path @ [v])"
        using path p(1) preds_dep [OF schedulable_linked [OF ok]] by (simp add: linked_snoc)
      then show ?thesis using path p(2) v step.prems by (intro exI [of _ "path @ [v]"]) simp
    qed
  qed
qed

text \<open>A path of dependencies from an item without predecessors to one without successors that
  takes as many days as any.\<close>

definition longest_path :: "gantt_item list \<Rightarrow> gantt_dep list \<Rightarrow> string list \<Rightarrow> bool" where
  "longest_path items deps path \<longleftrightarrow>
     path \<noteq> [] \<and> linked deps path \<and>
     preds_of items deps (hd path) = [] \<and> succs_of items deps (last path) = [] \<and>
     (\<forall>other. other \<noteq> [] \<longrightarrow> linked deps other \<longrightarrow> set other \<subseteq> set (ids items) \<longrightarrow>
        path_days items other \<le> path_days items path)"

lemma critical_longest:
  assumes ok: "schedulable items deps" and "items \<noteq> []"
  shows "\<exists>path. longest_path items deps path \<and> set path \<subseteq> computeCriticalPath items deps"
proof -
  have "projectEndTime items deps \<in> early items deps ` set (ids items)"
    unfolding end_is_max [OF assms] using assms(2) by (intro Max_in) (auto simp: ids_def)
  then obtain v where v: "v \<in> set (ids items)" "early items deps v = projectEndTime items deps" by auto
  have last: "succs_of items deps v = []"
  proof (rule ccontr)
    assume "succs_of items deps v \<noteq> []"
    then obtain s where s: "s \<in> set (succs_of items deps v)" by (meson last_in_set)
    then have sid: "s \<in> set (ids items)" using succs_ids schedulable_linked [OF ok] by blast
    have "early items deps v + duration items s \<le> early items deps s"
      using early_after [OF ok] s edge_both_ways [OF schedulable_linked [OF ok]] by blast
    then show False using early_le_end [OF ok sid] duration_pos [OF sid] v(2) by linarith
  qed
  then have "is_critical items deps v" using late_eq [OF ok v(1)] v(2) by (simp add: is_critical_iff)
  from critical_chain [OF ok v(1) this] obtain path where path: "path \<noteq> []" "last path = v" "linked deps path"
      "set path \<subseteq> set (ids items)" "\<forall>u \<in> set path. is_critical items deps u" "preds_of items deps (hd path) = []"
      "path_days items path = early items deps v" by blast
  have "path_days items other \<le> path_days items path"
    if "other \<noteq> []" "linked deps other" "set other \<subseteq> set (ids items)" for other
  proof -
    have "early items deps (last other) \<le> early items deps v"
      unfolding v(2) using that by (intro early_le_end [OF ok]) auto
    then show ?thesis using linked_days [OF ok that] path(7) by simp
  qed
  moreover have "set path \<subseteq> computeCriticalPath items deps"
    using path(4,5) assms(2) by (auto simp: computeCriticalPath_def ids_def)
  ultimately show ?thesis using path last unfolding longest_path_def by blast
qed

text \<open>An item on a cycle has no finish times: both default to 0 and it counts as critical.\<close>

lemma cycle_is_critical:
  "computeCriticalPath
     [i\<lparr> i_id := ''a'' \<rparr>, i\<lparr> i_id := ''b'' \<rparr>]
     [\<lparr> fromId = ''a'', toId = ''b'' \<rparr>, \<lparr> fromId = ''b'', toId = ''a'' \<rparr>] = {''a'', ''b''}"
  by (simp add: computeCriticalPath_def is_critical_def latest_def earliest_def topological_def inDegrees_def
      predecessors_def successors_def empty_table_def push_at_def get_or_def)

section \<open>The rows of a program\<close>

text \<open>Every dependency leads from an earlier row, or from \<open>base\<close>, to a row.\<close>

definition forward :: "string set \<Rightarrow> string list \<Rightarrow> gantt_dep list \<Rightarrow> bool" where
  "forward base rows deps \<longleftrightarrow>
     (\<forall>d \<in> set deps. toId d \<in> set rows \<and> fromId d \<in> base \<union> set (takeWhile (\<lambda>x. x \<noteq> toId d) rows))"

lemma forward_append:
  assumes "forward base rows deps" "forward (base \<union> set rows) rows' deps'" "set rows \<inter> set rows' = {}"
  shows "forward base (rows @ rows') (deps @ deps')"
  unfolding forward_def
proof
  fix d assume "d \<in> set (deps @ deps')"
  then consider "d \<in> set deps" | "d \<in> set deps'" by auto
  then show "toId d \<in> set (rows @ rows') \<and>
      fromId d \<in> base \<union> set (takeWhile (\<lambda>x. x \<noteq> toId d) (rows @ rows'))"
  proof cases
    case 1
    then have "toId d \<in> set rows" using assms(1) by (auto simp: forward_def)
    then have "takeWhile (\<lambda>x. x \<noteq> toId d) (rows @ rows') = takeWhile (\<lambda>x. x \<noteq> toId d) rows"
      by (simp add: takeWhile_append1)
    then show ?thesis using 1 assms(1) by (auto simp: forward_def)
  next
    case 2
    then have "toId d \<notin> set rows" using assms(2,3) by (auto simp: forward_def)
    then have "takeWhile (\<lambda>x. x \<noteq> toId d) (rows @ rows') = rows @ takeWhile (\<lambda>x. x \<noteq> toId d) rows'"
      by (intro takeWhile_append2) auto
    then show ?thesis using 2 assms(2) by (auto simp: forward_def)
  qed
qed

lemma forward_mono: "forward base rows deps \<Longrightarrow> base \<subseteq> base' \<Longrightarrow> forward base' rows deps"
  by (auto simp: forward_def)

lemma forward_order:
  assumes "forward {} (ids items) deps" "distinct (ids items)"
  shows "well_linked items deps \<and> in_order (preds_of items deps) (ids items)"
proof -
  have "set (preds_of items deps v) \<subseteq> set xs" if "ids items = xs @ v # ys" for xs v ys
  proof
    fix p assume "p \<in> set (preds_of items deps v)"
    then obtain d where d: "d \<in> set deps" "toId d = v" "fromId d = p" by (auto simp: preds_of_eq split: if_splits)
    have "takeWhile (\<lambda>x. x \<noteq> v) (xs @ v # ys) = xs"
      using assms(2) that by (subst takeWhile_append2) auto
    moreover have "fromId d \<in> set (takeWhile (\<lambda>x. x \<noteq> toId d) (ids items))"
      using assms(1) d(1) by (auto simp: forward_def)
    ultimately show "p \<in> set xs" using d that by simp
  qed
  moreover have "well_linked items deps"
    using assms by (auto simp: well_linked_def forward_def dest: set_takeWhileD)
  ultimately show ?thesis by (simp add: in_order_def)
qed

lemma task_rows_ids: "ids (fst (task_rows z mid mStart mEnd prev ts)) = map t_id ts"
  by (induction ts arbitrary: prev) (simp_all add: Let_def case_prod_beta)

lemma task_rows_forward:
  "distinct (map t_id ts) \<Longrightarrow> [] \<notin> set (map t_id ts) \<Longrightarrow>
   forward ({mid} \<union> set_option prev) (map t_id ts) (snd (task_rows z mid mStart mEnd prev ts))"
proof (induction ts arbitrary: prev)
  case (Cons t ts)
  obtain items deps where rows: "task_rows z mid mStart mEnd (Some (t_id t)) ts = (items, deps)" by fastforce
  define before where "before = (case prev of None \<Rightarrow> mid | Some p \<Rightarrow> if p = [] then mid else p)"
  have "forward ({mid} \<union> set_option (Some (t_id t))) (map t_id ts) deps"
    using Cons.IH [of "Some (t_id t)"] Cons.prems rows by simp
  then have "forward (({mid} \<union> set_option prev) \<union> set [t_id t]) (map t_id ts) deps"
    by (rule forward_mono) auto
  moreover have "forward ({mid} \<union> set_option prev) [t_id t] [\<lparr> fromId = before, toId = t_id t \<rparr>]"
    by (auto simp: forward_def before_def split: option.splits)
  ultimately show ?case
    using forward_append [of "{mid} \<union> set_option prev" "[t_id t]" "[\<lparr> fromId = before, toId = t_id t \<rparr>]" "map t_id ts" deps]
      Cons.prems rows by (simp add: before_def Let_def)
qed (simp add: forward_def)

text \<open>The rows in their order: every milestone followed by its tasks.\<close>

fun row_ids :: "zone \<Rightarrow> int \<Rightarrow> int \<Rightarrow> gantt_milestone list \<Rightarrow> string list" where
  "row_ids z projectStart mIdx [] = []"
| "row_ids z projectStart mIdx (m # ms) =
     m_id m # map t_id (sortedTasks (end_of_day z (parseDate (m_due m) (addDays z projectStart ((mIdx + 1) * 14)))) (m_tasks m)) @
     row_ids z projectStart (mIdx + 1) ms"

lemma milestone_rows_ids: "ids (fst (milestone_rows z ps prev n ms)) = row_ids z ps n ms"
  by (induction ms arbitrary: prev n) (simp_all add: Let_def case_prod_beta task_rows_ids)

lemma milestone_rows_forward:
  "distinct (row_ids z ps n ms) \<Longrightarrow> [] \<notin> set (row_ids z ps n ms) \<Longrightarrow>
   forward (m_id ` set_option prev) (row_ids z ps n ms) (snd (milestone_rows z ps prev n ms))"
proof (induction ms arbitrary: prev n)
  case (Cons m ms)
  define mEnd where "mEnd = end_of_day z (parseDate (m_due m) (addDays z ps ((n + 1) * 14)))"
  define mStart where "mStart = midnight z (case prev of None \<Rightarrow> ps | Some pm \<Rightarrow> parseDate (m_due pm) (addDays z ps (n * 14)))"
  define before where "before = (case prev of None \<Rightarrow> [] | Some pm \<Rightarrow> if m_id pm = [] then [] else [m_id pm])"
  define ts where "ts = sortedTasks mEnd (m_tasks m)"
  define base where "base = m_id ` set_option prev"
  obtain titems tdeps where t: "task_rows z (m_id m) mStart mEnd None ts = (titems, tdeps)" by fastforce
  obtain items deps where r: "milestone_rows z ps (Some m) (n + 1) ms = (items, deps)" by fastforce
  have deps: "snd (milestone_rows z ps prev n (m # ms)) = map (\<lambda>p. \<lparr> fromId = p, toId = m_id m \<rparr>) before @ tdeps @ deps"
    using t r by (simp add: Let_def mEnd_def mStart_def before_def ts_def)
  have rows: "row_ids z ps n (m # ms) = [m_id m] @ map t_id ts @ row_ids z ps (n + 1) ms"
    by (simp add: ts_def mEnd_def)
  have ok: "distinct ([m_id m] @ map t_id ts @ row_ids z ps (n + 1) ms)"
      "[] \<notin> set ([m_id m] @ map t_id ts @ row_ids z ps (n + 1) ms)"
    using Cons.prems unfolding rows by blast+
  have "forward base [m_id m] (map (\<lambda>p. \<lparr> fromId = p, toId = m_id m \<rparr>) before)"
    by (auto simp: forward_def before_def base_def split: option.splits if_splits)
  moreover have "forward (base \<union> set [m_id m]) (map t_id ts) tdeps"
    using task_rows_forward [of ts "m_id m" None z mStart mEnd] ok t by (auto intro: forward_mono)
  moreover have "forward ((base \<union> set [m_id m]) \<union> set (map t_id ts)) (row_ids z ps (n + 1) ms) deps"
    using Cons.IH [of "n + 1" "Some m"] ok r by (auto intro: forward_mono)
  ultimately show ?case unfolding deps rows base_def [symmetric] using ok(1)
    by (intro forward_append) auto
qed (simp add: forward_def)

definition program_ids :: "gantt_program \<Rightarrow> string list" where
  "program_ids p = concat (map (\<lambda>m. m_id m # map t_id (m_tasks m)) (p_milestones p))"

lemma row_ids_mset:
  "mset (row_ids z ps n ms) = (\<Sum>m \<in># mset ms. add_mset (m_id m) (image_mset t_id (mset (m_tasks m))))"
  by (induction ms arbitrary: n) (simp_all add: sortedTasks_def)

lemma program_rows_ids: "mset (ids (fst (program_rows z today p))) = mset (program_ids p)"
  by (simp add: program_rows_def milestone_rows_ids row_ids_mset sortedMilestones_def program_ids_def
      mset_concat sum_mset_sum_list [symmetric] comp_def)

lemma program_rows_schedulable:
  assumes "distinct (program_ids p)" "[] \<notin> set (program_ids p)"
  shows "schedulable (fst (program_rows z today p)) (snd (program_rows z today p))"
proof -
  let ?ms = "sortedMilestones (program_end z today p) (p_milestones p)"
  have rows: "ids (fst (program_rows z today p)) = row_ids z (program_start z today p) 0 ?ms"
    by (simp add: program_rows_def milestone_rows_ids)
  have dist: "distinct (ids (fst (program_rows z today p)))" "[] \<notin> set (ids (fst (program_rows z today p)))"
    using assms program_rows_ids [of z today p] by (metis mset_eq_imp_distinct_iff) (metis assms(2) program_rows_ids mset_eq_setD)
  have "forward {} (ids (fst (program_rows z today p))) (snd (program_rows z today p))"
    using milestone_rows_forward [of z "program_start z today p" 0 ?ms None] dist
    unfolding rows by (simp add: program_rows_def)
  then show ?thesis
    using forward_order dist(1) topological_complete unfolding schedulable_def by blast
qed

text \<open>C20.  The chart of a program whose milestones and tasks have distinct non-empty ids: the rows
  marked critical contain a path of dependencies from a row that depends on nothing to one
  that nothing depends on, and no other path takes more days.
\<close>

theorem gantt_critical_path:
  assumes "distinct (program_ids p)" "[] \<notin> set (program_ids p)" "program_ids p \<noteq> []"
  shows "let g = useProgramGantt z now (Some p) in
    \<exists>path. longest_path (map fst (gd_items g)) (gd_deps g) path \<and>
      set path \<subseteq> {i_id i |i. (i, True) \<in> set (gd_items g)}"
proof -
  define today where "today = midnight z now"
  obtain items deps where rows: "program_rows z today p = (items, deps)" by fastforce
  have ok: "schedulable items deps" using program_rows_schedulable [OF assms(1,2), of z today] rows by simp
  have same: "set (ids items) = set (program_ids p)"
    using mset_eq_setD [OF program_rows_ids [of z today p]] unfolding rows fst_conv .
  have "items \<noteq> []" using same assms(3) by auto
  note path = critical_longest [OF ok this]
  have g: "gd_items (useProgramGantt z now (Some p)) = map (\<lambda>i. (i, i_id i \<in> computeCriticalPath items deps)) items"
      "gd_deps (useProgramGantt z now (Some p)) = deps"
    using rows by (simp_all add: useProgramGantt_def Let_def today_def)
  have "{i_id i |i. (i, True) \<in> set (gd_items (useProgramGantt z now (Some p)))} = computeCriticalPath items deps"
    unfolding g by (auto simp: computeCriticalPath_def)
  moreover have "map fst (gd_items (useProgramGantt z now (Some p))) = items"
    by (simp add: g(1) comp_def)
  ultimately show ?thesis using path unfolding Let_def g(2) by simp
qed

definition two_milestones :: gantt_program where
  "two_milestones =
     \<lparr> p_start = Some 0, p_end = None,
       p_milestones =
         [\<lparr> m_id = ''m1'', m_title = [], m_status = [], m_position = 0, m_due = Some 0,
            m_tasks = [\<lparr> t_id = ''t1'', t_title = [], t_status = [], t_due = Some 864000000 \<rparr>] \<rparr>,
          \<lparr> m_id = ''m2'', m_title = [], m_status = [], m_position = 1, m_due = Some 172800000, m_tasks = [] \<rparr>] \<rparr>"

lemma gantt_critical_path_witness:
  "\<exists>path. longest_path (map fst (gd_items (useProgramGantt (fixed_zone 0) 0 (Some two_milestones))))
      (gd_deps (useProgramGantt (fixed_zone 0) 0 (Some two_milestones))) path"
  using gantt_critical_path [of two_milestones "fixed_zone 0" 0]
  by (auto simp: program_ids_def two_milestones_def Let_def)

lemma topological_order_witness:
  "distinct (topological (fst (program_rows (fixed_zone 0) 0 two_milestones)) (snd (program_rows (fixed_zone 0) 0 two_milestones)))"
proof -
  have "well_linked (fst (program_rows (fixed_zone 0) 0 two_milestones)) (snd (program_rows (fixed_zone 0) 0 two_milestones))"
    by (rule schedulable_linked [OF program_rows_schedulable]) (simp_all add: program_ids_def two_milestones_def)
  from topological_order [OF this] show ?thesis by blast
qed

text \<open>The task that ends last makes the path, not the milestones after it.\<close>

lemma two_milestones_critical:
  "gd_critical (useProgramGantt (fixed_zone 0) 0 (Some two_milestones)) = {''m1'', ''t1''}"
  by code_simp

text \<open>All tasks of a milestone start with it, yet the path adds their days up: three rows that
  all end on day 10 make a path of 33 days.\<close>

definition ten_days :: gantt_program where
  "ten_days =
     \<lparr> p_start = Some 0, p_end = None,
       p_milestones =
         [\<lparr> m_id = ''m'', m_title = [], m_status = [], m_position = 0, m_due = Some 864000000,
            m_tasks = [\<lparr> t_id = ''t'', t_title = [], t_status = [], t_due = None \<rparr>,
                       \<lparr> t_id = ''u'', t_title = [], t_status = [], t_due = None \<rparr>] \<rparr>] \<rparr>"

lemma days_counted_again:
  "early (map fst (gd_items (useProgramGantt (fixed_zone 0) 0 (Some ten_days)))) (gd_deps (useProgramGantt (fixed_zone 0) 0 (Some ten_days))) ''u'' = 33"
  by code_simp

end
