(* ===== verification/Search.thy ===== *)
theory Search
  imports Machines
begin

text \<open>
  Searching: the query language (\<open>parseSearchQuery\<close> in \<open>frontend/src/hooks/use-global-search.ts\<close>),
  the state of the command palette (\<open>components/navigation/command-palette.tsx\<close>) and of the
  search field with suggestions (\<open>components/search/global-search.tsx\<close>), and the debounced value
  both use (\<open>hooks/use-debounce.ts\<close>).

  Regular expressions are written out as scans.  Calls to the list of recent searches, to
  \<open>onSearch\<close> and to the router are logged; \<open>encodeURIComponent\<close> is a parameter.
\<close>

section \<open>The query language\<close>

text \<open>\<open>s.split(/\s+/).filter(Boolean)\<close>.\<close>

fun words :: "string \<Rightarrow> string list" where
  "words [] = []"
| "words (c # s) =
     (if is_space c then words s
      else if s = [] \<or> is_space (hd s) then [c] # words s
      else (case words s of [] \<Rightarrow> [[c]] | w # ws \<Rightarrow> (c # w) # ws))"

text \<open>The matches of a quoted phrase of at least one character, quotes included.\<close>

function quoted_matches :: "string \<Rightarrow> string list" where
  "quoted_matches [] = []"
| "quoted_matches (c # s) =
     (let body = takeWhile (\<lambda>x. x \<noteq> DQ) s; after = dropWhile (\<lambda>x. x \<noteq> DQ) s in
      if c = DQ \<and> body \<noteq> [] \<and> after \<noteq> [] then (c # body @ [DQ]) # quoted_matches (tl after)
      else quoted_matches s)"
  by pat_completeness auto
termination
  by (relation "measure length") (auto simp: length_dropWhile_le le_SucI le_imp_less_Suc diff_le_self
      intro!: le_imp_less_Suc le_trans [OF diff_le_self length_dropWhile_le])

text \<open>The matches of an operator: from where it begins to the end of the word.\<close>

function word_matches :: "(string \<Rightarrow> bool) \<Rightarrow> string \<Rightarrow> string list" where
  "word_matches p [] = []"
| "word_matches p (c # s) =
     (if p (c # s)
      then (c # takeWhile (\<lambda>x. \<not> is_space x) s) # word_matches p (dropWhile (\<lambda>x. \<not> is_space x) s)
      else word_matches p s)"
  by pat_completeness auto
termination
  by (relation "measure (\<lambda>(p, s). length s)") (auto simp: length_dropWhile_le le_imp_less_Suc)

text \<open>\<open>/type:(\S+)/gi\<close> and \<open>/-(\S+)/g\<close> at a position.\<close>

definition type_at :: "string \<Rightarrow> bool" where
  "type_at s \<longleftrightarrow> lower (take 5 s) = ''type:'' \<and> drop 5 s \<noteq> [] \<and> \<not> is_space (hd (drop 5 s))"

definition exclude_at :: "string \<Rightarrow> bool" where
  "exclude_at s \<longleftrightarrow> take 1 s = ''-'' \<and> drop 1 s \<noteq> [] \<and> \<not> is_space (hd (drop 1 s))"

text \<open>\<open>for (const match of matches) q = q.replace(match, "")\<close>.\<close>

definition remove_all :: "string list \<Rightarrow> string \<Rightarrow> string" where
  "remove_all ms q = fold (\<lambda>m. replace_first m []) ms q"

record parsed_query =
  terms :: "string list"
  types :: "string list"
  excluded :: "string list"
  exact :: bool

definition type_name :: "string \<Rightarrow> string" where
  "type_name m = lower (split_on CHR '':'' m ! 1)"

definition parseSearchQuery :: "string \<Rightarrow> parsed_query" where
  "parseSearchQuery query =
     (let exactMatches = quoted_matches query;
          q1 = remove_all exactMatches query;
          typeMatches = word_matches type_at q1;
          q2 = remove_all typeMatches q1;
          excludeMatches = word_matches exclude_at q2;
          q3 = remove_all excludeMatches q2
      in \<lparr> terms = map (\<lambda>m. butlast (tl m)) exactMatches @ words q3,
           types = map type_name typeMatches,
           excluded = map tl excludeMatches,
           exact = (exactMatches \<noteq> []) \<rparr>)"

section \<open>The debounced value\<close>

record 'v debounced =
  db_value :: 'v
  db_timer :: "'v option"

datatype 'v debounce_event = Rendered 'v | Timer

text \<open>A render with another value restarts the timer.\<close>

fun useDebounce :: "'v \<times> 'v debounced \<Rightarrow> 'v debounce_event \<Rightarrow> 'v \<times> 'v debounced" where
  "useDebounce (v, d) (Rendered w) = (w, if w = v then d else d\<lparr> db_timer := Some w \<rparr>)"
| "useDebounce (v, d) Timer =
     (v, case db_timer d of None \<Rightarrow> d | Some w \<Rightarrow> \<lparr> db_value = w, db_timer = None \<rparr>)"

definition debounce_start :: "'v \<Rightarrow> 'v \<times> 'v debounced" where
  "debounce_start v = (v, \<lparr> db_value = v, db_timer = Some v \<rparr>)"

section \<open>The requests\<close>

record search_request =
  rq_q :: string
  rq_types :: "string list option"
  rq_limit :: nat

definition useGlobalSearch :: "string \<Rightarrow> string list option \<Rightarrow> nat \<Rightarrow> bool \<Rightarrow> search_request option" where
  "useGlobalSearch debouncedQuery tys limit enabled =
     (if enabled \<and> trim debouncedQuery \<noteq> []
      then Some \<lparr> rq_q = debouncedQuery, rq_types = tys, rq_limit = limit \<rparr> else None)"

definition useEntityTypeSearch :: "string \<Rightarrow> string \<Rightarrow> nat \<Rightarrow> bool \<Rightarrow> search_request option" where
  "useEntityTypeSearch debouncedQuery ty limit enabled = useGlobalSearch debouncedQuery (Some [ty]) limit enabled"

section \<open>The command palette\<close>

text \<open>The filter tab is \<open>None\<close> for "all".\<close>

record palette =
  pl_open :: bool
  pl_query :: string
  activeTypeFilter :: "string option"
  hasPerformedSearch :: bool
  recorded :: "string list"
  pushed :: "string list"
  shortcuts_open :: bool

definition typeFilter :: "palette \<Rightarrow> string option" where
  "typeFilter s =
     (case types (parseSearchQuery (pl_query s)) of t # ts \<Rightarrow> Some t | [] \<Rightarrow> activeTypeFilter s)"

definition palette_request :: "string \<Rightarrow> palette \<Rightarrow> search_request option" where
  "palette_request debouncedQuery s =
     useGlobalSearch debouncedQuery
       (case typeFilter s of None \<Rightarrow> None | Some t \<Rightarrow> if t = [] then None else Some [t]) 10 True"

text \<open>The effect on results: the number found is \<open>None\<close> while there is no data.\<close>

definition record_effect :: "string \<Rightarrow> nat option \<Rightarrow> palette \<Rightarrow> palette" where
  "record_effect debouncedQuery found s =
     (let hasQuery = trim debouncedQuery \<noteq> [];
          s = (if hasQuery \<and> (case found of None \<Rightarrow> False | Some n \<Rightarrow> 0 < n) \<and> \<not> hasPerformedSearch s
               then s\<lparr> recorded := recorded s @ [debouncedQuery], hasPerformedSearch := True \<rparr> else s)
      in if hasQuery then s else s\<lparr> hasPerformedSearch := False \<rparr>)"

text \<open>The effect on opening.\<close>

definition setOpen :: "bool \<Rightarrow> palette \<Rightarrow> palette" where
  "setOpen o' s =
     (if o' \<and> \<not> pl_open s then s\<lparr> pl_open := True, pl_query := [], activeTypeFilter := None \<rparr>
      else s\<lparr> pl_open := o' \<rparr>)"

definition handleAction :: "string \<Rightarrow> palette \<Rightarrow> palette" where
  "handleAction url s = (setOpen False s)\<lparr> pushed := pushed s @ [url] \<rparr>"

definition handleShowShortcuts :: "palette \<Rightarrow> palette" where
  "handleShowShortcuts s = (setOpen False s)\<lparr> shortcuts_open := True \<rparr>"

definition handleRecentSearchSelect :: "string \<Rightarrow> palette \<Rightarrow> palette" where
  "handleRecentSearchSelect q s = s\<lparr> pl_query := q, recorded := recorded s @ [q] \<rparr>"

text \<open>\<open>query.replace(/type:\S+/gi, "")\<close> removes every match where it stands.\<close>

function word_strip :: "(string \<Rightarrow> bool) \<Rightarrow> string \<Rightarrow> string" where
  "word_strip p [] = []"
| "word_strip p (c # s) =
     (if p (c # s) then word_strip p (dropWhile (\<lambda>x. \<not> is_space x) s) else c # word_strip p s)"
  by pat_completeness auto
termination
  by (relation "measure (\<lambda>(p, s). length s)") (auto simp: length_dropWhile_le le_imp_less_Suc)

definition handleTypeFilterClick :: "string option \<Rightarrow> palette \<Rightarrow> palette" where
  "handleTypeFilterClick t s =
     (let s' = s\<lparr> activeTypeFilter := t \<rparr> in
      if types (parseSearchQuery (pl_query s)) \<noteq> []
      then s'\<lparr> pl_query := trim (word_strip type_at (pl_query s)) \<rparr> else s')"

definition ctrl_k :: "palette \<Rightarrow> palette" where
  "ctrl_k s = setOpen (\<not> pl_open s) s"

text \<open>The sections below the results (\<open>hasQuery\<close> is false): the actions of a role.\<close>

definition INTERNAL_ROLES :: "string list" where
  "INTERNAL_ROLES = [''managing_director'', ''relationship_manager'', ''coordinator'', ''finance_compliance'']"

definition palette_actions :: "string \<Rightarrow> string list" where
  "palette_actions role =
     (if role \<in> set INTERNAL_ROLES
      then (if role = ''managing_director'' \<or> role = ''relationship_manager'' then [''/programs/new''] else [])
           @ [''/communications'', ''/escalations'']
      else [])"

section \<open>The search field\<close>

record search_field =
  sf_query :: string
  isOpen :: bool
  selectedIndex :: int
  suggestions :: "string list option"
  sf_recorded :: "string list"
  searched :: "string list"

definition totalItems :: "search_field \<Rightarrow> int" where
  "totalItems s = (case suggestions s of None \<Rightarrow> 0 | Some xs \<Rightarrow> int (length xs))"

text \<open>\<open>onSearch\<close> or the router: in both cases the text is searched for.\<close>

definition handleSelectSuggestion :: "string \<Rightarrow> search_field \<Rightarrow> search_field" where
  "handleSelectSuggestion t s =
     s\<lparr> sf_query := t, isOpen := False, sf_recorded := sf_recorded s @ [t], searched := searched s @ [t] \<rparr>"

definition handleSelectRecentSearch :: "string \<Rightarrow> search_field \<Rightarrow> search_field" where
  "handleSelectRecentSearch t s = s\<lparr> sf_query := t, isOpen := False, searched := searched s @ [t] \<rparr>"

definition handleSubmitSearch :: "search_field \<Rightarrow> search_field" where
  "handleSubmitSearch s =
     (if trim (sf_query s) = [] then s
      else s\<lparr> sf_recorded := sf_recorded s @ [trim (sf_query s)], isOpen := False,
              searched := searched s @ [trim (sf_query s)] \<rparr>)"

definition search_url :: "(string \<Rightarrow> string) \<Rightarrow> string \<Rightarrow> string \<Rightarrow> string" where
  "search_url encodeURIComponent searchUrl t = searchUrl @ ''?q='' @ encodeURIComponent t"

text \<open>\<open>suggestions[i]\<close>: nothing outside the list.\<close>

definition suggestion_at :: "search_field \<Rightarrow> int \<Rightarrow> string option" where
  "suggestion_at s i =
     (case suggestions s of None \<Rightarrow> None
      | Some xs \<Rightarrow> if 0 \<le> i \<and> i < int (length xs) then Some (xs ! nat i) else None)"

datatype field_key = ArrowDown | ArrowUp | Enter | Escape | OtherKey

definition field_keydown :: "field_key \<Rightarrow> search_field \<Rightarrow> search_field" where
  "field_keydown k s =
     (case k of
        ArrowDown \<Rightarrow> s\<lparr> selectedIndex := min (selectedIndex s + 1) (totalItems s - 1) \<rparr>
      | ArrowUp \<Rightarrow> s\<lparr> selectedIndex := max (selectedIndex s - 1) 0 \<rparr>
      | Enter \<Rightarrow>
          (case suggestion_at s (selectedIndex s) of
             Some t \<Rightarrow> handleSelectSuggestion t s
           | None \<Rightarrow> if trim (sf_query s) \<noteq> [] then handleSubmitSearch s else s)
      | Escape \<Rightarrow> s\<lparr> isOpen := False \<rparr>
      | OtherKey \<Rightarrow> s)"

datatype field_event =
  Key field_key
| Change string
| Focus
| Clear
| ClickOutside bool
| Hover nat
| Suggestions "string list option"
| ClickSuggestion nat
| ClickRecent string

text \<open>Only entries of the list shown can be hovered and clicked.\<close>

fun field_step :: "search_field \<Rightarrow> field_event \<Rightarrow> search_field" where
  "field_step s (Key k) = field_keydown k s"
| "field_step s (Change q) = s\<lparr> sf_query := q, isOpen := True \<rparr>"
| "field_step s Focus = s\<lparr> isOpen := True \<rparr>"
| "field_step s Clear = s\<lparr> sf_query := [], isOpen := True \<rparr>"
| "field_step s (ClickOutside inDialog) = (if isOpen s \<and> \<not> inDialog then s\<lparr> isOpen := False \<rparr> else s)"
| "field_step s (Hover i) = (if int i < totalItems s then s\<lparr> selectedIndex := int i \<rparr> else s)"
| "field_step s (Suggestions xs) = s\<lparr> suggestions := xs, selectedIndex := 0 \<rparr>"
| "field_step s (ClickSuggestion i) =
     (case suggestion_at s (int i) of None \<Rightarrow> s | Some t \<Rightarrow> handleSelectSuggestion t s)"
| "field_step s (ClickRecent q) = handleSelectRecentSearch q s"

section \<open>Words and operators\<close>

abbreviation black :: "char \<Rightarrow> bool" where
  "black c \<equiv> \<not> is_space c"

text \<open>An operator: what it is at a position is decided inside the word, and a longer word does
  not undo it.\<close>

definition operator :: "(string \<Rightarrow> bool) \<Rightarrow> bool" where
  "operator p \<longleftrightarrow> (\<forall>s. p s \<longrightarrow> s \<noteq> [] \<and> black (hd s) \<and> p (takeWhile black s)) \<and> (\<forall>s t. p s \<longrightarrow> p (s @ t))"

lemma operatorD:
  assumes "operator p" "p s"
  shows "s \<noteq> []" "black (hd s)" "p (takeWhile black s)" "p (s @ t)"
  using assms by (auto simp: operator_def)

lemma operator_append:
  assumes "operator p" "\<forall>c \<in> set w. black c" "rest = [] \<or> is_space (hd rest)"
  shows "p (w @ rest) \<longleftrightarrow> p w"
proof
  assume "p (w @ rest)"
  then have "p (takeWhile black (w @ rest))" by (rule operatorD(3) [OF assms(1)])
  moreover have "takeWhile black (w @ rest) = w"
    using assms(2,3) by (cases rest) auto
  ultimately show "p w" by simp
qed (rule operatorD(4) [OF assms(1)])

lemma operator_exclude: "operator exclude_at"
  unfolding operator_def exclude_at_def
proof (intro conjI allI impI)
  fix s t :: string
  assume "take 1 s = ''-'' \<and> drop 1 s \<noteq> [] \<and> black (hd (drop 1 s))"
  then obtain c u where s: "s = CHR ''-'' # c # u" "black c" by (cases s; cases "tl s") auto
  then show "s \<noteq> []" "take 1 (s @ t) = ''-''" "drop 1 (s @ t) \<noteq> []" "black (hd (drop 1 (s @ t)))"
    by simp_all
  have dash: "black (CHR ''-'')" by code_simp
  then show "black (hd s)" "take 1 (takeWhile black s) = ''-''" "drop 1 (takeWhile black s) \<noteq> []"
      "black (hd (drop 1 (takeWhile black s)))"
    using s by simp_all
qed

lemma lower_eq_black: "lower_char c \<in> set ''type:'' \<Longrightarrow> black c"
proof
  assume "lower_char c \<in> set ''type:''" "is_space c"
  moreover have "is_space c \<Longrightarrow> lower_char c = c" by (auto simp: is_space_def lower_char_def)
  moreover have "list_all black ''type:''" by code_simp
  ultimately show False by (auto simp: list_all_iff simp del: set_simps)
qed

lemma operator_type: "operator type_at"
  unfolding operator_def type_at_def
proof (intro conjI allI impI)
  fix s t :: string
  assume at: "lower (take 5 s) = ''type:'' \<and> drop 5 s \<noteq> [] \<and> black (hd (drop 5 s))"
  define a where "a = take 5 s"
  obtain c u where cu: "drop 5 s = c # u" using at by (cases "drop 5 s") auto
  have "length (lower (take 5 s)) = 5" using at by simp
  then have "length a = 5" by (simp only: a_def lower_def length_map)
  moreover have "s = a @ c # u" using cu by (metis a_def append_take_drop_id)
  moreover have "lower a = ''type:''" using at unfolding a_def by blast
  moreover have "black c" using at unfolding cu by simp
  ultimately have s: "s = a @ c # u" "lower a = ''type:''" "black c" "length a = 5" by blast+
  show "s \<noteq> []" "lower (take 5 (s @ t)) = ''type:''" "drop 5 (s @ t) \<noteq> []" "black (hd (drop 5 (s @ t)))"
    using s by simp_all
  have blacks: "\<forall>x \<in> set a. black x"
  proof
    fix x assume "x \<in> set a"
    then have "lower_char x \<in> set (lower a)" by (simp add: lower_def)
    then show "black x" using s(2) by (intro lower_eq_black) metis
  qed
  then have tw: "takeWhile black s = a @ takeWhile black (c # u)" using s(1) by (simp add: takeWhile_append2)
  show "black (hd s)" using blacks s by (cases a) auto
  show "lower (take 5 (takeWhile black s)) = ''type:''" "drop 5 (takeWhile black s) \<noteq> []"
      "black (hd (drop 5 (takeWhile black s)))"
    using tw s by simp_all
qed

text \<open>Removing the matches one by one at their first occurrence removes each where it stands.\<close>

lemma replace_first_prefix: "starts_with m s \<Longrightarrow> replace_first m r s = r @ drop (length m) s"
  by (cases s) (auto simp: starts_with_def)

lemma replace_first_at:
  assumes "\<And>b. b \<noteq> [] \<Longrightarrow> suffix b a \<Longrightarrow> \<not> starts_with m (b @ m @ rest)"
  shows "replace_first m [] (a @ m @ rest) = a @ rest"
  using assms
proof (induction a)
  case Nil
  show ?case using replace_first_prefix [of m "m @ rest" "[]"] by simp
next
  case (Cons c a)
  have "\<not> starts_with m ((c # a) @ m @ rest)" by (rule Cons.prems) simp_all
  moreover have "replace_first m [] (a @ m @ rest) = a @ rest"
    by (rule Cons.IH, rule Cons.prems) (simp_all add: suffix_ConsI)
  ultimately show ?case by simp
qed

text \<open>No operator begins in \<open>a\<close>, whatever follows up to \<open>s\<close>.\<close>

definition clean :: "(string \<Rightarrow> bool) \<Rightarrow> string \<Rightarrow> string \<Rightarrow> bool" where
  "clean p a s \<longleftrightarrow> (\<forall>b. b \<noteq> [] \<longrightarrow> suffix b a \<longrightarrow> \<not> p (b @ s))"

lemma clean_snoc: "clean p a (c # s) \<Longrightarrow> \<not> p (c # s) \<Longrightarrow> clean p (a @ [c]) s"
  unfolding clean_def
proof (intro allI impI)
  fix b
  assume clean: "\<forall>b. b \<noteq> [] \<longrightarrow> suffix b a \<longrightarrow> \<not> p (b @ c # s)" "\<not> p (c # s)"
    and b: "b \<noteq> []" "suffix b (a @ [c])"
  obtain x where x: "b = x @ [c]" "suffix x a" using b by (auto simp: suffix_snoc)
  then show "\<not> p (b @ s)" using clean by (cases "x = []") auto
qed

lemma clean_drop:
  assumes op: "operator p" and clean: "clean p a (m @ rest)" and rest: "rest = [] \<or> is_space (hd rest)"
  shows "clean p a rest"
  unfolding clean_def
proof (intro allI impI notI)
  fix b assume b: "b \<noteq> []" "suffix b a" and "p (b @ rest)"
  then have p: "p (takeWhile black (b @ rest))" using operatorD(3) [OF op] by blast
  have "\<exists>t. b = takeWhile black (b @ rest) @ t"
  proof (cases "\<forall>c \<in> set b. black c")
    case True
    then have "takeWhile black (b @ rest) = b" using rest by (cases rest) auto
    then show ?thesis by simp
  next
    case False
    then have "takeWhile black (b @ rest) = takeWhile black b" by (auto simp: takeWhile_append1)
    then show ?thesis by (metis takeWhile_dropWhile_id)
  qed
  then obtain t where "b = takeWhile black (b @ rest) @ t" by blast
  then have "p b" using operatorD(4) [OF op p, of t] by simp
  then have "p (b @ m @ rest)" by (rule operatorD(4) [OF op])
  then show False using clean b by (simp add: clean_def)
qed

lemma remove_word_matches:
  "operator p \<Longrightarrow> clean p a s \<Longrightarrow> remove_all (word_matches p s) (a @ s) = a @ word_strip p s"
proof (induction p s arbitrary: a rule: word_strip.induct)
  case (1 p)
  then show ?case by (simp add: remove_all_def)
next
  case (2 p c s)
  let ?m = "c # takeWhile black s" and ?rest = "dropWhile black s"
  note op = "2.prems"(1) and now_clean = "2.prems"(2)
  have rest: "?rest = [] \<or> is_space (hd ?rest)" using hd_dropWhile [of black s] by blast
  show ?case
  proof (cases "p (c # s)")
    case True
    have m: "?m = takeWhile black (c # s)" using operatorD(2) [OF op, OF True] by simp
    have pm: "p ?m" unfolding m by (rule operatorD(3) [OF op, OF True])
    have split: "c # s = ?m @ ?rest" by simp
    have clean: "clean p a (?m @ ?rest)" using now_clean by simp
    have "replace_first ?m [] (a @ ?m @ ?rest) = a @ ?rest"
    proof (rule replace_first_at)
      fix b assume b: "b \<noteq> []" "suffix b a"
      show "\<not> starts_with ?m (b @ ?m @ ?rest)"
      proof
        assume "starts_with ?m (b @ ?m @ ?rest)"
        then obtain t where "b @ ?m @ ?rest = ?m @ t" by (auto simp: starts_with_iff)
        then have "p (b @ ?m @ ?rest)" using operatorD(4) [OF op pm, of t] by metis
        then show False using clean b by (simp add: clean_def)
      qed
    qed
    then have "replace_first ?m [] (a @ c # s) = a @ ?rest" by simp
    then show ?thesis
      using "2.IH"(1) [OF True op clean_drop [OF op clean rest]] True by (simp add: remove_all_def)
  next
    case False
    have "remove_all (word_matches p s) ((a @ [c]) @ s) = (a @ [c]) @ word_strip p s"
      by (rule "2.IH"(2) [OF False op clean_snoc [OF now_clean False]])
    then show ?thesis using False by simp
  qed
qed

section \<open>Word by word\<close>

text \<open>A word up to the operator it contains, and from there on.\<close>

fun cut :: "(string \<Rightarrow> bool) \<Rightarrow> string \<Rightarrow> string \<times> string" where
  "cut p [] = ([], [])"
| "cut p (c # w) = (if p (c # w) then ([], c # w) else apfst (Cons c) (cut p w))"

definition before_op :: "(string \<Rightarrow> bool) \<Rightarrow> string list \<Rightarrow> string list" where
  "before_op p ws = filter (\<lambda>w. w \<noteq> []) (map (fst \<circ> cut p) ws)"

definition from_op :: "(string \<Rightarrow> bool) \<Rightarrow> string list \<Rightarrow> string list" where
  "from_op p ws = filter (\<lambda>w. w \<noteq> []) (map (snd \<circ> cut p) ws)"

lemma cut_append: "fst (cut p w) @ snd (cut p w) = w"
  by (induction w) (auto simp: apfst_def map_prod_def split: prod.splits)

lemma words_word:
  "\<forall>c \<in> set w. black c \<Longrightarrow> w \<noteq> [] \<Longrightarrow> rest = [] \<or> is_space (hd rest) \<Longrightarrow> words (w @ rest) = w # words rest"
proof (induction w)
  case (Cons c w)
  have longer: "words (c # u) = (case words u of [] \<Rightarrow> [[c]] | w # ws \<Rightarrow> (c # w) # ws)"
    if "u \<noteq> []" "black (hd u)" for u
    using that Cons.prems by simp
  show ?case
  proof (cases "w = []")
    case True
    then show ?thesis using Cons.prems by simp
  next
    case False
    then have "words (w @ rest) = w # words rest" "black (hd (w @ rest))" using Cons.IH Cons.prems by auto
    then show ?thesis using longer [of "w @ rest"] False by simp
  qed
qed simp

lemma words_induct [case_names Nil Space Word]:
  assumes "P []" "\<And>c s. is_space c \<Longrightarrow> P s \<Longrightarrow> P (c # s)"
    and "\<And>w rest. \<forall>c \<in> set w. black c \<Longrightarrow> w \<noteq> [] \<Longrightarrow> rest = [] \<or> is_space (hd rest) \<Longrightarrow> P rest \<Longrightarrow> P (w @ rest)"
  shows "P s"
proof (induction s rule: length_induct)
  case (1 s)
  show ?case
  proof (cases s)
    case Nil
    then show ?thesis using assms(1) by simp
  next
    case (Cons c t)
    show ?thesis
    proof (cases "is_space c")
      case True
      then show ?thesis using 1 assms(2) Cons by simp
    next
      case False
      have "P (takeWhile black s @ dropWhile black s)"
      proof (rule assms(3))
        show "\<forall>c \<in> set (takeWhile black s). black c" using set_takeWhileD [of _ black s] by blast
        show "takeWhile black s \<noteq> []" using False Cons by simp
        show "dropWhile black s = [] \<or> is_space (hd (dropWhile black s))" using hd_dropWhile [of black s] by blast
        have "length (dropWhile black s) < length s"
          using False Cons length_dropWhile_le [of black t] by (simp add: le_imp_less_Suc)
        then show "P (dropWhile black s)" using 1 by blast
      qed
      then show ?thesis by simp
    qed
  qed
qed

lemma word_scan:
  assumes op: "operator p" and rest: "rest = [] \<or> is_space (hd rest)"
  shows "\<forall>c \<in> set w. black c \<Longrightarrow> word_strip p (w @ rest) = fst (cut p w) @ word_strip p rest \<and>
      word_matches p (w @ rest) = (if snd (cut p w) = [] then [] else [snd (cut p w)]) @ word_matches p rest"
proof (induction w)
  case (Cons c w)
  have same: "p (c # w @ rest) \<longleftrightarrow> p (c # w)"
    using operator_append [OF op Cons.prems rest] by simp
  have ends: "takeWhile black (w @ rest) = w" "dropWhile black (w @ rest) = rest"
    using Cons.prems rest by (cases rest; simp)+
  show ?case using Cons same ends by simp
qed simp

lemma strip_starts:
  assumes "operator p" "rest = [] \<or> is_space (hd rest)"
  shows "word_strip p rest = [] \<or> is_space (hd (word_strip p rest))"
proof (cases rest)
  case (Cons c s)
  then have "\<not> p (c # s)" using assms operatorD(2) [OF assms(1), of "c # s"] by auto
  then show ?thesis using assms(2) Cons by simp
qed simp

lemma words_strip:
  assumes op: "operator p"
  shows "words (word_strip p s) = before_op p (words s) \<and> word_matches p s = from_op p (words s)"
proof (induction s rule: words_induct)
  case Nil
  show ?case by (simp add: before_op_def from_op_def)
next
  case (Space c s)
  then have "\<not> p (c # s)" using operatorD(2) [OF op, of "c # s"] by auto
  then show ?case using Space by simp
next
  case (Word w rest)
  have pre: "\<forall>c \<in> set (fst (cut p w)). black c" using Word(1) cut_append [of p w] by (metis UnCI set_append)
  show ?case
    using Word words_word [OF pre _ strip_starts [OF op Word(3)]] words_word [OF Word(1-3)]
    by (cases "fst (cut p w) = []") (simp_all add: word_scan [OF op Word(3,1)] before_op_def from_op_def)
qed

lemma no_quotes: "DQ \<notin> set q \<Longrightarrow> quoted_matches q = []"
  by (induction q rule: quoted_matches.induct) auto

text \<open>C34.  The meaning of a query without quotes: in every word, what follows \<open>type:\<close> is a type; in what
  is left of the words, what follows a hyphen is excluded; the rest are the terms.  A hyphen
  inside a word splits it.
\<close>

theorem search_operators:
  assumes "DQ \<notin> set q"
  shows "parseSearchQuery q =
     \<lparr> terms = before_op exclude_at (before_op type_at (words q)),
       types = map type_name (from_op type_at (words q)),
       excluded = map tl (from_op exclude_at (before_op type_at (words q))),
       exact = False \<rparr>"
proof -
  have remove: "remove_all (word_matches p s) s = word_strip p s" if "operator p" for p s
    using remove_word_matches [OF that, of "[]" s] by (simp add: clean_def)
  show ?thesis
    using words_strip [OF operator_type, of q] words_strip [OF operator_exclude, of "word_strip type_at q"]
    by (simp add: parseSearchQuery_def Let_def no_quotes [OF assms] remove_all_def [of "[]"]
        remove [OF operator_type] remove [OF operator_exclude])
qed

lemma search_operators_witness:
  "types (parseSearchQuery ''type:C a'') = [''c'']"
proof -
  have "DQ \<notin> set ''type:C a''" by (simp add: DQ_is)
  from search_operators [OF this] have "types (parseSearchQuery ''type:C a'') =
      map type_name (from_op type_at (words ''type:C a''))" by simp
  also have "\<dots> = [''c'']" by code_simp
  finally show ?thesis .
qed

lemma hyphenated_word_split:
  "parseSearchQuery ''re-do'' = \<lparr> terms = [''re''], types = [], excluded = [''do''], exact = False \<rparr>"
  by code_simp

section \<open>The filter tabs\<close>

lemma cut_twice:
  assumes op: "operator p"
  shows "snd (cut p (fst (cut p w))) = [] \<and> fst (cut p (fst (cut p w))) = fst (cut p w)"
proof (induction w)
  case (Cons c w)
  show ?case
  proof (cases "p (c # w)")
    case False
    have "\<not> p (c # fst (cut p w))"
    proof
      assume "p (c # fst (cut p w))"
      then have "p ((c # fst (cut p w)) @ snd (cut p w))" by (rule operatorD(4) [OF op])
      then show False using False cut_append [of p w] by simp
    qed
    then show ?thesis using Cons False by (simp add: apfst_def)
  qed simp
qed simp

lemma from_op_before_op: "operator p \<Longrightarrow> from_op p (before_op p ws) = []"
  unfolding from_op_def before_op_def using cut_twice by (auto simp: filter_empty_conv)

lemma words_drop_space: "words (dropWhile is_space s) = words s"
  by (induction s) auto

lemma words_end_space: "\<forall>c \<in> set t. is_space c \<Longrightarrow> words (s @ t) = words s"
proof (induction s rule: words_induct)
  case Nil
  then show ?case by (induction t) auto
next
  case (Word w rest)
  have "rest @ t = [] \<or> is_space (hd (rest @ t))" using Word by (cases rest; cases t) auto
  then show ?case using Word words_word [of w "rest @ t"] words_word [of w rest] by simp
qed simp

lemma words_trim [simp]: "words (trim s) = words s"
proof -
  let ?u = "dropWhile is_space s"
  have "?u = rev (dropWhile is_space (rev ?u)) @ rev (takeWhile is_space (rev ?u))"
    by (metis rev_append rev_rev_ident takeWhile_dropWhile_id)
  then have "words ?u = words (trim s)"
    using words_end_space [of "rev (takeWhile is_space (rev ?u))" "trim s"]
    by (metis set_rev set_takeWhileD trim_def)
  then show ?thesis by (simp add: words_drop_space)
qed

lemma set_word_strip: "set (word_strip p s) \<subseteq> set s"
  by (induction p s rule: word_strip.induct) (auto dest: set_dropWhileD)

lemma set_trim: "set (trim s) \<subseteq> set s"
  by (auto simp: trim_def dest!: set_dropWhileD)

text \<open>A click on a filter tab makes that filter the one in effect, also against a \<open>type:\<close> in
  the query, when the query has no quotes.\<close>

theorem clicked_filter_applies:
  assumes "DQ \<notin> set (pl_query s)"
  shows "typeFilter (handleTypeFilterClick t s) = t"
proof (cases "types (parseSearchQuery (pl_query s)) = []")
  case True
  then show ?thesis by (simp add: handleTypeFilterClick_def typeFilter_def)
next
  case False
  let ?q = "trim (word_strip type_at (pl_query s))"
  have "DQ \<notin> set ?q" using assms set_trim set_word_strip by blast
  then have "types (parseSearchQuery ?q) = []"
    using words_strip [OF operator_type, of "pl_query s"]
    by (simp add: search_operators from_op_before_op [OF operator_type])
  then show ?thesis using False by (simp add: handleTypeFilterClick_def typeFilter_def)
qed

definition palette0 :: palette where
  "palette0 = \<lparr> pl_open = True, pl_query = [], activeTypeFilter = None, hasPerformedSearch = False,
     recorded = [], pushed = [], shortcuts_open = False \<rparr>"

lemma clicked_filter_applies_witness:
  "typeFilter (handleTypeFilterClick (Some ''task'') (palette0\<lparr> pl_query := ''type:client a'' \<rparr>)) = Some ''task''"
  by (rule clicked_filter_applies) (simp add: DQ_is)

text \<open>A quoted phrase can hide a type operator from the click: what is in effect is then still the
  type of the query.\<close>

lemma quoted_type_stays:
  "typeFilter (handleTypeFilterClick None (palette0\<lparr> pl_query := ''ty'' @ [DQ] @ ''x'' @ [DQ] @ ''pe:a'' \<rparr>)) = Some ''a''"
  by code_simp

text \<open>Only the first query with results is recorded; a later one is not, until the field has been
  empty in between.\<close>

lemma only_first_query_recorded:
  assumes "trim q \<noteq> []" "trim r \<noteq> []" "0 < n"
  shows "recorded (record_effect r found (record_effect q (Some n) s)) = recorded (record_effect q (Some n) s)"
  using assms by (simp add: record_effect_def Let_def)

section \<open>The debounced value\<close>

text \<open>When the timer fires the debounced value is the one last rendered, and without a timer it
  already is.\<close>

lemma useDebounce_catches_up:
  "case run useDebounce es (debounce_start v) of (w, d) \<Rightarrow>
     (case db_timer d of None \<Rightarrow> db_value d = w | Some u \<Rightarrow> u = w)"
proof -
  define ok where "ok = (\<lambda>(w :: 'a, d :: 'a debounced). case db_timer d of None \<Rightarrow> db_value d = w | Some u \<Rightarrow> u = w)"
  have "ok (useDebounce x e)" if "ok x" for x e
    using that by (cases x; cases e) (auto simp: ok_def split: option.splits)
  then have "ok s \<Longrightarrow> ok (run useDebounce es s)" for s
    by (induction es arbitrary: s) auto
  from this [of "debounce_start v"] have "ok (run useDebounce es (debounce_start v))"
    by (simp add: ok_def debounce_start_def)
  then show ?thesis unfolding ok_def .
qed

section \<open>Enter in the search field\<close>

definition field_ok :: "search_field \<Rightarrow> bool" where
  "field_ok s \<longleftrightarrow> 0 < totalItems s \<longrightarrow> 0 \<le> selectedIndex s \<and> selectedIndex s < totalItems s"

lemma field_other [simp]:
  "suggestions (handleSelectSuggestion t s) = suggestions s" "selectedIndex (handleSelectSuggestion t s) = selectedIndex s"
  "suggestions (handleSelectRecentSearch t s) = suggestions s" "selectedIndex (handleSelectRecentSearch t s) = selectedIndex s"
  "suggestions (handleSubmitSearch s) = suggestions s" "selectedIndex (handleSubmitSearch s) = selectedIndex s"
  by (simp_all add: handleSelectSuggestion_def handleSelectRecentSearch_def handleSubmitSearch_def)

interpretation search_field: machine field_step field_ok
proof
  fix s e
  assume ok: "field_ok s"
  show "field_ok (field_step s e)"
  proof (cases e)
    case (Key k)
    then show ?thesis using ok
      by (cases k) (auto simp: field_ok_def field_keydown_def totalItems_def split: option.splits)
  next
    case (ClickSuggestion i)
    then show ?thesis using ok by (auto simp: field_ok_def totalItems_def split: option.splits)
  qed (use ok in \<open>auto simp: field_ok_def totalItems_def split: option.splits\<close>)
qed

definition field_start :: search_field where
  "field_start = \<lparr> sf_query = [], isOpen = False, selectedIndex = 0, suggestions = None, sf_recorded = [], searched = [] \<rparr>"

text \<open>While suggestions are shown Enter searches for one of them, never for the text typed; the
  typed text is searched for only without suggestions.\<close>

theorem enter_prefers_suggestions:
  "let s = run field_step es field_start in
     case suggestions s of
       Some (x # xs) \<Rightarrow> (\<exists>t \<in> set (x # xs). field_step s (Key Enter) = handleSelectSuggestion t s)
     | _ \<Rightarrow> field_step s (Key Enter) = handleSubmitSearch s"
proof -
  define s where "s = run field_step es field_start"
  have "field_ok s" unfolding s_def
    by (rule search_field.every_run_inv) (simp add: field_ok_def field_start_def totalItems_def)
  then have "case suggestions s of
       Some (x # xs) \<Rightarrow> (\<exists>t \<in> set (x # xs). field_step s (Key Enter) = handleSelectSuggestion t s)
     | _ \<Rightarrow> field_step s (Key Enter) = handleSubmitSearch s"
  proof (cases "suggestions s")
    case (Some ys)
    show ?thesis
    proof (cases ys)
      case (Cons x xs)
      then have range: "0 \<le> selectedIndex s" "selectedIndex s < int (length ys)"
        using \<open>field_ok s\<close> Some by (simp_all add: field_ok_def totalItems_def)
      then have "suggestion_at s (selectedIndex s) = Some (ys ! nat (selectedIndex s))"
        using Some by (simp add: suggestion_at_def)
      moreover have "ys ! nat (selectedIndex s) \<in> set ys" using range by (intro nth_mem) simp
      ultimately show ?thesis using Some Cons by (auto simp: field_keydown_def)
    qed (use Some in \<open>auto simp: field_keydown_def suggestion_at_def handleSubmitSearch_def\<close>)
  qed (auto simp: field_keydown_def suggestion_at_def handleSubmitSearch_def)
  then show ?thesis unfolding s_def Let_def .
qed

end
