(* ===== verification/ErrorLog.thy ===== *)
theory ErrorLog
  imports History
begin

text \<open>
  Error reporting: the provider that collects errors of the browser
  (\<open>frontend/src/providers/error-logger-provider.tsx\<close>) on top of the action trail of History,
  and the route that writes them to a file (\<open>frontend/src/app/api/error-log/route.ts\<close>).

  The texts of errors, the URL of the page and dates come with the events.  The file is a list
  of bytes: characters outside ASCII that the route writes stand as their UTF-8 bytes.
\<close>

section \<open>Entries\<close>

record error_entry =
  en_type :: string
  en_message :: string
  en_stack :: "string option"
  en_url :: "string option"
  en_method :: "string option"
  en_status :: "int option"
  en_responseBody :: "string option"
  en_componentStack :: "string option"
  en_source :: "string option"
  en_pageUrl :: "string option"
  en_timestamp :: "string option"
  en_trigger :: "string option"
  en_goal :: "string option"
  en_breadcrumbs :: "string list option"

definition bare_entry :: "string \<Rightarrow> string \<Rightarrow> error_entry" where
  "bare_entry ty msg =
     \<lparr> en_type = ty, en_message = msg, en_stack = None, en_url = None, en_method = None, en_status = None,
       en_responseBody = None, en_componentStack = None, en_source = None, en_pageUrl = None,
       en_timestamp = None, en_trigger = None, en_goal = None, en_breadcrumbs = None \<rparr>"

text \<open>The moment of an event: the clock, the clock as a text, and the page.\<close>

record moment =
  mo_now :: int
  mo_iso :: string
  mo_href :: string

record logger =
  lg_queue :: "error_entry list"
  lg_timer :: bool
  lg_sent :: "error_entry list list"
  seenMessages :: "string list"
  lg_trail :: action_trail
  lg_mounted :: bool

definition logger_start :: logger where
  "logger_start = \<lparr> lg_queue = [], lg_timer = False, lg_sent = [], seenMessages = [], lg_trail = trail_init,
     lg_mounted = True \<rparr>"

definition flush :: "logger \<Rightarrow> logger" where
  "flush s = (if lg_queue s = [] then s else s\<lparr> lg_sent := lg_sent s @ [lg_queue s], lg_queue := [] \<rparr>)"

text \<open>\<open>...(x ? { x } : {})\<close>: an empty text or list is left out.\<close>

definition with_context :: "moment \<Rightarrow> action_trail \<Rightarrow> error_entry \<Rightarrow> error_entry" where
  "with_context mo tr entry =
     (case getActionContext (mo_now mo) tr of (trigger, goal, breadcrumbs) \<Rightarrow>
        entry\<lparr> en_timestamp := Some (mo_iso mo), en_pageUrl := Some (mo_href mo),
               en_trigger := (if filled trigger then trigger else en_trigger entry),
               en_goal := (if filled goal then goal else en_goal entry),
               en_breadcrumbs := (if breadcrumbs \<noteq> [] then Some breadcrumbs else en_breadcrumbs entry) \<rparr>)"

definition enqueue :: "moment \<Rightarrow> error_entry \<Rightarrow> logger \<Rightarrow> logger" where
  "enqueue mo entry s =
     s\<lparr> lg_queue := lg_queue s @ [with_context mo (lg_trail s) entry], lg_timer := True \<rparr>"

definition onError :: "moment \<Rightarrow> string \<Rightarrow> string option \<Rightarrow> string \<Rightarrow> int \<Rightarrow> int \<Rightarrow> logger \<Rightarrow> logger" where
  "onError mo message stack filename lineno colno s =
     enqueue mo ((bare_entry ''UNHANDLED_ERROR'' (if message \<noteq> [] then message else ''Unknown error''))
       \<lparr> en_stack := stack, en_source := Some (filename @ '':'' @ int_text lineno @ '':'' @ int_text colno) \<rparr>) s"

text \<open>A rejection reason: an object with a message and a stack, a text, or anything else.\<close>

datatype reason = Thrown string "string option" | Text string | Other

definition onUnhandledRejection :: "moment \<Rightarrow> reason \<Rightarrow> logger \<Rightarrow> logger" where
  "onUnhandledRejection mo r s =
     enqueue mo ((bare_entry ''UNHANDLED_PROMISE_REJECTION''
         (case r of Thrown m _ \<Rightarrow> if m \<noteq> [] then m else ''Promise rejected''
          | Text t \<Rightarrow> t | Other \<Rightarrow> ''Promise rejected''))
       \<lparr> en_stack := (case r of Thrown _ st \<Rightarrow> st | _ \<Rightarrow> None) \<rparr>) s"

definition LOG_URL :: string where "LOG_URL = ''/api/error-log''"

definition console_error :: "moment \<Rightarrow> string \<Rightarrow> logger \<Rightarrow> logger" where
  "console_error mo message s =
     (let k = take 200 message in
      if k \<in> set (seenMessages s) then s
      else
        (let s = s\<lparr> seenMessages := seenMessages s @ [k] \<rparr> in
         if str_includes LOG_URL message then s
         else enqueue mo (bare_entry ''CONSOLE_ERROR'' (take 5000 message)) s))"

text \<open>The dash between text and description, as UTF-8.\<close>

definition DASH :: string where "DASH = '' '' @ [CHR 0xE2, CHR 0x80, CHR 0x94] @ '' ''"

definition intercept_toast :: "moment \<Rightarrow> string \<Rightarrow> string \<Rightarrow> string option \<Rightarrow> logger \<Rightarrow> logger" where
  "intercept_toast mo level txt description s =
     enqueue mo (bare_entry level
       (take 5000 (txt @ (if filled description then DASH @ the description else [])))) s"

record network_error =
  ne_url :: "string option"
  ne_method :: "string option"
  ne_message :: string
  ne_status :: "int option"
  ne_data :: "string option"
  ne_stack :: "string option"

definition upper_char :: "char \<Rightarrow> char" where
  "upper_char c = (if 97 \<le> code c \<and> code c \<le> 122 then char_of (code c - 32) else c)"

definition network_failed :: "moment \<Rightarrow> network_error \<Rightarrow> logger \<Rightarrow> logger" where
  "network_failed mo e s =
     (if str_includes LOG_URL (case ne_url e of None \<Rightarrow> [] | Some u \<Rightarrow> u) then s
      else enqueue mo ((bare_entry ''NETWORK_ERROR'' (if ne_message e \<noteq> [] then ne_message e else ''Network request failed''))
             \<lparr> en_url := ne_url e, en_method := map_option (map upper_char) (ne_method e), en_status := ne_status e,
               en_responseBody := map_option (take 2000) (ne_data e), en_stack := ne_stack e \<rparr>) s)"

definition timer_fires :: "logger \<Rightarrow> logger" where
  "timer_fires s = (if lg_timer s then flush (s\<lparr> lg_timer := False \<rparr>) else s)"

text \<open>The cleanup of the effect.  It clears the timer and leaves the reference to it set.\<close>

definition cleanup :: "logger \<Rightarrow> logger" where
  "cleanup s = (flush s)\<lparr> lg_mounted := False \<rparr>"

datatype log_event =
  WindowError moment string "string option" string int int
| Rejection moment reason
| ConsoleError moment string
| Toast moment string string "string option"
| NetworkError moment network_error
| SeenExpires string
| TimerFires
| Acted trail_event
| Cleanup

fun log_step :: "(string \<Rightarrow> string option) \<Rightarrow> logger \<Rightarrow> log_event \<Rightarrow> logger" where
  "log_step url_path s (WindowError mo m st f l c) = (if lg_mounted s then onError mo m st f l c s else s)"
| "log_step url_path s (Rejection mo r) = (if lg_mounted s then onUnhandledRejection mo r s else s)"
| "log_step url_path s (ConsoleError mo m) = (if lg_mounted s then console_error mo m s else s)"
| "log_step url_path s (Toast mo l t d) = (if lg_mounted s then intercept_toast mo l t d s else s)"
| "log_step url_path s (NetworkError mo e) = (if lg_mounted s then network_failed mo e s else s)"
| "log_step url_path s (SeenExpires k) = s\<lparr> seenMessages := removeAll k (seenMessages s) \<rparr>"
| "log_step url_path s TimerFires = (if lg_mounted s then timer_fires s else s)"
| "log_step url_path s (Acted e) = (if lg_mounted s then s\<lparr> lg_trail := trail_step url_path (lg_trail s) e \<rparr> else s)"
| "log_step url_path s Cleanup = (if lg_mounted s then cleanup s else s)"

section \<open>The file\<close>

record log_fs =
  log_file :: "string option"
  log_old :: "string option"

definition MAX_LOG_SIZE :: nat where "MAX_LOG_SIZE = 5 * 1024 * 1024"

definition rotateIfNeeded :: "log_fs \<Rightarrow> log_fs" where
  "rotateIfNeeded fs =
     (case log_file fs of None \<Rightarrow> fs
      | Some t \<Rightarrow> if MAX_LOG_SIZE < length t then \<lparr> log_file = None, log_old = Some t \<rparr> else fs)"

definition NL :: string where "NL = [CHR 0x0A]"
definition ARROW :: string where "ARROW = [CHR 0xE2, CHR 0x86, CHR 0x92]"
definition HERE :: string where "HERE = '' '' @ [CHR 0xE2, CHR 0x86, CHR 0x90] @ '' error here''"
definition RULE :: string where "RULE = concat (replicate 80 [CHR 0xE2, CHR 0x95, CHR 0x90])"

definition field_line :: "string \<Rightarrow> string option \<Rightarrow> string list" where
  "field_line label v = (if filled v then [label @ the v] else [])"

definition trail_text :: "string list \<Rightarrow> string" where
  "trail_text cs = join_with ('' '' @ ARROW @ '' '') (butlast cs @ [last cs @ HERE])"

definition formatEntry :: "(string \<Rightarrow> string option) \<Rightarrow> string \<Rightarrow> error_entry \<Rightarrow> string" where
  "formatEntry pathname now entry =
     (let ts = (if filled (en_timestamp entry) then the (en_timestamp entry) else now);
          page = (if filled (en_pageUrl entry) then the (en_pageUrl entry) else ''unknown'');
          pagePath = (case pathname page of None \<Rightarrow> page | Some p \<Rightarrow> p);
          whatLines = [''  Page:     '' @ pagePath] @ field_line ''  Trigger:  '' (en_trigger entry) @
            field_line ''  Goal:     '' (en_goal entry) @ field_line ''  Source:   '' (en_source entry);
          trail = (case en_breadcrumbs entry of Some (c # cs) \<Rightarrow> [NL @ ''TRAIL'' @ NL @ ''  '' @ trail_text (c # cs)] | _ \<Rightarrow> []);
          request = (if filled (en_method entry) \<and> filled (en_url entry)
            then [''  Request:  '' @ the (en_method entry) @ '' '' @ the (en_url entry) @ '' '' @ ARROW @ '' '' @
                  (case en_status entry of None \<Rightarrow> ''?'' | Some n \<Rightarrow> int_text n)] else []);
          label = (if en_type entry = ''TOAST_ERROR'' then ''Toast (error):''
            else if en_type entry = ''TOAST_WARNING'' then ''Toast (warning):'' else ''Message: '');
          errorLines = request @ [''  '' @ label @ ''  '' @ en_message entry] @
            field_line ''  Response: '' (en_responseBody entry);
          stack = (if filled (en_stack entry) \<or> filled (en_componentStack entry)
            then [NL @ ''STACK'' @ NL @ (if filled (en_stack entry) then the (en_stack entry) else []) @
                  (if filled (en_componentStack entry)
                   then NL @ ''Component Stack:'' @ NL @ the (en_componentStack entry) else [])] else [])
      in join_with NL
           ([RULE, ''['' @ ts @ ''] '' @ (if en_type entry \<noteq> [] then en_type entry else ''UNKNOWN''),
             NL @ ''WHAT HAPPENED'' @ NL @ join_with NL whatLines] @ trail @
            [NL @ ''ERROR'' @ NL @ join_with NL errorLines] @ stack))"

text \<open>The answer of the route: the flag, the number logged, and whether it is a 500.\<close>

datatype log_answer = Disabled | Logged nat | Failed

definition log_text :: "(string \<Rightarrow> string option) \<Rightarrow> string \<Rightarrow> error_entry list \<Rightarrow> string" where
  "log_text pathname now entries = join_with (NL @ NL) (map (formatEntry pathname now) entries) @ NL @ NL"

text \<open>The body is \<open>None\<close> when it is not JSON; a single entry is a list of one.  Appending may
  fail; rotation has then happened.\<close>

definition POST ::
  "bool \<Rightarrow> (string \<Rightarrow> string option) \<Rightarrow> string \<Rightarrow> bool \<Rightarrow> error_entry list option \<Rightarrow> log_fs \<Rightarrow> log_answer \<times> log_fs" where
  "POST logging_enabled pathname now append_fails body fs =
     (if \<not> logging_enabled then (Disabled, fs)
      else
        (case body of
           None \<Rightarrow> (Failed, fs)
         | Some entries \<Rightarrow>
             (let fs = rotateIfNeeded fs in
              if append_fails then (Failed, fs)
              else (Logged (length entries),
                    fs\<lparr> log_file := Some ((case log_file fs of None \<Rightarrow> [] | Some t \<Rightarrow> t) @ log_text pathname now entries) \<rparr>))))"

section \<open>No error is lost\<close>

definition logger_ok :: "logger \<Rightarrow> bool" where
  "logger_ok s \<longleftrightarrow> lg_queue s \<noteq> [] \<longrightarrow> lg_mounted s \<and> lg_timer s"

text \<open>The errors of a run, told from its events alone: one entry for each error, with the context the trail
  gave at that moment, until the provider is unmounted.  Left out are the repeated console
  messages (\<open>seen\<close> holds those of the last five seconds) and what names the route of the log
  itself.\<close>

definition network_entry :: "network_error \<Rightarrow> error_entry" where
  "network_entry e = (bare_entry ''NETWORK_ERROR'' (if ne_message e = [] then ''Network request failed'' else ne_message e))
     \<lparr> en_url := ne_url e, en_method := map_option (map upper_char) (ne_method e), en_status := ne_status e,
       en_responseBody := map_option (take 2000) (ne_data e), en_stack := ne_stack e \<rparr>"

fun reason_text :: "reason \<Rightarrow> string" where
  "reason_text (Thrown [] st) = ''Promise rejected''"
| "reason_text (Thrown m st) = m"
| "reason_text (Text t) = t"
| "reason_text Other = ''Promise rejected''"

fun reason_stack :: "reason \<Rightarrow> string option" where
  "reason_stack (Thrown m st) = st"
| "reason_stack _ = None"

fun errors_of :: "(string \<Rightarrow> string option) \<Rightarrow> action_trail \<Rightarrow> string list \<Rightarrow> log_event list \<Rightarrow> error_entry list" where
  "errors_of u tr seen [] = []"
| "errors_of u tr seen (WindowError mo m st f l c # es) =
     with_context mo tr ((bare_entry ''UNHANDLED_ERROR'' (if m = [] then ''Unknown error'' else m))
       \<lparr> en_stack := st, en_source := Some (f @ '':'' @ int_text l @ '':'' @ int_text c) \<rparr>) # errors_of u tr seen es"
| "errors_of u tr seen (Rejection mo r # es) =
     with_context mo tr ((bare_entry ''UNHANDLED_PROMISE_REJECTION'' (reason_text r))\<lparr> en_stack := reason_stack r \<rparr>)
       # errors_of u tr seen es"
| "errors_of u tr seen (ConsoleError mo m # es) =
     (if take 200 m \<in> set seen then errors_of u tr seen es
      else (if str_includes LOG_URL m then [] else [with_context mo tr (bare_entry ''CONSOLE_ERROR'' (take 5000 m))])
        @ errors_of u tr (seen @ [take 200 m]) es)"
| "errors_of u tr seen (Toast mo l t d # es) =
     with_context mo tr (bare_entry l (take 5000 (t @ (case d of None \<Rightarrow> [] | Some [] \<Rightarrow> [] | Some x \<Rightarrow> DASH @ x))))
       # errors_of u tr seen es"
| "errors_of u tr seen (NetworkError mo e # es) =
     (if str_includes LOG_URL (case ne_url e of None \<Rightarrow> [] | Some x \<Rightarrow> x) then [] else [with_context mo tr (network_entry e)])
       @ errors_of u tr seen es"
| "errors_of u tr seen (SeenExpires k # es) = errors_of u tr (removeAll k seen) es"
| "errors_of u tr seen (TimerFires # es) = errors_of u tr seen es"
| "errors_of u tr seen (Acted a # es) = errors_of u (trail_step u tr a) seen es"
| "errors_of u tr seen (Cleanup # es) = []"

text \<open>What left for the route and what waits, in order.\<close>

definition reported :: "logger \<Rightarrow> error_entry list" where
  "reported s = concat (lg_sent s) @ lg_queue s"

lemma reported_flush [simp]: "reported (flush s) = reported s" "lg_queue (flush s) = []"
  "lg_mounted (flush s) = lg_mounted s" "lg_timer (flush s) = lg_timer s"
  "lg_trail (flush s) = lg_trail s" "seenMessages (flush s) = seenMessages s"
  by (simp_all add: flush_def reported_def)

lemma reported_enqueue [simp]: "reported (enqueue mo e s) = reported s @ [with_context mo (lg_trail s) e]"
  "lg_timer (enqueue mo e s)" "lg_mounted (enqueue mo e s) = lg_mounted s"
  "lg_trail (enqueue mo e s) = lg_trail s" "seenMessages (enqueue mo e s) = seenMessages s"
  by (simp_all add: enqueue_def reported_def)

lemma reported_other [simp]:
  "reported (s\<lparr> seenMessages := x \<rparr>) = reported s" "reported (s\<lparr> lg_trail := y \<rparr>) = reported s"
  "reported (s\<lparr> lg_timer := b \<rparr>) = reported s" "reported (s\<lparr> lg_mounted := b \<rparr>) = reported s"
  by (simp_all add: reported_def)

lemmas log_handlers = onError_def onUnhandledRejection_def console_error_def intercept_toast_def
  network_failed_def timer_fires_def cleanup_def Let_def

interpretation logger: machine "log_step url_path" logger_ok for url_path
proof (unfold_locales, goal_cases)
  case (1 s e)
  have kept: "logger_ok (s\<lparr> seenMessages := x \<rparr>)" "logger_ok (s\<lparr> lg_trail := y \<rparr>)" for x y
    using 1 by (simp_all add: logger_ok_def)
  have enq: "lg_mounted t \<Longrightarrow> logger_ok (enqueue mo en t)" for mo en t
    by (simp add: logger_ok_def)
  show ?case using 1 kept
    by (cases e) (auto simp: log_handlers intro!: enq, auto simp: logger_ok_def)
qed

lemma unmounted_reports_nothing:
  "\<not> lg_mounted s \<Longrightarrow> reported (run (log_step u) es s) = reported s"
proof (induction es arbitrary: s)
  case (Cons e es)
  have "\<not> lg_mounted (log_step u s e)" "reported (log_step u s e) = reported s"
    using Cons.prems by (cases e; simp)+
  then show ?case using Cons.IH by simp
qed simp

lemma reason_entry:
  "(case r of Thrown m _ \<Rightarrow> if m \<noteq> [] then m else ''Promise rejected'' | Text t \<Rightarrow> t | Other \<Rightarrow> ''Promise rejected'') = reason_text r"
  "(case r of Thrown _ st \<Rightarrow> st | _ \<Rightarrow> None) = reason_stack r"
  by (cases r rule: reason_text.cases; simp)+

lemma toast_text:
  "(if filled d then DASH @ the d else []) = (case d of None \<Rightarrow> [] | Some [] \<Rightarrow> [] | Some x \<Rightarrow> DASH @ x)"
  by (auto simp: filled_def split: option.split list.split)

lemma reported_errors:
  "lg_mounted s \<Longrightarrow> reported (run (log_step u) es s) = reported s @ errors_of u (lg_trail s) (seenMessages s) es"
proof (induction es arbitrary: s)
  case (Cons e es)
  show ?case
  proof (cases e)
    case Cleanup
    then show ?thesis using Cons.prems unmounted_reports_nothing [of "cleanup s" u es] by (simp add: cleanup_def)
  qed (use Cons in \<open>auto simp: log_handlers reason_entry toast_text network_entry_def\<close>)
qed simp

text \<open>C35.  No error of a mounting is lost, doubled or reordered: after any events the batches sent and the
  queue together hold exactly one entry for each error of the run (\<open>errors_of\<close>), in the order of
  the errors, and after the timer or the cleanup the batches alone do.  The provider is mounted
  once: on a second mounting the reference to a cleared timer would keep the timer from being
  started.\<close>

theorem errors_delivered:
  "let s = run (log_step url_path) es logger_start; errors = errors_of url_path trail_init [] es in
     concat (lg_sent s) @ lg_queue s = errors \<and>
     concat (lg_sent (log_step url_path s TimerFires)) = errors \<and>
     concat (lg_sent (log_step url_path s Cleanup)) = errors"
proof -
  define s where "s = run (log_step url_path) es logger_start"
  have all: "reported s = errors_of url_path trail_init [] es"
    using reported_errors [of logger_start url_path es] by (simp add: s_def logger_start_def reported_def)
  have "logger_ok s" unfolding s_def
    by (rule logger.every_run_inv) (simp add: logger_ok_def logger_start_def)
  then have "lg_queue (log_step url_path s TimerFires) = []" "lg_queue (log_step url_path s Cleanup) = []"
    by (auto simp: logger_ok_def timer_fires_def cleanup_def)
  moreover have "reported (log_step url_path s TimerFires) = reported s" "reported (log_step url_path s Cleanup) = reported s"
    by (simp_all add: timer_fires_def cleanup_def)
  ultimately show ?thesis unfolding s_def [symmetric] Let_def all [symmetric] by (auto simp: reported_def)
qed

text \<open>Messages that agree in their first 200 characters count as one until five seconds have
  passed.\<close>

lemma long_messages_merged:
  assumes "length p = 200" "lg_mounted s" "\<not> str_includes LOG_URL (p @ a)"
  shows "reported (run (log_step u) [ConsoleError mo (p @ a), ConsoleError mo' (p @ b)] s)
    = reported (log_step u s (ConsoleError mo (p @ a)))"
  using assms by (simp add: console_error_def Let_def enqueue_def)

text \<open>An old click is still named as the trigger of an error: only the crumbs expire.\<close>

lemma trigger_never_expires:
  "en_trigger (with_context mo (tr\<lparr> lastTrigger := Some (c # t) \<rparr>) entry) = Some (c # t)"
  by (simp add: with_context_def getActionContext_def filled_def)

text \<open>After a cleanup with a pending timer the reference still counts as a timer.\<close>

lemma timer_kept_after_cleanup: "lg_timer (cleanup s) = lg_timer s"
  by (simp add: cleanup_def)

section \<open>The size of the file\<close>

record post_call =
  pc_enabled :: bool
  pc_path :: "string \<Rightarrow> string option"
  pc_now :: string
  pc_fails :: bool
  pc_body :: "error_entry list option"

definition post_step :: "log_fs \<Rightarrow> post_call \<Rightarrow> log_fs" where
  "post_step fs c = snd (POST (pc_enabled c) (pc_path c) (pc_now c) (pc_fails c) (pc_body c) fs)"

definition post_size :: "post_call \<Rightarrow> nat" where
  "post_size c = (case pc_body c of None \<Rightarrow> 0 | Some es \<Rightarrow> length (log_text (pc_path c) (pc_now c) es))"

definition file_size :: "log_fs \<Rightarrow> nat" where
  "file_size fs = (case log_file fs of None \<Rightarrow> 0 | Some t \<Rightarrow> length t)"

definition file_ok :: "nat \<Rightarrow> log_fs \<Rightarrow> bool" where
  "file_ok n fs \<longleftrightarrow> file_size fs \<le> MAX_LOG_SIZE + n"

interpretation error_file: guarded_machine post_step "\<lambda>c. post_size c \<le> n" "file_ok n" for n
proof (unfold_locales, goal_cases)
  case (1 fs c)
  have "file_size (rotateIfNeeded fs) \<le> MAX_LOG_SIZE"
    by (auto simp: rotateIfNeeded_def file_size_def split: option.splits)
  then show ?case using 1
    by (auto simp: post_step_def POST_def post_size_def file_ok_def file_size_def Let_def split: option.splits)
qed

text \<open>The file stays below five megabytes and the longest text written.\<close>

theorem error_file_bounded:
  assumes "list_all (\<lambda>c. post_size c \<le> n) calls"
  shows "file_size (run post_step calls \<lparr> log_file = None, log_old = None \<rparr>) \<le> MAX_LOG_SIZE + n"
  using error_file.run_inv [of n "\<lparr> log_file = None, log_old = None \<rparr>" calls] assms
  by (simp add: file_ok_def file_size_def)

definition one_post :: post_call where
  "one_post = \<lparr> pc_enabled = True, pc_path = (\<lambda>u. None), pc_now = ''now'', pc_fails = False,
     pc_body = Some [bare_entry ''CONSOLE_ERROR'' ''boom''] \<rparr>"

lemma error_file_bounded_witness:
  "file_size (run post_step [one_post] \<lparr> log_file = None, log_old = None \<rparr>) \<le> MAX_LOG_SIZE + post_size one_post"
  by (rule error_file_bounded) simp

text \<open>A failed request writes nothing, and its entries are gone: the browser has emptied its queue.\<close>

lemma failed_post_writes_nothing:
  "fst (POST b path now f body fs) = Failed \<Longrightarrow> file_size (snd (POST b path now f body fs)) \<le> file_size fs"
  by (auto simp: POST_def rotateIfNeeded_def file_size_def Let_def split: if_splits option.splits)

end
