(* ===== verification/DocumentDiff.thy ===== *)
theory DocumentDiff
  imports JsPrelude
begin

text \<open>
  The comparison of two versions of a document
  (\<open>frontend/src/components/documents/version-compare.tsx\<close>): the rows of the inline and of the
  side by side view, made of the hunks the server computes.
\<close>

datatype change_type = Added | Deleted | Context

record diff_line =
  change :: change_type
  line_number_a :: "int option"
  line_number_b :: "int option"
  content :: string

record diff_hunk =
  a_start :: int
  a_count :: int
  b_start :: int
  b_count :: int
  hunk_lines :: "diff_line list"

definition linePrefix :: "change_type \<Rightarrow> string" where
  "linePrefix c = (case c of Added \<Rightarrow> ''+'' | Deleted \<Rightarrow> ''-'' | Context \<Rightarrow> '' '')"

definition hunk_header :: "diff_hunk \<Rightarrow> string" where
  "hunk_header h = ''@@ -'' @ int_text (a_start h) @ '','' @ int_text (a_count h) @
     '' +'' @ int_text (b_start h) @ '','' @ int_text (b_count h) @ '' @@''"

section \<open>Inline\<close>

datatype inline_row = IHeader string | ILine "int option" "int option" string string

definition InlineDiff :: "diff_hunk list \<Rightarrow> inline_row list" where
  "InlineDiff hunks =
     concat (map (\<lambda>h. IHeader (hunk_header h) #
       map (\<lambda>l. ILine (line_number_a l) (line_number_b l) (linePrefix (change l)) (content l)) (hunk_lines h)) hunks)"

section \<open>Side by side\<close>

datatype paired_row = HunkRow diff_hunk | PairRow "diff_line option" "diff_line option"

text \<open>The loop over the lines of a hunk: \<open>di\<close> deleted lines seen, \<open>ai\<close> added lines paired.\<close>

fun pair_lines :: "diff_line list \<Rightarrow> nat \<Rightarrow> nat \<Rightarrow> nat \<Rightarrow> diff_line list \<Rightarrow> paired_row list" where
  "pair_lines added deleted di ai [] = []"
| "pair_lines added deleted di ai (line # ls) =
     (case change line of
        Context \<Rightarrow> PairRow (Some line) (Some line) # pair_lines added deleted di ai ls
      | Deleted \<Rightarrow>
          (if ai < length added
           then PairRow (Some line) (Some (added ! ai)) # pair_lines added deleted (di + 1) (ai + 1) ls
           else PairRow (Some line) None # pair_lines added deleted (di + 1) ai ls)
      | Added \<Rightarrow>
          (if ai \<le> deleted \<and> 0 < di \<and> ai < di then pair_lines added deleted di ai ls
           else PairRow None (Some line) # pair_lines added deleted di ai ls))"

definition SideBySideDiff :: "diff_hunk list \<Rightarrow> paired_row list" where
  "SideBySideDiff hunks =
     concat (map (\<lambda>h. HunkRow h #
       pair_lines (filter (\<lambda>l. change l = Added) (hunk_lines h))
         (length (filter (\<lambda>l. change l = Deleted) (hunk_lines h))) 0 0 (hunk_lines h)) hunks)"

text \<open>The two columns, top to bottom.\<close>

definition left_column :: "paired_row list \<Rightarrow> diff_line list" where
  "left_column rows = concat (map (\<lambda>r. case r of PairRow (Some l) _ \<Rightarrow> [l] | _ \<Rightarrow> []) rows)"

definition right_column :: "paired_row list \<Rightarrow> diff_line list" where
  "right_column rows = concat (map (\<lambda>r. case r of PairRow _ (Some l) \<Rightarrow> [l] | _ \<Rightarrow> []) rows)"

section \<open>What the views show\<close>

definition version_a :: "diff_hunk list \<Rightarrow> diff_line list" where
  "version_a hunks = filter (\<lambda>l. change l \<noteq> Added) (concat (map hunk_lines hunks))"

definition version_b :: "diff_hunk list \<Rightarrow> diff_line list" where
  "version_b hunks = filter (\<lambda>l. change l \<noteq> Deleted) (concat (map hunk_lines hunks))"

lemma columns_simps [simp]:
  "left_column [] = []" "right_column [] = []"
  "left_column (PairRow x y # rows) = (case x of None \<Rightarrow> [] | Some l \<Rightarrow> [l]) @ left_column rows"
  "right_column (PairRow x y # rows) = (case y of None \<Rightarrow> [] | Some l \<Rightarrow> [l]) @ right_column rows"
  "left_column (HunkRow h # rows) = left_column rows" "right_column (HunkRow h # rows) = right_column rows"
  "left_column (rows @ rows') = left_column rows @ left_column rows'"
  "right_column (rows @ rows') = right_column rows @ right_column rows'"
  by (auto simp: left_column_def right_column_def split: option.splits)

lemma left_pair_lines: "left_column (pair_lines added deleted di ai ls) = filter (\<lambda>l. change l \<noteq> Added) ls"
  by (induction ls arbitrary: di ai) (auto split: change_type.split)

lemma left_of_hunks: "left_column (SideBySideDiff hunks) = version_a hunks"
  by (induction hunks) (simp_all add: SideBySideDiff_def version_a_def left_pair_lines)

text \<open>The right column of a hunk that replaces a block: kept lines, deleted lines, added lines,
  kept lines.\<close>

definition block_hunk :: "diff_line list \<Rightarrow> diff_line list \<Rightarrow> diff_line list \<Rightarrow> diff_line list \<Rightarrow> diff_line list" where
  "block_hunk before del add after =
     map (change_update (\<lambda>_. Context)) before @ map (change_update (\<lambda>_. Deleted)) del @
     map (change_update (\<lambda>_. Added)) add @ map (change_update (\<lambda>_. Context)) after"

lemma pair_context:
  "pair_lines added deleted di ai (map (change_update (\<lambda>_. Context)) ls @ rest) =
     map (\<lambda>l. PairRow (Some (l\<lparr> change := Context \<rparr>)) (Some (l\<lparr> change := Context \<rparr>))) ls @ pair_lines added deleted di ai rest"
  by (induction ls) simp_all

lemma right_of_kept [simp]: "right_column (map (\<lambda>l. PairRow (Some (f l)) (Some (f l))) ls) = map f ls"
  by (induction ls) simp_all

lemma pair_deleted:
  "right_column (pair_lines added deleted di ai (map (change_update (\<lambda>_. Deleted)) ls @ rest)) =
     take (length ls) (drop ai added) @
     right_column (pair_lines added deleted (di + length ls) (max ai (min (ai + length ls) (length added))) rest)"
proof (induction ls arbitrary: di ai)
  case (Cons l ls)
  show ?case
  proof (cases "ai < length added")
    case True
    have "take (length (l # ls)) (drop ai added) = added ! ai # take (length ls) (drop (Suc ai) added)"
      using True by (simp add: Cons_nth_drop_Suc [symmetric])
    moreover have "max (ai + 1) (min (ai + 1 + length ls) (length added)) = max ai (min (ai + length (l # ls)) (length added))"
      using True by simp
    ultimately show ?thesis using True Cons.IH [of "di + 1" "ai + 1"] by simp
  next
    case False
    then have "max ai (min (ai + n) (length added)) = ai" for n by simp
    then show ?thesis using Cons.IH [of "di + 1" ai] False by simp
  qed
qed simp

lemma pair_added:
  "right_column (pair_lines added deleted di ai (map (change_update (\<lambda>_. Added)) ls @ rest)) =
     (if ai \<le> deleted \<and> 0 < di \<and> ai < di then [] else map (change_update (\<lambda>_. Added)) ls) @
     right_column (pair_lines added deleted di ai rest)"
  by (induction ls) auto

text \<open>
  The left column of the side by side view is the old version.  The right column of a replaced
  block is the new version only when more lines are deleted than added; otherwise the lines
  next to the deleted ones appear a second time below.
\<close>

theorem side_by_side_columns:
  "left_column (SideBySideDiff hunks) = version_a hunks \<and>
   right_column (SideBySideDiff [h\<lparr> hunk_lines := block_hunk before del add after \<rparr>]) =
     (let kept = map (change_update (\<lambda>_. Context)); new = map (change_update (\<lambda>_. Added)) add in
      kept before @ (if length add < length del then new else take (length del) new @ new) @ kept after)"
proof -
  let ?new = "map (change_update (\<lambda>_. Added)) add"
  let ?ls = "block_hunk before del add after"
  have added: "filter (\<lambda>l. change l = Added) ?ls = ?new"
    and deleted: "length (filter (\<lambda>l. change l = Deleted) ?ls) = length del"
    by (simp_all add: block_hunk_def filter_map comp_def)
  have "right_column (pair_lines ?new (length del) 0 0 ?ls) =
      map (change_update (\<lambda>_. Context)) before @
      (if length add < length del then ?new else take (length del) ?new @ ?new) @
      map (change_update (\<lambda>_. Context)) after"
    using pair_context [of ?new "length del" "length del" "min (length del) (length add)" after "[]"]
    by (auto simp: block_hunk_def pair_context pair_deleted pair_added min_def)
  then have "right_column (SideBySideDiff [h\<lparr> hunk_lines := ?ls \<rparr>]) =
      map (change_update (\<lambda>_. Context)) before @
      (if length add < length del then ?new else take (length del) ?new @ ?new) @
      map (change_update (\<lambda>_. Context)) after"
    by (simp add: SideBySideDiff_def added deleted)
  then show ?thesis using left_of_hunks unfolding Let_def by blast
qed

text \<open>The inline view shows every line of both versions.\<close>

lemma inline_shows_all:
  "concat (map (\<lambda>r. case r of ILine _ _ p c \<Rightarrow> [(p, c)] | _ \<Rightarrow> []) (InlineDiff hunks)) =
     map (\<lambda>l. (linePrefix (change l), content l)) (concat (map hunk_lines hunks))"
  by (induction hunks) (simp_all add: InlineDiff_def comp_def)

lemma inline_versions:
  "map snd (filter (\<lambda>(p, c). p \<noteq> ''+'') (map (\<lambda>l. (linePrefix (change l), content l)) (concat (map hunk_lines hunks)))) =
     map content (version_a hunks)"
proof -
  have "linePrefix c \<noteq> ''+'' \<longleftrightarrow> c \<noteq> Added" for c by (cases c) (simp_all add: linePrefix_def)
  then show ?thesis by (simp add: version_a_def filter_map comp_def)
qed

text \<open>An added line above a deleted one is paired with it although the two do not correspond.\<close>

lemma earlier_addition_paired_again:
  "right_column (pair_lines [l\<lparr> change := Added \<rparr>] 1 0 0 [l\<lparr> change := Added \<rparr>, l\<lparr> change := Context \<rparr>, l\<lparr> change := Deleted \<rparr>]) =
     [l\<lparr> change := Added \<rparr>, l\<lparr> change := Context \<rparr>, l\<lparr> change := Added \<rparr>]"
  by simp

end
