(* ===== verification/Uploads.thy ===== *)
theory Uploads
  imports Machines
begin

text \<open>
  Uploading documents: the drop zone (\<open>frontend/src/components/documents/upload-zone.tsx\<close>), the
  bulk upload dialog (\<open>bulk-upload.tsx\<close>), and the bulk submission of deliverables by partners
  (\<open>frontend/src/components/partners/bulk-deliverable-upload.tsx\<close> with
  \<open>deliverable-upload-types.ts\<close>).

  A file is its name, type and size.  Fresh random ids are numbers of a counter.  The upload
  loops await one answer per file: the files still to send are part of the state and an
  answer is an event.  A button that is not shown, or disabled, does nothing.
\<close>

record upload_file =
  f_name :: string
  f_type :: string
  f_size :: nat

section \<open>The drop zone\<close>

definition zone_types :: "string list" where
  "zone_types =
     [''application/pdf'', ''application/msword'',
      ''application/vnd.openxmlformats-officedocument.wordprocessingml.document'', ''application/vnd.ms-excel'',
      ''application/vnd.openxmlformats-officedocument.spreadsheetml.sheet'', ''application/vnd.ms-powerpoint'',
      ''application/vnd.openxmlformats-officedocument.presentationml.presentation'',
      ''image/jpeg'', ''image/png'', ''image/gif'', ''image/webp'', ''text/plain'', ''text/csv'']"

datatype zone_error = TooMany nat | Unsupported string string | TooBig string nat

definition zone_check :: "nat \<Rightarrow> upload_file \<Rightarrow> zone_error option" where
  "zone_check maxSizeMB f =
     (if f_type f \<notin> set zone_types
      then Some (Unsupported (f_name f) (if f_type f \<noteq> [] then f_type f else ''unknown''))
      else if f_size f > maxSizeMB * 1024 * 1024 then Some (TooBig (f_name f) maxSizeMB)
      else None)"

text \<open>The files handed on (none: no call) and the errors shown.\<close>

definition processFiles :: "nat \<Rightarrow> nat \<Rightarrow> upload_file list \<Rightarrow> upload_file list \<times> zone_error list" where
  "processFiles maxFiles maxSizeMB raw =
     (let files = take maxFiles raw in
      (filter (\<lambda>f. zone_check maxSizeMB f = None) files,
       (if maxFiles < length raw then [TooMany maxFiles] else []) @
       List.map_filter (zone_check maxSizeMB) files))"

section \<open>Bulk upload\<close>

definition mentions_any :: "string list \<Rightarrow> string \<Rightarrow> bool" where
  "mentions_any ws s = list_ex (\<lambda>w. str_includes w s) ws"

definition autoCategorize :: "string \<Rightarrow> string" where
  "autoCategorize filename =
     (let l = lower filename in
      if mentions_any [''contract'', ''agreement'', ''mou'', ''nda'', ''terms''] l then ''contract''
      else if mentions_any [''report'', ''analysis'', ''summary'', ''overview''] l then ''report''
      else if mentions_any [''compliance'', ''kyc'', ''aml'', ''regulatory'', ''audit''] l then ''compliance''
      else if mentions_any [''financial'', ''invoice'', ''budget'', ''statement'', ''balance'', ''tax''] l then ''financial''
      else if mentions_any [''legal'', ''court'', ''judgment'', ''lawsuit'', ''regulation''] l then ''legal''
      else if mentions_any [''letter'', ''correspondence'', ''email'', ''memo'', ''notice''] l then ''correspondence''
      else ''general'')"

datatype upload_state = Idle | Queued | Uploading | Editing
datatype file_status = Pending | Sending | Success | Error

record upload_item =
  u_id :: nat
  u_file :: upload_file
  u_status :: file_status
  u_progress :: nat
  u_category :: string
  u_description :: string
  u_result :: "string option"
  u_error :: "string option"

text \<open>\<open>to_send\<close> are the targets of the running loop, as they were when it began; \<open>requests\<close> and
  \<open>stored\<close> are what reached the server and what it stored.\<close>

record bulk =
  uploadState :: upload_state
  items :: "upload_item list"
  globalCategory :: string
  autoCategorizeEnabled :: bool
  nextId :: nat
  to_send :: "upload_item list"
  requests :: "(nat \<times> string \<times> string) list"
  stored :: "(nat \<times> string) list"
  completed :: "string list option"

definition bulk_start :: bulk where
  "bulk_start = \<lparr> uploadState = Idle, items = [], globalCategory = ''general'', autoCategorizeEnabled = True,
     nextId = 0, to_send = [], requests = [], stored = [], completed = None \<rparr>"

definition new_item :: "bulk \<Rightarrow> nat \<Rightarrow> upload_file \<Rightarrow> upload_item" where
  "new_item s i f =
     \<lparr> u_id = i, u_file = f, u_status = Pending, u_progress = 0,
       u_category = (if autoCategorizeEnabled s then autoCategorize (f_name f) else globalCategory s),
       u_description = [], u_result = None, u_error = None \<rparr>"

definition handleFilesSelect :: "upload_file list \<Rightarrow> bulk \<Rightarrow> bulk" where
  "handleFilesSelect files s =
     s\<lparr> items := items s @ map (\<lambda>(i, f). new_item s i f) (enumerate (nextId s) files),
        nextId := nextId s + length files, uploadState := Queued \<rparr>"

definition removeItem :: "nat \<Rightarrow> bulk \<Rightarrow> bulk" where
  "removeItem i s =
     (let next = filter (\<lambda>x. u_id x \<noteq> i) (items s) in
      s\<lparr> items := next, uploadState := (if next = [] then Idle else uploadState s) \<rparr>)"

definition on_items :: "(upload_item \<Rightarrow> bool) \<Rightarrow> (upload_item \<Rightarrow> upload_item) \<Rightarrow> bulk \<Rightarrow> bulk" where
  "on_items p f s = s\<lparr> items := map (\<lambda>x. if p x then f x else x) (items s) \<rparr>"

definition applyGlobalCategory :: "string \<Rightarrow> bulk \<Rightarrow> bulk" where
  "applyGlobalCategory cat s = on_items (\<lambda>x. True) (u_category_update (\<lambda>_. cat)) (s\<lparr> globalCategory := cat \<rparr>)"

definition updateItemCategory :: "nat \<Rightarrow> string \<Rightarrow> bulk \<Rightarrow> bulk" where
  "updateItemCategory i cat s = on_items (\<lambda>x. u_id x = i) (u_category_update (\<lambda>_. cat)) s"

definition updateItemDescription :: "nat \<Rightarrow> string \<Rightarrow> bulk \<Rightarrow> bulk" where
  "updateItemDescription i d s = on_items (\<lambda>x. u_id x = i) (u_description_update (\<lambda>_. d)) s"

text \<open>One turn of the loop: the request for the next target, or the end.\<close>

definition next_target :: "bulk \<Rightarrow> bulk" where
  "next_target s =
     (case to_send s of
        [] \<Rightarrow> s\<lparr> uploadState := Editing \<rparr>
      | x # xs \<Rightarrow> s\<lparr> requests := requests s @ [(u_id x, u_category x, u_description x)] \<rparr>)"

definition startUpload :: "upload_item list \<Rightarrow> bulk \<Rightarrow> bulk" where
  "startUpload targets s =
     (if targets = [] then s
      else next_target
        ((on_items (\<lambda>x. u_id x \<in> set (map u_id targets))
            (\<lambda>x. x\<lparr> u_status := Sending, u_progress := 0, u_error := None \<rparr>) s)
         \<lparr> uploadState := Uploading, to_send := targets \<rparr>))"

definition upload_progress :: "nat \<Rightarrow> bulk \<Rightarrow> bulk" where
  "upload_progress percent s =
     (case to_send s of [] \<Rightarrow> s
      | x # xs \<Rightarrow> on_items (\<lambda>y. u_id y = u_id x) (u_progress_update (\<lambda>_. percent)) s)"

text \<open>The answer: a message of the error thrown, or the document stored.\<close>

definition upload_answer :: "string + string \<Rightarrow> bulk \<Rightarrow> bulk" where
  "upload_answer r s =
     (case to_send s of [] \<Rightarrow> s
      | x # xs \<Rightarrow>
          (case r of
             Inl err \<Rightarrow>
               next_target ((on_items (\<lambda>y. u_id y = u_id x) (\<lambda>y. y\<lparr> u_status := Error, u_error := Some err \<rparr>) s)
                 \<lparr> to_send := xs \<rparr>)
           | Inr doc \<Rightarrow>
               next_target ((on_items (\<lambda>y. u_id y = u_id x)
                   (\<lambda>y. y\<lparr> u_status := Success, u_progress := 100, u_result := Some doc \<rparr>) s)
                 \<lparr> to_send := xs, stored := stored s @ [(u_id x, doc)] \<rparr>)))"

definition retryFailed :: "bulk \<Rightarrow> bulk" where
  "retryFailed s = startUpload (filter (\<lambda>x. u_status x = Error) (items s)) s"

definition handleDone :: "bulk \<Rightarrow> bulk" where
  "handleDone s = s\<lparr> completed := Some (List.map_filter u_result (items s)) \<rparr>"

definition clear_queue :: "bulk \<Rightarrow> bulk" where
  "clear_queue s = s\<lparr> items := [], uploadState := Idle \<rparr>"

datatype bulk_event =
  Files "upload_file list"
| Remove nat
| Category string
| Auto bool
| ItemCategory nat string
| ItemDescription nat string
| Upload
| Progressed nat
| Answered "string + string"
| Retry
| Done
| ClearAll

definition item_shown :: "nat \<Rightarrow> bulk \<Rightarrow> bool" where
  "item_shown i s \<longleftrightarrow> list_ex (\<lambda>x. u_id x = i \<and> u_status x = Success) (items s)"

fun bulk_step :: "bulk \<Rightarrow> bulk_event \<Rightarrow> bulk" where
  "bulk_step s (Files fs) = (if uploadState s \<in> {Idle, Queued} \<and> fs \<noteq> [] then handleFilesSelect fs s else s)"
| "bulk_step s (Remove i) = (if uploadState s = Queued then removeItem i s else s)"
| "bulk_step s (Category c) = (if uploadState s = Queued then applyGlobalCategory c s else s)"
| "bulk_step s (Auto b) = (if uploadState s = Queued then s\<lparr> autoCategorizeEnabled := b \<rparr> else s)"
| "bulk_step s (ItemCategory i c) =
     (if uploadState s = Queued \<or> uploadState s = Editing \<and> item_shown i s then updateItemCategory i c s else s)"
| "bulk_step s (ItemDescription i d) =
     (if uploadState s = Editing \<and> item_shown i s then updateItemDescription i d s else s)"
| "bulk_step s Upload =
     (if uploadState s = Queued \<and> list_ex (\<lambda>x. u_status x = Pending) (items s) then startUpload (items s) s else s)"
| "bulk_step s (Progressed n) = upload_progress n s"
| "bulk_step s (Answered r) = upload_answer r s"
| "bulk_step s Retry =
     (if uploadState s = Editing \<and> list_ex (\<lambda>x. u_status x = Error) (items s) then retryFailed s else s)"
| "bulk_step s Done = (if uploadState s = Editing then handleDone s else s)"
| "bulk_step s ClearAll = (if uploadState s = Queued then clear_queue s else s)"

section \<open>What is stored\<close>

definition item_ok :: "nat \<Rightarrow> upload_item \<Rightarrow> bool" where
  "item_ok n x \<longleftrightarrow> u_id x < n \<and> ((u_result x \<noteq> None) = (u_status x = Success)) \<and>
     (u_status x \<noteq> Success \<longrightarrow> u_description x = [])"

definition phase_item :: "upload_state \<Rightarrow> nat set \<Rightarrow> upload_item \<Rightarrow> bool" where
  "phase_item st sending x \<longleftrightarrow>
     (case st of
        Uploading \<Rightarrow> u_status x \<noteq> Pending \<and> (u_status x = Sending \<longleftrightarrow> u_id x \<in> sending)
      | Editing \<Rightarrow> u_status x = Success \<or> u_status x = Error
      | _ \<Rightarrow> u_status x = Pending)"

definition results :: "upload_item list \<Rightarrow> (nat \<times> string) set" where
  "results xs = {(u_id x, d) |x d. x \<in> set xs \<and> u_result x = Some d}"

definition bulk_ok :: "bulk \<Rightarrow> bool" where
  "bulk_ok s \<longleftrightarrow>
     distinct (map u_id (items s)) \<and> (\<forall>x \<in> set (items s). item_ok (nextId s) x) \<and>
     (\<forall>x \<in> set (items s). phase_item (uploadState s) (u_id ` set (to_send s)) x) \<and>
     (uploadState s = Idle \<longrightarrow> items s = []) \<and> (uploadState s \<in> {Idle, Queued} \<longrightarrow> stored s = []) \<and>
     (to_send s \<noteq> [] \<longleftrightarrow> uploadState s = Uploading) \<and>
     distinct (map u_id (to_send s)) \<and> u_id ` set (to_send s) \<subseteq> u_id ` set (items s) \<and>
     (\<forall>x \<in> set (to_send s). u_description x = []) \<and> (\<forall>r \<in> set (requests s). snd (snd r) = []) \<and>
     distinct (map fst (stored s)) \<and> set (stored s) = results (items s)"

lemma on_items_simps [simp]:
  "uploadState (on_items p f s) = uploadState s" "to_send (on_items p f s) = to_send s"
  "stored (on_items p f s) = stored s" "nextId (on_items p f s) = nextId s" "requests (on_items p f s) = requests s"
  "items (on_items p f s) = map (\<lambda>x. if p x then f x else x) (items s)"
  by (simp_all add: on_items_def)

declare if_image_distrib [simp del]

lemma results_of_map: "results (map f xs) = {(u_id (f x), d) |x d. x \<in> set xs \<and> u_result (f x) = Some d}"
  by (auto simp: results_def)

lemma results_map:
  "(\<And>x. x \<in> set xs \<Longrightarrow> u_id (f x) = u_id x \<and> u_result (f x) = u_result x) \<Longrightarrow> results (map f xs) = results xs"
proof -
  assume same: "\<And>x. x \<in> set xs \<Longrightarrow> u_id (f x) = u_id x \<and> u_result (f x) = u_result x"
  have "results (map f xs) = {(u_id (f x), d) |x d. x \<in> set xs \<and> u_result (f x) = Some d}"
    by (rule results_of_map)
  also have "\<dots> = results xs" unfolding results_def using same by (metis (no_types, lifting))
  finally show ?thesis .
qed

lemma phase_item_same:
  "u_id y = u_id x \<Longrightarrow> u_status y = u_status x \<Longrightarrow> phase_item st B y = phase_item st B x"
  by (cases st) (simp_all add: phase_item_def)

text \<open>Changes of category, progress, and of the description of stored files.\<close>

lemma cosmetic_ok:
  assumes ok: "bulk_ok s"
    and f: "\<And>x. u_id (f x) = u_id x" "\<And>x. u_status (f x) = u_status x" "\<And>x. u_result (f x) = u_result x"
    and d: "\<And>x. x \<in> set (items s) \<Longrightarrow> p x \<Longrightarrow> u_status x \<noteq> Success \<Longrightarrow> u_description (f x) = u_description x"
  shows "bulk_ok (on_items p f s)"
proof -
  let ?g = "\<lambda>x. if p x then f x else x"
  have same: "u_id (?g x) = u_id x" "u_status (?g x) = u_status x" "u_result (?g x) = u_result x" for x
    by (simp_all add: f)
  have ids1: "map u_id (map ?g (items s)) = map u_id (items s)" by (simp add: same)
  have ids2: "u_id ` set (map ?g (items s)) = u_id ` set (items s)"
    using arg_cong [OF ids1, of set] unfolding set_map .
  note ids = ids1 ids2
  have "item_ok (nextId s) (?g x)" if "x \<in> set (items s)" "item_ok (nextId s) x" for x
    using that d [of x] by (simp add: item_ok_def f)
  then have "\<forall>x \<in> set (map ?g (items s)). item_ok (nextId s) x" using ok by (simp add: bulk_ok_def)
  moreover have "\<forall>x \<in> set (map ?g (items s)). phase_item (uploadState s) (u_id ` set (to_send s)) x"
    using ok phase_item_same [OF same(1,2)] by (simp add: bulk_ok_def)
  moreover have "results (map ?g (items s)) = results (items s)" by (rule results_map) (simp add: same)
  moreover obtain xs where xs: "xs = map ?g (items s)" by simp
  moreover have eq: "items (on_items p f s) = xs" by (simp add: xs)
  moreover note ids
  ultimately have facts: "\<forall>x \<in> set xs. item_ok (nextId s) x" "results xs = results (items s)"
    "\<forall>x \<in> set xs. phase_item (uploadState s) (u_id ` set (to_send s)) x"
    "map u_id xs = map u_id (items s)" "u_id ` set xs = u_id ` set (items s)" "items s = [] \<longrightarrow> xs = []"
    unfolding xs by simp_all
  show ?thesis
    using ok unfolding bulk_ok_def eq on_items_simps(1-5) facts(2,4,5) using facts(1,3,6) by simp
qed

lemma fresh_items:
  assumes ok: "bulk_ok s" and st: "uploadState s \<in> {Idle, Queued}"
  shows "\<forall>x \<in> set (items s). u_status x = Pending" "to_send s = []" "stored s = []"
  using assms by (auto simp: bulk_ok_def phase_item_def)

lemma new_items:
  "map u_id (map (\<lambda>(i, f). new_item s i f) (enumerate n fs)) = [n..<n + length fs]"
  "x \<in> set (map (\<lambda>(i, f). new_item s i f) (enumerate n fs)) \<Longrightarrow>
     u_status x = Pending \<and> u_result x = None \<and> u_description x = [] \<and> u_id x < n + length fs"
proof -
  show "map u_id (map (\<lambda>(i, f). new_item s i f) (enumerate n fs)) = [n..<n + length fs]"
    by (rule nth_equalityI) (simp_all add: nth_enumerate_eq new_item_def)
  show "x \<in> set (map (\<lambda>(i, f). new_item s i f) (enumerate n fs)) \<Longrightarrow>
     u_status x = Pending \<and> u_result x = None \<and> u_description x = [] \<and> u_id x < n + length fs"
    by (auto simp: new_item_def in_set_enumerate_eq)
qed

lemma files_ok:
  assumes ok: "bulk_ok s" and st: "uploadState s \<in> {Idle, Queued}"
  shows "bulk_ok (handleFilesSelect fs s)"
proof -
  let ?new = "map (\<lambda>(i, f). new_item s i f) (enumerate (nextId s) fs)"
  note fresh = fresh_items [OF assms]
  have "distinct (map u_id (items s @ ?new))"
    using ok unfolding map_append new_items(1) by (auto simp: bulk_ok_def item_ok_def)
  moreover have "\<forall>x \<in> set (items s @ ?new). item_ok (nextId s + length fs) x"
  proof
    fix x assume "x \<in> set (items s @ ?new)"
    then consider "x \<in> set (items s)" | "x \<in> set ?new" unfolding set_append by blast
    then show "item_ok (nextId s + length fs) x"
    proof cases
      case 1
      then have "item_ok (nextId s) x" using ok by (simp add: bulk_ok_def)
      then show ?thesis by (simp add: item_ok_def)
    next
      case 2
      then show ?thesis using new_items(2) [OF 2] by (simp add: item_ok_def)
    qed
  qed
  moreover have "\<forall>x \<in> set (items s @ ?new). phase_item Queued {} x"
    using fresh(1) new_items(2) [of _ s "nextId s" fs] unfolding phase_item_def by auto
  moreover have "results (items s @ ?new) = {}"
  proof -
    have "results (items s) = {}" using ok fresh(3) by (simp add: bulk_ok_def)
    then show ?thesis using new_items(2) [of _ s "nextId s" fs] unfolding results_def by fastforce
  qed
  moreover have "requests s = requests s \<and> (\<forall>r \<in> set (requests s). snd (snd r) = [])" using ok by (simp add: bulk_ok_def)
  ultimately show ?thesis using fresh unfolding bulk_ok_def handleFilesSelect_def by simp
qed

lemma remove_ok:
  assumes ok: "bulk_ok s" and st: "uploadState s = Queued"
  shows "bulk_ok (removeItem i s)"
proof -
  let ?next = "filter (\<lambda>x. u_id x \<noteq> i) (items s)"
  note fresh = fresh_items [OF ok]
  have "results ?next \<subseteq> results (items s)" by (auto simp: results_def)
  moreover have "results (items s) = {}" using ok st fresh(3) by (simp add: bulk_ok_def)
  ultimately have "results ?next = {}" by blast
  moreover have "distinct (map u_id ?next)" using ok by (simp add: bulk_ok_def distinct_map_filter)
  moreover have "\<forall>x \<in> set ?next. item_ok (nextId s) x \<and> phase_item Queued {} x"
    using ok st fresh by (simp add: bulk_ok_def)
  moreover have "\<forall>r \<in> set (requests s). snd (snd r) = []" using ok by (simp add: bulk_ok_def)
  ultimately show ?thesis using fresh st unfolding bulk_ok_def removeItem_def Let_def by (cases "?next = []") simp_all
qed

text \<open>The loop between two answers.\<close>

definition loop_ok :: "bulk \<Rightarrow> bool" where
  "loop_ok s \<longleftrightarrow>
     uploadState s = Uploading \<and>
     distinct (map u_id (items s)) \<and> (\<forall>x \<in> set (items s). item_ok (nextId s) x) \<and>
     (\<forall>x \<in> set (items s). phase_item Uploading (u_id ` set (to_send s)) x) \<and>
     distinct (map u_id (to_send s)) \<and> u_id ` set (to_send s) \<subseteq> u_id ` set (items s) \<and>
     (\<forall>x \<in> set (to_send s). u_description x = []) \<and> (\<forall>r \<in> set (requests s). snd (snd r) = []) \<and>
     distinct (map fst (stored s)) \<and> set (stored s) = results (items s)"

lemma next_target_ok:
  assumes "loop_ok s"
  shows "bulk_ok (next_target s)"
proof (cases "to_send s")
  case Nil
  have "phase_item Editing {} x" if "phase_item Uploading {} x" for x
    using that by (cases "u_status x") (simp_all add: phase_item_def)
  then show ?thesis using assms Nil by (simp add: next_target_def bulk_ok_def loop_ok_def)
next
  case (Cons x xs)
  then show ?thesis using assms by (simp add: next_target_def bulk_ok_def loop_ok_def)
qed

lemma start_ok:
  assumes ok: "bulk_ok s"
    and t: "set targets \<subseteq> set (items s)" "distinct (map u_id targets)" "\<forall>x \<in> set targets. u_status x \<noteq> Success"
    and rest: "\<forall>x \<in> set (items s). x \<notin> set targets \<longrightarrow> u_status x = Success \<or> u_status x = Error"
  shows "bulk_ok (startUpload targets s)"
proof (cases "targets = []")
  case False
  let ?f = "\<lambda>x. if u_id x \<in> set (map u_id targets) then x\<lparr> u_status := Sending, u_progress := 0, u_error := None \<rparr> else x"
  have mem: "x \<in> set targets \<longleftrightarrow> u_id x \<in> u_id ` set targets" if "x \<in> set (items s)" for x
    using that t(1) ok by (auto simp: bulk_ok_def distinct_map inj_on_def)
  have plain: "u_result x = None \<and> u_description x = []" if "x \<in> set targets" for x
  proof -
    have "item_ok (nextId s) x" using that t(1) ok by (auto simp: bulk_ok_def)
    then show ?thesis using that t(3) by (simp add: item_ok_def)
  qed
  have ids1: "map u_id (map ?f (items s)) = map u_id (items s)" by simp
  have ids2: "u_id ` set (map ?f (items s)) = u_id ` set (items s)"
    using arg_cong [OF ids1, of set] unfolding set_map .
  note ids = ids1 ids2
  have "\<forall>x \<in> set (map ?f (items s)). item_ok (nextId s) x"
  proof
    fix y assume "y \<in> set (map ?f (items s))"
    then obtain x where x: "x \<in> set (items s)" "y = ?f x" unfolding set_map by blast
    have "item_ok (nextId s) x" using x ok by (simp add: bulk_ok_def)
    then show "item_ok (nextId s) y" using x plain [of x] mem [of x] by (simp add: item_ok_def)
  qed
  moreover have "\<forall>x \<in> set (map ?f (items s)). phase_item Uploading (u_id ` set targets) x"
  proof
    fix y assume "y \<in> set (map ?f (items s))"
    then obtain x where x: "x \<in> set (items s)" "y = ?f x" unfolding set_map by blast
    then show "phase_item Uploading (u_id ` set targets) y"
      using rest mem [of x] by (auto simp: phase_item_def)
  qed
  moreover have "results (map ?f (items s)) = results (items s)" by (rule results_map) simp
  moreover obtain xs where xs: "xs = map ?f (items s)" by simp
  moreover note ids
  ultimately have facts: "\<forall>x \<in> set xs. item_ok (nextId s) x" "results xs = results (items s)"
    "\<forall>x \<in> set xs. phase_item Uploading (u_id ` set targets) x"
    "map u_id xs = map u_id (items s)" "u_id ` set xs = u_id ` set (items s)"
    unfolding xs by blast+
  have eq: "items (on_items (\<lambda>x. u_id x \<in> u_id ` set targets)
        (\<lambda>x. x\<lparr> u_status := Sending, u_progress := 0, u_error := None \<rparr>) s) = xs"
    by (simp only: on_items_simps xs set_map)
  have "loop_ok ((on_items (\<lambda>x. u_id x \<in> set (map u_id targets))
        (\<lambda>x. x\<lparr> u_status := Sending, u_progress := 0, u_error := None \<rparr>) s) \<lparr> uploadState := Uploading, to_send := targets \<rparr>)"
    using facts ok t plain unfolding loop_ok_def bulk_ok_def by (simp add: image_mono eq facts del: on_items_simps(6))
  then show ?thesis using False by (simp add: startUpload_def next_target_ok)
qed (use ok in \<open>simp add: startUpload_def\<close>)

lemma answer_ok:
  assumes ok: "bulk_ok s"
  shows "bulk_ok (upload_answer r s)"
proof (cases "to_send s")
  case Nil
  then show ?thesis using ok by (simp add: upload_answer_def)
next
  case (Cons t ts)
  have st: "uploadState s = Uploading" using ok Cons by (simp add: bulk_ok_def)
  have t_ids: "distinct (map u_id (t # ts))" using ok Cons by (simp add: bulk_ok_def)
  define f where "f = (\<lambda>y :: upload_item. case r of Inl err \<Rightarrow> y\<lparr> u_status := Error, u_error := Some err \<rparr>
      | Inr doc \<Rightarrow> y\<lparr> u_status := Success, u_progress := 100, u_result := Some doc \<rparr>)"
  let ?g = "\<lambda>y. if u_id y = u_id t then f y else y"
  define xs where "xs = map ?g (items s)"
  have id_f: "u_id (f y) = u_id y" for y by (simp add: f_def split: sum.split)
  have sending: "u_status x = Sending \<longleftrightarrow> u_id x \<in> u_id ` set (t # ts)" "u_status x \<noteq> Pending" "item_ok (nextId s) x"
    if "x \<in> set (items s)" for x
    using ok that st Cons by (simp_all add: bulk_ok_def phase_item_def)
  have ids: "map u_id xs = map u_id (items s)" by (simp add: xs_def id_f)
  then have ids': "u_id ` set xs = u_id ` set (items s)" by (metis set_map)
  have facts: "item_ok (nextId s) y" "phase_item Uploading (u_id ` set ts) y" if y: "y \<in> set xs" for y
  proof -
    obtain x where x: "x \<in> set (items s)" "y = ?g x" using y unfolding xs_def set_map by blast
    show "item_ok (nextId s) y" "phase_item Uploading (u_id ` set ts) y"
      using x sending [OF x(1)] t_ids
      by (auto simp: f_def item_ok_def phase_item_def split: sum.splits)
  qed
  have none: "u_result x = None" if "x \<in> set (items s)" "u_id x = u_id t" for x
    using sending [OF that(1)] that(2) by (auto simp: item_ok_def)
  have fresh: "u_id t \<notin> fst ` set (stored s)"
  proof
    assume "u_id t \<in> fst ` set (stored s)"
    then have "u_id t \<in> fst ` results (items s)" using ok by (simp add: bulk_ok_def)
    then obtain x d where "x \<in> set (items s)" "u_id x = u_id t" "u_result x = Some d"
      by (auto simp: results_def)
    then show False using none by simp
  qed
  have member: "\<exists>x \<in> set (items s). u_id x = u_id t"
    using ok Cons by (auto simp: bulk_ok_def)
  have res: "results xs = (case r of Inl _ \<Rightarrow> results (items s) | Inr d \<Rightarrow> insert (u_id t, d) (results (items s)))"
  proof (cases r)
    case (Inl e)
    then have "results xs = results (items s)" unfolding xs_def by (intro results_map) (simp add: f_def)
    then show ?thesis using Inl by simp
  next
    case (Inr d)
    have "results xs = {(u_id x, e) |x e. x \<in> set (items s) \<and> u_result (?g x) = Some e}"
      unfolding xs_def results_of_map by (simp add: id_f if_distrib [of u_id] cong: if_cong)
    also have "\<dots> = insert (u_id t, d) (results (items s))"
      using Inr member none by (auto simp: results_def f_def split: if_splits)
    finally show ?thesis using Inr by simp
  qed
  have go: "loop_ok ((on_items (\<lambda>y. u_id y = u_id t) f s)\<lparr> to_send := ts, stored := stored s @ more \<rparr>)"
    if more: "more = (case r of Inl _ \<Rightarrow> [] | Inr d \<Rightarrow> [(u_id t, d)])" for more
  proof -
    have eq: "items (on_items (\<lambda>y. u_id y = u_id t) f s) = xs" by (simp only: on_items_simps xs_def)
    have "set (stored s @ more) = results xs" "distinct (map fst (stored s @ more))"
      using ok more res fresh by (auto simp: bulk_ok_def split: sum.splits)
    then show ?thesis
      using ok st Cons facts ids ids' t_ids unfolding loop_ok_def bulk_ok_def
      by (simp add: eq del: on_items_simps(6))
  qed
  show ?thesis
  proof (cases r)
    case (Inl e)
    have same: "(on_items q g s)\<lparr> to_send := ts, stored := stored s \<rparr> = (on_items q g s)\<lparr> to_send := ts \<rparr>" for q g
      by (cases s) (simp add: on_items_def)
    show ?thesis using go [of "[]"] Cons Inl by (simp add: upload_answer_def f_def next_target_ok same)
  next
    case (Inr d)
    then show ?thesis using go [of "[(u_id t, d)]"] Cons by (simp add: upload_answer_def f_def next_target_ok)
  qed
qed

interpretation bulk: machine bulk_step bulk_ok
proof (unfold_locales, goal_cases)
  case (1 s e)
  note ok = 1
  have queued: "bulk_ok (startUpload (items s) s)" if "uploadState s = Queued"
    using that ok by (intro start_ok) (auto simp: bulk_ok_def phase_item_def)
  have retry: "bulk_ok (retryFailed s)" if "uploadState s = Editing"
    unfolding retryFailed_def using that ok
    by (intro start_ok) (auto simp: bulk_ok_def phase_item_def distinct_map_filter)
  have upd: "bulk_ok (updateItemCategory i c s)" "bulk_ok (upload_progress n s)" for i c n
    using ok by (auto simp: updateItemCategory_def upload_progress_def split: list.split intro!: cosmetic_ok)
  have glob: "bulk_ok (applyGlobalCategory c s)" for c
  proof -
    have "bulk_ok (s\<lparr> globalCategory := c \<rparr>)" using ok by (simp add: bulk_ok_def)
    then show ?thesis unfolding applyGlobalCategory_def by (rule cosmetic_ok) simp_all
  qed
  have desc: "bulk_ok (updateItemDescription i d s)" if shown: "item_shown i s" for i d
    unfolding updateItemDescription_def
  proof (rule cosmetic_ok [OF ok])
    fix x assume x: "x \<in> set (items s)" "u_id x = i" "u_status x \<noteq> Success"
    obtain y where "y \<in> set (items s)" "u_id y = i" "u_status y = Success"
      using shown by (auto simp: item_shown_def list_ex_iff)
    then have "y = x" using x ok by (auto simp: bulk_ok_def distinct_map inj_on_def)
    then show "u_description (x\<lparr> u_description := d \<rparr>) = u_description x" using x \<open>u_status y = Success\<close> by simp
  qed simp_all
  show ?case
  proof (cases e)
    case (Files fs) then show ?thesis using ok files_ok by simp
  next
    case (Remove i) then show ?thesis using ok remove_ok by simp
  next
    case (Category c) then show ?thesis using ok glob by simp
  next
    case (Auto b)
    have "bulk_ok (s\<lparr> autoCategorizeEnabled := b \<rparr>)" using ok by (simp add: bulk_ok_def)
    then show ?thesis using ok Auto by simp
  next
    case (ItemCategory i c) then show ?thesis using ok upd by simp
  next
    case (ItemDescription i d) then show ?thesis using ok desc by simp
  next
    case Upload then show ?thesis using ok queued by simp
  next
    case (Progressed n) then show ?thesis using upd by simp
  next
    case (Answered r) then show ?thesis using ok answer_ok by simp
  next
    case Retry then show ?thesis using ok retry by simp
  next
    case Done
    have "bulk_ok (handleDone s)" using ok by (simp add: handleDone_def bulk_ok_def)
    then show ?thesis using ok Done by simp
  next
    case ClearAll
    have "\<forall>r \<in> set (requests s). snd (snd r) = []" using ok by (simp add: bulk_ok_def)
    then have "uploadState s = Queued \<Longrightarrow> bulk_ok (clear_queue s)"
      using fresh_items(2,3) [OF ok] by (simp add: clear_queue_def bulk_ok_def results_def)
    then show ?thesis using ok ClearAll by simp
  qed
qed

text \<open>In every run of the dialog no file is stored twice, the documents stored are exactly the
  results of the items, and no request carries a description: the field for it is shown only
  for files that are already stored.
\<close>

theorem bulk_upload_stores_once:
  "let s = run bulk_step es bulk_start in
     distinct (map fst (stored s)) \<and> set (stored s) = results (items s) \<and>
     filter (\<lambda>(_, _, description). description \<noteq> []) (requests s) = []"
proof -
  have "bulk_ok bulk_start" by (simp add: bulk_ok_def bulk_start_def results_def)
  then have "bulk_ok (run bulk_step es bulk_start)" by (rule bulk.every_run_inv)
  then show ?thesis by (auto simp: bulk_ok_def Let_def filter_empty_conv)
qed

text \<open>What is edited after the upload changes neither what is reported nor what is sent.\<close>

lemma edits_after_upload_lost:
  "completed (handleDone (updateItemCategory i c s)) = completed (handleDone s)"
  "completed (handleDone (updateItemDescription i d s)) = completed (handleDone s)"
  "requests (handleDone (updateItemCategory i c s)) = requests s"
  by (simp_all add: handleDone_def updateItemCategory_def updateItemDescription_def on_items_def
      List.map_filter_def filter_map comp_def if_distrib cong: if_cong)

end
