(* ===== verification/Deliverables.thy ===== *)
theory Deliverables
  imports Uploads
begin

text \<open>
  The bulk submission of deliverables by partners
  (\<open>frontend/src/components/partners/bulk-deliverable-upload.tsx\<close>) with the checks and the matching
  of \<open>deliverable-upload-types.ts\<close> and the buttons of \<open>deliverable-file-list.tsx\<close>.

  The loop submits one file per request; as in Uploads the files left are part of the state
  and an answer is an event.  While it runs the whole list is disabled.
\<close>

section \<open>Checks and matching\<close>

definition MAX_FILE_SIZE_MB :: nat where "MAX_FILE_SIZE_MB = 50"
definition MAX_FILE_SIZE_BYTES :: nat where "MAX_FILE_SIZE_BYTES = MAX_FILE_SIZE_MB * 1024 * 1024"

definition ALLOWED_MIME_TYPES :: "string list" where
  "ALLOWED_MIME_TYPES =
     [''application/pdf'', ''image/jpeg'', ''image/png'', ''image/gif'', ''image/webp'', ''application/msword'',
      ''application/vnd.openxmlformats-officedocument.wordprocessingml.document'', ''application/vnd.ms-excel'',
      ''application/vnd.openxmlformats-officedocument.spreadsheetml.sheet'', ''application/vnd.ms-powerpoint'',
      ''application/vnd.openxmlformats-officedocument.presentationml.presentation'', ''text/plain'', ''text/csv'']"

datatype file_problem = TooLarge | NotAllowed string

definition validateFile :: "upload_file \<Rightarrow> file_problem option" where
  "validateFile f =
     (if f_size f > MAX_FILE_SIZE_BYTES then Some TooLarge
      else if f_type f \<noteq> [] \<and> f_type f \<notin> set ALLOWED_MIME_TYPES then Some (NotAllowed (f_type f))
      else None)"

record assignment =
  a_id :: string
  a_title :: string
  a_status :: string

definition alnum :: "char \<Rightarrow> bool" where
  "alnum c \<longleftrightarrow> (97 \<le> code c \<and> code c \<le> 122) \<or> (48 \<le> code c \<and> code c \<le> 57)"

text \<open>\<open>split(/[^a-z0-9]+/)\<close>: the runs of letters and digits (and empty texts at the ends).\<close>

fun alnum_runs :: "string \<Rightarrow> string list" where
  "alnum_runs [] = [[]]"
| "alnum_runs (c # s) =
     (if alnum c then (case alnum_runs s of [] \<Rightarrow> [[c]] | w # ws \<Rightarrow> (c # w) # ws)
      else if s \<noteq> [] \<and> \<not> alnum (hd s) then alnum_runs s
      else [] # alnum_runs s)"

definition match_score :: "string \<Rightarrow> assignment \<Rightarrow> nat" where
  "match_score filename a =
     (let nameLower = map (\<lambda>c. if alnum c then c else CHR '' '') (lower filename);
          words = filter (\<lambda>w. 3 < length w) (alnum_runs (lower (a_title a)))
      in length (filter (\<lambda>w. str_includes w nameLower) words))"

definition better_match :: "string \<Rightarrow> assignment \<Rightarrow> string \<times> nat \<Rightarrow> string \<times> nat" where
  "better_match filename a = (\<lambda>(bestId, bestScore).
     if match_score filename a > bestScore then (a_id a, match_score filename a) else (bestId, bestScore))"

definition autoMatchAssignment :: "string \<Rightarrow> assignment list \<Rightarrow> string" where
  "autoMatchAssignment filename assignments =
     (let accepted = filter (\<lambda>a. a_status a = ''accepted'') assignments;
          (bestId, bestScore) = fold (better_match filename) accepted ([], 0)
      in if bestScore > 0 then bestId else (case accepted of [] \<Rightarrow> [] | a # _ \<Rightarrow> a_id a))"

text \<open>\<open>name.replace(/\.[^.]+$/, "")\<close>: without the last dot and what follows, if something does.\<close>

definition without_extension :: "string \<Rightarrow> string" where
  "without_extension s =
     (let r = rev s; ext = takeWhile (\<lambda>c. c \<noteq> CHR ''.'') r; rest = dropWhile (\<lambda>c. c \<noteq> CHR ''.'') r in
      if ext \<noteq> [] \<and> rest \<noteq> [] then rev (tl rest) else s)"

section \<open>The queue\<close>

datatype dstatus = DPending | DUploading | DSuccess | DError | DInvalid

record queue_item =
  q_id :: nat
  q_file :: upload_file
  q_assignment :: string
  q_title :: string
  q_notes :: string
  q_status :: dstatus
  q_error :: "string option"
  q_problem :: "file_problem option"
  q_deliverable :: "string option"
  q_expanded :: bool

text \<open>\<open>total\<close> is the number of files of the running or last round, for the theorems.\<close>

record deliverables =
  dq :: "queue_item list"
  isUploading :: bool
  uploadProgress :: int
  summary :: "(nat \<times> nat) option"
  pending :: "queue_item list"
  succeeded :: nat
  failed :: nat
  dq_next :: nat
  submitted :: "(nat \<times> string \<times> string \<times> string) list"
  reports :: "(nat \<times> nat) list"
  refused :: bool
  total :: nat

definition deliverables_start :: deliverables where
  "deliverables_start =
     \<lparr> dq = [], isUploading = False, uploadProgress = 0, summary = None, pending = [], succeeded = 0, failed = 0,
       dq_next = 0, submitted = [], reports = [], refused = False, total = 0 \<rparr>"

definition queue_file :: "assignment list \<Rightarrow> nat \<Rightarrow> upload_file \<Rightarrow> queue_item" where
  "queue_file accepted i f =
     \<lparr> q_id = i, q_file = f, q_assignment = autoMatchAssignment (f_name f) accepted,
       q_title = without_extension (f_name f), q_notes = [],
       q_status = (if validateFile f = None then DPending else DInvalid), q_error = None,
       q_problem = validateFile f, q_deliverable = None, q_expanded = False \<rparr>"

definition addFiles :: "assignment list \<Rightarrow> upload_file list \<Rightarrow> deliverables \<Rightarrow> deliverables" where
  "addFiles assignments files s =
     (let accepted = filter (\<lambda>a. a_status a = ''accepted'') assignments in
      s\<lparr> dq := dq s @ map (\<lambda>(i, f). queue_file accepted i f) (enumerate (dq_next s) files),
         dq_next := dq_next s + length files \<rparr>)"

definition dq_remove :: "nat \<Rightarrow> deliverables \<Rightarrow> deliverables" where
  "dq_remove i s = s\<lparr> dq := filter (\<lambda>x. q_id x \<noteq> i) (dq s) \<rparr>"

definition updateItem :: "nat \<Rightarrow> (queue_item \<Rightarrow> queue_item) \<Rightarrow> deliverables \<Rightarrow> deliverables" where
  "updateItem i patch s = s\<lparr> dq := map (\<lambda>x. if q_id x = i then patch x else x) (dq s) \<rparr>"

definition ready :: "queue_item \<Rightarrow> bool" where
  "ready x \<longleftrightarrow> q_status x = DPending \<and> q_assignment x \<noteq> []"

text \<open>The head of the loop for the next file, or its end.\<close>

definition next_file :: "deliverables \<Rightarrow> deliverables" where
  "next_file s =
     (case pending s of
        [] \<Rightarrow> s\<lparr> isUploading := False, summary := Some (succeeded s, failed s),
                reports := reports s @ [(succeeded s, failed s)] \<rparr>
      | x # xs \<Rightarrow> (updateItem (q_id x) (q_status_update (\<lambda>_. DUploading)) s)
        \<lparr> submitted := submitted s @
            [(q_id x, q_assignment x, if q_title x \<noteq> [] then q_title x else f_name (q_file x), q_notes x)] \<rparr>)"

definition handleUpload :: "deliverables \<Rightarrow> deliverables" where
  "handleUpload s =
     (let uploadable = filter ready (dq s) in
      if uploadable = [] then s\<lparr> refused := True \<rparr>
      else next_file (s\<lparr> isUploading := True, summary := None, uploadProgress := 0, pending := uploadable,
             succeeded := 0, failed := 0, total := length uploadable \<rparr>))"

text \<open>\<open>Math.round(100 * done / all)\<close>: halves round up.\<close>

definition percent_done :: "nat \<Rightarrow> nat \<Rightarrow> int" where
  "percent_done k n = (200 * int k + int n) div (2 * int n)"

text \<open>The answer: no connection, or a refusal with its message, or the id of the deliverable.\<close>

datatype submit_answer = NoAnswer | Refused "string option" | Accepted "string option"

definition mark_answer :: "submit_answer \<Rightarrow> queue_item \<Rightarrow> queue_item" where
  "mark_answer r x =
     (case r of
        NoAnswer \<Rightarrow> x\<lparr> q_status := DError, q_error := Some (''Network error '' @ [CHR 0xE2, CHR 0x80, CHR 0x94] @ '' please try again'') \<rparr>
      | Refused e \<Rightarrow> x\<lparr> q_status := DError, q_error := Some (case e of None \<Rightarrow> ''Upload failed'' | Some m \<Rightarrow> m) \<rparr>
      | Accepted d \<Rightarrow> x\<lparr> q_status := DSuccess, q_deliverable := d, q_error := None \<rparr>)"

definition submit_answered :: "submit_answer \<Rightarrow> deliverables \<Rightarrow> deliverables" where
  "submit_answered r s =
     (case pending s of
        [] \<Rightarrow> s
      | x # xs \<Rightarrow>
          (let ok = (case r of Accepted _ \<Rightarrow> True | _ \<Rightarrow> False);
               s = (updateItem (q_id x) (mark_answer r) s)
                 \<lparr> succeeded := succeeded s + (if ok then 1 else 0), failed := failed s + (if ok then 0 else 1),
                   uploadProgress := percent_done (succeeded s + failed s + 1) (total s), pending := xs \<rparr>
           in next_file s))"

datatype edit = Assign string | Title string | Notes string

fun patch_of :: "edit \<Rightarrow> queue_item \<Rightarrow> queue_item" where
  "patch_of (Assign a) x = x\<lparr> q_assignment := a \<rparr>"
| "patch_of (Title t) x = x\<lparr> q_title := t \<rparr>"
| "patch_of (Notes n) x = x\<lparr> q_notes := n \<rparr>"

datatype deliverable_event =
  AddFiles "assignment list" "upload_file list"
| RemoveFile nat
| EditFile nat edit
| Expand nat
| ClearFiles
| Submit
| SubmitAnswered submit_answer

definition status_of :: "nat \<Rightarrow> deliverables \<Rightarrow> dstatus option" where
  "status_of i s = map_option q_status (find_first (\<lambda>x. q_id x = i) (dq s))"

definition all_done :: "deliverables \<Rightarrow> bool" where
  "all_done s \<longleftrightarrow> dq s \<noteq> [] \<and> list_all (\<lambda>x. q_status x \<in> {DSuccess, DError, DInvalid}) (dq s)"

fun deliverable_step :: "deliverables \<Rightarrow> deliverable_event \<Rightarrow> deliverables" where
  "deliverable_step s (AddFiles as fs) = (if isUploading s then s else addFiles as fs s)"
| "deliverable_step s (RemoveFile i) =
     (if \<not> isUploading s \<and> status_of i s \<noteq> Some DSuccess \<and> status_of i s \<noteq> Some DUploading then dq_remove i s else s)"
| "deliverable_step s (EditFile i e) =
     (if \<not> isUploading s \<and> status_of i s = Some DPending then updateItem i (patch_of e) s else s)"
| "deliverable_step s (Expand i) = updateItem i (\<lambda>x. x\<lparr> q_expanded := \<not> q_expanded x \<rparr>) s"
| "deliverable_step s ClearFiles = (if \<not> isUploading s \<and> \<not> all_done s then s\<lparr> dq := [] \<rparr> else s)"
| "deliverable_step s Submit =
     (if \<not> isUploading s \<and> filter ready (dq s) \<noteq> [] then handleUpload s else s)"
| "deliverable_step s (SubmitAnswered r) = submit_answered r s"

section \<open>The best match\<close>

definition accepted_of :: "assignment list \<Rightarrow> assignment list" where
  "accepted_of as = filter (\<lambda>a. a_status a = ''accepted'') as"

lemma best_fold:
  "fold (better_match f) as (i, n) =
     (let m = Max (insert n (match_score f ` set as)) in
      (if m = n then i else a_id (hd (filter (\<lambda>a. match_score f a = m) as)), m))"
proof (induction as arbitrary: i n)
  case (Cons a as)
  let ?S = "match_score f ` set as" and ?n = "max n (match_score f a)"
  have M: "Max (insert n (match_score f ` set (a # as))) = Max (insert ?n ?S)"
    by (cases "?S = {}") (simp_all add: max.assoc max.left_commute)
  have ge: "?n \<le> Max (insert ?n ?S)" by (rule Max_ge) auto
  show ?case
  proof (cases "match_score f a > n")
    case True
    then have n: "?n = match_score f a" by simp
    have "fold (better_match f) (a # as) (i, n) = fold (better_match f) as (a_id a, match_score f a)"
      using True by (simp add: better_match_def)
    moreover have "Max (insert (match_score f a) ?S) \<noteq> n" using True ge unfolding n by linarith
    ultimately show ?thesis
      using True Cons.IH [of "a_id a" "match_score f a"] unfolding M unfolding n Let_def by auto
  next
    case False
    then have n: "?n = n" by simp
    have "fold (better_match f) (a # as) (i, n) = fold (better_match f) as (i, n)"
      using False by (simp add: better_match_def)
    moreover have "n \<le> Max (insert n ?S)" by (rule Max_ge) auto
    then have "Max (insert n ?S) \<noteq> n \<Longrightarrow> match_score f a \<noteq> Max (insert n ?S)" using False by linarith
    ultimately show ?thesis
      using Cons.IH [of i n] unfolding M unfolding n Let_def by auto
  qed
qed simp

text \<open>The match is the first accepted assignment of the highest score, also when no word of any
  title occurs in the name.\<close>

theorem best_match:
  "autoMatchAssignment f as =
     (let acc = accepted_of as in
      if acc = [] then [] else a_id (hd (filter (\<lambda>a. match_score f a = Max (match_score f ` set acc)) acc)))"
proof (cases "accepted_of as")
  case Nil
  then show ?thesis by (simp add: autoMatchAssignment_def accepted_of_def [symmetric])
next
  case (Cons a acc)
  let ?S = "match_score f ` set (accepted_of as)"
  have M: "Max (insert 0 ?S) = Max ?S" using Cons by simp
  have zero: "match_score f a = 0" if "Max ?S = 0"
  proof -
    have "match_score f a \<le> Max ?S" using Cons by (intro Max_ge) auto
    then show ?thesis using that by simp
  qed
  show ?thesis using zero
    by (auto simp: autoMatchAssignment_def Let_def accepted_of_def [symmetric] best_fold M Cons)
qed

section \<open>Nothing is submitted twice\<close>

definition d_item :: "deliverables \<Rightarrow> queue_item \<Rightarrow> bool" where
  "d_item s x \<longleftrightarrow> q_id x < dq_next s \<and>
     (q_id x \<in> fst ` set (submitted s) \<longleftrightarrow> q_status x \<in> {DUploading, DSuccess, DError}) \<and>
     (q_status x = DUploading \<longrightarrow> pending s \<noteq> [] \<and> q_id x = q_id (hd (pending s)))"

definition d_base :: "deliverables \<Rightarrow> bool" where
  "d_base s \<longleftrightarrow>
     distinct (map q_id (dq s)) \<and> distinct (map fst (submitted s)) \<and> (\<forall>r \<in> set (submitted s). fst r < dq_next s) \<and>
     distinct (map q_id (pending s)) \<and> (\<forall>x \<in> set (pending s). q_id x < dq_next s) \<and>
     (\<forall>k l. summary s = Some (k, l) \<longrightarrow> k + l = total s) \<and>
     (isUploading s \<longrightarrow> summary s = None \<and> succeeded s + failed s + length (pending s) = total s)"

definition d_ok :: "deliverables \<Rightarrow> bool" where
  "d_ok s \<longleftrightarrow> d_base s \<and> (\<forall>x \<in> set (dq s). d_item s x) \<and> (pending s \<noteq> [] \<longleftrightarrow> isUploading s) \<and>
     (pending s \<noteq> [] \<longrightarrow> q_id (hd (pending s)) \<in> fst ` set (submitted s)) \<and>
     (\<forall>x \<in> set (tl (pending s)). q_id x \<notin> fst ` set (submitted s))"

text \<open>Between two turns of the loop no file is being sent.\<close>

definition d_mid :: "deliverables \<Rightarrow> bool" where
  "d_mid s \<longleftrightarrow> d_base s \<and> isUploading s \<and>
     (\<forall>x \<in> set (dq s). d_item s x \<and> q_status x \<noteq> DUploading) \<and>
     (\<forall>x \<in> set (pending s). q_id x \<notin> fst ` set (submitted s))"

lemma update_ids:
  assumes "\<And>x. q_id (f x) = q_id x"
  shows "map q_id (dq (updateItem i f s)) = map q_id (dq s)"
  using assms by (simp add: updateItem_def)

lemma updateItem_simps [simp]:
  "pending (updateItem i f s) = pending s" "submitted (updateItem i f s) = submitted s"
  "isUploading (updateItem i f s) = isUploading s" "summary (updateItem i f s) = summary s"
  "succeeded (updateItem i f s) = succeeded s" "failed (updateItem i f s) = failed s"
  "total (updateItem i f s) = total s" "dq_next (updateItem i f s) = dq_next s"
  by (simp_all add: updateItem_def)

lemma in_updateItem: "y \<in> set (dq (updateItem i f s)) \<Longrightarrow> \<exists>x \<in> set (dq s). y = (if q_id x = i then f x else x)"
  by (auto simp: updateItem_def)

lemma next_file_ok:
  assumes mid: "d_mid s"
  shows "d_ok (next_file s)"
proof (cases "pending s")
  case Nil
  then show ?thesis using mid
    by (auto simp: next_file_def d_ok_def d_mid_def d_base_def d_item_def)
next
  case (Cons x xs)
  let ?u = "updateItem (q_id x) (q_status_update (\<lambda>_. DUploading)) s"
  let ?r = "(q_id x, q_assignment x, if q_title x \<noteq> [] then q_title x else f_name (q_file x), q_notes x)"
  let ?s = "?u\<lparr> submitted := submitted s @ [?r] \<rparr>"
  have "next_file s = ?s" using Cons by (simp add: next_file_def)
  moreover have "d_base ?s"
  proof -
    have "map q_id (dq ?u) = map q_id (dq s)" by (rule update_ids) simp
    then show ?thesis using mid Cons by (auto simp: d_mid_def d_base_def)
  qed
  moreover have "d_item ?s y" if y: "y \<in> set (dq ?s)" for y
  proof -
    obtain z where z: "z \<in> set (dq s)" "y = (if q_id z = q_id x then z\<lparr> q_status := DUploading \<rparr> else z)"
      using y in_updateItem [of y "q_id x" "q_status_update (\<lambda>_. DUploading)" s] by auto
    have "d_item s z" "q_status z \<noteq> DUploading" using mid z(1) by (auto simp: d_mid_def)
    then show ?thesis using z(2) Cons by (auto simp: d_item_def)
  qed
  moreover have "isUploading ?s \<and> pending ?s \<noteq> []" using mid Cons by (simp add: d_mid_def)
  moreover have "q_id (hd (pending ?s)) \<in> fst ` set (submitted ?s)" using Cons by simp
  moreover have "\<forall>y \<in> set (tl (pending ?s)). q_id y \<notin> fst ` set (submitted ?s)"
  proof -
    have "q_id x \<notin> q_id ` set xs" "\<forall>y \<in> set xs. q_id y \<notin> fst ` set (submitted s)"
      using mid Cons by (simp_all add: d_mid_def d_base_def)
    then show ?thesis using Cons by auto (metis image_eqI)
  qed
  ultimately show ?thesis unfolding d_ok_def by (metis (no_types, lifting))
qed

lemma idle_items: "d_ok s \<Longrightarrow> \<not> isUploading s \<Longrightarrow> x \<in> set (dq s) \<Longrightarrow> q_status x \<noteq> DUploading"
  by (auto simp: d_ok_def d_item_def)

lemma upload_ok:
  assumes ok: "d_ok s" and idle: "\<not> isUploading s" and some: "filter ready (dq s) \<noteq> []"
  shows "d_ok (handleUpload s)"
proof -
  let ?s = "s\<lparr> isUploading := True, summary := None, uploadProgress := 0, pending := filter ready (dq s),
      succeeded := 0, failed := 0, total := length (filter ready (dq s)) \<rparr>"
  have "d_item ?s x \<and> q_status x \<noteq> DUploading" if "x \<in> set (dq s)" for x
    using ok idle_items [OF ok idle that] that by (auto simp: d_ok_def d_item_def)
  moreover have "q_id x \<notin> fst ` set (submitted s)" "q_id x < dq_next s" if "x \<in> set (dq s)" "ready x" for x
    using ok that by (auto simp: d_ok_def d_item_def ready_def)
  moreover have "distinct (map q_id (filter ready (dq s)))"
    using ok by (simp add: d_ok_def d_base_def distinct_map_filter)
  ultimately have "d_mid ?s" using ok by (simp add: d_mid_def d_base_def d_ok_def)
  then show ?thesis using some next_file_ok by (simp add: handleUpload_def Let_def)
qed

lemma submit_answered_ok:
  assumes ok: "d_ok s"
  shows "d_ok (submit_answered r s)"
proof (cases "pending s")
  case Nil
  then show ?thesis using ok by (simp add: submit_answered_def)
next
  case (Cons x xs)
  let ?u = "updateItem (q_id x) (mark_answer r) s"
  define b where "b = (case r of Accepted _ \<Rightarrow> True | _ \<Rightarrow> False)"
  let ?s = "?u\<lparr> succeeded := succeeded s + (if b then 1 else 0), failed := failed s + (if b then 0 else 1),
      uploadProgress := percent_done (succeeded s + failed s + 1) (total s), pending := xs \<rparr>"
  have up: "isUploading s" using ok Cons by (simp add: d_ok_def)
  have mark: "q_id (mark_answer r y) = q_id y" "q_status (mark_answer r y) \<in> {DSuccess, DError}" for y
    by (auto simp: mark_answer_def split: submit_answer.split)
  have "map q_id (dq ?u) = map q_id (dq s)" by (rule update_ids) (rule mark(1))
  then have "d_base ?s" using ok Cons up by (auto simp: d_ok_def d_base_def)
  moreover have "d_item ?s y \<and> q_status y \<noteq> DUploading" if y: "y \<in> set (dq ?s)" for y
  proof -
    obtain z where z: "z \<in> set (dq s)" "y = (if q_id z = q_id x then mark_answer r z else z)"
      using y in_updateItem [of y "q_id x" "mark_answer r" s] by auto
    have dz: "d_item s z" using ok z(1) by (simp add: d_ok_def)
    show ?thesis
    proof (cases "q_id z = q_id x")
      case True
      have "q_id x \<in> fst ` set (submitted s)"
        using ok Cons by (simp add: d_ok_def)
      then show ?thesis using True z(2) dz mark [of z] by (auto simp: d_item_def)
    next
      case False
      then show ?thesis using z(2) dz Cons by (auto simp: d_item_def)
    qed
  qed
  moreover have "\<forall>y \<in> set xs. q_id y \<notin> fst ` set (submitted s)" using ok Cons by (simp add: d_ok_def)
  ultimately have "d_mid ?s" using up by (simp add: d_mid_def)
  then show ?thesis using Cons next_file_ok by (simp add: submit_answered_def Let_def b_def)
qed

lemma add_files_ok:
  assumes ok: "d_ok s" and idle: "\<not> isUploading s"
  shows "d_ok (addFiles as fs s)"
proof -
  let ?acc = "filter (\<lambda>a. a_status a = ''accepted'') as"
  let ?new = "map (\<lambda>(i, f). queue_file ?acc i f) (enumerate (dq_next s) fs)"
  have ids: "map q_id ?new = [dq_next s..<dq_next s + length fs]"
    by (rule nth_equalityI) (simp_all add: nth_enumerate_eq queue_file_def)
  have below: "\<forall>r \<in> set (submitted s). fst r < dq_next s" "\<forall>x \<in> set (dq s). q_id x < dq_next s"
    using ok by (auto simp: d_ok_def d_base_def d_item_def)
  have "distinct (map q_id (dq s @ ?new))"
    using ok below(2) unfolding map_append ids by (auto simp: d_ok_def d_base_def)
  moreover have "d_item (addFiles as fs s) x" if x: "x \<in> set (dq s @ ?new)" for x
  proof -
    consider "x \<in> set (dq s)" | "x \<in> set ?new" using x unfolding set_append by blast
    then show ?thesis
    proof cases
      case 1
      then have "d_item s x" using ok by (simp add: d_ok_def)
      then show ?thesis by (auto simp: d_item_def addFiles_def Let_def)
    next
      case 2
      then have "q_id x \<in> set (map q_id ?new)" unfolding set_map [of q_id] by (rule imageI)
      then have "dq_next s \<le> q_id x" "q_id x < dq_next s + length fs" unfolding ids by auto
      moreover have "q_status x \<in> {DPending, DInvalid}" using 2 by (auto simp: queue_file_def split: if_splits)
      ultimately show ?thesis using below(1) by (auto simp: d_item_def addFiles_def Let_def)
    qed
  qed
  ultimately show ?thesis using ok idle below
    unfolding d_ok_def d_base_def addFiles_def Let_def by (simp add: trans_less_add1)
qed

lemma keep_items_ok:
  assumes ok: "d_ok s" and idle: "\<not> isUploading s" and sub: "set xs \<subseteq> set (dq s)" "distinct (map q_id xs)"
  shows "d_ok (s\<lparr> dq := xs \<rparr>)"
  using assms by (auto simp: d_ok_def d_base_def d_item_def)

lemma patch_ok:
  assumes ok: "d_ok s" and f: "\<And>x. q_id (f x) = q_id x" "\<And>x. q_status (f x) = q_status x"
  shows "d_ok (updateItem i f s)"
proof -
  have "map q_id (dq (updateItem i f s)) = map q_id (dq s)" by (rule update_ids) (rule f)
  moreover have "d_item (updateItem i f s) y" if y: "y \<in> set (dq (updateItem i f s))" for y
  proof -
    obtain x where x: "x \<in> set (dq s)" "y = (if q_id x = i then f x else x)"
      using in_updateItem [OF y] by blast
    have "d_item s x" using ok x by (simp add: d_ok_def)
    then show ?thesis using x(2) f by (auto simp: d_item_def)
  qed
  ultimately show ?thesis using ok by (simp add: d_ok_def d_base_def)
qed

interpretation deliverables: machine deliverable_step d_ok
proof (unfold_locales, goal_cases)
  case (1 s e)
  note ok = 1
  have dist: "distinct (map q_id (dq s))" using ok by (simp add: d_ok_def d_base_def)
  have patch: "q_id (patch_of p x) = q_id x" "q_status (patch_of p x) = q_status x" for p x
    by (cases p; simp)+
  show ?case
  proof (cases e)
    case (AddFiles as fs) then show ?thesis using ok add_files_ok by simp
  next
    case (RemoveFile i)
    have "\<not> isUploading s \<Longrightarrow> d_ok (dq_remove i s)" unfolding dq_remove_def
      by (rule keep_items_ok [OF ok]) (auto simp: distinct_map_filter dist)
    then show ?thesis using ok RemoveFile by simp
  next
    case (EditFile i p) then show ?thesis using ok patch_ok [OF ok patch] by simp
  next
    case (Expand i)
    have "d_ok (updateItem i (\<lambda>x. x\<lparr> q_expanded := \<not> q_expanded x \<rparr>) s)" by (rule patch_ok [OF ok]) simp_all
    then show ?thesis using Expand by simp
  next
    case ClearFiles
    have "\<not> isUploading s \<Longrightarrow> d_ok (s\<lparr> dq := [] \<rparr>)" by (rule keep_items_ok [OF ok]) simp_all
    then show ?thesis using ok ClearFiles by simp
  next
    case Submit then show ?thesis using ok upload_ok by simp
  next
    case (SubmitAnswered r) then show ?thesis using submit_answered_ok [OF ok] by simp
  qed
qed

text \<open>
  In every run no file is submitted twice, a failed one included, and the numbers of a
  summary add up to the files of its round.
\<close>

theorem deliverables_submitted_once:
  "let s = run deliverable_step es deliverables_start in
     distinct (map fst (submitted s)) \<and>
     (case summary s of None \<Rightarrow> True | Some (k, l) \<Rightarrow> k + l = total s)"
proof -
  have "d_ok deliverables_start" by (simp add: d_ok_def d_base_def deliverables_start_def)
  then have "d_ok (run deliverable_step es deliverables_start)" by (rule deliverables.every_run_inv)
  then show ?thesis by (auto simp: d_ok_def d_base_def Let_def split: option.split)
qed

text \<open>A file whose submission failed is not ready again, whatever is edited.\<close>

lemma failed_not_ready: "q_status x = DError \<Longrightarrow> \<not> ready (patch_of p x)"
  by (cases p) (simp_all add: ready_def)

lemma failed_not_editable:
  "status_of i s = Some DError \<Longrightarrow> deliverable_step s (EditFile i p) = s"
  by simp

end
