(* ===== verification/SplitView.thy ===== *)
theory SplitView
  imports JsNumbers Machines
begin

text \<open>
  The split view: the provider of \<open>hooks/use-split-view.tsx\<close>, which keeps its state in the
  query string, and the container, the panels, the resize handle and the buttons of
  \<open>components/layout/split-view-toggle.tsx\<close> and \<open>split-view.tsx\<close>.

  The query string is the list of its decoded pairs.  A ratio is a rational number.  The address is
  replaced at once; what another navigation writes to it is the event \<open>Navigated\<close>.
\<close>

section \<open>Panels and the query string\<close>

text \<open>The type of an entity is a string here: the cast in the parser checks nothing.\<close>

record panel =
  entityType :: string
  entityId :: string
  panel_title :: "string option"

definition MIN_SPLIT_RATIO :: rat where "MIN_SPLIT_RATIO = 1/5"
definition MAX_SPLIT_RATIO :: rat where "MAX_SPLIT_RATIO = 4/5"
definition DEFAULT_SPLIT_RATIO :: rat where "DEFAULT_SPLIT_RATIO = 1/2"

definition read_panel :: "string \<Rightarrow> panel option" where
  "read_panel s =
     (case split_on (CHR '':'') s of
        t # i # _ \<Rightarrow> if t \<noteq> [] \<and> i \<noteq> [] then Some \<lparr> entityType = t, entityId = i, panel_title = None \<rparr> else None
      | _ \<Rightarrow> None)"

definition nth_panel :: "nat \<Rightarrow> string \<Rightarrow> panel option" where
  "nth_panel i s =
     (let ws = split_on (CHR '','') s in if i < length ws then read_panel (ws ! i) else None)"

definition read_ratio :: "string option \<Rightarrow> rat" where
  "read_ratio t =
     (case t of
        None \<Rightarrow> DEFAULT_SPLIT_RATIO
      | Some s \<Rightarrow>
          (case parse_float s of
             Some r \<Rightarrow> if MIN_SPLIT_RATIO \<le> r \<and> r \<le> MAX_SPLIT_RATIO then r else DEFAULT_SPLIT_RATIO
           | None \<Rightarrow> DEFAULT_SPLIT_RATIO))"

definition parseSplitParams :: "params \<Rightarrow> panel option \<times> panel option \<times> rat" where
  "parseSplitParams ps =
     (let panels = (case map_of ps ''split'' of
            Some s \<Rightarrow> if s = [] then (None, None) else (nth_panel 0 s, nth_panel 1 s)
          | None \<Rightarrow> (None, None))
      in (fst panels, snd panels, read_ratio (map_of ps ''ratio'')))"

definition panel_text :: "panel \<Rightarrow> string" where
  "panel_text p = entityType p @ '':'' @ entityId p"

definition buildSplitUrl :: "panel option \<Rightarrow> panel option \<Rightarrow> rat \<Rightarrow> params \<Rightarrow> params" where
  "buildSplitUrl l r ratio ps =
     (case (l, r) of
        (Some l, Some r) \<Rightarrow>
          (let ps = params_set ''split'' (panel_text l @ '','' @ panel_text r) ps
           in if ratio \<noteq> DEFAULT_SPLIT_RATIO then params_set ''ratio'' (to_fixed 2 ratio) ps
              else params_delete ''ratio'' ps)
      | _ \<Rightarrow> params_delete ''ratio'' (params_delete ''split'' ps))"

section \<open>The provider\<close>

record split_view =
  sv_left :: "panel option"
  sv_right :: "panel option"
  sv_ratio :: rat
  sv_sync :: bool
  sv_path :: string
  sv_params :: params

definition sv_mount :: "string \<Rightarrow> params \<Rightarrow> split_view" where
  "sv_mount path ps =
     (let (l, r, ratio) = parseSplitParams ps
      in \<lparr> sv_left = l, sv_right = r, sv_ratio = ratio, sv_sync = False, sv_path = path, sv_params = ps \<rparr>)"

definition isSplitView :: "split_view \<Rightarrow> bool" where
  "isSplitView s \<longleftrightarrow> sv_left s \<noteq> None \<and> sv_right s \<noteq> None"

definition updateUrl :: "bool \<Rightarrow> panel option \<Rightarrow> panel option \<Rightarrow> rat \<Rightarrow> split_view \<Rightarrow> split_view" where
  "updateUrl syncWithUrl l r ratio s =
     (if syncWithUrl then s\<lparr> sv_params := buildSplitUrl l r ratio (sv_params s) \<rparr> else s)"

datatype side = LeftSide | RightSide

definition enterSplitView :: "bool \<Rightarrow> panel \<Rightarrow> panel \<Rightarrow> rat \<Rightarrow> split_view \<Rightarrow> split_view" where
  "enterSplitView u l r ratio s =
     (let c = clamp MIN_SPLIT_RATIO MAX_SPLIT_RATIO ratio
      in updateUrl u (Some l) (Some r) c (s\<lparr> sv_left := Some l, sv_right := Some r, sv_ratio := c \<rparr>))"

definition exitSplitView :: "bool \<Rightarrow> split_view \<Rightarrow> split_view" where
  "exitSplitView u s = updateUrl u (sv_left s) None (sv_ratio s) (s\<lparr> sv_right := None \<rparr>)"

definition swapPanels :: "bool \<Rightarrow> split_view \<Rightarrow> split_view" where
  "swapPanels u s =
     (if sv_left s = None \<or> sv_right s = None then s
      else updateUrl u (sv_right s) (sv_left s) (1 - sv_ratio s)
        (s\<lparr> sv_left := sv_right s, sv_right := sv_left s, sv_ratio := 1 - sv_ratio s \<rparr>))"

definition closePanel :: "bool \<Rightarrow> side \<Rightarrow> split_view \<Rightarrow> split_view" where
  "closePanel u d s =
     (case d of
        LeftSide \<Rightarrow>
          (if sv_right s \<noteq> None
           then updateUrl u (sv_right s) None (sv_ratio s) (s\<lparr> sv_left := sv_right s, sv_right := None \<rparr>)
           else updateUrl u None None (sv_ratio s) (s\<lparr> sv_left := None \<rparr>))
      | RightSide \<Rightarrow> updateUrl u (sv_left s) None (sv_ratio s) (s\<lparr> sv_right := None \<rparr>))"

definition setSplitRatio :: "bool \<Rightarrow> rat \<Rightarrow> split_view \<Rightarrow> split_view" where
  "setSplitRatio u ratio s =
     (let c = clamp MIN_SPLIT_RATIO MAX_SPLIT_RATIO ratio
      in updateUrl u (sv_left s) (sv_right s) c (s\<lparr> sv_ratio := c \<rparr>))"

definition toggleSyncScroll :: "split_view \<Rightarrow> split_view" where
  "toggleSyncScroll s = s\<lparr> sv_sync := \<not> sv_sync s \<rparr>"

definition updatePanel :: "bool \<Rightarrow> side \<Rightarrow> panel \<Rightarrow> split_view \<Rightarrow> split_view" where
  "updatePanel u d p s =
     (case d of
        LeftSide \<Rightarrow> updateUrl u (Some p) (sv_right s) (sv_ratio s) (s\<lparr> sv_left := Some p \<rparr>)
      | RightSide \<Rightarrow> updateUrl u (sv_left s) (Some p) (sv_ratio s) (s\<lparr> sv_right := Some p \<rparr>))"

definition setLeftPanel :: "bool \<Rightarrow> panel option \<Rightarrow> split_view \<Rightarrow> split_view" where
  "setLeftPanel u p s =
     (if p \<noteq> None \<and> sv_right s \<noteq> None
      then updateUrl u p (sv_right s) (sv_ratio s) (s\<lparr> sv_left := p \<rparr>)
      else updateUrl u p None (sv_ratio s) (s\<lparr> sv_left := p \<rparr>))"

definition setRightPanel :: "bool \<Rightarrow> panel option \<Rightarrow> split_view \<Rightarrow> split_view" where
  "setRightPanel u p s = updateUrl u (sv_left s) p (sv_ratio s) (s\<lparr> sv_right := p \<rparr>)"

datatype split_event =
  EnterSplit panel panel rat
| ExitSplit
| Swap
| Close side
| Ratio rat
| SyncScroll
| UpdatePanel side panel
| SetLeft "panel option"
| SetRight "panel option"
| Navigated string params

fun split_step :: "bool \<Rightarrow> split_view \<Rightarrow> split_event \<Rightarrow> split_view" where
  "split_step u s (EnterSplit l r ratio) = enterSplitView u l r ratio s"
| "split_step u s ExitSplit = exitSplitView u s"
| "split_step u s Swap = swapPanels u s"
| "split_step u s (Close d) = closePanel u d s"
| "split_step u s (Ratio r) = setSplitRatio u r s"
| "split_step u s SyncScroll = toggleSyncScroll s"
| "split_step u s (UpdatePanel d p) = updatePanel u d p s"
| "split_step u s (SetLeft p) = setLeftPanel u p s"
| "split_step u s (SetRight p) = setRightPanel u p s"
| "split_step u s (Navigated path ps) = s\<lparr> sv_path := path, sv_params := ps \<rparr>"

section \<open>Views and buttons\<close>

text \<open>The two tables: a type they do not know has no path and no label.\<close>

definition getEntityPath :: "string \<Rightarrow> string \<Rightarrow> string option" where
  "getEntityPath t i =
     map_of [(''client'', ''/clients/'' @ i), (''program'', ''/programs/'' @ i), (''partner'', ''/partners/'' @ i),
       (''task'', ''/tasks?task='' @ i), (''message'', ''/communications?message='' @ i),
       (''deliverable'', ''/deliverables/'' @ i)] t"

definition getEntityLabel :: "string \<Rightarrow> string option" where
  "getEntityLabel t =
     map_of [(''client'', ''Client''), (''program'', ''Program''), (''partner'', ''Partner''), (''task'', ''Task''),
       (''message'', ''Message''), (''deliverable'', ''Deliverable'')] t"

text \<open>What the container shows: the page itself, or for each side its width in percent and the
  address its frame loads.  This is the container the dashboard mounts.\<close>

datatype shown_panel = NoContent | Frame "string option"

definition shown_in :: "panel option \<Rightarrow> shown_panel" where
  "shown_in p = (case p of None \<Rightarrow> NoContent | Some p \<Rightarrow> Frame (getEntityPath (entityType p) (entityId p)))"

definition SplitViewContainer :: "split_view \<Rightarrow> ((int \<times> shown_panel) \<times> (int \<times> shown_panel)) option" where
  "SplitViewContainer s =
     (if \<not> isSplitView s then None
      else Some ((math_round (sv_ratio s * 100), shown_in (sv_left s)),
                 (math_round ((1 - sv_ratio s) * 100), shown_in (sv_right s))))"

definition select_panel :: panel where
  "select_panel = \<lparr> entityType = ''client'', entityId = ''select'', panel_title = Some ''Select panel'' \<rparr>"

text \<open>The toggle button of an entity, and its menu item.\<close>

definition toggle_click :: "bool \<Rightarrow> panel \<Rightarrow> split_view \<Rightarrow> split_view" where
  "toggle_click u p s =
     (if isSplitView s then exitSplitView u s
      else if sv_left s \<noteq> None then setRightPanel u (Some p) s
      else enterSplitView u p select_panel DEFAULT_SPLIT_RATIO s)"

definition open_in_split :: "bool \<Rightarrow> panel \<Rightarrow> split_view \<Rightarrow> split_view" where
  "open_in_split u p s =
     (if isSplitView s \<and> sv_left s \<noteq> None then setRightPanel u (Some p) s
      else case sv_left s of
        Some l \<Rightarrow> enterSplitView u l p DEFAULT_SPLIT_RATIO s
      | None \<Rightarrow> enterSplitView u p select_panel DEFAULT_SPLIT_RATIO s)"

text \<open>The handle between the panels: while the button is down, the pointer sets the ratio.
  \<open>x0\<close> and \<open>w\<close> are the left edge and the width of the container.\<close>

record handle =
  isDragging :: bool
  col_cursor :: bool

datatype handle_event = HandleDown | PointerMove rat | PointerUp

definition handle_step ::
    "rat \<Rightarrow> rat \<Rightarrow> bool \<Rightarrow> handle \<times> split_view \<Rightarrow> handle_event \<Rightarrow> handle \<times> split_view" where
  "handle_step x0 w u hs e =
     (let (h, s) = hs in
      case e of
        HandleDown \<Rightarrow> (\<lparr> isDragging = True, col_cursor = True \<rparr>, s)
      | PointerMove x \<Rightarrow>
          if isDragging h then (h, setSplitRatio u (clamp (1/5) (4/5) ((x - x0) / w)) s) else (h, s)
      | PointerUp \<Rightarrow> if isDragging h then (\<lparr> isDragging = False, col_cursor = False \<rparr>, s) else (h, s))"

section \<open>Synchronised scrolling\<close>

text \<open>A pane that can scroll by \<open>range\<close>; a quotient by 0 is not a number and scrolls to 0, as
  division by 0 does here.\<close>

record pane =
  scroll_top :: rat
  scroll_range :: rat

record scrolls =
  left_pane :: pane
  right_pane :: pane
  isLeftScrolling :: bool
  isRightScrolling :: bool

definition syncLeftToRight :: "scrolls \<Rightarrow> scrolls" where
  "syncLeftToRight s =
     (if isRightScrolling s then s
      else (let q = scroll_top (left_pane s) / scroll_range (left_pane s)
            in s\<lparr> isLeftScrolling := True,
                  right_pane := (right_pane s)\<lparr> scroll_top := q * scroll_range (right_pane s) \<rparr> \<rparr>))"

definition syncRightToLeft :: "scrolls \<Rightarrow> scrolls" where
  "syncRightToLeft s =
     (if isLeftScrolling s then s
      else (let q = scroll_top (right_pane s) / scroll_range (right_pane s)
            in s\<lparr> isRightScrolling := True,
                  left_pane := (left_pane s)\<lparr> scroll_top := q * scroll_range (left_pane s) \<rparr> \<rparr>))"

definition animation_frame :: "scrolls \<Rightarrow> scrolls" where
  "animation_frame s = s\<lparr> isLeftScrolling := False, isRightScrolling := False \<rparr>"

section \<open>The address describes the view\<close>

definition panel_ok :: "panel \<Rightarrow> bool" where
  "panel_ok p \<longleftrightarrow> entityType p \<noteq> [] \<and> entityId p \<noteq> [] \<and>
     list_all (\<lambda>c. c \<noteq> CHR '':'' \<and> c \<noteq> CHR '','') (entityType p @ entityId p)"

definition untitled :: "panel \<Rightarrow> panel" where
  "untitled p = p\<lparr> panel_title := None \<rparr>"

definition hundredths :: "rat \<Rightarrow> rat" where
  "hundredths r = of_int \<lfloor>r * 100 + 1/2\<rfloor> / 100"

text \<open>What a reload should show: both panels without their titles, or nothing.\<close>

definition kept_view :: "split_view \<Rightarrow> panel option \<times> panel option \<times> rat" where
  "kept_view s =
     (if isSplitView s
      then (map_option untitled (sv_left s), map_option untitled (sv_right s), hundredths (sv_ratio s))
      else (None, None, DEFAULT_SPLIT_RATIO))"

lemma read_panel_text [simp]: "panel_ok p \<Longrightarrow> read_panel (panel_text p) = Some (untitled p)"
  by (cases p) (auto simp: panel_ok_def read_panel_def panel_text_def untitled_def split_on_plain list_all_iff)

lemma nth_panel_texts:
  assumes "panel_ok l" "panel_ok r"
  shows "nth_panel 0 (panel_text l @ CHR '','' # panel_text r) = Some (untitled l)"
    "nth_panel (Suc 0) (panel_text l @ CHR '','' # panel_text r) = Some (untitled r)"
proof -
  have "list_all (\<lambda>c. c \<noteq> CHR '','') (panel_text p)" if "panel_ok p" for p
    using that by (auto simp: panel_ok_def panel_text_def list_all_iff)
  then have "split_on (CHR '','') (panel_text l @ CHR '','' # panel_text r) = [panel_text l, panel_text r]"
    using assms by (simp add: split_on_plain)
  then show "nth_panel 0 (panel_text l @ CHR '','' # panel_text r) = Some (untitled l)"
    "nth_panel (Suc 0) (panel_text l @ CHR '','' # panel_text r) = Some (untitled r)"
    using assms by (simp_all add: nth_panel_def)
qed

lemma ratio_bounds: "MIN_SPLIT_RATIO \<le> MAX_SPLIT_RATIO" "MIN_SPLIT_RATIO \<le> DEFAULT_SPLIT_RATIO"
  "DEFAULT_SPLIT_RATIO \<le> MAX_SPLIT_RATIO" "0 \<le> MIN_SPLIT_RATIO"
  by (simp_all add: MIN_SPLIT_RATIO_def MAX_SPLIT_RATIO_def DEFAULT_SPLIT_RATIO_def)

lemma hundredths_bounds:
  assumes "MIN_SPLIT_RATIO \<le> r" "r \<le> MAX_SPLIT_RATIO"
  shows "MIN_SPLIT_RATIO \<le> hundredths r \<and> hundredths r \<le> MAX_SPLIT_RATIO"
proof -
  have "20 \<le> r * 100 + 1/2" "r * 100 + 1/2 < 81"
    using assms by (simp_all add: MIN_SPLIT_RATIO_def MAX_SPLIT_RATIO_def)
  then have "20 \<le> \<lfloor>r * 100 + 1/2\<rfloor>" "\<lfloor>r * 100 + 1/2\<rfloor> \<le> 80" by linarith+
  then show ?thesis by (simp add: hundredths_def MIN_SPLIT_RATIO_def MAX_SPLIT_RATIO_def)
qed

lemma hundredths_default [simp]: "hundredths DEFAULT_SPLIT_RATIO = DEFAULT_SPLIT_RATIO"
  by (simp add: hundredths_def DEFAULT_SPLIT_RATIO_def floor_eq_iff)

lemma read_ratio_text:
  assumes "MIN_SPLIT_RATIO \<le> r" "r \<le> MAX_SPLIT_RATIO"
  shows "read_ratio (Some (to_fixed 2 r)) = hundredths r"
proof -
  have "0 \<le> r" using assms(1) ratio_bounds(4) by linarith
  then have "parse_float (to_fixed 2 r) = Some (hundredths r)"
    by (simp add: parse_to_fixed hundredths_def)
  then show ?thesis using hundredths_bounds [OF assms] by (simp add: read_ratio_def)
qed

definition url_agrees :: "split_view \<Rightarrow> bool" where
  "url_agrees s \<longleftrightarrow>
     pred_option panel_ok (sv_left s) \<and> pred_option panel_ok (sv_right s) \<and>
     MIN_SPLIT_RATIO \<le> sv_ratio s \<and> sv_ratio s \<le> MAX_SPLIT_RATIO \<and>
     parseSplitParams (sv_params s) = kept_view s"

lemma parse_built:
  assumes "panel_ok a" "panel_ok b" "MIN_SPLIT_RATIO \<le> q" "q \<le> MAX_SPLIT_RATIO"
  shows "parseSplitParams (buildSplitUrl (Some a) (Some b) q ps) = (Some (untitled a), Some (untitled b), hundredths q)"
proof (cases "q = DEFAULT_SPLIT_RATIO")
  case True
  then show ?thesis using nth_panel_texts [OF assms(1,2)]
    by (simp add: buildSplitUrl_def parseSplitParams_def Let_def read_ratio_def)
next
  case False
  then show ?thesis using nth_panel_texts [OF assms(1,2)] read_ratio_text [OF assms(3,4)]
    by (simp add: buildSplitUrl_def parseSplitParams_def Let_def)
qed

lemma parse_cleared:
  "l = None \<or> r = None \<Longrightarrow> parseSplitParams (buildSplitUrl l r q ps) = (None, None, DEFAULT_SPLIT_RATIO)"
  by (cases l; cases r) (simp_all add: buildSplitUrl_def parseSplitParams_def read_ratio_def)

text \<open>Every operation but the scroll switch ends in \<open>updateUrl\<close> with the panels of the new state,
  or with a pair that is not a split view when the new state is none.\<close>

lemma isSplitView_params [simp]: "isSplitView (s\<lparr> sv_params := ps \<rparr>) = isSplitView s"
  by (simp add: isSplitView_def)

lemma updateUrl_agrees:
  assumes "pred_option panel_ok (sv_left s)" "pred_option panel_ok (sv_right s)"
    and "MIN_SPLIT_RATIO \<le> sv_ratio s" "sv_ratio s \<le> MAX_SPLIT_RATIO"
    and "if isSplitView s then l = sv_left s \<and> r = sv_right s \<and> q = sv_ratio s else l = None \<or> r = None"
  shows "url_agrees (updateUrl True l r q s)"
proof (cases "isSplitView s")
  case True
  then obtain a b where ab: "sv_left s = Some a" "sv_right s = Some b" by (auto simp: isSplitView_def)
  then have "panel_ok a" "panel_ok b" using assms(1,2) by simp_all
  then show ?thesis
    using True assms(3-5) ab by (simp add: url_agrees_def updateUrl_def kept_view_def isSplitView_def parse_built)
next
  case False
  then show ?thesis
    using assms parse_cleared [of l r q "sv_params s"]
    by (simp add: url_agrees_def updateUrl_def kept_view_def)
qed

definition event_ok :: "split_event \<Rightarrow> bool" where
  "event_ok e =
     (case e of
        EnterSplit l r _ \<Rightarrow> panel_ok l \<and> panel_ok r
      | UpdatePanel _ p \<Rightarrow> panel_ok p
      | SetLeft p \<Rightarrow> pred_option panel_ok p
      | SetRight p \<Rightarrow> pred_option panel_ok p
      | Navigated _ _ \<Rightarrow> False
      | _ \<Rightarrow> True)"

lemmas split_ops = enterSplitView_def exitSplitView_def swapPanels_def closePanel_def setSplitRatio_def
  toggleSyncScroll_def updatePanel_def setLeftPanel_def setRightPanel_def

interpretation split: guarded_machine "split_step True" event_ok url_agrees
proof (unfold_locales, goal_cases)
  case (1 s e)
  note inv = 1(1) [unfolded url_agrees_def]
  have swap: "MIN_SPLIT_RATIO \<le> 1 - r" "1 - r \<le> MAX_SPLIT_RATIO"
    if "MIN_SPLIT_RATIO \<le> r" "r \<le> MAX_SPLIT_RATIO" for r
    using that by (simp_all add: MIN_SPLIT_RATIO_def MAX_SPLIT_RATIO_def)
  note cl = clamp_bounds [OF ratio_bounds(1)]
  show ?case
  proof (cases e)
    case SyncScroll
    then show ?thesis using 1(1) by (simp add: toggleSyncScroll_def url_agrees_def kept_view_def isSplitView_def)
  next
    case Swap
    show ?thesis
    proof (cases "isSplitView s")
      case True
      then show ?thesis using Swap inv swap
        by (auto simp: swapPanels_def isSplitView_def intro!: updateUrl_agrees)
    next
      case False
      then show ?thesis using Swap 1(1) by (auto simp: swapPanels_def isSplitView_def)
    qed
  qed (use 1(2) inv cl in \<open>auto simp: split_ops Let_def event_ok_def isSplitView_def split: side.split
      intro!: updateUrl_agrees\<close>)
qed

text \<open>While nothing else navigates, a reload of the page restores the split view: the same two
  panels, without their titles, and the ratio in hundredths.  A view that is not split is not
  restored, and the other parameters of the address are kept.\<close>

theorem split_view_survives_reload:
  assumes "map_of ps ''split'' = None" "map_of ps ''ratio'' = None" "list_all event_ok es"
  shows "let s = run (split_step True) es (sv_mount path ps); t = sv_mount path (sv_params s) in
      (sv_left t, sv_right t, sv_ratio t) = kept_view s \<and>
      MIN_SPLIT_RATIO \<le> sv_ratio s \<and> sv_ratio s \<le> MAX_SPLIT_RATIO"
proof -
  have "url_agrees (sv_mount path ps)"
    using assms(1,2) ratio_bounds
    by (simp add: url_agrees_def sv_mount_def parseSplitParams_def kept_view_def isSplitView_def read_ratio_def)
  then have "url_agrees (run (split_step True) es (sv_mount path ps))" using assms(3) by (rule split.run_inv)
  then show ?thesis by (auto simp: url_agrees_def sv_mount_def Let_def split: prod.split)
qed

definition sample_panel :: panel where
  "sample_panel = \<lparr> entityType = ''task'', entityId = ''7'', panel_title = None \<rparr>"

lemma split_view_survives_reload_witness:
  "let s = run (split_step True) [EnterSplit sample_panel select_panel (1/3), Swap] (sv_mount ''/'' []);
       t = sv_mount ''/'' (sv_params s) in
     (sv_left t, sv_right t, sv_ratio t) = (Some (untitled select_panel), Some sample_panel, 67/100)"
proof -
  let ?s = "run (split_step True) [EnterSplit sample_panel select_panel (1/3), Swap] (sv_mount ''/'' [])"
  have s: "sv_left ?s = Some select_panel" "sv_right ?s = Some sample_panel" "sv_ratio ?s = 2/3"
    by (simp_all add: sv_mount_def parseSplitParams_def enterSplitView_def swapPanels_def updateUrl_def Let_def
        clamp_def MIN_SPLIT_RATIO_def MAX_SPLIT_RATIO_def)
  have "kept_view ?s = (Some (untitled select_panel), Some sample_panel, 67/100)"
    unfolding kept_view_def isSplitView_def s by (simp add: sample_panel_def untitled_def hundredths_def floor_eq_iff)
  moreover have "panel_ok sample_panel" "panel_ok select_panel"
    by (simp_all add: panel_ok_def sample_panel_def select_panel_def)
  ultimately show ?thesis
    using split_view_survives_reload [of "[]" "[EnterSplit sample_panel select_panel (1/3), Swap]" "''/''"]
    by (simp add: event_ok_def Let_def)
qed

text \<open>The provider stays mounted while the user moves between pages, and reads the address only
  when it is mounted: after a link the panels still show, over an address that has forgotten them.\<close>

lemma link_keeps_panels:
  "isSplitView (split_step u s (Navigated path [])) = isSplitView s"
  "parseSplitParams (sv_params (split_step u s (Navigated path []))) = (None, None, DEFAULT_SPLIT_RATIO)"
  by (simp_all add: isSplitView_def parseSplitParams_def read_ratio_def)

lemma swap_twice:
  "isSplitView s \<Longrightarrow> sv_left (swapPanels u (swapPanels u s)) = sv_left s \<and>
     sv_right (swapPanels u (swapPanels u s)) = sv_right s \<and> sv_ratio (swapPanels u (swapPanels u s)) = sv_ratio s"
  by (auto simp: swapPanels_def updateUrl_def isSplitView_def)

text \<open>Closing either panel leaves the other one alone on the left, outside split view.\<close>

lemma close_keeps_other:
  assumes "isSplitView s"
  shows "sv_left (closePanel u LeftSide s) = sv_right s" "sv_left (closePanel u RightSide s) = sv_left s"
    "\<not> isSplitView (closePanel u d s)"
  using assms by (auto simp: closePanel_def updateUrl_def isSplitView_def split: side.split)

text \<open>The placeholder of an empty second panel is an address like any other for the container in
  use: its frame loads the page of a client with the identifier \<open>select\<close>.\<close>

lemma placeholder_loads_a_client:
  "shown_in (Some select_panel) = Frame (Some ''/clients/select'')"
  by (simp add: shown_in_def select_panel_def getEntityPath_def)

text \<open>A type made up in the address is taken, and its panel has no address.\<close>

lemma unknown_type_accepted:
  "parseSplitParams [(''split'', ''x:1,task:7'')]
     = (Some \<lparr> entityType = ''x'', entityId = ''1'', panel_title = None \<rparr>, Some sample_panel, 1/2)"
  "shown_in (Some \<lparr> entityType = ''x'', entityId = ''1'', panel_title = None \<rparr>) = Frame None"
  by (simp_all add: parseSplitParams_def nth_panel_def read_panel_def sample_panel_def read_ratio_def
      DEFAULT_SPLIT_RATIO_def shown_in_def getEntityPath_def)

text \<open>However the pointer is moved, the ratio stays within its bounds and the panels stay.\<close>

lemma drag_bounds:
  assumes "MIN_SPLIT_RATIO \<le> sv_ratio s" "sv_ratio s \<le> MAX_SPLIT_RATIO"
  shows "let s' = snd (run (handle_step x0 w u) es (h, s)) in
     MIN_SPLIT_RATIO \<le> sv_ratio s' \<and> sv_ratio s' \<le> MAX_SPLIT_RATIO \<and> sv_left s' = sv_left s \<and> sv_right s' = sv_right s"
  using assms
proof (induction es arbitrary: h s)
  case (Cons e es)
  obtain h' s' where hs: "handle_step x0 w u (h, s) e = (h', s')" by fastforce
  then have "MIN_SPLIT_RATIO \<le> sv_ratio s' \<and> sv_ratio s' \<le> MAX_SPLIT_RATIO \<and>
      sv_left s' = sv_left s \<and> sv_right s' = sv_right s"
    using Cons.prems clamp_bounds [OF ratio_bounds(1)]
    by (auto simp: handle_step_def setSplitRatio_def updateUrl_def Let_def split: handle_event.splits if_splits)
  then show ?case using Cons.IH [of s' h'] by (simp add: hs Let_def)
qed simp

text \<open>Panes that can scroll end at the same proportion, and the scroll event this causes on the other
  pane, which comes after the frame that cleared the flags, moves nothing.\<close>

lemma scroll_settles:
  assumes "0 < scroll_range (left_pane s)" "0 < scroll_range (right_pane s)" "\<not> isRightScrolling s"
  shows "let t = syncLeftToRight s in
     scroll_top (right_pane t) / scroll_range (right_pane t) = scroll_top (left_pane s) / scroll_range (left_pane s)
     \<and> left_pane (syncRightToLeft (animation_frame t)) = left_pane s
     \<and> right_pane (syncRightToLeft (animation_frame t)) = right_pane t"
  using assms by (simp add: syncLeftToRight_def syncRightToLeft_def animation_frame_def Let_def)

end
