(* ===== verification/FocusMode.thy ===== *)
theory FocusMode
  imports Machines
begin

text \<open>
  Focus mode: \<open>hooks/use-focus-mode.tsx\<close> with the overlay and the exit button of
  \<open>providers/focus-mode-provider.tsx\<close>.  The scroll lock and the class of the page are effects of the
  flag: their cleanups run before the effects of the next render.
\<close>

text \<open>\<open>originalOverflow\<close> is what the cleanup of the running effect has captured.\<close>

record focus_page =
  isFocusMode :: bool
  originalOverflow :: "string option"
  body_overflow :: string
  focus_class :: bool

definition focus_start :: "string \<Rightarrow> focus_page" where
  "focus_start overflow =
     \<lparr> isFocusMode = False, originalOverflow = None, body_overflow = overflow, focus_class = False \<rparr>"

definition cleanup_effects :: "focus_page \<Rightarrow> focus_page" where
  "cleanup_effects s =
     (case originalOverflow s of
        None \<Rightarrow> s
      | Some v \<Rightarrow> s\<lparr> originalOverflow := None, body_overflow := v, focus_class := False \<rparr>)"

definition run_effects :: "focus_page \<Rightarrow> focus_page" where
  "run_effects s =
     (if isFocusMode s
      then s\<lparr> originalOverflow := Some (body_overflow s), body_overflow := ''hidden'', focus_class := True \<rparr>
      else s)"

text \<open>Setting the flag to the value it has renders nothing.\<close>

definition setIsFocusMode :: "bool \<Rightarrow> focus_page \<Rightarrow> focus_page" where
  "setIsFocusMode b s =
     (if b = isFocusMode s then s else run_effects ((cleanup_effects s)\<lparr> isFocusMode := b \<rparr>))"

definition toggleFocusMode :: "focus_page \<Rightarrow> focus_page" where
  "toggleFocusMode s = setIsFocusMode (\<not> isFocusMode s) s"

definition handleKeyDown :: "string \<Rightarrow> focus_page \<Rightarrow> focus_page" where
  "handleKeyDown k s = (if isFocusMode s \<and> k = ''Escape'' then setIsFocusMode False s else s)"

text \<open>A click on the overlay itself; the flag says whether the target is the overlay.\<close>

definition handleBackdropClick :: "bool \<Rightarrow> focus_page \<Rightarrow> focus_page" where
  "handleBackdropClick on_overlay s = (if isFocusMode s \<and> on_overlay then setIsFocusMode False s else s)"

definition exit_button :: "focus_page \<Rightarrow> focus_page" where
  "exit_button s = (if isFocusMode s then setIsFocusMode False s else s)"

datatype focus_event =
  ToggleFocus | EnableFocus | DisableFocus | KeyPressed string | Backdrop bool | ExitButton | FocusUnmount
| OverflowSet string

fun focus_step :: "focus_page \<Rightarrow> focus_event \<Rightarrow> focus_page" where
  "focus_step s ToggleFocus = toggleFocusMode s"
| "focus_step s EnableFocus = setIsFocusMode True s"
| "focus_step s DisableFocus = setIsFocusMode False s"
| "focus_step s (KeyPressed k) = handleKeyDown k s"
| "focus_step s (Backdrop b) = handleBackdropClick b s"
| "focus_step s ExitButton = exit_button s"
| "focus_step s FocusUnmount = (cleanup_effects s)\<lparr> isFocusMode := False \<rparr>"
| "focus_step s (OverflowSet v) = s\<lparr> body_overflow := v \<rparr>"

fun leaves_overflow :: "focus_event \<Rightarrow> bool" where
  "leaves_overflow (OverflowSet _) = False"
| "leaves_overflow _ = True"

definition locked_iff_focused :: "string \<Rightarrow> focus_page \<Rightarrow> bool" where
  "locked_iff_focused v s \<longleftrightarrow>
     s = (if isFocusMode s
          then \<lparr> isFocusMode = True, originalOverflow = Some v, body_overflow = ''hidden'', focus_class = True \<rparr>
          else focus_start v)"

lemmas focus_ops = setIsFocusMode_def toggleFocusMode_def handleKeyDown_def handleBackdropClick_def
  exit_button_def cleanup_effects_def run_effects_def

interpretation focus: guarded_machine focus_step leaves_overflow "locked_iff_focused v" for v
proof (unfold_locales, goal_cases)
  case (1 s e)
  then have "s = focus_start v \<or>
      s = \<lparr> isFocusMode = True, originalOverflow = Some v, body_overflow = ''hidden'', focus_class = True \<rparr>"
    by (auto simp: locked_iff_focused_def split: if_splits)
  then show ?case using 1(2)
    by (cases e) (auto simp: focus_ops locked_iff_focused_def focus_start_def)
qed

text \<open>As long as focus mode alone sets the overflow of the page, the page is locked and marked
  exactly while focus mode is on, and every way out restores what was there before it.\<close>

theorem page_locked_while_focused:
  assumes "list_all leaves_overflow es"
  shows "let s = run focus_step es (focus_start v) in
    body_overflow s = (if isFocusMode s then ''hidden'' else v) \<and> focus_class s = isFocusMode s"
proof -
  have "locked_iff_focused v (run focus_step es (focus_start v))"
    by (rule focus.run_inv [OF _ assms]) (simp add: locked_iff_focused_def focus_start_def)
  then have "run focus_step es (focus_start v) = focus_start v \<or> run focus_step es (focus_start v) =
      \<lparr> isFocusMode = True, originalOverflow = Some v, body_overflow = ''hidden'', focus_class = True \<rparr>"
    by (auto simp: locked_iff_focused_def split: if_splits)
  then show ?thesis by (auto simp: focus_start_def)
qed

lemma page_locked_while_focused_witness:
  "body_overflow (run focus_step [ToggleFocus, EnableFocus, KeyPressed ''Escape''] (focus_start ''auto'')) = ''auto''"
  using page_locked_while_focused [of "[ToggleFocus, EnableFocus, KeyPressed ''Escape'']" "''auto''"]
  by (simp add: focus_ops focus_start_def)

text \<open>A dialog that is open when focus mode starts and closes while it is on: leaving focus mode
  brings the lock of the dialog back, and the page can no longer be scrolled.\<close>

lemma lock_of_closed_dialog_restored:
  "body_overflow (run focus_step [OverflowSet ''hidden'', ToggleFocus, OverflowSet [], KeyPressed ''Escape'']
     (focus_start [])) = ''hidden''"
  by (simp add: focus_ops focus_start_def)

end
