(* ===== verification/JsMaps.thy ===== *)
theory JsMaps
  imports JsPrelude "HOL-Library.Multiset"
begin

text \<open>
  Grouping into a \<open>Map\<close> of lists, the loop
  \<open>if (!map.has(k)) map.set(k, []); map.get(k).push(x)\<close> that many components contain, and
  distributing the elements of a list over the cells of a view.
\<close>

definition push_group :: "'k \<Rightarrow> 'a \<Rightarrow> ('k \<times> 'a list) list \<Rightarrow> ('k \<times> 'a list) list" where
  "push_group k x m = AList.update k (get_or [] m k @ [x]) m"

definition group_by :: "('a \<Rightarrow> 'k) \<Rightarrow> 'a list \<Rightarrow> ('k \<times> 'a list) list" where
  "group_by key xs = fold (\<lambda>x. push_group (key x) x) xs []"

lemma group_by_snoc: "group_by key (xs @ [x]) = push_group (key x) x (group_by key xs)"
  by (simp add: group_by_def)

lemma group_by_Nil [simp]: "group_by key [] = []"
  by (simp add: group_by_def)

lemma get_or_Nil_map [simp]: "get_or d [] k = d"
  by (simp add: get_or_def)

lemma get_or_push_group [simp]:
  "get_or [] (push_group k x m) j = (if j = k then get_or [] m k @ [x] else get_or [] m j)"
  by (simp add: push_group_def)

text \<open>A group holds the elements with its key, in their order.\<close>

lemma group_by_get: "get_or [] (group_by key xs) k = filter (\<lambda>x. key x = k) xs"
  by (induction xs rule: rev_induct) (auto simp: group_by_snoc)

lemma group_by_keys: "fst ` set (group_by key xs) = key ` set xs"
  by (induction xs rule: rev_induct) (auto simp: group_by_snoc push_group_def dom_update)

lemma group_by_distinct: "distinct (map fst (group_by key xs))"
  by (induction xs rule: rev_induct) (auto simp: group_by_snoc push_group_def distinct_update)

lemma group_by_entry:
  "(k, g) \<in> set (group_by key xs) \<longleftrightarrow> g = filter (\<lambda>x. key x = k) xs \<and> g \<noteq> []"
proof
  assume a: "(k, g) \<in> set (group_by key xs)"
  then have "map_of (group_by key xs) k = Some g" by (simp add: group_by_distinct)
  then have "g = filter (\<lambda>x. key x = k) xs" using group_by_get [of key xs k] by (simp add: get_or_def)
  moreover have "k \<in> key ` set xs" using a group_by_keys [of key xs] by force
  ultimately show "g = filter (\<lambda>x. key x = k) xs \<and> g \<noteq> []" by (auto simp: filter_empty_conv)
next
  assume a: "g = filter (\<lambda>x. key x = k) xs \<and> g \<noteq> []"
  then have "k \<in> key ` set xs" by (auto simp: filter_empty_conv)
  then have "k \<in> fst ` set (group_by key xs)" by (simp add: group_by_keys)
  then obtain h where h: "map_of (group_by key xs) k = Some h" by (metis map_of_eq_None_iff not_None_eq)
  then show "(k, g) \<in> set (group_by key xs)"
    using a group_by_get [of key xs k] by (simp add: get_or_def map_of_SomeD)
qed

text \<open>Nothing is lost and nothing is doubled.\<close>

lemma mset_filters_by_key:
  assumes "distinct ks"
  shows "mset (concat (map (\<lambda>k. filter (\<lambda>x. key x = k) xs) ks)) = mset (filter (\<lambda>x. key x \<in> set ks) xs)"
  using assms
proof (induction ks)
  case (Cons k ks)
  have "mset (filter (\<lambda>x. key x \<in> set (k # ks)) xs)
      = mset (filter (\<lambda>x. key x = k) xs) + mset (filter (\<lambda>x. key x \<in> set ks) xs)"
    using Cons.prems by (induction xs) auto
  then show ?case using Cons by simp
qed simp

lemma group_by_mset: "mset (concat (map snd (group_by key xs))) = mset xs"
proof -
  have m: "map snd (group_by key xs) = map (\<lambda>k. filter (\<lambda>x. key x = k) xs) (map fst (group_by key xs))"
    using group_by_entry [of _ _ key xs] by fastforce
  have "set (map fst (group_by key xs)) = key ` set xs" using group_by_keys [of key xs] by simp
  then have "filter (\<lambda>x. key x \<in> set (map fst (group_by key xs))) xs = xs" by (simp add: filter_True)
  then show ?thesis
    unfolding m using mset_filters_by_key [OF group_by_distinct [of key xs], of key xs] by simp
qed

end
