(* ===== verification/Calendars.thy ===== *)
theory Calendars
  imports JsMaps Machines
begin

text \<open>
  The two calendars: the assignment calendar of the partners
  (\<open>components/partners/assignment-calendar\<close>, with its calendar file) and the milestone calendar of
  the clients (\<open>components/portal/milestone-calendar.tsx\<close>).

  A date is the number of days since the first of January 1970, a Thursday.  The date library is a
  parameter: \<open>date_lib\<close> has the functions the code calls and \<open>date_lib_ok\<close> says of them what its
  documentation says.  The clock is the day and the milliseconds passed of it.
\<close>

section \<open>The date library\<close>

text \<open>Monday is 0.\<close>

definition weekday :: "int \<Rightarrow> int" where
  "weekday d = (d + 3) mod 7"

record date_lib =
  startOfWeek :: "int \<Rightarrow> int"
  endOfWeek :: "int \<Rightarrow> int"
  startOfMonth :: "int \<Rightarrow> int"
  endOfMonth :: "int \<Rightarrow> int"
  addMonths :: "int \<Rightarrow> int \<Rightarrow> int"
  eachDayOfInterval :: "int \<Rightarrow> int \<Rightarrow> int list"
  parseISO :: "string \<Rightarrow> int"
  format_day :: "int \<Rightarrow> string"
  format_month :: "int \<Rightarrow> string"

definition date_lib_ok :: "date_lib \<Rightarrow> bool" where
  "date_lib_ok L \<longleftrightarrow>
     (\<forall>d. startOfWeek L d = d - weekday d \<and> endOfWeek L d = d - weekday d + 6 \<and>
          startOfMonth L d \<le> d \<and> d \<le> endOfMonth L d) \<and>
     (\<forall>a b. eachDayOfInterval L a b = [a..b]) \<and> inj (format_day L)"

type_synonym clock = "int \<times> nat"

definition isPast :: "clock \<Rightarrow> int \<Rightarrow> bool" where
  "isPast now d \<longleftrightarrow> d < fst now \<or> (d = fst now \<and> 0 < snd now)"

section \<open>Assignments and deliverables\<close>

text \<open>Missing texts are empty: the code only tests them as conditions.\<close>

record cal_event =
  ev_type :: string
  ev_id :: string
  ev_title :: string
  due_date :: string
  ev_status :: string
  program_id :: string
  program_title :: string
  assignment_title :: "string option"

definition PROGRAM_COLORS :: "string list" where
  "PROGRAM_COLORS = [''bg-blue-500'', ''bg-purple-500'', ''bg-emerald-500'', ''bg-orange-500'', ''bg-pink-500'',
     ''bg-cyan-500'', ''bg-indigo-500'', ''bg-rose-500'']"

definition DONE_STATUSES :: "string list" where
  "DONE_STATUSES = [''completed'', ''approved'', ''cancelled'', ''rejected'']"

definition status_label :: "cal_event \<Rightarrow> string" where
  "status_label e =
     (if ev_type e = ''assignment'' then
        get_or ''Draft'' [(''draft'', ''Draft''), (''dispatched'', ''Dispatched''), (''accepted'', ''Accepted''),
          (''in_progress'', ''In Progress''), (''completed'', ''Completed''), (''cancelled'', ''Cancelled'')] (ev_status e)
      else
        get_or ''Pending'' [(''pending'', ''Pending''), (''submitted'', ''Submitted''), (''under_review'', ''Under Review''),
          (''approved'', ''Approved''), (''returned'', ''Returned''), (''rejected'', ''Rejected'')] (ev_status e))"

datatype view_mode = MonthMode | WeekMode | ListMode

record cal =
  currentDate :: int
  viewMode :: view_mode
  selectedProgramId :: string
  showCompleted :: bool
  selectedEvent :: "cal_event option"

definition cal_start :: "int \<Rightarrow> cal" where
  "cal_start today = \<lparr> currentDate = today, viewMode = MonthMode, selectedProgramId = ''all'',
     showCompleted = True, selectedEvent = None \<rparr>"

text \<open>The programs of the events, and their colours by index.\<close>

definition cal_programs :: "cal_event list \<Rightarrow> (string \<times> string) list" where
  "cal_programs evs =
     fold (\<lambda>e m. if program_id e \<noteq> [] \<and> program_title e \<noteq> [] then AList.update (program_id e) (program_title e) m else m)
       evs []"

definition color_map :: "string list \<Rightarrow> (string \<times> string) list" where
  "color_map ids =
     fold (\<lambda>(i, p) m. AList.update p (PROGRAM_COLORS ! (i mod length PROGRAM_COLORS)) m) (enumerate 0 ids) []"

definition getEventColor :: "cal_event list \<Rightarrow> cal_event \<Rightarrow> string" where
  "getEventColor evs e =
     (if program_id e \<noteq> [] then get_or ''bg-muted-foreground'' (color_map (map fst (cal_programs evs))) (program_id e)
      else ''bg-muted-foreground'')"

definition filteredEvents :: "cal_event list \<Rightarrow> cal \<Rightarrow> cal_event list" where
  "filteredEvents evs s =
     (if selectedProgramId s = ''all'' then evs else filter (\<lambda>e. program_id e = selectedProgramId s) evs)"

definition dateRange :: "date_lib \<Rightarrow> cal \<Rightarrow> (int \<times> int) option" where
  "dateRange L s =
     (case viewMode s of
        WeekMode \<Rightarrow> Some (startOfWeek L (currentDate s), endOfWeek L (currentDate s))
      | MonthMode \<Rightarrow> Some (startOfWeek L (startOfMonth L (currentDate s)), endOfWeek L (endOfMonth L (currentDate s)))
      | ListMode \<Rightarrow> None)"

definition cal_days :: "date_lib \<Rightarrow> cal \<Rightarrow> int list" where
  "cal_days L s = (case dateRange L s of None \<Rightarrow> [] | Some (a, b) \<Rightarrow> eachDayOfInterval L a b)"

definition getEventsForDay :: "date_lib \<Rightarrow> cal_event list \<Rightarrow> int \<Rightarrow> cal_event list" where
  "getEventsForDay L evs day =
     filter (\<lambda>e. due_date e \<noteq> [] \<and> format_day L (parseISO L (due_date e)) = format_day L day) evs"

definition navigate :: "date_lib \<Rightarrow> int \<Rightarrow> cal \<Rightarrow> cal" where
  "navigate L n s =
     (case viewMode s of
        WeekMode \<Rightarrow> s\<lparr> currentDate := currentDate s + 7 * n \<rparr>
      | MonthMode \<Rightarrow> s\<lparr> currentDate := addMonths L (currentDate s) n \<rparr>
      | ListMode \<Rightarrow> s)"

definition listGroups :: "date_lib \<Rightarrow> cal_event list \<Rightarrow> cal \<Rightarrow> (string \<times> cal_event list) list" where
  "listGroups L evs s =
     (if viewMode s \<noteq> ListMode then []
      else group_by (\<lambda>e. format_month L (parseISO L (due_date e)))
             (filter (\<lambda>e. due_date e \<noteq> []) (filteredEvents evs s)))"

datatype cal_step_event =
  Forward | Back | Today int | Mode view_mode | SelectProgram string | ShowCompleted bool
| OpenEvent cal_event | CloseEvent

definition cal_step :: "date_lib \<Rightarrow> cal \<Rightarrow> cal_step_event \<Rightarrow> cal" where
  "cal_step L s e =
     (case e of
        Forward \<Rightarrow> navigate L 1 s
      | Back \<Rightarrow> navigate L (- 1) s
      | Today d \<Rightarrow> s\<lparr> currentDate := d \<rparr>
      | Mode m \<Rightarrow> s\<lparr> viewMode := m \<rparr>
      | SelectProgram p \<Rightarrow> s\<lparr> selectedProgramId := p \<rparr>
      | ShowCompleted b \<Rightarrow> s\<lparr> showCompleted := b \<rparr>
      | OpenEvent x \<Rightarrow> s\<lparr> selectedEvent := Some x \<rparr>
      | CloseEvent \<Rightarrow> s\<lparr> selectedEvent := None \<rparr>)"

text \<open>The cells of the month: at most three events and the number of the others.\<close>

definition month_cell :: "cal_event list \<Rightarrow> cal_event list \<times> nat" where
  "month_cell evs = (take 3 evs, length evs - 3)"

definition isOverdue :: "clock \<Rightarrow> int \<Rightarrow> cal_event \<Rightarrow> bool" where
  "isOverdue now d e \<longleftrightarrow> isPast now d \<and> ev_status e \<notin> set DONE_STATUSES"

definition event_color :: "clock \<Rightarrow> cal_event list \<Rightarrow> int \<Rightarrow> cal_event \<Rightarrow> string" where
  "event_color now evs d e = (if isOverdue now d e then ''bg-red-500'' else getEventColor evs e)"

section \<open>The calendar file\<close>

text \<open>\<open>replace(/[\\;,]/g, "\\$&")\<close>: a backslash before each backslash, semicolon and comma.\<close>

definition BS :: char where "BS = char_of (92 :: nat)"

definition ics_escape :: "string \<Rightarrow> string" where
  "ics_escape s = concat (map (\<lambda>c. if c = BS \<or> c = CHR '';'' \<or> c = CHR '','' then [BS, c] else [c]) s)"

text \<open>The dash of a description is beyond the characters modelled, so it is an argument.\<close>

definition ics_event :: "string \<Rightarrow> cal_event \<Rightarrow> string list" where
  "ics_event dash e =
     (let dtDate = filter (\<lambda>c. c \<noteq> CHR ''-'') (due_date e)
      in [''BEGIN:VEVENT'',
          ''UID:'' @ ev_type e @ ''-'' @ ev_id e @ ''@amg-portal'',
          ''DTSTART;VALUE=DATE:'' @ dtDate,
          ''DTEND;VALUE=DATE:'' @ dtDate,
          ''SUMMARY:'' @ ics_escape (ev_title e),
          ''DESCRIPTION:'' @
            (if ev_type e = ''deliverable''
             then ''Deliverable for: '' @ (case assignment_title e of None \<Rightarrow> ''Unknown Assignment'' | Some t \<Rightarrow> t)
             else ''Assignment '' @ dash @ '' '' @ program_title e),
          ''STATUS:'' @ (if ev_status e \<in> set DONE_STATUSES then ''COMPLETED'' else ''CONFIRMED''),
          ''END:VEVENT''])"

definition buildICSContent :: "string \<Rightarrow> cal_event list \<Rightarrow> string" where
  "buildICSContent dash evs =
     join_with [char_of (13 :: nat), char_of (10 :: nat)]
       ([''BEGIN:VCALENDAR'', ''VERSION:2.0'', ''PRODID:-//AMG Partner Portal//Assignment Calendar//EN'',
         ''CALSCALE:GREGORIAN'', ''METHOD:PUBLISH'']
        @ concat (map (ics_event dash) (filter (\<lambda>e. due_date e \<noteq> []) evs)) @ [''END:VCALENDAR''])"

section \<open>Milestones\<close>

record cal_milestone =
  ms_id :: string
  ms_title :: string
  ms_due :: string
  ms_status :: string
  ms_program :: string

definition ms_range :: "date_lib \<Rightarrow> cal \<Rightarrow> int \<times> int" where
  "ms_range L s =
     (if viewMode s = WeekMode then (startOfWeek L (currentDate s), endOfWeek L (currentDate s))
      else (startOfMonth L (currentDate s), endOfMonth L (currentDate s)))"

definition ms_days :: "date_lib \<Rightarrow> cal \<Rightarrow> int list" where
  "ms_days L s = (case ms_range L s of (a, b) \<Rightarrow> eachDayOfInterval L a b)"

definition milestonesByDay :: "cal_milestone list \<Rightarrow> (string \<times> cal_milestone list) list" where
  "milestonesByDay ms = group_by ms_due (filter (\<lambda>m. ms_due m \<noteq> []) ms)"

definition getMilestonesForDay :: "date_lib \<Rightarrow> cal_milestone list \<Rightarrow> int \<Rightarrow> cal_milestone list" where
  "getMilestonesForDay L ms day = get_or [] (milestonesByDay ms) (format_day L day)"

definition getMilestoneColor :: "string list \<Rightarrow> string \<Rightarrow> string" where
  "getMilestoneColor program_ids p = get_or ''bg-muted-foreground'' (color_map program_ids) p"

definition ms_navigate :: "date_lib \<Rightarrow> int \<Rightarrow> cal \<Rightarrow> cal" where
  "ms_navigate L n s =
     (if viewMode s = WeekMode then s\<lparr> currentDate := currentDate s + 7 * n \<rparr>
      else s\<lparr> currentDate := addMonths L (currentDate s) n \<rparr>)"

definition milestone_cell :: "cal_milestone list \<Rightarrow> cal_milestone list \<times> nat" where
  "milestone_cell ms = (take 3 ms, length ms - 3)"

text \<open>Both grids put the i-th day in the column \<open>i mod 7\<close>, under the names Monday to Sunday.\<close>

definition columns_right :: "int list \<Rightarrow> bool" where
  "columns_right ds \<longleftrightarrow> map weekday ds = map (\<lambda>i. int (i mod 7)) [0..<length ds]"

lemma columns_from:
  assumes "a \<le> b"
  shows "columns_right [a..b] \<longleftrightarrow> weekday a = 0"
proof -
  have nth: "[a..b] ! i = a + int i" if "i < nat (b - a + 1)" for i
    using that by (auto simp: nth_upto)
  have "columns_right [a..b] \<longleftrightarrow> (\<forall>i < nat (b - a + 1). weekday (a + int i) = int i mod 7)"
    by (auto simp: columns_right_def list_eq_iff_nth_eq nth zmod_int)
  also have "\<dots> \<longleftrightarrow> weekday a = 0"
  proof
    assume "\<forall>i < nat (b - a + 1). weekday (a + int i) = int i mod 7"
    moreover have "0 < nat (b - a + 1)" using assms by simp
    ultimately have "weekday (a + int 0) = int 0 mod 7" by blast
    then show "weekday a = 0" by simp
  next
    assume "weekday a = 0"
    then have "(a + 3) mod 7 = 0" by (simp add: weekday_def)
    moreover have "(a + int i + 3) mod 7 = ((a + 3) mod 7 + int i) mod 7" for i
      by (simp add: mod_simps algebra_simps)
    ultimately show "\<forall>i < nat (b - a + 1). weekday (a + int i) = int i mod 7" by (simp add: weekday_def)
  qed
  finally show ?thesis .
qed

section \<open>What the grids show\<close>

lemma lib_eqs:
  assumes "date_lib_ok L"
  shows "startOfWeek L d = d - weekday d" "endOfWeek L d = d - weekday d + 6" "startOfMonth L d \<le> d"
    "d \<le> endOfMonth L d" "eachDayOfInterval L a b = [a..b]" "format_day L a = format_day L b \<longleftrightarrow> a = b"
  using assms by (auto simp: date_lib_ok_def inj_eq)

lemma weekday_bounds: "0 \<le> weekday d" "weekday d \<le> 6"
  by (simp_all add: weekday_def)

lemma weekday_of_monday [simp]: "weekday (d - weekday d) = 0"
  unfolding weekday_def by presburger

text \<open>The range of days an assignment calendar covers: whole weeks around the current date.\<close>

lemma range_of_weeks:
  assumes "date_lib_ok L" "dateRange L s = Some (a, b)"
  shows "weekday a = 0" "\<exists>n. b = a + 7 * n + 6 \<and> 0 \<le> n" "a \<le> currentDate s" "currentDate s \<le> b"
proof -
  note eqs = lib_eqs [OF assms(1)]
  define x y where "x = (if viewMode s = WeekMode then currentDate s else startOfMonth L (currentDate s))"
    and "y = (if viewMode s = WeekMode then currentDate s else endOfMonth L (currentDate s))"
  have ab: "a = x - weekday x" "b = y - weekday y + 6"
    using assms(2) eqs by (auto simp: dateRange_def x_def y_def split: view_mode.splits)
  have xy: "x \<le> currentDate s" "currentDate s \<le> y" using eqs by (auto simp: x_def y_def)
  show "weekday a = 0" by (simp add: ab)
  show "a \<le> currentDate s" "currentDate s \<le> b"
    using ab xy weekday_bounds [of x] weekday_bounds [of y] by linarith+
  have "(x - weekday x) mod 7 = (y - weekday y) mod 7" unfolding weekday_def by presburger
  moreover have "x - weekday x \<le> y - weekday y"
  proof -
    have "x \<le> y" using xy by linarith
    then show ?thesis unfolding weekday_def by presburger
  qed
  ultimately obtain n where "y - weekday y = x - weekday x + 7 * n" "0 \<le> n"
    by (metis (no_types, lifting) ab(1) add.commute diff_ge_0_iff_ge le_add_diff_inverse
        mod_eq_dvd_iff dvdE zero_le_mult_iff zero_less_numeral not_less)
  then show "\<exists>n. b = a + 7 * n + 6 \<and> 0 \<le> n" using ab by auto
qed

text \<open>In month and week view the assignment calendar shows whole weeks that contain the current date,
  every day under the name of its weekday, and each deadline that falls into these days in
  exactly one cell.\<close>

theorem calendar_shows_each_deadline:
  assumes "date_lib_ok L" "viewMode s \<noteq> ListMode"
  shows "let ds = cal_days L s; evs' = filteredEvents evs s in
     columns_right ds \<and> length ds mod 7 = 0 \<and> currentDate s \<in> set ds \<and>
     mset (concat (map (getEventsForDay L evs') ds)) =
       mset (filter (\<lambda>e. due_date e \<noteq> [] \<and> parseISO L (due_date e) \<in> set ds) evs')"
proof -
  note eqs = lib_eqs [OF assms(1)]
  obtain a b where ab: "dateRange L s = Some (a, b)"
    using assms(2) by (cases "viewMode s") (auto simp: dateRange_def)
  note r = range_of_weeks [OF assms(1) ab]
  have ds: "cal_days L s = [a..b]" using ab eqs by (simp add: cal_days_def)
  obtain n where n: "b = a + 7 * n + 6" "0 \<le> n" using r(2) by blast
  have "a \<le> b" using r(3,4) by linarith
  then have "columns_right [a..b]" using r(1) columns_from by blast
  moreover have "length [a..b] mod 7 = 0"
  proof -
    have "length [a..b] = 7 * nat (n + 1)" using n by (simp add: nat_mult_distrib [symmetric])
    then show ?thesis by simp
  qed
  moreover have "mset (concat (map (getEventsForDay L e') [a..b]))
      = mset (filter (\<lambda>e. due_date e \<noteq> [] \<and> parseISO L (due_date e) \<in> set [a..b]) e')" for e'
  proof -
    have g: "getEventsForDay L e' = (\<lambda>d. filter (\<lambda>e. parseISO L (due_date e) = d) (filter (\<lambda>e. due_date e \<noteq> []) e'))"
      using eqs(6) by (intro ext) (simp add: getEventsForDay_def conj_commute)
    show ?thesis
      unfolding g using mset_filters_by_key [of "[a..b]" "\<lambda>e. parseISO L (due_date e)" "filter (\<lambda>e. due_date e \<noteq> []) e'"]
      by (simp add: conj_commute cong: filter_cong)
  qed
  ultimately show ?thesis using r(3,4) by (simp add: ds Let_def)
qed

text \<open>The milestone calendar lays the days of the month out without leading blanks: its days stand
  under the right weekdays exactly when the month begins on a Monday.\<close>

theorem milestone_columns_right_iff:
  assumes "date_lib_ok L"
  shows "columns_right (ms_days L s) \<longleftrightarrow>
     viewMode s = WeekMode \<or> weekday (startOfMonth L (currentDate s)) = 0"
proof -
  note eqs = lib_eqs [OF assms]
  show ?thesis
  proof (cases "viewMode s = WeekMode")
    case True
    then have "ms_days L s = [currentDate s - weekday (currentDate s)..currentDate s - weekday (currentDate s) + 6]"
      using eqs by (simp add: ms_days_def ms_range_def)
    then show ?thesis using True columns_from by simp
  next
    case False
    have "startOfMonth L (currentDate s) \<le> endOfMonth L (currentDate s)"
      using eqs(3,4) [of "currentDate s"] by linarith
    then show ?thesis using False eqs columns_from by (simp add: ms_days_def ms_range_def)
  qed
qed

definition sample_lib :: date_lib where
  "sample_lib = \<lparr> startOfWeek = \<lambda>d. d - weekday d, endOfWeek = \<lambda>d. d - weekday d + 6,
     startOfMonth = \<lambda>d. d - (d - 20454) mod 31, endOfMonth = \<lambda>d. d - (d - 20454) mod 31 + 30,
     addMonths = \<lambda>d n. d + 31 * n, eachDayOfInterval = \<lambda>a b. [a..b],
     parseISO = \<lambda>t. int (length t), format_day = \<lambda>d. replicate (nat d) CHR ''x'' @ replicate (nat (- d)) CHR ''y'',
     format_month = \<lambda>d. [] \<rparr>"

lemma sample_lib_ok: "date_lib_ok sample_lib"
proof -
  have "inj (\<lambda>d. replicate (nat d) CHR ''x'' @ replicate (nat (- d)) CHR ''y'')"
  proof (rule injI)
    fix a b :: int
    assume "replicate (nat a) CHR ''x'' @ replicate (nat (- a)) CHR ''y''
        = replicate (nat b) CHR ''x'' @ replicate (nat (- b)) CHR ''y''"
    then have "filter ((=) CHR ''x'') (replicate (nat a) CHR ''x'' @ replicate (nat (- a)) CHR ''y'')
        = filter ((=) CHR ''x'') (replicate (nat b) CHR ''x'' @ replicate (nat (- b)) CHR ''y'')"
      "filter ((=) CHR ''y'') (replicate (nat a) CHR ''x'' @ replicate (nat (- a)) CHR ''y'')
        = filter ((=) CHR ''y'') (replicate (nat b) CHR ''x'' @ replicate (nat (- b)) CHR ''y'')" by simp_all
    then have "nat a = nat b" "nat (- a) = nat (- b)" by (simp_all add: filter_replicate)
    then show "a = b" by linarith
  qed
  moreover have "(d - 20454) mod 31 \<le> 30" for d :: int by presburger
  ultimately show ?thesis by (simp add: date_lib_ok_def sample_lib_def)
qed

text \<open>January 2026, whose first is a Thursday: the assignment calendar begins three days before it,
  and the milestone calendar puts it under Monday.\<close>

lemma calendar_shows_each_deadline_witness:
  "columns_right (cal_days sample_lib (cal_start 20460)) \<and> 20460 \<in> set (cal_days sample_lib (cal_start 20460))"
  using calendar_shows_each_deadline [OF sample_lib_ok, of "cal_start 20460" "[]"]
  by (simp add: Let_def cal_start_def)

lemma milestone_columns_witness: "\<not> columns_right (ms_days sample_lib (cal_start 20460))"
  using milestone_columns_right_iff [OF sample_lib_ok, of "cal_start 20460"]
  by (simp add: cal_start_def sample_lib_def weekday_def)

text \<open>A milestone with a plain date as its due date is in the cell of that date.\<close>

lemma milestones_of_day:
  assumes "format_day L d \<noteq> []"
  shows "getMilestonesForDay L ms d = filter (\<lambda>m. ms_due m = format_day L d) ms"
proof -
  have "filter (\<lambda>m. ms_due m = format_day L d) (filter (\<lambda>m. ms_due m \<noteq> []) ms)
      = filter (\<lambda>m. ms_due m = format_day L d) ms"
    using assms by (auto intro: filter_cong)
  then show ?thesis by (simp add: getMilestonesForDay_def milestonesByDay_def group_by_get)
qed

text \<open>The list shows every deadline once, each under its month.\<close>

lemma list_shows_each_deadline:
  assumes "viewMode s = ListMode"
  shows "mset (concat (map snd (listGroups L evs s))) = mset (filter (\<lambda>e. due_date e \<noteq> []) (filteredEvents evs s))"
    "distinct (map fst (listGroups L evs s))"
  using assms by (simp_all add: listGroups_def group_by_mset group_by_distinct)

text \<open>From the first millisecond of the day on, what is due on this day is marked as overdue.\<close>

lemma overdue_on_due_day:
  "0 < t \<Longrightarrow> isOverdue (d, t) d e \<longleftrightarrow> ev_status e \<notin> set DONE_STATUSES"
  by (simp add: isOverdue_def isPast_def)

text \<open>The title of an entry of the calendar file reads back, line breaks included: those are written
  as they are and end the property.\<close>

fun ics_unescape :: "string \<Rightarrow> string" where
  "ics_unescape [] = []"
| "ics_unescape (c # s) =
     (if c = BS then (case s of [] \<Rightarrow> [c] | d # t \<Rightarrow> d # ics_unescape t) else c # ics_unescape s)"

lemma ics_unescape_escape: "ics_unescape (ics_escape s) = s"
proof (induction s)
  case (Cons c s)
  then show ?case by (cases "c = BS") (auto simp: ics_escape_def)
qed (simp add: ics_escape_def)

lemma line_break_kept: "c \<in> set s \<Longrightarrow> c \<in> set (ics_escape s)"
  by (auto simp: ics_escape_def)

end
