(* ===== verification/Meetings.thy ===== *)
theory Meetings
  imports Machines
begin

text \<open>
  The booking of a meeting: \<open>components/portal/book-meeting/use-book-meeting-flow.ts\<close> with the steps
  that call it, and the cards of the booked meetings (\<open>meeting-card.tsx\<close>, \<open>my-meetings-list.tsx\<close>).

  The slots of the query are an event; they are shown while the query is enabled and forgotten when
  its key changes.  Days are numbers counted from today.
\<close>

section \<open>The flow\<close>

record meeting_type =
  mt_id :: string
  mt_label :: string
  duration_minutes :: int

record slot =
  slot_date :: string
  start_time :: string
  end_time :: string

datatype book_step = TypeStep | SlotStep | AgendaStep | ConfirmStep

record booking_request =
  rq_type :: string
  rq_start :: string
  rq_agenda :: "string option"

text \<open>\<open>sent\<close> are the requests made, \<open>accepted\<close> those the server took, and \<open>offered\<close> every slot that
  was ever loaded, with the meeting type it was loaded for.\<close>

record flow =
  fl_step :: book_step
  selectedType :: "meeting_type option"
  selectedSlot :: "slot option"
  agenda :: string
  weekOffset :: nat
  booked :: bool
  slots :: "slot list"
  isPending :: bool
  book_error :: bool
  sent :: "booking_request list"
  accepted :: "booking_request list"
  offered :: "(string \<times> slot) list"

definition flow_start :: flow where
  "flow_start = \<lparr> fl_step = TypeStep, selectedType = None, selectedSlot = None, agenda = [], weekOffset = 0,
     booked = False, slots = [], isPending = False, book_error = False, sent = [], accepted = [], offered = [] \<rparr>"

definition slotsEnabled :: "flow \<Rightarrow> bool" where
  "slotsEnabled s \<longleftrightarrow> fl_step s = SlotStep \<and> selectedType s \<noteq> None"

text \<open>The two weeks of the picker.\<close>

definition flow_days :: "flow \<Rightarrow> int list" where
  "flow_days s = map (\<lambda>i. int (weekOffset s) * 7 + int i) [0..<14]"

definition slotsByDate :: "slot list \<Rightarrow> string \<Rightarrow> slot list" where
  "slotsByDate xs d = filter (\<lambda>x. slot_date x = d) xs"

definition reset :: "flow \<Rightarrow> flow" where
  "reset s = s\<lparr> fl_step := TypeStep, selectedType := None, selectedSlot := None, agenda := [], booked := False,
     weekOffset := 0, slots := [] \<rparr>"

definition handleBooking :: "flow \<Rightarrow> flow" where
  "handleBooking s =
     (case (selectedType s, selectedSlot s) of
        (Some t, Some x) \<Rightarrow>
          s\<lparr> isPending := True, book_error := False,
             sent := sent s @ [\<lparr> rq_type = mt_id t, rq_start = start_time x,
                                 rq_agenda = (if agenda s = [] then None else Some (agenda s)) \<rparr>] \<rparr>
      | _ \<Rightarrow> s)"

definition booking_settles :: "bool \<Rightarrow> flow \<Rightarrow> flow" where
  "booking_settles ok s =
     (if \<not> isPending s then s
      else if ok then s\<lparr> isPending := False, booked := True, accepted := accepted s @ [last (sent s)] \<rparr>
      else s\<lparr> isPending := False, book_error := True \<rparr>)"

datatype flow_event =
  SelectType meeting_type
| NextStep
| BackStep
| ChangeTime
| PreviousWeek
| NextWeek
| SlotsLoaded "slot list"
| SelectSlot slot
| SetAgenda string
| ConfirmBooking
| Settled bool
| BookAnother

text \<open>Which controls are there: a step is shown with its guards, and nothing of it once the meeting is
  booked.\<close>

definition step_shown :: "book_step \<Rightarrow> flow \<Rightarrow> bool" where
  "step_shown st s \<longleftrightarrow> \<not> booked s \<and> fl_step s = st \<and>
     (case st of
        TypeStep \<Rightarrow> True
      | SlotStep \<Rightarrow> selectedType s \<noteq> None
      | _ \<Rightarrow> selectedType s \<noteq> None \<and> selectedSlot s \<noteq> None)"

definition flow_next :: "flow \<Rightarrow> flow" where
  "flow_next s =
     (if step_shown TypeStep s \<and> selectedType s \<noteq> None then s\<lparr> fl_step := SlotStep \<rparr>
      else if step_shown SlotStep s \<and> selectedSlot s \<noteq> None then s\<lparr> fl_step := AgendaStep \<rparr>
      else if step_shown AgendaStep s then s\<lparr> fl_step := ConfirmStep \<rparr>
      else s)"

definition flow_back :: "flow \<Rightarrow> flow" where
  "flow_back s =
     (if step_shown SlotStep s then s\<lparr> fl_step := TypeStep \<rparr>
      else if step_shown AgendaStep s then s\<lparr> fl_step := SlotStep \<rparr>
      else if step_shown ConfirmStep s then s\<lparr> fl_step := AgendaStep \<rparr>
      else s)"

fun flow_step :: "flow \<Rightarrow> flow_event \<Rightarrow> flow" where
  "flow_step s (SelectType t) =
     (if step_shown TypeStep s then s\<lparr> selectedType := Some t, slots := [] \<rparr> else s)"
| "flow_step s NextStep = flow_next s"
| "flow_step s BackStep = flow_back s"
| "flow_step s ChangeTime =
     (if step_shown ConfirmStep s \<and> \<not> isPending s then s\<lparr> fl_step := SlotStep \<rparr> else s)"
| "flow_step s PreviousWeek =
     (if step_shown SlotStep s \<and> weekOffset s \<noteq> 0 then s\<lparr> weekOffset := weekOffset s - 1, slots := [] \<rparr> else s)"
| "flow_step s NextWeek =
     (if step_shown SlotStep s then s\<lparr> weekOffset := weekOffset s + 1, slots := [] \<rparr> else s)"
| "flow_step s (SlotsLoaded xs) =
     (if slotsEnabled s
      then s\<lparr> slots := xs, offered := offered s @ map (\<lambda>x. (mt_id (the (selectedType s)), x)) xs \<rparr> else s)"
| "flow_step s (SelectSlot x) =
     (if step_shown SlotStep s \<and> x \<in> set (slots s) then s\<lparr> selectedSlot := Some x \<rparr> else s)"
| "flow_step s (SetAgenda t) = (if step_shown AgendaStep s then s\<lparr> agenda := take 2000 t \<rparr> else s)"
| "flow_step s ConfirmBooking =
     (if step_shown ConfirmStep s \<and> \<not> isPending s then handleBooking s else s)"
| "flow_step s (Settled ok) = booking_settles ok s"
| "flow_step s BookAnother = (if booked s then reset s else s)"

text \<open>What the confirmation says was booked.\<close>

definition confirmation :: "flow \<Rightarrow> (meeting_type option \<times> slot option) option" where
  "confirmation s = (if booked s then Some (selectedType s, selectedSlot s) else None)"

section \<open>Booked meetings\<close>

record meeting =
  mg_id :: string
  mg_status :: string

definition CLOSED_MEETINGS :: "string list" where
  "CLOSED_MEETINGS = [''cancelled'', ''completed'']"

definition upcoming :: "meeting list \<Rightarrow> meeting list" where
  "upcoming ms = filter (\<lambda>m. mg_status m \<notin> set CLOSED_MEETINGS) ms"

definition past :: "meeting list \<Rightarrow> meeting list" where
  "past ms = filter (\<lambda>m. mg_status m \<in> set CLOSED_MEETINGS) ms"

datatype meeting_call = CancelCall string "string option" | RescheduleCall string string

record card =
  rescheduleOpen :: bool
  newDate :: string
  newTime :: string
  cancelReason :: string
  cancelOpen :: bool
  cancelPending :: bool
  reschedulePending :: bool
  card_calls :: "meeting_call list"

definition card_start :: card where
  "card_start = \<lparr> rescheduleOpen = False, newDate = [], newTime = [], cancelReason = [], cancelOpen = False,
     cancelPending = False, reschedulePending = False, card_calls = [] \<rparr>"

definition handleCancel :: "meeting \<Rightarrow> card \<Rightarrow> card" where
  "handleCancel m c =
     c\<lparr> cancelPending := True,
        card_calls := card_calls c @ [CancelCall (mg_id m) (if cancelReason c = [] then None else Some (cancelReason c))] \<rparr>"

text \<open>\<open>to_iso\<close> is \<open>new Date(text).toISOString()\<close>.\<close>

definition handleReschedule :: "(string \<Rightarrow> string) \<Rightarrow> meeting \<Rightarrow> card \<Rightarrow> card" where
  "handleReschedule to_iso m c =
     (if newDate c = [] \<or> newTime c = [] then c
      else c\<lparr> reschedulePending := True,
              card_calls := card_calls c @ [RescheduleCall (mg_id m) (to_iso (newDate c @ ''T'' @ newTime c @ '':00''))] \<rparr>)"

datatype card_event =
  OpenCancel bool | OpenReschedule bool | Reason string | NewDate string | NewTime string
| CancelMeeting | Reschedule | CancelAnswer bool | RescheduleAnswer bool

text \<open>Both dialogs are there for meetings that are not closed, and their buttons while no answer is
  outstanding.  A refused call leaves its dialog open.\<close>

definition card_step :: "(string \<Rightarrow> string) \<Rightarrow> meeting \<Rightarrow> card \<Rightarrow> card_event \<Rightarrow> card" where
  "card_step to_iso m c e =
     (if mg_status m \<in> set CLOSED_MEETINGS then c
      else case e of
        OpenCancel b \<Rightarrow> c\<lparr> cancelOpen := b \<rparr>
      | OpenReschedule b \<Rightarrow> c\<lparr> rescheduleOpen := b \<rparr>
      | Reason t \<Rightarrow> (if cancelOpen c then c\<lparr> cancelReason := t \<rparr> else c)
      | NewDate t \<Rightarrow> (if rescheduleOpen c then c\<lparr> newDate := t \<rparr> else c)
      | NewTime t \<Rightarrow> (if rescheduleOpen c then c\<lparr> newTime := t \<rparr> else c)
      | CancelMeeting \<Rightarrow> (if cancelOpen c \<and> \<not> cancelPending c then handleCancel m c else c)
      | Reschedule \<Rightarrow> (if rescheduleOpen c \<and> \<not> reschedulePending c then handleReschedule to_iso m c else c)
      | CancelAnswer ok \<Rightarrow>
          (if cancelPending c then c\<lparr> cancelPending := False, cancelOpen := (\<not> ok \<and> cancelOpen c) \<rparr> else c)
      | RescheduleAnswer ok \<Rightarrow>
          (if reschedulePending c then c\<lparr> reschedulePending := False, rescheduleOpen := (\<not> ok \<and> rescheduleOpen c) \<rparr>
           else c))"

section \<open>What is booked\<close>

definition starts :: "flow \<Rightarrow> string set" where
  "starts s = (start_time \<circ> snd) ` set (offered s)"

text \<open>\<open>unanswered\<close> of the requests are the ones the server has neither taken nor refused: at most
  the last one.  Each request accepted was sent.\<close>

definition flow_ok :: "flow \<Rightarrow> bool" where
  "flow_ok s \<longleftrightarrow>
     list_all (\<lambda>x. start_time x \<in> starts s) (slots s) \<and>
     pred_option (\<lambda>x. start_time x \<in> starts s) (selectedSlot s) \<and>
     list_all (\<lambda>r. rq_start r \<in> starts s) (sent s) \<and>
     (isPending s \<longrightarrow> sent s \<noteq> [] \<and> subseq (accepted s) (butlast (sent s)) \<and> \<not> booked s) \<and>
     subseq (accepted s) (sent s)"

lemma flow_step_ok: "flow_ok s \<Longrightarrow> flow_ok (flow_step s e)"
proof (cases e)
  case (SlotsLoaded xs)
  assume ok: "flow_ok s"
  let ?t = "s\<lparr> slots := xs, offered := offered s @ map (\<lambda>x. (mt_id (the (selectedType s)), x)) xs \<rparr>"
  have "starts ?t = starts s \<union> start_time ` set xs" by (simp add: starts_def image_Un image_image)
  then have "flow_ok ?t" using ok
    by (auto simp: flow_ok_def list_all_iff pred_option_def)
  then show ?thesis using ok by (simp add: SlotsLoaded)
next
  case ConfirmBooking
  assume ok: "flow_ok s"
  show ?thesis
  proof (cases "step_shown ConfirmStep s \<and> \<not> isPending s")
    case True
    then show ?thesis using ok ConfirmBooking
      by (auto simp: flow_ok_def handleBooking_def starts_def step_shown_def list_all_iff split: option.splits)
  qed (use ok ConfirmBooking in \<open>auto\<close>)
next
  case (Settled b)
  assume ok: "flow_ok s"
  have "subseq (accepted s @ [last (sent s)]) (sent s)" if "isPending s"
  proof -
    have "subseq (accepted s) (butlast (sent s))" "butlast (sent s) @ [last (sent s)] = sent s"
      using ok that by (simp_all add: flow_ok_def)
    then show ?thesis by (metis subseq_append)
  qed
  then show ?thesis using ok Settled by (auto simp: flow_ok_def booking_settles_def starts_def)
qed (auto simp: flow_ok_def starts_def flow_next_def flow_back_def reset_def step_shown_def list_all_iff)

interpretation booking: machine flow_step flow_ok
  by unfold_locales (rule flow_step_ok)

text \<open>In every run: a request is made for the start of a slot the server has offered, the meetings
  accepted are among the requests, at most the last request is still open, and none is while the
  confirmation is shown.\<close>

theorem bookings_were_offered:
  "let s = run flow_step es flow_start in
     set (map rq_start (sent s)) \<subseteq> starts s \<and> subseq (accepted s) (sent s) \<and>
     (if isPending s then subseq (accepted s) (butlast (sent s)) \<and> \<not> booked s else True)"
proof -
  have "flow_ok flow_start" by (simp add: flow_ok_def flow_start_def)
  then have "flow_ok (run flow_step es flow_start)" by (rule booking.every_run_inv)
  then show ?thesis by (auto simp: flow_ok_def Let_def list_all_iff)
qed

definition short :: meeting_type where "short = \<lparr> mt_id = ''s'', mt_label = [], duration_minutes = 15 \<rparr>"
definition long :: meeting_type where "long = \<lparr> mt_id = ''l'', mt_label = [], duration_minutes = 60 \<rparr>"
definition nine :: slot where "nine = \<lparr> slot_date = [], start_time = ''9'', end_time = ''915'' \<rparr>"
definition ten :: slot where "ten = \<lparr> slot_date = [], start_time = ''10'', end_time = ''11'' \<rparr>"

lemmas sample_run = flow_start_def short_def long_def nine_def ten_def step_shown_def flow_next_def flow_back_def
  slotsEnabled_def handleBooking_def booking_settles_def confirmation_def

text \<open>The slot survives a change of the type: a long meeting is requested in a slot that was offered
  for a short one only.\<close>

lemma slot_of_other_type_requested:
  "let s = run flow_step [SelectType short, NextStep, SlotsLoaded [nine], SelectSlot nine, BackStep, SelectType long,
        NextStep, NextStep, NextStep, ConfirmBooking] flow_start in
     map rq_type (sent s) = [''l''] \<and> map rq_start (sent s) = [''9''] \<and> offered s = [(''s'', nine)]"
  by (simp add: sample_run)

text \<open>The way back stays open while the request is: the confirmation then names what is selected by
  now, not what was booked.\<close>

lemma confirmation_of_other_slot:
  "let s = run flow_step [SelectType long, NextStep, SlotsLoaded [nine, ten], SelectSlot nine, NextStep, NextStep,
        ConfirmBooking, BackStep, BackStep, SelectSlot ten, Settled True] flow_start in
     map rq_start (accepted s) = [''9''] \<and> confirmation s = Some (Some long, Some ten)"
  by (simp add: sample_run)

lemma meetings_partitioned: "set (upcoming ms) \<union> set (past ms) = set ms" "set (upcoming ms) \<inter> set (past ms) = {}"
  by (auto simp: upcoming_def past_def)

text \<open>No call is made for a closed meeting.\<close>

lemma closed_meeting_untouched:
  "mg_status m \<in> set CLOSED_MEETINGS \<Longrightarrow> run (card_step to_iso m) es c = c"
  by (induction es) (simp_all add: card_step_def)

end
