(* ===== verification/GanttChart.thy ===== *)
theory GanttChart
  imports ProgramGantt JsNumbers Complex_Main
begin

text \<open>
  The drawing of the Gantt chart (\<open>components/programs/gantt-chart.tsx\<close>) of the items that
  ProgramGantt computes, and its toolbar (\<open>gantt-toolbar.tsx\<close>).  A coordinate is a rational number of
  pixels.  The texts the platform makes of dates are left out of the ticks.  The ticks and the range
  follow the local time \<open>z\<close> of the browser; where a claim needs it, \<open>clock_within w z\<close> says that
  its offset to UTC stays within an interval of \<open>w\<close> milliseconds.
\<close>

section \<open>Scales\<close>

definition LABEL_WIDTH :: rat where "LABEL_WIDTH = 220"
definition ROW_HEIGHT :: rat where "ROW_HEIGHT = 36"
definition HEADER_HEIGHT :: rat where "HEADER_HEIGHT = 56"
definition BAR_HEIGHT :: rat where "BAR_HEIGHT = 20"
definition BAR_VERTICAL_OFFSET :: rat where "BAR_VERTICAL_OFFSET = (ROW_HEIGHT - BAR_HEIGHT) / 2"

datatype zoom_level = DayZoom | WeekZoom | MonthZoom

fun PX_PER_DAY :: "zoom_level \<Rightarrow> rat" where
  "PX_PER_DAY DayZoom = 44"
| "PX_PER_DAY WeekZoom = 14"
| "PX_PER_DAY MonthZoom = 5"

definition barColor :: "string \<Rightarrow> bool \<Rightarrow> string option \<Rightarrow> string" where
  "barColor status critical priority =
     (if critical then ''#ef4444''
      else if status = ''completed'' \<or> status = ''done'' then ''#10b981''
      else if status = ''in_progress'' then ''#3b82f6''
      else if status = ''blocked'' then ''#f59e0b''
      else if status = ''cancelled'' then ''#94a3b8''
      else if priority = Some ''urgent'' then ''#f97316''
      else if priority = Some ''high'' then ''#6366f1''
      else ''#64748b'')"

text \<open>In hundredths.\<close>

definition barOpacity :: "string \<Rightarrow> int" where
  "barOpacity status =
     (if status = ''completed'' \<or> status = ''done'' then 75 else if status = ''cancelled'' then 45 else 100)"

definition diffDays :: "int \<Rightarrow> int \<Rightarrow> rat" where
  "diffDays a b = of_int (b - a) / of_int DAY_MS"

section \<open>Ticks\<close>

record tick =
  tick_day :: int
  tick_x :: rat
  isMajor :: bool

definition local_day :: "zone \<Rightarrow> int \<Rightarrow> int" where
  "local_day z t = to_local z t div DAY_MS"

definition ticks_at :: "zone \<Rightarrow> int \<Rightarrow> rat \<Rightarrow> zoom_level \<Rightarrow> int \<Rightarrow> tick list" where
  "ticks_at z start px zoom cur =
     (let d = local_day z cur; x = diffDays start cur * px; c = civil d in
      case zoom of
        DayZoom \<Rightarrow> [\<lparr> tick_day = d, tick_x = x, isMajor = (cv_day c = 1) \<rparr>]
      | WeekZoom \<Rightarrow>
          (if get_day d = 1 \<or> d = local_day z start
           then [\<lparr> tick_day = d, tick_x = x, isMajor = (cv_day c \<le> 7) \<rparr>] else [])
      | MonthZoom \<Rightarrow>
          (if cv_day c = 1 \<or> d = local_day z start
           then [\<lparr> tick_day = d, tick_x = x, isMajor = (cv_month c = 1) \<rparr>] else []))"

text \<open>The loop goes from day to day with \<open>setDate\<close>, so that it ends depends on the clock: no result is
  an endless loop.\<close>

partial_function (option) tick_loop :: "zone \<Rightarrow> int \<Rightarrow> int \<Rightarrow> rat \<Rightarrow> zoom_level \<Rightarrow> int \<Rightarrow> tick list option" where
  "tick_loop z start stop px zoom cur =
     (if cur \<le> stop
      then Option.bind (tick_loop z start stop px zoom (addDays z cur 1))
        (\<lambda>later. Some (ticks_at z start px zoom cur @ later))
      else Some [])"

definition buildTicks :: "zone \<Rightarrow> int \<Rightarrow> int \<Rightarrow> rat \<Rightarrow> zoom_level \<Rightarrow> tick list option" where
  "buildTicks z start stop px zoom = tick_loop z start stop px zoom (midnight z start)"

section \<open>The chart\<close>

record gantt_filters =
  hideCompleted :: bool
  showOnlyCritical :: bool
  hideTasks :: bool

text \<open>An item with its mark of the critical path.\<close>

type_synonym marked = "gantt_item \<times> bool"

definition visibleItems :: "gantt_filters \<Rightarrow> marked list \<Rightarrow> marked list" where
  "visibleItems f xs =
     filter (\<lambda>(i, critical).
       if hideTasks f \<and> i_type i = Task then False
       else if hideCompleted f \<and> (i_status i = ''completed'' \<or> i_status i = ''done'') then False
       else if showOnlyCritical f \<and> \<not> critical then False
       else True) xs"

definition rowByItemId :: "marked list \<Rightarrow> (string \<times> nat) list" where
  "rowByItemId vis = spread [] (map (\<lambda>(n, i, c). (i_id i, n)) (enumerate 0 vis))"

definition visibleDeps :: "marked list \<Rightarrow> gantt_dep list \<Rightarrow> gantt_dep list" where
  "visibleDeps vis deps =
     filter (\<lambda>d. fromId d \<in> fst ` set (rowByItemId vis) \<and> toId d \<in> fst ` set (rowByItemId vis)) deps"

text \<open>\<open>Math.ceil(q)\<close> is minus the floor of \<open>-q\<close>.\<close>

definition totalDays :: "gantt_data \<Rightarrow> int" where
  "totalDays g = - \<lfloor>- diffDays (gd_start g) (gd_end g)\<rfloor> + 1"

definition svgWidth :: "gantt_data \<Rightarrow> zoom_level \<Rightarrow> rat" where
  "svgWidth g zoom = LABEL_WIDTH + of_int (totalDays g) * PX_PER_DAY zoom"

definition svgHeight :: "marked list \<Rightarrow> rat" where
  "svgHeight vis = HEADER_HEIGHT + of_nat (length vis) * ROW_HEIGHT + 20"

definition dateToX :: "gantt_data \<Rightarrow> zoom_level \<Rightarrow> int \<Rightarrow> rat" where
  "dateToX g zoom t = LABEL_WIDTH + diffDays (gd_start g) t * PX_PER_DAY zoom"

definition todayMarker :: "zone \<Rightarrow> int \<Rightarrow> gantt_data \<Rightarrow> zoom_level \<Rightarrow> rat option" where
  "todayMarker z now g zoom =
     (let today = midnight z now in
      if gd_start g \<le> today \<and> today \<le> gd_end g then Some (dateToX g zoom today) else None)"

record bar =
  bar_id :: string
  barX :: rat
  barY :: rat
  barW :: rat
  label_indent :: nat

definition bar_at :: "gantt_data \<Rightarrow> zoom_level \<Rightarrow> nat \<Rightarrow> gantt_item \<Rightarrow> bar" where
  "bar_at g zoom row i =
     (let x1 = dateToX g zoom (i_start i); x2 = dateToX g zoom (i_end i)
      in \<lparr> bar_id = i_id i, barX = x1,
           barY = HEADER_HEIGHT + of_nat row * ROW_HEIGHT + BAR_VERTICAL_OFFSET,
           barW = max 4 (x2 - x1), label_indent = i_depth i * 14 \<rparr>)"

definition bars :: "gantt_data \<Rightarrow> zoom_level \<Rightarrow> gantt_filters \<Rightarrow> bar list" where
  "bars g zoom f = map (\<lambda>(n, i, c). bar_at g zoom n i) (enumerate 0 (visibleItems f (gd_items g)))"

text \<open>The points of an arrow.\<close>

definition buildArrowPath :: "nat \<Rightarrow> rat \<Rightarrow> nat \<Rightarrow> rat \<Rightarrow> (rat \<times> rat) list" where
  "buildArrowPath fromRow fromX2 toRow toX1 =
     (let y1 = HEADER_HEIGHT + of_nat fromRow * ROW_HEIGHT + ROW_HEIGHT / 2;
          y2 = HEADER_HEIGHT + of_nat toRow * ROW_HEIGHT + ROW_HEIGHT / 2;
          midX = fromX2 + (toX1 - fromX2) / 2
      in if fromRow = toRow then [(fromX2, y1), (toX1, y2)]
         else [(fromX2, y1), (midX, y1), (midX, y2), (toX1, y2)])"

record arrow =
  arrow_path :: "(rat \<times> rat) list"
  arrow_critical :: bool

definition arrow_of :: "gantt_data \<Rightarrow> zoom_level \<Rightarrow> marked list \<Rightarrow> gantt_dep \<Rightarrow> arrow option" where
  "arrow_of g zoom vis dep =
     (case (List.find (\<lambda>x. i_id (fst x) = fromId dep) (gd_items g),
            List.find (\<lambda>x. i_id (fst x) = toId dep) (gd_items g)) of
        (Some (a, ca), Some (b, cb)) \<Rightarrow>
          Some \<lparr> arrow_path = buildArrowPath (get_or 0 (rowByItemId vis) (fromId dep)) (dateToX g zoom (i_end a))
                   (get_or 0 (rowByItemId vis) (toId dep)) (dateToX g zoom (i_start b)),
                 arrow_critical = (ca \<and> cb) \<rparr>
      | _ \<Rightarrow> None)"

definition arrows :: "gantt_data \<Rightarrow> zoom_level \<Rightarrow> gantt_filters \<Rightarrow> arrow list" where
  "arrows g zoom f =
     (let vis = visibleItems f (gd_items g)
      in List.map_filter (arrow_of g zoom vis) (visibleDeps vis (gd_deps g)))"

section \<open>The toolbar\<close>

definition zoom_index :: "zoom_level \<Rightarrow> nat" where
  "zoom_index z = (case z of DayZoom \<Rightarrow> 0 | WeekZoom \<Rightarrow> 1 | MonthZoom \<Rightarrow> 2)"

definition ZOOM_LEVELS :: "zoom_level list" where
  "ZOOM_LEVELS = [DayZoom, WeekZoom, MonthZoom]"

definition handleZoomIn :: "zoom_level \<Rightarrow> zoom_level" where
  "handleZoomIn z = (if 0 < zoom_index z then ZOOM_LEVELS ! (zoom_index z - 1) else z)"

definition handleZoomOut :: "zoom_level \<Rightarrow> zoom_level" where
  "handleZoomOut z = (if zoom_index z < length ZOOM_LEVELS - 1 then ZOOM_LEVELS ! (zoom_index z + 1) else z)"

definition activeFiltersCount :: "gantt_filters \<Rightarrow> nat" where
  "activeFiltersCount f = length (filter id [hideCompleted f, showOnlyCritical f, hideTasks f])"

section \<open>Nothing is drawn outside\<close>

lemma px_pos: "5 \<le> PX_PER_DAY z"
  by (cases z) simp_all

lemma day_ms_pos: "0 < (of_int DAY_MS :: rat)"
  by (simp add: DAY_MS_def)

lemma diffDays_mono: "a \<le> b \<Longrightarrow> diffDays s a \<le> diffDays s b"
  using day_ms_pos by (simp add: diffDays_def divide_right_mono)

lemma addDays_bounds:
  assumes "clock_within w z"
  shows "t + n * DAY_MS - w \<le> addDays z t n" "addDays z t n \<le> t + n * DAY_MS + w"
  using clock_within_shift [OF assms] by (simp_all add: addDays_def)

text \<open>The range of the chart begins three days before the first date and ends five after the last, up to
  a change of the clock.\<close>

lemma item_dates:
  assumes "clock_within w z" "(i, c) \<in> set (gd_items (useProgramGantt z now (Some p)))"
  shows "let g = useProgramGantt z now (Some p) in
     \<forall>t \<in> {i_start i, i_end i}. gd_start g + 3 * DAY_MS - w \<le> t \<and> t \<le> gd_end g - 5 * DAY_MS + w"
proof -
  define today where "today = midnight z now"
  obtain items deps where r: "program_rows z today p = (items, deps)" by fastforce
  define ds where "ds = concat (map (\<lambda>i. [i_start i, i_end i]) items)"
  have i: "i \<in> set items" using assms(2) r by (auto simp: useProgramGantt_def today_def Let_def)
  then have m: "i_start i \<in> set ds" "i_end i \<in> set ds" "ds \<noteq> []" by (auto simp: ds_def)
  have "gd_start (useProgramGantt z now (Some p)) = addDays z (Min (set ds)) (-3)"
    "gd_end (useProgramGantt z now (Some p)) = addDays z (Max (set ds)) 5"
    using r m(3) by (simp_all add: useProgramGantt_def today_def Let_def ds_def)
  moreover have "addDays z (Min (set ds)) (-3) + 3 * DAY_MS - w \<le> t \<and> t \<le> addDays z (Max (set ds)) 5 - 5 * DAY_MS + w"
    if "t \<in> set ds" for t
  proof -
    have "Min (set ds) \<le> t" "t \<le> Max (set ds)" using that by simp_all
    then show ?thesis
      using addDays_bounds [OF assms(1), of "Min (set ds)" "-3"] addDays_bounds [OF assms(1), of "Max (set ds)" 5] by simp
  qed
  ultimately show ?thesis using m by (simp add: Let_def)
qed

text \<open>A bar lies between its days, and is inside the chart with the margins of the range.\<close>

definition bar_inside :: "int \<Rightarrow> gantt_data \<Rightarrow> zoom_level \<Rightarrow> gantt_filters \<Rightarrow> bar \<Rightarrow> bool" where
  "bar_inside w g zoom f b \<longleftrightarrow>
     LABEL_WIDTH + (3 - of_int w / of_int DAY_MS) * PX_PER_DAY zoom \<le> barX b \<and> barX b + barW b \<le> svgWidth g zoom \<and>
     HEADER_HEIGHT < barY b \<and> barY b + BAR_HEIGHT < svgHeight (visibleItems f (gd_items g))"

lemma diffDays_shift: "diffDays s (t + n * DAY_MS + w) = diffDays s t + of_int n + of_int w / of_int DAY_MS"
  using day_ms_pos by (simp add: diffDays_def field_simps)

lemma bar_at_inside:
  assumes "clock_within w z" "w \<le> 3 * DAY_MS"
    and "(i, c) \<in> set (gd_items (useProgramGantt z now (Some p)))" "n < length (visibleItems f (gd_items g))"
    and "g = useProgramGantt z now (Some p)"
  shows "bar_inside w g zoom f (bar_at g zoom n i)"
proof -
  let ?d = "diffDays (gd_start g)"
  define q :: rat where "q = of_int w / of_int DAY_MS"
  have q: "q \<le> 3"
  proof -
    have "(of_int w :: rat) \<le> of_int (3 * DAY_MS)" using assms(2) by (simp only: of_int_le_iff)
    then show ?thesis using day_ms_pos by (simp add: q_def divide_le_eq)
  qed
  have dates: "gd_start g + 3 * DAY_MS - w \<le> t" "t \<le> gd_end g - 5 * DAY_MS + w" if "t \<in> {i_start i, i_end i}" for t
    using item_dates [OF assms(1,3), folded assms(5), unfolded Let_def] that by blast+
  have s: "3 - q \<le> ?d t" "?d t \<le> ?d (gd_end g) - 5 + q" if "t \<in> {i_start i, i_end i}" for t
    using diffDays_mono [OF dates(1) [OF that], of "gd_start g"] diffDays_mono [OF dates(2) [OF that], of "gd_start g"]
      diffDays_shift [of "gd_start g" "gd_start g" 3 "-w"] diffDays_shift [of "gd_start g" "gd_end g" "-5" w]
    by (simp_all add: q_def [symmetric] diffDays_def)
  have t: "?d (gd_end g) + 1 \<le> of_int (totalDays g)" unfolding totalDays_def by linarith
  define px where "px = PX_PER_DAY zoom"
  have px: "5 \<le> px" by (simp add: px_def px_pos)
  have a: "(3 - q) * px \<le> ?d (i_start i) * px" using s(1) [of "i_start i"] px by (intro mult_right_mono) auto
  have b: "?d (i_end i) * px \<le> of_int (totalDays g) * px" using s(2) [of "i_end i"] q t px by (intro mult_right_mono) auto
  have "(?d (i_start i) + 1) * px \<le> of_int (totalDays g) * px" using s(2) [of "i_start i"] q t px by (intro mult_right_mono) auto
  then have c: "?d (i_start i) * px + 4 \<le> of_int (totalDays g) * px" using px by (simp add: algebra_simps)
  have "of_nat n + 1 \<le> (of_nat (length (visibleItems f (gd_items g))) :: rat)"
    using assms(4) by (metis Suc_leI of_nat_Suc of_nat_le_iff add.commute)
  then have h: "of_nat n * 36 + 36 \<le> (of_nat (length (visibleItems f (gd_items g))) * 36 :: rat)" by simp
  show ?thesis
    using a b c h
    by (simp add: bar_inside_def bar_at_def dateToX_def svgWidth_def svgHeight_def Let_def px_def [symmetric]
        q_def [symmetric] LABEL_WIDTH_def ROW_HEIGHT_def HEADER_HEIGHT_def BAR_HEIGHT_def BAR_VERTICAL_OFFSET_def)
qed

lemma bars_nth:
  "length (bars g zoom f) = length (visibleItems f (gd_items g))"
  "n < length (visibleItems f (gd_items g)) \<Longrightarrow>
     bars g zoom f ! n = bar_at g zoom n (fst (visibleItems f (gd_items g) ! n))"
  by (simp_all add: bars_def nth_enumerate_eq split: prod.split)

text \<open>C37.  Whatever the program, the zoom and the filters, in a zone whose offset to UTC stays within an
  interval of length \<open>w\<close> (an hour for summer time, and three days at most): every bar lies inside the chart, below the
  header and at least three days less \<open>w\<close> after the labels, and the bars lie in rows of their own from
  top to bottom.\<close>

theorem bars_inside_chart:
  assumes "clock_within w z" "w \<le> 3 * DAY_MS"
  shows "let g = useProgramGantt z now (Some p) in
     list_all (bar_inside w g zoom f) (bars g zoom f) \<and>
     sorted_wrt (\<lambda>a b. barY a + BAR_HEIGHT < barY b) (bars g zoom f)"
proof -
  define g where "g = useProgramGantt z now (Some p)"
  let ?vis = "visibleItems f (gd_items g)"
  have "bar_inside w g zoom f (bars g zoom f ! n)" if "n < length ?vis" for n
  proof -
    have "?vis ! n \<in> set (gd_items g)" using nth_mem [OF that] by (simp add: visibleItems_def)
    then have m: "(fst (?vis ! n), snd (?vis ! n)) \<in> set (gd_items (useProgramGantt z now (Some p)))"
      by (simp add: g_def)
    show ?thesis using bar_at_inside [OF assms m that g_def] that by (simp add: bars_nth)
  qed
  then have "list_all (bar_inside w g zoom f) (bars g zoom f)" by (simp add: list_all_length bars_nth)
  moreover have "barY (bars g zoom f ! m) + BAR_HEIGHT < barY (bars g zoom f ! n)"
    if "m < n" "n < length ?vis" for m n
  proof -
    have "(of_nat m :: rat) + 1 \<le> of_nat n" using that(1) by (metis Suc_leI of_nat_Suc of_nat_le_iff add.commute)
    then show ?thesis using that by (simp add: bars_nth bar_at_def Let_def ROW_HEIGHT_def BAR_HEIGHT_def)
  qed
  ultimately show ?thesis by (simp add: g_def [symmetric] Let_def sorted_wrt_iff_nth_less bars_nth)
qed

text \<open>A program that starts in Berlin on the Monday after the clocks went forward: its first bar is 71
  hours into the chart.\<close>

definition spring_program :: gantt_program where
  "spring_program =
     \<lparr> p_start = Some (20542 * DAY), p_end = None,
       p_milestones = [\<lparr> m_id = ''m1'', m_title = [], m_status = [], m_position = 0, m_due = Some (20550 * DAY), m_tasks = [] \<rparr>] \<rparr>"

definition all_shown :: gantt_filters where
  "all_shown = \<lparr> hideCompleted = False, showOnlyCritical = False, hideTasks = False \<rparr>"

lemma bars_inside_witness:
  "list_all (bar_inside HOUR (useProgramGantt berlin 0 (Some spring_program)) DayZoom all_shown)
     (bars (useProgramGantt berlin 0 (Some spring_program)) DayZoom all_shown)"
  using bars_inside_chart [OF berlin_clock, of 0 spring_program DayZoom all_shown]
  by (simp add: Let_def HOUR_def DAY_MS_def)

lemma spring_margin:
  "let g = useProgramGantt berlin 0 (Some spring_program) in
     map barX (bars g DayZoom all_shown) = [LABEL_WIDTH + 71 / 24 * PX_PER_DAY DayZoom]"
  by code_simp

lemma row_keys: "fst ` set (rowByItemId vis) = i_id ` fst ` set vis"
proof -
  have "map (\<lambda>(n, i, c). i_id i) (enumerate 0 vis) = map (\<lambda>x. i_id (fst x)) vis"
    by (rule nth_equalityI) (simp_all add: nth_enumerate_eq split: prod.split)
  then have "set (map (\<lambda>(n, i, c). i_id i) (enumerate 0 vis)) = set (map (\<lambda>x. i_id (fst x)) vis)" by simp
  then show ?thesis by (simp add: rowByItemId_def spread_keys image_image case_prod_beta)
qed

lemma find_none_iff: "List.find P xs = None \<longleftrightarrow> (\<forall>x \<in> set xs. \<not> P x)"
  by (induction xs) auto

lemma visible_subset: "set (visibleItems f xs) \<subseteq> set xs"
  by (auto simp: visibleItems_def)

lemma find_visible:
  assumes "d \<in> i_id ` fst ` set (visibleItems f xs)"
  shows "\<exists>y. List.find (\<lambda>x. i_id (fst x) = d) xs = Some y"
  using assms visible_subset [of f xs] find_none_iff [of "\<lambda>x. i_id (fst x) = d" xs]
  by (cases "List.find (\<lambda>x. i_id (fst x) = d) xs") auto

text \<open>An arrow is drawn for a dependency exactly when both of its items are shown.\<close>

theorem arrows_between_shown_items:
  "length (arrows g zoom f) =
     length (filter (\<lambda>d. {fromId d, toId d} \<subseteq> i_id ` fst ` set (visibleItems f (gd_items g))) (gd_deps g))"
proof -
  define vis where "vis = visibleItems f (gd_items g)"
  have "\<exists>a. arrow_of g zoom vis d = Some a" if "d \<in> set (visibleDeps vis (gd_deps g))" for d
  proof -
    have shown: "fromId d \<in> i_id ` fst ` set (visibleItems f (gd_items g))"
        "toId d \<in> i_id ` fst ` set (visibleItems f (gd_items g))"
      using that by (simp_all add: visibleDeps_def row_keys vis_def)
    obtain x where "List.find (\<lambda>x. i_id (fst x) = fromId d) (gd_items g) = Some x"
      using find_visible [OF shown(1)] by blast
    moreover obtain y where "List.find (\<lambda>x. i_id (fst x) = toId d) (gd_items g) = Some y"
      using find_visible [OF shown(2)] by blast
    ultimately show ?thesis by (simp add: arrow_of_def case_prod_beta)
  qed
  then have "filter (\<lambda>d. arrow_of g zoom vis d \<noteq> None) (visibleDeps vis (gd_deps g)) = visibleDeps vis (gd_deps g)"
    by (intro filter_True) fastforce
  then have "length (List.map_filter (arrow_of g zoom vis) (visibleDeps vis (gd_deps g)))
      = length (visibleDeps vis (gd_deps g))"
    by (simp only: map_filter_def length_map)
  then show ?thesis by (simp add: arrows_def vis_def [symmetric] Let_def visibleDeps_def row_keys)
qed

text \<open>Ticks begin less than a day before the range, at its midnight, and never lie after it.\<close>

lemma ticks_at_x: "t \<in> set (ticks_at z s px zoom cur) \<Longrightarrow> tick_x t = diffDays s cur * px"
  by (cases zoom) (auto simp: ticks_at_def Let_def split: if_splits)

lemma tick_loop_ends:
  assumes "clock_within w z" "w < DAY_MS"
  shows "\<exists>ts. tick_loop z start stop px zoom cur = Some ts"
proof (induction "nat (stop - cur + 1)" arbitrary: cur rule: less_induct)
  case less
  have "cur < addDays z cur 1" using addDays_bounds(1) [OF assms(1), of cur 1] assms(2) by simp
  then have "\<exists>ts. tick_loop z start stop px zoom (addDays z cur 1) = Some ts" if "cur \<le> stop"
    using less [of "addDays z cur 1"] that by simp
  then show ?case by (subst tick_loop.simps) auto
qed

lemma tick_loop_range:
  assumes "clock_within w z" "w < DAY_MS" "0 < px"
  shows "start - DAY_MS - w < cur \<Longrightarrow> tick_loop z start stop px zoom cur = Some ts \<Longrightarrow> t \<in> set ts \<Longrightarrow>
     - (1 + of_int w / of_int DAY_MS) * px < tick_x t \<and> tick_x t \<le> diffDays start stop * px"
proof (induction "nat (stop - cur + 1)" arbitrary: cur ts rule: less_induct)
  case less
  have c: "cur \<le> stop" using less.prems(2,3) by (subst (asm) tick_loop.simps) (simp split: if_splits)
  have on: "cur < addDays z cur 1" using addDays_bounds(1) [OF assms(1), of cur 1] assms(2) by simp
  obtain later where later: "tick_loop z start stop px zoom (addDays z cur 1) = Some later"
      "ts = ticks_at z start px zoom cur @ later"
    using less.prems(2) c by (subst (asm) tick_loop.simps) (auto split: Option.bind_splits)
  consider "t \<in> set (ticks_at z start px zoom cur)" | "t \<in> set later"
    using less.prems(3) later(2) by auto
  then show ?case
  proof cases
    case 1
    have "diffDays start (start + (-1) * DAY_MS + (- w)) < diffDays start cur"
      using less.prems(1) day_ms_pos by (simp add: diffDays_def divide_strict_right_mono)
    then have "- (1 + of_int w / of_int DAY_MS) < diffDays start cur"
      unfolding diffDays_shift by (simp add: diffDays_def)
    then have "- (1 + of_int w / of_int DAY_MS) * px < diffDays start cur * px"
      using \<open>0 < px\<close> by (rule mult_strict_right_mono)
    moreover have "diffDays start cur * px \<le> diffDays start stop * px"
      using diffDays_mono [OF c] \<open>0 < px\<close> by (simp add: mult_right_mono)
    ultimately show ?thesis using ticks_at_x [OF 1] by simp
  next
    case 2
    show ?thesis
      using less.hyps [OF _ _ later(1) 2] less.prems(1) on c by simp
  qed
qed

text \<open>The loop of the ticks ends, and the ticks lie in the range of the chart.\<close>

lemma ticks_in_range:
  assumes "clock_within w z" "w < DAY_MS"
  shows "\<exists>ts. buildTicks z start stop (PX_PER_DAY zoom) zoom = Some ts \<and>
     list_all (\<lambda>t. - (1 + of_int w / of_int DAY_MS) * PX_PER_DAY zoom < tick_x t
       \<and> tick_x t \<le> diffDays start stop * PX_PER_DAY zoom) ts"
proof -
  have "0 < PX_PER_DAY zoom" using px_pos [of zoom] by linarith
  note r = tick_loop_range [OF assms this]
  have "start - DAY_MS - w < midnight z start"
    using clock_within_shift(1) [OF assms(1), of start "- (to_local z start mod DAY_MS)"]
      pos_mod_bound [of DAY_MS "to_local z start"] by (simp add: midnight_def Let_def DAY_MS_def)
  moreover obtain ts where "tick_loop z start stop (PX_PER_DAY zoom) zoom (midnight z start) = Some ts"
    using tick_loop_ends [OF assms] by blast
  ultimately show ?thesis using r by (auto simp: buildTicks_def list_all_iff)
qed

end
