(* ===== verification/ListPages.thy ===== *)
theory ListPages
  imports Machines
begin

text \<open>
  The list pages of the dashboard: partners, programs and clients
  (\<open>app/(dashboard)/partners/page.tsx\<close>, \<open>programs/page.tsx\<close>, \<open>clients/page.tsx\<close>).  The three pages have the
  same state and differ in the keys of their filters.

  A replaced address is pending (\<open>nav\<close>) until the router commits it; a later one supersedes it.  The
  handlers read the committed address of the render they belong to.  The effect that writes the
  debounced search runs after the first render, when the debounced text changes, and when a
  commit has changed the address.
\<close>

section \<open>The address\<close>

record saved_filter =
  is_default :: bool
  filter_config :: "(string \<times> string) list"

record list_page =
  committed :: params
  nav :: "params option"
  searchInput :: string
  debouncedSearch :: string
  hasAppliedDefault :: bool
  savedFilters :: "saved_filter list option"
  selectedIds :: "string list"
  opened :: "string list"

definition param_of :: "string \<Rightarrow> params \<Rightarrow> string" where
  "param_of k ps = get_or ''all'' ps k"

definition update_param :: "string \<Rightarrow> string \<Rightarrow> params \<Rightarrow> params" where
  "update_param key v ps =
     (if v \<noteq> [] \<and> v \<noteq> ''all'' then params_set key v ps else params_delete key ps)"

definition router_replace :: "params \<Rightarrow> list_page \<Rightarrow> list_page" where
  "router_replace ps s = s\<lparr> nav := Some ps \<rparr>"

definition updateParam :: "string \<Rightarrow> string \<Rightarrow> list_page \<Rightarrow> list_page" where
  "updateParam key v s = router_replace (update_param key v (committed s)) s"

definition sync_search :: "list_page \<Rightarrow> list_page" where
  "sync_search s = updateParam ''search'' (debouncedSearch s) s"

definition commit :: "list_page \<Rightarrow> list_page" where
  "commit s =
     (case nav s of
        None \<Rightarrow> s
      | Some ps \<Rightarrow>
          if ps = committed s then s\<lparr> nav := None \<rparr>
          else sync_search (s\<lparr> committed := ps, nav := None \<rparr>))"

section \<open>The default filter\<close>

text \<open>The configuration of a filter as parameters; \<open>params.set\<close> in the order of its entries.\<close>

definition config_params :: "(string \<times> string) list \<Rightarrow> params" where
  "config_params cfg = fold (\<lambda>(k, v) ps. if v \<noteq> [] \<and> v \<noteq> ''all'' then params_set k v ps else ps) cfg []"

definition apply_default :: "list_page \<Rightarrow> list_page" where
  "apply_default s =
     (if hasAppliedDefault s then s
      else case savedFilters s of
        None \<Rightarrow> s
      | Some fs \<Rightarrow>
          if committed s \<noteq> [] then s
          else case find_first is_default fs of
            None \<Rightarrow> s
          | Some f \<Rightarrow>
              (let s = s\<lparr> hasAppliedDefault := True \<rparr>;
                   text = get_or [] (filter_config f) ''search'';
                   s = (if text \<noteq> [] then s\<lparr> searchInput := text \<rparr> else s)
               in router_replace (config_params (filter_config f)) s))"

definition list_mount :: "params \<Rightarrow> saved_filter list option \<Rightarrow> list_page" where
  "list_mount ps saved =
     (let q = get_or [] ps ''search'' in
      apply_default (sync_search
        \<lparr> committed = ps, nav = None, searchInput = q, debouncedSearch = q, hasAppliedDefault = False,
          savedFilters = saved, selectedIds = [], opened = [] \<rparr>))"

section \<open>Actions\<close>

text \<open>A filter chosen from the list of saved ones: \<open>search\<close> is written last.\<close>

definition onApplyFilter :: "(string \<times> string) list \<Rightarrow> list_page \<Rightarrow> list_page" where
  "onApplyFilter cfg s =
     (let ps = config_params (filter (\<lambda>(k, _). k \<noteq> ''search'') cfg);
          s = (if ''search'' \<in> fst ` set cfg then s\<lparr> searchInput := get_or [] cfg ''search'' \<rparr> else s);
          text = get_or [] cfg ''search''
      in router_replace (if text \<noteq> [] then params_set ''search'' text ps else ps) s)"

definition handleResetFilters :: "list_page \<Rightarrow> list_page" where
  "handleResetFilters s = router_replace [] (s\<lparr> searchInput := [] \<rparr>)"

definition toggleSelection :: "string \<Rightarrow> list_page \<Rightarrow> list_page" where
  "toggleSelection i s =
     (if i \<in> set (selectedIds s) then s\<lparr> selectedIds := removeAll i (selectedIds s) \<rparr>
      else if length (selectedIds s) < 4 then s\<lparr> selectedIds := selectedIds s @ [i] \<rparr>
      else s)"

definition handleCompare :: "string \<Rightarrow> list_page \<Rightarrow> list_page" where
  "handleCompare base s =
     (if length (selectedIds s) < 2 then s
      else s\<lparr> opened := opened s @ [base @ ''/compare?ids='' @ join_with '','' (selectedIds s)] \<rparr>)"

definition handleNavigateToDetail :: "string \<Rightarrow> string \<Rightarrow> list_page \<Rightarrow> list_page" where
  "handleNavigateToDetail base i s = s\<lparr> opened := opened s @ [base @ ''/'' @ i] \<rparr>"

text \<open>Pinned rows first: \<open>sort\<close> is stable.\<close>

definition sorted_rows :: "string set \<Rightarrow> (string \<times> 'r) list \<Rightarrow> (string \<times> 'r) list" where
  "sorted_rows pins rows = sort_key (\<lambda>r. if fst r \<in> pins then 0 else 1 :: nat) rows"

definition hasActiveFilters :: "string list \<Rightarrow> list_page \<Rightarrow> bool" where
  "hasActiveFilters keys s \<longleftrightarrow> list_ex (\<lambda>k. param_of k (committed s) \<noteq> ''all'') keys \<or> searchInput s \<noteq> []"

text \<open>What the query asks for: the debounced text, and the filters of the address.\<close>

definition list_query :: "string list \<Rightarrow> list_page \<Rightarrow> (string \<times> string) list" where
  "list_query keys s =
     (if debouncedSearch s \<noteq> [] then [(''search'', debouncedSearch s)] else []) @
     map (\<lambda>k. (k, param_of k (committed s))) (filter (\<lambda>k. param_of k (committed s) \<noteq> ''all'') keys)"

datatype list_event =
  Type string
| DebounceFires
| Choose string string
| Commit
| SavedLoaded "saved_filter list"
| ApplyFilter "(string \<times> string) list"
| ResetFilters
| ToggleRow string
| ClearSelection
| Compare
| OpenRow string
| HistoryMove params

fun list_step :: "string \<Rightarrow> list_page \<Rightarrow> list_event \<Rightarrow> list_page" where
  "list_step base s (Type t) = s\<lparr> searchInput := t \<rparr>"
| "list_step base s DebounceFires =
     (if debouncedSearch s = searchInput s then s
      else sync_search (s\<lparr> debouncedSearch := searchInput s \<rparr>))"
| "list_step base s (Choose k v) = updateParam k v s"
| "list_step base s Commit = commit s"
| "list_step base s (SavedLoaded fs) = apply_default (s\<lparr> savedFilters := Some fs \<rparr>)"
| "list_step base s (ApplyFilter cfg) = onApplyFilter cfg s"
| "list_step base s ResetFilters = handleResetFilters s"
| "list_step base s (ToggleRow i) = toggleSelection i s"
| "list_step base s ClearSelection = s\<lparr> selectedIds := [] \<rparr>"
| "list_step base s Compare = handleCompare base s"
| "list_step base s (OpenRow i) = handleNavigateToDetail base i s"
| "list_step base s (HistoryMove ps) =
     (if ps = committed s then s else sync_search (s\<lparr> committed := ps, nav := None \<rparr>))"

section \<open>The effect settles\<close>

lemma update_param_get:
  "map_of (update_param k v ps) j =
     (if j = k then (if v \<noteq> [] \<and> v \<noteq> ''all'' then Some v else None) else map_of ps j)"
  by (simp add: update_param_def)

lemma update_param_idem [simp]: "update_param k v (update_param k v ps) = update_param k v ps"
  by (simp add: update_param_def)

definition settle :: "list_page \<Rightarrow> list_page" where
  "settle s = commit (commit (commit s))"

definition target :: "list_page \<Rightarrow> params" where
  "target s = (case nav s of None \<Rightarrow> committed s | Some ps \<Rightarrow> ps)"

lemma commit_sync:
  "nav s = Some (update_param ''search'' (debouncedSearch s) (committed s)) \<Longrightarrow>
     commit (commit s) = s\<lparr> committed := update_param ''search'' (debouncedSearch s) (committed s), nav := None \<rparr>"
  by (auto simp: commit_def sync_search_def updateParam_def router_replace_def)

text \<open>Three commits bring every page with a pending address to rest, on this address with the debounced
  search written into it; nothing else of the page changes.\<close>

theorem page_settles:
  "settle s =
     (if nav s = None then s
      else if nav s = Some (committed s) then s\<lparr> nav := None \<rparr>
      else s\<lparr> committed := update_param ''search'' (debouncedSearch s) (target s), nav := None \<rparr>)"
proof (cases "nav s")
  case None
  then show ?thesis by (simp add: settle_def commit_def)
next
  case (Some ps)
  show ?thesis
  proof (cases "ps = committed s")
    case True
    then have "commit s = s\<lparr> nav := None \<rparr>" using Some by (simp add: commit_def)
    then show ?thesis using Some True by (simp add: settle_def) (simp add: commit_def)
  next
    case False
    then have c: "commit s = sync_search (s\<lparr> committed := ps, nav := None \<rparr>)" using Some by (simp add: commit_def)
    have "commit (commit (commit s))
        = (commit s)\<lparr> committed := update_param ''search'' (debouncedSearch s) ps, nav := None \<rparr>"
      by (subst commit_sync) (simp_all add: c sync_search_def updateParam_def router_replace_def)
    then show ?thesis using Some False
      by (simp add: settle_def target_def c sync_search_def updateParam_def router_replace_def)
  qed
qed

text \<open>While each action is committed before the next one, the address is the record of the choices:
  what a page shows after a list of choices is what a table of the filters shows.\<close>

datatype choice = SetFilter string string | Search string

fun make_choice :: "string \<Rightarrow> list_page \<Rightarrow> choice \<Rightarrow> list_page" where
  "make_choice base s (SetFilter k v) = settle (list_step base s (Choose k v))"
| "make_choice base s (Search t) = settle (list_step base (list_step base s (Type t)) DebounceFires)"

definition clean :: "string \<Rightarrow> string" where
  "clean v = (if v = [] then ''all'' else v)"

fun choose_spec :: "(string \<Rightarrow> string) \<Rightarrow> choice \<Rightarrow> (string \<Rightarrow> string)" where
  "choose_spec m (SetFilter k v) = m(k := clean v)"
| "choose_spec m (Search t) = m(''search'' := clean t)"

fun not_search :: "choice \<Rightarrow> bool" where
  "not_search (SetFilter k v) = (k \<noteq> ''search'')"
| "not_search (Search t) = True"

definition shown_filters :: "list_page \<Rightarrow> string \<Rightarrow> string" where
  "shown_filters s k = param_of k (committed s)"

lemma param_of_update: "param_of j (update_param k v ps) = (if j = k then clean v else param_of j ps)"
  by (simp add: param_of_def get_or_def update_param_get clean_def)

definition page_inv :: "list_page \<Rightarrow> bool" where
  "page_inv s \<longleftrightarrow> nav s = None \<and> searchInput s = debouncedSearch s \<and>
     shown_filters s ''search'' = clean (debouncedSearch s)"

lemma settle_updated:
  "shown_filters (settle (updateParam k v s)) j =
     (if j = ''search'' \<and> update_param k v (committed s) \<noteq> committed s then clean (debouncedSearch s)
      else if j = k then clean v else shown_filters s j)"
  "nav (settle (updateParam k v s)) = None"
  "searchInput (settle (updateParam k v s)) = searchInput s"
  "debouncedSearch (settle (updateParam k v s)) = debouncedSearch s"
proof -
  show "shown_filters (settle (updateParam k v s)) j =
     (if j = ''search'' \<and> update_param k v (committed s) \<noteq> committed s then clean (debouncedSearch s)
      else if j = k then clean v else shown_filters s j)"
  proof (cases "update_param k v (committed s) = committed s")
    case True
    then show ?thesis using param_of_update [of k k v "committed s"]
      by (cases "j = k") (simp_all add: page_settles updateParam_def router_replace_def shown_filters_def)
  next
    case False
    then show ?thesis
      by (simp add: page_settles updateParam_def router_replace_def shown_filters_def target_def param_of_update)
  qed
qed (simp_all add: page_settles updateParam_def router_replace_def)

lemma make_choice_refines:
  assumes "page_inv s" "not_search c"
  shows "page_inv (make_choice base s c) \<and>
    shown_filters (make_choice base s c) = choose_spec (shown_filters s) c"
proof (cases c)
  case (SetFilter k v)
  then show ?thesis using assms by (simp add: page_inv_def settle_updated fun_eq_iff)
next
  case (Search t)
  show ?thesis
  proof (cases "t = debouncedSearch s")
    case True
    then show ?thesis using assms Search by (simp add: page_inv_def fun_eq_iff settle_def commit_def shown_filters_def)
  next
    case False
    then show ?thesis using assms Search
      by (simp add: page_inv_def sync_search_def settle_updated fun_eq_iff) (simp add: shown_filters_def)
  qed
qed

interpretation choices: guarded_machine "make_choice base" not_search page_inv for base
  by unfold_locales (simp add: make_choice_refines)

text \<open>While each choice is committed before the next one is made, the address keeps all of them: it
  shows for every filter and for the search what was chosen last.\<close>

theorem filters_follow_choices:
  assumes "page_inv s" "list_all not_search cs"
  shows "shown_filters (run (make_choice base) cs s) = fold (\<lambda>c m. choose_spec m c) cs (shown_filters s)"
  using assms
proof (induction cs arbitrary: s)
  case (Cons c cs)
  then show ?case using make_choice_refines [of s c base] by simp
qed simp

definition fresh_page :: list_page where
  "fresh_page = settle (list_mount [] None)"

lemma fresh_page_inv: "page_inv fresh_page" "shown_filters fresh_page k = ''all''"
  by (simp_all add: fresh_page_def list_mount_def page_settles sync_search_def updateParam_def router_replace_def
      apply_default_def target_def update_param_def page_inv_def shown_filters_def param_of_def clean_def get_or_def
      Let_def)

lemma filters_follow_choices_witness:
  "shown_filters (run (make_choice ''/partners'') [SetFilter ''status'' ''active'', Search ''x'', SetFilter ''status'' ''busy'']
     fresh_page) = (\<lambda>_. ''all'')(''status'' := ''busy'', ''search'' := ''x'')"
  using filters_follow_choices [OF fresh_page_inv(1),
      of "[SetFilter ''status'' ''active'', Search ''x'', SetFilter ''status'' ''busy'']" "''/partners''"]
  by (simp add: fun_eq_iff fresh_page_inv(2) clean_def)

text \<open>A filter chosen while a search is about to be written is lost: the effect reads the address of the
  last render, and its address supersedes the one that had the filter.\<close>

lemma filter_lost_to_search:
  "let s = settle (run (list_step ''/partners'') [Type ''x'', Choose ''status'' ''active'', DebounceFires] fresh_page) in
     shown_filters s ''status'' = ''all'' \<and> shown_filters s ''search'' = ''x''"
  by (simp add: fresh_page_def list_mount_def page_settles sync_search_def updateParam_def router_replace_def
      apply_default_def target_def update_param_def shown_filters_def param_of_def get_or_def Let_def params_delete_def)

text \<open>Going back in the history changes the filters but not the search: the effect writes the current
  text over the one of the older address.\<close>

lemma history_search_overwritten:
  assumes "page_inv s"
  shows "shown_filters (settle (list_step base s (HistoryMove ps))) ''search'' =
     (if ps = committed s \<or> update_param ''search'' (debouncedSearch s) ps = ps
      then param_of ''search'' ps else clean (debouncedSearch s))"
  using assms
  by (auto simp: page_inv_def sync_search_def updateParam_def router_replace_def page_settles target_def
      shown_filters_def param_of_update)

text \<open>The text \<open>all\<close> is searched for but never written into the address.\<close>

lemma search_for_all_not_kept:
  "list_query [] (s\<lparr> debouncedSearch := ''all'' \<rparr>) = [(''search'', ''all'')]"
  "map_of (update_param ''search'' ''all'' ps) ''search'' = None"
  by (simp_all add: list_query_def update_param_def)

section \<open>Comparison and order\<close>

definition selection_ok :: "list_page \<Rightarrow> bool" where
  "selection_ok s \<longleftrightarrow> distinct (selectedIds s) \<and> length (selectedIds s) \<le> 4"

lemma selection_of_others:
  "selectedIds (commit s) = selectedIds s" "selectedIds (apply_default s) = selectedIds s"
  "selectedIds (onApplyFilter cfg s) = selectedIds s"
  by (auto simp: commit_def sync_search_def updateParam_def router_replace_def apply_default_def onApplyFilter_def
      Let_def split: option.split)

interpretation selection: machine "list_step base" selection_ok for base
proof (unfold_locales, goal_cases)
  case (1 s e)
  then show ?case
    by (cases e) (auto simp: selection_ok_def selection_of_others toggleSelection_def handleCompare_def
        handleNavigateToDetail_def handleResetFilters_def sync_search_def updateParam_def router_replace_def
        distinct_removeAll intro: order_trans [OF length_removeAll_less_eq])
qed

text \<open>At most four different rows are ever selected, and no comparison of fewer than two is opened.\<close>

lemma selection_bounded:
  "selection_ok (run (list_step base) es (list_mount ps saved))"
  by (rule selection.every_run_inv)
    (simp add: selection_ok_def list_mount_def Let_def selection_of_others sync_search_def updateParam_def router_replace_def)

lemma comparison_of_two:
  "opened (handleCompare base s) \<noteq> opened s \<Longrightarrow> 2 \<le> length (selectedIds s)"
  by (auto simp: handleCompare_def split: if_splits)

lemma filter_sort_key: "sort_key (\<lambda>x. if P x then 0 else 1 :: nat) xs = filter P xs @ filter (\<lambda>x. \<not> P x) xs"
proof -
  have "insort_key (\<lambda>x. if P x then 0 else 1 :: nat) x (filter P ys @ filter (\<lambda>x. \<not> P x) ys)
      = filter P (x # ys) @ filter (\<lambda>x. \<not> P x) (x # ys)" for x ys
  proof -
    have "insort_key (\<lambda>x. if P x then 0 else 1 :: nat) x (as @ bs) = as @ x # bs"
      if "\<not> P x" "\<forall>a \<in> set as. P a" "\<forall>b \<in> set bs. \<not> P b" for as bs
      using that by (induction as) (cases bs; auto)+
    moreover have "insort_key (\<lambda>x. if P x then 0 else 1 :: nat) x zs = x # zs" if "P x" for zs
      using that by (cases zs) auto
    ultimately show ?thesis by auto
  qed
  then show ?thesis by (induction xs) (simp_all add: sort_key_def del: filter.simps)
qed

text \<open>The pinned rows come first, and within both parts the order of the server stays.\<close>

lemma pinned_rows_first:
  "sorted_rows pins rows = filter (\<lambda>r. fst r \<in> pins) rows @ filter (\<lambda>r. fst r \<notin> pins) rows"
  by (simp add: sorted_rows_def filter_sort_key)

text \<open>A default filter is applied once, on an address without parameters.\<close>

lemma default_applied_once:
  "apply_default s \<noteq> s \<Longrightarrow> committed s = [] \<and> hasAppliedDefault (apply_default s) \<and>
     apply_default (apply_default s) = apply_default s"
  by (auto simp: apply_default_def router_replace_def Let_def split: option.splits if_splits)

end
