(* ===== verification/QueryViews.thy ===== *)
theory QueryViews
  imports JsPrelude Machines
begin

text \<open>
  Views of queries whose key is made during the render.  The query library caches the answers by
  key: a render whose key is cached shows the cached data, another one starts a request for the key
  (once) and shows nothing; an answer is cached, and renders the view again when its key is the
  observed one.  This is the documented behaviour of the library.

  The clock moves on with every event: a render comes some milliseconds after the last event, and an
  answer takes at least one.
\<close>

record ('s, 'k, 'd) query_view =
  qv_state :: 's
  qv_clock :: int
  qv_cache :: "('k \<times> 'd) list"
  qv_requests :: "'k list"
  qv_key :: "'k option"
  qv_shown :: "'d option"

definition qv_start :: "'s \<Rightarrow> ('s, 'k, 'd) query_view" where
  "qv_start s = \<lparr> qv_state = s, qv_clock = 0, qv_cache = [], qv_requests = [], qv_key = None, qv_shown = None \<rparr>"

definition qv_render :: "('s \<Rightarrow> int \<Rightarrow> 'k) \<Rightarrow> ('s, 'k, 'd) query_view \<Rightarrow> ('s, 'k, 'd) query_view" where
  "qv_render key_of v =
     (let k = key_of (qv_state v) (qv_clock v) in
      v\<lparr> qv_key := Some k, qv_shown := map_of (qv_cache v) k,
         qv_requests := (if map_of (qv_cache v) k = None \<and> k \<notin> set (qv_requests v) then qv_requests v @ [k]
                         else qv_requests v) \<rparr>)"

datatype ('s, 'd) query_event = Renders nat | Changes 's nat | Answers nat 'd nat

text \<open>\<open>Answers i d dt\<close>: the i-th request is answered.\<close>

fun qv_step :: "('s \<Rightarrow> int \<Rightarrow> 'k) \<Rightarrow> ('s, 'k, 'd) query_view \<Rightarrow> ('s, 'd) query_event \<Rightarrow> ('s, 'k, 'd) query_view" where
  "qv_step key_of v (Renders dt) = qv_render key_of (v\<lparr> qv_clock := qv_clock v + int dt \<rparr>)"
| "qv_step key_of v (Changes s dt) = qv_render key_of (v\<lparr> qv_state := s, qv_clock := qv_clock v + int dt \<rparr>)"
| "qv_step key_of v (Answers i d dt) =
     (if i < length (qv_requests v)
      then (let k = qv_requests v ! i;
                v' = v\<lparr> qv_clock := qv_clock v + int dt + 1, qv_cache := AList.update k d (qv_cache v) \<rparr>
            in if qv_key v = Some k then qv_render key_of v' else v')
      else v)"

text \<open>A view that has shown nothing yet, all of whose answers and requests are of keys of the past.\<close>

definition stale :: "('s \<Rightarrow> int \<Rightarrow> 'k) \<Rightarrow> ('s, 'k, 'd) query_view \<Rightarrow> bool" where
  "stale key_of v \<longleftrightarrow>
     qv_shown v = None \<and>
     (\<forall>k \<in> fst ` set (qv_cache v). \<exists>s t. t < qv_clock v \<and> k = key_of s t) \<and>
     (\<forall>k \<in> set (qv_requests v). \<exists>s t. t \<le> qv_clock v \<and> k = key_of s t)"

lemma stale_start: "stale key_of (qv_start s)"
  by (simp add: stale_def qv_start_def)

lemma stale_shows_nothing: "stale key_of v \<Longrightarrow> qv_shown v = None"
  by (simp add: stale_def)

lemma stale_cached: "stale key_of v \<Longrightarrow> k \<in> fst ` set (qv_cache v) \<Longrightarrow> \<exists>s t. t < qv_clock v \<and> k = key_of s t"
  unfolding stale_def by blast

lemma stale_requested: "stale key_of v \<Longrightarrow> k \<in> set (qv_requests v) \<Longrightarrow> \<exists>s t. t \<le> qv_clock v \<and> k = key_of s t"
  unfolding stale_def by blast

lemma stale_later:
  assumes "stale key_of v" "qv_clock v \<le> qv_clock w" "qv_cache w = qv_cache v" "qv_requests w = qv_requests v"
    and "qv_shown w = None"
  shows "stale key_of w"
  using assms unfolding stale_def by (metis order.strict_trans2 order.trans)

lemma stale_answer:
  assumes "stale key_of v" "i < length (qv_requests v)"
  shows "stale key_of (v\<lparr> qv_clock := qv_clock v + int dt + 1, qv_cache := AList.update (qv_requests v ! i) d (qv_cache v) \<rparr>)"
proof -
  let ?w = "v\<lparr> qv_clock := qv_clock v + int dt + 1, qv_cache := AList.update (qv_requests v ! i) d (qv_cache v) \<rparr>"
  have later: "qv_clock v < qv_clock ?w" by simp
  have "\<exists>s t. t < qv_clock ?w \<and> qv_requests v ! i = key_of s t"
    using stale_requested [OF assms(1) nth_mem [OF assms(2)]] later order.strict_trans1 by blast
  moreover have "\<exists>s t. t < qv_clock ?w \<and> j = key_of s t" if "j \<in> fst ` set (qv_cache v)" for j
    using stale_cached [OF assms(1) that] later order.strict_trans by blast
  moreover have "\<exists>s t. t \<le> qv_clock ?w \<and> j = key_of s t" if "j \<in> set (qv_requests v)" for j
    using stale_requested [OF assms(1) that] later order.trans order.strict_implies_order by blast
  moreover have "qv_shown ?w = None" using stale_shows_nothing [OF assms(1)] by simp
  ultimately show ?thesis unfolding stale_def by (simp add: dom_update)
qed

text \<open>Keys that move with the clock: a later render never has the key of an earlier one.\<close>

locale moving_key =
  fixes key_of :: "'s \<Rightarrow> int \<Rightarrow> 'k"
  assumes fresh: "t < t' \<Longrightarrow> key_of s t \<noteq> key_of s' t'"
begin

lemma fresh_key: "(\<exists>s t. t < u \<and> k = key_of s t) \<Longrightarrow> k \<noteq> key_of s' u"
  using fresh by metis

lemma stale_render:
  assumes "stale key_of v"
  shows "stale key_of (qv_render key_of v)"
proof -
  let ?k = "key_of (qv_state v) (qv_clock v)"
  have "?k \<notin> fst ` set (qv_cache v)" using stale_cached [OF assms] fresh_key by blast
  then have "map_of (qv_cache v) ?k = None" by (simp add: map_of_eq_None_iff)
  then show ?thesis using assms by (auto simp: stale_def qv_render_def Let_def)
qed

lemma stale_step:
  assumes "stale key_of v"
  shows "stale key_of (qv_step key_of v e)"
proof (cases e)
  case (Renders dt)
  then show ?thesis by (auto intro!: stale_render stale_later [OF assms] stale_shows_nothing [OF assms])
next
  case (Changes s dt)
  then show ?thesis by (auto intro!: stale_render stale_later [OF assms] stale_shows_nothing [OF assms])
next
  case (Answers i d dt)
  show ?thesis
  proof (cases "i < length (qv_requests v)")
    case True
    then show ?thesis using stale_answer [OF assms True] stale_render [OF stale_answer [OF assms True]]
      by (simp add: Answers Let_def)
  next
    case False
    then show ?thesis using assms by (simp add: Answers)
  qed
qed

lemma never_shown: "stale key_of v \<Longrightarrow> qv_shown (run (qv_step key_of) es v) = None"
proof -
  assume "stale key_of v"
  then have "stale key_of (run (qv_step key_of) es v)"
    by (induction es arbitrary: v) (simp_all add: stale_step)
  then show ?thesis by (simp add: stale_def)
qed

text \<open>And the request is made again after every answer to it.\<close>

lemma asks_again:
  assumes "stale key_of v" "i < length (qv_requests v)" "qv_key v = Some (qv_requests v ! i)"
  shows "length (qv_requests (qv_step key_of v (Answers i d dt))) = Suc (length (qv_requests v))"
proof -
  let ?v = "v\<lparr> qv_clock := qv_clock v + int dt + 1, qv_cache := AList.update (qv_requests v ! i) d (qv_cache v) \<rparr>"
  let ?k = "key_of (qv_state v) (qv_clock v + int dt + 1)"
  have "?k \<notin> fst ` set (qv_cache ?v)"
    using stale_cached [OF stale_answer [OF assms(1,2), where dt = dt and d = d]] fresh_key [of "qv_clock v + int dt + 1"]
    by fastforce
  then have "map_of (qv_cache ?v) ?k = None" by (simp add: map_of_eq_None_iff)
  moreover have "?k \<notin> set (qv_requests v)"
  proof
    assume "?k \<in> set (qv_requests v)"
    then obtain s t where "t \<le> qv_clock v" "?k = key_of s t" using assms(1) unfolding stale_def by blast
    then show False using fresh [of t "qv_clock v + int dt + 1" s "qv_state v"] by simp
  qed
  ultimately show ?thesis using assms(2,3) by (simp add: Let_def qv_render_def)
qed

end

text \<open>Keys that do not depend on the clock: the answer to the request of the observed key is shown.\<close>

locale steady_key =
  fixes key_of :: "'s \<Rightarrow> int \<Rightarrow> 'k"
  assumes steady: "key_of s t = key_of s t'"
begin

lemma answer_shown:
  assumes "i < length (qv_requests v)" "qv_requests v ! i = key_of (qv_state v) t" "qv_key v = Some (key_of (qv_state v) t)"
  shows "qv_shown (qv_step key_of v (Answers i d dt)) = Some d"
  using assms steady [of "qv_state v" "qv_clock v + int dt + 1" t]
  by (simp add: Let_def qv_render_def update_conv')

lemma answer_asks_no_more:
  assumes "i < length (qv_requests v)" "qv_requests v ! i = key_of (qv_state v) t" "qv_key v = Some (key_of (qv_state v) t)"
  shows "qv_requests (qv_step key_of v (Answers i d dt)) = qv_requests v"
  using assms steady [of "qv_state v" "qv_clock v + int dt + 1" t]
  by (simp add: Let_def qv_render_def update_conv')

end

end
