(* ===== verification/Feeds.thy ===== *)
theory Feeds
  imports QueryViews JsMaps JsNumbers
begin

text \<open>
  The update feed of the client portal (\<open>components/portal/whats-new-feed.tsx\<close>) and the escalation
  metrics (\<open>components/escalations/metrics-dashboard.tsx\<close>): both make the key of their query from
  the current time.  Times are milliseconds since the epoch; the ISO text of a time is one to one.
\<close>

section \<open>The update feed\<close>

definition PAGE_SIZE :: nat where "PAGE_SIZE = 20"

definition DAY_MS :: int where "DAY_MS = 86400000"

datatype range_error = RangeError

text \<open>\<open>toISOString\<close> of an invalid date throws.\<close>

definition getDateRange :: "string \<Rightarrow> int \<Rightarrow> range_error + int option" where
  "getDateRange v now =
     (if v = ''all'' then Inr None
      else case parse_int v of None \<Rightarrow> Inl RangeError | Some d \<Rightarrow> Inr (Some (now - d * DAY_MS)))"

definition DATE_RANGES :: "string list" where
  "DATE_RANGES = [''all'', ''7d'', ''30d'', ''90d'']"

record feed_filters =
  updateTypeFilter :: string
  programFilter :: string
  dateRangeFilter :: string
  feed_page :: nat

definition feed_start :: feed_filters where
  "feed_start = \<lparr> updateTypeFilter = ''all'', programFilter = ''all'', dateRangeFilter = ''all'', feed_page = 0 \<rparr>"

record updates_params =
  up_type :: "string option"
  up_program :: "string option"
  up_from :: "int option"
  up_skip :: nat
  up_limit :: nat

definition unless_all :: "string \<Rightarrow> string option" where
  "unless_all v = (if v \<noteq> ''all'' then Some v else None)"

definition queryParams :: "feed_filters \<Rightarrow> int \<Rightarrow> range_error + updates_params" where
  "queryParams f now =
     map_sum (\<lambda>e. e) (\<lambda>from.
       \<lparr> up_type = unless_all (updateTypeFilter f), up_program = unless_all (programFilter f), up_from = from,
         up_skip = feed_page f * PAGE_SIZE, up_limit = PAGE_SIZE \<rparr>)
       (getDateRange (dateRangeFilter f) now)"

datatype feed_event = TypeChosen string | ProgramChosen string | RangeChosen string | ResetFilters | Previous | LoadMore

fun feed_step :: "feed_filters \<Rightarrow> feed_event \<Rightarrow> feed_filters" where
  "feed_step f (TypeChosen v) = f\<lparr> updateTypeFilter := v, feed_page := 0 \<rparr>"
| "feed_step f (ProgramChosen v) = f\<lparr> programFilter := v, feed_page := 0 \<rparr>"
| "feed_step f (RangeChosen v) = f\<lparr> dateRangeFilter := v, feed_page := 0 \<rparr>"
| "feed_step f ResetFilters = feed_start"
| "feed_step f Previous = (if 0 < feed_page f then f\<lparr> feed_page := feed_page f - 1 \<rparr> else f)"
| "feed_step f LoadMore = f\<lparr> feed_page := feed_page f + 1 \<rparr>"

definition hasMore :: "nat \<Rightarrow> nat \<Rightarrow> bool" where
  "hasMore page n \<longleftrightarrow> (page + 1) * PAGE_SIZE < n"

definition showing :: "nat \<Rightarrow> nat \<Rightarrow> nat \<Rightarrow> nat" where
  "showing page items n = min (items + page * PAGE_SIZE) n"

record feed_item =
  fi_id :: string
  fi_type :: string
  fi_timestamp :: int
  fi_read :: bool

definition day_label :: "int \<Rightarrow> feed_item \<Rightarrow> string" where
  "day_label now x =
     (let diffDays = (now - fi_timestamp x) div DAY_MS in
      if diffDays = 0 then ''Today'' else if diffDays = 1 then ''Yesterday''
      else if diffDays < 7 then ''This week'' else if diffDays < 30 then ''This month'' else ''Earlier'')"

definition DAY_LABELS :: "string list" where
  "DAY_LABELS = [''Today'', ''Yesterday'', ''This week'', ''This month'', ''Earlier'']"

definition groupByDate :: "int \<Rightarrow> feed_item list \<Rightarrow> (string \<times> feed_item list) list" where
  "groupByDate now xs =
     (let groups = group_by (day_label now) xs in
      map (\<lambda>l. (l, get_or [] groups l)) (filter (\<lambda>l. map_of groups l \<noteq> None) DAY_LABELS))"

definition formatTimestamp :: "(int \<Rightarrow> string) \<Rightarrow> int \<Rightarrow> int \<Rightarrow> string" where
  "formatTimestamp locale_date now t =
     (let diffMins = (now - t) div 60000; diffHours = (now - t) div 3600000; diffDays = (now - t) div DAY_MS in
      if diffMins < 1 then ''Just now''
      else if diffMins < 60 then int_text diffMins @ ''m ago''
      else if diffHours < 24 then int_text diffHours @ ''h ago''
      else if diffDays = 1 then ''Yesterday''
      else if diffDays < 7 then int_text diffDays @ ''d ago''
      else locale_date t)"

definition UPDATE_TYPE_LABELS :: "(string \<times> string) list" where
  "UPDATE_TYPE_LABELS =
     [(''program_status'', ''Program Status''), (''milestone_completed'', ''Milestone Completed''),
      (''document_delivered'', ''Document Delivered''), (''message_received'', ''Message Received''),
      (''decision_resolved'', ''Decision Resolved'')]"

definition typeLabel :: "feed_item \<Rightarrow> string" where
  "typeLabel x = get_or (fi_type x) UPDATE_TYPE_LABELS (fi_type x)"

definition compact_items :: "feed_item list \<Rightarrow> feed_item list" where
  "compact_items xs = take 5 xs"

text \<open>The button that marks everything read, while its request is open or not.\<close>

definition mark_enabled :: "bool \<Rightarrow> nat \<Rightarrow> bool" where
  "mark_enabled pending unreadCount \<longleftrightarrow> \<not> (pending \<or> unreadCount = 0)"

subsection \<open>Sections of the feed\<close>

lemma day_label_known: "day_label now x \<in> set DAY_LABELS"
  by (simp add: day_label_def DAY_LABELS_def Let_def)

lemma groups_kept:
  "groupByDate now xs
   = map (\<lambda>l. (l, filter (\<lambda>x. day_label now x = l) xs)) (filter (\<lambda>l. \<exists>x \<in> set xs. day_label now x = l) DAY_LABELS)"
proof -
  have "map_of (group_by (day_label now) xs) l \<noteq> None \<longleftrightarrow> (\<exists>x \<in> set xs. day_label now x = l)" for l
    by (auto simp: map_of_eq_None_iff group_by_keys)
  then show ?thesis by (simp add: groupByDate_def Let_def group_by_get)
qed

lemma filter_nonempty_sections:
  "concat (map f (filter (\<lambda>l. f l \<noteq> []) ls)) = concat (map f ls)"
  by (induction ls) auto

lemma sections_concat:
  "concat (map snd (groupByDate now xs)) = concat (map (\<lambda>l. filter (\<lambda>x. day_label now x = l) xs) DAY_LABELS)"
proof -
  have "(\<exists>x \<in> set xs. day_label now x = l) \<longleftrightarrow> filter (\<lambda>x. day_label now x = l) xs \<noteq> []" for l
    by (auto simp: filter_empty_conv)
  then show ?thesis
    using filter_nonempty_sections [of "\<lambda>l. filter (\<lambda>x. day_label now x = l) xs" DAY_LABELS]
    by (simp add: groups_kept comp_def)
qed

text \<open>The sections hold every update of the page once, each under the label of its age and in the order of
  the answer; they follow the fixed order of the labels and none is empty.\<close>

lemma sections_of_feed:
  "mset (concat (map snd (groupByDate now xs))) = mset xs \<and>
   subseq (map fst (groupByDate now xs)) DAY_LABELS \<and>
   list_all (\<lambda>(l, ys). ys \<noteq> [] \<and> ys = filter (\<lambda>x. day_label now x = l) xs) (groupByDate now xs)"
proof -
  have "distinct DAY_LABELS" by (simp add: DAY_LABELS_def)
  then have "mset (concat (map snd (groupByDate now xs))) = mset xs"
    using mset_filters_by_key [of DAY_LABELS "day_label now" xs] by (simp add: sections_concat day_label_known)
  moreover have "subseq (map fst (groupByDate now xs)) DAY_LABELS" by (simp add: groups_kept comp_def)
  moreover have "list_all (\<lambda>(l, ys). ys \<noteq> [] \<and> ys = filter (\<lambda>x. day_label now x = l) xs) (groupByDate now xs)"
    by (auto simp: groups_kept list_all_iff filter_empty_conv)
  ultimately show ?thesis by simp
qed

text \<open>What lies in the future is filed under this week, while its time reads as just now.\<close>

lemma future_this_week:
  "now < fi_timestamp x \<Longrightarrow> day_label now x = ''This week'' \<and> formatTimestamp loc now (fi_timestamp x) = ''Just now''"
proof -
  assume a: "now < fi_timestamp x"
  then have "(now - fi_timestamp x) div DAY_MS < 0" "(now - fi_timestamp x) div 60000 < 0" by (simp_all add: DAY_MS_def)
  then show ?thesis by (simp add: day_label_def formatTimestamp_def Let_def)
qed

subsection \<open>Pages of the feed\<close>

text \<open>What the service returns for a page of the updates \<open>us\<close>, and what is seen by following the button.\<close>

definition served :: "'a list \<Rightarrow> nat \<Rightarrow> 'a list" where
  "served us page = take PAGE_SIZE (drop (page * PAGE_SIZE) us)"

function pages_from :: "'a list \<Rightarrow> nat \<Rightarrow> 'a list list" where
  "pages_from us page = served us page # (if hasMore page (length us) then pages_from us (page + 1) else [])"
  by pat_completeness auto
termination
  by (relation "measure (\<lambda>(us, page). length us - page * PAGE_SIZE)") (auto simp: hasMore_def PAGE_SIZE_def)

declare pages_from.simps [simp del]

lemma pages_from_concat: "concat (pages_from us page) = drop (page * PAGE_SIZE) us"
proof (induction us page rule: pages_from.induct)
  case (1 us page)
  have split: "served us page @ drop ((page + 1) * PAGE_SIZE) us = drop (page * PAGE_SIZE) us"
    using append_take_drop_id [of PAGE_SIZE "drop (page * PAGE_SIZE) us"] by (simp add: served_def algebra_simps)
  show ?case
  proof (cases "hasMore page (length us)")
    case True
    then show ?thesis using 1 split by (subst pages_from.simps) simp
  next
    case False
    then have "drop ((page + 1) * PAGE_SIZE) us = []" by (simp add: hasMore_def)
    then show ?thesis using False split by (subst pages_from.simps) simp
  qed
qed

text \<open>Following the button from the first page shows every update once, in order.\<close>

lemma pages_cover_feed: "concat (pages_from us 0) = us"
  by (simp add: pages_from_concat)

lemma pages_bounded: "list_all (\<lambda>p. length p \<le> PAGE_SIZE) (pages_from us page)"
  by (induction us page rule: pages_from.induct) (subst pages_from.simps, simp add: served_def)

text \<open>The counter of a full page tells how far the reader has come.\<close>

lemma showing_last: "\<not> hasMore page (length us) \<Longrightarrow> page * PAGE_SIZE \<le> length us \<Longrightarrow> showing page (length (served us page)) (length us) = length us"
  by (simp add: showing_def served_def hasMore_def)


subsection \<open>The query of the feed\<close>

text \<open>The key of the feed while the range \<open>r\<close> stays chosen.\<close>

definition feed_key :: "string \<Rightarrow> feed_filters \<Rightarrow> int \<Rightarrow> range_error + updates_params" where
  "feed_key r f now = queryParams (f\<lparr> dateRangeFilter := r \<rparr>) now"

lemma parsed_ranges: "parse_int ''7d'' = Some 7" "parse_int ''30d'' = Some 30" "parse_int ''90d'' = Some 90"
  by code_simp+

lemma dated_key_moves:
  assumes "r \<noteq> ''all''" "parse_int r = Some d" "t < t'"
  shows "feed_key r f t \<noteq> feed_key r f' t'"
  using assms by (simp add: feed_key_def queryParams_def getDateRange_def)

interpretation week: moving_key "feed_key ''7d''"
  by unfold_locales (rule dated_key_moves, simp_all add: parsed_ranges)

interpretation thirty: moving_key "feed_key ''30d''"
  by unfold_locales (rule dated_key_moves, simp_all add: parsed_ranges)

interpretation ninety: moving_key "feed_key ''90d''"
  by unfold_locales (rule dated_key_moves, simp_all add: parsed_ranges)

interpretation ever: steady_key "feed_key ''all''"
  by unfold_locales (simp add: feed_key_def queryParams_def getDateRange_def)

text \<open>Without a date range the feed shows the answer to its request, and asks once.\<close>

lemma undated_feed_loads:
  "let v = run (qv_step (feed_key ''all'')) [Renders t, Answers 0 (d :: 'd) t'] (qv_start f)
   in qv_shown v = Some d \<and> length (qv_requests v) = 1"
proof -
  define v :: "(feed_filters, range_error + updates_params, 'd) query_view"
    where "v = qv_step (feed_key ''all'') (qv_start f) (Renders t)"
  have k: "qv_requests v = [feed_key ''all'' (qv_state v) (int t)]" "qv_key v = Some (feed_key ''all'' (qv_state v) (int t))"
    by (simp_all add: v_def qv_start_def qv_render_def Let_def)
  have "qv_shown (qv_step (feed_key ''all'') v (Answers 0 d t')) = Some d"
    "qv_requests (qv_step (feed_key ''all'') v (Answers 0 d t')) = qv_requests v"
    using ever.answer_shown [of 0 v "int t" d t'] ever.answer_asks_no_more [of 0 v "int t" d t'] k by simp_all
  then show ?thesis
    by (simp add: run_def v_def [symmetric] k del: qv_step.simps)
qed

text \<open>With one it shows nothing, whatever is answered and whenever it renders.\<close>

lemma dated_feed_never_loads:
  "list_all (\<lambda>r. qv_shown (run (qv_step (feed_key r)) es (qv_start f)) = None) [''7d'', ''30d'', ''90d'']"
  by (simp add: week.never_shown thirty.never_shown ninety.never_shown stale_start)

section \<open>The escalation metrics\<close>

record metrics_filters =
  preset :: string
  levelFilter :: string
  statusFilter :: string

definition metrics_start :: metrics_filters where
  "metrics_start = \<lparr> preset = ''90d'', levelFilter = ''all'', statusFilter = ''all'' \<rparr>"

text \<open>\<open>subDays\<close> of the date library is a parameter.\<close>

definition presetToDates :: "(int \<Rightarrow> nat \<Rightarrow> int) \<Rightarrow> string \<Rightarrow> int \<Rightarrow> int \<times> int" where
  "presetToDates subDays p now =
     (let days = (if p = ''30d'' then 30 else if p = ''90d'' then 90 else if p = ''180d'' then 180 else 365)
      in (subDays now days, now))"

record metrics_params =
  date_from :: int
  date_to :: int
  level :: "string option"
  status :: "string option"

definition metrics_key :: "(int \<Rightarrow> nat \<Rightarrow> int) \<Rightarrow> metrics_filters \<Rightarrow> int \<Rightarrow> metrics_params" where
  "metrics_key subDays f now =
     (let (from, till) = presetToDates subDays (preset f) now in
      \<lparr> date_from = from, date_to = till, level = unless_all (levelFilter f), status = unless_all (statusFilter f) \<rparr>)"

text \<open>The export button and the first row of the assignees.\<close>

definition canExport :: "(metrics_filters, metrics_params, 'd) query_view \<Rightarrow> bool" where
  "canExport v \<longleftrightarrow> qv_shown v \<noteq> None"

definition assignee_bars :: "(string \<times> nat) list \<Rightarrow> (string \<times> int) list" where
  "assignee_bars xs =
     (let maxCount = snd (hd xs) in
      map (\<lambda>(name, count). (name, math_round (of_nat count / of_nat maxCount * 100))) (take 6 xs))"

interpretation metrics: moving_key "metrics_key subDays" for subDays
  by unfold_locales (simp add: metrics_key_def presetToDates_def Let_def)

lemma metrics_never_load:
  "\<not> canExport (run (qv_step (metrics_key subDays)) es (qv_start f))"
  by (simp add: canExport_def metrics.never_shown stale_start)

lemma metrics_asked_again:
  "map (\<lambda>n. length (qv_requests (run (qv_step (metrics_key subDays)) (Renders 0 # map (\<lambda>i. Answers i d 0) [0..<n]) (qv_start f))))
       [0, 1, 2, 3] = [1, 2, 3, 4]"
  by (simp add: qv_start_def qv_render_def metrics_key_def presetToDates_def Let_def run_def update_conv' upt_rec)

text \<open>The service lists the assignees by falling count, so no bar is wider than its track.\<close>

lemma assignee_bars_bounded:
  assumes "sorted_wrt (\<lambda>x y. snd y \<le> snd x) xs" "xs \<noteq> []" "0 < snd (hd xs)"
  shows "list_all (\<lambda>(name, pct). 0 \<le> pct \<and> pct \<le> 100) (assignee_bars xs)"
proof -
  have top: "snd x \<le> snd (hd xs)" if "x \<in> set (take 6 xs)" for x
    using in_set_takeD [OF that] assms(1,2) by (cases xs) auto
  have "0 \<le> math_round (of_nat c / of_nat (snd (hd xs)) * 100) \<and> math_round (of_nat c / of_nat (snd (hd xs)) * 100) \<le> 100"
    if "c \<le> snd (hd xs)" for c
  proof -
    have "(of_nat c :: rat) / of_nat (snd (hd xs)) \<le> 1" using that assms(3) by (simp add: divide_le_eq)
    then have "of_nat c / of_nat (snd (hd xs)) * 100 + 1 / 2 < (101 :: rat)" by simp
    then show ?thesis by (simp add: math_round_def floor_le_iff zero_le_floor)
  qed
  then show ?thesis using top by (auto simp: assignee_bars_def Let_def list_all_iff split: prod.splits)
qed

text \<open>The feed shows the answer to its request exactly while no date range is chosen: with a range the
  view never shows anything, however it renders and whatever is answered.\<close>

theorem feed_loads_undated_only:
  "qv_shown (run (qv_step (feed_key ''all'')) [Renders t, Answers 0 d t'] (qv_start f)) = Some d \<and>
   list_all (\<lambda>r. qv_shown (run (qv_step (feed_key r)) es (qv_start f)) = None) [''7d'', ''30d'', ''90d'']"
  using undated_feed_loads [of t d t' f] dated_feed_never_loads by (simp only: Let_def) blast

end
