(* ===== verification/EditableTable.thy ===== *)
theory EditableTable
  imports Machines
begin

text \<open>
  The table with inline editing, \<open>components/ui/editable-table.tsx\<close>, uncontrolled, with the cells of
  \<open>components/ui/editable-cell/\<close>.  A save is two events: \<open>SaveCell\<close> is \<open>handleSave\<close> up to its await of
  \<open>onCellSave\<close>, \<open>Settles\<close> what follows the answer.  The editors validate before they call
  \<open>handleSave\<close>, which asks nothing itself, so several saves of one cell can be under way at once; a
  save is told from others by a number.  A cell only opens its editor while it is not being saved.
  The values saved are those the editors produce, never \<open>undefined\<close>.
\<close>

type_synonym cell_id = "string \<times> string"

definition cell_key :: "cell_id \<Rightarrow> string" where
  "cell_key c = fst c @ ''.'' @ snd c"

type_synonym 'v row_updates = "(string \<times> (string \<times> 'v) list) list"

record 'v editable_table =
  editingCell :: "cell_id option"
  savingCells :: "(string \<times> bool) list"
  cellErrors :: "(string \<times> string) list"
  optimisticData :: "'v row_updates"
  open_saves :: "(nat \<times> cell_id) list"
  cell_changes :: "(cell_id \<times> 'v) list"

definition table_start :: "'v editable_table" where
  "table_start = \<lparr> editingCell = None, savingCells = [], cellErrors = [], optimisticData = [], open_saves = [],
     cell_changes = [] \<rparr>"

definition isCellSaving :: "'v editable_table \<Rightarrow> cell_id \<Rightarrow> bool" where
  "isCellSaving s c = get_or False (savingCells s) (cell_key c)"

definition getCellError :: "'v editable_table \<Rightarrow> cell_id \<Rightarrow> string option" where
  "getCellError s c = map_of (cellErrors s) (cell_key c)"

definition handleStartEdit :: "cell_id \<Rightarrow> 'v editable_table \<Rightarrow> 'v editable_table" where
  "handleStartEdit c s = s\<lparr> editingCell := Some c, cellErrors := AList.delete (cell_key c) (cellErrors s) \<rparr>"

definition handleCancelEdit :: "'v editable_table \<Rightarrow> 'v editable_table" where
  "handleCancelEdit s = s\<lparr> editingCell := None \<rparr>"

definition set_update :: "cell_id \<Rightarrow> 'v \<Rightarrow> 'v row_updates \<Rightarrow> 'v row_updates" where
  "set_update c v m = AList.update (fst c) (AList.update (snd c) v (get_or [] m (fst c))) m"

definition revert_update :: "cell_id \<Rightarrow> 'v row_updates \<Rightarrow> 'v row_updates" where
  "revert_update c m =
     (let rowUpdates = AList.delete (snd c) (get_or [] m (fst c))
      in if rowUpdates = [] then AList.delete (fst c) m else AList.update (fst c) rowUpdates m)"

definition optimistic_value :: "'v row_updates \<Rightarrow> cell_id \<Rightarrow> 'v option" where
  "optimistic_value m c = map_of (get_or [] m (fst c)) (snd c)"

definition handleSave :: "bool \<Rightarrow> nat \<Rightarrow> cell_id \<Rightarrow> 'v \<Rightarrow> 'v editable_table \<Rightarrow> 'v editable_table" where
  "handleSave optimisticUpdates n c v s =
     (let s = s\<lparr> savingCells := AList.update (cell_key c) True (savingCells s) \<rparr>;
          s = (if optimisticUpdates
               then s\<lparr> optimisticData := set_update c v (optimisticData s), cell_changes := cell_changes s @ [(c, v)] \<rparr>
               else s)
      in s\<lparr> open_saves := open_saves s @ [(n, c)] \<rparr>)"

text \<open>What \<open>onCellSave\<close> comes to: a result that is valid or none, an invalid one, an exception.\<close>

datatype save_outcome = Saved | Refused "string option" | Threw "string option"

definition save_failed :: "bool \<Rightarrow> cell_id \<Rightarrow> string option \<Rightarrow> 'v editable_table \<Rightarrow> 'v editable_table" where
  "save_failed optimisticUpdates c message s =
     (let s = (if optimisticUpdates then s\<lparr> optimisticData := revert_update c (optimisticData s) \<rparr> else s)
      in s\<lparr> cellErrors := AList.update (cell_key c)
              (case message of None \<Rightarrow> ''Save failed'' | Some m \<Rightarrow> m) (cellErrors s) \<rparr>)"

definition save_settles :: "bool \<Rightarrow> nat \<Rightarrow> cell_id \<Rightarrow> save_outcome \<Rightarrow> 'v editable_table \<Rightarrow> 'v editable_table" where
  "save_settles optimisticUpdates n c r s =
     (let s = (case r of
          Saved \<Rightarrow> s\<lparr> editingCell := None, cellErrors := AList.delete (cell_key c) (cellErrors s) \<rparr>
        | Refused m \<Rightarrow> save_failed optimisticUpdates c m s
        | Threw m \<Rightarrow> save_failed optimisticUpdates c m s)
      in s\<lparr> savingCells := AList.delete (cell_key c) (savingCells s), open_saves := remove1 (n, c) (open_saves s) \<rparr>)"

text \<open>\<open>SaveCell n c v\<close> starts save number \<open>n\<close>; \<open>Settles n c r\<close> ends it.\<close>

datatype 'v table_event =
    StartEdit cell_id
  | CancelEdit
  | SaveCell nat cell_id 'v
  | Settles nat cell_id save_outcome

fun table_step :: "bool \<Rightarrow> 'v editable_table \<Rightarrow> 'v table_event \<Rightarrow> 'v editable_table" where
  "table_step opt s (StartEdit c) = (if isCellSaving s c then s else handleStartEdit c s)"
| "table_step opt s CancelEdit = handleCancelEdit s"
| "table_step opt s (SaveCell n c v) = handleSave opt n c v s"
| "table_step opt s (Settles n c r) = (if (n, c) \<in> set (open_saves s) then save_settles opt n c r s else s)"

text \<open>What a cell shows, given the value of the table's data.\<close>

definition cell_value :: "'v editable_table \<Rightarrow> 'v \<Rightarrow> cell_id \<Rightarrow> 'v" where
  "cell_value s original c = (case optimistic_value (optimisticData s) c of Some v \<Rightarrow> v | None \<Rightarrow> original)"

definition cell_is_editing :: "'v editable_table \<Rightarrow> cell_id \<Rightarrow> bool" where
  "cell_is_editing s c \<longleftrightarrow> editingCell s = Some c"

section \<open>A cell by itself\<close>

text \<open>One cell and the saves of it: the saves under way and the value it shows in place of the
  table's data.  A save shows its value at once, an accepted one changes nothing, and one that
  failed puts the table's data back, whatever other saves of the cell are doing.\<close>

fun about_cell :: "cell_id \<Rightarrow> 'v table_event \<Rightarrow> bool" where
  "about_cell c (SaveCell n d v) = (d = c)"
| "about_cell c (Settles n d r) = (d = c)"
| "about_cell c _ = False"

type_synonym 'v own_cell = "nat list \<times> 'v option"

fun own_step :: "'v own_cell \<Rightarrow> 'v table_event \<Rightarrow> 'v own_cell" where
  "own_step (under_way, shown) (SaveCell n d v) = (under_way @ [n], Some v)"
| "own_step (under_way, shown) (Settles n d r) =
     (if n \<in> set under_way then (remove1 n under_way, if r = Saved then shown else None) else (under_way, shown))"
| "own_step w _ = w"

definition own_run :: "cell_id \<Rightarrow> 'v table_event list \<Rightarrow> 'v own_cell" where
  "own_run c es = run own_step (filter (about_cell c) es) ([], None)"

lemma optimistic_set: "optimistic_value (set_update c v m) d = (if d = c then Some v else optimistic_value m d)"
  by (cases c; cases d) (auto simp: optimistic_value_def set_update_def update_conv')

lemma map_of_delete: "map_of (AList.delete k m) j = (if j = k then None else map_of m j)"
  by (simp add: delete_conv')

lemma optimistic_revert: "optimistic_value (revert_update c m) d = (if d = c then None else optimistic_value m d)"
proof -
  obtain r k where c: "c = (r, k)" by fastforce
  obtain r' k' where d: "d = (r', k')" by fastforce
  define row where "row = get_or [] m r"
  have row: "map_of (AList.delete k row) j = (if j = k then None else map_of row j)" for j by (rule map_of_delete)
  show ?thesis
  proof (cases "AList.delete k row = []")
    case True
    have "map_of row j = None" if "j \<noteq> k" for j using row [of j] True that by simp
    then show ?thesis using True
      by (auto simp: optimistic_value_def revert_update_def c d Let_def row_def [symmetric] get_or_def map_of_delete)
        (auto simp: row_def get_or_def)
  next
    case False
    then show ?thesis using row
      by (auto simp: optimistic_value_def revert_update_def c d Let_def row_def [symmetric])
  qed
qed

definition cell_abs :: "cell_id \<Rightarrow> 'v editable_table \<Rightarrow> 'v own_cell" where
  "cell_abs c s = (map fst (filter (\<lambda>q. snd q = c) (open_saves s)), optimistic_value (optimisticData s) c)"

lemma in_open: "n \<in> set (map fst (filter (\<lambda>q. snd q = c) os)) \<longleftrightarrow> (n, c) \<in> set os"
  by force

lemma remove1_open:
  "map fst (filter (\<lambda>q. snd q = c) (remove1 (n, d) os)) =
     (if d = c then remove1 n (map fst (filter (\<lambda>q. snd q = c) os)) else map fst (filter (\<lambda>q. snd q = c) os))"
  by (induction os) auto

lemma save_abs: "cell_abs c (handleSave True n d v s) = (if d = c then own_step (cell_abs c s) (SaveCell n d v) else cell_abs c s)"
  by (simp add: cell_abs_def handleSave_def Let_def optimistic_set)

lemma settles_abs:
  assumes "(n, d) \<in> set (open_saves s)"
  shows "cell_abs c (save_settles True n d r s)
    = (if d = c then own_step (cell_abs c s) (Settles n d r) else cell_abs c s)"
proof (cases "d = c")
  case True
  then have "n \<in> set (map fst (filter (\<lambda>q. snd q = c) (open_saves s)))"
    using assms by (simp only: in_open)
  then show ?thesis using True
    by (cases r) (simp_all add: cell_abs_def save_settles_def save_failed_def Let_def optimistic_revert remove1_open)
next
  case False
  then show ?thesis
    by (cases r) (simp_all add: cell_abs_def save_settles_def save_failed_def Let_def optimistic_revert remove1_open)
qed

lemma step_abs:
  "cell_abs c (table_step True s e) = (if about_cell c e then own_step (cell_abs c s) e else cell_abs c s)"
proof (cases e)
  case (Settles n d r)
  show ?thesis
  proof (cases "(n, d) \<in> set (open_saves s)")
    case True
    then show ?thesis using Settles by (simp add: settles_abs)
  next
    case False
    then have "d = c \<Longrightarrow> n \<notin> set (map fst (filter (\<lambda>q. snd q = c) (open_saves s)))"
      by (simp only: in_open) simp
    then show ?thesis using Settles False by (simp add: cell_abs_def)
  qed
qed (simp_all add: save_abs, simp_all add: cell_abs_def handleStartEdit_def handleCancelEdit_def)

lemma run_abs:
  "cell_abs c (run (table_step True) es s) = run own_step (filter (about_cell c) es) (cell_abs c s)"
  by (induction es arbitrary: s) (simp_all add: step_abs)

text \<open>C14.  Every cell lives by itself.  Whatever is edited and however many saves, also of one cell,
  overlap and in whatever order they are answered, what a cell shows is determined by the saves of
  this cell alone: the value of the last save that was started, unless a save of the cell failed
  after that; then, and before any save, what the table was given.  The saves still open for the
  cell are the ones that were started and not answered.\<close>

theorem cells_live_by_themselves:
  "cell_value (run (table_step True) es table_start) original c
     = (case snd (own_run c es) of Some v \<Rightarrow> v | None \<Rightarrow> original)
   \<and> map fst (filter (\<lambda>q. snd q = c) (open_saves (run (table_step True) es table_start))) = fst (own_run c es)"
proof -
  have "cell_abs c (table_start :: 'a editable_table) = ([], None)"
    by (simp add: cell_abs_def table_start_def optimistic_value_def get_or_def)
  then have "own_run c es = cell_abs c (run (table_step True) es table_start)"
    by (simp add: run_abs own_run_def)
  then show ?thesis by (simp add: cell_abs_def cell_value_def split: option.split)
qed

lemma cells_live_by_themselves_instance:
  "own_run (''r1'', ''city'') [SaveCell 1 (''r1'', ''name'') ''x'', SaveCell 2 (''r1'', ''city'') ''y'',
      Settles 1 (''r1'', ''name'') (Refused None), Settles 2 (''r1'', ''city'') Saved] = ([], Some ''y'')"
  by (simp add: own_run_def)

text \<open>An earlier save of a cell that fails late takes the accepted value of a later one off the
  screen, and the first answer of two takes the saving mark away.\<close>

lemma late_refusal_hides_accepted_value:
  "own_run c [SaveCell 1 c ''x'', SaveCell 2 c ''y'', Settles 2 c Saved, Settles 1 c (Refused None)] = ([], None)"
  by (simp add: own_run_def)

lemma saving_mark_gone_early:
  "\<not> isCellSaving (run (table_step opt) [SaveCell 1 c ''x'', SaveCell 2 c ''y'', Settles 2 c Saved] table_start) c
   \<and> open_saves (run (table_step opt) [SaveCell 1 c ''x'', SaveCell 2 c ''y'', Settles 2 c Saved] table_start) = [(1, c)]"
  by (simp add: isCellSaving_def handleSave_def save_settles_def Let_def table_start_def get_or_def delete_conv')

section \<open>Where cells disturb each other\<close>

text \<open>A save that succeeds closes the editor, also one that was opened in another cell meanwhile.\<close>

lemma save_closes_other_editor:
  assumes "\<not> isCellSaving s c" "\<not> isCellSaving s d" "cell_key c \<noteq> cell_key d"
  shows "editingCell (run (table_step opt) [StartEdit c, SaveCell n c v, StartEdit d] s) = Some d \<and>
     editingCell (run (table_step opt) [StartEdit c, SaveCell n c v, StartEdit d, Settles n c Saved] s) = None"
proof -
  let ?t = "handleSave opt n c v (handleStartEdit c s)"
  have "\<not> isCellSaving ?t d"
    using assms by (simp add: isCellSaving_def handleStartEdit_def handleSave_def Let_def)
  moreover have "(n, c) \<in> set (open_saves (handleStartEdit d ?t))"
    by (simp add: handleStartEdit_def handleSave_def Let_def)
  ultimately show ?thesis
    using assms(1) by (simp add: save_settles_def Let_def) (simp add: handleStartEdit_def)
qed

text \<open>A value that was saved hides every later value of the table's data.\<close>

lemma saved_value_hides_data:
  "cell_value (run (table_step True) [SaveCell n c v, Settles n c Saved] s) later c = v"
  by (simp add: handleSave_def Let_def save_settles_def cell_value_def optimistic_set)

text \<open>A save of one cell disables the other whose key is the same text.\<close>

lemma dotted_rows_collide:
  "isCellSaving (handleSave opt n (''a.b'', ''c'') v s) (''a'', ''b.c'')"
  by (simp add: isCellSaving_def handleSave_def Let_def cell_key_def)

end
