(* ===== verification/VoiceMessages.thy ===== *)
theory VoiceMessages
  imports Machines JsNumbers
begin

text \<open>
  Voice messages: the recorder (\<open>components/communications/voice-recorder.tsx\<close>) and the player
  (\<open>audio-player.tsx\<close>).  The microphone, the recorders of the browser, its intervals and its object
  addresses are lists; a prompt for the microphone, a recorder that has been stopped and an upload are
  answered by later events.
\<close>

section \<open>The recorder\<close>

definition MAX_DURATION_SECONDS :: nat where "MAX_DURATION_SECONDS = 120"

datatype recorder_state = Idle | Recording | Preview | Uploading

text \<open>A stream of the microphone with its recorder; \<open>m_reported\<close>: no stop event of a recorder is to come,
  because it has fired or the recorder was never started.\<close>

record media =
  m_active :: bool
  m_reported :: bool
  m_live :: bool

text \<open>\<open>mediaRecorderRef\<close> and \<open>streamRef\<close> hold places in the list of recorders.\<close>

record voice =
  v_mounted :: bool
  v_state :: recorder_state
  elapsed :: nat
  blob :: "nat list option"
  previewUrl :: "nat option"
  v_error :: "string option"
  prompts :: nat
  recorders :: "media list"
  streamRef :: "nat option"
  mediaRecorderRef :: "nat option"
  chunks :: "nat list"
  timerRef :: "nat option"
  intervals :: "nat list"
  object_urls :: "nat list"
  fresh_id :: nat
  completed :: "nat list list"

definition voice_start :: voice where
  "voice_start =
     \<lparr> v_mounted = True, v_state = Idle, elapsed = 0, blob = None, previewUrl = None, v_error = None, prompts = 0,
       recorders = [], streamRef = None, mediaRecorderRef = None, chunks = [], timerRef = None, intervals = [], object_urls = [],
       fresh_id = 0, completed = [] \<rparr>"

definition stopTimer :: "voice \<Rightarrow> voice" where
  "stopTimer s =
     (case timerRef s of
        None \<Rightarrow> s
      | Some t \<Rightarrow> s\<lparr> intervals := removeAll t (intervals s), timerRef := None \<rparr>)"

text \<open>\<open>startRecording\<close> up to the prompt, and after it.\<close>

definition startRecording :: "voice \<Rightarrow> voice" where
  "startRecording s = s\<lparr> v_error := None, prompts := prompts s + 1 \<rparr>"

definition granted :: "voice \<Rightarrow> voice" where
  "granted s =
     s\<lparr> prompts := prompts s - 1, streamRef := Some (length (recorders s)), mediaRecorderRef := Some (length (recorders s)),
        recorders := recorders s @ [\<lparr> m_active = True, m_reported = False, m_live = True \<rparr>], chunks := [],
        v_state := Recording, elapsed := 0, timerRef := Some (fresh_id s), intervals := intervals s @ [fresh_id s],
        fresh_id := fresh_id s + 1 \<rparr>"

text \<open>The end of the catch branch.\<close>

definition start_failed :: "string \<Rightarrow> voice \<Rightarrow> voice" where
  "start_failed msg s =
     s\<lparr> v_error := Some (if str_includes ''Permission'' msg \<or> str_includes ''NotAllowed'' msg
                         then ''Microphone permission denied. Please allow microphone access.''
                         else ''Could not start recording. Check microphone permissions.'') \<rparr>"

text \<open>The microphone was granted, and making the recorder throws, or (\<open>made\<close>) starting it: the catch
  branch leaves the stream as it is.\<close>

definition granted_throws :: "bool \<Rightarrow> string \<Rightarrow> voice \<Rightarrow> voice" where
  "granted_throws made msg s =
     start_failed msg
       (s\<lparr> prompts := prompts s - 1, streamRef := Some (length (recorders s)),
           mediaRecorderRef := (if made then Some (length (recorders s)) else mediaRecorderRef s),
           recorders := recorders s @ [\<lparr> m_active = False, m_reported = True, m_live = True \<rparr>], chunks := [] \<rparr>)"

definition denied :: "string \<Rightarrow> voice \<Rightarrow> voice" where
  "denied msg s = start_failed msg (s\<lparr> prompts := prompts s - 1 \<rparr>)"

definition stopRecording :: "voice \<Rightarrow> voice" where
  "stopRecording s0 =
     (let s = stopTimer s0 in
      case mediaRecorderRef s of
        None \<Rightarrow> s
      | Some i \<Rightarrow> s\<lparr> recorders := (recorders s)[i := (recorders s ! i)\<lparr> m_active := False \<rparr>] \<rparr>)"

text \<open>The recorder stops by itself, because of an error or because the tracks have ended (the device is
  gone); its stop event follows.  Nothing stops the interval.\<close>

definition breaks :: "nat \<Rightarrow> bool \<Rightarrow> voice \<Rightarrow> voice" where
  "breaks i tracks_end s =
     s\<lparr> recorders := (recorders s)[i := (recorders s ! i)\<lparr> m_active := False,
          m_live := m_live (recorders s ! i) \<and> \<not> tracks_end \<rparr>] \<rparr>"

definition onstop :: "nat \<Rightarrow> voice \<Rightarrow> voice" where
  "onstop i s =
     s\<lparr> recorders := (recorders s)[i := \<lparr> m_active = False, m_reported = True, m_live = False \<rparr>],
        blob := Some (chunks s), previewUrl := Some (fresh_id s), object_urls := object_urls s @ [fresh_id s],
        fresh_id := fresh_id s + 1, v_state := Preview \<rparr>"

text \<open>The updater of the interval runs only while the component is mounted.\<close>

definition tick_elapsed :: "voice \<Rightarrow> voice" where
  "tick_elapsed s =
     (if v_mounted s
      then (let s' = (if elapsed s + 1 \<ge> MAX_DURATION_SECONDS then stopRecording s else s)
            in s'\<lparr> elapsed := elapsed s + 1 \<rparr>)
      else s)"

definition discardRecording :: "voice \<Rightarrow> voice" where
  "discardRecording s =
     s\<lparr> object_urls := (case previewUrl s of None \<Rightarrow> object_urls s | Some u \<Rightarrow> removeAll u (object_urls s)),
        blob := None, previewUrl := None, elapsed := 0, v_state := Idle \<rparr>"

definition sendRecording :: "voice \<Rightarrow> voice" where
  "sendRecording s = (if blob s = None then s else s\<lparr> v_state := Uploading, v_error := None \<rparr>)"

text \<open>The upload succeeds or fails; after a success the component stays as it is and the parent unmounts it.\<close>

definition upload_settles :: "bool \<Rightarrow> voice \<Rightarrow> voice" where
  "upload_settles ok s =
     (if ok then s\<lparr> completed := completed s @ [the (blob s)] \<rparr>
      else s\<lparr> v_error := Some ''Upload failed. Please try again.'', v_state := Preview \<rparr>)"

text \<open>The cleanup of the first render: its \<open>previewUrl\<close> is null.  A recorder whose tracks end stops.\<close>

definition unmount :: "voice \<Rightarrow> voice" where
  "unmount s0 =
     (let s = stopTimer s0 in
      (case streamRef s of
         None \<Rightarrow> s
       | Some i \<Rightarrow> s\<lparr> recorders := (recorders s)[i := (recorders s ! i)\<lparr> m_active := False, m_live := False \<rparr>] \<rparr>)
      \<lparr> v_mounted := False \<rparr>)"

datatype voice_event =
  Start | Granted | GrantedThrows bool string | Denied string | Breaks nat bool | Chunk nat nat | Tick nat | Stop | RecorderStops nat | Discard | Send
| UploadSettles bool | Unmount

fun voice_step :: "voice \<Rightarrow> voice_event \<Rightarrow> voice" where
  "voice_step s Start = (if v_mounted s \<and> v_state s = Idle then startRecording s else s)"
| "voice_step s Granted = (if 0 < prompts s then granted s else s)"
| "voice_step s (GrantedThrows made m) = (if 0 < prompts s then granted_throws made m s else s)"
| "voice_step s (Breaks i t) = (if i < length (recorders s) \<and> m_active (recorders s ! i) then breaks i t s else s)"
| "voice_step s (Denied m) = (if 0 < prompts s then denied m s else s)"
| "voice_step s (Chunk i n) =
     (if i < length (recorders s) \<and> \<not> m_reported (recorders s ! i) \<and> 0 < n then s\<lparr> chunks := chunks s @ [n] \<rparr> else s)"
| "voice_step s (Tick t) = (if t \<in> set (intervals s) then tick_elapsed s else s)"
| "voice_step s Stop = (if v_mounted s \<and> v_state s = Recording then stopRecording s else s)"
| "voice_step s (RecorderStops i) =
     (if i < length (recorders s) \<and> \<not> m_active (recorders s ! i) \<and> \<not> m_reported (recorders s ! i)
      then onstop i s else s)"
| "voice_step s Discard = (if v_mounted s \<and> v_state s = Preview then discardRecording s else s)"
| "voice_step s Send = (if v_mounted s \<and> v_state s = Preview then sendRecording s else s)"
| "voice_step s (UploadSettles ok) = (if v_state s = Uploading then upload_settles ok s else s)"
| "voice_step s Unmount = (if v_mounted s then unmount s else s)"





definition formatSeconds :: "nat \<Rightarrow> string" where
  "formatSeconds n = nat_text (n div 60) @ '':'' @
     (let t = nat_text (n mod 60) in replicate (2 - length t) CHR ''0'' @ t)"

definition mimeType :: "(string \<Rightarrow> bool) \<Rightarrow> string" where
  "mimeType isTypeSupported =
     (if isTypeSupported ''audio/webm;codecs=opus'' then ''audio/webm;codecs=opus''
      else if isTypeSupported ''audio/webm'' then ''audio/webm'' else [])"

section \<open>The microphone is only open while recording\<close>

definition off :: "media \<Rightarrow> bool" where
  "off m \<longleftrightarrow> \<not> m_active m \<and> m_reported m \<and> \<not> m_live m"

definition timer_ok :: "bool \<Rightarrow> nat option \<Rightarrow> nat list \<Rightarrow> nat \<Rightarrow> bool" where
  "timer_ok active timer running seconds \<longleftrightarrow>
     running = (case timer of None \<Rightarrow> [] | Some t \<Rightarrow> [t]) \<and> (timer \<noteq> None \<longleftrightarrow> active) \<and>
     seconds \<le> MAX_DURATION_SECONDS \<and> (active \<longrightarrow> seconds < MAX_DURATION_SECONDS)"

lemma timer_ok_off [simp]:
  "timer_ok False timer running seconds \<longleftrightarrow> timer = None \<and> running = [] \<and> seconds \<le> MAX_DURATION_SECONDS"
  by (auto simp: timer_ok_def)









lemma stopTimer_idle [simp]: "timerRef s = None \<Longrightarrow> stopTimer s = s"
  by (simp add: stopTimer_def)



















text \<open>The microphone alone, also when a recorder stops by itself.\<close>

definition last_on :: "voice \<Rightarrow> bool" where
  "last_on s \<longleftrightarrow>
     (\<exists>rs m. recorders s = rs @ [m] \<and> list_all off rs \<and> \<not> m_reported m \<and>
        streamRef s = Some (length rs) \<and> mediaRecorderRef s = Some (length rs))"

definition mic_inv :: "voice \<Rightarrow> bool" where
  "mic_inv s \<longleftrightarrow>
     (if \<not> v_mounted s then list_all (\<lambda>m. \<not> m_live m) (recorders s) \<and> prompts s = 0
      else case v_state s of
        Idle \<Rightarrow> list_all off (recorders s) \<and> prompts s \<le> 1 \<and> previewUrl s = None \<and> object_urls s = []
      | Recording \<Rightarrow> last_on s \<and> prompts s = 0 \<and> previewUrl s = None \<and> object_urls s = []
      | _ \<Rightarrow> list_all off (recorders s) \<and> prompts s = 0 \<and> blob s \<noteq> None
          \<and> (\<exists>u. previewUrl s = Some u \<and> object_urls s = [u]))"








lemma mic_elapsed [simp]: "mic_inv (s\<lparr> elapsed := e \<rparr>) = mic_inv s"
  by (cases "v_state s") (simp_all add: mic_inv_def last_on_def)















text \<open>The button stays enabled while the prompt is open: a second press opens a second stream, and the
  first one is never closed.  Its interval goes on counting after the recording has been stopped.\<close>

lemma second_press_leaves_microphone_open:
  "let s = run voice_step [Start, Start, Granted, Granted, Stop, RecorderStops 1, Unmount] voice_start in
     m_live (recorders s ! 0) \<and> m_active (recorders s ! 0) \<and> intervals s = [0]"
  by (simp add: Let_def voice_start_def startRecording_def granted_def stopRecording_def stopTimer_def
      onstop_def unmount_def nth_append)

text \<open>A prompt answered after the recorder has been closed opens the microphone for good.\<close>

lemma late_permission_leaves_microphone_open:
  "let s = run voice_step [Start, Unmount, Granted] voice_start in
     \<not> v_mounted s \<and> list_ex m_live (recorders s) \<and> intervals s = [0] \<and>
     run voice_step (replicate n (Tick 0)) s = s"
proof -
  have "run voice_step (replicate n (Tick 0)) s = s" if "\<not> v_mounted s" for s
    using that by (induction n) (simp_all add: tick_elapsed_def)
  then show ?thesis
    by (simp add: Let_def voice_start_def startRecording_def granted_def stopTimer_def unmount_def)
qed

text \<open>A recorder that cannot be made or started leaves the microphone open with the recorder idle, until
  the component is left; a second attempt loses the stream for good.\<close>

lemma failed_start_leaves_microphone_open:
  "let s = run voice_step [Start, GrantedThrows made m] voice_start in
     v_state s = Idle \<and> v_mounted s \<and> list_ex m_live (recorders s)"
  "let s = run voice_step [Start, GrantedThrows made m, Start, Granted, Stop, RecorderStops 1, Unmount] voice_start in
     \<not> v_mounted s \<and> list_ex m_live (recorders s)"
  by (simp_all add: Let_def voice_start_def startRecording_def granted_throws_def start_failed_def granted_def
      stopRecording_def stopTimer_def onstop_def unmount_def nth_append)

text \<open>A recorder that stops by itself leaves the interval running over the preview; the next recording
  starts a second one, and the first is never cleared.\<close>

lemma broken_recorder_leaves_timer:
  "let s = run voice_step [Start, Granted, Breaks 0 True, RecorderStops 0, Tick 0] voice_start in
     v_state s = Preview \<and> intervals s = [0] \<and> elapsed s = 1"
  "intervals (run voice_step [Start, Granted, Breaks 0 True, RecorderStops 0, Discard, Start, Granted, Unmount] voice_start) = [0]"
  by (simp_all add: Let_def voice_start_def startRecording_def granted_def breaks_def onstop_def tick_elapsed_def
      discardRecording_def unmount_def stopTimer_def MAX_DURATION_SECONDS_def)

text \<open>Leaving with a preview keeps its object address.\<close>

lemma preview_address_leaks: "object_urls (unmount s) = object_urls s"
  by (simp add: unmount_def stopTimer_def Let_def split: option.split)

section \<open>The player\<close>

record player =
  p_url :: "string option"
  p_src :: "string option"
  isLoading :: bool
  isPlaying :: bool
  duration :: rat
  currentTime :: rat
  p_error :: "string option"

definition player_start :: "string option \<Rightarrow> player" where
  "player_start initialUrl =
     \<lparr> p_url = initialUrl, p_src = None, isLoading = False, isPlaying = False, duration = 0, currentTime = 0,
       p_error = None \<rparr>"

text \<open>\<open>Press\<close> up to the address; the answers of the service and of the audio element are events.\<close>

datatype player_event =
  Press | UrlResolved string | UrlFailed | PlayStarted | PlayFailed | LoadedMetadata rat | TimeUpdate rat | Ended
| AudioError | Seek rat rat rat

definition seek_ratio :: "rat \<Rightarrow> rat \<Rightarrow> rat \<Rightarrow> rat" where
  "seek_ratio clientX left width = max 0 (min 1 ((clientX - left) / width))"

fun player_step :: "player \<Rightarrow> player_event \<Rightarrow> player" where
  "player_step s Press =
     (if isLoading s \<or> p_error s \<noteq> None then s
      else if isPlaying s then s\<lparr> isPlaying := False \<rparr>
      else if p_src s \<noteq> None then s
      else case p_url s of Some u \<Rightarrow> s\<lparr> p_src := Some u \<rparr> | None \<Rightarrow> s\<lparr> isLoading := True \<rparr>)"
| "player_step s (UrlResolved u) =
     (if isLoading s then s\<lparr> p_url := Some u, p_src := Some u, isLoading := False \<rparr> else s)"
| "player_step s UrlFailed =
     (if isLoading s then s\<lparr> p_error := Some ''Could not load audio.'', isLoading := False \<rparr> else s)"
| "player_step s PlayStarted = (if p_src s \<noteq> None then s\<lparr> isPlaying := True \<rparr> else s)"
| "player_step s PlayFailed = (if p_src s \<noteq> None then s\<lparr> p_error := Some ''Playback failed.'' \<rparr> else s)"
| "player_step s (LoadedMetadata d) = s\<lparr> duration := d \<rparr>"
| "player_step s (TimeUpdate t) = s\<lparr> currentTime := t \<rparr>"
| "player_step s Ended = s\<lparr> isPlaying := False, currentTime := 0 \<rparr>"
| "player_step s AudioError = s\<lparr> p_error := Some ''Playback error.'' \<rparr>"
| "player_step s (Seek x left width) =
     (if duration s = 0 \<or> p_error s \<noteq> None then s else s\<lparr> currentTime := seek_ratio x left width * duration s \<rparr>)"

definition progress :: "player \<Rightarrow> rat" where
  "progress s = (if 0 < duration s then currentTime s / duration s * 100 else 0)"

text \<open>Wherever the bar is pressed, the player stays within the recording.\<close>

lemma seek_in_bar:
  "0 \<le> progress s \<and> progress s \<le> 100 \<Longrightarrow>
     0 \<le> progress (player_step s (Seek x left width)) \<and> progress (player_step s (Seek x left width)) \<le> 100"
  by (auto simp: progress_def seek_ratio_def)

text \<open>An error is final: there is no way to try again.\<close>

lemma player_error_final: "p_error s \<noteq> None \<Longrightarrow> p_error (run player_step es s) \<noteq> None"
proof (induction es arbitrary: s)
  case (Cons e es)
  then show ?case by (cases e) (simp_all split: option.split)
qed simp

end
