(* ===== verification/Intake.thy ===== *)
theory Intake
  imports Machines
begin

text \<open>
  The intake wizard for new clients, \<open>components/intake/intake-wizard.tsx\<close>, with the steps that hold
  lists (\<open>intake-step-lifestyle.tsx\<close>, \<open>intake-step-family.tsx\<close> and its dialog and list), the dialog of
  \<open>components/common/duplicate-warning-dialog.tsx\<close> and the schema of \<open>lib/validations/client.ts\<close>.  The
  check of an e-mail address belongs to the schema library and is a parameter.

  Two facts about the page matter.  A \<open>Button\<close> without a type inside a form submits the form.  The
  submit event of the dialog's form bubbles through the portal to the form of the wizard.  While a
  dialog is open the page behind it takes no clicks.
\<close>

record member =
  m_name :: string
  m_relationship :: string
  m_custom :: "string option"

record intake_values =
  legal_name :: string
  primary_email :: string
  phone :: string
  destinations :: "string list"
  family_members :: "member list"

definition RELATIONSHIPS :: "string list" where
  "RELATIONSHIPS = [''spouse'', ''partner'', ''child'', ''parent'', ''sibling'', ''grandparent'', ''grandchild'',
     ''aunt_uncle'', ''cousin'', ''in_law'', ''other'']"

definition member_ok :: "member \<Rightarrow> bool" where
  "member_ok m \<longleftrightarrow> m_name m \<noteq> [] \<and> m_relationship m \<in> set RELATIONSHIPS"

text \<open>The fields with errors; what the schema gives to the handler has no keys but its own.\<close>

definition schema_errors :: "(string \<Rightarrow> bool) \<Rightarrow> intake_values \<Rightarrow> string list" where
  "schema_errors email_ok v =
     (if legal_name v = [] then [''legal_name''] else []) @
     (if email_ok (primary_email v) then [] else [''primary_email'']) @
     (if list_all member_ok (family_members v) then [] else [''family_members''])"

definition parsed :: "intake_values \<Rightarrow> intake_values" where
  "parsed v = v\<lparr> family_members := map (\<lambda>m. m\<lparr> m_custom := None \<rparr>) (family_members v) \<rparr>"

text \<open>The schema of the dialog: a custom relationship is required for \<open>other\<close>.\<close>

definition dialog_member_ok :: "member \<Rightarrow> bool" where
  "dialog_member_ok m \<longleftrightarrow>
     m_name m \<noteq> [] \<and> m_relationship m \<noteq> [] \<and>
     (m_relationship m = ''other'' \<longrightarrow> (case m_custom m of None \<Rightarrow> False | Some c \<Rightarrow> trim c \<noteq> []))"

section \<open>The wizard\<close>

definition STEPS :: nat where "STEPS = 5"

definition DUPLICATE_CHECK_STEPS :: "nat list" where "DUPLICATE_CHECK_STEPS = [1, 2]"

text \<open>\<open>checks\<close>: the duplicate checks under way, each with what follows it (\<open>None\<close>: the submission).
  \<open>submissions\<close>: the calls of the mutation, with the step they were made on.\<close>

record intake =
  currentStep :: nat
  form_values :: intake_values
  duplicates :: "string list"
  duplicateDialogOpen :: bool
  pendingNextStep :: "nat option"
  checks :: "nat option list"
  submissions :: "(nat \<times> intake_values) list"
  unanswered :: nat
  opened_clients :: "string list"
  memberDialogOpen :: bool
  editingIndex :: "nat option"

definition intake_start :: "intake_values \<Rightarrow> intake" where
  "intake_start v =
     \<lparr> currentStep = 1, form_values = v, duplicates = [], duplicateDialogOpen = False, pendingNextStep = None,
       checks = [], submissions = [], unanswered = 0, opened_clients = [], memberDialogOpen = False,
       editingIndex = None \<rparr>"

text \<open>Another step mounts another component: the dialog of the family step is gone.\<close>

definition setCurrentStep :: "nat \<Rightarrow> intake \<Rightarrow> intake" where
  "setCurrentStep k s =
     (if k = currentStep s then s else s\<lparr> currentStep := k, memberDialogOpen := False, editingIndex := None \<rparr>)"

definition hasEnoughData :: "intake_values \<Rightarrow> bool" where
  "hasEnoughData v \<longleftrightarrow>
     legal_name v \<noteq> [] \<and> 3 \<le> length (trim (legal_name v)) \<or>
     primary_email v \<noteq> [] \<and> 0 < length (trim (primary_email v)) \<or>
     phone v \<noteq> [] \<and> 7 \<le> length (trim (phone v))"

definition check_needed :: "bool \<Rightarrow> intake \<Rightarrow> bool" where
  "check_needed isEditing s \<longleftrightarrow>
     \<not> (currentStep s \<notin> set DUPLICATE_CHECK_STEPS \<or> isEditing) \<and> hasEnoughData (form_values s)"

definition doSubmit :: "intake_values \<Rightarrow> intake \<Rightarrow> intake" where
  "doSubmit v s = s\<lparr> submissions := submissions s @ [(currentStep s, v)], unanswered := unanswered s + 1 \<rparr>"

definition step_valid :: "(string \<Rightarrow> bool) \<Rightarrow> intake \<Rightarrow> bool" where
  "step_valid email_ok s =
     (let errors = schema_errors email_ok (form_values s) in
      if currentStep s = 1 then ''legal_name'' \<notin> set errors
      else if currentStep s = 2 then ''primary_email'' \<notin> set errors
      else True)"

definition handleNext :: "(string \<Rightarrow> bool) \<Rightarrow> bool \<Rightarrow> intake \<Rightarrow> intake" where
  "handleNext email_ok isEditing s =
     (if \<not> step_valid email_ok s then s
      else (let nextStep = currentStep s + 1 in
        if nextStep > STEPS then s
        else if check_needed isEditing s then s\<lparr> checks := checks s @ [Some nextStep] \<rparr>
        else setCurrentStep nextStep s))"

definition handleBack :: "intake \<Rightarrow> intake" where
  "handleBack s = (if currentStep s > 1 then setCurrentStep (currentStep s - 1) s else s)"

text \<open>\<open>methods.handleSubmit(handleSubmit)\<close>.\<close>

definition submit_form :: "(string \<Rightarrow> bool) \<Rightarrow> bool \<Rightarrow> intake \<Rightarrow> intake" where
  "submit_form email_ok isEditing s =
     (if schema_errors email_ok (form_values s) \<noteq> [] then s
      else if check_needed isEditing s then s\<lparr> checks := checks s @ [None] \<rparr>
      else doSubmit (parsed (form_values s)) s)"

text \<open>A check that fails counts as one without matches.\<close>

definition check_settles :: "nat \<Rightarrow> string list \<Rightarrow> intake \<Rightarrow> intake" where
  "check_settles i matches s =
     (let follow = checks s ! i; s = s\<lparr> checks := take i (checks s) @ drop (Suc i) (checks s) \<rparr> in
      if matches \<noteq> [] then s\<lparr> duplicates := matches, pendingNextStep := follow, duplicateDialogOpen := True \<rparr>
      else case follow of
        Some nextStep \<Rightarrow> setCurrentStep nextStep s
      | None \<Rightarrow> doSubmit (parsed (form_values s)) s)"

definition handleCreateAnyway :: "intake \<Rightarrow> intake" where
  "handleCreateAnyway s =
     (case pendingNextStep s of
        Some k \<Rightarrow> (setCurrentStep k s)\<lparr> pendingNextStep := None, duplicates := [] \<rparr>
      | None \<Rightarrow> s\<lparr> duplicates := [] \<rparr>)"

definition handleCreateAnywayAndSubmit :: "intake \<Rightarrow> intake" where
  "handleCreateAnywayAndSubmit s =
     (if pendingNextStep s \<noteq> None then handleCreateAnyway s
      else doSubmit (form_values s) (s\<lparr> duplicates := [] \<rparr>))"

section \<open>The steps with lists\<close>

definition addDestination :: "string \<Rightarrow> intake_values \<Rightarrow> intake_values" where
  "addDestination d v =
     (if d \<noteq> [] \<and> d \<notin> set (destinations v) then v\<lparr> destinations := destinations v @ [d] \<rparr> else v)"

definition removeDestination :: "string \<Rightarrow> intake_values \<Rightarrow> intake_values" where
  "removeDestination d v = v\<lparr> destinations := filter (\<lambda>x. x \<noteq> d) (destinations v) \<rparr>"

definition handleAddMember :: "member \<Rightarrow> intake \<Rightarrow> intake" where
  "handleAddMember m s =
     (let v = form_values s in
      (case editingIndex s of
         Some i \<Rightarrow> s\<lparr> form_values := v\<lparr> family_members := (family_members v)[i := m] \<rparr>, editingIndex := None \<rparr>
       | None \<Rightarrow> s\<lparr> form_values := v\<lparr> family_members := family_members v @ [m] \<rparr> \<rparr>)
      \<lparr> memberDialogOpen := False \<rparr>)"

definition handleEditMember :: "nat \<Rightarrow> intake \<Rightarrow> intake" where
  "handleEditMember i s = s\<lparr> editingIndex := Some i, memberDialogOpen := True \<rparr>"

definition handleDeleteMember :: "nat \<Rightarrow> intake \<Rightarrow> intake" where
  "handleDeleteMember i s =
     (let v = form_values s
      in s\<lparr> form_values := v\<lparr> family_members := take i (family_members v) @ drop (Suc i) (family_members v) \<rparr> \<rparr>)"

section \<open>The page\<close>

definition page_active :: "intake \<Rightarrow> bool" where
  "page_active s \<longleftrightarrow> \<not> duplicateDialogOpen s \<and> \<not> memberDialogOpen s"

datatype intake_event =
  Fill string string string
| AddDestination string | RemoveDestination string
| Continue | Back | StepButton nat | SubmitButton
| CheckSettles nat "string list" | CreateAnyway | CloseDuplicates
| SubmitSettles "string option"
| AddMemberButton | EditMemberButton nat | DeleteMemberButton nat
| MemberSubmitted member | CloseMemberDialog

text \<open>The buttons of the family step are inside the form and have no type: after their handler the form
  is submitted.  The submit event of the dialog reaches the wizard with the values from before the
  member is added: both forms check their values first, and the wizard's copy is taken at the event.\<close>

fun intake_step :: "(string \<Rightarrow> bool) \<Rightarrow> bool \<Rightarrow> intake \<Rightarrow> intake_event \<Rightarrow> intake" where
  "intake_step ok ed s (Fill n e p) =
     (if page_active s then s\<lparr> form_values := (form_values s)\<lparr> legal_name := n, primary_email := e, phone := p \<rparr> \<rparr> else s)"
| "intake_step ok ed s (AddDestination d) =
     (if page_active s \<and> currentStep s = 4 then s\<lparr> form_values := addDestination d (form_values s) \<rparr> else s)"
| "intake_step ok ed s (RemoveDestination d) =
     (if page_active s \<and> currentStep s = 4 then s\<lparr> form_values := removeDestination d (form_values s) \<rparr> else s)"
| "intake_step ok ed s Continue =
     (if page_active s \<and> currentStep s < STEPS then handleNext ok ed s else s)"
| "intake_step ok ed s Back = (if page_active s then handleBack s else s)"
| "intake_step ok ed s (StepButton k) =
     (if page_active s \<and> 1 \<le> k \<and> k < currentStep s then setCurrentStep k s else s)"
| "intake_step ok ed s SubmitButton =
     (if page_active s \<and> currentStep s = STEPS \<and> unanswered s = 0 then submit_form ok ed s else s)"
| "intake_step ok ed s (CheckSettles i ms) = (if i < length (checks s) then check_settles i ms s else s)"
| "intake_step ok ed s CreateAnyway =
     (if duplicateDialogOpen s then handleCreateAnywayAndSubmit (s\<lparr> duplicateDialogOpen := False \<rparr>) else s)"
| "intake_step ok ed s CloseDuplicates = s\<lparr> duplicateDialogOpen := False \<rparr>"
| "intake_step ok ed s (SubmitSettles r) =
     (if 0 < unanswered s
      then s\<lparr> unanswered := unanswered s - 1,
              opened_clients := (case r of None \<Rightarrow> opened_clients s | Some c \<Rightarrow> opened_clients s @ [''/clients/'' @ c]) \<rparr>
      else s)"
| "intake_step ok ed s AddMemberButton =
     (if page_active s \<and> currentStep s = 5 then submit_form ok ed (s\<lparr> memberDialogOpen := True \<rparr>) else s)"
| "intake_step ok ed s (EditMemberButton i) =
     (if page_active s \<and> currentStep s = 5 \<and> i < length (family_members (form_values s))
      then submit_form ok ed (handleEditMember i s) else s)"
| "intake_step ok ed s (DeleteMemberButton i) =
     (if page_active s \<and> currentStep s = 5 \<and> i < length (family_members (form_values s))
      then submit_form ok ed (handleDeleteMember i s) else s)"
| "intake_step ok ed s (MemberSubmitted m) =
     (if memberDialogOpen s
      then (let s = submit_form ok ed s in if dialog_member_ok m then handleAddMember m s else s)
      else s)"
| "intake_step ok ed s CloseMemberDialog = s\<lparr> memberDialogOpen := False, editingIndex := None \<rparr>"

section \<open>What is submitted\<close>

definition sent_ok :: "(string \<Rightarrow> bool) \<Rightarrow> nat \<times> intake_values \<Rightarrow> bool" where
  "sent_ok email_ok sent \<longleftrightarrow> fst sent = STEPS \<and> schema_errors email_ok (snd sent) = []"

text \<open>A check stands before the second or the third step: it was made on one of the first two.\<close>

definition step_ahead :: "nat option \<Rightarrow> bool" where
  "step_ahead c \<longleftrightarrow> (case c of None \<Rightarrow> True | Some k \<Rightarrow> k = 2 \<or> k = 3)"

lemma step_ahead_simps [simp]: "step_ahead None" "step_ahead (Some k) \<longleftrightarrow> k = 2 \<or> k = 3"
  by (simp_all add: step_ahead_def)

definition intake_inv :: "(string \<Rightarrow> bool) \<Rightarrow> intake \<Rightarrow> bool" where
  "intake_inv email_ok s \<longleftrightarrow>
     1 \<le> currentStep s \<and> currentStep s \<le> STEPS \<and>
     list_all (\<lambda>c. c \<noteq> None \<and> step_ahead c) (checks s) \<and>
     step_ahead (pendingNextStep s) \<and> (duplicateDialogOpen s \<longrightarrow> pendingNextStep s \<noteq> None) \<and>
     (memberDialogOpen s \<longrightarrow> currentStep s = STEPS) \<and>
     list_all (sent_ok email_ok) (submissions s)"

lemma member_ok_parsed [simp]: "member_ok (m\<lparr> m_custom := c \<rparr>) = member_ok m"
  by (simp add: member_ok_def)

lemma schema_errors_parsed [simp]: "schema_errors email_ok (parsed v) = schema_errors email_ok v"
  by (simp add: schema_errors_def parsed_def list_all_iff)

lemma setCurrentStep_simps [simp]:
  "currentStep (setCurrentStep k s) = k" "checks (setCurrentStep k s) = checks s"
  "submissions (setCurrentStep k s) = submissions s" "pendingNextStep (setCurrentStep k s) = pendingNextStep s"
  "duplicateDialogOpen (setCurrentStep k s) = duplicateDialogOpen s"
  by (simp_all add: setCurrentStep_def)

lemma inv_setCurrentStep:
  assumes "intake_inv email_ok s" "1 \<le> k" "k \<le> STEPS"
  shows "intake_inv email_ok (setCurrentStep k s)"
  using assms by (auto simp: intake_inv_def setCurrentStep_def)

lemma checks_on_early_steps: "check_needed ed s \<Longrightarrow> currentStep s \<in> {1, 2}"
  by (simp add: check_needed_def DUPLICATE_CHECK_STEPS_def)

lemma intake_inv_submit:
  assumes "intake_inv email_ok s" "currentStep s = STEPS"
  shows "intake_inv email_ok (submit_form email_ok ed s)"
  using assms checks_on_early_steps [of ed s]
  by (auto simp: submit_form_def doSubmit_def intake_inv_def sent_ok_def STEPS_def)

lemma intake_inv_next:
  assumes "intake_inv email_ok s" "currentStep s < STEPS"
  shows "intake_inv email_ok (handleNext email_ok ed s)"
  using assms inv_setCurrentStep [OF assms(1), of "currentStep s + 1"] checks_on_early_steps [of ed s]
  by (auto simp: handleNext_def Let_def) (auto simp: intake_inv_def)

lemma inv_checked:
  assumes "intake_inv email_ok s" "i < length (checks s)"
  shows "intake_inv email_ok (check_settles i ms s)"
proof -
  obtain k where k: "checks s ! i = Some k" "1 < k" "k \<le> STEPS" "k = 2 \<or> k = 3"
    using assms by (cases "checks s ! i") (force simp: intake_inv_def list_all_length STEPS_def)+
  have rest: "list_all P (take i (checks s) @ drop (Suc i) (checks s))" if "list_all P (checks s)" for P
    using that by (auto simp: list_all_iff dest: in_set_takeD in_set_dropD)
  let ?s = "s\<lparr> checks := take i (checks s) @ drop (Suc i) (checks s) \<rparr>"
  have "intake_inv email_ok ?s" using assms(1) rest by (simp add: intake_inv_def del: list_all_append)
  then have "intake_inv email_ok (setCurrentStep k ?s)" using k by (intro inv_setCurrentStep) simp_all
  then show ?thesis using assms(1) rest k
    by (simp add: check_settles_def Let_def) (simp add: intake_inv_def del: list_all_append)
qed

lemma inv_anyway:
  assumes "intake_inv email_ok s" "duplicateDialogOpen s"
  shows "intake_inv email_ok (handleCreateAnywayAndSubmit (s\<lparr> duplicateDialogOpen := False \<rparr>))"
proof -
  obtain k where k: "pendingNextStep s = Some k" "1 < k" "k \<le> STEPS"
    using assms by (auto simp: intake_inv_def STEPS_def)
  let ?s = "s\<lparr> duplicateDialogOpen := False \<rparr>"
  have "intake_inv email_ok (setCurrentStep k ?s)"
    using assms(1) k by (intro inv_setCurrentStep) (auto simp: intake_inv_def)
  then show ?thesis using k by (simp add: handleCreateAnywayAndSubmit_def handleCreateAnyway_def intake_inv_def)
qed

lemma inv_ignores:
  "intake_inv email_ok (s\<lparr> form_values := v \<rparr>) = intake_inv email_ok s"
  "currentStep s = STEPS \<Longrightarrow> intake_inv email_ok (s\<lparr> memberDialogOpen := b \<rparr>) = intake_inv email_ok s"
  "intake_inv email_ok (s\<lparr> editingIndex := e \<rparr>) = intake_inv email_ok s"
  by (auto simp: intake_inv_def)

lemma member_handlers:
  "currentStep (handleEditMember i s) = currentStep s" "currentStep (handleDeleteMember i s) = currentStep s"
  by (simp_all add: handleEditMember_def handleDeleteMember_def Let_def)

lemma inv_members:
  assumes "intake_inv email_ok s" "currentStep s = STEPS"
  shows "intake_inv email_ok (handleEditMember i s)" "intake_inv email_ok (handleDeleteMember i s)"
    "intake_inv email_ok (handleAddMember m s)"
  using assms by (auto simp: handleEditMember_def handleDeleteMember_def handleAddMember_def intake_inv_def Let_def split: option.split)

lemma inv_member_dialog:
  assumes "intake_inv email_ok s" "memberDialogOpen s"
  shows "intake_inv email_ok (let s = submit_form email_ok ed s in if dialog_member_ok m then handleAddMember m s else s)"
proof -
  have "currentStep s = STEPS" using assms by (simp add: intake_inv_def)
  moreover have "currentStep (submit_form email_ok ed s) = currentStep s" by (simp add: submit_form_def doSubmit_def)
  ultimately show ?thesis using intake_inv_submit [OF assms(1)] inv_members(3) by (simp add: Let_def)
qed

lemma inv_intake_step:
  assumes "intake_inv email_ok s"
  shows "intake_inv email_ok (intake_step email_ok ed s e)"
proof (cases e)
  case (MemberSubmitted m)
  then show ?thesis using inv_member_dialog [OF assms] assms by simp
next
  case AddMemberButton
  then show ?thesis
    using assms by (simp add: intake_inv_submit inv_ignores STEPS_def)
next
  case (EditMemberButton i)
  then show ?thesis using assms intake_inv_submit inv_members by (simp add: STEPS_def member_handlers)
next
  case (DeleteMemberButton i)
  then show ?thesis using assms intake_inv_submit inv_members by (simp add: STEPS_def member_handlers)
next
  case (StepButton k)
  then show ?thesis using assms inv_setCurrentStep [OF assms, of k] by (auto simp: intake_inv_def)
next
  case Back
  then show ?thesis using assms inv_setCurrentStep [OF assms, of "currentStep s - 1"]
    by (auto simp: handleBack_def) (auto simp: intake_inv_def)
next
  case CloseMemberDialog
  then show ?thesis using assms by (simp add: intake_inv_def)
next
  case CloseDuplicates
  then show ?thesis using assms by (auto simp: intake_inv_def split: option.splits)
next
  case (SubmitSettles r)
  then show ?thesis using assms by (simp add: intake_inv_def)
qed (use assms in \<open>simp_all add: intake_inv_next inv_checked inv_anyway intake_inv_submit inv_ignores\<close>)

interpretation intake: machine "intake_step email_ok ed" "intake_inv email_ok" for email_ok ed
  by unfold_locales (rule inv_intake_step)

lemma inv_intake_start: "intake_inv email_ok (intake_start v)"
  by (simp add: intake_inv_def intake_start_def STEPS_def)

text \<open>C22.  Whatever is pressed and however the checks and requests settle: every profile that is sent was
  sent from the last step and satisfies the schema, and the duplicate check only guards the first two
  steps: every check under way, and every dialog about duplicates, stands before step two or three, and
  never before a submission.\<close>

theorem submissions_valid:
  "let s = run (intake_step email_ok ed) es (intake_start v) in
     list_all (sent_ok email_ok) (submissions s) \<and>
     list_all (\<lambda>c. c = Some 2 \<or> c = Some 3) (checks s) \<and>
     (if duplicateDialogOpen s then pendingNextStep s = Some 2 \<or> pendingNextStep s = Some 3 else True) \<and>
     1 \<le> currentStep s \<and> currentStep s \<le> STEPS"
proof -
  have "intake_inv email_ok (run (intake_step email_ok ed) es (intake_start v))"
    by (rule intake.every_run_inv [OF inv_intake_start])
  then show ?thesis by (auto simp: intake_inv_def Let_def list_all_iff)
qed

text \<open>The button that opens the dialog for a family member sends the profile, whenever the form is valid.\<close>

theorem add_member_button_submits:
  "submissions (intake_step email_ok ed s AddMemberButton) =
     (if page_active s \<and> currentStep s = 5 \<and> schema_errors email_ok (form_values s) = []
      then submissions s @ [(5, parsed (form_values s))] else submissions s)"
  by (simp add: submit_form_def check_needed_def DUPLICATE_CHECK_STEPS_def doSubmit_def)

text \<open>Adding a member sends the profile twice, both times without the member.\<close>

lemma member_not_submitted:
  assumes "page_active s" "currentStep s = 5" "schema_errors email_ok (form_values s) = []" "dialog_member_ok m"
  shows "let t = run (intake_step email_ok ed) [AddMemberButton, MemberSubmitted m] s in
    submissions t = submissions s @ [(5, parsed (form_values s)), (5, parsed (form_values s))] \<and>
    unanswered t = unanswered s + 2"
  using assms
  by (simp add: submit_form_def check_needed_def DUPLICATE_CHECK_STEPS_def doSubmit_def handleAddMember_def Let_def
      split: option.split)

text \<open>The description of an other relationship is asked for, kept in the form and dropped by the schema.\<close>

lemma custom_relationship_dropped: "list_all (\<lambda>m. m_custom m = None) (family_members (parsed v))"
  by (simp add: parsed_def list_all_iff)

text \<open>A duplicate check that answers late moves the user to the step after the one it was started on.\<close>

lemma late_check_moves_user:
  assumes "i < length (checks s)" "checks s ! i = Some k"
  shows "currentStep (intake_step email_ok ed s (CheckSettles i [])) = k"
  using assms by (simp add: check_settles_def Let_def)

text \<open>The destinations of the lifestyle step never repeat.\<close>

lemma destinations_distinct:
  "distinct (destinations v) \<Longrightarrow> distinct (destinations (addDestination d v)) \<and> distinct (destinations (removeDestination d v))"
  by (simp add: addDestination_def removeDestination_def)

end
