(* ===== verification/FormSections.thy ===== *)
theory FormSections
  imports JsMaps Machines
begin

text \<open>
  Collapsible sections of forms: \<open>components/ui/collapsible-section.tsx\<close> and
  \<open>components/ui/form-section.tsx\<close>.  Values are those of a flat form; the keys of the errors are the names of its
  fields, and of nested ones after a dot.
\<close>

section \<open>The completion of a section\<close>

datatype completion_status = Complete | Incomplete | Partial | HasErrors

definition has_error :: "string list \<Rightarrow> string \<Rightarrow> bool" where
  "has_error errors field \<longleftrightarrow> list_ex (\<lambda>k. k = field \<or> starts_with (field @ ''.'') k) errors"

definition filled :: "(string \<times> jsv) list \<Rightarrow> string \<Rightarrow> bool" where
  "filled values field \<longleftrightarrow>
     (case map_of values field of None \<Rightarrow> False | Some v \<Rightarrow> v \<noteq> JUndef \<and> v \<noteq> JNull \<and> v \<noteq> JStr [])"

definition getFieldsCompletionStatus ::
    "(string \<times> jsv) list \<Rightarrow> string list \<Rightarrow> string list \<Rightarrow> string list \<Rightarrow> completion_status" where
  "getFieldsCompletionStatus values fields requiredFields errors =
     (if filter (has_error errors) fields \<noteq> [] then HasErrors
      else (let requiredFilled = filter (filled values) requiredFields in
        if length requiredFilled < length requiredFields
        then (if 0 < length requiredFilled then Partial else Incomplete)
        else (let optionalFields = filter (\<lambda>f. f \<notin> set requiredFields) fields;
                  optionalFilled = filter (filled values) optionalFields
              in if 0 < length optionalFields \<and> length optionalFilled < length optionalFields then Partial
                 else Complete)))"

definition countFieldErrors :: "string list \<Rightarrow> string list \<Rightarrow> nat" where
  "countFieldErrors fields errors = length (filter (has_error errors) fields)"

lemma all_filled_iff: "length (filter P xs) < length xs \<longleftrightarrow> \<not> list_all P xs"
  by (metis (no_types, lifting) filter_True length_filter_less linorder_neq_iff list_all_iff)

lemma none_filled_iff: "0 < length (filter P xs) \<longleftrightarrow> list_ex P xs"
  by (auto simp: list_ex_iff filter_empty_conv)

lemma required_and_optional:
  "list_all P req \<and> list_all P (filter (\<lambda>f. f \<notin> set req) fields) \<longleftrightarrow> list_all P (req @ fields)"
  by (auto simp: list_all_iff)

text \<open>A section is complete when no field has an error and all of them are filled; it counts as not
  started only when it has required fields and none is filled.\<close>

theorem completion_means:
  "(getFieldsCompletionStatus values fields req errors = HasErrors \<longleftrightarrow> 0 < countFieldErrors fields errors) \<and>
   (getFieldsCompletionStatus values fields req errors = Complete \<longleftrightarrow>
      countFieldErrors fields errors = 0 \<and> list_all (filled values) (req @ fields)) \<and>
   (getFieldsCompletionStatus values fields req errors = Incomplete \<longleftrightarrow>
      countFieldErrors fields errors = 0 \<and> req \<noteq> [] \<and> \<not> list_ex (filled values) req)"
proof -
  have none: "\<not> list_all P req \<and> \<not> list_ex P req \<longleftrightarrow> req \<noteq> [] \<and> \<not> list_ex P req" for P
    by (cases req) auto
  show ?thesis
    unfolding getFieldsCompletionStatus_def countFieldErrors_def Let_def all_filled_iff none_filled_iff
    using required_and_optional [of "filled values" req fields] none [of "filled values"]
    by (auto simp: list_all_iff list_ex_iff filter_empty_conv)
qed

text \<open>Without required fields an untouched section reads as in progress.\<close>

lemma untouched_in_progress:
  "fields \<noteq> [] \<Longrightarrow> countFieldErrors fields errors = 0 \<Longrightarrow> \<not> list_ex (filled values) fields \<Longrightarrow>
     getFieldsCompletionStatus values fields [] errors = Partial"
  using completion_means [of "values" fields "[]" errors]
  by (cases fields; cases "getFieldsCompletionStatus values fields [] errors") auto

section \<open>One section\<close>

definition getPersistKey :: "string \<Rightarrow> string" where
  "getPersistKey i = ''collapsible-section-'' @ i"

text \<open>What a storage that may refuse gives back and keeps.\<close>

definition getPersistedState :: "(string \<times> string) list option \<Rightarrow> string \<Rightarrow> bool option" where
  "getPersistedState st i =
     (case st of None \<Rightarrow> None | Some m \<Rightarrow> map_option (\<lambda>v. v = ''true'') (map_of m (getPersistKey i)))"

definition persistState :: "string \<Rightarrow> bool \<Rightarrow> (string \<times> string) list option \<Rightarrow> (string \<times> string) list option" where
  "persistState i b st =
     map_option (AList.update (getPersistKey i) (if b then ''true'' else ''false'')) st"

record section_props =
  sec_id :: string
  defaultExpanded :: bool
  shouldPersistState :: bool
  disabled :: bool
  forceExpanded :: bool

record collapsible =
  internalExpanded :: bool
  local_storage :: "(string \<times> string) list option"

text \<open>\<open>controlled\<close> is the \<open>expanded\<close> the parent passes, if it does.\<close>

definition getInitialState :: "section_props \<Rightarrow> (string \<times> string) list option \<Rightarrow> bool" where
  "getInitialState p st =
     (case (if shouldPersistState p then getPersistedState st (sec_id p) else None) of
        Some b \<Rightarrow> b | None \<Rightarrow> defaultExpanded p)"

definition section_mount :: "section_props \<Rightarrow> (string \<times> string) list option \<Rightarrow> collapsible" where
  "section_mount p st = \<lparr> internalExpanded = getInitialState p st, local_storage = st \<rparr>"

definition isExpanded :: "section_props \<Rightarrow> bool option \<Rightarrow> collapsible \<Rightarrow> bool" where
  "isExpanded p controlled s \<longleftrightarrow>
     forceExpanded p \<or> (case controlled of Some b \<Rightarrow> b | None \<Rightarrow> internalExpanded s)"

definition handleToggle :: "section_props \<Rightarrow> bool option \<Rightarrow> collapsible \<Rightarrow> collapsible \<times> bool option" where
  "handleToggle p controlled s =
     (if disabled p \<or> forceExpanded p then (s, None)
      else (let newExpanded = (\<not> isExpanded p controlled s);
                s = (if controlled = None then s\<lparr> internalExpanded := newExpanded \<rparr> else s);
                s = (if shouldPersistState p
                     then s\<lparr> local_storage := persistState (sec_id p) newExpanded (local_storage s) \<rparr> else s)
            in (s, Some newExpanded)))"

lemma persisted_read: "getPersistedState (persistState i b (Some m)) i = Some b"
  by (simp add: getPersistedState_def persistState_def update_conv')

lemma persist_key_inj: "getPersistKey i = getPersistKey j \<longleftrightarrow> i = j"
  by (simp add: getPersistKey_def)

text \<open>The first toggles of a section by itself, then a reload of the page.\<close>

definition toggles :: "section_props \<Rightarrow> nat \<Rightarrow> collapsible \<Rightarrow> collapsible" where
  "toggles p n s = ((\<lambda>s. fst (handleToggle p None s)) ^^ n) s"

definition kept :: "section_props \<Rightarrow> collapsible \<Rightarrow> bool" where
  "kept p s \<longleftrightarrow> internalExpanded s = getInitialState p (local_storage s) \<and> local_storage s \<noteq> None"

lemma kept_toggle: "shouldPersistState p \<Longrightarrow> kept p s \<Longrightarrow> kept p (fst (handleToggle p None s))"
  by (auto simp: kept_def handleToggle_def Let_def getInitialState_def getPersistedState_def persistState_def
      update_conv')

text \<open>A section without a parent's state, however often it has been toggled, is after a reload what it was.\<close>

theorem section_survives_reload:
  assumes "shouldPersistState p"
  shows "isExpanded p None (section_mount p (local_storage (toggles p n (section_mount p (Some st)))))
    = isExpanded p None (toggles p n (section_mount p (Some st)))"
proof -
  have "kept p (toggles p n (section_mount p (Some st)))"
  proof (induction n)
    case 0
    then show ?case by (simp add: toggles_def kept_def section_mount_def)
  next
    case (Suc n)
    then show ?case using kept_toggle [OF assms] by (simp add: toggles_def)
  qed
  then show ?thesis by (simp add: kept_def isExpanded_def section_mount_def)
qed

definition contact_section :: section_props where
  "contact_section = \<lparr> sec_id = ''contact-info'', defaultExpanded = True, shouldPersistState = True, disabled = False,
     forceExpanded = False \<rparr>"

lemma section_survives_reload_witness:
  "\<not> isExpanded contact_section None
      (section_mount contact_section (local_storage (toggles contact_section 3 (section_mount contact_section (Some [])))))"
proof -
  have p: "shouldPersistState contact_section" by (simp add: contact_section_def)
  have "\<not> isExpanded contact_section None (toggles contact_section 3 (section_mount contact_section (Some [])))"
    by (simp add: toggles_def eval_nat_numeral handleToggle_def Let_def isExpanded_def section_mount_def
        getInitialState_def getPersistedState_def persistState_def contact_section_def)
  then show ?thesis using section_survives_reload [OF p, of 3 "[]"] by simp
qed

section \<open>A section of a form\<close>

text \<open>The section of a form passes its own state down, so the section below is always controlled.\<close>

record form_section =
  fs_expanded :: bool
  prevErrorCount :: nat
  fs_below :: collapsible

definition form_section_mount :: "section_props \<Rightarrow> (string \<times> string) list option \<Rightarrow> form_section" where
  "form_section_mount p st =
     \<lparr> fs_expanded = defaultExpanded p, prevErrorCount = 0, fs_below = section_mount p st \<rparr>"

definition fs_shown :: "section_props \<Rightarrow> form_section \<Rightarrow> bool" where
  "fs_shown p s = isExpanded p (Some (fs_expanded s)) (fs_below s)"

definition fs_toggle :: "section_props \<Rightarrow> form_section \<Rightarrow> form_section" where
  "fs_toggle p s =
     (case handleToggle p (Some (fs_expanded s)) (fs_below s) of
        (below, Some b) \<Rightarrow> s\<lparr> fs_expanded := b, fs_below := below \<rparr>
      | (below, None) \<Rightarrow> s\<lparr> fs_below := below \<rparr>)"

text \<open>The effect of a changed number of errors.\<close>

definition fs_errors :: "bool \<Rightarrow> nat \<Rightarrow> form_section \<Rightarrow> form_section" where
  "fs_errors autoExpandOnError errorCount s =
     (let s = (if autoExpandOnError \<and> 0 < errorCount \<and> prevErrorCount s = 0 then s\<lparr> fs_expanded := True \<rparr> else s)
      in s\<lparr> prevErrorCount := errorCount \<rparr>)"

text \<open>The first error opens the section; while errors remain it can be closed and stays closed.\<close>

lemma first_error_opens:
  "prevErrorCount s = 0 \<Longrightarrow> 0 < n \<Longrightarrow> fs_shown p (fs_errors True n s)"
  "0 < prevErrorCount s \<Longrightarrow> fs_expanded (fs_errors auto n s) = fs_expanded s"
  by (simp_all add: fs_shown_def isExpanded_def fs_errors_def Let_def)

text \<open>The state of a form's section is written and never read: after a reload it is the default.\<close>

lemma form_section_forgets:
  "fs_shown p (form_section_mount p st) = (forceExpanded p \<or> defaultExpanded p)"
  by (simp add: fs_shown_def form_section_mount_def isExpanded_def)

lemma form_section_writes:
  assumes "shouldPersistState p" "\<not> disabled p" "\<not> forceExpanded p"
  shows "getPersistedState (local_storage (fs_below (fs_toggle p (form_section_mount p (Some st))))) (sec_id p)
    = Some (\<not> defaultExpanded p)"
  using assms
  by (simp add: fs_toggle_def handleToggle_def Let_def isExpanded_def form_section_mount_def section_mount_def
      persisted_read)

section \<open>Groups\<close>

definition toggleSection :: "bool \<Rightarrow> string \<Rightarrow> string list \<Rightarrow> string list" where
  "toggleSection allowMultiple i open =
     (if allowMultiple then (if i \<in> set open then removeAll i open else open @ [i])
      else if i \<in> set open then removeAll i open else [i])"

lemma accordion_opens_one:
  "length open \<le> 1 \<Longrightarrow> length (fold (toggleSection False) is open) \<le> 1"
proof (induction "is" arbitrary: "open")
  case (Cons i "is")
  have "length (toggleSection False i open) \<le> 1"
    using Cons.prems order_trans [OF length_removeAll_less_eq [of i "open"]] by (simp add: toggleSection_def)
  then show ?case using Cons.IH by simp
qed simp

record section_group =
  expandedSections :: "string list"
  sectionIds :: "string list"

definition registerSection :: "string \<Rightarrow> section_group \<Rightarrow> section_group" where
  "registerSection i g = g\<lparr> sectionIds := (if i \<in> set (sectionIds g) then sectionIds g else sectionIds g @ [i]) \<rparr>"

definition unregisterSection :: "string \<Rightarrow> section_group \<Rightarrow> section_group" where
  "unregisterSection i g = g\<lparr> sectionIds := filter (\<lambda>s. s \<noteq> i) (sectionIds g) \<rparr>"

definition allExpanded :: "section_group \<Rightarrow> bool" where
  "allExpanded g \<longleftrightarrow> sectionIds g \<noteq> [] \<and> length (expandedSections g) = length (sectionIds g)"

definition expand_button :: "section_group \<Rightarrow> section_group" where
  "expand_button g = g\<lparr> expandedSections := (if allExpanded g then [] else sectionIds g) \<rparr>"

definition controls_shown :: "bool \<Rightarrow> section_group \<Rightarrow> bool" where
  "controls_shown showControls g \<longleftrightarrow> showControls \<and> 1 < length (sectionIds g)"

lemma sections_registered_once:
  "distinct (sectionIds g) \<Longrightarrow> distinct (sectionIds (registerSection i g)) \<and> distinct (sectionIds (unregisterSection i g))"
  by (simp add: registerSection_def unregisterSection_def)

text \<open>The button alternates between everything and nothing.\<close>

lemma expand_button_alternates:
  "sectionIds g \<noteq> [] \<Longrightarrow> \<not> allExpanded g \<Longrightarrow>
     allExpanded (expand_button g) \<and> expandedSections (expand_button (expand_button g)) = []"
  by (simp add: expand_button_def allExpanded_def)

end
