(* ===== verification/DataGrid.thy ===== *)
theory DataGrid
  imports Machines
begin

text \<open>
  The keyboard of the accessible table, \<open>components/ui/accessible-data-table.tsx\<close>.  The rows are their
  identifiers; the numbers of rows and columns are those of the render.
\<close>

record grid_props =
  grid_rows :: "string list"
  grid_cols :: nat
  selectable :: bool
  cell_mode :: bool
  has_row_click :: bool

record grid =
  focusedRowIndex :: int
  focusedCellIndex :: int
  selectedRows :: "string list"
  clicked_rows :: "string list"
  announced :: string

definition grid_start :: grid where
  "grid_start = \<lparr> focusedRowIndex = 0, focusedCellIndex = 0, selectedRows = [], clicked_rows = [], announced = [] \<rparr>"

definition toggleSelected :: "string \<Rightarrow> string list \<Rightarrow> string list" where
  "toggleSelected r sel = (if r \<in> set sel then removeAll r sel else sel @ [r])"

definition all_selected :: "grid_props \<Rightarrow> grid \<Rightarrow> bool" where
  "all_selected p s \<longleftrightarrow> grid_rows p \<noteq> [] \<and> list_all (\<lambda>r. r \<in> set (selectedRows s)) (grid_rows p)"

definition focused_row :: "grid_props \<Rightarrow> grid \<Rightarrow> string option" where
  "focused_row p s =
     (if 0 \<le> focusedRowIndex s \<and> focusedRowIndex s < int (length (grid_rows p))
      then Some (grid_rows p ! nat (focusedRowIndex s)) else None)"

definition space_key :: "grid_props \<Rightarrow> grid \<Rightarrow> grid" where
  "space_key p s =
     (if selectable p
      then (case focused_row p s of
              None \<Rightarrow> s
            | Some r \<Rightarrow>
                s\<lparr> selectedRows := toggleSelected r (selectedRows s),
                   announced := ''Row '' @ int_text (focusedRowIndex s + 1) @
                     (if r \<in> set (selectedRows s) then '' deselected'' else '' selected'') \<rparr>)
      else s)"

definition select_all_key :: "grid_props \<Rightarrow> grid \<Rightarrow> grid" where
  "select_all_key p s =
     (if selectable p
      then s\<lparr> selectedRows := (if all_selected p s then [] else grid_rows p),
              announced := (if all_selected p s then ''All rows deselected'' else ''All rows selected'') \<rparr>
      else s)"

text \<open>\<open>handleTableKeyDown\<close>, with the state of the control key.\<close>

definition handleTableKeyDown :: "grid_props \<Rightarrow> bool \<Rightarrow> string \<Rightarrow> grid \<Rightarrow> grid" where
  "handleTableKeyDown p ctrl k s =
     (let totalRows = int (length (grid_rows p)); totalCols = int (grid_cols p) in
      if k = ''ArrowDown'' then s\<lparr> focusedRowIndex := min (focusedRowIndex s + 1) (totalRows - 1) \<rparr>
      else if k = ''ArrowUp'' then s\<lparr> focusedRowIndex := max (focusedRowIndex s - 1) 0 \<rparr>
      else if k = ''ArrowRight'' then
        (if cell_mode p then s\<lparr> focusedCellIndex := min (focusedCellIndex s + 1) (totalCols - 1) \<rparr> else s)
      else if k = ''ArrowLeft'' then
        (if cell_mode p then s\<lparr> focusedCellIndex := max (focusedCellIndex s - 1) 0 \<rparr> else s)
      else if k = ''Home'' then
        (if ctrl then s\<lparr> focusedRowIndex := 0, focusedCellIndex := 0 \<rparr> else s\<lparr> focusedCellIndex := 0 \<rparr>)
      else if k = ''End'' then
        (if ctrl then s\<lparr> focusedRowIndex := totalRows - 1, focusedCellIndex := totalCols - 1 \<rparr>
         else s\<lparr> focusedCellIndex := totalCols - 1 \<rparr>)
      else if k = '' '' then space_key p s
      else if k = ''Enter'' then
        (case focused_row p s of
           Some r \<Rightarrow> (if has_row_click p then s\<lparr> clicked_rows := clicked_rows s @ [r] \<rparr> else s)
         | None \<Rightarrow> s)
      else if k = ''a'' \<and> ctrl then select_all_key p s
      else s)"

text \<open>The effect that moves the focus: the cell it picks among all the cells of the body, row by row.\<close>

definition targetIndex :: "grid_props \<Rightarrow> grid \<Rightarrow> int" where
  "targetIndex p s =
     (if cell_mode p then focusedRowIndex s * int (grid_cols p) + focusedCellIndex s
      else focusedRowIndex s * int (grid_cols p))"

text \<open>A selectable row has a cell more, the one with the checkbox.\<close>

definition cells_per_row :: "grid_props \<Rightarrow> int" where
  "cells_per_row p = int (grid_cols p) + (if selectable p then 1 else 0)"

definition cell_at :: "grid_props \<Rightarrow> int \<Rightarrow> int \<Rightarrow> int" where
  "cell_at p r c = r * cells_per_row p + (if selectable p then 1 else 0) + c"

definition focused_column :: "grid_props \<Rightarrow> grid \<Rightarrow> int" where
  "focused_column p s = (if cell_mode p then focusedCellIndex s else 0)"

section \<open>The focus stays in the table\<close>

definition in_grid :: "grid_props \<Rightarrow> grid \<Rightarrow> bool" where
  "in_grid p s \<longleftrightarrow>
     0 \<le> focusedRowIndex s \<and> focusedRowIndex s < int (length (grid_rows p)) \<and>
     0 \<le> focusedCellIndex s \<and> focusedCellIndex s < int (grid_cols p)"

lemma in_grid_if: "in_grid p a \<Longrightarrow> in_grid p b \<Longrightarrow> in_grid p (if c then a else b)"
  by simp

lemma selection_keeps_focus:
  "focusedRowIndex (space_key p s) = focusedRowIndex s" "focusedRowIndex (select_all_key p s) = focusedRowIndex s"
  "focusedCellIndex (space_key p s) = focusedCellIndex s" "focusedCellIndex (select_all_key p s) = focusedCellIndex s"
  by (simp_all add: space_key_def select_all_key_def split: option.split)

lemma in_grid_key:
  assumes "in_grid p s"
  shows "in_grid p (handleTableKeyDown p ctrl k s)"
  unfolding handleTableKeyDown_def Let_def
  by (intro in_grid_if) (use assms in \<open>auto simp: selection_keeps_focus in_grid_def split: option.split\<close>)

interpretation grid: machine "\<lambda>s (ctrl, k). handleTableKeyDown p ctrl k s" "in_grid p" for p
  by unfold_locales (auto simp: in_grid_key)

text \<open>In a table with rows and columns no key moves the focus out: there is always a focused row.\<close>

theorem focus_stays_in_table:
  assumes "grid_rows p \<noteq> []" "0 < grid_cols p"
  shows "focused_row p (run (\<lambda>s (ctrl, k). handleTableKeyDown p ctrl k s) ks grid_start) \<noteq> None"
proof -
  have "in_grid p (run (\<lambda>s (ctrl, k). handleTableKeyDown p ctrl k s) ks grid_start)"
    by (rule grid.every_run_inv) (use assms in \<open>simp add: in_grid_def grid_start_def\<close>)
  then show ?thesis by (simp add: in_grid_def focused_row_def)
qed

lemma focus_stays_witness:
  "focused_row \<lparr> grid_rows = [''a'', ''b''], grid_cols = 1, selectable = True, cell_mode = False, has_row_click = False \<rparr>
     (run (\<lambda>s (ctrl, k). handleTableKeyDown
       \<lparr> grid_rows = [''a'', ''b''], grid_cols = 1, selectable = True, cell_mode = False, has_row_click = False \<rparr> ctrl k s)
       [(False, ''ArrowUp''), (True, ''End''), (False, ''ArrowDown'')] grid_start) \<noteq> None"
  by (rule focus_stays_in_table) simp_all

text \<open>A key pressed in an empty table leaves the focus on no row when the rows arrive.\<close>

lemma empty_table_loses_focus:
  "grid_rows p = [] \<Longrightarrow> focusedRowIndex (handleTableKeyDown p False ''ArrowDown'' grid_start) = - 1 \<and>
     focused_row (p\<lparr> grid_rows := rs \<rparr>) (handleTableKeyDown p False ''ArrowDown'' grid_start) = None"
  by (simp add: handleTableKeyDown_def grid_start_def focused_row_def Let_def)

text \<open>The effect focuses the right cell exactly when the table is not selectable: it does not count the
  cells of the checkboxes.\<close>

theorem focus_right_iff:
  assumes "0 \<le> focusedRowIndex s"
  shows "targetIndex p s = cell_at p (focusedRowIndex s) (focused_column p s) \<longleftrightarrow> \<not> selectable p"
  using assms by (auto simp: targetIndex_def cell_at_def cells_per_row_def focused_column_def algebra_simps)

lemma focus_right_witness:
  "targetIndex \<lparr> grid_rows = [''a'', ''b''], grid_cols = 3, selectable = True, cell_mode = True, has_row_click = False \<rparr>
      (grid_start\<lparr> focusedRowIndex := 1 \<rparr>)
   \<noteq> cell_at \<lparr> grid_rows = [''a'', ''b''], grid_cols = 3, selectable = True, cell_mode = True, has_row_click = False \<rparr> 1 0"
  using focus_right_iff [of "grid_start\<lparr> focusedRowIndex := 1 \<rparr>"
      "\<lparr> grid_rows = [''a'', ''b''], grid_cols = 3, selectable = True, cell_mode = True, has_row_click = False \<rparr>"]
  by (simp add: grid_start_def focused_column_def)

text \<open>The space key toggles the focused row alone, twice it changes nothing.\<close>

lemma space_toggles_row:
  "selectable p \<Longrightarrow> focused_row p s = Some r \<Longrightarrow>
     (q \<in> set (selectedRows (space_key p s))) = (if q = r then r \<notin> set (selectedRows s) else q \<in> set (selectedRows s))"
  by (auto simp: space_key_def toggleSelected_def)

lemma select_all_twice:
  "selectable p \<Longrightarrow> grid_rows p \<noteq> [] \<Longrightarrow> \<not> all_selected p s \<Longrightarrow>
     all_selected p (select_all_key p s) \<and> selectedRows (select_all_key p (select_all_key p s)) = []"
  by (simp add: select_all_key_def all_selected_def list_all_iff)

end
