(* ===== verification/SpeechInput.thy ===== *)
theory SpeechInput
  imports Machines JsNumbers
begin

text \<open>
  Voice input of the mobile app: \<open>mobile/hooks/use-speech-to-text.ts\<close> and
  \<open>mobile/components/VoiceInput.tsx\<close>.  What the recogniser of the platform reports are events; each
  awaited call is split at its answer.
\<close>

section \<open>The hook\<close>

record speech =
  isAvailable :: bool
  isListening :: bool
  isTranscribing :: bool
  transcript :: string
  interimTranscript :: string
  speech_error :: "string option"
  volumeLevel :: rat
  recognitionRef :: bool
  transcriptRef :: string
  aborts :: nat

definition speech_start :: speech where
  "speech_start =
     \<lparr> isAvailable = False, isListening = False, isTranscribing = False, transcript = [], interimTranscript = [],
       speech_error = None, volumeLevel = 0, recognitionRef = False, transcriptRef = [], aborts = 0 \<rparr>"

definition ERROR_MESSAGES :: "(string \<times> string) list" where
  "ERROR_MESSAGES =
     [(''not-allowed'', ''Microphone access was denied. Please allow microphone access to use voice input.''),
      (''no-speech'', ''No speech was detected. Please try again.''),
      (''aborted'', ''Speech recognition was aborted.''),
      (''audio-capture'', ''No microphone was found or microphone is not working.''),
      (''network'', ''Network error occurred. Please check your connection.''),
      (''not-supported'', ''Speech recognition is not supported on this device.''),
      (''service-not-allowed'', ''Speech recognition service is not allowed.''),
      (''bad-grammar'', ''Error in speech recognition grammar.''),
      (''language-not-supported'', ''The selected language is not supported.''),
      (''service-not-found'', ''Speech recognition service not found.''),
      (''busy'', ''Speech recognition service is busy. Please try again.'')]"

definition getErrorMessage :: "string \<Rightarrow> string" where
  "getErrorMessage e = get_or (''Speech recognition error: '' @ e) ERROR_MESSAGES e"

definition stopped :: "speech \<Rightarrow> speech" where
  "stopped s = s\<lparr> isListening := False, isTranscribing := False, volumeLevel := 0, recognitionRef := False \<rparr>"

definition on_result :: "string \<Rightarrow> bool \<Rightarrow> speech \<Rightarrow> speech" where
  "on_result t isFinal s =
     s\<lparr> transcriptRef := t, transcript := (if isFinal then t else transcript s),
        interimTranscript := (if isFinal then [] else t) \<rparr>"

definition on_error :: "string \<Rightarrow> speech \<Rightarrow> speech" where
  "on_error e s =
     (if e = ''no-speech'' then stopped s else (stopped s)\<lparr> speech_error := Some (getErrorMessage e) \<rparr>)"

definition normalizedVolume :: "rat \<Rightarrow> rat" where
  "normalizedVolume v = max 0 (min 1 ((v + 2) / 12))"

text \<open>\<open>startListening\<close> until the permissions, the part before \<open>start\<close>, and its answer.\<close>

definition start_asks :: "speech \<Rightarrow> bool" where
  "start_asks s \<longleftrightarrow> \<not> isListening s \<and> isAvailable s"

definition permission_given :: "speech \<Rightarrow> speech" where
  "permission_given s = s\<lparr> transcriptRef := [], transcript := [], interimTranscript := [], speech_error := None \<rparr>"

definition start_answered :: "bool \<Rightarrow> speech \<Rightarrow> speech" where
  "start_answered ok s =
     (if ok then s\<lparr> recognitionRef := True \<rparr>
      else s\<lparr> speech_error := Some ''Failed to start speech recognition'', isListening := False,
              isTranscribing := False \<rparr>)"

definition stopListening :: "bool \<Rightarrow> speech \<Rightarrow> speech \<times> string" where
  "stopListening ok s =
     (if recognitionRef s \<and> ok then s\<lparr> recognitionRef := False \<rparr> else s, transcriptRef s)"

definition cancelRecognition :: "bool \<Rightarrow> speech \<Rightarrow> speech" where
  "cancelRecognition ok s =
     (if recognitionRef s \<and> \<not> ok then s
      else (if recognitionRef s then s\<lparr> recognitionRef := False, aborts := aborts s + 1 \<rparr> else s)
        \<lparr> isListening := False, isTranscribing := False, transcript := [], interimTranscript := [], volumeLevel := 0 \<rparr>)"

definition clearTranscript :: "speech \<Rightarrow> speech" where
  "clearTranscript s = s\<lparr> transcriptRef := [], transcript := [], interimTranscript := [] \<rparr>"

definition clearError :: "speech \<Rightarrow> speech" where
  "clearError s = s\<lparr> speech_error := None \<rparr>"

definition getFullTranscript :: "speech \<Rightarrow> string" where
  "getFullTranscript s =
     (if interimTranscript s \<noteq> []
      then (if transcript s \<noteq> [] then transcript s @ '' '' @ interimTranscript s else interimTranscript s)
      else transcript s)"

datatype speech_event =
  Availability bool | RecogniserStart | RecogniserEnd | Result string bool | RecogniserError string | Volume rat
| PermissionGiven | StartAnswered bool | StopListening bool | Cancel bool | ClearTranscript | ClearError

fun speech_step :: "speech \<Rightarrow> speech_event \<Rightarrow> speech" where
  "speech_step s (Availability b) = s\<lparr> isAvailable := b \<rparr>"
| "speech_step s RecogniserStart = s\<lparr> isListening := True, isTranscribing := True, speech_error := None \<rparr>"
| "speech_step s RecogniserEnd = stopped s"
| "speech_step s (Result t isFinal) = on_result t isFinal s"
| "speech_step s (RecogniserError e) = on_error e s"
| "speech_step s (Volume v) = s\<lparr> volumeLevel := normalizedVolume v \<rparr>"
| "speech_step s PermissionGiven = (if start_asks s then permission_given s else s)"
| "speech_step s (StartAnswered ok) = start_answered ok s"
| "speech_step s (StopListening ok) = fst (stopListening ok s)"
| "speech_step s (Cancel ok) = cancelRecognition ok s"
| "speech_step s ClearTranscript = clearTranscript s"
| "speech_step s ClearError = clearError s"

definition speech_ok :: "speech \<Rightarrow> bool" where
  "speech_ok s \<longleftrightarrow> isTranscribing s = isListening s \<and> 0 \<le> volumeLevel s \<and> volumeLevel s \<le> 1"

interpretation speech: machine speech_step speech_ok
proof (unfold_locales, goal_cases)
  case (1 s e)
  then show ?case
    by (cases e) (simp_all add: speech_ok_def stopped_def on_result_def on_error_def normalizedVolume_def
        permission_given_def start_answered_def stopListening_def cancelRecognition_def clearTranscript_def clearError_def)
qed

lemma speech_always_ok: "speech_ok (run speech_step es speech_start)"
  by (rule speech.every_run_inv) (simp add: speech_ok_def speech_start_def)

text \<open>A recognition that has been stopped by the user, by its end or by an error leaves the button ready.\<close>

lemma stopped_ready:
  "isAvailable s \<Longrightarrow> start_asks (stopped s) \<and> start_asks (on_error e s)"
  by (simp add: start_asks_def stopped_def on_error_def)

text \<open>Cancelling before \<open>start\<close> has answered does not abort the recogniser: it goes on listening.\<close>

lemma early_cancel_ignored:
  assumes "\<not> recognitionRef s"
  shows "let t = run speech_step [RecogniserStart, Cancel ok, StartAnswered True] s in
     aborts t = aborts s \<and> recognitionRef t \<and> \<not> isListening t"
  using assms by (simp add: cancelRecognition_def start_answered_def Let_def)

section \<open>The input\<close>

record voice_input =
  vi_value :: string
  vi_cursor :: nat
  vi_transcript :: string
  vi_interim :: string

definition needsSpace :: "string \<Rightarrow> string \<Rightarrow> bool" where
  "needsSpace before inserted \<longleftrightarrow>
     before \<noteq> [] \<and> last before \<noteq> CHR '' '' \<and> \<not> starts_with '' '' inserted"

definition spaced :: "string \<Rightarrow> string \<Rightarrow> string" where
  "spaced before inserted = (if needsSpace before inserted then '' '' else []) @ inserted"

text \<open>The effect on the transcripts; it depends on the text itself, which it changes.\<close>

definition insert_transcript :: "bool \<Rightarrow> voice_input \<Rightarrow> voice_input" where
  "insert_transcript insertAtCursor v =
     (if vi_transcript v = [] \<and> vi_interim v = [] then v
      else (let inserted = (if vi_interim v \<noteq> [] then vi_interim v else vi_transcript v);
                v' = (if insertAtCursor \<and> vi_cursor v < length (vi_value v)
                      then (let before = take (vi_cursor v) (vi_value v); after = drop (vi_cursor v) (vi_value v)
                            in v\<lparr> vi_value := before @ spaced before inserted @ after,
                                  vi_cursor := length before + length (spaced before inserted) \<rparr>)
                      else v\<lparr> vi_value := vi_value v @ spaced (vi_value v) inserted \<rparr>)
            in if vi_interim v = [] then v'\<lparr> vi_transcript := [], vi_interim := [] \<rparr> else v'))"

text \<open>The press of the button: what it asks of the hook.\<close>

datatype mic_request = NoRequest | CancelIt | StopIt | StartIt

definition handleMicPress :: "bool \<Rightarrow> nat \<Rightarrow> nat \<Rightarrow> nat \<Rightarrow> speech \<Rightarrow> mic_request" where
  "handleMicPress off minRecordingTime started now s =
     (if off then NoRequest
      else if isListening s then (if now - started < minRecordingTime then CancelIt else StopIt)
      else StartIt)"

lemma spaced_longer: "inserted \<noteq> [] \<Longrightarrow> 0 < length (spaced before inserted)"
  by (simp add: spaced_def)

lemma insert_grows:
  "vi_transcript v \<noteq> [] \<or> vi_interim v \<noteq> [] \<Longrightarrow> length (vi_value v) < length (vi_value (insert_transcript c v))"
  using spaced_longer by (auto simp: insert_transcript_def Let_def)

lemma insert_keeps_interim:
  "vi_interim v \<noteq> [] \<Longrightarrow> vi_interim (insert_transcript c v) = vi_interim v"
  by (simp add: insert_transcript_def Let_def)

lemma interim_grows: "vi_interim v \<noteq> [] \<Longrightarrow> length (vi_value v) + n \<le> length (vi_value ((insert_transcript c ^^ n) v))"
proof (induction n)
  case (Suc n)
  have "vi_interim ((insert_transcript c ^^ n) v) \<noteq> []"
    using Suc.prems by (induction n) (simp_all add: insert_keeps_interim)
  then show ?case using Suc.IH [OF Suc.prems] insert_grows [of "(insert_transcript c ^^ n) v" c] by simp
qed simp

text \<open>The effect runs again whenever the text has changed.  After a final transcript it comes to rest at
  the first run, the transcript inserted once.  After an interim one it never does: every run
  inserts the same words again.\<close>

theorem effect_rests_on_final_only:
  "(\<exists>n. (insert_transcript c ^^ Suc n) v = (insert_transcript c ^^ n) v) \<longleftrightarrow> vi_interim v = []"
proof
  assume "\<exists>n. (insert_transcript c ^^ Suc n) v = (insert_transcript c ^^ n) v"
  then obtain n where n: "(insert_transcript c ^^ Suc n) v = (insert_transcript c ^^ n) v" by blast
  show "vi_interim v = []"
  proof (rule ccontr)
    assume "vi_interim v \<noteq> []"
    then have "vi_interim ((insert_transcript c ^^ n) v) \<noteq> []"
      by (induction n) (simp_all add: insert_keeps_interim)
    then show False using insert_grows [of "(insert_transcript c ^^ n) v" c] n by simp
  qed
next
  assume "vi_interim v = []"
  then have "insert_transcript c (insert_transcript c v) = insert_transcript c v"
    by (simp add: insert_transcript_def Let_def)
  then have "(insert_transcript c ^^ Suc 1) v = (insert_transcript c ^^ 1) v" by simp
  then show "\<exists>n. (insert_transcript c ^^ Suc n) v = (insert_transcript c ^^ n) v" by blast
qed

text \<open>What a final transcript does to the text.\<close>

lemma final_inserted:
  "vi_interim v = [] \<Longrightarrow> vi_transcript v \<noteq> [] \<Longrightarrow>
     vi_value (insert_transcript c v) =
       (if c \<and> vi_cursor v < length (vi_value v)
        then take (vi_cursor v) (vi_value v) @ spaced (take (vi_cursor v) (vi_value v)) (vi_transcript v)
             @ drop (vi_cursor v) (vi_value v)
        else vi_value v @ spaced (vi_value v) (vi_transcript v))"
  by (simp add: insert_transcript_def Let_def)

end
