(* ===== verification/MobileSignIn.thy ===== *)
theory MobileSignIn
  imports MobileAuth Machines
begin

text \<open>
  Signing in on the phone: the routing of \<open>mobile/app/_layout.tsx\<close> (\<open>AuthGate\<close>), \<open>app/index.tsx\<close> and the
  layouts of the areas, the login screen \<open>app/(auth)/login.tsx\<close> with the prompt of
  \<open>components/BiometricPrompt.tsx\<close>, the code screen \<open>app/(auth)/mfa-verify.tsx\<close>, and
  \<open>lib/device-integrity.ts\<close> with \<open>components/DeviceIntegrityGate.tsx\<close>.  The store is the one of MobileAuth.
\<close>

section \<open>Routing\<close>

datatype place = Root | AuthScreen string | ClientArea | PartnerArea | InternalArea | SettingsArea

definition login_screen :: place where "login_screen = AuthScreen ''login''"

fun inAuthGroup :: "place \<Rightarrow> bool" where
  "inAuthGroup (AuthScreen _) = True"
| "inAuthGroup _ = False"

definition area_of_user :: "auth_state \<Rightarrow> place" where
  "area_of_user s = (if isClient s then ClientArea else if isPartner s then PartnerArea else InternalArea)"

fun area_admits :: "auth_state \<Rightarrow> place \<Rightarrow> bool" where
  "area_admits s ClientArea = isClient s"
| "area_admits s PartnerArea = isPartner s"
| "area_admits s InternalArea = isInternal s"
| "area_admits s _ = True"

text \<open>One redirect, after the store has been read.\<close>

definition redirect :: "auth_state \<Rightarrow> place \<Rightarrow> place" where
  "redirect s p =
     (if \<not> isAuthenticated s then (if inAuthGroup p then p else login_screen)
      else if inAuthGroup p then Root
      else if p = Root then area_of_user s
      else if \<not> area_admits s p then Root
      else p)"

definition known_role :: "auth_state \<Rightarrow> bool" where
  "known_role s \<longleftrightarrow> isClient s \<or> isPartner s \<or> isInternal s"

lemma signed_out_rests: "\<not> isAuthenticated s \<Longrightarrow> redirect s (redirect s p) = redirect s p"
  by (simp add: redirect_def login_screen_def)

lemma settings_rest: "isAuthenticated s \<Longrightarrow> redirect s SettingsArea = SettingsArea"
  by (simp add: redirect_def)

lemma roles_exclude:
  "isClient s \<Longrightarrow> \<not> isPartner s" "isClient s \<Longrightarrow> \<not> isInternal s" "isPartner s \<Longrightarrow> \<not> isInternal s"
  by (auto simp: isClient_def isPartner_def isInternal_def INTERNAL_ROLES_def)

lemma known_role_rests:
  "isAuthenticated s \<Longrightarrow> known_role s \<Longrightarrow> redirect s (area_of_user s) = area_of_user s"
  using roles_exclude [of s] by (auto simp: redirect_def area_of_user_def known_role_def)

lemma three_redirects:
  "isAuthenticated s \<Longrightarrow> known_role s \<Longrightarrow>
     (redirect s ^^ 3) p = (if p = SettingsArea then p else area_of_user s)"
proof -
  assume a: "isAuthenticated s" "known_role s"
  have root: "redirect s Root = area_of_user s" using a(1) by (simp add: redirect_def)
  note rest = known_role_rests [OF a]
  show ?thesis
  proof (cases "redirect s p = Root")
    case True
    then show ?thesis using a(1) root rest by (auto simp: eval_nat_numeral settings_rest)
  next
    case False
    then have "p = Root \<or> redirect s p = p \<and> \<not> inAuthGroup p \<and> area_admits s p"
      using a(1) by (auto simp: redirect_def split: if_splits)
    then show ?thesis
    proof
      assume "p = Root"
      then show ?thesis using root rest by (simp add: eval_nat_numeral)
    next
      assume p: "redirect s p = p \<and> \<not> inAuthGroup p \<and> area_admits s p"
      have "p \<noteq> Root" using p root by (auto simp: area_of_user_def split: if_splits)
      then have "p = SettingsArea \<or> p = area_of_user s"
        using p a(2) roles_exclude [of s] by (cases p) (auto simp: area_of_user_def known_role_def)
      then show ?thesis using p rest by (auto simp: eval_nat_numeral)
    qed
  qed
qed

lemma unknown_role_loops:
  assumes "isAuthenticated s" "\<not> known_role s"
  shows "p = Root \<or> p = InternalArea \<Longrightarrow> (redirect s ^^ n) p = Root \<or> (redirect s ^^ n) p = InternalArea"
    and "redirect s Root = InternalArea" "redirect s InternalArea = Root"
proof -
  show r: "redirect s Root = InternalArea" "redirect s InternalArea = Root"
    using assms by (simp_all add: redirect_def area_of_user_def known_role_def)
  show "p = Root \<or> p = InternalArea \<Longrightarrow> (redirect s ^^ n) p = Root \<or> (redirect s ^^ n) p = InternalArea"
    by (induction n) (auto simp: r)
qed

lemma comes_to_rest_iff:
  "(\<exists>n. (redirect s ^^ Suc n) p = (redirect s ^^ n) p) \<longleftrightarrow>
     \<not> isAuthenticated s \<or> known_role s \<or> p = SettingsArea"
proof -
  consider (out) "\<not> isAuthenticated s" | (known) "isAuthenticated s" "known_role s"
    | (settings) "isAuthenticated s" "p = SettingsArea"
    | (unknown) "isAuthenticated s" "\<not> known_role s" "p \<noteq> SettingsArea" by blast
  then show ?thesis
  proof cases
    case out
    then have "(redirect s ^^ Suc 1) p = (redirect s ^^ 1) p" by (simp add: signed_out_rests)
    then show ?thesis using out by blast
  next
    case known
    have "(redirect s ^^ Suc 3) p = (redirect s ^^ 3) p"
      using three_redirects [OF known, of p] known_role_rests [OF known] settings_rest [OF known(1)]
      by (simp only: funpow.simps comp_apply) simp
    then show ?thesis using known by blast
  next
    case settings
    then have "(redirect s ^^ Suc 0) p = (redirect s ^^ 0) p" by (simp add: settings_rest)
    then show ?thesis using settings by blast
  next
    case unknown
    note loop = unknown_role_loops [OF unknown(1,2)]
    have start: "redirect s p = Root \<or> redirect s p = InternalArea"
      using unknown by (cases p) (auto simp: redirect_def area_of_user_def known_role_def)
    have "(redirect s ^^ Suc n) p \<noteq> (redirect s ^^ n) p" for n
    proof (cases n)
      case 0
      then show ?thesis using start loop(2,3) unknown by (cases p) (auto simp: redirect_def known_role_def)
    next
      case (Suc m)
      have "(redirect s ^^ m) (redirect s p) = Root \<or> (redirect s ^^ m) (redirect s p) = InternalArea"
        using loop(1) [OF start] .
      moreover have "(redirect s ^^ n) p = (redirect s ^^ m) (redirect s p)" by (simp add: Suc funpow_swap1)
      ultimately have "(redirect s ^^ n) p = Root \<or> (redirect s ^^ n) p = InternalArea" by simp
      then show ?thesis using loop(2,3) by auto
    qed
    then show ?thesis using unknown by blast
  qed
qed

text \<open>C28.  The redirects never come to rest exactly when somebody is signed in whose role the app does not
  know, outside the settings screens: a session whose user is missing or has another role is sent
  back and forth between the root and the internal area for ever.\<close>

theorem redirects_settle_iff:
  "(\<forall>n. (redirect s ^^ Suc n) p \<noteq> (redirect s ^^ n) p) \<longleftrightarrow>
     isAuthenticated s \<and> \<not> known_role s \<and> p \<noteq> SettingsArea"
  using comes_to_rest_iff [of s p] by blast

section \<open>The login screen\<close>

definition provisional_user :: "string \<Rightarrow> jsv" where
  "provisional_user email =
     JObj [(''id'', JStr []), (''email'', JStr email), (''full_name'', JStr []), (''role'', JStr ''client''),
           (''status'', JStr ''active'')]"

text \<open>The requests under way: the credentials and whether they came from the biometric store; then the
  profile, with the tokens.\<close>

datatype sign_in_call =
  LoginCall bool "string \<times> string"
| MeCall bool "string \<times> string" string string

record sign_in =
  store :: auth_state
  place :: place
  sg_error :: string
  loading :: bool
  biometricLoading :: bool
  setupCredentials :: "(string \<times> string) option"
  sg_call :: "sign_in_call option"

text \<open>The login screen loses its state when it is left.\<close>

definition routed :: "sign_in \<Rightarrow> sign_in" where
  "routed s =
     (let p = (redirect (store s) ^^ 3) (place s) in
      s\<lparr> place := p, setupCredentials := (if p = login_screen then setupCredentials s else None) \<rparr>)"

definition failed_with :: "string \<Rightarrow> sign_in \<Rightarrow> sign_in" where
  "failed_with m s = s\<lparr> sg_error := m, loading := False, biometricLoading := False, sg_call := None \<rparr>"

definition handleLogin :: "string \<Rightarrow> string \<Rightarrow> sign_in \<Rightarrow> sign_in" where
  "handleLogin email password s =
     (if email = [] \<or> password = [] then s\<lparr> sg_error := ''Please enter your email and password.'' \<rparr>
      else s\<lparr> sg_error := [], loading := True, sg_call := Some (LoginCall False (email, password)) \<rparr>)"

text \<open>\<open>handleBiometricLogin\<close> after the prompt: the credentials it gave, if any.\<close>

definition handleBiometricLogin :: "(string \<times> string) option \<Rightarrow> sign_in \<Rightarrow> sign_in" where
  "handleBiometricLogin creds s =
     (if \<not> isEnabled (bioStatus (store s)) \<or> \<not> hasStoredCredentials (bioStatus (store s)) then s
      else case creds of
        None \<Rightarrow> s\<lparr> sg_error := [], biometricLoading := False \<rparr>
      | Some c \<Rightarrow> s\<lparr> sg_error := [], biometricLoading := True, loading := True, sg_call := Some (LoginCall True c) \<rparr>)"

definition login_answered :: "device \<Rightarrow> (string + bool \<times> string \<times> string) \<Rightarrow> sign_in \<Rightarrow> sign_in" where
  "login_answered dev answer s =
     (case sg_call s of
        Some (LoginCall bio creds) \<Rightarrow>
          (case answer of
             Inl m \<Rightarrow> failed_with m s
           | Inr (mfa_required, tok, rtok) \<Rightarrow>
               if mfa_required
               then failed_with ''MFA verification is required. Please use the web portal.'' s
               else (case setAuth dev tok rtok (provisional_user (fst creds)) (store s) of
                       Done a \<Rightarrow> s\<lparr> store := a, sg_call := Some (MeCall bio creds tok rtok) \<rparr>
                     | Thrown a \<Rightarrow> failed_with ''Login failed. Please check your credentials.'' (s\<lparr> store := a \<rparr>)))
      | _ \<Rightarrow> s)"

definition prompt_wanted :: "biometric_status \<Rightarrow> bool" where
  "prompt_wanted b \<longleftrightarrow> \<not> promptShown b \<and> isAvailable b \<and> isEnrolled b"

definition me_answered :: "device \<Rightarrow> (string + jsv) \<Rightarrow> sign_in \<Rightarrow> sign_in" where
  "me_answered dev answer s =
     (case sg_call s of
        Some (MeCall bio creds tok rtok) \<Rightarrow>
          (case answer of
             Inl m \<Rightarrow> failed_with m s
           | Inr usr \<Rightarrow>
               (case setAuth dev tok rtok usr (store s) of
                  Thrown a \<Rightarrow> failed_with ''Login failed. Please check your credentials.'' (s\<lparr> store := a \<rparr>)
                | Done a \<Rightarrow>
                    (let s = s\<lparr> store := a, loading := False, biometricLoading := False, sg_call := None \<rparr> in
                     if \<not> bio \<and> prompt_wanted (bioStatus a)
                     then (if place s = login_screen then s\<lparr> setupCredentials := Some creds \<rparr> else s)
                     else s\<lparr> place := Root \<rparr>)))
      | _ \<Rightarrow> s)"

definition handleSetupComplete :: "sign_in \<Rightarrow> sign_in" where
  "handleSetupComplete s = s\<lparr> setupCredentials := None, place := Root \<rparr>"

datatype sign_in_event =
  PressLogin string string | PressBiometric "(string \<times> string) option"
| LoginAnswered "string + bool \<times> string \<times> string" | MeAnswered "string + jsv"
| SetupComplete | GoTo place | SignOut

fun sign_in_step :: "device \<Rightarrow> sign_in \<Rightarrow> sign_in_event \<Rightarrow> sign_in" where
  "sign_in_step dev s (PressLogin e p) =
     (if place s = login_screen \<and> \<not> loading s \<and> \<not> biometricLoading s then routed (handleLogin e p s) else s)"
| "sign_in_step dev s (PressBiometric c) =
     (if place s = login_screen \<and> \<not> loading s \<and> \<not> biometricLoading s then routed (handleBiometricLogin c s) else s)"
| "sign_in_step dev s (LoginAnswered a) = routed (login_answered dev a s)"
| "sign_in_step dev s (MeAnswered a) = routed (me_answered dev a s)"
| "sign_in_step dev s SetupComplete =
     (if place s = login_screen \<and> setupCredentials s \<noteq> None then routed (handleSetupComplete s) else s)"
| "sign_in_step dev s (GoTo p) = routed (s\<lparr> place := p \<rparr>)"
| "sign_in_step dev s SignOut = routed (s\<lparr> store := outcome (clearAuth dev (store s)) \<rparr>)"

definition sign_in_start :: "auth_state \<Rightarrow> sign_in" where
  "sign_in_start a =
     routed \<lparr> store = a, place = Root, sg_error = [], loading = False, biometricLoading = False, setupCredentials = None,
              sg_call = None \<rparr>"

section \<open>What the login screen does\<close>

lemma signed_in_leaves_login: "isAuthenticated s \<Longrightarrow> \<not> inAuthGroup ((redirect s ^^ 3) p)"
proof -
  assume a: "isAuthenticated s"
  have out: "\<not> inAuthGroup (redirect s q)" for q
    using a by (auto simp: redirect_def area_of_user_def)
  show ?thesis using out by (simp add: eval_nat_numeral)
qed

lemma signed_in_not_login: "isAuthenticated s \<Longrightarrow> (redirect s ^^ 3) p \<noteq> login_screen"
  using signed_in_leaves_login [of s p] by (auto simp: login_screen_def)

lemma setAuth_Done:
  "setAuth dev tok rtok usr a = Done b \<Longrightarrow> token b = Some tok \<and> user b = usr \<and> bioStatus b = bioStatus a \<and> mfaPending b = mfaPending a"
  by (auto simp: setAuth_def put_secure_def split: exec.splits elim!: and_then.elims)

lemma routed_no_setup: "isAuthenticated (store s) \<or> setupCredentials s = None \<Longrightarrow> setupCredentials (routed s) = None"
  by (auto simp: routed_def Let_def signed_in_not_login)

lemma me_answered_no_setup:
  "setupCredentials s = None \<Longrightarrow> isAuthenticated (store (me_answered dev a s)) \<or> setupCredentials (me_answered dev a s) = None"
  by (auto simp: me_answered_def failed_with_def isAuthenticated_def Let_def dest!: setAuth_Done
      split: option.split sign_in_call.split sum.split exec.split)

lemma login_answered_no_setup:
  "setupCredentials s = None \<Longrightarrow> setupCredentials (login_answered dev a s) = None"
  by (auto simp: login_answered_def failed_with_def split: option.split sign_in_call.split sum.split exec.split)

lemma no_setup_step:
  assumes "setupCredentials s = None"
  shows "setupCredentials (sign_in_step dev s e) = None"
proof (cases e)
  case (PressLogin e p)
  then show ?thesis using assms by (auto intro!: routed_no_setup simp: handleLogin_def)
next
  case (PressBiometric c)
  then show ?thesis using assms by (auto intro!: routed_no_setup simp: handleBiometricLogin_def split: option.split)
next
  case (LoginAnswered a)
  then show ?thesis using login_answered_no_setup [OF assms] by (simp add: routed_no_setup)
next
  case (MeAnswered a)
  then show ?thesis using me_answered_no_setup [OF assms] by (simp add: routed_no_setup)
qed (use assms in \<open>simp_all add: routed_no_setup\<close>)

interpretation no_setup: machine "sign_in_step dev" "\<lambda>s. setupCredentials s = None" for dev
  by unfold_locales (rule no_setup_step)

text \<open>The prompt that offers biometric sign-in after the first login is never shown: by the time the profile
  has arrived, the redirect of the provisional session has taken the login screen away.\<close>

theorem setup_prompt_never_shown:
  "setupCredentials (run (sign_in_step dev) es (sign_in_start a)) = None"
  by (rule no_setup.every_run_inv) (simp add: sign_in_start_def routed_no_setup)

text \<open>The screen of the second factor is not reached from here: the store never holds a pending factor.\<close>

lemma clearAuth_mfa: "mfaPending a = None \<Longrightarrow> mfaPending (outcome (clearAuth dev a)) = None"
  by (auto simp: clearAuth_def drop_secure_def split: exec.splits elim!: and_then.elims)

lemma setAuth_mfa: "mfaPending (outcome (setAuth dev t r u a)) = mfaPending a"
  by (auto simp: setAuth_def put_secure_def split: exec.splits elim!: and_then.elims)

lemma setAuth_parts_mfa:
  "setAuth dev t r u a = Done b \<Longrightarrow> mfaPending b = mfaPending a" "setAuth dev t r u a = Thrown b \<Longrightarrow> mfaPending b = mfaPending a"
  using setAuth_mfa [of dev t r u a] by simp_all

lemma store_routed [simp]: "store (routed s) = store s"
  by (simp add: routed_def Let_def)

lemma mfa_step: "mfaPending (store s) = None \<Longrightarrow> mfaPending (store (sign_in_step dev s e)) = None"
  by (cases e)
    (auto simp: handleLogin_def handleBiometricLogin_def handleSetupComplete_def login_answered_def me_answered_def
      failed_with_def clearAuth_mfa Let_def dest: setAuth_parts_mfa
      split: option.split sign_in_call.split sum.split exec.split)

interpretation no_mfa: machine "sign_in_step dev" "\<lambda>s. mfaPending (store s) = None" for dev
  by unfold_locales (rule mfa_step)

lemma second_factor_never_pending:
  "mfaPending a = None \<Longrightarrow> mfaPending (store (run (sign_in_step dev) es (sign_in_start a))) = None"
  by (rule no_mfa.every_run_inv) (simp add: sign_in_start_def)

section \<open>Who is signed in\<close>

lemma provisional_is_client: "user b = provisional_user e \<Longrightarrow> isClient b"
  by (simp add: provisional_user_def isClient_def user_role_def)

lemma fresh_login_page:
  "\<not> isAuthenticated a \<Longrightarrow> sign_in_start a =
     \<lparr> store = a, place = login_screen, sg_error = [], loading = False, biometricLoading = False, setupCredentials = None,
       sg_call = None \<rparr>"
  by (simp add: sign_in_start_def routed_def Let_def redirect_def eval_nat_numeral login_screen_def)

lemma after_login:
  assumes "\<not> isAuthenticated a" "email \<noteq> []" "pw \<noteq> []" "setAuth dev t r (provisional_user email) a = Done b"
  shows "run (sign_in_step dev) [PressLogin email pw, LoginAnswered (Inr (False, t, r))] (sign_in_start a) =
    \<lparr> store = b, place = ClientArea, sg_error = [], loading = True, biometricLoading = False, setupCredentials = None,
      sg_call = Some (MeCall False (email, pw) t r) \<rparr>"
proof -
  have b: "isAuthenticated b" "isClient b"
    using setAuth_Done [OF assms(4)] by (simp_all add: isAuthenticated_def provisional_is_client)
  have three: "(redirect b ^^ 3) login_screen = ClientArea"
    using three_redirects [of b login_screen] b by (simp add: known_role_def area_of_user_def login_screen_def)
  have stays: "(redirect a ^^ 3) login_screen = login_screen"
    using assms(1) by (simp add: redirect_def eval_nat_numeral login_screen_def)
  have "ClientArea \<noteq> login_screen" by (simp add: login_screen_def)
  then show ?thesis
    using assms three stays
    by (simp add: fresh_login_page handleLogin_def routed_def Let_def login_answered_def)
qed

text \<open>Between the two answers of a login the session is that of a client without an identifier, whoever
  signs in: the profile replaces it and the user goes to the area of the role, and if the profile
  cannot be loaded the session stays, in the client area.\<close>

theorem profile_decides_role:
  assumes "\<not> isAuthenticated a" "email \<noteq> []" "pw \<noteq> []" "reliable dev"
  shows "let s = run (sign_in_step dev) [PressLogin email pw, LoginAnswered (Inr (False, t, r)), MeAnswered answer]
             (sign_in_start a) in
    token (store s) = Some t \<and>
    (case answer of
       Inl m \<Rightarrow> user (store s) = provisional_user email \<and> place s = ClientArea
     | Inr usr \<Rightarrow> user (store s) = usr \<and> (known_role (store s) \<longrightarrow> place s = area_of_user (store s)))"
proof -
  obtain b where b: "setAuth dev t r (provisional_user email) a = Done b" using assms(4) by (simp add: setAuth_def)
  note B = setAuth_Done [OF b]
  have c: "isAuthenticated b" "isClient b" using B by (simp_all add: isAuthenticated_def provisional_is_client)
  define s where "s = run (sign_in_step dev) [PressLogin email pw, LoginAnswered (Inr (False, t, r))] (sign_in_start a)"
  note s = after_login [OF assms(1-3) b, folded s_def]
  have step: "run (sign_in_step dev) [PressLogin email pw, LoginAnswered (Inr (False, t, r)), MeAnswered answer] (sign_in_start a)
      = routed (me_answered dev answer s)"
    by (simp add: s_def)
  show ?thesis
  proof (cases answer)
    case (Inl m)
    have "(redirect b ^^ 3) ClientArea = ClientArea"
      using three_redirects [of b ClientArea] c by (simp add: known_role_def area_of_user_def)
    then show ?thesis unfolding step using s B Inl
      by (simp add: me_answered_def failed_with_def routed_def Let_def login_screen_def)
  next
    case (Inr usr)
    obtain d where d: "setAuth dev t r usr b = Done d" using assms(4) by (simp add: setAuth_def)
    note D = setAuth_Done [OF d]
    have "place (routed (me_answered dev answer s)) = area_of_user d" if "known_role d"
    proof -
      have "place (routed (me_answered dev answer s)) = (redirect d ^^ 3) ClientArea \<or>
          place (routed (me_answered dev answer s)) = (redirect d ^^ 3) Root"
        using s d Inr by (simp add: me_answered_def routed_def Let_def login_screen_def)
      then show ?thesis using three_redirects [of d] that D by (auto simp: isAuthenticated_def)
    qed
    moreover have "store (routed (me_answered dev answer s)) = d"
      using s d Inr by (simp add: me_answered_def routed_def Let_def)
    ultimately show ?thesis unfolding step using D Inr by (simp add: Let_def)
  qed
qed

lemma profile_decides_role_witness:
  "place (run (sign_in_step phone) [PressLogin ''p@x'' ''pw'', LoginAnswered (Inr (False, ''t'', ''r'')), MeAnswered (Inl ''offline'')]
     (sign_in_start auth_init)) = ClientArea"
  using profile_decides_role [of auth_init "''p@x''" "''pw''" phone "''t''" "''r''" "Inl ''offline''"]
  by (simp add: Let_def isAuthenticated_def auth_init_def)

text \<open>The login starts with the status the hook has before it has looked: nothing is available, so the
  biometric login that should start by itself does not, and the prompt completes at once.\<close>

definition auto_login :: "biometric_status \<Rightarrow> bool \<Rightarrow> bool \<Rightarrow> bool" where
  "auto_login b l bl \<longleftrightarrow> isEnabled b \<and> hasStoredCredentials b \<and> \<not> l \<and> \<not> bl"

definition setup_completes_at_once :: "biometric_status \<Rightarrow> bool" where
  "setup_completes_at_once b \<longleftrightarrow> \<not> isAvailable b \<or> \<not> isEnrolled b"

lemma first_render_sees_nothing:
  "\<not> auto_login no_biometrics l bl" "setup_completes_at_once no_biometrics"
  by (simp_all add: auto_login_def setup_completes_at_once_def no_biometrics_def)

section \<open>The screen of the second factor\<close>

definition CODE_LENGTH :: nat where "CODE_LENGTH = 6"

text \<open>\<open>timers\<close>: the codes whose submission has been scheduled.\<close>

record mfa_screen =
  digits :: "string list"
  mfa_loading :: bool
  resendCooldown :: nat
  timers :: "string list"
  submitted :: "string list"

definition empty_digits :: "string list" where
  "empty_digits = replicate CODE_LENGTH []"

definition mfa_start :: mfa_screen where
  "mfa_start = \<lparr> digits = empty_digits, mfa_loading = False, resendCooldown = 0, timers = [], submitted = [] \<rparr>"

definition is_figure :: "char \<Rightarrow> bool" where
  "is_figure c = (48 \<le> code c \<and> code c \<le> 57)"

definition last_figure :: "string \<Rightarrow> string" where
  "last_figure v = (let sanitized = filter is_figure v in if sanitized = [] then [] else [last sanitized])"

definition handleDigitChange :: "nat \<Rightarrow> string \<Rightarrow> mfa_screen \<Rightarrow> mfa_screen" where
  "handleDigitChange i v s =
     (if mfa_loading s then s
      else (let next = (digits s)[i := last_figure v]; code = concat next
            in s\<lparr> digits := next,
                  timers := (if length code = CODE_LENGTH \<and> list_all (\<lambda>d. d \<noteq> []) next then timers s @ [code]
                             else timers s) \<rparr>))"

definition handleKeyPress :: "nat \<Rightarrow> string \<Rightarrow> mfa_screen \<Rightarrow> mfa_screen" where
  "handleKeyPress i k s =
     (if k = ''Backspace'' \<and> digits s ! i = [] \<and> 0 < i then s\<lparr> digits := (digits s)[i - 1 := []] \<rparr> else s)"

definition mfa_timer_fires :: "mfa_screen \<Rightarrow> mfa_screen" where
  "mfa_timer_fires s =
     (case timers s of [] \<Rightarrow> s | c # cs \<Rightarrow> s\<lparr> timers := cs, mfa_loading := True, submitted := submitted s @ [c] \<rparr>)"

definition verify_failed :: "mfa_screen \<Rightarrow> mfa_screen" where
  "verify_failed s = s\<lparr> mfa_loading := False, digits := empty_digits \<rparr>"

definition handleResend :: "mfa_screen \<Rightarrow> mfa_screen" where
  "handleResend s = (if 0 < resendCooldown s then s else s\<lparr> resendCooldown := 60, digits := empty_digits \<rparr>)"

datatype mfa_event = DigitTyped nat string | KeyTyped nat string | TimerFires | VerifyFailed | ResendPressed | Second

fun mfa_step :: "mfa_screen \<Rightarrow> mfa_event \<Rightarrow> mfa_screen" where
  "mfa_step s (DigitTyped i v) = (if i < CODE_LENGTH then handleDigitChange i v s else s)"
| "mfa_step s (KeyTyped i k) = (if i < CODE_LENGTH then handleKeyPress i k s else s)"
| "mfa_step s TimerFires = mfa_timer_fires s"
| "mfa_step s VerifyFailed = (if mfa_loading s then verify_failed s else s)"
| "mfa_step s ResendPressed = handleResend s"
| "mfa_step s Second = s\<lparr> resendCooldown := resendCooldown s - 1 \<rparr>"

definition code_ok :: "string \<Rightarrow> bool" where
  "code_ok c \<longleftrightarrow> length c = CODE_LENGTH \<and> list_all is_figure c"

definition mfa_ok :: "mfa_screen \<Rightarrow> bool" where
  "mfa_ok s \<longleftrightarrow> length (digits s) = CODE_LENGTH \<and> list_all (\<lambda>d. length d \<le> 1 \<and> list_all is_figure d) (digits s) \<and>
     list_all code_ok (timers s) \<and> list_all code_ok (submitted s) \<and> resendCooldown s \<le> 60"

lemma digit_ok: "length (last_figure v) \<le> 1 \<and> list_all is_figure (last_figure v)"
  using last_in_set [of "filter is_figure v"] by (auto simp: last_figure_def Let_def)

lemma digits_ok_update:
  "list_all P xs \<Longrightarrow> P x \<Longrightarrow> list_all P (xs[i := x])"
  using set_update_subset_insert [of xs i x] by (auto simp: list_all_iff)

lemma mfa_ok_digits:
  assumes "mfa_ok s"
  shows "mfa_ok (handleDigitChange i v s)"
proof -
  have d: "list_all (\<lambda>d. length d \<le> 1 \<and> list_all is_figure d) ((digits s)[i := last_figure v])"
    using assms digit_ok by (intro digits_ok_update) (simp_all add: mfa_ok_def)
  then have "list_all is_figure (concat ((digits s)[i := last_figure v]))" by (auto simp: list_all_iff)
  then show ?thesis using assms d by (simp add: mfa_ok_def handleDigitChange_def Let_def code_ok_def)
qed

interpretation mfa: machine mfa_step mfa_ok
proof (unfold_locales, goal_cases)
  case (1 s e)
  show ?case
  proof (cases e)
    case (KeyTyped i k)
    have "list_all (\<lambda>d. length d \<le> 1 \<and> list_all is_figure d) ((digits s)[i - 1 := []])"
      using 1 by (intro digits_ok_update) (simp_all add: mfa_ok_def)
    then show ?thesis using 1 KeyTyped by (simp add: handleKeyPress_def mfa_ok_def)
  next
    case TimerFires
    then show ?thesis using 1 by (auto simp: mfa_timer_fires_def mfa_ok_def split: list.split)
  next
    case Second
    then show ?thesis using 1 by (auto simp: mfa_ok_def)
  qed (use 1 in \<open>simp_all add: mfa_ok_digits, simp_all add: mfa_ok_def verify_failed_def handleResend_def empty_digits_def
      list_all_length\<close>)
qed

text \<open>Whatever is typed or pasted, in whichever order: every code that is sent consists of six figures.\<close>

lemma codes_are_six_figures: "list_all code_ok (submitted (run mfa_step es mfa_start))"
proof -
  have "mfa_ok (run mfa_step es mfa_start)"
    by (rule mfa.every_run_inv) (simp add: mfa_ok_def mfa_start_def empty_digits_def list_all_length)
  then show ?thesis by (simp add: mfa_ok_def)
qed

text \<open>Of a pasted code only the last figure is kept.\<close>

lemma paste_keeps_last: "digits (mfa_step mfa_start (DigitTyped 0 ''123456'')) = [''6'', [], [], [], [], []]"
proof -
  have "last_figure ''123456'' = ''6''" by code_simp
  then show ?thesis
    by (simp add: mfa_start_def handleDigitChange_def Let_def empty_digits_def CODE_LENGTH_def eval_nat_numeral)
qed

section \<open>The integrity of the device\<close>

record integrity_report =
  jailbroken :: bool
  debuggerAttached :: bool
  mockLocation :: bool
  emulator :: bool
  signatureMatches :: bool

definition SAFE_DEFAULT :: integrity_report where
  "SAFE_DEFAULT = \<lparr> jailbroken = False, debuggerAttached = False, mockLocation = False, emulator = False,
     signatureMatches = True \<rparr>"

text \<open>What the native module answers; \<open>None\<close> for a call that throws.\<close>

record jail_monkey =
  isJailBroken :: "bool option"
  canMockLocation :: "bool option"
  isDebuggedMode :: "bool option"

definition safeBool :: "bool option \<Rightarrow> bool" where
  "safeBool b = (b = Some True)"

definition checkDeviceIntegrity :: "bool \<Rightarrow> jail_monkey option \<Rightarrow> bool \<Rightarrow> integrity_report" where
  "checkDeviceIntegrity web monkey isDevice =
     (case (if web then None else monkey) of
        None \<Rightarrow> SAFE_DEFAULT
      | Some m \<Rightarrow> \<lparr> jailbroken = safeBool (isJailBroken m), debuggerAttached = safeBool (isDebuggedMode m),
                   mockLocation = safeBool (canMockLocation m), emulator = \<not> isDevice, signatureMatches = True \<rparr>)"

definition flag_text :: "string \<Rightarrow> bool \<Rightarrow> string" where
  "flag_text k b = k @ ''='' @ (if b then ''1'' else ''0'')"

definition buildIntegrityHeader :: "integrity_report \<Rightarrow> string" where
  "buildIntegrityHeader r =
     join_with '';'' [flag_text ''j'' (jailbroken r), flag_text ''d'' (debuggerAttached r), flag_text ''m'' (mockLocation r),
       flag_text ''e'' (emulator r), flag_text ''s'' (signatureMatches r)]"

definition isReportSuspicious :: "integrity_report \<Rightarrow> bool" where
  "isReportSuspicious r \<longleftrightarrow> jailbroken r \<or> debuggerAttached r \<or> mockLocation r \<or> \<not> signatureMatches r"

text \<open>What the gate draws: the app, and the banner or the blocking screen.\<close>

datatype gate_view = AppOnly | AppWithBanner | Blocked

definition gate_shows :: "bool \<Rightarrow> integrity_report option \<Rightarrow> bool \<Rightarrow> gate_view" where
  "gate_shows hard report acknowledged =
     (case report of
        None \<Rightarrow> AppOnly
      | Some r \<Rightarrow>
          if isReportSuspicious r \<and> hard \<and> \<not> acknowledged then Blocked
          else if isReportSuspicious r \<and> \<not> acknowledged then AppWithBanner
          else AppOnly)"

definition summarize :: "integrity_report \<Rightarrow> string" where
  "summarize r =
     (let flags = (if jailbroken r then [''rooted/jailbroken''] else []) @
                  (if debuggerAttached r then [''debugger attached''] else []) @
                  (if mockLocation r then [''mock location''] else []) @
                  (if signatureMatches r then [] else [''signature mismatch''])
      in join_with '', '' (if flags = [] then [''unknown''] else flags))"

definition parse_header :: "string \<Rightarrow> integrity_report" where
  "parse_header h =
     \<lparr> jailbroken = (h ! 2 = CHR ''1''), debuggerAttached = (h ! 6 = CHR ''1''), mockLocation = (h ! 10 = CHR ''1''),
       emulator = (h ! 14 = CHR ''1''), signatureMatches = (h ! 18 = CHR ''1'') \<rparr>"

text \<open>The header tells the service the whole report.\<close>

lemma header_roundtrip: "parse_header (buildIntegrityHeader r) = r"
  by (cases r) (simp add: parse_header_def buildIntegrityHeader_def flag_text_def)

text \<open>A device without the native module never looks suspicious, nor does an emulator.\<close>

lemma missing_module_is_safe: "\<not> isReportSuspicious (checkDeviceIntegrity web None d)"
  by (simp add: isReportSuspicious_def checkDeviceIntegrity_def SAFE_DEFAULT_def)

text \<open>The hard gate blocks exactly the suspicious devices, once the check has answered; until then the app runs.\<close>

lemma hard_gate_blocks:
  "gate_shows True (Some r) False = Blocked \<longleftrightarrow> isReportSuspicious r" "gate_shows True None a = AppOnly"
  by (simp_all add: gate_shows_def)

end
