(* ===== verification/FocusTraps.thy ===== *)
theory FocusTraps
  imports JsPrelude
begin

text \<open>
  Keyboard focus in dialogs: \<open>frontend/src/components/ui/focus-trap.tsx\<close> and
  \<open>accessible-dialog.tsx\<close>.

  A page is the nodes before, inside and after the trapped region, in document order.  What the
  browser does is written out: which nodes can take the focus, which of them the Tab key visits, and
  that Tab moves to the next of those in document order (no node has a positive \<open>tabindex\<close>, which
  would change that order).  The code decides with selectors, and \<open>FocusTrap\<close> with the box of the
  node (\<open>offsetParent\<close>, \<open>offsetWidth\<close>, \<open>offsetHeight\<close>).
\<close>

section \<open>Nodes and the browser\<close>

datatype element = Anchor bool | Btn | TextArea | InputEl | SelectEl | OtherEl bool

text \<open>An anchor is given with its \<open>href\<close> attribute, another element with whether the browser focuses it
  by itself (an editable region, a frame, a summary).\<close>

record node =
  ident :: nat
  elem :: element
  disabled_attr :: bool
  tabindex :: "int option"
  boxed :: bool
  visible :: bool

fun form_control :: "element \<Rightarrow> bool" where
  "form_control (Anchor _) = False"
| "form_control (OtherEl _) = False"
| "form_control _ = True"

fun native :: "element \<Rightarrow> bool" where
  "native (Anchor href) = href"
| "native (OtherEl b) = b"
| "native _ = True"

definition focusable :: "node \<Rightarrow> bool" where
  "focusable n \<longleftrightarrow> boxed n \<and> visible n
     \<and> (if form_control (elem n) then \<not> disabled_attr n else native (elem n) \<or> tabindex n \<noteq> None)"

definition tabbable :: "node \<Rightarrow> bool" where
  "tabbable n \<longleftrightarrow> focusable n \<and> (case tabindex n of None \<Rightarrow> True | Some k \<Rightarrow> 0 \<le> k)"

record page =
  before :: "node list"
  inside :: "node list"
  after :: "node list"
  focus :: "nat option"

definition nodes :: "page \<Rightarrow> node list" where
  "nodes p = before p @ inside p @ after p"

text \<open>\<open>element.focus()\<close>.\<close>

definition focus_on :: "node \<Rightarrow> page \<Rightarrow> page" where
  "focus_on n p = (if focusable n then p\<lparr> focus := Some (ident n) \<rparr> else p)"

text \<open>The Tab key without a handler; Shift and Tab go through the same nodes backwards.  At the last
  one the focus leaves the page.\<close>

definition next_tab :: "node list \<Rightarrow> nat option \<Rightarrow> nat option" where
  "next_tab ns f =
     (let rest = (case f of None \<Rightarrow> ns
                  | Some i \<Rightarrow> drop 1 (dropWhile (\<lambda>n. ident n \<noteq> i) ns))
      in map_option ident (find tabbable rest))"

definition browser_tab :: "bool \<Rightarrow> page \<Rightarrow> page" where
  "browser_tab shift p = p\<lparr> focus := next_tab (if shift then rev (nodes p) else nodes p) (focus p) \<rparr>"

text \<open>The focus, if there is one, is among the given nodes.\<close>

definition lands_in :: "nat set \<Rightarrow> nat option \<Rightarrow> bool" where
  "lands_in S f \<longleftrightarrow> (case f of None \<Rightarrow> False | Some i \<Rightarrow> i \<in> S)"

lemma lands_in_simps [simp]: "\<not> lands_in S None" "lands_in S (Some i) \<longleftrightarrow> i \<in> S"
  by (simp_all add: lands_in_def)

definition focus_inside :: "page \<Rightarrow> bool" where
  "focus_inside p \<longleftrightarrow> lands_in (ident ` set (inside p)) (focus p)"

section \<open>The selectors\<close>

definition tabindex_selector :: "node \<Rightarrow> bool" where
  "tabindex_selector n \<longleftrightarrow> tabindex n \<noteq> None \<and> tabindex n \<noteq> Some (- 1)"

definition getFocusableElements :: "node list \<Rightarrow> node list" where
  "getFocusableElements ns =
     filter boxed (filter (\<lambda>n. (native (elem n) \<and> elem n \<noteq> OtherEl True \<and> \<not> disabled_attr n)
                              \<or> tabindex_selector n) ns)"

definition getFirstFocusable :: "node list \<Rightarrow> node option" where
  "getFirstFocusable ns = (case getFocusableElements ns of [] \<Rightarrow> None | n # _ \<Rightarrow> Some n)"

text \<open>The two selectors of the dialog: the trap's, and the one of the first focus.\<close>

definition dialog_elements :: "node list \<Rightarrow> node list" where
  "dialog_elements ns =
     filter (\<lambda>n. elem n = Anchor True \<or> (form_control (elem n) \<and> \<not> disabled_attr n) \<or> tabindex_selector n) ns"

definition first_in_dialog :: "node list \<Rightarrow> node option" where
  "first_in_dialog ns = find (\<lambda>n. elem n = Anchor True \<or> form_control (elem n) \<or> tabindex_selector n) ns"

section \<open>The Tab key in a trap\<close>

text \<open>Both handlers look at the elements their selector finds; they sit on the region, so they see the
  keys pressed while the focus is inside.\<close>

definition handleKeyDown :: "node list \<Rightarrow> bool \<Rightarrow> page \<Rightarrow> page" where
  "handleKeyDown fs shift p =
     (if fs = [] then browser_tab shift p
      else if shift
      then (if focus p = Some (ident (hd fs)) then focus_on (last fs) p else browser_tab shift p)
      else (if focus p = Some (ident (last fs)) then focus_on (hd fs) p else browser_tab shift p))"

definition press_tab :: "(node list \<Rightarrow> node list) \<Rightarrow> bool \<Rightarrow> bool \<Rightarrow> page \<Rightarrow> page" where
  "press_tab elements active shift p =
     (if active \<and> focus_inside p then handleKeyDown (elements (inside p)) shift p else browser_tab shift p)"

definition trap_tab :: "bool \<Rightarrow> bool \<Rightarrow> page \<Rightarrow> page" where
  "trap_tab = press_tab getFocusableElements"

definition dialog_tab :: "bool \<Rightarrow> page \<Rightarrow> page" where
  "dialog_tab = press_tab dialog_elements True"

definition tabs :: "page \<Rightarrow> node list" where
  "tabs p = filter tabbable (inside p)"

text \<open>The focus is on a node of the region that the Tab key visits.\<close>

definition on_tab_stop :: "page \<Rightarrow> bool" where
  "on_tab_stop p \<longleftrightarrow> lands_in (ident ` set (tabs p)) (focus p)"

definition well_named :: "page \<Rightarrow> bool" where
  "well_named p \<longleftrightarrow> distinct (map ident (nodes p))"

text \<open>Neither key leaves the region from any of its stops.\<close>

definition trap_holds :: "(node list \<Rightarrow> node list) \<Rightarrow> page \<Rightarrow> bool" where
  "trap_holds elements p \<longleftrightarrow>
     list_all (\<lambda>n. on_tab_stop (press_tab elements True True (p\<lparr> focus := Some (ident n) \<rparr>))
                 \<and> on_tab_stop (press_tab elements True False (p\<lparr> focus := Some (ident n) \<rparr>))) (tabs p)"

lemma next_tab_at:
  "distinct (map ident (xs @ n # ys))
   \<Longrightarrow> next_tab (xs @ n # ys) (Some (ident n)) = map_option ident (find tabbable ys)"
proof -
  assume d: "distinct (map ident (xs @ n # ys))"
  have "dropWhile (\<lambda>m. ident m \<noteq> ident n) (xs @ n # ys) = n # ys"
    using d by (induction xs) auto
  then show ?thesis by (simp add: next_tab_def Let_def)
qed

lemma find_in: "find P xs = Some x \<Longrightarrow> x \<in> set xs \<and> P x"
  by (auto simp: find_Some_iff)

lemma find_append_case: "find P (xs @ ys) = (case find P xs of None \<Rightarrow> find P ys | Some x \<Rightarrow> Some x)"
  by (induction xs) auto

text \<open>Without a handler Tab stays in the middle part exactly when it is not on its last stop.\<close>

lemma next_tab_stays:
  assumes d: "distinct (map ident (A @ I @ B))" and n: "n \<in> set (filter tabbable I)"
  shows "lands_in (ident ` set (filter tabbable I)) (next_tab (A @ I @ B) (Some (ident n)))
     \<longleftrightarrow> n \<noteq> last (filter tabbable I)"
proof -
  obtain xs ys where I: "I = xs @ n # ys" using n by (auto dest: split_list)
  have t: "tabbable n" using n by simp
  have nx: "next_tab (A @ I @ B) (Some (ident n)) = map_option ident (find tabbable (ys @ B))"
    using next_tab_at [of "A @ xs" n "ys @ B"] d I by simp
  show ?thesis
  proof (cases "find tabbable ys")
    case None
    then have e: "filter tabbable ys = []" by (auto simp: find_None_iff filter_empty_conv)
    have "m \<in> set B \<Longrightarrow> ident m \<notin> ident ` set I" for m using d by (fastforce simp: image_iff)
    then have "\<not> lands_in (ident ` set (filter tabbable I)) (map_option ident (find tabbable B))"
    proof (cases "find tabbable B")
      case (Some m)
      then have "m \<in> set B" using find_in by fast
      then have "ident m \<notin> ident ` set I" using \<open>\<And>m. m \<in> set B \<Longrightarrow> ident m \<notin> ident ` set I\<close> by blast
      then have "ident m \<notin> ident ` set (filter tabbable I)"
        using image_mono [OF filter_is_subset, of ident tabbable I] by blast
      then show ?thesis unfolding Some by simp
    qed simp
    moreover have "n = last (filter tabbable I)" using e t I by simp
    ultimately show ?thesis using nx None by (simp add: find_append_case)
  next
    case (Some m)
    then have m: "m \<in> set ys" "tabbable m" using find_in [OF Some] by simp_all
    then have ne: "filter tabbable ys \<noteq> []" by (auto simp: filter_empty_conv)
    have "n \<notin> set ys" using d I by (auto simp: image_iff)
    moreover have "last (filter tabbable I) \<in> set (filter tabbable ys)"
      using ne I t last_in_set [OF ne] by simp
    ultimately have "n \<noteq> last (filter tabbable I)" by auto
    moreover have "ident m \<in> ident ` set (filter tabbable I)" using m I by auto
    ultimately show ?thesis using nx Some by (simp add: find_append_case)
  qed
qed

lemma tabs_more [simp]: "tabs (p\<lparr> focus := f \<rparr>) = tabs p"
  by (simp add: tabs_def)

lemma browser_tab_stays:
  assumes "well_named p" "n \<in> set (tabs p)"
  shows "on_tab_stop (browser_tab shift (p\<lparr> focus := Some (ident n) \<rparr>))
     \<longleftrightarrow> n \<noteq> (if shift then hd (tabs p) else last (tabs p))"
proof (cases shift)
  case False
  then show ?thesis
    using next_tab_stays [of "before p" "inside p" "after p" n] assms
    by (simp add: on_tab_stop_def browser_tab_def nodes_def well_named_def tabs_def)
next
  case True
  have d: "distinct (map ident (rev (after p) @ rev (inside p) @ rev (before p)))"
    using assms(1) by (auto simp: well_named_def nodes_def rev_map [symmetric])
  have "tabs p \<noteq> []" using assms(2) by auto
  then have "last (filter tabbable (rev (inside p))) = hd (tabs p)"
    by (simp add: tabs_def rev_filter [symmetric] last_rev)
  then show ?thesis
    using next_tab_stays [OF d, of n] assms(2) True
    by (simp add: on_tab_stop_def browser_tab_def nodes_def tabs_def)
qed

lemma tabs_subset: "set (tabs p) \<subseteq> set (inside p)"
  by (auto simp: tabs_def)

lemma same_node:
  "well_named p \<Longrightarrow> m \<in> set (inside p) \<Longrightarrow> n \<in> set (inside p) \<Longrightarrow> ident m = ident n \<longleftrightarrow> m = n"
  by (auto simp: well_named_def nodes_def distinct_map inj_on_def)

lemma focus_on_stop:
  assumes "well_named p" "m \<in> set (inside p)" "n \<in> set (tabs p)"
  shows "on_tab_stop (focus_on m (p\<lparr> focus := Some (ident n) \<rparr>)) \<longleftrightarrow> (focusable m \<longrightarrow> tabbable m)"
proof -
  have "ident m \<in> ident ` set (tabs p) \<longleftrightarrow> tabbable m"
    using same_node [OF assms(1,2)] assms(2) by (auto simp: tabs_def)
  then show ?thesis using assms(3) by (auto simp: focus_on_def on_tab_stop_def)
qed

lemma press_stays:
  assumes w: "well_named p" and sub: "set (elements (inside p)) \<subseteq> set (inside p)" and n: "n \<in> set (tabs p)"
  shows "on_tab_stop (press_tab elements True shift (p\<lparr> focus := Some (ident n) \<rparr>)) \<longleftrightarrow>
     (let fs = elements (inside p);
          here = (if shift then hd fs else last fs); there = (if shift then last fs else hd fs)
      in if fs \<noteq> [] \<and> n = here then focusable there \<longrightarrow> tabbable there
         else n \<noteq> (if shift then hd (tabs p) else last (tabs p)))"
proof -
  define fs where "fs = elements (inside p)"
  have ni: "n \<in> set (inside p)" using n tabs_subset by blast
  then have fi: "focus_inside (p\<lparr> focus := Some (ident n) \<rparr>)" by (simp add: focus_inside_def)
  have mem: "fs \<noteq> [] \<Longrightarrow> hd fs \<in> set (inside p) \<and> last fs \<in> set (inside p)"
    using sub fs_def by auto
  have b: "on_tab_stop (browser_tab shift (p\<lparr> focus := Some (ident n) \<rparr>))
     \<longleftrightarrow> n \<noteq> (if shift then hd (tabs p) else last (tabs p))" by (rule browser_tab_stays [OF w n])
  show ?thesis
  proof (cases "fs = []")
    case True
    then show ?thesis using b fi by (simp add: press_tab_def handleKeyDown_def fs_def [symmetric] Let_def)
  next
    case False
    then have h: "ident n = ident (hd fs) \<longleftrightarrow> n = hd fs" "ident n = ident (last fs) \<longleftrightarrow> n = last fs"
      using mem same_node [OF w ni] by blast+
    note f = focus_on_stop [OF w _ n]
    show ?thesis using b fi h f [of "hd fs"] f [of "last fs"] mem False
      by (cases shift) (auto simp: press_tab_def handleKeyDown_def fs_def [symmetric] Let_def)
  qed
qed

lemma trap_holds_iff_general:
  assumes w: "well_named p" and sub: "set (elements (inside p)) \<subseteq> set (inside p)"
  shows "trap_holds elements p \<longleftrightarrow> tabs p = [] \<or> elements (inside p) \<noteq> []
      \<and> hd (elements (inside p)) = hd (tabs p) \<and> last (elements (inside p)) = last (tabs p)"
proof -
  define fs where "fs = elements (inside p)"
  have eq: "trap_holds elements p \<longleftrightarrow> (\<forall>n \<in> set (tabs p).
      (if fs \<noteq> [] \<and> n = hd fs then focusable (last fs) \<longrightarrow> tabbable (last fs) else n \<noteq> hd (tabs p))
    \<and> (if fs \<noteq> [] \<and> n = last fs then focusable (hd fs) \<longrightarrow> tabbable (hd fs) else n \<noteq> last (tabs p)))"
    using press_stays [where elements = elements, OF w sub] by (simp add: trap_holds_def list_all_iff fs_def Let_def)
  have stops: "tabs p \<noteq> [] \<Longrightarrow> tabbable (hd (tabs p)) \<and> tabbable (last (tabs p))"
    using hd_in_set [of "tabs p"] last_in_set [of "tabs p"] by (auto simp: tabs_def)
  show ?thesis unfolding eq fs_def [symmetric]
  proof (cases "tabs p = []")
    case False
    then have m: "hd (tabs p) \<in> set (tabs p)" "last (tabs p) \<in> set (tabs p)" by auto
    show "(\<forall>n \<in> set (tabs p).
      (if fs \<noteq> [] \<and> n = hd fs then focusable (last fs) \<longrightarrow> tabbable (last fs) else n \<noteq> hd (tabs p))
    \<and> (if fs \<noteq> [] \<and> n = last fs then focusable (hd fs) \<longrightarrow> tabbable (hd fs) else n \<noteq> last (tabs p)))
      \<longleftrightarrow> tabs p = [] \<or> fs \<noteq> [] \<and> hd fs = hd (tabs p) \<and> last fs = last (tabs p)" (is "?L \<longleftrightarrow> ?R")
    proof
      assume ?L
      then show ?R using m False by (metis (no_types, lifting))
    next
      assume ?R
      then show ?L using stops False by auto
    qed
  qed auto
qed

lemma trap_elements_subset: "set (getFocusableElements ns) \<subseteq> set ns"
  by (auto simp: getFocusableElements_def)

lemma dialog_elements_subset: "set (dialog_elements ns) \<subseteq> set ns"
  by (auto simp: dialog_elements_def)

text \<open>The Tab key cannot leave a trapped region by itself exactly when its selector finds the first and
  the last stop of the region as the first and the last element; the same holds of the dialog and its
  selector.\<close>

theorem trap_holds_iff:
  assumes "well_named p"
  shows "(trap_holds getFocusableElements p \<longleftrightarrow> tabs p = [] \<or> getFocusableElements (inside p) \<noteq> []
      \<and> hd (getFocusableElements (inside p)) = hd (tabs p)
      \<and> last (getFocusableElements (inside p)) = last (tabs p))
    \<and> (trap_holds dialog_elements p \<longleftrightarrow> tabs p = [] \<or> dialog_elements (inside p) \<noteq> []
      \<and> hd (dialog_elements (inside p)) = hd (tabs p) \<and> last (dialog_elements (inside p)) = last (tabs p))"
  using trap_holds_iff_general [where elements = getFocusableElements, OF assms trap_elements_subset]
    trap_holds_iff_general [where elements = dialog_elements, OF assms dialog_elements_subset] by blast

text \<open>A sequence of Tab keys with and without Shift.\<close>

definition press_all :: "(node list \<Rightarrow> node list) \<Rightarrow> bool list \<Rightarrow> page \<Rightarrow> page" where
  "press_all elements keys p = fold (\<lambda>shift q. press_tab elements True shift q) keys p"

lemma same_region:
  "inside (press_tab elements a shift p) = inside p" "before (press_tab elements a shift p) = before p"
  "after (press_tab elements a shift p) = after p"
  by (simp_all add: press_tab_def handleKeyDown_def browser_tab_def focus_on_def)

lemma trap_holds_focus [simp]: "trap_holds elements (p\<lparr> focus := f \<rparr>) = trap_holds elements p"
  by (simp add: trap_holds_def)

lemma trap_holds_region:
  "inside q = inside p \<Longrightarrow> before q = before p \<Longrightarrow> after q = after p
   \<Longrightarrow> trap_holds elements q = trap_holds elements (p :: page)"
proof -
  assume "inside q = inside p" "before q = before p" "after q = after p"
  then have "q = p\<lparr> focus := focus q \<rparr>" by simp
  then show ?thesis by (metis trap_holds_focus)
qed

lemma held_step:
  assumes "trap_holds elements p" "on_tab_stop p"
  shows "on_tab_stop (press_tab elements True shift p)"
proof -
  obtain n where n: "focus p = Some (ident n)" "n \<in> set (tabs p)"
    using assms(2) by (cases "focus p") (auto simp: on_tab_stop_def)
  then have "p = p\<lparr> focus := Some (ident n) \<rparr>" by simp
  then show ?thesis using assms(1) n(2) by (cases shift) (auto simp: trap_holds_def list_all_iff)
qed

lemma held_for_ever:
  "trap_holds elements p \<Longrightarrow> on_tab_stop p \<Longrightarrow> on_tab_stop (press_all elements keys p)"
proof (induction keys arbitrary: p)
  case (Cons k keys)
  have "trap_holds elements (press_tab elements True k p)"
    using Cons.prems(1) trap_holds_region [OF same_region] by blast
  then show ?case using Cons held_step by (simp add: press_all_def)
qed (simp add: press_all_def)

text \<open>In a region of links, buttons and fields drawn as the browser draws them the trap holds.\<close>

definition ordinary :: "node \<Rightarrow> bool" where
  "ordinary n \<longleftrightarrow> elem n \<noteq> OtherEl True \<and> (boxed n \<longrightarrow> visible n)
     \<and> (tabindex n = None \<or> tabindex n = Some 0 \<or> (tabindex n = Some (- 1) \<and> \<not> native (elem n)))
     \<and> (disabled_attr n \<longrightarrow> form_control (elem n) \<and> tabindex n = None)"

lemma ordinary_elements: "ordinary n \<Longrightarrow>
    (boxed n \<and> ((native (elem n) \<and> elem n \<noteq> OtherEl True \<and> \<not> disabled_attr n) \<or> tabindex_selector n)) = tabbable n"
  by (cases "elem n") (auto simp: ordinary_def tabbable_def focusable_def tabindex_selector_def)

lemma ordinary_trap_holds:
  assumes "well_named p" "list_all ordinary (inside p)"
  shows "trap_holds getFocusableElements p"
proof -
  have "getFocusableElements (inside p) = tabs p"
    using assms(2) ordinary_elements
    by (auto simp: getFocusableElements_def tabs_def list_all_iff intro!: filter_cong) 
  then show ?thesis
    using trap_holds_iff_general [where elements = getFocusableElements, OF assms(1) trap_elements_subset] by auto
qed

text \<open>The dialog looks at elements that are not drawn too: with a hidden button at its end Tab leaves it
  from the last button the user sees, where \<open>FocusTrap\<close> holds.\<close>

definition plain_button :: "nat \<Rightarrow> bool \<Rightarrow> node" where
  "plain_button i drawn = \<lparr> ident = i, elem = Btn, disabled_attr = False, tabindex = None,
     boxed = drawn, visible = drawn \<rparr>"

definition sample_page :: "node list \<Rightarrow> page" where
  "sample_page ns = \<lparr> before = [plain_button 0 True], inside = ns, after = [plain_button 9 True], focus = Some 2 \<rparr>"

lemmas sample_simps = sample_page_def plain_button_def well_named_def nodes_def tabs_def dialog_elements_def
  getFocusableElements_def tabbable_def focusable_def tabindex_selector_def

lemma trap_holds_witness:
  "trap_holds getFocusableElements (sample_page [plain_button 1 True, plain_button 2 True, plain_button 3 False])
   \<and> \<not> trap_holds dialog_elements (sample_page [plain_button 1 True, plain_button 2 True, plain_button 3 False])"
  using trap_holds_iff [of "sample_page [plain_button 1 True, plain_button 2 True, plain_button 3 False]"]
  by (simp add: sample_simps)

text \<open>A button taken out of the tab order still matches the selector \<open>button:not([disabled])\<close>; at the end
  of the region it lets Tab out of both.\<close>

lemma untabbable_button_opens_trap:
  "let p = sample_page [plain_button 1 True, plain_button 2 True, (plain_button 3 True)\<lparr> tabindex := Some (- 1) \<rparr>]
   in \<not> trap_holds getFocusableElements p \<and> \<not> trap_holds dialog_elements p \<and> focus (trap_tab True False p) = Some 9"
proof -
  let ?p = "sample_page [plain_button 1 True, plain_button 2 True, (plain_button 3 True)\<lparr> tabindex := Some (- 1) \<rparr>]"
  have "well_named ?p" by (simp add: sample_simps)
  then have "\<not> trap_holds getFocusableElements ?p" "\<not> trap_holds dialog_elements ?p"
    using trap_holds_iff_general [where elements = getFocusableElements, OF _ trap_elements_subset, of ?p]
      trap_holds_iff_general [where elements = dialog_elements, OF _ dialog_elements_subset, of ?p]
    by (simp_all add: sample_simps)
  moreover have "focus (trap_tab True False ?p) = Some 9"
    by (simp add: sample_simps trap_tab_def press_tab_def focus_inside_def handleKeyDown_def browser_tab_def
        next_tab_def Let_def)
  ultimately show ?thesis by simp
qed

section \<open>Taking and returning the focus\<close>

text \<open>The effect of the trap runs when it is mounted and whenever \<open>active\<close>, \<open>autoFocus\<close>, a callback or the
  return target changes.  A remembered element is a node; the body, which cannot take the focus, is
  none.\<close>

record trap =
  trap_page :: page
  previousFocus :: "node option"
  activations :: nat
  deactivations :: nat

definition activeElement :: "page \<Rightarrow> node option" where
  "activeElement p = (case focus p of None \<Rightarrow> None | Some i \<Rightarrow> find (\<lambda>n. ident n = i) (nodes p))"

definition maybe_focus :: "node option \<Rightarrow> page \<Rightarrow> page" where
  "maybe_focus target p = (case target of None \<Rightarrow> p | Some n \<Rightarrow> focus_on n p)"

definition trap_effect :: "bool \<Rightarrow> bool \<Rightarrow> node option \<Rightarrow> trap \<Rightarrow> trap" where
  "trap_effect active autoFocus returnFocusTo t =
     (if active
      then t\<lparr> previousFocus := activeElement (trap_page t), activations := Suc (activations t),
              trap_page := (if autoFocus then maybe_focus (getFirstFocusable (inside (trap_page t))) (trap_page t)
                            else trap_page t) \<rparr>
      else t\<lparr> deactivations := Suc (deactivations t),
              trap_page := maybe_focus (if returnFocusTo \<noteq> None then returnFocusTo else previousFocus t)
                             (trap_page t) \<rparr>)"

definition trap_key :: "bool \<Rightarrow> bool \<Rightarrow> trap \<Rightarrow> trap" where
  "trap_key active shift t = t\<lparr> trap_page := trap_tab active shift (trap_page t) \<rparr>"

lemma focus_on_same: "nodes (focus_on n p) = nodes p" "inside (focus_on n p) = inside p"
  by (simp_all add: focus_on_def nodes_def)

text \<open>After the active effect the remembered element is where the focus was when it last ran, however
  often the keys were pressed since; a later inactive run without a target puts the focus there.\<close>

lemma keys_keep_previous: "previousFocus (fold (trap_key a) ks t) = previousFocus t"
  by (induction ks arbitrary: t) (simp_all add: trap_key_def)

lemma trap_returns_focus:
  assumes "activeElement (trap_page t) = Some n" "focusable n"
  shows "focus (trap_page (trap_effect False au None (fold (trap_key True) ks (trap_effect True au ret t))))
    = focus (trap_page t)"
proof -
  have "focus (trap_page t) = Some (ident n)"
    using assms(1) find_in [of _ "nodes (trap_page t)" n] by (auto simp: activeElement_def split: option.splits)
  then show ?thesis using assms
    by (cases au) (simp_all add: trap_effect_def keys_keep_previous maybe_focus_def focus_on_def)
qed

text \<open>A callback of new identity runs the active effect again: the element that had the focus before the
  trap is forgotten, and closing the trap leaves the focus in it.\<close>

lemma rerun_forgets_focus:
  assumes "focus_inside (trap_page t)" "activeElement (trap_page t) = Some n" "focusable n"
  shows "focus_inside (trap_page (trap_effect False au None (fold (trap_key True) ks (trap_effect True au ret t))))"
proof -
  have i: "inside (trap_page (fold (trap_key True) ks u)) = inside (trap_page u)" for u
    by (induction ks arbitrary: u) (simp_all add: trap_key_def trap_tab_def same_region)
  have "inside (trap_page (trap_effect a au r u)) = inside (trap_page u)" for a r u
    by (simp add: trap_effect_def maybe_focus_def focus_on_same split: option.split)
  then show ?thesis using assms(1) trap_returns_focus [OF assms(2,3)] i by (simp add: focus_inside_def)
qed

text \<open>A trap mounted inactive with a return target takes the focus there although it was never active.\<close>

lemma inactive_mount_moves_focus:
  "focusable n \<Longrightarrow> focus (trap_page (trap_effect False au (Some n) t)) = Some (ident n)"
  by (simp add: trap_effect_def maybe_focus_def focus_on_def)

text \<open>The dialog: opening starts a timer of no delay that focuses the given element or the first one its
  selector finds; closing stops the timer and returns the focus.\<close>

record dialog =
  dlg_page :: page
  dlg_previous :: "node option"
  dlg_timer :: bool

definition dialog_effect :: "bool \<Rightarrow> dialog \<Rightarrow> dialog" where
  "dialog_effect is_open d =
     (if is_open then d\<lparr> dlg_previous := activeElement (dlg_page d), dlg_timer := True \<rparr>
      else d\<lparr> dlg_timer := False, dlg_page := maybe_focus (dlg_previous d) (dlg_page d) \<rparr>)"

definition dialog_timer_fires :: "node option \<Rightarrow> dialog \<Rightarrow> dialog" where
  "dialog_timer_fires initialFocus d =
     (if dlg_timer d
      then d\<lparr> dlg_timer := False,
             dlg_page := maybe_focus (if initialFocus \<noteq> None then initialFocus
                                      else first_in_dialog (inside (dlg_page d))) (dlg_page d) \<rparr>
      else d)"

text \<open>The first element may be a disabled button, which cannot take the focus: it stays where it was,
  outside the dialog, and Tab walks through the page behind.\<close>

lemma disabled_first_keeps_focus_out:
  assumes "first_in_dialog (inside (dlg_page d)) = Some n" "\<not> focusable n" "\<not> focus_inside (dlg_page d)"
  shows "dlg_page (dialog_timer_fires None (dialog_effect True d)) = dlg_page d"
    and "dialog_tab shift (dlg_page d) = browser_tab shift (dlg_page d)"
  using assms by (simp_all add: dialog_timer_fires_def dialog_effect_def maybe_focus_def focus_on_def
      dialog_tab_def press_tab_def)

text \<open>Every open dialog listens on the document: one Escape closes all of them.\<close>

definition press_escape :: "bool list \<Rightarrow> bool list" where
  "press_escape dialogs = map (\<lambda>is_open. if is_open then False else is_open) dialogs"

lemma escape_closes_all: "press_escape dialogs = replicate (length dialogs) False"
  by (induction dialogs) (auto simp: press_escape_def)

end
