(* ===== verification/Announcements.thy ===== *)
theory Announcements
  imports Complex_Main Machines
begin

text \<open>
  Announcements to screen readers: \<open>frontend/src/hooks/use-announcer.tsx\<close> and
  \<open>frontend/src/components/ui/live-region.tsx\<close>.

  The hook empties its region, waits for the next animation frame to write the message, and clears
  it after a delay.  Pending frame callbacks are a list in the order of their requests, running
  timers a list of numbers; the reference holds the number of the last timer.
\<close>

datatype politeness = Polite | Assertive | Off

definition CLEAR_DELAY_DEFAULT :: int where "CLEAR_DELAY_DEFAULT = 500"

record announcer =
  an_message :: string
  an_politeness :: politeness
  frames :: "(string \<times> politeness) list"
  timers :: "nat list"
  clearTimeoutRef :: "nat option"
  next_timer :: nat
  an_mounted :: bool

definition announcer_start :: "politeness \<Rightarrow> announcer" where
  "announcer_start defaultPoliteness =
     \<lparr> an_message = [], an_politeness = defaultPoliteness, frames = [], timers = [], clearTimeoutRef = None,
       next_timer = 0, an_mounted = True \<rparr>"

definition clearPendingTimeout :: "announcer \<Rightarrow> announcer" where
  "clearPendingTimeout s =
     (case clearTimeoutRef s of None \<Rightarrow> s
      | Some i \<Rightarrow> s\<lparr> timers := remove1 i (timers s), clearTimeoutRef := None \<rparr>)"

definition announce :: "string \<Rightarrow> politeness \<Rightarrow> announcer \<Rightarrow> announcer" where
  "announce m p s =
     (let s = clearPendingTimeout s
      in s\<lparr> an_message := [], an_politeness := p, frames := frames s @ [(m, p)] \<rparr>)"

definition polite :: "string \<Rightarrow> announcer \<Rightarrow> announcer" where
  "polite m = announce m Polite"

definition assertive :: "string \<Rightarrow> announcer \<Rightarrow> announcer" where
  "assertive m = announce m Assertive"

definition clear :: "announcer \<Rightarrow> announcer" where
  "clear s = (clearPendingTimeout s)\<lparr> an_message := [] \<rparr>"

definition an_unmount :: "announcer \<Rightarrow> announcer" where
  "an_unmount s = (clearPendingTimeout s)\<lparr> an_mounted := False \<rparr>"

text \<open>The first pending frame callback runs; the state of an unmounted component no longer changes, but
  the timer is started all the same.\<close>

definition run_frame :: "announcer \<Rightarrow> announcer" where
  "run_frame s =
     (case frames s of [] \<Rightarrow> s
      | (m, p) # rest \<Rightarrow>
          (let s = (if an_mounted s then s\<lparr> an_message := m, an_politeness := p \<rparr> else s)
           in s\<lparr> frames := rest, timers := timers s @ [next_timer s],
                clearTimeoutRef := Some (next_timer s), next_timer := Suc (next_timer s) \<rparr>))"

definition run_timer :: "nat \<Rightarrow> announcer \<Rightarrow> announcer" where
  "run_timer i s =
     (if i \<in> set (timers s)
      then (let s = s\<lparr> timers := remove1 i (timers s) \<rparr>
            in if an_mounted s then s\<lparr> an_message := [] \<rparr> else s)
      else s)"

datatype an_event = Announce string politeness | Clear | Frame | Timer nat | Unmount

fun an_step :: "an_event \<Rightarrow> announcer \<Rightarrow> announcer" where
  "an_step (Announce m p) s = (if an_mounted s then announce m p s else s)"
| "an_step Clear s = (if an_mounted s then clear s else s)"
| "an_step Frame s = run_frame s"
| "an_step (Timer i) s = run_timer i s"
| "an_step Unmount s = (if an_mounted s then an_unmount s else s)"

definition an_run :: "an_event list \<Rightarrow> announcer \<Rightarrow> announcer" where
  "an_run es s = run (\<lambda>s e. an_step e s) es s"

text \<open>The invariant of every run: timers are numbered in the order they start, and a message that is shown
  has the timer of the reference running, so that it will be cleared.\<close>

definition an_inv :: "announcer \<Rightarrow> bool" where
  "an_inv s \<longleftrightarrow> distinct (timers s) \<and> list_all (\<lambda>i. i < next_timer s) (timers s)
     \<and> (an_mounted s \<and> an_message s \<noteq> [] \<longrightarrow>
          clearTimeoutRef s \<noteq> None \<and> the (clearTimeoutRef s) \<in> set (timers s))"

lemma clearPending_simps [simp]:
  "an_message (clearPendingTimeout s) = an_message s" "frames (clearPendingTimeout s) = frames s"
  "an_mounted (clearPendingTimeout s) = an_mounted s" "next_timer (clearPendingTimeout s) = next_timer s"
  "clearTimeoutRef (clearPendingTimeout s) = None"
  "timers (clearPendingTimeout s) = (case clearTimeoutRef s of None \<Rightarrow> timers s | Some i \<Rightarrow> remove1 i (timers s))"
  by (simp_all add: clearPendingTimeout_def split: option.split)

lemma an_inv_clearPending:
  "an_inv s \<Longrightarrow> distinct (timers (clearPendingTimeout s))
     \<and> list_all (\<lambda>i. i < next_timer s) (timers (clearPendingTimeout s))"
  using set_remove1_subset by (fastforce simp: an_inv_def list_all_iff split: option.split)

lemma an_inv_step: "an_inv s \<Longrightarrow> an_inv (an_step e s)"
proof (cases e)
  case (Announce m p)
  assume "an_inv s"
  then show ?thesis using Announce an_inv_clearPending [of s]
    by (simp add: announce_def Let_def an_inv_def)
next
  case Clear
  assume "an_inv s"
  then show ?thesis using Clear an_inv_clearPending [of s] by (simp add: clear_def an_inv_def)
next
  case Frame
  assume i: "an_inv s"
  then have "next_timer s \<notin> set (timers s)" by (auto simp: an_inv_def list_all_iff)
  then show ?thesis using i Frame
    by (cases "frames s"; cases "an_mounted s") (auto simp: run_frame_def Let_def an_inv_def list_all_iff less_Suc_eq)
next
  case (Timer j)
  assume i: "an_inv s"
  then show ?thesis using Timer set_remove1_subset [of j "timers s"]
    by (cases "an_mounted s") (auto simp: run_timer_def Let_def an_inv_def list_all_iff)
next
  case Unmount
  assume "an_inv s"
  then show ?thesis using Unmount an_inv_clearPending [of s] by (simp add: an_unmount_def an_inv_def)
qed

interpretation announcing: machine "\<lambda>s e. an_step e s" an_inv
  by unfold_locales (rule an_inv_step)

text \<open>In every run a message that is shown has the timer of the reference running, which clears it; timers
  are never started twice under one number.\<close>

theorem messages_get_cleared: "an_inv (an_run es (announcer_start p))"
  unfolding an_run_def
  by (rule announcing.every_run_inv) (simp add: an_inv_def announcer_start_def)

text \<open>When every announcement comes after the frame of the one before, only the timer of the message
  shown is running.\<close>

fun spaced_run :: "an_event list \<Rightarrow> announcer \<Rightarrow> bool" where
  "spaced_run [] s \<longleftrightarrow> True"
| "spaced_run (e # es) s \<longleftrightarrow> (case e of Announce _ _ \<Rightarrow> frames s = [] | _ \<Rightarrow> True) \<and> spaced_run es (an_step e s)"

definition own_timer_only :: "announcer \<Rightarrow> bool" where
  "own_timer_only s \<longleftrightarrow> length (frames s) \<le> 1
     \<and> (if frames s \<noteq> [] then timers s = [] else length (timers s) \<le> 1)
     \<and> (timers s \<noteq> [] \<longrightarrow> clearTimeoutRef s = Some (hd (timers s)))"

lemma own_timer_step:
  assumes "own_timer_only s" "case e of Announce _ _ \<Rightarrow> frames s = [] | _ \<Rightarrow> True"
  shows "own_timer_only (an_step e s)"
proof -
  have c: "timers (clearPendingTimeout s) = []"
    using assms(1) by (cases "timers s") (auto simp: own_timer_only_def split: option.split if_splits)
  show ?thesis
  proof (cases e)
    case (Announce m p)
    then show ?thesis using assms c by (cases "an_mounted s") (auto simp: announce_def Let_def own_timer_only_def split: if_splits)
  next
    case Clear
    then show ?thesis using assms c by (cases "an_mounted s") (auto simp: clear_def own_timer_only_def split: if_splits)
  next
    case Unmount
    then show ?thesis using assms c by (cases "an_mounted s") (auto simp: an_unmount_def own_timer_only_def split: if_splits)
  next
    case Frame
    then show ?thesis using assms
      by (cases "frames s") (auto simp: run_frame_def Let_def own_timer_only_def)
  next
    case (Timer j)
    have "timers s = [] \<or> (\<exists>k. timers s = [k])"
      using assms(1) by (cases "timers s") (auto simp: own_timer_only_def split: if_splits)
    then show ?thesis using Timer assms(1) by (auto simp: run_timer_def Let_def own_timer_only_def)
  qed
qed

theorem spaced_messages_keep_their_time:
  "spaced_run es (announcer_start p) \<Longrightarrow> own_timer_only (an_run es (announcer_start p))"
proof -
  have "own_timer_only s \<Longrightarrow> spaced_run es s \<Longrightarrow> own_timer_only (an_run es s)" for s
  proof (induction es arbitrary: s)
    case (Cons e es)
    then show ?case using own_timer_step [of s e] by (simp add: an_run_def)
  qed (simp add: an_run_def)
  moreover have "own_timer_only (announcer_start p)" by (simp add: own_timer_only_def announcer_start_def)
  ultimately show "spaced_run es (announcer_start p) \<Longrightarrow> own_timer_only (an_run es (announcer_start p))" by blast
qed

text \<open>Two announcements in one frame leave a timer that nothing stops: it clears a third message before
  its time.\<close>

lemma leaked_timer_clears_early:
  "let s = an_run [Announce ''a'' Polite, Announce ''b'' Polite, Frame, Frame, Announce ''c'' Polite, Frame]
             (announcer_start Polite)
   in an_message s = ''c'' \<and> clearTimeoutRef s = Some 2 \<and> an_message (an_step (Timer 0) s) = []"
  by (simp add: an_run_def announcer_start_def announce_def clearPendingTimeout_def run_frame_def run_timer_def Let_def)

text \<open>Clearing does not stop an announcement whose frame has not come.\<close>

lemma clear_before_frame_shows:
  assumes "an_mounted s" "frames s = []"
  shows "an_message (run_frame (clear (announce m p s))) = m"
  using assms by (simp add: announce_def clear_def run_frame_def Let_def)

text \<open>Leaving the page before the frame starts a timer that nothing stops.\<close>

lemma unmount_before_frame_leaks:
  assumes "an_mounted s" "frames s = []"
  shows "timers (run_frame (an_unmount (announce m p s))) \<noteq> []"
  using assms by (simp add: announce_def an_unmount_def run_frame_def Let_def)

section \<open>Live regions\<close>

text \<open>The attributes of a region; a role given by the caller replaces the one of the politeness.\<close>

definition region_role :: "politeness \<Rightarrow> string option \<Rightarrow> string" where
  "region_role p override =
     (case override of Some r \<Rightarrow> r | None \<Rightarrow> if p = Assertive then ''alert'' else ''status'')"

definition aria_live :: "politeness \<Rightarrow> string" where
  "aria_live p = (case p of Off \<Rightarrow> ''off'' | Polite \<Rightarrow> ''polite'' | Assertive \<Rightarrow> ''assertive'')"

definition status_message :: "string \<Rightarrow> bool \<Rightarrow> bool \<Rightarrow> (string \<times> string \<times> string) option" where
  "status_message m asrt loading =
     (if m = [] then None
      else Some (aria_live (if asrt then Assertive else Polite),
                 (if loading then ''Loading status'' else ''Status message''), m))"

text \<open>\<open>Math.round\<close> of a percentage.\<close>

definition js_round :: "rat \<Rightarrow> int" where
  "js_round x = \<lfloor>x + 1/2\<rfloor>"

definition loading_text :: "bool \<Rightarrow> string \<Rightarrow> rat option \<Rightarrow> (int \<Rightarrow> string) \<Rightarrow> string option" where
  "loading_text isLoading m progress show_int =
     (if \<not> isLoading then None
      else Some (case progress of None \<Rightarrow> m @ ''...''
                 | Some p \<Rightarrow> m @ ''... '' @ show_int (js_round p) @ ''% complete''))"

lemma rounded_percentage_bounds: "0 \<le> p \<Longrightarrow> p \<le> 100 \<Longrightarrow> 0 \<le> js_round p \<and> js_round p \<le> 100"
  unfolding js_round_def by (simp add: le_floor_iff floor_le_iff)

text \<open>An alert: its effect runs when the message, the flag or the callback changes; the last run's timer
  is stopped first.  The callback is told once a message has been shown for a tenth of a second.\<close>

record alert =
  al_message :: string
  announced :: bool
  al_timer :: bool
  told :: "string list"

definition alert_effect :: "alert \<Rightarrow> alert" where
  "alert_effect a =
     (let a = a\<lparr> al_timer := al_message a \<noteq> [] \<and> \<not> announced a \<rparr>
      in if al_message a = [] then a\<lparr> announced := False \<rparr> else a)"

definition show_alert :: "string \<Rightarrow> alert \<Rightarrow> alert" where
  "show_alert m a = (if m = al_message a then a else alert_effect (a\<lparr> al_message := m \<rparr>))"

definition alert_timer :: "alert \<Rightarrow> alert" where
  "alert_timer a =
     (if al_timer a
      then alert_effect (a\<lparr> al_timer := False, announced := True, told := told a @ [al_message a] \<rparr>)
      else a)"

definition alert_start :: alert where
  "alert_start = \<lparr> al_message = [], announced = False, al_timer = False, told = [] \<rparr>"

datatype al_event = ShowAlert string | AlertTimer

fun al_step :: "al_event \<Rightarrow> alert \<Rightarrow> alert" where
  "al_step (ShowAlert m) = show_alert m"
| "al_step AlertTimer = alert_timer"

text \<open>In every run a timer is running exactly while a message waits to be told.\<close>

lemma alert_timer_iff:
  "let a = fold al_step es alert_start in al_timer a = (al_message a \<noteq> [] \<and> \<not> announced a)
     \<and> (al_message a = [] \<longrightarrow> \<not> announced a)"
proof -
  define I where "I a \<longleftrightarrow> al_timer a = (al_message a \<noteq> [] \<and> \<not> announced a)
     \<and> (al_message a = [] \<longrightarrow> \<not> announced a)" for a :: alert
  have "I a \<Longrightarrow> I (al_step e a)" for e a
    by (cases e) (auto simp: I_def show_alert_def alert_timer_def alert_effect_def Let_def)
  then have "I a \<Longrightarrow> I (fold al_step es a)" for a by (induction es arbitrary: a) simp_all
  moreover have "I alert_start" by (simp add: I_def alert_start_def)
  ultimately show ?thesis by (simp add: I_def Let_def)
qed

text \<open>A message that replaces one already told is shown, and its callback is never called; only an empty
  message in between arms the alert again.\<close>

lemma second_alert_never_told:
  assumes "announced a" "al_message a \<noteq> []" "\<not> al_timer a" "list_all (\<lambda>m. m \<noteq> []) ms"
  shows "told (fold (\<lambda>m a. alert_timer (show_alert m a)) ms a) = told a"
proof -
  have "announced b \<and> al_message b \<noteq> [] \<and> \<not> al_timer b \<Longrightarrow> list_all (\<lambda>m. m \<noteq> []) ms
    \<Longrightarrow> told (fold (\<lambda>m a. alert_timer (show_alert m a)) ms b) = told b" for b
  proof (induction ms arbitrary: b)
    case (Cons m ms)
    let ?c = "alert_timer (show_alert m b)"
    have "announced ?c \<and> al_message ?c \<noteq> [] \<and> \<not> al_timer ?c" "told ?c = told b"
      using Cons.prems by (auto simp: show_alert_def alert_timer_def alert_effect_def Let_def)
    then show ?case using Cons by simp
  qed simp
  then show ?thesis using assms by blast
qed

end
