(* ===== verification/FormUndo.thy ===== *)
theory FormUndo
  imports Undo
begin

text \<open>
  Undo and redo of a form: \<open>FormUndoProvider\<close> in \<open>frontend/src/components/ui/form.tsx\<close>, and the keys
  and buttons of \<open>form-undo-redo.tsx\<close>.

  The provider keeps its own history beside the values of the form library.  Its effect runs after
  every render that changed the values or the past; it stores a snapshot and restarts the timer.
  The values are an object with a fixed set of fields that survives its JSON text, so a snapshot is
  the object itself and two snapshots have the same text exactly when they are equal.
\<close>

section \<open>The provider\<close>

record form_undo =
  form_values :: jsobj
  hist_past :: "jsobj list"
  hist_future :: "jsobj list"
  lastSnapshot :: "jsobj option"
  pendingSnapshot :: "jsobj option"
  push_timer :: bool

text \<open>\<open>debouncedPush\<close> of the current snapshot, as the effect calls it.\<close>

definition watch_effect :: "form_undo \<Rightarrow> form_undo" where
  "watch_effect s = s\<lparr> pendingSnapshot := Some (form_values s), push_timer := True \<rparr>"

definition form_undo_mount :: "jsobj \<Rightarrow> form_undo" where
  "form_undo_mount vs = watch_effect \<lparr> form_values = vs, hist_past = [], hist_future = [], lastSnapshot = None,
     pendingSnapshot = None, push_timer = False \<rparr>"

text \<open>An edit of the form: the library's values change, the provider renders, its effect runs.\<close>

definition form_edit :: "jsobj \<Rightarrow> form_undo \<Rightarrow> form_undo" where
  "form_edit vs s = (if form_values s = vs then s else watch_effect (s\<lparr> form_values := vs \<rparr>))"

text \<open>A change of the past renders the provider and, through \<open>pushToHistory\<close> and \<open>debouncedPush\<close>, runs
  the effect again.\<close>

definition pushToHistory :: "nat \<Rightarrow> jsobj \<Rightarrow> form_undo \<Rightarrow> form_undo" where
  "pushToHistory maxHist snapshot s =
     (if lastSnapshot s = Some snapshot then s
      else (let old = (case lastSnapshot s of None \<Rightarrow> snapshot | Some l \<Rightarrow> l)
            in watch_effect (s\<lparr> hist_past := slice_from (- int maxHist) (hist_past s @ [old]), hist_future := [],
                              lastSnapshot := Some snapshot \<rparr>)))"

definition push_fires :: "nat \<Rightarrow> form_undo \<Rightarrow> form_undo" where
  "push_fires maxHist s =
     (if push_timer s
      then (case pendingSnapshot s of
              None \<Rightarrow> s\<lparr> push_timer := False \<rparr>
            | Some p \<Rightarrow> pushToHistory maxHist p (s\<lparr> pendingSnapshot := None, push_timer := False \<rparr>))
      else s)"

definition restore_values :: "jsobj \<Rightarrow> form_undo \<Rightarrow> form_undo" where
  "restore_values snapshot s = s\<lparr> lastSnapshot := Some snapshot, form_values := spread (form_values s) snapshot \<rparr>"

definition undo_form :: "form_undo \<Rightarrow> form_undo" where
  "undo_form s =
     (if hist_past s = [] then s
      else (let current = form_values s; s' = restore_values (last (hist_past s)) (s\<lparr> push_timer := False \<rparr>)
            in watch_effect (s'\<lparr> hist_past := butlast (hist_past s), hist_future := current # hist_future s \<rparr>)))"

definition redo_form :: "form_undo \<Rightarrow> form_undo" where
  "redo_form s =
     (case hist_future s of [] \<Rightarrow> s
      | next # rest \<Rightarrow>
          (let current = form_values s; s' = restore_values next s
           in watch_effect (s'\<lparr> hist_past := hist_past s @ [current], hist_future := rest \<rparr>)))"

definition clear_history :: "form_undo \<Rightarrow> form_undo" where
  "clear_history s = watch_effect (s\<lparr> lastSnapshot := Some (form_values s), hist_past := [], hist_future := [] \<rparr>)"

text \<open>The fields of the form never change, so a snapshot written over the values gives the snapshot.\<close>

definition same_fields :: "jsobj \<Rightarrow> jsobj \<Rightarrow> bool" where
  "same_fields a b \<longleftrightarrow> map fst a = map fst b \<and> distinct (map fst a)"

lemma spread_below: "k \<notin> fst ` set b \<Longrightarrow> spread ((k, w) # a) b = (k, w) # spread a b"
  by (induction b arbitrary: a) (auto simp: spread_def)

lemma spread_same_fields: "same_fields a b \<Longrightarrow> spread a b = b"
proof (induction a arbitrary: b)
  case (Cons x a)
  obtain k w where x: "x = (k, w)" by (cases x)
  then obtain v b' where b: "b = (k, v) # b'" "map fst a = map fst b'"
    using Cons.prems by (cases b) (auto simp: same_fields_def)
  have d: "k \<notin> set (map fst b')" "distinct (map fst a)"
    using Cons.prems x b by (auto simp: same_fields_def simp del: set_map)
  have "spread (x # a) b = spread ((k, v) # a) b'" using x b by (simp add: spread_def)
  also have "\<dots> = (k, v) # spread a b'" using d(1) by (intro spread_below) simp
  also have "\<dots> = b" using Cons.IH [of b'] b d(2) by (simp add: same_fields_def)
  finally show ?case .
qed (simp add: same_fields_def spread_def)

section \<open>Settled forms are the undo hook\<close>

definition settled :: "form_undo \<Rightarrow> bool" where
  "settled s \<longleftrightarrow> lastSnapshot s = Some (form_values s)
     \<and> (push_timer s \<and> pendingSnapshot s \<noteq> None \<longrightarrow> pendingSnapshot s = Some (form_values s))"

definition fields_inv :: "jsobj \<Rightarrow> form_undo \<Rightarrow> bool" where
  "fields_inv vs s \<longleftrightarrow> list_all (same_fields vs) (form_values s # hist_past s @ hist_future s)"

text \<open>A user who waits for the timer after each step.\<close>

datatype form_event = FEdit jsobj | FUndo | FRedo | FClear

fun form_op :: "form_event \<Rightarrow> form_undo \<Rightarrow> form_undo" where
  "form_op (FEdit vs) = form_edit vs"
| "form_op FUndo = undo_form"
| "form_op FRedo = redo_form"
| "form_op FClear = clear_history"

definition waited :: "nat \<Rightarrow> form_event \<Rightarrow> form_undo \<Rightarrow> form_undo" where
  "waited maxHist e s = push_fires maxHist (form_op e s)"

text \<open>The hook of \<open>use-undo.ts\<close> on the same values, without a debounce.\<close>

definition hook_options :: "nat \<Rightarrow> undo_options" where
  "hook_options maxHist = \<lparr> maxHistory = int maxHist, debounceMs = 0, isEqual = (=) \<rparr>"

definition as_hook :: "jsobj \<Rightarrow> form_undo \<Rightarrow> undo_state" where
  "as_hook vs s = \<lparr> past = map JObj (hist_past s), present = JObj (form_values s), future = map JObj (hist_future s),
     debounceTimeout = False, pendingValue = JNull, initialValueRef = JObj vs \<rparr>"

fun hook_event :: "form_event \<Rightarrow> undo_event" where
  "hook_event (FEdit vs) = ESetValue (Value (JObj vs))"
| "hook_event FUndo = EUndo"
| "hook_event FRedo = ERedo"
| "hook_event FClear = EClearHistory"

lemma slice_from_map: "slice_from k (map f xs) = map f (slice_from k xs)"
  by (simp add: slice_from_def drop_map)

lemma slice_from_subset: "set (slice_from k xs) \<subseteq> set xs"
  by (simp add: slice_from_def set_drop_subset)

lemmas form_ops = form_edit_def undo_form_def redo_form_def clear_history_def push_fires_def pushToHistory_def
  watch_effect_def restore_values_def Let_def

text \<open>The operations as the timer leaves them.\<close>

lemma waited_edit:
  "settled s \<Longrightarrow> vs \<noteq> form_values s \<Longrightarrow>
     let t = waited m (FEdit vs) s
     in form_values t = vs \<and> hist_past t = slice_from (- int m) (hist_past s @ [form_values s])
        \<and> hist_future t = [] \<and> settled t"
  by (auto simp: waited_def settled_def form_ops)

lemma waited_same_edit:
  "settled s \<Longrightarrow>
     let t = waited m (FEdit (form_values s)) s
     in form_values t = form_values s \<and> hist_past t = hist_past s \<and> hist_future t = hist_future s \<and> settled t"
  by (auto simp: waited_def settled_def form_ops split: option.split)

lemma waited_undo:
  assumes "settled s" "hist_past s \<noteq> []" "same_fields (form_values s) (last (hist_past s))"
  shows "let t = waited m FUndo s
     in form_values t = last (hist_past s) \<and> hist_past t = butlast (hist_past s)
        \<and> hist_future t = form_values s # hist_future s \<and> settled t"
  using assms by (simp add: waited_def settled_def form_ops spread_same_fields)

lemma waited_redo:
  assumes "settled s" "hist_future s = v # rest" "same_fields (form_values s) v"
  shows "let t = waited m FRedo s
     in form_values t = v \<and> hist_past t = hist_past s @ [form_values s] \<and> hist_future t = rest \<and> settled t"
  using assms by (simp add: waited_def settled_def form_ops spread_same_fields)

lemma waited_clear:
  "let t = waited m FClear s
   in form_values t = form_values s \<and> hist_past t = [] \<and> hist_future t = [] \<and> settled t"
  by (simp add: waited_def settled_def form_ops)

lemma waited_nothing:
  assumes "settled s" "e = FUndo \<and> hist_past s = [] \<or> e = FRedo \<and> hist_future s = []"
  shows "let t = waited m e s
     in form_values t = form_values s \<and> hist_past t = hist_past s \<and> hist_future t = hist_future s \<and> settled t"
  using assms by (auto simp: waited_def settled_def form_ops split: option.split)

lemma same_fields_trans: "same_fields vs a \<Longrightarrow> same_fields vs b \<Longrightarrow> same_fields a b"
  by (auto simp: same_fields_def)

definition event_ok :: "jsobj \<Rightarrow> form_event \<Rightarrow> bool" where
  "event_ok vs e \<longleftrightarrow> (case e of FEdit v \<Rightarrow> same_fields vs v | _ \<Rightarrow> True)"

lemma as_hook_eqI:
  "map JObj (hist_past t) = past u \<Longrightarrow> JObj (form_values t) = present u \<Longrightarrow> map JObj (hist_future t) = future u
   \<Longrightarrow> \<not> debounceTimeout u \<Longrightarrow> pendingValue u = JNull \<Longrightarrow> initialValueRef u = JObj vs \<Longrightarrow> as_hook vs t = u"
  by (simp add: as_hook_def)

lemmas hook_ops = hook_options_def as_hook_def setValue_def undo_def redo_def flushDebounce_def push_past_def
  clearHistory_def Let_def

lemma waited_simulates:
  assumes s: "settled s" and f: "fields_inv vs s" and e: "event_ok vs e"
  shows "settled (waited m e s) \<and> fields_inv vs (waited m e s)
    \<and> as_hook vs (waited m e s) = undo_step (hook_options m) (as_hook vs s) (hook_event e)"
proof (cases e)
  case (FEdit v)
  show ?thesis
  proof (cases "v = form_values s")
    case True
    then show ?thesis using waited_same_edit [OF s, of m] f FEdit
      by (auto simp: Let_def fields_inv_def hook_ops)
  next
    case False
    have "list_all (same_fields vs) (slice_from (- int m) (hist_past s @ [form_values s]))"
      using f slice_from_subset [of "- int m" "hist_past s @ [form_values s]"]
      by (auto simp: fields_inv_def list_all_iff)
    then show ?thesis using waited_edit [OF s False, of m] f e FEdit False
      by (auto simp: Let_def fields_inv_def hook_ops event_ok_def slice_from_map [of _ JObj, symmetric])
  qed
next
  case FUndo
  show ?thesis
  proof (cases "hist_past s = []")
    case True
    then show ?thesis using waited_nothing [OF s, of FUndo m] f FUndo
      by (auto simp: Let_def fields_inv_def hook_ops)
  next
    case False
    then have l: "last (hist_past s) \<in> set (hist_past s)" by simp
    then have "same_fields vs (last (hist_past s))" using f by (simp add: fields_inv_def list_all_iff)
    then have "same_fields (form_values s) (last (hist_past s))"
      using f same_fields_trans [of vs "form_values s"] by (simp add: fields_inv_def)
    note t = waited_undo [OF s False this, of m, unfolded Let_def]
    have "list_all (same_fields vs) (butlast (hist_past s))"
      using f by (cases "hist_past s" rule: rev_cases) (auto simp: fields_inv_def)
    then have "fields_inv vs (waited m e s)"
      using t f FUndo \<open>same_fields vs (last (hist_past s))\<close> by (simp add: fields_inv_def)
    moreover have "as_hook vs (waited m e s) = undo_step (hook_options m) (as_hook vs s) (hook_event e)"
      using t False FUndo by (simp add: hook_ops map_butlast last_map)
    ultimately show ?thesis using t FUndo by simp
  qed
next
  case FRedo
  show ?thesis
  proof (cases "hist_future s")
    case Nil
    then show ?thesis using waited_nothing [OF s, of FRedo m] f FRedo
      by (auto simp: Let_def fields_inv_def hook_ops)
  next
    case (Cons v rest)
    then have "same_fields (form_values s) v"
      using f same_fields_trans [of vs "form_values s" v] by (simp add: fields_inv_def)
    from waited_redo [OF s Cons this, of m] show ?thesis using f FRedo Cons
      by (auto simp: Let_def fields_inv_def hook_ops)
  qed
next
  case FClear
  then show ?thesis using waited_clear [of m s] f by (auto simp: Let_def fields_inv_def hook_ops)
qed

text \<open>The form as its first timer leaves it: the initial values are already in the past.\<close>

definition form_opened :: "nat \<Rightarrow> jsobj \<Rightarrow> form_undo" where
  "form_opened m vs = push_fires m (form_undo_mount vs)"

lemma form_opened_state:
  "form_values (form_opened m vs) = vs" "hist_past (form_opened m vs) = [vs]" "hist_future (form_opened m vs) = []"
  "settled (form_opened m vs)"
  by (auto simp: form_opened_def form_undo_mount_def form_ops settled_def slice_from_def)

text \<open>C30.  For a user who waits for the timer after each change, and fields that are distinct and never
  change, the form behaves as the undo hook with the options of \<open>hook_options\<close>, that is no debounce
  and structural equality, and with one more entry in the past: the initial values themselves.  (With
  its default options the hook keeps no history.)\<close>

theorem form_history_refines_hook:
  assumes "distinct (map fst vs)" "list_all (event_ok vs) es"
  shows "as_hook vs (fold (waited m) es (form_opened m vs))
    = fold (\<lambda>e u. undo_step (hook_options m) u (hook_event e)) es ((undo_init (JObj vs))\<lparr> past := [JObj vs] \<rparr>)"
proof -
  have "settled s \<Longrightarrow> fields_inv vs s \<Longrightarrow> list_all (event_ok vs) es
    \<Longrightarrow> as_hook vs (fold (waited m) es s) = fold (\<lambda>e u. undo_step (hook_options m) u (hook_event e)) es (as_hook vs s)"
    for s
  proof (induction es arbitrary: s)
    case (Cons e es)
    then show ?case using waited_simulates [of s vs e m] by simp
  qed simp
  moreover have "fields_inv vs (form_opened m vs)"
    using assms(1) by (simp add: fields_inv_def form_opened_state same_fields_def)
  moreover have "as_hook vs (form_opened m vs) = (undo_init (JObj vs))\<lparr> past := [JObj vs] \<rparr>"
    by (simp add: as_hook_def form_opened_state undo_init_def)
  ultimately show ?thesis using assms(2) form_opened_state(4) by metis
qed

lemma form_history_refines_witness:
  "form_values (fold (waited 5) [FEdit [(''a'', JNum 2)], FUndo] (form_opened 5 [(''a'', JNum 1)])) = [(''a'', JNum 1)]"
proof -
  let ?f = "fold (waited 5) [FEdit [(''a'', JNum 2)], FUndo] (form_opened 5 [(''a'', JNum 1)])"
  have "present (as_hook [(''a'', JNum 1)] ?f) = JObj [(''a'', JNum 1)]"
    using form_history_refines_hook [of "[(''a'', JNum 1)]" "[FEdit [(''a'', JNum 2)], FUndo]" 5]
    by (simp add: event_ok_def same_fields_def hook_ops undo_init_def slice_from_def)
  then show ?thesis by (simp add: as_hook_def)
qed

text \<open>A form that nobody has touched offers an undo, which changes nothing.\<close>

lemma untouched_form_can_undo:
  "hist_past (form_opened m vs) \<noteq> []"
  "distinct (map fst vs) \<Longrightarrow> form_values (undo_form (form_opened m vs)) = vs"
  by (simp_all add: form_opened_state undo_form_def watch_effect_def restore_values_def Let_def
      spread_same_fields same_fields_def)

text \<open>An edit before the first timer: the initial values are never kept, undo gives the edited ones.\<close>

lemma early_edit_loses_initial:
  "vs \<noteq> ws \<Longrightarrow> hist_past (push_fires m (form_edit ws (form_undo_mount vs))) = [ws]"
  by (simp add: form_undo_mount_def form_ops slice_from_def)

text \<open>An undo before the timer skips the last kept values: neither undo nor redo leads back to them.\<close>

lemma undo_in_debounce_skips:
  assumes "settled s" "hist_past s \<noteq> []" "same_fields ws (last (hist_past s))" "ws \<noteq> form_values s"
  shows "let t = push_fires m (undo_form (form_edit ws s))
     in hist_past t = butlast (hist_past s) \<and> form_values t = last (hist_past s)
        \<and> hist_future t = ws # hist_future s"
  using assms by (simp add: form_ops spread_same_fields settled_def)

section \<open>Keys and buttons\<close>

record undo_key =
  uk_mod :: bool
  uk_shift :: bool
  uk_key :: string
  uk_in_input :: bool

datatype undo_call = CallUndo | CallRedo

text \<open>The listener of \<open>FormUndoRedoProvider\<close>, with its early returns, and the one of
  \<open>useUndoRedoShortcuts\<close>: the calls they make.\<close>

definition is_undo_key :: "undo_key \<Rightarrow> bool" where
  "is_undo_key e \<longleftrightarrow> uk_mod e \<and> uk_key e = ''z'' \<and> \<not> uk_shift e"

definition is_redo_key :: "undo_key \<Rightarrow> bool" where
  "is_redo_key e \<longleftrightarrow> (uk_mod e \<and> uk_shift e \<and> uk_key e = ''z'') \<or> (uk_mod e \<and> uk_key e = ''y'')"

definition provider_keydown :: "bool \<Rightarrow> bool \<Rightarrow> bool \<Rightarrow> undo_key \<Rightarrow> undo_call list" where
  "provider_keydown enabled canU canR e =
     (if \<not> enabled then []
      else if is_undo_key e \<and> uk_in_input e then []
      else (if is_undo_key e \<and> canU then [CallUndo] else [])
         @ (if is_redo_key e then (if uk_in_input e then [] else if canR then [CallRedo] else []) else []))"

definition useUndoRedoShortcuts :: "bool \<Rightarrow> bool \<Rightarrow> bool \<Rightarrow> undo_key \<Rightarrow> undo_call list" where
  "useUndoRedoShortcuts canU canR enabled e =
     (if \<not> enabled then []
      else (if is_undo_key e then (if \<not> uk_in_input e \<and> canU then [CallUndo] else []) else [])
         @ (if is_redo_key e then (if \<not> uk_in_input e \<and> canR then [CallRedo] else []) else []))"

lemma undo_listeners_agree: "provider_keydown en u r e = useUndoRedoShortcuts u r en e"
  by (simp add: provider_keydown_def useUndoRedoShortcuts_def)

lemma one_call_per_key:
  "length (provider_keydown en u r e) \<le> 1"
  "uk_in_input e \<Longrightarrow> provider_keydown en u r e = []"
  by (auto simp: provider_keydown_def is_undo_key_def is_redo_key_def)

text \<open>With Shift held the browser reports the capital letter: Ctrl+Shift+Z, the key the button
  announces, never redoes.\<close>

lemma announced_redo_key_dead:
  "uk_shift e \<Longrightarrow> uk_key e = ''Z'' \<Longrightarrow> provider_keydown en u r e = []"
  by (simp add: provider_keydown_def is_undo_key_def is_redo_key_def)

text \<open>The buttons: whether each is disabled.\<close>

definition buttons_disabled :: "bool \<Rightarrow> bool \<Rightarrow> bool \<Rightarrow> bool \<times> bool" where
  "buttons_disabled is_disabled canU canR = (is_disabled \<or> \<not> canU, is_disabled \<or> \<not> canR)"

end
