(* ===== verification/AutoSaveForm.thy ===== *)
theory AutoSaveForm
  imports AutoSave
begin

text \<open>
  The form around auto-save: \<open>frontend/src/components/ui/auto-save-form-provider.tsx\<close> on the hook of
  AutoSave.thy, the recovery dialog and banner of \<open>draft-recovery-dialog.tsx\<close>, and the indicators of
  \<open>auto-save-indicator.tsx\<close>.

  The hook returns a fresh object in every render, and the effect that looks for a draft depends on
  it: the effect runs after every render of the provider.  A render happens when a state of the
  hook or of the provider changes; \<open>lastSaved\<close> is a fresh \<open>Date\<close> each time.
\<close>

section \<open>The provider\<close>

record save_form =
  sf_save :: autosave
  sf_dialog :: bool
  sf_values :: jsv
  sf_restored :: "jsv list"
  sf_discarded :: nat

definition recovery_effect :: "(storage_call \<Rightarrow> bool) \<Rightarrow> bool \<Rightarrow> autosave_options \<Rightarrow> save_form \<Rightarrow> save_form" where
  "recovery_effect fails enable opt s =
     (if enable \<and> hasDraft fails opt (sf_save s) then s\<lparr> sf_dialog := True \<rparr> else s)"

definition renders :: "save_form \<Rightarrow> save_form \<Rightarrow> bool" where
  "renders s t \<longleftrightarrow> save_status (sf_save s) \<noteq> save_status (sf_save t)
     \<or> count_list (notified (sf_save s)) Saved \<noteq> count_list (notified (sf_save t)) Saved
     \<or> hasUnsavedChanges (sf_save s) \<noteq> hasUnsavedChanges (sf_save t) \<or> sf_dialog s \<noteq> sf_dialog t"

definition rendered ::
    "(storage_call \<Rightarrow> bool) \<Rightarrow> bool \<Rightarrow> autosave_options \<Rightarrow> save_form \<Rightarrow> save_form \<Rightarrow> save_form" where
  "rendered fails enable opt s t = (if renders s t then recovery_effect fails enable opt t else t)"

definition handleRestoreDraft :: "(storage_call \<Rightarrow> bool) \<Rightarrow> autosave_options \<Rightarrow> save_form \<Rightarrow> save_form" where
  "handleRestoreDraft fails opt s =
     (let d = restoreDraft fails opt (sf_save s);
          s = (if truthy d then s\<lparr> sf_values := d, sf_restored := sf_restored s @ [d] \<rparr> else s)
      in s\<lparr> sf_dialog := False \<rparr>)"

definition handleDiscardDraft :: "(storage_call \<Rightarrow> bool) \<Rightarrow> autosave_options \<Rightarrow> save_form \<Rightarrow> save_form" where
  "handleDiscardDraft fails opt s =
     s\<lparr> sf_save := clearDraft fails opt (sf_save s), sf_discarded := Suc (sf_discarded s), sf_dialog := False \<rparr>"

text \<open>The end of a submission: a handler that throws leaves the draft.\<close>

definition handleFormSubmit :: "(storage_call \<Rightarrow> bool) \<Rightarrow> autosave_options \<Rightarrow> bool \<Rightarrow> save_form \<Rightarrow> save_form" where
  "handleFormSubmit fails opt threw s =
     (if threw then s else s\<lparr> sf_save := markSubmitted fails opt (sf_save s) \<rparr>)"

text \<open>The events: a change the form library reports (each is saved at once, without the debounce), an
  answer of \<open>onSave\<close>, the timers of the hook, and the buttons of the dialog.  Its two buttons run the
  handler and close it; Escape only closes it.\<close>

datatype form_event =
    Changed int jsv
  | Settled nat save_result int
  | IdleTimer
  | IntervalTick int
  | RestorePressed
  | DiscardPressed
  | DialogClosed
  | Submitted bool

fun form_handle ::
    "(storage_call \<Rightarrow> bool) \<Rightarrow> autosave_options \<Rightarrow> save_form \<Rightarrow> form_event \<Rightarrow> save_form" where
  "form_handle fails opt s (Changed now v) = s\<lparr> sf_values := v, sf_save := save fails opt now v (sf_save s) \<rparr>"
| "form_handle fails opt s (Settled i res now) = s\<lparr> sf_save := save_settles i res now (sf_save s) \<rparr>"
| "form_handle fails opt s IdleTimer = s\<lparr> sf_save := idle_fires (sf_save s) \<rparr>"
| "form_handle fails opt s (IntervalTick now) = s\<lparr> sf_save := interval_fires fails opt now (sf_save s) \<rparr>"
| "form_handle fails opt s RestorePressed = (if sf_dialog s then handleRestoreDraft fails opt s else s)"
| "form_handle fails opt s DiscardPressed = (if sf_dialog s then handleDiscardDraft fails opt s else s)"
| "form_handle fails opt s DialogClosed = s\<lparr> sf_dialog := False \<rparr>"
| "form_handle fails opt s (Submitted threw) = handleFormSubmit fails opt threw s"

definition form_step ::
    "(storage_call \<Rightarrow> bool) \<Rightarrow> bool \<Rightarrow> autosave_options \<Rightarrow> save_form \<Rightarrow> form_event \<Rightarrow> save_form" where
  "form_step fails enable opt s e = rendered fails enable opt s (form_handle fails opt s e)"

definition form_mount ::
    "(storage_call \<Rightarrow> bool) \<Rightarrow> bool \<Rightarrow> autosave_options \<Rightarrow> jsv \<Rightarrow> storage \<Rightarrow> save_form" where
  "form_mount fails enable opt vs st =
     recovery_effect fails enable opt
       \<lparr> sf_save = autosave_init (opt\<lparr> initialData := Some vs \<rparr>) st, sf_dialog = False, sf_values = vs,
         sf_restored = [], sf_discarded = 0 \<rparr>"

section \<open>The dialog cannot be closed while a draft is stored\<close>

definition dialog_inv :: "(storage_call \<Rightarrow> bool) \<Rightarrow> bool \<Rightarrow> autosave_options \<Rightarrow> save_form \<Rightarrow> bool" where
  "dialog_inv fails enable opt s \<longleftrightarrow>
     (enable \<and> hasDraft fails opt (sf_save s) \<longrightarrow> sf_dialog s \<or> save_status (sf_save s) = Saving)"

lemma effect_dialog: "enable \<Longrightarrow> hasDraft fails opt (sf_save (recovery_effect fails enable opt s))
    \<Longrightarrow> sf_dialog (recovery_effect fails enable opt s)"
  by (simp add: recovery_effect_def split: if_splits)

lemma effect_inv: "dialog_inv fails enable opt (recovery_effect fails enable opt s)"
  using effect_dialog by (auto simp: dialog_inv_def)

text \<open>A step without a render stores a draft only in the state \<open>Saving\<close>.\<close>

lemma hasDraft_cong: "drafts a = drafts b \<Longrightarrow> hasDraft fails opt a = hasDraft fails opt b"
  by (simp add: hasDraft_def getDraft_def)

lemma stored_fields [simp]:
  "notified (saveToLocalStorage fails opt now d a) = notified a"
  "save_status (saveToLocalStorage fails opt now d a) = save_status a"
  "hasUnsavedChanges (saveToLocalStorage fails opt now d a) = hasUnsavedChanges a"
  by (simp_all add: saveToLocalStorage_def)

lemma save_cases:
  "save fails opt now d a = a \<or> save_status (save fails opt now d a) = Saving
   \<or> count_list (notified (save fails opt now d a)) Saved = Suc (count_list (notified a) Saved)"
  by (cases "isSubmitted a"; cases "hasOnSave opt")
    (simp_all add: save_def Let_def save_succeeds_def updateStatus_def)

lemma save_without_render:
  "\<not> renders s (t\<lparr> sf_save := save fails opt now d (sf_save s) \<rparr>)
   \<Longrightarrow> save fails opt now d (sf_save s) = sf_save s \<or> save_status (save fails opt now d (sf_save s)) = Saving"
  using save_cases [of fails opt now d "sf_save s"] by (auto simp: renders_def)

lemma step_inv:
  assumes "dialog_inv fails enable opt s"
  shows "dialog_inv fails enable opt (form_step fails enable opt s e)"
proof (cases "renders s (form_handle fails opt s e)")
  case True
  then show ?thesis by (simp add: form_step_def rendered_def effect_inv)
next
  case False
  let ?t = "form_handle fails opt s e"
  have same: "sf_dialog ?t = sf_dialog s" "save_status (sf_save ?t) = save_status (sf_save s)"
    using False by (auto simp: renders_def)
  have "save_status (sf_save ?t) = Saving \<or> drafts (sf_save ?t) = drafts (sf_save s)
    \<or> \<not> hasDraft fails opt (sf_save ?t) \<or> sf_dialog ?t"
  proof (cases e)
    case (Changed now v)
    then show ?thesis using save_without_render [where s = s and t = "s\<lparr> sf_values := v \<rparr>" and fails = fails and opt = opt and now = now and d = v] False by auto
  next
    case (IntervalTick now)
    then show ?thesis
      using save_without_render [where s = s and t = s and fails = fails and opt = opt and now = now and d = "the (currentData (sf_save s))"] False
      by (auto simp: interval_fires_def)
  next
    case (Settled i res now)
    then show ?thesis
      by (auto simp: save_settles_def save_succeeds_def updateStatus_def Let_def split: save_result.split)
  next
    case DiscardPressed
    then show ?thesis using same by (auto simp: handleDiscardDraft_def)
  next
    case RestorePressed
    then show ?thesis by (auto simp: handleRestoreDraft_def Let_def)
  next
    case (Submitted threw)
    have "drafts (markSubmitted fails opt (sf_save s)) = drafts (sf_save s)
       \<or> \<not> hasDraft fails opt (markSubmitted fails opt (sf_save s))"
      by (auto simp: markSubmitted_def clearDraft_def updateStatus_def hasDraft_def getDraft_def)
    then show ?thesis using Submitted by (auto simp: handleFormSubmit_def)
  qed (auto simp: idle_fires_def updateStatus_def)
  then have "dialog_inv fails enable opt ?t"
    using assms same hasDraft_cong [of "sf_save ?t" "sf_save s"] by (auto simp: dialog_inv_def)
  then show ?thesis using False by (simp add: form_step_def rendered_def)
qed

text \<open>C15.  While the form's draft is in the storage the recovery dialog is open, except while a save waits for
  its answer: restoring the draft, Escape and further typing leave it open; only discarding the
  draft or a submission can close it.\<close>

theorem recovery_dialog_stays_open:
  assumes "hasDraft fails opt (sf_save s)" "save_status (sf_save s) \<noteq> Saving"
    and "s = foldl (form_step fails True opt) (form_mount fails True opt vs st) es"
  shows "sf_dialog s"
proof -
  have "dialog_inv fails True opt t \<Longrightarrow> dialog_inv fails True opt (foldl (form_step fails True opt) t es)" for t
    by (induction es arbitrary: t) (simp_all add: step_inv)
  then have "dialog_inv fails True opt s" using effect_inv assms(3) by (simp add: form_mount_def)
  then show ?thesis using assms(1,2) by (simp add: dialog_inv_def)
qed

definition sample_options :: autosave_options where
  "sample_options = \<lparr> formId = ''f'', initialData = None, hasOnSave = False, enablePeriodicSave = True,
     persistToLocalStorage = True, saveOnBlur = False \<rparr>"

lemma closing_keeps_save:
  "sf_save (form_step fails enable opt s RestorePressed) = sf_save s"
  "sf_save (form_step fails enable opt s DialogClosed) = sf_save s"
  "sf_save (form_step fails enable opt s (Changed now v)) = save fails opt now v (sf_save s)"
  by (simp_all add: form_step_def rendered_def recovery_effect_def handleRestoreDraft_def Let_def)

lemma save_draft:
  "\<not> isSubmitted a \<Longrightarrow> \<not> hasOnSave opt \<Longrightarrow> persistToLocalStorage opt \<Longrightarrow>
     hasDraft (\<lambda>_. False) opt (save (\<lambda>_. False) opt now d a) \<and> save_status (save (\<lambda>_. False) opt now d a) = Saved"
  by (simp add: hasDraft_def getDraft_def save_def save_succeeds_def updateStatus_def saveToLocalStorage_def
      draft_data_def Let_def)

lemma recovery_dialog_witness:
  "let s = foldl (form_step (\<lambda>_. False) True sample_options)
             (form_mount (\<lambda>_. False) True sample_options (JObj []) []) [Changed 5 (JObj [(''a'', JNum 1)])]
   in sf_dialog s \<and> sf_dialog (form_step (\<lambda>_. False) True sample_options s RestorePressed)
      \<and> sf_dialog (form_step (\<lambda>_. False) True sample_options s DialogClosed)"
proof -
  let ?nf = "\<lambda>_. False" and ?o = sample_options
  let ?m = "form_mount ?nf True ?o (JObj []) []" and ?c = "Changed 5 (JObj [(''a'', JNum 1)])"
  let ?s = "form_step ?nf True ?o ?m ?c"
  have "\<not> isSubmitted (sf_save ?m)" "\<not> hasOnSave ?o" "persistToLocalStorage ?o"
    by (simp_all add: form_mount_def recovery_effect_def autosave_init_def sample_options_def)
  then have d: "hasDraft ?nf ?o (sf_save ?s)" "save_status (sf_save ?s) \<noteq> Saving"
    using save_draft [of "sf_save ?m" ?o 5] by (simp_all add: closing_keeps_save)
  have fold: "form_step ?nf True ?o ?s e = foldl (form_step ?nf True ?o) ?m [?c, e]" for e by simp
  have "sf_dialog (form_step ?nf True ?o ?s RestorePressed)" "sf_dialog (form_step ?nf True ?o ?s DialogClosed)"
    by (rule recovery_dialog_stays_open [OF _ _ fold]; use d in \<open>simp only: closing_keeps_save not_False_eq_True\<close>)+
  moreover have "sf_dialog ?s"
    by (rule recovery_dialog_stays_open [OF d, of "JObj []" "[]" "[?c]"]) (simp only: foldl.simps)
  ultimately show ?thesis by (simp only: Let_def foldl.simps simp_thms)
qed

text \<open>A form without a stored draft: the first change opens the dialog over the form being edited.\<close>

lemma first_change_opens_dialog:
  assumes "\<not> hasOnSave opt" "persistToLocalStorage opt" "\<not> fails (SetItem (draft_storage_key opt))"
    and "\<not> fails (GetItem (draft_storage_key opt))" "\<not> isSubmitted (sf_save s)"
  shows "sf_dialog (form_step fails True opt s (Changed now v))"
proof -
  let ?t = "form_handle fails opt s (Changed now v)"
  have "renders s ?t"
    using assms by (auto simp: renders_def save_def save_succeeds_def updateStatus_def saveToLocalStorage_def Let_def)
  moreover have "hasDraft fails opt (sf_save ?t)"
    using assms by (simp add: hasDraft_def getDraft_def save_def save_succeeds_def updateStatus_def
        saveToLocalStorage_def Let_def draft_data_def)
  ultimately show ?thesis by (simp add: form_step_def rendered_def recovery_effect_def)
qed

section \<open>Times\<close>

text \<open>Times relative to now; a date further back is the text of the platform.\<close>

definition formatRelativeTime :: "(int \<Rightarrow> string) \<Rightarrow> int \<Rightarrow> int \<Rightarrow> string" where
  "formatRelativeTime locale_date now t =
     (let diffSeconds = (now - t) div 1000; diffMinutes = diffSeconds div 60; diffHours = diffMinutes div 60
      in if diffSeconds < 60 then ''just now''
         else if diffMinutes < 60 then int_text diffMinutes @ ''m ago''
         else if diffHours < 24 then int_text diffHours @ ''h ago''
         else locale_date t)"

definition formatDraftTimestamp :: "(int \<Rightarrow> string) \<Rightarrow> int \<Rightarrow> int \<Rightarrow> string" where
  "formatDraftTimestamp locale_time now t =
     (let diffMinutes = (now - t) div 60000; diffHours = diffMinutes div 60; diffDays = diffHours div 24
      in if diffMinutes < 1 then ''just now''
         else if diffMinutes < 60
         then int_text diffMinutes @ '' minute'' @ (if diffMinutes \<noteq> 1 then ''s'' else []) @ '' ago''
         else if diffHours < 24
         then int_text diffHours @ '' hour'' @ (if diffHours \<noteq> 1 then ''s'' else []) @ '' ago''
         else if diffDays = 1 then ''yesterday''
         else if diffDays < 7 then int_text diffDays @ '' days ago''
         else locale_time t)"

text \<open>The nested divisions are the divisions by a minute, an hour and a day.\<close>

lemma nested_divisions:
  "(now - t) div 1000 div 60 = (now - t) div (60000 :: int)"
  "(now - t) div 60000 div 60 = (now - t) div (3600000 :: int)"
  "(now - t) div 3600000 div 24 = (now - t) div (86400000 :: int)"
  by (simp_all add: div_mult2_eq [symmetric] zdiv_zmult2_eq [symmetric])

section \<open>Indicators\<close>

datatype save_icon = Spinner | Check | Alert | Dot

record save_indicator =
  ind_last :: "int option"
  ind_show :: bool
  relativeTime :: "string option"
  ind_ticking :: bool

definition indicator_effect :: "(int \<Rightarrow> string) \<Rightarrow> int \<Rightarrow> save_indicator \<Rightarrow> save_indicator" where
  "indicator_effect loc now s =
     (case ind_last s of
        None \<Rightarrow> s\<lparr> relativeTime := None, ind_ticking := False \<rparr>
      | Some t \<Rightarrow>
          if \<not> ind_show s then s\<lparr> relativeTime := None, ind_ticking := False \<rparr>
          else s\<lparr> relativeTime := Some (formatRelativeTime loc now t), ind_ticking := True \<rparr>)"

definition indicator_tick :: "(int \<Rightarrow> string) \<Rightarrow> int \<Rightarrow> save_indicator \<Rightarrow> save_indicator" where
  "indicator_tick loc now s =
     (if ind_ticking s then s\<lparr> relativeTime := map_option (formatRelativeTime loc now) (ind_last s) \<rparr> else s)"

definition getStatusDisplay :: "autosave_status \<Rightarrow> save_indicator \<Rightarrow> save_icon option \<times> string" where
  "getStatusDisplay st s =
     (let ago = (case relativeTime s of None \<Rightarrow> None | Some r \<Rightarrow> if r = [] then None else Some r)
      in case st of
        Saving \<Rightarrow> (Some Spinner, ''Saving...'')
      | Saved \<Rightarrow> (Some Check, (case ago of Some r \<Rightarrow> if ind_show s then ''Saved '' @ r else ''Saved'' | None \<Rightarrow> ''Saved''))
      | SaveError \<Rightarrow> (Some Alert, ''Failed to save'')
      | Unsaved \<Rightarrow> (Some Dot, ''Unsaved changes'')
      | Idle \<Rightarrow> (case ago of
            Some r \<Rightarrow> if ind_last s \<noteq> None \<and> ind_show s then (Some Check, ''Saved '' @ r) else (None, [])
          | None \<Rightarrow> (None, [])))"

definition indicator_shown :: "autosave_status \<Rightarrow> save_indicator \<Rightarrow> bool" where
  "indicator_shown st s \<longleftrightarrow> getStatusDisplay st s \<noteq> (None, [])"

definition compact_icon :: "autosave_status \<Rightarrow> int option \<Rightarrow> save_icon option" where
  "compact_icon st lst =
     (case st of Saving \<Rightarrow> Some Spinner | Saved \<Rightarrow> Some Check | SaveError \<Rightarrow> Some Alert | Unsaved \<Rightarrow> Some Dot
      | Idle \<Rightarrow> if lst \<noteq> None then Some Check else None)"

definition getTooltip :: "(int \<Rightarrow> string) \<Rightarrow> int \<Rightarrow> autosave_status \<Rightarrow> int option \<Rightarrow> string" where
  "getTooltip loc now st lst =
     (case st of Saving \<Rightarrow> ''Saving...''
      | Saved \<Rightarrow> (case lst of Some t \<Rightarrow> ''Saved '' @ formatRelativeTime loc now t | None \<Rightarrow> ''Saved'')
      | SaveError \<Rightarrow> ''Failed to save''
      | Unsaved \<Rightarrow> ''Unsaved changes''
      | Idle \<Rightarrow> (case lst of Some t \<Rightarrow> ''Last saved '' @ formatRelativeTime loc now t | None \<Rightarrow> ''Not saved''))"

definition badge_text :: "autosave_status \<Rightarrow> string option" where
  "badge_text st = (case st of Saving \<Rightarrow> Some ''Saving'' | Saved \<Rightarrow> Some ''Saved'' | SaveError \<Rightarrow> Some ''Error''
      | Unsaved \<Rightarrow> Some ''Unsaved'' | Idle \<Rightarrow> None)"

text \<open>An indicator is mounted, told of saves and ticks; its time is always that of the last save as it
  read at the last tick or save, and the two icons agree once a platform date is not empty.\<close>

datatype ind_event = IndSaved "int option" int | IndTick int

fun ind_step :: "(int \<Rightarrow> string) \<Rightarrow> ind_event \<Rightarrow> save_indicator \<Rightarrow> save_indicator" where
  "ind_step loc (IndSaved t now) s = indicator_effect loc now (s\<lparr> ind_last := t \<rparr>)"
| "ind_step loc (IndTick now) s = indicator_tick loc now s"

definition ind_mount :: "(int \<Rightarrow> string) \<Rightarrow> bool \<Rightarrow> int option \<Rightarrow> int \<Rightarrow> save_indicator" where
  "ind_mount loc show t now =
     indicator_effect loc now \<lparr> ind_last = t, ind_show = show, relativeTime = None, ind_ticking = False \<rparr>"

definition read_at :: "(int \<Rightarrow> string) \<Rightarrow> int \<Rightarrow> save_indicator \<Rightarrow> bool" where
  "read_at loc now s \<longleftrightarrow> ind_ticking s = (ind_show s \<and> ind_last s \<noteq> None)
     \<and> relativeTime s = (if ind_show s then map_option (formatRelativeTime loc now) (ind_last s) else None)"

fun event_time :: "ind_event \<Rightarrow> int" where
  "event_time (IndSaved _ now) = now"
| "event_time (IndTick now) = now"

lemma effect_read: "read_at loc now (indicator_effect loc now s)"
  by (simp add: indicator_effect_def read_at_def split: option.split)

lemma indicator_reads_last_event:
  "read_at loc (last (t0 # map event_time es)) (fold (ind_step loc) es (ind_mount loc show t t0))"
proof (induction es rule: rev_induct)
  case Nil
  then show ?case using effect_read by (simp add: ind_mount_def)
next
  case (snoc e es)
  let ?s = "fold (ind_step loc) es (ind_mount loc show t t0)"
  show ?case
  proof (cases e)
    case (IndSaved u now)
    then show ?thesis using effect_read by simp
  next
    case (IndTick now)
    have "read_at loc now (indicator_tick loc now ?s)"
      using snoc.IH by (cases "ind_last ?s") (auto simp: read_at_def indicator_tick_def)
    then show ?thesis using IndTick by simp
  qed
qed

lemma if_nonempty: "a \<noteq> [] \<Longrightarrow> b \<noteq> [] \<Longrightarrow> (if c then a else b) \<noteq> []"
  by simp

lemma append_nonempty: "b \<noteq> [] \<Longrightarrow> a @ b \<noteq> []"
  by simp

lemma icons_agree:
  assumes "read_at loc now s" "ind_show s" "\<And>t. loc t \<noteq> []"
  shows "fst (getStatusDisplay st s) = compact_icon st (ind_last s)"
proof -
  have ne: "formatRelativeTime loc now t \<noteq> []" for t
    unfolding formatRelativeTime_def Let_def
    by (intro if_nonempty assms(3) append_nonempty) simp_all
  show ?thesis
  proof (cases "ind_last s")
    case None
    then have "relativeTime s = None" using assms(1) by (simp add: read_at_def)
    then show ?thesis using None by (cases st) (simp_all add: getStatusDisplay_def compact_icon_def)
  next
    case (Some t)
    then obtain r where "relativeTime s = Some r" "r \<noteq> []" using assms(1,2) ne [of t] by (simp add: read_at_def)
    then show ?thesis using Some assms(2) by (cases st) (simp_all add: getStatusDisplay_def compact_icon_def)
  qed
qed

text \<open>The banner: a draft of the time 0 shows no time.\<close>

record draft_banner =
  bn_dismissed :: bool

definition banner_text :: "(int \<Rightarrow> string) \<Rightarrow> int \<Rightarrow> bool \<Rightarrow> int option \<Rightarrow> draft_banner \<Rightarrow> string option" where
  "banner_text loc now has timestamp b =
     (if \<not> has \<or> bn_dismissed b then None
      else Some (''Draft available'' @ (case timestamp of None \<Rightarrow> [] | Some t \<Rightarrow>
        if t = 0 \<or> formatDraftTimestamp loc now t = [] then [] else ''('' @ formatDraftTimestamp loc now t @ '')'')))"

definition dismiss_banner :: "draft_banner \<Rightarrow> draft_banner" where
  "dismiss_banner b = b\<lparr> bn_dismissed := True \<rparr>"

lemma dismissed_banner_gone: "banner_text loc now has ts (dismiss_banner b) = None"
  by (simp add: banner_text_def dismiss_banner_def)

end
