(* ===== verification/MobileWidgets.thy ===== *)
theory MobileWidgets
  imports Machines DeepLinks
begin

text \<open>
  Home-screen quick actions and widgets of the mobile application:
  \<open>mobile/widgets/QuickActionsService.ts\<close>, \<open>WidgetService.ts\<close> and \<open>useWidgetIntegration.ts\<close>.

  Both services are single objects of the app.  \<open>getInitialURL\<close> answers with the address the app was
  opened with, however often it is asked; each call of \<open>initialize\<close> awaits one answer.  What the
  router is told is a list.
\<close>

section \<open>Quick actions\<close>

type_synonym action_id = string

definition DEFAULT_QUICK_ACTIONS :: "(action_id \<times> string) list" where
  "DEFAULT_QUICK_ACTIONS =
     [(''view_dashboard'', ''amgportal://dashboard''), (''view_approvals'', ''amgportal://approvals''),
      (''new_message'', ''amgportal://messages/new''), (''view_tasks'', ''amgportal://tasks'')]"

definition QUICK_ACTION_ROUTES :: "(action_id \<times> string) list" where
  "QUICK_ACTION_ROUTES =
     [(''view_dashboard'', ''/(internal)''), (''view_approvals'', ''/(internal)/approvals''),
      (''new_message'', ''/(internal)/messages/new''), (''view_tasks'', ''/(internal)/tasks''),
      (''view_clients'', ''/(internal)/clients''), (''view_programs'', ''/(internal)/programs'')]"

definition getRouteForAction :: "action_id \<Rightarrow> string" where
  "getRouteForAction a = get_or ''/(internal)'' QUICK_ACTION_ROUTES a"

definition normalized_url :: "string \<Rightarrow> string" where
  "normalized_url url = dropWhile (\<lambda>c. c = CHR ''/'') (replace_first ''amgportal://'' [] url)"

definition action_matches :: "string \<Rightarrow> string \<Rightarrow> bool" where
  "action_matches url action_url \<longleftrightarrow>
     normalized_url url = normalized_url action_url \<or> starts_with (normalized_url action_url @ ''/'') (normalized_url url)"

definition findActionByUrl :: "string \<Rightarrow> action_id option" where
  "findActionByUrl url = map_option fst (find (\<lambda>a. action_matches url (snd a)) DEFAULT_QUICK_ACTIONS)"

record quick_service =
  handlers :: "(action_id \<times> nat list) list"
  qs_subscribed :: bool
  qs_initialized :: bool
  awaiting :: nat
  routed :: "string list"

definition qs_start :: quick_service where
  "qs_start = \<lparr> handlers = [], qs_subscribed = False, qs_initialized = False, awaiting = 0, routed = [] \<rparr>"

text \<open>Every handler the application registers pushes the route of the action.\<close>

definition executeAction :: "action_id \<Rightarrow> quick_service \<Rightarrow> quick_service" where
  "executeAction a s = s\<lparr> routed := routed s @ map (\<lambda>_. getRouteForAction a) (get_or [] (handlers s) a) \<rparr>"

definition handleDeepLink :: "string \<Rightarrow> quick_service \<Rightarrow> quick_service" where
  "handleDeepLink url s = (case findActionByUrl url of None \<Rightarrow> s | Some a \<Rightarrow> executeAction a s)"

definition qs_initialize :: "quick_service \<Rightarrow> quick_service" where
  "qs_initialize s =
     (if qs_initialized s then s
      else s\<lparr> qs_initialized := True, qs_subscribed := True, awaiting := Suc (awaiting s) \<rparr>)"

definition initial_url_answers :: "string option \<Rightarrow> quick_service \<Rightarrow> quick_service" where
  "initial_url_answers url s =
     (if awaiting s = 0 then s
      else (let s = s\<lparr> awaiting := awaiting s - 1 \<rparr>
            in case url of None \<Rightarrow> s | Some u \<Rightarrow> if u = [] then s else handleDeepLink u s))"

definition qs_cleanup :: "quick_service \<Rightarrow> quick_service" where
  "qs_cleanup s = s\<lparr> qs_subscribed := False, handlers := [], qs_initialized := False \<rparr>"

definition onAction :: "action_id \<Rightarrow> nat \<Rightarrow> quick_service \<Rightarrow> quick_service" where
  "onAction a h s = s\<lparr> handlers := AList.update a (get_or [] (handlers s) a @ [h]) (handlers s) \<rparr>"

definition off_action :: "action_id \<Rightarrow> nat \<Rightarrow> quick_service \<Rightarrow> quick_service" where
  "off_action a h s =
     (case map_of (handlers s) a of None \<Rightarrow> s
      | Some hs \<Rightarrow> s\<lparr> handlers := AList.update a (remove1 h hs) (handlers s) \<rparr>)"

definition url_event :: "string \<Rightarrow> quick_service \<Rightarrow> quick_service" where
  "url_event u s = (if qs_subscribed s then handleDeepLink u s else s)"

text \<open>The effect of the hook and its cleanup.  The effect depends on the callbacks that count, which are
  new whenever the fetched approvals or programs or the user change; the cleanup runs before.\<close>

definition ACTION_IDS :: "action_id list" where
  "ACTION_IDS = [''view_dashboard'', ''view_approvals'', ''new_message'', ''view_tasks'', ''view_clients'', ''view_programs'']"

definition hook_effect :: "quick_service \<Rightarrow> quick_service" where
  "hook_effect s = fold (\<lambda>a. onAction a 0) ACTION_IDS (qs_initialize s)"

definition hook_cleanup :: "quick_service \<Rightarrow> quick_service" where
  "hook_cleanup s = qs_cleanup (fold (\<lambda>a. off_action a 0) ACTION_IDS s)"

datatype hook_event = CountsChange | InitialAnswer | OpenedUrl string

fun hook_step :: "string option \<Rightarrow> quick_service \<Rightarrow> hook_event \<Rightarrow> quick_service" where
  "hook_step initial s CountsChange = hook_effect (hook_cleanup s)"
| "hook_step initial s InitialAnswer = initial_url_answers initial s"
| "hook_step initial s (OpenedUrl u) = url_event u s"

text \<open>While the hook is mounted every action has exactly one handler, and the service listens.\<close>

definition hooked :: "quick_service \<Rightarrow> bool" where
  "hooked s \<longleftrightarrow> qs_subscribed s \<and> qs_initialized s \<and> list_all (\<lambda>a. length (get_or [] (handlers s) a) = 1) ACTION_IDS"

lemma handlers_fold_other:
  "a \<notin> set as \<Longrightarrow> get_or [] (handlers (fold (\<lambda>a. onAction a h) as s)) a = get_or [] (handlers s) a"
  by (induction as arbitrary: s) (auto simp: onAction_def)

lemma handlers_fold_on:
  "distinct as \<Longrightarrow> a \<in> set as \<Longrightarrow>
     get_or [] (handlers (fold (\<lambda>a. onAction a h) as s)) a = get_or [] (handlers s) a @ [h]"
  by (induction as arbitrary: s) (auto simp: onAction_def handlers_fold_other)

lemma fold_on_same:
  "qs_subscribed (fold (\<lambda>a. onAction a h) as s) = qs_subscribed s"
  "qs_initialized (fold (\<lambda>a. onAction a h) as s) = qs_initialized s"
  "awaiting (fold (\<lambda>a. onAction a h) as s) = awaiting s" "routed (fold (\<lambda>a. onAction a h) as s) = routed s"
  by (induction as arbitrary: s) (simp_all add: onAction_def)

lemma fold_off_same:
  "awaiting (fold (\<lambda>a. off_action a h) as s) = awaiting s" "routed (fold (\<lambda>a. off_action a h) as s) = routed s"
  by (induction as arbitrary: s) (simp_all add: off_action_def split: option.split)

lemma cleanup_state:
  "handlers (hook_cleanup s) = []" "\<not> qs_initialized (hook_cleanup s)" "\<not> qs_subscribed (hook_cleanup s)"
  "awaiting (hook_cleanup s) = awaiting s" "routed (hook_cleanup s) = routed s"
  by (simp_all add: hook_cleanup_def qs_cleanup_def fold_off_same)

lemma distinct_action_ids: "distinct ACTION_IDS"
  by (simp add: ACTION_IDS_def)

lemma effect_hooks:
  assumes "handlers s = []" "\<not> qs_initialized s"
  shows "hooked (hook_effect s)" "awaiting (hook_effect s) = Suc (awaiting s)" "routed (hook_effect s) = routed s"
proof -
  have "get_or [] (handlers (qs_initialize s)) a = []" for a
    using assms by (simp add: qs_initialize_def get_or_def)
  then have "a \<in> set ACTION_IDS \<Longrightarrow> length (get_or [] (handlers (hook_effect s)) a) = 1" for a
    using handlers_fold_on [OF distinct_action_ids] by (simp add: hook_effect_def)
  then show "hooked (hook_effect s)" using assms
    by (simp add: hooked_def list_all_iff) (simp add: hook_effect_def fold_on_same qs_initialize_def)
  show "awaiting (hook_effect s) = Suc (awaiting s)" "routed (hook_effect s) = routed s"
    using assms by (simp_all add: hook_effect_def fold_on_same qs_initialize_def)
qed

lemma find_prop: "find P xs = Some x \<Longrightarrow> x \<in> set xs \<and> P x"
  by (auto simp: find_Some_iff)

lemma found_action: "findActionByUrl u = Some a \<Longrightarrow> a \<in> fst ` set DEFAULT_QUICK_ACTIONS"
proof -
  assume "findActionByUrl u = Some a"
  then obtain x where "find (\<lambda>a. action_matches u (snd a)) DEFAULT_QUICK_ACTIONS = Some x" "fst x = a"
    by (auto simp only: findActionByUrl_def map_option_eq_Some)
  then show ?thesis using find_prop by fast
qed

lemma found_action_known: "findActionByUrl u = Some a \<Longrightarrow> a \<in> set ACTION_IDS"
  using found_action [of u a] by (auto simp: DEFAULT_QUICK_ACTIONS_def ACTION_IDS_def)

lemma link_pushes_once:
  assumes "hooked s"
  shows "routed (handleDeepLink u s) = routed s @ (case findActionByUrl u of None \<Rightarrow> [] | Some a \<Rightarrow> [getRouteForAction a])"
    "hooked (handleDeepLink u s)" "awaiting (handleDeepLink u s) = awaiting s"
proof -
  have "length (get_or [] (handlers s) a) = 1" if "findActionByUrl u = Some a" for a
    using assms found_action_known [OF that] by (simp add: hooked_def list_all_iff)
  then show "routed (handleDeepLink u s) = routed s @ (case findActionByUrl u of None \<Rightarrow> [] | Some a \<Rightarrow> [getRouteForAction a])"
    by (cases "findActionByUrl u") (auto simp: handleDeepLink_def executeAction_def length_Suc_conv)
  show "hooked (handleDeepLink u s)" "awaiting (handleDeepLink u s) = awaiting s"
    using assms by (auto simp: handleDeepLink_def executeAction_def hooked_def split: option.split)
qed

lemma hook_step_hooked: "hooked s \<Longrightarrow> hooked (hook_step initial s e)"
proof (cases e)
  case InitialAnswer
  assume h: "hooked s"
  then have "hooked (s\<lparr> awaiting := n \<rparr>)" for n by (simp add: hooked_def)
  then show ?thesis using InitialAnswer h link_pushes_once(2)
    by (simp add: initial_url_answers_def Let_def split: option.split)
qed (simp_all add: url_event_def link_pushes_once effect_hooks cleanup_state)

interpretation quick: machine "hook_step initial" hooked
  by unfold_locales (rule hook_step_hooked)

text \<open>What an address routes.\<close>

definition route_of :: "string \<Rightarrow> string list" where
  "route_of u = (case findActionByUrl u of None \<Rightarrow> [] | Some a \<Rightarrow> [getRouteForAction a])"

definition launch_route :: "string option \<Rightarrow> string list" where
  "launch_route initial = (case initial of None \<Rightarrow> [] | Some u \<Rightarrow> if u = [] then [] else route_of u)"

lemma counts_then_answer:
  assumes "hooked s" "awaiting s = 0"
  shows "let t = run (hook_step initial) [CountsChange, InitialAnswer] s
     in routed t = routed s @ launch_route initial \<and> hooked t \<and> awaiting t = 0"
proof -
  let ?u = "hook_effect (hook_cleanup s)"
  note u = effect_hooks [OF cleanup_state(1,2), of s]
  have h: "hooked (?u\<lparr> awaiting := 0 \<rparr>)" using u(1) by (simp add: hooked_def)
  show ?thesis using u assms(2) link_pushes_once [OF h] h
    by (auto simp: cleanup_state initial_url_answers_def launch_route_def route_of_def Let_def split: option.split)
qed

text \<open>An app launched from a quick action opens its screen again each time the fetched counts change, for the
  answer to every further \<open>initialize\<close> is the address of the launch.\<close>

theorem launch_action_repeats:
  assumes "findActionByUrl u = Some a"
  shows "routed (run (hook_step (Some u)) (InitialAnswer # concat (replicate n [CountsChange, InitialAnswer])) (hook_effect qs_start))
     = replicate (Suc n) (getRouteForAction a)"
proof -
  have start: "hooked (hook_effect qs_start)" "awaiting (hook_effect qs_start) = 1" "routed (hook_effect qs_start) = []"
    using effect_hooks [of qs_start] by (simp_all add: qs_start_def)
  have "findActionByUrl [] = None" by code_simp
  then have "u \<noteq> []" using assms by (metis option.distinct(1))
  then have l: "launch_route (Some u) = [getRouteForAction a]" using assms by (simp add: launch_route_def route_of_def)
  have go: "hooked s \<Longrightarrow> awaiting s = 0 \<Longrightarrow>
      routed (run (hook_step (Some u)) (concat (replicate n [CountsChange, InitialAnswer])) s)
      = routed s @ replicate n (getRouteForAction a)" for s
  proof (induction n arbitrary: s)
    case (Suc n)
    let ?t = "run (hook_step (Some u)) [CountsChange, InitialAnswer] s"
    have "routed ?t = routed s @ [getRouteForAction a]" "hooked ?t" "awaiting ?t = 0"
      using counts_then_answer [OF Suc.prems, of "Some u"] l by (simp_all add: Let_def)
    then show ?case using Suc.IH [of ?t] by simp
  qed simp
  have h: "hooked ((hook_effect qs_start)\<lparr> awaiting := 0 \<rparr>)" using start(1) by (simp add: hooked_def)
  let ?s = "hook_step (Some u) (hook_effect qs_start) InitialAnswer"
  have "routed ?s = [getRouteForAction a]" "hooked ?s" "awaiting ?s = 0"
    using start link_pushes_once [OF h, of u] assms \<open>u \<noteq> []\<close> by (simp_all add: initial_url_answers_def Let_def)
  then show ?thesis using go [of ?s] by simp
qed

lemma launch_action_witness:
  "routed (run (hook_step (Some ''amgportal://tasks'')) [InitialAnswer, CountsChange, InitialAnswer] (hook_effect qs_start))
     = [''/(internal)/tasks'', ''/(internal)/tasks'']"
proof -
  have "findActionByUrl ''amgportal://tasks'' = Some ''view_tasks''" by code_simp
  moreover have "getRouteForAction ''view_tasks'' = ''/(internal)/tasks''" by code_simp
  ultimately show ?thesis using launch_action_repeats [of "''amgportal://tasks''" "''view_tasks''" 1]
    by (simp add: eval_nat_numeral)
qed

text \<open>The two actions without an entry in the list are never found, whatever the address.\<close>

lemma clients_and_programs_never_found:
  "findActionByUrl u \<noteq> Some ''view_clients''" "findActionByUrl u \<noteq> Some ''view_programs''"
  using found_action [of u] by (auto simp: DEFAULT_QUICK_ACTIONS_def)

section \<open>Widget data\<close>

record widget_data =
  pendingApprovals :: nat
  dueToday :: nat
  blockedTasks :: nat
  activePrograms :: nat
  lastUpdated :: int
  userName :: "string option"

definition DEFAULT_WIDGET_DATA :: "int \<Rightarrow> widget_data" where
  "DEFAULT_WIDGET_DATA start =
     \<lparr> pendingApprovals = 0, dueToday = 0, blockedTasks = 0, activePrograms = 0, lastUpdated = start, userName = None \<rparr>"

text \<open>The counts of the hook.  Two of them are drawn at random, as the comment beside them says; the draws
  are the argument.\<close>

definition due_today :: "string list \<Rightarrow> (nat \<Rightarrow> nat) \<Rightarrow> nat" where
  "due_today statuses draw =
     sum_list (map (\<lambda>i. if statuses ! i = ''active'' then draw i mod 3 else 0) [0..<length statuses])"

definition active_programs :: "string list \<Rightarrow> nat" where
  "active_programs statuses = length (filter (\<lambda>st. st = ''active'') statuses)"

definition first_name :: "string option \<Rightarrow> string option" where
  "first_name full = map_option (\<lambda>n. hd (split_on CHR '' '' n)) full"

lemma due_today_bound: "due_today statuses draw \<le> 2 * active_programs statuses"
proof -
  have "sum_list (map (\<lambda>i. if statuses ! i = ''active'' then draw i mod 3 else 0) is)
    \<le> 2 * length (filter (\<lambda>i. statuses ! i = ''active'') is)" for "is"
  proof (induction "is")
    case (Cons i js)
    have "draw i mod 3 \<le> 2" using mod_less_divisor [of 3 "draw i"] by simp
    then show ?case using Cons by simp
  qed simp
  from this [of "[0..<length statuses]"] have le: "due_today statuses draw
    \<le> 2 * length (filter (\<lambda>i. statuses ! i = ''active'') [0..<length statuses])"
    by (simp only: due_today_def)
  have "length (filter (\<lambda>i. statuses ! i = ''active'') [0..<length statuses]) = active_programs statuses"
  proof -
    have "map (\<lambda>i. statuses ! i) [0..<length statuses] = statuses" by (rule map_nth)
    then have "active_programs statuses = length (filter (\<lambda>st. st = ''active'') (map (\<lambda>i. statuses ! i) [0..<length statuses]))"
      by (simp add: active_programs_def)
    then show ?thesis by (simp add: filter_map comp_def)
  qed
  then show ?thesis using le by simp
qed

section \<open>The widget service\<close>

text \<open>What is done when an awaited refresh ends: nothing, or the interval is started.  A refresh without
  a provider reads the cache and ends at once.\<close>

datatype continuation = ThenNothing | ThenInterval

record widget_service =
  ws_provider :: bool
  ws_initialized :: bool
  ws_subscribed :: bool
  ws_interval :: bool
  ws_reading :: nat
  ws_refreshing :: "continuation list"
  ws_cache :: "widget_data option"
  ws_shown :: "widget_data option"
  ws_foreground :: bool

definition ws_start :: "widget_data option \<Rightarrow> widget_service" where
  "ws_start cached = \<lparr> ws_provider = False, ws_initialized = False, ws_subscribed = False, ws_interval = False,
     ws_reading = 0, ws_refreshing = [], ws_cache = cached, ws_shown = None, ws_foreground = True \<rparr>"

definition getCachedData :: "int \<Rightarrow> widget_service \<Rightarrow> widget_data" where
  "getCachedData start s = (case ws_cache s of None \<Rightarrow> DEFAULT_WIDGET_DATA start | Some d \<Rightarrow> d)"

definition ws_initialize :: "widget_service \<Rightarrow> widget_service" where
  "ws_initialize s =
     (if ws_initialized s then s
      else s\<lparr> ws_provider := True, ws_initialized := True, ws_subscribed := True, ws_reading := Suc (ws_reading s) \<rparr>)"

definition ws_cleanup :: "widget_service \<Rightarrow> widget_service" where
  "ws_cleanup s = s\<lparr> ws_subscribed := False, ws_interval := False, ws_initialized := False \<rparr>"

definition stopPeriodicUpdates :: "widget_service \<Rightarrow> widget_service" where
  "stopPeriodicUpdates s = s\<lparr> ws_interval := False \<rparr>"

definition startPeriodicUpdates :: "widget_service \<Rightarrow> widget_service" where
  "startPeriodicUpdates s = (stopPeriodicUpdates s)\<lparr> ws_interval := True \<rparr>"

fun continue_with :: "continuation \<Rightarrow> widget_service \<Rightarrow> widget_service" where
  "continue_with ThenNothing s = s"
| "continue_with ThenInterval s = startPeriodicUpdates s"

definition refreshWidgetData :: "continuation \<Rightarrow> widget_service \<Rightarrow> widget_service" where
  "refreshWidgetData k s =
     (if \<not> ws_provider s then continue_with k s else s\<lparr> ws_refreshing := ws_refreshing s @ [k] \<rparr>)"

text \<open>The end of the refresh started as the \<open>i\<close>-th of those running: the counts, or a failure; the
  storage may refuse the write.\<close>

definition refresh_ends :: "bool \<Rightarrow> nat \<Rightarrow> widget_data option \<Rightarrow> widget_service \<Rightarrow> widget_service" where
  "refresh_ends write_fails i answer s =
     (if i < length (ws_refreshing s)
      then (let k = ws_refreshing s ! i;
                s = s\<lparr> ws_refreshing := take i (ws_refreshing s) @ drop (Suc i) (ws_refreshing s) \<rparr>
            in case answer of
                 None \<Rightarrow> continue_with k s
               | Some d \<Rightarrow> continue_with k (s\<lparr> ws_cache := (if write_fails then ws_cache s else Some d),
                                               ws_shown := Some d \<rparr>))
      else s)"

text \<open>The first display, from the cache, and the refresh that follows it.\<close>

definition cache_read :: "int \<Rightarrow> widget_service \<Rightarrow> widget_service" where
  "cache_read start s =
     (if ws_reading s = 0 then s
      else refreshWidgetData ThenNothing
             (s\<lparr> ws_reading := ws_reading s - 1, ws_shown := Some (getCachedData start s) \<rparr>))"

definition handleAppStateChange :: "bool \<Rightarrow> widget_service \<Rightarrow> widget_service" where
  "handleAppStateChange active s =
     (let s = s\<lparr> ws_foreground := active \<rparr>
      in if \<not> ws_subscribed s then s
         else if active then refreshWidgetData ThenInterval s else stopPeriodicUpdates s)"

definition interval_fires :: "widget_service \<Rightarrow> widget_service" where
  "interval_fires s = (if ws_interval s then refreshWidgetData ThenNothing s else s)"

datatype ws_event =
    WInit | WCleanup | WRead | WEnds bool nat "widget_data option" | WActive | WBackground | WTick | WClear

fun ws_step :: "int \<Rightarrow> widget_service \<Rightarrow> ws_event \<Rightarrow> widget_service" where
  "ws_step start s WInit = ws_initialize s"
| "ws_step start s WCleanup = ws_cleanup s"
| "ws_step start s WRead = cache_read start s"
| "ws_step start s (WEnds w i a) = refresh_ends w i a s"
| "ws_step start s WActive = handleAppStateChange True s"
| "ws_step start s WBackground = handleAppStateChange False s"
| "ws_step start s WTick = interval_fires s"
| "ws_step start s WClear = s\<lparr> ws_cache := None \<rparr>"

text \<open>The interval runs only in the foreground of a service that listens, as long as no change of the app
  state and no cleanup overtakes the refresh that is to start it.\<close>

definition patient :: "ws_event \<Rightarrow> widget_service \<Rightarrow> bool" where
  "patient e s \<longleftrightarrow> (case e of WCleanup \<Rightarrow> ThenInterval \<notin> set (ws_refreshing s)
     | WBackground \<Rightarrow> ThenInterval \<notin> set (ws_refreshing s) | _ \<Rightarrow> True)"

fun patient_run :: "int \<Rightarrow> ws_event list \<Rightarrow> widget_service \<Rightarrow> bool" where
  "patient_run start [] s \<longleftrightarrow> True"
| "patient_run start (e # es) s \<longleftrightarrow> patient e s \<and> patient_run start es (ws_step start s e)"

definition interval_inv :: "widget_service \<Rightarrow> bool" where
  "interval_inv s \<longleftrightarrow>
     (ws_interval s \<or> ThenInterval \<in> set (ws_refreshing s) \<longrightarrow> ws_subscribed s \<and> ws_foreground s)"

lemma continue_fields:
  "ws_refreshing (continue_with k s) = ws_refreshing s" "ws_subscribed (continue_with k s) = ws_subscribed s"
  "ws_foreground (continue_with k s) = ws_foreground s"
  "ws_interval (continue_with k s) \<longleftrightarrow> ws_interval s \<or> k = ThenInterval"
  by (cases k; simp add: startPeriodicUpdates_def stopPeriodicUpdates_def)+

lemma refresh_ends_fields:
  assumes "i < length (ws_refreshing s)"
  shows "ws_subscribed (refresh_ends w i a s) = ws_subscribed s"
    "ws_foreground (refresh_ends w i a s) = ws_foreground s"
    "ws_refreshing (refresh_ends w i a s) = take i (ws_refreshing s) @ drop (Suc i) (ws_refreshing s)"
    "ws_interval (refresh_ends w i a s) \<longleftrightarrow> ws_interval s \<or> ws_refreshing s ! i = ThenInterval"
  using assms by (cases a; simp add: refresh_ends_def Let_def continue_fields)+

lemma interval_inv_step: "interval_inv s \<Longrightarrow> patient e s \<Longrightarrow> interval_inv (ws_step start s e)"
proof (cases e)
  case (WEnds w i a)
  assume inv: "interval_inv s"
  show ?thesis
  proof (cases "i < length (ws_refreshing s)")
    case True
    have "ws_refreshing s ! i \<in> set (ws_refreshing s)" using True by simp
    moreover have "set (take i (ws_refreshing s) @ drop (Suc i) (ws_refreshing s)) \<subseteq> set (ws_refreshing s)"
      using set_take_subset [of i "ws_refreshing s"] set_drop_subset [of "Suc i" "ws_refreshing s"] by simp
    ultimately show ?thesis using inv WEnds
      unfolding interval_inv_def ws_step.simps WEnds refresh_ends_fields [OF True] by (metis subsetD)
  next
    case False
    then show ?thesis using inv WEnds by (simp add: refresh_ends_def)
  qed
next
  case WInit
  assume "interval_inv s"
  then show ?thesis using WInit by (auto simp: interval_inv_def ws_initialize_def)
next
  case WCleanup
  assume "interval_inv s" "patient e s"
  then show ?thesis using WCleanup by (auto simp: interval_inv_def ws_cleanup_def patient_def)
next
  case WRead
  assume "interval_inv s"
  then show ?thesis using WRead
    by (auto simp: interval_inv_def cache_read_def refreshWidgetData_def)
next
  case WActive
  assume "interval_inv s"
  then show ?thesis using WActive
    by (auto simp: interval_inv_def handleAppStateChange_def refreshWidgetData_def Let_def
        startPeriodicUpdates_def stopPeriodicUpdates_def)
next
  case WBackground
  assume "interval_inv s" "patient e s"
  then show ?thesis using WBackground
    by (auto simp: interval_inv_def handleAppStateChange_def stopPeriodicUpdates_def Let_def patient_def)
next
  case WTick
  assume "interval_inv s"
  then show ?thesis using WTick by (auto simp: interval_inv_def interval_fires_def refreshWidgetData_def)
next
  case WClear
  assume "interval_inv s"
  then show ?thesis using WClear by (simp add: interval_inv_def)
qed

text \<open>C38.  While the app neither goes to the background nor cleans the service up as a refresh that is to
  start the interval still runs, the interval runs only in the foreground of a service that listens.\<close>

theorem interval_only_in_foreground:
  assumes "patient_run start es (ws_start cached)" "ws_interval (run (ws_step start) es (ws_start cached))"
  shows "ws_foreground (run (ws_step start) es (ws_start cached))
    \<and> ws_subscribed (run (ws_step start) es (ws_start cached))"
proof -
  have "interval_inv s \<Longrightarrow> patient_run start es s \<Longrightarrow> interval_inv (run (ws_step start) es s)" for s
  proof (induction es arbitrary: s)
    case (Cons e es)
    then show ?case using interval_inv_step by simp
  qed simp
  moreover have "interval_inv (ws_start cached)" by (simp add: interval_inv_def ws_start_def)
  ultimately show ?thesis using assms by (auto simp: interval_inv_def)
qed

lemma interval_witness:
  "ws_foreground (run (ws_step 0) [WInit, WActive, WEnds False 0 None, WBackground, WActive, WEnds False 0 None] (ws_start None))"
  using interval_only_in_foreground [of 0 "[WInit, WActive, WEnds False 0 None, WBackground, WActive, WEnds False 0 None]" None]
  by (simp add: patient_def ws_start_def ws_initialize_def handleAppStateChange_def refreshWidgetData_def
      refresh_ends_def startPeriodicUpdates_def stopPeriodicUpdates_def Let_def)

text \<open>A refresh that ends after the app went to the background, or after the service was cleaned up,
  starts an interval there.\<close>

lemma late_refresh_starts_interval:
  assumes "ws_provider s" "ws_subscribed s" "ws_refreshing s = []"
  shows "ws_interval (run (ws_step start) [WActive, WBackground, WEnds w 0 a] s)"
    and "ws_interval (run (ws_step start) [WActive, WCleanup, WEnds w 0 a] s)"
  using assms by (cases a; simp add: handleAppStateChange_def refreshWidgetData_def refresh_ends_def Let_def
      startPeriodicUpdates_def stopPeriodicUpdates_def ws_cleanup_def)+

text \<open>The app starts in the foreground, where no change of its state is reported: until it has been in
  the background once, nothing starts the interval.\<close>

lemma no_interval_before_first_return:
  assumes "WActive \<notin> set es"
  shows "\<not> ws_interval (run (ws_step start) es (ws_start cached))"
proof -
  define I where "I s \<longleftrightarrow> \<not> ws_interval s \<and> ThenInterval \<notin> set (ws_refreshing s)" for s :: widget_service
  have "I s \<Longrightarrow> e \<noteq> WActive \<Longrightarrow> I (ws_step start s e)" for s e
  proof (cases e)
    case (WEnds w i a)
    assume i: "I s"
    have "ws_refreshing s ! i = ThenNothing" if "i < length (ws_refreshing s)"
      using i nth_mem [OF that] by (cases "ws_refreshing s ! i") (auto simp: I_def)
    then show ?thesis using WEnds i
      by (cases a) (auto simp: I_def refresh_ends_def Let_def dest: in_set_takeD in_set_dropD)
  qed (auto simp: I_def ws_initialize_def ws_cleanup_def cache_read_def refreshWidgetData_def interval_fires_def
        handleAppStateChange_def stopPeriodicUpdates_def Let_def)
  then have "I s \<Longrightarrow> WActive \<notin> set es \<Longrightarrow> I (run (ws_step start) es s)" for s
    by (induction es arbitrary: s) auto
  then show ?thesis using assms by (simp add: I_def ws_start_def)
qed

text \<open>The cache is what was last counted and written, so the first display after a restart of the app is
  that, however long ago it was.\<close>

lemma restart_shows_cached:
  "ws_shown (run (ws_step start) [WInit, WRead] (ws_start (Some d))) = Some d"
  by (simp add: ws_start_def ws_initialize_def cache_read_def getCachedData_def refreshWidgetData_def)

end
