(* ===== verification/BulkEditDialog.thy ===== *)
theory BulkEditDialog
  imports BulkEdit
begin

text \<open>
  The bulk edit dialog, \<open>frontend/src/components/ui/bulk-edit-dialog.tsx\<close>, over the selection of
  BulkEdit.thy; the types are those of \<open>frontend/src/types/bulk-edit.ts\<close>.  The selected records are
  their ids; whether the dialog is open is the parent's, whose change runs the resetting effect.  The
  transform of a field and the payload builder are functions of the configuration.
\<close>

section \<open>Fields and values\<close>

datatype field_type = FText | FNumber | FSelect | FDate | FBoolean | FUser | FMulti

record edit_field =
  ef_key :: string
  ef_label :: string
  ef_type :: field_type
  ef_options :: "(string \<times> string) list"
  clearable :: bool

record edit_config =
  ec_fields :: "edit_field list"
  enableDelete :: bool
  transform :: "string \<Rightarrow> jsv \<Rightarrow> jsv"
  buildPayload :: "(string list \<Rightarrow> string \<Rightarrow> jsv \<Rightarrow> bool \<Rightarrow> jsv) option"
  maxPreviewRows :: nat

text \<open>What the inputs store: the text of a text or date field, a number unless the field is empty or the
  number is 0 (\<open>valueAsNumber || null\<close>), a boolean, the chosen option, or a list of options.\<close>

datatype field_input =
    TypeText string
  | TypeNumber "int option"
  | SetChecked bool
  | Choose string
  | AddOption string
  | RemoveOption string

fun multi_values :: "jsv \<Rightarrow> jsv list" where
  "multi_values (JArr xs) = xs"
| "multi_values _ = []"

definition input_value :: "field_type \<Rightarrow> field_input \<Rightarrow> jsv \<Rightarrow> jsv" where
  "input_value t i v =
     (case (t, i) of
        (FText, TypeText s) \<Rightarrow> JStr s
      | (FDate, TypeText s) \<Rightarrow> JStr s
      | (FNumber, TypeNumber n) \<Rightarrow> (case n of None \<Rightarrow> JNull | Some k \<Rightarrow> if k = 0 then JNull else JNum k)
      | (FBoolean, SetChecked b) \<Rightarrow> JBool b
      | (FSelect, Choose s) \<Rightarrow> JStr s
      | (FUser, Choose s) \<Rightarrow> JStr s
      | (FMulti, AddOption s) \<Rightarrow> if JStr s \<in> set (multi_values v) then v else JArr (multi_values v @ [JStr s])
      | (FMulti, RemoveOption s) \<Rightarrow> JArr (filter (\<lambda>x. x \<noteq> JStr s) (multi_values v))
      | _ \<Rightarrow> v)"

section \<open>The dialog\<close>

datatype edit_step = SelectStep | PreviewStep

text \<open>The payload: of a deletion, the one the configuration's own builder makes, or the standard one.\<close>

datatype payload =
    DeletePayload "string list"
  | BuiltPayload jsv
  | UpdatePayload "string list" string jsv bool

record bulk_dialog =
  bd_open :: bool
  bd_step :: edit_step
  selectedField :: "edit_field option"
  newValue :: jsv
  clearValue :: bool
  isDelete :: bool
  isSubmitting :: bool
  showDeleteConfirm :: bool
  bd_ids :: "string list"
  bd_sent :: "payload list"
  bd_pending :: nat

definition reset_dialog :: "bulk_dialog \<Rightarrow> bulk_dialog" where
  "reset_dialog s = s\<lparr> bd_step := SelectStep, selectedField := None, newValue := JNull, clearValue := False,
     isDelete := False, isSubmitting := False, showDeleteConfirm := False \<rparr>"

definition bulk_dialog_start :: "string list \<Rightarrow> bulk_dialog" where
  "bulk_dialog_start ids = \<lparr> bd_open = False, bd_step = SelectStep, selectedField = None, newValue = JNull,
     clearValue = False, isDelete = False, isSubmitting = False, showDeleteConfirm = False, bd_ids = ids,
     bd_sent = [], bd_pending = 0 \<rparr>"

definition set_open :: "bool \<Rightarrow> bulk_dialog \<Rightarrow> bulk_dialog" where
  "set_open b s =
     (let t = s\<lparr> bd_open := b \<rparr> in if b \<noteq> bd_open s \<and> \<not> b then reset_dialog t else t)"

definition handleFieldChange :: "edit_config \<Rightarrow> string \<Rightarrow> bulk_dialog \<Rightarrow> bulk_dialog" where
  "handleFieldChange c key s = s\<lparr> selectedField := find (\<lambda>f. ef_key f = key) (ec_fields c), newValue := JNull,
     clearValue := False, isDelete := False \<rparr>"

definition handleDeleteClick :: "bulk_dialog \<Rightarrow> bulk_dialog" where
  "handleDeleteClick s = s\<lparr> isDelete := True, selectedField := None, showDeleteConfirm := True \<rparr>"

definition confirm_delete :: "bulk_dialog \<Rightarrow> bulk_dialog" where
  "confirm_delete s = s\<lparr> showDeleteConfirm := False, bd_step := PreviewStep \<rparr>"

definition cancel_delete :: "bulk_dialog \<Rightarrow> bulk_dialog" where
  "cancel_delete s = s\<lparr> showDeleteConfirm := False \<rparr>"

definition canContinue :: "bulk_dialog \<Rightarrow> bool" where
  "canContinue s \<longleftrightarrow> isDelete s \<or> (selectedField s \<noteq> None \<and> (clearValue s \<or> newValue s \<noteq> JNull))"

definition handleContinue :: "bulk_dialog \<Rightarrow> bulk_dialog" where
  "handleContinue s = (if isDelete s \<or> selectedField s \<noteq> None then s\<lparr> bd_step := PreviewStep \<rparr> else s)"

definition set_clear :: "bool \<Rightarrow> bulk_dialog \<Rightarrow> bulk_dialog" where
  "set_clear b s = (let s = s\<lparr> clearValue := b \<rparr> in if b then s\<lparr> newValue := JNull \<rparr> else s)"

text \<open>\<open>handleApply\<close> up to its await.  Without a chosen field it would throw; the preview is never reached
  that way.\<close>

definition payload_of :: "edit_config \<Rightarrow> bulk_dialog \<Rightarrow> payload option" where
  "payload_of c s =
     (if isDelete s then Some (DeletePayload (bd_ids s))
      else map_option (\<lambda>f.
          (case buildPayload c of
             Some build \<Rightarrow> BuiltPayload (build (bd_ids s) (ef_key f) (newValue s) (clearValue s))
           | None \<Rightarrow> UpdatePayload (bd_ids s) (ef_key f) (transform c (ef_key f) (newValue s)) (clearValue s)))
        (selectedField s))"

definition handleApply :: "edit_config \<Rightarrow> bulk_dialog \<Rightarrow> bulk_dialog" where
  "handleApply c s =
     (case payload_of c s of
        None \<Rightarrow> s
      | Some p \<Rightarrow> s\<lparr> isSubmitting := True, bd_sent := bd_sent s @ [p], bd_pending := Suc (bd_pending s) \<rparr>)"

text \<open>Its end: on success the parent is asked to close the dialog, in both cases the flag is cleared.\<close>

definition apply_ends :: "bool \<Rightarrow> bulk_dialog \<Rightarrow> bulk_dialog" where
  "apply_ends ok s =
     (if bd_pending s = 0 then s
      else (let s = s\<lparr> bd_pending := bd_pending s - 1 \<rparr>
            in (if ok then set_open False s else s)\<lparr> isSubmitting := False \<rparr>))"

datatype dialog_event =
    Open | CloseDialog | FieldChosen string | Input field_input | ClearBox bool | DeletePressed
  | DeleteConfirmed | DeleteCancelled | ContinuePressed | BackPressed | ApplyPressed | Answered bool
  | SelectionIs "string list"

text \<open>What can be pressed: the buttons of the step shown, outside the confirmation when it is open.\<close>

definition at_select :: "bulk_dialog \<Rightarrow> bool" where
  "at_select s \<longleftrightarrow> bd_open s \<and> bd_step s = SelectStep \<and> \<not> showDeleteConfirm s"

definition at_preview :: "bulk_dialog \<Rightarrow> bool" where
  "at_preview s \<longleftrightarrow> bd_open s \<and> bd_step s = PreviewStep \<and> \<not> showDeleteConfirm s"

text \<open>The inputs are disabled while the field is to be cleared, the badges of a multiple choice are not;
  a choice offers its options (a multiple one those not chosen yet), a badge stands for a value.\<close>

definition can_input :: "edit_field \<Rightarrow> bulk_dialog \<Rightarrow> field_input \<Rightarrow> bool" where
  "can_input f s i \<longleftrightarrow>
     (case i of
        RemoveOption x \<Rightarrow> JStr x \<in> set (multi_values (newValue s))
      | Choose x \<Rightarrow> \<not> clearValue s \<and> x \<in> fst ` set (ef_options f)
      | AddOption x \<Rightarrow> \<not> clearValue s \<and> x \<in> fst ` set (ef_options f) \<and> JStr x \<notin> set (multi_values (newValue s))
      | _ \<Rightarrow> \<not> clearValue s)"

fun dialog_step :: "edit_config \<Rightarrow> bulk_dialog \<Rightarrow> dialog_event \<Rightarrow> bulk_dialog" where
  "dialog_step c s Open = set_open True s"
| "dialog_step c s CloseDialog = set_open False s"
| "dialog_step c s (FieldChosen k) = (if at_select s then handleFieldChange c k s else s)"
| "dialog_step c s (Input i) =
     (case selectedField s of
        Some f \<Rightarrow> if at_select s \<and> can_input f s i
                  then s\<lparr> newValue := input_value (ef_type f) i (newValue s) \<rparr> else s
      | None \<Rightarrow> s)"
| "dialog_step c s (ClearBox b) =
     (case selectedField s of
        Some f \<Rightarrow> if at_select s \<and> clearable f \<and> ef_type f \<noteq> FBoolean then set_clear b s else s
      | None \<Rightarrow> s)"
| "dialog_step c s DeletePressed = (if at_select s \<and> enableDelete c then handleDeleteClick s else s)"
| "dialog_step c s DeleteConfirmed = (if bd_open s \<and> showDeleteConfirm s then confirm_delete s else s)"
| "dialog_step c s DeleteCancelled = (if bd_open s \<and> showDeleteConfirm s then cancel_delete s else s)"
| "dialog_step c s ContinuePressed = (if at_select s \<and> canContinue s then handleContinue s else s)"
| "dialog_step c s BackPressed = (if at_preview s \<and> \<not> isSubmitting s then s\<lparr> bd_step := SelectStep \<rparr> else s)"
| "dialog_step c s ApplyPressed = (if at_preview s \<and> \<not> isSubmitting s then handleApply c s else s)"
| "dialog_step c s (Answered ok) = apply_ends ok s"
| "dialog_step c s (SelectionIs ids) = s\<lparr> bd_ids := ids \<rparr>"

section \<open>What is sent\<close>

text \<open>A value the inputs of a field can make: nothing yet, a text, a number other than 0, a boolean, an
  option, or distinct options.\<close>

definition value_fits :: "edit_field \<Rightarrow> jsv \<Rightarrow> bool" where
  "value_fits f v \<longleftrightarrow>
     v = JNull \<or>
     (case ef_type f of
        FNumber \<Rightarrow> (case v of JNum k \<Rightarrow> k \<noteq> 0 | _ \<Rightarrow> False)
      | FBoolean \<Rightarrow> (case v of JBool b \<Rightarrow> True | _ \<Rightarrow> False)
      | FSelect \<Rightarrow> v \<in> JStr ` fst ` set (ef_options f)
      | FUser \<Rightarrow> v \<in> JStr ` fst ` set (ef_options f)
      | FMulti \<Rightarrow> (case v of JArr xs \<Rightarrow> distinct xs \<and> set xs \<subseteq> JStr ` fst ` set (ef_options f) | _ \<Rightarrow> False)
      | _ \<Rightarrow> (case v of JStr t \<Rightarrow> True | _ \<Rightarrow> False))"

lemma input_fits: "value_fits f (newValue s) \<Longrightarrow> can_input f s i \<Longrightarrow> value_fits f (input_value (ef_type f) i (newValue s))"
  by (cases i; cases "ef_type f"; cases "newValue s")
    (auto simp: value_fits_def can_input_def input_value_def split: option.split)

text \<open>A payload as it was meant when it was sent: for the records selected at that moment, a deletion
  where deletion is offered and was asked for, or a field of the configuration, with a value its
  inputs can make, or cleared where the field allows it.\<close>

definition meant :: "edit_config \<Rightarrow> bulk_dialog \<Rightarrow> payload \<Rightarrow> bool" where
  "meant c s p \<longleftrightarrow>
     (case p of
        DeletePayload ids \<Rightarrow> enableDelete c \<and> isDelete s \<and> ids = bd_ids s
      | _ \<Rightarrow>
          (case selectedField s of
             None \<Rightarrow> False
           | Some f \<Rightarrow>
               f \<in> set (ec_fields c) \<and> \<not> isDelete s
               \<and> (if clearValue s then clearable f \<and> newValue s = JNull
                  else newValue s \<noteq> JNull \<and> value_fits f (newValue s))
               \<and> p = (case buildPayload c of
                    Some build \<Rightarrow> BuiltPayload (build (bd_ids s) (ef_key f) (newValue s) (clearValue s))
                  | None \<Rightarrow> UpdatePayload (bd_ids s) (ef_key f) (transform c (ef_key f) (newValue s)) (clearValue s))))"

definition dialog_ok :: "edit_config \<Rightarrow> bulk_dialog \<Rightarrow> bool" where
  "dialog_ok c s \<longleftrightarrow>
     (isDelete s \<longrightarrow> enableDelete c) \<and> (showDeleteConfirm s \<longrightarrow> isDelete s)
     \<and> (case selectedField s of
          None \<Rightarrow> True
        | Some f \<Rightarrow> f \<in> set (ec_fields c) \<and> \<not> isDelete s \<and> (clearValue s \<longrightarrow> clearable f \<and> newValue s = JNull)
            \<and> value_fits f (newValue s))
     \<and> (bd_step s = PreviewStep \<longrightarrow> canContinue s)"

lemma find_member: "find P xs = Some x \<Longrightarrow> x \<in> set xs"
  by (auto simp: find_Some_iff)

lemma payload_meant:
  assumes "dialog_ok c s" "bd_step s = PreviewStep" "payload_of c s = Some p"
  shows "meant c s p"
proof (cases "isDelete s")
  case True
  then show ?thesis using assms by (auto simp: dialog_ok_def payload_of_def meant_def)
next
  case False
  then obtain f where f: "selectedField s = Some f" using assms(3) by (auto simp: payload_of_def)
  have "canContinue s" using assms(1,2) by (simp add: dialog_ok_def)
  then show ?thesis using assms f False
    by (auto simp: payload_of_def meant_def dialog_ok_def canContinue_def split: option.splits)
qed

lemma reset_ok: "dialog_ok c s \<Longrightarrow> dialog_ok c (reset_dialog s)"
  by (simp add: dialog_ok_def reset_dialog_def)

lemma dialog_ok_frame [simp]:
  "dialog_ok c (s\<lparr> bd_open := b \<rparr>) = dialog_ok c s" "dialog_ok c (s\<lparr> bd_pending := n \<rparr>) = dialog_ok c s"
  "dialog_ok c (s\<lparr> isSubmitting := b \<rparr>) = dialog_ok c s" "dialog_ok c (s\<lparr> bd_ids := ids \<rparr>) = dialog_ok c s"
  "dialog_ok c (s\<lparr> bd_sent := ps \<rparr>) = dialog_ok c s"
  by (cases "selectedField s"; simp add: dialog_ok_def canContinue_def)+

lemma set_open_ok: "dialog_ok c s \<Longrightarrow> dialog_ok c (set_open b s)"
  using reset_ok [of c "s\<lparr> bd_open := b \<rparr>"] by (auto simp: set_open_def Let_def)

lemma handleApply_ok: "dialog_ok c s \<Longrightarrow> dialog_ok c (handleApply c s)"
  by (cases "payload_of c s") (simp_all add: handleApply_def)

lemma dialog_ok_step: "dialog_ok c s \<Longrightarrow> dialog_ok c (dialog_step c s e)"
proof (cases e)
  case (FieldChosen k)
  assume "dialog_ok c s"
  then show ?thesis using FieldChosen find_member
    by (auto simp: dialog_ok_def handleFieldChange_def at_select_def value_fits_def split: option.split)
next
  case (Input i)
  assume "dialog_ok c s"
  then show ?thesis using Input input_fits
    by (cases "selectedField s") (auto simp: dialog_ok_def at_select_def can_input_def split: field_input.splits)
next
  case (ClearBox b)
  assume "dialog_ok c s"
  then show ?thesis using ClearBox
    by (cases "selectedField s") (auto simp: dialog_ok_def at_select_def canContinue_def set_clear_def Let_def value_fits_def)
next
  case DeletePressed
  assume "dialog_ok c s"
  then show ?thesis using DeletePressed
    by (auto simp: dialog_ok_def handleDeleteClick_def at_select_def canContinue_def)
qed (auto simp: set_open_ok handleApply_ok apply_ends_def Let_def,
  auto simp: dialog_ok_def canContinue_def confirm_delete_def cancel_delete_def handleContinue_def split: option.splits)

interpretation bulk_editing: machine "dialog_step c" "dialog_ok c"
  by unfold_locales (rule dialog_ok_step)

lemma reset_sent [simp]: "bd_sent (reset_dialog s) = bd_sent s" "bd_sent (set_open b s) = bd_sent s"
  by (simp_all add: reset_dialog_def set_open_def Let_def)

lemma step_meant:
  assumes "dialog_ok c s"
  shows "\<exists>new. bd_sent (dialog_step c s e) = bd_sent s @ new \<and> length new \<le> (if e = ApplyPressed then 1 else 0)
    \<and> list_all (meant c s) new"
proof (cases e)
  case ApplyPressed
  show ?thesis
  proof (cases "at_preview s \<and> \<not> isSubmitting s")
    case True
    then show ?thesis using ApplyPressed payload_meant [OF assms]
      by (cases "payload_of c s") (auto simp: handleApply_def at_preview_def)
  qed (use ApplyPressed in auto)
qed (simp_all add: handleFieldChange_def set_clear_def handleDeleteClick_def confirm_delete_def cancel_delete_def
      handleContinue_def apply_ends_def Let_def split: option.split)

text \<open>C25.  In every run of the dialog only the Apply button sends, at most one request a press, and the
  request is what was meant: for the records selected at that moment, a deletion that was asked for
  where deletion is enabled, or a field of the configuration with a value its inputs can make, or
  its clearing where the field allows that; the payload is the standard one or the one the
  configuration's builder makes of these.\<close>

theorem bulk_requests_meant:
  "let s = run (dialog_step c) es (bulk_dialog_start ids) in
     \<exists>new. bd_sent (dialog_step c s e) = bd_sent s @ new \<and> length new \<le> (if e = ApplyPressed then 1 else 0)
       \<and> list_all (meant c s) new"
proof -
  have "dialog_ok c (bulk_dialog_start ids)" by (simp add: dialog_ok_def bulk_dialog_start_def)
  from step_meant [OF bulk_editing.every_run_inv [OF this]] show ?thesis by (simp add: Let_def)
qed

text \<open>A cancelled deletion stays armed: Continue and Apply delete the records.\<close>

lemma cancelled_delete_still_armed:
  assumes "at_select s" "enableDelete c" "\<not> isSubmitting s"
  shows "bd_sent (run (dialog_step c) [DeletePressed, DeleteCancelled, ContinuePressed, ApplyPressed] s)
    = bd_sent s @ [DeletePayload (bd_ids s)]"
  using assms by (simp add: at_select_def at_preview_def handleDeleteClick_def cancel_delete_def canContinue_def
      handleContinue_def handleApply_def payload_of_def)

text \<open>No number field can be set to 0, and an unchecked box not to No without checking it first.\<close>

lemma zero_cannot_be_set:
  assumes "selectedField s = Some f" "ef_type f = FNumber" "\<not> isDelete s" "\<not> clearValue s" "at_select s"
  shows "\<not> canContinue (dialog_step c s (Input (TypeNumber (Some 0))))"
  using assms by (simp add: canContinue_def input_value_def can_input_def)

lemma unchecked_cannot_continue:
  assumes "at_select s" "find (\<lambda>f. ef_key f = k) (ec_fields c) = Some f" "ef_type f = FBoolean"
  shows "\<not> canContinue (dialog_step c s (FieldChosen k))"
    and "canContinue (run (dialog_step c) [FieldChosen k, Input (SetChecked True), Input (SetChecked False)] s)"
  using assms by (simp_all add: canContinue_def handleFieldChange_def input_value_def at_select_def can_input_def)

text \<open>The dialog can be closed while a request is under way; its answer closes the dialog opened next.\<close>

lemma late_answer_closes_next_dialog:
  assumes "bd_pending s = 1"
  shows "\<not> bd_open (run (dialog_step c) [CloseDialog, Open, Answered True] s)"
  using assms by (simp add: set_open_def reset_dialog_def apply_ends_def Let_def)

text \<open>The options of a multiple choice never repeat.\<close>

lemma multi_distinct:
  assumes "distinct (multi_values v)"
  shows "distinct (multi_values (input_value FMulti i v))"
  using assms by (cases i) (simp_all add: input_value_def)

section \<open>Preview and toolbar\<close>

definition option_label :: "edit_field option \<Rightarrow> (jsv \<Rightarrow> string) \<Rightarrow> jsv \<Rightarrow> string" where
  "option_label f show_value v =
     (case v of
        JStr s \<Rightarrow> (case f of None \<Rightarrow> s | Some g \<Rightarrow> (case map_of (ef_options g) s of None \<Rightarrow> s | Some l \<Rightarrow> l))
      | _ \<Rightarrow> show_value v)"

definition formatValue :: "(jsv \<Rightarrow> string) \<Rightarrow> jsv \<Rightarrow> edit_field option \<Rightarrow> string" where
  "formatValue show_value v f =
     (if v = JNull \<or> v = JUndef \<or> v = JStr [] then ''(empty)''
      else case v of
        JArr xs \<Rightarrow> join_with '', '' (map (option_label f show_value) xs)
      | _ \<Rightarrow> (case f of
            None \<Rightarrow> show_value v
          | Some g \<Rightarrow>
              if ef_type g = FSelect \<or> ef_type g = FUser then option_label f show_value v
              else if ef_type g = FBoolean then (if truthy v then ''Yes'' else ''No'')
              else show_value v))"

definition preview_rows :: "edit_config \<Rightarrow> bulk_dialog \<Rightarrow> string list \<times> int" where
  "preview_rows c s = (take (maxPreviewRows c) (bd_ids s), int (length (bd_ids s)) - int (maxPreviewRows c))"

definition remaining_shown :: "edit_config \<Rightarrow> bulk_dialog \<Rightarrow> int" where
  "remaining_shown c s = (if snd (preview_rows c s) > 0 then snd (preview_rows c s) else 0)"

text \<open>The rows listed and the number that follows them account for every record.\<close>

lemma preview_accounts_for_all:
  "int (length (fst (preview_rows c s))) + remaining_shown c s = int (length (bd_ids s))"
  by (auto simp: preview_rows_def remaining_shown_def)

definition select_all_offered :: "bool \<Rightarrow> bool \<Rightarrow> nat \<Rightarrow> nat \<Rightarrow> bool" where
  "select_all_offered has_handler all_selected selected_count total_count \<longleftrightarrow>
     selected_count \<noteq> 0 \<and> has_handler \<and> \<not> all_selected \<and> selected_count < total_count"

end
