(* ===== verification/Decisions.thy ===== *)
theory Decisions
  imports Machines Storage
begin

text \<open>
  Decision requests, from the form that creates one to the history that shows the answer:
  \<open>frontend/src/components/decisions/new-decision-dialog.tsx\<close>, \<open>decision-response-dialog.tsx\<close> and
  \<open>decision-request-card.tsx\<close>, the portal's page of decisions, \<open>portal/decision-history-list.tsx\<close>,
  and the response screen of the mobile app, \<open>mobile/app/(client)/decisions/[id].tsx\<close>.
\<close>

section \<open>Creating a request\<close>

datatype response_type = Choice | MultiChoice | YesNo | FreeText

record option_draft =
  od_id :: string
  od_label :: string
  od_description :: string

record new_decision =
  nd_client :: string
  nd_title :: string
  nd_prompt :: string
  nd_type :: response_type
  nd_deadline :: string
  nd_time :: string
  nd_consequence :: string
  nd_options :: "option_draft list"

definition generateOptionId :: "nat \<Rightarrow> string" where
  "generateOptionId i = ''option_'' @ int_text (int i + 1)"

definition empty_option :: "nat \<Rightarrow> option_draft" where
  "empty_option i = \<lparr> od_id = generateOptionId i, od_label = [], od_description = [] \<rparr>"

text \<open>The initial state, also what \<open>resetForm\<close> restores.\<close>

definition new_decision_start :: new_decision where
  "new_decision_start = \<lparr> nd_client = [], nd_title = [], nd_prompt = [], nd_type = Choice, nd_deadline = [],
     nd_time = [], nd_consequence = [], nd_options = [empty_option 0, empty_option 1] \<rparr>"

definition needsOptions :: "response_type \<Rightarrow> bool" where
  "needsOptions t \<longleftrightarrow> t = Choice \<or> t = MultiChoice"

definition handleAddOption :: "new_decision \<Rightarrow> new_decision" where
  "handleAddOption s = s\<lparr> nd_options := nd_options s @ [empty_option (length (nd_options s))] \<rparr>"

definition handleRemoveOption :: "nat \<Rightarrow> new_decision \<Rightarrow> new_decision" where
  "handleRemoveOption i s = s\<lparr> nd_options := take i (nd_options s) @ drop (Suc i) (nd_options s) \<rparr>"

definition handleOptionChange :: "nat \<Rightarrow> (option_draft \<Rightarrow> option_draft) \<Rightarrow> new_decision \<Rightarrow> new_decision" where
  "handleOptionChange i change s =
     (if i < length (nd_options s) then s\<lparr> nd_options := (nd_options s)[i := change (nd_options s ! i)] \<rparr> else s)"

definition handleResponseTypeChange :: "response_type \<Rightarrow> new_decision \<Rightarrow> new_decision" where
  "handleResponseTypeChange t s =
     (let s' = s\<lparr> nd_type := t \<rparr>
      in if needsOptions t \<and> nd_options s = [] then s'\<lparr> nd_options := [empty_option 0, empty_option 1] \<rparr> else s')"

definition decision_valid :: "new_decision \<Rightarrow> bool" where
  "decision_valid s \<longleftrightarrow> nd_client s \<noteq> [] \<and> trim (nd_title s) \<noteq> [] \<and> trim (nd_prompt s) \<noteq> []
     \<and> (needsOptions (nd_type s) \<longrightarrow> 2 \<le> length (nd_options s) \<and> list_all (\<lambda>q. trim (od_label q) \<noteq> []) (nd_options s))"

record sent_decision =
  sd_client :: string
  sd_title :: string
  sd_prompt :: string
  sd_type :: response_type
  sd_options :: "option_draft list option"
  sd_deadline :: "string option"
  sd_time :: "string option"
  sd_consequence :: "string option"

definition nonempty :: "string \<Rightarrow> string option" where
  "nonempty s = (if s = [] then None else Some s)"

definition decision_data :: "new_decision \<Rightarrow> sent_decision" where
  "decision_data s = \<lparr> sd_client = nd_client s, sd_title = trim (nd_title s), sd_prompt = trim (nd_prompt s),
     sd_type = nd_type s,
     sd_options = (if needsOptions (nd_type s)
                   then Some (map (\<lambda>q. \<lparr> od_id = od_id q, od_label = trim (od_label q),
                                       od_description = trim (od_description q) \<rparr>) (nd_options s))
                   else None),
     sd_deadline = nonempty (nd_deadline s), sd_time = nonempty (nd_time s),
     sd_consequence = nonempty (trim (nd_consequence s)) \<rparr>"

definition handleCreate :: "new_decision \<Rightarrow> sent_decision option" where
  "handleCreate s = (if decision_valid s then Some (decision_data s) else None)"

datatype create_event =
    EditField "new_decision \<Rightarrow> new_decision"
  | AddOpt
  | RemoveOpt nat
  | LabelOpt nat string
  | DescribeOpt nat string
  | ChooseType response_type
  | ResetForm

text \<open>The fields that are plain text are edited by any update that leaves the options and the type; the
  button that removes an option is there when more than two are.\<close>

fun create_step :: "new_decision \<Rightarrow> create_event \<Rightarrow> new_decision" where
  "create_step s (EditField f) = (f s)\<lparr> nd_options := nd_options s, nd_type := nd_type s \<rparr>"
| "create_step s AddOpt = (if needsOptions (nd_type s) then handleAddOption s else s)"
| "create_step s (RemoveOpt i) =
     (if needsOptions (nd_type s) \<and> length (nd_options s) > 2 then handleRemoveOption i s else s)"
| "create_step s (LabelOpt i v) = handleOptionChange i (\<lambda>q. q\<lparr> od_label := v \<rparr>) s"
| "create_step s (DescribeOpt i v) = handleOptionChange i (\<lambda>q. q\<lparr> od_description := v \<rparr>) s"
| "create_step s (ChooseType t) = handleResponseTypeChange t s"
| "create_step s ResetForm = new_decision_start"

text \<open>Every run keeps at least two options; nothing else makes the form valid with fewer.\<close>

definition two_options :: "new_decision \<Rightarrow> bool" where
  "two_options s \<longleftrightarrow> 2 \<le> length (nd_options s)"

lemma two_options_step: "two_options s \<Longrightarrow> two_options (create_step s e)"
  by (cases e) (auto simp: two_options_def handleAddOption_def handleRemoveOption_def handleOptionChange_def
      handleResponseTypeChange_def Let_def new_decision_start_def)

interpretation creating: machine create_step two_options
  by unfold_locales (rule two_options_step)

section \<open>The identifiers of the options\<close>

lemma int_text_inj: "int_text i = int_text j \<longleftrightarrow> i = j"
  using parse_int_text by (metis option.inject)

lemma option_id_inj: "generateOptionId i = generateOptionId j \<longleftrightarrow> i = j"
  by (simp add: generateOptionId_def int_text_inj)

definition ids_numbered :: "new_decision \<Rightarrow> bool" where
  "ids_numbered s \<longleftrightarrow> map od_id (nd_options s) = map generateOptionId [0..<length (nd_options s)]"

text \<open>A step that removes nothing but the last option keeps the identifiers the numbers of the places.\<close>

definition removes_last :: "create_event \<Rightarrow> new_decision \<Rightarrow> bool" where
  "removes_last e s \<longleftrightarrow> (case e of RemoveOpt i \<Rightarrow> Suc i \<ge> length (nd_options s) | _ \<Rightarrow> True)"

fun last_removed_run :: "create_event list \<Rightarrow> new_decision \<Rightarrow> bool" where
  "last_removed_run [] s \<longleftrightarrow> True"
| "last_removed_run (e # es) s \<longleftrightarrow> removes_last e s \<and> last_removed_run es (create_step s e)"

lemma change_keeps_ids:
  "(\<And>q. od_id (f q) = od_id q) \<Longrightarrow> map od_id (nd_options (handleOptionChange i f s)) = map od_id (nd_options s)"
  by (simp add: handleOptionChange_def map_update list_update_same_conv)

lemma numbered_start: "ids_numbered new_decision_start"
  by (simp add: ids_numbered_def new_decision_start_def empty_option_def)

lemma numbered_step: "ids_numbered s \<Longrightarrow> removes_last e s \<Longrightarrow> ids_numbered (create_step s e)"
proof (cases e)
  case (RemoveOpt i)
  assume n: "ids_numbered s" and l: "removes_last e s"
  have "take i (nd_options s) @ drop (Suc i) (nd_options s) = take i (nd_options s)"
    using l RemoveOpt by (simp add: removes_last_def)
  moreover have "take i [0..<k] = [0..<min i k]" for k by (cases "i \<le> k") (simp_all add: take_upt)
  ultimately show ?thesis using n RemoveOpt
    by (auto simp: ids_numbered_def handleRemoveOption_def take_map [symmetric] take_map min_def)
next
  case (LabelOpt i v)
  assume n: "ids_numbered s"
  have "length (nd_options (handleOptionChange i f s)) = length (nd_options s)" for f
    by (simp add: handleOptionChange_def)
  then show ?thesis using n LabelOpt change_keeps_ids [of "\<lambda>q. q\<lparr> od_label := v \<rparr>" i s]
    by (simp add: ids_numbered_def)
next
  case (DescribeOpt i v)
  assume n: "ids_numbered s"
  have "length (nd_options (handleOptionChange i f s)) = length (nd_options s)" for f
    by (simp add: handleOptionChange_def)
  then show ?thesis using n DescribeOpt change_keeps_ids [of "\<lambda>q. q\<lparr> od_description := v \<rparr>" i s]
    by (simp add: ids_numbered_def)
next
  case (EditField f)
  assume "ids_numbered s"
  then show ?thesis using EditField by (simp add: ids_numbered_def)
next
  case AddOpt
  assume "ids_numbered s"
  then show ?thesis using AddOpt by (simp add: ids_numbered_def handleAddOption_def empty_option_def)
next
  case (ChooseType t)
  assume n: "ids_numbered s"
  have "ids_numbered (s\<lparr> nd_type := t, nd_options := [empty_option 0, empty_option 1] \<rparr>)"
    by (simp add: ids_numbered_def empty_option_def)
  then show ?thesis using n ChooseType by (simp add: handleResponseTypeChange_def Let_def ids_numbered_def)
next
  case ResetForm
  then show ?thesis using numbered_start by simp
qed

lemma numbered_distinct: "ids_numbered s \<Longrightarrow> distinct (map od_id (nd_options s))"
  unfolding ids_numbered_def by (simp only: distinct_map distinct_upt inj_on_def option_id_inj) blast

lemma numbered_run: "ids_numbered s \<Longrightarrow> last_removed_run es s \<Longrightarrow> ids_numbered (run create_step es s)"
proof (induction es arbitrary: s)
  case (Cons e es)
  then show ?case using numbered_step by simp
qed simp

text \<open>The new option takes its number from the length of the list: after an option in the middle was
  removed, the next one gets the identifier of the last.\<close>

lemma removed_then_added_repeats:
  assumes "ids_numbered s" "needsOptions (nd_type s)" "length (nd_options s) = 3"
  shows "od_id (nd_options (run create_step [RemoveOpt 0, AddOpt] s) ! 1)
    = od_id (nd_options (run create_step [RemoveOpt 0, AddOpt] s) ! 2)"
proof -
  obtain a b c where o: "nd_options s = [a, b, c]" using assms(3)
    by (metis (no_types, lifting) length_0_conv length_Suc_conv numeral_3_eq_3)
  then have "od_id c = generateOptionId 2"
    using assms(1) by (simp add: ids_numbered_def upt_rec eval_nat_numeral)
  then show ?thesis using assms(2) o
    by (simp add: handleRemoveOption_def handleAddOption_def empty_option_def eval_nat_numeral)
qed

section \<open>Answering\<close>

record response_draft =
  rs_option :: string
  rs_options :: "string list"
  rs_text :: string

record response_data =
  rd_option :: "string option"
  rd_text :: "string option"

definition options_text :: "string list \<Rightarrow> string" where
  "options_text ids = stringify (JArr (map JStr ids))"

text \<open>The dialog of the browser application.\<close>

definition web_canSubmit :: "response_type \<Rightarrow> response_draft \<Rightarrow> bool" where
  "web_canSubmit t r = (case t of Choice \<Rightarrow> rs_option r \<noteq> [] | MultiChoice \<Rightarrow> rs_options r \<noteq> []
     | FreeText \<Rightarrow> rs_text r \<noteq> [] | YesNo \<Rightarrow> rs_text r \<noteq> [])"

definition web_data :: "response_type \<Rightarrow> response_draft \<Rightarrow> response_data" where
  "web_data t r =
     (case t of
        Choice \<Rightarrow> \<lparr> rd_option = nonempty (rs_option r), rd_text = None \<rparr>
      | MultiChoice \<Rightarrow> \<lparr> rd_option = None, rd_text = Some (options_text (rs_options r)) \<rparr>
      | _ \<Rightarrow> \<lparr> rd_option = None, rd_text = Some (rs_text r) \<rparr>)"

definition web_toggle :: "string \<Rightarrow> bool \<Rightarrow> response_draft \<Rightarrow> response_draft" where
  "web_toggle i checked r = r\<lparr> rs_options := (if checked then rs_options r @ [i] else filter (\<lambda>x. x \<noteq> i) (rs_options r)) \<rparr>"

text \<open>The screen of the mobile application.\<close>

definition mobile_canSubmit :: "response_type \<Rightarrow> response_draft \<Rightarrow> bool" where
  "mobile_canSubmit t r = (case t of YesNo \<Rightarrow> rs_option r = ''yes'' \<or> rs_option r = ''no'' | Choice \<Rightarrow> rs_option r \<noteq> []
     | MultiChoice \<Rightarrow> rs_options r \<noteq> [] | FreeText \<Rightarrow> trim (rs_text r) \<noteq> [])"

definition mobile_data :: "response_type \<Rightarrow> response_draft \<Rightarrow> response_data" where
  "mobile_data t r =
     (case t of
        YesNo \<Rightarrow> \<lparr> rd_option = None, rd_text = Some (rs_option r) \<rparr>
      | Choice \<Rightarrow> \<lparr> rd_option = Some (rs_option r), rd_text = None \<rparr>
      | MultiChoice \<Rightarrow> \<lparr> rd_option = None, rd_text = Some (options_text (rs_options r)) \<rparr>
      | FreeText \<Rightarrow> \<lparr> rd_option = None, rd_text = Some (trim (rs_text r)) \<rparr>)"

definition toggleMultiOption :: "string \<Rightarrow> response_draft \<Rightarrow> response_draft" where
  "toggleMultiOption i r =
     r\<lparr> rs_options := (if i \<in> set (rs_options r) then filter (\<lambda>x. x \<noteq> i) (rs_options r) else rs_options r @ [i]) \<rparr>"

text \<open>A box is checked exactly when its option is in the list, so the two toggles are the same.\<close>

lemma toggles_agree: "toggleMultiOption i r = web_toggle i (i \<notin> set (rs_options r)) r"
  by (simp add: toggleMultiOption_def web_toggle_def)

text \<open>The same answer, given on both: yes or no is text in the browser and an option on the phone.\<close>

definition same_answer :: "response_type \<Rightarrow> response_draft \<Rightarrow> response_draft \<Rightarrow> bool" where
  "same_answer t w m =
     (case t of Choice \<Rightarrow> rs_option w = rs_option m | MultiChoice \<Rightarrow> rs_options w = rs_options m
      | FreeText \<Rightarrow> rs_text w = rs_text m
      | YesNo \<Rightarrow> rs_text w = rs_option m \<and> (rs_text w = [] \<or> rs_text w = ''yes'' \<or> rs_text w = ''no''))"

lemma answers_agree:
  assumes "same_answer t w m" "t \<noteq> FreeText"
  shows "web_canSubmit t w = mobile_canSubmit t m"
    and "mobile_canSubmit t m \<Longrightarrow> web_data t w = mobile_data t m"
  using assms by (cases t; auto simp: same_answer_def web_canSubmit_def mobile_canSubmit_def web_data_def
      mobile_data_def nonempty_def)+

text \<open>A text of spaces is an answer in the browser and none on the phone, which also sends the text
  without the spaces around it.\<close>

lemma blank_text_accepted:
  "web_canSubmit FreeText (r\<lparr> rs_text := '' '' \<rparr>)" "\<not> mobile_canSubmit FreeText (r\<lparr> rs_text := '' '' \<rparr>)"
proof -
  have "trim '' '' = []" by code_simp
  then show "web_canSubmit FreeText (r\<lparr> rs_text := '' '' \<rparr>)" "\<not> mobile_canSubmit FreeText (r\<lparr> rs_text := '' '' \<rparr>)"
    by (simp_all add: web_canSubmit_def mobile_canSubmit_def)
qed

section \<open>The portal's page and the history\<close>

datatype decision_status = Pending | Responded | Declined | Expired | Cancelled

record decision =
  dc_id :: string
  dc_status :: decision_status
  dc_type :: response_type
  dc_options :: "option_draft list"

record portal_page =
  selectedDecision :: "decision option"
  pp_draft :: response_draft
  pp_sent :: "(string \<times> response_data) list"

definition empty_draft :: response_draft where
  "empty_draft = \<lparr> rs_option = [], rs_options = [], rs_text = [] \<rparr>"

text \<open>A card's buttons: Respond on a pending decision, View Details on any; both select the decision, and
  the dialog is there while one is selected, with a fresh draft.\<close>

definition view_details :: "decision \<Rightarrow> portal_page \<Rightarrow> portal_page" where
  "view_details d s = s\<lparr> selectedDecision := Some d, pp_draft := empty_draft \<rparr>"

definition close_response :: "portal_page \<Rightarrow> portal_page" where
  "close_response s = s\<lparr> selectedDecision := None \<rparr>"

definition edit_response :: "(response_draft \<Rightarrow> response_draft) \<Rightarrow> portal_page \<Rightarrow> portal_page" where
  "edit_response f s = s\<lparr> pp_draft := f (pp_draft s) \<rparr>"

definition submit_response :: "portal_page \<Rightarrow> portal_page" where
  "submit_response s =
     (case selectedDecision s of None \<Rightarrow> s
      | Some d \<Rightarrow> if web_canSubmit (dc_type d) (pp_draft s)
                  then s\<lparr> pp_sent := pp_sent s @ [(dc_id d, web_data (dc_type d) (pp_draft s))] \<rparr> else s)"

text \<open>The dialog does not look at the status: a decision of the lower section is answered again.\<close>

lemma resolved_decision_answered_again:
  assumes "dc_status d = Responded" "dc_type d = FreeText" "v \<noteq> []"
  shows "pp_sent (submit_response (edit_response (\<lambda>r. r\<lparr> rs_text := v \<rparr>) (view_details d s)))
    = pp_sent s @ [(dc_id d, \<lparr> rd_option = None, rd_text = Some v \<rparr>)]"
  using assms by (simp add: submit_response_def edit_response_def view_details_def web_canSubmit_def web_data_def)

text \<open>The answer in the history; the dash shown without one is the argument.\<close>

definition formatResponseText :: "string \<Rightarrow> option_draft list option \<Rightarrow> response_data option \<Rightarrow> string" where
  "formatResponseText dash os r =
     (case r of None \<Rightarrow> dash
      | Some a \<Rightarrow>
          (case rd_option a of
             Some i \<Rightarrow>
               if i \<noteq> [] then (case find (\<lambda>p. od_id p = i) (case os of None \<Rightarrow> [] | Some xs \<Rightarrow> xs) of
                                None \<Rightarrow> i | Some p \<Rightarrow> od_label p)
               else (case rd_text a of None \<Rightarrow> dash | Some x \<Rightarrow> x)
           | None \<Rightarrow> (case rd_text a of None \<Rightarrow> dash | Some x \<Rightarrow> x)))"

lemma find_distinct_id:
  "distinct (map od_id os) \<Longrightarrow> i < length os \<Longrightarrow> find (\<lambda>p. od_id p = od_id (os ! i)) os = Some (os ! i)"
proof (induction os arbitrary: i)
  case (Cons p os)
  show ?case
  proof (cases i)
    case (Suc j)
    then have "j < length os" using Cons.prems by simp
    then have "od_id (os ! j) \<in> od_id ` set os" by simp
    then have "od_id (os ! j) \<noteq> od_id p" using Cons.prems(1) by auto
    then show ?thesis using Cons Suc by auto
  qed simp
qed simp

lemma option_id_nonempty: "generateOptionId i \<noteq> []"
  by (simp add: generateOptionId_def)

text \<open>C21.  From the form to the history: when the user who wrote the request removed options only from the end,
  the history shows the label of the option the client chose, whichever it was.\<close>

theorem chosen_option_shown:
  assumes "last_removed_run es new_decision_start"
    and "handleCreate (run create_step es new_decision_start) = Some d"
    and "sd_options d = Some os" "i < length os"
  shows "formatResponseText dash (Some os) (Some (web_data Choice (empty_draft\<lparr> rs_option := od_id (os ! i) \<rparr>)))
    = od_label (os ! i)"
proof -
  let ?s = "run create_step es new_decision_start"
  have n: "ids_numbered ?s" using numbered_run [OF numbered_start assms(1)] .
  have d: "d = decision_data ?s" using assms(2) by (simp add: handleCreate_def split: if_splits)
  then have ids: "map od_id os = map od_id (nd_options ?s)"
    using assms(3) by (auto simp: decision_data_def split: if_splits)
  then have "distinct (map od_id os)" using numbered_distinct [OF n] by simp
  then have f: "find (\<lambda>p. od_id p = od_id (os ! i)) os = Some (os ! i)"
    using find_distinct_id assms(4) by blast
  have "od_id (os ! i) \<in> set (map od_id os)" using assms(4) by simp
  then obtain k where "od_id (os ! i) = generateOptionId k"
    unfolding ids n [unfolded ids_numbered_def] by auto
  then have "od_id (os ! i) \<noteq> []" by (simp only: option_id_nonempty not_False_eq_True)
  then show ?thesis using f by (simp add: formatResponseText_def web_data_def nonempty_def)
qed

definition sample_run :: "create_event list" where
  "sample_run = [EditField (\<lambda>s. s\<lparr> nd_client := ''c'', nd_title := ''t'', nd_prompt := ''p'' \<rparr>),
     LabelOpt 0 ''A'', LabelOpt 1 ''B'']"

lemma chosen_option_witness:
  "formatResponseText ''-'' (sd_options (decision_data (run create_step sample_run new_decision_start)))
     (Some (web_data Choice (empty_draft\<lparr> rs_option := generateOptionId 1 \<rparr>))) = ''B''"
proof -
  let ?s = "run create_step sample_run new_decision_start"
  let ?o = "[\<lparr> od_id = generateOptionId 0, od_label = ''A'', od_description = [] \<rparr>,
             \<lparr> od_id = generateOptionId 1, od_label = ''B'', od_description = [] \<rparr>]"
  have t: "trim ''A'' = ''A''" "trim ''B'' = ''B''" "trim ''t'' = ''t''" "trim ''p'' = ''p''" "trim [] = []"
    by code_simp+
  have e: "nd_client ?s = ''c''" "nd_title ?s = ''t''" "nd_prompt ?s = ''p''" "nd_type ?s = Choice" "nd_options ?s = ?o"
    by (simp_all add: sample_run_def new_decision_start_def handleOptionChange_def empty_option_def)
  have r: "last_removed_run sample_run new_decision_start" by (simp add: sample_run_def removes_last_def)
  have d: "handleCreate ?s = Some (decision_data ?s)"
    by (simp add: handleCreate_def decision_valid_def e t)
  have os: "sd_options (decision_data ?s) = Some ?o"
    by (simp add: decision_data_def e t needsOptions_def)
  show ?thesis using chosen_option_shown [OF r d os, of 1 "''-''"] by (simp add: os)
qed

text \<open>A multiple choice is kept as the text of a list of identifiers, and shown as such.\<close>

lemma multi_choice_shows_ids:
  "formatResponseText dash os (Some (web_data MultiChoice r)) = options_text (rs_options r)"
  by (simp add: formatResponseText_def web_data_def)

end
