(* ===== verification/Timelines.thy ===== *)
theory Timelines
  imports Complex_Main Machines
begin

text \<open>
  Clocks and timelines: \<open>frontend/src/components/sla/sla-clock.tsx\<close>, the deadline badge and the overdue
  mark of a decision (\<open>components/decisions\<close>), the milestone timelines of a program
  (\<open>components/programs/program-timeline.tsx\<close>) and the event timeline of a client
  (\<open>components/clients/client-timeline.tsx\<close>).

  Times are milliseconds.  Hours and days, fractions in the code, are computed exactly: the floor of
  an hour count is the integer division.  A date without a time is the midnight of UTC, as the
  language parses it; a day of the date library has 24 hours.
\<close>

definition MINUTE_MS :: int where "MINUTE_MS = 60000"
definition HOUR_MS :: int where "HOUR_MS = 3600000"
definition DAY_HOURS_MS :: int where "DAY_HOURS_MS = 86400000"

lemmas units = MINUTE_MS_def HOUR_MS_def DAY_HOURS_MS_def

section \<open>The clock of a service level\<close>

text \<open>Hours and minutes of a duration: \<open>Math.floor(x)\<close> and \<open>Math.floor((x % 1) * 60)\<close> for \<open>x\<close> hours, where
  the remainder has the sign of \<open>x\<close>.\<close>

definition js_rem :: "int \<Rightarrow> int \<Rightarrow> int" where
  "js_rem a b = (if 0 \<le> a then a mod b else - ((- a) mod b))"

definition hours_minutes :: "int \<Rightarrow> int \<times> int" where
  "hours_minutes ms = (ms div HOUR_MS, js_rem ms HOUR_MS div MINUTE_MS)"

datatype clock_colour = Green | Amber | Red

datatype clock_text = RespondedIn int int | OverdueBy int int | Remaining int int

definition sla_text :: "int \<Rightarrow> int \<Rightarrow> int option \<Rightarrow> int \<Rightarrow> clock_text" where
  "sla_text started slaHours responded now =
     (let elapsed = (case responded of Some r \<Rightarrow> r | None \<Rightarrow> now) - started;
          remaining = slaHours * HOUR_MS - elapsed
      in case responded of
           Some r \<Rightarrow> RespondedIn (fst (hours_minutes elapsed)) (snd (hours_minutes elapsed))
         | None \<Rightarrow>
             if remaining \<le> 0
             then (let over = hours_minutes (abs (elapsed - slaHours * HOUR_MS)) in OverdueBy (fst over) (snd over))
             else (let left = hours_minutes remaining in Remaining (fst left) (snd left)))"

definition sla_percentage :: "int \<Rightarrow> int \<Rightarrow> rat" where
  "sla_percentage elapsed slaHours = (of_int elapsed / of_int HOUR_MS) / of_int slaHours * 100"

definition sla_colour :: "int \<Rightarrow> int \<Rightarrow> int option \<Rightarrow> int \<Rightarrow> clock_colour" where
  "sla_colour started slaHours responded now =
     (let elapsed = (case responded of Some r \<Rightarrow> r | None \<Rightarrow> now) - started
      in case responded of
           Some r \<Rightarrow> if elapsed > slaHours * HOUR_MS then Red else Green
         | None \<Rightarrow>
             if slaHours * HOUR_MS - elapsed \<le> 0 then Red
             else if sla_percentage elapsed slaHours \<ge> 100 then Red
             else if sla_percentage elapsed slaHours \<ge> 80 then Amber else Green)"

lemma hours_minutes_value:
  "0 \<le> ms \<Longrightarrow> fst (hours_minutes ms) * 60 + snd (hours_minutes ms) = ms div MINUTE_MS"
proof -
  assume "0 \<le> ms"
  then have r: "js_rem ms HOUR_MS = ms mod HOUR_MS" by (simp add: js_rem_def)
  have "ms = (ms div HOUR_MS * 60) * MINUTE_MS + ms mod HOUR_MS"
    using mult_div_mod_eq [of HOUR_MS ms] by (simp add: units)
  then have "ms div MINUTE_MS = ms div HOUR_MS * 60 + ms mod HOUR_MS div MINUTE_MS"
    by (metis div_mult_self3 MINUTE_MS_def zero_neq_numeral)
  then show ?thesis by (simp add: hours_minutes_def r)
qed

lemma hours_minutes_bounds:
  "0 \<le> ms \<Longrightarrow> 0 \<le> snd (hours_minutes ms) \<and> snd (hours_minutes ms) < 60 \<and> 0 \<le> fst (hours_minutes ms)"
proof -
  assume ms: "0 \<le> ms"
  then have "0 \<le> js_rem ms HOUR_MS" "js_rem ms HOUR_MS < 60 * MINUTE_MS"
    by (simp_all add: js_rem_def units)
  then show ?thesis using ms by (simp add: hours_minutes_def units) linarith
qed

text \<open>The colour of a running clock: red from the limit on, amber from four fifths of it.\<close>

lemma percentage_at_least:
  assumes "0 < slaHours"
  shows "sla_percentage elapsed slaHours \<ge> of_int k \<longleftrightarrow> 100 * elapsed \<ge> k * (slaHours * HOUR_MS)"
proof -
  have d: "0 < (of_int (slaHours * HOUR_MS) :: rat)" using assms by (simp add: HOUR_MS_def)
  have "sla_percentage elapsed slaHours = of_int (100 * elapsed) / of_int (slaHours * HOUR_MS)"
    by (simp add: sla_percentage_def field_simps)
  then have "sla_percentage elapsed slaHours \<ge> of_int k
      \<longleftrightarrow> (of_int (k * (slaHours * HOUR_MS)) :: rat) \<le> of_int (100 * elapsed)"
    using d by (simp only: pos_le_divide_eq) simp
  then show ?thesis by (simp only: of_int_le_iff)
qed

text \<open>A running clock turns amber at four fifths of the limit and red at the limit, and the hours and minutes
  it shows are the whole minutes left or over.\<close>

theorem sla_clock_right:
  assumes "0 < slaHours"
  shows "(sla_colour started slaHours None now = Red \<longleftrightarrow> now - started \<ge> slaHours * HOUR_MS)
    \<and> (sla_colour started slaHours None now = Amber \<longleftrightarrow>
         5 * (now - started) \<ge> 4 * (slaHours * HOUR_MS) \<and> now - started < slaHours * HOUR_MS)
    \<and> (case sla_text started slaHours None now of
         OverdueBy h m \<Rightarrow> now - started \<ge> slaHours * HOUR_MS
           \<and> h * 60 + m = (now - started - slaHours * HOUR_MS) div MINUTE_MS \<and> 0 \<le> m \<and> m < 60
       | Remaining h m \<Rightarrow> now - started < slaHours * HOUR_MS
           \<and> h * 60 + m = (slaHours * HOUR_MS - (now - started)) div MINUTE_MS \<and> 0 \<le> m \<and> m < 60
       | RespondedIn h m \<Rightarrow> False)"
proof -
  let ?e = "now - started" and ?l = "slaHours * HOUR_MS"
  have p: "sla_percentage ?e slaHours \<ge> 100 \<longleftrightarrow> ?e \<ge> ?l" "sla_percentage ?e slaHours \<ge> 80 \<longleftrightarrow> 5 * ?e \<ge> 4 * ?l"
    using percentage_at_least [OF assms, of 100 ?e] percentage_at_least [OF assms, of 80 ?e] by auto
  have c: "sla_colour started slaHours None now = (if ?l \<le> ?e then Red else if 5 * ?e \<ge> 4 * ?l then Amber else Green)"
    using p by (simp add: sla_colour_def Let_def)
  have t: "sla_text started slaHours None now = (if ?l \<le> ?e
      then OverdueBy (fst (hours_minutes (?e - ?l))) (snd (hours_minutes (?e - ?l)))
      else Remaining (fst (hours_minutes (?l - ?e))) (snd (hours_minutes (?l - ?e))))"
    by (simp add: sla_text_def Let_def)
  show ?thesis
  proof (cases "?l \<le> ?e")
    case True
    then show ?thesis using c t hours_minutes_value [of "?e - ?l"] hours_minutes_bounds [of "?e - ?l"] by simp
  next
    case False
    then show ?thesis using c t hours_minutes_value [of "?l - ?e"] hours_minutes_bounds [of "?l - ?e"] by simp
  qed
qed

lemma sla_clock_witness:
  "sla_colour 0 10 None (9 * HOUR_MS) = Amber"
  using sla_clock_right [of 10 0 "9 * HOUR_MS"] by (simp add: HOUR_MS_def)

text \<open>The branch for one hundred per cent is never reached, the limit was tested before.\<close>

lemma hundred_percent_unreachable:
  "0 < slaHours \<Longrightarrow> slaHours * HOUR_MS - elapsed > 0 \<Longrightarrow> \<not> sla_percentage elapsed slaHours \<ge> 100"
  using percentage_at_least [of slaHours 100 elapsed] by auto

section \<open>Deadlines of decisions\<close>

text \<open>\<open>differenceInDays\<close> and \<open>differenceInHours\<close>: full units, towards zero.\<close>

definition full_units :: "int \<Rightarrow> int \<Rightarrow> int" where
  "full_units u d = (if 0 \<le> d then d div u else - ((- d) div u))"

definition deadline_text :: "(int \<Rightarrow> string) \<Rightarrow> int \<Rightarrow> int \<Rightarrow> string" where
  "deadline_text short_date deadline now =
     (let days = full_units DAY_HOURS_MS (deadline - now); hours = full_units HOUR_MS (deadline - now);
          text = (if days < 0 then ''Overdue'' else if days = 0 then ''Due today'' else if days = 1 then ''Due tomorrow''
                  else if days \<le> 3 then int_text days @ '' days left'' else short_date deadline)
      in if 0 < hours \<and> hours < 24 \<and> days = 0 then int_text hours @ ''h left'' else text)"

definition deadline_urgent :: "int \<Rightarrow> int \<Rightarrow> bool" where
  "deadline_urgent deadline now \<longleftrightarrow> full_units DAY_HOURS_MS (deadline - now) \<le> 3"

definition deadline_badge :: "(int \<Rightarrow> string) \<Rightarrow> int option \<Rightarrow> bool \<Rightarrow> int \<Rightarrow> string option" where
  "deadline_badge short_date deadline pending now =
     (case deadline of None \<Rightarrow> None | Some d \<Rightarrow> if pending then Some (deadline_text short_date d now) else None)"

definition card_overdue :: "int option \<Rightarrow> bool \<Rightarrow> int \<Rightarrow> bool" where
  "card_overdue deadline pending now \<longleftrightarrow> (case deadline of None \<Rightarrow> False | Some d \<Rightarrow> d < now \<and> pending)"

lemma full_units_cases:
  "full_units DAY_HOURS_MS d = 1 \<longleftrightarrow> DAY_HOURS_MS \<le> d \<and> d < 2 * DAY_HOURS_MS"
  "full_units DAY_HOURS_MS d < 0 \<longleftrightarrow> - d \<ge> DAY_HOURS_MS"
  "full_units DAY_HOURS_MS d = 0 \<longleftrightarrow> - DAY_HOURS_MS < d \<and> d < DAY_HOURS_MS"
  "0 < full_units HOUR_MS d \<longleftrightarrow> HOUR_MS \<le> d"
  unfolding full_units_def units by (auto split: if_splits)

text \<open>The badge against the calendar, for a deadline at the start of day \<open>n\<close>: it is overdue from the end of
  that day on and due today during it; but the day before it says the same or counts the hours to
  the midnight, and the day before that it says tomorrow.\<close>

lemma deadline_badge_days:
  fixes n :: int
  defines "deadline \<equiv> n * DAY_HOURS_MS"
  shows "deadline_text sd deadline now = ''Overdue'' \<or> now < deadline + DAY_HOURS_MS"
    and "deadline \<le> now \<Longrightarrow> now < deadline + DAY_HOURS_MS \<Longrightarrow> deadline_text sd deadline now = ''Due today''"
    and "deadline - DAY_HOURS_MS < now \<Longrightarrow> now < deadline \<Longrightarrow>
      deadline_text sd deadline now = ''Due today''
      \<or> deadline_text sd deadline now = int_text (full_units HOUR_MS (deadline - now)) @ ''h left''"
    and "deadline - 2 * DAY_HOURS_MS < now \<Longrightarrow> now \<le> deadline - DAY_HOURS_MS \<Longrightarrow>
      deadline_text sd deadline now = ''Due tomorrow''"
proof -
  note f = full_units_cases [of "deadline - now"]
  show "deadline_text sd deadline now = ''Overdue'' \<or> now < deadline + DAY_HOURS_MS"
  proof (cases "now < deadline + DAY_HOURS_MS")
    case False
    then have "full_units DAY_HOURS_MS (deadline - now) < 0" using f(2) by simp
    then show ?thesis unfolding deadline_text_def Let_def by simp
  qed simp
  assume "deadline \<le> now" "now < deadline + DAY_HOURS_MS"
  then have "full_units DAY_HOURS_MS (deadline - now) = 0" "\<not> 0 < full_units HOUR_MS (deadline - now)"
    using f by (simp_all add: units)
  then show "deadline_text sd deadline now = ''Due today''" unfolding deadline_text_def Let_def by simp
next
  note f = full_units_cases [of "deadline - now"]
  assume "deadline - DAY_HOURS_MS < now" "now < deadline"
  then have "full_units DAY_HOURS_MS (deadline - now) = 0" using f by (simp add: units)
  then show "deadline_text sd deadline now = ''Due today''
      \<or> deadline_text sd deadline now = int_text (full_units HOUR_MS (deadline - now)) @ ''h left''"
    unfolding deadline_text_def Let_def by simp
next
  note f = full_units_cases [of "deadline - now"]
  assume "deadline - 2 * DAY_HOURS_MS < now" "now \<le> deadline - DAY_HOURS_MS"
  then have "full_units DAY_HOURS_MS (deadline - now) = 1" using f by (simp add: units)
  then show "deadline_text sd deadline now = ''Due tomorrow''" unfolding deadline_text_def Let_def by simp
qed

text \<open>During the day of the deadline the card is marked overdue while its badge says due today.\<close>

lemma card_and_badge_disagree:
  "n * DAY_HOURS_MS < now \<Longrightarrow> now < (n + 1) * DAY_HOURS_MS \<Longrightarrow>
     card_overdue (Some (n * DAY_HOURS_MS)) True now
     \<and> deadline_badge sd (Some (n * DAY_HOURS_MS)) True now = Some ''Due today''"
  using deadline_badge_days(2) [of n now sd] by (simp add: card_overdue_def deadline_badge_def algebra_simps)

section \<open>The milestones of a program\<close>

datatype milestone_status = MPending | MInProgress | MCompleted | MCancelled

datatype display_state = DCompleted | DCurrent | DOverdue | DUpcoming

record milestone =
  ms_status :: milestone_status
  ms_due :: "int option"
  ms_position :: int

definition past_due :: "int \<Rightarrow> milestone \<Rightarrow> bool" where
  "past_due now m \<longleftrightarrow> (case ms_due m of None \<Rightarrow> False | Some d \<Rightarrow> d < now)"

definition getMilestoneState :: "int \<Rightarrow> milestone \<Rightarrow> display_state" where
  "getMilestoneState now m =
     (if ms_status m = MCompleted \<or> ms_status m = MCancelled then DCompleted
      else if ms_status m = MInProgress then (if past_due now m then DOverdue else DCurrent)
      else if past_due now m then DOverdue else DUpcoming)"

text \<open>The fill of a connector, in halves.\<close>

definition getConnectorFill :: "int \<Rightarrow> milestone list \<Rightarrow> nat \<Rightarrow> nat" where
  "getConnectorFill now xs i =
     (if Suc i < length xs
      then (case getMilestoneState now (xs ! i) of DCompleted \<Rightarrow> 2 | DCurrent \<Rightarrow> 1 | _ \<Rightarrow> 0)
      else 0)"

definition by_position :: "milestone list \<Rightarrow> milestone list" where
  "by_position xs = sort_key ms_position xs"

definition is_completed :: "milestone \<Rightarrow> bool" where
  "is_completed m \<longleftrightarrow> ms_status m = MCompleted \<or> ms_status m = MCancelled"

datatype line_colour = LineGreen | LineHalf | LineGrey

text \<open>The lines of the compact strip follow the number of completed milestones, not their places.\<close>

definition compact_line :: "int \<Rightarrow> milestone list \<Rightarrow> nat \<Rightarrow> line_colour" where
  "compact_line now xs i =
     (let done_count = int (length (filter is_completed xs));
          none_current = \<not> list_ex (\<lambda>m. ms_status m = MInProgress) xs
      in if int i < done_count - 1 \<or> (int i = done_count - 1 \<and> none_current) then LineGreen
         else if getMilestoneState now (xs ! i) = DCompleted \<and> int i = done_count - 1 then LineHalf
         else LineGrey)"

lemma completed_state: "getMilestoneState now m = DCompleted \<longleftrightarrow> is_completed m"
  by (auto simp: getMilestoneState_def is_completed_def)

text \<open>While the completed milestones come first, both variants colour the same connectors.\<close>

lemma timelines_agree:
  assumes "list_all is_completed xs" "list_all (\<lambda>m. \<not> is_completed m) ys" "Suc i < length (xs @ ys)"
  shows "compact_line now (xs @ ys) i \<noteq> LineGrey \<longleftrightarrow> getConnectorFill now (xs @ ys) i = 2"
proof -
  have d: "filter is_completed (xs @ ys) = xs"
    using assms(1,2) by (simp add: list_all_iff filter_id_conv filter_empty_conv)
  have c: "is_completed ((xs @ ys) ! i) \<longleftrightarrow> i < length xs"
    using assms by (auto simp: nth_append list_all_length)
  have "getConnectorFill now (xs @ ys) i = 2 \<longleftrightarrow> i < length xs"
    using assms(3) completed_state [of now "(xs @ ys) ! i"] c
    by (cases "getMilestoneState now ((xs @ ys) ! i)") (simp_all add: getConnectorFill_def)
  moreover have "compact_line now (xs @ ys) i \<noteq> LineGrey \<longleftrightarrow> i < length xs"
    using completed_state [of now "(xs @ ys) ! i"] c unfolding compact_line_def d Let_def by auto
  ultimately show ?thesis by simp
qed

text \<open>A completed milestone behind an open one colours the line of the open one.\<close>

lemma compact_line_counts:
  assumes "\<not> is_completed a" "is_completed b" "is_completed c"
  shows "compact_line now [a, b, c] 0 = LineGreen \<and> getConnectorFill now [a, b, c] 0 \<noteq> 2"
  using assms completed_state [of now a]
  by (cases "getMilestoneState now a") (simp_all add: compact_line_def getConnectorFill_def)

section \<open>The timeline of a client\<close>

record timeline_event =
  te_id :: string
  te_day :: string
  te_type :: string

text \<open>The filters; an unchecked set of types asks for all.  The end of a range is the midnight its date
  begins with.\<close>

record timeline_filters =
  activeTypes :: "string list"
  dateFrom :: "int option"
  dateTo :: "int option"

definition toggleEventType :: "string \<Rightarrow> timeline_filters \<Rightarrow> timeline_filters" where
  "toggleEventType t f =
     f\<lparr> activeTypes := (if t \<in> set (activeTypes f) then filter (\<lambda>x. x \<noteq> t) (activeTypes f) else activeTypes f @ [t]) \<rparr>"

definition clear_timeline_filters :: "timeline_filters \<Rightarrow> timeline_filters" where
  "clear_timeline_filters f = f\<lparr> activeTypes := [], dateFrom := None, dateTo := None \<rparr>"

definition appliedFilters :: "timeline_filters \<Rightarrow> string list option \<times> int option \<times> int option" where
  "appliedFilters f = ((if activeTypes f = [] then None else Some (activeTypes f)),
     map_option (\<lambda>d. d * DAY_HOURS_MS) (dateFrom f), map_option (\<lambda>d. d * DAY_HOURS_MS) (dateTo f))"

definition hasActiveFilters :: "timeline_filters \<Rightarrow> bool" where
  "hasActiveFilters f \<longleftrightarrow> activeTypes f \<noteq> [] \<or> dateFrom f \<noteq> None \<or> dateTo f \<noteq> None"

lemma no_filters_asked: "\<not> hasActiveFilters f \<longleftrightarrow> appliedFilters f = (None, None, None)"
  by (auto simp: hasActiveFilters_def appliedFilters_def)

text \<open>Everything that happens on the chosen last day, its first instant apart, is after the bound sent.\<close>

lemma last_day_cut_off:
  assumes "dateTo f = Some d" "d * DAY_HOURS_MS < t"
  shows "case snd (snd (appliedFilters f)) of None \<Rightarrow> False | Some bound \<Rightarrow> \<not> t \<le> bound"
  using assms by (simp add: appliedFilters_def)

text \<open>The groups of consecutive events with the same day text.  The first day differs from the empty text
  the loop starts with.\<close>

fun groups_from :: "string \<Rightarrow> (string \<times> timeline_event list) list \<Rightarrow> timeline_event list
    \<Rightarrow> (string \<times> timeline_event list) list" where
  "groups_from day gs [] = gs"
| "groups_from day gs (e # es) =
     (if te_day e \<noteq> day then groups_from (te_day e) (gs @ [(te_day e, [e])]) es
      else groups_from day (butlast gs @ [(fst (last gs), snd (last gs) @ [e])]) es)"

definition groupedEvents :: "timeline_event list \<Rightarrow> (string \<times> timeline_event list) list" where
  "groupedEvents es = groups_from [] [] es"

definition groups_ok :: "string \<Rightarrow> (string \<times> timeline_event list) list \<Rightarrow> bool" where
  "groups_ok day gs \<longleftrightarrow> distinct_adj (map fst gs) \<and> list_all (\<lambda>(d, es). es \<noteq> [] \<and> list_all (\<lambda>e. te_day e = d) es) gs
     \<and> (gs \<noteq> [] \<longrightarrow> fst (last gs) = day)"

lemma groups_from_ok:
  assumes "groups_ok day gs" "gs = [] \<longrightarrow> day = []" "list_all (\<lambda>e. te_day e \<noteq> []) es"
  shows "groups_ok (if es = [] then day else te_day (last es)) (groups_from day gs es)
    \<and> concat (map snd (groups_from day gs es)) = concat (map snd gs) @ es"
  using assms
proof (induction es arbitrary: day gs)
  case (Cons e es)
  show ?case
  proof (cases "te_day e = day")
    case False
    have "groups_ok (te_day e) (gs @ [(te_day e, [e])])"
      using Cons.prems(1) False by (auto simp: groups_ok_def distinct_adj_append_iff last_map)
    then show ?thesis using Cons.IH [of "te_day e" "gs @ [(te_day e, [e])]"] Cons.prems(3) False
      by (auto split: if_splits)
  next
    case True
    then have "gs \<noteq> []" using Cons.prems by auto
    then obtain hs d xs where gs: "gs = hs @ [(d, xs)]" by (metis append_butlast_last_id surj_pair)
    have "groups_ok day (hs @ [(d, xs @ [e])])"
      using Cons.prems(1) True gs by (auto simp: groups_ok_def)
    then show ?thesis using Cons.IH [of day "hs @ [(d, xs @ [e])]"] Cons.prems(3) True gs
      by (auto split: if_splits)
  qed
qed simp

text \<open>The groups are the events in their order, every group has events of one day, and neighbouring groups
  are of different days; so a day makes two groups only when its events are not together.\<close>

lemma groups_are_the_events:
  assumes "list_all (\<lambda>e. te_day e \<noteq> []) es"
  shows "concat (map snd (groupedEvents es)) = es" "distinct_adj (map fst (groupedEvents es))"
    and "list_all (\<lambda>(d, xs). xs \<noteq> [] \<and> list_all (\<lambda>e. te_day e = d) xs) (groupedEvents es)"
  using groups_from_ok [of "[]" "[]" es] assms by (simp_all add: groupedEvents_def groups_ok_def)

end
