(* ===== verification/Comparisons.thy ===== *)
theory Comparisons
  imports JsNumbers Exports
begin

text \<open>
  The comparison of partners: the page that selects them
  (\<open>app/(dashboard)/partners/compare/page.tsx\<close>), the table with its trophies and its CSV text
  (\<open>components/partners/partner-comparison.tsx\<close>).

  The dash that stands for a missing number is None.  A number is a \<open>rat\<close>; the text \<open>String\<close> gives
  is written out for numbers with at most fifteen decimals.  The address keeps the selection in one
  parameter, which is None when it is absent.
\<close>

section \<open>Selecting\<close>

text \<open>\<open>searchParams.get("ids")\<close> and \<open>raw.split(",").filter(Boolean)\<close>.\<close>

definition ids_of_param :: "string option \<Rightarrow> string list" where
  "ids_of_param raw =
     (case raw of None \<Rightarrow> []
      | Some r \<Rightarrow> if r = [] then [] else filter (\<lambda>i. i \<noteq> []) (split_on CHR '','' r))"

text \<open>The effect that writes the address.\<close>

definition param_of_ids :: "string list \<Rightarrow> string option" where
  "param_of_ids ids = (if ids \<noteq> [] then Some (join_with '','' ids) else None)"

record compare_page =
  selected_ids :: "string list"
  selector_open :: bool
  selector_search :: string

definition page_of_param :: "string option \<Rightarrow> compare_page" where
  "page_of_param raw = \<lparr> selected_ids = ids_of_param raw, selector_open = False, selector_search = [] \<rparr>"

definition handleAdd :: "string \<Rightarrow> compare_page \<Rightarrow> compare_page" where
  "handleAdd partnerId s =
     (if partnerId \<in> set (selected_ids s) then s
      else if 4 \<le> length (selected_ids s) then s
      else s\<lparr> selected_ids := selected_ids s @ [partnerId], selector_open := False \<rparr>)"

definition handleRemove :: "string \<Rightarrow> compare_page \<Rightarrow> compare_page" where
  "handleRemove partnerId s = s\<lparr> selected_ids := filter (\<lambda>i. i \<noteq> partnerId) (selected_ids s) \<rparr>"

datatype compare_event = CompareAdd string | CompareRemove string | CompareOpen bool | CompareSearch string

fun compare_step :: "compare_event \<Rightarrow> compare_page \<Rightarrow> compare_page" where
  "compare_step (CompareAdd i) s = handleAdd i s"
| "compare_step (CompareRemove i) s = handleRemove i s"
| "compare_step (CompareOpen b) s = s\<lparr> selector_open := b \<rparr>"
| "compare_step (CompareSearch t) s = s\<lparr> selector_search := t \<rparr>"

record listed_partner =
  lp_id :: string
  lp_firm :: string

text \<open>\<open>partnerMap\<close>, the chips, and what the selector offers.\<close>

definition partnerMap :: "listed_partner list \<Rightarrow> (string \<times> listed_partner) list" where
  "partnerMap ps = fold (\<lambda>p. AList.update (lp_id p) p) ps []"

definition selectedPartners :: "listed_partner list \<Rightarrow> compare_page \<Rightarrow> listed_partner list" where
  "selectedPartners ps s = List.map_filter (map_of (partnerMap ps)) (selected_ids s)"

definition availableToAdd :: "listed_partner list \<Rightarrow> compare_page \<Rightarrow> listed_partner list" where
  "availableToAdd ps s = filter (\<lambda>p. lp_id p \<notin> set (selected_ids s)) ps"

definition offered :: "listed_partner list \<Rightarrow> compare_page \<Rightarrow> listed_partner list" where
  "offered ps s =
     take 20 (filter (\<lambda>p. selector_search s = [] \<or> str_includes (lower (selector_search s)) (lower (lp_firm p)))
       (availableToAdd ps s))"

definition canCompare :: "compare_page \<Rightarrow> bool" where
  "canCompare s \<longleftrightarrow> 2 \<le> length (selected_ids s)"

definition selector_shown :: "compare_page \<Rightarrow> bool" where
  "selector_shown s \<longleftrightarrow> length (selected_ids s) < 4"

section \<open>The best of a row\<close>

definition best_step :: "bool \<Rightarrow> nat \<times> rat option \<Rightarrow> rat option \<times> int \<Rightarrow> rat option \<times> int" where
  "best_step lowerIsBetter iv bi =
     (case snd iv of None \<Rightarrow> bi
      | Some v \<Rightarrow>
          (case fst bi of None \<Rightarrow> (Some v, int (fst iv))
           | Some best \<Rightarrow>
               if \<not> lowerIsBetter \<and> v > best then (Some v, int (fst iv))
               else if lowerIsBetter \<and> v < best then (Some v, int (fst iv))
               else bi))"

definition bestIdx :: "rat option list \<Rightarrow> bool \<Rightarrow> int" where
  "bestIdx values lowerIsBetter = snd (fold (best_step lowerIsBetter) (enumerate 0 values) (None, - 1))"

section \<open>The CSV text\<close>

text \<open>\<open>String(x)\<close> of a number with at most fifteen decimals.\<close>

fun decimals :: "nat \<Rightarrow> rat \<Rightarrow> nat" where
  "decimals 0 x = 0"
| "decimals (Suc n) x = (if x = of_int \<lfloor>x\<rfloor> then 0 else Suc (decimals n (x * 10)))"

definition number_text :: "rat \<Rightarrow> string" where
  "number_text x = to_fixed (decimals 15 x) x"

record partner_item =
  pi_id :: string
  pi_firm :: string
  pi_availability :: string
  pi_status :: string
  pi_capabilities :: "string list"
  pi_geographies :: "string list"
  pi_compliance :: bool
  pi_composite :: "rat option"
  pi_overall :: "rat option"
  pi_quality :: "rat option"
  pi_timeliness :: "rat option"
  pi_communication :: "rat option"
  pi_ratings :: int
  pi_sla_rate :: "rat option"
  pi_sla_tracked :: int
  pi_sla_breached :: int
  pi_assignments :: int
  pi_completed :: int
  pi_active :: int
  pi_max :: int
  pi_utilisation :: rat
  pi_remaining :: int
  pi_trend :: "string option"

definition opt_text :: "rat option \<Rightarrow> string" where
  "opt_text v = (case v of None \<Rightarrow> [] | Some x \<Rightarrow> number_text x)"

definition comparison_rows :: "partner_item list \<Rightarrow> string list list" where
  "comparison_rows ps =
     [''Metric'' # map pi_firm ps,
      ''Availability'' # map pi_availability ps,
      ''Status'' # map pi_status ps,
      ''Compliance Verified'' # map (\<lambda>p. if pi_compliance p then ''Yes'' else ''No'') ps,
      ''Composite Score (/100)'' # map (opt_text \<circ> pi_composite) ps,
      ''Avg Overall Rating (/5)'' # map (opt_text \<circ> pi_overall) ps,
      ''Avg Quality (/5)'' # map (opt_text \<circ> pi_quality) ps,
      ''Avg Timeliness (/5)'' # map (opt_text \<circ> pi_timeliness) ps,
      ''Avg Communication (/5)'' # map (opt_text \<circ> pi_communication) ps,
      ''Total Ratings'' # map (int_text \<circ> pi_ratings) ps,
      ''SLA Compliance (%)'' # map (opt_text \<circ> pi_sla_rate) ps,
      ''SLA Tracked'' # map (int_text \<circ> pi_sla_tracked) ps,
      ''SLA Breached'' # map (int_text \<circ> pi_sla_breached) ps,
      ''Total Assignments'' # map (int_text \<circ> pi_assignments) ps,
      ''Completed Assignments'' # map (int_text \<circ> pi_completed) ps,
      ''Active Assignments'' # map (int_text \<circ> pi_active) ps,
      ''Max Concurrent'' # map (int_text \<circ> pi_max) ps,
      ''Capacity Utilisation (%)'' # map (number_text \<circ> pi_utilisation) ps,
      ''Remaining Capacity'' # map (int_text \<circ> pi_remaining) ps,
      ''90-day Trend'' # map (\<lambda>p. case pi_trend p of None \<Rightarrow> [] | Some t \<Rightarrow> t) ps,
      ''Capabilities'' # map (\<lambda>p. join_with ''; '' (pi_capabilities p)) ps,
      ''Geographies'' # map (\<lambda>p. join_with ''; '' (pi_geographies p)) ps]"

text \<open>Every cell between quotes, as it is.\<close>

definition quoted_cell :: "string \<Rightarrow> string" where
  "quoted_cell c = [DQ] @ c @ [DQ]"

definition downloadCsv :: "partner_item list \<Rightarrow> string" where
  "downloadCsv ps = join_with [LF] (map (\<lambda>r. join_with '','' (map quoted_cell r)) (comparison_rows ps))"

text \<open>The banner names the partner with the best composite score.\<close>

definition bestPartner :: "partner_item list \<Rightarrow> partner_item option" where
  "bestPartner ps = (let i = bestIdx (map pi_composite ps) False in if 0 \<le> i then Some (ps ! nat i) else None)"

text \<open>\<open>fmtNum\<close> and \<open>fmtPct\<close>.\<close>

definition fmtNum :: "rat option \<Rightarrow> nat \<Rightarrow> string option" where
  "fmtNum v decs = map_option (to_fixed decs) v"

definition fmtPct :: "rat option \<Rightarrow> string option" where
  "fmtPct v = map_option (\<lambda>x. to_fixed 1 x @ ''%'') v"

section \<open>The selection survives\<close>

definition id_ok :: "string \<Rightarrow> bool" where
  "id_ok i \<longleftrightarrow> i \<noteq> [] \<and> CHR '','' \<notin> set i"

lemma split_join:
  assumes "list_all (\<lambda>i. c \<notin> set i) ids" "ids \<noteq> []"
  shows "split_on c (join_with [c] ids) = ids"
  using assms
proof (induction ids)
  case (Cons i ids)
  then have "list_all (\<lambda>x. x \<noteq> c) i" by (auto simp: list_all_iff)
  then show ?case using Cons split_on_plain [of c i] by (cases ids) auto
qed simp

lemma join_nonempty: "list_all id_ok ids \<Longrightarrow> ids \<noteq> [] \<Longrightarrow> join_with sep ids \<noteq> []"
  by (cases ids) (auto simp: join_with_Cons id_ok_def)

text \<open>Reloading the page keeps the selection exactly when no id is empty and none holds a comma.\<close>

theorem selection_survives_reload:
  "selected_ids (page_of_param (param_of_ids ids)) = ids \<longleftrightarrow> list_all id_ok ids"
proof
  assume "list_all id_ok ids"
  moreover from this have "list_all (\<lambda>i. CHR '','' \<notin> set i) ids" "filter (\<lambda>i. i \<noteq> []) ids = ids"
    by (auto simp: list_all_iff id_ok_def filter_id_conv)
  ultimately show "selected_ids (page_of_param (param_of_ids ids)) = ids"
    using split_join join_nonempty by (simp add: page_of_param_def param_of_ids_def ids_of_param_def)
next
  assume a: "selected_ids (page_of_param (param_of_ids ids)) = ids"
  have "list_all id_ok (selected_ids (page_of_param raw))" for raw
    using split_on_parts [of "CHR '',''" "the raw"]
    by (auto simp: page_of_param_def ids_of_param_def list_all_iff id_ok_def split: option.split)
  from this [of "param_of_ids ids"] show "list_all id_ok ids" unfolding a .
qed

text \<open>The buttons never select a fifth partner nor one twice.\<close>

lemma selection_bounded_step:
  "length (selected_ids (compare_step e s)) \<le> max 4 (length (selected_ids s))"
  "distinct (selected_ids s) \<Longrightarrow> distinct (selected_ids (compare_step e s))"
  by (cases e; auto simp: handleAdd_def handleRemove_def le_max_iff_disj intro: le_trans [OF length_filter_le])+

lemma at_most_four:
  "length (selected_ids (fold compare_step es s)) \<le> max 4 (length (selected_ids s))"
proof (induction es arbitrary: s)
  case (Cons e es)
  show ?case
    using selection_bounded_step(1) [of e s] Cons.IH [of "compare_step e s"] unfolding fold_Cons comp_def
    by (auto simp: max_def split: if_splits)
qed simp

text \<open>The address does not keep to four.\<close>

lemma address_selects_five:
  "length (selected_ids (page_of_param (Some ''a,b,c,d,e,e''))) = 6"
  by (simp add: page_of_param_def ids_of_param_def)

text \<open>A partner that is not among the listed ones takes a place and has no chip to remove it with.\<close>

lemma partnerMap_get: "map_of (partnerMap ps) i = List.find (\<lambda>p. lp_id p = i) (rev ps)"
  by (induction ps rule: rev_induct) (auto simp: partnerMap_def update_conv')

lemma unlisted_has_no_chip:
  assumes "i \<notin> lp_id ` set ps"
  shows "selectedPartners ps (s\<lparr> selected_ids := [i] \<rparr>) = []"
  using assms by (auto simp: selectedPartners_def List.map_filter_def partnerMap_get find_None_iff)

lemma offered_can_be_added:
  "p \<in> set (offered ps s) \<Longrightarrow> selector_shown s \<Longrightarrow> selected_ids (handleAdd (lp_id p) s) = selected_ids s @ [lp_id p]"
  by (auto simp: offered_def availableToAdd_def selector_shown_def handleAdd_def dest!: in_set_takeD)

section \<open>The trophy\<close>

text \<open>The specification: the first place whose value none of the others beats.\<close>

definition unbeaten :: "bool \<Rightarrow> rat option list \<Rightarrow> rat option \<Rightarrow> bool" where
  "unbeaten lowerIsBetter vs v =
     (case v of None \<Rightarrow> False
      | Some x \<Rightarrow> list_all (\<lambda>w. case w of None \<Rightarrow> True | Some y \<Rightarrow> if lowerIsBetter then x \<le> y else y \<le> x) vs)"

definition best_state :: "bool \<Rightarrow> rat option list \<Rightarrow> rat option \<times> int" where
  "best_state l vs =
     (case index_where (unbeaten l vs) vs of None \<Rightarrow> (None, - 1) | Some i \<Rightarrow> (vs ! i, int i))"

lemma index_where_None: "index_where p xs = None \<longleftrightarrow> list_all (\<lambda>x. \<not> p x) xs"
  by (induction xs) auto

lemma index_where_Some:
  "index_where p xs = Some i \<longleftrightarrow> i < length xs \<and> p (xs ! i) \<and> (\<forall>j < i. \<not> p (xs ! j))"
proof (induction xs arbitrary: i)
  case (Cons x xs)
  then show ?case by (cases i) (auto simp: less_Suc_eq_0_disj)
qed simp

lemma best_snoc:
  "fold (best_step l) (enumerate n (vs @ [v])) bi
     = best_step l (n + length vs, v) (fold (best_step l) (enumerate n vs) bi)"
  by (simp add: enumerate_append_eq)

text \<open>What the loop has found after a list: its best number and the first place of it.\<close>

definition found_best :: "bool \<Rightarrow> rat option list \<Rightarrow> rat option \<times> int \<Rightarrow> bool" where
  "found_best l vs bi \<longleftrightarrow>
     (bi = (None, - 1) \<and> list_all (\<lambda>v. v = None) vs)
     \<or> (\<exists>i. i < length vs \<and> bi = (vs ! i, int i) \<and> unbeaten l vs (vs ! i) \<and> (\<forall>j < i. vs ! j \<noteq> vs ! i))"

lemma unbeaten_Some: "unbeaten l vs v \<Longrightarrow> \<exists>x. v = Some x"
  by (cases v) (simp_all add: unbeaten_def)

lemma unbeaten_snoc_None [simp]: "unbeaten l (vs @ [None]) v = unbeaten l vs v"
  by (cases v) (simp_all add: unbeaten_def)

lemma unbeaten_snoc: "unbeaten l (vs @ [Some y]) (Some x) \<longleftrightarrow> unbeaten l vs (Some x) \<and> (if l then x \<le> y else y \<le> x)"
  by (simp add: unbeaten_def)

lemma unbeaten_trans:
  "unbeaten l vs (Some x) \<Longrightarrow> (if l then y \<le> x else x \<le> y) \<Longrightarrow> unbeaten l vs (Some y)"
  by (auto simp: unbeaten_def list_all_iff split: option.splits if_splits)

lemma unbeaten_in: "unbeaten l vs (Some x) \<Longrightarrow> Some y \<in> set vs \<Longrightarrow> (if l then x \<le> y else y \<le> x)"
  by (auto simp: unbeaten_def list_all_iff)

lemma found_best_step:
  assumes "found_best l vs bi"
  shows "found_best l (vs @ [v]) (best_step l (length vs, v) bi)"
proof (cases v)
  case None
  then show ?thesis using assms
    by (auto simp: found_best_def best_step_def nth_append)
next
  case (Some y)
  from assms show ?thesis unfolding found_best_def
  proof (elim disjE exE conjE)
    assume "bi = (None, - 1)" "list_all (\<lambda>v. v = None) vs"
    then have "best_step l (length vs, v) bi = (Some y, int (length vs))" "unbeaten l (vs @ [Some y]) (Some y)"
      "\<forall>j < length vs. vs ! j = None"
      by (auto simp: best_step_def Some unbeaten_def list_all_iff)
    then show "(best_step l (length vs, v) bi = (None, - 1) \<and> list_all (\<lambda>v. v = None) (vs @ [v]))
      \<or> (\<exists>i. i < length (vs @ [v]) \<and> best_step l (length vs, v) bi = ((vs @ [v]) ! i, int i)
        \<and> unbeaten l (vs @ [v]) ((vs @ [v]) ! i) \<and> (\<forall>j < i. (vs @ [v]) ! j \<noteq> (vs @ [v]) ! i))"
      by (intro disjI2 exI [of _ "length vs"]) (simp add: Some nth_append)
  next
    fix i assume i: "i < length vs" "bi = (vs ! i, int i)" "unbeaten l vs (vs ! i)" "\<forall>j < i. vs ! j \<noteq> vs ! i"
    obtain x where x: "vs ! i = Some x" using unbeaten_Some [OF i(3)] by blast
    show "(best_step l (length vs, v) bi = (None, - 1) \<and> list_all (\<lambda>v. v = None) (vs @ [v]))
      \<or> (\<exists>i. i < length (vs @ [v]) \<and> best_step l (length vs, v) bi = ((vs @ [v]) ! i, int i)
        \<and> unbeaten l (vs @ [v]) ((vs @ [v]) ! i) \<and> (\<forall>j < i. (vs @ [v]) ! j \<noteq> (vs @ [v]) ! i))"
    proof (cases "if l then x \<le> y else y \<le> x")
      case True
      then have "best_step l (length vs, v) bi = bi" by (auto simp: best_step_def Some i(2) x split: if_splits)
      then show ?thesis
        using i True by (intro disjI2 exI [of _ i]) (simp add: Some nth_append x unbeaten_snoc)
    next
      case False
      then have b: "best_step l (length vs, v) bi = (Some y, int (length vs))"
        by (auto simp: best_step_def Some i(2) x split: if_splits)
      have "unbeaten l vs (Some y)" using unbeaten_trans [of l vs x y] i(3) x False by (auto split: if_splits)
      moreover have "Some y \<notin> set vs" using unbeaten_in [of l vs x y] i(3) x False by auto
      then have "\<forall>j < length vs. vs ! j \<noteq> Some y" using nth_mem by fastforce
      ultimately show ?thesis
        using b by (intro disjI2 exI [of _ "length vs"]) (simp add: Some nth_append unbeaten_snoc)
    qed
  qed
qed

lemma found_best_fold: "found_best l vs (fold (best_step l) (enumerate 0 vs) (None, - 1))"
proof (induction vs rule: rev_induct)
  case (snoc v vs)
  then show ?case using found_best_step [OF snoc] best_snoc [of l 0 vs v] by simp
qed (simp add: found_best_def)

text \<open>The trophy of a row goes to the first of the partners whose number none beats, to none when
  no partner has one.\<close>

theorem trophy_to_first_unbeaten:
  "bestIdx vs l = (case index_where (unbeaten l vs) vs of None \<Rightarrow> - 1 | Some i \<Rightarrow> int i)"
proof -
  have "found_best l vs (fold (best_step l) (enumerate 0 vs) (None, - 1))" by (rule found_best_fold)
  then show ?thesis unfolding found_best_def
  proof (elim disjE exE conjE)
    assume a: "fold (best_step l) (enumerate 0 vs) (None, - 1) = (None, - 1)" "list_all (\<lambda>v. v = None) vs"
    then have "index_where (unbeaten l vs) vs = None"
      unfolding index_where_None by (auto simp: list_all_iff dest: unbeaten_Some)
    then show ?thesis by (simp add: bestIdx_def a(1))
  next
    fix i assume i: "i < length vs" "fold (best_step l) (enumerate 0 vs) (None, - 1) = (vs ! i, int i)"
      "unbeaten l vs (vs ! i)" "\<forall>j < i. vs ! j \<noteq> vs ! i"
    have "\<not> unbeaten l vs (vs ! j)" if j: "j < i" for j
    proof
      assume u: "unbeaten l vs (vs ! j)"
      obtain x y where xy: "vs ! i = Some x" "vs ! j = Some y" using unbeaten_Some u i(3) by metis
      have "Some x \<in> set vs" "Some y \<in> set vs" using i(1) j nth_mem xy by (metis order_less_trans)+
      then have "x = y" using unbeaten_in [of l vs x y] unbeaten_in [of l vs y x] u i(3) xy by (auto split: if_splits)
      then show False using i(4) j xy by simp
    qed
    then have "index_where (unbeaten l vs) vs = Some i"
      unfolding index_where_Some using i by blast
    then show ?thesis by (simp add: bestIdx_def i(2))
  qed
qed

text \<open>A column of equals has its trophy on the first; a row without numbers has none.\<close>

lemma trophy_examples:
  "bestIdx [Some 3, None, Some 3] False = 0" "bestIdx [None, Some 4, Some 2, Some 2] True = 2" "bestIdx [None, None] l = - 1"
  by (simp_all add: bestIdx_def best_step_def numeral_2_eq_2)

section \<open>The CSV reads back\<close>

definition plain_text :: "string \<Rightarrow> bool" where
  "plain_text s \<longleftrightarrow> DQ \<notin> set s"

lemma plain_append [simp]: "plain_text (s @ t) \<longleftrightarrow> plain_text s \<and> plain_text t"
  by (auto simp: plain_text_def)

lemma plain_digits: "list_all is_digit s \<Longrightarrow> plain_text s"
proof -
  have "\<not> is_digit DQ" by code_simp
  then show "list_all is_digit s \<Longrightarrow> plain_text s" by (auto simp: plain_text_def list_all_iff)
qed

lemma plain_numbers: "plain_text (number_text x)" "plain_text (int_text i)" "plain_text (opt_text v)"
proof -
  have *: "plain_text ''-''" "plain_text ''.''" "plain_text []" by (simp_all add: plain_text_def DQ_is)
  show n: "plain_text (number_text x)" for x
    using plain_digits [OF nat_text_all_digits] plain_digits [OF pad_digits_all] *
    by (simp add: number_text_def to_fixed_def Let_def plain_text_def)
  show "plain_text (int_text i)"
    using plain_digits [OF nat_text_all_digits] * by (simp add: int_text_def plain_text_def)
  show "plain_text (opt_text v)" using n * by (simp add: opt_text_def split: option.split)
qed

lemma read_field_quoted:
  "plain_text c \<Longrightarrow> r = [] \<or> hd r \<noteq> DQ \<Longrightarrow> read_field (quoted_cell c @ r) = Some (c, r)"
  using read_quoted_doubled [of r c] by (simp add: quoted_cell_def read_field_def replace_all_plain plain_text_def)

lemma read_quoted_line:
  assumes "r = [] \<or> hd r = LF"
  shows "cs \<noteq> [] \<Longrightarrow> list_all plain_text cs \<Longrightarrow>
    csv_records row (join_with '','' (map quoted_cell cs) @ r)
      = (if tl r = [] then Some [row @ cs] else map_option (Cons (row @ cs)) (csv_records [] (tl r)))"
proof (induction cs arbitrary: row)
  case (Cons c cs)
  show ?case
  proof (cases cs)
    case Nil
    have "read_field (quoted_cell c @ r) = Some (c, r)"
      using assms Cons.prems by (intro read_field_quoted) auto
    then show ?thesis using assms Nil by (subst csv_records.simps, cases r) auto
  next
    case (Cons d ds)
    have "read_field (quoted_cell c @ CHR '','' # join_with '','' (map quoted_cell cs) @ r)
        = Some (c, CHR '','' # join_with '','' (map quoted_cell cs) @ r)"
      using Cons.prems by (intro read_field_quoted) auto
    then show ?thesis using Cons.IH [of "row @ [c]"] Cons Cons.prems
      by (subst csv_records.simps) (simp add: join_with_Cons)
  qed
qed simp

lemma quoted_line_nonempty: "r \<noteq> [] \<Longrightarrow> join_with '','' (map quoted_cell r) \<noteq> []"
  by (cases r; cases "tl r") (simp_all add: quoted_cell_def join_with_Cons)

lemma read_quoted_lines:
  "rs \<noteq> [] \<Longrightarrow> list_all (\<lambda>r. r \<noteq> [] \<and> list_all plain_text r) rs \<Longrightarrow>
   csv_records [] (join_with [LF] (map (\<lambda>r. join_with '','' (map quoted_cell r)) rs)) = Some rs"
proof (induction rs)
  case (Cons r rs)
  have "join_with [LF] (map (\<lambda>r. join_with '','' (map quoted_cell r)) rs) \<noteq> []" if "rs \<noteq> []"
    using that Cons.prems quoted_line_nonempty [of "hd rs"] by (cases rs) (auto simp: join_with_Cons)
  then show ?case
    using read_quoted_line [of "if rs = [] then [] else [LF] @ join_with [LF] (map (\<lambda>r. join_with '','' (map quoted_cell r)) rs)" r "[]"]
      Cons by (simp add: join_with_Cons)
qed simp

text \<open>The texts of a partner that are not computed.\<close>

definition partner_plain :: "partner_item \<Rightarrow> bool" where
  "partner_plain p \<longleftrightarrow> list_all plain_text
     ([pi_firm p, pi_availability p, pi_status p, case pi_trend p of None \<Rightarrow> [] | Some t \<Rightarrow> t]
      @ pi_capabilities p @ pi_geographies p)"

lemma plain_join: "plain_text sep \<Longrightarrow> list_all plain_text ws \<Longrightarrow> plain_text (join_with sep ws)"
  by (induction ws) (auto simp: join_with_Cons plain_text_def)

lemma labels_plain: "list_all plain_text (map hd (comparison_rows ps))"
  by (simp add: comparison_rows_def plain_text_def DQ_is)

lemma row_plain:
  "list_all partner_plain ps \<Longrightarrow> list_all (\<lambda>r. r \<noteq> [] \<and> list_all plain_text r) (comparison_rows ps)"
proof -
  assume p: "list_all partner_plain ps"
  have t: "plain_text ''; ''" "plain_text ''Yes''" "plain_text ''No''" by (simp_all add: plain_text_def DQ_is)
  have "list_all plain_text (map f ps)" if "\<And>p. partner_plain p \<Longrightarrow> plain_text (f p)" for f
    using p that by (auto simp: list_all_iff)
  note m = this
  have l: "list_all plain_text (map hd (comparison_rows ps))" by (rule labels_plain)
  have b: "list_all (list_all plain_text) (map tl (comparison_rows ps))"
    unfolding comparison_rows_def
    using plain_join [OF t(1)]
    by (auto simp: plain_numbers t partner_plain_def intro!: m split: option.splits)
  have "list_all (\<lambda>r. r \<noteq> []) (comparison_rows ps)" by (simp add: comparison_rows_def)
  with l b show ?thesis by (auto simp: list_all_iff) (metis list.collapse set_ConsD)
qed

text \<open>Without a double quote in the texts of the partners the file reads as the table.\<close>

theorem comparison_csv_reads_back:
  assumes "list_all partner_plain ps"
  shows "csv_read (downloadCsv ps) = Some (comparison_rows ps)"
proof -
  have "comparison_rows ps \<noteq> []" by (simp add: comparison_rows_def)
  then show ?thesis unfolding csv_read_def downloadCsv_def by (rule read_quoted_lines) (rule row_plain [OF assms])
qed

definition sample_partner :: partner_item where
  "sample_partner = \<lparr> pi_id = ''p1'', pi_firm = ''Acme, Ltd'', pi_availability = ''busy'', pi_status = ''active'',
     pi_capabilities = [''tax'', ''law''], pi_geographies = [], pi_compliance = True, pi_composite = Some 80,
     pi_overall = None, pi_quality = None, pi_timeliness = None, pi_communication = None, pi_ratings = 0,
     pi_sla_rate = None, pi_sla_tracked = 0, pi_sla_breached = 0, pi_assignments = 2, pi_completed = 1,
     pi_active = 1, pi_max = 4, pi_utilisation = 25, pi_remaining = 3, pi_trend = None \<rparr>"

lemma comparison_csv_witness: "map_option hd (csv_read (downloadCsv [sample_partner])) = Some [''Metric'', ''Acme, Ltd'']"
  using comparison_csv_reads_back [of "[sample_partner]"]
  by (simp add: partner_plain_def sample_partner_def plain_text_def DQ_is comparison_rows_def)

text \<open>A quote in a name is not doubled: the cell ends there, and the text is not CSV.\<close>

lemma quote_in_name_cut:
  "csv_read (join_with '','' (map quoted_cell [[CHR ''A'', DQ, CHR ''B''], ''C''])) = None"
  by code_simp

end
