(* ===== verification/TourViews.thy ===== *)
theory TourViews
  imports Tours JsNumbers
begin

text \<open>
  The views of the tours, on the store of Tours.thy: the popover, the runner with its two sets of
  buttons, the welcome dialog, the address that starts a tour
  (\<open>components/tours/tour-manager.tsx\<close>) and the tour that wraps the application
  (\<open>components/tours/guided-tour.tsx\<close>).

  The tour library is third-party; what the code relies on is written out: its provider keeps
  whether the tour is open, closed at first, and the step, first \<open>startAt\<close>, and both change only
  through \<open>setIsOpen\<close> and \<open>setCurrentStep\<close> (its own keys and dots act only while it is open).
\<close>

section \<open>The popover\<close>

definition isFirstStep :: "int \<Rightarrow> bool" where
  "isFirstStep currentStep \<longleftrightarrow> currentStep = 0"

definition isLastStep :: "int \<Rightarrow> int \<Rightarrow> bool" where
  "isLastStep currentStep totalSteps \<longleftrightarrow> currentStep = totalSteps - 1"

definition popover_progress :: "int \<Rightarrow> int \<Rightarrow> rat" where
  "popover_progress currentStep totalSteps = of_int (currentStep + 1) / of_int totalSteps * 100"

definition next_label :: "int \<Rightarrow> int \<Rightarrow> string" where
  "next_label currentStep totalSteps = (if isLastStep currentStep totalSteps then ''Finish'' else ''Next'')"

definition step_caption :: "int \<Rightarrow> int \<Rightarrow> string" where
  "step_caption currentStep totalSteps = ''Step '' @ int_text (currentStep + 1) @ '' of '' @ int_text totalSteps"

section \<open>The list of tours\<close>

text \<open>The button of a tour: whether it restarts.\<close>

definition offers_restart :: "tours_store \<Rightarrow> string \<Rightarrow> bool" where
  "offers_restart s i \<longleftrightarrow> isTourCompleted s i \<or> isTourSkipped s i"

definition press_tour :: "registry \<Rightarrow> string \<Rightarrow> tours_store \<Rightarrow> tours_store" where
  "press_tour reg i s = snd (if offers_restart s i then restartTour reg i s else beginTour reg i s)"

section \<open>The runner\<close>

record tour_provider =
  is_open :: bool
  current_step :: int

record runner =
  r_store :: tours_store
  r_provider :: "tour_provider option"

text \<open>\<open>TourRunner\<close> draws the provider while there is an active tour that is registered; a new one
  starts at the last step.  React keeps the provider while it is drawn.\<close>

definition active_tour :: "registry \<Rightarrow> tours_store \<Rightarrow> tour_definition option" where
  "active_tour reg s =
     (case activeTourId s of None \<Rightarrow> None | Some i \<Rightarrow> if i = [] then None else getTour reg i)"

definition start_at :: "tours_store \<Rightarrow> int" where
  "start_at s =
     (case activeTourId s of None \<Rightarrow> 0
      | Some i \<Rightarrow> (case map_of (tours s) i of None \<Rightarrow> 0
          | Some t \<Rightarrow> (case lastStep t of None \<Rightarrow> 0 | Some n \<Rightarrow> n)))"

definition draw_runner :: "registry \<Rightarrow> runner \<Rightarrow> runner" where
  "draw_runner reg r =
     r\<lparr> r_provider := (case active_tour reg (r_store r) of
        None \<Rightarrow> None
      | Some t \<Rightarrow> (case r_provider r of
            None \<Rightarrow> Some \<lparr> is_open = False, current_step = start_at (r_store r) \<rparr>
          | Some p \<Rightarrow> Some p)) \<rparr>"

text \<open>The handlers of \<open>TourRunnerInternal\<close>; they exist while the tour is open.\<close>

definition set_provider :: "(tour_provider \<Rightarrow> tour_provider) \<Rightarrow> runner \<Rightarrow> runner" where
  "set_provider f r = r\<lparr> r_provider := map_option f (r_provider r) \<rparr>"

definition runner_previous :: "tour_provider \<Rightarrow> runner \<Rightarrow> runner" where
  "runner_previous p r =
     (if 0 < current_step p then set_provider (\<lambda>q. q\<lparr> current_step := current_step p - 1 \<rparr>) r else r)"

definition runner_next :: "int \<Rightarrow> tour_definition \<Rightarrow> tour_provider \<Rightarrow> runner \<Rightarrow> runner" where
  "runner_next now t p r =
     (if current_step p = int (steps t) - 1
      then (case activeTourId (r_store r) of None \<Rightarrow> r
        | Some i \<Rightarrow> set_provider (\<lambda>q. q\<lparr> is_open := False \<rparr>)
            (r\<lparr> r_store := completeTour now i (Some (category t)) (r_store r) \<rparr>))
      else set_provider (\<lambda>q. q\<lparr> current_step := current_step p + 1 \<rparr>) r)"

definition runner_skip :: "int \<Rightarrow> runner \<Rightarrow> runner" where
  "runner_skip now r =
     (case activeTourId (r_store r) of None \<Rightarrow> r
      | Some i \<Rightarrow> set_provider (\<lambda>q. q\<lparr> is_open := False \<rparr>) (r\<lparr> r_store := skipTour now i (r_store r) \<rparr>))"

text \<open>The popover the library draws itself: its next button acts on the last step only, its effect
  records the step.\<close>

definition content_next :: "int \<Rightarrow> tour_definition \<Rightarrow> tour_provider \<Rightarrow> runner \<Rightarrow> runner" where
  "content_next now t p r = (if isLastStep (current_step p) (int (steps t)) then runner_next now t p r else r)"

definition content_effect :: "tour_provider \<Rightarrow> runner \<Rightarrow> runner" where
  "content_effect p r =
     (case activeTourId (r_store r) of None \<Rightarrow> r
      | Some i \<Rightarrow> r\<lparr> r_store := updateProgress i (current_step p) (r_store r) \<rparr>)"

text \<open>The library closes the tour on Escape and on its mask, and \<open>beforeClose\<close> ends it.\<close>

definition library_close :: "runner \<Rightarrow> runner" where
  "library_close r = set_provider (\<lambda>q. q\<lparr> is_open := False \<rparr>) (r\<lparr> r_store := endTour (r_store r) \<rparr>)"

datatype runner_event =
    RStore tour_event
  | RPrevious
  | RNext int
  | RSkip int
  | RContentNext int
  | RContentEffect
  | RLibraryClose
  | RDot int

text \<open>What needs an open tour is not there otherwise.\<close>

fun runner_act :: "registry \<Rightarrow> runner_event \<Rightarrow> runner \<Rightarrow> runner" where
  "runner_act reg (RStore e) r = r\<lparr> r_store := tour_step reg (r_store r) e \<rparr>"
| "runner_act reg ev r =
     (case (r_provider r, active_tour reg (r_store r)) of
        (Some p, Some t) \<Rightarrow>
          if \<not> is_open p then r
          else (case ev of
              RPrevious \<Rightarrow> runner_previous p r
            | RNext now \<Rightarrow> runner_next now t p r
            | RSkip now \<Rightarrow> runner_skip now r
            | RContentNext now \<Rightarrow> content_next now t p r
            | RContentEffect \<Rightarrow> content_effect p r
            | RLibraryClose \<Rightarrow> library_close r
            | RDot n \<Rightarrow> set_provider (\<lambda>q. q\<lparr> current_step := n \<rparr>) r
            | RStore e \<Rightarrow> r)
      | _ \<Rightarrow> r)"

definition runner_step :: "registry \<Rightarrow> runner \<Rightarrow> runner_event \<Rightarrow> runner" where
  "runner_step reg r ev = draw_runner reg (runner_act reg ev r)"

definition runner_start :: runner where
  "runner_start = \<lparr> r_store = tours_init, r_provider = None \<rparr>"

section \<open>The manager\<close>

text \<open>\<open>handleStartTour\<close>, \<open>handleSkipPrompt\<close> and the effect of the address.\<close>

definition handleStartTour :: "registry \<Rightarrow> tours_store \<Rightarrow> tours_store" where
  "handleStartTour reg s = snd (beginTour reg ''onboarding'' (setShowPrompt False s))"

definition handleSkipPrompt :: "tours_store \<Rightarrow> tours_store" where
  "handleSkipPrompt s = setInitialized True (setShowPrompt False s)"

definition url_effect :: "registry \<Rightarrow> string option \<Rightarrow> tours_store \<Rightarrow> tours_store" where
  "url_effect reg tourParam s =
     (case tourParam of None \<Rightarrow> s | Some i \<Rightarrow> if i = [] then s else snd (beginTour reg i s))"

section \<open>The wrapping tour\<close>

record guided =
  g_store :: tours_store
  g_provider :: tour_provider

text \<open>The effect of \<open>GuidedTourInternal\<close>; \<open>tourState\<close> is read in the render before it.\<close>

definition guided_effect :: "string \<Rightarrow> guided \<Rightarrow> guided" where
  "guided_effect i g =
     (let tourState = getTourState (g_store g) i;
          lst = (case tourState of None \<Rightarrow> 0 | Some t \<Rightarrow> (case lastStep t of None \<Rightarrow> 0 | Some n \<Rightarrow> n))
      in if isTourCompleted (g_store g) i then g
         else g\<lparr> g_store := startTour i (g_store g),
                 g_provider := (g_provider g)\<lparr> is_open := True,
                   current_step := (if 0 < lst then lst else current_step (g_provider g)) \<rparr> \<rparr>)"

text \<open>Its dependencies are the id, which stays, and \<open>tourState\<close>: the effect runs again when that
  has changed.\<close>

definition guided_reruns :: "string \<Rightarrow> guided \<Rightarrow> guided \<Rightarrow> bool" where
  "guided_reruns i before after \<longleftrightarrow> getTourState (g_store before) i \<noteq> getTourState (g_store after) i"

definition guided_previous :: "guided \<Rightarrow> guided" where
  "guided_previous g = g\<lparr> g_provider := (g_provider g)\<lparr> current_step := current_step (g_provider g) - 1 \<rparr> \<rparr>"

definition guided_next :: "int \<Rightarrow> tour_definition \<Rightarrow> guided \<Rightarrow> guided" where
  "guided_next now t g =
     (if current_step (g_provider g) = int (steps t) - 1
      then g\<lparr> g_store := completeTour now (tour_id t) (Some (category t)) (g_store g),
              g_provider := (g_provider g)\<lparr> is_open := False \<rparr> \<rparr>
      else g\<lparr> g_provider := (g_provider g)\<lparr> current_step := current_step (g_provider g) + 1 \<rparr> \<rparr>)"

definition guided_skip :: "int \<Rightarrow> tour_definition \<Rightarrow> guided \<Rightarrow> guided" where
  "guided_skip now t g =
     g\<lparr> g_store := skipTour now (tour_id t) (g_store g), g_provider := (g_provider g)\<lparr> is_open := False \<rparr> \<rparr>"

definition convert_padding :: "int option \<Rightarrow> int" where
  "convert_padding p = (case p of None \<Rightarrow> 10 | Some n \<Rightarrow> n)"

section \<open>No tour is shown\<close>

definition closed_runner :: "runner \<Rightarrow> bool" where
  "closed_runner r \<longleftrightarrow> (case r_provider r of None \<Rightarrow> True | Some p \<Rightarrow> \<not> is_open p)"

lemma act_when_closed:
  assumes "closed_runner r"
  shows "runner_act reg ev r = (case ev of RStore e \<Rightarrow> r\<lparr> r_store := tour_step reg (r_store r) e \<rparr> | _ \<Rightarrow> r)"
  using assms by (cases ev) (auto simp: closed_runner_def split: option.split)

lemma draw_closed: "closed_runner r \<Longrightarrow> closed_runner (draw_runner reg r)"
  by (auto simp: closed_runner_def draw_runner_def split: option.splits)

lemma closed_step: "closed_runner r \<Longrightarrow> closed_runner (runner_step reg r ev)"
  unfolding runner_step_def act_when_closed
  by (rule draw_closed) (simp add: closed_runner_def split: runner_event.split)

lemma draw_store [simp]: "r_store (draw_runner reg r) = r_store r"
  by (simp add: draw_runner_def)

lemma closed_store:
  "closed_runner r \<Longrightarrow> r_store (runner_step reg r ev) = (case ev of RStore e \<Rightarrow> tour_step reg (r_store r) e | _ \<Rightarrow> r_store r)"
  by (simp add: runner_step_def act_when_closed split: runner_event.split)

interpretation runner_machine: machine "runner_step reg" closed_runner for reg
  by unfold_locales (rule closed_step)

lemma start_closed: "closed_runner runner_start"
  by (simp add: closed_runner_def runner_start_def)

fun store_events :: "runner_event list \<Rightarrow> tour_event list" where
  "store_events [] = []"
| "store_events (RStore e # es) = e # store_events es"
| "store_events (_ # es) = store_events es"

lemma runner_store_run:
  "closed_runner r \<Longrightarrow> r_store (run (runner_step reg) es r) = run (tour_step reg) (store_events es) (r_store r)"
proof (induction es arbitrary: r)
  case (Cons e es)
  then show ?case using closed_step [OF Cons.prems, of reg e] closed_store [OF Cons.prems, of reg e]
    by (cases e) simp_all
qed simp

text \<open>Nothing in the runner opens the tour: in every run it stays closed, its buttons are not there,
  and the store goes through its own events only.  A tour that is started is active and never
  shown.\<close>

theorem tours_never_shown:
  "closed_runner (run (runner_step reg) es runner_start)
   \<and> r_store (run (runner_step reg) es runner_start) = run (tour_step reg) (store_events es) tours_init"
  using runner_machine.every_run_inv [OF start_closed, of reg es] runner_store_run [OF start_closed, of reg es]
  by (simp add: runner_start_def)

text \<open>A started tour is active and has a provider, so it is there to be opened.\<close>

lemma started_tour_waits:
  assumes "getTour reg i = Some t" "i \<noteq> []"
  shows "r_provider (runner_step reg runner_start (RStore (TBegin i))) = Some \<lparr> is_open = False, current_step = 0 \<rparr>"
  using assms
  by (simp add: runner_step_def runner_start_def draw_runner_def active_tour_def beginTour_def isTourCompleted_def
      tours_init_def startTour_def start_at_def existing_def defaultTourState_def)

section \<open>The wrapping tour starts for ever\<close>

lemma existing_start: "existing i (startTour i s) = (existing i s)\<lparr> startCount := startCount (existing i s) + 1, skipped := False, skippedAt := None \<rparr>"
  by (simp add: existing_def startTour_def update_conv')

lemma completed_existing: "isTourCompleted s i = completed (existing i s)"
  by (simp add: isTourCompleted_def existing_def defaultTourState_def split: option.split)

lemma guided_effect_once:
  assumes "\<not> isTourCompleted (g_store g) i"
  shows "\<not> isTourCompleted (g_store (guided_effect i g)) i"
    "startCount (existing i (g_store (guided_effect i g))) = startCount (existing i (g_store g)) + 1"
    "guided_reruns i g (guided_effect i g)"
proof -
  have s: "g_store (guided_effect i g) = startTour i (g_store g)" using assms by (simp add: guided_effect_def Let_def)
  show "\<not> isTourCompleted (g_store (guided_effect i g)) i"
    using assms by (simp add: completed_existing s existing_start)
  show c: "startCount (existing i (g_store (guided_effect i g))) = startCount (existing i (g_store g)) + 1"
    by (simp add: s existing_start)
  show "guided_reruns i g (guided_effect i g)"
    using c by (auto simp: guided_reruns_def getTourState_def existing_def defaultTourState_def)
qed

text \<open>C33.  While the tour is not completed its effect changes what it depends on: it runs again, counts
  one start more, and never comes to rest; a completed tour is left alone.\<close>

theorem guided_tour_rests_iff:
  "(\<exists>n. \<not> guided_reruns i ((guided_effect i ^^ n) g) ((guided_effect i ^^ Suc n) g)) \<longleftrightarrow> isTourCompleted (g_store g) i"
proof (cases "isTourCompleted (g_store g) i")
  case True
  then have "guided_effect i g = g" by (simp add: guided_effect_def)
  then show ?thesis using True by (auto simp: guided_reruns_def intro!: exI [of _ 0])
next
  case False
  have "\<not> isTourCompleted (g_store ((guided_effect i ^^ n) g)) i" for n
    by (induction n) (simp_all add: False guided_effect_once)
  then show ?thesis using False guided_effect_once(3) by simp
qed

lemma guided_tour_counts:
  "\<not> isTourCompleted (g_store g) i \<Longrightarrow>
   \<not> isTourCompleted (g_store ((guided_effect i ^^ n) g)) i
   \<and> startCount (existing i (g_store ((guided_effect i ^^ n) g))) = startCount (existing i (g_store g)) + n"
  by (induction n) (simp_all add: guided_effect_once)

section \<open>Smaller facts\<close>

lemma popover_in_range:
  "0 \<le> n \<Longrightarrow> n < k \<Longrightarrow> 0 < popover_progress n k \<and> popover_progress n k \<le> 100"
  by (simp add: popover_progress_def field_simps)

lemma finish_is_full:
  assumes "0 < k"
  shows "isLastStep n k \<longleftrightarrow> popover_progress n k = 100"
proof -
  have "popover_progress n k = 100 \<longleftrightarrow> of_int (n + 1) / of_int k * 100 = (1 * 100 :: rat)"
    unfolding popover_progress_def by (simp only: mult_1)
  also have "\<dots> \<longleftrightarrow> of_int (n + 1) / of_int k = (1 :: rat)" by (rule mult_right_cancel) simp
  also have "\<dots> \<longleftrightarrow> of_int (n + 1) = (of_int k :: rat)" using assms by (subst divide_eq_1_iff) auto
  also have "\<dots> \<longleftrightarrow> n + 1 = k" by (rule of_int_eq_iff)
  finally show ?thesis by (auto simp: isLastStep_def)
qed

text \<open>The welcome dialog is left in both ways; dismissing it marks the tours as seen, starting does not.\<close>

lemma prompt_left:
  "\<not> showPrompt (handleSkipPrompt s)" "\<not> showPrompt (handleStartTour reg s)"
  "initialized (handleSkipPrompt s)" "initialized (handleStartTour reg s) = initialized s"
  by (auto simp: handleSkipPrompt_def handleStartTour_def tour_ops split: option.split)

text \<open>The address starts a skipped tour again, and a completed one not.\<close>

lemma address_starts:
  "isTourCompleted s i \<Longrightarrow> url_effect reg (Some i) s = s"
  "getTour reg i = Some t \<Longrightarrow> i \<noteq> [] \<Longrightarrow> \<not> isTourCompleted s i \<Longrightarrow> activeTourId (url_effect reg (Some i) s) = Some i"
  by (auto simp: url_effect_def beginTour_def startTour_def split: option.split)

text \<open>Before the last step the next button of the library's popover does nothing.\<close>

lemma content_next_idle: "current_step p \<noteq> int (steps t) - 1 \<Longrightarrow> content_next now t p r = r"
  by (simp add: content_next_def isLastStep_def)

end
