(* ===== verification/HelpPanel.thy ===== *)
theory HelpPanel
  imports Breadcrumbs
begin

text \<open>
  Help: the context read off the path (\<open>hooks/use-help-context.ts\<close>), the articles and their search
  (\<open>components/help/help-content.tsx\<close>) and the panel with its contact form
  (\<open>components/help/help-panel.tsx\<close>).

  The articles are written out without their icons.  A capital letter of the characters below 256
  is below 256 except those of three letters (the micro sign, the sharp s and the y with two dots),
  which stay as they are here.
\<close>

section \<open>Where the user is\<close>

definition routeMap :: "(string \<times> string) list" where
  "routeMap =
    [('''', ''dashboard''),
     (''clients'', ''clients''),
     (''partners'', ''partners''),
     (''programs'', ''programs''),
     (''tasks'', ''tasks''),
     (''deliverables'', ''deliverables''),
     (''assignments'', ''assignments''),
     (''scheduling'', ''scheduling''),
     (''approvals'', ''approvals''),
     (''budget-approvals'', ''budget-approvals''),
     (''finance'', ''finance''),
     (''compliance'', ''compliance''),
     (''certificates'', ''certificates''),
     (''sla'', ''sla''),
     (''escalations'', ''escalations''),
     (''audit-logs'', ''audit-logs''),
     (''decisions'', ''decisions''),
     (''deletion-requests'', ''deletion-requests''),
     (''access-audits'', ''access-audits''),
     (''analytics'', ''analytics''),
     (''reports'', ''reports''),
     (''communications'', ''communications''),
     (''notifications'', ''notifications''),
     (''settings'', ''settings''),
     (''portfolio'', ''portfolio''),
     (''workload'', ''workload''),
     (''users'', ''users''),
     (''kyc'', ''kyc''),
     (''capability-reviews'', ''capability-reviews'')]"


definition segments_of :: "string \<Rightarrow> string list" where
  "segments_of pathname = filter (\<lambda>s. s \<noteq> []) (split_on CHR ''/'' pathname)"

record help_context =
  hc_pathname :: string
  hc_pageType :: string
  hc_userRole :: "string option"
  hc_isDetailPage :: bool
  hc_isFormPage :: bool
  hc_breadcrumb :: "string list"

definition page_type :: "string list \<Rightarrow> string" where
  "page_type segments =
     (case segments of [] \<Rightarrow> ''dashboard''
      | s # _ \<Rightarrow> (case map_of routeMap s of None \<Rightarrow> s | Some t \<Rightarrow> if t = [] then s else t))"

definition is_detail :: "string list \<Rightarrow> bool" where
  "is_detail segments \<longleftrightarrow>
     2 \<le> length segments \<and> segments ! 1 \<noteq> ''new'' \<and> segments ! 1 \<noteq> ''edit'' \<and> \<not> starts_with ''['' (segments ! 1)"

definition is_form :: "string list \<Rightarrow> bool" where
  "is_form segments \<longleftrightarrow> ''new'' \<in> set segments \<or> ''edit'' \<in> set segments"

definition breadcrumb_context :: "string list \<Rightarrow> string list" where
  "breadcrumb_context segments =
     map (\<lambda>(i, s). if is_uuid s then ''item-'' @ nat_text i else s) (enumerate 0 segments)"

definition useHelpContext :: "string \<Rightarrow> string option \<Rightarrow> help_context" where
  "useHelpContext pathname role =
     (let segments = segments_of pathname in
      \<lparr> hc_pathname = pathname, hc_pageType = page_type segments, hc_userRole = role,
        hc_isDetailPage = is_detail segments, hc_isFormPage = is_form segments,
        hc_breadcrumb = breadcrumb_context segments \<rparr>)"

definition page_titles :: "(string \<times> string) list" where
  "page_titles =
    [(''dashboard'', ''Dashboard''),
     (''clients'', ''Clients''),
     (''partners'', ''Partners''),
     (''programs'', ''Programs''),
     (''tasks'', ''Task Board''),
     (''deliverables'', ''Deliverables''),
     (''assignments'', ''Assignments''),
     (''scheduling'', ''Scheduling''),
     (''approvals'', ''Approvals''),
     (''budget-approvals'', ''Budget Approvals''),
     (''finance'', ''Finance''),
     (''compliance'', ''Compliance''),
     (''certificates'', ''Certificates''),
     (''sla'', ''SLA Tracking''),
     (''escalations'', ''Escalations''),
     (''audit-logs'', ''Audit Logs''),
     (''decisions'', ''Decisions''),
     (''deletion-requests'', ''Deletion Requests''),
     (''access-audits'', ''Access Audits''),
     (''analytics'', ''Analytics''),
     (''reports'', ''Reports''),
     (''communications'', ''Messages''),
     (''notifications'', ''Notifications''),
     (''settings'', ''Settings''),
     (''portfolio'', ''My Portfolio''),
     (''workload'', ''Workload''),
     (''users'', ''Users''),
     (''kyc'', ''KYC''),
     (''capability-reviews'', ''Capability Reviews'')]"


definition capital_char :: "char \<Rightarrow> char" where
  "capital_char c =
     (if (97 \<le> code c \<and> code c \<le> 122) \<or> (224 \<le> code c \<and> code c \<le> 254 \<and> code c \<noteq> 247)
      then char_of (code c - 32) else c)"

definition capitalized :: "string \<Rightarrow> string" where
  "capitalized w = map capital_char (take 1 w) @ drop 1 w"

definition getPageTitle :: "string \<Rightarrow> string" where
  "getPageTitle pageType =
     (case map_of page_titles pageType of None \<Rightarrow> capitalized pageType
      | Some t \<Rightarrow> if t = [] then capitalized pageType else t)"

section \<open>The articles\<close>

datatype article_type = Guide | Article | Video | Faq

record help_article =
  ha_id :: string
  ha_title :: string
  ha_description :: "string option"
  ha_type :: article_type
  ha_url :: "string option"
  ha_video :: "string option"
  ha_duration :: "string option"

record help_section =
  hs_title :: string
  hs_articles :: "help_article list"

record page_help =
  hp_title :: string
  hp_overview :: string
  hp_tips :: "string list option"
  hp_sections :: "help_section list"
  hp_related :: "help_article list option"
  hp_docs :: "string option"

definition help_dashboard :: page_help where
  "help_dashboard = \<lparr> hp_title = ''Dashboard'',
     hp_overview = ''Your central hub for monitoring key metrics, recent activity, and upcoming tasks across all programs and clients.'',
     hp_tips = Some [''Use the command palette (Cmd+K) to quickly navigate to any page'',
       ''Click on metric cards to drill down into detailed views'',
       ''Pin frequently accessed items for quick access''],
     hp_sections =
    [
     \<lparr> hs_title = ''Getting Started'', hs_articles =
      [\<lparr> ha_id = ''dashboard-overview'', ha_title = ''Dashboard Overview'', ha_description = Some ''Learn about the dashboard layout and key features'',
       ha_type = Guide, ha_url = None, ha_video = None, ha_duration = None \<rparr>,
       \<lparr> ha_id = ''dashboard-metrics'', ha_title = ''Reading Dashboard Metrics'', ha_description = Some ''Understand what each metric card shows'',
       ha_type = Article, ha_url = None, ha_video = None, ha_duration = None \<rparr>] \<rparr>,
     \<lparr> hs_title = ''Video Tutorials'', hs_articles =
      [\<lparr> ha_id = ''dashboard-tour'', ha_title = ''Dashboard Tour'', ha_description = Some ''5-minute walkthrough of all features'',
       ha_type = Video, ha_url = None, ha_video = Some ''dashboard-tour'', ha_duration = Some ''5:00'' \<rparr>] \<rparr>],
     hp_related = Some [\<lparr> ha_id = ''notifications-setup'', ha_title = ''Setting Up Notifications'', ha_description = None,
       ha_type = Article, ha_url = None, ha_video = None, ha_duration = None \<rparr>],
     hp_docs = Some ''/api/v1/docs'' \<rparr>"

definition help_clients :: page_help where
  "help_clients = \<lparr> hp_title = ''Clients'',
     hp_overview = ''Manage your client database, view client profiles, track relationships, and maintain client documentation.'',
     hp_tips = Some [''Use filters to find clients by status, relationship manager, or tags'',
       ''Bulk actions let you update multiple clients at once'',
       ''Star important clients to add them to your favorites''],
     hp_sections =
    [
     \<lparr> hs_title = ''Managing Clients'', hs_articles =
      [\<lparr> ha_id = ''add-client'', ha_title = ''Adding a New Client'', ha_description = Some ''Step-by-step guide to client onboarding'',
       ha_type = Guide, ha_url = None, ha_video = None, ha_duration = None \<rparr>,
       \<lparr> ha_id = ''client-profile'', ha_title = ''Understanding Client Profiles'', ha_description = Some ''Navigate client details and history'',
       ha_type = Article, ha_url = None, ha_video = None, ha_duration = None \<rparr>,
       \<lparr> ha_id = ''family-members'', ha_title = ''Managing Family Members'', ha_description = Some ''Add and organize family relationships'',
       ha_type = Article, ha_url = None, ha_video = None, ha_duration = None \<rparr>] \<rparr>,
     \<lparr> hs_title = ''Best Practices'', hs_articles =
      [\<lparr> ha_id = ''client-segmentation'', ha_title = ''Client Segmentation Strategy'', ha_description = Some ''Organize clients effectively'',
       ha_type = Article, ha_url = None, ha_video = None, ha_duration = None \<rparr>] \<rparr>],
     hp_related = None,
     hp_docs = Some ''/api/v1/docs'' \<rparr>"

definition help_partners :: page_help where
  "help_partners = \<lparr> hp_title = ''Partners'',
     hp_overview = ''Manage partner organizations, track performance metrics, and coordinate service delivery.'',
     hp_tips = Some [''View partner performance scores in the analytics tab'',
       ''Set up automated notifications for partner updates'',
       ''Track partner certifications and compliance status''],
     hp_sections =
    [
     \<lparr> hs_title = ''Partner Management'', hs_articles =
      [\<lparr> ha_id = ''add-partner'', ha_title = ''Adding a New Partner'', ha_description = Some ''Onboard partner organizations'',
       ha_type = Guide, ha_url = None, ha_video = None, ha_duration = None \<rparr>,
       \<lparr> ha_id = ''partner-performance'', ha_title = ''Understanding Partner Scores'', ha_description = Some ''How performance metrics are calculated'',
       ha_type = Article, ha_url = None, ha_video = None, ha_duration = None \<rparr>] \<rparr>],
     hp_related = None,
     hp_docs = Some ''/api/v1/docs'' \<rparr>"

definition help_programs :: page_help where
  "help_programs = \<lparr> hp_title = ''Programs'',
     hp_overview = ''Create and manage programs for clients, track milestones, and coordinate deliverables across teams.'',
     hp_tips = Some [''Use the timeline view to visualize program progress'',
       ''Set up milestone reminders to stay on track'',
       ''Clone existing programs as templates for new ones''],
     hp_sections =
    [
     \<lparr> hs_title = ''Program Setup'', hs_articles =
      [\<lparr> ha_id = ''create-program'', ha_title = ''Creating a Program'', ha_description = Some ''Step-by-step program creation'',
       ha_type = Guide, ha_url = None, ha_video = None, ha_duration = None \<rparr>,
       \<lparr> ha_id = ''program-templates'', ha_title = ''Using Program Templates'', ha_description = Some ''Save time with reusable templates'',
       ha_type = Article, ha_url = None, ha_video = None, ha_duration = None \<rparr>,
       \<lparr> ha_id = ''milestones'', ha_title = ''Setting Milestones'', ha_description = Some ''Define key program checkpoints'',
       ha_type = Article, ha_url = None, ha_video = None, ha_duration = None \<rparr>] \<rparr>,
     \<lparr> hs_title = ''Program Execution'', hs_articles =
      [\<lparr> ha_id = ''program-workflow'', ha_title = ''Program Workflow'', ha_description = Some ''8-minute deep dive'',
       ha_type = Video, ha_url = None, ha_video = Some ''program-workflow'', ha_duration = Some ''8:00'' \<rparr>] \<rparr>],
     hp_related = None,
     hp_docs = Some ''/api/v1/docs'' \<rparr>"

definition help_tasks :: page_help where
  "help_tasks = \<lparr> hp_title = ''Task Board'',
     hp_overview = ''View and manage tasks across all programs, assign team members, and track completion status.'',
     hp_tips = Some [''Drag and drop tasks between status columns'',
       ''Use quick filters to focus on your assignments'',
       ''Set due dates and priority levels for better organization''],
     hp_sections =
    [
     \<lparr> hs_title = ''Task Management'', hs_articles =
      [\<lparr> ha_id = ''task-basics'', ha_title = ''Task Board Basics'', ha_description = Some ''Navigate and use the task board'',
       ha_type = Guide, ha_url = None, ha_video = None, ha_duration = None \<rparr>,
       \<lparr> ha_id = ''task-assignment'', ha_title = ''Assigning Tasks'', ha_description = Some ''Delegate work to team members'',
       ha_type = Article, ha_url = None, ha_video = None, ha_duration = None \<rparr>] \<rparr>],
     hp_related = None,
     hp_docs = Some ''/api/v1/docs'' \<rparr>"

definition help_approvals :: page_help where
  "help_approvals = \<lparr> hp_title = ''Approvals'',
     hp_overview = ''Review and process approval requests for budgets, deliverables, and other items requiring authorization.'',
     hp_tips = Some [''Enable email notifications for urgent approvals'',
       ''Use bulk approve for routine items'',
       ''Add comments to explain rejection reasons''],
     hp_sections =
    [
     \<lparr> hs_title = ''Approval Process'', hs_articles =
      [\<lparr> ha_id = ''approval-workflow'', ha_title = ''Approval Workflow Guide'', ha_description = Some ''How the approval process works'',
       ha_type = Guide, ha_url = None, ha_video = None, ha_duration = None \<rparr>,
       \<lparr> ha_id = ''delegation'', ha_title = ''Delegating Approvals'', ha_description = Some ''Set up approval delegation'',
       ha_type = Article, ha_url = None, ha_video = None, ha_duration = None \<rparr>] \<rparr>],
     hp_related = None,
     hp_docs = Some ''/api/v1/docs'' \<rparr>"

definition help_settings :: page_help where
  "help_settings = \<lparr> hp_title = ''Settings'',
     hp_overview = ''Configure your account preferences, notification settings, and system configurations.'',
     hp_tips = Some [''Set up two-factor authentication for added security'',
       ''Configure notification preferences to stay informed'',
       ''Review your active sessions under security settings''],
     hp_sections =
    [
     \<lparr> hs_title = ''Account Settings'', hs_articles =
      [\<lparr> ha_id = ''profile-settings'', ha_title = ''Profile Settings'', ha_description = Some ''Update your personal information'',
       ha_type = Article, ha_url = None, ha_video = None, ha_duration = None \<rparr>,
       \<lparr> ha_id = ''security-settings'', ha_title = ''Security Settings'', ha_description = Some ''Manage passwords and 2FA'',
       ha_type = Article, ha_url = None, ha_video = None, ha_duration = None \<rparr>,
       \<lparr> ha_id = ''notification-prefs'', ha_title = ''Notification Preferences'', ha_description = Some ''Customize how you receive alerts'',
       ha_type = Article, ha_url = None, ha_video = None, ha_duration = None \<rparr>] \<rparr>],
     hp_related = None,
     hp_docs = Some ''/api/v1/docs'' \<rparr>"

definition defaultHelpContent :: page_help where
  "defaultHelpContent = \<lparr> hp_title = ''Help Center'',
     hp_overview = ''Find answers to common questions and learn how to use the platform effectively.'',
     hp_tips = None,
     hp_sections =
    [
     \<lparr> hs_title = ''Getting Help'', hs_articles =
      [\<lparr> ha_id = ''getting-started'', ha_title = ''Getting Started Guide'', ha_description = Some ''New to the platform? Start here'',
       ha_type = Guide, ha_url = None, ha_video = None, ha_duration = None \<rparr>,
       \<lparr> ha_id = ''keyboard-shortcuts'', ha_title = ''Keyboard Shortcuts'', ha_description = Some ''Work faster with keyboard navigation'',
       ha_type = Article, ha_url = None, ha_video = None, ha_duration = None \<rparr>] \<rparr>],
     hp_related = None,
     hp_docs = Some ''/api/v1/docs'' \<rparr>"

definition helpContentMap :: "(string \<times> page_help) list" where
  "helpContentMap = [(''dashboard'', help_dashboard),
     (''clients'', help_clients),
     (''partners'', help_partners),
     (''programs'', help_programs),
     (''tasks'', help_tasks),
     (''approvals'', help_approvals),
     (''settings'', help_settings)]"

definition formatPageTitle :: "string \<Rightarrow> string" where
  "formatPageTitle pageType = join_with '' '' (map capitalized (split_on CHR ''-'' pageType))"

definition getHelpContent :: "string \<Rightarrow> page_help" where
  "getHelpContent pageType =
     (case map_of helpContentMap pageType of
        None \<Rightarrow> defaultHelpContent\<lparr> hp_title := formatPageTitle pageType \<rparr>
      | Some c \<Rightarrow> c)"

definition article_matches :: "string \<Rightarrow> help_article \<Rightarrow> bool" where
  "article_matches lowerQuery a \<longleftrightarrow>
     str_includes lowerQuery (lower (ha_title a))
     \<or> (case ha_description a of None \<Rightarrow> False | Some d \<Rightarrow> str_includes lowerQuery (lower d))"

definition push_matching :: "string \<Rightarrow> help_article list \<Rightarrow> help_article list \<Rightarrow> help_article list" where
  "push_matching lowerQuery articles results =
     fold (\<lambda>a rs. if article_matches lowerQuery a then rs @ [a] else rs) articles results"

definition searchHelpContent :: "(string \<times> page_help) list \<Rightarrow> string \<Rightarrow> help_article list" where
  "searchHelpContent contentMap query =
     (let lowerQuery = lower query in
      fold (\<lambda>(k, content) results.
          (let results = fold (\<lambda>s. push_matching lowerQuery (hs_articles s)) (hp_sections content) results
           in (case hp_related content of None \<Rightarrow> results | Some as \<Rightarrow> push_matching lowerQuery as results)))
        contentMap [])"

section \<open>The panel\<close>

record contact_form =
  cf_number :: nat
  cf_subject :: string
  cf_message :: string
  cf_submitting :: bool
  cf_submitted :: bool

definition contact_start :: "nat \<Rightarrow> contact_form" where
  "contact_start n = \<lparr> cf_number = n, cf_subject = [], cf_message = [], cf_submitting = False, cf_submitted = False \<rparr>"

text \<open>The panel stays mounted while it is closed; what is opened outside is recorded.  The form is
  there while it is shown.\<close>

record help_panel =
  hp_query :: string
  hp_contact :: "contact_form option"
  hp_forms :: nat
  hp_selected :: "help_article option"
  hp_windows :: "string list"
  hp_requests :: "string list"

definition panel_start :: help_panel where
  "panel_start = \<lparr> hp_query = [], hp_contact = None, hp_forms = 0, hp_selected = None, hp_windows = [], hp_requests = [] \<rparr>"

definition search_results :: "help_panel \<Rightarrow> help_article list" where
  "search_results p = (if trim (hp_query p) = [] then [] else searchHelpContent helpContentMap (hp_query p))"

datatype panel_body =
    ContactBody contact_form
  | ResultsBody "help_article list"
  | NoResultsBody string
  | ContentBody page_help

definition panel_body_of :: "string \<Rightarrow> help_panel \<Rightarrow> panel_body" where
  "panel_body_of pageType p =
     (case hp_contact p of
        Some f \<Rightarrow> ContactBody f
      | None \<Rightarrow>
          if hp_query p \<noteq> [] \<and> 0 < length (search_results p) then ResultsBody (search_results p)
          else if hp_query p \<noteq> [] \<and> length (search_results p) = 0 then NoResultsBody (hp_query p)
          else ContentBody (getHelpContent pageType))"

definition handleArticleClick :: "help_article \<Rightarrow> help_panel \<Rightarrow> help_panel" where
  "handleArticleClick a p =
     (case ha_url a of
        Some u \<Rightarrow> if u \<noteq> [] then p\<lparr> hp_windows := hp_windows p @ [u] \<rparr> else p\<lparr> hp_selected := Some a \<rparr>
      | None \<Rightarrow> p\<lparr> hp_selected := Some a \<rparr>)"

definition handleContactSupport :: "help_panel \<Rightarrow> help_panel" where
  "handleContactSupport p = (case hp_contact p of None \<Rightarrow> p\<lparr> hp_contact := Some (contact_start (hp_forms p)), hp_forms := hp_forms p + 1 \<rparr> | Some f \<Rightarrow> p)"

text \<open>The button is disabled while a message is sent, which also stops the Enter key, and the fields
  are required.  A form that was sent is not there any more.\<close>

definition handleSubmit :: "help_panel \<Rightarrow> help_panel" where
  "handleSubmit p =
     (case hp_contact p of None \<Rightarrow> p
      | Some f \<Rightarrow>
          if cf_submitting f \<or> cf_submitted f \<or> cf_subject f = [] \<or> cf_message f = [] then p
          else p\<lparr> hp_contact := Some (f\<lparr> cf_submitting := True \<rparr>),
            hp_requests := hp_requests p @ [''Subject: '' @ cf_subject f @ [CHR 0x0A, CHR 0x0A] @ cf_message f] \<rparr>)"

text \<open>The answer belongs to the form that asked; one that was left takes no notice.\<close>

definition submit_answered :: "nat \<Rightarrow> bool \<Rightarrow> help_panel \<Rightarrow> help_panel" where
  "submit_answered n ok p =
     p\<lparr> hp_contact := map_option (\<lambda>f. if cf_number f = n
          then f\<lparr> cf_submitting := False, cf_submitted := (ok \<or> cf_submitted f) \<rparr> else f) (hp_contact p) \<rparr>"

datatype panel_event =
    PType string
  | PClick help_article
  | PCloseArticle
  | PContact
  | PContactBack
  | PSubject string
  | PMessage string
  | PSubmit
  | PAnswered nat bool
  | PDocs string
  | POpenChange bool

fun panel_step :: "panel_event \<Rightarrow> help_panel \<Rightarrow> help_panel" where
  "panel_step (PType q) p = p\<lparr> hp_query := q \<rparr>"
| "panel_step (PClick a) p = handleArticleClick a p"
| "panel_step PCloseArticle p = p\<lparr> hp_selected := None \<rparr>"
| "panel_step PContact p = handleContactSupport p"
| "panel_step PContactBack p = p\<lparr> hp_contact := None \<rparr>"
| "panel_step (PSubject s) p = p\<lparr> hp_contact := map_option (\<lambda>f. f\<lparr> cf_subject := s \<rparr>) (hp_contact p) \<rparr>"
| "panel_step (PMessage s) p = p\<lparr> hp_contact := map_option (\<lambda>f. f\<lparr> cf_message := s \<rparr>) (hp_contact p) \<rparr>"
| "panel_step PSubmit p = handleSubmit p"
| "panel_step (PAnswered n ok) p = submit_answered n ok p"
| "panel_step (PDocs base) p = p\<lparr> hp_windows := hp_windows p @ [base @ ''/api/v1/docs''] \<rparr>"
| "panel_step (POpenChange b) p = p"

section \<open>The search\<close>

definition page_articles :: "page_help \<Rightarrow> help_article list" where
  "page_articles c = concat (map hs_articles (hp_sections c)) @ (case hp_related c of None \<Rightarrow> [] | Some as \<Rightarrow> as)"

lemma push_matching_filter: "push_matching q as rs = rs @ filter (article_matches q) as"
  by (induction as arbitrary: rs) (simp_all add: push_matching_def)

lemma push_sections:
  "fold (\<lambda>s. push_matching q (hs_articles s)) ss rs = rs @ filter (article_matches q) (concat (map hs_articles ss))"
  by (induction ss arbitrary: rs) (simp_all add: push_matching_filter)

text \<open>The search is the list of all articles, page by page, filtered by the query.\<close>

theorem search_is_filter:
  "searchHelpContent m query = filter (article_matches (lower query)) (concat (map (page_articles \<circ> snd) m))"
proof -
  have "fold (\<lambda>(k, content) results.
      (let results = fold (\<lambda>s. push_matching q (hs_articles s)) (hp_sections content) results
       in (case hp_related content of None \<Rightarrow> results | Some as \<Rightarrow> push_matching q as results))) m rs
    = rs @ filter (article_matches q) (concat (map (page_articles \<circ> snd) m))" for q rs
    by (induction m arbitrary: rs) (auto simp: page_articles_def push_sections push_matching_filter split: option.split)
  from this [of "lower query" "[]"] show ?thesis by (simp add: searchHelpContent_def Let_def)
qed

lemma starts_includes: "starts_with p s \<Longrightarrow> str_includes p s"
  by (cases s) (simp_all add: starts_with_def)

text \<open>Every article is found by its own title, and by the title in other letters.\<close>

lemma lower_same_found:
  assumes "a \<in> set (concat (map (page_articles \<circ> snd) m))" "lower q = lower (ha_title a)"
  shows "a \<in> set (searchHelpContent m q)"
  using assms starts_includes [of "lower (ha_title a)" "lower (ha_title a)"]
  by (auto simp: search_is_filter article_matches_def starts_with_def)

text \<open>The tips, the overview and the section titles are not searched: the query is compared with
  articles only, so a page without a matching article is not found.\<close>

lemma only_articles_searched:
  "list_all (\<lambda>(k, c). list_all (\<lambda>a. \<not> article_matches (lower q) a) (page_articles c)) m \<Longrightarrow> searchHelpContent m q = []"
  by (auto simp: search_is_filter filter_empty_conv list_all_iff)

text \<open>A query of blanks is not searched, and yet the panel says that nothing was found.\<close>

lemma blank_query_no_results:
  "hp_contact p = None \<Longrightarrow> panel_body_of t (p\<lparr> hp_query := '' '' \<rparr>) = NoResultsBody '' ''"
  by (simp add: panel_body_of_def search_results_def trim_def is_space_def code_def)

text \<open>The contact form stays in front of everything typed into the search.\<close>

lemma contact_hides_search:
  "hp_contact p = Some f \<Longrightarrow> panel_body_of t (panel_step (PType q) p) = ContactBody f"
  by (simp add: panel_body_of_def)

text \<open>No article has an address, so each opens in the dialog and the branch for windows is dead.\<close>

lemmas help_pages = help_dashboard_def help_clients_def help_partners_def help_programs_def help_tasks_def
  help_approvals_def help_settings_def

lemma articles_without_address: "list_all (\<lambda>a. ha_url a = None) (concat (map (page_articles \<circ> snd) helpContentMap))"
  by (simp add: helpContentMap_def help_pages page_articles_def)

lemma default_without_address: "list_all (\<lambda>a. ha_url a = None) (page_articles defaultHelpContent)"
  by (simp add: defaultHelpContent_def page_articles_def)

section \<open>The context\<close>

lemma routeMap_identity: "list_all (\<lambda>(k, v). k \<noteq> [] \<longrightarrow> v = k) routeMap"
  by (simp add: routeMap_def)

text \<open>The route table changes nothing: the page is named by the first segment.\<close>

theorem page_type_is_first_segment:
  "hc_pageType (useHelpContext pathname role)
     = (case segments_of pathname of [] \<Rightarrow> ''dashboard'' | s # _ \<Rightarrow> s)"
proof (cases "segments_of pathname")
  case (Cons s ss)
  have "s \<noteq> []" using Cons unfolding segments_of_def by (metis (mono_tags, lifting) filter_eq_Cons_iff)
  moreover have "map_of routeMap s = Some t \<Longrightarrow> s \<noteq> [] \<Longrightarrow> t = s" for t
    using routeMap_identity map_of_SomeD [of routeMap s t] by (auto simp: list_all_iff)
  ultimately show ?thesis using Cons by (auto simp: useHelpContext_def Let_def page_type_def split: option.split)
qed (simp add: useHelpContext_def Let_def page_type_def)

text \<open>Any second segment but two makes a page a detail page, the security settings too; and the form
  of a detail page is both.\<close>

lemma settings_is_detail:
  "hc_isDetailPage (useHelpContext ''/settings/security'' r)"
  "hc_isDetailPage (useHelpContext ''/programs/p7/edit'' r)" "hc_isFormPage (useHelpContext ''/programs/p7/edit'' r)"
  by (simp_all add: useHelpContext_def Let_def segments_of_def is_detail_def is_form_def starts_with_def)

text \<open>The two titles of a page: the hook's and the panel's.\<close>

lemma capital_k: "capital_char CHR ''k'' = CHR ''K''"
  by code_simp

lemma titles_disagree:
  "getPageTitle ''kyc'' = ''KYC''" "hp_title (getHelpContent ''kyc'') = ''Kyc''"
  by (simp_all add: getPageTitle_def page_titles_def getHelpContent_def helpContentMap_def formatPageTitle_def
      capitalized_def capital_k)

section \<open>The form\<close>

text \<open>Going back forgets what was written; closing the panel keeps it.\<close>

lemma closing_keeps_message: "panel_step (POpenChange b) p = p"
  by simp

lemma back_forgets_message:
  "hp_contact (panel_step PContact (panel_step PContactBack p)) = Some (contact_start (hp_forms p))"
  by (simp add: handleContactSupport_def)

text \<open>Each form has its own number, so the answer to a message that was left with Back changes nothing.\<close>

definition forms_numbered :: "help_panel \<Rightarrow> bool" where
  "forms_numbered p \<longleftrightarrow> (case hp_contact p of None \<Rightarrow> True | Some f \<Rightarrow> cf_number f < hp_forms p)"

lemma forms_numbered_step: "forms_numbered p \<Longrightarrow> forms_numbered (panel_step e p)"
  by (cases e) (auto simp: forms_numbered_def handleArticleClick_def handleContactSupport_def handleSubmit_def
      submit_answered_def contact_start_def split: option.splits if_splits)

lemma late_answer_ignored:
  assumes "forms_numbered p" "hp_contact p = Some f"
  shows "panel_step (PAnswered (cf_number f) ok) (fold panel_step [PContactBack, PContact] p) = fold panel_step [PContactBack, PContact] p"
  using assms by (simp add: forms_numbered_def handleContactSupport_def submit_answered_def contact_start_def)

text \<open>One message per form: while it is sent, and after, pressing the button sends nothing.\<close>

lemma sent_once:
  "hp_requests (handleSubmit (handleSubmit p)) = hp_requests (handleSubmit p)"
  by (auto simp: handleSubmit_def split: option.split)

end
