(* ===== verification/BudgetThresholds.thy ===== *)
theory BudgetThresholds
  imports JsNumbers
begin

text \<open>
  The configuration of budget approvals
  (\<open>app/(dashboard)/settings/budget-thresholds/page.tsx\<close>): the thresholds with their dialog and their
  deletion, the chains and the steps of a chain.

  Amounts arrive as texts.  A payload that holds \<open>NaN\<close> is sent with null in its place.  The
  callback of a request runs for the last request of its kind; the confirmation dialogs close when
  their action is pressed (Radix), before the answer.
\<close>

section \<open>Roles\<close>

definition APPROVER_ROLES :: "(string \<times> string) list" where
  "APPROVER_ROLES =
     [(''relationship_manager'', ''Relationship Manager''),
      (''managing_director'', ''Managing Director''),
      (''finance_compliance'', ''Finance / Compliance''),
      (''partner_manager'', ''Partner Manager''),
      (''program_coordinator'', ''Program Coordinator''),
      (''admin'', ''Admin'')]"

text \<open>\<open>replace(/_/g, " ").replace(/\b\w/g, toUpperCase)\<close>: the word characters are the letters of
  ASCII, digits and the underscore.\<close>

definition word_char :: "char \<Rightarrow> bool" where
  "word_char c \<longleftrightarrow> (97 \<le> code c \<and> code c \<le> 122) \<or> (65 \<le> code c \<and> code c \<le> 90) \<or> (48 \<le> code c \<and> code c \<le> 57) \<or> code c = 95"

definition ascii_upper :: "char \<Rightarrow> char" where
  "ascii_upper c = (if 97 \<le> code c \<and> code c \<le> 122 then char_of (code c - 32) else c)"

fun capital_words :: "bool \<Rightarrow> string \<Rightarrow> string" where
  "capital_words inside [] = []"
| "capital_words inside (c # s) =
     (if word_char c \<and> \<not> inside then ascii_upper c else c) # capital_words (word_char c) s"

definition formatRole :: "string \<Rightarrow> string" where
  "formatRole role =
     (case map_of APPROVER_ROLES role of
        Some l \<Rightarrow> l
      | None \<Rightarrow> capital_words False (map (\<lambda>c. if c = CHR ''_'' then CHR '' '' else c) role))"

datatype badge = Default | Secondary | Destructive | Outline

definition tierVariant :: "string \<Rightarrow> badge" where
  "tierVariant name =
     (if lower name = ''emergency'' then Destructive else if lower name = ''strategic'' then Default
      else if lower name = ''elevated'' then Secondary else Outline)"

section \<open>A threshold and its form\<close>

record threshold =
  th_id :: string
  th_name :: string
  th_description :: "string option"
  th_min :: string
  th_max :: "string option"
  th_chain :: string
  th_priority :: int
  th_active :: bool

record threshold_form =
  tf_name :: string
  tf_description :: string
  tf_min :: string
  tf_max :: string
  tf_chain :: string
  tf_priority :: string
  tf_active :: bool

definition defaultThresholdForm :: threshold_form where
  "defaultThresholdForm = \<lparr> tf_name = [], tf_description = [], tf_min = ''0'', tf_max = [], tf_chain = [],
     tf_priority = ''0'', tf_active = True \<rparr>"

definition form_of_threshold :: "threshold \<Rightarrow> threshold_form" where
  "form_of_threshold t = \<lparr> tf_name = th_name t,
     tf_description = (case th_description t of None \<Rightarrow> [] | Some d \<Rightarrow> d),
     tf_min = th_min t, tf_max = (case th_max t of None \<Rightarrow> [] | Some m \<Rightarrow> m),
     tf_chain = th_chain t, tf_priority = int_text (th_priority t), tf_active = th_active t \<rparr>"

record threshold_payload =
  tp_name :: string
  tp_description :: "string option"
  tp_min :: rat
  tp_max :: "rat option"
  tp_chain :: string
  tp_active :: bool
  tp_priority :: int

definition threshold_payload_of :: "threshold_form \<Rightarrow> threshold_payload" where
  "threshold_payload_of f = \<lparr> tp_name = trim (tf_name f),
     tp_description = (if trim (tf_description f) = [] then None else Some (trim (tf_description f))),
     tp_min = (case parse_float (tf_min f) of None \<Rightarrow> 0 | Some x \<Rightarrow> x),
     tp_max = (if tf_max f \<noteq> [] then parse_float (tf_max f) else None),
     tp_chain = tf_chain f, tp_active = tf_active f,
     tp_priority = (case parse_int (tf_priority f) of None \<Rightarrow> 0 | Some n \<Rightarrow> n) \<rparr>"

text \<open>The table: the highest priority first, equal ones in their order.\<close>

definition sortedThresholds :: "threshold list \<Rightarrow> threshold list" where
  "sortedThresholds ts = sort_key (\<lambda>t. - th_priority t) ts"

section \<open>The dialogs of the thresholds\<close>

record thresholds_page =
  dialog_open :: bool
  editing :: "threshold option"
  tform :: threshold_form
  saving :: bool
  saves :: "(string option \<times> threshold_payload) list"
  to_delete :: "string option"
  deletions :: "string list"

definition thresholds_start :: thresholds_page where
  "thresholds_start = \<lparr> dialog_open = False, editing = None, tform = defaultThresholdForm, saving = False,
     saves = [], to_delete = None, deletions = [] \<rparr>"

text \<open>The effect of the dialog, which runs when it opens or is given another threshold.\<close>

definition form_effect :: "thresholds_page \<Rightarrow> thresholds_page" where
  "form_effect s =
     (if dialog_open s
      then s\<lparr> tform := (case editing s of Some t \<Rightarrow> form_of_threshold t | None \<Rightarrow> defaultThresholdForm) \<rparr>
      else s)"

definition open_dialog :: "threshold option \<Rightarrow> thresholds_page \<Rightarrow> thresholds_page" where
  "open_dialog t s =
     (let s' = s\<lparr> dialog_open := True, editing := t \<rparr>
      in if dialog_open s \<and> editing s = t then s' else form_effect s')"

definition submit_enabled :: "thresholds_page \<Rightarrow> bool" where
  "submit_enabled s \<longleftrightarrow> dialog_open s \<and> \<not> saving s \<and> tf_name (tform s) \<noteq> [] \<and> tf_chain (tform s) \<noteq> []"

definition submit_threshold :: "thresholds_page \<Rightarrow> thresholds_page" where
  "submit_threshold s =
     (if submit_enabled s
      then s\<lparr> saving := True, saves := saves s @ [(map_option th_id (editing s), threshold_payload_of (tform s))] \<rparr>
      else s)"

definition save_answered :: "bool \<Rightarrow> thresholds_page \<Rightarrow> thresholds_page" where
  "save_answered ok s = (if saving s then s\<lparr> saving := False, dialog_open := (dialog_open s \<and> \<not> ok) \<rparr> else s)"

definition cancel_dialog :: "thresholds_page \<Rightarrow> thresholds_page" where
  "cancel_dialog s = (if saving s then s else s\<lparr> dialog_open := False \<rparr>)"

definition confirm_delete :: "thresholds_page \<Rightarrow> thresholds_page" where
  "confirm_delete s =
     (case to_delete s of None \<Rightarrow> s | Some i \<Rightarrow> s\<lparr> deletions := deletions s @ [i], to_delete := None \<rparr>)"

definition delete_answered :: "bool \<Rightarrow> thresholds_page \<Rightarrow> thresholds_page" where
  "delete_answered ok s = (if ok then s\<lparr> to_delete := None \<rparr> else s)"

datatype thresholds_event =
    BAdd
  | BEdit threshold
  | BChange threshold_form
  | BSubmit
  | BSaved bool
  | BCancel
  | BEscape
  | BAskDelete string
  | BKeep
  | BConfirmDelete
  | BDeleted bool

fun thresholds_step :: "thresholds_event \<Rightarrow> thresholds_page \<Rightarrow> thresholds_page" where
  "thresholds_step BAdd s = open_dialog None s"
| "thresholds_step (BEdit t) s = open_dialog (Some t) s"
| "thresholds_step (BChange f) s = (if dialog_open s then s\<lparr> tform := f \<rparr> else s)"
| "thresholds_step BSubmit s = submit_threshold s"
| "thresholds_step (BSaved ok) s = save_answered ok s"
| "thresholds_step BCancel s = cancel_dialog s"
| "thresholds_step BEscape s = s\<lparr> dialog_open := False \<rparr>"
| "thresholds_step (BAskDelete i) s = s\<lparr> to_delete := Some i \<rparr>"
| "thresholds_step BKeep s = s\<lparr> to_delete := None \<rparr>"
| "thresholds_step BConfirmDelete s = confirm_delete s"
| "thresholds_step (BDeleted ok) s = delete_answered ok s"

section \<open>The form of a chain\<close>

record chain_summary =
  ch_id :: string
  ch_name :: string
  ch_description :: "string option"
  ch_active :: bool

record chain_form =
  cf_name :: string
  cf_description :: string
  cf_active :: bool

definition chain_form_of :: "chain_summary option \<Rightarrow> chain_form" where
  "chain_form_of c =
     (case c of
        Some ch \<Rightarrow> \<lparr> cf_name = ch_name ch, cf_description = (case ch_description ch of None \<Rightarrow> [] | Some d \<Rightarrow> d),
                 cf_active = ch_active ch \<rparr>
      | None \<Rightarrow> \<lparr> cf_name = [], cf_description = [], cf_active = True \<rparr>)"

definition chain_payload :: "chain_form \<Rightarrow> string \<times> string option \<times> bool" where
  "chain_payload f =
     (trim (cf_name f), if trim (cf_description f) = [] then None else Some (trim (cf_description f)), cf_active f)"

definition chain_submit :: "chain_summary option \<Rightarrow> bool \<Rightarrow> chain_form
    \<Rightarrow> (string option \<times> string \<times> string option \<times> bool) option" where
  "chain_submit c isPending f =
     (if isPending \<or> trim (cf_name f) = [] then None else Some (map_option ch_id c, chain_payload f))"

section \<open>The steps of a chain\<close>

record chain_step =
  cs_id :: string
  step_number :: int
  required_role :: string
  is_parallel :: bool
  timeout_hours :: "int option"
  auto_approve :: bool

definition sortedSteps :: "chain_step list \<Rightarrow> chain_step list" where
  "sortedSteps ss = sort_key step_number ss"

definition nextStepNumber :: "chain_step list \<Rightarrow> int" where
  "nextStepNumber ss = (if 0 < length (sortedSteps ss) then step_number (last (sortedSteps ss)) + 1 else 1)"

record step_form =
  sf_number :: int
  sf_role :: string
  sf_parallel :: bool
  sf_timeout :: string
  sf_auto :: bool

definition step_form_start :: "int \<Rightarrow> step_form" where
  "step_form_start n = \<lparr> sf_number = n, sf_role = [], sf_parallel = False, sf_timeout = [], sf_auto = False \<rparr>"

datatype step_event = SNumber string | SRole string | SParallel bool | STimeout string | SAuto bool | SNext int

text \<open>The inputs; the choice on a timeout is there while one is given, and the effect starts over when
  the number of the next step has changed.\<close>

fun step_input :: "int \<Rightarrow> step_event \<Rightarrow> step_form \<Rightarrow> step_form" where
  "step_input n (SNumber t) f =
     f\<lparr> sf_number := (case parse_int t of None \<Rightarrow> 1 | Some k \<Rightarrow> if k = 0 then 1 else k) \<rparr>"
| "step_input n (SRole r) f = f\<lparr> sf_role := r \<rparr>"
| "step_input n (SParallel b) f = f\<lparr> sf_parallel := b \<rparr>"
| "step_input n (STimeout t) f = f\<lparr> sf_timeout := t \<rparr>"
| "step_input n (SAuto b) f = (if sf_timeout f \<noteq> [] then f\<lparr> sf_auto := b \<rparr> else f)"
| "step_input n (SNext k) f = (if k = n then f else step_form_start k)"

record step_payload =
  sp_number :: int
  sp_role :: string
  sp_parallel :: bool
  sp_timeout :: "int option"
  sp_auto :: bool

definition step_payload_of :: "step_form \<Rightarrow> step_payload" where
  "step_payload_of f = \<lparr> sp_number = sf_number f, sp_role = sf_role f, sp_parallel = sf_parallel f,
     sp_timeout = (if sf_timeout f \<noteq> [] then parse_int (sf_timeout f) else None), sp_auto = sf_auto f \<rparr>"

section \<open>Editing without a change\<close>

definition stored_payload :: "threshold \<Rightarrow> threshold_payload" where
  "stored_payload t = \<lparr> tp_name = th_name t, tp_description = th_description t,
     tp_min = (case parse_float (th_min t) of None \<Rightarrow> 0 | Some x \<Rightarrow> x),
     tp_max = Option.bind (th_max t) parse_float,
     tp_chain = th_chain t, tp_active = th_active t, tp_priority = th_priority t \<rparr>"

definition tidy :: "string option \<Rightarrow> bool" where
  "tidy d \<longleftrightarrow> (case d of None \<Rightarrow> True | Some s \<Rightarrow> trim s = s \<and> s \<noteq> [])"

lemma parse_float_empty: "parse_float [] = None"
  by (simp add: parse_float_def)

text \<open>A threshold that is opened and saved is sent as it was stored, exactly when its name and its
  description are trimmed: the amounts, the absent maximum and the priority survive the texts of the
  inputs.\<close>

theorem unchanged_edit_sends_stored:
  "threshold_payload_of (form_of_threshold t) = stored_payload t
     \<longleftrightarrow> trim (th_name t) = th_name t \<and> tidy (th_description t)"
proof -
  have "(if m \<noteq> [] then parse_float m else None) = parse_float m" for m
    by (simp add: parse_float_empty)
  moreover have "trim [] = []" by (simp add: trim_def)
  ultimately show ?thesis
    by (auto simp: threshold_payload_of_def form_of_threshold_def stored_payload_def tidy_def parse_float_empty
        split: option.splits if_splits)
qed

lemma edit_and_submit:
  assumes "th_name t \<noteq> []" "th_chain t \<noteq> []"
  shows "saves (fold thresholds_step [BEdit t, BSubmit] thresholds_start)
    = [(Some (th_id t), threshold_payload_of (form_of_threshold t))]"
  using assms by (simp add: open_dialog_def form_effect_def submit_threshold_def submit_enabled_def thresholds_start_def
      form_of_threshold_def)

section \<open>What is sent\<close>

text \<open>Every request names a chain.\<close>

definition saves_ok :: "thresholds_page \<Rightarrow> bool" where
  "saves_ok s \<longleftrightarrow> list_all (\<lambda>(i, p). tp_chain p \<noteq> []) (saves s)"

lemma saves_ok_step: "saves_ok s \<Longrightarrow> saves_ok (thresholds_step e s)"
  by (cases e) (auto simp: saves_ok_def open_dialog_def form_effect_def submit_threshold_def submit_enabled_def
      save_answered_def cancel_dialog_def confirm_delete_def delete_answered_def threshold_payload_of_def Let_def
      split: option.split)

lemma saves_have_chain: "saves_ok (fold thresholds_step es thresholds_start)"
proof -
  have "saves_ok s \<Longrightarrow> saves_ok (fold thresholds_step es s)" for s
    by (induction es arbitrary: s) (simp_all add: saves_ok_step)
  then show ?thesis by (simp add: saves_ok_def thresholds_start_def)
qed

text \<open>A blank tier passes the check of the button and is sent empty; only the list of tiers prevents it.\<close>

lemma blank_name_sent_empty:
  "submit_enabled (s\<lparr> dialog_open := True, saving := False, tform := f\<lparr> tf_name := '' '', tf_chain := ''c'' \<rparr> \<rparr>)
   \<and> tp_name (threshold_payload_of (f\<lparr> tf_name := '' '' \<rparr>)) = []"
  by (simp add: submit_enabled_def threshold_payload_of_def trim_def is_space_def code_def)

text \<open>A maximum below the minimum is sent.\<close>

lemma max_below_min_sent:
  "tp_min (threshold_payload_of (f\<lparr> tf_min := ''500'', tf_max := ''100'' \<rparr>)) = 500
   \<and> tp_max (threshold_payload_of (f\<lparr> tf_min := ''500'', tf_max := ''100'' \<rparr>)) = Some 100"
proof -
  have "parse_float ''500'' = Some 500" "parse_float ''100'' = Some 100" by code_simp+
  then show ?thesis by (simp add: threshold_payload_of_def)
qed

text \<open>Escape closes the dialog while its request is under way; the answer then closes the next one,
  with what was entered there.\<close>

lemma late_save_closes_next:
  fixes f :: threshold_form
  assumes "th_name a \<noteq> []" "th_chain a \<noteq> []" "a \<noteq> b"
  defines "s \<equiv> fold thresholds_step [BEdit a, BSubmit, BEscape, BEdit b, BChange f, BSaved True] thresholds_start"
  shows "\<not> dialog_open s" "saves s = [(Some (th_id a), threshold_payload_of (form_of_threshold a))]"
  using assms by (simp_all add: open_dialog_def form_effect_def submit_threshold_def submit_enabled_def
      thresholds_start_def form_of_threshold_def save_answered_def)

lemma late_deletion_withdraws_next:
  "to_delete (fold thresholds_step [BAskDelete a, BConfirmDelete, BAskDelete b, BDeleted True] s) = None
   \<and> deletions (fold thresholds_step [BAskDelete a, BConfirmDelete, BAskDelete b, BDeleted True] s) = deletions s @ [a]"
  by (simp add: confirm_delete_def delete_answered_def)

section \<open>Steps\<close>

text \<open>The proposed number is greater than that of every step.\<close>

lemma next_step_number_fresh: "list_all (\<lambda>s. step_number s < nextStepNumber ss) ss"
proof (cases "ss = []")
  case False
  then have ne: "sortedSteps ss \<noteq> []" unfolding sortedSteps_def by (metis set_empty set_sort)
  have "step_number s \<le> step_number (last (sortedSteps ss))" if s: "s \<in> set ss" for s
  proof -
    obtain i where i: "i < length (sortedSteps ss)" "sortedSteps ss ! i = s"
      using s by (metis in_set_conv_nth set_sort sortedSteps_def)
    have "sorted (map step_number (sortedSteps ss))" by (simp add: sortedSteps_def)
    then have "map step_number (sortedSteps ss) ! i \<le> map step_number (sortedSteps ss) ! (length (sortedSteps ss) - 1)"
      using i(1) by (intro sorted_nth_mono) auto
    then show ?thesis using i ne by (simp add: last_conv_nth)
  qed
  then show ?thesis using ne by (fastforce simp: nextStepNumber_def list_all_iff)
qed simp

lemma steps_in_order: "sorted (map step_number (sortedSteps ss))" "set (sortedSteps ss) = set ss"
  by (simp_all add: sortedSteps_def)

text \<open>Taking the timeout back hides the choice and keeps it: the step is sent without a timeout and
  with the approval on timeout.\<close>

lemma hidden_auto_approve_sent:
  "sp_timeout (step_payload_of (fold (step_input n) [STimeout ''24'', SAuto True, STimeout []] f)) = None
   \<and> sp_auto (step_payload_of (fold (step_input n) [STimeout ''24'', SAuto True, STimeout []] f))"
  by (simp add: step_payload_of_def)

text \<open>A step that someone else adds meanwhile empties the form.\<close>

lemma other_step_empties_form: "k \<noteq> n \<Longrightarrow> fold (step_input n) (es @ [SNext k]) f = step_form_start k"
  by simp

text \<open>Three of the six roles offered are none of the users' (the six of \<open>UserRole\<close>).\<close>

definition user_roles :: "string list" where
  "user_roles = [''managing_director'', ''relationship_manager'', ''coordinator'', ''finance_compliance'', ''client'', ''partner'']"

lemma roles_nobody_has:
  "filter (\<lambda>r. r \<notin> set user_roles) (map fst APPROVER_ROLES) = [''partner_manager'', ''program_coordinator'', ''admin'']"
  by (simp add: APPROVER_ROLES_def user_roles_def)

lemma role_labels: "formatRole ''coordinator'' = ''Coordinator''" "formatRole ''finance_compliance'' = ''Finance / Compliance''"
  by code_simp+

end
