(* ===== verification/Webhooks.thy ===== *)
theory Webhooks
  imports Machines JsNumbers "HOL-Library.Multiset" "HOL-Library.List_Lexorder" "HOL-Library.Char_ord"
begin

text \<open>
  The webhooks of a partner (\<open>app/(partner)/partner/settings/webhooks/page.tsx\<close>): the list, the
  dialogs that share one selected webhook and one form, and the requests.

  The list and the selection hold objects: each has a reference, a loaded list has new ones, and
  sorting in place changes every holder of the reference.  The answer of a request is an event of
  its own.  \<open>sort()\<close> orders texts by their characters.
\<close>

section \<open>The page\<close>

record webhook =
  wh_id :: string
  wh_url :: string
  wh_events :: "string list"
  wh_active :: bool
  wh_failures :: int
  wh_description :: "string option"

record webhook_form =
  wf_url :: string
  wf_secret :: string
  wf_events :: "string list"
  wf_description :: string

record webhook_update =
  wu_url :: "string option"
  wu_secret :: "string option"
  wu_events :: "string list option"
  wu_active :: "bool option"
  wu_description :: "string option"

definition no_update :: webhook_update where
  "no_update = \<lparr> wu_url = None, wu_secret = None, wu_events = None, wu_active = None, wu_description = None \<rparr>"

record delivery =
  dl_webhook :: string
  dl_event :: string

record test_result =
  tr_success :: bool
  tr_duration :: "int option"

datatype webhook_request =
    ListHooks bool
  | CreateHook webhook_form
  | UpdateHook string webhook_update
  | DeleteHook string
  | TestHook string string
  | DeliveriesOf string

record webhooks_page =
  hooks :: "(nat \<times> webhook) list"
  fresh_ref :: nat
  showInactive :: bool
  showCreate :: bool
  showEdit :: bool
  showDelete :: bool
  showTest :: bool
  showDeliveries :: bool
  selected :: "(nat \<times> webhook) option"
  deliveries :: "delivery list"
  testResult :: "test_result option"
  testEventType :: string
  formData :: webhook_form
  formErrors :: "(string \<times> string) list"
  requests :: "webhook_request list"

definition empty_form :: webhook_form where
  "empty_form = \<lparr> wf_url = [], wf_secret = [], wf_events = [], wf_description = [] \<rparr>"

definition send :: "webhook_request \<Rightarrow> webhooks_page \<Rightarrow> webhooks_page" where
  "send r s = s\<lparr> requests := requests s @ [r] \<rparr>"

definition loadWebhooks :: "webhooks_page \<Rightarrow> webhooks_page" where
  "loadWebhooks s = send (ListHooks (showInactive s)) s"

definition webhooks_mount :: webhooks_page where
  "webhooks_mount = loadWebhooks \<lparr> hooks = [], fresh_ref = 0, showInactive = False, showCreate = False,
     showEdit = False, showDelete = False, showTest = False, showDeliveries = False, selected = None,
     deliveries = [], testResult = None, testEventType = [], formData = empty_form, formErrors = [],
     requests = [] \<rparr>"

definition listed :: "webhook list \<Rightarrow> webhooks_page \<Rightarrow> webhooks_page" where
  "listed ws s = s\<lparr> hooks := enumerate (fresh_ref s) ws, fresh_ref := fresh_ref s + length ws \<rparr>"

definition resetForm :: "webhooks_page \<Rightarrow> webhooks_page" where
  "resetForm s = s\<lparr> formData := empty_form, formErrors := [] \<rparr>"

section \<open>The form\<close>

definition https_url :: "string \<Rightarrow> bool" where
  "https_url u \<longleftrightarrow> lower (take 8 u) = ''https://''"

definition form_errors :: "webhook_form \<Rightarrow> (string \<times> string) list" where
  "form_errors f =
     (if wf_url f = [] then [(''url'', ''URL is required'')]
      else if \<not> https_url (wf_url f) then [(''url'', ''URL must start with https://'')] else [])
     @ (if wf_secret f = [] \<or> length (wf_secret f) < 8
        then [(''secret'', ''Secret must be at least 8 characters'')] else [])
     @ (if length (wf_events f) = 0 then [(''events'', ''At least one event type must be selected'')] else [])"

definition validateForm :: "webhooks_page \<Rightarrow> bool \<times> webhooks_page" where
  "validateForm s = (form_errors (formData s) = [], s\<lparr> formErrors := form_errors (formData s) \<rparr>)"

definition toggleEvent :: "string \<Rightarrow> webhooks_page \<Rightarrow> webhooks_page" where
  "toggleEvent e s =
     s\<lparr> formData := (formData s)\<lparr> wf_events :=
        (if e \<in> set (wf_events (formData s)) then filter (\<lambda>x. x \<noteq> e) (wf_events (formData s))
         else wf_events (formData s) @ [e]) \<rparr> \<rparr>"

section \<open>The handlers\<close>

definition handleCreate :: "webhooks_page \<Rightarrow> webhooks_page" where
  "handleCreate s =
     (let (ok, s') = validateForm s in if \<not> ok then s' else send (CreateHook (formData s')) s')"

definition created :: "bool \<Rightarrow> webhooks_page \<Rightarrow> webhooks_page" where
  "created ok s = (if ok then loadWebhooks (resetForm (s\<lparr> showCreate := False \<rparr>)) else s)"

text \<open>\<open>events.sort()\<close> of the selected webhook, in place.\<close>

definition sort_events :: "nat \<Rightarrow> webhooks_page \<Rightarrow> webhooks_page" where
  "sort_events r s =
     (let srt = (\<lambda>(q, w). (q, if q = r then w\<lparr> wh_events := sort (wh_events w) \<rparr> else w))
      in s\<lparr> hooks := map srt (hooks s), selected := map_option srt (selected s) \<rparr>)"

definition description_of :: "webhook \<Rightarrow> string" where
  "description_of w = (case wh_description w of None \<Rightarrow> [] | Some d \<Rightarrow> d)"

definition update_of :: "webhook_form \<Rightarrow> webhook \<Rightarrow> webhook_update" where
  "update_of f w = no_update\<lparr>
     wu_url := (if wf_url f \<noteq> wh_url w then Some (wf_url f) else None),
     wu_secret := (if wf_secret f \<noteq> [] then Some (wf_secret f) else None),
     wu_events := (if sort (wf_events f) \<noteq> sort (wh_events w) then Some (sort (wf_events f)) else None),
     wu_description := (if wf_description f \<noteq> description_of w then Some (wf_description f) else None) \<rparr>"

definition handleEdit :: "webhooks_page \<Rightarrow> webhooks_page" where
  "handleEdit s =
     (case selected s of
        None \<Rightarrow> s
      | Some (r, w) \<Rightarrow>
          (let (ok, s') = validateForm s
           in if \<not> ok then s'
              else send (UpdateHook (wh_id w) (update_of (formData s') w))
                (sort_events r (s'\<lparr> formData := (formData s')\<lparr> wf_events := sort (wf_events (formData s')) \<rparr> \<rparr>))))"

definition edited :: "bool \<Rightarrow> webhooks_page \<Rightarrow> webhooks_page" where
  "edited ok s = (if ok then loadWebhooks (resetForm (s\<lparr> showEdit := False, selected := None \<rparr>)) else s)"

definition handleDelete :: "webhooks_page \<Rightarrow> webhooks_page" where
  "handleDelete s = (case selected s of None \<Rightarrow> s | Some (r, w) \<Rightarrow> send (DeleteHook (wh_id w)) s)"

definition deleted :: "bool \<Rightarrow> webhooks_page \<Rightarrow> webhooks_page" where
  "deleted ok s = (if ok then loadWebhooks (s\<lparr> showDelete := False, selected := None \<rparr>) else s)"

definition handleToggleActive :: "webhook \<Rightarrow> webhooks_page \<Rightarrow> webhooks_page" where
  "handleToggleActive w s = send (UpdateHook (wh_id w) (no_update\<lparr> wu_active := Some (\<not> wh_active w) \<rparr>)) s"

definition toggled :: "bool \<Rightarrow> webhooks_page \<Rightarrow> webhooks_page" where
  "toggled ok s = (if ok then loadWebhooks s else s)"

definition handleTest :: "webhooks_page \<Rightarrow> webhooks_page" where
  "handleTest s =
     (case selected s of None \<Rightarrow> s
      | Some (r, w) \<Rightarrow> if testEventType s = [] then s else send (TestHook (wh_id w) (testEventType s)) s)"

definition tested :: "test_result option \<Rightarrow> webhooks_page \<Rightarrow> webhooks_page" where
  "tested res s = (case res of None \<Rightarrow> s | Some r \<Rightarrow> s\<lparr> testResult := Some r \<rparr>)"

definition handleViewDeliveries :: "nat \<times> webhook \<Rightarrow> webhooks_page \<Rightarrow> webhooks_page" where
  "handleViewDeliveries rw s = send (DeliveriesOf (wh_id (snd rw))) (s\<lparr> selected := Some rw \<rparr>)"

definition deliveries_got :: "delivery list option \<Rightarrow> webhooks_page \<Rightarrow> webhooks_page" where
  "deliveries_got ds s = (case ds of None \<Rightarrow> s | Some d \<Rightarrow> s\<lparr> deliveries := d, showDeliveries := True \<rparr>)"

definition openCreate :: "webhooks_page \<Rightarrow> webhooks_page" where
  "openCreate s = (resetForm s)\<lparr> showCreate := True \<rparr>"

definition openEditDialog :: "nat \<times> webhook \<Rightarrow> webhooks_page \<Rightarrow> webhooks_page" where
  "openEditDialog rw s = s\<lparr> selected := Some rw,
     formData := \<lparr> wf_url = wh_url (snd rw), wf_secret = [], wf_events = wh_events (snd rw),
        wf_description = description_of (snd rw) \<rparr>,
     showEdit := True \<rparr>"

definition openTestDialog :: "nat \<times> webhook \<Rightarrow> webhooks_page \<Rightarrow> webhooks_page" where
  "openTestDialog rw s = s\<lparr> selected := Some rw,
     testEventType := (case wh_events (snd rw) of [] \<Rightarrow> [] | e # _ \<Rightarrow> e), testResult := None, showTest := True \<rparr>"

definition openDelete :: "nat \<times> webhook \<Rightarrow> webhooks_page \<Rightarrow> webhooks_page" where
  "openDelete rw s = s\<lparr> selected := Some rw, showDelete := True \<rparr>"

datatype badge_text = DisabledBadge | AutoDisabled | Failures int | ActiveBadge

definition getStatusBadge :: "webhook \<Rightarrow> badge_text" where
  "getStatusBadge w =
     (if \<not> wh_active w then DisabledBadge
      else if wh_failures w \<ge> 10 then AutoDisabled
      else if wh_failures w > 0 then Failures (wh_failures w) else ActiveBadge)"

definition formatDuration :: "int option \<Rightarrow> string" where
  "formatDuration ms =
     (case ms of None \<Rightarrow> ''-''
      | Some n \<Rightarrow> if n < 1000 then int_text n @ ''ms'' else to_fixed 2 (of_int n / 1000) @ ''s'')"

text \<open>The names in a row: two of them and the number of the others.\<close>

definition shown_events :: "webhook \<Rightarrow> string list \<times> int option" where
  "shown_events w =
     (take 2 (wh_events w), if 2 < length (wh_events w) then Some (int (length (wh_events w)) - 2) else None)"

section \<open>Runs\<close>

text \<open>The buttons of a dialog are there while it is open; a row's menu names the webhook of the row.\<close>

datatype webhooks_event =
    WInactive bool
  | WListed "webhook list"
  | WOpenCreate
  | WCloseCreate
  | WForm "webhook_form \<Rightarrow> webhook_form"
  | WToggleEvent string
  | WCreate
  | WCreated bool
  | WOpenEdit nat
  | WCloseEdit
  | WEdit
  | WEdited bool
  | WOpenDelete nat
  | WCloseDelete
  | WDelete
  | WDeleted bool
  | WToggleActive nat
  | WToggled bool
  | WOpenTest nat
  | WTestEvent string
  | WTest
  | WTested "test_result option"
  | WCloseTest
  | WViewDeliveries nat
  | WDeliveries "delivery list option"
  | WCloseDeliveries

definition on_row :: "nat \<Rightarrow> (nat \<times> webhook \<Rightarrow> webhooks_page \<Rightarrow> webhooks_page) \<Rightarrow> webhooks_page \<Rightarrow> webhooks_page" where
  "on_row i f s = (if i < length (hooks s) then f (hooks s ! i) s else s)"

fun webhooks_step :: "webhooks_page \<Rightarrow> webhooks_event \<Rightarrow> webhooks_page" where
  "webhooks_step s (WInactive b) = (if b = showInactive s then s else loadWebhooks (s\<lparr> showInactive := b \<rparr>))"
| "webhooks_step s (WListed ws) = listed ws s"
| "webhooks_step s WOpenCreate = openCreate s"
| "webhooks_step s WCloseCreate = s\<lparr> showCreate := False \<rparr>"
| "webhooks_step s (WForm f) = (if showCreate s \<or> showEdit s then s\<lparr> formData := f (formData s) \<rparr> else s)"
| "webhooks_step s (WToggleEvent e) = (if showCreate s \<or> showEdit s then toggleEvent e s else s)"
| "webhooks_step s WCreate = (if showCreate s then handleCreate s else s)"
| "webhooks_step s (WCreated ok) = created ok s"
| "webhooks_step s (WOpenEdit i) = on_row i openEditDialog s"
| "webhooks_step s WCloseEdit = s\<lparr> showEdit := False \<rparr>"
| "webhooks_step s WEdit = (if showEdit s then handleEdit s else s)"
| "webhooks_step s (WEdited ok) = edited ok s"
| "webhooks_step s (WOpenDelete i) = on_row i openDelete s"
| "webhooks_step s WCloseDelete = s\<lparr> showDelete := False \<rparr>"
| "webhooks_step s WDelete = (if showDelete s then handleDelete s else s)"
| "webhooks_step s (WDeleted ok) = deleted ok s"
| "webhooks_step s (WToggleActive i) = on_row i (\<lambda>rw. handleToggleActive (snd rw)) s"
| "webhooks_step s (WToggled ok) = toggled ok s"
| "webhooks_step s (WOpenTest i) = on_row i openTestDialog s"
| "webhooks_step s (WTestEvent e) = s\<lparr> testEventType := e \<rparr>"
| "webhooks_step s WTest = (if showTest s then handleTest s else s)"
| "webhooks_step s (WTested r) = tested r s"
| "webhooks_step s WCloseTest = s\<lparr> showTest := False \<rparr>"
| "webhooks_step s (WViewDeliveries i) = on_row i handleViewDeliveries s"
| "webhooks_step s (WDeliveries d) = deliveries_got d s"
| "webhooks_step s WCloseDeliveries = s\<lparr> showDeliveries := False \<rparr>"

lemmas webhook_ops = send_def loadWebhooks_def listed_def resetForm_def validateForm_def toggleEvent_def
  handleCreate_def created_def sort_events_def handleEdit_def edited_def handleDelete_def deleted_def
  handleToggleActive_def toggled_def handleTest_def tested_def handleViewDeliveries_def deliveries_got_def
  openCreate_def openEditDialog_def openTestDialog_def openDelete_def on_row_def

section \<open>The requests\<close>

text \<open>A webhook is created with a secure address, a secret and an event; an update switches it on or
  off, or carries a new secret of eight characters.\<close>

definition request_ok :: "webhook_request \<Rightarrow> bool" where
  "request_ok r \<longleftrightarrow>
     (case r of
        CreateHook f \<Rightarrow> https_url (wf_url f) \<and> 8 \<le> length (wf_secret f) \<and> wf_events f \<noteq> []
      | UpdateHook i u \<Rightarrow> (wu_active u \<noteq> None \<and> u = no_update\<lparr> wu_active := wu_active u \<rparr>)
          \<or> (wu_active u = None \<and> 8 \<le> length (case wu_secret u of None \<Rightarrow> [] | Some x \<Rightarrow> x))
      | _ \<Rightarrow> True)"

definition requests_ok :: "webhooks_page \<Rightarrow> bool" where
  "requests_ok s \<longleftrightarrow> list_all request_ok (requests s)"

lemma form_errors_none:
  "form_errors f = [] \<longleftrightarrow> https_url (wf_url f) \<and> 8 \<le> length (wf_secret f) \<and> wf_events f \<noteq> []"
  by (auto simp: form_errors_def https_url_def lower_def)

lemma requests_ok_create: "requests_ok s \<Longrightarrow> requests_ok (handleCreate s)"
  using form_errors_none [of "formData s"]
  by (auto simp: handleCreate_def validateForm_def send_def requests_ok_def request_ok_def Let_def)

lemma requests_ok_edit: "requests_ok s \<Longrightarrow> requests_ok (handleEdit s)"
  using form_errors_none [of "formData s"]
  by (auto simp: handleEdit_def validateForm_def send_def sort_events_def requests_ok_def request_ok_def
      update_of_def no_update_def Let_def split: option.splits)

lemma requests_ok_step: "requests_ok s \<Longrightarrow> requests_ok (webhooks_step s e)"
proof (cases e)
  case WCreate
  then show "requests_ok s \<Longrightarrow> ?thesis" by (simp add: requests_ok_create)
next
  case WEdit
  then show "requests_ok s \<Longrightarrow> ?thesis" by (simp add: requests_ok_edit)
next
  case (WToggleActive i)
  then show "requests_ok s \<Longrightarrow> ?thesis"
    by (simp add: requests_ok_def request_ok_def on_row_def handleToggleActive_def send_def no_update_def)
qed (auto simp: requests_ok_def request_ok_def webhook_ops split: option.splits)

interpretation webhooks: machine webhooks_step requests_ok
  by unfold_locales (rule requests_ok_step)

lemma every_request_ok: "list_all request_ok (requests (run webhooks_step es webhooks_mount))"
proof -
  have "requests_ok webhooks_mount"
    by (simp add: requests_ok_def request_ok_def webhooks_mount_def loadWebhooks_def send_def)
  from webhooks.every_run_inv [OF this] show ?thesis by (simp add: requests_ok_def)
qed

text \<open>What one event may ask for in a state: a creation or an edit only of a form that satisfies every
  rule at that moment (a secure address, a secret of eight characters or more, an event), the edit
  for the selected webhook and with exactly the changes of the form, the secret among them; any other
  update only switches the webhook of a row on or off.\<close>

definition form_valid :: "webhook_form \<Rightarrow> bool" where
  "form_valid f \<longleftrightarrow> https_url (wf_url f) \<and> 8 \<le> length (wf_secret f) \<and> wf_events f \<noteq> []"

definition request_meant :: "webhooks_page \<Rightarrow> webhooks_event \<Rightarrow> webhook_request \<Rightarrow> bool" where
  "request_meant s e r \<longleftrightarrow>
     (case r of
        CreateHook f \<Rightarrow> e = WCreate \<and> f = formData s \<and> form_valid f
      | UpdateHook i u \<Rightarrow>
          (case e of
             WEdit \<Rightarrow> form_valid (formData s) \<and> wu_secret u = Some (wf_secret (formData s))
               \<and> (case selected s of None \<Rightarrow> False
                    | Some (q, w) \<Rightarrow> i = wh_id w \<and> u = update_of (formData s) w)
           | WToggleActive k \<Rightarrow> k < length (hooks s) \<and> i = wh_id (snd (hooks s ! k))
               \<and> u = no_update\<lparr> wu_active := Some (\<not> wh_active (snd (hooks s ! k))) \<rparr>
           | _ \<Rightarrow> False)
      | _ \<Rightarrow> True)"

lemma create_meant:
  "\<exists>new. requests (handleCreate s) = requests s @ new \<and> list_all (request_meant s WCreate) new"
  using form_errors_none [of "formData s"]
  by (auto simp: handleCreate_def validateForm_def send_def request_meant_def form_valid_def Let_def)

lemma edit_meant:
  "\<exists>new. requests (handleEdit s) = requests s @ new \<and> list_all (request_meant s WEdit) new"
  using form_errors_none [of "formData s"]
  by (auto simp: handleEdit_def validateForm_def send_def sort_events_def request_meant_def form_valid_def
      update_of_def no_update_def Let_def split: option.split)

lemma request_step_meant:
  "\<exists>new. requests (webhooks_step s e) = requests s @ new \<and> list_all (request_meant s e) new"
proof (cases e)
  case WCreate
  then show ?thesis using create_meant [of s] by simp
next
  case WEdit
  then show ?thesis using edit_meant [of s] by simp
qed (auto simp: webhook_ops request_meant_def split: option.split)

text \<open>C23.  In every run each event only adds requests, and every creation and every edit among them has
  passed the whole validation at that moment: its address is secure, its secret has eight characters
  or more and it has an event.  An edit is for the selected webhook and always sets the secret of the
  form, though the dialog says that a blank one keeps the current secret.\<close>

theorem edits_carry_new_secret:
  "let s = run webhooks_step es webhooks_mount in
     \<exists>new. requests (webhooks_step s e) = requests s @ new \<and> list_all (request_meant s e) new"
  using request_step_meant by (simp add: Let_def)

text \<open>Opened and saved, the dialog sends nothing and stays; the message about the secret is the one it
  does not draw.\<close>

lemma blank_secret_refused:
  assumes "i < length (hooks s)"
  defines "s' \<equiv> run webhooks_step [WOpenEdit i, WEdit] s"
  shows "requests s' = requests s" "showEdit s'" "map_of (formErrors s') ''secret'' = Some ''Secret must be at least 8 characters''"
  using assms by (auto simp: on_row_def openEditDialog_def handleEdit_def validateForm_def form_errors_def Let_def
      split: prod.split)

section \<open>What an update changes\<close>

text \<open>The update holds the events exactly when they are other events, whatever their order, and the
  other fields exactly when they differ.\<close>

theorem update_holds_changes:
  "(wu_events (update_of f w) = None \<longleftrightarrow> mset (wf_events f) = mset (wh_events w))
   \<and> (wu_url (update_of f w) = None \<longleftrightarrow> wf_url f = wh_url w)
   \<and> (wu_description (update_of f w) = None \<longleftrightarrow> wf_description f = description_of w)"
proof -
  have "sort xs = sort ys \<longleftrightarrow> mset xs = mset ys" for xs ys :: "string list"
    by (metis mset_sort properties_for_sort sorted_sort)
  then show ?thesis by (simp add: update_of_def no_update_def)
qed

text \<open>Saving sorts the events of the webhook in the list as well, before any answer.\<close>

lemma saving_reorders_list:
  assumes "selected s = Some (r, w)" "(r, v) \<in> set (hooks s)" "form_errors (formData s) = []"
  shows "(r, v\<lparr> wh_events := sort (wh_events v) \<rparr>) \<in> set (hooks (handleEdit s))"
  using assms by (force simp: handleEdit_def validateForm_def sort_events_def send_def Let_def)

section \<open>Shared state\<close>

text \<open>Nothing disables the button: pressed twice it creates two webhooks.\<close>

lemma double_create:
  assumes "showCreate s" "form_errors (formData s) = []"
  shows "requests (run webhooks_step [WCreate, WCreate] s) = requests s @ [CreateHook (formData s), CreateHook (formData s)]"
  using assms by (simp add: handleCreate_def validateForm_def send_def)

text \<open>A late answer to a deletion takes the selection from the dialog that is open by then: saving
  does nothing.\<close>

lemma late_deletion_disarms_edit:
  "handleEdit (deleted True s) = deleted True s"
  by (simp add: deleted_def loadWebhooks_def send_def handleEdit_def)

text \<open>The messages of the dialog for new webhooks are shown in the dialog for editing.\<close>

lemma errors_carried_over:
  "i < length (hooks s) \<Longrightarrow> formErrors (run webhooks_step [WOpenEdit i] s) = formErrors s"
  by (simp add: on_row_def openEditDialog_def)

text \<open>The deliveries of one webhook are shown under the name of another when their answers overtake.\<close>

lemma deliveries_of_other:
  fixes di dj :: "delivery list"
  assumes "i < length (hooks s)" "j < length (hooks s)"
  defines "s' \<equiv> run webhooks_step [WViewDeliveries i, WViewDeliveries j, WDeliveries (Some dj), WDeliveries (Some di)] s"
  shows "selected s' = Some (hooks s ! j)" "deliveries s' = di"
  using assms by (simp_all add: on_row_def handleViewDeliveries_def send_def deliveries_got_def)

text \<open>An active webhook counts as disabled from ten failures on.\<close>

lemma auto_disabled_iff: "getStatusBadge w = AutoDisabled \<longleftrightarrow> wh_active w \<and> 10 \<le> wh_failures w"
  by (auto simp: getStatusBadge_def)

lemma durations:
  "formatDuration (Some 999) = ''999ms''" "formatDuration (Some 1500) = ''1.50s''"
  by code_simp+

end
