(* ===== verification/MessageText.thy ===== *)
theory MessageText
  imports Exports
begin

text \<open>
  The text of a message: writing it (\<open>components/communications/message-compose.tsx\<close>) and showing it
  (\<open>components/communications/message-bubble.tsx\<close>).

  The regular expressions are written out as functions on texts.  The dot stands for every character
  except the line ends LF and CR (the other two are above 255); \<open>^\<close> and \<open>$\<close> with the m flag stand
  next to line ends.  What the sanitizer does with the HTML afterwards is not modelled.
\<close>

section \<open>The expressions\<close>

definition CR :: char where "CR = char_of (13 :: nat)"

lemma CR_is: "CR = CHR 0x0D"
  by code_simp

definition line_end :: "char \<Rightarrow> bool" where
  "line_end c \<longleftrightarrow> c = LF \<or> c = CR"

text \<open>\<open>(.+?)m\<close> at the beginning of a text: the shortest run of characters, one at least, that the
  marker \<open>m\<close> follows; with what comes after the marker.\<close>

fun lazy_until :: "string \<Rightarrow> string \<Rightarrow> string \<Rightarrow> (string \<times> string) option" where
  "lazy_until m acc [] = None"
| "lazy_until m acc (c # s) =
     (if acc \<noteq> [] \<and> starts_with m (c # s) then Some (rev acc, drop (length m) (c # s))
      else if line_end c then None else lazy_until m (c # acc) s)"

lemma lazy_until_Some:
  "lazy_until m acc s = Some (w, r) \<Longrightarrow> \<exists>v. w = rev acc @ v \<and> s = v @ m @ r \<and> w \<noteq> []"
proof (induction m acc s rule: lazy_until.induct)
  case (2 m acc c s)
  show ?case
  proof (cases "acc \<noteq> [] \<and> starts_with m (c # s)")
    case True
    then have "w = rev acc" "r = drop (length m) (c # s)" using 2 by auto
    moreover have "c # s = m @ drop (length m) (c # s)"
      using True unfolding starts_with_def by (metis append_take_drop_id)
    ultimately show ?thesis using True by (intro exI [of _ "[]"]) simp
  next
    case False
    then have *: "lazy_until m (c # acc) s = Some (w, r)" using 2(2) by (auto split: if_splits)
    moreover have "\<not> line_end c" using False 2(2) by (auto split: if_splits)
    ultimately obtain v where "w = rev (c # acc) @ v" "s = v @ m @ r" "w \<noteq> []" using 2(1) [OF False] by blast
    then show ?thesis by (intro exI [of _ "c # v"]) simp
  qed
qed simp

lemma lazy_until_shorter:
  assumes "lazy_until m [] (drop n s) = Some (w, r)"
  shows "length r < length s"
proof -
  obtain v where "w = v" "drop n s = v @ m @ r" "w \<noteq> []" using lazy_until_Some [OF assms] by auto
  then have "length r < length (drop n s)" by (cases v) auto
  then show ?thesis by simp
qed

text \<open>\<open>replace(/m(.+?)m/g, open + "$1" + close)\<close>.\<close>

function emphasize :: "string \<Rightarrow> string \<Rightarrow> string \<Rightarrow> string \<Rightarrow> string" where
  "emphasize m op cl [] = []"
| "emphasize m op cl (c # s) =
     (case (if starts_with m (c # s) then lazy_until m [] (drop (length m) (c # s)) else None) of
        Some (w, r) \<Rightarrow> op @ w @ cl @ emphasize m op cl r
      | None \<Rightarrow> c # emphasize m op cl s)"
  by pat_completeness auto
termination
  by (relation "measure (\<lambda>(m, op, cl, s). length s)") (auto split: if_splits dest: lazy_until_shorter)

text \<open>\<open>/\[([^\]]+)\]\(([^)]+)\)/\<close> at a text that begins with the bracket: the text, the address and
  the rest.\<close>

definition link_at :: "string \<Rightarrow> (string \<times> string \<times> string) option" where
  "link_at s =
     (let t = takeWhile (\<lambda>c. c \<noteq> CHR '']'') (drop 1 s); r = dropWhile (\<lambda>c. c \<noteq> CHR '']'') (drop 1 s);
          u = takeWhile (\<lambda>c. c \<noteq> CHR '')'') (drop 2 r); q = dropWhile (\<lambda>c. c \<noteq> CHR '')'') (drop 2 r)
      in if take 1 s = ''['' \<and> t \<noteq> [] \<and> starts_with ''](''  r \<and> u \<noteq> [] \<and> q \<noteq> [] then Some (t, u, drop 1 q) else None)"

lemma link_at_Some:
  assumes "link_at s = Some (t, u, q)"
  shows "s = CHR ''['' # t @ ''](''  @ u @ CHR '')'' # q"
proof -
  let ?r = "dropWhile (\<lambda>c. c \<noteq> CHR '']'') (drop 1 s)" and ?q = "dropWhile (\<lambda>c. c \<noteq> CHR '')'') (drop 2 (dropWhile (\<lambda>c. c \<noteq> CHR '']'') (drop 1 s)))"
  have l: "take 1 s = ''[''" "starts_with ''](''  ?r" "?q \<noteq> []" "q = drop 1 ?q"
    "t = takeWhile (\<lambda>c. c \<noteq> CHR '']'') (drop 1 s)" "u = takeWhile (\<lambda>c. c \<noteq> CHR '')'') (drop 2 ?r)"
    using assms by (auto simp: link_at_def Let_def split: if_splits)
  have "?q = CHR '')'' # q" using hd_dropWhile [OF l(3)] l(3,4) by (cases ?q) auto
  then have "drop 2 ?r = u @ CHR '')'' # q" by (metis l(6) takeWhile_dropWhile_id)
  moreover have "?r = ''](''  @ drop 2 ?r" using l(2) by (metis append_take_drop_id length_Cons list.size(3) numeral_2_eq_2 starts_with_def)
  ultimately have "drop 1 s = t @ ''](''  @ u @ CHR '')'' # q" by (metis l(5) takeWhile_dropWhile_id)
  moreover have "s = take 1 s @ drop 1 s" by simp
  ultimately show ?thesis using l(1) by simp
qed

text \<open>Only these addresses become links.\<close>

definition safe_url :: "string \<Rightarrow> bool" where
  "safe_url u \<longleftrightarrow> lower (take 7 u) = ''http://'' \<or> lower (take 8 u) = ''https://'' \<or> lower (take 7 u) = ''mailto:''"

definition link_html :: "string \<Rightarrow> string \<Rightarrow> string" where
  "link_html t u =
     (if safe_url (trim u)
      then ''<a href='' @ [DQ] @ trim u @ [DQ] @ '' target='' @ [DQ] @ ''_blank'' @ [DQ] @ '' rel='' @ [DQ]
        @ ''noopener noreferrer'' @ [DQ] @ '' class='' @ [DQ] @ ''underline hover:no-underline'' @ [DQ] @ ''>''
        @ t @ ''</a>''
      else t)"

function links :: "string \<Rightarrow> string" where
  "links [] = []"
| "links (c # s) =
     (case link_at (c # s) of
        Some (t, u, r) \<Rightarrow> link_html t u @ links r
      | None \<Rightarrow> c # links s)"
  by pat_completeness auto
termination
  by (relation "measure length") (auto dest: link_at_Some)

text \<open>A line by itself, and \<open>replace(/^...$/gm)\<close>.\<close>

definition bullet_line :: "string \<Rightarrow> string" where
  "bullet_line l =
     (if starts_with ''- '' l \<and> drop 2 l \<noteq> []
      then ''<li class='' @ [DQ] @ ''ml-4 list-disc'' @ [DQ] @ ''>'' @ drop 2 l @ ''</li>'' else l)"

definition js_digit :: "char \<Rightarrow> bool" where
  "js_digit c \<longleftrightarrow> 48 \<le> code c \<and> code c \<le> 57"

definition numbered_line :: "string \<Rightarrow> string" where
  "numbered_line l =
     (let r = dropWhile js_digit l in
      if takeWhile js_digit l \<noteq> [] \<and> starts_with ''. '' r \<and> drop 2 r \<noteq> []
      then ''<li class='' @ [DQ] @ ''ml-4 list-decimal'' @ [DQ] @ ''>'' @ drop 2 r @ ''</li>'' else l)"

function per_line :: "(string \<Rightarrow> string) \<Rightarrow> string \<Rightarrow> string" where
  "per_line f s =
     f (takeWhile (\<lambda>c. \<not> line_end c) s)
     @ (case dropWhile (\<lambda>c. \<not> line_end c) s of [] \<Rightarrow> [] | c # t \<Rightarrow> c # per_line f t)"
  by pat_completeness auto
termination
proof (relation "measure (\<lambda>(f, s). length s)")
  fix f :: "string \<Rightarrow> string" and s c t
  assume "dropWhile (\<lambda>c. \<not> line_end c) s = c # t"
  then have "length (c # t) \<le> length s" by (metis length_dropWhile_le)
  then show "((f, t), f, s) \<in> measure (\<lambda>(f, s). length s)" by simp
qed simp

declare per_line.simps [simp del]

definition escape_html :: "string \<Rightarrow> string" where
  "escape_html text = replace_all CHR ''>'' ''&gt;'' (replace_all CHR ''<'' ''&lt;'' (replace_all CHR ''&'' ''&amp;'' text))"

definition renderMarkdown :: "string \<Rightarrow> string" where
  "renderMarkdown text =
     (let html = escape_html text;
          html = emphasize ''**'' ''<strong>'' ''</strong>'' html;
          html = emphasize ''_'' ''<em>'' ''</em>'' html;
          html = links html;
          html = per_line bullet_line html;
          html = per_line numbered_line html
      in replace_all LF ''<br />'' html)"

section \<open>The message\<close>

definition voice_prefix :: string where "voice_prefix = ''voice:''"

definition extractVoiceAttachments :: "string list \<Rightarrow> string list" where
  "extractVoiceAttachments ids = map (drop (length voice_prefix)) (filter (starts_with voice_prefix) ids)"

definition extractRegularAttachments :: "string list \<Rightarrow> string list" where
  "extractRegularAttachments ids = filter (\<lambda>i. \<not> starts_with voice_prefix i) ids"

text \<open>The readers without the sender.\<close>

definition readCount :: "string \<Rightarrow> string list option \<Rightarrow> int" where
  "readCount sender receipts =
     (case receipts of None \<Rightarrow> 0 | Some ids \<Rightarrow> int (length (filter (\<lambda>i. i \<noteq> sender) ids)))"

datatype bubble_body = Players "string list" | Unavailable | Html string

definition bubble_body_of :: "string list option \<Rightarrow> string option \<Rightarrow> bubble_body" where
  "bubble_body_of attachment_ids body =
     (let voice = (case attachment_ids of None \<Rightarrow> [] | Some ids \<Rightarrow> extractVoiceAttachments ids) in
      if 0 < length voice then Players voice
      else (case body of None \<Rightarrow> Unavailable | Some b \<Rightarrow> Html (renderMarkdown b)))"

section \<open>Writing\<close>

text \<open>Selecting, sending and the recorder.  \<open>typed\<close> is what the others are told about typing.\<close>

record compose =
  message :: string
  attachments :: "string list"
  showVoiceRecorder :: bool
  sent :: "(string \<times> string list) list"
  typed :: "bool list"

definition compose_start :: compose where
  "compose_start = \<lparr> message = [], attachments = [], showVoiceRecorder = False, sent = [], typed = [] \<rparr>"

definition wrapSelection :: "nat \<Rightarrow> nat \<Rightarrow> string \<Rightarrow> string \<Rightarrow> compose \<Rightarrow> compose" where
  "wrapSelection st en opener closer s =
     (let selectedText = drop st (take en (message s)) in
      s\<lparr> message := take st (message s) @ opener @ selectedText @ closer @ drop en (message s) \<rparr>)"

definition list_selection :: "(nat \<Rightarrow> string \<Rightarrow> string) \<Rightarrow> nat \<Rightarrow> nat \<Rightarrow> compose \<Rightarrow> compose" where
  "list_selection mark st en s =
     (let selectedText = drop st (take en (message s));
          ls = split_on LF selectedText;
          listText = join_with [LF] (map (\<lambda>(i, l). mark i l) (enumerate 0 ls))
      in s\<lparr> message := take st (message s) @ listText @ drop en (message s) \<rparr>)"

definition handleList :: "nat \<Rightarrow> nat \<Rightarrow> compose \<Rightarrow> compose" where
  "handleList st en s = list_selection (\<lambda>i l. ''- '' @ l) st en s"

definition handleOrderedList :: "nat \<Rightarrow> nat \<Rightarrow> compose \<Rightarrow> compose" where
  "handleOrderedList st en s = list_selection (\<lambda>i l. nat_text (i + 1) @ ''. '' @ l) st en s"

definition handleSend :: "compose \<Rightarrow> compose" where
  "handleSend s =
     (if trim (message s) = [] \<and> length (attachments s) = 0 then s
      else s\<lparr> sent := sent s @ [(message s, [])], message := [], attachments := [] \<rparr>)"

definition handleTyping :: "string \<Rightarrow> compose \<Rightarrow> compose" where
  "handleTyping v s = s\<lparr> message := v, typed := typed s @ [0 < length v] \<rparr>"

definition handleFileSelect :: "string list \<Rightarrow> compose \<Rightarrow> compose" where
  "handleFileSelect fs s = s\<lparr> attachments := attachments s @ fs \<rparr>"

definition removeAttachment :: "nat \<Rightarrow> compose \<Rightarrow> compose" where
  "removeAttachment i s = s\<lparr> attachments := take i (attachments s) @ drop (Suc i) (attachments s) \<rparr>"

text \<open>The microphone sign before the text is left out.\<close>

definition handleVoiceRecordingComplete :: "string \<Rightarrow> compose \<Rightarrow> compose" where
  "handleVoiceRecordingComplete p s =
     s\<lparr> sent := sent s @ [(''Voice message'', [voice_prefix @ p])], showVoiceRecorder := False \<rparr>"

datatype compose_event =
    MBold nat nat | MItalic nat nat | MLink nat nat | MList nat nat | MOrdered nat nat
  | MType string
  | MEnter bool
  | MSend
  | MFiles "string list"
  | MRemove nat
  | MRecorder bool
  | MRecorded string

text \<open>The field and its buttons are not there while the recorder is shown; the tool bar is.\<close>

fun compose_step :: "compose_event \<Rightarrow> compose \<Rightarrow> compose" where
  "compose_step (MBold a b) s = (if showVoiceRecorder s then s else wrapSelection a b ''**'' ''**'' s)"
| "compose_step (MItalic a b) s = (if showVoiceRecorder s then s else wrapSelection a b ''_'' ''_'' s)"
| "compose_step (MLink a b) s = (if showVoiceRecorder s then s else wrapSelection a b ''['' ''](url)'' s)"
| "compose_step (MList a b) s = (if showVoiceRecorder s then s else handleList a b s)"
| "compose_step (MOrdered a b) s = (if showVoiceRecorder s then s else handleOrderedList a b s)"
| "compose_step (MType v) s = (if showVoiceRecorder s then s else handleTyping v s)"
| "compose_step (MEnter shift) s = (if showVoiceRecorder s \<or> shift then s else handleSend s)"
| "compose_step MSend s = (if showVoiceRecorder s then s else handleSend s)"
| "compose_step (MFiles fs) s = (if showVoiceRecorder s then s else handleFileSelect fs s)"
| "compose_step (MRemove i) s = removeAttachment i s"
| "compose_step (MRecorder b) s = s\<lparr> showVoiceRecorder := b \<rparr>"
| "compose_step (MRecorded p) s = (if showVoiceRecorder s then handleVoiceRecordingComplete p s else s)"

section \<open>No markup of the sender\<close>

definition TAGS :: "string list" where
  "TAGS = [''<strong>'', ''</strong>'', ''<em>'', ''</em>'', ''<a href='', ''</a>'', ''<li class='', ''</li>'', ''<br />'']"

text \<open>Every opening angle bracket begins one of the tags \<open>T\<close>.\<close>

fun tags_only :: "string list \<Rightarrow> string \<Rightarrow> bool" where
  "tags_only T [] = True"
| "tags_only T (c # s) = ((c = CHR ''<'' \<longrightarrow> list_ex (\<lambda>t. starts_with t (c # s)) T) \<and> tags_only T s)"

lemma starts_with_more: "starts_with t s \<Longrightarrow> starts_with t (s @ r)"
  by (auto simp: starts_with_iff)

lemma tags_only_append: "tags_only T s \<Longrightarrow> tags_only T r \<Longrightarrow> tags_only T (s @ r)"
proof (induction s)
  case (Cons c s)
  then show ?case using starts_with_more [of _ "c # s" r] by (auto simp: list_ex_iff)
qed simp

lemma tags_only_suffix: "tags_only T (s @ r) \<Longrightarrow> tags_only T r"
  by (induction s) simp_all

lemma tags_only_plain: "CHR ''<'' \<notin> set s \<Longrightarrow> tags_only T s"
  by (induction s) auto

text \<open>Cutting a text at a character that no tag contains cuts no tag.\<close>

lemma starts_with_cut:
  "starts_with t (s @ c # r) \<Longrightarrow> c \<notin> set t \<Longrightarrow> starts_with t s"
proof -
  assume a: "starts_with t (s @ c # r)" "c \<notin> set t"
  then obtain q where q: "s @ c # r = t @ q" by (auto simp: starts_with_iff)
  have "length t \<le> length s"
  proof (rule ccontr)
    assume "\<not> length t \<le> length s"
    then have "t ! length s = c" using q by (metis nth_append nth_append_length not_le)
    then show False using a(2) \<open>\<not> length t \<le> length s\<close> by (metis not_le nth_mem)
  qed
  then have "take (length t) (s @ c # r) = take (length t) s" by simp
  then show "starts_with t s" using a(1) by (simp add: starts_with_def)
qed

lemma tags_only_prefix:
  assumes "list_all (\<lambda>t. c \<notin> set t) T"
  shows "tags_only T (s @ c # r) \<Longrightarrow> tags_only T s"
proof (induction s)
  case (Cons d s)
  then show ?case using assms starts_with_cut [of _ "d # s" c r] by (auto simp: list_ex_iff list_all_iff)
qed simp

lemma tags_only_mono:
  "tags_only T s \<Longrightarrow> set T \<subseteq> set U \<Longrightarrow> tags_only U s"
  by (induction s) (auto simp: list_ex_iff)

declare emphasize.simps [simp del] links.simps [simp del]

lemma emphasize_Nil [simp]: "emphasize m op cl [] = []" and links_Nil [simp]: "links [] = []"
  by (simp_all add: emphasize.simps links.simps)

text \<open>Text without the first character of the marker is copied.\<close>

lemma emphasize_step: "c \<noteq> x \<Longrightarrow> emphasize (x # m) op cl (c # s) = c # emphasize (x # m) op cl s"
  by (simp add: emphasize.simps starts_with_def)

lemma emphasize_skip: "x \<notin> set p \<Longrightarrow> emphasize (x # m) op cl (p @ q) = p @ emphasize (x # m) op cl q"
  by (induction p) (auto simp: emphasize_step)

lemma emphasize_plain: "x \<notin> set p \<Longrightarrow> emphasize (x # m) op cl p = p"
  using emphasize_skip [of x p m op cl "[]"] by simp

text \<open>A tag at the beginning stays when the text behind is rewritten by a function that copies tags.\<close>

lemma tag_kept:
  assumes "list_ex (\<lambda>t. starts_with t s) T"
    and "\<And>t q. t \<in> set T \<Longrightarrow> f (t @ q) = t @ f q"
  shows "list_ex (\<lambda>t. starts_with t (f s)) T"
proof -
  obtain t q where t: "t \<in> set T" "s = t @ q" using assms(1) by (auto simp: list_ex_iff starts_with_iff)
  then have "f s = t @ f q" using assms(2) by simp
  then have "starts_with t (f s)" by simp
  then show ?thesis using t(1) unfolding list_ex_iff by blast
qed

lemma emphasize_tags:
  assumes x: "list_all (\<lambda>t. x \<notin> set t) T" and op: "tags_only T op" "tags_only T cl"
  shows "tags_only T s \<Longrightarrow> tags_only T (emphasize (x # m) op cl s)"
proof (induction s rule: measure_induct_rule [of length])
  case (less s)
  let ?m = "x # m" and ?e = "emphasize (x # m) op cl"
  show ?case
  proof (cases s)
    case (Cons c s')
    show ?thesis
    proof (cases "if starts_with ?m s then lazy_until ?m [] (drop (length ?m) s) else None")
      case None
      have "tags_only T (?e s')" using less(1) [of s'] less(2) Cons by simp
      moreover have "list_ex (\<lambda>t. starts_with t (?e s)) T" if "c = CHR ''<''"
      proof (rule tag_kept [where f = "?e" and s = s])
        show "list_ex (\<lambda>t. starts_with t s) T" using less(2) Cons that by simp
        show "?e (t @ q) = t @ ?e q" if "t \<in> set T" for t q
          using x that by (intro emphasize_skip) (simp add: list_all_iff)
      qed
      moreover have "?e s = c # ?e s'" using None unfolding Cons by (simp add: emphasize.simps)
      ultimately show ?thesis by simp
    next
      case (Some wr)
      obtain w r where wr: "wr = (w, r)" by (cases wr)
      have l: "lazy_until ?m [] (drop (length ?m) s) = Some (w, r)" using Some wr by (auto split: if_splits)
      have v: "drop (length ?m) s = w @ ?m @ r" using lazy_until_Some [OF l] by auto
      have "tags_only T (w @ ?m @ r)"
        using less(2) tags_only_suffix [of T "take (length ?m) s"] v by (metis append_take_drop_id)
      then have "tags_only T w" "tags_only T r"
        using tags_only_prefix [OF x, of w "m @ r"] tags_only_suffix [of T "w @ ?m" r] by simp_all
      moreover have "tags_only T (?e r)"
        using less(1) [of r] lazy_until_shorter [OF l] calculation(2) by blast
      moreover have "?e s = op @ w @ cl @ ?e r" using Some wr unfolding Cons by (simp add: emphasize.simps)
      ultimately show ?thesis using op by (simp add: tags_only_append)
    qed
  qed simp
qed

text \<open>The links.  The texts before this pass hold no tag with a space, so trimming cuts none.\<close>

definition INLINE :: "string list" where
  "INLINE = [''<strong>'', ''</strong>'', ''<em>'', ''</em>'']"

lemma tags_of_trim:
  assumes "tags_only INLINE u"
  shows "tags_only INLINE (trim u)"
proof -
  define a where "a = takeWhile is_space u"
  define v where "v = dropWhile is_space u"
  define b where "b = rev (takeWhile is_space (rev v))"
  have u: "u = a @ v" by (simp add: a_def v_def)
  have "rev v = takeWhile is_space (rev v) @ dropWhile is_space (rev v)" by simp
  then have "rev (rev v) = rev (takeWhile is_space (rev v) @ dropWhile is_space (rev v))" by (rule arg_cong)
  then have "v = rev (dropWhile is_space (rev v)) @ b" by (simp only: b_def rev_append rev_rev_ident)
  then have v: "v = trim u @ b" by (simp add: trim_def v_def)
  have "tags_only INLINE v" by (rule tags_only_suffix [of INLINE a]) (simp add: assms flip: u)
  then have "tags_only INLINE (trim u @ b)" by (simp flip: v)
  moreover have "\<exists>x b'. b = x # b' \<and> is_space x" if "b \<noteq> []"
    using that set_takeWhileD [of _ is_space "rev v"] by (cases b) (auto simp: b_def)
  moreover have "list_all (\<lambda>t. list_all (\<lambda>x. \<not> is_space x) t) INLINE" by code_simp
  then have "is_space x \<Longrightarrow> list_all (\<lambda>t. x \<notin> set t) INLINE" for x
    unfolding list_all_iff by blast
  ultimately show ?thesis
    using tags_only_prefix [of "hd b" INLINE "trim u" "tl b"] by (cases b) auto
qed

lemma inline_in_tags: "set INLINE \<subseteq> set TAGS"
  by (simp add: INLINE_def TAGS_def)

lemma link_html_tags:
  assumes "tags_only INLINE t" "tags_only INLINE u"
  shows "tags_only TAGS (link_html t u)"
proof -
  have t: "tags_only TAGS t" "tags_only TAGS (trim u)"
    using tags_only_mono [OF assms(1) inline_in_tags] tags_only_mono [OF tags_of_trim [OF assms(2)] inline_in_tags] .
  have o: "tags_only TAGS ''<a href=''" "tags_only TAGS ''</a>''"
    by (simp_all add: TAGS_def starts_with_def)
  have p: "tags_only TAGS [DQ]" "tags_only TAGS '' target=''" "tags_only TAGS ''_blank''" "tags_only TAGS '' rel=''"
    "tags_only TAGS ''noopener noreferrer''" "tags_only TAGS '' class=''" "tags_only TAGS ''underline hover:no-underline''"
    "tags_only TAGS ''>''"
    by (rule tags_only_plain, simp add: DQ_is)+
  show ?thesis
  proof (cases "safe_url (trim u)")
    case True
    show ?thesis unfolding link_html_def if_P [OF True] by (intro tags_only_append t o p)
  next
    case False
    show ?thesis unfolding link_html_def if_not_P [OF False] by (rule t)
  qed
qed

lemma links_step: "c \<noteq> CHR ''['' \<Longrightarrow> links (c # s) = c # links s"
  by (simp add: links.simps link_at_def Let_def)

lemma links_skip: "CHR ''['' \<notin> set p \<Longrightarrow> links (p @ q) = p @ links q"
  by (induction p) (auto simp: links_step)

lemma links_plain: "CHR ''['' \<notin> set p \<Longrightarrow> links p = p"
  using links_skip [of p "[]"] by simp

lemma links_tags: "tags_only INLINE s \<Longrightarrow> tags_only TAGS (links s)"
proof (induction s rule: measure_induct_rule [of length])
  case (less s)
  have cut: "list_all (\<lambda>t. CHR ''['' \<notin> set t) INLINE" "list_all (\<lambda>t. CHR '']'' \<notin> set t) INLINE"
    "list_all (\<lambda>t. CHR '')'' \<notin> set t) INLINE" by (simp_all add: INLINE_def)
  show ?case
  proof (cases s)
    case (Cons c s')
    show ?thesis
    proof (cases "link_at s")
      case None
      have "tags_only TAGS (links s')" using less(1) [of s'] less(2) Cons by simp
      moreover have "list_ex (\<lambda>t. starts_with t (links s)) INLINE" if "c = CHR ''<''"
      proof (rule tag_kept [where f = links and s = s])
        show "list_ex (\<lambda>t. starts_with t s) INLINE" using less(2) Cons that by simp
        show "links (t @ q) = t @ links q" if "t \<in> set INLINE" for t q
          using cut(1) that by (intro links_skip) (auto simp: list_all_iff)
      qed
      moreover have "links s = c # links s'" using None unfolding Cons by (simp add: links.simps)
      ultimately show ?thesis using inline_in_tags by (auto simp: list_ex_iff)
    next
      case (Some tur)
      obtain t u r where tur: "tur = (t, u, r)" by (cases tur)
      have d: "s = CHR ''['' # t @ ''](''  @ u @ CHR '')'' # r" using link_at_Some Some tur by simp
      have "tags_only INLINE (t @ CHR '']'' # ''(''  @ u @ CHR '')'' # r)" using less(2) d by simp
      then have t: "tags_only INLINE t" by (rule tags_only_prefix [OF cut(2)])
      have "tags_only INLINE (u @ CHR '')'' # r)"
        using less(2) tags_only_suffix [of INLINE "CHR ''['' # t @ ''](''"] d by simp
      then have u: "tags_only INLINE u" "tags_only INLINE r"
        using tags_only_prefix [OF cut(3), of u r] tags_only_suffix [of INLINE "u @ '')''" r] by simp_all
      have "tags_only TAGS (links r)" using less(1) [of r] d u(2) by simp
      moreover have "links s = link_html t u @ links r" using Some tur unfolding Cons by (simp add: links.simps)
      ultimately show ?thesis using link_html_tags [OF t u(1)] by (simp add: tags_only_append)
    qed
  qed simp
qed

text \<open>The lists, line by line, and the line breaks.\<close>

lemma per_line_tags:
  assumes "\<And>l. tags_only TAGS l \<Longrightarrow> tags_only TAGS (f l)" "tags_only TAGS s"
  shows "tags_only TAGS (per_line f s)"
  using assms
proof (induction f s rule: per_line.induct)
  case (1 f s)
  let ?l = "takeWhile (\<lambda>c. \<not> line_end c) s" and ?r = "dropWhile (\<lambda>c. \<not> line_end c) s"
  show ?case
  proof (cases ?r)
    case Nil
    then have "?l = s" by (metis append_Nil2 takeWhile_dropWhile_id)
    then have "per_line f s = f s" using Nil by (subst per_line.simps) (simp only: list.simps append_Nil2)
    then show ?thesis using 1(2,3) by simp
  next
    case (Cons c t)
    have s: "s = ?l @ c # t" by (metis Cons takeWhile_dropWhile_id)
    have c: "line_end c" using hd_dropWhile [of "\<lambda>c. \<not> line_end c" s] Cons by simp
    then have "list_all (\<lambda>t. c \<notin> set t) TAGS" by (auto simp: line_end_def TAGS_def LF_is CR_is)
    from tags_only_prefix [OF this, of ?l t] have l: "tags_only TAGS ?l" using 1(3) s by simp
    have t: "tags_only TAGS t" using 1(3) s tags_only_suffix [of TAGS "?l @ [c]" t] by simp
    have p: "tags_only TAGS (per_line f t)" using 1(1) [OF Cons] 1(2) t by blast
    have "c \<noteq> CHR ''<''" using c by (auto simp: line_end_def LF_is CR_is)
    then have "tags_only TAGS (c # per_line f t)" using p by simp
    moreover have "per_line f s = f ?l @ c # per_line f t" using Cons by (subst per_line.simps) simp
    ultimately show ?thesis using 1(2) [OF l] by (simp add: tags_only_append)
  qed
qed

lemma bullet_line_tags: "tags_only TAGS l \<Longrightarrow> tags_only TAGS (bullet_line l)"
proof -
  assume l: "tags_only TAGS l"
  have o: "tags_only TAGS ''<li class=''" "tags_only TAGS ''</li>''" by (simp_all add: TAGS_def starts_with_def)
  have p: "tags_only TAGS [DQ]" "tags_only TAGS ''ml-4 list-disc''" "tags_only TAGS ''>''"
    by (rule tags_only_plain, simp add: DQ_is)+
  have "tags_only TAGS (drop 2 l)" using l tags_only_suffix [of TAGS "take 2 l" "drop 2 l"] by simp
  from tags_only_append [OF o(1) tags_only_append [OF p(1) tags_only_append [OF p(2) tags_only_append
      [OF p(1) tags_only_append [OF p(3) tags_only_append [OF this o(2)]]]]]]
  show ?thesis using l unfolding bullet_line_def by (rule if_split [THEN iffD2, OF conjI, OF impI impI])
qed

lemma numbered_line_tags: "tags_only TAGS l \<Longrightarrow> tags_only TAGS (numbered_line l)"
proof -
  assume l: "tags_only TAGS l"
  let ?r = "dropWhile js_digit l"
  have o: "tags_only TAGS ''<li class=''" "tags_only TAGS ''</li>''" by (simp_all add: TAGS_def starts_with_def)
  have p: "tags_only TAGS [DQ]" "tags_only TAGS ''ml-4 list-decimal''" "tags_only TAGS ''>''"
    by (rule tags_only_plain, simp add: DQ_is)+
  have "tags_only TAGS ?r" using l tags_only_suffix [of TAGS "takeWhile js_digit l" ?r] by simp
  then have "tags_only TAGS (drop 2 ?r)" using tags_only_suffix [of TAGS "take 2 ?r" "drop 2 ?r"] by simp
  from tags_only_append [OF o(1) tags_only_append [OF p(1) tags_only_append [OF p(2) tags_only_append
      [OF p(1) tags_only_append [OF p(3) tags_only_append [OF this o(2)]]]]]]
  show ?thesis using l unfolding numbered_line_def Let_def by (rule if_split [THEN iffD2, OF conjI, OF impI impI])
qed

lemma replace_LF_tags: "tags_only TAGS s \<Longrightarrow> tags_only TAGS (replace_all LF ''<br />'' s)"
proof (induction s)
  case (Cons c s)
  let ?f = "replace_all LF ''<br />''"
  have br: "tags_only TAGS ''<br />''" by (simp add: TAGS_def starts_with_def)
  show ?case
  proof (cases "c = LF")
    case True
    then show ?thesis using Cons tags_only_append [OF br, of "?f s"] by simp
  next
    case False
    have "list_ex (\<lambda>t. starts_with t (?f (c # s))) TAGS" if "c = CHR ''<''"
    proof (rule tag_kept [where f = ?f and s = "c # s"])
      show "list_ex (\<lambda>t. starts_with t (c # s)) TAGS" using Cons.prems that by simp
      have n: "list_all (\<lambda>t. LF \<notin> set t) TAGS" by (simp add: TAGS_def LF_is)
      show "?f (t @ q) = t @ ?f q" if "t \<in> set TAGS" for t q
        using n that by (simp add: list_all_iff replace_all_append replace_all_plain)
    qed
    moreover have "LF \<noteq> CHR ''<''" by (simp add: LF_is)
    ultimately show ?thesis using Cons False by auto
  qed
qed simp

lemma escaped_no_angle: "CHR ''<'' \<notin> set (escape_html s)"
proof -
  have a: "CHR ''<'' \<notin> set (replace_all CHR ''<'' ''&lt;'' t)" for t by (induction t) auto
  have "CHR ''<'' \<notin> set t \<Longrightarrow> CHR ''<'' \<notin> set (replace_all CHR ''>'' ''&gt;'' t)" for t by (induction t) auto
  then show ?thesis using a by (simp add: escape_html_def)
qed

text \<open>C7.  Whatever the sender writes, every opening angle bracket of the HTML begins one of the tags of
  the converter.\<close>

theorem no_markup_of_sender: "tags_only TAGS (renderMarkdown text)"
proof -
  have i: "list_all (\<lambda>t. CHR ''*'' \<notin> set t) INLINE" "list_all (\<lambda>t. CHR ''_'' \<notin> set t) INLINE"
    "tags_only INLINE ''<strong>''" "tags_only INLINE ''</strong>''" "tags_only INLINE ''<em>''" "tags_only INLINE ''</em>''"
    by (simp_all add: INLINE_def starts_with_def)
  have "tags_only INLINE (escape_html text)" by (rule tags_only_plain [OF escaped_no_angle])
  then have "tags_only INLINE (emphasize ''**'' ''<strong>'' ''</strong>'' (escape_html text))"
    by (rule emphasize_tags [OF i(1,3,4)])
  then have "tags_only INLINE (emphasize ''_'' ''<em>'' ''</em>'' (emphasize ''**'' ''<strong>'' ''</strong>'' (escape_html text)))"
    by (rule emphasize_tags [OF i(2,5,6)])
  then have "tags_only TAGS (links (emphasize ''_'' ''<em>'' ''</em>'' (emphasize ''**'' ''<strong>'' ''</strong>'' (escape_html text))))"
    by (rule links_tags)
  then show ?thesis
    unfolding renderMarkdown_def Let_def
    by (intro replace_LF_tags per_line_tags [OF numbered_line_tags] per_line_tags [OF bullet_line_tags])
qed

text \<open>Inside a tag the sender does write: a quote in the address ends the attribute.  Only the sanitizer
  stands behind this.\<close>

lemma quote_in_address_adds_attribute:
  "starts_with (''<a href='' @ [DQ] @ ''https://a'' @ [DQ] @ '' onclick='')
     (renderMarkdown (''[x](https://a'' @ [DQ] @ '' onclick='' @ [DQ] @ ''b)''))"
  by code_simp

text \<open>Two underscores in an address become emphasis, and the link is broken.\<close>

lemma underscores_break_links:
  "starts_with (''<a href='' @ [DQ] @ ''https://x/my<em>first</em>page'' @ [DQ])
     (renderMarkdown ''[here](https://x/my_first_page)'')"
  by code_simp

section \<open>Formatting\<close>

text \<open>Text without the special characters is shown as it is.\<close>

definition plain_word :: "string \<Rightarrow> bool" where
  "plain_word w \<longleftrightarrow> list_all (\<lambda>c. c \<notin> set ''&<>*_[-.'' \<and> \<not> line_end c) w"

lemma per_line_one: "list_all (\<lambda>c. \<not> line_end c) s \<Longrightarrow> per_line f s = f s"
proof -
  assume "list_all (\<lambda>c. \<not> line_end c) s"
  then have "takeWhile (\<lambda>c. \<not> line_end c) s = s" "dropWhile (\<lambda>c. \<not> line_end c) s = []"
    by (auto simp: list_all_iff takeWhile_eq_all_conv)
  then show ?thesis unfolding per_line.simps [of f s] by (simp only: list.simps append_Nil2)
qed

lemma plain_word_lacks:
  assumes "plain_word w"
  shows "CHR ''&'' \<notin> set w" "CHR ''<'' \<notin> set w" "CHR ''>'' \<notin> set w" "CHR ''*'' \<notin> set w" "CHR ''_'' \<notin> set w"
    "CHR ''['' \<notin> set w" "CHR ''-'' \<notin> set w" "CHR ''.'' \<notin> set w" "LF \<notin> set w" "list_all (\<lambda>c. \<not> line_end c) w"
  using assms by (auto simp: plain_word_def list_all_iff line_end_def)

lemma no_dash_line: "CHR ''-'' \<notin> set l \<Longrightarrow> bullet_line l = l"
  by (cases l) (auto simp: bullet_line_def starts_with_def)

lemma no_dot_line: "CHR ''.'' \<notin> set l \<Longrightarrow> numbered_line l = l"
proof -
  assume a: "CHR ''.'' \<notin> set l"
  have "\<not> starts_with ''. '' (dropWhile js_digit l)"
  proof
    assume "starts_with ''. '' (dropWhile js_digit l)"
    then have "CHR ''.'' \<in> set (dropWhile js_digit l)" by (auto simp: starts_with_iff)
    then show False using a set_dropWhileD by fast
  qed
  then show ?thesis by (simp add: numbered_line_def Let_def)
qed

lemma escape_plain: "plain_word w \<Longrightarrow> escape_html w = w"
  using plain_word_lacks [of w] by (simp add: escape_html_def replace_all_plain)

lemma plain_shown_as_is: "plain_word w \<Longrightarrow> renderMarkdown w = w"
  using plain_word_lacks [of w]
  by (simp add: renderMarkdown_def Let_def escape_plain emphasize_plain links_plain per_line_one no_dash_line
      no_dot_line replace_all_plain)

lemma lazy_until_run:
  assumes "m = x # m'" "x \<notin> set w" "list_all (\<lambda>c. \<not> line_end c) w" "acc @ w \<noteq> []"
  shows "lazy_until m acc (w @ m @ r) = Some (rev acc @ w, r)"
  using assms(2-)
proof (induction w arbitrary: acc)
  case Nil
  then show ?case by (simp add: assms(1) starts_with_def)
next
  case (Cons c w)
  then show ?case using Cons.IH [of "c # acc"] by (auto simp: assms(1) starts_with_def)
qed

lemma emphasize_one:
  assumes "x \<notin> set w" "list_all (\<lambda>c. \<not> line_end c) w" "w \<noteq> []"
  shows "emphasize (x # m) op cl ((x # m) @ w @ (x # m)) = op @ w @ cl"
proof -
  have "lazy_until (x # m) [] (w @ (x # m) @ []) = Some ([] @ w, [])"
    using assms lazy_until_run [of "x # m" x m w "[]" "[]"] by simp
  then show ?thesis by (simp add: emphasize.simps starts_with_def)
qed

text \<open>A selected text made bold and one made italic are shown in their tags.\<close>

definition word_selected :: "string \<Rightarrow> compose" where
  "word_selected w = compose_start\<lparr> message := w \<rparr>"

lemma per_line_tagged:
  assumes "list_all (\<lambda>c. \<not> line_end c) s" "starts_with ''<'' s"
  shows "per_line bullet_line s = s" "per_line numbered_line s = s"
proof -
  obtain t where "s = ''<'' @ t" using assms(2) by (auto simp: starts_with_iff)
  then have "bullet_line s = s" "numbered_line s = s"
    by (simp_all add: bullet_line_def numbered_line_def starts_with_def js_digit_def code_def Let_def)
  then show "per_line bullet_line s = s" "per_line numbered_line s = s"
    using per_line_one [OF assms(1)] by simp_all
qed

text \<open>A word marked with the button for bold text is rendered as that word in bold, and as nothing else.\<close>

theorem bold_is_shown_bold:
  assumes "plain_word w" "w \<noteq> []"
  shows "renderMarkdown (message (compose_step (MBold 0 (length w)) (word_selected w))) = ''<strong>'' @ w @ ''</strong>''"
proof -
  let ?h = "''<strong>'' @ w @ ''</strong>''"
  note l = plain_word_lacks [OF assms(1)]
  have m: "message (compose_step (MBold 0 (length w)) (word_selected w)) = ''**'' @ w @ ''**''"
    by (simp add: wrapSelection_def word_selected_def compose_start_def Let_def)
  have e: "escape_html (''**'' @ w @ ''**'') = ''**'' @ w @ ''**''"
    using l by (simp add: escape_html_def replace_all_append replace_all_plain)
  have b: "emphasize ''**'' ''<strong>'' ''</strong>'' (''**'' @ w @ ''**'') = ?h"
    using emphasize_one [of "CHR ''*''" w "''*''" "''<strong>''" "''</strong>''"] l assms(2) by simp
  have i: "emphasize ''_'' ''<em>'' ''</em>'' ?h = ?h" using l by (intro emphasize_plain) simp
  have k: "links ?h = ?h" using l by (intro links_plain) simp
  have n: "list_all (\<lambda>c. \<not> line_end c) ?h" using l(10) by (simp add: line_end_def LF_is CR_is)
  have p: "per_line bullet_line ?h = ?h" "per_line numbered_line ?h = ?h"
    using per_line_tagged [OF n] by (simp_all add: starts_with_def)
  have r: "replace_all LF ''<br />'' ?h = ?h" using l(9) by (intro replace_all_plain) (simp add: LF_is)
  show ?thesis unfolding m renderMarkdown_def Let_def e b i k p r by simp
qed

lemma bold_witness:
  "renderMarkdown (message (compose_step (MBold 0 (length ''hi'')) (word_selected ''hi''))) = ''<strong>'' @ ''hi'' @ ''</strong>''"
  by (rule bold_is_shown_bold) (simp_all add: plain_word_def line_end_def LF_is CR_is)

section \<open>Sending\<close>

text \<open>What is sent carries no file: in every run each message goes without attachments or with one
  recording.\<close>

definition no_files :: "compose \<Rightarrow> bool" where
  "no_files s \<longleftrightarrow> list_all (\<lambda>(b, ids). extractRegularAttachments ids = []) (sent s)"

lemma no_files_step: "no_files s \<Longrightarrow> no_files (compose_step e s)"
  by (cases e) (auto simp: no_files_def wrapSelection_def handleList_def handleOrderedList_def list_selection_def
      handleTyping_def handleSend_def handleFileSelect_def removeAttachment_def handleVoiceRecordingComplete_def
      extractRegularAttachments_def Let_def)

text \<open>In every run no message carries a file, whatever was attached: the attachments are recordings.\<close>

theorem files_are_never_sent:
  "list_all (\<lambda>(b, ids). extractRegularAttachments ids = []) (sent (fold compose_step es compose_start))"
proof -
  have "no_files s \<Longrightarrow> no_files (fold compose_step es s)" for s
    by (induction es arbitrary: s) (simp_all add: no_files_step)
  from this [of compose_start] show ?thesis by (simp add: no_files_def compose_start_def)
qed

text \<open>A message of files alone is sent empty, and the files are gone.\<close>

lemma files_alone_sent_empty:
  "fs \<noteq> [] \<Longrightarrow> sent (fold compose_step [MFiles fs, MSend] compose_start) = [([], [])]
    \<and> attachments (fold compose_step [MFiles fs, MSend] compose_start) = []"
  by (simp add: compose_start_def handleFileSelect_def handleSend_def)

text \<open>After sending nobody is told that the typing ended.\<close>

lemma typing_goes_on_after_send:
  "v \<noteq> [] \<Longrightarrow> typed (fold compose_step [MType v, MSend] compose_start) = [True]"
  by (simp add: compose_start_def handleTyping_def handleSend_def)

text \<open>A blank message with nothing attached is not sent.\<close>

lemma blank_not_sent: "trim (message s) = [] \<Longrightarrow> attachments s = [] \<Longrightarrow> handleSend s = s"
  by (simp add: handleSend_def)

text \<open>A recording is found again in what is sent.\<close>

lemma recording_found:
  "bubble_body_of (Some (snd (last (sent (handleVoiceRecordingComplete p s))))) body = Players [p]"
  by (simp add: bubble_body_of_def handleVoiceRecordingComplete_def extractVoiceAttachments_def voice_prefix_def
      starts_with_def)

lemma attachments_split:
  "length (extractVoiceAttachments ids) + length (extractRegularAttachments ids) = length ids"
  using sum_length_filter_compl [of "starts_with voice_prefix" ids]
  by (simp add: extractVoiceAttachments_def extractRegularAttachments_def)

text \<open>The numbers of an ordered list count its lines.\<close>

lemma ordered_list_example:
  "message (handleOrderedList 0 3 (word_selected (''a'' @ [LF] @ ''b''))) = ''1. a'' @ [LF] @ ''2. b''"
  by code_simp

end
