(* ===== verification/MessageTemplates.thy ===== *)
theory MessageTemplates
  imports JsMaps
begin

text \<open>
  Message templates: the placeholders of a text, the form of a template, its approval and the list
  (\<open>app/(dashboard)/communications/templates/page.tsx\<close>,
  \<open>components/communications/ApprovalDialog.tsx\<close>), writing a message from a template
  (\<open>components/communications/template-compose.tsx\<close>), and the payload of a certificate template
  (\<open>app/(dashboard)/certificates/templates/[id]/page.tsx\<close>).

  A field of a payload that is \<open>undefined\<close> is left out of the request; it is None here.  The order in
  which an object keeps keys that are numbers is not modelled.
\<close>

section \<open>Placeholders\<close>

text \<open>\<open>\w\<close>.\<close>

definition word_letter :: "char \<Rightarrow> bool" where
  "word_letter c \<longleftrightarrow> (97 \<le> code c \<and> code c \<le> 122) \<or> (65 \<le> code c \<and> code c \<le> 90) \<or> (48 \<le> code c \<and> code c \<le> 57) \<or> code c = 95"

text \<open>\<open>/\{\{\s*(\w+)\s*\}\}/\<close> at the beginning of a text: the name and the rest.\<close>

definition placeholder_at :: "string \<Rightarrow> (string \<times> string) option" where
  "placeholder_at s =
     (let r = dropWhile is_space (drop 2 s); n = takeWhile word_letter r;
          q = dropWhile is_space (dropWhile word_letter r)
      in if starts_with ''{{'' s \<and> n \<noteq> [] \<and> starts_with ''}}'' q then Some (n, drop 2 q) else None)"

lemma placeholder_at_shorter: "placeholder_at s = Some (n, r) \<Longrightarrow> length r < length s"
proof -
  assume a: "placeholder_at s = Some (n, r)"
  let ?r = "dropWhile is_space (drop 2 s)"
  have "r = drop 2 (dropWhile is_space (dropWhile word_letter ?r))" "s \<noteq> []"
    using a by (auto simp: placeholder_at_def Let_def starts_with_def split: if_splits)
  moreover have "length (dropWhile is_space (dropWhile word_letter ?r)) \<le> length (drop 2 s)"
    by (meson length_dropWhile_le order_trans)
  ultimately show ?thesis by (cases s) auto
qed

function placeholders :: "string \<Rightarrow> string list" where
  "placeholders [] = []"
| "placeholders (c # s) =
     (case placeholder_at (c # s) of Some (n, r) \<Rightarrow> n # placeholders r | None \<Rightarrow> placeholders s)"
  by pat_completeness auto
termination
  by (relation "measure length") (auto dest: placeholder_at_shorter)

declare placeholders.simps [simp del]

text \<open>\<open>[...new Set(xs)]\<close>.\<close>

definition unique_names :: "string list \<Rightarrow> string list" where
  "unique_names xs = rev (remdups (rev xs))"

definition extractVariables :: "string \<Rightarrow> string list" where
  "extractVariables body = unique_names (placeholders body)"

record variable_definition =
  vd_type :: string
  vd_description :: string
  vd_required :: bool

definition buildVariableDefinitions :: "string \<Rightarrow> string \<Rightarrow> (string \<times> variable_definition) list option" where
  "buildVariableDefinitions body subject =
     (let allVars = extractVariables (body @ '' '' @ subject) in
      if length allVars = 0 then None
      else Some (map (\<lambda>name. (name, \<lparr> vd_type = ''string'',
            vd_description = map (\<lambda>c. if c = CHR ''_'' then CHR '' '' else c) name, vd_required = True \<rparr>)) allVars))"

section \<open>The form\<close>

datatype template_status = TDraft | TPending | TApproved | TRejected

record template =
  tm_id :: string
  tm_name :: string
  tm_type :: string
  tm_subject :: "string option"
  tm_body :: string
  tm_active :: bool
  tm_system :: bool
  tm_status :: template_status
  tm_variables :: "(string \<times> variable_definition) list option"

record template_form =
  ff_name :: string
  ff_type :: string
  ff_subject :: string
  ff_body :: string
  ff_active :: bool

definition template_form_of :: "template option \<Rightarrow> template_form" where
  "template_form_of editing =
     (case editing of
        Some t \<Rightarrow> \<lparr> ff_name = tm_name t, ff_type = tm_type t,
             ff_subject = (case tm_subject t of None \<Rightarrow> [] | Some s \<Rightarrow> s), ff_body = tm_body t, ff_active = tm_active t \<rparr>
      | None \<Rightarrow> \<lparr> ff_name = [], ff_type = ''custom'', ff_subject = [], ff_body = [], ff_active = True \<rparr>)"

record template_payload =
  py_name :: string
  py_type :: string
  py_subject :: "string option"
  py_body :: string
  py_variables :: "(string \<times> variable_definition) list option"
  py_active :: "bool option"

definition template_payload_of :: "template option \<Rightarrow> template_form \<Rightarrow> template_payload" where
  "template_payload_of editing f = \<lparr> py_name = ff_name f, py_type = ff_type f,
     py_subject = (if ff_subject f = [] then None else Some (ff_subject f)), py_body = ff_body f,
     py_variables = buildVariableDefinitions (ff_body f) (ff_subject f),
     py_active = (if editing = None then None else Some (ff_active f)) \<rparr>"

text \<open>What the server keeps: the fields of the request over the stored ones.\<close>

definition patched :: "template_payload \<Rightarrow> template \<Rightarrow> template" where
  "patched p t = t\<lparr> tm_name := py_name p, tm_type := py_type p,
     tm_subject := (case py_subject p of None \<Rightarrow> tm_subject t | Some s \<Rightarrow> Some s), tm_body := py_body p,
     tm_variables := (case py_variables p of None \<Rightarrow> tm_variables t | Some v \<Rightarrow> Some v),
     tm_active := (case py_active p of None \<Rightarrow> tm_active t | Some a \<Rightarrow> a) \<rparr>"

definition preview_variables :: "template \<Rightarrow> string list" where
  "preview_variables t =
     (case tm_variables t of
        Some v \<Rightarrow> unique_names (map fst v)
      | None \<Rightarrow> extractVariables ((case tm_subject t of None \<Rightarrow> [] | Some s \<Rightarrow> s) @ '' '' @ tm_body t))"

section \<open>Approval and the list\<close>

definition can_submit :: "template \<Rightarrow> bool" where
  "can_submit t \<longleftrightarrow> \<not> tm_system t \<and> (tm_status t = TDraft \<or> tm_status t = TRejected)"

definition can_decide :: "bool \<Rightarrow> template \<Rightarrow> bool" where
  "can_decide isMD t \<longleftrightarrow> \<not> tm_system t \<and> isMD \<and> tm_status t = TPending"

datatype template_action = Submit | Approve | Reject "string option"

definition handleApprovalConfirm :: "bool \<Rightarrow> string \<Rightarrow> template_action" where
  "handleApprovalConfirm approving reason = (if approving then Approve else Reject (Some reason))"

text \<open>The filters of the list; \<open>all\<close> and the empty search let everything through.\<close>

definition status_text :: "template_status \<Rightarrow> string" where
  "status_text st = (case st of TDraft \<Rightarrow> ''draft'' | TPending \<Rightarrow> ''pending'' | TApproved \<Rightarrow> ''approved'' | TRejected \<Rightarrow> ''rejected'')"

definition template_shown :: "string \<Rightarrow> string \<Rightarrow> string \<Rightarrow> template \<Rightarrow> bool" where
  "template_shown statusFilter approvalFilter search t =
     (if statusFilter = ''active'' \<and> \<not> tm_active t then False
      else if statusFilter = ''inactive'' \<and> tm_active t then False
      else if approvalFilter \<noteq> ''all'' \<and> status_text (tm_status t) \<noteq> approvalFilter then False
      else if search \<noteq> [] \<and> \<not> str_includes (lower search) (lower (tm_name t))
        \<and> \<not> str_includes (lower search) (lower (tm_type t)) then False
      else True)"

section \<open>Writing from a template\<close>

type_synonym values_given = "(string \<times> string) list"

record template_compose =
  tc_templates :: "template list"
  tc_selected :: string
  tc_variables :: values_given
  tc_preview :: "(string \<times> values_given) option"
  tc_previewing :: "(string \<times> values_given) list"
  tc_sending :: nat
  tc_sent :: "(template \<times> string list \<times> values_given) list"

definition compose_empty :: template_compose where
  "compose_empty = \<lparr> tc_templates = [], tc_selected = [], tc_variables = [], tc_preview = None, tc_previewing = [],
     tc_sending = 0, tc_sent = [] \<rparr>"

definition template_with :: "string \<Rightarrow> template list \<Rightarrow> template option" where
  "template_with i ts = List.find (\<lambda>t. tm_id t = i) ts"

definition selectedTemplate :: "template_compose \<Rightarrow> template option" where
  "selectedTemplate s = template_with (tc_selected s) (tc_templates s)"

definition buildAutoFill :: "(string \<times> string) list \<Rightarrow> template \<Rightarrow> values_given" where
  "buildAutoFill context t =
     (case tm_variables t of None \<Rightarrow> []
      | Some vs \<Rightarrow> fold (\<lambda>n filled. case map_of context n of None \<Rightarrow> filled | Some v \<Rightarrow> AList.update n v filled)
          (map fst vs) [])"

definition handleTemplateChange :: "(string \<times> string) list \<Rightarrow> string \<Rightarrow> template_compose \<Rightarrow> template_compose" where
  "handleTemplateChange context i s =
     s\<lparr> tc_selected := i,
        tc_variables := (case template_with i (tc_templates s) of Some t \<Rightarrow> buildAutoFill context t | None \<Rightarrow> []),
        tc_preview := None \<rparr>"

definition handleVariableChange :: "string \<Rightarrow> string \<Rightarrow> template_compose \<Rightarrow> template_compose" where
  "handleVariableChange n v s = s\<lparr> tc_variables := AList.update n v (tc_variables s), tc_preview := None \<rparr>"

definition requiredVarNames :: "template \<Rightarrow> string list" where
  "requiredVarNames t = (case tm_variables t of None \<Rightarrow> [] | Some vs \<Rightarrow> unique_names (map fst vs))"

definition filled_in :: "template \<Rightarrow> values_given \<Rightarrow> bool" where
  "filled_in t vs \<longleftrightarrow>
     list_all (\<lambda>n. case Option.bind (tm_variables t) (\<lambda>ds. map_of ds n) of
          None \<Rightarrow> True
        | Some d \<Rightarrow> if \<not> vd_required d then True else 0 < length (trim (get_or [] vs n))) (requiredVarNames t)"

definition handlePreview :: "template_compose \<Rightarrow> template_compose" where
  "handlePreview s =
     (case selectedTemplate s of None \<Rightarrow> s
      | Some t \<Rightarrow>
          if filled_in t (tc_variables s) \<and> tc_previewing s = [] \<and> tc_selected s \<noteq> []
          then s\<lparr> tc_previewing := [(tc_selected s, tc_variables s)] \<rparr> else s)"

definition preview_answered :: "template_compose \<Rightarrow> template_compose" where
  "preview_answered s =
     (case tc_previewing s of [] \<Rightarrow> s | p # ps \<Rightarrow> s\<lparr> tc_preview := Some p, tc_previewing := ps \<rparr>)"

definition handleSend :: "string list \<Rightarrow> template_compose \<Rightarrow> template_compose" where
  "handleSend recipients s =
     (case selectedTemplate s of None \<Rightarrow> s
      | Some t \<Rightarrow>
          if filled_in t (tc_variables s) \<and> recipients \<noteq> [] \<and> tc_sending s = 0 \<and> tc_selected s \<noteq> []
          then s\<lparr> tc_sent := tc_sent s @ [(t, recipients, tc_variables s)], tc_sending := 1 \<rparr> else s)"

definition send_answered :: "bool \<Rightarrow> template_compose \<Rightarrow> template_compose" where
  "send_answered ok s =
     (if tc_sending s = 0 then s
      else if ok then s\<lparr> tc_sending := 0, tc_selected := [], tc_variables := [], tc_preview := None \<rparr>
      else s\<lparr> tc_sending := 0 \<rparr>)"

datatype template_event =
    TLoaded "template list"
  | TSelect string
  | TVariable string string
  | TPreview
  | TPreviewed
  | TSend "string list"
  | TSent bool

fun template_step :: "(string \<times> string) list \<Rightarrow> template_event \<Rightarrow> template_compose \<Rightarrow> template_compose" where
  "template_step cx (TLoaded ts) s = s\<lparr> tc_templates := ts \<rparr>"
| "template_step cx (TSelect i) s = handleTemplateChange cx i s"
| "template_step cx (TVariable n v) s = handleVariableChange n v s"
| "template_step cx TPreview s = handlePreview s"
| "template_step cx TPreviewed s = preview_answered s"
| "template_step cx (TSend rs) s = handleSend rs s"
| "template_step cx (TSent ok) s = send_answered ok s"

section \<open>A certificate template\<close>

record certificate_payload =
  cp_name :: "string option"
  cp_description :: "string option"
  cp_content :: "string option"
  cp_active :: bool

definition certificate_payload_of :: "string \<Rightarrow> string \<Rightarrow> string \<Rightarrow> bool \<Rightarrow> certificate_payload" where
  "certificate_payload_of name description content isActive = \<lparr>
     cp_name = (if trim name = [] then None else Some (trim name)),
     cp_description = (if trim description = [] then None else Some (trim description)),
     cp_content = (if content = [] then None else Some content), cp_active = isActive \<rparr>"

section \<open>The placeholders of a text\<close>

text \<open>A text put together of pieces and placeholders.\<close>

datatype piece = Words string | Hole string string string

fun piece_text :: "piece \<Rightarrow> string" where
  "piece_text (Words w) = w"
| "piece_text (Hole a n b) = ''{{'' @ a @ n @ b @ ''}}''"

fun piece_ok :: "piece \<Rightarrow> bool" where
  "piece_ok (Words w) = (CHR ''{'' \<notin> set w)"
| "piece_ok (Hole a n b) = (n \<noteq> [] \<and> list_all word_letter n \<and> list_all is_space a \<and> list_all is_space b)"

fun hole_name :: "piece \<Rightarrow> string option" where
  "hole_name (Words w) = None"
| "hole_name (Hole a n b) = Some n"

lemma word_letter_no_space: "word_letter c \<Longrightarrow> \<not> is_space c"
  by (auto simp: word_letter_def is_space_def)

lemma dropWhile_run: "list_all p a \<Longrightarrow> r = [] \<or> \<not> p (hd r) \<Longrightarrow> dropWhile p (a @ r) = r \<and> takeWhile p (a @ r) = a"
  by (induction a) (cases r; auto)+

lemma placeholder_at_hole:
  assumes "n \<noteq> []" "list_all word_letter n" "list_all is_space a" "list_all is_space b"
  shows "placeholder_at (''{{'' @ a @ n @ b @ ''}}'' @ r) = Some (n, r)"
proof -
  have e: "\<not> is_space CHR ''}''" "\<not> word_letter CHR ''}''" by (simp_all add: is_space_def word_letter_def code_def)
  have "\<not> is_space (hd (n @ b @ ''}}'' @ r))" using assms(1,2) word_letter_no_space by (cases n) auto
  then have "dropWhile is_space (a @ n @ b @ ''}}'' @ r) = n @ b @ ''}}'' @ r"
    using dropWhile_run [OF assms(3), of "n @ b @ ''}}'' @ r"] by blast
  moreover have "\<not> word_letter (hd (b @ ''}}'' @ r))" using assms(4) word_letter_no_space e by (cases b) auto
  then have "dropWhile word_letter (n @ b @ ''}}'' @ r) = b @ ''}}'' @ r \<and> takeWhile word_letter (n @ b @ ''}}'' @ r) = n"
    using dropWhile_run [OF assms(2), of "b @ ''}}'' @ r"] by blast
  moreover have "dropWhile is_space (b @ ''}}'' @ r) = ''}}'' @ r"
    using dropWhile_run [OF assms(4), of "''}}'' @ r"] e by simp
  ultimately show ?thesis using assms(1) by (simp add: placeholder_at_def starts_with_def Let_def)
qed

lemma placeholders_skip: "CHR ''{'' \<notin> set w \<Longrightarrow> placeholders (w @ r) = placeholders r"
  by (induction w) (auto simp: placeholders.simps placeholder_at_def starts_with_def)

text \<open>The variables of a text are its placeholders, each once, in the order of their first places,
  with or without spaces in the braces.\<close>

theorem variables_are_placeholders:
  assumes "list_all piece_ok ps"
  shows "extractVariables (concat (map piece_text ps)) = unique_names (List.map_filter hole_name ps)"
proof -
  have "placeholders (concat (map piece_text ps)) = List.map_filter hole_name ps"
    using assms
  proof (induction ps)
    case Nil
    then show ?case by (simp add: placeholders.simps map_filter_simps)
  next
    case (Cons p ps)
    show ?case
    proof (cases p)
      case (Words w)
      then show ?thesis using Cons placeholders_skip by (simp add: map_filter_simps)
    next
      case (Hole a n b)
      have "placeholder_at (''{{'' @ a @ n @ b @ ''}}'' @ concat (map piece_text ps)) = Some (n, concat (map piece_text ps))"
        using Cons.prems Hole by (intro placeholder_at_hole) simp_all
      then show ?thesis using Cons Hole by (simp add: placeholders.simps map_filter_simps)
    qed
  qed
  then show ?thesis by (simp add: extractVariables_def)
qed

lemma variables_witness:
  "extractVariables ''Dear {{ name }}, {{name}} and {{week_1}}'' = [''name'', ''week_1'']"
  using variables_are_placeholders [of "[Words ''Dear '', Hole '' '' ''name'' '' '', Words '', '', Hole '''' ''name'' '''', Words '' and '', Hole '''' ''week_1'' '''']"]
  by (simp add: is_space_def word_letter_def code_def unique_names_def map_filter_simps)

lemma unique_names_distinct: "distinct (unique_names xs)" "set (unique_names xs) = set xs"
  by (simp_all add: unique_names_def)

text \<open>A form declares exactly the variables of its texts, each required.\<close>

lemma declared_variables:
  "(case buildVariableDefinitions body subject of None \<Rightarrow> [] | Some v \<Rightarrow> map fst v) = extractVariables (body @ '' '' @ subject)"
  by (simp add: buildVariableDefinitions_def Let_def comp_def)

section \<open>What an edit keeps\<close>

text \<open>Saved without a change a template stays as it is, apart from its variables, which are declared
  anew; a subject that was empty counts as none.\<close>

lemma unchanged_template_kept:
  "patched (template_payload_of (Some t) (template_form_of (Some t))) t
     = t\<lparr> tm_variables := (case buildVariableDefinitions (tm_body t) (case tm_subject t of None \<Rightarrow> [] | Some s \<Rightarrow> s) of
          None \<Rightarrow> tm_variables t | Some v \<Rightarrow> Some v) \<rparr>"
  by (auto simp: patched_def template_payload_of_def template_form_of_def split: option.split)

text \<open>A subject that is emptied is not sent, and stays.\<close>

lemma emptied_subject_stays:
  "tm_subject (patched (template_payload_of (Some t) (f\<lparr> ff_subject := [] \<rparr>)) t) = tm_subject t"
  by (simp add: patched_def template_payload_of_def)

text \<open>Neither are the variables when the last placeholder goes: the template keeps asking for them.\<close>

lemma removed_variables_stay:
  assumes "extractVariables (ff_body f @ '' '' @ ff_subject f) = []"
  shows "tm_variables (patched (template_payload_of (Some t) f) t) = tm_variables t"
  using assms by (simp add: patched_def template_payload_of_def buildVariableDefinitions_def)

lemma emptied_certificate_fields_not_sent:
  "cp_description (certificate_payload_of n '' '' c a) = None \<and> cp_content (certificate_payload_of n d [] a) = None"
  by (simp add: certificate_payload_of_def trim_def is_space_def code_def)

section \<open>What is sent\<close>

definition sends_ok :: "template_compose \<Rightarrow> bool" where
  "sends_ok s \<longleftrightarrow> list_all (\<lambda>(t, rs, vs). filled_in t vs \<and> rs \<noteq> []) (tc_sent s)"

lemma sends_ok_step: "sends_ok s \<Longrightarrow> sends_ok (template_step cx e s)"
  by (cases e) (auto simp: sends_ok_def handleTemplateChange_def handleVariableChange_def handlePreview_def
      preview_answered_def handleSend_def send_answered_def split: option.split list.split)

text \<open>In every run a message goes to someone, with every required variable of its template filled.\<close>

theorem sent_messages_complete:
  "list_all (\<lambda>(t, rs, vs). filled_in t vs \<and> rs \<noteq> []) (tc_sent (fold (template_step cx) es compose_empty))"
proof -
  have "sends_ok s \<Longrightarrow> sends_ok (fold (template_step cx) es s)" for s
    by (induction es arbitrary: s) (simp_all add: sends_ok_step)
  from this [of compose_empty] show ?thesis by (simp add: sends_ok_def compose_empty_def)
qed

text \<open>Choosing a template fills in what the context knows of its variables, and nothing else.\<close>

lemma auto_fill:
  "map_of (buildAutoFill cx t) n
     = (if n \<in> set (case tm_variables t of None \<Rightarrow> [] | Some vs \<Rightarrow> map fst vs) then map_of cx n else None)"
proof (cases "tm_variables t")
  case (Some vs)
  have "map_of (fold (\<lambda>n filled. case map_of cx n of None \<Rightarrow> filled | Some v \<Rightarrow> AList.update n v filled) ns acc) n
      = (if n \<in> set ns then (case map_of cx n of None \<Rightarrow> map_of acc n | Some v \<Rightarrow> Some v) else map_of acc n)" for ns acc
    by (induction ns arbitrary: acc) (auto simp: update_conv' split: option.split)
  then show ?thesis using Some by (auto simp: buildAutoFill_def split: option.split)
qed (simp add: buildAutoFill_def)

text \<open>A preview answered after a variable was changed shows the old value.\<close>

lemma stale_preview:
  assumes "template_with i (tc_templates s) = Some t" "i \<noteq> []" "tc_selected s = i" "filled_in t (tc_variables s)"
    "tc_previewing s = []"
  shows "tc_preview (fold (template_step cx) [TPreview, TVariable n v, TPreviewed] s) = Some (i, tc_variables s)"
  using assms by (simp add: handlePreview_def selectedTemplate_def handleVariableChange_def preview_answered_def)

text \<open>A late answer to a sent message empties what is being written next.\<close>

lemma late_send_empties_next:
  assumes "tc_sending s \<noteq> 0"
  shows "tc_variables (fold (template_step cx) [TSelect i, TVariable n v, TSent True] s) = []
    \<and> tc_selected (fold (template_step cx) [TSelect i, TVariable n v, TSent True] s) = []"
  using assms by (simp add: handleTemplateChange_def handleVariableChange_def send_answered_def)

section \<open>Approval\<close>

text \<open>Nobody submits what awaits a decision, and nobody decides on what does not; nothing is offered
  for an approved or a system template.\<close>

lemma one_action_at_a_time:
  "\<not> (can_submit t \<and> can_decide m t)"
  "tm_status t = TApproved \<or> tm_system t \<Longrightarrow> \<not> can_submit t \<and> \<not> can_decide m t"
  by (auto simp: can_submit_def can_decide_def)

lemma no_filter_shows_all: "template_shown ''all'' ''all'' [] t"
  by (simp add: template_shown_def)

text \<open>Status and approval filters together with the search narrow the list.\<close>

lemma filters_narrow: "template_shown sf af q t \<Longrightarrow> template_shown ''all'' ''all'' q t"
  by (auto simp: template_shown_def split: if_splits)

end
