(* ===== verification/Scorecards.thy ===== *)
theory Scorecards
  imports JsNumbers
begin

text \<open>
  What partners see of their performance: the score cards
  (\<open>components/partners/scorecard-dashboard.tsx\<close>), the trend chart with its metrics and events
  (\<open>components/partners/performance-chart.tsx\<close>) and the alerts
  (\<open>components/partners/performance-alerts.tsx\<close>).

  A missing number is None; the text shown for it (a dash) is None too.  Colours are their levels.
  The time of a date text, which the date library reads, is an argument.
\<close>

section \<open>Score cards\<close>

datatype level = Missing | Good | Fair | Poor

text \<open>\<open>scoreColor\<close>, \<open>scoreBg\<close> and \<open>progressColor\<close> tell the same levels; the ring has its own.\<close>

definition score_level :: "rat option \<Rightarrow> level" where
  "score_level score =
     (case score of None \<Rightarrow> Missing | Some s \<Rightarrow> if s \<ge> 80 then Good else if s \<ge> 60 then Fair else Poor)"

definition ring_level :: "rat option \<Rightarrow> level" where
  "ring_level score =
     (let value = (case score of None \<Rightarrow> 0 | Some s \<Rightarrow> s) in
      if value \<ge> 80 then Good else if value \<ge> 60 then Fair else Poor)"

text \<open>The drawn part of the ring, of the whole.\<close>

definition ring_part :: "rat option \<Rightarrow> rat" where
  "ring_part score = (case score of None \<Rightarrow> 0 | Some s \<Rightarrow> s) / 100"

datatype trend_icon = TrendUp | TrendDown | TrendLevel

definition trendIndicator :: "rat option \<Rightarrow> rat option \<Rightarrow> (trend_icon \<times> string) option" where
  "trendIndicator current avg =
     (case (current, avg) of
        (Some c, Some a) \<Rightarrow>
          (let diff = c - a in
           if diff > 2 then Some (TrendUp, ''+'' @ to_fixed 1 diff @ '' vs avg'')
           else if diff < - 2 then Some (TrendDown, to_fixed 1 diff @ '' vs avg'')
           else Some (TrendLevel, ''On par with avg''))
      | _ \<Rightarrow> None)"

definition fmt :: "rat option \<Rightarrow> string \<Rightarrow> string" where
  "fmt val suf = (case val of None \<Rightarrow> ''N/A'' | Some v \<Rightarrow> to_fixed 1 v @ suf)"

definition fmtHours :: "rat option \<Rightarrow> string" where
  "fmtHours hours =
     (case hours of None \<Rightarrow> ''N/A''
      | Some h \<Rightarrow> if h < 1 then int_text (math_round (h * 60)) @ ''m''
                 else if h < 24 then to_fixed 1 h @ ''h'' else to_fixed 1 (h / 24) @ ''d'')"

record scorecard =
  sc_composite :: "rat option"
  sc_sla :: "rat option"
  sc_response :: "rat option"
  sc_quality :: "rat option"
  sc_on_time :: "rat option"
  sc_satisfaction :: "rat option"
  sc_avg_sla :: "rat option"
  sc_avg_quality :: "rat option"
  sc_avg_satisfaction :: "rat option"

record metric_card =
  mc_title :: string
  mc_value :: string
  mc_score :: "rat option"
  mc_avg :: "rat option"

definition of_five :: "rat option \<Rightarrow> string" where
  "of_five v = fmt v [] @ (case v of None \<Rightarrow> [] | Some _ \<Rightarrow> '' / 5'')"

definition metric_cards :: "scorecard \<Rightarrow> metric_card list" where
  "metric_cards d =
     [\<lparr> mc_title = ''SLA Compliance'', mc_value = fmt (sc_sla d) ''%'', mc_score = sc_sla d, mc_avg = sc_avg_sla d \<rparr>,
      \<lparr> mc_title = ''Response Time'', mc_value = fmtHours (sc_response d),
         mc_score = map_option (\<lambda>h. max 0 (100 - h / 48 * 100)) (sc_response d), mc_avg = None \<rparr>,
      \<lparr> mc_title = ''Quality Score'', mc_value = of_five (sc_quality d),
         mc_score = map_option (\<lambda>q. q * 20) (sc_quality d), mc_avg = map_option (\<lambda>q. q * 20) (sc_avg_quality d) \<rparr>,
      \<lparr> mc_title = ''On-time Delivery'', mc_value = fmt (sc_on_time d) ''%'', mc_score = sc_on_time d, mc_avg = None \<rparr>,
      \<lparr> mc_title = ''Client Satisfaction'', mc_value = of_five (sc_satisfaction d),
         mc_score = map_option (\<lambda>q. q * 20) (sc_satisfaction d), mc_avg = map_option (\<lambda>q. q * 20) (sc_avg_satisfaction d) \<rparr>]"

definition card_trend :: "metric_card \<Rightarrow> (trend_icon \<times> string) option" where
  "card_trend c = trendIndicator (mc_score c) (mc_avg c)"

definition card_progress :: "metric_card \<Rightarrow> rat option" where
  "card_progress c = map_option (min 100) (mc_score c)"

definition card_average :: "metric_card \<Rightarrow> string option" where
  "card_average c =
     (case mc_avg c of None \<Rightarrow> None
      | Some a \<Rightarrow> Some (''Platform avg: '' @
          fmt (Some a) (case mc_score c of None \<Rightarrow> [] | Some s \<Rightarrow> if s > 10 then ''%'' else [])))"

text \<open>A row of the rating breakdown: the text and the bar.\<close>

definition rating_row :: "rat option \<Rightarrow> string \<times> rat \<times> level" where
  "rating_row v =
     (case v of None \<Rightarrow> (''N/A'', 0, score_level None)
      | Some x \<Rightarrow> (to_fixed 2 x @ '' / 5.0'', x * 20, score_level (Some (x * 20))))"

section \<open>The trend chart\<close>

datatype metric_key = SlaPct | AvgOverall | AvgQuality | AvgTimeliness | AvgCommunication | CompletedCount

definition visible_start :: "metric_key list" where
  "visible_start = [SlaPct, AvgOverall, AvgQuality]"

text \<open>The set of metrics, in insertion order; the last one stays.\<close>

definition toggleMetric :: "metric_key \<Rightarrow> metric_key list \<Rightarrow> metric_key list" where
  "toggleMetric key prev =
     (if key \<in> set prev then (if 1 < length prev then filter (\<lambda>k. k \<noteq> key) prev else prev) else prev @ [key])"

record annotation =
  an_date :: string
  an_label :: string
  an_event :: string
  an_severity :: "string option"

definition closer :: "(string \<Rightarrow> int) \<Rightarrow> int \<Rightarrow> string \<Rightarrow> string option \<Rightarrow> string option" where
  "closer time annDate week closest =
     (case closest of
        None \<Rightarrow> Some week
      | Some c \<Rightarrow>
          if c = [] then Some week
          else if \<bar>time week - annDate\<bar> < \<bar>time c - annDate\<bar> then Some week else Some c)"

definition closest_week :: "(string \<Rightarrow> int) \<Rightarrow> string list \<Rightarrow> int \<Rightarrow> string option" where
  "closest_week time weeks annDate = fold (closer time annDate) weeks None"

definition annotationDates :: "(string \<Rightarrow> int) \<Rightarrow> bool \<Rightarrow> string list \<Rightarrow> annotation list \<Rightarrow> (string \<times> annotation) list" where
  "annotationDates time hideAnnotations weeks anns =
     (if anns = [] \<or> hideAnnotations then []
      else fold (\<lambda>ann m. case closest_week time weeks (time (an_date ann)) of
            None \<Rightarrow> m | Some w \<Rightarrow> if w = [] then m else AList.update w ann m) anns [])"

text \<open>The axis of a reference line: the percentage axis is drawn with the SLA line only.\<close>

definition reference_axis :: "metric_key list \<Rightarrow> string" where
  "reference_axis visible = (if SlaPct \<in> set visible then ''pct'' else ''score'')"

definition axis_of :: "metric_key \<Rightarrow> string" where
  "axis_of k = (case k of SlaPct \<Rightarrow> ''pct'' | CompletedCount \<Rightarrow> ''count'' | _ \<Rightarrow> ''score'')"

definition drawn_axes :: "metric_key list \<Rightarrow> string list" where
  "drawn_axes visible =
     (if SlaPct \<in> set visible then [''pct''] else [])
     @ (if AvgOverall \<in> set visible \<or> AvgQuality \<in> set visible \<or> AvgTimeliness \<in> set visible
           \<or> AvgCommunication \<in> set visible then [''score''] else [])
     @ (if CompletedCount \<in> set visible then [''count''] else [])"

datatype badge_variant = DestructiveV | SecondaryV | OutlineV

definition annotation_variant :: "annotation \<Rightarrow> badge_variant" where
  "annotation_variant a =
     (if an_event a = ''governance'' then DestructiveV else if an_severity a = Some ''critical'' then DestructiveV
      else if an_severity a = Some ''major'' then SecondaryV else OutlineV)"

definition sla_summary_level :: "rat option \<Rightarrow> level" where
  "sla_summary_level v =
     (case v of None \<Rightarrow> Missing | Some x \<Rightarrow> if x \<ge> 90 then Good else if x \<ge> 75 then Fair else Poor)"

definition quality_summary_level :: "rat option \<Rightarrow> level" where
  "quality_summary_level v =
     (case v of None \<Rightarrow> Missing | Some x \<Rightarrow> if x \<ge> 4 then Good else if x \<ge> 3 then Fair else Poor)"

section \<open>The alerts\<close>

definition formatValue :: "string \<Rightarrow> rat option \<Rightarrow> string" where
  "formatValue metric v =
     (case v of None \<Rightarrow> ''N/A''
      | Some x \<Rightarrow> if metric = ''sla_compliance_pct'' then to_fixed 1 x @ ''%'' else to_fixed 1 x @ '' / 5'')"

definition formatThreshold :: "string \<Rightarrow> rat \<Rightarrow> string" where
  "formatThreshold metric t =
     (if metric = ''sla_compliance_pct'' then to_fixed 0 t @ ''%'' else to_fixed 1 t @ '' / 5'')"

definition trendLabel :: "string \<Rightarrow> string" where
  "trendLabel trend =
     (if trend = ''improving'' then ''Improving'' else if trend = ''declining'' then ''Declining''
      else if trend = ''stable'' then ''Stable'' else if trend = ''insufficient_data'' then ''Insufficient data'' else trend)"

text \<open>A box of the summary: whether it is green, and its text.\<close>

definition summary_box :: "string \<Rightarrow> (string \<times> rat option) list \<Rightarrow> rat \<Rightarrow> bool \<times> string option" where
  "summary_box key metrics threshold =
     (let numericValue = (case map_of metrics key of None \<Rightarrow> None | Some v \<Rightarrow> v) in
      ((case numericValue of None \<Rightarrow> False | Some x \<Rightarrow> x \<ge> threshold),
       map_option (\<lambda>x. if key = ''sla_compliance_pct'' then to_fixed 1 x @ ''%'' else to_fixed 1 x) numericValue))"

section \<open>The cards\<close>

text \<open>Ring and number agree on the level unless the score is missing: a missing one is a red ring of
  no length.\<close>

lemma ring_agrees_iff: "ring_level score = score_level score \<longleftrightarrow> score \<noteq> None"
  by (cases score) (simp_all add: ring_level_def score_level_def Let_def)

text \<open>A response time is good up to 9.6 hours and poor from 19.2 hours on, and worth nothing from 48
  hours on.\<close>

lemma response_time_levels:
  assumes "0 \<le> h"
  shows "score_level (mc_score (metric_cards (d\<lparr> sc_response := Some h \<rparr>) ! 1))
    = (if h \<le> 48 / 5 then Good else if h \<le> 96 / 5 then Fair else Poor)"
  using assms by (auto simp: metric_cards_def score_level_def max_def field_simps)

lemma progress_in_range:
  "list_all (\<lambda>v. case v of None \<Rightarrow> True | Some x \<Rightarrow> x \<le> 100) (map card_progress (metric_cards d))"
  by (simp add: metric_cards_def card_progress_def split: option.split)

text \<open>An average of ratings is shown as a percentage beside a value out of five.\<close>

lemma average_of_ratings_as_percentage:
  "map (\<lambda>c. (mc_value c, card_average c))
     (filter (\<lambda>c. mc_title c = ''Quality Score'') (metric_cards (d\<lparr> sc_quality := Some 4, sc_avg_quality := Some (21/5) \<rparr>)))
   = [(''4.0 / 5'', Some ''Platform avg: 84.0%'')]"
proof -
  have "to_fixed 1 4 = ''4.0''" "to_fixed 1 84 = ''84.0''" by code_simp+
  then show ?thesis by (simp add: metric_cards_def of_five_def fmt_def card_average_def)
qed

text \<open>Beside a score of ten or less the percentage loses its sign.\<close>

lemma average_loses_sign:
  "mc_score c = Some 10 \<Longrightarrow> mc_avg c = Some 85 \<Longrightarrow> card_average c = Some ''Platform avg: 85.0''"
proof -
  have "to_fixed 1 85 = ''85.0''" by code_simp
  then show "mc_score c = Some 10 \<Longrightarrow> mc_avg c = Some 85 \<Longrightarrow> ?thesis" by (simp add: card_average_def fmt_def)
qed

text \<open>Half a minute below an hour is sixty minutes, and just below a day 24.0 hours.\<close>

lemma hours_at_boundaries: "fmtHours (Some (119/120)) = ''60m''" "fmtHours (Some (2399/100)) = ''24.0h''"
  by code_simp+

lemma trend_shown_iff: "trendIndicator c a = None \<longleftrightarrow> c = None \<or> a = None"
  by (cases c; cases a) (auto simp: trendIndicator_def Let_def)

section \<open>The chart\<close>

text \<open>Whatever is pressed, one metric at least is drawn, and none twice.\<close>

definition visible_ok :: "metric_key list \<Rightarrow> bool" where
  "visible_ok ks \<longleftrightarrow> ks \<noteq> [] \<and> distinct ks"

lemma toggle_ok: "visible_ok ks \<Longrightarrow> visible_ok (toggleMetric k ks)"
proof -
  assume ok: "visible_ok ks"
  have "filter (\<lambda>j. j \<noteq> k) ks \<noteq> []" if "1 < length ks"
  proof
    assume "filter (\<lambda>j. j \<noteq> k) ks = []"
    then have "set ks \<subseteq> {k}" by (auto simp: filter_empty_conv)
    then have "card (set ks) \<le> 1" by (metis card.empty card.insert card_mono empty_iff finite.emptyI finite.insertI One_nat_def)
    then show False using ok that by (simp add: visible_ok_def distinct_card)
  qed
  then show ?thesis using ok by (auto simp: toggleMetric_def visible_ok_def)
qed

lemma one_metric_at_least: "visible_ok (fold toggleMetric ks visible_start)"
proof -
  have "visible_ok vs \<Longrightarrow> visible_ok (fold toggleMetric ks vs)" for vs
    by (induction ks arbitrary: vs) (simp_all add: toggle_ok)
  then show ?thesis by (simp add: visible_ok_def visible_start_def)
qed

text \<open>With the count alone the events are tied to an axis that is not drawn.\<close>

lemma events_on_missing_axis:
  "fold toggleMetric [CompletedCount, SlaPct, AvgOverall, AvgQuality] visible_start = [CompletedCount]
   \<and> reference_axis [CompletedCount] \<notin> set (drawn_axes [CompletedCount])"
  by (simp add: toggleMetric_def visible_start_def reference_axis_def drawn_axes_def)

section \<open>The events\<close>

definition nearest_of :: "(string \<Rightarrow> int) \<Rightarrow> int \<Rightarrow> string list \<Rightarrow> string \<Rightarrow> bool" where
  "nearest_of time d weeks w \<longleftrightarrow> w \<in> set weeks \<and> list_all (\<lambda>v. \<bar>time w - d\<bar> \<le> \<bar>time v - d\<bar>) weeks"

lemma closest_week_nearest:
  assumes "list_all (\<lambda>w. w \<noteq> []) weeks"
  shows "case closest_week time weeks d of None \<Rightarrow> weeks = [] | Some w \<Rightarrow> nearest_of time d weeks w"
  using assms
proof (induction weeks rule: rev_induct)
  case Nil
  then show ?case by (simp add: closest_week_def)
next
  case (snoc v weeks)
  show ?case
  proof (cases "closest_week time weeks d")
    case None
    then have "weeks = []" using snoc by simp
    then show ?thesis by (simp add: closest_week_def closer_def nearest_of_def)
  next
    case (Some w)
    then have n: "nearest_of time d weeks w" using snoc by simp
    then have "w \<noteq> []" using snoc.prems by (auto simp: nearest_of_def list_all_iff)
    moreover have "closest_week time (weeks @ [v]) d = closer time d v (Some w)"
      using Some by (simp add: closest_week_def)
    ultimately show ?thesis using n by (auto simp: closer_def nearest_of_def list_all_iff)
  qed
qed

text \<open>Each week has the last of the events that are nearest to it: of two in one week the first is not
  drawn.\<close>

theorem week_shows_last_event:
  assumes "list_all (\<lambda>w. w \<noteq> []) weeks"
  shows "map_of (annotationDates time False weeks anns) w
    = (let here = filter (\<lambda>a. closest_week time weeks (time (an_date a)) = Some w) anns
       in if here = [] then None else Some (last here))"
proof -
  let ?step = "\<lambda>ann m. case closest_week time weeks (time (an_date ann)) of
            None \<Rightarrow> m | Some w \<Rightarrow> if w = [] then m else AList.update w ann m"
  have ne: "closest_week time weeks d = Some v \<Longrightarrow> v \<noteq> []" for d v
    using closest_week_nearest [OF assms, of time d] assms by (auto simp: nearest_of_def list_all_iff)
  have "map_of (fold ?step anns []) w
    = (let here = filter (\<lambda>a. closest_week time weeks (time (an_date a)) = Some w) anns
       in if here = [] then None else Some (last here))"
  proof (induction anns rule: rev_induct)
    case (snoc a anns)
    then show ?case using ne by (auto simp: Let_def update_conv' split: option.split)
  qed simp
  then show ?thesis by (simp add: annotationDates_def)
qed

lemma week_shows_last_witness:
  "map_of (annotationDates (\<lambda>s. int (length s)) False [''ab'', ''abcd'']
      [\<lparr> an_date = ''a'', an_label = ''first'', an_event = ''notice'', an_severity = None \<rparr>,
       \<lparr> an_date = ''ab'', an_label = ''second'', an_event = ''notice'', an_severity = None \<rparr>]) ''ab''
   = Some \<lparr> an_date = ''ab'', an_label = ''second'', an_event = ''notice'', an_severity = None \<rparr>"
proof -
  have "list_all (\<lambda>w. w \<noteq> []) [''ab'', ''abcd'']" by simp
  from week_shows_last_event [OF this, of "\<lambda>s. int (length s)"] show ?thesis
    by (simp add: closest_week_def closer_def)
qed

lemma hidden_events: "annotationDates time True weeks anns = []"
  by (simp add: annotationDates_def)

section \<open>The summary\<close>

text \<open>A metric without data is shown as missed.\<close>

lemma no_data_is_red: "summary_box key [(key, None)] t = (False, None)"
  by (simp add: summary_box_def)

lemma box_green_iff: "fst (summary_box key [(key, Some x)] t) \<longleftrightarrow> t \<le> x"
  by (simp add: summary_box_def)

text \<open>A value just below its threshold shows the same text and is red.\<close>

lemma red_at_threshold_text:
  "summary_box ''sla_compliance_pct'' [(''sla_compliance_pct'', Some (8996/100))] 90 = (False, Some ''90.0%'')"
proof -
  have "to_fixed 1 (8996/100) = ''90.0''" by code_simp
  then show ?thesis by (simp add: summary_box_def)
qed

end
