(* ===== verification/CalendarLinks.thy ===== *)
theory CalendarLinks
  imports JsNumbers Exports
begin

text \<open>
  The calendar links of a decision (\<open>components/decisions/add-to-calendar-button.tsx\<close>): the address that
  adds the deadline to one of the two web calendars, the name of the downloaded file, the button.

  A date of the server is its day number (JsNumbers), a time the second of its day; \<open>date_text\<close> and
  \<open>time_text\<close> are the texts the code reads, and \<open>new Date(date + "T" + time + "Z")\<close> is their
  millisecond.  The local time of the browser is a pair of functions between UTC and local
  milliseconds: \<open>setHours\<close> and \<open>setDate\<close> add in local time.
\<close>

section \<open>\<open>encodeURIComponent\<close>\<close>

definition unreserved :: "char \<Rightarrow> bool" where
  "unreserved c \<longleftrightarrow> 65 \<le> code c \<and> code c \<le> 90 \<or> 97 \<le> code c \<and> code c \<le> 122 \<or> 48 \<le> code c \<and> code c \<le> 57
     \<or> code c \<in> {45, 95, 46, 33, 126, 42, 39, 40, 41}"

definition upper_hex :: "nat \<Rightarrow> char" where
  "upper_hex n = (if n < 10 then char_of (48 + n) else char_of (55 + n))"

definition percent_byte :: "nat \<Rightarrow> string" where
  "percent_byte b = [CHR ''%'', upper_hex (b div 16), upper_hex (b mod 16)]"

definition utf8 :: "nat \<Rightarrow> nat list" where
  "utf8 n = (if n < 128 then [n] else [192 + n div 64, 128 + n mod 64])"

definition encode_char :: "char \<Rightarrow> string" where
  "encode_char c = (if unreserved c then [c] else concat (map percent_byte (utf8 (code c))))"

definition encodeURIComponent :: "string \<Rightarrow> string" where
  "encodeURIComponent s = concat (map encode_char s)"

section \<open>Dates and times\<close>

definition two_digits :: "int \<Rightarrow> string" where
  "two_digits n = (if n < 10 then ''0'' else []) @ int_text n"

definition four_digits :: "int \<Rightarrow> string" where
  "four_digits n = (if n < 10 then ''000'' else if n < 100 then ''00'' else if n < 1000 then ''0'' else []) @ int_text n"

definition date_text :: "int \<Rightarrow> string" where
  "date_text d = (let c = civil d
     in four_digits (cv_year c) @ ''-'' @ two_digits (cv_month c) @ ''-'' @ two_digits (cv_day c))"

definition time_text :: "int \<Rightarrow> string" where
  "time_text s = two_digits (s div 3600) @ '':'' @ two_digits (s div 60 mod 60) @ '':'' @ two_digits (s mod 60)"

definition three_digits :: "int \<Rightarrow> string" where
  "three_digits n = (if n < 10 then ''00'' else if n < 100 then ''0'' else []) @ int_text n"

definition toISOString :: "int \<Rightarrow> string" where
  "toISOString ms = date_text (ms div DAY) @ ''T'' @ time_text (ms mod DAY div 1000) @ ''.'' @ three_digits (ms mod 1000) @ ''Z''"

text \<open>\<open>replace(/[-:]/g, "")\<close>, and \<open>replace(/\.\d{3}/, "")\<close>, which removes the first one.\<close>

definition compact :: "string \<Rightarrow> string" where
  "compact s = filter (\<lambda>c. c \<noteq> CHR ''-'' \<and> c \<noteq> CHR '':'') s"

definition digit_char :: "char \<Rightarrow> bool" where
  "digit_char c \<longleftrightarrow> 48 \<le> code c \<and> code c \<le> 57"

fun cut_millis :: "string \<Rightarrow> string" where
  "cut_millis [] = []"
| "cut_millis (c # s) =
     (if c = CHR ''.'' \<and> 3 \<le> length s \<and> list_all digit_char (take 3 s) then drop 3 s else c # cut_millis s)"

text \<open>\<open>d.setHours(d.getHours() + 1)\<close> and \<open>d.setDate(d.getDate() + 1)\<close>.\<close>

definition hour_later :: "zone \<Rightarrow> int \<Rightarrow> int" where
  "hour_later z ms = to_utc z (to_local z ms + HOUR)"

definition day_later :: "zone \<Rightarrow> int \<Rightarrow> int" where
  "day_later z ms = to_utc z (to_local z ms + DAY)"

definition utc_of :: "int \<Rightarrow> int \<Rightarrow> int" where
  "utc_of d s = d * DAY + s * 1000"

section \<open>The links\<close>

record cal_decision =
  cd_id :: string
  cd_title :: string
  cd_prompt :: string
  cd_consequence :: "string option"
  cd_date :: "int option"
  cd_time :: "int option"

definition toGoogleDateTime :: "int \<Rightarrow> int option \<Rightarrow> string" where
  "toGoogleDateTime d t =
     (case t of
        Some s \<Rightarrow> cut_millis (compact (toISOString (utc_of d s)))
      | None \<Rightarrow> filter (\<lambda>c. c \<noteq> CHR ''-'') (date_text d))"

definition google_dates :: "zone \<Rightarrow> int \<Rightarrow> cal_decision \<Rightarrow> string" where
  "google_dates z now r =
     (case cd_date r of
        Some d \<Rightarrow>
          toGoogleDateTime d (cd_time r) @ ''/'' @
          (case cd_time r of
             Some s \<Rightarrow> cut_millis (compact (toISOString (hour_later z (utc_of d s))))
           | None \<Rightarrow> filter (\<lambda>c. c \<noteq> CHR ''-'') (take 10 (toISOString (day_later z (utc_of d 0)))))
      | None \<Rightarrow>
          filter (\<lambda>c. c \<noteq> CHR ''-'') (take 10 (toISOString now)) @ ''/''
          @ filter (\<lambda>c. c \<noteq> CHR ''-'') (take 10 (toISOString (now + 86400000))))"

definition description_text :: "string \<Rightarrow> cal_decision \<Rightarrow> string" where
  "description_text portalUrl r =
     join_with [LF]
       ([cd_prompt r] @ (case cd_consequence r of None \<Rightarrow> [] | Some c \<Rightarrow> if c = [] then [] else [''Note: '' @ c])
        @ [[], ''Review and respond: '' @ portalUrl])"

definition event_title :: "cal_decision \<Rightarrow> string" where
  "event_title r = ''Decision Deadline: '' @ cd_title r"

definition buildGoogleCalendarUrl :: "zone \<Rightarrow> int \<Rightarrow> string \<Rightarrow> cal_decision \<Rightarrow> string" where
  "buildGoogleCalendarUrl z now portalUrl r =
     ''https://calendar.google.com/calendar/render?action=TEMPLATE&text='' @ encodeURIComponent (event_title r)
     @ ''&dates='' @ google_dates z now r
     @ ''&details='' @ encodeURIComponent (description_text portalUrl r) @ ''&trp=false''"

text \<open>\<open>replace(/\.\d{3}Z$/, "")\<close> of a text of \<open>toISOString\<close>.\<close>

definition cut_zulu :: "string \<Rightarrow> string" where
  "cut_zulu s = take (length s - 5) s"

definition outlook_times :: "zone \<Rightarrow> int \<Rightarrow> cal_decision \<Rightarrow> string \<times> string" where
  "outlook_times z now r =
     (case cd_date r of
        Some d \<Rightarrow>
          (case cd_time r of
             Some s \<Rightarrow> (date_text d @ ''T'' @ time_text s, cut_zulu (toISOString (hour_later z (utc_of d s))))
           | None \<Rightarrow> (date_text d, take 10 (toISOString (day_later z (utc_of d 0)))))
      | None \<Rightarrow> (take 10 (toISOString now), take 10 (toISOString (now + 86400000))))"

definition buildOutlookUrl :: "zone \<Rightarrow> int \<Rightarrow> string \<Rightarrow> cal_decision \<Rightarrow> string" where
  "buildOutlookUrl z now portalUrl r =
     (let (startdt, enddt) = outlook_times z now r in
      ''https://outlook.live.com/calendar/0/deeplink/compose?subject='' @ encodeURIComponent (event_title r)
      @ ''&startdt='' @ encodeURIComponent startdt @ ''&enddt='' @ encodeURIComponent enddt
      @ ''&body='' @ encodeURIComponent (description_text portalUrl r))"

text \<open>The page of the decision, and the name of the file.\<close>

definition portal_url :: "string \<Rightarrow> cal_decision \<Rightarrow> string" where
  "portal_url origin r = origin @ ''/portal/decisions/'' @ cd_id r"

definition title_char :: "char \<Rightarrow> bool" where
  "title_char c \<longleftrightarrow> 97 \<le> code c \<and> code c \<le> 122 \<or> 65 \<le> code c \<and> code c \<le> 90
     \<or> 48 \<le> code c \<and> code c \<le> 57 \<or> c = CHR ''-'' \<or> c = CHR ''_''"

definition safe_title :: "string \<Rightarrow> string" where
  "safe_title t = take 50 (map (\<lambda>c. if title_char c then c else CHR ''_'') t)"

definition ical_name :: "cal_decision \<Rightarrow> string" where
  "ical_name r = ''decision-deadline-'' @ safe_title (cd_title r) @ ''.ics''"


section \<open>The download\<close>

record ical_button =
  isDownloading :: bool
  ical_requests :: "string list"
  ical_files :: "string list"

text \<open>The menu item is disabled while a download runs.\<close>

definition handleIcalDownload :: "cal_decision \<Rightarrow> ical_button \<Rightarrow> ical_button" where
  "handleIcalDownload r b =
     (if isDownloading b then b
      else b\<lparr> isDownloading := True, ical_requests := ical_requests b @ [cd_id r] \<rparr>)"

definition ical_answered :: "cal_decision \<Rightarrow> bool \<Rightarrow> ical_button \<Rightarrow> ical_button" where
  "ical_answered r ok b =
     (if \<not> isDownloading b then b
      else b\<lparr> isDownloading := False, ical_files := ical_files b @ (if ok then [ical_name r] else []) \<rparr>)"

section \<open>Reading the parameters\<close>

text \<open>The query of an address as the receiver reads it: pairs between ampersands, percent signs and plus
  signs decoded, the bytes read as UTF-8.\<close>

definition hex_value :: "char \<Rightarrow> nat option" where
  "hex_value c = (if 48 \<le> code c \<and> code c \<le> 57 then Some (code c - 48)
     else if 65 \<le> code c \<and> code c \<le> 70 then Some (code c - 55)
     else if 97 \<le> code c \<and> code c \<le> 102 then Some (code c - 87) else None)"

definition plain_byte :: "char \<Rightarrow> nat" where
  "plain_byte c = (if c = CHR ''+'' then 32 else code c)"

fun query_bytes :: "string \<Rightarrow> nat list" where
  "query_bytes (c # h # l # s) =
     (case (c = CHR ''%'', hex_value h, hex_value l) of
        (True, Some a, Some b) \<Rightarrow> (16 * a + b) # query_bytes s
      | _ \<Rightarrow> plain_byte c # query_bytes (h # l # s))"
| "query_bytes (c # s) = plain_byte c # query_bytes s"
| "query_bytes [] = []"

fun utf8_text :: "nat list \<Rightarrow> string" where
  "utf8_text [] = []"
| "utf8_text [b] = [char_of b]"
| "utf8_text (b # d # bs) =
     (if b < 128 then char_of b # utf8_text (d # bs)
      else char_of ((b - 192) * 64 + (d - 128)) # utf8_text bs)"

definition query_decode :: "string \<Rightarrow> string" where
  "query_decode s = utf8_text (query_bytes s)"

definition query_pair :: "string \<Rightarrow> string \<times> string" where
  "query_pair p = (query_decode (takeWhile (\<lambda>c. c \<noteq> CHR ''='') p), query_decode (drop 1 (dropWhile (\<lambda>c. c \<noteq> CHR ''='') p)))"

definition link_query :: "string \<Rightarrow> (string \<times> string) list" where
  "link_query u = map query_pair (split_on CHR ''&''
     (takeWhile (\<lambda>c. c \<noteq> CHR ''#'') (drop 1 (dropWhile (\<lambda>c. c \<noteq> CHR ''?'') u))))"

lemma code_bound [simp]: "code c < 256"
  by (simp add: code_def)

lemma code_char_of [simp]: "n < 256 \<Longrightarrow> code (char_of n) = n"
  by (simp add: code_def)

lemma char_of_code [simp]: "char_of (code c) = c"
  by (simp add: code_def)

lemma hex_value_upper [simp]: "n < 16 \<Longrightarrow> hex_value (upper_hex n) = Some n"
  by (simp add: hex_value_def upper_hex_def)

lemma bytes_percent [simp]: "b < 256 \<Longrightarrow> query_bytes (percent_byte b @ t) = b # query_bytes t"
  by (simp add: percent_byte_def)

lemma bytes_plain: "c \<noteq> CHR ''%'' \<Longrightarrow> query_bytes (c # t) = plain_byte c # query_bytes t"
  by (cases t rule: list.exhaust; cases "tl t" rule: list.exhaust) auto

lemma unreserved_simps:
  assumes "unreserved c"
  shows "c \<noteq> CHR ''%''" "plain_byte c = code c" "code c < 128" "c \<notin> set ''&=#?+%''"
  using assms by (auto simp: unreserved_def plain_byte_def code_def)

lemma utf8_bytes: "n < 256 \<Longrightarrow> list_all (\<lambda>b. b < 256) (utf8 n)"
  by (auto simp: utf8_def)

lemma bytes_percents: "list_all (\<lambda>b. b < 256) bs \<Longrightarrow> query_bytes (concat (map percent_byte bs) @ t) = bs @ query_bytes t"
  by (induction bs) auto

lemma bytes_encoded: "query_bytes (encode_char c @ t) = utf8 (code c) @ query_bytes t"
  using unreserved_simps [of c] utf8_bytes [of "code c"]
  by (auto simp: encode_char_def bytes_plain utf8_def bytes_percents)

lemma utf8_read: "utf8_text (utf8 (code c) @ bs) = c # utf8_text bs"
proof (cases "code c < 128")
  case True
  then show ?thesis by (cases bs) (simp_all add: utf8_def)
next
  case False
  have "code c < 256" by simp
  with False have "(192 + code c div 64 - 192) * 64 + (128 + code c mod 64 - 128) = code c" by simp
  then show ?thesis using False by (simp add: utf8_def)
qed

lemma encoded_bytes: "query_bytes (encodeURIComponent s) = concat (map (utf8 \<circ> code) s)"
  by (induction s) (auto simp: encodeURIComponent_def bytes_encoded)

lemma decode_encode [simp]: "query_decode (encodeURIComponent s) = s"
proof -
  have "utf8_text (concat (map (utf8 \<circ> code) s)) = s" by (induction s) (auto simp: utf8_read)
  then show ?thesis by (simp add: query_decode_def encoded_bytes)
qed


text \<open>Texts that no separator ends, and texts that are their own decoding.\<close>

definition no_separator :: "string \<Rightarrow> bool" where
  "no_separator s \<longleftrightarrow> list_all (\<lambda>c. c \<noteq> CHR ''&'' \<and> c \<noteq> CHR ''#'') s"

definition self_decoding :: "string \<Rightarrow> bool" where
  "self_decoding s \<longleftrightarrow> list_all (\<lambda>c. code c < 128 \<and> c \<notin> set ''%+&#='') s"

lemma self_decoding_append [simp]: "self_decoding (s @ t) \<longleftrightarrow> self_decoding s \<and> self_decoding t"
  by (simp add: self_decoding_def)

lemma self_decodes: "self_decoding s \<Longrightarrow> query_decode s = s"
proof -
  have "query_bytes s = map code s \<and> utf8_text (map code s) = s" if "self_decoding s"
    using that
  proof (induction s)
    case (Cons c s)
    then have c: "c \<noteq> CHR ''%''" "plain_byte c = code c" "code c < 128" and i: "query_bytes s = map code s" "utf8_text (map code s) = s"
      by (auto simp: self_decoding_def plain_byte_def)
    have "utf8_text (utf8 (code c) @ map code s) = c # utf8_text (map code s)" by (rule utf8_read)
    then show ?case using c i by (simp add: bytes_plain utf8_def)
  qed simp
  moreover assume "self_decoding s"
  ultimately show ?thesis by (simp add: query_decode_def)
qed

lemma self_decoding_safe: "self_decoding s \<Longrightarrow> no_separator s"
  by (auto simp: self_decoding_def no_separator_def list_all_iff)

lemma upper_hex_plain: "n < 16 \<Longrightarrow> 48 \<le> code (upper_hex n)"
  by (simp add: upper_hex_def)

lemma code_neq: "48 \<le> code c \<Longrightarrow> c \<noteq> CHR ''&'' \<and> c \<noteq> CHR ''#''"
  by (auto simp: code_def)

lemma no_separator_append [simp]: "no_separator (s @ t) \<longleftrightarrow> no_separator s \<and> no_separator t"
  by (simp add: no_separator_def)

lemma no_separator_concat: "list_all no_separator ss \<Longrightarrow> no_separator (concat ss)"
  by (induction ss) (simp_all, simp add: no_separator_def)

lemma percent_safe: "b < 256 \<Longrightarrow> no_separator (percent_byte b)"
  using code_neq [OF upper_hex_plain [of "b div 16"]] code_neq [OF upper_hex_plain [of "b mod 16"]]
  by (simp add: no_separator_def percent_byte_def)

lemma encode_char_safe: "no_separator (encode_char c)"
proof (cases "unreserved c")
  case True
  then show ?thesis using unreserved_simps(4) [OF True] by (simp add: encode_char_def no_separator_def)
next
  case False
  have "list_all no_separator (map percent_byte (utf8 (code c)))"
    using utf8_bytes [OF code_bound, of c] by (simp add: list.pred_map list_all_iff percent_safe del: code_bound)
  then show ?thesis using False by (simp add: encode_char_def no_separator_concat)
qed

lemma encode_safe: "no_separator (encodeURIComponent s)"
  unfolding encodeURIComponent_def by (rule no_separator_concat) (simp add: list_all_iff encode_char_safe)

definition link_of :: "string \<Rightarrow> (string \<times> string) list \<Rightarrow> string" where
  "link_of base ps = base @ CHR ''?'' # join_with ''&'' (map (\<lambda>(k, v). k @ CHR ''='' # v) ps)"

lemma split_pairs:
  assumes "list_all no_separator ws" "ws \<noteq> []"
  shows "split_on CHR ''&'' (join_with ''&'' ws) = ws"
  using assms
proof (induction ws)
  case (Cons w ws)
  then have "list_all (\<lambda>x. x \<noteq> CHR ''&'') w" by (auto simp: no_separator_def list_all_iff)
  then show ?case using Cons split_on_plain [of "CHR ''&''" w] by (cases ws) auto
qed simp

lemma no_separator_join: "list_all no_separator ws \<Longrightarrow> list_all (\<lambda>c. c \<noteq> CHR ''#'') (join_with ''&'' ws)"
proof (induction ws)
  case (Cons w ws)
  then have "list_all (\<lambda>c. c \<noteq> CHR ''#'') w" "list_all (\<lambda>c. c \<noteq> CHR ''#'') (join_with ''&'' ws)"
    by (simp_all add: no_separator_def list_all_iff)
  then show ?case by (simp add: join_with_Cons)
qed simp

lemma pair_safe: "self_decoding k \<Longrightarrow> no_separator v \<Longrightarrow> no_separator (k @ CHR ''='' # v)"
  using self_decoding_safe [of k] by (simp add: no_separator_def)

lemma link_query_of:
  assumes "CHR ''?'' \<notin> set base" "ps \<noteq> []" "list_all (\<lambda>(k, v). self_decoding k \<and> no_separator v) ps"
  shows "link_query (link_of base ps) = map (\<lambda>(k, v). (k, query_decode v)) ps"
proof -
  let ?ws = "map (\<lambda>(k, v). k @ CHR ''='' # v) ps"
  have w: "list_all no_separator ?ws"
    using assms(3) by (auto simp: list_all_iff simp del: no_separator_append intro: pair_safe)
  have "dropWhile (\<lambda>c. c \<noteq> CHR ''?'') (link_of base ps) = CHR ''?'' # join_with ''&'' ?ws"
    unfolding link_of_def using assms(1) by (subst dropWhile_append2) auto
  moreover have "takeWhile (\<lambda>c. c \<noteq> CHR ''#'') (join_with ''&'' ?ws) = join_with ''&'' ?ws"
    using no_separator_join [OF w] by (simp add: list_all_iff)
  moreover have "split_on CHR ''&'' (join_with ''&'' ?ws) = ?ws" using split_pairs [OF w] assms(2) by simp
  ultimately have "link_query (link_of base ps) = map query_pair ?ws"
    by (simp only: link_query_def drop_Suc_Cons One_nat_def drop_0)
  moreover have "query_pair (k @ CHR ''='' # v) = (k, query_decode v)" if "self_decoding k" for k v
  proof -
    have n: "\<forall>c \<in> set k. c \<noteq> CHR ''=''" using that by (auto simp: self_decoding_def list_all_iff)
    have "takeWhile (\<lambda>c. c \<noteq> CHR ''='') (k @ CHR ''='' # v) = k" using n by (subst takeWhile_append2) auto
    moreover have "dropWhile (\<lambda>c. c \<noteq> CHR ''='') (k @ CHR ''='' # v) = CHR ''='' # v" using n by (subst dropWhile_append2) auto
    ultimately show ?thesis using self_decodes [OF that] by (simp add: query_pair_def)
  qed
  ultimately show ?thesis using assms(3) by (auto simp: list_all_iff)
qed


text \<open>The texts of dates.\<close>

lemma nat_text_plain: "list_all digit_char (nat_text n)"
proof (induction n rule: nat_text.induct)
  case (1 n)
  have d: "digit_char (char_of (48 + m))" if "m < 10" for m :: nat using that by (simp add: digit_char_def)
  show ?case
  proof (cases "n < 10")
    case True
    then show ?thesis using d by (subst nat_text.simps) simp
  next
    case False
    then show ?thesis using 1 d [of "n mod 10"] by (subst nat_text.simps) simp
  qed
qed

definition date_chars :: "string \<Rightarrow> bool" where
  "date_chars s \<longleftrightarrow> list_all (\<lambda>c. digit_char c \<or> c \<in> set ''-:.TZ/'') s"

lemma date_chars_append [simp]: "date_chars (s @ t) \<longleftrightarrow> date_chars s \<and> date_chars t"
  by (simp add: date_chars_def)

lemma date_chars_Nil [simp]: "date_chars []"
  by (simp add: date_chars_def)

lemma date_chars_sign [simp]:
  "c \<in> set ''-:.TZ/0'' \<Longrightarrow> date_chars (c # s) \<longleftrightarrow> date_chars s"
proof -
  assume "c \<in> set ''-:.TZ/0''"
  moreover have "digit_char CHR ''0''" by code_simp
  ultimately have "digit_char c \<or> c \<in> set ''-:.TZ/''" by auto
  then show ?thesis unfolding date_chars_def list.pred_inject by blast
qed

lemma date_chars_int [simp]: "date_chars (int_text n)"
proof -
  have "date_chars (nat_text m)" for m
    using nat_text_plain [of m] by (auto simp: date_chars_def list_all_iff)
  then show ?thesis by (simp add: int_text_def)
qed

lemma date_chars_iso: "date_chars (date_text d)" "date_chars (toISOString ms)"
  by (simp_all add: date_text_def Let_def four_digits_def two_digits_def toISOString_def time_text_def three_digits_def)

lemma date_chars_filter: "date_chars s \<Longrightarrow> date_chars (filter p s)" "date_chars s \<Longrightarrow> date_chars (take n s)"
  by (auto simp: date_chars_def list_all_iff dest: in_set_takeD)

lemma date_chars_cut: "date_chars s \<Longrightarrow> date_chars (cut_millis s)"
proof (induction s rule: cut_millis.induct)
  case (2 c s)
  then show ?case by (auto simp: date_chars_def list_all_iff dest: in_set_dropD)
qed simp

lemma date_char_self: "digit_char c \<or> c \<in> set ''-:.TZ/'' \<Longrightarrow> code c < 128 \<and> c \<notin> set ''%+&#=''"
proof -
  have n: "list_all (\<lambda>c. \<not> digit_char c) ''%+&#=''" "list_all (\<lambda>c. code c < 128 \<and> c \<notin> set ''%+&#='') ''-:.TZ/''"
    by code_simp+
  assume "digit_char c \<or> c \<in> set ''-:.TZ/''"
  then show ?thesis
  proof
    assume d: "digit_char c"
    then have "code c < 128" by (simp add: digit_char_def)
    moreover have "c \<notin> set ''%+&#=''" using d n(1) unfolding list_all_iff by blast
    ultimately show ?thesis by blast
  next
    assume "c \<in> set ''-:.TZ/''"
    then show ?thesis using n(2) unfolding list_all_iff by blast
  qed
qed

lemma date_chars_self: "date_chars s \<Longrightarrow> self_decoding s"
  using date_char_self unfolding date_chars_def self_decoding_def list_all_iff by blast

lemma google_dates_plain: "self_decoding (google_dates z now r)"
proof (rule date_chars_self)
  show "date_chars (google_dates z now r)"
    by (simp add: google_dates_def toGoogleDateTime_def compact_def date_chars_iso date_chars_filter date_chars_cut
        split: option.split)
qed

text \<open>Whatever the title, the question and the consequence are: no character of a text ends its parameter
  or adds another.\<close>

lemma queries_read:
  "link_query (buildGoogleCalendarUrl z now portalUrl r)
     = [(''action'', ''TEMPLATE''), (''text'', event_title r), (''dates'', google_dates z now r),
        (''details'', description_text portalUrl r), (''trp'', ''false'')]"
  "link_query (buildOutlookUrl z now portalUrl r)
     = [(''subject'', event_title r), (''startdt'', fst (outlook_times z now r)), (''enddt'', snd (outlook_times z now r)),
        (''body'', description_text portalUrl r)]"
proof -
  let ?e = encodeURIComponent
  have s: "self_decoding ''TEMPLATE''" "self_decoding ''false''" "self_decoding ''action''" "self_decoding ''text''"
    "self_decoding ''dates''" "self_decoding ''details''" "self_decoding ''trp''" "self_decoding ''subject''"
    "self_decoding ''startdt''" "self_decoding ''enddt''" "self_decoding ''body''"
    by (simp_all add: self_decoding_def code_def)
  note safe = encode_safe self_decoding_safe [OF s(1)] self_decoding_safe [OF s(2)]
    self_decoding_safe [OF google_dates_plain]
  let ?g = "[(''action'', ''TEMPLATE''), (''text'', ?e (event_title r)), (''dates'', google_dates z now r),
        (''details'', ?e (description_text portalUrl r)), (''trp'', ''false'')]"
  have "buildGoogleCalendarUrl z now portalUrl r = link_of ''https://calendar.google.com/calendar/render'' ?g"
    by (simp add: buildGoogleCalendarUrl_def link_of_def)
  moreover have "link_query (link_of ''https://calendar.google.com/calendar/render'' ?g) = map (\<lambda>(k, v). (k, query_decode v)) ?g"
    by (rule link_query_of) (use s safe in simp_all)
  ultimately show "link_query (buildGoogleCalendarUrl z now portalUrl r)
     = [(''action'', ''TEMPLATE''), (''text'', event_title r), (''dates'', google_dates z now r),
        (''details'', description_text portalUrl r), (''trp'', ''false'')]"
    using s(1,2) google_dates_plain by (simp add: self_decodes)
  let ?o = "[(''subject'', ?e (event_title r)), (''startdt'', ?e (fst (outlook_times z now r))),
      (''enddt'', ?e (snd (outlook_times z now r))), (''body'', ?e (description_text portalUrl r))]"
  have "buildOutlookUrl z now portalUrl r = link_of ''https://outlook.live.com/calendar/0/deeplink/compose'' ?o"
    by (simp add: buildOutlookUrl_def link_of_def case_prod_beta)
  moreover have "link_query (link_of ''https://outlook.live.com/calendar/0/deeplink/compose'' ?o) = map (\<lambda>(k, v). (k, query_decode v)) ?o"
    by (rule link_query_of) (use s safe in simp_all)
  ultimately show "link_query (buildOutlookUrl z now portalUrl r)
     = [(''subject'', event_title r), (''startdt'', fst (outlook_times z now r)), (''enddt'', snd (outlook_times z now r)),
        (''body'', description_text portalUrl r)]"
    by simp
qed

section \<open>When the event is\<close>

text \<open>The event the deadline stands for: a day with the second of the day, in UTC, or a day alone.  With a
  time it takes an hour, without one a day, without a date it is today.\<close>

type_synonym stamp = "int \<times> int option"

definition event_span :: "int \<Rightarrow> cal_decision \<Rightarrow> stamp \<times> stamp" where
  "event_span now r =
     (case (cd_date r, cd_time r) of
        (Some d, Some s) \<Rightarrow> ((d, Some s), (d + (s + 3600) div 86400, Some ((s + 3600) mod 86400)))
      | (Some d, None) \<Rightarrow> ((d, None), (d + 1, None))
      | (None, t) \<Rightarrow> ((now div DAY, None), (now div DAY + 1, None)))"

text \<open>The two notations: the bare figures with a mark of UTC, and the date and time of the server.\<close>

fun google_stamp :: "stamp \<Rightarrow> string" where
  "google_stamp (d, None) = filter (\<lambda>c. c \<noteq> CHR ''-'') (date_text d)"
| "google_stamp (d, Some s) =
     filter (\<lambda>c. c \<noteq> CHR ''-'') (date_text d) @ ''T'' @ filter (\<lambda>c. c \<noteq> CHR '':'') (time_text s) @ ''Z''"

fun outlook_stamp :: "stamp \<Rightarrow> string" where
  "outlook_stamp (d, None) = date_text d"
| "outlook_stamp (d, Some s) = date_text d @ ''T'' @ time_text s"

text \<open>A time is a second of the day, and a year has four digits.\<close>

definition dated :: "int \<Rightarrow> cal_decision \<Rightarrow> bool" where
  "dated now r \<longleftrightarrow>
     (case cd_time r of None \<Rightarrow> True | Some s \<Rightarrow> 0 \<le> s \<and> s < 86400) \<and>
     length (date_text (fst (fst (event_span now r)))) = 10 \<and> length (date_text (fst (snd (event_span now r)))) = 10"

text \<open>The clock does not change between the deadline and the end of the event.\<close>

definition clock_kept :: "zone \<Rightarrow> cal_decision \<Rightarrow> bool" where
  "clock_kept z r =
     (case (cd_date r, cd_time r) of
        (Some d, Some s) \<Rightarrow> hour_later z (utc_of d s) = utc_of d s + HOUR
      | (Some d, None) \<Rightarrow> day_later z (utc_of d 0) = utc_of (d + 1) 0
      | (None, t) \<Rightarrow> True)"

lemma digit_char_not: "digit_char c \<Longrightarrow> c \<noteq> CHR ''-'' \<and> c \<noteq> CHR '':'' \<and> c \<noteq> CHR ''.''"
proof -
  have "list_all (\<lambda>c. \<not> digit_char c) ''-:.''" by code_simp
  then show "digit_char c \<Longrightarrow> ?thesis" by (auto simp: list_all_iff)
qed

lemma int_text_chars: "c \<in> set (int_text n) \<Longrightarrow> c = CHR ''-'' \<or> digit_char c"
  using nat_text_plain by (auto simp: int_text_def list_all_iff split: if_splits)

lemma int_text_digits: "0 \<le> n \<Longrightarrow> c \<in> set (int_text n) \<Longrightarrow> digit_char c"
  using nat_text_plain by (auto simp: int_text_def list_all_iff)

lemma zero_digit: "digit_char CHR ''0''"
  by code_simp

lemma date_text_chars: "c \<in> set (date_text d) \<Longrightarrow> c = CHR ''-'' \<or> digit_char c"
  using zero_digit
  by (auto simp: date_text_def Let_def four_digits_def two_digits_def split: if_splits dest: int_text_chars)

lemma compact_date: "compact (date_text d) = filter (\<lambda>c. c \<noteq> CHR ''-'') (date_text d)"
  unfolding compact_def by (rule filter_cong) (auto dest!: date_text_chars digit_char_not)

lemma time_text_chars: "0 \<le> s \<Longrightarrow> c \<in> set (time_text s) \<Longrightarrow> c = CHR '':'' \<or> digit_char c"
  using zero_digit
  by (auto simp: time_text_def two_digits_def split: if_splits dest!: int_text_digits [rotated])

lemma compact_time: "0 \<le> s \<Longrightarrow> compact (time_text s) = filter (\<lambda>c. c \<noteq> CHR '':'') (time_text s)"
  unfolding compact_def by (rule filter_cong) (auto dest!: time_text_chars digit_char_not)

lemma cut_millis_text: "CHR ''.'' \<notin> set s \<Longrightarrow> cut_millis (s @ ''.000Z'') = s @ ''Z''"
  by (induction s) (auto simp: zero_digit)

lemma code_zero: "char_of (48 :: nat) = CHR ''0''"
  by code_simp

lemma iso_utc:
  assumes "0 \<le> s" "s < 86400"
  shows "toISOString (utc_of d s) = date_text d @ ''T'' @ time_text s @ ''.000Z''"
proof -
  have "(d * DAY + s * 1000) div DAY = d" "(d * DAY + s * 1000) mod DAY = s * 1000" using assms
    by (simp_all add: DAY_def div_mult_self3 mod_mult_self3)
  moreover have "(d * DAY + s * 1000) mod 1000 = 0" by (simp add: DAY_def)
  moreover have "three_digits 0 = ''000''" by (simp add: three_digits_def int_text_def nat_text.simps code_zero)
  ultimately show ?thesis by (simp add: toISOString_def utc_of_def)
qed

lemma google_iso:
  assumes "0 \<le> s" "s < 86400"
  shows "cut_millis (compact (toISOString (utc_of d s))) = google_stamp (d, Some s)"
proof -
  let ?t = "compact (date_text d) @ ''T'' @ compact (time_text s)"
  have "compact (toISOString (utc_of d s)) = ?t @ ''.000Z''"
    by (simp add: iso_utc [OF assms] compact_def)
  moreover have "CHR ''.'' \<notin> set ?t"
    by (auto simp: compact_def dest!: date_text_chars time_text_chars [OF assms(1)] digit_char_not)
  ultimately show ?thesis using cut_millis_text [of ?t] by (simp add: compact_date compact_time assms)
qed

lemma day_iso: "length (date_text (ms div DAY)) = 10 \<Longrightarrow> take 10 (toISOString ms) = date_text (ms div DAY)"
  by (simp add: toISOString_def)

lemma hour_ends: "utc_of d s + HOUR = utc_of (d + (s + 3600) div 86400) ((s + 3600) mod 86400)"
proof -
  define u where "u = s + 3600"
  have "u = u div 86400 * 86400 + u mod 86400" by simp
  then have "(u div 86400) * 86400000 + (u mod 86400) * 1000 = s * 1000 + 3600000" unfolding u_def by linarith
  then show ?thesis unfolding utc_of_def DAY_def HOUR_def u_def [symmetric] by (simp add: algebra_simps)
qed

lemma times_told:
  assumes "dated now r" "clock_kept z r"
  shows "google_dates z now r = google_stamp (fst (event_span now r)) @ ''/'' @ google_stamp (snd (event_span now r))"
    "outlook_times z now r = map_prod outlook_stamp outlook_stamp (event_span now r)"
proof -
  have day: "utc_of d 0 div DAY = d" "(now + 86400000) div DAY = now div DAY + 1" for d
    by (simp_all add: utc_of_def DAY_def)
  have rest: "0 \<le> (s + 3600) mod 86400" "(s + 3600) mod 86400 < 86400" for s :: int by simp_all
  have zulu: "cut_zulu (toISOString (utc_of d s)) = date_text d @ ''T'' @ time_text s" if "0 \<le> s" "s < 86400" for d s
    by (simp add: iso_utc [OF that] cut_zulu_def)
  note told = google_dates_def outlook_times_def event_span_def toGoogleDateTime_def day_iso day
    google_iso [OF rest] zulu [OF rest] hour_ends
  show "google_dates z now r = google_stamp (fst (event_span now r)) @ ''/'' @ google_stamp (snd (event_span now r))"
    using assms by (cases "cd_date r"; cases "cd_time r") (simp_all add: dated_def clock_kept_def told google_iso)
  show "outlook_times z now r = map_prod outlook_stamp outlook_stamp (event_span now r)"
    using assms by (cases "cd_date r"; cases "cd_time r") (simp_all add: dated_def clock_kept_def told zulu)
qed

text \<open>C31.  Read as a query, both links give the event of the decision, whatever bytes its texts hold
  (characters are codes below 256): its title and description, the start and the end.  The end is an hour
  after a deadline with a time and a day after one without, when the clock of the browser does not
  change in between; one calendar gets the moments in UTC, the other the same figures without a
  zone.\<close>

theorem calendars_read_the_event:
  assumes "dated now r" "clock_kept z r"
  shows "link_query (buildGoogleCalendarUrl z now portalUrl r)
     = [(''action'', ''TEMPLATE''), (''text'', event_title r),
        (''dates'', google_stamp (fst (event_span now r)) @ ''/'' @ google_stamp (snd (event_span now r))),
        (''details'', description_text portalUrl r), (''trp'', ''false'')]
   \<and> link_query (buildOutlookUrl z now portalUrl r)
     = [(''subject'', event_title r), (''startdt'', outlook_stamp (fst (event_span now r))),
        (''enddt'', outlook_stamp (snd (event_span now r))), (''body'', description_text portalUrl r)]"
  by (simp add: queries_read times_told [OF assms])


section \<open>How long the event is\<close>

text \<open>Where the clocks never change the event is an hour, or the whole day.\<close>

lemma steady_clock:
  "hour_later (fixed_zone k) ms = ms + HOUR"
  "day_later (fixed_zone k) (utc_of d 0) = utc_of (d + 1) 0"
  by (simp_all add: hour_later_def day_later_def fixed_zone_def utc_of_def algebra_simps)

definition deadline_on :: "int \<Rightarrow> int option \<Rightarrow> cal_decision" where
  "deadline_on d t = \<lparr> cd_id = ''d1'', cd_title = ''Sign & return'', cd_prompt = ''Which option?'',
     cd_consequence = Some ''The offer lapses'', cd_date = Some d, cd_time = t \<rparr>"

text \<open>The texts of that year.\<close>

lemma nat_text_one: "n < 10 \<Longrightarrow> nat_text n = [char_of (48 + n)]"
  by (simp add: nat_text.simps)

lemma nat_text_more: "10 \<le> n \<Longrightarrow> nat_text n = nat_text (n div 10) @ [char_of (48 + n mod 10)]"
  by (subst nat_text.simps) simp

lemma digit_texts:
  "char_of (48 :: nat) = CHR ''0''" "char_of (49 :: nat) = CHR ''1''" "char_of (50 :: nat) = CHR ''2''"
  "char_of (51 :: nat) = CHR ''3''" "char_of (53 :: nat) = CHR ''5''" "char_of (54 :: nat) = CHR ''6''"
  "char_of (55 :: nat) = CHR ''7''" "char_of (57 :: nat) = CHR ''9''"
  by code_simp+

lemma civil_2026:
  "civil 20541 = \<lparr> cv_year = 2026, cv_month = 3, cv_day = 29 \<rparr>"
  "civil 20542 = \<lparr> cv_year = 2026, cv_month = 3, cv_day = 30 \<rparr>"
  "civil 20543 = \<lparr> cv_year = 2026, cv_month = 3, cv_day = 31 \<rparr>"
  "civil 20600 = \<lparr> cv_year = 2026, cv_month = 5, cv_day = 27 \<rparr>"
  by code_simp+

lemma numbers_2026:
  "nat_text 2026 = ''2026''" "nat_text 29 = ''29''" "nat_text 30 = ''30''" "nat_text 31 = ''31''" "nat_text 27 = ''27''"
  "nat_text 3 = ''3''" "nat_text 5 = ''5''" "nat_text 0 = ''0''" "nat_text 12 = ''12''"
  by (simp_all add: nat_text_one nat_text_more digit_texts)

lemma dates_2026:
  "date_text 20541 = ''2026-03-29''" "date_text 20542 = ''2026-03-30''" "date_text 20543 = ''2026-03-31''"
  "date_text 20600 = ''2026-05-27''"
  by (simp_all add: date_text_def civil_2026 numbers_2026 four_digits_def two_digits_def int_text_def)

lemmas written_out = numbers_2026 time_text_def two_digits_def three_digits_def int_text_def

lemma berlin_days:
  "day_later berlin (utc_of 20541 0) = 20541 * DAY + 23 * HOUR"
  "day_later berlin (utc_of 20542 0) = 20543 * DAY"
  by (simp_all add: day_later_def berlin_def utc_of_def forward_2026_def back_2026_def DAY_def HOUR_def)

text \<open>The next day, in Berlin.\<close>

lemma calendars_read_witness:
  "link_query (buildGoogleCalendarUrl berlin 0 ''u'' (deadline_on 20542 None)) ! 2 = (''dates'', ''20260330/20260331'')"
proof -
  have "dated 0 (deadline_on 20542 None)" by (simp add: dated_def event_span_def deadline_on_def dates_2026)
  moreover have "clock_kept berlin (deadline_on 20542 None)"
    by (simp add: clock_kept_def deadline_on_def berlin_days) (simp add: utc_of_def)
  ultimately show ?thesis using calendars_read_the_event [of 0 "deadline_on 20542 None" berlin "''u''"]
    by (simp add: event_span_def deadline_on_def dates_2026)
qed

text \<open>On the day the clocks go forward a day later is still the same day in UTC: the event has no length,
  in both calendars.\<close>

lemma no_length_on_spring_day:
  "google_dates berlin 0 (deadline_on 20541 None) = ''20260329/20260329''"
  "outlook_times berlin 0 (deadline_on 20541 None) = (''2026-03-29'', ''2026-03-29'')"
  "google_dates berlin 0 (deadline_on 20542 None) = ''20260330/20260331''"
proof -
  have d: "(20541 * DAY + 23 * HOUR) div DAY = 20541" "20543 * DAY div DAY = 20543" by (simp_all add: DAY_def HOUR_def)
  show "google_dates berlin 0 (deadline_on 20541 None) = ''20260329/20260329''"
    "outlook_times berlin 0 (deadline_on 20541 None) = (''2026-03-29'', ''2026-03-29'')"
    "google_dates berlin 0 (deadline_on 20542 None) = ''20260330/20260331''"
    by (simp_all add: google_dates_def outlook_times_def deadline_on_def toGoogleDateTime_def berlin_days
        toISOString_def d dates_2026)
qed

text \<open>When they go back an hour lasts two: half past midnight UTC to half past two.\<close>

lemma two_hours_in_autumn: "hour_later berlin (utc_of 20751 1800) = utc_of 20751 (2 * 3600 + 1800)"
  by (simp add: hour_later_def berlin_def utc_of_def forward_2026_def back_2026_def DAY_def HOUR_def)

text \<open>Of a deadline with a time one calendar is told the moment in UTC, the other the same figures without
  a zone, which it reads as local time.\<close>

lemma iso_noon: "toISOString (utc_of 20600 43200) = ''2026-05-27T12:00:00.000Z''"
proof -
  have "utc_of 20600 43200 div DAY = 20600" "utc_of 20600 43200 mod DAY div 1000 = 43200" "utc_of 20600 43200 mod 1000 = 0"
    by (simp_all add: utc_of_def DAY_def)
  moreover have "time_text 43200 = ''12:00:00''" by (simp add: written_out)
  moreover have "three_digits 0 = ''000''" by (simp add: written_out)
  ultimately show ?thesis by (simp add: toISOString_def dates_2026)
qed

lemma calendars_disagree:
  "toGoogleDateTime 20600 (Some 43200) = ''20260527T120000Z''"
  "fst (outlook_times z 0 (deadline_on 20600 (Some 43200))) = ''2026-05-27T12:00:00''"
proof -
  have "digit_char CHR ''0''" by (simp add: digit_char_def code_def)
  then show "toGoogleDateTime 20600 (Some 43200) = ''20260527T120000Z''"
    by (simp add: toGoogleDateTime_def iso_noon compact_def)
  have "time_text 43200 = ''12:00:00''" by (simp add: written_out)
  then show "fst (outlook_times z 0 (deadline_on 20600 (Some 43200))) = ''2026-05-27T12:00:00''"
    by (simp add: outlook_times_def deadline_on_def dates_2026)
qed

section \<open>Text and file\<close>

lemma consequence_after_prompt:
  "description_text u (deadline_on d t) = ''Which option?'' @ [LF] @ ''Note: The offer lapses'' @ [LF, LF] @ ''Review and respond: '' @ u"
  by (simp add: description_text_def deadline_on_def)

text \<open>The name of the file is bounded, and of the title it holds letters, digits, hyphens and underscores.\<close>

lemma file_name_plain: "length (safe_title t) \<le> 50" "list_all title_char (safe_title t)"
proof -
  have u: "title_char CHR ''_''" by (simp add: title_char_def)
  show "length (safe_title t) \<le> 50" by (simp add: safe_title_def)
  show "list_all title_char (safe_title t)"
    unfolding safe_title_def list_all_iff by (auto simp: u dest!: in_set_takeD)
qed

lemma one_download_at_a_time:
  "handleIcalDownload r (handleIcalDownload r b) = handleIcalDownload r b"
  by (simp add: handleIcalDownload_def)

end
