(* ===== verification/ReportSchedules.thy ===== *)
theory ReportSchedules
  imports Machines
begin

text \<open>
  The report schedules: the dialog that creates and edits one
  (\<open>components/reports/schedule-report-dialog.tsx\<close>), the list and the page with its mutations
  (\<open>components/reports/scheduled-reports-list.tsx\<close>, \<open>app/(dashboard)/reports/schedules/page.tsx\<close>) and the
  tables of \<open>lib/api/report-schedules.ts\<close>.

  A mutation of the query library is a numbered request that is answered once; \<open>isPending\<close> and the
  variables belong to the one started last.
\<close>

section \<open>The tables\<close>

datatype report_type = Portfolio | ProgramStatus | CompletionReport | AnnualReview | PartnerPerformance

datatype report_frequency = EveryDay | EveryWeek | EveryMonth | EveryQuarter

datatype report_format = Pdf | Csv

definition ENTITY_REQUIRED_TYPES :: "report_type list" where
  "ENTITY_REQUIRED_TYPES = [ProgramStatus, CompletionReport]"

fun ENTITY_PLACEHOLDER :: "report_type \<Rightarrow> string" where
  "ENTITY_PLACEHOLDER Portfolio = []"
| "ENTITY_PLACEHOLDER ProgramStatus = ''Program ID''"
| "ENTITY_PLACEHOLDER CompletionReport = ''Program ID''"
| "ENTITY_PLACEHOLDER AnnualReview = ''Client ID (optional)''"
| "ENTITY_PLACEHOLDER PartnerPerformance = ''Partner ID (optional)''"

definition ALL_REPORT_TYPES :: "report_type list" where
  "ALL_REPORT_TYPES = [Portfolio, ProgramStatus, CompletionReport, AnnualReview, PartnerPerformance]"

definition PARTNER_PERF_ROLES :: "string list" where
  "PARTNER_PERF_ROLES = [''coordinator'', ''relationship_manager'', ''managing_director'', ''finance_compliance'']"

definition availableReportTypes :: "string option \<Rightarrow> report_type list" where
  "availableReportTypes role =
     filter (\<lambda>t. t \<noteq> PartnerPerformance \<or> (case role of None \<Rightarrow> False | Some r \<Rightarrow> r \<in> set PARTNER_PERF_ROLES))
       ALL_REPORT_TYPES"

section \<open>An address\<close>

text \<open>\<open>/^[^\s@]+@[^\s@]+\.[^\s@]+$/\<close>\<close>

definition inner_dot :: "string \<Rightarrow> bool" where
  "inner_dot d \<longleftrightarrow> CHR ''.'' \<in> set (butlast (tl d))"

definition valid_email :: "string \<Rightarrow> bool" where
  "valid_email s \<longleftrightarrow> list_all (\<lambda>c. \<not> is_space c) s \<and>
     (case split_on CHR ''@'' s of [l, d] \<Rightarrow> l \<noteq> [] \<and> inner_dot d | _ \<Rightarrow> False)"

section \<open>The dialog\<close>

record report_schedule =
  rs_id :: string
  rs_type :: report_type
  rs_entity :: "string option"
  rs_frequency :: report_frequency
  rs_recipients :: "string list"
  rs_format :: report_format
  rs_active :: bool
  rs_last_run :: "string option"

record schedule_form =
  reportType :: report_type
  frequency :: report_frequency
  report_format :: report_format
  entityId :: string
  recipients :: "string list"
  recipientInput :: string

definition schedule_form_of :: "report_schedule option \<Rightarrow> schedule_form" where
  "schedule_form_of schedule =
     (case schedule of
        None \<Rightarrow> \<lparr> reportType = Portfolio, frequency = EveryWeek, report_format = Pdf, entityId = [],
          recipients = [], recipientInput = [] \<rparr>
      | Some r \<Rightarrow> \<lparr> reportType = rs_type r, frequency = rs_frequency r, report_format = rs_format r,
          entityId = (case rs_entity r of None \<Rightarrow> [] | Some e \<Rightarrow> e), recipients = rs_recipients r, recipientInput = [] \<rparr>)"

definition handleAddSelf :: "string option \<Rightarrow> schedule_form \<Rightarrow> schedule_form" where
  "handleAddSelf email f =
     (case email of None \<Rightarrow> f
      | Some e \<Rightarrow> if e \<noteq> [] \<and> e \<notin> set (recipients f) then f\<lparr> recipients := recipients f @ [e] \<rparr> else f)"

definition handleAddRecipient :: "schedule_form \<Rightarrow> schedule_form" where
  "handleAddRecipient f =
     (let email = lower (trim (recipientInput f)) in
      if email = [] then f
      else if \<not> valid_email email then f
      else if email \<in> set (recipients f) then f
      else f\<lparr> recipients := recipients f @ [email], recipientInput := [] \<rparr>)"

definition handleRemoveRecipient :: "string \<Rightarrow> schedule_form \<Rightarrow> schedule_form" where
  "handleRemoveRecipient email f = f\<lparr> recipients := filter (\<lambda>r. r \<noteq> email) (recipients f) \<rparr>"

datatype schedule_request =
    CreateSchedule report_type "string option" report_frequency "string list" report_format
  | UpdateSchedule string report_frequency "string list" report_format
  | ToggleSchedule string bool
  | DeleteSchedule string
  | ExecuteSchedule string

text \<open>What the submission of the form asks for: nothing while a recipient or a required entity is missing.\<close>

definition schedule_submission :: "report_schedule option \<Rightarrow> schedule_form \<Rightarrow> schedule_request option" where
  "schedule_submission schedule f =
     (if length (recipients f) = 0 then None
      else if reportType f \<in> set ENTITY_REQUIRED_TYPES \<and> trim (entityId f) = [] then None
      else Some (case schedule of
          Some r \<Rightarrow> UpdateSchedule (rs_id r) (frequency f) (recipients f) (report_format f)
        | None \<Rightarrow> CreateSchedule (reportType f) (if trim (entityId f) = [] then None else Some (trim (entityId f)))
            (frequency f) (recipients f) (report_format f)))"

section \<open>The page\<close>

record schedules_page =
  dialogOpen :: bool
  editingSchedule :: "report_schedule option"
  sform :: schedule_form
  pendingDelete :: "report_schedule option"
  in_flight :: "nat list"
  saving :: "nat list"
  create_last :: "nat option"
  update_last :: "nat option"
  delete_last :: "nat option"
  execute_last :: "nat option"
  sent_requests :: "schedule_request list"

definition schedules_start :: schedules_page where
  "schedules_start = \<lparr> dialogOpen = False, editingSchedule = None, sform = schedule_form_of None, pendingDelete = None,
     in_flight = [], saving = [], create_last = None, update_last = None, delete_last = None,
     execute_last = None, sent_requests = [] \<rparr>"

text \<open>The effect of the dialog: the form starts over when it opens or is given another schedule.\<close>

definition schedule_dialog :: "bool \<Rightarrow> report_schedule option \<Rightarrow> schedules_page \<Rightarrow> schedules_page" where
  "schedule_dialog opn sched s =
     (let s' = s\<lparr> dialogOpen := opn, editingSchedule := sched \<rparr> in
      if opn \<and> (\<not> dialogOpen s \<or> editingSchedule s \<noteq> sched) then s'\<lparr> sform := schedule_form_of sched \<rparr> else s')"

definition openCreate :: "schedules_page \<Rightarrow> schedules_page" where
  "openCreate s = schedule_dialog True None s"

definition openEdit :: "report_schedule \<Rightarrow> schedules_page \<Rightarrow> schedules_page" where
  "openEdit r s = schedule_dialog True (Some r) s"

definition handleClose :: "schedules_page \<Rightarrow> schedules_page" where
  "handleClose s = schedule_dialog False None s"

definition request :: "schedule_request \<Rightarrow> schedules_page \<Rightarrow> schedules_page" where
  "request q s = s\<lparr> in_flight := in_flight s @ [length (sent_requests s)], sent_requests := sent_requests s @ [q] \<rparr>"

definition is_pending :: "nat option \<Rightarrow> schedules_page \<Rightarrow> bool" where
  "is_pending m s = (case m of None \<Rightarrow> False | Some i \<Rightarrow> i \<in> set (in_flight s))"

definition handleSubmit :: "schedules_page \<Rightarrow> schedules_page" where
  "handleSubmit s =
     (if \<not> dialogOpen s \<or> is_pending (create_last s) s \<or> is_pending (update_last s) s then s
      else (case schedule_submission (editingSchedule s) (sform s) of
          None \<Rightarrow> s
        | Some q \<Rightarrow>
            (let i = length (sent_requests s);
                 s' = (request q s)\<lparr> saving := saving s @ [i] \<rparr>
             in if editingSchedule s = None then s'\<lparr> create_last := Some i \<rparr> else s'\<lparr> update_last := Some i \<rparr>)))"

text \<open>\<open>await\<close> in the submission of the page: the dialog closes when the request succeeds.\<close>

definition request_answered :: "nat \<Rightarrow> bool \<Rightarrow> schedules_page \<Rightarrow> schedules_page" where
  "request_answered i ok s =
     (if i \<notin> set (in_flight s) then s
      else (let s' = s\<lparr> in_flight := remove1 i (in_flight s) \<rparr> in
            if ok \<and> i \<in> set (saving s) then handleClose s' else s'))"

text \<open>The variables of a mutation: the schedule its last request names.  Its controls in that row are
  disabled while it runs.\<close>

fun request_schedule :: "schedule_request \<Rightarrow> string option" where
  "request_schedule (CreateSchedule _ _ _ _ _) = None"
| "request_schedule (UpdateSchedule i _ _ _) = Some i"
| "request_schedule (ToggleSchedule i _) = Some i"
| "request_schedule (DeleteSchedule i) = Some i"
| "request_schedule (ExecuteSchedule i) = Some i"

definition row_busy :: "nat option \<Rightarrow> report_schedule \<Rightarrow> schedules_page \<Rightarrow> bool" where
  "row_busy m r s \<longleftrightarrow> is_pending m s
     \<and> (case m of None \<Rightarrow> False | Some i \<Rightarrow> request_schedule (sent_requests s ! i) = Some (rs_id r))"

definition onToggleActive :: "report_schedule \<Rightarrow> schedules_page \<Rightarrow> schedules_page" where
  "onToggleActive r s =
     (if row_busy (update_last s) r s then s
      else (request (ToggleSchedule (rs_id r) (\<not> rs_active r)) s)\<lparr> update_last := Some (length (sent_requests s)) \<rparr>)"

definition onExecute :: "report_schedule \<Rightarrow> schedules_page \<Rightarrow> schedules_page" where
  "onExecute r s =
     (if row_busy (execute_last s) r s then s
      else (request (ExecuteSchedule (rs_id r)) s)\<lparr> execute_last := Some (length (sent_requests s)) \<rparr>)"

definition ask_deletion :: "report_schedule \<Rightarrow> schedules_page \<Rightarrow> schedules_page" where
  "ask_deletion r s = (if row_busy (delete_last s) r s then s else s\<lparr> pendingDelete := Some r \<rparr>)"

definition confirm_deletion :: "schedules_page \<Rightarrow> schedules_page" where
  "confirm_deletion s =
     (case pendingDelete s of None \<Rightarrow> s
      | Some r \<Rightarrow> (request (DeleteSchedule (rs_id r)) s)\<lparr> delete_last := Some (length (sent_requests s)), pendingDelete := None \<rparr>)"

datatype schedules_event =
    SOpenCreate
  | SOpenEdit report_schedule
  | SClose
  | SType report_type
  | SFrequency report_frequency
  | SFormat report_format
  | SEntity string
  | SInput string
  | SAddSelf
  | SAddRecipient
  | SRemoveRecipient string
  | SSubmit
  | SAnswered nat bool
  | SToggle report_schedule
  | SAskDelete report_schedule
  | SKeepSchedule
  | SConfirmDelete
  | SExecute report_schedule

definition on_form :: "(schedule_form \<Rightarrow> schedule_form) \<Rightarrow> schedules_page \<Rightarrow> schedules_page" where
  "on_form f s = (if dialogOpen s then s\<lparr> sform := f (sform s) \<rparr> else s)"

text \<open>The type is chosen when creating only, the entity where its field is drawn.\<close>

fun schedules_step :: "string option \<Rightarrow> string option \<Rightarrow> schedules_page \<Rightarrow> schedules_event \<Rightarrow> schedules_page" where
  "schedules_step email role s SOpenCreate = openCreate s"
| "schedules_step email role s (SOpenEdit r) = openEdit r s"
| "schedules_step email role s SClose = handleClose s"
| "schedules_step email role s (SType t) =
     (if editingSchedule s = None \<and> t \<in> set (availableReportTypes role) then on_form (\<lambda>f. f\<lparr> reportType := t \<rparr>) s else s)"
| "schedules_step email role s (SFrequency q) = on_form (\<lambda>f. f\<lparr> frequency := q \<rparr>) s"
| "schedules_step email role s (SFormat m) = on_form (\<lambda>f. f\<lparr> report_format := m \<rparr>) s"
| "schedules_step email role s (SEntity e) =
     (if editingSchedule s = None \<and> ENTITY_PLACEHOLDER (reportType (sform s)) \<noteq> [] then on_form (\<lambda>f. f\<lparr> entityId := e \<rparr>) s else s)"
| "schedules_step email role s (SInput t) = on_form (\<lambda>f. f\<lparr> recipientInput := t \<rparr>) s"
| "schedules_step email role s SAddSelf = on_form (handleAddSelf email) s"
| "schedules_step email role s SAddRecipient = on_form handleAddRecipient s"
| "schedules_step email role s (SRemoveRecipient e) = on_form (handleRemoveRecipient e) s"
| "schedules_step email role s SSubmit = handleSubmit s"
| "schedules_step email role s (SAnswered i ok) = request_answered i ok s"
| "schedules_step email role s (SToggle r) = onToggleActive r s"
| "schedules_step email role s (SAskDelete r) = ask_deletion r s"
| "schedules_step email role s SKeepSchedule = s\<lparr> pendingDelete := None \<rparr>"
| "schedules_step email role s SConfirmDelete = confirm_deletion s"
| "schedules_step email role s (SExecute r) = onExecute r s"


section \<open>What is created\<close>

text \<open>An address that was typed and accepted, or the user's own.\<close>

definition recipient_ok :: "string option \<Rightarrow> string \<Rightarrow> bool" where
  "recipient_ok email r \<longleftrightarrow> email = Some r \<or> valid_email r \<and> lower r = r"

definition recipients_ok :: "string option \<Rightarrow> string list \<Rightarrow> bool" where
  "recipients_ok email rs \<longleftrightarrow> distinct rs \<and> list_all (recipient_ok email) rs"

fun creation_ok :: "string option \<Rightarrow> schedule_request \<Rightarrow> bool" where
  "creation_ok email (CreateSchedule t e q rs m) \<longleftrightarrow>
     rs \<noteq> [] \<and> recipients_ok email rs \<and> (if t \<in> set ENTITY_REQUIRED_TYPES then e \<noteq> None else True)"
| "creation_ok email (UpdateSchedule i q rs m) \<longleftrightarrow> rs \<noteq> []"
| "creation_ok email q \<longleftrightarrow> True"

definition schedules_ok :: "string option \<Rightarrow> schedules_page \<Rightarrow> bool" where
  "schedules_ok email s \<longleftrightarrow> list_all (creation_ok email) (sent_requests s)
     \<and> (dialogOpen s \<longrightarrow> editingSchedule s = None \<longrightarrow> recipients_ok email (recipients (sform s)))"

lemma lower_lower [simp]: "lower (lower s) = lower s"
proof -
  have "code (char_of n) = n" if "n < 256" for n using that by (simp add: code_def)
  then have "lower_char (lower_char c) = lower_char c" for c by (auto simp: lower_char_def Let_def)
  then show ?thesis by (simp add: lower_def)
qed

lemma add_self_ok: "recipients_ok email (recipients f) \<Longrightarrow> recipients_ok email (recipients (handleAddSelf email f))"
  by (auto simp: handleAddSelf_def recipients_ok_def recipient_ok_def split: option.split)

lemma add_recipient_ok: "recipients_ok email (recipients f) \<Longrightarrow> recipients_ok email (recipients (handleAddRecipient f))"
  by (auto simp: handleAddRecipient_def recipients_ok_def recipient_ok_def Let_def)

lemma remove_recipient_ok: "recipients_ok email (recipients f) \<Longrightarrow> recipients_ok email (recipients (handleRemoveRecipient e f))"
  by (auto simp: handleRemoveRecipient_def recipients_ok_def list_all_iff)

lemma submission_ok:
  "recipients_ok email (recipients f) \<or> sched \<noteq> None \<Longrightarrow> schedule_submission sched f = Some q \<Longrightarrow> creation_ok email q"
  by (auto simp: schedule_submission_def split: if_splits option.splits)

lemma dialog_ok: "schedules_ok email s \<Longrightarrow> schedules_ok email (schedule_dialog opn sched s)"
  by (auto simp: schedules_ok_def schedule_dialog_def schedule_form_of_def recipients_ok_def Let_def)

lemma request_ok: "schedules_ok email s \<Longrightarrow> creation_ok email q \<Longrightarrow> schedules_ok email (request q s)"
  by (simp add: schedules_ok_def request_def)

lemma frame_ok:
  "schedules_ok email (s\<lparr> in_flight := i \<rparr>) = schedules_ok email s" "schedules_ok email (s\<lparr> saving := i \<rparr>) = schedules_ok email s"
  "schedules_ok email (s\<lparr> create_last := m \<rparr>) = schedules_ok email s" "schedules_ok email (s\<lparr> update_last := m \<rparr>) = schedules_ok email s"
  "schedules_ok email (s\<lparr> delete_last := m \<rparr>) = schedules_ok email s" "schedules_ok email (s\<lparr> execute_last := m \<rparr>) = schedules_ok email s"
  "schedules_ok email (s\<lparr> pendingDelete := d \<rparr>) = schedules_ok email s"
  by (simp_all add: schedules_ok_def)

lemma on_form_ok:
  "schedules_ok email s \<Longrightarrow> (\<And>f. recipients_ok email (recipients f) \<Longrightarrow> recipients_ok email (recipients (g f)))
   \<Longrightarrow> schedules_ok email (on_form g s)"
  by (simp add: schedules_ok_def on_form_def)

lemma submit_ok: "schedules_ok email s \<Longrightarrow> schedules_ok email (handleSubmit s)"
proof (cases "schedule_submission (editingSchedule s) (sform s)")
  case (Some q)
  assume s: "schedules_ok email s"
  show ?thesis
  proof (cases "dialogOpen s")
    case True
    then have "creation_ok email q" using s Some by (intro submission_ok [of email "sform s" "editingSchedule s"]) (auto simp: schedules_ok_def)
    then show ?thesis using s Some by (simp add: handleSubmit_def Let_def frame_ok request_ok)
  qed (use s in \<open>simp add: handleSubmit_def\<close>)
qed (simp add: handleSubmit_def)

lemma schedules_ok_step: "schedules_ok email s \<Longrightarrow> schedules_ok email (schedules_step email role s ev)"
  by (cases ev)
    (simp_all add: openCreate_def openEdit_def handleClose_def dialog_ok on_form_ok add_self_ok add_recipient_ok
      remove_recipient_ok submit_ok request_answered_def onToggleActive_def ask_deletion_def confirm_deletion_def
      onExecute_def frame_ok request_ok Let_def split: option.split)

interpretation schedules: machine "schedules_step email role" "schedules_ok email" for email role
  by unfold_locales (rule schedules_ok_step)

text \<open>In every run each schedule that is created has recipients, all different, each the user's own
  address or a valid one in small letters, and an entity where its type needs one.\<close>

theorem created_schedules_valid:
  "list_all (creation_ok email) (sent_requests (run (schedules_step email role) es schedules_start))"
proof -
  have "schedules_ok email schedules_start" by (simp add: schedules_ok_def schedules_start_def)
  then show ?thesis using schedules.every_run_inv by (simp add: schedules_ok_def)
qed

section \<open>Editing\<close>

text \<open>Opening a schedule and saving it unchanged sends what is stored exactly when it can be sent at all:
  it has recipients, and an entity where its type needs one.\<close>

theorem unchanged_schedule_kept:
  "schedule_submission (Some r) (schedule_form_of (Some r)) = Some (UpdateSchedule (rs_id r) (rs_frequency r) (rs_recipients r) (rs_format r))
   \<longleftrightarrow> rs_recipients r \<noteq> [] \<and> (if rs_type r \<in> set ENTITY_REQUIRED_TYPES then (case rs_entity r of None \<Rightarrow> False | Some e \<Rightarrow> trim e \<noteq> []) else True)"
  by (auto simp: schedule_submission_def schedule_form_of_def trim_def trim_start_def split: option.split)


text \<open>The field of the entity is not drawn when editing: a schedule without the entity it needs stays as it
  is.\<close>

lemma entity_fixed_when_editing:
  "editingSchedule s \<noteq> None \<Longrightarrow> schedules_step email role s (SEntity e) = s"
  by auto

section \<open>Surprises\<close>

text \<open>The dialog says that without recipients reports are only saved; it does not let such a schedule be
  saved.\<close>

lemma no_recipients_refused: "schedule_submission sched (f\<lparr> recipients := [] \<rparr>) = None"
  by (simp add: schedule_submission_def)

text \<open>An address that is typed and not added is dropped without a word.\<close>

lemma typed_address_dropped: "schedule_submission sched (f\<lparr> recipientInput := t \<rparr>) = schedule_submission sched f"
  by (simp add: schedule_submission_def cong: if_cong option.case_cong)

text \<open>The own address is not put in small letters: the same address may be there twice.\<close>

lemma own_address_twice:
  "recipients (handleAddRecipient ((handleAddSelf (Some ''Ann@x.org'') (schedule_form_of None))\<lparr> recipientInput := ''ann@x.org'' \<rparr>))
   = [''Ann@x.org'', ''ann@x.org'']"
  by code_simp

text \<open>The entity of the type chosen before goes along with a type that has none.\<close>

lemma entity_of_other_type_sent:
  "sent_requests (run (schedules_step (Some ''a@x.org'') role)
      [SOpenCreate, SType ProgramStatus, SEntity ''p7'', SType Portfolio, SAddSelf, SSubmit] schedules_start)
   = [CreateSchedule Portfolio (Some ''p7'') EveryWeek [''a@x.org''] Pdf]"
  by (simp add: openCreate_def schedule_dialog_def schedules_start_def schedule_form_of_def on_form_def handleAddSelf_def
      availableReportTypes_def ALL_REPORT_TYPES_def handleSubmit_def is_pending_def schedule_submission_def
      ENTITY_REQUIRED_TYPES_def request_def trim_def trim_start_def is_space_def code_def Let_def)

text \<open>The answer to a save closes whatever dialog is open then.\<close>

lemma late_answer_closes:
  assumes "i \<in> set (in_flight s)" "i \<in> set (saving s)"
  shows "\<not> dialogOpen (schedules_step email role (schedules_step email role s (SOpenEdit r)) (SAnswered i True))"
  using assms by (auto simp: openEdit_def handleClose_def schedule_dialog_def request_answered_def Let_def)

text \<open>Switching a second schedule frees the switch of the first while its request still runs.\<close>

lemma second_row_frees_first:
  assumes "rs_id r1 \<noteq> rs_id r2" "update_last s = None"
  defines "s' \<equiv> onToggleActive r2 (onToggleActive r1 s)"
  shows "length (sent_requests s) \<in> set (in_flight s') \<and> \<not> row_busy (update_last s') r1 s'"
  using assms by (simp add: onToggleActive_def row_busy_def is_pending_def request_def nth_append)

lemma no_second_save_while_saving:
  "is_pending (create_last s) s \<Longrightarrow> handleSubmit s = s" "is_pending (update_last s) s \<Longrightarrow> handleSubmit s = s"
  by (simp_all add: handleSubmit_def)

end
