(* ===== verification/Closures.thy ===== *)
theory Closures
  imports Machines
begin

text \<open>
  The closure of a program (\<open>app/(dashboard)/programs/[id]/closure/page.tsx\<close> with the mutations of
  \<open>hooks/use-closure.ts\<close>): the checklist, the ratings of partners, the debrief notes and the completion.

  The server is written out as far as the page relies on it: an update of the checklist replaces it by
  the list that is sent, and a query that is fetched again answers with what is stored then.
\<close>

section \<open>The checklist\<close>

record checklist_item =
  ci_key :: string
  ci_label :: string
  ci_completed :: bool

definition toggled_list :: "string \<Rightarrow> bool \<Rightarrow> checklist_item list \<Rightarrow> checklist_item list" where
  "toggled_list key checked checklist = map (\<lambda>i. if ci_key i = key then i\<lparr> ci_completed := checked \<rparr> else i) checklist"

datatype closure_status = Initiated | InProgress | Completed

text \<open>The page and the server: \<open>updates\<close> holds the lists on their way in their order, \<open>stale\<close> says that a
  refetch is due.\<close>

record closure_view =
  shown_list :: "checklist_item list"
  shown_status :: closure_status
  stored_list :: "checklist_item list"
  stored_status :: closure_status
  updates :: "checklist_item list list"
  stale :: bool

definition isCompleted :: "closure_view \<Rightarrow> bool" where
  "isCompleted v \<longleftrightarrow> shown_status v = Completed"

definition allChecked :: "closure_view \<Rightarrow> bool" where
  "allChecked v \<longleftrightarrow> list_all ci_completed (shown_list v)"

definition handleChecklistToggle :: "string \<Rightarrow> bool \<Rightarrow> closure_view \<Rightarrow> closure_view" where
  "handleChecklistToggle key checked v =
     (if isCompleted v then v else v\<lparr> updates := updates v @ [toggled_list key checked (shown_list v)] \<rparr>)"

text \<open>An update reaches the server, which refuses it when the closure is completed; on success the query
  is invalidated.\<close>

definition update_delivered :: "closure_view \<Rightarrow> closure_view" where
  "update_delivered v =
     (case updates v of [] \<Rightarrow> v
      | l # ls \<Rightarrow>
          if stored_status v = Completed then v\<lparr> updates := ls \<rparr>
          else v\<lparr> updates := ls, stored_list := l, stored_status := InProgress, stale := True \<rparr>)"

definition closure_fetched :: "closure_view \<Rightarrow> closure_view" where
  "closure_fetched v =
     (if stale v then v\<lparr> shown_list := stored_list v, shown_status := stored_status v, stale := False \<rparr> else v)"

definition complete_enabled :: "closure_view \<Rightarrow> bool" where
  "complete_enabled v \<longleftrightarrow> \<not> isCompleted v \<and> allChecked v"

text \<open>The server checks the list again.\<close>

definition complete_closure :: "closure_view \<Rightarrow> closure_view" where
  "complete_closure v =
     (if \<not> complete_enabled v then v
      else if stored_status v = Completed \<or> \<not> list_all ci_completed (stored_list v) then v
      else v\<lparr> stored_status := Completed, stale := True \<rparr>)"

datatype closure_event =
    CToggle string bool
  | CDelivered
  | CFetched
  | CComplete
  | CElsewhere "checklist_item list"

text \<open>The list may also change elsewhere: by another user, or when the server marks the ratings.\<close>

fun closure_step :: "closure_view \<Rightarrow> closure_event \<Rightarrow> closure_view" where
  "closure_step v (CToggle k b) = handleChecklistToggle k b v"
| "closure_step v CDelivered = update_delivered v"
| "closure_step v CFetched = closure_fetched v"
| "closure_step v CComplete = complete_closure v"
| "closure_step v (CElsewhere l) = (if stored_status v = Completed then v else v\<lparr> stored_list := l, stale := True \<rparr>)"

section \<open>The ratings\<close>

text \<open>The form is shown while the closure is not completed.\<close>

record rating_form =
  partner_id :: string
  quality_score :: int
  timeliness_score :: int
  communication_score :: int
  overall_score :: int
  comments :: string

definition empty_rating :: rating_form where
  "empty_rating = \<lparr> partner_id = [], quality_score = 0, timeliness_score = 0, communication_score = 0,
     overall_score = 0, comments = [] \<rparr>"

record rating_sent =
  rt_partner :: string
  rt_scores :: "int list"
  rt_comments :: "string option"

record rating_page =
  rating :: rating_form
  rating_pending :: bool
  ratings_sent :: "rating_sent list"

definition rating_start :: rating_page where
  "rating_start = \<lparr> rating = empty_rating, rating_pending = False, ratings_sent = [] \<rparr>"

definition rating_complete :: "rating_form \<Rightarrow> bool" where
  "rating_complete f \<longleftrightarrow> partner_id f \<noteq> [] \<and> 1 \<le> quality_score f \<and> 1 \<le> timeliness_score f
     \<and> 1 \<le> communication_score f \<and> 1 \<le> overall_score f"

definition rating_data :: "rating_form \<Rightarrow> rating_sent" where
  "rating_data f = \<lparr> rt_partner = partner_id f,
     rt_scores = [quality_score f, timeliness_score f, communication_score f, overall_score f],
     rt_comments = (if comments f = [] then None else Some (comments f)) \<rparr>"

definition handleSubmitRating :: "rating_page \<Rightarrow> rating_page" where
  "handleSubmitRating p =
     (if rating_pending p \<or> \<not> rating_complete (rating p) then p
      else p\<lparr> rating_pending := True, ratings_sent := ratings_sent p @ [rating_data (rating p)] \<rparr>)"

definition rating_answered :: "bool \<Rightarrow> rating_page \<Rightarrow> rating_page" where
  "rating_answered ok p =
     (if \<not> rating_pending p then p
      else p\<lparr> rating_pending := False, rating := (if ok then empty_rating else rating p) \<rparr>)"

text \<open>The five stars of \<open>StarRating\<close>.\<close>

definition STARS :: "int list" where "STARS = [1, 2, 3, 4, 5]"

definition star_filled :: "int \<Rightarrow> int \<Rightarrow> bool" where
  "star_filled v star \<longleftrightarrow> star \<le> v"

datatype rating_event =
    RPartner string
  | RQuality int
  | RTimeliness int
  | RCommunication int
  | ROverall int
  | RComments string
  | RSubmit
  | RAnswered bool

fun rating_step :: "rating_page \<Rightarrow> rating_event \<Rightarrow> rating_page" where
  "rating_step p (RPartner i) = p\<lparr> rating := (rating p)\<lparr> partner_id := i \<rparr> \<rparr>"
| "rating_step p (RQuality n) = (if n \<in> set STARS then p\<lparr> rating := (rating p)\<lparr> quality_score := n \<rparr> \<rparr> else p)"
| "rating_step p (RTimeliness n) = (if n \<in> set STARS then p\<lparr> rating := (rating p)\<lparr> timeliness_score := n \<rparr> \<rparr> else p)"
| "rating_step p (RCommunication n) = (if n \<in> set STARS then p\<lparr> rating := (rating p)\<lparr> communication_score := n \<rparr> \<rparr> else p)"
| "rating_step p (ROverall n) = (if n \<in> set STARS then p\<lparr> rating := (rating p)\<lparr> overall_score := n \<rparr> \<rparr> else p)"
| "rating_step p (RComments t) = p\<lparr> rating := (rating p)\<lparr> comments := t \<rparr> \<rparr>"
| "rating_step p RSubmit = handleSubmitRating p"
| "rating_step p (RAnswered ok) = rating_answered ok p"

section \<open>The debrief\<close>

definition DEBRIEF_MAX_CHARS :: nat where "DEBRIEF_MAX_CHARS = 5000"

record debrief =
  saved_notes :: "string option"
  debriefDraft :: string
  debriefEditing :: bool
  debrief_sent :: "string list"
  debrief_pending :: bool

definition debrief_start :: "string option \<Rightarrow> debrief" where
  "debrief_start notes = \<lparr> saved_notes = notes, debriefDraft = [], debriefEditing = False, debrief_sent = [],
     debrief_pending = False \<rparr>"

definition has_notes :: "debrief \<Rightarrow> bool" where
  "has_notes d = (case saved_notes d of None \<Rightarrow> False | Some n \<Rightarrow> n \<noteq> [])"

text \<open>The read-only view is shown for saved notes that are not being edited.  Its button for editing is
  drawn while the closure is not completed, as it is here.\<close>

definition reading :: "debrief \<Rightarrow> bool" where
  "reading d \<longleftrightarrow> has_notes d \<and> \<not> debriefEditing d"

definition type_notes :: "string \<Rightarrow> debrief \<Rightarrow> debrief" where
  "type_notes t d = (if \<not> reading d \<and> length t \<le> DEBRIEF_MAX_CHARS then d\<lparr> debriefDraft := t \<rparr> else d)"

definition edit_notes :: "debrief \<Rightarrow> debrief" where
  "edit_notes d =
     (if reading d then d\<lparr> debriefDraft := (case saved_notes d of None \<Rightarrow> [] | Some n \<Rightarrow> n), debriefEditing := True \<rparr> else d)"

definition save_notes :: "debrief \<Rightarrow> debrief" where
  "save_notes d =
     (if reading d \<or> debrief_pending d \<or> trim (debriefDraft d) = [] then d
      else d\<lparr> debrief_sent := debrief_sent d @ [debriefDraft d], debrief_pending := True \<rparr>)"

definition notes_answered :: "bool \<Rightarrow> debrief \<Rightarrow> debrief" where
  "notes_answered ok d =
     (if \<not> debrief_pending d then d
      else if ok then d\<lparr> debrief_pending := False, debriefEditing := False \<rparr> else d\<lparr> debrief_pending := False \<rparr>)"

definition cancel_notes :: "debrief \<Rightarrow> debrief" where
  "cancel_notes d = (if has_notes d \<and> debriefEditing d then d\<lparr> debriefDraft := [], debriefEditing := False \<rparr> else d)"

datatype debrief_event = DType string | DEdit | DSave | DAnswered bool | DCancel | DFetched "string option"

fun debrief_step :: "debrief \<Rightarrow> debrief_event \<Rightarrow> debrief" where
  "debrief_step d (DType t) = type_notes t d"
| "debrief_step d DEdit = edit_notes d"
| "debrief_step d DSave = save_notes d"
| "debrief_step d (DAnswered ok) = notes_answered ok d"
| "debrief_step d DCancel = cancel_notes d"
| "debrief_step d (DFetched n) = d\<lparr> saved_notes := n \<rparr>"


section \<open>Toggling\<close>

definition toggle_event :: "string \<times> bool \<Rightarrow> closure_event" where
  "toggle_event t = CToggle (fst t) (snd t)"

definition toggle :: "string \<times> bool \<Rightarrow> checklist_item list \<Rightarrow> checklist_item list" where
  "toggle t l = toggled_list (fst t) (snd t) l"

definition open_view :: "checklist_item list \<Rightarrow> closure_view" where
  "open_view l = \<lparr> shown_list = l, shown_status = Initiated, stored_list = l, stored_status = Initiated,
     updates = [], stale = False \<rparr>"

definition in_step :: "closure_view \<Rightarrow> bool" where
  "in_step v \<longleftrightarrow> shown_list v = stored_list v \<and> shown_status v \<noteq> Completed \<and> stored_status v \<noteq> Completed
     \<and> updates v = [] \<and> \<not> stale v"

lemma one_turn:
  assumes "in_step v"
  shows "in_step (run closure_step [toggle_event t, CDelivered, CFetched] v)
    \<and> stored_list (run closure_step [toggle_event t, CDelivered, CFetched] v) = toggle t (stored_list v)"
  using assms
  by (simp add: in_step_def toggle_event_def toggle_def handleChecklistToggle_def isCompleted_def
      update_delivered_def closure_fetched_def)

lemma turns:
  "in_step v \<Longrightarrow> in_step (run closure_step (concat (map (\<lambda>t. [toggle_event t, CDelivered, CFetched]) ts)) v)
    \<and> stored_list (run closure_step (concat (map (\<lambda>t. [toggle_event t, CDelivered, CFetched]) ts)) v) = fold toggle ts (stored_list v)"
proof (induction ts arbitrary: v)
  case (Cons t ts)
  let ?w = "run closure_step [toggle_event t, CDelivered, CFetched] v"
  have w: "in_step ?w" "stored_list ?w = toggle t (stored_list v)" using one_turn [OF Cons.prems, of t] by blast+
  have r: "run closure_step (concat (map (\<lambda>t. [toggle_event t, CDelivered, CFetched]) (t # ts))) v
      = run closure_step (concat (map (\<lambda>t. [toggle_event t, CDelivered, CFetched]) ts)) ?w"
    by (simp only: list.map concat.simps run_append)
  show ?case unfolding r using Cons.IH [OF w(1)] w(2) by (simp only: fold_simps simp_thms)
qed simp

lemma toggles_sent:
  "shown_status v \<noteq> Completed \<Longrightarrow>
   run closure_step (map toggle_event ts) v = v\<lparr> updates := updates v @ map (\<lambda>t. toggle t (shown_list v)) ts \<rparr>"
proof (induction ts arbitrary: v)
  case (Cons t ts)
  then show ?case by (simp add: toggle_event_def toggle_def handleChecklistToggle_def isCompleted_def)
qed simp

lemma all_delivered:
  "stored_status v \<noteq> Completed \<Longrightarrow> updates v \<noteq> [] \<Longrightarrow>
   stored_list (run closure_step (replicate (length (updates v)) CDelivered) v) = last (updates v)"
proof (induction "updates v" arbitrary: v)
  case (Cons l ls)
  let ?v = "update_delivered v"
  have u: "updates v = l # ls" using Cons.hyps(2) by simp
  have n: "updates ?v = ls" "stored_status ?v \<noteq> Completed" "stored_list ?v = l"
    using u Cons.prems by (simp_all add: update_delivered_def)
  show ?case
  proof (cases "ls = []")
    case True
    then show ?thesis using u n by simp
  next
    case False
    then show ?thesis using Cons.hyps(1) [of ?v] u n by simp
  qed
qed simp

text \<open>C32.  When each change of the checklist is stored and fetched before the next one, the stored list is the
  list with all the changes made; when they are made quickly, each is sent on top of the list on the page,
  and only the last one is kept.\<close>

theorem quick_toggles_keep_last:
  "stored_list (run closure_step (concat (map (\<lambda>t. [toggle_event t, CDelivered, CFetched]) (ts @ [t]))) (open_view l))
     = toggle t (fold toggle ts l)
   \<and> stored_list (run closure_step (map toggle_event (ts @ [t]) @ replicate (Suc (length ts)) CDelivered) (open_view l))
     = toggle t l"
proof
  have "in_step (open_view l)" by (simp add: in_step_def open_view_def)
  from turns [OF this, of "ts @ [t]"]
  show "stored_list (run closure_step (concat (map (\<lambda>t. [toggle_event t, CDelivered, CFetched]) (ts @ [t]))) (open_view l))
     = toggle t (fold toggle ts l)" by (simp add: open_view_def)
  let ?v = "(open_view l)\<lparr> updates := map (\<lambda>t. toggle t l) (ts @ [t]) \<rparr>"
  have "run closure_step (map toggle_event (ts @ [t])) (open_view l) = ?v"
    by (subst toggles_sent) (simp_all add: open_view_def)
  moreover have "stored_list (run closure_step (replicate (length (updates ?v)) CDelivered) ?v) = last (updates ?v)"
    by (rule all_delivered) (simp_all add: open_view_def)
  ultimately show "stored_list (run closure_step (map toggle_event (ts @ [t]) @ replicate (Suc (length ts)) CDelivered) (open_view l))
     = toggle t l" by (simp only: run_append) simp
qed

text \<open>A change made elsewhere that the page has not fetched is taken back by the next toggle.\<close>

lemma change_elsewhere_lost:
  assumes "in_step v"
  shows "stored_list (run closure_step [CElsewhere l, CToggle k b, CDelivered] v) = toggled_list k b (stored_list v)"
  using assms by (simp add: in_step_def handleChecklistToggle_def isCompleted_def update_delivered_def)

section \<open>Completing\<close>

definition closed_ok :: "closure_view \<Rightarrow> bool" where
  "closed_ok v \<longleftrightarrow> (stored_status v = Completed \<longrightarrow> list_all ci_completed (stored_list v))"

lemma closed_ok_step: "closed_ok v \<Longrightarrow> closed_ok (closure_step v e)"
  by (cases e) (auto simp: closed_ok_def handleChecklistToggle_def update_delivered_def closure_fetched_def
      complete_closure_def split: list.split)

interpretation closure: machine closure_step closed_ok
  by unfold_locales (rule closed_ok_step)

text \<open>Whatever is toggled, delivered late or changed elsewhere: a completed closure has every item of its
  stored checklist done.\<close>

theorem completed_closure_checked: "closed_ok (run closure_step es (open_view l))"
  by (rule closure.every_run_inv) (simp add: closed_ok_def open_view_def)

lemma empty_checklist_completes: "complete_enabled (open_view [])"
  by (simp add: complete_enabled_def isCompleted_def allChecked_def open_view_def)

section \<open>What is rated\<close>

definition rating_ok :: "rating_sent \<Rightarrow> bool" where
  "rating_ok r \<longleftrightarrow> rt_partner r \<noteq> [] \<and> length (rt_scores r) = 4 \<and> list_all (\<lambda>n. 1 \<le> n \<and> n \<le> 5) (rt_scores r)"

definition ratings_ok :: "rating_page \<Rightarrow> bool" where
  "ratings_ok p \<longleftrightarrow> list_all rating_ok (ratings_sent p) \<and> quality_score (rating p) \<le> 5 \<and> timeliness_score (rating p) \<le> 5
     \<and> communication_score (rating p) \<le> 5 \<and> overall_score (rating p) \<le> 5"

lemma ratings_ok_step: "ratings_ok p \<Longrightarrow> ratings_ok (rating_step p e)"
  by (cases e) (auto simp: ratings_ok_def STARS_def handleSubmitRating_def rating_complete_def rating_data_def
      rating_ok_def rating_answered_def empty_rating_def)

interpretation ratings: machine rating_step ratings_ok
  by unfold_locales (rule ratings_ok_step)

text \<open>Every rating that is sent names a partner and has four scores from one to five.\<close>

theorem sent_ratings_in_range: "list_all rating_ok (ratings_sent (run rating_step es rating_start))"
proof -
  have "ratings_ok rating_start" by (simp add: ratings_ok_def rating_start_def empty_rating_def)
  then show ?thesis using ratings.every_run_inv by (simp add: ratings_ok_def)
qed

text \<open>What is typed into the form while a rating is sent goes when it succeeds.\<close>

lemma form_emptied_by_answer: "rating_pending p \<Longrightarrow> rating (rating_step (rating_step p (RPartner i)) (RAnswered True)) = empty_rating"
  by (simp add: rating_answered_def)

section \<open>What is noted\<close>

text \<open>Notes longer than the limit can be opened but not shortened by a character at a time.\<close>

lemma long_notes_stuck: "DEBRIEF_MAX_CHARS < length t \<Longrightarrow> type_notes t d = d"
  by (simp add: type_notes_def)

text \<open>A text typed while the notes are being saved is not saved, and editing them again overwrites it.\<close>

lemma typed_while_saving_lost:
  assumes "has_notes d" "debrief_pending d" "debriefEditing d" "length t \<le> DEBRIEF_MAX_CHARS"
  shows "debriefDraft (run debrief_step [DType t, DAnswered True, DFetched (Some n), DEdit] d) = (if n = [] then t else n)"
  using assms
  by (simp add: type_notes_def reading_def notes_answered_def edit_notes_def has_notes_def)

lemma cancelled_draft_gone: "has_notes d \<Longrightarrow> debriefEditing d \<Longrightarrow> debriefDraft (cancel_notes d) = []"
  by (simp add: cancel_notes_def)

end
