(* ===== verification/StepUpPrompt.thy ===== *)
theory StepUpPrompt
  imports StepUp
begin

text \<open>
  The dialog that asks for the password or a code before a sensitive action
  (\<open>components/auth/step-up-modal.tsx\<close>, with \<open>lib/api/step-up.ts\<close>), on the store of StepUp.

  The dialog is mounted always and drawn while an action is pending.  A request for a token is numbered
  and answered once; the server answers with the scope it was asked for (\<open>mint_step_up_token\<close> of
  \<open>app/api/v1/auth.py\<close>).  \<open>asked\<close> and \<open>minted\<close> record which action a promise was made for and which
  tokens the server has given out.
\<close>

section \<open>The dialog\<close>

datatype factor = ByPassword | ByTotp

definition ACTION_LABELS :: "(string \<times> string) list" where
  "ACTION_LABELS =
    [(''view_pii'', ''view this client'' @ [char_of (39 :: nat)] @ ''s personal information''),
     (''user_delete'', ''delete this user account''),
     (''user_disable'', ''deactivate this user''),
     (''mfa_change'', ''change your MFA settings''),
     (''file_read_sensitive'', ''open this sensitive document''),
     (''wire_approve'', ''approve this wire transfer''),
     (''program_delete'', ''delete this program''),
     (''export_data'', ''export this data''),
     (''break_glass'', ''activate break-glass access'')]"

definition describe :: "string \<Rightarrow> string" where
  "describe act = (case map_of ACTION_LABELS act of Some l \<Rightarrow> l
     | None \<Rightarrow> map (\<lambda>c. if c = CHR ''_'' then CHR '' '' else c) act)"

record mint =
  mt_action :: string
  mt_password :: "string option"
  mt_totp :: "string option"

record modal =
  prompts :: step_store
  mfa_enabled :: bool
  factor :: factor
  password :: string
  totp :: string
  mint_error :: bool
  submitting :: bool
  mint_requests :: "mint list"
  minting :: "nat list"
  asked :: "(nat \<times> string) list"
  minted :: "(string \<times> string) list"

definition modal_start :: "bool \<Rightarrow> modal" where
  "modal_start mfa = \<lparr> prompts = step_init, mfa_enabled = mfa, factor = ByPassword, password = [], totp = [],
     mint_error = False, submitting = False, mint_requests = [], minting = [], asked = [], minted = [] \<rparr>"

text \<open>The dialog is drawn for a pending action that is not empty.\<close>

definition prompted :: "modal \<Rightarrow> string option" where
  "prompted m = (case pendingAction (prompts m) of None \<Rightarrow> None | Some a \<Rightarrow> if a = [] then None else Some a)"

text \<open>The effect: a new pending action, or a change of the user's MFA, starts the form over.\<close>

definition prompt_effect :: "modal \<Rightarrow> modal \<Rightarrow> modal" where
  "prompt_effect before m =
     (if prompted m \<noteq> None
         \<and> (pendingAction (prompts before) \<noteq> pendingAction (prompts m) \<or> mfa_enabled before \<noteq> mfa_enabled m)
      then m\<lparr> factor := (if mfa_enabled m then ByTotp else ByPassword), password := [], totp := [],
              mint_error := False, submitting := False \<rparr>
      else m)"

definition submit_enabled :: "modal \<Rightarrow> bool" where
  "submit_enabled m \<longleftrightarrow> \<not> submitting m
     \<and> (case factor m of ByPassword \<Rightarrow> password m \<noteq> [] | ByTotp \<Rightarrow> 6 \<le> length (totp m))"

definition submit :: "modal \<Rightarrow> modal" where
  "submit m =
     (case prompted m of None \<Rightarrow> m
      | Some a \<Rightarrow>
          if \<not> submit_enabled m then m
          else m\<lparr> mint_error := False, submitting := True, minting := minting m @ [length (mint_requests m)],
                  mint_requests := mint_requests m @ [\<lparr> mt_action = a,
                    mt_password = (if factor m = ByPassword then Some (password m) else None),
                    mt_totp = (if factor m = ByTotp then Some (totp m) else None) \<rparr>] \<rparr>)"

definition mint_answered :: "int \<Rightarrow> nat \<Rightarrow> string \<Rightarrow> int \<Rightarrow> modal \<Rightarrow> modal" where
  "mint_answered now i t ttl m =
     (if i \<notin> set (minting m) then m
      else (let a = mt_action (mint_requests m ! i) in
            m\<lparr> minting := remove1 i (minting m), minted := minted m @ [(a, t)],
               prompts := fulfillPrompt (Some t) (cacheToken now [a] t ttl (prompts m)) \<rparr>))"

definition mint_refused :: "nat \<Rightarrow> modal \<Rightarrow> modal" where
  "mint_refused i m =
     (if i \<notin> set (minting m) then m
      else m\<lparr> minting := remove1 i (minting m), mint_error := True, submitting := False \<rparr>)"

definition cancel :: "modal \<Rightarrow> modal" where
  "cancel m = (if prompted m = None then m else m\<lparr> prompts := fulfillPrompt None (prompts m) \<rparr>)"

datatype modal_event =
    MRequest int string nat
  | MFactor factor
  | MPassword string
  | MTotp string
  | MSubmit
  | MMinted int nat string int
  | MRefused nat
  | MCancel
  | MClear
  | MUser bool

text \<open>The factors are offered to users with MFA; the field of the code takes eight characters.\<close>

fun modal_act :: "modal \<Rightarrow> modal_event \<Rightarrow> modal" where
  "modal_act m (MRequest now a p) = m\<lparr> prompts := requestToken now a p (prompts m), asked := asked m @ [(p, a)] \<rparr>"
| "modal_act m (MFactor f) = (if prompted m \<noteq> None \<and> mfa_enabled m then m\<lparr> factor := f \<rparr> else m)"
| "modal_act m (MPassword t) = (if prompted m \<noteq> None \<and> factor m = ByPassword then m\<lparr> password := t \<rparr> else m)"
| "modal_act m (MTotp t) = (if prompted m \<noteq> None \<and> factor m = ByTotp \<and> length t \<le> 8 then m\<lparr> totp := t \<rparr> else m)"
| "modal_act m MSubmit = submit m"
| "modal_act m (MMinted now i t ttl) = mint_answered now i t ttl m"
| "modal_act m (MRefused i) = mint_refused i m"
| "modal_act m MCancel = cancel m"
| "modal_act m MClear = m\<lparr> prompts := step_clear (prompts m) \<rparr>"
| "modal_act m (MUser b) = m\<lparr> mfa_enabled := b \<rparr>"

definition modal_step :: "modal \<Rightarrow> modal_event \<Rightarrow> modal" where
  "modal_step m e = prompt_effect m (modal_act m e)"

lemma effect_keeps [simp]:
  "prompts (prompt_effect b m) = prompts m" "asked (prompt_effect b m) = asked m" "minted (prompt_effect b m) = minted m"
  "minting (prompt_effect b m) = minting m" "mint_requests (prompt_effect b m) = mint_requests m"
  "mfa_enabled (prompt_effect b m) = mfa_enabled m"
  by (simp_all add: prompt_effect_def)

section \<open>What is kept and what is asked\<close>

definition backed :: "modal \<Rightarrow> string \<times> cached_token \<Rightarrow> bool" where
  "backed m e \<longleftrightarrow> (fst e, tok (snd e)) \<in> set (minted m)"

definition mint_ok :: "mint \<Rightarrow> bool" where
  "mint_ok r \<longleftrightarrow> (case (mt_password r, mt_totp r) of
       (Some p, None) \<Rightarrow> p \<noteq> [] | (None, Some c) \<Rightarrow> 6 \<le> length c \<and> length c \<le> 8 | _ \<Rightarrow> False)"

definition tokens_ok :: "modal \<Rightarrow> bool" where
  "tokens_ok m \<longleftrightarrow> list_all (backed m) (tokens (prompts m)) \<and> list_all mint_ok (mint_requests m)
     \<and> list_all (\<lambda>i. i < length (mint_requests m)) (minting m)
     \<and> list_all (\<lambda>(a, t). a \<in> mt_action ` set (mint_requests m)) (minted m) \<and> length (totp m) \<le> 8"

lemma backed_cong: "minted m' = minted m \<Longrightarrow> backed m' = backed m"
  by (simp add: backed_def fun_eq_iff)

lemma effect_tokens [simp]: "tokens_ok m \<Longrightarrow> tokens_ok (prompt_effect b m)"
  using backed_cong [of "prompt_effect b m" m] by (simp add: tokens_ok_def) (simp add: prompt_effect_def)

lemma update_all: "list_all P al \<Longrightarrow> P (k, v) \<Longrightarrow> list_all P (AList.update k v al)"
  by (induction al) auto

lemma store_tokens [simp]:
  "tokens (fulfillPrompt t s) = tokens s" "tokens (requestToken now a p s) = tokens s" "tokens (step_clear s) = []"
  by (simp_all add: fulfillPrompt_def requestToken_def step_clear_def Let_def split: option.split)

lemma backed_kept: "list_all (backed m) l \<Longrightarrow> minted m' = minted m @ x \<Longrightarrow> list_all (backed m') l"
  by (auto simp: list_all_iff backed_def)

lemma submit_tokens: "tokens_ok m \<Longrightarrow> tokens_ok (submit m)"
  by (cases "prompted m"; cases "factor m")
    (auto simp: submit_def tokens_ok_def submit_enabled_def mint_ok_def backed_def list_all_iff)

lemma answer_tokens: "tokens_ok m \<Longrightarrow> tokens_ok (mint_answered now i t ttl m)"
proof (cases "i \<in> set (minting m)")
  case True
  assume m: "tokens_ok m"
  let ?a = "mt_action (mint_requests m ! i)" and ?m = "mint_answered now i t ttl m"
  have "i < length (mint_requests m)" using m True by (auto simp: tokens_ok_def list_all_iff)
  then have "?a \<in> mt_action ` set (mint_requests m)" by simp
  moreover have "list_all (backed ?m) (tokens (prompts m))"
    using m True by (auto simp: tokens_ok_def mint_answered_def Let_def intro: backed_kept)
  then have "list_all (backed ?m) (tokens (prompts ?m))"
    using True by (auto simp: mint_answered_def Let_def cacheToken_def backed_def intro!: update_all)
  ultimately show ?thesis using m True
    by (auto simp: tokens_ok_def mint_answered_def Let_def list_all_iff dest: notin_set_remove1)
qed (simp add: mint_answered_def)

lemma tokens_ok_step: "tokens_ok m \<Longrightarrow> tokens_ok (modal_step m e)"
  unfolding modal_step_def
proof (rule effect_tokens)
  assume m: "tokens_ok m"
  then show "tokens_ok (modal_act m e)"
  proof (cases e)
    case MSubmit
    then show ?thesis using m by (simp add: submit_tokens)
  next
    case (MMinted now i t ttl)
    then show ?thesis using m by (simp add: answer_tokens)
  qed (use m in \<open>auto simp: tokens_ok_def backed_def mint_refused_def cancel_def list_all_iff dest: notin_set_remove1\<close>)
qed

interpretation modal: machine modal_step tokens_ok
  by unfold_locales (rule tokens_ok_step)

text \<open>C16.  In every run each token kept for an action was given out for that very action, and the server was
  asked for it with one proof: a password that is not empty, or a code of six to eight characters.\<close>

theorem kept_tokens_were_proved:
  "tokens_ok (run modal_step es (modal_start mfa))"
  by (rule modal.every_run_inv) (simp add: tokens_ok_def modal_start_def step_init_def)

section \<open>Which promise gets the token\<close>

text \<open>Runs in which nobody cancels, asks for a prompt or signs out while a proof is being checked.\<close>

fun quiet :: "modal \<Rightarrow> modal_event \<Rightarrow> bool" where
  "quiet m (MRequest now a p) \<longleftrightarrow> minting m = []"
| "quiet m MCancel \<longleftrightarrow> minting m = []"
| "quiet m MClear \<longleftrightarrow> minting m = []"
| "quiet m e \<longleftrightarrow> True"

inductive calm :: "modal \<Rightarrow> bool" where
  calm_start: "calm (modal_start mfa)"
| calm_step: "calm m \<Longrightarrow> quiet m e \<Longrightarrow> calm (modal_step m e)"

definition settled_ok :: "modal \<Rightarrow> nat \<times> string option \<Rightarrow> bool" where
  "settled_ok m r \<longleftrightarrow> (case snd r of None \<Rightarrow> True
     | Some t \<Rightarrow> list_ex (\<lambda>(p, a). p = fst r \<and> (a, t) \<in> set (minted m)) (asked m))"

definition answers_ok :: "modal \<Rightarrow> bool" where
  "answers_ok m \<longleftrightarrow> list_all (settled_ok m) (resolved (prompts m))
     \<and> (\<forall>p. resolvePrompt (prompts m) = Some p \<longrightarrow> (\<exists>a. pendingAction (prompts m) = Some a \<and> (p, a) \<in> set (asked m)))
     \<and> (\<forall>i \<in> set (minting m). i < length (mint_requests m)
          \<and> (\<forall>a. pendingAction (prompts m) = Some a \<longrightarrow> mt_action (mint_requests m ! i) = a))"

lemma settled_Some:
  "settled_ok m (p, Some t) \<longleftrightarrow> (\<exists>a. (p, a) \<in> set (asked m) \<and> (a, t) \<in> set (minted m))"
  "settled_ok m (p, None)"
  by (auto simp: settled_ok_def list_ex_iff)

lemma settled_mono:
  "settled_ok m r \<Longrightarrow> set (minted m) \<subseteq> set (minted m') \<Longrightarrow> set (asked m) \<subseteq> set (asked m') \<Longrightarrow> settled_ok m' r"
  by (cases r; cases "snd r") (auto simp: settled_Some)

lemma settled_all_mono:
  "list_all (settled_ok m) l \<Longrightarrow> set (minted m) \<subseteq> set (minted m') \<Longrightarrow> set (asked m) \<subseteq> set (asked m') \<Longrightarrow> list_all (settled_ok m') l"
  by (auto simp: list_all_iff intro: settled_mono)

lemma settled_cong: "minted m' = minted m \<Longrightarrow> asked m' = asked m \<Longrightarrow> settled_ok m' = settled_ok m"
  by (rule ext) (simp add: settled_ok_def split: option.split)

lemma answers_cong:
  assumes "prompts m' = prompts m" "asked m' = asked m" "minted m' = minted m" "minting m' = minting m"
    "mint_requests m' = mint_requests m"
  shows "answers_ok m' = answers_ok m"
  using assms settled_cong [OF assms(3,2)] by (simp add: answers_ok_def)

lemma answers_effect [simp]: "answers_ok (prompt_effect b m) = answers_ok m"
  by (rule answers_cong) simp_all

lemma answers_frame [simp]:
  "answers_ok (m\<lparr> factor := f \<rparr>) = answers_ok m" "answers_ok (m\<lparr> password := t \<rparr>) = answers_ok m"
  "answers_ok (m\<lparr> totp := t \<rparr>) = answers_ok m" "answers_ok (m\<lparr> mfa_enabled := b \<rparr>) = answers_ok m"
  by (rule answers_cong, simp_all)+

lemma answers_settled: "answers_ok m \<Longrightarrow> list_all (settled_ok m) (resolved (prompts m))"
  by (simp add: answers_ok_def)

lemma answers_kept:
  assumes "answers_ok m" "set (minted m) \<subseteq> set (minted m')" "set (asked m) \<subseteq> set (asked m')"
  shows "list_all (settled_ok m') (resolved (prompts m))"
  by (rule settled_all_mono [OF answers_settled [OF assms(1)] assms(2,3)])

lemma answers_request:
  assumes "answers_ok m" "tokens_ok m" "minting m = []"
  shows "answers_ok (modal_act m (MRequest now a p))"
proof -
  let ?m = "modal_act m (MRequest now a p)"
  have k: "list_all (settled_ok ?m) (resolved (prompts m))"
    by (rule answers_kept [OF assms(1)]) auto
  show ?thesis
  proof (cases "resolved (prompts ?m) = resolved (prompts m)")
    case True
    then have "resolvePrompt (prompts ?m) = Some p" "pendingAction (prompts ?m) = Some a"
      by (auto simp: requestToken_def split: option.splits if_splits)
    then show ?thesis using k True assms(3) by (simp add: answers_ok_def)
  next
    case False
    then obtain t where t: "getValidToken now a (prompts m) = Some t" "t \<noteq> []"
      by (auto simp: requestToken_def split: option.splits if_splits)
    then obtain e where "map_of (tokens (prompts m)) a = Some e" "tok e = t"
      by (auto simp: getValidToken_def split: option.splits if_splits)
    then have "(a, t) \<in> set (minted m)"
      using assms(2) by (auto simp: tokens_ok_def list_all_iff backed_def dest!: map_of_SomeD)
    then have "settled_ok ?m (p, Some t)" by (auto simp: settled_Some)
    then show ?thesis using k t assms by (auto simp: answers_ok_def requestToken_def)
  qed
qed

lemma answers_fulfill:
  assumes "answers_ok m" "case t of None \<Rightarrow> True | Some u \<Rightarrow> (\<forall>a. pendingAction (prompts m) = Some a \<longrightarrow> (a, u) \<in> set (minted m))"
  shows "answers_ok (m\<lparr> prompts := fulfillPrompt t (prompts m) \<rparr>)"
proof -
  let ?m = "m\<lparr> prompts := fulfillPrompt t (prompts m) \<rparr>"
  have k: "list_all (settled_ok ?m) (resolved (prompts m))"
    by (rule answers_kept [OF assms(1)]) auto
  have "settled_ok ?m (p, t)" if "resolvePrompt (prompts m) = Some p" for p
  proof (cases t)
    case (Some u)
    have "\<exists>a. pendingAction (prompts m) = Some a \<and> (p, a) \<in> set (asked m)"
      using that assms(1) by (simp add: answers_ok_def)
    then obtain a where "pendingAction (prompts m) = Some a" "(p, a) \<in> set (asked m)" by blast
    then show ?thesis using assms(2) Some by (auto simp: settled_Some)
  qed (simp add: settled_Some)
  then show ?thesis using k assms(1) by (auto simp: answers_ok_def fulfillPrompt_def Let_def split: option.split)
qed

lemma answers_minted:
  assumes "answers_ok m"
  shows "answers_ok (mint_answered now i t ttl m)"
proof (cases "i \<in> set (minting m)")
  case True
  let ?a = "mt_action (mint_requests m ! i)"
  let ?n = "m\<lparr> minting := remove1 i (minting m), minted := minted m @ [(?a, t)], prompts := cacheToken now [?a] t ttl (prompts m) \<rparr>"
  have a: "\<forall>b. pendingAction (prompts m) = Some b \<longrightarrow> ?a = b" using assms True by (simp add: answers_ok_def)
  have "list_all (settled_ok ?n) (resolved (prompts m))" by (rule answers_kept [OF assms]) auto
  moreover have "\<forall>j \<in> set (remove1 i (minting m)). j \<in> set (minting m)" using set_remove1_subset by fastforce
  ultimately have "answers_ok ?n" using assms by (simp add: answers_ok_def cacheToken_def)
  then have "answers_ok (?n\<lparr> prompts := fulfillPrompt (Some t) (prompts ?n) \<rparr>)"
    by (rule answers_fulfill) (use a in \<open>simp add: cacheToken_def\<close>)
  then show ?thesis using True by (simp add: mint_answered_def Let_def)
qed (use assms in \<open>simp add: mint_answered_def\<close>)

lemma answers_submit: "answers_ok m \<Longrightarrow> answers_ok (submit m)"
proof (cases "prompted m")
  case (Some a)
  assume m: "answers_ok m"
  have p: "pendingAction (prompts m) = Some a" using Some by (auto simp: prompted_def split: option.splits if_splits)
  show ?thesis
  proof (cases "submit_enabled m")
    case True
    have "list_all (settled_ok (submit m)) (resolved (prompts m))"
      by (rule answers_kept [OF m]) (simp_all add: submit_def split: option.split)
    then show ?thesis using m p Some True by (simp add: answers_ok_def submit_def nth_append less_Suc_eq)
  qed (use m Some in \<open>simp add: submit_def\<close>)
qed (simp add: submit_def)

lemma answers_refused: "answers_ok m \<Longrightarrow> answers_ok (mint_refused i m)"
proof (cases "i \<in> set (minting m)")
  case True
  assume m: "answers_ok m"
  have "list_all (settled_ok (mint_refused i m)) (resolved (prompts m))"
    by (rule answers_kept [OF m]) (simp_all add: mint_refused_def)
  moreover have "\<forall>j \<in> set (remove1 i (minting m)). j \<in> set (minting m)" using set_remove1_subset by fastforce
  ultimately show ?thesis using m True by (simp add: answers_ok_def mint_refused_def)
qed (simp add: mint_refused_def)

lemma answers_clear:
  assumes "answers_ok m"
  shows "answers_ok (m\<lparr> prompts := step_clear (prompts m) \<rparr>)"
proof -
  have "list_all (settled_ok (m\<lparr> prompts := step_clear (prompts m) \<rparr>)) (resolved (prompts m))"
    by (rule answers_kept [OF assms]) simp_all
  then show ?thesis using assms by (simp add: answers_ok_def step_clear_def)
qed

lemma answers_ok_step:
  assumes "answers_ok m" "tokens_ok m" "quiet m e"
  shows "answers_ok (modal_step m e)"
proof -
  have "answers_ok (modal_act m e)"
  proof (cases e)
    case (MRequest now a p)
    then show ?thesis using answers_request [OF assms(1,2)] assms(3) by simp
  next
    case MCancel
    then show ?thesis using answers_fulfill [OF assms(1), of None] assms(1) by (simp add: cancel_def)
  qed (use assms in \<open>simp_all add: answers_submit answers_minted answers_refused answers_clear\<close>)
  then show ?thesis by (simp add: modal_step_def)
qed

lemma calm_ok: "calm m \<Longrightarrow> tokens_ok m \<and> answers_ok m"
proof (induction rule: calm.induct)
  case (calm_start mfa)
  show ?case by (simp add: tokens_ok_def answers_ok_def modal_start_def step_init_def)
next
  case (calm_step m e)
  then show ?case by (simp add: tokens_ok_step answers_ok_step)
qed

text \<open>While nobody cancels, asks for a prompt or signs out as a proof is being checked, every promise
  that gets a token gets one the server gave out for its own action.\<close>

theorem promises_get_their_tokens:
  "calm m \<Longrightarrow> list_all (settled_ok m) (resolved (prompts m))"
  by (rule answers_settled) (simp add: calm_ok)

definition one_prompt :: "modal_event list" where
  "one_prompt = [MRequest 0 ''export_data'' 0, MPassword ''pw'', MSubmit, MMinted 1000 0 ''t'' 300]"

theorem promises_get_their_tokens_witness:
  "(let m = run modal_step one_prompt (modal_start False) in
    list_all (settled_ok m) (resolved (prompts m)) \<and> resolved (prompts m) = [(0, Some ''t'')])"
proof -
  let ?m = "run modal_step one_prompt (modal_start False)"
  have "calm ?m" unfolding one_prompt_def run_Cons run_Nil
    by (intro calm_step calm_start) (simp_all add: modal_start_def)
  then have "list_all (settled_ok ?m) (resolved (prompts ?m))" by (rule promises_get_their_tokens)
  moreover have "resolved (prompts ?m) = [(0, Some ''t'')]"
    by (simp add: one_prompt_def modal_step_def prompt_effect_def prompted_def submit_def submit_enabled_def
        mint_answered_def requestToken_def getValidToken_def fulfillPrompt_def cacheToken_def modal_start_def
        step_init_def Let_def)
  ultimately show ?thesis by (simp add: Let_def)
qed

text \<open>A request in flight when its prompt is cancelled answers the prompt opened since: the promise for
  the second action gets the token of the first, which the server does not accept for it.\<close>

definition hasty :: "modal_event list" where
  "hasty = [MRequest 0 ''export_data'' 0, MPassword ''pw'', MSubmit, MCancel, MRequest 1000 ''wire_approve'' 1]"

lemmas modal_defs = modal_step_def prompt_effect_def prompted_def submit_def submit_enabled_def mint_answered_def
  mint_refused_def cancel_def requestToken_def getValidToken_def fulfillPrompt_def cacheToken_def modal_start_def
  step_init_def settled_ok_def Let_def

lemma second_prompt_gets_first_token:
  "(let m = run modal_step (hasty @ [MMinted 2000 0 ''t'' 300]) (modal_start False)
    in resolved (prompts m) = [(0, None), (1, Some ''t'')] \<and> minted m = [(''export_data'', ''t'')]
       \<and> \<not> settled_ok m (1, Some ''t'') \<and> prompted m = None)"
  by (simp add: hasty_def modal_defs)

text \<open>A refusal that comes late is shown in the prompt opened since.\<close>

lemma second_prompt_shows_first_error:
  "(let m = run modal_step (hasty @ [MRefused 0]) (modal_start False)
    in mint_error m \<and> prompted m = Some ''wire_approve'' \<and> length (mint_requests m) = 1)"
  by (simp add: hasty_def modal_defs)

text \<open>Cancelling settles the promise without a token.\<close>

lemma cancel_settles:
  assumes "prompted m = Some a" "resolvePrompt (prompts m) = Some p"
  shows "resolved (prompts (cancel m)) = resolved (prompts m) @ [(p, None)]" "prompted (cancel m) = None"
  using assms by (simp_all add: cancel_def fulfillPrompt_def prompted_def)

text \<open>The token given out last for an action is the one kept, unless its life is shorter than the ten seconds
  the store takes off.\<close>

lemma kept_token_is_last:
  assumes "i \<in> set (minting m)"
  shows "getValidToken now (mt_action (mint_requests m ! i)) (prompts (mint_answered now i t ttl m))
     = (if 10 \<le> ttl then Some t else None)"
  using assms
  by (auto simp: mint_answered_def Let_def fulfillPrompt_def getValidToken_def cacheToken_lookup SKEW_SECONDS_def
      cacheToken_def update_conv' split: option.split)

end
