(* ===== verification/SecuritySettings.thy ===== *)
theory SecuritySettings
  imports Machines
begin

text \<open>
  The security settings (\<open>components/settings/security-settings-form.tsx\<close> and the pages of the two portals
  that repeat it) and the enrolment of the second factor (\<open>components/auth/mfa-setup.tsx\<close>).

  The server is the flag that says whether the second factor is on: a verified enrolment sets it, an
  accepted code to disable it clears it.  \<open>user_mfa\<close> is the flag of the user the authentication provider
  has loaded, which neither of them refreshes.
\<close>

section \<open>The second factor\<close>

datatype page_state = Idle | Setup | Disable

datatype setup_step = Loading | Verify | Success | SetupError

record setup_view =
  step :: setup_step
  code_text :: string
  setup_failed :: bool
  verifying :: bool

definition setup_mounted :: setup_view where
  "setup_mounted = \<lparr> step = Loading, code_text = [], setup_failed = False, verifying = False \<rparr>"

text \<open>\<open>late\<close> counts the checks of enrolments that were left; \<open>server_mfa\<close> is the server's flag.\<close>

record mfa_page =
  pageState :: page_state
  mfaEnabled :: bool
  disableCode :: string
  disableError :: bool
  isDisabling :: bool
  successMsg :: string
  enrolment :: setup_view
  late :: nat
  server_mfa :: bool
  user_mfa :: bool

text \<open>The effect of the page: the user that is loaded says whether the second factor is on.\<close>

definition mfa_mount :: "bool \<Rightarrow> bool \<Rightarrow> mfa_page" where
  "mfa_mount user server = \<lparr> pageState = Idle, mfaEnabled = user, disableCode = [], disableError = False,
     isDisabling = False, successMsg = [], enrolment = setup_mounted, late = 0, server_mfa = server, user_mfa = user \<rparr>"

text \<open>Leaving the page and coming back.\<close>

definition mfa_remount :: "mfa_page \<Rightarrow> mfa_page" where
  "mfa_remount s = mfa_mount (user_mfa s) (server_mfa s)"

definition press_enable :: "mfa_page \<Rightarrow> mfa_page" where
  "press_enable s =
     (if pageState s = Idle \<and> \<not> mfaEnabled s
      then s\<lparr> successMsg := [], pageState := Setup, enrolment := setup_mounted \<rparr> else s)"

definition press_disable :: "mfa_page \<Rightarrow> mfa_page" where
  "press_disable s =
     (if pageState s = Idle \<and> mfaEnabled s then s\<lparr> successMsg := [], pageState := Disable \<rparr> else s)"

text \<open>The answer to the request the enrolment starts with.\<close>

definition initSetup :: "bool \<Rightarrow> mfa_page \<Rightarrow> mfa_page" where
  "initSetup ok s =
     (if pageState s \<noteq> Setup \<or> step (enrolment s) \<noteq> Loading then s
      else if ok then s\<lparr> enrolment := (enrolment s)\<lparr> step := Verify \<rparr> \<rparr>
      else s\<lparr> enrolment := (enrolment s)\<lparr> setup_failed := True, step := SetupError \<rparr> \<rparr>)"

definition type_code :: "string \<Rightarrow> mfa_page \<Rightarrow> mfa_page" where
  "type_code t s =
     (if pageState s = Setup \<and> step (enrolment s) = Verify \<and> length t \<le> 8
      then s\<lparr> enrolment := (enrolment s)\<lparr> code_text := t \<rparr> \<rparr> else s)"

definition handleVerify :: "mfa_page \<Rightarrow> mfa_page" where
  "handleVerify s =
     (if pageState s = Setup \<and> step (enrolment s) = Verify \<and> \<not> verifying (enrolment s) \<and> 6 \<le> length (code_text (enrolment s))
      then s\<lparr> enrolment := (enrolment s)\<lparr> setup_failed := False, verifying := True \<rparr> \<rparr> else s)"

definition verify_answered :: "bool \<Rightarrow> mfa_page \<Rightarrow> mfa_page" where
  "verify_answered ok s =
     (if pageState s = Setup \<and> verifying (enrolment s) then
        (if ok then s\<lparr> server_mfa := True, enrolment := (enrolment s)\<lparr> step := Success, verifying := False \<rparr> \<rparr>
         else s\<lparr> enrolment := (enrolment s)\<lparr> setup_failed := True, verifying := False \<rparr> \<rparr>)
      else s)"

text \<open>A check whose enrolment was left reaches the server all the same.\<close>

definition late_verified :: "bool \<Rightarrow> mfa_page \<Rightarrow> mfa_page" where
  "late_verified ok s =
     (if late s = 0 then s
      else if ok then s\<lparr> late := late s - 1, server_mfa := True \<rparr> else s\<lparr> late := late s - 1 \<rparr>)"

text \<open>The enrolment tells the page that it is complete.\<close>

definition handleDone :: "mfa_page \<Rightarrow> mfa_page" where
  "handleDone s =
     (if pageState s = Setup \<and> step (enrolment s) = Success
      then s\<lparr> mfaEnabled := True, pageState := Idle, successMsg := ''MFA has been enabled successfully.'' \<rparr> else s)"

text \<open>The button that leaves the enrolment is drawn in each of its steps.\<close>

definition cancel_setup :: "mfa_page \<Rightarrow> mfa_page" where
  "cancel_setup s =
     (if pageState s = Setup
      then s\<lparr> pageState := Idle, late := (if verifying (enrolment s) then Suc (late s) else late s) \<rparr> else s)"

definition type_disable_code :: "string \<Rightarrow> mfa_page \<Rightarrow> mfa_page" where
  "type_disable_code t s = (if pageState s = Disable \<and> length t \<le> 8 then s\<lparr> disableCode := t \<rparr> else s)"

definition handleDisableMFA :: "mfa_page \<Rightarrow> mfa_page" where
  "handleDisableMFA s =
     (if pageState s = Disable \<and> \<not> isDisabling s \<and> 6 \<le> length (disableCode s)
      then s\<lparr> disableError := False, isDisabling := True \<rparr> else s)"

definition disable_answered :: "bool \<Rightarrow> mfa_page \<Rightarrow> mfa_page" where
  "disable_answered ok s =
     (if \<not> isDisabling s then s
      else if ok then s\<lparr> server_mfa := False, mfaEnabled := False, pageState := Idle, disableCode := [],
                         successMsg := ''MFA has been disabled.'', isDisabling := False \<rparr>
      else s\<lparr> disableError := True, isDisabling := False \<rparr>)"

definition cancel_disable :: "mfa_page \<Rightarrow> mfa_page" where
  "cancel_disable s =
     (if pageState s = Disable then s\<lparr> pageState := Idle, disableCode := [], disableError := False \<rparr> else s)"

datatype mfa_event =
    FEnable
  | FDisable
  | FInit bool
  | FCode string
  | FVerify
  | FVerified bool
  | FLate bool
  | FDone
  | FCancelSetup
  | FDisableCode string
  | FSubmitDisable
  | FDisabled bool
  | FCancelDisable

fun mfa_step :: "mfa_page \<Rightarrow> mfa_event \<Rightarrow> mfa_page" where
  "mfa_step s FEnable = press_enable s"
| "mfa_step s FDisable = press_disable s"
| "mfa_step s (FInit ok) = initSetup ok s"
| "mfa_step s (FCode t) = type_code t s"
| "mfa_step s FVerify = handleVerify s"
| "mfa_step s (FVerified ok) = verify_answered ok s"
| "mfa_step s (FLate ok) = late_verified ok s"
| "mfa_step s FDone = handleDone s"
| "mfa_step s FCancelSetup = cancel_setup s"
| "mfa_step s (FDisableCode t) = type_disable_code t s"
| "mfa_step s FSubmitDisable = handleDisableMFA s"
| "mfa_step s (FDisabled ok) = disable_answered ok s"
| "mfa_step s FCancelDisable = cancel_disable s"

lemmas mfa_defs = press_enable_def press_disable_def initSetup_def type_code_def handleVerify_def verify_answered_def
  late_verified_def handleDone_def cancel_setup_def type_disable_code_def handleDisableMFA_def disable_answered_def
  cancel_disable_def setup_mounted_def

section \<open>The password\<close>

datatype password_error = Mismatch | TooShort | Refused string

record password_form =
  currentPassword :: string
  newPassword :: string
  confirmPassword :: string
  passwordError :: "password_error option"
  page_success :: string
  pw_pending :: bool
  pw_sent :: "(string \<times> string) list"

definition password_start :: password_form where
  "password_start = \<lparr> currentPassword = [], newPassword = [], confirmPassword = [], passwordError = None,
     page_success = [], pw_pending = False, pw_sent = [] \<rparr>"

text \<open>The browser keeps a form with an empty required field, and a new password below eight characters
  that was typed; the button is disabled while a change runs.\<close>

definition handleChangePassword :: "password_form \<Rightarrow> password_form" where
  "handleChangePassword f =
     (if pw_pending f \<or> currentPassword f = [] \<or> length (newPassword f) < 8 \<or> confirmPassword f = [] then f
      else if newPassword f \<noteq> confirmPassword f then f\<lparr> passwordError := Some Mismatch \<rparr>
      else if length (newPassword f) < 8 then f\<lparr> passwordError := Some TooShort \<rparr>
      else f\<lparr> passwordError := None, pw_pending := True, pw_sent := pw_sent f @ [(currentPassword f, newPassword f)] \<rparr>)"

definition password_answered :: "string option \<Rightarrow> password_form \<Rightarrow> password_form" where
  "password_answered e f =
     (if \<not> pw_pending f then f
      else (case e of
          None \<Rightarrow> f\<lparr> pw_pending := False, currentPassword := [], newPassword := [], confirmPassword := [],
                    page_success := ''Password changed successfully.'' \<rparr>
        | Some m \<Rightarrow> f\<lparr> pw_pending := False, passwordError := Some (Refused m) \<rparr>))"

datatype password_event = PCurrent string | PNew string | PConfirm string | PSubmit | PAnswered "string option"

fun password_step :: "password_form \<Rightarrow> password_event \<Rightarrow> password_form" where
  "password_step f (PCurrent t) = f\<lparr> currentPassword := t \<rparr>"
| "password_step f (PNew t) = f\<lparr> newPassword := t \<rparr>"
| "password_step f (PConfirm t) = f\<lparr> confirmPassword := t \<rparr>"
| "password_step f PSubmit = handleChangePassword f"
| "password_step f (PAnswered e) = password_answered e f"

section \<open>What the page says of the second factor\<close>

definition mfa_ok :: "mfa_page \<Rightarrow> bool" where
  "mfa_ok s \<longleftrightarrow> (mfaEnabled s \<longrightarrow> server_mfa s) \<and> (isDisabling s \<or> pageState s = Disable \<longrightarrow> mfaEnabled s)
     \<and> (pageState s = Setup \<longrightarrow> \<not> mfaEnabled s \<and> (step (enrolment s) = Success \<longrightarrow> server_mfa s))"

lemma mfa_ok_step: "mfa_ok s \<Longrightarrow> mfa_ok (mfa_step s e)"
  by (cases e) (auto simp: mfa_ok_def mfa_defs)

interpretation second_factor: machine mfa_step mfa_ok
  by unfold_locales (rule mfa_ok_step)

text \<open>During a visit that starts with what the server says, the page never says that the second factor is on
  when it is off.\<close>

theorem on_is_on:
  "if mfaEnabled (run mfa_step es (mfa_mount b b)) then server_mfa (run mfa_step es (mfa_mount b b)) else True"
proof -
  have "mfa_ok (mfa_mount b b)" by (simp add: mfa_ok_def mfa_mount_def)
  then show ?thesis using second_factor.every_run_inv by (simp add: mfa_ok_def)
qed

definition enrolled :: "mfa_event list" where
  "enrolled = [FEnable, FInit True, FCode ''123456'', FVerify, FVerified True]"

text \<open>Left by the button for cancelling instead of the one for continuing, a finished enrolment is shown as
  none: the page says off while the second factor is on.\<close>

lemma finished_enrolment_cancelled:
  "(let s = run mfa_step (enrolled @ [FCancelSetup]) (mfa_mount False False) in server_mfa s \<and> \<not> mfaEnabled s)"
  by (simp add: enrolled_def mfa_mount_def mfa_defs Let_def)

lemma finished_enrolment_continued:
  "(let s = run mfa_step (enrolled @ [FDone]) (mfa_mount False False) in server_mfa s \<and> mfaEnabled s)"
  by (simp add: enrolled_def mfa_mount_def mfa_defs Let_def)

text \<open>The loaded user is never told: on the next visit the page says what held before.\<close>

lemma user_never_told: "user_mfa (run mfa_step es s) = user_mfa s"
proof (induction es arbitrary: s)
  case (Cons e es)
  have "user_mfa (mfa_step s e) = user_mfa s" by (cases e) (simp_all add: mfa_defs)
  then show ?case using Cons.IH by simp
qed simp

lemma disabled_shown_on_next_visit:
  "(let s = mfa_remount (run mfa_step [FDisable, FDisableCode ''123456'', FSubmitDisable, FDisabled True] (mfa_mount True True))
    in mfaEnabled s \<and> \<not> server_mfa s)"
  by (simp add: mfa_mount_def mfa_remount_def mfa_defs Let_def)

text \<open>Six letters pass as a code.\<close>

lemma letters_pass: "verifying (enrolment (run mfa_step [FEnable, FInit True, FCode ''abcdef'', FVerify] (mfa_mount False b)))"
  by (simp add: mfa_mount_def mfa_defs)

section \<open>What is sent for the password\<close>

definition passwords_ok :: "password_form \<Rightarrow> bool" where
  "passwords_ok f \<longleftrightarrow> list_all (\<lambda>(c, n). c \<noteq> [] \<and> 8 \<le> length n) (pw_sent f)
     \<and> passwordError f \<noteq> Some TooShort"

lemma passwords_ok_step: "passwords_ok f \<Longrightarrow> passwords_ok (password_step f e)"
  by (cases e) (auto simp: passwords_ok_def handleChangePassword_def password_answered_def split: option.split)

interpretation passwords: machine password_step passwords_ok
  by unfold_locales (rule passwords_ok_step)

text \<open>In every run each change of the password that is sent has a current password and a new one of eight
  characters or more; the message that it is too short is never shown, since the browser keeps the form.\<close>

theorem sent_passwords_long_enough: "passwords_ok (run password_step es password_start)"
  by (rule passwords.every_run_inv) (simp add: passwords_ok_def password_start_def)

text \<open>The message of an earlier success stays above the error of the next attempt.\<close>

lemma success_beside_error:
  "(let f = run password_step [PCurrent ''old pass'', PNew ''new pass 1'', PConfirm ''new pass 1'', PSubmit, PAnswered None,
       PCurrent ''new pass 1'', PNew ''new pass 2'', PConfirm ''new pass 3'', PSubmit] password_start
    in page_success f \<noteq> [] \<and> passwordError f = Some Mismatch)"
  by (simp add: password_start_def handleChangePassword_def password_answered_def Let_def)

text \<open>A password typed while the change of another runs is emptied by its answer.\<close>

lemma typed_password_emptied: "pw_pending f \<Longrightarrow> newPassword (password_step (password_step f (PNew t)) (PAnswered None)) = []"
  by (simp add: password_answered_def)

end
