(* ===== verification/SharedDocuments.thy ===== *)
theory SharedDocuments
  imports Machines
begin

text \<open>
  Documents shared with people outside: the page behind the link
  (\<open>app/(portal)/portal/documents/shared/[token]/page.tsx\<close>) and the dialog that shares a document
  (\<open>components/portal/share-document-dialog.tsx\<close>).

  Requests are numbered by their place in the list of what was asked; an answer names the request.
\<close>

section \<open>The page behind the link\<close>

datatype share_state = Loading | Ready | Granted | NotFound | LinkExpired | AccessRevoked

record share_page =
  link_token :: string
  view_state :: share_state
  share_info :: "string option"
  share_access :: "string option"
  otp :: string
  errorMessage :: "string option"
  isRequestingCode :: bool
  isVerifying :: bool
  codeSentMessage :: "string option"
  info_asked :: "string list"
  info_open :: "nat list"
  code_asked :: "string list"
  access_asked :: "(string \<times> string) list"

definition share_mount :: "string \<Rightarrow> share_page" where
  "share_mount t = \<lparr> link_token = t, view_state = Loading, share_info = None, share_access = None, otp = [],
     errorMessage = None, isRequestingCode = False, isVerifying = False, codeSentMessage = None,
     info_asked = [t], info_open = [0], code_asked = [], access_asked = [] \<rparr>"

text \<open>The effect asks again when the link changes, and keeps the rest.\<close>

definition link_changes :: "string \<Rightarrow> share_page \<Rightarrow> share_page" where
  "link_changes t p =
     (if t = link_token p then p
      else p\<lparr> link_token := t, info_asked := info_asked p @ [t], info_open := info_open p @ [length (info_asked p)] \<rparr>)"

definition failed_state :: "int option \<Rightarrow> string \<Rightarrow> share_state" where
  "failed_state status detail =
     (if status = Some 410 then (if str_includes ''revok'' (lower detail) then AccessRevoked else LinkExpired)
      else NotFound)"

definition info_answered :: "nat \<Rightarrow> string \<Rightarrow> share_page \<Rightarrow> share_page" where
  "info_answered i file p =
     (if i \<notin> set (info_open p) then p
      else p\<lparr> info_open := remove1 i (info_open p), share_info := Some file, view_state := Ready \<rparr>)"

definition info_refused :: "nat \<Rightarrow> int option \<Rightarrow> string \<Rightarrow> share_page \<Rightarrow> share_page" where
  "info_refused i status detail p =
     (if i \<notin> set (info_open p) then p
      else p\<lparr> info_open := remove1 i (info_open p), view_state := failed_state status detail \<rparr>)"

text \<open>The form is what is left when no other view is drawn.\<close>

definition form_shown :: "share_page \<Rightarrow> bool" where
  "form_shown p \<longleftrightarrow> view_state p = Ready \<or> (view_state p = Granted \<and> share_access p = None)"

definition handleRequestCode :: "share_page \<Rightarrow> share_page" where
  "handleRequestCode p =
     (if \<not> form_shown p \<or> isRequestingCode p then p
      else p\<lparr> codeSentMessage := None, errorMessage := None, isRequestingCode := True, code_asked := code_asked p @ [link_token p] \<rparr>)"

definition code_answered :: "string option \<Rightarrow> share_page \<Rightarrow> share_page" where
  "code_answered r p =
     (if \<not> isRequestingCode p then p
      else (case r of
          Some m \<Rightarrow> p\<lparr> isRequestingCode := False, codeSentMessage := Some m \<rparr>
        | None \<Rightarrow> p\<lparr> isRequestingCode := False,
                    errorMessage := Some ''Failed to send verification code. Please try again.'' \<rparr>))"

definition digit_char :: "char \<Rightarrow> bool" where
  "digit_char c \<longleftrightarrow> 48 \<le> code c \<and> code c \<le> 57"

text \<open>The browser lets at most six characters into the field before the code sees them.\<close>

definition enter_code :: "string \<Rightarrow> share_page \<Rightarrow> share_page" where
  "enter_code t p =
     (if form_shown p \<and> \<not> isVerifying p \<and> length t \<le> 6 then p\<lparr> otp := filter digit_char t \<rparr> else p)"

definition handleVerify :: "share_page \<Rightarrow> share_page" where
  "handleVerify p =
     (if \<not> form_shown p \<or> isVerifying p \<or> length (otp p) \<noteq> 6 then p
      else if trim (otp p) = [] then p
      else p\<lparr> errorMessage := None, isVerifying := True, access_asked := access_asked p @ [(link_token p, trim (otp p))] \<rparr>)"

text \<open>The answer: the address of the document, or the detail of the refusal when there is one.\<close>

definition access_answered :: "string option + string \<Rightarrow> share_page \<Rightarrow> share_page" where
  "access_answered r p =
     (if \<not> isVerifying p then p
      else (case r of
          Inr url \<Rightarrow> p\<lparr> isVerifying := False, share_access := Some url, view_state := Granted \<rparr>
        | Inl detail \<Rightarrow> p\<lparr> isVerifying := False,
            errorMessage := Some (case detail of Some d \<Rightarrow> d | None \<Rightarrow> ''Invalid or expired verification code.'') \<rparr>))"

datatype share_event =
    HLink string
  | HInfo nat string
  | HInfoRefused nat "int option" string
  | HRequest
  | HCodeSent "string option"
  | HCode string
  | HVerify
  | HAccess "string option + string"

fun share_step :: "share_page \<Rightarrow> share_event \<Rightarrow> share_page" where
  "share_step p (HLink t) = link_changes t p"
| "share_step p (HInfo i f) = info_answered i f p"
| "share_step p (HInfoRefused i s d) = info_refused i s d p"
| "share_step p HRequest = handleRequestCode p"
| "share_step p (HCodeSent r) = code_answered r p"
| "share_step p (HCode t) = enter_code t p"
| "share_step p HVerify = handleVerify p"
| "share_step p (HAccess r) = access_answered r p"

lemmas share_defs = link_changes_def info_answered_def info_refused_def handleRequestCode_def code_answered_def
  enter_code_def handleVerify_def access_answered_def form_shown_def

section \<open>The dialog\<close>

record share =
  sh_id :: string
  sh_email :: string
  sh_level :: string
  sh_active :: bool
  sh_expires :: "int option"
  sh_revoked :: bool
  sh_count :: nat

definition isExpired :: "int \<Rightarrow> int option \<Rightarrow> bool" where
  "isExpired now e = (case e of None \<Rightarrow> False | Some t \<Rightarrow> t < now)"

definition activeShares :: "int \<Rightarrow> share list \<Rightarrow> share list" where
  "activeShares now = filter (\<lambda>s. sh_active s \<and> \<not> isExpired now (sh_expires s))"

definition inactiveShares :: "int \<Rightarrow> share list \<Rightarrow> share list" where
  "inactiveShares now = filter (\<lambda>s. \<not> sh_active s \<or> isExpired now (sh_expires s))"

definition share_badge :: "int \<Rightarrow> share \<Rightarrow> string" where
  "share_badge now s = (if isExpired now (sh_expires s) \<and> sh_active s then ''Expired'' else ''Revoked'')"

definition revoke_in :: "string \<Rightarrow> share list \<Rightarrow> share list" where
  "revoke_in i = map (\<lambda>s. if sh_id s = i then s\<lparr> sh_active := False, sh_revoked := True \<rparr> else s)"

definition EXPIRY_OPTIONS :: "string list" where
  "EXPIRY_OPTIONS = [''24'', ''48'', ''72'', ''168'', ''720'']"

record share_dialog =
  dialog_open :: bool
  document :: string
  email :: string
  accessLevel :: string
  expiresHours :: string
  shares :: "share list"
  isSubmitting :: bool
  successMessage :: "string option"
  failed :: bool
  revokingId :: "string option"
  listings :: "string list"
  listing_open :: "nat list"
  share_requests :: "(string \<times> string \<times> string \<times> string) list"
  revocations :: "string list"

definition dialog_mount :: "string \<Rightarrow> share_dialog" where
  "dialog_mount d = \<lparr> dialog_open = False, document = d, email = [], accessLevel = ''view'', expiresHours = ''72'',
     shares = [], isSubmitting = False, successMessage = None, failed = False, revokingId = None,
     listings = [], listing_open = [], share_requests = [], revocations = [] \<rparr>"

text \<open>The effect lists the shares when the dialog opens or is given another document.  The page of the
  documents mounts a new dialog for each document it shares.\<close>

definition dialog_props :: "bool \<Rightarrow> string \<Rightarrow> share_dialog \<Rightarrow> share_dialog" where
  "dialog_props opn d s =
     (let s' = s\<lparr> dialog_open := opn, document := d \<rparr> in
      if opn \<and> (\<not> dialog_open s \<or> document s \<noteq> d)
      then s'\<lparr> listings := listings s @ [d], listing_open := listing_open s @ [length (listings s)] \<rparr> else s')"

definition listed :: "nat \<Rightarrow> share list option \<Rightarrow> share_dialog \<Rightarrow> share_dialog" where
  "listed i r s =
     (if i \<notin> set (listing_open s) then s
      else (case r of Some l \<Rightarrow> s\<lparr> listing_open := remove1 i (listing_open s), shares := l \<rparr>
            | None \<Rightarrow> s\<lparr> listing_open := remove1 i (listing_open s) \<rparr>))"

definition handleShare :: "share_dialog \<Rightarrow> share_dialog" where
  "handleShare s =
     (if \<not> dialog_open s \<or> isSubmitting s \<or> trim (email s) = [] then s
      else s\<lparr> failed := False, successMessage := None, isSubmitting := True,
              share_requests := share_requests s @ [(document s, trim (email s), accessLevel s, expiresHours s)] \<rparr>)"

text \<open>The text of the message names the address as it stood when the form was sent.\<close>

definition share_answered :: "share option \<Rightarrow> share_dialog \<Rightarrow> share_dialog" where
  "share_answered r s =
     (if \<not> isSubmitting s \<or> share_requests s = [] then s
      else (case r of
          Some n \<Rightarrow> s\<lparr> isSubmitting := False, shares := n # shares s,
             successMessage := Some (''Document shared with '' @ fst (snd (last (share_requests s)))
               @ ''. A verification code has been sent to their email.''), email := [] \<rparr>
        | None \<Rightarrow> s\<lparr> isSubmitting := False, failed := True \<rparr>))"

definition handleRevoke :: "string \<Rightarrow> share_dialog \<Rightarrow> share_dialog" where
  "handleRevoke i s = (if revokingId s = Some i then s else s\<lparr> revokingId := Some i, revocations := revocations s @ [i] \<rparr>)"

definition revoke_answered :: "string \<Rightarrow> bool \<Rightarrow> share_dialog \<Rightarrow> share_dialog" where
  "revoke_answered i ok s =
     (if i \<notin> set (revocations s) then s
      else if ok then s\<lparr> revocations := remove1 i (revocations s), shares := revoke_in i (shares s), revokingId := None \<rparr>
      else s\<lparr> revocations := remove1 i (revocations s), revokingId := None \<rparr>)"

section \<open>What is sent\<close>

definition six_digits :: "string \<Rightarrow> bool" where
  "six_digits c \<longleftrightarrow> length c = 6 \<and> list_all digit_char c"

definition access_ok :: "share_page \<Rightarrow> bool" where
  "access_ok p \<longleftrightarrow> list_all (\<lambda>(t, c). six_digits c) (access_asked p) \<and> list_all digit_char (otp p)
     \<and> (share_access p \<noteq> None \<or> isVerifying p \<longrightarrow> access_asked p \<noteq> []) \<and> (view_state p = Granted \<longrightarrow> share_access p \<noteq> None)"

lemma trim_digits: "list_all digit_char c \<Longrightarrow> trim c = c"
proof -
  have s: "list_all digit_char c \<Longrightarrow> trim_start c = c" for c
    by (cases c) (auto simp: trim_start_def digit_char_def is_space_def)
  assume "list_all digit_char c"
  then have "dropWhile is_space c = c" "dropWhile is_space (rev c) = rev c"
    using s [of c] s [of "rev c"] by (simp_all add: trim_start_def)
  then show ?thesis by (simp add: trim_def trim_start_def)
qed

lemma access_ok_step: "access_ok p \<Longrightarrow> access_ok (share_step p e)"
  by (cases e) (auto simp: access_ok_def share_defs trim_digits six_digits_def list_all_iff failed_state_def
      split: option.split sum.split)

interpretation shared: machine share_step access_ok
  by unfold_locales (rule access_ok_step)

text \<open>In every run a document is opened only after a code was sent for it, and each code that is sent has
  six digits.\<close>

theorem opened_by_six_digits: "access_ok (run share_step es (share_mount t))"
  by (rule shared.every_run_inv) (simp add: access_ok_def share_mount_def)

text \<open>A code pasted with a space in the middle is cut by the browser before the spaces are taken out, and
  can then not be sent.\<close>

lemma pasted_code_cut:
  assumes "form_shown p" "\<not> isVerifying p"
  shows "otp (enter_code (take 6 ''123 456'') p) = ''12345''" "handleVerify (enter_code (take 6 ''123 456'') p) = enter_code (take 6 ''123 456'') p"
  using assms by (simp_all add: enter_code_def handleVerify_def digit_char_def code_def)

text \<open>The text of the opened document asks for a new code to view it again; the page offers none.\<close>

lemma opened_offers_no_code:
  assumes "view_state p = Granted" "share_access p \<noteq> None"
  shows "share_step p HRequest = p" "share_step p (HCode t) = p" "share_step p HVerify = p"
  using assms by (auto simp: share_defs)

text \<open>When the link changes, what the old one opened stays until the answer for the new one.\<close>

lemma old_document_stays:
  assumes "view_state p = Granted"
  shows "view_state (share_step p (HLink t)) = Granted" "share_access (share_step p (HLink t)) = share_access p"
  using assms by (simp_all add: link_changes_def)

lemma old_answer_shown:
  assumes "info_open p = [0, 1]" "link_token p = t2"
  shows "share_info (run share_step [HInfo 1 f2, HInfo 0 f1] p) = Some f1"
  using assms by (simp add: info_answered_def)

section \<open>Sharing and revoking\<close>

text \<open>Revoking a share takes it from the active ones at whatever time, and no other.\<close>

theorem revoked_not_active:
  "activeShares now (revoke_in i l) = filter (\<lambda>s. sh_id s \<noteq> i) (activeShares now l)
   \<and> map sh_id (activeShares now (revoke_in i l)) = filter (\<lambda>k. k \<noteq> i) (map sh_id (activeShares now l))
   \<and> length (activeShares now l) + length (inactiveShares now l) = length l"
proof -
  have "activeShares now (revoke_in i l) = filter (\<lambda>s. sh_id s \<noteq> i) (activeShares now l)"
    by (induction l) (auto simp: activeShares_def revoke_in_def)
  moreover have "length (activeShares now l) + length (inactiveShares now l) = length l"
    by (induction l) (auto simp: activeShares_def inactiveShares_def)
  ultimately show ?thesis by (simp add: filter_map comp_def)
qed

lemma badge_of_revoked: "list_all (\<lambda>s. sh_id s = i \<longrightarrow> share_badge now s = ''Revoked'') (revoke_in i l)"
  by (induction l) (simp_all add: revoke_in_def share_badge_def)

text \<open>The list that was asked for when the dialog opened, answered after a document was shared, takes the
  new share from view.\<close>

lemma late_list_drops_new_share:
  assumes "0 \<in> set (listing_open s)" "isSubmitting s" "share_requests s \<noteq> []"
  shows "shares (listed 0 (Some l) (share_answered (Some n) s)) = l"
  using assms by (simp add: share_answered_def listed_def)

text \<open>Revoking a second share frees the button of the first while its request still runs.\<close>

lemma second_revocation_frees_first:
  assumes "i \<noteq> j" "revokingId s = None"
  defines "s' \<equiv> handleRevoke j (handleRevoke i s)"
  shows "i \<in> set (revocations s') \<and> revokingId s' \<noteq> Some i"
  using assms unfolding handleRevoke_def by simp

lemma shared_named_in_message:
  assumes "dialog_open s" "\<not> isSubmitting s" "trim (email s) \<noteq> []"
  shows "share_requests (handleShare s) = share_requests s @ [(document s, trim (email s), accessLevel s, expiresHours s)]"
    "successMessage (share_answered (Some n) (handleShare s))
       = Some (''Document shared with '' @ trim (email s) @ ''. A verification code has been sent to their email.'')"
  using assms by (simp_all add: handleShare_def share_answered_def)

end
