(* ===== verification/Pipeline.thy ===== *)
theory Pipeline
  imports Machines "HOL-Library.Multiset"
begin

text \<open>
  The pipeline of opportunities (\<open>app/(dashboard)/crm/pipeline/page.tsx\<close>, \<open>components/crm/pipeline-column.tsx\<close>,
  \<open>components/crm/opportunity-dialog.tsx\<close>, \<open>useReorderOpportunity\<close> of \<open>hooks/use-crm.ts\<close>): the columns,
  what a drag asks for, and the dialog.

  Where a card lands is decided by the server: \<open>server_reorder\<close> is \<open>reorder\<close> of
  \<open>app/services/opportunity_service.py\<close>.  Amounts are whole numbers here, dates texts.
\<close>

section \<open>The board\<close>

datatype stage = Qualifying | Proposal | Negotiation | Won | Lost

fun stage_text :: "stage \<Rightarrow> string" where
  "stage_text Qualifying = ''qualifying''"
| "stage_text Proposal = ''proposal''"
| "stage_text Negotiation = ''negotiation''"
| "stage_text Won = ''won''"
| "stage_text Lost = ''lost''"

definition OPPORTUNITY_STAGES :: "stage list" where
  "OPPORTUNITY_STAGES = [Qualifying, Proposal, Negotiation, Won, Lost]"

record opportunity =
  op_id :: string
  op_title :: string
  op_stage :: stage
  op_position :: nat
  op_value :: "int option"
  op_probability :: nat
  op_description :: "string option"
  op_next_step :: "string option"

definition grouped :: "stage \<Rightarrow> opportunity list \<Rightarrow> opportunity list" where
  "grouped s l = sort_key op_position (filter (\<lambda>x. op_stage x = s) l)"

definition totals :: "stage \<Rightarrow> opportunity list \<Rightarrow> int" where
  "totals s l = foldl (\<lambda>acc x. acc + (case op_value x of None \<Rightarrow> 0 | Some v \<Rightarrow> v)) 0 (grouped s l)"

definition opp_with :: "string \<Rightarrow> opportunity list \<Rightarrow> opportunity option" where
  "opp_with i l = List.find (\<lambda>x. op_id x = i) l"

record move =
  mv_id :: string
  new_stage :: stage
  after_opportunity_id :: "string option"

text \<open>The end of a drag over \<open>over\<close>: a column, a card, or nothing.\<close>

definition stage_with :: "string \<Rightarrow> stage option" where
  "stage_with t = List.find (\<lambda>s. stage_text s = t) OPPORTUNITY_STAGES"

definition handleDragEnd :: "opportunity list \<Rightarrow> string \<Rightarrow> string option \<Rightarrow> move option" where
  "handleDragEnd l active over =
     (case over of None \<Rightarrow> None
      | Some ov \<Rightarrow>
          (case opp_with active l of None \<Rightarrow> None
           | Some x \<Rightarrow>
               (case stage_with ov of
                  Some s \<Rightarrow> if op_stage x \<noteq> s
                            then Some \<lparr> mv_id = active, new_stage = s, after_opportunity_id = None \<rparr> else None
                | None \<Rightarrow>
                    (case opp_with ov l of
                       Some y \<Rightarrow> if active \<noteq> op_id y
                                 then Some \<lparr> mv_id = active, new_stage = op_stage y, after_opportunity_id = Some ov \<rparr>
                                 else None
                     | None \<Rightarrow> None))))"

section \<open>The server\<close>

definition new_position :: "stage \<Rightarrow> string option \<Rightarrow> opportunity list \<Rightarrow> nat" where
  "new_position s aft l =
     (case aft of None \<Rightarrow> 0
      | Some a \<Rightarrow> (case opp_with a l of None \<Rightarrow> 0
                   | Some y \<Rightarrow> if op_stage y = s then op_position y + 1 else 0))"

definition dest_items :: "string \<Rightarrow> stage \<Rightarrow> opportunity list \<Rightarrow> opportunity list" where
  "dest_items i s l = sort_key op_position (filter (\<lambda>x. op_stage x = s \<and> op_id x \<noteq> i) l)"

definition place_of :: "string \<Rightarrow> opportunity list \<Rightarrow> nat" where
  "place_of k l = length (takeWhile (\<lambda>x. op_id x \<noteq> k) l)"

definition target :: "nat \<Rightarrow> nat \<Rightarrow> nat" where
  "target p k = (if k < p then k else k + 1)"

definition moved :: "nat \<Rightarrow> stage \<Rightarrow> opportunity \<Rightarrow> opportunity" where
  "moved p s x =
     x\<lparr> op_stage := s, op_position := p,
        op_probability := (if op_stage x = s then op_probability x else if s = Won then 100
                           else if s = Lost then 0 else op_probability x) \<rparr>"

definition server_reorder :: "move \<Rightarrow> opportunity list \<Rightarrow> opportunity list" where
  "server_reorder m l =
     (case opp_with (mv_id m) l of None \<Rightarrow> l
      | Some _ \<Rightarrow>
          (let s = new_stage m; p = new_position s (after_opportunity_id m) l; d = dest_items (mv_id m) s l in
           map (\<lambda>x. if op_id x = mv_id m then moved p s x
                    else if op_stage x = s then x\<lparr> op_position := target p (place_of (op_id x) d) \<rparr> else x) l))"

section \<open>The page\<close>

text \<open>\<open>moves\<close> are on their way; a move that was answered, a creation and a deletion have the list fetched
  again, an edit does not.\<close>

record pipeline =
  board :: "opportunity list"
  stored_opps :: "opportunity list"
  moves :: "move list"
  refetch :: bool
  pendingDeleteId :: "string option"

definition pipeline_start :: "opportunity list \<Rightarrow> pipeline" where
  "pipeline_start l = \<lparr> board = l, stored_opps = l, moves = [], refetch = False, pendingDeleteId = None \<rparr>"

datatype pipeline_event =
    PDragged string "string option"
  | PMoved bool
  | PFetched
  | PEdited opportunity
  | PCreated opportunity
  | PAskDelete string
  | PKeep
  | PDelete

fun pipeline_step :: "pipeline \<Rightarrow> pipeline_event \<Rightarrow> pipeline" where
  "pipeline_step s (PDragged a ov) =
     (case handleDragEnd (board s) a ov of None \<Rightarrow> s | Some m \<Rightarrow> s\<lparr> moves := moves s @ [m] \<rparr>)"
| "pipeline_step s (PMoved ok) =
     (case moves s of [] \<Rightarrow> s
      | m # ms \<Rightarrow> s\<lparr> moves := ms, refetch := True,
                     stored_opps := (if ok then server_reorder m (stored_opps s) else stored_opps s) \<rparr>)"
| "pipeline_step s PFetched = (if refetch s then s\<lparr> board := stored_opps s, refetch := False \<rparr> else s)"
| "pipeline_step s (PEdited x) = s\<lparr> stored_opps := map (\<lambda>y. if op_id y = op_id x then x else y) (stored_opps s) \<rparr>"
| "pipeline_step s (PCreated x) = s\<lparr> stored_opps := stored_opps s @ [x], refetch := True \<rparr>"
| "pipeline_step s (PAskDelete i) = s\<lparr> pendingDeleteId := Some i \<rparr>"
| "pipeline_step s PKeep = s\<lparr> pendingDeleteId := None \<rparr>"
| "pipeline_step s PDelete =
     (case pendingDeleteId s of None \<Rightarrow> s
      | Some i \<Rightarrow> s\<lparr> stored_opps := filter (\<lambda>x. op_id x \<noteq> i) (stored_opps s), refetch := True, pendingDeleteId := None \<rparr>)"

section \<open>The dialog\<close>

text \<open>The number typed as probability has at most three digits.\<close>

record opp_form =
  of_title :: string
  of_description :: string
  of_stage :: stage
  of_value :: "int option"
  of_probability :: nat
  of_next_step :: string

definition form_of_opp :: "stage \<Rightarrow> opportunity option \<Rightarrow> opp_form" where
  "form_of_opp defaultStage r =
     (case r of
        Some x \<Rightarrow> \<lparr> of_title = op_title x, of_description = (case op_description x of None \<Rightarrow> [] | Some d \<Rightarrow> d),
           of_stage = op_stage x, of_value = op_value x, of_probability = op_probability x,
           of_next_step = (case op_next_step x of None \<Rightarrow> [] | Some d \<Rightarrow> d) \<rparr>
      | None \<Rightarrow> \<lparr> of_title = [], of_description = [], of_stage = defaultStage, of_value = None,
           of_probability = 50, of_next_step = [] \<rparr>)"

record opp_payload =
  pl_title :: string
  pl_description :: "string option"
  pl_stage :: stage
  pl_value :: "int option"
  pl_probability :: nat
  pl_next_step :: "string option"

definition or_null :: "string \<Rightarrow> string option" where
  "or_null t = (if t = [] then None else Some t)"

definition opp_valid :: "opp_form \<Rightarrow> bool" where
  "opp_valid f \<longleftrightarrow> 1 \<le> length (of_title f) \<and> length (of_title f) \<le> 255 \<and> length (of_description f) \<le> 5000
     \<and> of_probability f < 1000 \<and> length (of_next_step f) \<le> 500"

definition opp_payload_of :: "opp_form \<Rightarrow> opp_payload option" where
  "opp_payload_of f =
     (if opp_valid f then
        Some \<lparr> pl_title = of_title f, pl_description = or_null (of_description f), pl_stage = of_stage f,
               pl_value = of_value f, pl_probability = min 100 (of_probability f), pl_next_step = or_null (of_next_step f) \<rparr>
      else None)"

section \<open>Where a card lands\<close>

lemma place_nth: "distinct (map op_id d) \<Longrightarrow> k < length d \<Longrightarrow> place_of (op_id (d ! k)) d = k"
proof (induction d arbitrary: k)
  case (Cons x d)
  then show ?case by (cases k) (auto simp: place_of_def)
qed simp

lemma targets:
  "map (target p) (take p [0..<n]) @ p # map (target p) (drop p [0..<n]) = [0..<min p n] @ p # [Suc p..<Suc n]"
proof -
  have t: "take p [0..<n] = [0..<min p n]" by (simp add: take_upt min_def)
  have "map (target p) [0..<min p n] = [0..<min p n]" by (rule map_idI) (simp add: target_def)
  moreover have "map (target p) [p..<n] = map Suc [p..<n]" by (rule map_cong) (simp_all add: target_def)
  ultimately show ?thesis using t by (simp add: map_Suc_upt)
qed

lemma targets_sorted: "sorted_wrt (<) ([0..<min p n] @ p # [Suc p..<Suc n])"
  by (simp add: sorted_wrt_append sorted_wrt_upt)

lemma opp_with_Some:
  assumes "distinct (map op_id l)"
  shows "opp_with i l = Some x \<longleftrightarrow> x \<in> set l \<and> op_id x = i"
  using assms
proof (induction l)
  case (Cons y l)
  then show ?case by (auto simp: opp_with_def)
qed (simp add: opp_with_def)

definition rest :: "string \<Rightarrow> stage \<Rightarrow> opportunity list \<Rightarrow> string list" where
  "rest i s l = filter (\<lambda>k. k \<noteq> i) (map op_id (grouped s l))"

lemma dest_of_grouped: "dest_items i s l = filter (\<lambda>x. op_id x \<noteq> i) (grouped s l)"
  by (simp add: dest_items_def grouped_def filter_sort)

lemma rest_dest: "rest i s l = map op_id (dest_items i s l)"
  by (simp add: rest_def dest_of_grouped filter_map comp_def)

lemma mset_one:
  assumes "distinct (map op_id l)" "x \<in> set l" "op_id x = i"
  shows "mset (filter (\<lambda>y. op_id y = i \<or> op_stage y = s) l) = add_mset x (mset (filter (\<lambda>y. op_stage y = s \<and> op_id y \<noteq> i) l))"
  using assms
proof (induction l)
  case (Cons y l)
  show ?case
  proof (cases "y = x")
    case True
    then have "\<forall>z \<in> set l. op_id z \<noteq> i" using Cons.prems by (auto simp: image_iff)
    then have "filter (\<lambda>z. op_id z = i \<or> op_stage z = s) l = filter (\<lambda>z. op_stage z = s \<and> op_id z \<noteq> i) l"
      by (intro filter_cong) auto
    then show ?thesis using True Cons.prems(3) by simp
  next
    case False
    then have "op_id y \<noteq> i" using Cons.prems by auto
    then show ?thesis using Cons False by auto
  qed
qed simp

text \<open>A move puts the card at its new place among the others of the column, counted from the top.\<close>

lemma reorder_places:
  fixes s :: stage and aft :: "string option"
  assumes d: "distinct (map op_id l)" and x: "opp_with i l = Some x"
  defines "p \<equiv> new_position s aft l"
  shows "map op_id (grouped s (server_reorder \<lparr> mv_id = i, new_stage = s, after_opportunity_id = aft \<rparr> l))
     = take p (rest i s l) @ i # drop p (rest i s l)"
proof -
  let ?D = "dest_items i s l"
  define f where "f = (\<lambda>y. if op_id y = i then moved p s y
      else if op_stage y = s then y\<lparr> op_position := target p (place_of (op_id y) ?D) \<rparr> else y)"
  have r: "server_reorder \<lparr> mv_id = i, new_stage = s, after_opportunity_id = aft \<rparr> l = map f l"
    using x by (simp add: server_reorder_def f_def p_def Let_def)
  have xl: "x \<in> set l" "op_id x = i" using opp_with_Some [OF d] x by auto
  have id: "op_id (f y) = op_id y" for y by (simp add: f_def moved_def)
  have st: "op_stage (f y) = s \<longleftrightarrow> op_id y = i \<or> op_stage y = s" for y by (simp add: f_def moved_def)
  have D: "distinct (map op_id ?D)" "\<forall>y \<in> set ?D. op_id y \<noteq> i \<and> op_stage y = s"
    using d by (auto simp: dest_items_def distinct_map inj_on_def intro: distinct_filter)
  let ?X = "map f (take p ?D) @ f x # map f (drop p ?D)"
  have m: "mset (filter (\<lambda>y. op_stage y = s) (map f l)) = mset ?X"
  proof -
    have "mset (filter (\<lambda>y. op_stage y = s) (map f l)) = image_mset f (mset (filter (\<lambda>y. op_id y = i \<or> op_stage y = s) l))"
      by (simp add: filter_map comp_def st)
    also have "\<dots> = add_mset (f x) (image_mset f (mset ?D))"
      using mset_one [OF d xl] by (simp add: dest_items_def)
    also have "mset ?D = mset (take p ?D) + mset (drop p ?D)" by (metis append_take_drop_id mset_append)
    finally show ?thesis by simp
  qed
  have "map (op_position \<circ> f) ?D = map (target p) [0..<length ?D]"
    using D place_nth [OF D(1)] by (intro nth_equalityI) (auto simp: f_def)
  then have "map (op_position \<circ> f) (take p ?D) = map (target p) (take p [0..<length ?D])"
      "map (op_position \<circ> f) (drop p ?D) = map (target p) (drop p [0..<length ?D])"
    by (metis take_map, metis drop_map)
  moreover have "op_position (f x) = p" using xl by (simp add: f_def moved_def)
  ultimately have "map op_position ?X = map (target p) (take p [0..<length ?D]) @ p # map (target p) (drop p [0..<length ?D])"
    by (simp only: map_append list.map map_map)
  then have so: "sorted_wrt (<) (map op_position ?X)" using targets targets_sorted by metis
  have "set (filter (\<lambda>y. op_stage y = s) (map f l)) = set ?X" using m by (rule mset_eq_setD)
  moreover have "inj_on op_position (set ?X)" using so unfolding strict_sorted_iff distinct_map by blast
  ultimately have "inj_on op_position (set (filter (\<lambda>y. op_stage y = s) (map f l)))" by (simp only:)
  then have "sort_key op_position (filter (\<lambda>y. op_stage y = s) (map f l)) = ?X"
    by (rule sort_key_inj_key_eq [OF m]) (use so in \<open>simp only: strict_sorted_iff\<close>)
  then have "map op_id (grouped s (map f l)) = map op_id ?X" by (simp only: grouped_def)
  also have "\<dots> = take p (rest i s l) @ i # drop p (rest i s l)"
    using xl by (simp add: rest_dest id comp_def take_map drop_map)
  finally show ?thesis by (simp add: r)
qed

section \<open>Dropping on a card\<close>

definition insert_after :: "string \<Rightarrow> string \<Rightarrow> string list \<Rightarrow> string list" where
  "insert_after a i ks = takeWhile (\<lambda>k. k \<noteq> a) ks @ a # i # tl (dropWhile (\<lambda>k. k \<noteq> a) ks)"

definition column_ok :: "stage \<Rightarrow> opportunity list \<Rightarrow> bool" where
  "column_ok s l \<longleftrightarrow> map op_position (grouped s l) = [0..<length (grouped s l)]"

lemma insert_after_nth:
  assumes "distinct ks" "j < length ks" "ks ! j = a"
  shows "insert_after a i ks = take (Suc j) ks @ i # drop (Suc j) ks"
proof -
  have "takeWhile (\<lambda>k. k \<noteq> a) ks = take j ks"
    using assms by (intro takeWhile_eq_take_P_nth) (auto simp: nth_eq_iff_index_eq)
  moreover from this have "dropWhile (\<lambda>k. k \<noteq> a) ks = drop j ks"
    by (metis append_take_drop_id assms(2) dropWhile_eq_drop length_take less_imp_le_nat min.absorb4)
  ultimately show ?thesis
    using assms by (simp add: insert_after_def take_Suc_conv_app_nth tl_drop drop_Suc)
qed

lemma insert_twice:
  assumes "i \<notin> set ks"
  shows "take j ks @ i # drop j ks = take (Suc j) ks @ i # drop (Suc j) ks \<longleftrightarrow> length ks \<le> j"
proof
  assume e: "take j ks @ i # drop j ks = take (Suc j) ks @ i # drop (Suc j) ks"
  show "length ks \<le> j"
  proof (rule ccontr)
    assume "\<not> length ks \<le> j"
    then have j: "j < length ks" by simp
    then have "(take j ks @ i # drop j ks) ! j = i" by (simp add: nth_append)
    moreover have "(take (Suc j) ks @ i # drop (Suc j) ks) ! j = ks ! j" using j by (simp add: nth_append)
    ultimately have "i = ks ! j" using e by simp
    then show False using assms j nth_mem by metis
  qed
qed simp

lemma in_column:
  assumes "column_ok s l" "y \<in> set (grouped s l)"
  shows "op_position y < length (grouped s l)" "grouped s l ! op_position y = y"
proof -
  obtain k where k: "k < length (grouped s l)" "grouped s l ! k = y" using assms(2) by (metis in_set_conv_nth)
  have "map op_position (grouped s l) ! k = [0..<length (grouped s l)] ! k" using assms(1) by (simp add: column_ok_def)
  then have "op_position y = k" using k by simp
  then show "op_position y < length (grouped s l)" "grouped s l ! op_position y = y" using k by simp_all
qed

lemma filter_out_nth:
  assumes "distinct ks" "m < length ks" "j < length ks" "m \<noteq> j"
  defines "r \<equiv> filter (\<lambda>k. k \<noteq> ks ! m) ks"
  shows "length r = length ks - 1" "r ! (if m < j then j - 1 else j) = ks ! j" "(if m < j then j - 1 else j) < length r"
proof -
  have ks: "ks = take m ks @ ks ! m # drop (Suc m) ks" using assms(2) by (rule id_take_nth_drop)
  have "ks ! m \<notin> set (take m ks)" "ks ! m \<notin> set (drop (Suc m) ks)"
    using assms(1) ks by (metis distinct_append not_distinct_conv_prefix, metis distinct.simps(2) distinct_append)
  then have "filter (\<lambda>k. k \<noteq> ks ! m) (take m ks) = take m ks" "filter (\<lambda>k. k \<noteq> ks ! m) (drop (Suc m) ks) = drop (Suc m) ks"
    unfolding filter_id_conv by metis+
  then have "filter (\<lambda>k. k \<noteq> ks ! m) (take m ks @ ks ! m # drop (Suc m) ks) = take m ks @ drop (Suc m) ks"
    by simp
  then have r: "r = take m ks @ drop (Suc m) ks" using ks by (simp add: r_def)
  show "length r = length ks - 1" using r assms(2) by simp
  show "r ! (if m < j then j - 1 else j) = ks ! j" using r assms(2-4) by (auto simp: nth_append)
  show "(if m < j then j - 1 else j) < length r" using r assms(2-4) by auto
qed





text \<open>In a column whose stored positions are 0, 1, 2 and so on (as they are after a move within it) this
  comes to: right after the other card, unless it came from above it in the same column; then it comes
  one place further down, after the card that followed.\<close>

lemma dropped_in_gapless_column:
  assumes d: "distinct (map op_id l)" and m: "handleDragEnd l i (Some a) = Some m" and aft: "after_opportunity_id m = Some a"
    and x: "opp_with i l = Some x" and y: "opp_with a l = Some y" and c: "column_ok (op_stage y) l"
  shows "map op_id (grouped (op_stage y) (server_reorder m l)) = insert_after a i (rest i (op_stage y) l)
    \<longleftrightarrow> \<not> (op_stage x = op_stage y \<and> op_position x < op_position y \<and> Suc (op_position y) < length (grouped (op_stage y) l))"
proof -
  let ?s = "op_stage y" and ?j = "op_position y"
  let ?ks = "map op_id (grouped ?s l)" and ?r = "rest i ?s l"
  have m': "m = \<lparr> mv_id = i, new_stage = ?s, after_opportunity_id = Some a \<rparr>"
    using m aft x y opp_with_Some [OF d, of a y] by (auto simp: handleDragEnd_def split: option.splits if_splits)
  have ia: "i \<noteq> a" using m aft y opp_with_Some [OF d, of a y] by (auto simp: handleDragEnd_def split: option.splits if_splits)
  have p: "new_position ?s (Some a) l = Suc ?j" using y by (simp add: new_position_def)
  have new: "map op_id (grouped ?s (server_reorder m l)) = take (Suc ?j) ?r @ i # drop (Suc ?j) ?r"
    using reorder_places [OF d x, of ?s "Some a"] by (simp add: m' p)
  have yl: "y \<in> set l" "op_id y = a" and xl: "x \<in> set l" "op_id x = i" using opp_with_Some [OF d] x y by auto
  have yg: "y \<in> set (grouped ?s l)" using yl by (simp add: grouped_def)
  have j: "?j < length ?ks" "?ks ! ?j = a" using in_column [OF c yg] yl by simp_all
  have dk: "distinct ?ks" using d by (auto simp: grouped_def distinct_map inj_on_def intro: distinct_filter)
  have r: "?r = filter (\<lambda>k. k \<noteq> i) ?ks" by (simp add: rest_def)
  have dr: "distinct ?r" "i \<notin> set ?r" using dk by (simp_all add: r)
  show ?thesis
  proof (cases "op_stage x = ?s")
    case False
    have "i \<notin> set ?ks" using xl opp_with_Some [OF d] False d
      by (auto simp: grouped_def distinct_map inj_on_def)
    then have "?r = ?ks" unfolding r filter_id_conv by metis
    then show ?thesis using insert_after_nth [OF dk j] new False by simp
  next
    case True
    then have xg: "x \<in> set (grouped ?s l)" using xl by (simp add: grouped_def)
    let ?m = "op_position x"
    have k: "?m < length ?ks" "?ks ! ?m = i" using in_column [OF c xg] xl by simp_all
    have mj: "?m \<noteq> ?j" using k j ia by auto
    note f = filter_out_nth [OF dk k(1) j(1) mj, unfolded k(2) r [symmetric] j(2)]
    note ins = insert_after_nth [OF dr(1) f(3,2), of i]
    show ?thesis
    proof (cases "?m < ?j")
      case above: True
      then have "insert_after a i ?r = take ?j ?r @ i # drop ?j ?r" using ins by simp
      then show ?thesis using insert_twice [OF dr(2), of ?j] f(1) new True above j(1) by auto
    next
      case False
      then show ?thesis using ins new True by simp
    qed
  qed
qed

definition card :: "string \<Rightarrow> stage \<Rightarrow> nat \<Rightarrow> opportunity" where
  "card i s p = \<lparr> op_id = i, op_title = i, op_stage = s, op_position = p, op_value = None, op_probability = 50,
     op_description = None, op_next_step = None \<rparr>"

definition three_cards :: "opportunity list" where
  "three_cards = [card ''a'' Proposal 0, card ''b'' Proposal 1, card ''c'' Proposal 2]"

lemmas board_defs = handleDragEnd_def opp_with_def stage_with_def OPPORTUNITY_STAGES_def card_def three_cards_def


text \<open>A move to another column leaves a gap behind, and then a card of a third column that is dropped
  on the first of the two cards left comes after the second.\<close>

lemma gap_after_move:
  "map op_position (grouped Proposal (server_reorder
      \<lparr> mv_id = ''a'', new_stage = Won, after_opportunity_id = None \<rparr> three_cards)) = [1, 2]"
  "map op_id (grouped Proposal (server_reorder \<lparr> mv_id = ''d'', new_stage = Proposal, after_opportunity_id = Some ''b'' \<rparr>
      [card ''d'' Lost 0, card ''b'' Proposal 1, card ''c'' Proposal 2])) = [''b'', ''c'', ''d'']"
  by (simp_all add: server_reorder_def new_position_def dest_items_def grouped_def place_of_def target_def moved_def
      board_defs Let_def)

text \<open>What the three cards become: the first, dropped on the second, is last.\<close>

lemma one_place_too_far:
  "map op_id (grouped Proposal (server_reorder \<lparr> mv_id = ''a'', new_stage = Proposal, after_opportunity_id = Some ''b'' \<rparr> three_cards))
   = [''b'', ''c'', ''a'']"
proof -
  have x: "opp_with ''a'' three_cards = Some (card ''a'' Proposal 0)" by (simp add: board_defs)
  have "distinct (map op_id three_cards)" by (simp add: three_cards_def card_def)
  from reorder_places [OF this x, of Proposal "Some ''b''"]
  show ?thesis by (simp add: new_position_def rest_def grouped_def board_defs)
qed

text \<open>A card comes to the top of a column exactly when it was dropped on the column, from another one: no
  drag puts a card on top of its own column.\<close>

lemma top_only_from_other_column:
  assumes d: "distinct (map op_id l)" and m: "handleDragEnd l i over = Some m" and x: "opp_with i l = Some x"
  shows "hd (map op_id (grouped (new_stage m) (server_reorder m l))) = i \<longleftrightarrow> after_opportunity_id m = None"
    and "after_opportunity_id m = None \<Longrightarrow> op_stage x \<noteq> new_stage m"
proof -
  have i: "m = \<lparr> mv_id = i, new_stage = new_stage m, after_opportunity_id = after_opportunity_id m \<rparr>"
    using m by (auto simp: handleDragEnd_def split: option.splits if_splits)
  note new = reorder_places [OF d x, of "new_stage m" "after_opportunity_id m", folded i]
  show "hd (map op_id (grouped (new_stage m) (server_reorder m l))) = i \<longleftrightarrow> after_opportunity_id m = None"
  proof (cases "after_opportunity_id m")
    case None
    then show ?thesis using new by (simp add: new_position_def)
  next
    case (Some a)
    then obtain y where y: "opp_with a l = Some y" "op_stage y = new_stage m" "i \<noteq> a"
      using m opp_with_Some [OF d, of a] by (auto simp: handleDragEnd_def split: option.splits if_splits)
    let ?r = "rest i (new_stage m) l"
    have "y \<in> set l" "op_id y = a" using opp_with_Some [OF d] y(1) by auto
    then have "a \<in> set ?r" using y by (auto simp: rest_def grouped_def)
    then have "?r \<noteq> []" by auto
    moreover have "hd ?r \<noteq> i"
    proof -
      have "hd ?r \<in> set ?r" using \<open>?r \<noteq> []\<close> by (rule hd_in_set)
      then show ?thesis by (auto simp: rest_def)
    qed
    ultimately have "hd (take (Suc (op_position y)) ?r @ i # drop (Suc (op_position y)) ?r) \<noteq> i"
      by (cases ?r) auto
    then show ?thesis using new y Some by (simp add: new_position_def)
  qed
  show "op_stage x \<noteq> new_stage m" if "after_opportunity_id m = None"
    using m x that by (auto simp: handleDragEnd_def split: option.splits if_splits)
qed

section \<open>The board and the store\<close>

text \<open>The values of the columns add up to the value of all cards.\<close>

lemma totals_sum: "totals s l = sum_list (map (\<lambda>x. case op_value x of None \<Rightarrow> 0 | Some v \<Rightarrow> v) (filter (\<lambda>x. op_stage x = s) l))"
proof -
  have f: "foldl (\<lambda>acc x. acc + g x) b l = b + sum_list (map g l)" for g :: "opportunity \<Rightarrow> int" and b l
    by (induction l arbitrary: b) simp_all
  have "mset (map g (sort_key op_position k)) = mset (map g k)" for g :: "opportunity \<Rightarrow> int" and k by simp
  then have "sum_list (map g (sort_key op_position k)) = sum_list (map g k)" for g :: "opportunity \<Rightarrow> int" and k
    by (metis sum_mset_sum_list)
  then show ?thesis by (simp add: totals_def grouped_def f)
qed

lemma totals_add_up:
  "sum_list (map (\<lambda>s. totals s l) OPPORTUNITY_STAGES) = sum_list (map (\<lambda>x. case op_value x of None \<Rightarrow> 0 | Some v \<Rightarrow> v) l)"
proof (induction l)
  case (Cons x l)
  then show ?case by (cases "op_stage x") (simp_all add: OPPORTUNITY_STAGES_def totals_sum)
qed (simp add: OPPORTUNITY_STAGES_def totals_sum)

text \<open>An edit is stored, and the board goes on showing the old card.\<close>

lemma edit_not_shown: "\<not> refetch s \<Longrightarrow> board (run pipeline_step [PEdited x, PFetched] s) = board s"
  by simp

lemma answered_move_shown:
  "moves s = [m] \<Longrightarrow> board (run pipeline_step [PMoved True, PFetched] s) = server_reorder m (stored_opps s)"
  by simp

text \<open>Saving an opportunity that was opened and not changed sends what is stored, unless the form refuses it
  or a text is stored empty.\<close>

theorem unchanged_opportunity_kept:
  "opp_payload_of (form_of_opp s (Some x))
     = Some \<lparr> pl_title = op_title x, pl_description = op_description x, pl_stage = op_stage x, pl_value = op_value x,
              pl_probability = op_probability x, pl_next_step = op_next_step x \<rparr>
   \<longleftrightarrow> opp_valid (form_of_opp s (Some x)) \<and> op_description x \<noteq> Some [] \<and> op_next_step x \<noteq> Some [] \<and> op_probability x \<le> 100"
  by (auto simp: opp_payload_of_def form_of_opp_def or_null_def min_def split: option.splits)

end
