(* ===== verification/Surveys.thy ===== *)
theory Surveys
  imports Machines
begin

text \<open>
  The surveys of the portal: the pulse popup (\<open>components/portal/pulse-survey-popup.tsx\<close>, with
  \<open>hooks/use-pulse-surveys.ts\<close>) and the page of the quarterly survey (\<open>app/(portal)/portal/survey/page.tsx\<close>).

  The pulse popup keeps its state while a survey is there and nobody has dismissed it; it is not told which
  survey it belongs to.  A query that is fetched is an event with its answer.
\<close>

section \<open>The pulse popup\<close>

datatype response_type = Emoji | Stars | YesNo | Thumbs

fun options_of :: "response_type \<Rightarrow> string list" where
  "options_of Emoji = [''happy'', ''neutral'', ''sad'']"
| "options_of Stars = [''1'', ''2'', ''3'', ''4'', ''5'']"
| "options_of YesNo = [''yes'', ''no'']"
| "options_of Thumbs = [''up'', ''down'']"

record pulse_survey =
  ps_id :: string
  ps_type :: response_type
  ps_comment :: bool

record pulse_answer =
  pa_survey :: pulse_survey
  pa_value :: string
  pa_comment :: "string option"

record pulse =
  active_survey :: "pulse_survey option"
  dismissed :: bool
  selected :: "string option"
  comment :: string
  submitted :: bool
  pulse_pending :: bool
  pulse_sent :: "pulse_answer list"

definition pulse_start :: pulse where
  "pulse_start = \<lparr> active_survey = None, dismissed = False, selected = None, comment = [], submitted = False,
     pulse_pending = False, pulse_sent = [] \<rparr>"

definition popup_shown :: "pulse \<Rightarrow> bool" where
  "popup_shown s \<longleftrightarrow> active_survey s \<noteq> None \<and> \<not> dismissed s"

text \<open>A popup that goes takes its state with it.\<close>

definition survey_fetched :: "pulse_survey option \<Rightarrow> pulse \<Rightarrow> pulse" where
  "survey_fetched x s =
     (let s' = s\<lparr> active_survey := x \<rparr> in
      if x = None \<or> active_survey s = None
      then s'\<lparr> selected := None, comment := [], submitted := False, pulse_pending := False \<rparr> else s')"

definition onDismiss :: "pulse \<Rightarrow> pulse" where
  "onDismiss s = (if popup_shown s then s\<lparr> dismissed := True, selected := None, comment := [], submitted := False,
     pulse_pending := False \<rparr> else s)"

definition onSelect :: "string \<Rightarrow> pulse \<Rightarrow> pulse" where
  "onSelect v s =
     (case active_survey s of None \<Rightarrow> s
      | Some p \<Rightarrow> if popup_shown s \<and> \<not> submitted s \<and> v \<in> set (options_of (ps_type p)) then s\<lparr> selected := Some v \<rparr> else s)"

definition type_comment :: "string \<Rightarrow> pulse \<Rightarrow> pulse" where
  "type_comment t s =
     (case active_survey s of None \<Rightarrow> s
      | Some p \<Rightarrow> if popup_shown s \<and> \<not> submitted s \<and> ps_comment p \<and> selected s \<noteq> None \<and> length t \<le> 500
                  then s\<lparr> comment := t \<rparr> else s)"

definition handleSubmit :: "pulse \<Rightarrow> pulse" where
  "handleSubmit s =
     (case (active_survey s, selected s) of
        (Some p, Some v) \<Rightarrow>
          if popup_shown s \<and> \<not> submitted s \<and> \<not> pulse_pending s
          then s\<lparr> pulse_pending := True, pulse_sent := pulse_sent s @ [\<lparr> pa_survey = p, pa_value = v,
                 pa_comment = (if trim (comment s) = [] then None else Some (trim (comment s))) \<rparr>] \<rparr>
          else s
      | _ \<Rightarrow> s)"

definition pulse_answered :: "bool \<Rightarrow> pulse \<Rightarrow> pulse" where
  "pulse_answered ok s =
     (if \<not> pulse_pending s then s
      else if ok then s\<lparr> pulse_pending := False, submitted := True \<rparr> else s\<lparr> pulse_pending := False \<rparr>)"

datatype pulse_event =
    UFetched "pulse_survey option"
  | USelect string
  | UComment string
  | USubmit
  | UAnswered bool
  | UDismiss

fun pulse_step :: "pulse \<Rightarrow> pulse_event \<Rightarrow> pulse" where
  "pulse_step s (UFetched x) = survey_fetched x s"
| "pulse_step s (USelect v) = onSelect v s"
| "pulse_step s (UComment t) = type_comment t s"
| "pulse_step s USubmit = handleSubmit s"
| "pulse_step s (UAnswered ok) = pulse_answered ok s"
| "pulse_step s UDismiss = onDismiss s"

section \<open>The quarterly survey\<close>

datatype score_category = Detractor | Passive | Promoter

definition getScoreCategory :: "int \<Rightarrow> score_category" where
  "getScoreCategory score = (if score \<le> 6 then Detractor else if score \<le> 8 then Passive else Promoter)"

record nps_answer =
  na_score :: int
  na_comment :: "string option"

datatype nps_view = SurveyForm | ThankYou int | AlreadyResponded

record nps_page =
  selectedScore :: "int option"
  nps_comment :: string
  nps_pending :: bool
  submittedResponse :: "int option"
  alreadyResponded :: bool
  nps_sent :: "nps_answer list"

definition nps_start :: nps_page where
  "nps_start = \<lparr> selectedScore = None, nps_comment = [], nps_pending = False, submittedResponse = None,
     alreadyResponded = False, nps_sent = [] \<rparr>"

definition nps_view :: "nps_page \<Rightarrow> nps_view" where
  "nps_view s = (case submittedResponse s of Some n \<Rightarrow> ThankYou n
     | None \<Rightarrow> if alreadyResponded s then AlreadyResponded else SurveyForm)"

definition press_score :: "int \<Rightarrow> nps_page \<Rightarrow> nps_page" where
  "press_score n s = (if nps_view s = SurveyForm \<and> 0 \<le> n \<and> n < 11 then s\<lparr> selectedScore := Some n \<rparr> else s)"

definition type_nps_comment :: "string \<Rightarrow> nps_page \<Rightarrow> nps_page" where
  "type_nps_comment t s = (if nps_view s = SurveyForm \<and> length t \<le> 2000 then s\<lparr> nps_comment := t \<rparr> else s)"

definition submit_nps :: "nps_page \<Rightarrow> nps_page" where
  "submit_nps s =
     (case selectedScore s of None \<Rightarrow> s
      | Some n \<Rightarrow> if nps_view s \<noteq> SurveyForm \<or> nps_pending s then s
          else s\<lparr> nps_pending := True, nps_sent := nps_sent s @ [\<lparr> na_score = n,
            na_comment = (if trim (nps_comment s) = [] then None else Some (trim (nps_comment s))) \<rparr>] \<rparr>)"

text \<open>The answer: the score of the stored response, or the message of the refusal.\<close>

definition nps_answered :: "string + int \<Rightarrow> nps_page \<Rightarrow> nps_page" where
  "nps_answered r s =
     (if \<not> nps_pending s then s
      else (case r of
          Inr n \<Rightarrow> s\<lparr> nps_pending := False, submittedResponse := Some n \<rparr>
        | Inl msg \<Rightarrow> s\<lparr> nps_pending := False,
            alreadyResponded := (alreadyResponded s \<or> str_includes ''already responded'' (lower msg)) \<rparr>))"

datatype nps_event = NScore int | NComment string | NSubmit | NAnswered "string + int"

fun nps_step :: "nps_page \<Rightarrow> nps_event \<Rightarrow> nps_page" where
  "nps_step s (NScore n) = press_score n s"
| "nps_step s (NComment t) = type_nps_comment t s"
| "nps_step s NSubmit = submit_nps s"
| "nps_step s (NAnswered r) = nps_answered r s"

section \<open>Which answers fit their survey\<close>

text \<open>Runs in which a survey is never replaced by another one while its popup is there.\<close>

fun steady :: "pulse \<Rightarrow> pulse_event \<Rightarrow> bool" where
  "steady s (UFetched x) \<longleftrightarrow> x = None \<or> active_survey s = None \<or> x = active_survey s"
| "steady s e \<longleftrightarrow> True"

fun steady_run :: "pulse \<Rightarrow> pulse_event list \<Rightarrow> bool" where
  "steady_run s [] \<longleftrightarrow> True"
| "steady_run s (e # es) \<longleftrightarrow> steady s e \<and> steady_run (pulse_step s e) es"

definition answer_fits :: "pulse_answer \<Rightarrow> bool" where
  "answer_fits a \<longleftrightarrow> pa_value a \<in> set (options_of (ps_type (pa_survey a)))
     \<and> (if ps_comment (pa_survey a) then True else pa_comment a = None)"

definition pulse_ok :: "pulse \<Rightarrow> bool" where
  "pulse_ok s \<longleftrightarrow> list_all answer_fits (pulse_sent s)
     \<and> (case active_survey s of None \<Rightarrow> selected s = None \<and> comment s = []
        | Some p \<Rightarrow> (case selected s of None \<Rightarrow> comment s = [] | Some v \<Rightarrow> v \<in> set (options_of (ps_type p)))
            \<and> (ps_comment p \<or> comment s = []))"

lemma pulse_ok_step: "pulse_ok s \<Longrightarrow> steady s e \<Longrightarrow> pulse_ok (pulse_step s e)"
  by (cases e) (auto simp: pulse_ok_def survey_fetched_def onSelect_def type_comment_def handleSubmit_def
      pulse_answered_def onDismiss_def popup_shown_def answer_fits_def trim_def trim_start_def Let_def split: option.splits)

lemma steady_run_ok: "pulse_ok s \<Longrightarrow> steady_run s es \<Longrightarrow> pulse_ok (run pulse_step es s)"
  by (induction es arbitrary: s) (auto intro: pulse_ok_step)

text \<open>While no survey takes the place of another, each answer that is sent is one of the choices of its survey,
  with a comment only where the survey takes one.\<close>

theorem answers_fit_survey:
  "steady_run pulse_start es \<Longrightarrow> list_all answer_fits (pulse_sent (run pulse_step es pulse_start))"
  using steady_run_ok [of pulse_start es] by (simp add: pulse_ok_def pulse_start_def)

definition face_survey :: pulse_survey where "face_survey = \<lparr> ps_id = ''s1'', ps_type = Emoji, ps_comment = True \<rparr>"
definition thumb_survey :: pulse_survey where "thumb_survey = \<lparr> ps_id = ''s2'', ps_type = Thumbs, ps_comment = False \<rparr>"

lemmas pulse_defs = survey_fetched_def onSelect_def type_comment_def handleSubmit_def pulse_answered_def onDismiss_def
  popup_shown_def pulse_start_def answer_fits_def face_survey_def thumb_survey_def trim_def trim_start_def Let_def

theorem answers_fit_survey_witness:
  "list_all answer_fits (pulse_sent (run pulse_step [UFetched (Some face_survey), USelect ''sad'', USubmit] pulse_start))
   \<and> map pa_value (pulse_sent (run pulse_step [UFetched (Some face_survey), USelect ''sad'', USubmit] pulse_start)) = [''sad'']"
proof
  show "list_all answer_fits (pulse_sent (run pulse_step [UFetched (Some face_survey), USelect ''sad'', USubmit] pulse_start))"
    by (rule answers_fit_survey) (simp add: pulse_start_def)
qed (simp add: pulse_defs)

text \<open>The popup outlives its survey when another one takes its place: the choice made for the first is sent as
  the answer of the second, with a comment it does not take.\<close>

lemma choice_sent_for_other_survey:
  "(let s = run pulse_step [UFetched (Some face_survey), USelect ''sad'', UComment ''late'', UFetched (Some thumb_survey), USubmit] pulse_start
    in pulse_sent s = [\<lparr> pa_survey = thumb_survey, pa_value = ''sad'', pa_comment = Some ''late'' \<rparr>])"
  by (simp add: pulse_defs is_space_def code_def)

text \<open>The answer has the survey fetched again.  When it is gone, so is the popup with its thanks; when another
  one is there, the popup thanks for an answer to it.\<close>

lemma thanks_vanish: "\<not> popup_shown (pulse_step (pulse_answered True s) (UFetched None))"
  by (simp add: survey_fetched_def popup_shown_def Let_def)

lemma thanked_for_other_survey:
  assumes "popup_shown s" "pulse_pending s"
  shows "submitted (pulse_step (pulse_answered True s) (UFetched (Some thumb_survey)))"
    "handleSubmit (pulse_step (pulse_answered True s) (UFetched (Some thumb_survey))) = pulse_step (pulse_answered True s) (UFetched (Some thumb_survey))"
  using assms by (auto simp: survey_fetched_def pulse_answered_def popup_shown_def handleSubmit_def Let_def split: option.split)

lemma dismissed_for_good: "dismissed s \<Longrightarrow> dismissed (run pulse_step es s)"
proof (induction es arbitrary: s)
  case (Cons e es)
  have "dismissed (pulse_step s e)"
    using Cons.prems by (cases e) (auto simp: survey_fetched_def onSelect_def type_comment_def handleSubmit_def
        pulse_answered_def onDismiss_def Let_def split: option.split)
  then show ?case using Cons.IH by simp
qed simp

section \<open>The scores\<close>

text \<open>The categories are those the page explains: 9 and 10, 7 and 8, 0 to 6.\<close>

lemma categories_as_explained:
  "getScoreCategory n = Promoter \<longleftrightarrow> 9 \<le> n" "getScoreCategory n = Passive \<longleftrightarrow> n = 7 \<or> n = 8" "getScoreCategory n = Detractor \<longleftrightarrow> n \<le> 6"
  by (auto simp: getScoreCategory_def)

definition nps_ok :: "nps_page \<Rightarrow> bool" where
  "nps_ok s \<longleftrightarrow> list_all (\<lambda>a. 0 \<le> na_score a \<and> na_score a \<le> 10) (nps_sent s)
     \<and> (case selectedScore s of None \<Rightarrow> True | Some n \<Rightarrow> 0 \<le> n \<and> n \<le> 10)"

lemma nps_ok_step: "nps_ok s \<Longrightarrow> nps_ok (nps_step s e)"
  by (cases e) (auto simp: nps_ok_def press_score_def type_nps_comment_def submit_nps_def nps_answered_def
      split: option.splits sum.split)

interpretation nps: machine nps_step nps_ok
  by unfold_locales (rule nps_ok_step)

text \<open>In every run each score that is sent is between 0 and 10.\<close>

theorem scores_in_range: "nps_ok (run nps_step es nps_start)"
  by (rule nps.every_run_inv) (simp add: nps_ok_def nps_start_def)

text \<open>The refusal of the server for a second response leads to the view that says so.\<close>

lemma second_response_told:
  "nps_pending s \<Longrightarrow> submittedResponse s = None \<Longrightarrow>
   nps_view (nps_answered (Inl ''You have already responded to this survey'') s) = AlreadyResponded"
proof -
  have "str_includes ''already responded'' (lower ''You have already responded to this survey'')" by code_simp
  moreover assume "nps_pending s" "submittedResponse s = None"
  ultimately show ?thesis by (simp add: nps_answered_def nps_view_def)
qed

end
