(* ===== verification/Playbooks.thy ===== *)
theory Playbooks
  imports Machines
begin

text \<open>
  The steps of an escalation playbook (\<open>components/escalations/playbook-viewer.tsx\<close>): a row with its notes,
  its form for skipping and its updates.

  An update is applied by the server: \<open>server_update\<close> is what \<open>update_step_state\<close> of
  \<open>app/services/escalation_playbook_service.py\<close> does to the step.  The row shows what was fetched last.
\<close>

section \<open>A step and its updates\<close>

record step_state =
  st_completed :: bool
  st_skipped :: bool
  st_reason :: "string option"
  st_notes :: "string option"

record step_update =
  up_completed :: "bool option"
  up_skipped :: "bool option"
  up_reason :: "string option"
  up_notes :: "string option"

definition apply_completed :: "bool option \<Rightarrow> step_state \<Rightarrow> step_state" where
  "apply_completed c s =
     (case c of None \<Rightarrow> s
      | Some True \<Rightarrow> s\<lparr> st_completed := True, st_skipped := False, st_reason := None \<rparr>
      | Some False \<Rightarrow> s\<lparr> st_completed := False \<rparr>)"

definition apply_skipped :: "bool option \<Rightarrow> string option \<Rightarrow> step_state \<Rightarrow> step_state" where
  "apply_skipped k reason s =
     (case k of None \<Rightarrow> s
      | Some True \<Rightarrow> s\<lparr> st_skipped := True, st_reason := reason, st_completed := False \<rparr>
      | Some False \<Rightarrow> s\<lparr> st_skipped := False \<rparr>)"

definition server_update :: "step_update \<Rightarrow> step_state \<Rightarrow> step_state" where
  "server_update u s =
     (let s' = apply_skipped (up_skipped u) (up_reason u) (apply_completed (up_completed u) s)
      in case up_notes u of None \<Rightarrow> s' | Some n \<Rightarrow> s'\<lparr> st_notes := Some n \<rparr>)"

text \<open>The states of an execution by the order of their step: a later one of the same order wins.\<close>

definition stepMap :: "(nat \<times> step_state) list \<Rightarrow> nat \<Rightarrow> step_state option" where
  "stepMap l = foldl (\<lambda>m (k, s). m(k \<mapsto> s)) Map.empty l"

section \<open>A row\<close>

record step_row =
  shown :: "step_state option"
  stored :: step_state
  expanded :: bool
  step_notes :: string
  skipReason :: string
  showSkip :: bool
  running :: "step_update option"
  stale_row :: bool
  saved_toasts :: nat

definition row_start :: "step_state option \<Rightarrow> step_state \<Rightarrow> step_row" where
  "row_start s st = \<lparr> shown = s, stored = st, expanded = False,
     step_notes = (case s of None \<Rightarrow> [] | Some x \<Rightarrow> (case st_notes x of None \<Rightarrow> [] | Some n \<Rightarrow> n)),
     skipReason = (case s of None \<Rightarrow> [] | Some x \<Rightarrow> (case st_reason x of None \<Rightarrow> [] | Some n \<Rightarrow> n)),
     showSkip = False, running = None, stale_row = False, saved_toasts = 0 \<rparr>"

definition isCompleted :: "step_row \<Rightarrow> bool" where
  "isCompleted r \<longleftrightarrow> (case shown r of None \<Rightarrow> False | Some s \<Rightarrow> st_completed s)"

definition isSkipped :: "step_row \<Rightarrow> bool" where
  "isSkipped r \<longleftrightarrow> (case shown r of None \<Rightarrow> False | Some s \<Rightarrow> st_skipped s)"

text \<open>The forms and buttons of an open row whose step is neither done nor skipped.\<close>

definition editable :: "step_row \<Rightarrow> bool" where
  "editable r \<longleftrightarrow> expanded r \<and> \<not> isCompleted r \<and> \<not> isSkipped r"

definition notes_sent :: "step_row \<Rightarrow> string option" where
  "notes_sent r = (if step_notes r = [] then None else Some (step_notes r))"

definition handleToggleComplete :: "step_row \<Rightarrow> step_row" where
  "handleToggleComplete r =
     (if \<not> editable r \<or> running r \<noteq> None then r
      else r\<lparr> running := Some \<lparr> up_completed = Some (\<not> isCompleted r), up_skipped = None, up_reason = None,
                                up_notes = notes_sent r \<rparr> \<rparr>)"

definition handleSkip :: "step_row \<Rightarrow> step_row" where
  "handleSkip r =
     (if \<not> editable r \<or> \<not> showSkip r \<or> running r \<noteq> None \<or> trim (skipReason r) = [] then r
      else r\<lparr> running := Some \<lparr> up_completed = None, up_skipped = Some True, up_reason = Some (skipReason r),
                                up_notes = None \<rparr>, showSkip := False \<rparr>)"

definition shown_notes :: "step_row \<Rightarrow> string" where
  "shown_notes r = (case shown r of None \<Rightarrow> [] | Some s \<Rightarrow> (case st_notes s of None \<Rightarrow> [] | Some n \<Rightarrow> n))"

definition handleSaveNotes :: "step_row \<Rightarrow> step_row" where
  "handleSaveNotes r =
     (if \<not> editable r \<or> step_notes r = shown_notes r \<or> running r \<noteq> None then r
      else r\<lparr> running := Some \<lparr> up_completed = None, up_skipped = None, up_reason = None, up_notes = notes_sent r \<rparr>,
              saved_toasts := Suc (saved_toasts r) \<rparr>)"

definition update_answered :: "bool \<Rightarrow> step_row \<Rightarrow> step_row" where
  "update_answered ok r =
     (case running r of None \<Rightarrow> r
      | Some u \<Rightarrow> if ok then r\<lparr> running := None, stored := server_update u (stored r), stale_row := True \<rparr>
                  else r\<lparr> running := None \<rparr>)"

definition row_fetched :: "step_row \<Rightarrow> step_row" where
  "row_fetched r = (if stale_row r then r\<lparr> shown := Some (stored r), stale_row := False \<rparr> else r)"

datatype row_event =
    WExpand
  | WNotes string
  | WReason string
  | WShowSkip bool
  | WComplete
  | WSkip
  | WSave
  | WAnswered bool
  | WFetched

fun row_step :: "step_row \<Rightarrow> row_event \<Rightarrow> step_row" where
  "row_step r WExpand = r\<lparr> expanded := \<not> expanded r \<rparr>"
| "row_step r (WNotes t) = (if editable r then r\<lparr> step_notes := t \<rparr> else r)"
| "row_step r (WReason t) = (if editable r \<and> showSkip r then r\<lparr> skipReason := t \<rparr> else r)"
| "row_step r (WShowSkip b) = (if editable r then r\<lparr> showSkip := b \<rparr> else r)"
| "row_step r WComplete = handleToggleComplete r"
| "row_step r WSkip = handleSkip r"
| "row_step r WSave = handleSaveNotes r"
| "row_step r (WAnswered ok) = update_answered ok r"
| "row_step r WFetched = row_fetched r"

lemmas row_defs = handleToggleComplete_def handleSkip_def handleSaveNotes_def update_answered_def row_fetched_def
  editable_def isCompleted_def isSkipped_def notes_sent_def shown_notes_def server_update_def apply_completed_def
  apply_skipped_def Let_def

section \<open>What a step can be\<close>

definition state_ok :: "step_state \<Rightarrow> bool" where
  "state_ok s \<longleftrightarrow> \<not> (st_completed s \<and> st_skipped s)
     \<and> (st_skipped s \<longrightarrow> (case st_reason s of None \<Rightarrow> False | Some t \<Rightarrow> trim t \<noteq> []))"

definition update_ok :: "step_update \<Rightarrow> bool" where
  "update_ok u \<longleftrightarrow> up_completed u \<noteq> Some False \<and> up_skipped u \<noteq> Some False
     \<and> (up_skipped u = Some True \<longrightarrow> (case up_reason u of None \<Rightarrow> False | Some t \<Rightarrow> trim t \<noteq> []))"

lemma server_update_ok: "state_ok s \<Longrightarrow> update_ok u \<Longrightarrow> state_ok (server_update u s)"
  by (auto simp: state_ok_def update_ok_def server_update_def apply_completed_def apply_skipped_def Let_def
      split: option.splits bool.splits)

definition row_ok :: "step_row \<Rightarrow> bool" where
  "row_ok r \<longleftrightarrow> state_ok (stored r) \<and> (case running r of None \<Rightarrow> True | Some u \<Rightarrow> update_ok u)"

lemma row_ok_step: "row_ok r \<Longrightarrow> row_ok (row_step r e)"
proof (cases e)
  case (WAnswered ok)
  assume "row_ok r"
  then show ?thesis using WAnswered
    by (cases "running r") (simp_all add: row_ok_def update_answered_def server_update_ok)
qed (auto simp: row_ok_def update_ok_def handleToggleComplete_def handleSkip_def handleSaveNotes_def editable_def
    row_fetched_def split: option.splits)

interpretation row: machine row_step row_ok
  by unfold_locales (rule row_ok_step)

definition fresh_state :: step_state where
  "fresh_state = \<lparr> st_completed = False, st_skipped = False, st_reason = None, st_notes = None \<rparr>"

text \<open>In every run the stored step is never both completed and skipped, and a skipped one has a reason.\<close>

theorem step_completed_or_skipped: "state_ok (stored (run row_step es (row_start x fresh_state)))"
proof -
  have "row_ok (row_start x fresh_state)" by (simp add: row_ok_def row_start_def state_ok_def fresh_state_def)
  then show ?thesis using row.every_run_inv by (simp add: row_ok_def)
qed

text \<open>Nothing on the page takes a step back: once it is completed or skipped it stays one of the two.\<close>

definition acted :: "step_row \<Rightarrow> bool" where
  "acted r \<longleftrightarrow> row_ok r \<and> (st_completed (stored r) \<or> st_skipped (stored r))"

lemma acted_step: "acted r \<Longrightarrow> acted (row_step r e)"
proof (cases e)
  case (WAnswered ok)
  assume a: "acted r"
  then have "row_ok (row_step r e)" by (simp add: acted_def row_ok_step)
  then show ?thesis using a WAnswered
    by (cases "running r") (auto simp: acted_def row_ok_def update_ok_def update_answered_def server_update_def
        apply_completed_def apply_skipped_def Let_def split: option.splits bool.splits)
qed (use row_ok_step [of r e] in \<open>auto simp: acted_def handleToggleComplete_def handleSkip_def handleSaveNotes_def row_fetched_def\<close>)

interpretation acting: machine row_step acted
  by unfold_locales (rule acted_step)

lemma acted_for_good: "acted r \<Longrightarrow> acted (run row_step es r)"
  by (rule acting.every_run_inv)

section \<open>Surprises\<close>

text \<open>Between the answer and the refetch the row still offers its buttons: skipping then takes the completion
  back.\<close>

lemma skipped_after_completion:
  "(let r = run row_step [WExpand, WComplete, WAnswered True, WShowSkip True, WReason ''no'', WSkip, WAnswered True]
      (row_start (Some fresh_state) fresh_state)
    in st_skipped (stored r) \<and> \<not> st_completed (stored r))"
  by (simp add: row_start_def fresh_state_def row_defs trim_def trim_start_def is_space_def code_def)

text \<open>Notes that are emptied are sent as no notes: the stored ones stay, while the page says that they were
  saved.\<close>

lemma emptied_notes_stay:
  assumes "editable r" "running r = None" "shown_notes r \<noteq> []"
  shows "st_notes (stored (run row_step [WNotes [], WSave, WAnswered True] r)) = st_notes (stored r)"
    "saved_toasts (run row_step [WNotes [], WSave] r) = Suc (saved_toasts r)"
  using assms by (auto simp: row_defs split: option.splits)

text \<open>The message that notes were saved does not wait for the answer.\<close>

lemma saved_before_answer:
  assumes "editable r" "running r = None" "step_notes r \<noteq> shown_notes r"
  shows "saved_toasts (run row_step [WSave, WAnswered False] r) = Suc (saved_toasts r)"
    "stored (run row_step [WSave, WAnswered False] r) = stored r"
  using assms by (auto simp: row_defs split: option.splits)

text \<open>Skipping a step drops the notes typed for it.\<close>

lemma skip_drops_notes: "up_skipped u = Some True \<Longrightarrow> up_notes u = None \<Longrightarrow> st_notes (server_update u s) = st_notes s"
  by (auto simp: server_update_def apply_completed_def apply_skipped_def Let_def split: option.split bool.split)

lemma last_state_wins: "stepMap (l @ [(k, s)]) k = Some s"
  by (simp add: stepMap_def)

end
