(* ===== verification/Spec2Isabelle.thy ===== *)
theory Spec2Isabelle
  imports Undo Offline Preferences ApiClient Tours FieldValidation TableColumns DeepLinks AutoSave
    WebSockets MobileNotifications Navigation TaskBoard Keyboard History ReadStatus ImportWizard BulkEdit
    DependencyGraph NavMenus RouteGuards Breadcrumbs QuickActions QuickActionsBar Exports ProgramGantt
    Search ErrorLog DocumentDiff Uploads Deliverables
    SplitView FocusMode Calendars Meetings GanttChart ListPages Feeds
    EditableTable VoiceMessages Intake FormSections DataGrid
    SpeechInput MobileSignIn FocusTraps Announcements FormUndo AutoSaveForm
    MobileWidgets BulkEditDialog Decisions Timelines
    Comparisons TourViews HelpPanel BudgetThresholds Webhooks MessageText MessageTemplates Scorecards
    CalendarLinks ReportSchedules Closures StepUpPrompt SecuritySettings SharedDocuments Pipeline
    Surveys Playbooks
begin

text \<open>
  AMG Portal: the client-side state machines of the browser application (\<open>frontend/src\<close>) and of
  the mobile application (\<open>mobile\<close>), both TypeScript.

  The program.  Both applications show data of one backend over HTTP and a web socket.  Their own
  logic lives in stores (zustand), hooks (React) and services: who is signed in and when a session
  ends, how requests that meet a 401 are parked, refreshed and resent, what is cached and queued
  while offline, how preferences, drafts, tours, columns, filters and search histories are kept
  and synchronised, and how forms, keyboards, task boards and notifications react.  These parts
  are modelled operation by operation; the view code around them is not.

  Form of the models.  Each component is a record (its state), one definition per operation in the
  order of the source file, and a step function over a datatype of events: user actions, answers of
  the network, timers, renders and app-state changes.  \<open>Machines.run\<close> folds a list of events, so a
  statement over every event list is a statement over every order in which the browser may deliver
  them.  An operation that awaits something is split at the await; what may happen in between is
  then an event like any other.  React details that matter are explicit: values captured by a
  render are snapshots (Preferences), effects run after the handler that caused the render
  (Navigation), refs are fields.  A thrown exception is a value (\<open>exec\<close>, options).  The clock is an
  argument.  Code outside the repository is a parameter: the storage's failing calls, the
  keychain, the biometric prompt, the server's answers, URL parsing, regular expressions.

  Theories and sources.
  \<^item> JsPrelude: JavaScript values, objects as ordered association lists, slicing, strings.
  \<^item> Machines: runs of event lists and the interfaces \<open>guarded_machine\<close>, \<open>machine\<close> (invariants of
    operations hold in every run) and \<open>keyed_store\<close> (what a key reads depends on the operations
    addressed to it alone); every component interprets the ones it needs.
  \<^item> Storage: JSON and text storage, \<open>mobile/lib/secure-storage.ts\<close>, \<open>parseInt\<close>.
  \<^item> Undo: \<open>hooks/use-undo.ts\<close>.  undo restores what setting replaced, redo undoes an undo, the
    history is bounded.
  \<^item> DataCache: \<open>mobile/services/DataCache.ts\<close>.  On a reliable storage the cache implements a
    map with expiry times (a refinement over every run on keys other than its own); the interface \<open>expiring_store\<close> carries the offline proofs.
  \<^item> MobileAuth: \<open>mobile/lib/auth-store.ts\<close>, \<open>mobile/hooks/use-session.ts\<close>,
    \<open>mobile/hooks/use-biometrics.ts\<close>, with \<open>isTokenExpired\<close> of \<open>mobile/lib/utils.ts\<close>.  A restart
    restores the session, timeouts end it, a revoked one stays locked.
  \<^item> Offline: \<open>mobile/hooks/use-offline.ts\<close>, \<open>use-offline-messages.ts\<close>, \<open>use-cached-data.ts\<close> on top of
    DataCache and MobileAuth.  Delivery rounds, bounded retries, drafts, offline reads.
  \<^item> Preferences: \<open>stores/preferences-store.ts\<close>, \<open>hooks/use-preferences-sync.ts\<close>.  Edits survive
    failed syncs; which edits a later sync loses.
  \<^item> StepUp: \<open>stores/step-up.ts\<close>, \<open>lib/csrf.ts\<close>, \<open>lib/token-storage.ts\<close>.
  \<^item> ApiClient: \<open>lib/api.ts\<close> and \<open>mobile/lib/api.ts\<close>.  The interface \<open>refresh_gate\<close> and the two
    response interceptors; no request of the browser client is lost or doubled.
  \<^item> Tours: \<open>lib/tours/config.ts\<close>, \<open>stores/tours-store.ts\<close>, \<open>hooks/use-tours.ts\<close>.
  \<^item> FieldValidation: \<open>hooks/use-field-validation.ts\<close>, \<open>components/ui/editable-cell/validate-value.ts\<close>
    and \<open>use-cell-save.ts\<close>.  The two rule chains agree, and the last validation wins.
  \<^item> TableColumns: \<open>hooks/use-table-columns.ts\<close>.  Tables are independent, widths clamped.
  \<^item> DeepLinks: \<open>mobile/utils/deepLinks.ts\<close>.  Round trips.
  \<^item> AutoSave: \<open>hooks/use-auto-save.ts\<close>, \<open>hooks/use-auto-save-debounce.ts\<close>.  The recovery draft
    refines the last saved data.
  \<^item> WebSockets: \<open>hooks/use-websocket.ts\<close> of the browser.  Nothing happens before authentication.
  \<^item> MobileNotifications: \<open>mobile/hooks/use-websocket.ts\<close>, \<open>use-notifications.ts\<close>,
    \<open>use-push-notifications.ts\<close>, \<open>mobile/lib/notification-store.ts\<close>.  Bounded backoff, counting,
    the opening of notifications through DeepLinks.
  \<^item> Navigation: \<open>stores/navigation-store.ts\<close>, \<open>hooks/use-navigation-state.ts\<close>.
  \<^item> TaskBoard: \<open>hooks/use-task-board.ts\<close>.  Columns, moves, bulk operations.
  \<^item> Keyboard: \<open>lib/keyboard-shortcuts.ts\<close>, \<open>hooks/use-keyboard-shortcuts.ts\<close>.
  \<^item> History: \<open>hooks/use-recent-searches.ts\<close>, \<open>lib/action-context.ts\<close>.
  \<^item> ReadStatus: \<open>hooks/use-read-status.ts\<close>.
  \<^item> ImportWizard: \<open>components/import/import-wizard/hooks/use-import-wizard.ts\<close>.  Only uploaded data
    is imported.
  \<^item> BulkEdit: \<open>hooks/use-bulk-edit.ts\<close>.
  \<^item> NavMenus: \<open>config/navigation\<close>, \<open>lib/nav-utils.ts\<close>, \<open>components/navigation/sidebar-nav.tsx\<close>.
    The menus of every role; sidebar and command palette agree.
  \<^item> RouteGuards: \<open>providers/auth-provider.tsx\<close>, \<open>components/auth-guard.tsx\<close>, the layouts and
    the checks of the user's role in the pages.  Where a user is sent, that at most two redirects
    follow each other, and which pages of the menu are open.
  \<^item> Breadcrumbs: \<open>components/navigation/breadcrumbs.tsx\<close> and its configuration.
  \<^item> QuickActions: \<open>providers/quick-actions-provider.tsx\<close> with the registry, search, keyboard and menu
    of quick actions; QuickActionsBar: \<open>hooks/use-quick-actions-bar.ts\<close>.
  \<^item> DependencyGraph: \<open>components/tasks/task-dependency-graph.tsx\<close>.  When the layout loop ends, and
    that the columns are the longest paths.
  \<^item> ProgramGantt: \<open>hooks/use-program-gantt.ts\<close>.  The topological order, the critical path and the
    range, in the local time of the browser (a zone of JsNumbers).
  \<^item> Exports: \<open>lib/export-utils.ts\<close>, \<open>lib/dashboard-export.ts\<close>,
    \<open>components/ui/data-table-export.tsx\<close>.  When the texts read back as CSV, that
    the pages cover the canvas.
  \<^item> Search: the query parser, the command palette and the search field of \<open>components/search\<close>, with
    \<open>hooks/use-debounce.ts\<close>.  What the operators of a query select.
  \<^item> ErrorLog: \<open>providers/error-logger-provider.tsx\<close> and \<open>app/api/error-log/route.ts\<close>.  Every error
    of one mounting leaves in one batch or waits in the queue; what is written to the file.
  \<^item> DocumentDiff: \<open>components/documents/version-compare.tsx\<close>.  What the two views of a difference
    show.
  \<^item> Uploads: \<open>components/documents/upload-zone.tsx\<close> and \<open>bulk-upload.tsx\<close>; Deliverables:
    \<open>components/partners/bulk-deliverable-upload.tsx\<close> with its types and file list.  Nothing is sent
    twice.
  \<^item> JsNumbers and JsMaps: \<open>parseFloat\<close>, \<open>toFixed\<close>, rounding, the civil calendar and local time, and grouping into a
    map of lists, as the following theories use them; query strings are at the end of JsPrelude.
  \<^item> SplitView: \<open>hooks/use-split-view.tsx\<close> with \<open>components/layout/split-view-toggle.tsx\<close>.  The address
    restores the view.
  \<^item> FocusMode: \<open>hooks/use-focus-mode.tsx\<close> and \<open>providers/focus-mode-provider.tsx\<close>.
  \<^item> Calendars: \<open>components/partners/assignment-calendar\<close> and \<open>components/portal/milestone-calendar.tsx\<close>.
    Which cell shows what, and when the columns are the right weekdays.
  \<^item> Meetings: \<open>components/portal/book-meeting\<close>.  Only offered slots are requested.
  \<^item> GanttChart: \<open>components/programs/gantt-chart.tsx\<close> and its toolbar, drawing what ProgramGantt
    computes.  Bars stay inside as far as the clock is not set.
  \<^item> ListPages: the pages of partners, programs and clients.  The address keeps the choices.
  \<^item> QueryViews: views whose query key is made during the render, with the interfaces \<open>moving_key\<close>
    and \<open>steady_key\<close>; Feeds: \<open>components/portal/whats-new-feed.tsx\<close> and
    \<open>components/escalations/metrics-dashboard.tsx\<close>, which interpret them.
  \<^item> EditableTable: \<open>components/ui/editable-table.tsx\<close>.  Every cell lives by itself, with saves
    of a cell that may overlap;
    DataGrid: the keyboard of \<open>accessible-data-table.tsx\<close>; FormSections: \<open>collapsible-section.tsx\<close> and
    \<open>form-section.tsx\<close>.
  \<^item> VoiceMessages: recorder and player of \<open>components/communications\<close>.  When the microphone is open, and
    how it stays open.
  \<^item> Intake: the wizard of \<open>components/intake\<close>.  What is submitted, and by which buttons.
  \<^item> SpeechInput: \<open>mobile/hooks/use-speech-to-text.ts\<close> and \<open>mobile/components/VoiceInput.tsx\<close>.  When the
    insertion of the transcripts comes to rest.
  \<^item> MobileSignIn: the routing and the login of \<open>mobile/app\<close>, the code screen, and
    \<open>mobile/lib/device-integrity.ts\<close>.  When the redirects settle, and who is signed in.
  \<^item> FocusTraps: \<open>components/ui/focus-trap.tsx\<close>, \<open>accessible-dialog.tsx\<close>.  When the Tab key can leave them.
  \<^item> Announcements: \<open>hooks/use-announcer.tsx\<close>, \<open>components/ui/live-region.tsx\<close>.  Every message is cleared.
  \<^item> FormUndo: \<open>components/ui/form.tsx\<close>, \<open>form-undo-redo.tsx\<close>.  The provider refines the hook of Undo.
  \<^item> AutoSaveForm: \<open>components/ui/auto-save-form-provider.tsx\<close>, \<open>draft-recovery-dialog.tsx\<close>,
    \<open>auto-save-indicator.tsx\<close>.  When the recovery dialog is open.
  \<^item> MobileWidgets: \<open>mobile/widgets\<close>.  What a quick action routes, and where the interval runs.
  \<^item> BulkEditDialog: \<open>components/ui/bulk-edit-dialog.tsx\<close>.  Which requests it can send.
  \<^item> Decisions: \<open>components/decisions\<close>, the portal's decisions and \<open>mobile/app/(client)/decisions\<close>.  The
    option that was chosen is the one shown.
  \<^item> Timelines: \<open>components/sla/sla-clock.tsx\<close>, \<open>programs/program-timeline.tsx\<close>,
    \<open>clients/client-timeline.tsx\<close> and the deadline badge.  What the clock shows.
  \<^item> Comparisons: \<open>components/partners/partner-comparison.tsx\<close> and its page.  Who gets the trophy, and the
    CSV text read back.
  \<^item> TourViews: \<open>components/tours\<close> on the store of Tours.  No started tour is ever shown.
  \<^item> HelpPanel: \<open>hooks/use-help-context.ts\<close>, \<open>components/help\<close>.  Searching is filtering.
  \<^item> BudgetThresholds: the page of the approval thresholds and chains under \<open>app/(dashboard)/settings\<close>.  What a
    save sends.
  \<^item> Webhooks: the webhooks page under \<open>app/(partner)\<close>.  What is sent has passed the validation.
  \<^item> MessageText: \<open>components/communications/message-bubble.tsx\<close>, \<open>message-compose.tsx\<close>.  No markup of the
    sender reaches the page, and files are not sent.
  \<^item> MessageTemplates: the templates page, \<open>ApprovalDialog.tsx\<close> and \<open>template-compose.tsx\<close>.  Which
    variables a text has, and that messages are complete.
  \<^item> Scorecards: \<open>components/partners/scorecard-dashboard.tsx\<close>, \<open>performance-chart.tsx\<close>,
    \<open>performance-alerts.tsx\<close>.  Levels, and which event a week shows.
  \<^item> CalendarLinks: \<open>components/decisions/add-to-calendar-button.tsx\<close>.  Both calendars read the event of
    the decision while the clock is not set; how long it lasts where it is.
  \<^item> ReportSchedules: \<open>components/reports/schedule-report-dialog.tsx\<close>, \<open>scheduled-reports-list.tsx\<close> and their
    page.  What is created and what an edit keeps.
  \<^item> Closures: the closure page of a program and \<open>hooks/use-closure.ts\<close>.  What toggled items and ratings
    become.
  \<^item> StepUpPrompt: \<open>components/auth/step-up-modal.tsx\<close> on the store of StepUp.  Which tokens are kept, and
    which promise gets one.
  \<^item> SecuritySettings: \<open>components/settings/security-settings-form.tsx\<close> and \<open>components/auth/mfa-setup.tsx\<close>.
    The second factor as the page and the server see it, and the passwords that are sent.
  \<^item> SharedDocuments: the page behind a shared link and \<open>components/portal/share-document-dialog.tsx\<close>.  Which
    codes open a document, and what revoking does.
  \<^item> Pipeline: the pipeline of opportunities, with the \<open>reorder\<close> of \<open>opportunity_service.py\<close> under
    \<open>backend/app/services\<close>.  Where a dropped card lands.
  \<^item> Surveys: \<open>components/portal/pulse-survey-popup.tsx\<close> and the page of the quarterly survey.  Which answers
    fit their survey.
  \<^item> Playbooks: \<open>components/escalations/playbook-viewer.tsx\<close>, with \<open>update_step_state\<close> of
    \<open>escalation_playbook_service.py\<close> beside it.  What a step can become.
  (File names without a directory prefix are under \<open>frontend/src\<close>, or beside the file named before.)

  How the parts interact.  ApiClient uses the step-up store and the CSRF helpers for what a
  request carries and MobileAuth for the tokens of the mobile client; Offline stores its queues and
  query results in DataCache and checks the session of MobileAuth before it resends;
  MobileNotifications follows the token of the authentication store and opens routes through
  DeepLinks.  FieldValidation is used by forms and by the inline cell editor.

  Kinds of results.  Invariants and safety over every run (requests conserved, retries bounded,
  nothing before authentication, typing runs no shortcut); refinements (cache, drafts);
  round trips (session restart, links, filters, undo); functional statements of one operation on
  every branch (delivery round, timeouts, columns, moves); and statements of what the code does
  where it differs from its documentation, each named as such in its text (for example the mobile
  client that stays stuck without a refresh token, or a token refresh that leaves two live
  connections).  A statement with hypotheses is followed in its theory by a witness at a concrete
  input.

  Bounds and fuel.  No model uses fuel.  Loops over lists are folds or structural recursions;
  the queue loop of the critical path and the page loop of the PDF are functions with a measure;
  the queue loop of the dependency graph and the day loop of the chart's ticks, which need not end,
  are partial functions into an option; DependencyGraph says for which graphs the one returns,
  GanttChart in which zones the other.  Numbers are unbounded integers; the modelled code
  counts and compares milliseconds and never leaves the range where doubles are exact.  Fractions
  (ratios, pixels, percentages) are rational numbers, without the rounding of doubles.  Strings
  have characters below 256.

  Not modelled.  The Python backend, the markup of the view code (tsx), generated types, the endpoint wrappers
  and query hooks that only pair a URL with a cache key, the zod schemas, the platform drivers
  (widgets, the recogniser, the keychain) and the display of dates, keys and icons; and
  of the pages those that only draw the answer of a query.  Of the pages with logic of their own the
  administration of the surveys, the detail pages of partners and clients and the reports are left; of
  the backend only the two services that place a card and apply a step are written out.
\<close>

text \<open>A tapped notification about a program, conversation or decision.\<close>

definition entity_notification :: "string \<Rightarrow> string \<Rightarrow> notification_data" where
  "entity_notification e i = \<lparr> deep_link = None, entity_type = Some e, entity_id = Some i, action_url = None \<rparr>"

text \<open>Notifications and deep links agree: the first tap on a notification about an entity whose
  type is known (in any case, singular or plural) pushes the screen of that entity, the one the web
  path of the same entity leads to, and a later tap of the same session pushes nothing more.\<close>

theorem tapped_entity_opens_its_screen:
  assumes "getDeepLinkTypeFromEntity (Some e) = t" "t \<noteq> Unknown" "i \<noteq> []" "CHR ''/'' \<notin> set i"
    and "\<not> navigationHandled s"
  shows "Some (last (pushedRoutes (taps (Some (entity_notification e i) # ds) s))) = DEEP_LINK_ROUTES t i
    \<and> length (pushedRoutes (taps (Some (entity_notification e i) # ds) s)) = Suc (length (pushedRoutes s))
    \<and> getRouteFromDeepLink (''/'' @ type_text t @ ''/'' @ i) = DEEP_LINK_ROUTES t i"
proof -
  let ?d = "entity_notification e i"
  have r: "notification_route ?d = DEEP_LINK_ROUTES t i"
    by (rule entity_notification_route) (use assms in \<open>simp_all add: entity_notification_def MobileNotifications.present_def\<close>)
  obtain w where w: "DEEP_LINK_ROUTES t i = Some w" "w \<noteq> []" using assms(2) by (cases t) auto
  have "pushedRoutes (taps (Some ?d # ds) s) = pushedRoutes s @ [w]"
    using first_tap [OF assms(5)] r w by (simp add: MobileNotifications.present_def)
  moreover have "getRouteFromDeepLink (''/'' @ type_text t @ ''/'' @ i) = DEEP_LINK_ROUTES t i"
    using web_path_route [OF assms(2,3,4)] .
  ultimately show ?thesis using w by simp
qed

lemma tapped_entity_witness:
  "pushedRoutes (taps [Some (entity_notification ''Program'' ''p7''), Some (entity_notification ''decision'' ''d1'')]
     \<lparr> navigationHandled = False, pushedRoutes = [] \<rparr>) = [''/(client)/programs/p7'']"
proof -
  have "lower ''Program'' = ''program''" by code_simp
  then have k: "getDeepLinkTypeFromEntity (Some ''Program'') = Programs"
    by (simp add: getDeepLinkTypeFromEntity_def ENTITY_TYPE_MAP_def)
  let ?l = "pushedRoutes (taps [Some (entity_notification ''Program'' ''p7''), Some (entity_notification ''decision'' ''d1'')]
     \<lparr> navigationHandled = False, pushedRoutes = [] \<rparr>)"
  have "Some (last ?l) = Some ''/(client)/programs/p7'' \<and> length ?l = 1"
    using tapped_entity_opens_its_screen [OF k, of "''p7''" "\<lparr> navigationHandled = False, pushedRoutes = [] \<rparr>"
        "[Some (entity_notification ''decision'' ''d1'')]"] by simp
  then show ?thesis by (cases ?l rule: rev_cases) auto
qed

end
